(* ===== verification/Prelude.thy ===== *)
theory Prelude
  imports Complex_Main
begin

text \<open>
  The vocabulary every component shares: names for the model's basic types, the
  collections the components add their facts to, and the generic lemmas on sums, maps,
  lists and bounded counters that the component proofs rest on.
\<close>

section \<open>Basic types\<close>

text \<open>
  A Python \<open>Decimal\<close> is a rational number. The market data and setup theories round every operation
  to the context's 28 digits (\<open>dq\<close> of \<open>Numerics\<close>); the execution, risk and position theories take
  \<open>+\<close>, \<open>-\<close> and \<open>*\<close> on their prices and quantities as exact, which they are while the
  results have at most 28 significant digits. A \<open>datetime\<close> is the number of
  microseconds since the epoch, in UTC. A UUID is the string \<open>str(uuid)\<close> yields.
\<close>

type_synonym dec = rat
type_synonym timestamp = int
type_synonym uuid = string

section \<open>Collections\<close>

text \<open>
  \<open>guard_defs\<close>: the definitions of checks that raise or return; \<open>state_defs\<close>: the
  definitions of a component's operations that only route to one part of its state.
\<close>

named_theorems guard_defs
named_theorems state_defs

section \<open>Sums as results\<close>

text \<open>\<open>Inl\<close> is a raised exception, \<open>Inr\<close> a returned value.\<close>

definition returns :: "'e + 'a \<Rightarrow> bool" where
  "returns r \<longleftrightarrow> (case r of Inl _ \<Rightarrow> False | Inr _ \<Rightarrow> True)"

definition raises :: "'e + 'a \<Rightarrow> bool" where
  "raises r \<longleftrightarrow> (case r of Inl _ \<Rightarrow> True | Inr _ \<Rightarrow> False)"

lemma returns_simps [simp]: "\<not> returns (Inl e)" "returns (Inr x)"
  by (simp_all add: returns_def)

lemma raises_simps [simp]: "raises (Inl e)" "\<not> raises (Inr x)"
  by (simp_all add: raises_def)

lemma raises_iff: "raises r \<longleftrightarrow> \<not> returns r"
  by (cases r) simp_all

lemma returnsE: "returns r \<Longrightarrow> (\<And>x. r = Inr x \<Longrightarrow> P) \<Longrightarrow> P"
  by (cases r) auto

lemma raisesE: "raises r \<Longrightarrow> (\<And>e. r = Inl e \<Longrightarrow> P) \<Longrightarrow> P"
  by (cases r) auto

lemma returns_if [simp]: "returns (if b then x else y) = (if b then returns x else returns y)"
  by simp

section \<open>Dictionaries\<close>

text \<open>\<open>d.get(k, default)\<close>.\<close>

definition get_default :: "('k \<rightharpoonup> 'v) \<Rightarrow> 'k \<Rightarrow> 'v \<Rightarrow> 'v" where
  "get_default m k d = (case m k of None \<Rightarrow> d | Some v \<Rightarrow> v)"

lemma get_default_upd [simp]:
  "get_default (m(k \<mapsto> v)) k' d = (if k' = k then v else get_default m k' d)"
  by (simp add: get_default_def)

lemma get_default_None [simp]: "m k = None \<Longrightarrow> get_default m k d = d"
  by (simp add: get_default_def)

lemma get_default_Some [simp]: "m k = Some v \<Longrightarrow> get_default m k d = v"
  by (simp add: get_default_def)

lemma get_default_map_add: "get_default (m ++ m') k d = get_default m' k (get_default m k d)"
  by (simp add: get_default_def map_add_def split: option.split)

lemma card_dom_upd:
  "finite (dom m) \<Longrightarrow>
   card (dom (m(k \<mapsto> v))) = (if m k = None then Suc (card (dom m)) else card (dom m))"
  by (auto simp: card_insert_if domIff insert_absorb)

lemma card_dom_delete:
  "finite (dom m) \<Longrightarrow>
   card (dom (m(k := None))) = (if m k = None then card (dom m) else card (dom m) - 1)"
  by (auto simp: domIff insert_absorb)

section \<open>Lists\<close>

lemma length_filter_eq_iff: "length (filter P xs) = length xs \<longleftrightarrow> (\<forall>x \<in> set xs. P x)"
  using length_filter_less [of _ xs P] by (auto simp: filter_id_conv) (metis nat_neq_iff)

lemma sum_list_nonneg_filter:
  "(\<And>x. x \<in> set xs \<Longrightarrow> 0 \<le> f x) \<Longrightarrow>
   sum_list (map f (filter P xs)) \<le> sum_list (map f xs)" for f :: "'a \<Rightarrow> 'b::linordered_ab_group_add"
proof (induction xs)
  case (Cons x xs)
  then have "0 \<le> f x" and "sum_list (map f (filter P xs)) \<le> sum_list (map f xs)" by auto
  then show ?case by (auto intro: add_increasing)
qed simp

lemma foldl_invariant:
  "(\<And>s x. I s \<Longrightarrow> x \<in> set xs \<Longrightarrow> I (f s x)) \<Longrightarrow> I s \<Longrightarrow> I (foldl f s xs)"
  by (induction xs arbitrary: s) auto

text \<open>The elements at the end of a history that share the last one's key: a day, a session.\<close>

definition last_part :: "('a \<Rightarrow> 'k) \<Rightarrow> 'a list \<Rightarrow> 'a list" where
  "last_part key h = rev (takeWhile (\<lambda>x. key x = key (last h)) (rev h))"

lemma last_part_Nil [simp]: "last_part key [] = []"
  by (simp add: last_part_def)

lemma last_part_snoc:
  "last_part key (h @ [x]) = (if h \<noteq> [] \<and> key (last h) = key x then last_part key h @ [x] else [x])"
proof (cases h rule: rev_cases)
  case (snoc h' y)
  then show ?thesis by (cases "key y = key x") (simp_all add: last_part_def)
qed (simp add: last_part_def)

section \<open>Signs\<close>

lemma abs_le_of_bounds: "- b \<le> a \<Longrightarrow> a \<le> b \<Longrightarrow> \<bar>a\<bar> \<le> b" for a b :: "'a::linordered_idom"
  by (simp add: abs_le_iff)

end
