(* ===== verification/Numerics.thy ===== *)
theory Numerics
  imports Prelude "HOL-Library.Log_Nat"
begin

text \<open>
  The roundings the program uses. Python's \<open>round\<close> and \<open>Decimal.quantize\<close> in the default
  context round half to even; \<open>ROUND_HALF_UP\<close> rounds half away from zero; \<open>ROUND_DOWN\<close> and
  \<open>int()\<close> truncate. A Python \<open>float\<close> is the rational it denotes, and every float operation
  is the exact operation followed by \<open>fl\<close>, rounding to the nearest binary64 value
  with a 53-bit significand, ties to even. Overflow to infinity and subnormal numbers
  are outside the range of prices and volumes and are not modelled.
\<close>

section \<open>Rounding to integers\<close>

definition round_half_even :: "rat \<Rightarrow> int" where
  "round_half_even x =
     (let f = \<lfloor>x\<rfloor>; d = x - of_int f
      in if d < 1/2 then f else if 1/2 < d then f + 1 else if even f then f else f + 1)"

definition round_half_up :: "rat \<Rightarrow> int" where
  "round_half_up x = (if 0 \<le> x then \<lfloor>x + 1/2\<rfloor> else - \<lfloor>- x + 1/2\<rfloor>)"

definition int_trunc :: "rat \<Rightarrow> int" where
  "int_trunc x = (if 0 \<le> x then \<lfloor>x\<rfloor> else \<lceil>x\<rceil>)"

lemma round_half_even_of_int [simp]: "round_half_even (of_int n) = n"
  by (simp add: round_half_even_def)

lemma round_half_even_cases:
  "round_half_even x = \<lfloor>x\<rfloor> \<and> x - of_int \<lfloor>x\<rfloor> \<le> 1/2
   \<or> round_half_even x = \<lfloor>x\<rfloor> + 1 \<and> 1/2 \<le> x - of_int \<lfloor>x\<rfloor>"
  by (auto simp: round_half_even_def Let_def)

lemma round_half_even_error: "\<bar>of_int (round_half_even x) - x\<bar> \<le> 1/2"
proof -
  have "of_int \<lfloor>x\<rfloor> \<le> x" "x < of_int \<lfloor>x\<rfloor> + 1" by linarith+
  with round_half_even_cases [of x] show ?thesis by (auto simp: abs_le_iff)
qed

lemma round_half_even_mono: "x \<le> y \<Longrightarrow> round_half_even x \<le> round_half_even y"
proof -
  assume le: "x \<le> y"
  then have fl: "\<lfloor>x\<rfloor> \<le> \<lfloor>y\<rfloor>" by (rule floor_mono)
  show ?thesis
  proof (cases "\<lfloor>x\<rfloor> = \<lfloor>y\<rfloor>")
    case True
    with le show ?thesis by (auto simp: round_half_even_def Let_def)
  next
    case False
    with fl have "\<lfloor>x\<rfloor> + 1 \<le> \<lfloor>y\<rfloor>" by simp
    with round_half_even_cases [of x] round_half_even_cases [of y] show ?thesis by auto
  qed
qed

lemma floor_half_error: "\<bar>of_int \<lfloor>x + 1/2\<rfloor> - x\<bar> \<le> 1/2" for x :: rat
proof -
  have "of_int \<lfloor>x + 1/2\<rfloor> \<le> x + 1/2" "x + 1/2 < of_int \<lfloor>x + 1/2\<rfloor> + 1" by linarith+
  then show ?thesis unfolding abs_le_iff by linarith
qed

lemma round_half_up_error: "\<bar>of_int (round_half_up x) - x\<bar> \<le> 1/2"
proof (cases "0 \<le> x")
  case True
  then show ?thesis using floor_half_error [of x] by (simp add: round_half_up_def)
next
  case False
  have "\<bar>of_int \<lfloor>- x + 1/2\<rfloor> - - x\<bar> \<le> 1/2" by (rule floor_half_error)
  then have "\<bar>- of_int \<lfloor>- x + 1/2\<rfloor> - x\<bar> \<le> 1/2" unfolding abs_le_iff by linarith
  with False show ?thesis by (simp add: round_half_up_def)
qed

lemma round_half_up_of_int [simp]: "round_half_up (of_int n) = n"
proof -
  have "\<lfloor>(of_int m :: rat) + 1/2\<rfloor> = m" for m by linarith
  from this [of n] this [of "- n"] show ?thesis by (simp add: round_half_up_def)
qed

lemma round_half_up_nonneg: "0 \<le> x \<Longrightarrow> 0 \<le> round_half_up x"
proof -
  assume "0 \<le> x"
  moreover from this have "0 \<le> \<lfloor>x + 1/2\<rfloor>" by linarith
  ultimately show ?thesis by (simp add: round_half_up_def)
qed

lemma round_half_up_nonpos: "x \<le> 0 \<Longrightarrow> round_half_up x \<le> 0"
proof -
  assume "x \<le> 0"
  moreover from this have "0 \<le> \<lfloor>- x + 1/2\<rfloor>" by linarith
  ultimately show ?thesis by (auto simp: round_half_up_def)
qed

lemma round_half_up_mono: "x \<le> y \<Longrightarrow> round_half_up x \<le> round_half_up y"
proof -
  assume le: "x \<le> y"
  consider "0 \<le> x" | "x < 0" "0 \<le> y" | "y < 0" by linarith
  then show ?thesis
  proof cases
    case 1
    with le show ?thesis by (auto simp: round_half_up_def intro: floor_mono)
  next
    case 2
    then show ?thesis using round_half_up_nonpos [of x] round_half_up_nonneg [of y] by linarith
  next
    case 3
    with le show ?thesis by (auto simp: round_half_up_def intro: floor_mono)
  qed
qed

lemma int_trunc_of_int [simp]: "int_trunc (of_int n) = n"
  by (simp add: int_trunc_def)

lemma int_trunc_nonneg: "0 \<le> x \<Longrightarrow> 0 \<le> int_trunc x"
  by (simp add: int_trunc_def)

lemma int_trunc_le: "0 \<le> x \<Longrightarrow> of_int (int_trunc x) \<le> x"
  by (simp add: int_trunc_def)

lemma int_trunc_gt: "0 \<le> x \<Longrightarrow> x < of_int (int_trunc x) + 1"
  unfolding int_trunc_def by simp linarith

lemma int_trunc_mono: "x \<le> y \<Longrightarrow> int_trunc x \<le> int_trunc y"
proof -
  assume le: "x \<le> y"
  consider "0 \<le> x" | "x < 0" "0 \<le> y" | "y < 0" by linarith
  then show ?thesis
  proof cases
    case 2
    then have "\<lceil>x\<rceil> \<le> 0" "0 \<le> \<lfloor>y\<rfloor>" by (simp_all add: ceiling_le_iff)
    then have "\<lceil>x\<rceil> \<le> \<lfloor>y\<rfloor>" by (rule order_trans)
    with 2 show ?thesis by (simp add: int_trunc_def)
  qed (use le in \<open>auto simp: int_trunc_def intro: floor_mono ceiling_mono\<close>)
qed

section \<open>Rounding to a floating point format\<close>

text \<open>
  A format has a base and a number of significant digits. \<open>flog b x\<close> is the exponent of a positive
  rational: \<open>b powi flog b x \<le> x < b powi (flog b x + 1)\<close>. A Python \<open>float\<close> operation rounds to 53
  binary digits, a \<open>Decimal\<close> operation in the default context to 28 decimal digits.
\<close>

definition flog :: "nat \<Rightarrow> rat \<Rightarrow> int" where
  "flog b x =
     (let (p, q) = quotient_of x;
          n = int (floorlog b (nat p)) - int (floorlog b (nat q))
      in if of_nat b powi n \<le> x then n else n - 1)"

definition ulp :: "nat \<Rightarrow> nat \<Rightarrow> rat \<Rightarrow> rat" where
  "ulp b d x = of_nat b powi (flog b \<bar>x\<bar> - int d + 1)"

definition rnd :: "nat \<Rightarrow> nat \<Rightarrow> rat \<Rightarrow> rat" where
  "rnd b d x = (if x = 0 then 0 else of_int (round_half_even (x / ulp b d x)) * ulp b d x)"

definition fl :: "rat \<Rightarrow> rat" where "fl = rnd 2 53"
definition dq :: "rat \<Rightarrow> rat" where "dq = rnd 10 28"

lemma round_half_even_uminus: "round_half_even (- x) = - round_half_even x"
proof (cases "x = of_int \<lfloor>x\<rfloor>")
  case True
  then show ?thesis by (metis of_int_minus round_half_even_of_int)
next
  case False
  then have fl: "\<lfloor>- x\<rfloor> = - \<lfloor>x\<rfloor> - 1" by linarith
  define d where "d = x - of_int \<lfloor>x\<rfloor>"
  have d': "- x - of_int (- \<lfloor>x\<rfloor> - 1) = 1 - d" by (simp add: d_def)
  show ?thesis unfolding round_half_even_def Let_def fl d' d_def [symmetric]
    by (cases d "1/2 :: rat" rule: linorder_cases) auto
qed

locale float_format =
  fixes b d :: nat
  assumes base: "1 < b" and digits: "0 < d"
begin

lemma B_gt [simp]: "(1::rat) < of_nat b" "(0::rat) < of_nat b"
  using base by simp_all

lemma B_ne [simp]: "(of_nat b :: rat) \<noteq> 0" "0 < b"
  using base by simp_all

lemma floorlog_rat_bounds:
  assumes "0 < p"
  shows "(of_nat b :: rat) powi (int (floorlog b (nat p)) - 1) \<le> of_int p"
    and "of_int p < (of_nat b :: rat) powi int (floorlog b (nat p))"
proof -
  define a where "a = floorlog b (nat p)"
  have bd: "b ^ (a - 1) \<le> nat p" "nat p < b ^ a"
    using floorlog_bounds [of "nat p" b] assms base by (simp_all add: a_def)
  have a: "0 < a"
    using assms bd(2) by (cases a) auto
  have "(of_nat b :: rat) ^ (a - 1) \<le> of_nat (nat p)"
    using bd(1) by (metis of_nat_le_iff of_nat_power)
  moreover have "of_nat (nat p) < (of_nat b :: rat) ^ a"
    using bd(2) by (metis of_nat_less_iff of_nat_power)
  moreover have e: "int a - 1 = int (a - 1)" using a by simp
  moreover have "(of_nat (nat p) :: rat) = of_int p" using assms by simp
  ultimately have "(of_nat b :: rat) powi (int a - 1) \<le> of_int p" "of_int p < (of_nat b :: rat) powi int a"
    unfolding e power_int_of_nat by simp_all
  then show "(of_nat b :: rat) powi (int (floorlog b (nat p)) - 1) \<le> of_int p"
    and "of_int p < (of_nat b :: rat) powi int (floorlog b (nat p))"
    by (simp_all only: a_def)
qed

lemma pow_less_iff: "(of_nat b :: rat) powi m < of_nat b powi n \<longleftrightarrow> m < n"
proof
  show "m < n" if "(of_nat b :: rat) powi m < of_nat b powi n"
    using that power_int_increasing [of n m "of_nat b :: rat"] base by (rule_tac ccontr) (simp add: not_less)
next
  show "(of_nat b :: rat) powi m < of_nat b powi n" if "m < n"
    using that base by (intro power_int_strict_increasing) simp_all
qed

lemma pow_le_iff: "(of_nat b :: rat) powi m \<le> of_nat b powi n \<longleftrightarrow> m \<le> n"
  by (meson pow_less_iff not_less)

lemma pow_pos [simp]: "(0::rat) < of_nat b powi k"
  by (simp add: zero_less_power_int)

lemma flog_bounds:
  assumes "0 < x"
  shows "of_nat b powi (flog b x) \<le> x" "x < of_nat b powi (flog b x + 1)"
proof -
  obtain p q where pq: "quotient_of x = (p, q)" by force
  then have q: "0 < q" and x: "x = of_int p / of_int q"
    by (auto simp: quotient_of_div dest: quotient_of_denom_pos)
  with assms have p: "0 < p" by (simp add: zero_less_divide_iff)
  define a c where "a = int (floorlog b (nat p))" and "c = int (floorlog b (nat q))"
  have P: "(of_nat b :: rat) powi (a - 1) \<le> of_int p" "of_int p < (of_nat b :: rat) powi a"
    and Q: "(of_nat b :: rat) powi (c - 1) \<le> of_int q" "of_int q < (of_nat b :: rat) powi c"
    using floorlog_rat_bounds [OF p] floorlog_rat_bounds [OF q] by (simp_all add: a_def c_def)
  have lo: "of_nat b powi (a - c - 1) \<le> x"
  proof -
    have "of_nat b powi (a - c - 1) = (of_nat b :: rat) powi (a - 1) / of_nat b powi c"
      by (simp add: power_int_diff)
    also have "\<dots> \<le> of_int p / of_int q"
      using P(1) less_imp_le [OF Q(2)] q p by (intro frac_le) simp_all
    finally show ?thesis using x by simp
  qed
  have hi: "x < of_nat b powi (a - c + 1)"
  proof -
    have "of_int p / of_int q < (of_nat b :: rat) powi a / of_nat b powi (c - 1)"
      using P(2) Q(1) q p by (intro frac_less) simp_all
    also have "\<dots> = of_nat b powi (a - c + 1)"
      by (simp add: power_int_diff power_int_add)
    finally show ?thesis using x by simp
  qed
  show "of_nat b powi (flog b x) \<le> x" "x < of_nat b powi (flog b x + 1)"
    using lo hi pq by (auto simp: flog_def a_def c_def Let_def)
qed

lemma flog_mono:
  assumes "0 < x" "x \<le> y"
  shows "flog b x \<le> flog b y"
proof -
  have "of_nat b powi flog b x < (of_nat b :: rat) powi (flog b y + 1)"
    using flog_bounds [of x] flog_bounds [of y] assms by linarith
  then have "flog b x < flog b y + 1" by (simp only: pow_less_iff)
  then show ?thesis by simp
qed

lemma ulp_pos [simp]: "0 < ulp b d x"
  by (simp add: ulp_def)

lemma ulp_ne [simp]: "ulp b d x \<noteq> 0"
  by (simp add: less_imp_neq [OF ulp_pos, symmetric])

lemma ulp_scaled: "of_nat b ^ (d - Suc 0) * ulp b d x = of_nat b powi flog b \<bar>x\<bar>"
    "of_nat b ^ d * ulp b d x = of_nat b powi (flog b \<bar>x\<bar> + 1)"
proof -
  have p: "(of_nat b :: rat) ^ k * of_nat b powi j = of_nat b powi (int k + j)" for k j
    by (simp add: power_int_add)
  have "int (d - Suc 0) + (flog b \<bar>x\<bar> - int d + 1) = flog b \<bar>x\<bar>"
    "int d + (flog b \<bar>x\<bar> - int d + 1) = flog b \<bar>x\<bar> + 1"
    using digits by simp_all
  then show "of_nat b ^ (d - Suc 0) * ulp b d x = of_nat b powi flog b \<bar>x\<bar>"
    "of_nat b ^ d * ulp b d x = of_nat b powi (flog b \<bar>x\<bar> + 1)"
    by (simp_all only: ulp_def p)
qed

text \<open>Half a unit in the last place, and the relative error it gives.\<close>

lemma rnd_error_ulp: "x \<noteq> 0 \<Longrightarrow> \<bar>rnd b d x - x\<bar> \<le> ulp b d x / 2"
proof -
  assume x: "x \<noteq> 0"
  have "rnd b d x - x = (of_int (round_half_even (x / ulp b d x)) - x / ulp b d x) * ulp b d x"
    using x by (simp add: rnd_def left_diff_distrib)
  then have "\<bar>rnd b d x - x\<bar> = \<bar>of_int (round_half_even (x / ulp b d x)) - x / ulp b d x\<bar> * ulp b d x"
    using ulp_pos [of x] by (simp only: abs_mult abs_of_pos)
  also have "\<dots> \<le> 1/2 * ulp b d x"
    by (intro mult_right_mono round_half_even_error less_imp_le [OF ulp_pos])
  finally show ?thesis by simp
qed

lemma rnd_error: "\<bar>rnd b d x - x\<bar> * (2 * of_nat b ^ (d - Suc 0)) \<le> \<bar>x\<bar>"
proof (cases "x = 0")
  case False
  have "\<bar>rnd b d x - x\<bar> * (2 * of_nat b ^ (d - Suc 0)) \<le> ulp b d x / 2 * (2 * of_nat b ^ (d - Suc 0))"
    by (intro mult_right_mono rnd_error_ulp False) simp
  also have "\<dots> = of_nat b powi flog b \<bar>x\<bar>" using ulp_scaled(1) [of x] by (simp add: mult.commute)
  also have "\<dots> \<le> \<bar>x\<bar>" using flog_bounds(1) [of "\<bar>x\<bar>"] False by simp
  finally show ?thesis .
qed (simp add: rnd_def)

lemma rnd_0 [simp]: "rnd b d 0 = 0"
  by (simp add: rnd_def)

lemma rnd_uminus: "rnd b d (- x) = - rnd b d x"
  by (simp add: rnd_def ulp_def round_half_even_uminus)

text \<open>Values with at most \<open>d\<close> significant digits are exact.\<close>

lemma rnd_exact:
  assumes "\<bar>m\<bar> < int b ^ d"
  shows "rnd b d (of_int m * of_nat b powi k) = of_int m * of_nat b powi k"
proof (cases "m = 0")
  case False
  define x where "x = (of_int m :: rat) * of_nat b powi k"
  have x: "x \<noteq> 0" using False by (simp add: x_def)
  have ax: "\<bar>x\<bar> = of_int \<bar>m\<bar> * of_nat b powi k" by (simp add: x_def abs_mult power_int_abs)
  have "of_int \<bar>m\<bar> < (of_nat b :: rat) ^ d"
    using assms by (metis of_int_less_iff of_int_of_nat_eq of_int_power)
  then have "\<bar>x\<bar> < of_nat b ^ d * of_nat b powi k"
    unfolding ax by (intro mult_strict_right_mono) simp_all
  also have "\<dots> = of_nat b powi (k + int d)" by (simp add: power_int_add)
  finally have "of_nat b powi flog b \<bar>x\<bar> < (of_nat b :: rat) powi (k + int d)"
    using flog_bounds(1) [of "\<bar>x\<bar>"] x by linarith
  then have e: "flog b \<bar>x\<bar> - int d + 1 \<le> k" by (simp only: pow_less_iff)
  define j where "j = nat (k - (flog b \<bar>x\<bar> - int d + 1))"
  have "x / ulp b d x = of_int m * of_nat b powi (k - (flog b \<bar>x\<bar> - int d + 1))"
    by (simp only: x_def ulp_def) (simp add: power_int_diff)
  also have "k - (flog b \<bar>x\<bar> - int d + 1) = int j" using e by (simp add: j_def)
  finally have "x / ulp b d x = of_int (m * int b ^ j)" by simp
  then have "rnd b d x = x / ulp b d x * ulp b d x" using x by (simp add: rnd_def del: of_int_mult)
  then show ?thesis by (simp add: x_def)
qed simp

lemma rnd_int_exact: "\<bar>m\<bar> < int b ^ d \<Longrightarrow> rnd b d (of_int m) = of_int m"
  using rnd_exact [of m 0] by simp

text \<open>Rounding is monotone: within one exponent by the rounding to integers, across exponents
  because the power of the base between them is representable.\<close>

lemma rnd_le_pow: "0 < x \<Longrightarrow> rnd b d x \<le> of_nat b powi (flog b x + 1)"
proof -
  assume x: "0 < x"
  have "x \<le> of_nat b ^ d * ulp b d x"
    using flog_bounds(2) [OF x] x by (simp add: ulp_scaled(2))
  then have "x / ulp b d x \<le> of_int (int b ^ d)" by (simp add: divide_le_eq)
  then have "round_half_even (x / ulp b d x) \<le> int b ^ d"
    by (metis round_half_even_mono round_half_even_of_int)
  then have "(of_int (round_half_even (x / ulp b d x)) :: rat) \<le> of_nat b ^ d"
    by (metis of_int_le_iff of_int_of_nat_eq of_int_power)
  then have "rnd b d x \<le> of_nat b ^ d * ulp b d x" using x by (simp add: rnd_def)
  also have "\<dots> = of_nat b powi (flog b x + 1)" using x by (simp add: ulp_scaled(2))
  finally show ?thesis .
qed

lemma rnd_ge_pow: "0 < x \<Longrightarrow> of_nat b powi (flog b x) \<le> rnd b d x"
proof -
  assume x: "0 < x"
  have "of_nat b ^ (d - Suc 0) * ulp b d x \<le> x"
    using flog_bounds(1) [OF x] x by (simp add: ulp_scaled(1))
  then have "of_int (int b ^ (d - Suc 0)) \<le> x / ulp b d x" by (simp add: le_divide_eq)
  then have "int b ^ (d - Suc 0) \<le> round_half_even (x / ulp b d x)"
    by (metis round_half_even_mono round_half_even_of_int)
  then have "of_nat b ^ (d - Suc 0) \<le> (of_int (round_half_even (x / ulp b d x)) :: rat)"
    by (metis of_int_le_iff of_int_of_nat_eq of_int_power)
  then have "of_nat b ^ (d - Suc 0) * ulp b d x \<le> rnd b d x" using x by (simp add: rnd_def)
  moreover have "of_nat b ^ (d - Suc 0) * ulp b d x = of_nat b powi (flog b x)" using x by (simp add: ulp_scaled(1))
  ultimately show ?thesis by simp
qed

lemma rnd_pos: "0 < x \<Longrightarrow> 0 < rnd b d x"
  using rnd_ge_pow [of x] pow_pos [of "flog b x"] by linarith

lemma rnd_nonneg: "0 \<le> x \<Longrightarrow> 0 \<le> rnd b d x"
  using rnd_pos [of x] by (cases "x = 0") auto

lemma rnd_mono_pos:
  assumes "0 < x" "x \<le> y"
  shows "rnd b d x \<le> rnd b d y"
proof (cases "flog b x = flog b y")
  case True
  then have u: "ulp b d x = ulp b d y" using assms by (simp add: ulp_def)
  have "x / ulp b d x \<le> y / ulp b d x" using assms(2) by (simp add: divide_right_mono less_imp_le)
  then have "round_half_even (x / ulp b d x) \<le> round_half_even (y / ulp b d y)"
    unfolding u by (rule round_half_even_mono)
  then show ?thesis using assms by (simp add: rnd_def u)
next
  case False
  with flog_mono [OF assms] have "flog b x + 1 \<le> flog b y" by simp
  then have "(of_nat b :: rat) powi (flog b x + 1) \<le> of_nat b powi flog b y" by (simp only: pow_le_iff)
  with rnd_le_pow [of x] rnd_ge_pow [of y] assms show ?thesis by linarith
qed

lemma rnd_mono: "x \<le> y \<Longrightarrow> rnd b d x \<le> rnd b d y"
proof -
  assume le: "x \<le> y"
  consider "0 < x" | "x \<le> 0" "0 \<le> y" | "y < 0" by linarith
  then show ?thesis
  proof cases
    case 1
    then show ?thesis using le by (rule rnd_mono_pos)
  next
    case 2
    then show ?thesis using rnd_nonneg [of y] rnd_nonneg [of "- x"] by (simp add: rnd_uminus)
  next
    case 3
    with le rnd_mono_pos [of "- y" "- x"] show ?thesis by (simp add: rnd_uminus)
  qed
qed

text \<open>A comparison with a representable bound survives rounding.\<close>

lemma rnd_ge_int: "of_int m \<le> x \<Longrightarrow> \<bar>m\<bar> < int b ^ d \<Longrightarrow> of_int m \<le> rnd b d x"
  using rnd_mono [of "of_int m" x] rnd_int_exact [of m] by simp

lemma rnd_le_int: "x \<le> of_int m \<Longrightarrow> \<bar>m\<bar> < int b ^ d \<Longrightarrow> rnd b d x \<le> of_int m"
  using rnd_mono [of x "of_int m"] rnd_int_exact [of m] by simp

lemma rnd_unit: "0 \<le> x \<Longrightarrow> x \<le> 1 \<Longrightarrow> 0 \<le> rnd b d x \<and> rnd b d x \<le> 1"
  using rnd_le_int [of x 1] rnd_nonneg [of x] base digits by simp

lemma rnd_idem_pos: "0 < x \<Longrightarrow> rnd b d (rnd b d x) = rnd b d x"
proof -
  assume x: "0 < x"
  let ?m = "round_half_even (x / ulp b d x)"
  have rx: "rnd b d x = of_int ?m * ulp b d x" using x by (simp add: rnd_def)
  then have "0 < (of_int ?m :: rat)" using rnd_pos [OF x] ulp_pos [of x] by (simp add: zero_less_mult_iff)
  then have m0: "0 \<le> ?m" by simp
  have "(of_int ?m :: rat) * ulp b d x \<le> of_nat b ^ d * ulp b d x"
    using rnd_le_pow [OF x] rx x by (simp add: ulp_scaled(2))
  then have "(of_int ?m :: rat) \<le> of_nat b ^ d" by simp
  then have "(of_int ?m :: rat) \<le> of_int (int b ^ d)" by simp
  then have m1: "?m \<le> int b ^ d" by (simp only: of_int_le_iff)
  show ?thesis
  proof (cases "?m = int b ^ d")
    case True
    then have "rnd b d x = of_nat b ^ d * ulp b d x" by (simp add: rx)
    then have "rnd b d x = of_int 1 * of_nat b powi (flog b \<bar>x\<bar> + 1)" by (simp add: ulp_scaled(2))
    then show ?thesis using rnd_exact [of 1 "flog b \<bar>x\<bar> + 1"] base digits by simp
  next
    case False
    with m0 m1 have "\<bar>?m\<bar> < int b ^ d" by simp
    from rnd_exact [OF this, of "flog b \<bar>x\<bar> - int d + 1"] show ?thesis by (simp add: rx ulp_def)
  qed
qed

lemma rnd_idem [simp]: "rnd b d (rnd b d x) = rnd b d x"
  using rnd_idem_pos [of x] rnd_idem_pos [of "- x"] by (cases "x = 0"; cases "0 < x") (auto simp: rnd_uminus)

end

interpretation binary64: float_format 2 53
  by unfold_locales simp_all

interpretation decimal28: float_format 10 28
  by unfold_locales simp_all

text \<open>The facts the components use, for the two formats.\<close>

lemma fl_0 [simp]: "fl 0 = 0" and dq_0 [simp]: "dq 0 = 0"
  by (simp_all add: fl_def dq_def)

lemma fl_1 [simp]: "fl 1 = 1" and dq_1 [simp]: "dq 1 = 1"
  using binary64.rnd_int_exact [of 1] decimal28.rnd_int_exact [of 1] by (simp_all add: fl_def dq_def)

lemma fl_idem [simp]: "fl (fl x) = fl x" and dq_idem [simp]: "dq (dq x) = dq x"
  by (simp_all add: fl_def dq_def)

lemmas fl_uminus = binary64.rnd_uminus [folded fl_def]
lemmas fl_pos = binary64.rnd_pos [folded fl_def]
lemmas fl_nonneg = binary64.rnd_nonneg [folded fl_def]
lemmas fl_mono = binary64.rnd_mono [folded fl_def]
lemmas fl_unit = binary64.rnd_unit [folded fl_def]
lemmas dq_uminus = decimal28.rnd_uminus [folded dq_def]
lemmas dq_pos = decimal28.rnd_pos [folded dq_def]
lemmas dq_nonneg = decimal28.rnd_nonneg [folded dq_def]
lemmas dq_mono = decimal28.rnd_mono [folded dq_def]

lemma fl_int_exact: "\<bar>m\<bar> < 2 ^ 53 \<Longrightarrow> fl (of_int m) = of_int m"
  using binary64.rnd_int_exact [of m] by (simp add: fl_def)

lemma fl_ge_int: "of_int m \<le> x \<Longrightarrow> 0 \<le> m \<Longrightarrow> m < 2 ^ 53 \<Longrightarrow> of_int m \<le> fl x"
  using binary64.rnd_ge_int [of m x] by (simp add: fl_def)

lemma fl_le_int: "x \<le> of_int m \<Longrightarrow> 0 \<le> m \<Longrightarrow> m < 2 ^ 53 \<Longrightarrow> fl x \<le> of_int m"
  using binary64.rnd_le_int [of x m] by (simp add: fl_def)

lemma fl_error: "\<bar>fl x - x\<bar> \<le> \<bar>x\<bar> / 2 ^ 53"
  using binary64.rnd_error [of x] by (simp add: fl_def field_simps)

lemma fl_upper: "0 \<le> x \<Longrightarrow> fl x \<le> x * (1 + 1 / 2 ^ 53)"
proof -
  assume x: "0 \<le> x"
  have "fl x - x \<le> \<bar>fl x - x\<bar>" by simp
  also have "\<dots> \<le> x / 2 ^ 53" using fl_error [of x] x by simp
  finally show ?thesis by (simp add: distrib_left)
qed

text \<open>A decimal with \<open>k\<close> places and fewer than 28 digits.\<close>

lemma dq_exact: "\<bar>m\<bar> < 10 ^ 28 \<Longrightarrow> dq (of_int m / 10 ^ k) = of_int m / 10 ^ k"
  using decimal28.rnd_exact [of m "- int k"] by (simp add: dq_def power_int_minus field_simps)

section \<open>Durations\<close>

text \<open>\<open>(later - earlier).total_seconds()\<close>.\<close>

definition seconds_between :: "timestamp \<Rightarrow> timestamp \<Rightarrow> rat" where
  "seconds_between later earlier = fl (of_int (later - earlier) / 10 ^ 6)"

end
