(* ===== verification/Float_Math.thy ===== *)
theory Float_Math
  imports Numerics
begin

text \<open>
  The standard library functions on floats that the engines call: \<open>sum\<close> with Python 3.12's compensated
  addition, \<open>math.sqrt\<close>, correctly rounded, over an integer square root, and the decimal a
  \<open>Decimal(str(round(x, n)))\<close> prints, exact for values below \<open>10^11\<close>, where the shortest text of the
  rounded float is the decimal itself.
\<close>

section \<open>Sums of floats\<close>

text \<open>One step of Neumaier's summation: the running sum and the lost low-order part.\<close>

definition neumaier :: "rat \<times> rat \<Rightarrow> rat \<Rightarrow> rat \<times> rat" where
  "neumaier acc x =
     (case acc of (hi, lo) \<Rightarrow>
        (let t = fl (hi + x)
         in (t, if \<bar>hi\<bar> \<ge> \<bar>x\<bar> then fl (lo + fl (fl (hi - t) + x)) else fl (lo + fl (fl (x - t) + hi)))))"

fun fl_sum :: "rat list \<Rightarrow> rat" where
  "fl_sum [] = 0"
| "fl_sum (x # xs) = (case foldl neumaier (x, 0) xs of (hi, lo) \<Rightarrow> if lo \<noteq> 0 then fl (hi + lo) else hi)"

section \<open>Square roots\<close>

fun isqrt :: "nat \<Rightarrow> nat" where
  "isqrt n = (if n = 0 then 0
              else let r = 2 * isqrt (n div 4) in if (r + 1) * (r + 1) \<le> n then r + 1 else r)"

declare isqrt.simps [simp del]

lemma isqrt_spec: "isqrt n * isqrt n \<le> n \<and> n < (isqrt n + 1) * (isqrt n + 1)"
proof (induction n rule: isqrt.induct)
  case (1 n)
  show ?case
  proof (cases "n = 0")
    case False
    define q where "q = isqrt (n div 4)"
    from 1 False have q: "q * q \<le> n div 4" "n div 4 < (q + 1) * (q + 1)" by (simp_all add: q_def)
    then have lo: "4 * (q * q) \<le> n" by linarith
    have "n div 4 + 1 \<le> (q + 1) * (q + 1)" using q(2) by linarith
    then have "n < 4 * ((q + 1) * (q + 1))" by linarith
    have "isqrt n = (if (2 * q + 1) * (2 * q + 1) \<le> n then 2 * q + 1 else 2 * q)"
      using isqrt.simps [of n] False by (simp only: q_def Let_def if_False)
    with lo \<open>n < 4 * ((q + 1) * (q + 1))\<close> show ?thesis by (auto simp: algebra_simps)
  qed (simp add: isqrt.simps)
qed

text \<open>
  Scaled to at least 118 bits, the integer root has more than 53; a remainder makes the
  result lie strictly between two integers, where no rounding boundary is.
\<close>

definition sqrt_shift :: "rat \<Rightarrow> nat" where
  "sqrt_shift x = nat (60 - flog 2 x div 2)"

definition fl_sqrt :: "rat \<Rightarrow> rat" where
  "fl_sqrt x =
     (if x \<le> 0 then 0
      else let k = sqrt_shift x; y = x * 4 ^ k; r = isqrt (nat \<lfloor>y\<rfloor>)
           in fl ((if of_nat (r * r) = y then of_nat r else of_nat r + 1/2) / 2 ^ k))"

lemma fl_sqrt_nonneg: "0 \<le> fl_sqrt x"
  by (simp add: fl_sqrt_def Let_def fl_nonneg)

text \<open>The number that is rounded differs from the root by less than one part in \<open>2 ^ k\<close>.\<close>

lemma fl_sqrt_enclosed:
  assumes "0 < x"
  defines "r \<equiv> isqrt (nat \<lfloor>x * 4 ^ sqrt_shift x\<rfloor>)"
  shows "(of_nat r / 2 ^ sqrt_shift x) ^ 2 \<le> x" "x < ((of_nat r + 1) / 2 ^ sqrt_shift x) ^ 2"
proof -
  define y where "y = x * 4 ^ sqrt_shift x"
  have y: "0 \<le> y" using assms by (simp add: y_def)
  have p: "(2 ^ sqrt_shift x) ^ 2 = (4 :: rat) ^ sqrt_shift x" by (simp add: power2_eq_square flip: power_mult_distrib)
  have n: "r * r \<le> nat \<lfloor>y\<rfloor>" "nat \<lfloor>y\<rfloor> < (r + 1) * (r + 1)" using isqrt_spec by (simp_all add: r_def y_def)
  have "(of_nat (r * r) :: rat) \<le> of_nat (nat \<lfloor>y\<rfloor>)" using n(1) by (simp only: of_nat_le_iff)
  also have "\<dots> \<le> y" using y by simp
  finally have "(of_nat r :: rat) ^ 2 \<le> y" by (simp add: power2_eq_square)
  then show "(of_nat r / 2 ^ sqrt_shift x) ^ 2 \<le> x" by (simp add: power_divide p y_def divide_le_eq)
  have "nat \<lfloor>y\<rfloor> + 1 \<le> (r + 1) * (r + 1)" using n(2) by simp
  then have "(of_nat (nat \<lfloor>y\<rfloor> + 1) :: rat) \<le> of_nat ((r + 1) * (r + 1))" by (simp only: of_nat_le_iff)
  moreover have "y < of_nat (nat \<lfloor>y\<rfloor> + 1)" using y floor_correct [of y] by simp
  ultimately have "y < (of_nat r + 1) ^ 2" by (simp add: power2_eq_square algebra_simps)
  then show "x < ((of_nat r + 1) / 2 ^ sqrt_shift x) ^ 2" by (simp add: power_divide p y_def less_divide_eq)
qed

section \<open>Rounding to decimal places\<close>

definition round_places :: "nat \<Rightarrow> rat \<Rightarrow> dec" where
  "round_places n x = of_int (round_half_even (x * 10 ^ n)) / 10 ^ n"

lemma round_places_mono: "x \<le> y \<Longrightarrow> round_places n x \<le> round_places n y"
  by (simp add: round_places_def divide_right_mono round_half_even_mono)

lemma round_places_0 [simp]: "round_places n 0 = 0"
  using round_half_even_of_int [of 0] by (simp add: round_places_def)

lemma round_places_1 [simp]: "round_places n 1 = 1"
  using round_half_even_of_int [of "10 ^ n"] by (simp add: round_places_def)

lemma round_places_unit: "0 \<le> x \<Longrightarrow> x \<le> 1 \<Longrightarrow> 0 \<le> round_places n x \<and> round_places n x \<le> 1"
  using round_places_mono [of 0 x n] round_places_mono [of x 1 n] by simp

end
