(* ===== verification/Enums.thy ===== *)
theory Enums
  imports Prelude
begin

text \<open>
  The enumerations of \<^verbatim>\<open>src/alpha/models/enums.py\<close>. Each \<open>StrEnum\<close> is a datatype whose
  constructors carry the source's member names behind a short tag, and a function giving the
  string a member is equal to (what \<open>str(x)\<close> and \<open>x.value\<close> return). The value functions
  are injective: a member can be read back from its string.
\<close>

section \<open>Members and values\<close>

datatype runtime_mode =
  Mode_HISTORICAL_BACKFILL | Mode_REPLAY | Mode_PAPER | Mode_LIVE

fun runtime_mode_value :: "runtime_mode \<Rightarrow> string" where
  "runtime_mode_value Mode_HISTORICAL_BACKFILL = ''historical_backfill''"
| "runtime_mode_value Mode_REPLAY = ''replay''"
| "runtime_mode_value Mode_PAPER = ''paper''"
| "runtime_mode_value Mode_LIVE = ''live''"

datatype engine_state =
  Engine_CREATED | Engine_INITIALIZING | Engine_READY | Engine_STARTING | Engine_RUNNING
  | Engine_STOPPING | Engine_STOPPED | Engine_ERROR

fun engine_state_value :: "engine_state \<Rightarrow> string" where
  "engine_state_value Engine_CREATED = ''created''"
| "engine_state_value Engine_INITIALIZING = ''initializing''"
| "engine_state_value Engine_READY = ''ready''"
| "engine_state_value Engine_STARTING = ''starting''"
| "engine_state_value Engine_RUNNING = ''running''"
| "engine_state_value Engine_STOPPING = ''stopping''"
| "engine_state_value Engine_STOPPED = ''stopped''"
| "engine_state_value Engine_ERROR = ''error''"

datatype data_source_id =
  DataSource_ALPACA | DataSource_DATABENTO | DataSource_POLYGON
  | DataSource_INTERACTIVE_BROKERS | DataSource_TASTYTRADE | DataSource_CSV
  | DataSource_JSON_FILE | DataSource_PARQUET | DataSource_SYNTHETIC | DataSource_UNKNOWN

fun data_source_id_value :: "data_source_id \<Rightarrow> string" where
  "data_source_id_value DataSource_ALPACA = ''alpaca''"
| "data_source_id_value DataSource_DATABENTO = ''databento''"
| "data_source_id_value DataSource_POLYGON = ''polygon''"
| "data_source_id_value DataSource_INTERACTIVE_BROKERS = ''interactive_brokers''"
| "data_source_id_value DataSource_TASTYTRADE = ''tastytrade''"
| "data_source_id_value DataSource_CSV = ''csv''"
| "data_source_id_value DataSource_JSON_FILE = ''json_file''"
| "data_source_id_value DataSource_PARQUET = ''parquet''"
| "data_source_id_value DataSource_SYNTHETIC = ''synthetic''"
| "data_source_id_value DataSource_UNKNOWN = ''unknown''"

datatype asset_class =
  Asset_EQUITY | Asset_ETF | Asset_OPTION | Asset_FUTURE | Asset_CRYPTO

fun asset_class_value :: "asset_class \<Rightarrow> string" where
  "asset_class_value Asset_EQUITY = ''equity''"
| "asset_class_value Asset_ETF = ''etf''"
| "asset_class_value Asset_OPTION = ''option''"
| "asset_class_value Asset_FUTURE = ''future''"
| "asset_class_value Asset_CRYPTO = ''crypto''"

datatype bar_timeframe =
  TF_S1 | TF_S5 | TF_S10 | TF_S15 | TF_S30 | TF_M1 | TF_M2 | TF_M3 | TF_M5 | TF_M10 | TF_M15
  | TF_M30 | TF_H1 | TF_H2 | TF_H4 | TF_D1

fun bar_timeframe_value :: "bar_timeframe \<Rightarrow> string" where
  "bar_timeframe_value TF_S1 = ''1s''"
| "bar_timeframe_value TF_S5 = ''5s''"
| "bar_timeframe_value TF_S10 = ''10s''"
| "bar_timeframe_value TF_S15 = ''15s''"
| "bar_timeframe_value TF_S30 = ''30s''"
| "bar_timeframe_value TF_M1 = ''1m''"
| "bar_timeframe_value TF_M2 = ''2m''"
| "bar_timeframe_value TF_M3 = ''3m''"
| "bar_timeframe_value TF_M5 = ''5m''"
| "bar_timeframe_value TF_M10 = ''10m''"
| "bar_timeframe_value TF_M15 = ''15m''"
| "bar_timeframe_value TF_M30 = ''30m''"
| "bar_timeframe_value TF_H1 = ''1h''"
| "bar_timeframe_value TF_H2 = ''2h''"
| "bar_timeframe_value TF_H4 = ''4h''"
| "bar_timeframe_value TF_D1 = ''1d''"

datatype event_type =
  Event_BAR | Event_BAR_BUNDLE | Event_PIPELINE_OUTPUT | Event_TRADE | Event_QUOTE
  | Event_ORDER_BOOK | Event_MARKET_STATE | Event_SETUP | Event_THESIS | Event_ORDER_UPDATE
  | Event_EXECUTION | Event_SYSTEM | Event_POSITION_SIGNAL

fun event_type_value :: "event_type \<Rightarrow> string" where
  "event_type_value Event_BAR = ''bar''"
| "event_type_value Event_BAR_BUNDLE = ''bar_bundle''"
| "event_type_value Event_PIPELINE_OUTPUT = ''pipeline_output''"
| "event_type_value Event_TRADE = ''trade''"
| "event_type_value Event_QUOTE = ''quote''"
| "event_type_value Event_ORDER_BOOK = ''order_book''"
| "event_type_value Event_MARKET_STATE = ''market_state''"
| "event_type_value Event_SETUP = ''setup''"
| "event_type_value Event_THESIS = ''thesis''"
| "event_type_value Event_ORDER_UPDATE = ''order_update''"
| "event_type_value Event_EXECUTION = ''execution''"
| "event_type_value Event_SYSTEM = ''system''"
| "event_type_value Event_POSITION_SIGNAL = ''position_signal''"

datatype session_phase =
  Phase_PRE_MARKET | Phase_OPENING_RANGE | Phase_EARLY | Phase_MID | Phase_POWER_HOUR
  | Phase_CLOSING | Phase_AFTER_HOURS | Phase_CLOSED

fun session_phase_value :: "session_phase \<Rightarrow> string" where
  "session_phase_value Phase_PRE_MARKET = ''pre_market''"
| "session_phase_value Phase_OPENING_RANGE = ''opening_range''"
| "session_phase_value Phase_EARLY = ''early''"
| "session_phase_value Phase_MID = ''mid''"
| "session_phase_value Phase_POWER_HOUR = ''power_hour''"
| "session_phase_value Phase_CLOSING = ''closing''"
| "session_phase_value Phase_AFTER_HOURS = ''after_hours''"
| "session_phase_value Phase_CLOSED = ''closed''"

datatype trend_state =
  Trend_TRENDING_UP | Trend_TRENDING_DOWN | Trend_CHOPPY | Trend_TRANSITIONING | Trend_UNKNOWN

fun trend_state_value :: "trend_state \<Rightarrow> string" where
  "trend_state_value Trend_TRENDING_UP = ''trending_up''"
| "trend_state_value Trend_TRENDING_DOWN = ''trending_down''"
| "trend_state_value Trend_CHOPPY = ''choppy''"
| "trend_state_value Trend_TRANSITIONING = ''transitioning''"
| "trend_state_value Trend_UNKNOWN = ''unknown''"

datatype day_type =
  Day_TREND_UP | Day_TREND_DOWN | Day_RANGE | Day_BALANCED | Day_UNKNOWN

fun day_type_value :: "day_type \<Rightarrow> string" where
  "day_type_value Day_TREND_UP = ''trend_up''"
| "day_type_value Day_TREND_DOWN = ''trend_down''"
| "day_type_value Day_RANGE = ''range''"
| "day_type_value Day_BALANCED = ''balanced''"
| "day_type_value Day_UNKNOWN = ''unknown''"

datatype day_type_status =
  DayStatus_FORMING | DayStatus_LOCKED_HEALTHY | DayStatus_STRESSED | DayStatus_INVALIDATED

fun day_type_status_value :: "day_type_status \<Rightarrow> string" where
  "day_type_status_value DayStatus_FORMING = ''forming''"
| "day_type_status_value DayStatus_LOCKED_HEALTHY = ''locked_healthy''"
| "day_type_status_value DayStatus_STRESSED = ''stressed''"
| "day_type_status_value DayStatus_INVALIDATED = ''invalidated''"

datatype live_bias =
  Bias_BULLISH | Bias_BEARISH | Bias_TRANSITIONING_BULLISH | Bias_TRANSITIONING_BEARISH
  | Bias_NEUTRAL | Bias_UNKNOWN

fun live_bias_value :: "live_bias \<Rightarrow> string" where
  "live_bias_value Bias_BULLISH = ''bullish''"
| "live_bias_value Bias_BEARISH = ''bearish''"
| "live_bias_value Bias_TRANSITIONING_BULLISH = ''transitioning_bullish''"
| "live_bias_value Bias_TRANSITIONING_BEARISH = ''transitioning_bearish''"
| "live_bias_value Bias_NEUTRAL = ''neutral''"
| "live_bias_value Bias_UNKNOWN = ''unknown''"

datatype vwap_state =
  VWAP_ABOVE | VWAP_BELOW | VWAP_RECLAIMING | VWAP_REJECTING

fun vwap_state_value :: "vwap_state \<Rightarrow> string" where
  "vwap_state_value VWAP_ABOVE = ''above''"
| "vwap_state_value VWAP_BELOW = ''below''"
| "vwap_state_value VWAP_RECLAIMING = ''reclaiming''"
| "vwap_state_value VWAP_REJECTING = ''rejecting''"

datatype setup_type =
  Setup_VWAP_RECLAIM | Setup_VWAP_REJECTION | Setup_VWAP_UNDERCUT_RECLAIM | Setup_ORB_BREAKOUT
  | Setup_ORB_BREAKDOWN | Setup_SWEEP_RECLAIM | Setup_FAKE_BREAKDOWN
  | Setup_DEEP_EXHAUSTION_RECLAIM | Setup_HOD_BREAKOUT | Setup_TREND_PULLBACK
  | Setup_TREND_PULLBACK_SHORT | Setup_VWAP_FAILED_RECLAIM_SHORT
  | Setup_RELATIVE_STRENGTH_BREAKOUT | Setup_ONL_SWEEP_RECLAIM_LONG
  | Setup_DOUBLE_BOTTOM_RECLAIM_LONG

fun setup_type_value :: "setup_type \<Rightarrow> string" where
  "setup_type_value Setup_VWAP_RECLAIM = ''vwap_reclaim''"
| "setup_type_value Setup_VWAP_REJECTION = ''vwap_rejection''"
| "setup_type_value Setup_VWAP_UNDERCUT_RECLAIM = ''vwap_undercut_reclaim''"
| "setup_type_value Setup_ORB_BREAKOUT = ''orb_breakout''"
| "setup_type_value Setup_ORB_BREAKDOWN = ''orb_breakdown''"
| "setup_type_value Setup_SWEEP_RECLAIM = ''sweep_reclaim''"
| "setup_type_value Setup_FAKE_BREAKDOWN = ''fake_breakdown''"
| "setup_type_value Setup_DEEP_EXHAUSTION_RECLAIM = ''deep_exhaustion_reclaim''"
| "setup_type_value Setup_HOD_BREAKOUT = ''hod_breakout''"
| "setup_type_value Setup_TREND_PULLBACK = ''trend_pullback''"
| "setup_type_value Setup_TREND_PULLBACK_SHORT = ''trend_pullback_short''"
| "setup_type_value Setup_VWAP_FAILED_RECLAIM_SHORT = ''vwap_failed_reclaim_short''"
| "setup_type_value Setup_RELATIVE_STRENGTH_BREAKOUT = ''relative_strength_breakout''"
| "setup_type_value Setup_ONL_SWEEP_RECLAIM_LONG = ''onl_sweep_reclaim_long''"
| "setup_type_value Setup_DOUBLE_BOTTOM_RECLAIM_LONG = ''double_bottom_reclaim_long''"

datatype setup_state =
  SState_FORMING | SState_CONFIRMED | SState_TRIGGERED | SState_FAILED | SState_INVALIDATED
  | SState_EXPIRED

fun setup_state_value :: "setup_state \<Rightarrow> string" where
  "setup_state_value SState_FORMING = ''forming''"
| "setup_state_value SState_CONFIRMED = ''confirmed''"
| "setup_state_value SState_TRIGGERED = ''triggered''"
| "setup_state_value SState_FAILED = ''failed''"
| "setup_state_value SState_INVALIDATED = ''invalidated''"
| "setup_state_value SState_EXPIRED = ''expired''"

datatype setup_grade =
  Grade_SSS | Grade_A_PLUS | Grade_A | Grade_B | Grade_C

fun setup_grade_value :: "setup_grade \<Rightarrow> string" where
  "setup_grade_value Grade_SSS = ''SSS''"
| "setup_grade_value Grade_A_PLUS = ''A+''"
| "setup_grade_value Grade_A = ''A''"
| "setup_grade_value Grade_B = ''B''"
| "setup_grade_value Grade_C = ''C''"

datatype order_side =
  Side_BUY | Side_SELL

fun order_side_value :: "order_side \<Rightarrow> string" where
  "order_side_value Side_BUY = ''buy''"
| "order_side_value Side_SELL = ''sell''"

datatype order_type =
  OType_MARKET | OType_LIMIT | OType_STOP | OType_STOP_LIMIT | OType_TRAILING_STOP

fun order_type_value :: "order_type \<Rightarrow> string" where
  "order_type_value OType_MARKET = ''market''"
| "order_type_value OType_LIMIT = ''limit''"
| "order_type_value OType_STOP = ''stop''"
| "order_type_value OType_STOP_LIMIT = ''stop_limit''"
| "order_type_value OType_TRAILING_STOP = ''trailing_stop''"

datatype time_in_force =
  TIF_DAY | TIF_GTC | TIF_IOC | TIF_FOK | TIF_OPG | TIF_CLS

fun time_in_force_value :: "time_in_force \<Rightarrow> string" where
  "time_in_force_value TIF_DAY = ''day''"
| "time_in_force_value TIF_GTC = ''gtc''"
| "time_in_force_value TIF_IOC = ''ioc''"
| "time_in_force_value TIF_FOK = ''fok''"
| "time_in_force_value TIF_OPG = ''opg''"
| "time_in_force_value TIF_CLS = ''cls''"

datatype order_status =
  Order_PENDING | Order_SUBMITTED | Order_ACCEPTED | Order_PARTIAL | Order_FILLED
  | Order_CANCEL_PENDING | Order_CANCELLED | Order_REPLACE_PENDING | Order_REPLACED
  | Order_REJECTED | Order_BROKER_REJECTED | Order_EXPIRED | Order_UNKNOWN

fun order_status_value :: "order_status \<Rightarrow> string" where
  "order_status_value Order_PENDING = ''pending''"
| "order_status_value Order_SUBMITTED = ''submitted''"
| "order_status_value Order_ACCEPTED = ''accepted''"
| "order_status_value Order_PARTIAL = ''partial''"
| "order_status_value Order_FILLED = ''filled''"
| "order_status_value Order_CANCEL_PENDING = ''cancel_pending''"
| "order_status_value Order_CANCELLED = ''cancelled''"
| "order_status_value Order_REPLACE_PENDING = ''replace_pending''"
| "order_status_value Order_REPLACED = ''replaced''"
| "order_status_value Order_REJECTED = ''rejected''"
| "order_status_value Order_BROKER_REJECTED = ''broker_rejected''"
| "order_status_value Order_EXPIRED = ''expired''"
| "order_status_value Order_UNKNOWN = ''unknown''"

datatype taker_side =
  Taker_BUY | Taker_SELL | Taker_UNKNOWN

fun taker_side_value :: "taker_side \<Rightarrow> string" where
  "taker_side_value Taker_BUY = ''buy''"
| "taker_side_value Taker_SELL = ''sell''"
| "taker_side_value Taker_UNKNOWN = ''unknown''"

datatype health_status =
  Health_HEALTHY | Health_DEGRADED | Health_UNHEALTHY

fun health_status_value :: "health_status \<Rightarrow> string" where
  "health_status_value Health_HEALTHY = ''healthy''"
| "health_status_value Health_DEGRADED = ''degraded''"
| "health_status_value Health_UNHEALTHY = ''unhealthy''"

datatype account_type =
  Account_DAY | Account_SWING

fun account_type_value :: "account_type \<Rightarrow> string" where
  "account_type_value Account_DAY = ''day''"
| "account_type_value Account_SWING = ''swing''"

datatype kill_switch_reason =
  Kill_DAILY_LOSS_LIMIT | Kill_PROFIT_PROTECTION | Kill_PROTECTIVE_STOP_REJECTED
  | Kill_UNMANAGED_POSITION | Kill_RECONCILIATION_FAILURE | Kill_MANUAL

fun kill_switch_reason_value :: "kill_switch_reason \<Rightarrow> string" where
  "kill_switch_reason_value Kill_DAILY_LOSS_LIMIT = ''daily_loss_limit''"
| "kill_switch_reason_value Kill_PROFIT_PROTECTION = ''profit_protection''"
| "kill_switch_reason_value Kill_PROTECTIVE_STOP_REJECTED = ''protective_stop_rejected''"
| "kill_switch_reason_value Kill_UNMANAGED_POSITION = ''unmanaged_position''"
| "kill_switch_reason_value Kill_RECONCILIATION_FAILURE = ''reconciliation_failure''"
| "kill_switch_reason_value Kill_MANUAL = ''manual''"

datatype thesis_state =
  Thesis_WATCHING | Thesis_BUILDING | Thesis_READY | Thesis_ORDER_WORKING | Thesis_TRIGGERED
  | Thesis_INVALIDATED | Thesis_FLIPPED | Thesis_EXPIRED

fun thesis_state_value :: "thesis_state \<Rightarrow> string" where
  "thesis_state_value Thesis_WATCHING = ''watching''"
| "thesis_state_value Thesis_BUILDING = ''building''"
| "thesis_state_value Thesis_READY = ''ready''"
| "thesis_state_value Thesis_ORDER_WORKING = ''order_working''"
| "thesis_state_value Thesis_TRIGGERED = ''triggered''"
| "thesis_state_value Thesis_INVALIDATED = ''invalidated''"
| "thesis_state_value Thesis_FLIPPED = ''flipped''"
| "thesis_state_value Thesis_EXPIRED = ''expired''"

datatype thesis_type =
  TType_FAKE_BREAKDOWN_RECLAIM_LONG | TType_VWAP_FAILED_RECLAIM_SHORT

fun thesis_type_value :: "thesis_type \<Rightarrow> string" where
  "thesis_type_value TType_FAKE_BREAKDOWN_RECLAIM_LONG = ''fake_breakdown_reclaim_long''"
| "thesis_type_value TType_VWAP_FAILED_RECLAIM_SHORT = ''vwap_failed_reclaim_short''"

datatype vwap_episode_outcome =
  Outcome_SWEPT | Outcome_RECLAIMED | Outcome_BROKEN | Outcome_REJECTED

fun vwap_episode_outcome_value :: "vwap_episode_outcome \<Rightarrow> string" where
  "vwap_episode_outcome_value Outcome_SWEPT = ''swept''"
| "vwap_episode_outcome_value Outcome_RECLAIMED = ''reclaimed''"
| "vwap_episode_outcome_value Outcome_BROKEN = ''broken''"
| "vwap_episode_outcome_value Outcome_REJECTED = ''rejected''"

datatype data_quality_state =
  Quality_CLEAN | Quality_DEGRADED | Quality_RECOVERING | Quality_FAILED

fun data_quality_state_value :: "data_quality_state \<Rightarrow> string" where
  "data_quality_state_value Quality_CLEAN = ''clean''"
| "data_quality_state_value Quality_DEGRADED = ''degraded''"
| "data_quality_state_value Quality_RECOVERING = ''recovering''"
| "data_quality_state_value Quality_FAILED = ''failed''"

datatype trade_action =
  Action_OPEN_LONG | Action_OPEN_SHORT | Action_REDUCE_LONG | Action_REDUCE_SHORT
  | Action_FLATTEN | Action_REVERSE_LONG | Action_REVERSE_SHORT

fun trade_action_value :: "trade_action \<Rightarrow> string" where
  "trade_action_value Action_OPEN_LONG = ''open_long''"
| "trade_action_value Action_OPEN_SHORT = ''open_short''"
| "trade_action_value Action_REDUCE_LONG = ''reduce_long''"
| "trade_action_value Action_REDUCE_SHORT = ''reduce_short''"
| "trade_action_value Action_FLATTEN = ''flatten''"
| "trade_action_value Action_REVERSE_LONG = ''reverse_long''"
| "trade_action_value Action_REVERSE_SHORT = ''reverse_short''"

datatype price_mode =
  Price_JOIN_BID | Price_JOIN_ASK | Price_CROSS_ONE_TICK | Price_MARKETABLE_LIMIT
  | Price_MIDPOINT | Price_PASSIVE_ONE_TICK

fun price_mode_value :: "price_mode \<Rightarrow> string" where
  "price_mode_value Price_JOIN_BID = ''join_bid''"
| "price_mode_value Price_JOIN_ASK = ''join_ask''"
| "price_mode_value Price_CROSS_ONE_TICK = ''cross_one_tick''"
| "price_mode_value Price_MARKETABLE_LIMIT = ''marketable_limit''"
| "price_mode_value Price_MIDPOINT = ''midpoint''"
| "price_mode_value Price_PASSIVE_ONE_TICK = ''passive_one_tick''"

datatype intent_status =
  Intent_RECEIVED | Intent_VALIDATING | Intent_AWAITING_CONFIRMATION | Intent_CONFIRMED
  | Intent_PLANNING | Intent_PLAN_READY | Intent_SUBMITTING | Intent_ACTIVE | Intent_COMPLETED
  | Intent_CANCELLED | Intent_EXPIRED | Intent_REJECTED | Intent_FAILED

fun intent_status_value :: "intent_status \<Rightarrow> string" where
  "intent_status_value Intent_RECEIVED = ''received''"
| "intent_status_value Intent_VALIDATING = ''validating''"
| "intent_status_value Intent_AWAITING_CONFIRMATION = ''awaiting_confirmation''"
| "intent_status_value Intent_CONFIRMED = ''confirmed''"
| "intent_status_value Intent_PLANNING = ''planning''"
| "intent_status_value Intent_PLAN_READY = ''plan_ready''"
| "intent_status_value Intent_SUBMITTING = ''submitting''"
| "intent_status_value Intent_ACTIVE = ''active''"
| "intent_status_value Intent_COMPLETED = ''completed''"
| "intent_status_value Intent_CANCELLED = ''cancelled''"
| "intent_status_value Intent_EXPIRED = ''expired''"
| "intent_status_value Intent_REJECTED = ''rejected''"
| "intent_status_value Intent_FAILED = ''failed''"

datatype risk_decision =
  Decision_APPROVED | Decision_APPROVED_WITH_MODIFICATIONS | Decision_REJECTED

fun risk_decision_value :: "risk_decision \<Rightarrow> string" where
  "risk_decision_value Decision_APPROVED = ''approved''"
| "risk_decision_value Decision_APPROVED_WITH_MODIFICATIONS = ''approved_with_modifications''"
| "risk_decision_value Decision_REJECTED = ''rejected''"

datatype order_role =
  Role_ENTRY | Role_STOP | Role_TARGET

fun order_role_value :: "order_role \<Rightarrow> string" where
  "order_role_value Role_ENTRY = ''entry''"
| "order_role_value Role_STOP = ''stop''"
| "order_role_value Role_TARGET = ''target''"

datatype intent_source =
  Source_HOTKEY | Source_API | Source_STRATEGY | Source_MANUAL

fun intent_source_value :: "intent_source \<Rightarrow> string" where
  "intent_source_value Source_HOTKEY = ''hotkey''"
| "intent_source_value Source_API = ''api''"
| "intent_source_value Source_STRATEGY = ''strategy''"
| "intent_source_value Source_MANUAL = ''manual''"

section \<open>Values determine members\<close>

lemma runtime_mode_value_inj [simp]: "(runtime_mode_value x = runtime_mode_value y) = (x = y)"
  by (cases x; cases y; simp)

lemma engine_state_value_inj [simp]: "(engine_state_value x = engine_state_value y) = (x = y)"
  by (cases x; cases y; simp)

lemma data_source_id_value_inj [simp]: "(data_source_id_value x = data_source_id_value y) = (x = y)"
  by (cases x; cases y; simp)

lemma asset_class_value_inj [simp]: "(asset_class_value x = asset_class_value y) = (x = y)"
  by (cases x; cases y; simp)

lemma bar_timeframe_value_inj [simp]: "(bar_timeframe_value x = bar_timeframe_value y) = (x = y)"
  by (cases x; cases y; simp)

lemma event_type_value_inj [simp]: "(event_type_value x = event_type_value y) = (x = y)"
  by (cases x; cases y; simp)

lemma session_phase_value_inj [simp]: "(session_phase_value x = session_phase_value y) = (x = y)"
  by (cases x; cases y; simp)

lemma trend_state_value_inj [simp]: "(trend_state_value x = trend_state_value y) = (x = y)"
  by (cases x; cases y; simp)

lemma day_type_value_inj [simp]: "(day_type_value x = day_type_value y) = (x = y)"
  by (cases x; cases y; simp)

lemma day_type_status_value_inj [simp]: "(day_type_status_value x = day_type_status_value y) = (x = y)"
  by (cases x; cases y; simp)

lemma live_bias_value_inj [simp]: "(live_bias_value x = live_bias_value y) = (x = y)"
  by (cases x; cases y; simp)

lemma vwap_state_value_inj [simp]: "(vwap_state_value x = vwap_state_value y) = (x = y)"
  by (cases x; cases y; simp)

lemma setup_type_value_inj [simp]: "(setup_type_value x = setup_type_value y) = (x = y)"
  by (cases x; cases y; simp)

lemma setup_state_value_inj [simp]: "(setup_state_value x = setup_state_value y) = (x = y)"
  by (cases x; cases y; simp)

lemma setup_grade_value_inj [simp]: "(setup_grade_value x = setup_grade_value y) = (x = y)"
  by (cases x; cases y; simp)

lemma order_side_value_inj [simp]: "(order_side_value x = order_side_value y) = (x = y)"
  by (cases x; cases y; simp)

lemma order_type_value_inj [simp]: "(order_type_value x = order_type_value y) = (x = y)"
  by (cases x; cases y; simp)

lemma time_in_force_value_inj [simp]: "(time_in_force_value x = time_in_force_value y) = (x = y)"
  by (cases x; cases y; simp)

lemma order_status_value_inj [simp]: "(order_status_value x = order_status_value y) = (x = y)"
  by (cases x; cases y; simp)

lemma taker_side_value_inj [simp]: "(taker_side_value x = taker_side_value y) = (x = y)"
  by (cases x; cases y; simp)

lemma health_status_value_inj [simp]: "(health_status_value x = health_status_value y) = (x = y)"
  by (cases x; cases y; simp)

lemma account_type_value_inj [simp]: "(account_type_value x = account_type_value y) = (x = y)"
  by (cases x; cases y; simp)

lemma kill_switch_reason_value_inj [simp]: "(kill_switch_reason_value x = kill_switch_reason_value y) = (x = y)"
  by (cases x; cases y; simp)

lemma thesis_state_value_inj [simp]: "(thesis_state_value x = thesis_state_value y) = (x = y)"
  by (cases x; cases y; simp)

lemma thesis_type_value_inj [simp]: "(thesis_type_value x = thesis_type_value y) = (x = y)"
  by (cases x; cases y; simp)

lemma vwap_episode_outcome_value_inj [simp]: "(vwap_episode_outcome_value x = vwap_episode_outcome_value y) = (x = y)"
  by (cases x; cases y; simp)

lemma data_quality_state_value_inj [simp]: "(data_quality_state_value x = data_quality_state_value y) = (x = y)"
  by (cases x; cases y; simp)

lemma trade_action_value_inj [simp]: "(trade_action_value x = trade_action_value y) = (x = y)"
  by (cases x; cases y; simp)

lemma price_mode_value_inj [simp]: "(price_mode_value x = price_mode_value y) = (x = y)"
  by (cases x; cases y; simp)

lemma intent_status_value_inj [simp]: "(intent_status_value x = intent_status_value y) = (x = y)"
  by (cases x; cases y; simp)

lemma risk_decision_value_inj [simp]: "(risk_decision_value x = risk_decision_value y) = (x = y)"
  by (cases x; cases y; simp)

lemma order_role_value_inj [simp]: "(order_role_value x = order_role_value y) = (x = y)"
  by (cases x; cases y; simp)

lemma intent_source_value_inj [simp]: "(intent_source_value x = intent_source_value y) = (x = y)"
  by (cases x; cases y; simp)

end
