(* ===== verification/State_Machines.thy ===== *)
theory State_Machines
  imports Enums
begin

text \<open>
  \<^verbatim>\<open>src/alpha/engines/execution/state_machines.py\<close>: the transition tables of a trade intent
  and of a broker order, their terminal states, and the two guards that raise
  \<open>StateMachineError\<close> on a move that is not in the table. The two machines share one
  contract, the locale \<open>status_machine\<close>; its consequences about whole runs are proved once
  and reach both tables by interpretation.
\<close>

datatype state_machine_error =
  Invalid_intent_transition intent_status intent_status
| Invalid_order_transition order_status order_status

section \<open>The intent table\<close>

fun intent_transitions :: "intent_status \<Rightarrow> intent_status set" where
  "intent_transitions Intent_RECEIVED = {Intent_VALIDATING}"
| "intent_transitions Intent_VALIDATING =
     {Intent_REJECTED, Intent_AWAITING_CONFIRMATION, Intent_PLANNING}"
| "intent_transitions Intent_AWAITING_CONFIRMATION =
     {Intent_CONFIRMED, Intent_EXPIRED, Intent_CANCELLED}"
| "intent_transitions Intent_CONFIRMED = {Intent_PLANNING}"
| "intent_transitions Intent_PLANNING = {Intent_PLAN_READY, Intent_REJECTED}"
| "intent_transitions Intent_PLAN_READY =
     {Intent_SUBMITTING, Intent_AWAITING_CONFIRMATION, Intent_REJECTED}"
| "intent_transitions Intent_SUBMITTING = {Intent_ACTIVE, Intent_FAILED, Intent_CANCELLED}"
| "intent_transitions Intent_ACTIVE = {Intent_COMPLETED, Intent_CANCELLED, Intent_FAILED}"
| "intent_transitions Intent_COMPLETED = {}"
| "intent_transitions Intent_CANCELLED = {}"
| "intent_transitions Intent_EXPIRED = {}"
| "intent_transitions Intent_REJECTED = {}"
| "intent_transitions Intent_FAILED = {}"

definition INTENT_TERMINAL_STATES :: "intent_status set" where
  "INTENT_TERMINAL_STATES =
     {Intent_COMPLETED, Intent_CANCELLED, Intent_EXPIRED, Intent_REJECTED, Intent_FAILED}"

definition assert_valid_intent_transition ::
  "intent_status \<Rightarrow> intent_status \<Rightarrow> state_machine_error + unit" where
  "assert_valid_intent_transition current next' =
     (if next' \<notin> intent_transitions current
      then Inl (Invalid_intent_transition current next') else Inr ())"

definition is_intent_terminal :: "intent_status \<Rightarrow> bool" where
  "is_intent_terminal status \<longleftrightarrow> status \<in> INTENT_TERMINAL_STATES"

section \<open>The order table\<close>

fun order_transitions :: "order_status \<Rightarrow> order_status set" where
  "order_transitions Order_PENDING = {Order_SUBMITTED, Order_REJECTED}"
| "order_transitions Order_SUBMITTED =
     {Order_ACCEPTED, Order_UNKNOWN, Order_BROKER_REJECTED, Order_CANCELLED}"
| "order_transitions Order_ACCEPTED =
     {Order_PARTIAL, Order_FILLED, Order_CANCEL_PENDING, Order_REPLACE_PENDING,
      Order_BROKER_REJECTED, Order_EXPIRED}"
| "order_transitions Order_PARTIAL = {Order_PARTIAL, Order_FILLED, Order_CANCEL_PENDING}"
| "order_transitions Order_CANCEL_PENDING = {Order_CANCELLED, Order_PARTIAL, Order_FILLED}"
| "order_transitions Order_REPLACE_PENDING = {Order_REPLACED, Order_ACCEPTED}"
| "order_transitions Order_UNKNOWN =
     {Order_ACCEPTED, Order_PARTIAL, Order_FILLED, Order_CANCELLED, Order_BROKER_REJECTED,
      Order_EXPIRED}"
| "order_transitions Order_REJECTED = {}"
| "order_transitions Order_BROKER_REJECTED = {}"
| "order_transitions Order_FILLED = {}"
| "order_transitions Order_CANCELLED = {}"
| "order_transitions Order_REPLACED = {}"
| "order_transitions Order_EXPIRED = {}"

definition ORDER_TERMINAL_STATES :: "order_status set" where
  "ORDER_TERMINAL_STATES =
     {Order_REJECTED, Order_BROKER_REJECTED, Order_FILLED, Order_CANCELLED, Order_REPLACED,
      Order_EXPIRED}"

definition ORDER_RECONCILIATION_REQUIRED :: "order_status set" where
  "ORDER_RECONCILIATION_REQUIRED = {Order_UNKNOWN}"

definition ORDER_BROKER_ONLY_STATES :: "order_status set" where
  "ORDER_BROKER_ONLY_STATES =
     {Order_ACCEPTED, Order_PARTIAL, Order_FILLED, Order_CANCELLED, Order_REPLACED,
      Order_BROKER_REJECTED, Order_EXPIRED, Order_UNKNOWN}"

definition assert_valid_order_transition ::
  "order_status \<Rightarrow> order_status \<Rightarrow> state_machine_error + unit" where
  "assert_valid_order_transition current next' =
     (if next' \<notin> order_transitions current
      then Inl (Invalid_order_transition current next') else Inr ())"

definition is_order_terminal :: "order_status \<Rightarrow> bool" where
  "is_order_terminal status \<longleftrightarrow> status \<in> ORDER_TERMINAL_STATES"

definition requires_reconciliation :: "order_status \<Rightarrow> bool" where
  "requires_reconciliation status \<longleftrightarrow> status \<in> ORDER_RECONCILIATION_REQUIRED"

lemmas intent_machine_defs =
  assert_valid_intent_transition_def is_intent_terminal_def INTENT_TERMINAL_STATES_def

lemmas order_machine_defs =
  assert_valid_order_transition_def is_order_terminal_def ORDER_TERMINAL_STATES_def
  requires_reconciliation_def ORDER_RECONCILIATION_REQUIRED_def ORDER_BROKER_ONLY_STATES_def

section \<open>Runs\<close>

text \<open>A run is the list of states entered after the first one, each allowed by the table.\<close>

fun follows :: "('s \<Rightarrow> 's set) \<Rightarrow> 's \<Rightarrow> 's list \<Rightarrow> bool" where
  "follows tab s [] \<longleftrightarrow> True"
| "follows tab s (t # ts) \<longleftrightarrow> t \<in> tab s \<and> follows tab t ts"

inductive reaches :: "('s \<Rightarrow> 's set) \<Rightarrow> 's \<Rightarrow> 's \<Rightarrow> bool" for tab where
  reaches_refl: "reaches tab s s"
| reaches_step: "t \<in> tab s \<Longrightarrow> reaches tab t u \<Longrightarrow> reaches tab s u"

inductive_cases reaches_fromE: "reaches tab s u"

text \<open>
  A machine that asks the guard before each move and stays where it is when the guard raises,
  which is how the coordinator uses the intent guard.
\<close>

fun guarded_run :: "('s \<Rightarrow> 's \<Rightarrow> 'e + unit) \<Rightarrow> 's \<Rightarrow> 's list \<Rightarrow> 's list" where
  "guarded_run g s [] = []"
| "guarded_run g s (t # ts) =
     (case g s t of Inl _ \<Rightarrow> guarded_run g s ts | Inr _ \<Rightarrow> t # guarded_run g t ts)"

lemma follows_append:
  "follows tab s (xs @ ys) \<longleftrightarrow> follows tab s xs \<and> follows tab (last (s # xs)) ys"
  by (induction xs arbitrary: s) auto

lemma follows_reaches: "follows tab s xs \<Longrightarrow> reaches tab s (last (s # xs))"
  by (induction xs arbitrary: s) (auto intro: reaches.intros)

section \<open>The contract of a guarded table\<close>

locale status_machine =
  fixes table :: "'s \<Rightarrow> 's set"
    and terminal :: "'s \<Rightarrow> bool"
    and guard :: "'s \<Rightarrow> 's \<Rightarrow> 'e + unit"
  assumes terminal_iff_stuck: "terminal s \<longleftrightarrow> table s = {}"
    and guard_returns: "returns (guard s t) \<longleftrightarrow> t \<in> table s"
begin

lemma no_run_leaves_terminal: "terminal s \<Longrightarrow> follows table s xs \<Longrightarrow> xs = []"
  by (cases xs) (auto simp: terminal_iff_stuck)

lemma terminal_reaches_itself_only: "terminal s \<Longrightarrow> reaches table s t \<Longrightarrow> t = s"
  by (auto simp: terminal_iff_stuck elim: reaches_fromE)

lemma guarded_run_follows: "follows table s (guarded_run guard s ts)"
proof (induction ts arbitrary: s)
  case (Cons t ts)
  then show ?case using guard_returns [of s t] by (cases "guard s t") auto
qed simp

lemma guarded_run_keeps_run: "follows table s ts \<Longrightarrow> guarded_run guard s ts = ts"
proof (induction ts arbitrary: s)
  case (Cons t ts)
  then show ?case using guard_returns [of s t] by (cases "guard s t") auto
qed simp

lemma guarded_run_stays_terminal: "terminal s \<Longrightarrow> guarded_run guard s ts = []"
  using guarded_run_follows [of s ts] no_run_leaves_terminal by blast

text \<open>A terminal state can only be the last one of a run.\<close>

lemma terminal_only_last:
  assumes "follows table s (xs @ t # ys)" "terminal t"
  shows "ys = []"
  using assms no_run_leaves_terminal [of t ys] by (simp add: follows_append)

end

interpretation intent_sm: status_machine intent_transitions is_intent_terminal
    assert_valid_intent_transition
proof
  show "is_intent_terminal s \<longleftrightarrow> intent_transitions s = {}" for s
    by (cases s) (auto simp: intent_machine_defs)
  show "returns (assert_valid_intent_transition s t) \<longleftrightarrow> t \<in> intent_transitions s" for s t
    by (simp add: assert_valid_intent_transition_def)
qed

interpretation order_sm: status_machine order_transitions is_order_terminal
    assert_valid_order_transition
proof
  show "is_order_terminal s \<longleftrightarrow> order_transitions s = {}" for s
    by (cases s) (auto simp: order_machine_defs)
  show "returns (assert_valid_order_transition s t) \<longleftrightarrow> t \<in> order_transitions s" for s t
    by (simp add: assert_valid_order_transition_def)
qed

section \<open>The intent machine\<close>

text \<open>
  The rank of a state bounds the moves left before the intent is terminal, as long as it is not
  sent back for a confirmation; only the step to \<open>AWAITING_CONFIRMATION\<close> raises it.
\<close>

fun intent_rank :: "intent_status \<Rightarrow> nat" where
  "intent_rank Intent_RECEIVED = 7"
| "intent_rank Intent_VALIDATING = 6"
| "intent_rank Intent_AWAITING_CONFIRMATION = 6"
| "intent_rank Intent_CONFIRMED = 5"
| "intent_rank Intent_PLANNING = 4"
| "intent_rank Intent_PLAN_READY = 3"
| "intent_rank Intent_SUBMITTING = 2"
| "intent_rank Intent_ACTIVE = 1"
| "intent_rank _ = 0"

lemma intent_rank_decreases:
  "t \<in> intent_transitions s \<Longrightarrow> t \<noteq> Intent_AWAITING_CONFIRMATION \<Longrightarrow> intent_rank t < intent_rank s"
  by (cases s) auto

lemma intent_run_length:
  "follows intent_transitions s xs \<Longrightarrow> Intent_AWAITING_CONFIRMATION \<notin> set xs \<Longrightarrow>
   length xs \<le> intent_rank s"
proof (induction xs arbitrary: s)
  case (Cons t ts)
  then have "intent_rank t < intent_rank s" by (intro intent_rank_decreases) auto
  moreover have "length ts \<le> intent_rank t" using Cons by auto
  ultimately show ?case by simp
qed simp

lemma submitting_pred: "Intent_SUBMITTING \<in> intent_transitions s \<longleftrightarrow> s = Intent_PLAN_READY"
  by (cases s) auto

lemma plan_ready_pred: "Intent_PLAN_READY \<in> intent_transitions s \<longleftrightarrow> s = Intent_PLANNING"
  by (cases s) auto

lemma awaiting_succ_live:
  assumes "follows intent_transitions Intent_AWAITING_CONFIRMATION (zs @ t # vs)" "zs \<noteq> []"
  shows "\<exists>zs'. zs = Intent_CONFIRMED # zs'"
proof -
  from assms obtain z zs' where z: "zs = z # zs'" by (cases zs) auto
  with assms(1) have "z \<in> {Intent_CONFIRMED, Intent_EXPIRED, Intent_CANCELLED}"
    and run: "follows intent_transitions z (zs' @ t # vs)" by auto
  moreover have "\<not> is_intent_terminal z"
    using intent_sm.no_run_leaves_terminal [of z "zs' @ t # vs"] run by auto
  ultimately show ?thesis using z by (auto simp: intent_machine_defs)
qed

text \<open>
  An intent enters \<open>SUBMITTING\<close> only right after \<open>PLANNING\<close> and \<open>PLAN_READY\<close>, and if it was
  ever held for confirmation, then the last \<open>AWAITING_CONFIRMATION\<close> before the submission was
  left through \<open>CONFIRMED\<close>: no run of the table reaches the broker from an unconfirmed amber plan.
\<close>

theorem submitting_after_plan_and_confirmation:
  assumes run: "follows intent_transitions Intent_RECEIVED (us @ Intent_SUBMITTING # vs)"
  shows "(\<exists>ws. us = ws @ [Intent_PLANNING, Intent_PLAN_READY]) \<and>
         (Intent_AWAITING_CONFIRMATION \<in> set us \<longrightarrow>
           (\<exists>as bs. us = as @ [Intent_AWAITING_CONFIRMATION, Intent_CONFIRMED] @ bs \<and>
                    Intent_AWAITING_CONFIRMATION \<notin> set bs))"
proof (intro conjI impI)
  have "last (Intent_RECEIVED # us) = Intent_PLAN_READY"
    using run by (simp only: follows_append follows.simps submitting_pred)
  then obtain us' where us': "us = us' @ [Intent_PLAN_READY]"
    by (cases us rule: rev_cases) auto
  with run have "last (Intent_RECEIVED # us') = Intent_PLANNING"
    by (simp only: follows_append follows.simps plan_ready_pred append_assoc append_Cons append_Nil)
  then obtain ws where "us' = ws @ [Intent_PLANNING]"
    by (cases us' rule: rev_cases) auto
  with us' show "\<exists>ws. us = ws @ [Intent_PLANNING, Intent_PLAN_READY]" by simp
next
  assume "Intent_AWAITING_CONFIRMATION \<in> set us"
  then obtain as zs where us: "us = as @ Intent_AWAITING_CONFIRMATION # zs"
    and last: "Intent_AWAITING_CONFIRMATION \<notin> set zs" by (metis split_list_last)
  with run have tail: "follows intent_transitions Intent_AWAITING_CONFIRMATION
      (zs @ Intent_SUBMITTING # vs)"
    by (simp add: follows_append)
  then have "zs \<noteq> []" by (cases zs) auto
  with tail awaiting_succ_live obtain bs where "zs = Intent_CONFIRMED # bs" by blast
  with us last show "\<exists>as bs. us = as @ [Intent_AWAITING_CONFIRMATION, Intent_CONFIRMED] @ bs \<and>
      Intent_AWAITING_CONFIRMATION \<notin> set bs" by auto
qed

theorem submitting_after_plan_and_confirmation_witness:
  "\<exists>as bs. [Intent_VALIDATING, Intent_PLANNING, Intent_PLAN_READY, Intent_AWAITING_CONFIRMATION,
      Intent_CONFIRMED, Intent_PLANNING, Intent_PLAN_READY]
    = as @ [Intent_AWAITING_CONFIRMATION, Intent_CONFIRMED] @ bs \<and>
      Intent_AWAITING_CONFIRMATION \<notin> set bs"
  using submitting_after_plan_and_confirmation [of
      "[Intent_VALIDATING, Intent_PLANNING, Intent_PLAN_READY, Intent_AWAITING_CONFIRMATION,
        Intent_CONFIRMED, Intent_PLANNING, Intent_PLAN_READY]" "[]"]
  by simp

section \<open>The order machine\<close>

lemma order_reaches_1: "t \<in> order_transitions s \<Longrightarrow> reaches order_transitions s t"
  by (blast intro: reaches.intros)

lemma order_can_fill:
  "s \<in> {Order_ACCEPTED, Order_PARTIAL, Order_CANCEL_PENDING, Order_UNKNOWN} \<Longrightarrow>
   reaches order_transitions s Order_FILLED"
  by (rule order_reaches_1) auto

text \<open>
  No broker order is stuck: from every status the table allows a run to a terminal status,
  a terminal status allows no further move, and only statuses in which the broker holds the
  order (or may hold it) can turn into \<open>FILLED\<close>.
\<close>

theorem order_machine_has_no_dead_end:
  "(\<exists>t. is_order_terminal t \<and> reaches order_transitions s t) \<and>
   (is_order_terminal s \<longleftrightarrow> order_transitions s = {}) \<and>
   (Order_FILLED \<in> order_transitions s \<longleftrightarrow>
     s \<in> {Order_ACCEPTED, Order_PARTIAL, Order_CANCEL_PENDING, Order_UNKNOWN})"
proof (intro conjI)
  have "is_order_terminal s \<or> (\<exists>t \<in> order_transitions s. is_order_terminal t)
      \<or> s \<in> {Order_REPLACE_PENDING}"
    by (cases s) (auto simp: order_machine_defs)
  moreover have "is_order_terminal Order_REPLACED" by (simp add: order_machine_defs)
  moreover have "reaches order_transitions Order_REPLACE_PENDING Order_REPLACED"
    by (rule order_reaches_1) simp
  ultimately show "\<exists>t. is_order_terminal t \<and> reaches order_transitions s t"
    by (blast intro: order_reaches_1 reaches_refl)
  show "is_order_terminal s \<longleftrightarrow> order_transitions s = {}" by (rule order_sm.terminal_iff_stuck)
  show "Order_FILLED \<in> order_transitions s \<longleftrightarrow>
     s \<in> {Order_ACCEPTED, Order_PARTIAL, Order_CANCEL_PENDING, Order_UNKNOWN}"
    by (cases s) simp_all
qed

end
