(* ===== verification/Exec_Models.thy ===== *)
theory Exec_Models
  imports Enums
begin

text \<open>
  The data of the execution subsystem, from \<^verbatim>\<open>src/alpha/engines/execution/models.py\<close> and
  \<^verbatim>\<open>src/alpha/models/order.py\<close>. One record per class, each field carrying a short prefix of its
  class; the computed properties of the classes follow their record. The exceptions of the
  subsystem are the datatype \<open>exec_error\<close>, and a human-readable string built by an f-string is
  a \<open>message\<close> whose constructor holds the interpolated values instead of their rendering.
\<close>

section \<open>Exceptions and messages\<close>

datatype exec_error =
  Not_ready "string list"
| Order_id_collision string
| Exposure_breach dec dec dec dec
| Not_broker_callback order_status string
| Client_price_source
| Plan_missing string
| Hard_risk_override "string set"
| Duplicate_intent string
| Unknown_broker_outcome string
| Unprotected_position string dec
| Unsupported_action trade_action
| Value_error string
| Decimal_division_by_zero

text \<open>The constructors that stand for \<open>ExecutionInvariantViolation\<close>.\<close>

fun is_invariant_violation :: "exec_error \<Rightarrow> bool" where
  "is_invariant_violation (Not_ready _) = True"
| "is_invariant_violation (Order_id_collision _) = True"
| "is_invariant_violation (Exposure_breach _ _ _ _) = True"
| "is_invariant_violation (Not_broker_callback _ _) = True"
| "is_invariant_violation Client_price_source = True"
| "is_invariant_violation (Plan_missing _) = True"
| "is_invariant_violation (Hard_risk_override _) = True"
| "is_invariant_violation _ = False"

datatype message =
  Text string
| Kill_switch_active "kill_switch_reason option"
| Daily_loss_exceeds dec dec
| Action_not_supported trade_action
| Quality_failed string
| Exposure_exceeds dec dec dec dec
| Quote_age int int
| Quote_drift dec dec dec dec
| Exception_text exec_error
| Source_is intent_source
| Flags_are "string list"
| Identities_are "string list"
| Joined "message list"
| Revalidation_failed string
| Revalidation_rejected "message list"
| Submission_failed exec_error
| Window_elapsed rat

section \<open>Quotes and market context\<close>

record quote_snapshot =
  qs_instrument_id :: string
  qs_bid :: dec
  qs_ask :: dec
  qs_last :: dec
  qs_timestamp :: timestamp

definition qs_spread_ticks :: "quote_snapshot \<Rightarrow> dec" where
  "qs_spread_ticks q = qs_ask q - qs_bid q"

record market_context =
  mc_instrument_id :: string
  mc_snapshot_id :: string
  mc_as_of :: timestamp
  mc_bar_timestamp :: timestamp
  mc_regime :: trend_state
  mc_day_type :: day_type
  mc_last_price :: dec
  mc_bid :: dec
  mc_ask :: dec
  mc_vwap :: dec
  mc_above_vwap :: bool
  mc_bars_since_vwap_cross :: int
  mc_ema9 :: "dec option"
  mc_ema21 :: "dec option"
  mc_opening_range_high :: "dec option"
  mc_opening_range_low :: "dec option"
  mc_rvol :: "rat option"
  mc_signal_freshness_ms :: int
  mc_data_quality :: data_quality_state
  mc_setup_scores :: "string \<rightharpoonup> rat"

definition mc_is_data_reliable :: "market_context \<Rightarrow> bool" where
  "mc_is_data_reliable m \<longleftrightarrow> mc_data_quality m \<in> {Quality_CLEAN, Quality_RECOVERING}"

definition mc_spread_ticks :: "market_context \<Rightarrow> dec" where
  "mc_spread_ticks m = mc_ask m - mc_bid m"

section \<open>Account and execution snapshots\<close>

record account_snapshot =
  ac_snapshot_id :: string
  ac_as_of :: timestamp
  ac_account_id :: string
  ac_net_liquidation :: dec
  ac_realized_pnl :: dec
  ac_unrealized_pnl :: dec
  ac_daily_loss_limit :: dec
  ac_session_high_pnl :: dec
  ac_is_halted :: bool
  ac_halt_reason :: "kill_switch_reason option"

definition ac_current_pnl :: "account_snapshot \<Rightarrow> dec" where
  "ac_current_pnl a = ac_realized_pnl a + ac_unrealized_pnl a"

definition ac_remaining_daily_risk :: "account_snapshot \<Rightarrow> dec" where
  "ac_remaining_daily_risk a = max 0 (ac_daily_loss_limit a + ac_realized_pnl a)"

record working_order =
  wo_runtime_order_id :: string
  wo_instrument_id :: string
  wo_side :: order_side
  wo_quantity :: dec
  wo_role :: order_role

record execution_snapshot =
  es_snapshot_id :: string
  es_as_of :: timestamp
  es_positions :: "string \<rightharpoonup> dec"
  es_working_orders :: "working_order list"
  es_submitting_intent_ids :: "string list"
  es_session_trade_count :: int
  es_consecutive_losses :: int

definition wo_signed_quantity :: "working_order \<Rightarrow> dec" where
  "wo_signed_quantity w = (if wo_side w = Side_BUY then wo_quantity w else - wo_quantity w)"

definition es_effective_exposure :: "execution_snapshot \<Rightarrow> string \<Rightarrow> dec" where
  "es_effective_exposure es instrument_id =
     (let filled = get_default (es_positions es) instrument_id 0;
          pending = sum_list (map wo_signed_quantity
            (filter (\<lambda>w. wo_instrument_id w = instrument_id \<and> wo_role w = Role_ENTRY)
              (es_working_orders es)))
      in filled + pending)"

section \<open>Policies and intents\<close>

record execution_policy =
  ep_price_mode :: price_mode
  ep_max_slippage_ticks :: int
  ep_time_in_force :: time_in_force

record protection_policy =
  pp_stop_distance_ticks :: int
  pp_target_distance_ticks :: "int option"
  pp_use_broker_bracket :: bool
  pp_stop_retry_attempts :: int

record trade_intent =
  ti_intent_id :: uuid
  ti_idempotency_key :: string
  ti_created_at :: timestamp
  ti_instrument_id :: string
  ti_action :: trade_action
  ti_quantity :: dec
  ti_execution_policy :: execution_policy
  ti_protection_policy :: protection_policy
  ti_source :: intent_source
  ti_client_quote :: "quote_snapshot option"
  ti_status :: intent_status

section \<open>Plans\<close>

record planned_order =
  po_runtime_order_id :: string
  po_role :: order_role
  po_side :: order_side
  po_order_type :: order_type
  po_quantity :: dec
  po_limit_price :: "dec option"
  po_stop_price :: "dec option"
  po_time_in_force :: time_in_force

record intent_trade_plan =
  tp_plan_id :: uuid
  tp_intent_id :: uuid
  tp_decision :: risk_decision
  tp_entry_order :: "planned_order option"
  tp_stop_order :: "planned_order option"
  tp_target_orders :: "planned_order list"
  tp_calculated_risk_usd :: dec
  tp_max_loss_usd :: dec
  tp_reward_risk_ratio :: rat
  tp_market_context_snapshot_id :: string
  tp_account_snapshot_id :: string
  tp_risk_policy_version :: string
  tp_evaluated_at :: timestamp
  tp_risk_flags :: "string list"
  tp_explanation :: "message list"

definition tp_requires_confirmation :: "intent_trade_plan \<Rightarrow> bool" where
  "tp_requires_confirmation p \<longleftrightarrow> tp_decision p = Decision_APPROVED_WITH_MODIFICATIONS"

definition tp_all_orders :: "intent_trade_plan \<Rightarrow> planned_order list" where
  "tp_all_orders p =
     (case tp_entry_order p of None \<Rightarrow> [] | Some e \<Rightarrow> [e]) @
     (case tp_stop_order p of None \<Rightarrow> [] | Some s \<Rightarrow> [s]) @
     tp_target_orders p"

section \<open>Broker identities and the audit record\<close>

record broker_order_identity =
  bi_runtime_order_id :: string
  bi_broker :: string
  bi_broker_order_ref :: string
  bi_broker_client_id :: "int option"
  bi_broker_order_id :: "int option"
  bi_broker_perm_id :: "int option"

record intent_audit_record =
  ar_intent_id :: string
  ar_event :: string
  ar_timestamp :: timestamp
  ar_market_snapshot_id :: "string option"
  ar_account_snapshot_id :: "string option"
  ar_detail :: message

section \<open>Orders and executions\<close>

record order_intent =
  oi_intent_id :: uuid
  oi_plan_id :: uuid
  oi_symbol :: string
  oi_side :: order_side
  oi_order_type :: order_type
  oi_quantity :: int
  oi_limit_price :: "dec option"
  oi_stop_price :: "dec option"
  oi_time_in_force :: time_in_force
  oi_created_at :: timestamp
  oi_account_id :: string
  oi_notes :: string

record broker_order =
  or_order_id :: uuid
  or_broker_order_id :: "string option"
  or_intent_id :: uuid
  or_symbol :: string
  or_side :: order_side
  or_order_type :: order_type
  or_quantity :: int
  or_account_id :: string
  or_filled_quantity :: int
  or_avg_fill_price :: "dec option"
  or_limit_price :: "dec option"
  or_stop_price :: "dec option"
  or_time_in_force :: time_in_force
  or_status :: order_status
  or_submitted_at :: "timestamp option"
  or_accepted_at :: "timestamp option"
  or_filled_at :: "timestamp option"
  or_cancelled_at :: "timestamp option"
  or_rejected_at :: "timestamp option"
  or_reject_reason :: "string option"
  or_commission :: dec

definition or_remaining_quantity :: "broker_order \<Rightarrow> int" where
  "or_remaining_quantity o1 = or_quantity o1 - or_filled_quantity o1"

definition or_is_terminal :: "broker_order \<Rightarrow> bool" where
  "or_is_terminal o1 \<longleftrightarrow>
     or_status o1 \<in> {Order_FILLED, Order_CANCELLED, Order_REJECTED, Order_EXPIRED}"

record fill_execution =
  ex_execution_id :: uuid
  ex_order_id :: uuid
  ex_broker_execution_id :: "string option"
  ex_symbol :: string
  ex_side :: order_side
  ex_quantity :: int
  ex_price :: dec
  ex_commission :: dec
  ex_timestamp :: timestamp
  ex_account_id :: string

section \<open>Shared facts\<close>

definition opposite_side :: "order_side \<Rightarrow> order_side" where
  "opposite_side s = (if s = Side_BUY then Side_SELL else Side_BUY)"

lemma opposite_side_simps [simp]:
  "opposite_side Side_BUY = Side_SELL" "opposite_side Side_SELL = Side_BUY"
  "opposite_side (opposite_side s) = s" "opposite_side s \<noteq> s"
  by (simp_all add: opposite_side_def) (cases s; simp)+

lemma side_not_buy [simp]: "s \<noteq> Side_BUY \<longleftrightarrow> s = Side_SELL" "s \<noteq> Side_SELL \<longleftrightarrow> s = Side_BUY"
  by (cases s; simp)+

lemma es_effective_exposure_append:
  "es_effective_exposure (es\<lparr>es_working_orders := es_working_orders es @ [w]\<rparr>) i =
   es_effective_exposure es i +
   (if wo_instrument_id w = i \<and> wo_role w = Role_ENTRY then wo_signed_quantity w else 0)"
  by (simp add: es_effective_exposure_def Let_def)

end
