(* ===== verification/Exec_Guards.thy ===== *)
theory Exec_Guards
  imports Exec_Models State_Machines Numerics "HOL-Library.Sublist"
begin

text \<open>
  The startup gate (\<^verbatim>\<open>execution/readiness.py\<close>), the ten guard functions
  (\<^verbatim>\<open>execution/invariants.py\<close>) and the two in-memory stores (\<^verbatim>\<open>execution/stores.py\<close>).
  A guard returns \<open>Inr ()\<close> or raises one of the exceptions of \<open>Exec_Models\<close>. The store
  protocols of \<^verbatim>\<open>execution/interfaces.py\<close> are the locales \<open>idempotency_store\<close> and
  \<open>intent_journal\<close>, interpreted on the in-memory stores.
\<close>

section \<open>Readiness\<close>

record execution_readiness =
  er_broker_connected :: bool
  er_positions_reconciled :: bool
  er_orders_reconciled :: bool
  er_executions_reconciled :: bool
  er_account_state_loaded :: bool
  er_market_data_fresh :: bool

definition EXECUTION_NOT_READY :: execution_readiness where
  "EXECUTION_NOT_READY =
     \<lparr>er_broker_connected = False, er_positions_reconciled = False, er_orders_reconciled = False,
      er_executions_reconciled = False, er_account_state_loaded = False,
      er_market_data_fresh = False\<rparr>"

definition er_ready :: "execution_readiness \<Rightarrow> bool" where
  "er_ready r \<longleftrightarrow> er_broker_connected r \<and> er_positions_reconciled r \<and> er_orders_reconciled r \<and>
     er_executions_reconciled r \<and> er_account_state_loaded r \<and> er_market_data_fresh r"

definition er_blocking_reasons :: "execution_readiness \<Rightarrow> string list" where
  "er_blocking_reasons r =
     (if \<not> er_broker_connected r then [''broker_not_connected''] else []) @
     (if \<not> er_positions_reconciled r then [''positions_not_reconciled''] else []) @
     (if \<not> er_orders_reconciled r then [''orders_not_reconciled''] else []) @
     (if \<not> er_executions_reconciled r then [''executions_not_reconciled''] else []) @
     (if \<not> er_account_state_loaded r then [''account_state_not_loaded''] else []) @
     (if \<not> er_market_data_fresh r then [''market_data_stale_or_disconnected''] else [])"

text \<open>The keyword arguments are a dictionary from flag names to booleans.\<close>

definition er_with_update :: "execution_readiness \<Rightarrow> (string \<rightharpoonup> bool) \<Rightarrow> execution_readiness" where
  "er_with_update r kwargs =
     \<lparr>er_broker_connected = get_default kwargs ''broker_connected'' (er_broker_connected r),
      er_positions_reconciled =
        get_default kwargs ''positions_reconciled'' (er_positions_reconciled r),
      er_orders_reconciled = get_default kwargs ''orders_reconciled'' (er_orders_reconciled r),
      er_executions_reconciled =
        get_default kwargs ''executions_reconciled'' (er_executions_reconciled r),
      er_account_state_loaded =
        get_default kwargs ''account_state_loaded'' (er_account_state_loaded r),
      er_market_data_fresh = get_default kwargs ''market_data_fresh'' (er_market_data_fresh r)\<rparr>"

lemma er_ready_iff: "er_ready r \<longleftrightarrow> er_blocking_reasons r = []"
  by (auto simp: er_ready_def er_blocking_reasons_def)

lemma not_ready_initially [simp]: "\<not> er_ready EXECUTION_NOT_READY"
  by (simp add: er_ready_def EXECUTION_NOT_READY_def)

lemma er_with_update_empty [simp]: "er_with_update r Map.empty = r"
  by (simp add: er_with_update_def)

lemma er_with_update_twice:
  "er_with_update (er_with_update r k1) k2 = er_with_update r (k1 ++ k2)"
  by (simp add: er_with_update_def get_default_map_add)

section \<open>The guards\<close>

text \<open>Invariants 1 to 4.\<close>

definition assert_runtime_ready :: "execution_readiness \<Rightarrow> exec_error + unit" where
  "assert_runtime_ready r =
     (if \<not> er_ready r then Inl (Not_ready (er_blocking_reasons r)) else Inr ())"

definition assert_unique_runtime_order_id :: "string \<Rightarrow> string set \<Rightarrow> exec_error + unit" where
  "assert_unique_runtime_order_id roid existing_ids =
     (if roid \<in> existing_ids then Inl (Order_id_collision roid) else Inr ())"

definition assert_not_duplicate_intent :: "string \<Rightarrow> string set \<Rightarrow> exec_error + unit" where
  "assert_not_duplicate_intent key processed_keys =
     (if key \<in> processed_keys then Inl (Duplicate_intent key) else Inr ())"

definition assert_no_blind_retry_on_unknown :: "string \<Rightarrow> order_status \<Rightarrow> exec_error + unit" where
  "assert_no_blind_retry_on_unknown roid status =
     (if status = Order_UNKNOWN then Inl (Unknown_broker_outcome roid) else Inr ())"

text \<open>Invariant 5.\<close>

definition effective_exposure :: "string \<Rightarrow> execution_snapshot \<Rightarrow> dec" where
  "effective_exposure instrument_id es = es_effective_exposure es instrument_id"

definition assert_exposure_within_limit ::
  "string \<Rightarrow> dec \<Rightarrow> execution_snapshot \<Rightarrow> dec \<Rightarrow> exec_error + unit" where
  "assert_exposure_within_limit instrument_id proposed_additional es max_net_contracts =
     (let current = effective_exposure instrument_id es;
          projected = \<bar>current + proposed_additional\<bar>
      in if projected > max_net_contracts
         then Inl (Exposure_breach current proposed_additional projected max_net_contracts)
         else Inr ())"

text \<open>Invariant 6.\<close>

definition assert_position_protected ::
  "string \<Rightarrow> execution_snapshot \<Rightarrow> string set \<Rightarrow> bool \<Rightarrow> exec_error + unit" where
  "assert_position_protected instrument_id es protected_ids trading_halted =
     (let position = get_default (es_positions es) instrument_id 0
      in if position = 0 then Inr ()
         else if instrument_id \<notin> protected_ids \<and> \<not> trading_halted
         then Inl (Unprotected_position instrument_id position) else Inr ())"

text \<open>Invariant 7. The current status is a parameter the code does not read.\<close>

definition assert_only_broker_mutates_order_state ::
  "order_status \<Rightarrow> order_status \<Rightarrow> string \<Rightarrow> exec_error + unit" where
  "assert_only_broker_mutates_order_state current_status proposed_status mutation_source =
     (if proposed_status \<in>
           {Order_ACCEPTED, Order_PARTIAL, Order_FILLED, Order_CANCELLED, Order_REPLACED,
            Order_BROKER_REJECTED, Order_EXPIRED, Order_UNKNOWN}
         \<and> mutation_source \<noteq> ''broker_callback''
      then Inl (Not_broker_callback proposed_status mutation_source) else Inr ())"

text \<open>Invariant 8.\<close>

definition assert_price_from_backend :: "string \<Rightarrow> exec_error + unit" where
  "assert_price_from_backend price_source =
     (if price_source = ''client_quote'' then Inl Client_price_source else Inr ())"

text \<open>
  \<open>(a - b).total_seconds() * 1000\<close> under \<open>int()\<close>: the division by a million and the
  multiplication are float operations.
\<close>

definition elapsed_ms :: "timestamp \<Rightarrow> timestamp \<Rightarrow> int" where
  "elapsed_ms later earlier = int_trunc (fl (fl (of_int (later - earlier) / 10 ^ 6) * 1000))"

definition check_client_quote_drift ::
  "trade_intent \<Rightarrow> market_context \<Rightarrow> dec \<Rightarrow> int \<Rightarrow> message list" where
  "check_client_quote_drift intent server max_drift_ticks max_age_ms =
     (case ti_client_quote intent of
        None \<Rightarrow> []
      | Some quote \<Rightarrow>
          (let age_ms = elapsed_ms (mc_as_of server) (qs_timestamp quote);
               drift = \<bar>qs_bid quote - mc_bid server\<bar>
           in (if age_ms > max_age_ms then [Quote_age age_ms max_age_ms] else []) @
              (if drift > max_drift_ticks
               then [Quote_drift (qs_bid quote) (mc_bid server) drift max_drift_ticks] else [])))"

text \<open>Invariant 9. An identifier is missing when it is the empty string.\<close>

definition assert_plan_has_snapshot_ids :: "intent_trade_plan \<Rightarrow> exec_error + unit" where
  "assert_plan_has_snapshot_ids p =
     (if tp_market_context_snapshot_id p = [] then Inl (Plan_missing ''market_context_snapshot_id'')
      else if tp_account_snapshot_id p = [] then Inl (Plan_missing ''account_snapshot_id'')
      else if tp_risk_policy_version p = [] then Inl (Plan_missing ''risk_policy_version'')
      else Inr ())"

text \<open>Invariant 10.\<close>

definition HARD_RISK_REASONS :: "string set" where
  "HARD_RISK_REASONS =
     {''daily_loss_limit_breached'', ''kill_switch_active'', ''broker_not_connected'',
      ''positions_not_reconciled'', ''orders_not_reconciled'', ''market_data_stale'',
      ''market_halted'', ''max_contracts_exceeded'', ''unmanaged_position'',
      ''duplicate_intent'', ''unknown_broker_order''}"

definition assert_no_hard_risk_override :: "string list \<Rightarrow> bool \<Rightarrow> exec_error + unit" where
  "assert_no_hard_risk_override risk_flags override_requested =
     (if \<not> override_requested then Inr ()
      else let hard_flags = set risk_flags \<inter> HARD_RISK_REASONS
           in if hard_flags \<noteq> {} then Inl (Hard_risk_override hard_flags) else Inr ())"

lemmas exec_guard_defs [guard_defs] =
  assert_runtime_ready_def assert_unique_runtime_order_id_def assert_not_duplicate_intent_def
  assert_no_blind_retry_on_unknown_def assert_exposure_within_limit_def
  assert_position_protected_def assert_only_broker_mutates_order_state_def
  assert_price_from_backend_def assert_plan_has_snapshot_ids_def assert_no_hard_risk_override_def

section \<open>Consequences of the guards\<close>

lemma elapsed_ms_nonneg: "earlier \<le> later \<Longrightarrow> 0 \<le> elapsed_ms later earlier"
  unfolding elapsed_ms_def by (intro int_trunc_nonneg fl_nonneg mult_nonneg_nonneg) simp_all

lemma local_order_moves:
  "s \<in> {Order_PENDING, Order_SUBMITTED, Order_REJECTED} \<Longrightarrow> t \<in> order_transitions s \<Longrightarrow>
   src \<noteq> ''broker_callback'' \<Longrightarrow> returns (assert_only_broker_mutates_order_state s t src) \<Longrightarrow>
   t \<in> {Order_SUBMITTED, Order_REJECTED}"
  by (auto simp: assert_only_broker_mutates_order_state_def split: if_splits)

text \<open>
  A sequence of mutations, each a target status and the name of its source, passes when every
  move is in the order table and the broker-only guard returns.
\<close>

fun mutations_pass :: "order_status \<Rightarrow> (order_status \<times> string) list \<Rightarrow> bool" where
  "mutations_pass s [] \<longleftrightarrow> True"
| "mutations_pass s ((t, src) # ms) \<longleftrightarrow>
     returns (assert_valid_order_transition s t) \<and>
     returns (assert_only_broker_mutates_order_state s t src) \<and> mutations_pass t ms"

lemma mutations_pass_local:
  "s \<in> {Order_PENDING, Order_SUBMITTED, Order_REJECTED} \<Longrightarrow> mutations_pass s ms \<Longrightarrow>
   ''broker_callback'' \<notin> snd ` set ms \<Longrightarrow> fst ` set ms \<subseteq> {Order_SUBMITTED, Order_REJECTED}"
proof (induction s ms rule: mutations_pass.induct)
  case (2 s t src ms)
  then have "t \<in> {Order_SUBMITTED, Order_REJECTED}"
    by (intro local_order_moves [of s t src]) (auto simp: order_sm.guard_returns)
  with 2 show ?case by auto
qed simp

text \<open>
  A new order that only local code touches never gets past \<open>SUBMITTED\<close> or a local
  \<open>REJECTED\<close>: acceptance, fills, cancellations and even \<open>UNKNOWN\<close> need a broker callback
  (Invariant 7 combined with the transition table).
\<close>

theorem local_code_cannot_acknowledge_orders:
  assumes "mutations_pass Order_PENDING ms"
    and "''broker_callback'' \<notin> snd ` set ms"
  shows "fst ` set ms \<subseteq> {Order_SUBMITTED, Order_REJECTED} \<and> length ms \<le> 1"
proof (intro conjI)
  show "fst ` set ms \<subseteq> {Order_SUBMITTED, Order_REJECTED}"
    using assms by (intro mutations_pass_local [of Order_PENDING]) auto
  then have "\<And>t src ms'. ms = (t, src) # ms' \<Longrightarrow> t \<in> {Order_SUBMITTED, Order_REJECTED}" by auto
  with assms show "length ms \<le> 1"
    by (cases ms rule: remdups_adj.cases)
       (auto simp: order_sm.guard_returns assert_only_broker_mutates_order_state_def
         split: if_splits)
qed

theorem local_code_cannot_acknowledge_orders_witness:
  "fst ` set [(Order_SUBMITTED, ''router'')] \<subseteq> {Order_SUBMITTED, Order_REJECTED}"
  using local_code_cannot_acknowledge_orders [of "[(Order_SUBMITTED, ''router'')]"]
  by (simp add: guard_defs order_machine_defs)

text \<open>
  The exposure guard lets a proposal through exactly when filled plus pending quantity plus
  the proposal stays within the limit on both sides, and the pending part counts every working
  entry order of the instrument with its sign (Invariant 5).
\<close>

theorem exposure_guard_exact:
  "returns (assert_exposure_within_limit i q es limit) \<longleftrightarrow>
     - limit \<le> get_default (es_positions es) i 0 +
        sum_list (map wo_signed_quantity
          [w \<leftarrow> es_working_orders es. wo_instrument_id w = i \<and> wo_role w = Role_ENTRY]) + q \<and>
     get_default (es_positions es) i 0 +
        sum_list (map wo_signed_quantity
          [w \<leftarrow> es_working_orders es. wo_instrument_id w = i \<and> wo_role w = Role_ENTRY]) + q
       \<le> limit"
  unfolding assert_exposure_within_limit_def effective_exposure_def es_effective_exposure_def
    Let_def returns_if returns_simps abs_le_iff not_less [symmetric] by auto

lemma hard_override_raises_iff:
  "raises (assert_no_hard_risk_override flags override) \<longleftrightarrow>
   override \<and> (\<exists>f \<in> set flags. f \<in> HARD_RISK_REASONS)"
  by (auto simp: assert_no_hard_risk_override_def Let_def)

section \<open>The idempotency store\<close>

type_synonym idempotency_map = "string \<rightharpoonup> string"

definition check_and_register ::
  "idempotency_map \<Rightarrow> string \<Rightarrow> string \<Rightarrow> bool \<times> idempotency_map" where
  "check_and_register st key intent_id =
     (if key \<in> dom st then (False, st) else (True, st(key \<mapsto> intent_id)))"

definition get_intent_id :: "idempotency_map \<Rightarrow> string \<Rightarrow> string option" where
  "get_intent_id st key = st key"

text \<open>A sequence of commands, each a key and an intent: the results, and the final store.\<close>

fun register_all ::
  "('s \<Rightarrow> 'k \<Rightarrow> 'i \<Rightarrow> bool \<times> 's) \<Rightarrow> 's \<Rightarrow> ('k \<times> 'i) list \<Rightarrow> bool list \<times> 's" where
  "register_all reg st [] = ([], st)"
| "register_all reg st ((k, i) # cs) =
     (case reg st k i of (b, st') \<Rightarrow>
       (case register_all reg st' cs of (bs, st'') \<Rightarrow> (b # bs, st'')))"

locale idempotency_store =
  fixes register :: "'s \<Rightarrow> 'k \<Rightarrow> 'i \<Rightarrow> bool \<times> 's"
    and lookup :: "'s \<Rightarrow> 'k \<Rightarrow> 'i option"
  assumes register_new: "lookup st k = None \<Longrightarrow>
      fst (register st k i) \<and> lookup (snd (register st k i)) = (lookup st)(k \<mapsto> i)"
    and register_known: "lookup st k = Some j \<Longrightarrow> register st k i = (False, st)"
begin

lemma register_keeps: "lookup st k = Some j \<Longrightarrow> lookup (snd (register st k' i)) k = Some j"
  by (cases "lookup st k'") (auto simp: register_new register_known)

lemma register_all_keeps:
  "lookup st k = Some j \<Longrightarrow> lookup (snd (register_all register st cs)) k = Some j"
proof (induction cs arbitrary: st)
  case (Cons c cs)
  obtain k' i where c: "c = (k', i)" by (cases c)
  have "lookup (snd (register st k' i)) k = Some j" using Cons.prems by (rule register_keeps)
  from Cons.IH [OF this] show ?case by (auto simp: c split: prod.splits)
qed simp

text \<open>Of the commands that carry a key, exactly the first one is accepted.\<close>

lemma accepted_once:
  "length (filter (\<lambda>p. fst p \<and> fst (snd p) = k) (zip (fst (register_all register st cs)) cs)) =
   (if lookup st k = None \<and> k \<in> fst ` set cs then 1 else 0)"
proof (induction cs arbitrary: st)
  case (Cons c cs)
  obtain k' i where c: "c = (k', i)" by (cases c)
  obtain b st' where r: "register st k' i = (b, st')" by (cases "register st k' i")
  show ?case
  proof (cases "lookup st k'")
    case None
    with r register_new [of st k' i] have "b" "lookup st' = (lookup st)(k' \<mapsto> i)" by auto
    then show ?thesis using Cons.IH [of st'] None
      by (auto simp: c r image_iff Bex_def split: prod.splits)
  next
    case (Some j)
    with r register_known [of st k' j i] have "\<not> b" "st' = st" by auto
    then show ?thesis using Cons.IH [of st] Some
      by (auto simp: c r image_iff Bex_def split: prod.splits)
  qed
qed simp

lemma first_registration_wins:
  "lookup st k = None \<Longrightarrow>
   lookup (snd (register_all register st ((k, i) # cs))) k = Some i"
  using register_new [of st k i] register_all_keeps [of "snd (register st k i)" k i cs]
  by (auto split: prod.splits)

end

interpretation mem_store: idempotency_store check_and_register get_intent_id
  by unfold_locales (auto simp: check_and_register_def get_intent_id_def)

text \<open>
  However often a command is retried, the store accepts its idempotency key exactly once (when
  the key is new) and from then on always answers with the intent of that first command.
\<close>

theorem idempotency_key_accepted_exactly_once:
  assumes "get_intent_id st key = None"
  shows "length (filter (\<lambda>p. fst p \<and> fst (snd p) = key)
           (zip (fst (register_all check_and_register st ((key, intent) # cs))) ((key, intent) # cs)))
         = 1 \<and>
         get_intent_id (snd (register_all check_and_register st ((key, intent) # cs))) key
         = Some intent"
  using assms mem_store.accepted_once [of key st "(key, intent) # cs"]
    mem_store.first_registration_wins [OF assms] by simp

theorem idempotency_key_accepted_exactly_once_witness:
  "get_intent_id (snd (register_all check_and_register Map.empty
     [(''k1'', ''i1''), (''k1'', ''i2'')])) ''k1'' = Some ''i1''"
  using idempotency_key_accepted_exactly_once [of Map.empty "''k1''" "''i1''" "[(''k1'', ''i2'')]"]
  by (simp add: get_intent_id_def)

section \<open>The journal\<close>

type_synonym journal = "string \<rightharpoonup> intent_audit_record list"

definition journal_record :: "journal \<Rightarrow> intent_audit_record \<Rightarrow> journal" where
  "journal_record j e =
     j(ar_intent_id e \<mapsto> get_default j (ar_intent_id e) [] @ [e])"

definition get_intent_history :: "journal \<Rightarrow> string \<Rightarrow> intent_audit_record list" where
  "get_intent_history j intent_id = get_default j intent_id []"

locale intent_journal =
  fixes append_entry :: "'j \<Rightarrow> 'e \<Rightarrow> 'j"
    and history :: "'j \<Rightarrow> 'k \<Rightarrow> 'e list"
    and key_of :: "'e \<Rightarrow> 'k"
  assumes history_append:
    "history (append_entry j e) k = (if key_of e = k then history j k @ [e] else history j k)"
begin

lemma history_foldl:
  "history (foldl append_entry j es) k = history j k @ filter (\<lambda>e. key_of e = k) es"
  by (induction es arbitrary: j) (simp_all add: history_append)

lemma append_only: "prefix (history j k) (history (foldl append_entry j es) k)"
  by (simp add: history_foldl)

end

interpretation mem_journal: intent_journal journal_record get_intent_history ar_intent_id
  by unfold_locales (simp add: journal_record_def get_intent_history_def)

end
