(* ===== verification/Registry.thy ===== *)
theory Registry
  imports Enums Prelude "HOL-Library.AList"
begin

text \<open>
  The symbol registry, \<^verbatim>\<open>src/alpha/core/registry.py\<close>, and the symbols it keeps,
  \<^verbatim>\<open>src/alpha/models/symbol.py\<close>. The two dictionaries are association lists: an update of a
  known key keeps its place and a new key goes to the end, as in a Python dictionary, so that the
  order of \<open>all\<close> and \<open>tickers\<close> is the order of registration. Tickers are ASCII.
\<close>

section \<open>Symbols\<close>

definition upper_char :: "char \<Rightarrow> char" where
  "upper_char c =
     (let n = (of_char c :: nat) in if 97 \<le> n \<and> n \<le> 122 then char_of (n - 32) else c)"

definition upper :: "string \<Rightarrow> string" where
  "upper = map upper_char"

definition is_space :: "char \<Rightarrow> bool" where
  "is_space c \<longleftrightarrow> (of_char c :: nat) \<in> {9, 10, 11, 12, 13, 28, 29, 30, 31, 32}"

definition strip :: "string \<Rightarrow> string" where
  "strip s = rev (dropWhile is_space (rev (dropWhile is_space s)))"

record symbol =
  sy_ticker :: string
  sy_exchange :: string
  sy_asset_class :: asset_class
  sy_root_symbol :: "string option"
  sy_lot_size :: int
  sy_tick_size :: dec
  sy_point_value :: dec
  sy_is_active :: bool

text \<open>The two field validators run when a \<open>Symbol\<close> is built.\<close>

definition ticker_upper :: "string \<Rightarrow> string" where
  "ticker_upper v = strip (upper v)"

definition exchange_upper :: "string \<Rightarrow> string" where
  "exchange_upper v = strip (upper v)"

definition make_symbol :: "symbol \<Rightarrow> symbol" where
  "make_symbol s = s\<lparr>sy_ticker := ticker_upper (sy_ticker s), sy_exchange := exchange_upper (sy_exchange s)\<rparr>"

record symbol_config =
  sc_ticker :: string
  sc_enabled :: bool
  sc_timeframes :: "string list"
  sc_orb_minutes :: int
  sc_max_position_size :: "int option"

lemma upper_char_idem [simp]: "upper_char (upper_char c) = upper_char c"
proof -
  have "(of_char (upper_char c) :: nat) < 97 \<or> 122 < (of_char (upper_char c) :: nat)"
    by (auto simp: upper_char_def Let_def)
  then show ?thesis by (auto simp: upper_char_def [of "upper_char c"] Let_def)
qed

lemma upper_idem [simp]: "upper (upper s) = upper s"
  by (simp add: upper_def)

lemma upper_strip: "upper s = s \<Longrightarrow> upper (strip s) = strip s"
proof -
  assume "upper s = s"
  then have "\<forall>c \<in> set s. upper_char c = c" by (simp add: upper_def map_eq_conv [of _ _ id, simplified])
  moreover have "set (strip s) \<subseteq> set s"
    by (auto simp: strip_def dest!: set_dropWhileD)
  ultimately show ?thesis by (auto simp: upper_def intro: map_idI)
qed

lemma upper_ticker_upper [simp]: "upper (ticker_upper v) = ticker_upper v"
  by (simp add: ticker_upper_def upper_strip)

section \<open>The registry\<close>

record symbol_registry =
  sr_symbols :: "(string \<times> symbol) list"
  sr_configs :: "(string \<times> symbol_config) list"

definition empty_registry :: symbol_registry where
  "empty_registry = \<lparr>sr_symbols = [], sr_configs = []\<rparr>"

definition register :: "symbol_registry \<Rightarrow> symbol \<Rightarrow> symbol_config option \<Rightarrow> symbol_registry" where
  "register r s config =
     (let r1 = r\<lparr>sr_symbols := AList.update (sy_ticker s) s (sr_symbols r)\<rparr>
      in case config of
           None \<Rightarrow> r1
         | Some c \<Rightarrow> r1\<lparr>sr_configs := AList.update (sy_ticker s) c (sr_configs r1)\<rparr>)"

text \<open>The later of two configurations with one ticker wins in the dictionary comprehension.\<close>

definition register_many :: "symbol_registry \<Rightarrow> symbol list \<Rightarrow> symbol_config list \<Rightarrow> symbol_registry" where
  "register_many r symbols configs =
     (let cfg_map = foldl (\<lambda>m c. m(sc_ticker c \<mapsto> c)) Map.empty configs
      in foldl (\<lambda>r s. register r s (cfg_map (sy_ticker s))) r symbols)"

definition deregister :: "symbol_registry \<Rightarrow> string \<Rightarrow> symbol_registry" where
  "deregister r ticker =
     r\<lparr>sr_symbols := AList.delete ticker (sr_symbols r),
       sr_configs := AList.delete ticker (sr_configs r)\<rparr>"

definition registry_get :: "symbol_registry \<Rightarrow> string \<Rightarrow> string + symbol" where
  "registry_get r ticker =
     (case map_of (sr_symbols r) (upper ticker) of None \<Rightarrow> Inl ticker | Some s \<Rightarrow> Inr s)"

definition get_config :: "symbol_registry \<Rightarrow> string \<Rightarrow> symbol_config option" where
  "get_config r ticker = map_of (sr_configs r) (upper ticker)"

definition all_symbols :: "symbol_registry \<Rightarrow> symbol list" where
  "all_symbols r = map snd (sr_symbols r)"

definition active_symbols :: "symbol_registry \<Rightarrow> symbol list" where
  "active_symbols r = [s \<leftarrow> all_symbols r. sy_is_active s]"

definition tickers :: "symbol_registry \<Rightarrow> string list" where
  "tickers r = map fst (sr_symbols r)"

definition by_asset_class :: "symbol_registry \<Rightarrow> asset_class \<Rightarrow> symbol list" where
  "by_asset_class r a = [s \<leftarrow> all_symbols r. sy_asset_class s = a]"

definition by_exchange :: "symbol_registry \<Rightarrow> string \<Rightarrow> symbol list" where
  "by_exchange r e = [s \<leftarrow> all_symbols r. sy_exchange s = upper e]"

definition contains :: "symbol_registry \<Rightarrow> string \<Rightarrow> bool" where
  "contains r ticker \<longleftrightarrow> upper ticker \<in> set (tickers r)"

text \<open>Keys are the upper-case tickers of the symbols stored under them, without repetition.\<close>

definition registry_ok :: "symbol_registry \<Rightarrow> bool" where
  "registry_ok r \<longleftrightarrow> distinct (tickers r) \<and>
     (\<forall>(k, s) \<in> set (sr_symbols r). sy_ticker s = k \<and> upper k = k)"

lemma registry_ok_empty [simp]: "registry_ok empty_registry"
  by (simp add: registry_ok_def empty_registry_def tickers_def)

lemma registry_ok_register:
  assumes "registry_ok r" "upper (sy_ticker s) = sy_ticker s"
  shows "registry_ok (register r s config)"
proof -
  have sub: "set (AList.update k v al) \<subseteq> insert (k, v) (set al)" for k and v :: symbol and al
    by (induction al) auto
  show ?thesis
    using assms sub [of "sy_ticker s" s "sr_symbols r"]
    by (auto simp: registry_ok_def register_def tickers_def Let_def distinct_update
             split: option.splits)
qed

lemma registry_ok_deregister: "registry_ok r \<Longrightarrow> registry_ok (deregister r t)"
  by (auto simp: registry_ok_def deregister_def tickers_def AList.delete_eq
           intro: distinct_map_filter)

lemma get_register:
  "registry_get (register r s config) t =
   (if upper t = sy_ticker s then Inr s else registry_get r t)"
  by (auto simp: registry_get_def register_def Let_def update_conv' split: option.splits)

lemma get_deregister:
  "upper t = t \<Longrightarrow>
   registry_get (deregister r t) u = (if upper u = t then Inl u else registry_get r u)"
  by (auto simp: registry_get_def deregister_def delete_conv' split: option.splits)

lemma contains_iff_get: "contains r t \<longleftrightarrow> returns (registry_get r t)"
proof -
  have "upper t \<in> fst ` set (sr_symbols r) \<longleftrightarrow> map_of (sr_symbols r) (upper t) \<noteq> None"
    by (simp add: map_of_eq_None_iff)
  then show ?thesis
    by (auto simp: contains_def registry_get_def tickers_def split: option.split)
qed

section \<open>Registering several symbols\<close>

lemma registry_ok_register_many:
  assumes "registry_ok r" "\<forall>s \<in> set ss. upper (sy_ticker s) = sy_ticker s"
  shows "registry_ok (register_many r ss cs)"
  unfolding register_many_def Let_def
  by (rule foldl_invariant [where I = registry_ok]) (use assms in \<open>auto intro: registry_ok_register\<close>)

lemma get_register_fold:
  "registry_get (foldl (\<lambda>r s. register r s (f s)) r ss) t =
   (case find (\<lambda>s. sy_ticker s = upper t) (rev ss) of
      None \<Rightarrow> registry_get r t | Some s \<Rightarrow> Inr s)"
  by (induction ss rule: rev_induct) (auto simp: get_register)

text \<open>
  Every symbol built through the model's validators and registered can be looked up under any
  spelling of its ticker's letters, with the last registration of a ticker winning, and a registry
  filled from empty has one entry per ticker, stored under the symbol's own ticker.
\<close>

theorem registry_lookup_after_register:
  "registry_get (register_many r (map make_symbol ss @ [make_symbol s]) cs) t =
     (if upper t = ticker_upper (sy_ticker s) then Inr (make_symbol s)
      else registry_get (register_many r (map make_symbol ss) cs) t) \<and>
   registry_ok (register_many empty_registry (map make_symbol ss) cs)"
proof
  show "registry_ok (register_many empty_registry (map make_symbol ss) cs)"
    by (rule registry_ok_register_many) (auto simp: make_symbol_def)
qed (auto simp: register_many_def Let_def get_register make_symbol_def)

end
