(* ===== verification/V1_Risk.thy ===== *)
theory V1_Risk
  imports Exec_Guards Registry
begin

text \<open>
  The risk evaluator of the paper mode, \<^verbatim>\<open>src/alpha/engines/execution/v1_risk.py\<close>: hard checks,
  soft checks, price resolution, the bracket and its risk figures. The fresh identifiers, the
  clock and the symbol registry are parameters. The quotient of a price and the tick is taken
  exactly before it is rounded.
\<close>

section \<open>Parameters\<close>

record v1_config =
  vc_registry :: symbol_registry
  vc_max_contracts :: int
  vc_max_daily_loss_usd :: dec

text \<open>What the default factories of the models draw while a plan is built.\<close>

record fresh_ids =
  fi_plan_id :: uuid
  fi_entry_id :: string
  fi_stop_id :: string
  fi_target_id :: string

definition SUPPORTED_ACTIONS_V1 :: "trade_action set" where
  "SUPPORTED_ACTIONS_V1 = {Action_OPEN_LONG, Action_OPEN_SHORT, Action_FLATTEN}"

definition RISK_POLICY_VERSION :: string where
  "RISK_POLICY_VERSION = ''v1.0.0''"

definition v1_max_contracts :: "v1_config \<Rightarrow> dec" where
  "v1_max_contracts c = of_int (vc_max_contracts c)"

definition v1_tick_size :: "v1_config \<Rightarrow> string \<Rightarrow> dec" where
  "v1_tick_size c i = (case registry_get (vc_registry c) i of Inr s \<Rightarrow> sy_tick_size s | Inl _ \<Rightarrow> 1 / 4)"

definition v1_point_value :: "v1_config \<Rightarrow> string \<Rightarrow> dec" where
  "v1_point_value c i = (case registry_get (vc_registry c) i of Inr s \<Rightarrow> sy_point_value s | Inl _ \<Rightarrow> 2)"

section \<open>Hard and soft checks\<close>

text \<open>Each check contributes a flag and its explanation; the code appends both in this order.\<close>

definition v1_hard_checks ::
  "v1_config \<Rightarrow> trade_intent \<Rightarrow> market_context \<Rightarrow> account_snapshot \<Rightarrow> execution_snapshot
   \<Rightarrow> (string \<times> message) list" where
  "v1_hard_checks c intent market account es =
     (let instrument = ti_instrument_id intent;
          current = effective_exposure instrument es;
          projected = \<bar>current\<bar> + ti_quantity intent
      in (if ac_is_halted account
          then [(''kill_switch_active'', Kill_switch_active (ac_halt_reason account))] else []) @
         (if ac_realized_pnl account < - vc_max_daily_loss_usd c
          then [(''daily_loss_limit_breached'',
                 Daily_loss_exceeds \<bar>ac_realized_pnl account\<bar> (vc_max_daily_loss_usd c))] else []) @
         (if ti_action intent \<notin> SUPPORTED_ACTIONS_V1
          then [(''unsupported_action_v1'', Action_not_supported (ti_action intent))] else []) @
         (if \<not> pp_use_broker_bracket (ti_protection_policy intent)
          then [(''broker_bracket_required'', Text ''use_broker_bracket must be True in V1'')]
          else []) @
         (if mc_data_quality market = Quality_FAILED
          then [(''market_data_stale'', Quality_failed instrument)] else []) @
         (if ti_action intent \<in> {Action_OPEN_LONG, Action_OPEN_SHORT}
          then (if projected > v1_max_contracts c
                then [(''max_contracts_exceeded'',
                       Exposure_exceeds current (ti_quantity intent) projected (v1_max_contracts c))]
                else [])
          else if ti_action intent = Action_FLATTEN \<and> current = 0
          then [(''no_position_to_flatten'', Text ''No position to flatten'')] else []))"

definition v1_soft_checks :: "trade_intent \<Rightarrow> market_context \<Rightarrow> (string \<times> message) list" where
  "v1_soft_checks intent market =
     (if mc_data_quality market = Quality_DEGRADED
      then [(''market_data_degraded'', Text ''Market data is DEGRADED - feed may be delayed'')]
      else []) @
     (if ti_action intent = Action_OPEN_LONG
      then (if \<not> mc_above_vwap market
            then [(''long_below_vwap'', Text ''Long entry below VWAP - counter-trend risk'')] else []) @
           (if mc_regime market = Trend_TRENDING_DOWN
            then [(''long_in_downtrend'', Text ''Long entry in TRENDING_DOWN regime'')] else [])
      else if ti_action intent = Action_OPEN_SHORT
      then (if mc_above_vwap market
            then [(''short_above_vwap'', Text ''Short entry above VWAP - counter-trend risk'')] else []) @
           (if mc_regime market = Trend_TRENDING_UP
            then [(''short_in_uptrend'', Text ''Short entry in TRENDING_UP regime'')] else [])
      else [])"

section \<open>Prices\<close>

text \<open>\<open>quantize(Decimal("1"))\<close> rounds half to even; a division by a zero tick raises.\<close>

definition v1_round_to_tick :: "dec \<Rightarrow> dec \<Rightarrow> exec_error + dec" where
  "v1_round_to_tick price tick =
     (if tick = 0 then Inl Decimal_division_by_zero
      else Inr (of_int (round_half_even (price / tick)) * tick))"

definition v1_resolve_price ::
  "trade_intent \<Rightarrow> market_context \<Rightarrow> dec \<Rightarrow> exec_error + (order_side \<times> dec)" where
  "v1_resolve_price intent market tick =
     (let rounded = (\<lambda>side price.
            case v1_round_to_tick price tick of Inl e \<Rightarrow> Inl e | Inr p \<Rightarrow> Inr (side, p))
      in if ti_action intent = Action_OPEN_LONG then rounded Side_BUY (mc_ask market)
         else if ti_action intent = Action_OPEN_SHORT then rounded Side_SELL (mc_bid market)
         else if ti_action intent = Action_FLATTEN then rounded Side_SELL (mc_bid market)
         else Inl (Unsupported_action (ti_action intent)))"

section \<open>The plans\<close>

definition v1_rejected_plan ::
  "fresh_ids \<Rightarrow> timestamp \<Rightarrow> trade_intent \<Rightarrow> (string \<times> message) list \<Rightarrow> market_context \<Rightarrow>
   account_snapshot \<Rightarrow> intent_trade_plan" where
  "v1_rejected_plan ids now intent hard market account =
     \<lparr>tp_plan_id = fi_plan_id ids, tp_intent_id = ti_intent_id intent,
      tp_decision = Decision_REJECTED, tp_entry_order = None, tp_stop_order = None,
      tp_target_orders = [], tp_calculated_risk_usd = 0, tp_max_loss_usd = 0,
      tp_reward_risk_ratio = 0,
      tp_market_context_snapshot_id = mc_snapshot_id market,
      tp_account_snapshot_id = ac_snapshot_id account,
      tp_risk_policy_version = RISK_POLICY_VERSION, tp_evaluated_at = now,
      tp_risk_flags = map fst hard, tp_explanation = map snd hard\<rparr>"

definition v1_stop_price :: "order_side \<Rightarrow> dec \<Rightarrow> dec \<Rightarrow> dec" where
  "v1_stop_price side entry_price distance =
     (if side = Side_BUY then entry_price - distance else entry_price + distance)"

definition v1_target_price :: "order_side \<Rightarrow> dec \<Rightarrow> dec \<Rightarrow> dec" where
  "v1_target_price side entry_price distance =
     (if side = Side_BUY then entry_price + distance else entry_price - distance)"

definition v1_stop_order :: "fresh_ids \<Rightarrow> trade_intent \<Rightarrow> order_side \<Rightarrow> dec \<Rightarrow> dec \<Rightarrow> planned_order" where
  "v1_stop_order ids intent side entry_price tick =
     \<lparr>po_runtime_order_id = fi_stop_id ids, po_role = Role_STOP, po_side = opposite_side side,
      po_order_type = OType_STOP, po_quantity = ti_quantity intent, po_limit_price = None,
      po_stop_price = Some (v1_stop_price side entry_price
        (of_int (pp_stop_distance_ticks (ti_protection_policy intent)) * tick)),
      po_time_in_force = TIF_GTC\<rparr>"

definition v1_target_orders ::
  "fresh_ids \<Rightarrow> trade_intent \<Rightarrow> order_side \<Rightarrow> dec \<Rightarrow> dec \<Rightarrow> planned_order list" where
  "v1_target_orders ids intent side entry_price tick =
     (case pp_target_distance_ticks (ti_protection_policy intent) of
        None \<Rightarrow> []
      | Some ticks \<Rightarrow>
          [\<lparr>po_runtime_order_id = fi_target_id ids, po_role = Role_TARGET,
            po_side = opposite_side side, po_order_type = OType_LIMIT,
            po_quantity = ti_quantity intent,
            po_limit_price = Some (v1_target_price side entry_price (of_int ticks * tick)),
            po_stop_price = None, po_time_in_force = TIF_GTC\<rparr>])"

definition v1_entry_order :: "fresh_ids \<Rightarrow> trade_intent \<Rightarrow> order_side \<Rightarrow> dec \<Rightarrow> planned_order" where
  "v1_entry_order ids intent side entry_price =
     \<lparr>po_runtime_order_id = fi_entry_id ids, po_role = Role_ENTRY, po_side = side,
      po_order_type = OType_LIMIT, po_quantity = ti_quantity intent,
      po_limit_price = Some entry_price, po_stop_price = None, po_time_in_force = TIF_DAY\<rparr>"

definition v1_risk_usd :: "trade_intent \<Rightarrow> dec \<Rightarrow> dec \<Rightarrow> dec" where
  "v1_risk_usd intent tick point_value =
     of_int (pp_stop_distance_ticks (ti_protection_policy intent)) * tick * point_value
       * ti_quantity intent"

text \<open>A target distance of zero is falsy, as \<open>None\<close> is.\<close>

definition v1_reward_usd :: "trade_intent \<Rightarrow> dec \<Rightarrow> dec \<Rightarrow> dec" where
  "v1_reward_usd intent tick point_value =
     (case pp_target_distance_ticks (ti_protection_policy intent) of
        None \<Rightarrow> 0
      | Some ticks \<Rightarrow> if ticks = 0 then 0 else of_int ticks * tick * point_value * ti_quantity intent)"

definition v1_approved_plan ::
  "v1_config \<Rightarrow> fresh_ids \<Rightarrow> timestamp \<Rightarrow> trade_intent \<Rightarrow> (string \<times> message) list \<Rightarrow> market_context \<Rightarrow>
   account_snapshot \<Rightarrow> order_side \<Rightarrow> dec \<Rightarrow> dec \<Rightarrow> dec \<Rightarrow> intent_trade_plan" where
  "v1_approved_plan c ids now intent soft market account side entry_price tick point_value =
     (let risk_usd = v1_risk_usd intent tick point_value;
          reward_usd = v1_reward_usd intent tick point_value;
          decision = (if soft \<noteq> [] then Decision_APPROVED_WITH_MODIFICATIONS else Decision_APPROVED)
      in \<lparr>tp_plan_id = fi_plan_id ids, tp_intent_id = ti_intent_id intent,
          tp_decision = decision,
          tp_entry_order = Some (v1_entry_order ids intent side entry_price),
          tp_stop_order = Some (v1_stop_order ids intent side entry_price tick),
          tp_target_orders = v1_target_orders ids intent side entry_price tick,
          tp_calculated_risk_usd = risk_usd, tp_max_loss_usd = vc_max_daily_loss_usd c,
          tp_reward_risk_ratio = (if risk_usd > 0 then fl (reward_usd / risk_usd) else 0),
          tp_market_context_snapshot_id = mc_snapshot_id market,
          tp_account_snapshot_id = ac_snapshot_id account,
          tp_risk_policy_version = RISK_POLICY_VERSION, tp_evaluated_at = now,
          tp_risk_flags = map fst soft,
          tp_explanation = map snd soft @
            (if decision = Decision_APPROVED then [Text ''All risk checks passed''] else [])\<rparr>)"

definition v1_evaluate ::
  "v1_config \<Rightarrow> fresh_ids \<Rightarrow> timestamp \<Rightarrow> trade_intent \<Rightarrow> market_context \<Rightarrow> account_snapshot \<Rightarrow>
   execution_snapshot \<Rightarrow> exec_error + intent_trade_plan" where
  "v1_evaluate c ids now intent market account es =
     (let hard = v1_hard_checks c intent market account es
      in if hard \<noteq> [] then Inr (v1_rejected_plan ids now intent hard market account)
         else
           let soft = v1_soft_checks intent market;
               tick = v1_tick_size c (ti_instrument_id intent);
               point_value = v1_point_value c (ti_instrument_id intent)
           in case v1_resolve_price intent market tick of
                Inl e \<Rightarrow> Inl e
              | Inr (side, entry_price) \<Rightarrow>
                  (let p = v1_approved_plan c ids now intent soft market account side entry_price
                             tick point_value
                   in case assert_plan_has_snapshot_ids p of Inl e \<Rightarrow> Inl e | Inr _ \<Rightarrow> Inr p))"

lemmas v1_plan_defs = v1_approved_plan_def v1_rejected_plan_def v1_entry_order_def
  v1_stop_order_def v1_target_orders_def v1_risk_usd_def v1_reward_usd_def Let_def

section \<open>A sample evaluation\<close>

definition sample_config :: v1_config where
  "sample_config = \<lparr>vc_registry = empty_registry, vc_max_contracts = 1, vc_max_daily_loss_usd = 500\<rparr>"

definition sample_ids :: fresh_ids where
  "sample_ids = \<lparr>fi_plan_id = ''p1'', fi_entry_id = ''ro-1'', fi_stop_id = ''ro-2'',
     fi_target_id = ''ro-3''\<rparr>"

definition sample_intent :: "trade_action \<Rightarrow> trade_intent" where
  "sample_intent a =
     \<lparr>ti_intent_id = ''i1'', ti_idempotency_key = ''k1'', ti_created_at = 0,
      ti_instrument_id = ''MNQ'', ti_action = a, ti_quantity = 1,
      ti_execution_policy = \<lparr>ep_price_mode = Price_MARKETABLE_LIMIT, ep_max_slippage_ticks = 3,
        ep_time_in_force = TIF_DAY\<rparr>,
      ti_protection_policy = \<lparr>pp_stop_distance_ticks = 20, pp_target_distance_ticks = Some 40,
        pp_use_broker_bracket = True, pp_stop_retry_attempts = 1\<rparr>,
      ti_source = Source_HOTKEY, ti_client_quote = None, ti_status = Intent_RECEIVED\<rparr>"

definition sample_market :: market_context where
  "sample_market =
     \<lparr>mc_instrument_id = ''MNQ'', mc_snapshot_id = ''m1'', mc_as_of = 0, mc_bar_timestamp = 0,
      mc_regime = Trend_TRENDING_UP, mc_day_type = Day_UNKNOWN, mc_last_price = 20000,
      mc_bid = 20000, mc_ask = 20000 + 1/4, mc_vwap = 19990, mc_above_vwap = True,
      mc_bars_since_vwap_cross = 3, mc_ema9 = None, mc_ema21 = None,
      mc_opening_range_high = None, mc_opening_range_low = None, mc_rvol = None,
      mc_signal_freshness_ms = 0, mc_data_quality = Quality_CLEAN, mc_setup_scores = Map.empty\<rparr>"

definition sample_account :: account_snapshot where
  "sample_account =
     \<lparr>ac_snapshot_id = ''a1'', ac_as_of = 0, ac_account_id = ''paper'', ac_net_liquidation = 10000,
      ac_realized_pnl = 0, ac_unrealized_pnl = 0, ac_daily_loss_limit = 500,
      ac_session_high_pnl = 0, ac_is_halted = False, ac_halt_reason = None\<rparr>"

definition sample_execution :: "dec \<Rightarrow> execution_snapshot" where
  "sample_execution q =
     \<lparr>es_snapshot_id = ''e1'', es_as_of = 0, es_positions = [''MNQ'' \<mapsto> q], es_working_orders = [],
      es_submitting_intent_ids = [], es_session_trade_count = 0, es_consecutive_losses = 0\<rparr>"

lemmas sample_defs = sample_config_def sample_ids_def sample_intent_def sample_market_def
  sample_account_def sample_execution_def empty_registry_def

lemma sample_tick [simp]: "v1_tick_size sample_config i = 1/4"
  by (simp add: v1_tick_size_def sample_defs registry_get_def)

section \<open>What an evaluation returns\<close>

lemma v1_evaluateE:
  assumes "v1_evaluate c ids now intent market account es = Inr p"
  obtains (rejected) "v1_hard_checks c intent market account es \<noteq> []"
      "p = v1_rejected_plan ids now intent (v1_hard_checks c intent market account es) market account"
  | (approved) side e where "v1_hard_checks c intent market account es = []"
      "v1_resolve_price intent market (v1_tick_size c (ti_instrument_id intent)) = Inr (side, e)"
      "p = v1_approved_plan c ids now intent (v1_soft_checks intent market) market account side e
             (v1_tick_size c (ti_instrument_id intent)) (v1_point_value c (ti_instrument_id intent))"
  using assms by (auto simp: v1_evaluate_def Let_def split: if_splits sum.splits prod.splits)

lemma v1_rejected_fields [simp]:
  "tp_decision (v1_rejected_plan ids now intent hard market account) = Decision_REJECTED"
  "tp_all_orders (v1_rejected_plan ids now intent hard market account) = []"
  by (simp_all add: v1_rejected_plan_def tp_all_orders_def)

lemma v1_approved_fields [simp]:
  "tp_decision (v1_approved_plan c ids now intent soft market account side e tick pv)
     = (if soft = [] then Decision_APPROVED else Decision_APPROVED_WITH_MODIFICATIONS)"
  "tp_entry_order (v1_approved_plan c ids now intent soft market account side e tick pv)
     = Some (v1_entry_order ids intent side e)"
  "tp_stop_order (v1_approved_plan c ids now intent soft market account side e tick pv)
     = Some (v1_stop_order ids intent side e tick)"
  "tp_target_orders (v1_approved_plan c ids now intent soft market account side e tick pv)
     = v1_target_orders ids intent side e tick"
  "tp_calculated_risk_usd (v1_approved_plan c ids now intent soft market account side e tick pv)
     = v1_risk_usd intent tick pv"
  by (simp_all add: v1_approved_plan_def Let_def)

lemma v1_resolve_returns:
  "ti_action intent \<in> SUPPORTED_ACTIONS_V1 \<Longrightarrow> tick \<noteq> 0 \<Longrightarrow>
   \<exists>side e. v1_resolve_price intent market tick = Inr (side, e)"
  by (auto simp: v1_resolve_price_def v1_round_to_tick_def SUPPORTED_ACTIONS_V1_def Let_def)

lemma v1_hard_empty_supported:
  "v1_hard_checks c intent market account es = [] \<Longrightarrow> ti_action intent \<in> SUPPORTED_ACTIONS_V1"
  by (auto simp: v1_hard_checks_def Let_def split: if_splits)

lemma v1_evaluate_returns:
  assumes "v1_tick_size c (ti_instrument_id intent) \<noteq> 0"
    and "mc_snapshot_id market \<noteq> []" "ac_snapshot_id account \<noteq> []"
  shows "\<exists>p. v1_evaluate c ids now intent market account es = Inr p"
proof (cases "v1_hard_checks c intent market account es = []")
  case True
  then obtain side e where
    "v1_resolve_price intent market (v1_tick_size c (ti_instrument_id intent)) = Inr (side, e)"
    using v1_resolve_returns [OF v1_hard_empty_supported assms(1)] by blast
  moreover have "assert_plan_has_snapshot_ids
      (v1_approved_plan c ids now intent soft market account side e tick pv) = Inr ()" for soft tick pv
    using assms by (simp add: v1_approved_plan_def Let_def assert_plan_has_snapshot_ids_def
                              RISK_POLICY_VERSION_def)
  ultimately show ?thesis using True
    by (simp add: v1_evaluate_def Let_def)
qed (simp add: v1_evaluate_def Let_def)

definition v1_hard_condition ::
  "v1_config \<Rightarrow> trade_intent \<Rightarrow> market_context \<Rightarrow> account_snapshot \<Rightarrow> execution_snapshot \<Rightarrow> bool" where
  "v1_hard_condition c intent market account es \<longleftrightarrow>
     ac_is_halted account \<or>
     ac_realized_pnl account + vc_max_daily_loss_usd c < 0 \<or>
     ti_action intent \<notin> {Action_OPEN_LONG, Action_OPEN_SHORT, Action_FLATTEN} \<or>
     \<not> pp_use_broker_bracket (ti_protection_policy intent) \<or>
     mc_data_quality market = Quality_FAILED \<or>
     (ti_action intent \<noteq> Action_FLATTEN \<and>
        of_int (vc_max_contracts c)
          < \<bar>es_effective_exposure es (ti_instrument_id intent)\<bar> + ti_quantity intent) \<or>
     (ti_action intent = Action_FLATTEN \<and> es_effective_exposure es (ti_instrument_id intent) = 0)"

definition v1_soft_condition :: "trade_intent \<Rightarrow> market_context \<Rightarrow> bool" where
  "v1_soft_condition intent market \<longleftrightarrow>
     mc_data_quality market = Quality_DEGRADED \<or>
     (ti_action intent = Action_OPEN_LONG \<and>
        (\<not> mc_above_vwap market \<or> mc_regime market = Trend_TRENDING_DOWN)) \<or>
     (ti_action intent = Action_OPEN_SHORT \<and>
        (mc_above_vwap market \<or> mc_regime market = Trend_TRENDING_UP))"

lemma v1_hard_checks_iff:
  "v1_hard_checks c intent market account es \<noteq> [] \<longleftrightarrow> v1_hard_condition c intent market account es"
proof -
  have [simp]: "ac_realized_pnl account < - vc_max_daily_loss_usd c \<longleftrightarrow>
      ac_realized_pnl account + vc_max_daily_loss_usd c < 0" by linarith
  show ?thesis
    by (simp add: v1_hard_checks_def v1_hard_condition_def v1_max_contracts_def
        effective_exposure_def SUPPORTED_ACTIONS_V1_def Let_def)
qed

lemma v1_soft_checks_iff: "v1_soft_checks intent market \<noteq> [] \<longleftrightarrow> v1_soft_condition intent market"
  by (auto simp: v1_soft_checks_def v1_soft_condition_def)

text \<open>
  The verdict of the evaluator is exactly its policy: with a non-zero tick and snapshots that
  have identifiers an evaluation always returns a plan, the plan is rejected exactly when one of
  the seven hard conditions holds, approved exactly when no hard and no soft condition holds,
  needs a confirmation in the remaining case, and a rejected plan holds no order.
\<close>

theorem v1_verdict_exact:
  assumes "v1_tick_size c (ti_instrument_id intent) \<noteq> 0"
    and "mc_snapshot_id market \<noteq> []" "ac_snapshot_id account \<noteq> []"
  shows "\<exists>p. v1_evaluate c ids now intent market account es = Inr p \<and>
     (tp_decision p = Decision_REJECTED \<longleftrightarrow> v1_hard_condition c intent market account es) \<and>
     (tp_decision p = Decision_APPROVED \<longleftrightarrow>
        \<not> v1_hard_condition c intent market account es \<and> \<not> v1_soft_condition intent market) \<and>
     (tp_requires_confirmation p \<longleftrightarrow>
        \<not> v1_hard_condition c intent market account es \<and> v1_soft_condition intent market) \<and>
     (tp_decision p = Decision_REJECTED \<longrightarrow> tp_all_orders p = [])"
proof -
  obtain p where p: "v1_evaluate c ids now intent market account es = Inr p"
    using v1_evaluate_returns [OF assms] by blast
  note [simp] = v1_hard_checks_iff [symmetric] v1_soft_checks_iff [symmetric] tp_requires_confirmation_def
  from p show ?thesis by (cases rule: v1_evaluateE) (auto simp: p)
qed

theorem v1_verdict_exact_witness:
  "\<exists>p. v1_evaluate sample_config sample_ids 0 (sample_intent Action_OPEN_LONG) sample_market
       sample_account (sample_execution 0) = Inr p \<and> tp_decision p = Decision_APPROVED"
  using v1_verdict_exact [of sample_config "sample_intent Action_OPEN_LONG" sample_market
      sample_account sample_ids 0 "sample_execution 0"]
  by (auto simp: sample_market_def sample_account_def)
     (auto simp: sample_defs v1_hard_condition_def v1_soft_condition_def es_effective_exposure_def)

section \<open>The bracket\<close>

lemma v1_resolve_price_error:
  assumes "v1_resolve_price intent market tick = Inr (side, e)" "0 < tick"
  shows "side = (if ti_action intent = Action_OPEN_LONG then Side_BUY else Side_SELL)"
    and "\<bar>e - (if side = Side_BUY then mc_ask market else mc_bid market)\<bar> \<le> tick / 2"
    and "\<exists>n. e = of_int n * tick"
proof -
  have err: "\<bar>of_int (round_half_even (price / tick)) * tick - price\<bar> \<le> tick / 2" for price
  proof -
    have "of_int (round_half_even (price / tick)) * tick - price
        = (of_int (round_half_even (price / tick)) - price / tick) * tick"
      using assms(2) by (simp add: left_diff_distrib)
    then have "\<bar>of_int (round_half_even (price / tick)) * tick - price\<bar>
        = \<bar>of_int (round_half_even (price / tick)) - price / tick\<bar> * tick"
      using assms(2) by (simp only: abs_mult abs_of_pos)
    also have "\<dots> \<le> 1/2 * tick"
      by (intro mult_right_mono round_half_even_error less_imp_le [OF assms(2)])
    finally show ?thesis by simp
  qed
  from assms show "side = (if ti_action intent = Action_OPEN_LONG then Side_BUY else Side_SELL)"
    "\<bar>e - (if side = Side_BUY then mc_ask market else mc_bid market)\<bar> \<le> tick / 2"
    "\<exists>n. e = of_int n * tick"
    using err by (auto simp: v1_resolve_price_def v1_round_to_tick_def Let_def split: if_splits)
qed

text \<open>
  The bracket of a plan that is not rejected: with positive tick and distances, the entry sits on
  the tick grid within half a tick of the ask it buys at or the bid it sells at, the stop is on the
  losing side of the entry and every target on the winning side, both close the entry with its
  own quantity, and the risk of the plan is the distance between entry and stop times quantity
  and point value.
\<close>

theorem v1_bracket_geometry:
  assumes ev: "v1_evaluate c ids now intent market account es = Inr p"
    and ok: "tp_decision p \<noteq> Decision_REJECTED"
    and tick: "0 < v1_tick_size c (ti_instrument_id intent)"
    and stop: "0 < pp_stop_distance_ticks (ti_protection_policy intent)"
    and target: "\<forall>t. pp_target_distance_ticks (ti_protection_policy intent) = Some t \<longrightarrow> 0 < t"
  shows "\<exists>e s le ls. tp_entry_order p = Some e \<and> tp_stop_order p = Some s \<and>
     po_limit_price e = Some le \<and> po_stop_price s = Some ls \<and>
     (\<exists>n. le = of_int n * v1_tick_size c (ti_instrument_id intent)) \<and>
     \<bar>le - (if po_side e = Side_BUY then mc_ask market else mc_bid market)\<bar>
       \<le> v1_tick_size c (ti_instrument_id intent) / 2 \<and>
     (if po_side e = Side_BUY then ls < le else le < ls) \<and>
     (\<forall>t \<in> set (tp_target_orders p). po_side t = opposite_side (po_side e) \<and>
        po_quantity t = po_quantity e \<and>
        (\<exists>lt. po_limit_price t = Some lt \<and> (if po_side e = Side_BUY then le < lt else lt < le))) \<and>
     po_side s = opposite_side (po_side e) \<and> po_quantity s = po_quantity e \<and>
     tp_calculated_risk_usd p
       = \<bar>le - ls\<bar> * v1_point_value c (ti_instrument_id intent) * po_quantity e"
  using ev
proof (cases rule: v1_evaluateE)
  case (approved side e)
  let ?tick = "v1_tick_size c (ti_instrument_id intent)"
  let ?d = "of_int (pp_stop_distance_ticks (ti_protection_policy intent)) * ?tick"
  note r = v1_resolve_price_error [OF approved(2) tick]
  have d: "0 < ?d" using tick stop by simp
  have t: "0 < of_int t * ?tick"
    if "pp_target_distance_ticks (ti_protection_policy intent) = Some t" for t
    using that target tick by simp
  show ?thesis
    by (rule exI [of _ "v1_entry_order ids intent side e"],
        rule exI [of _ "v1_stop_order ids intent side e ?tick"],
        rule exI [of _ e], rule exI [of _ "v1_stop_price side e ?d"])
       (use d t r(2,3) in \<open>auto simp: approved v1_plan_defs v1_stop_price_def v1_target_price_def
          split: option.splits\<close>)
qed (use ok in simp)

definition sample_plan :: "trade_action \<Rightarrow> intent_trade_plan" where
  "sample_plan a = v1_approved_plan sample_config sample_ids 0 (sample_intent a)
     (v1_soft_checks (sample_intent a) sample_market) sample_market sample_account
     (if a = Action_OPEN_LONG then Side_BUY else Side_SELL)
     (if a = Action_OPEN_LONG then 20000 + 1/4 else 20000) (1/4) 2"

lemma sample_evaluate:
  "v1_evaluate sample_config sample_ids 0 (sample_intent Action_OPEN_LONG) sample_market
     sample_account (sample_execution 0) = Inr (sample_plan Action_OPEN_LONG)"
  "v1_evaluate sample_config sample_ids 0 (sample_intent Action_FLATTEN) sample_market
     sample_account (sample_execution (- 1)) = Inr (sample_plan Action_FLATTEN)"
  by code_simp+

lemma sample_plan_decision [simp]:
  "tp_decision (sample_plan Action_OPEN_LONG) = Decision_APPROVED"
  "tp_decision (sample_plan Action_FLATTEN) = Decision_APPROVED"
  by (simp_all add: sample_plan_def v1_soft_checks_def sample_defs)

theorem v1_bracket_geometry_witness:
  "\<exists>e. tp_entry_order (sample_plan Action_OPEN_LONG) = Some e \<and> po_side e = Side_BUY \<and>
     po_limit_price e = Some (20000 + 1/4)"
  using v1_bracket_geometry [OF sample_evaluate(1)]
  by (auto simp: sample_intent_def) (auto simp: sample_plan_def v1_entry_order_def)

section \<open>Exposure\<close>

definition entry_as_working :: "string \<Rightarrow> planned_order \<Rightarrow> working_order" where
  "entry_as_working i e = \<lparr>wo_runtime_order_id = po_runtime_order_id e, wo_instrument_id = i,
     wo_side = po_side e, wo_quantity = po_quantity e, wo_role = po_role e\<rparr>"

lemma entry_exposure:
  "es_effective_exposure
     (es\<lparr>es_working_orders := es_working_orders es @ [entry_as_working i (v1_entry_order ids intent side e)]\<rparr>) i
   = es_effective_exposure es i + (if side = Side_BUY then ti_quantity intent else - ti_quantity intent)"
  by (simp add: es_effective_exposure_append entry_as_working_def v1_entry_order_def wo_signed_quantity_def)

text \<open>
  An opening plan that is not rejected, for a non-negative quantity, keeps the effective exposure of
  its instrument within the configured maximum once its entry order works at the broker,
  whatever side the position was on before.
\<close>

theorem v1_open_keeps_exposure_bound:
  assumes ev: "v1_evaluate c ids now intent market account es = Inr p"
    and ok: "tp_decision p \<noteq> Decision_REJECTED"
    and opens: "ti_action intent \<noteq> Action_FLATTEN"
    and qty: "0 \<le> ti_quantity intent"
  shows "\<exists>e. tp_entry_order p = Some e \<and>
     \<bar>es_effective_exposure
        (es\<lparr>es_working_orders := es_working_orders es @ [entry_as_working (ti_instrument_id intent) e]\<rparr>)
        (ti_instrument_id intent)\<bar> \<le> of_int (vc_max_contracts c)"
  using ev
proof (cases rule: v1_evaluateE)
  case (approved side e)
  then have "\<not> v1_hard_condition c intent market account es" by (simp flip: v1_hard_checks_iff)
  then have "\<bar>es_effective_exposure es (ti_instrument_id intent)\<bar> + ti_quantity intent
      \<le> of_int (vc_max_contracts c)"
    using opens by (auto simp: v1_hard_condition_def)
  then show ?thesis using qty by (auto simp: approved entry_exposure)
qed (use ok in simp)

theorem v1_open_keeps_exposure_bound_witness:
  "\<exists>e. tp_entry_order (sample_plan Action_OPEN_LONG) = Some e \<and>
     \<bar>es_effective_exposure ((sample_execution 0)\<lparr>es_working_orders :=
        [entry_as_working ''MNQ'' e]\<rparr>) ''MNQ''\<bar> \<le> 1"
  using v1_open_keeps_exposure_bound [OF sample_evaluate(1)] by (simp add: sample_defs)

text \<open>
  A \<open>FLATTEN\<close> that is not rejected always sells its quantity, also when the exposure is short: the
  entry then moves the exposure further away from zero by exactly the quantity, instead of
  closing it.
\<close>

theorem v1_flatten_of_short_grows_position:
  assumes ev: "v1_evaluate c ids now intent market account es = Inr p"
    and ok: "tp_decision p \<noteq> Decision_REJECTED"
    and fl: "ti_action intent = Action_FLATTEN"
    and short: "es_effective_exposure es (ti_instrument_id intent) < 0"
    and qty: "0 < ti_quantity intent"
  shows "\<exists>e. tp_entry_order p = Some e \<and> po_side e = Side_SELL \<and>
     \<bar>es_effective_exposure
        (es\<lparr>es_working_orders := es_working_orders es @ [entry_as_working (ti_instrument_id intent) e]\<rparr>)
        (ti_instrument_id intent)\<bar>
       = \<bar>es_effective_exposure es (ti_instrument_id intent)\<bar> + ti_quantity intent"
  using ev
proof (cases rule: v1_evaluateE)
  case (approved side e)
  then have "side = Side_SELL"
    using fl by (auto simp: v1_resolve_price_def Let_def split: sum.splits)
  then show ?thesis using short qty
    by (auto simp: approved entry_exposure) (simp add: v1_entry_order_def)
qed (use ok in simp)

theorem v1_flatten_of_short_grows_position_witness:
  "\<exists>e. tp_entry_order (sample_plan Action_FLATTEN) = Some e \<and> po_side e = Side_SELL \<and>
     \<bar>es_effective_exposure ((sample_execution (- 1))\<lparr>es_working_orders :=
        [entry_as_working ''MNQ'' e]\<rparr>) ''MNQ''\<bar> = 2"
  using v1_flatten_of_short_grows_position [OF sample_evaluate(2)]
  by (simp add: sample_defs es_effective_exposure_def)

end
