(* ===== verification/Paper_Router.thy ===== *)
theory Paper_Router
  imports Exec_Guards "HOL-Library.AList" "HOL-Library.Multiset"
begin

text \<open>
  The simulated broker, \<^verbatim>\<open>src/alpha/engines/execution/paper_router.py\<close>. A coroutine that sleeps
  is a task in the router's state: one constructor per point at which it can be suspended. A
  command resumes one task; the order of commands is arbitrary, so every interleaving the event
  loop and the sleep times allow is a list of commands. The callbacks of the coordinator are the
  notifications a step emits, in the order of the calls; they do not touch the router.
\<close>

section \<open>State\<close>

datatype paper_task =
  Entry_created intent_trade_plan
| Entry_sleeping intent_trade_plan planned_order dec
| Entry_accepted intent_trade_plan planned_order dec broker_order
| Child_created planned_order
| Child_sleeping planned_order

datatype notification = Order_update broker_order | Fill_event fill_execution

record paper_router =
  pr_fill_delay :: rat
  pr_submitted :: "(string \<times> broker_order_identity) list"
  pr_orders :: "(string \<times> broker_order) list"
  pr_cancelled :: "string set"
  pr_tasks :: "paper_task list"

definition paper_init :: "int \<Rightarrow> paper_router" where
  "paper_init fill_delay_ms =
     \<lparr>pr_fill_delay = fl (of_int fill_delay_ms / 1000), pr_submitted = [], pr_orders = [],
      pr_cancelled = {}, pr_tasks = []\<rparr>"

text \<open>What a resumed task draws: the identifiers it makes and the clock.\<close>

record task_env =
  te_order_id :: uuid
  te_intent_id :: uuid
  te_execution_id :: uuid
  te_broker_execution_id :: string
  te_now :: timestamp

section \<open>Helpers\<close>

definition make_identity :: "string \<Rightarrow> broker_order_identity" where
  "make_identity roid =
     \<lparr>bi_runtime_order_id = roid, bi_broker = ''paper'', bi_broker_order_ref = roid,
      bi_broker_client_id = None, bi_broker_order_id = None, bi_broker_perm_id = None\<rparr>"

definition make_order :: "task_env \<Rightarrow> planned_order \<Rightarrow> broker_order" where
  "make_order env planned =
     \<lparr>or_order_id = te_order_id env, or_broker_order_id = None, or_intent_id = te_intent_id env,
      or_symbol = ''PAPER'', or_side = po_side planned, or_order_type = po_order_type planned,
      or_quantity = int_trunc (po_quantity planned), or_account_id = ''default'',
      or_filled_quantity = 0, or_avg_fill_price = None, or_limit_price = po_limit_price planned,
      or_stop_price = po_stop_price planned, or_time_in_force = po_time_in_force planned,
      or_status = Order_PENDING, or_submitted_at = None, or_accepted_at = None,
      or_filled_at = None, or_cancelled_at = None, or_rejected_at = None,
      or_reject_reason = None, or_commission = 0\<rparr>"

definition fill_symbol :: "string \<Rightarrow> string" where
  "fill_symbol roid = (if CHR ''-'' \<in> set roid then takeWhile (\<lambda>c. c \<noteq> CHR ''-'') roid else ''PAPER'')"

section \<open>The protocol operations\<close>

definition paper_children :: "intent_trade_plan \<Rightarrow> planned_order list" where
  "paper_children p =
     (case tp_stop_order p of None \<Rightarrow> [] | Some s \<Rightarrow> [s]) @ tp_target_orders p"

definition submit_bracket ::
  "paper_router \<Rightarrow> intent_trade_plan \<Rightarrow> (exec_error + broker_order_identity list) \<times> paper_router" where
  "submit_bracket r p =
     (case tp_entry_order p of
        None \<Rightarrow> (Inr [], r)
      | Some entry \<Rightarrow>
          (let roids = po_runtime_order_id entry # map po_runtime_order_id (paper_children p)
           in (Inr (map make_identity roids),
               r\<lparr>pr_submitted :=
                   foldl (\<lambda>m roid. AList.update roid (make_identity roid) m) (pr_submitted r) roids,
                 pr_tasks := pr_tasks r @ [Entry_created p]\<rparr>)))"

definition paper_cancel :: "timestamp \<Rightarrow> paper_router \<Rightarrow> string \<Rightarrow> paper_router \<times> notification list" where
  "paper_cancel now r roid =
     (let r1 = r\<lparr>pr_cancelled := insert roid (pr_cancelled r)\<rparr>
      in case map_of (pr_orders r) roid of
           None \<Rightarrow> (r1, [])
         | Some order \<Rightarrow>
             if or_status order \<in> {Order_ACCEPTED, Order_PARTIAL} then
               (let cancelled = order\<lparr>or_status := Order_CANCELLED, or_cancelled_at := Some now\<rparr>
                in (r1\<lparr>pr_orders := AList.update roid cancelled (pr_orders r)\<rparr>,
                    [Order_update cancelled]))
             else (r1, []))"

text \<open>The loop of \<open>flatten\<close> runs over a copy of the order dictionary.\<close>

fun paper_flatten_loop ::
  "timestamp \<Rightarrow> string \<Rightarrow> (string \<times> broker_order) list \<Rightarrow> paper_router \<Rightarrow>
   paper_router \<times> notification list" where
  "paper_flatten_loop now instrument [] r = (r, [])"
| "paper_flatten_loop now instrument ((roid, order) # items) r =
     (if or_symbol order = instrument \<and> \<not> or_is_terminal order
      then (let (r1, n1) = paper_cancel now r roid;
                (r2, n2) = paper_flatten_loop now instrument items r1
            in (r2, n1 @ n2))
      else paper_flatten_loop now instrument items r)"

definition paper_flatten ::
  "timestamp \<Rightarrow> paper_router \<Rightarrow> string \<Rightarrow> paper_router \<times> notification list" where
  "paper_flatten now r instrument = paper_flatten_loop now instrument (pr_orders r) r"

record reconciliation_result =
  rr_unmanaged_orders :: "broker_order_identity list"
  rr_unknown_resolved :: "(string \<times> string) list"
  rr_positions_changed :: bool
  rr_reconciled_at :: timestamp

definition paper_reconcile :: "timestamp \<Rightarrow> paper_router \<Rightarrow> reconciliation_result" where
  "paper_reconcile now r =
     \<lparr>rr_unmanaged_orders = [], rr_unknown_resolved = [], rr_positions_changed = False,
      rr_reconciled_at = now\<rparr>"

section \<open>The tasks\<close>

text \<open>
  \<open>_simulate_entry_fill\<close> between its suspension points: up to the first sleep, from there to
  the second, and the rest, which also creates the task of the stop order; and
  \<open>_activate_bracket_child\<close>. The result is the router without the resumed task's successor, the
  calls made, and the tasks that replace it.
\<close>

fun run_task ::
  "task_env \<Rightarrow> paper_router \<Rightarrow> paper_task \<Rightarrow> paper_router \<times> notification list \<times> paper_task list" where
  "run_task env r (Entry_created p) =
     (case tp_entry_order p of
        None \<Rightarrow> (r, [], [])
      | Some entry \<Rightarrow>
          (case po_limit_price entry of
             None \<Rightarrow> (r, [], [])
           | Some price \<Rightarrow> (r, [], [Entry_sleeping p entry price])))"
| "run_task env r (Entry_sleeping p entry price) =
     (let roid = po_runtime_order_id entry
      in if roid \<in> pr_cancelled r then (r, [], [])
         else
           (let order = make_order env entry;
                accepted = order\<lparr>or_status := Order_ACCEPTED, or_accepted_at := Some (te_now env)\<rparr>
            in (r\<lparr>pr_orders := AList.update roid accepted (AList.update roid order (pr_orders r))\<rparr>,
                [Order_update accepted], [Entry_accepted p entry price accepted])))"
| "run_task env r (Entry_accepted p entry price accepted) =
     (let roid = po_runtime_order_id entry;
          filled = accepted\<lparr>or_status := Order_FILLED,
                            or_filled_quantity := int_trunc (po_quantity entry),
                            or_avg_fill_price := Some price, or_filled_at := Some (te_now env)\<rparr>;
          fill = \<lparr>ex_execution_id = te_execution_id env, ex_order_id = or_order_id accepted,
                  ex_broker_execution_id = Some (te_broker_execution_id env),
                  ex_symbol = fill_symbol roid, ex_side = po_side entry,
                  ex_quantity = int_trunc (po_quantity entry), ex_price = price,
                  ex_commission = 0, ex_timestamp = te_now env, ex_account_id = ''default''\<rparr>
      in (r\<lparr>pr_orders := AList.update roid filled (pr_orders r)\<rparr>,
          [Order_update filled, Fill_event fill],
          case tp_stop_order p of None \<Rightarrow> [] | Some s \<Rightarrow> [Child_created s]))"
| "run_task env r (Child_created s) = (r, [], [Child_sleeping s])"
| "run_task env r (Child_sleeping s) =
     (let roid = po_runtime_order_id s
      in if roid \<in> pr_cancelled r then (r, [], [])
         else
           (let child = make_order env s;
                accepted = child\<lparr>or_status := Order_ACCEPTED, or_accepted_at := Some (te_now env)\<rparr>
            in (r\<lparr>pr_orders := AList.update roid accepted (AList.update roid child (pr_orders r))\<rparr>,
                [Order_update accepted], [])))"

definition resume :: "task_env \<Rightarrow> paper_router \<Rightarrow> nat \<Rightarrow> paper_router \<times> notification list" where
  "resume env r i =
     (if i < length (pr_tasks r) then
        (let (r1, out, next') = run_task env r (pr_tasks r ! i)
         in (r1\<lparr>pr_tasks := take i (pr_tasks r) @ drop (Suc i) (pr_tasks r) @ next'\<rparr>, out))
      else (r, []))"

section \<open>Runs\<close>

datatype paper_cmd =
  Submit intent_trade_plan
| Cancel timestamp string
| Flatten timestamp string
| Resume nat task_env

fun paper_exec :: "paper_router \<Rightarrow> paper_cmd \<Rightarrow> paper_router \<times> notification list" where
  "paper_exec r (Submit p) = (snd (submit_bracket r p), [])"
| "paper_exec r (Cancel now roid) = paper_cancel now r roid"
| "paper_exec r (Flatten now i) = paper_flatten now r i"
| "paper_exec r (Resume i env) = resume env r i"

fun paper_run :: "paper_router \<Rightarrow> paper_cmd list \<Rightarrow> paper_router \<times> notification list" where
  "paper_run r [] = (r, [])"
| "paper_run r (c # cs) =
     (let (r1, n1) = paper_exec r c; (r2, n2) = paper_run r1 cs in (r2, n1 @ n2))"

definition fills :: "notification list \<Rightarrow> fill_execution list" where
  "fills ns = concat (map (\<lambda>n. case n of Fill_event f \<Rightarrow> [f] | _ \<Rightarrow> []) ns)"

lemma fills_simps [simp]:
  "fills [] = []" "fills (Order_update u # ns) = fills ns" "fills (Fill_event f # ns) = f # fills ns"
  "fills (ns @ ns') = fills ns @ fills ns'"
  by (simp_all add: fills_def)

section \<open>A sample bracket\<close>

definition sample_entry :: "order_role \<Rightarrow> string \<Rightarrow> order_side \<Rightarrow> planned_order" where
  "sample_entry role roid side =
     \<lparr>po_runtime_order_id = roid, po_role = role, po_side = side, po_order_type = OType_LIMIT,
      po_quantity = 1, po_limit_price = Some 20000, po_stop_price = Some 19995,
      po_time_in_force = TIF_DAY\<rparr>"

definition sample_bracket :: intent_trade_plan where
  "sample_bracket =
     \<lparr>tp_plan_id = ''p1'', tp_intent_id = ''i1'', tp_decision = Decision_APPROVED,
      tp_entry_order = Some (sample_entry Role_ENTRY ''ro-1'' Side_BUY),
      tp_stop_order = Some (sample_entry Role_STOP ''ro-2'' Side_SELL),
      tp_target_orders = [sample_entry Role_TARGET ''ro-3'' Side_SELL],
      tp_calculated_risk_usd = 10, tp_max_loss_usd = 500, tp_reward_risk_ratio = 2,
      tp_market_context_snapshot_id = ''m1'', tp_account_snapshot_id = ''a1'',
      tp_risk_policy_version = ''v1.0.0'', tp_evaluated_at = 0, tp_risk_flags = [],
      tp_explanation = []\<rparr>"

definition sample_env :: task_env where
  "sample_env = \<lparr>te_order_id = ''o1'', te_intent_id = ''x1'', te_execution_id = ''e1'',
     te_broker_execution_id = ''paper-1'', te_now = 0\<rparr>"

lemma sample_bracket_fields:
  "tp_entry_order sample_bracket = Some (sample_entry Role_ENTRY ''ro-1'' Side_BUY)"
  "tp_stop_order sample_bracket = Some (sample_entry Role_STOP ''ro-2'' Side_SELL)"
  "tp_target_orders sample_bracket = [sample_entry Role_TARGET ''ro-3'' Side_SELL]"
  by (simp_all add: sample_bracket_def)

lemma sample_entry_fields [simp]:
  "po_runtime_order_id (sample_entry role roid side) = roid"
  "po_limit_price (sample_entry role roid side) = Some 20000"
  "po_side (sample_entry role roid side) = side"
  "po_quantity (sample_entry role roid side) = 1"
  by (simp_all add: sample_entry_def)

section \<open>Whole brackets\<close>

lemmas paper_defs = submit_bracket_def paper_cancel_def resume_def paper_children_def make_order_def
  Let_def

text \<open>
  Left alone, a submitted bracket runs to its end in five resumptions: the entry is accepted and
  then filled once, in full, at its limit price, the stop order is accepted after the fill, no
  task is left over, and no order is ever created for a target although its identity is
  reported as submitted.
\<close>

theorem paper_bracket_lifecycle:
  assumes "pr_tasks r = []" "tp_entry_order p = Some e" "po_limit_price e = Some price"
    and "tp_stop_order p = Some s" "po_runtime_order_id e \<noteq> po_runtime_order_id s"
    and "po_runtime_order_id e \<notin> pr_cancelled r" "po_runtime_order_id s \<notin> pr_cancelled r"
  shows "\<exists>r' out f oe os. paper_run r [Submit p, Resume 0 e1, Resume 0 e2, Resume 0 e3, Resume 0 e4,
            Resume 0 e5] = (r', out) \<and>
     fills out = [f] \<and> ex_quantity f = int_trunc (po_quantity e) \<and> ex_price f = price \<and>
     ex_side f = po_side e \<and>
     map_of (pr_orders r') (po_runtime_order_id e) = Some oe \<and> or_status oe = Order_FILLED \<and>
     or_remaining_quantity oe = 0 \<and>
     map_of (pr_orders r') (po_runtime_order_id s) = Some os \<and> or_status os = Order_ACCEPTED \<and>
     pr_tasks r' = [] \<and>
     (\<forall>t \<in> set (tp_target_orders p). po_runtime_order_id t \<in> fst ` set (pr_submitted r') \<and>
        (po_runtime_order_id t \<notin> {po_runtime_order_id e, po_runtime_order_id s} \<longrightarrow>
          map_of (pr_orders r') (po_runtime_order_id t) = map_of (pr_orders r) (po_runtime_order_id t)))"
proof -
  have upd: "fst ` set (foldl (\<lambda>m roid. AList.update roid (make_identity roid) m) m xs)
      = fst ` set m \<union> set xs" for m xs
    by (induction xs arbitrary: m) (auto simp: dom_update)
  show ?thesis
    using assms
    by (simp add: paper_defs upd update_conv' or_remaining_quantity_def)
qed

theorem paper_bracket_lifecycle_witness:
  "\<exists>r' out f oe. paper_run (paper_init 50) [Submit sample_bracket, Resume 0 sample_env,
       Resume 0 sample_env, Resume 0 sample_env, Resume 0 sample_env, Resume 0 sample_env]
     = (r', out) \<and> fills out = [f] \<and> ex_price f = 20000 \<and>
     map_of (pr_orders r') ''ro-1'' = Some oe \<and> or_status oe = Order_FILLED"
  using paper_bracket_lifecycle [of "paper_init 50" sample_bracket
      "sample_entry Role_ENTRY ''ro-1'' Side_BUY" 20000 "sample_entry Role_STOP ''ro-2'' Side_SELL"
      sample_env sample_env sample_env sample_env sample_env]
  by (auto simp: sample_bracket_fields paper_init_def simp del: paper_run.simps)

section \<open>No fill without a submitted entry\<close>

type_synonym fill_key = "order_side \<times> int \<times> dec"

definition fill_key :: "fill_execution \<Rightarrow> fill_key" where
  "fill_key f = (ex_side f, ex_quantity f, ex_price f)"

definition entry_key :: "planned_order \<Rightarrow> dec \<Rightarrow> fill_key" where
  "entry_key e price = (po_side e, int_trunc (po_quantity e), price)"

definition plan_keys :: "intent_trade_plan \<Rightarrow> fill_key multiset" where
  "plan_keys p =
     (case tp_entry_order p of
        None \<Rightarrow> {#}
      | Some e \<Rightarrow> (case po_limit_price e of None \<Rightarrow> {#} | Some price \<Rightarrow> {#entry_key e price#}))"

fun task_keys :: "paper_task \<Rightarrow> fill_key multiset" where
  "task_keys (Entry_created p) = plan_keys p"
| "task_keys (Entry_sleeping p e price) = {#entry_key e price#}"
| "task_keys (Entry_accepted p e price a) = {#entry_key e price#}"
| "task_keys (Child_created s) = {#}"
| "task_keys (Child_sleeping s) = {#}"

fun cmd_keys :: "paper_cmd \<Rightarrow> fill_key multiset" where
  "cmd_keys (Submit p) = plan_keys p"
| "cmd_keys _ = {#}"

definition tasks_keys :: "paper_task list \<Rightarrow> fill_key multiset" where
  "tasks_keys ts = sum_list (map task_keys ts)"

definition fill_keys :: "notification list \<Rightarrow> fill_key multiset" where
  "fill_keys ns = image_mset fill_key (mset (fills ns))"

lemma keys_append [simp]:
  "tasks_keys (xs @ ys) = tasks_keys xs + tasks_keys ys"
  "tasks_keys [] = {#}" "tasks_keys (x # xs) = task_keys x + tasks_keys xs"
  "fill_keys (ns @ ns') = fill_keys ns + fill_keys ns'"
  "fill_keys [] = {#}" "fill_keys (Order_update u # ns) = fill_keys ns"
  "fill_keys (Fill_event f # ns) = add_mset (fill_key f) (fill_keys ns)"
  by (simp_all add: tasks_keys_def fill_keys_def)

lemma run_task_keys:
  "run_task env r t = (r', out, next') \<Longrightarrow>
   fill_keys out + tasks_keys next' \<subseteq># task_keys t \<and> pr_tasks r' = pr_tasks r"
  by (cases t)
     (auto simp: Let_def fill_key_def entry_key_def plan_keys_def split: option.splits if_splits)

lemma resume_keys:
  assumes "resume env r i = (r', out)"
  shows "fill_keys out + tasks_keys (pr_tasks r') \<subseteq># tasks_keys (pr_tasks r)"
proof (cases "i < length (pr_tasks r)")
  case True
  obtain r1 n next' where t: "run_task env r (pr_tasks r ! i) = (r1, n, next')"
    by (metis prod_cases3)
  have split: "tasks_keys (pr_tasks r)
      = tasks_keys (take i (pr_tasks r)) + task_keys (pr_tasks r ! i) + tasks_keys (drop (Suc i) (pr_tasks r))"
    by (subst id_take_nth_drop [OF True]) simp
  show ?thesis
    using assms run_task_keys [OF t] True
    by (auto simp: resume_def t Let_def split ac_simps intro: subset_mset.add_mono)
qed (use assms in \<open>simp add: resume_def\<close>)

lemma paper_cancel_tasks [simp]:
  "pr_tasks (fst (paper_cancel now r roid)) = pr_tasks r"
  "fills (snd (paper_cancel now r roid)) = []"
  by (simp_all add: paper_cancel_def Let_def split: option.split)

lemma paper_flatten_loop_tasks [simp]:
  "pr_tasks (fst (paper_flatten_loop now i items r)) = pr_tasks r"
  "fills (snd (paper_flatten_loop now i items r)) = []"
proof (induction items arbitrary: r)
  case (Cons a items)
  {
    case 1
    then show ?case using Cons by (cases a) (simp add: Let_def case_prod_beta)
  next
    case 2
    then show ?case using Cons by (cases a) (simp add: Let_def case_prod_beta)
  }
qed simp_all

lemma paper_exec_keys:
  assumes "paper_exec r c = (r', out)"
  shows "fill_keys out + tasks_keys (pr_tasks r') \<subseteq># tasks_keys (pr_tasks r) + cmd_keys c"
proof (cases c)
  case (Cancel now roid)
  then show ?thesis
    using assms paper_cancel_tasks [of now r roid] by (simp add: fill_keys_def)
next
  case (Flatten now i)
  then show ?thesis
    using assms paper_flatten_loop_tasks [of now i "pr_orders r" r]
    by (simp add: fill_keys_def paper_flatten_def)
next
  case (Resume i env)
  then show ?thesis using assms resume_keys [of env r i r' out] by simp
next
  case (Submit p)
  then show ?thesis
    using assms by (auto simp: submit_bracket_def Let_def plan_keys_def split: option.splits)
qed

text \<open>
  C29. Over every interleaving of submissions, cancellations, flattenings and resumed tasks, the fills
  a fresh router reports, each with side, quantity and price, form a sub-multiset of the entry
  orders submitted to it: an entry fills at most once, in full, at its own limit price, and
  no other order does. The file's header documents simulated fills of stops and targets as well; there is no code for
  them, a stop is only acknowledged and a target never becomes an order.
\<close>

theorem paper_fills_within_submissions:
  assumes "paper_run (paper_init delay) cmds = (r, out)"
  shows "image_mset fill_key (mset (fills out)) \<subseteq># sum_list (map cmd_keys cmds)"
proof -
  have "fill_keys out + tasks_keys (pr_tasks r') \<subseteq># tasks_keys (pr_tasks r) + sum_list (map cmd_keys cmds)"
    if "paper_run r cmds = (r', out)" for r r' out
    using that
  proof (induction cmds arbitrary: r out)
    case (Cons c cs)
    obtain r1 n1 n2 where 1: "paper_exec r c = (r1, n1)" and 2: "paper_run r1 cs = (r', n2)"
      and n: "out = n1 @ n2"
      using Cons.prems by (auto simp: Let_def split: prod.splits)
    have "fill_keys n1 + (fill_keys n2 + tasks_keys (pr_tasks r'))
        \<subseteq># fill_keys n1 + (tasks_keys (pr_tasks r1) + sum_list (map cmd_keys cs))"
      using Cons.IH [OF 2] by simp
    also have "\<dots> \<subseteq># tasks_keys (pr_tasks r) + cmd_keys c + sum_list (map cmd_keys cs)"
      using paper_exec_keys [OF 1] by (simp add: add.assoc [symmetric])
    finally show ?case by (simp add: n ac_simps)
  qed simp
  from this [OF assms] have "fill_keys out \<subseteq># sum_list (map cmd_keys cmds)"
    by (simp add: paper_init_def)
       (metis mset_subset_eq_add_left subset_mset.dual_order.trans)
  then show ?thesis by (simp add: fill_keys_def)
qed

theorem paper_fills_within_submissions_witness:
  "image_mset fill_key (mset (fills (snd (paper_run (paper_init 50)
     [Submit sample_bracket, Resume 0 sample_env, Resume 0 sample_env, Resume 0 sample_env]))))
   \<subseteq># {#(Side_BUY, 1, 20000)#}"
  using paper_fills_within_submissions [of 50 "[Submit sample_bracket, Resume 0 sample_env,
      Resume 0 sample_env, Resume 0 sample_env]" "fst (paper_run (paper_init 50) [Submit sample_bracket,
      Resume 0 sample_env, Resume 0 sample_env, Resume 0 sample_env])"
      "snd (paper_run (paper_init 50) [Submit sample_bracket,
      Resume 0 sample_env, Resume 0 sample_env, Resume 0 sample_env])"]
  by (simp add: plan_keys_def sample_bracket_fields entry_key_def int_trunc_def)

section \<open>Cancellation\<close>

definition never_accepted :: "string \<Rightarrow> paper_router \<Rightarrow> bool" where
  "never_accepted roid r \<longleftrightarrow> roid \<in> pr_cancelled r \<and> map_of (pr_orders r) roid = None \<and>
     (\<forall>t \<in> set (pr_tasks r). case t of Entry_accepted p e price a \<Rightarrow> po_runtime_order_id e \<noteq> roid | _ \<Rightarrow> True)"

lemma never_accepted_cancel:
  "never_accepted roid r \<Longrightarrow> never_accepted roid (fst (paper_cancel now r roid'))"
  by (auto simp: never_accepted_def paper_cancel_def Let_def update_conv' split: option.split)

lemma never_accepted_flatten:
  "never_accepted roid r \<Longrightarrow> never_accepted roid (fst (paper_flatten_loop now i items r))"
proof (induction items arbitrary: r)
  case (Cons a items)
  then show ?case by (cases a) (simp add: Let_def case_prod_beta never_accepted_cancel)
qed simp

lemma never_accepted_run_task:
  assumes "never_accepted roid r" "t \<in> set (pr_tasks r)" "run_task env r t = (r', out, next')"
  shows "never_accepted roid (r'\<lparr>pr_tasks := next'\<rparr>)"
proof (cases t)
  case (Entry_accepted p e price a)
  then have "po_runtime_order_id e \<noteq> roid" using assms by (force simp: never_accepted_def)
  with Entry_accepted assms show ?thesis
    by (auto simp: never_accepted_def Let_def update_conv' split: option.splits)
qed (use assms in \<open>auto simp: never_accepted_def Let_def update_conv' split: option.splits if_splits\<close>)

lemma never_accepted_exec:
  assumes "never_accepted roid r"
  shows "never_accepted roid (fst (paper_exec r c))"
proof (cases c)
  case (Submit p)
  with assms show ?thesis
    by (auto simp: never_accepted_def submit_bracket_def Let_def split: option.splits)
next
  case (Resume i env)
  show ?thesis
  proof (cases "i < length (pr_tasks r)")
    case True
    obtain r1 n next' where t: "run_task env r (pr_tasks r ! i) = (r1, n, next')"
      by (metis prod_cases3)
    have "never_accepted roid (r1\<lparr>pr_tasks := next'\<rparr>)"
      using never_accepted_run_task [OF assms _ t] True by simp
    moreover have "set (take i (pr_tasks r)) \<subseteq> set (pr_tasks r)" "set (drop (Suc i) (pr_tasks r)) \<subseteq> set (pr_tasks r)"
      by (simp_all add: set_take_subset set_drop_subset)
    ultimately show ?thesis using assms True
      by (auto simp: Resume resume_def t Let_def never_accepted_def)
  qed (use assms in \<open>simp add: Resume resume_def\<close>)
qed (use assms in \<open>simp_all add: never_accepted_cancel never_accepted_flatten paper_flatten_def\<close>)

text \<open>
  A cancellation that arrives before the simulated broker accepted the order is final: whatever is
  submitted, cancelled or resumed later, no order ever exists under that identity, so it can
  neither be accepted nor fill.
\<close>

theorem paper_early_cancel_is_final:
  assumes "map_of (pr_orders r) roid = None"
    and "\<forall>t \<in> set (pr_tasks r). \<forall>p e price a. t = Entry_accepted p e price a \<longrightarrow> po_runtime_order_id e \<noteq> roid"
  shows "map_of (pr_orders (fst (paper_run (fst (paper_cancel now r roid)) cmds))) roid = None"
proof -
  have "never_accepted roid (fst (paper_cancel now r roid))"
    using assms by (auto simp: never_accepted_def paper_cancel_def Let_def split: option.split paper_task.split)
  moreover have "never_accepted roid (fst (paper_run r cmds))" if "never_accepted roid r" for r
    using that
  proof (induction cmds arbitrary: r)
    case (Cons c cs)
    from Cons.IH [OF never_accepted_exec [OF Cons.prems, of c]] show ?case
      by (simp add: Let_def case_prod_beta)
  qed simp
  ultimately show ?thesis by (auto simp: never_accepted_def)
qed

theorem paper_early_cancel_is_final_witness:
  "map_of (pr_orders (fst (paper_run (fst (paper_cancel 0
     (snd (submit_bracket (paper_init 50) sample_bracket)) ''ro-1''))
     [Resume 0 sample_env, Resume 0 sample_env, Resume 0 sample_env]))) ''ro-1'' = None"
  by (rule paper_early_cancel_is_final)
     (simp_all add: submit_bracket_def paper_init_def sample_bracket_fields Let_def)

text \<open>
  A cancellation that arrives while the order is accepted but not filled is not respected: the
  router reports the order as cancelled, and the pending task then reports it as filled, a move the
  order table forbids, together with a fill of the full quantity.
\<close>

theorem paper_cancelled_order_still_fills:
  assumes "i < length (pr_tasks r)" "pr_tasks r ! i = Entry_accepted p e price a"
    and "map_of (pr_orders r) (po_runtime_order_id e) = Some a" "or_status a = Order_ACCEPTED"
  shows "\<exists>r1 r2 oc fo f. paper_cancel now r (po_runtime_order_id e) = (r1, [Order_update oc]) \<and>
     or_status oc = Order_CANCELLED \<and>
     resume env r1 i = (r2, [Order_update fo, Fill_event f]) \<and> or_status fo = Order_FILLED \<and>
     or_order_id fo = or_order_id oc \<and> ex_quantity f = int_trunc (po_quantity e) \<and>
     or_status fo \<notin> order_transitions (or_status oc)"
  using assms by (simp add: paper_cancel_def resume_def Let_def)

definition sample_accepted :: broker_order where
  "sample_accepted = (make_order sample_env (sample_entry Role_ENTRY ''ro-1'' Side_BUY))
     \<lparr>or_status := Order_ACCEPTED, or_accepted_at := Some 0\<rparr>"

theorem paper_cancelled_order_still_fills_witness:
  "\<exists>r1 r2 out f. paper_cancel 0
       (fst (paper_run (paper_init 50) [Submit sample_bracket, Resume 0 sample_env, Resume 0 sample_env]))
       ''ro-1'' = (r1, out) \<and> resume sample_env r1 0 = (r2, [Order_update f, Fill_event
         (case snd (resume sample_env r1 0) of [_, Fill_event x] \<Rightarrow> x)]) \<and> or_status f = Order_FILLED"
  using paper_cancelled_order_still_fills [of 0
      "fst (paper_run (paper_init 50) [Submit sample_bracket, Resume 0 sample_env, Resume 0 sample_env])"
      sample_bracket "sample_entry Role_ENTRY ''ro-1'' Side_BUY" 20000 sample_accepted 0 sample_env]
  by (auto simp: sample_bracket_fields paper_init_def sample_accepted_def paper_defs sample_env_def
      simp del: take_Suc_Cons)

end
