(* ===== verification/Coordinator.thy ===== *)
theory Coordinator
  imports Exec_Guards
begin

text \<open>
  The execution coordinator, \<^verbatim>\<open>src/alpha/engines/execution/coordinator.py\<close>. Its injected
  dependencies are the fields of \<open>deps\<close>, over an arbitrary type of router states: the market
  store, the account getter, the risk evaluator and the router's \<open>submit_bracket\<close>; the clock
  readings of a call are in it too. No coroutine of the coordinator is suspended between its
  first and its last statement with the in-memory journal and the paper router, so each
  entry point is one function on the state. An exception that leaves an entry point is \<open>Inl\<close>,
  and the state it leaves behind is returned with it.
\<close>

section \<open>State\<close>

record intent_response =
  ir_intent_id :: string
  ir_status :: intent_status
  ir_decision :: "risk_decision option"
  ir_entry_price :: "dec option"
  ir_stop_price :: "dec option"
  ir_target_price :: "dec option"
  ir_risk_usd :: "dec option"
  ir_reward_risk :: "rat option"
  ir_explanation :: "message list"
  ir_risk_flags :: "string list"
  ir_requires_confirmation :: bool
  ir_confirmation_expires_at :: "timestamp option"

definition plain_response ::
  "string \<Rightarrow> intent_status \<Rightarrow> risk_decision option \<Rightarrow> message list \<Rightarrow> string list \<Rightarrow> intent_response" where
  "plain_response intent_id status decision explanation flags =
     \<lparr>ir_intent_id = intent_id, ir_status = status, ir_decision = decision, ir_entry_price = None,
      ir_stop_price = None, ir_target_price = None, ir_risk_usd = None, ir_reward_risk = None,
      ir_explanation = explanation, ir_risk_flags = flags, ir_requires_confirmation = False,
      ir_confirmation_expires_at = None\<rparr>"

record pending_intent =
  pi_intent :: trade_intent
  pi_plan :: intent_trade_plan
  pi_created_at :: timestamp
  pi_expiry_ts :: rat

record 'r coordinator =
  co_readiness :: execution_readiness
  co_pending :: "string \<rightharpoonup> pending_intent"
  co_intent_status :: "string \<rightharpoonup> intent_status"
  co_positions :: "string \<rightharpoonup> dec"
  co_working_orders :: "working_order list"
  co_idempotency :: idempotency_map
  co_journal :: journal
  co_router :: 'r

record 'r deps =
  de_market :: "string \<Rightarrow> market_context option"
  de_account_state :: "account_snapshot option"
  de_evaluate :: "trade_intent \<Rightarrow> market_context \<Rightarrow> account_snapshot \<Rightarrow> execution_snapshot \<Rightarrow>
    exec_error + intent_trade_plan"
  de_submit_bracket :: "'r \<Rightarrow> intent_trade_plan \<Rightarrow> (exec_error + broker_order_identity list) \<times> 'r"
  de_now :: timestamp
  de_now_later :: timestamp
  de_monotonic :: rat
  de_clock_id :: string

definition coordinator_init :: "'r \<Rightarrow> 'r coordinator" where
  "coordinator_init r =
     \<lparr>co_readiness = EXECUTION_NOT_READY, co_pending = Map.empty, co_intent_status = Map.empty,
      co_positions = Map.empty, co_working_orders = [], co_idempotency = Map.empty,
      co_journal = Map.empty, co_router = r\<rparr>"

definition CONFIRMATION_TIMEOUT_S :: rat where
  "CONFIRMATION_TIMEOUT_S = 10"

definition MAX_CLIENT_DRIFT_TICKS :: dec where
  "MAX_CLIENT_DRIFT_TICKS = 1 / 2"

definition MAX_CLIENT_QUOTE_AGE_MS :: int where
  "MAX_CLIENT_QUOTE_AGE_MS = 500"

definition make_pending :: "'r deps \<Rightarrow> trade_intent \<Rightarrow> intent_trade_plan \<Rightarrow> pending_intent" where
  "make_pending d intent p =
     \<lparr>pi_intent = intent, pi_plan = p, pi_created_at = de_now d,
      pi_expiry_ts = fl (de_monotonic d + CONFIRMATION_TIMEOUT_S)\<rparr>"

definition pending_is_expired :: "'r deps \<Rightarrow> pending_intent \<Rightarrow> bool" where
  "pending_is_expired d p \<longleftrightarrow> de_monotonic d > pi_expiry_ts p"

section \<open>Internal operations\<close>

definition update_readiness :: "(string \<rightharpoonup> bool) \<Rightarrow> 'r coordinator \<Rightarrow> 'r coordinator" where
  "update_readiness kwargs c = c\<lparr>co_readiness := er_with_update (co_readiness c) kwargs\<rparr>"

text \<open>A move the intent table forbids is logged and dropped, but only from a live status.\<close>

definition update_status :: "string \<Rightarrow> intent_status \<Rightarrow> 'r coordinator \<Rightarrow> 'r coordinator" where
  "update_status intent_id status c =
     (case co_intent_status c intent_id of
        Some current \<Rightarrow>
          if \<not> is_intent_terminal current \<and> raises (assert_valid_intent_transition current status)
          then c
          else c\<lparr>co_intent_status := (co_intent_status c)(intent_id \<mapsto> status)\<rparr>
      | None \<Rightarrow> c\<lparr>co_intent_status := (co_intent_status c)(intent_id \<mapsto> status)\<rparr>)"

definition journal_event ::
  "'r deps \<Rightarrow> string \<Rightarrow> string \<Rightarrow> message \<Rightarrow> string option \<Rightarrow> string option \<Rightarrow>
   'r coordinator \<Rightarrow> 'r coordinator" where
  "journal_event d intent_id event detail market_id account_id c =
     c\<lparr>co_journal := journal_record (co_journal c)
        \<lparr>ar_intent_id = intent_id, ar_event = event, ar_timestamp = de_now d,
         ar_market_snapshot_id = market_id, ar_account_snapshot_id = account_id,
         ar_detail = detail\<rparr>\<rparr>"

definition get_execution_snapshot :: "'r deps \<Rightarrow> 'r coordinator \<Rightarrow> execution_snapshot" where
  "get_execution_snapshot d c =
     \<lparr>es_snapshot_id = ''exec-'' @ de_clock_id d, es_as_of = de_now d, es_positions = co_positions c,
      es_working_orders = co_working_orders c, es_submitting_intent_ids = [],
      es_session_trade_count = 0, es_consecutive_losses = 0\<rparr>"

definition get_account_snapshot :: "'r deps \<Rightarrow> account_snapshot" where
  "get_account_snapshot d =
     (case de_account_state d of
        Some a \<Rightarrow> a
      | None \<Rightarrow>
          \<lparr>ac_snapshot_id = ''acct-'' @ de_clock_id d, ac_as_of = de_now d, ac_account_id = ''paper'',
           ac_net_liquidation = 25000, ac_realized_pnl = 0, ac_unrealized_pnl = 0,
           ac_daily_loss_limit = 500, ac_session_high_pnl = 0, ac_is_halted = False,
           ac_halt_reason = None\<rparr>)"

text \<open>\<open>IntentStatus\<close> has no member \<open>UNKNOWN\<close>, so the default is \<open>REJECTED\<close>.\<close>

definition status_response :: "string \<Rightarrow> 'r coordinator \<Rightarrow> intent_response" where
  "status_response intent_id c =
     plain_response intent_id (get_default (co_intent_status c) intent_id Intent_REJECTED) None [] []"

text \<open>\<open>datetime.replace(second=...)\<close> raises \<open>ValueError\<close> for a second outside 0 to 59.\<close>

definition second_of :: "timestamp \<Rightarrow> int" where
  "second_of t = (t div 10 ^ 6) mod 60"

definition replace_second :: "timestamp \<Rightarrow> int \<Rightarrow> exec_error + timestamp" where
  "replace_second t s =
     (if 0 \<le> s \<and> s \<le> 59 then Inr (t + (s - second_of t) * 10 ^ 6)
      else Inl (Value_error ''second must be in 0..59''))"

definition plan_response ::
  "'r deps \<Rightarrow> string \<Rightarrow> intent_status \<Rightarrow> intent_trade_plan \<Rightarrow> exec_error + intent_response" where
  "plan_response d intent_id status p =
     (let response = (\<lambda>expires.
            \<lparr>ir_intent_id = intent_id, ir_status = status, ir_decision = Some (tp_decision p),
             ir_entry_price = (case tp_entry_order p of None \<Rightarrow> None | Some e \<Rightarrow> po_limit_price e),
             ir_stop_price = (case tp_stop_order p of None \<Rightarrow> None | Some s \<Rightarrow> po_stop_price s),
             ir_target_price = (case tp_target_orders p of [] \<Rightarrow> None | t # _ \<Rightarrow> po_limit_price t),
             ir_risk_usd = Some (tp_calculated_risk_usd p),
             ir_reward_risk = Some (tp_reward_risk_ratio p),
             ir_explanation = tp_explanation p, ir_risk_flags = tp_risk_flags p,
             ir_requires_confirmation = tp_requires_confirmation p,
             ir_confirmation_expires_at = expires\<rparr>)
      in if tp_requires_confirmation p then
           (case replace_second (de_now d)
                   (second_of (de_now_later d) + int_trunc CONFIRMATION_TIMEOUT_S) of
              Inl e \<Rightarrow> Inl e
            | Inr t \<Rightarrow> Inr (response (Some t)))
         else Inr (response None))"

definition submit_plan ::
  "'r deps \<Rightarrow> string \<Rightarrow> trade_intent \<Rightarrow> intent_trade_plan \<Rightarrow> 'r coordinator \<Rightarrow>
   (exec_error + intent_response) \<times> 'r coordinator" where
  "submit_plan d intent_id intent p c =
     (let c = update_status intent_id Intent_SUBMITTING c;
          (result, router) = de_submit_bracket d (co_router c) p;
          c = c\<lparr>co_router := router\<rparr>
      in case result of
           Inl exc \<Rightarrow>
             (let c = update_status intent_id Intent_FAILED c;
                  c = journal_event d intent_id ''submission_failed'' (Exception_text exc) None None c
              in (Inr (plain_response intent_id Intent_FAILED None [Submission_failed exc] []), c))
         | Inr identities \<Rightarrow>
             (let c = update_status intent_id Intent_ACTIVE c;
                  c = (case tp_entry_order p of
                         None \<Rightarrow> c
                       | Some e \<Rightarrow> c\<lparr>co_working_orders := co_working_orders c @
                           [\<lparr>wo_runtime_order_id = po_runtime_order_id e,
                             wo_instrument_id = ti_instrument_id intent, wo_side = po_side e,
                             wo_quantity = po_quantity e, wo_role = Role_ENTRY\<rparr>]\<rparr>);
                  c = journal_event d intent_id ''submitted''
                        (Identities_are (map bi_runtime_order_id identities)) None None c
              in (plan_response d intent_id Intent_ACTIVE p, c)))"

section \<open>Entry points\<close>

text \<open>
  \<open>submit_intent\<close> in three parts: the gates, the evaluation from the quote check on, and what
  is done with the plan.
\<close>

definition act_on_plan ::
  "'r deps \<Rightarrow> trade_intent \<Rightarrow> intent_trade_plan \<Rightarrow> 'r coordinator \<Rightarrow>
   (exec_error + intent_response) \<times> 'r coordinator" where
  "act_on_plan d intent p c =
     (let intent_id = ti_intent_id intent
      in if tp_decision p = Decision_REJECTED then
           (Inr (plain_response intent_id Intent_REJECTED (Some Decision_REJECTED)
              (tp_explanation p) (tp_risk_flags p)),
            update_status intent_id Intent_REJECTED c)
         else if tp_decision p = Decision_APPROVED_WITH_MODIFICATIONS then
           (let c = update_status intent_id Intent_AWAITING_CONFIRMATION c;
                c = c\<lparr>co_pending := (co_pending c)(intent_id \<mapsto> make_pending d intent p)\<rparr>;
                c = journal_event d intent_id ''awaiting_confirmation''
                      (Text ''amber - second press required'') None None c
            in (plan_response d intent_id Intent_AWAITING_CONFIRMATION p, c))
         else submit_plan d intent_id intent p c)"

definition evaluate_intent ::
  "'r deps \<Rightarrow> trade_intent \<Rightarrow> market_context \<Rightarrow> 'r coordinator \<Rightarrow>
   (exec_error + intent_response) \<times> 'r coordinator" where
  "evaluate_intent d intent market c =
     (let intent_id = ti_intent_id intent;
          drift = check_client_quote_drift intent market MAX_CLIENT_DRIFT_TICKS MAX_CLIENT_QUOTE_AGE_MS;
          c = (if drift \<noteq> [] then journal_event d intent_id ''client_quote_drift'' (Joined drift)
                 None None c else c);
          account = get_account_snapshot d;
          execution = get_execution_snapshot d c;
          c = update_status intent_id Intent_PLANNING c
      in case de_evaluate d intent market account execution of
           Inl exc \<Rightarrow> (Inl exc, c)
         | Inr p \<Rightarrow>
             (let c = update_status intent_id Intent_PLAN_READY c;
                  c = journal_event d intent_id (''evaluated_'' @ risk_decision_value (tp_decision p))
                        (Flags_are (tp_risk_flags p)) (Some (mc_snapshot_id market))
                        (Some (ac_snapshot_id account)) c
              in act_on_plan d intent p c))"

definition submit_intent ::
  "'r deps \<Rightarrow> trade_intent \<Rightarrow> 'r coordinator \<Rightarrow> (exec_error + intent_response) \<times> 'r coordinator" where
  "submit_intent d intent c =
     (let intent_id = ti_intent_id intent; key = ti_idempotency_key intent
      in case assert_runtime_ready (co_readiness c) of
           Inl exc \<Rightarrow>
             (Inr (plain_response intent_id Intent_REJECTED None [Exception_text exc] []),
              journal_event d intent_id ''rejected_not_ready'' (Exception_text exc) None None c)
         | Inr _ \<Rightarrow>
      (case assert_not_duplicate_intent key (dom (co_idempotency c)) of
         Inl _ \<Rightarrow>
           (case get_intent_id (co_idempotency c) key of
              Some existing \<Rightarrow>
                if existing \<noteq> [] then (Inr (status_response existing c), c)
                else (Inr (plain_response intent_id Intent_REJECTED None
                        [Text ''Duplicate idempotency_key - original response not found''] []), c)
            | None \<Rightarrow> (Inr (plain_response intent_id Intent_REJECTED None
                        [Text ''Duplicate idempotency_key - original response not found''] []), c))
       | Inr _ \<Rightarrow>
      (let c = c\<lparr>co_idempotency := snd (check_and_register (co_idempotency c) key intent_id)\<rparr>;
           c = update_status intent_id Intent_VALIDATING c;
           c = journal_event d intent_id ''received'' (Source_is (ti_source intent)) None None c
       in case de_market d (ti_instrument_id intent) of
            None \<Rightarrow>
              (let c = update_status intent_id Intent_REJECTED c;
                   c = journal_event d intent_id ''rejected_no_market_data'' (Text []) None None c
               in (Inr (plain_response intent_id Intent_REJECTED None
                     [Text ''No market data available for instrument''] []), c))
          | Some market \<Rightarrow>
       evaluate_intent d intent market c)))"

definition confirm_intent ::
  "'r deps \<Rightarrow> string \<Rightarrow> 'r coordinator \<Rightarrow> (exec_error + intent_response) \<times> 'r coordinator" where
  "confirm_intent d intent_id c =
     (case co_pending c intent_id of
        None \<Rightarrow>
          (Inr (plain_response intent_id Intent_REJECTED None
             [Text ''No pending intent found - may have expired or already been confirmed''] []), c)
      | Some pending \<Rightarrow>
     (if pending_is_expired d pending then
        (let c = c\<lparr>co_pending := (co_pending c)(intent_id := None)\<rparr>;
             c = update_status intent_id Intent_EXPIRED c;
             c = journal_event d intent_id ''expired'' (Text ''confirmation window elapsed'') None None c
         in (Inr (plain_response intent_id Intent_EXPIRED None
               [Window_elapsed CONFIRMATION_TIMEOUT_S] []), c))
      else
        (let market_opt = de_market d (ti_instrument_id (pi_intent pending));
             account = get_account_snapshot d;
             execution = get_execution_snapshot d c
         in if market_opt = None \<or> ac_is_halted account then
              (let c = update_status intent_id Intent_REJECTED c;
                   c = c\<lparr>co_pending := (co_pending c)(intent_id := None)\<rparr>;
                   reason = (if ac_is_halted account
                             then ''kill switch activated during confirmation window''
                             else ''market data lost'');
                   c = journal_event d intent_id ''rejected_on_revalidation'' (Text reason) None None c
               in (Inr (plain_response intent_id Intent_REJECTED None
                     [Revalidation_failed reason] []), c))
            else
              (let market = the market_opt;
                   c = update_status intent_id Intent_CONFIRMED c
               in case de_evaluate d (pi_intent pending) market account execution of
                    Inl exc \<Rightarrow> (Inl exc, c)
                  | Inr p \<Rightarrow>
              (let c = journal_event d intent_id (''revalidated_'' @ risk_decision_value (tp_decision p))
                         (Text ''confirmation revalidation'') (Some (mc_snapshot_id market))
                         (Some (ac_snapshot_id account)) c
               in if tp_decision p = Decision_REJECTED then
                    (let c = c\<lparr>co_pending := (co_pending c)(intent_id := None)\<rparr>;
                         c = update_status intent_id Intent_REJECTED c
                     in (Inr (plain_response intent_id Intent_REJECTED (Some Decision_REJECTED)
                           [Revalidation_rejected (tp_explanation p)] []), c))
                  else
                    submit_plan d intent_id (pi_intent pending) p
                      (c\<lparr>co_pending := (co_pending c)(intent_id := None)\<rparr>))))))"

definition cancel_intent ::
  "'r deps \<Rightarrow> string \<Rightarrow> 'r coordinator \<Rightarrow> intent_response \<times> 'r coordinator" where
  "cancel_intent d intent_id c =
     (let c = (case co_pending c intent_id of
                 None \<Rightarrow> c
               | Some _ \<Rightarrow>
                   (let c = c\<lparr>co_pending := (co_pending c)(intent_id := None)\<rparr>;
                        c = update_status intent_id Intent_CANCELLED c
                    in journal_event d intent_id ''cancelled_by_user'' (Text []) None None c))
      in (plain_response intent_id
            (get_default (co_intent_status c) intent_id Intent_CANCELLED) None [] [], c))"

section \<open>Callbacks\<close>

definition on_fill :: "fill_execution \<Rightarrow> 'r coordinator \<Rightarrow> 'r coordinator" where
  "on_fill fill c =
     (let qty = of_int (ex_quantity fill);
          delta = (if ex_side fill = Side_BUY then qty else - qty);
          sym = ex_symbol fill
      in c\<lparr>co_positions := (co_positions c)(sym \<mapsto> get_default (co_positions c) sym 0 + delta),
           co_working_orders :=
             [w \<leftarrow> co_working_orders c. wo_runtime_order_id w \<noteq> ex_order_id fill]\<rparr>)"

definition on_order_update :: "broker_order \<Rightarrow> 'r coordinator \<Rightarrow> 'r coordinator" where
  "on_order_update ord c =
     (if or_is_terminal ord
      then c\<lparr>co_working_orders :=
               [w \<leftarrow> co_working_orders c. wo_runtime_order_id w \<noteq> or_order_id ord]\<rparr>
      else c)"

section \<open>Status moves\<close>

text \<open>The effect of \<open>update_status\<close> on the status dictionary, and of a sequence of them.\<close>

definition status_move ::
  "string \<Rightarrow> intent_status \<Rightarrow> (string \<rightharpoonup> intent_status) \<Rightarrow> (string \<rightharpoonup> intent_status)" where
  "status_move i status m =
     (case m i of
        Some current \<Rightarrow>
          if is_intent_terminal current \<or> status \<in> intent_transitions current then m(i \<mapsto> status) else m
      | None \<Rightarrow> m(i \<mapsto> status))"

definition status_moves ::
  "string \<Rightarrow> intent_status list \<Rightarrow> (string \<rightharpoonup> intent_status) \<Rightarrow> (string \<rightharpoonup> intent_status)" where
  "status_moves i ss m = foldl (\<lambda>m s. status_move i s m) m ss"

lemma status_moves_simps [simp]:
  "status_moves i [] m = m" "status_moves i (s # ss) m = status_moves i ss (status_move i s m)"
  by (simp_all add: status_moves_def)

lemma update_status_eq:
  "update_status i status c = c\<lparr>co_intent_status := status_move i status (co_intent_status c)\<rparr>"
  by (simp add: update_status_def status_move_def raises_iff intent_sm.guard_returns
           split: option.split)

lemma update_status_fields [simp]:
  "co_intent_status (update_status i status c) = status_move i status (co_intent_status c)"
  "co_readiness (update_status i status c) = co_readiness c"
  "co_pending (update_status i status c) = co_pending c"
  "co_positions (update_status i status c) = co_positions c"
  "co_working_orders (update_status i status c) = co_working_orders c"
  "co_idempotency (update_status i status c) = co_idempotency c"
  "co_router (update_status i status c) = co_router c"
  by (simp_all add: update_status_eq)

lemma status_move_other [simp]: "i' \<noteq> i \<Longrightarrow> status_move i s m i' = m i'"
  by (simp add: status_move_def split: option.split)

lemma status_moves_other [simp]: "i' \<noteq> i \<Longrightarrow> status_moves i ss m i' = m i'"
  by (induction ss arbitrary: m) simp_all

lemma status_move_defined [simp]: "status_move i s m i \<noteq> None"
  by (simp add: status_move_def split: option.split)

text \<open>Moves from an unknown intent or along the table are all taken.\<close>

lemma status_moves_from_new: "m i = None \<Longrightarrow> status_move i s m i = Some s"
  by (simp add: status_move_def)

lemma status_moves_along:
  "m i = Some s \<Longrightarrow> follows intent_transitions s ss \<Longrightarrow> status_moves i ss m i = Some (last (s # ss))"
  by (induction ss arbitrary: m s) (simp_all add: status_move_def)

text \<open>A live status only ever moves along the table.\<close>

lemma status_move_reaches:
  assumes "m i = Some s" "\<not> is_intent_terminal s"
  shows "\<exists>t. status_move i x m i = Some t \<and> (t = s \<or> t \<in> intent_transitions s)"
  using assms by (simp add: status_move_def)

section \<open>Outcomes of the entry points\<close>

lemma journal_event_eq:
  "\<exists>j. journal_event d i e m mi ai c = c\<lparr>co_journal := j\<rparr>"
  by (simp add: journal_event_def) blast

lemma journal_event_fields [simp]:
  "co_readiness (journal_event d i e m mi ai c) = co_readiness c"
  "co_pending (journal_event d i e m mi ai c) = co_pending c"
  "co_intent_status (journal_event d i e m mi ai c) = co_intent_status c"
  "co_positions (journal_event d i e m mi ai c) = co_positions c"
  "co_working_orders (journal_event d i e m mi ai c) = co_working_orders c"
  "co_idempotency (journal_event d i e m mi ai c) = co_idempotency c"
  "co_router (journal_event d i e m mi ai c) = co_router c"
  by (simp_all add: journal_event_def)

definition entry_working :: "trade_intent \<Rightarrow> intent_trade_plan \<Rightarrow> working_order list" where
  "entry_working intent p =
     (case tp_entry_order p of
        None \<Rightarrow> []
      | Some e \<Rightarrow> [\<lparr>wo_runtime_order_id = po_runtime_order_id e,
          wo_instrument_id = ti_instrument_id intent, wo_side = po_side e,
          wo_quantity = po_quantity e, wo_role = Role_ENTRY\<rparr>])"

text \<open>
  \<open>changed c c' st pend work idem rt\<close>: the state \<open>c'\<close> is \<open>c\<close> with these statuses, pending
  intents, working orders, keys and router, and any journal.
\<close>

definition changed ::
  "'r coordinator \<Rightarrow> 'r coordinator \<Rightarrow> (string \<rightharpoonup> intent_status) \<Rightarrow> (string \<rightharpoonup> pending_intent) \<Rightarrow>
   working_order list \<Rightarrow> idempotency_map \<Rightarrow> 'r \<Rightarrow> bool" where
  "changed c c' st pend work idem rt \<longleftrightarrow>
     co_readiness c' = co_readiness c \<and> co_positions c' = co_positions c \<and>
     co_intent_status c' = st \<and> co_pending c' = pend \<and> co_working_orders c' = work \<and>
     co_idempotency c' = idem \<and> co_router c' = rt"

lemma submit_planE:
  assumes "submit_plan d i intent p c = (res, c')"
  obtains (failed) exc rt where "de_submit_bracket d (co_router c) p = (Inl exc, rt)"
      "res = Inr (plain_response i Intent_FAILED None [Submission_failed exc] [])"
      "changed c c' (status_moves i [Intent_SUBMITTING, Intent_FAILED] (co_intent_status c))
         (co_pending c) (co_working_orders c) (co_idempotency c) rt"
  | (active) ids rt where "de_submit_bracket d (co_router c) p = (Inr ids, rt)"
      "res = plan_response d i Intent_ACTIVE p"
      "changed c c' (status_moves i [Intent_SUBMITTING, Intent_ACTIVE] (co_intent_status c))
         (co_pending c) (co_working_orders c @ entry_working intent p) (co_idempotency c) rt"
  using assms
  by (cases "de_submit_bracket d (co_router c) p"; cases "fst (de_submit_bracket d (co_router c) p)")
     (auto simp: submit_plan_def Let_def changed_def entry_working_def
           split: option.splits)

lemma get_execution_snapshot_journal [simp]:
  "get_execution_snapshot d (journal_event d' i e m mi ai c) = get_execution_snapshot d c"
  by (simp add: get_execution_snapshot_def)

lemma er_ready_guard: "assert_runtime_ready r = (if er_ready r then Inr () else Inl (Not_ready (er_blocking_reasons r)))"
  by (simp add: guard_defs)

lemma duplicate_guard:
  "assert_not_duplicate_intent key (dom m) = (if m key = None then Inr () else Inl (Duplicate_intent key))"
  by (auto simp: guard_defs)

lemma submit_intent_received:
  assumes "er_ready (co_readiness c)" "co_idempotency c (ti_idempotency_key intent) = None"
  obtains cr where
    "changed c cr (status_moves (ti_intent_id intent) [Intent_VALIDATING] (co_intent_status c))
       (co_pending c) (co_working_orders c)
       ((co_idempotency c)(ti_idempotency_key intent \<mapsto> ti_intent_id intent)) (co_router c)"
    "\<And>market. de_market d (ti_instrument_id intent) = Some market \<Longrightarrow>
       submit_intent d intent c = evaluate_intent d intent market cr"
proof
  have reg: "snd (check_and_register (co_idempotency c) (ti_idempotency_key intent) (ti_intent_id intent))
      = (co_idempotency c)(ti_idempotency_key intent \<mapsto> ti_intent_id intent)"
    using assms by (simp add: check_and_register_def domIff)
  let ?cr = "journal_event d (ti_intent_id intent) ''received'' (Source_is (ti_source intent))
    None None (update_status (ti_intent_id intent) Intent_VALIDATING
      (c\<lparr>co_idempotency := (co_idempotency c)(ti_idempotency_key intent \<mapsto> ti_intent_id intent)\<rparr>))"
  show "changed c ?cr (status_moves (ti_intent_id intent) [Intent_VALIDATING] (co_intent_status c))
       (co_pending c) (co_working_orders c)
       ((co_idempotency c)(ti_idempotency_key intent \<mapsto> ti_intent_id intent)) (co_router c)"
    by (simp add: changed_def)
  show "submit_intent d intent c = evaluate_intent d intent market ?cr"
    if "de_market d (ti_instrument_id intent) = Some market" for market
    using assms that by (simp add: submit_intent_def Let_def er_ready_guard duplicate_guard reg)
qed

lemma evaluate_intentE:
  assumes cr: "changed c cr (status_moves (ti_intent_id intent) [Intent_VALIDATING] (co_intent_status c))
      (co_pending c) (co_working_orders c) idem (co_router c)"
    and ev: "evaluate_intent d intent market cr = (res, c')"
    and p: "de_evaluate d intent market (get_account_snapshot d) (get_execution_snapshot d c) = Inr p"
  obtains c1 where "act_on_plan d intent p c1 = (res, c')"
    "changed c c1 (status_moves (ti_intent_id intent) [Intent_VALIDATING, Intent_PLANNING,
       Intent_PLAN_READY] (co_intent_status c)) (co_pending c) (co_working_orders c) idem (co_router c)"
proof -
  have snap: "get_execution_snapshot d cr = get_execution_snapshot d c"
    using cr by (simp add: get_execution_snapshot_def changed_def)
  note ev = ev [unfolded evaluate_intent_def Let_def if_distrib [where f = "get_execution_snapshot d"]
    get_execution_snapshot_journal snap if_cancel]
  with cr p show thesis by (intro that) (auto simp: changed_def)
qed

lemma act_on_planE:
  assumes "act_on_plan d intent p c = (res, c')"
  obtains (rejected) "tp_decision p = Decision_REJECTED"
      "changed c c' (status_moves (ti_intent_id intent) [Intent_REJECTED] (co_intent_status c))
         (co_pending c) (co_working_orders c) (co_idempotency c) (co_router c)"
  | (amber) "tp_decision p = Decision_APPROVED_WITH_MODIFICATIONS"
      "res = plan_response d (ti_intent_id intent) Intent_AWAITING_CONFIRMATION p"
      "changed c c' (status_moves (ti_intent_id intent) [Intent_AWAITING_CONFIRMATION] (co_intent_status c))
         ((co_pending c)(ti_intent_id intent \<mapsto> make_pending d intent p))
         (co_working_orders c) (co_idempotency c) (co_router c)"
  | (green) "tp_decision p \<notin> {Decision_REJECTED, Decision_APPROVED_WITH_MODIFICATIONS}"
      "submit_plan d (ti_intent_id intent) intent p c = (res, c')"
  using assms by (auto simp: act_on_plan_def Let_def changed_def split: if_splits)

lemma submit_intent_planned:
  assumes "er_ready (co_readiness c)" "co_idempotency c (ti_idempotency_key intent) = None"
    and "de_market d (ti_instrument_id intent) = Some market"
    and "de_evaluate d intent market (get_account_snapshot d) (get_execution_snapshot d c) = Inr p"
    and "submit_intent d intent c = (res, c')"
  obtains c1 where "act_on_plan d intent p c1 = (res, c')"
    "changed c c1 (status_moves (ti_intent_id intent) [Intent_VALIDATING, Intent_PLANNING,
       Intent_PLAN_READY] (co_intent_status c)) (co_pending c) (co_working_orders c)
       ((co_idempotency c)(ti_idempotency_key intent \<mapsto> ti_intent_id intent)) (co_router c)"
  using submit_intent_received [OF assms(1,2), of d] assms(3-5) evaluate_intentE by metis

lemma submit_intentE:
  assumes "submit_intent d intent c = (res, c')"
  obtains (refused) "\<not> er_ready (co_readiness c) \<or> co_idempotency c (ti_idempotency_key intent) \<noteq> None"
      "changed c c' (co_intent_status c) (co_pending c) (co_working_orders c) (co_idempotency c) (co_router c)"
      "returns res"
  | (stopped) ss where "er_ready (co_readiness c)" "co_idempotency c (ti_idempotency_key intent) = None"
      "ss \<in> {[Intent_VALIDATING, Intent_REJECTED], [Intent_VALIDATING, Intent_PLANNING],
              [Intent_VALIDATING, Intent_PLANNING, Intent_PLAN_READY, Intent_REJECTED]}"
      "changed c c' (status_moves (ti_intent_id intent) ss (co_intent_status c)) (co_pending c)
         (co_working_orders c) ((co_idempotency c)(ti_idempotency_key intent \<mapsto> ti_intent_id intent))
         (co_router c)"
  | (pended) market p where "er_ready (co_readiness c)"
      "co_idempotency c (ti_idempotency_key intent) = None"
      "de_market d (ti_instrument_id intent) = Some market"
      "de_evaluate d intent market (get_account_snapshot d) (get_execution_snapshot d c) = Inr p"
      "tp_decision p = Decision_APPROVED_WITH_MODIFICATIONS"
      "res = plan_response d (ti_intent_id intent) Intent_AWAITING_CONFIRMATION p"
      "changed c c' (status_moves (ti_intent_id intent) [Intent_VALIDATING, Intent_PLANNING,
           Intent_PLAN_READY, Intent_AWAITING_CONFIRMATION] (co_intent_status c))
         ((co_pending c)(ti_intent_id intent \<mapsto> make_pending d intent p))
         (co_working_orders c) ((co_idempotency c)(ti_idempotency_key intent \<mapsto> ti_intent_id intent))
         (co_router c)"
  | (submitted) market p c1 where "er_ready (co_readiness c)"
      "co_idempotency c (ti_idempotency_key intent) = None"
      "de_market d (ti_instrument_id intent) = Some market"
      "de_evaluate d intent market (get_account_snapshot d) (get_execution_snapshot d c) = Inr p"
      "tp_decision p \<notin> {Decision_REJECTED, Decision_APPROVED_WITH_MODIFICATIONS}"
      "changed c c1 (status_moves (ti_intent_id intent) [Intent_VALIDATING, Intent_PLANNING,
           Intent_PLAN_READY] (co_intent_status c)) (co_pending c)
         (co_working_orders c) ((co_idempotency c)(ti_idempotency_key intent \<mapsto> ti_intent_id intent))
         (co_router c)"
      "submit_plan d (ti_intent_id intent) intent p c1 = (res, c')"
proof (cases "er_ready (co_readiness c) \<and> co_idempotency c (ti_idempotency_key intent) = None")
  case False
  with assms show thesis
    by (intro refused)
       (auto simp: submit_intent_def Let_def er_ready_guard duplicate_guard changed_def get_intent_id_def
         split: if_splits option.splits)
next
  case True
  then have r: "er_ready (co_readiness c)" and k: "co_idempotency c (ti_idempotency_key intent) = None"
    by simp_all
  have reg: "snd (check_and_register (co_idempotency c) (ti_idempotency_key intent) (ti_intent_id intent))
      = (co_idempotency c)(ti_idempotency_key intent \<mapsto> ti_intent_id intent)"
    using k by (simp add: check_and_register_def domIff)
  show thesis
  proof (cases "de_market d (ti_instrument_id intent)")
    case None
    have "changed c c' (status_moves (ti_intent_id intent) [Intent_VALIDATING, Intent_REJECTED]
        (co_intent_status c)) (co_pending c) (co_working_orders c)
        ((co_idempotency c)(ti_idempotency_key intent \<mapsto> ti_intent_id intent)) (co_router c)"
      using assms True None
      by (auto simp: submit_intent_def Let_def er_ready_guard duplicate_guard reg changed_def)
    with True show thesis by (intro stopped [of "[Intent_VALIDATING, Intent_REJECTED]"]) auto
  next
    case (Some market)
    show thesis
    proof (cases "de_evaluate d intent market (get_account_snapshot d) (get_execution_snapshot d c)")
      case (Inl exc)
      from submit_intent_received [OF r k, of d] Some assms obtain cr where
        ev: "evaluate_intent d intent market cr = (res, c')"
        and cr: "changed c cr (status_moves (ti_intent_id intent) [Intent_VALIDATING] (co_intent_status c))
          (co_pending c) (co_working_orders c)
          ((co_idempotency c)(ti_idempotency_key intent \<mapsto> ti_intent_id intent)) (co_router c)" by metis
      have snap: "get_execution_snapshot d cr = get_execution_snapshot d c"
        using cr by (simp add: get_execution_snapshot_def changed_def)
      note ev = ev [unfolded evaluate_intent_def Let_def if_distrib [where f = "get_execution_snapshot d"]
        get_execution_snapshot_journal snap if_cancel]
      with Inl cr have "changed c c' (status_moves (ti_intent_id intent) [Intent_VALIDATING, Intent_PLANNING]
          (co_intent_status c)) (co_pending c) (co_working_orders c)
          ((co_idempotency c)(ti_idempotency_key intent \<mapsto> ti_intent_id intent)) (co_router c)"
        by (auto simp: changed_def)
      with True show thesis by (intro stopped [of "[Intent_VALIDATING, Intent_PLANNING]"]) auto
    next
      case (Inr p)
      from r k Some Inr assms obtain c1 where act: "act_on_plan d intent p c1 = (res, c')"
        and c1: "changed c c1 (status_moves (ti_intent_id intent) [Intent_VALIDATING, Intent_PLANNING,
            Intent_PLAN_READY] (co_intent_status c)) (co_pending c) (co_working_orders c)
          ((co_idempotency c)(ti_idempotency_key intent \<mapsto> ti_intent_id intent)) (co_router c)"
        by (rule submit_intent_planned)
      from act show thesis
      proof (cases rule: act_on_planE)
        case rejected
        with c1 True show thesis
          by (intro stopped [of "[Intent_VALIDATING, Intent_PLANNING, Intent_PLAN_READY, Intent_REJECTED]"])
             (auto simp: changed_def)
      next
        case amber
        with c1 True Some Inr show thesis by (intro pended [of market p]) (auto simp: changed_def)
      next
        case green
        with c1 True Some Inr show thesis by (intro submitted [of market p c1]) auto
      qed
    qed
  qed
qed

lemma confirm_intentE:
  assumes "confirm_intent d i c = (res, c')"
  obtains (unknown) "co_pending c i = None" "c' = c"
      "\<exists>m. res = Inr (plain_response i Intent_REJECTED None [m] [])"
  | (dropped) pending ss r where "co_pending c i = Some pending" "res = Inr r"
      "ss \<in> {[Intent_EXPIRED], [Intent_REJECTED], [Intent_CONFIRMED, Intent_REJECTED]}"
      "ir_status r = last ss" "ss = [Intent_EXPIRED] \<longleftrightarrow> pending_is_expired d pending"
      "ss = [Intent_REJECTED] \<Longrightarrow> de_market d (ti_instrument_id (pi_intent pending)) = None \<or>
         ac_is_halted (get_account_snapshot d)"
      "changed c c' (status_moves i ss (co_intent_status c)) ((co_pending c)(i := None))
         (co_working_orders c) (co_idempotency c) (co_router c)"
  | (raised) exc pending where "co_pending c i = Some pending" "res = Inl exc"
      "\<not> pending_is_expired d pending"
      "changed c c' (status_moves i [Intent_CONFIRMED] (co_intent_status c)) (co_pending c)
         (co_working_orders c) (co_idempotency c) (co_router c)"
  | (submitted) pending market p c1 where "co_pending c i = Some pending"
      "\<not> pending_is_expired d pending"
      "de_market d (ti_instrument_id (pi_intent pending)) = Some market"
      "\<not> ac_is_halted (get_account_snapshot d)"
      "de_evaluate d (pi_intent pending) market (get_account_snapshot d) (get_execution_snapshot d c) = Inr p"
      "tp_decision p \<noteq> Decision_REJECTED"
      "changed c c1 (status_moves i [Intent_CONFIRMED] (co_intent_status c)) ((co_pending c)(i := None))
         (co_working_orders c) (co_idempotency c) (co_router c)"
      "submit_plan d i (pi_intent pending) p c1 = (res, c')"
proof (cases "co_pending c i")
  case None
  with assms show thesis by (intro unknown) (auto simp: confirm_intent_def)
next
  case (Some pending)
  show thesis
  proof (cases "pending_is_expired d pending")
    case True
    with assms Some show thesis
      by (intro dropped [of pending _ "[Intent_EXPIRED]"])
         (auto simp: confirm_intent_def Let_def changed_def plain_response_def)
  next
    case live: False
    show thesis
    proof (cases "de_market d (ti_instrument_id (pi_intent pending)) = None \<or> ac_is_halted (get_account_snapshot d)")
      case True
      with assms Some live show thesis
        by (intro dropped [of pending _ "[Intent_REJECTED]"])
           (auto simp: confirm_intent_def Let_def changed_def plain_response_def)
    next
      case False
      then obtain market where market: "de_market d (ti_instrument_id (pi_intent pending)) = Some market"
        and nh: "\<not> ac_is_halted (get_account_snapshot d)" by auto
      note go = assms [unfolded confirm_intent_def, simplified Some live market nh option.case if_False
        Let_def option.distinct simp_thms option.sel]
      show thesis
      proof (cases "de_evaluate d (pi_intent pending) market (get_account_snapshot d) (get_execution_snapshot d c)")
        case (Inl exc)
        with go show thesis by (intro raised [OF Some _ live]) (auto simp: changed_def)
      next
        case (Inr p)
        show thesis
        proof (cases "tp_decision p = Decision_REJECTED")
          case True
          with go Inr Some live show thesis
            by (intro dropped [of pending _ "[Intent_CONFIRMED, Intent_REJECTED]"])
               (auto simp: changed_def plain_response_def)
        next
          case False
          with go Inr obtain c1 where "submit_plan d i (pi_intent pending) p c1 = (res, c')"
            and "changed c c1 (status_moves i [Intent_CONFIRMED] (co_intent_status c))
              ((co_pending c)(i := None)) (co_working_orders c) (co_idempotency c) (co_router c)"
            by (auto simp: changed_def)
          with False Inr show thesis by (intro submitted [OF Some live market nh]) auto
        qed
      qed
    qed
  qed
qed

lemma cancel_intentE:
  assumes "cancel_intent d i c = (r, c')"
  obtains (unknown) "co_pending c i = None" "c' = c"
  | (cancelled) pending where "co_pending c i = Some pending"
      "changed c c' (status_moves i [Intent_CANCELLED] (co_intent_status c)) ((co_pending c)(i := None))
         (co_working_orders c) (co_idempotency c) (co_router c)"
  using assms by (cases "co_pending c i") (auto simp: cancel_intent_def Let_def changed_def)

end
