(* ===== verification/Coord_Runs.thy ===== *)
theory Coord_Runs
  imports Coordinator V1_Risk
begin

text \<open>
  What holds of the coordinator over whole sessions, for any market store, risk evaluator, account
  getter and router: how often the broker is reached, how the status of an intent moves, which
  intents are pending, and where the code leaves its own rules.
\<close>

section \<open>Sessions\<close>

datatype 'r coord_cmd =
  C_submit "'r deps" trade_intent
| C_confirm "'r deps" string
| C_cancel "'r deps" string
| C_readiness "string \<rightharpoonup> bool"
| C_fill fill_execution
| C_order broker_order

fun coord_exec :: "'r coordinator \<Rightarrow> 'r coord_cmd \<Rightarrow> 'r coordinator" where
  "coord_exec c (C_submit d intent) = snd (submit_intent d intent c)"
| "coord_exec c (C_confirm d i) = snd (confirm_intent d i c)"
| "coord_exec c (C_cancel d i) = snd (cancel_intent d i c)"
| "coord_exec c (C_readiness kwargs) = update_readiness kwargs c"
| "coord_exec c (C_fill f) = on_fill f c"
| "coord_exec c (C_order ord) = on_order_update ord c"

definition coord_run :: "'r coordinator \<Rightarrow> 'r coord_cmd list \<Rightarrow> 'r coordinator" where
  "coord_run = foldl coord_exec"

lemma callback_fields [simp]:
  "co_pending (on_fill f c) = co_pending c" "co_pending (on_order_update u c) = co_pending c"
  "co_intent_status (on_fill f c) = co_intent_status c"
  "co_intent_status (on_order_update u c) = co_intent_status c"
  "co_idempotency (on_fill f c) = co_idempotency c"
  "co_idempotency (on_order_update u c) = co_idempotency c"
  "co_router (on_fill f c) = co_router c" "co_router (on_order_update u c) = co_router c"
  "co_pending (update_readiness k c) = co_pending c"
  "co_intent_status (update_readiness k c) = co_intent_status c"
  "co_idempotency (update_readiness k c) = co_idempotency c"
  "co_router (update_readiness k c) = co_router c"
  "co_working_orders (update_readiness k c) = co_working_orders c"
  "co_positions (update_readiness k c) = co_positions c"
  by (simp_all add: on_fill_def on_order_update_def update_readiness_def Let_def)

section \<open>One command reaches the broker at most once\<close>

text \<open>A router that keeps a log of the plans it is given, whatever else it does.\<close>

definition log_submit ::
  "('s \<Rightarrow> intent_trade_plan \<Rightarrow> (exec_error + broker_order_identity list) \<times> 's) \<Rightarrow>
   's \<times> intent_trade_plan list \<Rightarrow> intent_trade_plan \<Rightarrow>
   (exec_error + broker_order_identity list) \<times> ('s \<times> intent_trade_plan list)" where
  "log_submit submit r p =
     (case submit (fst r) p of (x, s) \<Rightarrow> (x, (s, snd r @ [p])))"

fun logged :: "('s \<times> intent_trade_plan list) coord_cmd \<Rightarrow> bool" where
  "logged (C_submit d intent) \<longleftrightarrow> (\<exists>s. de_submit_bracket d = log_submit s)"
| "logged (C_confirm d i) \<longleftrightarrow> (\<exists>s. de_submit_bracket d = log_submit s)"
| "logged _ \<longleftrightarrow> True"

fun cmd_key :: "'r coord_cmd \<Rightarrow> string set" where
  "cmd_key (C_submit d intent) = {ti_idempotency_key intent}"
| "cmd_key _ = {}"

text \<open>The number of submissions still owed to keys: logged, or pending a confirmation.\<close>

definition used :: "('s \<times> intent_trade_plan list) coordinator \<Rightarrow> nat" where
  "used c = length (snd (co_router c)) + card (dom (co_pending c))"

definition keys_inv :: "('s \<times> intent_trade_plan list) coordinator \<Rightarrow> bool" where
  "keys_inv c \<longleftrightarrow> finite (dom (co_pending c)) \<and> finite (dom (co_idempotency c)) \<and>
     used c \<le> card (dom (co_idempotency c))"

lemma submit_plan_log:
  assumes "submit_plan d i intent p c = (res, c')" "de_submit_bracket d = log_submit s"
  shows "length (snd (co_router c')) = Suc (length (snd (co_router c))) \<and>
     co_pending c' = co_pending c \<and> co_idempotency c' = co_idempotency c"
  using assms(1)
  by (cases rule: submit_planE)
     (auto simp: changed_def assms(2) log_submit_def dest!: sym [where t = "co_router c'"] split: prod.splits)

lemma keys_inv_submit:
  assumes "keys_inv c" "de_submit_bracket d = log_submit s" "submit_intent d intent c = (res, c')"
  shows "keys_inv c' \<and> dom (co_idempotency c') \<subseteq> insert (ti_idempotency_key intent) (dom (co_idempotency c))"
  using assms(3)
proof (cases rule: submit_intentE)
  case refused
  with assms(1) show ?thesis by (auto simp: keys_inv_def used_def changed_def)
next
  case (stopped ss)
  with assms(1) show ?thesis by (auto simp: keys_inv_def used_def changed_def card_insert_if domIff)
next
  case (pended market p)
  with assms(1) show ?thesis
    by (auto simp: keys_inv_def used_def changed_def card_insert_if domIff)
next
  case (submitted market p c1)
  with assms(1) submit_plan_log [OF submitted(7) assms(2)] show ?thesis
    by (auto simp: keys_inv_def used_def changed_def card_insert_if domIff)
qed

lemma keys_inv_confirm:
  assumes "keys_inv c" "de_submit_bracket d = log_submit s" "confirm_intent d i c = (res, c')"
  shows "keys_inv c' \<and> co_idempotency c' = co_idempotency c"
  using assms(3)
proof (cases rule: confirm_intentE)
  case (dropped pending ss r)
  then have "card (dom ((co_pending c)(i := None))) \<le> card (dom (co_pending c))"
    using assms(1) by (intro card_mono) (auto simp: keys_inv_def)
  with dropped assms(1) show ?thesis by (auto simp: keys_inv_def used_def changed_def)
next
  case (submitted pending market p c1)
  have "card (dom ((co_pending c)(i := None))) + 1 = card (dom (co_pending c))"
    using assms(1) submitted(1) card_Suc_Diff1 [of "dom (co_pending c)" i]
    by (simp add: keys_inv_def domI del: card_Diff_insert)
  with submitted assms(1) submit_plan_log [OF submitted(8) assms(2)] show ?thesis
    by (auto simp: keys_inv_def used_def changed_def)
qed (use assms(1) in \<open>auto simp: keys_inv_def used_def changed_def\<close>)

lemma keys_inv_cancel:
  assumes "keys_inv c" "cancel_intent d i c = (r, c')"
  shows "keys_inv c' \<and> co_idempotency c' = co_idempotency c"
  using assms(2)
proof (cases rule: cancel_intentE)
  case (cancelled pending)
  then have "card (dom ((co_pending c)(i := None))) \<le> card (dom (co_pending c))"
    using assms(1) by (intro card_mono) (auto simp: keys_inv_def)
  with cancelled assms(1) show ?thesis by (auto simp: keys_inv_def used_def changed_def)
qed (use assms(1) in simp)

lemma keys_inv_exec:
  assumes "keys_inv c" "logged cmd"
  shows "keys_inv (coord_exec c cmd) \<and>
    dom (co_idempotency (coord_exec c cmd)) \<subseteq> cmd_key cmd \<union> dom (co_idempotency c)"
proof (cases cmd)
  case (C_submit d intent)
  with assms keys_inv_submit [of c d _ intent "fst (submit_intent d intent c)" "snd (submit_intent d intent c)"]
  show ?thesis by auto
next
  case (C_confirm d i)
  with assms keys_inv_confirm [of c d _ i "fst (confirm_intent d i c)" "snd (confirm_intent d i c)"]
  show ?thesis by auto
next
  case (C_cancel d i)
  with assms keys_inv_cancel [of c d i "fst (cancel_intent d i c)" "snd (cancel_intent d i c)"]
  show ?thesis by auto
qed (use assms(1) in \<open>simp_all add: keys_inv_def used_def\<close>)

lemma keys_inv_run:
  "keys_inv c \<Longrightarrow> \<forall>cmd \<in> set cmds. logged cmd \<Longrightarrow>
   keys_inv (coord_run c cmds) \<and>
   dom (co_idempotency (coord_run c cmds)) \<subseteq> \<Union> (cmd_key ` set cmds) \<union> dom (co_idempotency c)"
proof (induction cmds arbitrary: c)
  case (Cons cmd cmds)
  with keys_inv_exec [of c cmd] have 1: "keys_inv (coord_exec c cmd)"
    and 2: "dom (co_idempotency (coord_exec c cmd)) \<subseteq> cmd_key cmd \<union> dom (co_idempotency c)" by auto
  from Cons.prems(2) have 3: "\<forall>cmd \<in> set cmds. logged cmd" by simp
  have "coord_run c (cmd # cmds) = coord_run (coord_exec c cmd) cmds" by (simp add: coord_run_def)
  moreover have "\<Union> (cmd_key ` set (cmd # cmds)) = cmd_key cmd \<union> \<Union> (cmd_key ` set cmds)" by simp
  moreover have "dom (co_idempotency (coord_run (coord_exec c cmd) cmds))
      \<subseteq> \<Union> (cmd_key ` set cmds) \<union> (cmd_key cmd \<union> dom (co_idempotency c))"
    using conjunct2 [OF Cons.IH [OF 1 3]] 2 by (rule order_trans [OF _ Un_mono [OF subset_refl]])
  ultimately show ?case using conjunct1 [OF Cons.IH [OF 1 3]]
    by (simp only: Un_assoc Un_left_commute simp_thms)
qed (simp add: coord_run_def)

text \<open>
  C1. Exactly-once submission: over any session of submissions, confirmations, cancellations, fills and
  readiness changes, with any router, the broker is handed at most one plan per distinct
  idempotency key, a key whose plan still waits for a confirmation counting as well.
\<close>

theorem broker_submissions_bounded_by_keys:
  assumes "\<forall>cmd \<in> set cmds. logged cmd"
  shows "length (snd (co_router (coord_run (coordinator_init (r, [])) cmds)))
     + card (dom (co_pending (coord_run (coordinator_init (r, [])) cmds)))
     \<le> card (\<Union> (cmd_key ` set cmds))"
proof -
  have init: "keys_inv (coordinator_init (r, []))"
    by (simp add: keys_inv_def used_def coordinator_init_def)
  note run = keys_inv_run [OF init assms]
  have fin: "finite (\<Union> (cmd_key ` set cmds))"
  proof (rule finite_UN_I)
    show "finite (cmd_key cmd)" for cmd :: "('b \<times> intent_trade_plan list) coord_cmd"
      by (cases cmd) simp_all
  qed simp
  have "card (dom (co_idempotency (coord_run (coordinator_init (r, [])) cmds))) \<le> card (\<Union> (cmd_key ` set cmds))"
    using run by (intro card_mono fin) (simp add: coordinator_init_def)
  with run show ?thesis by (simp add: keys_inv_def used_def)
qed

definition sample_deps :: "bool \<Rightarrow> (unit \<times> intent_trade_plan list) deps" where
  "sample_deps amber =
     \<lparr>de_market = (\<lambda>_. Some (sample_market\<lparr>mc_above_vwap := \<not> amber\<rparr>)),
      de_account_state = Some sample_account,
      de_evaluate = v1_evaluate sample_config sample_ids 0,
      de_submit_bracket = log_submit (\<lambda>s p. (Inr [], s)), de_now = 0, de_now_later = 0,
      de_monotonic = 0, de_clock_id = ''0''\<rparr>"

lemma sample_deps_logged: "\<exists>s. de_submit_bracket (sample_deps b) = log_submit s"
  by (auto simp: sample_deps_def)

theorem broker_submissions_bounded_by_keys_witness:
  "length (snd (co_router (coord_run (coordinator_init ((), []))
     [C_readiness (\<lambda>_. Some True), C_submit (sample_deps False) (sample_intent Action_OPEN_LONG),
      C_submit (sample_deps False) (sample_intent Action_OPEN_LONG)]))) \<le> 1"
  using broker_submissions_bounded_by_keys [of "[C_readiness (\<lambda>_. Some True),
      C_submit (sample_deps False) (sample_intent Action_OPEN_LONG),
      C_submit (sample_deps False) (sample_intent Action_OPEN_LONG)]" "()"]
  by (simp add: sample_deps_logged)

section \<open>Status moves\<close>

lemma status_moves_reach:
  assumes "m i = Some s" "\<not> is_intent_terminal s" "\<forall>x \<in> set (butlast ss). \<not> is_intent_terminal x"
  shows "\<exists>t. status_moves i ss m i = Some t \<and> reaches intent_transitions s t"
  using assms
proof (induction ss arbitrary: m s)
  case (Cons x ss)
  from status_move_reaches [of m i s x] Cons.prems obtain t where
    t: "status_move i x m i = Some t" "t = s \<or> t \<in> intent_transitions s" by auto
  have live: "ss \<noteq> [] \<Longrightarrow> \<not> is_intent_terminal t"
    using Cons.prems t by (auto simp: status_move_def split: if_splits)
  show ?case
  proof (cases "ss = []")
    case True
    with t show ?thesis by (auto intro: reaches.intros)
  next
    case False
    with live have "\<not> is_intent_terminal t" by simp
    from Cons.IH [of "status_move i x m" t] this t(1) Cons.prems False obtain u where
      "status_moves i ss (status_move i x m) i = Some u" "reaches intent_transitions t u" by auto
    with t show ?thesis by (auto intro: reaches_step)
  qed
qed (auto intro: reaches_refl)

lemma status_moves_reach':
  assumes "m j = Some s" "\<not> is_intent_terminal s" "\<forall>x \<in> set (butlast ss). \<not> is_intent_terminal x"
  shows "\<exists>t. status_moves i ss m j = Some t \<and> reaches intent_transitions s t"
  using assms status_moves_reach [of m i s ss] by (cases "i = j") (auto intro: reaches_refl)

lemma status_moves_append: "status_moves i ss (status_moves i ss' m) = status_moves i (ss' @ ss) m"
  by (simp add: status_moves_def)

lemmas intent_live_simps = is_intent_terminal_def INTENT_TERMINAL_STATES_def

lemma submit_plan_status:
  "submit_plan d i intent p c = (res, c') \<Longrightarrow>
   co_intent_status c' = status_moves i [Intent_SUBMITTING, Intent_FAILED] (co_intent_status c) \<or>
   co_intent_status c' = status_moves i [Intent_SUBMITTING, Intent_ACTIVE] (co_intent_status c)"
  by (cases rule: submit_planE) (auto simp: changed_def)

lemma submit_intent_status:
  assumes "submit_intent d intent c = (res, c')"
  shows "\<exists>ss. co_intent_status c' = status_moves (ti_intent_id intent) ss (co_intent_status c) \<and>
     (\<forall>x \<in> set (butlast ss). \<not> is_intent_terminal x)"
  using assms
proof (cases rule: submit_intentE)
  case refused
  then show ?thesis by (intro exI [of _ "[]"]) (simp add: changed_def)
next
  case (stopped ss)
  then show ?thesis by (intro exI [of _ ss]) (auto simp: changed_def intent_live_simps)
next
  case (pended market p)
  then show ?thesis
    by (intro exI [of _ "[Intent_VALIDATING, Intent_PLANNING, Intent_PLAN_READY,
          Intent_AWAITING_CONFIRMATION]"]) (auto simp: changed_def intent_live_simps)
next
  case (submitted market p c1)
  from submit_plan_status [OF submitted(7)] submitted(6) show ?thesis
    unfolding changed_def by (elim disjE) (rule exI, rule conjI, simp only: status_moves_append,
      simp add: intent_live_simps)+
qed

lemma confirm_intent_status:
  assumes "confirm_intent d i c = (res, c')"
  shows "\<exists>ss. co_intent_status c' = status_moves i ss (co_intent_status c) \<and>
     (\<forall>x \<in> set (butlast ss). \<not> is_intent_terminal x)"
  using assms
proof (cases rule: confirm_intentE)
  case unknown
  then show ?thesis by (intro exI [of _ "[]"]) simp
next
  case (dropped pending ss r)
  then show ?thesis by (intro exI [of _ ss]) (auto simp: changed_def intent_live_simps)
next
  case (raised exc pending)
  then show ?thesis by (intro exI [of _ "[Intent_CONFIRMED]"]) (simp add: changed_def)
next
  case (submitted pending market p c1)
  from submit_plan_status [OF submitted(8)] submitted(7) show ?thesis
    unfolding changed_def by (elim disjE) (rule exI, rule conjI, simp only: status_moves_append,
      simp add: intent_live_simps)+
qed

lemma cancel_intent_status:
  assumes "cancel_intent d i c = (res, c')"
  shows "\<exists>ss. co_intent_status c' = status_moves i ss (co_intent_status c) \<and>
     (\<forall>x \<in> set (butlast ss). \<not> is_intent_terminal x)"
  using assms
proof (cases rule: cancel_intentE)
  case unknown
  then show ?thesis by (intro exI [of _ "[]"]) simp
next
  case (cancelled pending)
  then show ?thesis by (intro exI [of _ "[Intent_CANCELLED]"]) (simp add: changed_def)
qed

lemma coord_exec_status:
  "\<exists>i ss. co_intent_status (coord_exec c cmd) = status_moves i ss (co_intent_status c) \<and>
     (\<forall>x \<in> set (butlast ss). \<not> is_intent_terminal x)"
proof (cases cmd)
  case (C_submit d intent)
  with submit_intent_status [of d intent c] show ?thesis by (metis coord_exec.simps(1) prod.collapse)
next
  case (C_confirm d i)
  with confirm_intent_status [of d i c] show ?thesis by (metis coord_exec.simps(2) prod.collapse)
next
  case (C_cancel d i)
  with cancel_intent_status [of d i c] show ?thesis by (metis coord_exec.simps(3) prod.collapse)
qed (auto intro!: exI [of _ "[]"])

text \<open>
  The tracked status of a live intent only moves along the intent table: whatever entry point or
  callback runs, and whatever it does in between, the status of every intent that was not terminal is
  afterwards one the table reaches from the status before.
\<close>

theorem tracked_status_follows_table:
  assumes "co_intent_status c i = Some s" "\<not> is_intent_terminal s"
  shows "\<exists>t. co_intent_status (coord_exec c cmd) i = Some t \<and> reaches intent_transitions s t"
proof -
  obtain j ss where "co_intent_status (coord_exec c cmd) = status_moves j ss (co_intent_status c)"
    and "\<forall>x \<in> set (butlast ss). \<not> is_intent_terminal x"
    using coord_exec_status by blast
  with status_moves_reach' [of "co_intent_status c" i s ss j] assms show ?thesis by simp
qed

theorem tracked_status_follows_table_witness:
  "\<exists>t. co_intent_status (coord_exec ((coordinator_init ((), []))\<lparr>co_intent_status :=
       [''i1'' \<mapsto> Intent_AWAITING_CONFIRMATION]\<rparr>) (C_cancel (sample_deps True) ''i1'')) ''i1'' = Some t \<and>
     reaches intent_transitions Intent_AWAITING_CONFIRMATION t"
  using tracked_status_follows_table [of "(coordinator_init ((), []))\<lparr>co_intent_status :=
       [''i1'' \<mapsto> Intent_AWAITING_CONFIRMATION]\<rparr>" "''i1''" Intent_AWAITING_CONFIRMATION
       "C_cancel (sample_deps True) ''i1''"]
  by (simp add: intent_live_simps del: coord_exec.simps)

section \<open>What a submission does\<close>

text \<open>
  The readiness gate: while one of the six conditions is missing, a submission is answered with a
  rejection and changes nothing but the journal, so neither the broker, the keys, the pending
  intents nor the statuses see it, and the same key can be used again later.
\<close>

theorem submission_blocked_until_ready:
  assumes "er_blocking_reasons (co_readiness c) \<noteq> []"
  shows "\<exists>r c'. submit_intent d intent c = (Inr r, c') \<and> ir_status r = Intent_REJECTED \<and>
     ir_explanation r = [Exception_text (Not_ready (er_blocking_reasons (co_readiness c)))] \<and>
     changed c c' (co_intent_status c) (co_pending c) (co_working_orders c) (co_idempotency c) (co_router c)"
  using assms
  by (simp add: submit_intent_def er_ready_guard er_ready_iff Let_def plain_response_def changed_def)

theorem submission_blocked_until_ready_witness:
  "\<exists>r c'. submit_intent (sample_deps False) (sample_intent Action_OPEN_LONG) (coordinator_init ((), []))
       = (Inr r, c') \<and> ir_status r = Intent_REJECTED \<and> co_router c' = ((), [])"
  using submission_blocked_until_ready [of "coordinator_init ((), [])" "sample_deps False"
      "sample_intent Action_OPEN_LONG"]
  by (auto simp: coordinator_init_def changed_def EXECUTION_NOT_READY_def er_blocking_reasons_def)

lemma moves_from_new:
  assumes "m i = None" "follows intent_transitions s ss"
  shows "status_moves i (s # ss) m i = Some (last (s # ss))"
  using status_moves_along [of "status_move i s m" i s ss] assms status_moves_from_new [of m i s]
  by simp

text \<open>
  What a fresh submission does when the runtime is ready and the evaluator returns a plan: a rejected
  plan reaches neither broker nor pending list, an amber plan waits as pending and does not
  reach the broker, an approved plan is handed to the router once, and then the intent is \<open>FAILED\<close>
  when the router raises and \<open>ACTIVE\<close> with its entry counted as working when it does not; in each
  case the key is registered and the tracked status is the one answered.
\<close>

theorem fresh_submission_outcome:
  assumes ready: "er_ready (co_readiness c)"
    and key: "co_idempotency c (ti_idempotency_key intent) = None"
    and new: "co_intent_status c (ti_intent_id intent) = None"
    and market: "de_market d (ti_instrument_id intent) = Some market"
    and ev: "de_evaluate d intent market (get_account_snapshot d) (get_execution_snapshot d c) = Inr p"
    and sub: "submit_intent d intent c = (res, c')"
  shows "co_idempotency c' = (co_idempotency c)(ti_idempotency_key intent \<mapsto> ti_intent_id intent) \<and>
    (tp_decision p = Decision_REJECTED \<longrightarrow>
       co_intent_status c' (ti_intent_id intent) = Some Intent_REJECTED \<and>
       co_router c' = co_router c \<and> co_pending c' = co_pending c \<and>
       co_working_orders c' = co_working_orders c) \<and>
    (tp_decision p = Decision_APPROVED_WITH_MODIFICATIONS \<longrightarrow>
       co_intent_status c' (ti_intent_id intent) = Some Intent_AWAITING_CONFIRMATION \<and>
       co_router c' = co_router c \<and>
       co_pending c' = (co_pending c)(ti_intent_id intent \<mapsto> make_pending d intent p) \<and>
       co_working_orders c' = co_working_orders c) \<and>
    (tp_decision p = Decision_APPROVED \<longrightarrow>
       co_pending c' = co_pending c \<and> co_router c' = snd (de_submit_bracket d (co_router c) p) \<and>
       (if raises (fst (de_submit_bracket d (co_router c) p))
        then co_intent_status c' (ti_intent_id intent) = Some Intent_FAILED \<and>
          co_working_orders c' = co_working_orders c
        else co_intent_status c' (ti_intent_id intent) = Some Intent_ACTIVE \<and>
          co_working_orders c' = co_working_orders c @ entry_working intent p))"
proof -
  note m = moves_from_new [of "co_intent_status c", OF new]
  from ready key market ev sub obtain c1 where act: "act_on_plan d intent p c1 = (res, c')"
    and c1: "changed c c1 (status_moves (ti_intent_id intent) [Intent_VALIDATING, Intent_PLANNING,
        Intent_PLAN_READY] (co_intent_status c)) (co_pending c) (co_working_orders c)
      ((co_idempotency c)(ti_idempotency_key intent \<mapsto> ti_intent_id intent)) (co_router c)"
    by (rule submit_intent_planned)
  from act show ?thesis
  proof (cases rule: act_on_planE)
    case rejected
    with c1 m [of Intent_VALIDATING "[Intent_PLANNING, Intent_PLAN_READY, Intent_REJECTED]"]
    show ?thesis by (simp add: changed_def)
  next
    case amber
    with c1 m [of Intent_VALIDATING "[Intent_PLANNING, Intent_PLAN_READY, Intent_AWAITING_CONFIRMATION]"]
    show ?thesis by (simp add: changed_def)
  next
    case green
    from green(2) show ?thesis
    proof (cases rule: submit_planE)
      case (failed exc rt)
      with green c1 m [of Intent_VALIDATING "[Intent_PLANNING, Intent_PLAN_READY, Intent_SUBMITTING, Intent_FAILED]"]
      show ?thesis by (simp add: changed_def)
    next
      case (active ids rt)
      with green c1 m [of Intent_VALIDATING "[Intent_PLANNING, Intent_PLAN_READY, Intent_SUBMITTING, Intent_ACTIVE]"]
      show ?thesis by (simp add: changed_def)
    qed
  qed
qed

definition sample_ready :: "(unit \<times> intent_trade_plan list) coordinator" where
  "sample_ready = update_readiness (\<lambda>_. Some True) (coordinator_init ((), []))"

lemma sample_ready_fields:
  "er_ready (co_readiness sample_ready)" "co_idempotency sample_ready = Map.empty"
  "co_intent_status sample_ready = Map.empty" "co_pending sample_ready = Map.empty"
  "co_working_orders sample_ready = []"
  by (simp_all add: sample_ready_def update_readiness_def coordinator_init_def er_with_update_def
      er_ready_def)

lemma sample_intent_ids [simp]:
  "ti_intent_id (sample_intent a) = ''i1''" "ti_idempotency_key (sample_intent a) = ''k1''"
  by (simp_all add: sample_intent_def)

lemma sample_submit_returns [simp]: "\<not> raises (fst (de_submit_bracket (sample_deps b) r p))"
  by (simp add: sample_deps_def log_submit_def split_def)

lemma sample_deps_market: "de_market (sample_deps b) i = Some (sample_market\<lparr>mc_above_vwap := \<not> b\<rparr>)"
  by (simp add: sample_deps_def)

lemma sample_deps_evaluate:
  "de_evaluate (sample_deps False) (sample_intent Action_OPEN_LONG)
     (sample_market\<lparr>mc_above_vwap := \<not> False\<rparr>) (get_account_snapshot (sample_deps False))
     (get_execution_snapshot (sample_deps False) sample_ready) = Inr (sample_plan Action_OPEN_LONG)"
  "\<exists>p. de_evaluate (sample_deps True) (sample_intent Action_OPEN_LONG)
     (sample_market\<lparr>mc_above_vwap := \<not> True\<rparr>) (get_account_snapshot (sample_deps True))
     (get_execution_snapshot (sample_deps True) sample_ready) = Inr p \<and>
     tp_decision p = Decision_APPROVED_WITH_MODIFICATIONS"
  by (code_simp, (rule exI, rule conjI, code_simp, code_simp))

theorem fresh_submission_outcome_witness:
  "co_intent_status (snd (submit_intent (sample_deps False) (sample_intent Action_OPEN_LONG) sample_ready))
     ''i1'' = Some Intent_ACTIVE"
  using fresh_submission_outcome [OF sample_ready_fields(1) _ _ sample_deps_market sample_deps_evaluate(1)
      prod.collapse [symmetric]]
  by (auto simp: sample_ready_fields sample_intent_ids sample_submit_returns)

lemma second_of_bounds: "0 \<le> second_of t \<and> second_of t \<le> 59"
  by (simp add: second_of_def)

lemma plan_response_result:
  "plan_response d i status p =
     (if tp_requires_confirmation p \<and> 50 \<le> second_of (de_now_later d)
      then Inl (Value_error ''second must be in 0..59'')
      else plan_response d i status p)"
  "returns (plan_response d i status p) \<longleftrightarrow>
     \<not> (tp_requires_confirmation p \<and> 50 \<le> second_of (de_now_later d))"
  using second_of_bounds [of "de_now_later d"]
  by (auto simp: plan_response_def replace_second_def CONFIRMATION_TIMEOUT_S_def int_trunc_def Let_def)

text \<open>
  In the last ten seconds of every minute an amber submission fails: the expiry shown to the user is
  computed by setting the seconds field to the current second plus ten, which raises
  \<open>ValueError\<close> from second 50 on, although the intent has been registered and put on the
  pending list by then.
\<close>

theorem amber_submission_raises_late_in_minute:
  assumes "er_ready (co_readiness c)" "co_idempotency c (ti_idempotency_key intent) = None"
    and "de_market d (ti_instrument_id intent) = Some market"
    and "de_evaluate d intent market (get_account_snapshot d) (get_execution_snapshot d c) = Inr p"
    and amber: "tp_decision p = Decision_APPROVED_WITH_MODIFICATIONS"
    and "submit_intent d intent c = (res, c')"
  shows "(raises res \<longleftrightarrow> 50 \<le> second_of (de_now_later d)) \<and>
     co_pending c' (ti_intent_id intent) = Some (make_pending d intent p)"
proof -
  from assms(1-4,6) obtain c1 where act: "act_on_plan d intent p c1 = (res, c')"
    by (rule submit_intent_planned)
  from act show ?thesis
    by (cases rule: act_on_planE)
       (use amber in \<open>auto simp: raises_iff plan_response_result(2) tp_requires_confirmation_def changed_def\<close>)
qed

definition sample_late :: "(unit \<times> intent_trade_plan list) deps" where
  "sample_late = (sample_deps True)\<lparr>de_now_later := 55 * 10 ^ 6\<rparr>"

theorem amber_submission_raises_late_in_minute_witness:
  "raises (fst (submit_intent sample_late (sample_intent Action_OPEN_LONG) sample_ready))"
proof -
  have same: "de_market sample_late = de_market (sample_deps True)"
    "de_evaluate sample_late = de_evaluate (sample_deps True)"
    "get_account_snapshot sample_late = get_account_snapshot (sample_deps True)"
    "get_execution_snapshot sample_late sample_ready = get_execution_snapshot (sample_deps True) sample_ready"
    by (simp_all add: sample_late_def get_account_snapshot_def get_execution_snapshot_def split: option.split)
  have late: "50 \<le> second_of (de_now_later sample_late)" by (simp add: sample_late_def second_of_def)
  obtain p where p: "de_evaluate sample_late (sample_intent Action_OPEN_LONG)
      (sample_market\<lparr>mc_above_vwap := \<not> True\<rparr>) (get_account_snapshot sample_late)
      (get_execution_snapshot sample_late sample_ready) = Inr p"
    "tp_decision p = Decision_APPROVED_WITH_MODIFICATIONS"
    using sample_deps_evaluate(2) by (auto simp only: same)
  show ?thesis
    using amber_submission_raises_late_in_minute [OF sample_ready_fields(1) _ _ p prod.collapse [symmetric]]
      late by (simp add: sample_ready_fields same sample_deps_market)
qed

section \<open>Confirmations\<close>

text \<open>
  C23. A confirmation reaches the broker only for a pending intent whose window has not elapsed, with market
  data, without an active kill switch and with a fresh evaluation that does not reject; it then
  consumes the pending intent, and every further confirmation of that intent changes nothing.
\<close>

theorem confirmation_reaches_broker_once:
  assumes conf: "confirm_intent d i c = (res, c')" and moved: "co_router c' \<noteq> co_router c"
  shows "(\<exists>pending market p. co_pending c i = Some pending \<and> de_monotonic d \<le> pi_expiry_ts pending \<and>
       de_market d (ti_instrument_id (pi_intent pending)) = Some market \<and>
       \<not> ac_is_halted (get_account_snapshot d) \<and>
       de_evaluate d (pi_intent pending) market (get_account_snapshot d) (get_execution_snapshot d c) = Inr p \<and>
       tp_decision p \<noteq> Decision_REJECTED \<and>
       co_router c' = snd (de_submit_bracket d (co_router c) p)) \<and>
     co_pending c' i = None \<and> snd (confirm_intent d' i c') = c'"
  using conf
proof (cases rule: confirm_intentE)
  case (submitted pending market p c1)
  from submitted(8) have "co_router c' = snd (de_submit_bracket d (co_router c) p)
      \<and> co_pending c' = (co_pending c)(i := None)"
    using submitted(7) by (cases rule: submit_planE) (auto simp: changed_def)
  then have "co_pending c' i = None" and "co_router c' = snd (de_submit_bracket d (co_router c) p)" by auto
  moreover from this have "snd (confirm_intent d' i c') = c'" by (simp add: confirm_intent_def)
  ultimately show ?thesis using submitted by (auto simp: pending_is_expired_def not_less)
qed (use moved in \<open>auto simp: changed_def\<close>)

definition sample_pending :: "(unit \<times> intent_trade_plan list) coordinator" where
  "sample_pending = sample_ready\<lparr>co_readiness := EXECUTION_NOT_READY,
     co_pending := [''i1'' \<mapsto> make_pending (sample_deps True) (sample_intent Action_OPEN_LONG)
       (sample_plan Action_OPEN_LONG)],
     co_intent_status := [''i1'' \<mapsto> Intent_AWAITING_CONFIRMATION]\<rparr>"

lemma sample_expiry: "pi_expiry_ts (make_pending (sample_deps True) i p) = 10"
proof -
  have "de_monotonic (sample_deps True) + CONFIRMATION_TIMEOUT_S = of_int 10"
    by (simp add: sample_deps_def CONFIRMATION_TIMEOUT_S_def)
  then show ?thesis unfolding make_pending_def by (simp del: of_int_numeral) (subst fl_int_exact; simp)
qed

lemma sample_confirm_submits:
  assumes pend: "co_pending c ''i1''
      = Some (make_pending (sample_deps True) (sample_intent Action_OPEN_LONG) p)"
    and snap: "get_execution_snapshot (sample_deps False) c
      = get_execution_snapshot (sample_deps False) sample_ready"
    and router: "co_router c = ((), l)"
  shows "\<exists>r c'. confirm_intent (sample_deps False) ''i1'' c = (Inr r, c') \<and>
     co_router c' = ((), l @ [sample_plan Action_OPEN_LONG])"
proof -
  have live: "\<not> pending_is_expired (sample_deps False) (make_pending (sample_deps True) i p)" for i p
    unfolding pending_is_expired_def sample_expiry by (simp add: sample_deps_def)
  have nh: "\<not> ac_is_halted (get_account_snapshot (sample_deps b))" for b
    by (simp add: sample_deps_def get_account_snapshot_def sample_account_def)
  have ev: "de_evaluate (sample_deps False) (sample_intent Action_OPEN_LONG)
     (sample_market\<lparr>mc_above_vwap := True\<rparr>) (get_account_snapshot (sample_deps False))
     (get_execution_snapshot (sample_deps False) c) = Inr (sample_plan Action_OPEN_LONG)"
    using sample_deps_evaluate(1) by (simp add: snap)
  have sub: "de_submit_bracket (sample_deps False) ((), l) p = (Inr [], ((), l @ [p]))" for p
    by (simp add: sample_deps_def log_submit_def)
  have mp [simp]: "pi_intent (make_pending d i p) = i" for d :: "'a deps" and i p
    by (simp add: make_pending_def)
  have resp: "\<exists>r. plan_response (sample_deps False) i s (sample_plan Action_OPEN_LONG) = Inr r" for i s
    by (simp add: plan_response_def Let_def tp_requires_confirmation_def)
  show ?thesis
    using pend live nh ev resp
    by (auto simp: confirm_intent_def sample_deps_market Let_def submit_plan_def router sub
        split: option.splits)
qed

theorem confirmation_reaches_broker_once_witness:
  "co_pending (snd (confirm_intent (sample_deps False) ''i1'' sample_pending)) ''i1'' = None"
  using confirmation_reaches_broker_once [OF prod.collapse [symmetric], of "sample_deps False" "''i1''" sample_pending]
    sample_confirm_submits [of sample_pending "sample_plan Action_OPEN_LONG" "[]"]
  by (auto simp: sample_pending_def sample_ready_def coordinator_init_def get_execution_snapshot_def
      update_readiness_def)

section \<open>Confirmation and readiness\<close>

lemma readiness_commutes [simp]:
  "update_status i s (c\<lparr>co_readiness := r\<rparr>) = (update_status i s c)\<lparr>co_readiness := r\<rparr>"
  "journal_event d i e m mi ai (c\<lparr>co_readiness := r\<rparr>) = (journal_event d i e m mi ai c)\<lparr>co_readiness := r\<rparr>"
  "get_execution_snapshot d (c\<lparr>co_readiness := r\<rparr>) = get_execution_snapshot d c"
  by (simp_all add: update_status_eq journal_event_def get_execution_snapshot_def)

lemma readiness_router [simp]:
  "c\<lparr>co_readiness := r, co_router := x\<rparr> = c\<lparr>co_router := x, co_readiness := r\<rparr>"
  "c\<lparr>co_readiness := r, co_pending := y\<rparr> = c\<lparr>co_pending := y, co_readiness := r\<rparr>"
  "c\<lparr>co_readiness := r, co_working_orders := z\<rparr> = c\<lparr>co_working_orders := z, co_readiness := r\<rparr>"
  by simp_all

lemma submit_plan_readiness [simp]:
  "submit_plan d i intent p (c\<lparr>co_readiness := r\<rparr>)
     = map_prod id (\<lambda>c'. c'\<lparr>co_readiness := r\<rparr>) (submit_plan d i intent p c)"
  by (simp add: submit_plan_def Let_def split: prod.splits sum.splits option.splits)

text \<open>
  The confirmation path does not look at the readiness flags: from states that differ only in
  them, a confirmation gives the same answer, the same calls to the broker and the same state. A
  pending intent is therefore submitted although the broker has disconnected or the data gone
  stale since.
\<close>

theorem confirmation_ignores_readiness:
  "confirm_intent d i (c\<lparr>co_readiness := r\<rparr>)
     = map_prod id (\<lambda>c'. c'\<lparr>co_readiness := r\<rparr>) (confirm_intent d i c)"
  by (simp add: confirm_intent_def Let_def split: option.split sum.split)

section \<open>Reachable states\<close>

lemma plan_response_status: "Inr r = plan_response d i status p \<Longrightarrow> ir_status r = status"
  by (auto simp: plan_response_def Let_def split: if_splits sum.splits)


text \<open>
  The states a session can reach, when every intent carries an identifier of its own, as the random
  UUIDs the models draw do.
\<close>

inductive coord_reach :: "'r coordinator \<Rightarrow> bool" where
  reach_init: "coord_reach (coordinator_init r)"
| reach_submit: "coord_reach c \<Longrightarrow> co_intent_status c (ti_intent_id intent) = None \<Longrightarrow>
    submit_intent d intent c = (res, c') \<Longrightarrow> coord_reach c'"
| reach_confirm: "coord_reach c \<Longrightarrow> confirm_intent d i c = (res, c') \<Longrightarrow> coord_reach c'"
| reach_cancel: "coord_reach c \<Longrightarrow> cancel_intent d i c = (resp, c') \<Longrightarrow> coord_reach c'"
| reach_readiness: "coord_reach c \<Longrightarrow> coord_reach (update_readiness kwargs c)"
| reach_fill: "coord_reach c \<Longrightarrow> coord_reach (on_fill f c)"
| reach_order: "coord_reach c \<Longrightarrow> coord_reach (on_order_update ord c)"

definition pending_inv :: "'r coordinator \<Rightarrow> bool" where
  "pending_inv c \<longleftrightarrow>
     (\<forall>i p. co_pending c i = Some p \<longrightarrow>
        co_intent_status c i \<in> {Some Intent_AWAITING_CONFIRMATION, Some Intent_CONFIRMED} \<and>
        ti_intent_id (pi_intent p) = i \<and> tp_requires_confirmation (pi_plan p))"

lemma pending_inv_keep:
  assumes "pending_inv c" "co_pending c' \<subseteq>\<^sub>m co_pending c"
    and "\<And>i. i \<in> dom (co_pending c') \<Longrightarrow> co_intent_status c' i = co_intent_status c i"
  shows "pending_inv c'"
  unfolding pending_inv_def
proof (intro allI impI)
  fix i p assume p: "co_pending c' i = Some p"
  then have "co_pending c i = Some p" using assms(2) by (auto simp: map_le_def dom_def)
  moreover have "co_intent_status c' i = co_intent_status c i" using p by (intro assms(3)) auto
  ultimately show "co_intent_status c' i \<in> {Some Intent_AWAITING_CONFIRMATION, Some Intent_CONFIRMED} \<and>
      ti_intent_id (pi_intent p) = i \<and> tp_requires_confirmation (pi_plan p)"
    using assms(1) by (simp add: pending_inv_def)
qed

lemma pending_inv_new_status:
  "pending_inv c \<Longrightarrow> co_intent_status c i = None \<Longrightarrow> co_pending c i = None"
proof (rule ccontr)
  assume inv: "pending_inv c" and "co_intent_status c i = None" "co_pending c i \<noteq> None"
  then obtain p where "co_pending c i = Some p" by auto
  with inv have "co_intent_status c i \<in> {Some Intent_AWAITING_CONFIRMATION, Some Intent_CONFIRMED}"
    by (simp add: pending_inv_def)
  with \<open>co_intent_status c i = None\<close> show False by simp
qed

lemma pending_inv_submit:
  assumes inv: "pending_inv c" and new: "co_intent_status c (ti_intent_id intent) = None"
    and sub: "submit_intent d intent c = (res, c')"
  shows "pending_inv c'"
proof -
  let ?i = "ti_intent_id intent"
  have np: "co_pending c ?i = None" by (rule pending_inv_new_status [OF inv new])
  have keep: "pending_inv c'" if "co_pending c' = co_pending c"
    "co_intent_status c' = status_moves ?i ss (co_intent_status c)" for ss
  proof (rule pending_inv_keep [OF inv])
    fix j assume "j \<in> dom (co_pending c')"
    then have "j \<noteq> ?i" using that np by auto
    with that show "co_intent_status c' j = co_intent_status c j" by simp
  qed (use that in simp)
  from sub show ?thesis
  proof (cases rule: submit_intentE)
    case refused
    then show ?thesis by (intro keep [of "[]"]) (simp_all add: changed_def)
  next
    case (stopped ss)
    then show ?thesis by (intro keep [of ss]) (simp_all add: changed_def)
  next
    case (pended market p)
    have "status_moves ?i [Intent_VALIDATING, Intent_PLANNING, Intent_PLAN_READY,
        Intent_AWAITING_CONFIRMATION] (co_intent_status c) ?i = Some Intent_AWAITING_CONFIRMATION"
      using moves_from_new [of "co_intent_status c" ?i Intent_VALIDATING "[Intent_PLANNING,
        Intent_PLAN_READY, Intent_AWAITING_CONFIRMATION]", OF new] by simp
    with pended inv show ?thesis
      by (auto simp: pending_inv_def changed_def make_pending_def tp_requires_confirmation_def
          simp del: status_moves_simps)
  next
    case (submitted market p c1)
    from submitted(7) have "co_pending c' = co_pending c"
      using submitted(6) by (cases rule: submit_planE) (auto simp: changed_def)
    moreover from submit_plan_status [OF submitted(7)] submitted(6)
    obtain ss where "co_intent_status c' = status_moves ?i ss (co_intent_status c)"
      unfolding changed_def by (metis status_moves_append)
    ultimately show ?thesis by (rule keep)
  qed
qed

lemma pending_inv_confirm:
  assumes inv: "pending_inv c" and conf: "confirm_intent d i c = (res, c')"
  shows "pending_inv c'"
proof -
  have drop: "pending_inv c'" if "co_pending c' = (co_pending c)(i := None)"
    "co_intent_status c' = status_moves i ss (co_intent_status c)" for ss
    using that by (intro pending_inv_keep [OF inv]) (auto simp: map_le_def split: if_splits)
  from conf show ?thesis
  proof (cases rule: confirm_intentE)
    case (dropped pending ss r)
    then show ?thesis by (intro drop [of ss]) (simp_all add: changed_def)
  next
    case (raised exc pending)
    with inv show ?thesis
      by (auto simp: pending_inv_def changed_def status_move_def split: option.splits)
  next
    case (submitted pending market p c1)
    from submitted(8) have "co_pending c' = (co_pending c)(i := None)"
      using submitted(7) by (cases rule: submit_planE) (auto simp: changed_def)
    moreover from submit_plan_status [OF submitted(8)] submitted(7)
    obtain ss where "co_intent_status c' = status_moves i ss (co_intent_status c)"
      unfolding changed_def by (metis status_moves_append)
    ultimately show ?thesis by (rule drop)
  qed (use inv in simp)
qed

lemma pending_inv_cancel:
  assumes inv: "pending_inv c" and canc: "cancel_intent d i c = (r, c')"
  shows "pending_inv c'"
  using canc
proof (cases rule: cancel_intentE)
  case (cancelled pending)
  then show ?thesis
    by (intro pending_inv_keep [OF inv]) (auto simp: changed_def map_le_def split: if_splits)
qed (use inv in simp)

lemma coord_reach_pending_inv: "coord_reach c \<Longrightarrow> pending_inv c"
  by (induction rule: coord_reach.induct)
     (auto simp: coordinator_init_def intro: pending_inv_submit pending_inv_confirm pending_inv_cancel,
      auto simp: pending_inv_def)

text \<open>
  In every reachable state each pending intent is filed under its own identifier, holds a plan that
  needs a confirmation, and has the tracked status \<open>AWAITING_CONFIRMATION\<close>, or \<open>CONFIRMED\<close> after
  an evaluator that raised during a confirmation.
\<close>

theorem pending_intents_await_confirmation:
  assumes "coord_reach c" "co_pending c i = Some p"
  shows "co_intent_status c i \<in> {Some Intent_AWAITING_CONFIRMATION, Some Intent_CONFIRMED} \<and>
     ti_intent_id (pi_intent p) = i \<and> tp_requires_confirmation (pi_plan p)"
  using coord_reach_pending_inv [OF assms(1)] assms(2) by (simp add: pending_inv_def)

text \<open>
  After a confirmation the tracked status never leaves \<open>CONFIRMED\<close>: the table does not allow the
  moves to \<open>SUBMITTING\<close>, \<open>ACTIVE\<close>, \<open>FAILED\<close> or \<open>REJECTED\<close> from there and they are dropped, so the
  status endpoint goes on saying \<open>CONFIRMED\<close> whatever the confirmation itself answered, unless it
  was answered before the new evaluation.
\<close>

theorem status_stays_confirmed:
  assumes "coord_reach c" "confirm_intent d i c = (Inr r, c')"
    and "co_pending c i = Some pending" "\<not> pending_is_expired d pending"
    and "de_market d (ti_instrument_id (pi_intent pending)) \<noteq> None"
    and "\<not> ac_is_halted (get_account_snapshot d)"
  shows "co_intent_status c' i = Some Intent_CONFIRMED \<and>
     ir_status r \<in> {Intent_ACTIVE, Intent_FAILED, Intent_REJECTED}"
proof -
  have st: "co_intent_status c i \<in> {Some Intent_AWAITING_CONFIRMATION, Some Intent_CONFIRMED}"
    using coord_reach_pending_inv [OF assms(1)] assms(3) by (auto simp: pending_inv_def)
  then have stuck: "status_moves i (Intent_CONFIRMED # ss) (co_intent_status c) i = Some Intent_CONFIRMED"
    if "Intent_PLANNING \<notin> set ss" for ss
  proof -
    have "status_moves i ss m i = Some Intent_CONFIRMED" if "m i = Some Intent_CONFIRMED" for m
      using that \<open>Intent_PLANNING \<notin> set ss\<close>
      by (induction ss arbitrary: m) (auto simp: status_move_def intent_live_simps)
    moreover have "status_move i Intent_CONFIRMED (co_intent_status c) i = Some Intent_CONFIRMED"
      using st by (auto simp: status_move_def intent_live_simps)
    ultimately show ?thesis by simp
  qed
  from assms(2) show ?thesis
  proof (cases rule: confirm_intentE)
    case (dropped pending' ss r')
    then have "ss = [Intent_CONFIRMED, Intent_REJECTED]" using assms(3-) by auto
    with dropped stuck [of "[Intent_REJECTED]"] show ?thesis by (simp add: changed_def)
  next
    case (submitted pending' market p c1)
    note s = stuck [of "[Intent_SUBMITTING, Intent_FAILED]"] stuck [of "[Intent_SUBMITTING, Intent_ACTIVE]"]
    from submitted(8) show ?thesis
      by (cases rule: submit_planE)
         (use submitted(7) s in \<open>auto simp: changed_def plain_response_def plan_response_status\<close>)
  qed (use assms(3) in auto)
qed

definition sample_amber :: "(unit \<times> intent_trade_plan list) coordinator" where
  "sample_amber = snd (submit_intent (sample_deps True) (sample_intent Action_OPEN_LONG) sample_ready)"

lemma sample_amber_reach: "coord_reach sample_amber"
  unfolding sample_amber_def
proof (rule reach_submit [OF _ _ prod.collapse [symmetric]])
  show "coord_reach sample_ready" unfolding sample_ready_def by (intro reach_readiness reach_init)
qed (simp add: sample_ready_fields)

lemma sample_amber_fields:
  "\<exists>p. co_pending sample_amber ''i1'' = Some (make_pending (sample_deps True) (sample_intent Action_OPEN_LONG) p)"
  "get_execution_snapshot (sample_deps False) sample_amber = get_execution_snapshot (sample_deps False) sample_ready"
  "co_router sample_amber = ((), [])"
proof -
  obtain p where p: "de_evaluate (sample_deps True) (sample_intent Action_OPEN_LONG)
      (sample_market\<lparr>mc_above_vwap := \<not> True\<rparr>) (get_account_snapshot (sample_deps True))
      (get_execution_snapshot (sample_deps True) sample_ready) = Inr p"
    "tp_decision p = Decision_APPROVED_WITH_MODIFICATIONS"
    using sample_deps_evaluate(2) by auto
  obtain c1 where act: "act_on_plan (sample_deps True) (sample_intent Action_OPEN_LONG) p c1
      = (fst (submit_intent (sample_deps True) (sample_intent Action_OPEN_LONG) sample_ready), sample_amber)"
    and c1: "co_router c1 = co_router sample_ready" "co_positions c1 = co_positions sample_ready"
      "co_working_orders c1 = co_working_orders sample_ready"
    unfolding sample_amber_def
    by (rule submit_intent_planned [OF sample_ready_fields(1) _ _ p(1) prod.collapse [symmetric]])
       (auto simp: sample_ready_fields sample_deps_market changed_def)
  from act p(2) c1 have "co_router sample_amber = co_router sample_ready \<and>
      co_positions sample_amber = co_positions sample_ready \<and>
      co_working_orders sample_amber = co_working_orders sample_ready \<and>
      (\<exists>p. co_pending sample_amber ''i1'' = Some (make_pending (sample_deps True) (sample_intent Action_OPEN_LONG) p))"
    by (cases rule: act_on_planE) (auto simp: changed_def)
  then show "\<exists>p. co_pending sample_amber ''i1'' = Some (make_pending (sample_deps True) (sample_intent Action_OPEN_LONG) p)"
    "get_execution_snapshot (sample_deps False) sample_amber = get_execution_snapshot (sample_deps False) sample_ready"
    "co_router sample_amber = ((), [])"
    by (auto simp: get_execution_snapshot_def sample_ready_def update_readiness_def coordinator_init_def)
qed

theorem pending_intents_await_confirmation_witness:
  "co_intent_status sample_amber ''i1'' \<in> {Some Intent_AWAITING_CONFIRMATION, Some Intent_CONFIRMED}"
  using pending_intents_await_confirmation [OF sample_amber_reach] sample_amber_fields(1) by blast

theorem status_stays_confirmed_witness:
  "co_intent_status (snd (confirm_intent (sample_deps False) ''i1'' sample_amber)) ''i1''
     = Some Intent_CONFIRMED"
proof -
  obtain p where p: "co_pending sample_amber ''i1''
      = Some (make_pending (sample_deps True) (sample_intent Action_OPEN_LONG) p)"
    using sample_amber_fields(1) by blast
  obtain r c' where conf: "confirm_intent (sample_deps False) ''i1'' sample_amber = (Inr r, c')"
    using sample_confirm_submits [OF p sample_amber_fields(2,3)] by blast
  have "\<not> pending_is_expired (sample_deps False) (make_pending (sample_deps True) i p)" for i
    unfolding pending_is_expired_def sample_expiry by (simp add: sample_deps_def)
  moreover have "\<not> ac_is_halted (get_account_snapshot (sample_deps False))"
    by (simp add: sample_deps_def get_account_snapshot_def sample_account_def)
  ultimately show ?thesis
    using status_stays_confirmed [OF sample_amber_reach conf p] by (simp add: conf sample_deps_market)
qed

end
