(* ===== verification/Projector.thy ===== *)
theory Projector
  imports Exec_Guards
begin

text \<open>
  The market state projector, \<^verbatim>\<open>src/alpha/engines/execution/projector.py\<close>: three event handlers
  fold the event stream into one market snapshot per instrument, identified by the instrument
  and a version counter. The feature engine's current bar snapshot and the outcome of parsing a
  market state are part of the event; the clock reading of a handler is a parameter. The
  protocol \<open>MarketStateStore\<close> of \<^verbatim>\<open>execution/interfaces.py\<close> is the locale \<open>market_state_store\<close>.
\<close>

section \<open>Decimal numerals\<close>

definition digit_char :: "nat \<Rightarrow> char" where
  "digit_char d = char_of (48 + d)"

fun show_nat :: "nat \<Rightarrow> string" where
  "show_nat n = (if n < 10 then [digit_char n] else show_nat (n div 10) @ [digit_char (n mod 10)])"

declare show_nat.simps [simp del]

definition read_nat :: "string \<Rightarrow> nat" where
  "read_nat s = foldl (\<lambda>n c. 10 * n + (of_char c - 48)) 0 s"

lemma of_char_digit: "d < 10 \<Longrightarrow> of_char (digit_char d) = 48 + d"
  by (simp add: digit_char_def)

lemma read_show_nat: "read_nat (show_nat n) = n"
proof (induction n rule: show_nat.induct)
  case (1 n)
  show ?case
  proof (cases "n < 10")
    case True
    then show ?thesis by (simp add: show_nat.simps [of n] read_nat_def of_char_digit)
  next
    case False
    then have "read_nat (show_nat n) = 10 * read_nat (show_nat (n div 10)) + n mod 10"
      by (simp add: show_nat.simps [of n] read_nat_def of_char_digit)
    with 1 False show ?thesis by simp
  qed
qed

lemma show_nat_inject [simp]: "show_nat m = show_nat n \<longleftrightarrow> m = n"
  by (metis read_show_nat)

section \<open>State and events\<close>

text \<open>The fields of the feature engine's bar snapshot that the projector reads.\<close>

record bar_view =
  bv_close :: dec
  bv_vwap :: dec
  bv_ema_9 :: "dec option"
  bv_ema_21 :: "dec option"
  bv_or_high :: "dec option"
  bv_or_low :: "dec option"
  bv_relative_volume :: "rat option"

datatype market_event =
  Market_state_event string timestamp "(trend_state \<times> day_type) option" "bar_view option"
| Bar_bundle_event string timestamp bar_timeframe dec
| Quote_event string dec dec

record projector =
  pj_max_freshness_ms :: int
  pj_snapshots :: "string \<rightharpoonup> market_context"
  pj_quotes :: "string \<rightharpoonup> dec \<times> dec"
  pj_version :: "string \<rightharpoonup> nat"

definition projector_init :: projector where
  "projector_init =
     \<lparr>pj_max_freshness_ms = 5000, pj_snapshots = Map.empty, pj_quotes = Map.empty,
      pj_version = Map.empty\<rparr>"

definition store_snapshot :: "projector \<Rightarrow> string \<Rightarrow> market_context option" where
  "store_snapshot pj i = pj_snapshots pj i"

definition latest_snapshot_id :: "projector \<Rightarrow> string \<Rightarrow> string option" where
  "latest_snapshot_id pj i =
     (case pj_snapshots pj i of None \<Rightarrow> None | Some snap \<Rightarrow> Some (mc_snapshot_id snap))"

definition snapshot_name :: "string \<Rightarrow> nat \<Rightarrow> string" where
  "snapshot_name i version = i @ ''-'' @ show_nat version"

section \<open>Handlers\<close>

definition on_market_state ::
  "timestamp \<Rightarrow> projector \<Rightarrow> string \<Rightarrow> timestamp \<Rightarrow> (trend_state \<times> day_type) option \<Rightarrow>
   bar_view option \<Rightarrow> projector" where
  "on_market_state now pj ticker event_timestamp parsed bar_snap =
     (case parsed of
        None \<Rightarrow> pj
      | Some (trend, day) \<Rightarrow>
          (let (bid, ask) = get_default (pj_quotes pj) ticker (0, 0);
               last_price = (case bar_snap of None \<Rightarrow> 0 | Some b \<Rightarrow> bv_close b);
               (bid, ask) = (if bid = 0 \<and> last_price > 0
                             then (last_price - 1/8, last_price + 1/8) else (bid, ask));
               vwap = (case bar_snap of None \<Rightarrow> 0 | Some b \<Rightarrow> bv_vwap b);
               above_vwap = (if vwap > 0 then last_price \<ge> vwap else False);
               version = get_default (pj_version pj) ticker 0 + 1;
               snap = \<lparr>mc_instrument_id = ticker, mc_snapshot_id = snapshot_name ticker version,
                 mc_as_of = now, mc_bar_timestamp = event_timestamp, mc_regime = trend,
                 mc_day_type = day, mc_last_price = last_price, mc_bid = bid, mc_ask = ask,
                 mc_vwap = vwap, mc_above_vwap = above_vwap, mc_bars_since_vwap_cross = 0,
                 mc_ema9 = Option.bind bar_snap bv_ema_9, mc_ema21 = Option.bind bar_snap bv_ema_21,
                 mc_opening_range_high = Option.bind bar_snap bv_or_high,
                 mc_opening_range_low = Option.bind bar_snap bv_or_low,
                 mc_rvol = Option.bind bar_snap bv_relative_volume, mc_signal_freshness_ms = 0,
                 mc_data_quality = Quality_CLEAN, mc_setup_scores = Map.empty\<rparr>
           in pj\<lparr>pj_version := (pj_version pj)(ticker \<mapsto> version),
                 pj_snapshots := (pj_snapshots pj)(ticker \<mapsto> snap)\<rparr>))"

definition on_bar_bundle ::
  "timestamp \<Rightarrow> projector \<Rightarrow> string \<Rightarrow> timestamp \<Rightarrow> bar_timeframe \<Rightarrow> dec \<Rightarrow> projector" where
  "on_bar_bundle now pj ticker event_timestamp timeframe close_price =
     (if timeframe \<noteq> TF_M1 then pj
      else case pj_snapshots pj ticker of
        None \<Rightarrow> pj
      | Some snap \<Rightarrow>
          (let (bid, ask) = get_default (pj_quotes pj) ticker (0, 0);
               (bid, ask) = (if bid = 0 then (close_price - 1/8, close_price + 1/8) else (bid, ask));
               version = get_default (pj_version pj) ticker 0 + 1;
               snap' = snap\<lparr>mc_snapshot_id := snapshot_name ticker version, mc_as_of := now,
                 mc_bar_timestamp := event_timestamp, mc_last_price := close_price,
                 mc_bid := bid, mc_ask := ask, mc_signal_freshness_ms := 0\<rparr>
           in pj\<lparr>pj_version := (pj_version pj)(ticker \<mapsto> version),
                 pj_snapshots := (pj_snapshots pj)(ticker \<mapsto> snap')\<rparr>))"

definition on_quote :: "timestamp \<Rightarrow> projector \<Rightarrow> string \<Rightarrow> dec \<Rightarrow> dec \<Rightarrow> projector" where
  "on_quote now pj ticker bid ask =
     (let pj = pj\<lparr>pj_quotes := (pj_quotes pj)(ticker \<mapsto> (bid, ask))\<rparr>
      in case pj_snapshots pj ticker of
           None \<Rightarrow> pj
         | Some snap \<Rightarrow>
             (let version = get_default (pj_version pj) ticker 0 + 1;
                  snap' = snap\<lparr>mc_snapshot_id := snapshot_name ticker version, mc_as_of := now,
                    mc_bid := bid, mc_ask := ask, mc_last_price := (bid + ask) / 2\<rparr>
              in pj\<lparr>pj_version := (pj_version pj)(ticker \<mapsto> version),
                    pj_snapshots := (pj_snapshots pj)(ticker \<mapsto> snap')\<rparr>))"

fun project :: "projector \<Rightarrow> timestamp \<times> market_event \<Rightarrow> projector" where
  "project pj (now, Market_state_event ticker t parsed bar_snap) = on_market_state now pj ticker t parsed bar_snap"
| "project pj (now, Bar_bundle_event ticker t timeframe c) = on_bar_bundle now pj ticker t timeframe c"
| "project pj (now, Quote_event ticker bid ask) = on_quote now pj ticker bid ask"

definition project_all :: "projector \<Rightarrow> (timestamp \<times> market_event) list \<Rightarrow> projector" where
  "project_all = foldl project"

definition freshness_ms :: "timestamp \<Rightarrow> projector \<Rightarrow> string \<Rightarrow> int" where
  "freshness_ms now pj i =
     (case pj_snapshots pj i of None \<Rightarrow> 999999 | Some snap \<Rightarrow> elapsed_ms now (mc_as_of snap))"

definition is_fresh :: "timestamp \<Rightarrow> projector \<Rightarrow> string \<Rightarrow> bool" where
  "is_fresh now pj i \<longleftrightarrow> freshness_ms now pj i \<le> pj_max_freshness_ms pj"

lemmas projector_defs = on_market_state_def on_bar_bundle_def on_quote_def Let_def

fun event_symbol :: "market_event \<Rightarrow> string" where
  "event_symbol (Market_state_event ticker _ _ _) = ticker"
| "event_symbol (Bar_bundle_event ticker _ _ _) = ticker"
| "event_symbol (Quote_event ticker _ _) = ticker"

section \<open>The store protocol\<close>

text \<open>
  What the coordinator relies on: a snapshot is named by its instrument and version, and the
  version grows whenever the snapshot changes. An identifier in an audit record then stands for
  one snapshot.
\<close>

locale market_state_store =
  fixes step :: "'s \<Rightarrow> 'e \<Rightarrow> 's"
    and snapshot :: "'s \<Rightarrow> 'i \<Rightarrow> 'm option"
    and ident :: "'m \<Rightarrow> 'n"
    and version :: "'s \<Rightarrow> 'i \<Rightarrow> nat"
    and wf :: "'s \<Rightarrow> bool"
    and name :: "'i \<Rightarrow> nat \<Rightarrow> 'n"
  assumes wf_step: "wf s \<Longrightarrow> wf (step s e)"
    and named: "wf s \<Longrightarrow> snapshot s i = Some m \<Longrightarrow> ident m = name i (version s i)"
    and version_step: "snapshot (step s e) i = snapshot s i \<and> version s i \<le> version (step s e) i
      \<and> version (step s e) i \<le> version s i \<or> version s i < version (step s e) i"
    and name_inject: "name i v = name i w \<Longrightarrow> v = w"
begin

lemma wf_run: "wf s \<Longrightarrow> wf (foldl step s es)"
  by (induction es arbitrary: s) (simp_all add: wf_step)

lemma version_mono: "version s i \<le> version (foldl step s es) i"
proof (induction es arbitrary: s)
  case (Cons e es)
  have "version s i \<le> version (step s e) i" using version_step [of s e i] by auto
  also have "\<dots> \<le> version (foldl step (step s e) es) i" by (rule Cons.IH)
  finally show ?case by simp
qed simp

lemma same_version_same_snapshot:
  "version (foldl step s es) i = version s i \<Longrightarrow> snapshot (foldl step s es) i = snapshot s i"
proof (induction es arbitrary: s)
  case (Cons e es)
  have "version s i \<le> version (step s e) i" "version (step s e) i \<le> version (foldl step (step s e) es) i"
    using version_step [of s e i] version_mono [of "step s e" i es] by auto
  with Cons.prems have v: "version (step s e) i = version s i"
    "version (foldl step (step s e) es) i = version (step s e) i" by auto
  with version_step [of s e i] Cons.IH [of "step s e"] show ?case by simp
qed simp

lemma identifier_determines_snapshot:
  assumes "wf s" "snapshot s i = Some m" "snapshot (foldl step s es) i = Some m'" "ident m = ident m'"
  shows "m = m'"
proof -
  have "name i (version s i) = name i (version (foldl step s es) i)"
    using named [OF assms(1,2)] named [OF wf_run [OF assms(1)] assms(3)] assms(4) by simp
  then have "version (foldl step s es) i = version s i" by (metis name_inject)
  from same_version_same_snapshot [OF this] assms(2,3) show ?thesis by simp
qed

end

text \<open>Every stored snapshot carries the name of the current version, and is marked as clean.\<close>

definition projector_ok :: "projector \<Rightarrow> bool" where
  "projector_ok pj \<longleftrightarrow>
     (\<forall>i m. pj_snapshots pj i = Some m \<longrightarrow>
        mc_instrument_id m = i \<and> mc_snapshot_id m = snapshot_name i (get_default (pj_version pj) i 0) \<and>
        mc_data_quality m = Quality_CLEAN \<and> mc_signal_freshness_ms m = 0)"

lemma projector_ok_init [simp]: "projector_ok projector_init"
  by (simp add: projector_ok_def projector_init_def)

lemma projector_ok_step: "projector_ok pj \<Longrightarrow> projector_ok (project pj e)"
  by (cases "(pj, e)" rule: project.cases)
     (auto simp: projector_ok_def projector_defs split: option.splits prod.splits if_splits)

interpretation projector_store: market_state_store project store_snapshot mc_snapshot_id
    "\<lambda>pj i. get_default (pj_version pj) i 0" projector_ok snapshot_name
proof
  show "projector_ok s \<Longrightarrow> projector_ok (project s e)" for s e by (rule projector_ok_step)
  show "projector_ok s \<Longrightarrow> store_snapshot s i = Some m \<Longrightarrow>
      mc_snapshot_id m = snapshot_name i (get_default (pj_version s) i 0)" for s i m
    by (auto simp: projector_ok_def store_snapshot_def)
  show "store_snapshot (project s e) i = store_snapshot s i \<and>
      get_default (pj_version s) i 0 \<le> get_default (pj_version (project s e)) i 0 \<and>
      get_default (pj_version (project s e)) i 0 \<le> get_default (pj_version s) i 0 \<or>
      get_default (pj_version s) i 0 < get_default (pj_version (project s e)) i 0" for s e i
    by (cases "(s, e)" rule: project.cases)
       (auto simp: store_snapshot_def projector_defs split: option.splits prod.splits if_splits)
  show "snapshot_name i v = snapshot_name i w \<Longrightarrow> v = w" for i v w
    by (simp add: snapshot_name_def)
qed

text \<open>
  The snapshot identifier kept in a plan or an audit record determines what the evaluator saw: two
  snapshots of one instrument that were current at different points of the event stream and
  carry the same identifier are equal in every field.
\<close>

theorem snapshot_id_determines_snapshot:
  assumes "store_snapshot (project_all projector_init es) i = Some m"
    and "store_snapshot (project_all projector_init (es @ es')) i = Some m'"
    and "mc_snapshot_id m = mc_snapshot_id m'"
  shows "m = m'"
  using projector_store.identifier_determines_snapshot [OF projector_store.wf_run [OF projector_ok_init] assms(1)
    [unfolded project_all_def], of es' m'] assms(2,3) by (simp add: project_all_def)

theorem snapshot_id_determines_snapshot_witness:
  "the (store_snapshot (project_all projector_init
     [(0, Market_state_event ''MNQ'' 0 (Some (Trend_UNKNOWN, Day_UNKNOWN)) None)]) ''MNQ'')
   = the (store_snapshot (project_all projector_init
     ([(0, Market_state_event ''MNQ'' 0 (Some (Trend_UNKNOWN, Day_UNKNOWN)) None)]
       @ [(1, Bar_bundle_event ''MNQ'' 1 TF_M5 20000)])) ''MNQ'')"
  by (rule snapshot_id_determines_snapshot
        [of "[(0, Market_state_event ''MNQ'' 0 (Some (Trend_UNKNOWN, Day_UNKNOWN)) None)]" "''MNQ''" _
            "[(1, Bar_bundle_event ''MNQ'' 1 TF_M5 20000)]"])
     (simp_all add: project_all_def projector_init_def store_snapshot_def projector_defs)

section \<open>Quotes and data quality\<close>

text \<open>
  The projector never reports bad data: every snapshot it serves, after any events, is marked
  \<open>CLEAN\<close> with a signal age of zero, so that the evaluator's checks for failed or degraded market
  data cannot fire on it, however old the snapshot is.
\<close>

theorem projected_data_is_always_clean:
  assumes "store_snapshot (project_all projector_init es) i = Some m"
  shows "mc_data_quality m = Quality_CLEAN \<and> mc_signal_freshness_ms m = 0 \<and> mc_is_data_reliable m"
  using projector_store.wf_run [OF projector_ok_init, of es] assms
  by (auto simp: projector_ok_def store_snapshot_def project_all_def mc_is_data_reliable_def)

theorem projected_data_is_always_clean_witness:
  "mc_is_data_reliable (the (store_snapshot (project_all projector_init
     [(0, Market_state_event ''MNQ'' 0 (Some (Trend_UNKNOWN, Day_UNKNOWN)) None)]) ''MNQ''))"
  by (rule projected_data_is_always_clean [where i = "''MNQ''" and
        es = "[(0, Market_state_event ''MNQ'' 0 (Some (Trend_UNKNOWN, Day_UNKNOWN)) None)]", THEN conjunct2, THEN conjunct2])
     (simp add: project_all_def projector_init_def store_snapshot_def projector_defs)

text \<open>The last quote of an instrument, in the order of the events.\<close>

definition last_quote :: "(timestamp \<times> market_event) list \<Rightarrow> string \<Rightarrow> (dec \<times> dec) option" where
  "last_quote es i =
     foldl (\<lambda>q e. case snd e of Quote_event s b a \<Rightarrow> if s = i then Some (b, a) else q | _ \<Rightarrow> q) None es"

lemma last_quote_snoc [simp]:
  "last_quote [] i = None"
  "last_quote (es @ [e]) i =
     (case snd e of Quote_event s b a \<Rightarrow> if s = i then Some (b, a) else last_quote es i
      | _ \<Rightarrow> last_quote es i)"
  by (auto simp: last_quote_def split: market_event.split)

lemma projected_quotes: "pj_quotes (project_all projector_init es) = last_quote es"
proof (induction es rule: rev_induct)
  case (snoc e es)
  have "pj_quotes (project pj e) = (case snd e of Quote_event s b a \<Rightarrow> (pj_quotes pj)(s \<mapsto> (b, a))
      | _ \<Rightarrow> pj_quotes pj)" for pj
    by (cases "(pj, e)" rule: project.cases) (auto simp: projector_defs split: option.splits prod.splits)
  with snoc show ?case
    by (auto simp: project_all_def fun_eq_iff split: market_event.split)
qed (simp add: project_all_def projector_init_def fun_eq_iff)

definition quotes_shown :: "projector \<Rightarrow> bool" where
  "quotes_shown pj \<longleftrightarrow>
     (\<forall>i m b a. pj_snapshots pj i = Some m \<and> pj_quotes pj i = Some (b, a) \<and> b \<noteq> 0 \<longrightarrow>
        mc_bid m = b \<and> mc_ask m = a)"

lemma quotes_shown_step: "quotes_shown pj \<Longrightarrow> quotes_shown (project pj e)"
  by (cases "(pj, e)" rule: project.cases)
     (auto simp: quotes_shown_def projector_defs get_default_def split: option.splits prod.splits if_splits)

text \<open>
  The prices an intent is evaluated against are those of the feed: whenever an instrument has a snapshot
  and was ever quoted with a non-zero bid, the snapshot's bid and ask are those of its last
  quote, however many bars and market states came in between.
\<close>

theorem snapshot_prices_are_last_quote:
  assumes "store_snapshot (project_all projector_init es) i = Some m"
    and "last_quote es i = Some (b, a)" "b \<noteq> 0"
  shows "mc_bid m = b \<and> mc_ask m = a"
proof -
  have "quotes_shown projector_init" by (simp add: quotes_shown_def projector_init_def)
  then have "quotes_shown (project_all projector_init es)"
    unfolding project_all_def
    by (rule foldl_invariant [where I = quotes_shown, rotated]) (rule quotes_shown_step)
  with assms show ?thesis by (auto simp: quotes_shown_def store_snapshot_def projected_quotes)
qed

theorem snapshot_prices_are_last_quote_witness:
  "mc_ask (the (store_snapshot (project_all projector_init
     [(0, Quote_event ''MNQ'' 20000 20001),
      (1, Market_state_event ''MNQ'' 0 (Some (Trend_UNKNOWN, Day_UNKNOWN)) None)]) ''MNQ'')) = 20001"
  by (rule snapshot_prices_are_last_quote [where i = "''MNQ''" and b = 20000 and
        es = "[(0, Quote_event ''MNQ'' 20000 20001),
          (1, Market_state_event ''MNQ'' 0 (Some (Trend_UNKNOWN, Day_UNKNOWN)) None)]", THEN conjunct2])
     (simp_all add: project_all_def projector_init_def store_snapshot_def projector_defs last_quote_def)

end
