(* ===== verification/Exec_System.thy ===== *)
theory Exec_System
  imports Coord_Runs Paper_Router Projector
begin

text \<open>
  The execution subsystem as \<^verbatim>\<open>wire_execution\<close> in \<^verbatim>\<open>src/alpha/engines/bootstrap/wiring.py\<close>
  puts it together: the coordinator with the V1 evaluator and the paper router, whose callbacks
  are the coordinator's handlers. What the coordinator needs of an evaluator to keep the exposure
  bounded is the locale \<open>bounded_evaluator\<close>, interpreted on the V1 evaluator.
\<close>

section \<open>Exposure seen by the evaluator\<close>

definition signed_exposure :: "(string \<rightharpoonup> dec) \<Rightarrow> working_order list \<Rightarrow> string \<Rightarrow> dec" where
  "signed_exposure positions working i =
     get_default positions i 0 +
     sum_list (map wo_signed_quantity [w \<leftarrow> working. wo_instrument_id w = i \<and> wo_role w = Role_ENTRY])"

definition co_exposure :: "'r coordinator \<Rightarrow> string \<Rightarrow> dec" where
  "co_exposure c i = signed_exposure (co_positions c) (co_working_orders c) i"

lemma snapshot_exposure:
  "es_effective_exposure es i = signed_exposure (es_positions es) (es_working_orders es) i"
  by (simp add: es_effective_exposure_def signed_exposure_def Let_def)

lemma exposure_of_snapshot:
  "es_effective_exposure (get_execution_snapshot d c) i = co_exposure c i"
  by (simp add: snapshot_exposure co_exposure_def get_execution_snapshot_def)

lemma signed_exposure_append_other:
  "\<forall>w \<in> set ws. wo_instrument_id w \<noteq> i \<Longrightarrow>
   signed_exposure positions (working @ ws) i = signed_exposure positions working i"
  by (simp add: signed_exposure_def filter_empty_conv)

locale bounded_evaluator =
  fixes evals :: "(trade_intent \<Rightarrow> market_context \<Rightarrow> account_snapshot \<Rightarrow> execution_snapshot \<Rightarrow>
      exec_error + intent_trade_plan) set"
    and limit :: dec
    and ok :: "trade_intent \<Rightarrow> bool"
  assumes entry_within_limit:
    "ev \<in> evals \<Longrightarrow> ok intent \<Longrightarrow> ev intent m a es = Inr p \<Longrightarrow> tp_decision p \<noteq> Decision_REJECTED \<Longrightarrow>
     \<bar>signed_exposure (es_positions es) (es_working_orders es @ entry_working intent p)
        (ti_instrument_id intent)\<bar> \<le> limit"
begin

definition within_limit :: "string set \<Rightarrow> 'r coordinator \<Rightarrow> bool" where
  "within_limit I c \<longleftrightarrow> (\<forall>i \<in> I. \<bar>co_exposure c i\<bar> \<le> limit) \<and>
     (\<forall>i p. co_pending c i = Some p \<longrightarrow> ok (pi_intent p))"

lemma within_limit_same:
  assumes "within_limit I c" "co_positions c' = co_positions c" "co_working_orders c' = co_working_orders c"
    and "\<And>i p. co_pending c' i = Some p \<Longrightarrow> ok (pi_intent p)"
  shows "within_limit I c'"
  using assms by (auto simp: within_limit_def co_exposure_def)

lemma within_limit_submit_plan:
  assumes inv: "within_limit I c"
    and ev: "\<bar>signed_exposure (co_positions c) (co_working_orders c @ entry_working intent p)
        (ti_instrument_id intent)\<bar> \<le> limit"
    and sp: "submit_plan d i intent p c = (res, c')"
  shows "within_limit I c'"
  using sp
proof (cases rule: submit_planE)
  case (failed exc rt)
  then show ?thesis using inv by (intro within_limit_same [OF inv]) (auto simp: changed_def within_limit_def)
next
  case (active ids rt)
  have own: "wo_instrument_id w = ti_instrument_id intent" if "w \<in> set (entry_working intent p)" for w
    using that by (auto simp: entry_working_def split: option.splits)
  have "\<bar>co_exposure c' j\<bar> \<le> limit" if "j \<in> I" for j
  proof (cases "j = ti_instrument_id intent")
    case True
    with active ev show ?thesis by (simp add: co_exposure_def changed_def)
  next
    case False
    with own have "\<forall>w \<in> set (entry_working intent p). wo_instrument_id w \<noteq> j" by auto
    with active inv that show ?thesis
      by (simp add: co_exposure_def changed_def within_limit_def signed_exposure_append_other)
  qed
  moreover have "co_pending c' = co_pending c" using active by (simp add: changed_def)
  ultimately show ?thesis using inv by (simp add: within_limit_def)
qed

lemma within_limit_submit:
  assumes inv: "within_limit I c" and d: "de_evaluate d \<in> evals" and ok: "ok intent"
    and sub: "submit_intent d intent c = (res, c')"
  shows "within_limit I c'"
  using sub
proof (cases rule: submit_intentE)
  case (submitted market p c1)
  have c1: "within_limit I c1"
    by (rule within_limit_same [OF inv]) (use submitted(6) inv in \<open>auto simp: changed_def within_limit_def\<close>)
  have "\<bar>signed_exposure (co_positions c1) (co_working_orders c1 @ entry_working intent p)
      (ti_instrument_id intent)\<bar> \<le> limit"
    using entry_within_limit [OF d ok submitted(4)] submitted(5,6)
    by (simp add: get_execution_snapshot_def changed_def)
  from within_limit_submit_plan [OF c1 this submitted(7)] show ?thesis .
next
  case refused
  then show ?thesis using inv by (intro within_limit_same [OF inv]) (auto simp: changed_def within_limit_def)
next
  case (stopped ss)
  then show ?thesis using inv by (intro within_limit_same [OF inv]) (auto simp: changed_def within_limit_def)
next
  case (pended market p)
  then show ?thesis using inv ok
    by (intro within_limit_same [OF inv])
       (auto simp: changed_def within_limit_def make_pending_def split: if_splits)
qed

lemma within_limit_confirm:
  assumes inv: "within_limit I c" and d: "de_evaluate d \<in> evals"
    and conf: "confirm_intent d i c = (res, c')"
  shows "within_limit I c'"
  using conf
proof (cases rule: confirm_intentE)
  case (submitted pending market p c1)
  have ok: "ok (pi_intent pending)" using inv submitted(1) by (auto simp: within_limit_def)
  have c1: "within_limit I c1"
    by (rule within_limit_same [OF inv])
       (use submitted(7) inv in \<open>auto simp: changed_def within_limit_def split: if_splits\<close>)
  have "\<bar>signed_exposure (co_positions c1) (co_working_orders c1 @ entry_working (pi_intent pending) p)
      (ti_instrument_id (pi_intent pending))\<bar> \<le> limit"
    using entry_within_limit [OF d ok submitted(5)] submitted(6,7)
    by (simp add: get_execution_snapshot_def changed_def)
  from within_limit_submit_plan [OF c1 this submitted(8)] show ?thesis .
next
  case (dropped pending ss r)
  then show ?thesis using inv
    by (intro within_limit_same [OF inv]) (auto simp: changed_def within_limit_def split: if_splits)
next
  case (raised exc pending)
  then show ?thesis using inv by (intro within_limit_same [OF inv]) (auto simp: changed_def within_limit_def)
qed (use inv in simp)

lemma within_limit_cancel:
  assumes inv: "within_limit I c" and "cancel_intent d i c = (r, c')"
  shows "within_limit I c'"
  using assms(2)
proof (cases rule: cancel_intentE)
  case (cancelled pending)
  then show ?thesis using inv
    by (intro within_limit_same [OF inv]) (auto simp: changed_def within_limit_def split: if_splits)
qed (use inv in simp)

end

text \<open>Orders of the models draw their identifiers as \<open>ro-\<close> and hexadecimal digits.\<close>

definition v1_evaluators ::
  "v1_config \<Rightarrow> (trade_intent \<Rightarrow> market_context \<Rightarrow> account_snapshot \<Rightarrow> execution_snapshot \<Rightarrow>
     exec_error + intent_trade_plan) set" where
  "v1_evaluators cfg = {v1_evaluate cfg ids now |ids now. prefix ''ro-'' (fi_entry_id ids)}"

definition opening_intent :: "trade_intent \<Rightarrow> bool" where
  "opening_intent intent \<longleftrightarrow> ti_action intent \<noteq> Action_FLATTEN \<and> 0 \<le> ti_quantity intent"

lemma entry_working_exposure:
  "tp_entry_order p = Some e \<Longrightarrow>
   signed_exposure positions (working @ entry_working intent p) (ti_instrument_id intent)
   = signed_exposure positions working (ti_instrument_id intent)
     + (if po_side e = Side_BUY then po_quantity e else - po_quantity e)"
  by (simp add: signed_exposure_def entry_working_def wo_signed_quantity_def)

interpretation v1: bounded_evaluator "v1_evaluators cfg" "of_int (vc_max_contracts cfg)" opening_intent
  for cfg
proof
  fix ev intent m a es p
  assume "ev \<in> v1_evaluators cfg" and ok: "opening_intent intent" and "ev intent m a es = Inr p"
    and dec: "tp_decision p \<noteq> Decision_REJECTED"
  then obtain ids now where ev: "v1_evaluate cfg ids now intent m a es = Inr p"
    by (auto simp: v1_evaluators_def)
  from ev show "\<bar>signed_exposure (es_positions es) (es_working_orders es @ entry_working intent p)
      (ti_instrument_id intent)\<bar> \<le> of_int (vc_max_contracts cfg)"
  proof (cases rule: v1_evaluateE)
    case (approved side e)
    then have "\<not> v1_hard_condition cfg intent m a es" by (simp flip: v1_hard_checks_iff)
    then have "\<bar>signed_exposure (es_positions es) (es_working_orders es) (ti_instrument_id intent)\<bar>
        + ti_quantity intent \<le> of_int (vc_max_contracts cfg)"
      using ok by (auto simp: v1_hard_condition_def opening_intent_def snapshot_exposure)
    moreover have "tp_entry_order p = Some (v1_entry_order ids intent side e)"
      by (simp add: approved)
    ultimately show ?thesis using ok
      by (auto simp: entry_working_exposure v1_entry_order_def opening_intent_def abs_le_iff)
  qed (use dec in simp)
qed

section \<open>The wired system\<close>

definition notify :: "'r coordinator \<Rightarrow> notification \<Rightarrow> 'r coordinator" where
  "notify c n = (case n of Order_update u \<Rightarrow> on_order_update u c | Fill_event f \<Rightarrow> on_fill f c)"

definition system_resume :: "task_env \<Rightarrow> nat \<Rightarrow> paper_router coordinator \<Rightarrow> paper_router coordinator" where
  "system_resume env i c =
     (case resume env (co_router c) i of (r, out) \<Rightarrow> foldl notify (c\<lparr>co_router := r\<rparr>) out)"

definition wire_readiness :: "'r coordinator \<Rightarrow> 'r coordinator" where
  "wire_readiness c = update_readiness
     [''broker_connected'' \<mapsto> True, ''positions_reconciled'' \<mapsto> True, ''orders_reconciled'' \<mapsto> True,
      ''executions_reconciled'' \<mapsto> True, ''account_state_loaded'' \<mapsto> True] c"

definition wire_execution :: "paper_router coordinator" where
  "wire_execution = wire_readiness (coordinator_init (paper_init 50))"

definition v1_paper_deps :: "v1_config \<Rightarrow> paper_router deps \<Rightarrow> bool" where
  "v1_paper_deps cfg d \<longleftrightarrow> de_evaluate d \<in> v1_evaluators cfg \<and> de_submit_bracket d = submit_bracket"

text \<open>
  Reachable states of the wired system, for intents of a given kind. The identifiers of orders
  made by the router are UUIDs, which do not start with \<open>ro-\<close>.
\<close>

inductive sys_reach :: "v1_config \<Rightarrow> (trade_intent \<Rightarrow> bool) \<Rightarrow> paper_router coordinator \<Rightarrow> bool"
  for cfg and kind where
  sys_init: "sys_reach cfg kind wire_execution"
| sys_readiness: "sys_reach cfg kind c \<Longrightarrow> sys_reach cfg kind (update_readiness kwargs c)"
| sys_submit: "sys_reach cfg kind c \<Longrightarrow> v1_paper_deps cfg d \<Longrightarrow> kind intent \<Longrightarrow>
    submit_intent d intent c = (res, c') \<Longrightarrow> sys_reach cfg kind c'"
| sys_confirm: "sys_reach cfg kind c \<Longrightarrow> v1_paper_deps cfg d \<Longrightarrow>
    confirm_intent d i c = (res, c') \<Longrightarrow> sys_reach cfg kind c'"
| sys_cancel: "sys_reach cfg kind c \<Longrightarrow> cancel_intent d i c = (resp, c') \<Longrightarrow> sys_reach cfg kind c'"
| sys_resume: "sys_reach cfg kind c \<Longrightarrow> \<not> prefix ''ro-'' (te_order_id env) \<Longrightarrow>
    sys_reach cfg kind (system_resume env i c)"

text \<open>Every entry order is called \<open>ro-...\<close>, and no order the router made is.\<close>

fun task_ok :: "paper_task \<Rightarrow> bool" where
  "task_ok (Entry_created p) \<longleftrightarrow> (\<forall>e. tp_entry_order p = Some e \<longrightarrow> prefix ''ro-'' (po_runtime_order_id e))"
| "task_ok (Entry_sleeping p e price) \<longleftrightarrow> prefix ''ro-'' (po_runtime_order_id e)"
| "task_ok (Entry_accepted p e price a) \<longleftrightarrow> prefix ''ro-'' (po_runtime_order_id e) \<and>
     \<not> prefix ''ro-'' (or_order_id a)"
| "task_ok (Child_created s) \<longleftrightarrow> True"
| "task_ok (Child_sleeping s) \<longleftrightarrow> True"

definition names_ok :: "paper_router coordinator \<Rightarrow> bool" where
  "names_ok c \<longleftrightarrow> (\<forall>t \<in> set (pr_tasks (co_router c)). task_ok t) \<and>
     (\<forall>w \<in> set (co_working_orders c). prefix ''ro-'' (wo_runtime_order_id w)) \<and>
     dom (co_positions c) \<subseteq> {''ro''}"

lemma fill_symbol_ro: "prefix ''ro-'' roid \<Longrightarrow> fill_symbol roid = ''ro''"
  by (auto simp: fill_symbol_def prefix_def)

definition notification_ok :: "notification \<Rightarrow> bool" where
  "notification_ok n \<longleftrightarrow>
     (case n of Order_update u \<Rightarrow> \<not> prefix ''ro-'' (or_order_id u)
      | Fill_event f \<Rightarrow> \<not> prefix ''ro-'' (ex_order_id f) \<and> ex_symbol f = ''ro'')"

lemma run_task_ok:
  assumes "task_ok t" "\<not> prefix ''ro-'' (te_order_id env)" "run_task env r t = (r', out, next')"
  shows "(\<forall>n \<in> set out. notification_ok n) \<and> (\<forall>t \<in> set next'. task_ok t) \<and> pr_tasks r' = pr_tasks r"
  using assms
  by (cases t)
     (auto simp: Let_def notification_ok_def make_order_def fill_symbol_ro split: option.splits if_splits)

lemma filter_ro:
  "\<forall>w \<in> set ws. prefix ''ro-'' (wo_runtime_order_id w) \<Longrightarrow> \<not> prefix ''ro-'' x \<Longrightarrow>
   [w \<leftarrow> ws. wo_runtime_order_id w \<noteq> x] = ws"
  by (auto simp: filter_id_conv)

lemma notify_ok:
  assumes "\<forall>w \<in> set (co_working_orders c). prefix ''ro-'' (wo_runtime_order_id w)" "notification_ok n"
  shows "co_working_orders (notify c n) = co_working_orders c \<and>
     (\<forall>i. i \<noteq> ''ro'' \<longrightarrow> co_positions (notify c n) i = co_positions c i) \<and>
     co_pending (notify c n) = co_pending c \<and> co_router (notify c n) = co_router c"
  using assms
  by (auto simp: notify_def notification_ok_def on_fill_def on_order_update_def Let_def filter_ro
      split: notification.splits)

lemma notify_all_ok:
  assumes "\<forall>w \<in> set (co_working_orders c). prefix ''ro-'' (wo_runtime_order_id w)"
    and "\<forall>n \<in> set out. notification_ok n"
  shows "co_working_orders (foldl notify c out) = co_working_orders c \<and>
     (\<forall>i. i \<noteq> ''ro'' \<longrightarrow> co_positions (foldl notify c out) i = co_positions c i) \<and>
     co_pending (foldl notify c out) = co_pending c \<and> co_router (foldl notify c out) = co_router c"
  using assms
proof (induction out arbitrary: c)
  case (Cons n out)
  note n = notify_ok [OF Cons.prems(1), of n]
  have "co_working_orders (foldl notify (notify c n) out) = co_working_orders (notify c n) \<and>
     (\<forall>i. i \<noteq> ''ro'' \<longrightarrow> co_positions (foldl notify (notify c n) out) i = co_positions (notify c n) i) \<and>
     co_pending (foldl notify (notify c n) out) = co_pending (notify c n) \<and>
     co_router (foldl notify (notify c n) out) = co_router (notify c n)"
    by (rule Cons.IH) (use n Cons.prems in auto)
  with n Cons.prems(2) show ?case by simp
qed simp

lemma system_resume_ok:
  assumes "names_ok c" "\<not> prefix ''ro-'' (te_order_id env)"
  shows "names_ok (system_resume env i c) \<and>
     co_working_orders (system_resume env i c) = co_working_orders c \<and>
     (\<forall>i'. i' \<noteq> ''ro'' \<longrightarrow> co_positions (system_resume env i c) i' = co_positions c i') \<and>
     co_pending (system_resume env i c) = co_pending c"
proof -
  obtain r out where res: "resume env (co_router c) i = (r, out)" by force
  have "(\<forall>n \<in> set out. notification_ok n) \<and> (\<forall>t \<in> set (pr_tasks r). task_ok t)"
  proof (cases "i < length (pr_tasks (co_router c))")
    case True
    obtain r1 out1 next' where t: "run_task env (co_router c) (pr_tasks (co_router c) ! i) = (r1, out1, next')"
      by (metis prod_cases3)
    have "task_ok (pr_tasks (co_router c) ! i)" using assms(1) True by (auto simp: names_ok_def)
    from run_task_ok [OF this assms(2) t] res True assms(1) show ?thesis
      by (auto simp: resume_def t Let_def names_ok_def dest!: in_set_takeD in_set_dropD)
  qed (use res assms(1) in \<open>auto simp: resume_def names_ok_def\<close>)
  moreover from notify_all_ok [of "c\<lparr>co_router := r\<rparr>" out] calculation assms(1)
  have "co_working_orders (foldl notify (c\<lparr>co_router := r\<rparr>) out) = co_working_orders c \<and>
     (\<forall>i. i \<noteq> ''ro'' \<longrightarrow> co_positions (foldl notify (c\<lparr>co_router := r\<rparr>) out) i = co_positions c i) \<and>
     co_pending (foldl notify (c\<lparr>co_router := r\<rparr>) out) = co_pending c \<and>
     co_router (foldl notify (c\<lparr>co_router := r\<rparr>) out) = r"
    by (simp add: names_ok_def)
  ultimately show ?thesis using assms(1)
    by (auto simp: system_resume_def res names_ok_def) (metis domI domIff singletonD subsetD)
qed

lemma submit_plan_names:
  assumes "names_ok c" "de_submit_bracket d = submit_bracket" "submit_plan d i intent p c = (res, c')"
    and "\<forall>e. tp_entry_order p = Some e \<longrightarrow> prefix ''ro-'' (po_runtime_order_id e)"
  shows "names_ok c'"
  using assms(3)
proof (cases rule: submit_planE)
  case (failed exc rt)
  then show ?thesis using assms
    by (auto simp: submit_bracket_def Let_def split: option.splits)
next
  case (active ids rt)
  have "\<forall>t \<in> set (pr_tasks rt). task_ok t"
    using active(1) assms(1,2,4)
    by (auto simp: submit_bracket_def Let_def names_ok_def split: option.splits)
  with active assms(1,4) show ?thesis
    by (auto simp: names_ok_def changed_def entry_working_def split: option.splits)
qed

lemma v1_entry_names:
  assumes "ev \<in> v1_evaluators cfg" "ev intent m a es = Inr p" "tp_entry_order p = Some e"
  shows "prefix ''ro-'' (po_runtime_order_id e)"
proof -
  obtain ids now where ids: "prefix ''ro-'' (fi_entry_id ids)"
    and ev: "v1_evaluate cfg ids now intent m a es = Inr p"
    using assms(1,2) by (auto simp: v1_evaluators_def)
  from ev show ?thesis
    by (cases rule: v1_evaluateE)
       (use assms(3) ids in \<open>auto simp: v1_rejected_plan_def v1_entry_order_def\<close>)
qed

lemma names_ok_keep:
  "names_ok c \<Longrightarrow> co_router c' = co_router c \<Longrightarrow> co_working_orders c' = co_working_orders c \<Longrightarrow>
   co_positions c' = co_positions c \<Longrightarrow> names_ok c'"
  by (simp add: names_ok_def)

lemma names_ok_submit:
  assumes inv: "names_ok c" and d: "v1_paper_deps cfg d" and sub: "submit_intent d intent c = (res, c')"
  shows "names_ok c'"
  using sub
proof (cases rule: submit_intentE)
  case (submitted market p c1)
  have "names_ok c1" using submitted(6) by (intro names_ok_keep [OF inv]) (auto simp: changed_def)
  then show ?thesis
    using d v1_entry_names submitted(4)
    by (intro submit_plan_names [OF _ _ submitted(7)]) (auto simp: v1_paper_deps_def)
qed (intro names_ok_keep [OF inv]; auto simp: changed_def)+

lemma names_ok_confirm:
  assumes inv: "names_ok c" and d: "v1_paper_deps cfg d" and conf: "confirm_intent d i c = (res, c')"
  shows "names_ok c'"
  using conf
proof (cases rule: confirm_intentE)
  case (submitted pending market p c1)
  have "names_ok c1" using submitted(7) by (intro names_ok_keep [OF inv]) (auto simp: changed_def)
  then show ?thesis
    using d v1_entry_names submitted(5)
    by (intro submit_plan_names [OF _ _ submitted(8)]) (auto simp: v1_paper_deps_def)
qed (intro names_ok_keep [OF inv]; auto simp: changed_def)+

lemma sys_reach_names: "sys_reach cfg kind c \<Longrightarrow> names_ok c"
proof (induction rule: sys_reach.induct)
  case sys_init
  show ?case
    by (simp add: names_ok_def wire_execution_def wire_readiness_def coordinator_init_def paper_init_def)
next
  case (sys_readiness c kwargs)
  then show ?case by (intro names_ok_keep [OF sys_readiness.IH]) simp_all
next
  case (sys_cancel c d i resp c')
  from sys_cancel.hyps(2) show ?case
    by (cases rule: cancel_intentE) (intro names_ok_keep [OF sys_cancel.IH]; auto simp: changed_def)+
next
  case (sys_resume c env i)
  then show ?case using system_resume_ok by blast
qed (blast intro: names_ok_submit names_ok_confirm)+

text \<open>
  The fills of the paper broker never reach the position of the instrument they belong to: the
  router names the fill after the part of the order identifier before its first dash, which is
  \<open>ro\<close>, and the handler compares order identifiers of two different kinds. Over every run of the
  wired system no other position is ever recorded, and no working order is ever removed by a
  notification.
\<close>

theorem fills_never_reach_instrument_position:
  assumes "sys_reach cfg kind c" "i \<noteq> ''ro''"
  shows "co_positions c i = None \<and>
     (\<not> prefix ''ro-'' (te_order_id env) \<longrightarrow>
       co_working_orders (system_resume env n c) = co_working_orders c)"
  using sys_reach_names [OF assms(1)] assms(2) system_resume_ok [of c env n]
  by (auto simp: names_ok_def)

lemma sys_reach_exposure:
  assumes "0 \<le> vc_max_contracts cfg"
  shows "sys_reach cfg opening_intent c \<Longrightarrow> v1.within_limit cfg (- {''ro''}) c"
proof (induction rule: sys_reach.induct)
  case sys_init
  show ?case using assms
    by (simp add: v1.within_limit_def wire_execution_def wire_readiness_def coordinator_init_def
        co_exposure_def signed_exposure_def)
next
  case (sys_readiness c kwargs)
  then show ?case by (intro v1.within_limit_same [OF sys_readiness.IH]) (auto simp: v1.within_limit_def)
next
  case (sys_submit c d intent res c')
  then show ?case by (intro v1.within_limit_submit [OF sys_submit.IH]) (auto simp: v1_paper_deps_def)
next
  case (sys_confirm c d i res c')
  then show ?case by (intro v1.within_limit_confirm [OF sys_confirm.IH]) (auto simp: v1_paper_deps_def)
next
  case (sys_cancel c d i resp c')
  then show ?case by (intro v1.within_limit_cancel [OF sys_cancel.IH])
next
  case (sys_resume c env i)
  with system_resume_ok [OF sys_reach_names [OF sys_resume.hyps(1)] sys_resume.hyps(2), of i]
  show ?case by (auto simp: v1.within_limit_def co_exposure_def signed_exposure_def get_default_def)
qed

text \<open>
  C2. Exposure stays bounded end to end: over every run of the wired system in which the user only opens
  positions, through submissions, confirmations of amber plans, cancellations and the simulated
  fills in any order, the effective exposure of every traded instrument stays within the
  configured number of contracts on both sides.
\<close>

theorem wired_exposure_bounded:
  assumes "sys_reach cfg opening_intent c" "0 \<le> vc_max_contracts cfg" "i \<noteq> ''ro''"
  shows "\<bar>co_exposure c i\<bar> \<le> of_int (vc_max_contracts cfg)"
  using sys_reach_exposure [OF assms(2,1)] assms(3) by (auto simp: v1.within_limit_def)

section \<open>A sample run\<close>

definition sample_paper_deps :: "paper_router deps" where
  "sample_paper_deps =
     \<lparr>de_market = (\<lambda>_. Some sample_market), de_account_state = None,
      de_evaluate = v1_evaluate sample_config sample_ids 0, de_submit_bracket = submit_bracket,
      de_now = 0, de_now_later = 0, de_monotonic = 0, de_clock_id = ''0''\<rparr>"

definition sample_system :: "paper_router coordinator" where
  "sample_system = snd (submit_intent sample_paper_deps (sample_intent Action_OPEN_LONG)
     (update_readiness [''market_data_fresh'' \<mapsto> True] wire_execution))"

lemma sample_system_reach: "sys_reach sample_config opening_intent sample_system"
  unfolding sample_system_def
proof (rule sys_submit [OF _ _ _ prod.collapse [symmetric]])
  show "v1_paper_deps sample_config sample_paper_deps"
    by (auto simp: v1_paper_deps_def sample_paper_deps_def v1_evaluators_def sample_ids_def
        intro!: exI [of _ sample_ids])
  show "opening_intent (sample_intent Action_OPEN_LONG)"
    by (simp add: opening_intent_def sample_intent_def)
qed (intro sys_readiness sys_init)

theorem fills_never_reach_instrument_position_witness:
  "co_positions (system_resume sample_env 0 sample_system) ''MNQ'' = None"
  using fills_never_reach_instrument_position [OF sys_resume [OF sample_system_reach], of sample_env "''MNQ''"]
  by (simp add: sample_env_def)

theorem wired_exposure_bounded_witness: "\<bar>co_exposure sample_system ''MNQ''\<bar> \<le> 1"
  using wired_exposure_bounded [OF sample_system_reach, of "''MNQ''"] by (simp add: sample_config_def)

end
