(* ===== verification/Risk_Engine.thy ===== *)
theory Risk_Engine
  imports Exec_Models Numerics "HOL-Library.AList"
begin

text \<open>
  The setup path's risk engine, \<^verbatim>\<open>src/alpha/engines/risk/engine.py\<close>, and its data,
  \<^verbatim>\<open>src/alpha/models/risk.py\<close>: the position book and the realised profit of a fill, the kill
  switch, the daily reset, the broker synchronisation and the sizing of a trade plan. A percentage
  is the decimal \<open>Decimal(str(pct))\<close> makes of it; the date of the CME session, the clock, the
  identifiers and the replies of the broker adapter are parameters. The orders a halt sends to the
  order engine are the list of its calls.
\<close>

section \<open>Data\<close>

record account_config =
  rc_account_id :: string
  rc_account_type :: account_type
  rc_account_size :: dec
  rc_max_daily_loss_pct :: dec
  rc_max_position_risk_pct :: dec
  rc_max_open_positions :: int
  rc_profit_protect_activation :: dec
  rc_profit_protect_giveback_pct :: dec
  rc_kill_switch_flatten :: bool

record trade_plan =
  rp_plan_id :: uuid
  rp_setup_id :: uuid
  rp_symbol :: string
  rp_side :: order_side
  rp_account_id :: string
  rp_entry_price :: dec
  rp_stop_price :: dec
  rp_target_price :: dec
  rp_position_size :: int
  rp_risk_amount :: dec
  rp_reward_amount :: dec
  rp_risk_reward_ratio :: rat
  rp_account_size :: dec
  rp_account_risk_pct :: rat
  rp_created_at :: timestamp

record daily_risk_state =
  ds_date :: string
  ds_account_id :: string
  ds_account_type :: account_type
  ds_realized_pnl :: dec
  ds_unrealized_pnl :: dec
  ds_session_high_pnl :: dec
  ds_max_drawdown :: dec
  ds_daily_loss_limit :: dec
  ds_trades_taken :: int
  ds_open_positions :: int
  ds_risk_consumed_pct :: rat
  ds_net_liquidation :: rat
  ds_cash_balance :: rat
  ds_gross_position_value :: rat
  ds_leverage_ratio :: rat
  ds_is_halted :: bool
  ds_halt_reason :: "kill_switch_reason option"
  ds_halt_time :: "timestamp option"

definition ds_current_pnl :: "daily_risk_state \<Rightarrow> dec" where
  "ds_current_pnl s = dq (ds_realized_pnl s + ds_unrealized_pnl s)"

definition ds_remaining_risk :: "daily_risk_state \<Rightarrow> dec" where
  "ds_remaining_risk s = max 0 (dq (ds_daily_loss_limit s + ds_realized_pnl s))"

record position_entry =
  pe_qty :: int
  pe_avg_price :: dec
  pe_side :: order_side

record account_ctx =
  cx_config :: account_config
  cx_state :: daily_risk_state
  cx_positions :: "(string \<times> position_entry) list"

text \<open>\<open>RiskViolation\<close> is the exception the handler catches; the others leave it.\<close>

datatype risk_violation =
  Missing_levels
| Zero_risk_per_share
| Size_rounds_to_zero
| Exceeds_daily_limit dec dec
| Max_open_positions int
| Ratio_below_minimum rat

datatype risk_error = Risk_violation risk_violation | Plan_validation_error

text \<open>The validator of \<open>TradePlan\<close>.\<close>

definition validate_levels :: "trade_plan \<Rightarrow> risk_error + trade_plan" where
  "validate_levels p =
     (if rp_side p = Side_BUY then
        (if rp_stop_price p < rp_entry_price p \<and> rp_entry_price p < rp_target_price p
         then Inr p else Inl Plan_validation_error)
      else
        (if rp_target_price p < rp_entry_price p \<and> rp_entry_price p < rp_stop_price p
         then Inr p else Inl Plan_validation_error))"

text \<open>What the engine reads of a setup, and of an order update.\<close>

record setup_view =
  su_setup_id :: uuid
  su_symbol :: string
  su_setup_type :: setup_type
  su_entry_trigger :: "dec option"
  su_stop_reference :: "dec option"
  su_target_reference :: "dec option"

record order_update =
  ou_order_id :: uuid
  ou_symbol :: string
  ou_status :: order_status
  ou_filled_quantity :: int
  ou_avg_fill_price :: "dec option"
  ou_account_id :: string
  ou_side :: "order_side option"

datatype order_call = Cancel_order uuid | Submit_close string string order_side int

record risk_engine =
  re_default_account_id :: string
  re_accounts :: "(string \<times> account_ctx) list"
  re_plans_generated :: int
  re_plans_rejected :: int

section \<open>Accounts\<close>

definition new_daily_state :: "string \<Rightarrow> account_config \<Rightarrow> daily_risk_state" where
  "new_daily_state today cfg =
     \<lparr>ds_date = today, ds_account_id = rc_account_id cfg, ds_account_type = rc_account_type cfg,
      ds_realized_pnl = 0, ds_unrealized_pnl = 0, ds_session_high_pnl = 0, ds_max_drawdown = 0,
      ds_daily_loss_limit = dq (rc_account_size cfg * rc_max_daily_loss_pct cfg), ds_trades_taken = 0,
      ds_open_positions = 0, ds_risk_consumed_pct = 0, ds_net_liquidation = 0,
      ds_cash_balance = 0, ds_gross_position_value = 0, ds_leverage_ratio = 0,
      ds_is_halted = False, ds_halt_reason = None, ds_halt_time = None\<rparr>"

definition new_account_ctx :: "string \<Rightarrow> account_config \<Rightarrow> account_ctx" where
  "new_account_ctx today cfg =
     \<lparr>cx_config = cfg, cx_state = new_daily_state today cfg, cx_positions = []\<rparr>"

text \<open>\<open>fallback\<close> is the account built from the scalar settings when none is listed.\<close>

definition build_account_contexts ::
  "string \<Rightarrow> account_config list \<Rightarrow> account_config \<Rightarrow> risk_engine \<Rightarrow> risk_engine" where
  "build_account_contexts today configured fallback e =
     (let raw_accounts = (if configured = [] then [fallback] else configured)
      in e\<lparr>re_accounts := foldl (\<lambda>m cfg. AList.update (rc_account_id cfg) (new_account_ctx today cfg) m)
             (re_accounts e) raw_accounts\<rparr>)"

definition daily_state :: "risk_engine \<Rightarrow> string \<Rightarrow> daily_risk_state option" where
  "daily_state e account_id = map_option cx_state (map_of (re_accounts e) account_id)"

definition is_account_halted :: "risk_engine \<Rightarrow> string \<Rightarrow> bool" where
  "is_account_halted e account_id =
     (case map_of (re_accounts e) account_id of None \<Rightarrow> False | Some ctx \<Rightarrow> ds_is_halted (cx_state ctx))"

definition all_halted :: "risk_engine \<Rightarrow> bool" where
  "all_halted e \<longleftrightarrow> re_accounts e \<noteq> [] \<and> (\<forall>(aid, ctx) \<in> set (re_accounts e). ds_is_halted (cx_state ctx))"

section \<open>Position book\<close>

definition apply_fill ::
  "account_ctx \<Rightarrow> string \<Rightarrow> order_side \<Rightarrow> int \<Rightarrow> dec \<Rightarrow> dec \<times> account_ctx" where
  "apply_fill ctx symbol side qty fill_price =
     (case map_of (cx_positions ctx) symbol of
        None \<Rightarrow>
          (0, ctx\<lparr>cx_positions := AList.update symbol
                    \<lparr>pe_qty = qty, pe_avg_price = fill_price, pe_side = side\<rparr> (cx_positions ctx),
                  cx_state := (cx_state ctx)\<lparr>ds_open_positions := ds_open_positions (cx_state ctx) + 1\<rparr>\<rparr>)
      | Some pos \<Rightarrow>
          if (pe_side pos = Side_BUY \<and> side = Side_SELL) \<or> (pe_side pos = Side_SELL \<and> side = Side_BUY)
          then
            (let close_qty = min qty (pe_qty pos);
                 realized = (if pe_side pos = Side_BUY
                             then dq (dq (fill_price - pe_avg_price pos) * of_int close_qty)
                             else dq (dq (pe_avg_price pos - fill_price) * of_int close_qty));
                 remaining = pe_qty pos - close_qty
             in if remaining \<le> 0
                then (realized, ctx\<lparr>cx_positions := AList.delete symbol (cx_positions ctx),
                        cx_state := (cx_state ctx)\<lparr>ds_open_positions :=
                          max 0 (ds_open_positions (cx_state ctx) - 1)\<rparr>\<rparr>)
                else (realized, ctx\<lparr>cx_positions := AList.update symbol
                        \<lparr>pe_qty = remaining, pe_avg_price = pe_avg_price pos, pe_side = pe_side pos\<rparr>
                        (cx_positions ctx)\<rparr>))
          else
            (let total_cost = dq (dq (pe_avg_price pos * of_int (pe_qty pos)) + dq (fill_price * of_int qty));
                 new_qty = pe_qty pos + qty
             in (0, ctx\<lparr>cx_positions := AList.update symbol
                   \<lparr>pe_qty = new_qty, pe_avg_price = dq (total_cost / of_int new_qty),
                    pe_side = pe_side pos\<rparr> (cx_positions ctx)\<rparr>)))"

section \<open>Kill switch\<close>

definition check_kill_switch :: "account_ctx \<Rightarrow> kill_switch_reason option" where
  "check_kill_switch ctx =
     (let state = cx_state ctx; cfg = cx_config ctx; current_pnl = ds_current_pnl state
      in if current_pnl \<le> - ds_daily_loss_limit state then Some Kill_DAILY_LOSS_LIMIT
         else if ds_session_high_pnl state \<ge> rc_profit_protect_activation cfg then
           (let giveback = dq (ds_session_high_pnl state - current_pnl);
                max_giveback = dq (ds_session_high_pnl state * rc_profit_protect_giveback_pct cfg)
            in if giveback \<ge> max_giveback then Some Kill_PROFIT_PROTECTION else None)
         else None)"

definition flatten_account :: "broker_order list \<Rightarrow> account_ctx \<Rightarrow> order_call list" where
  "flatten_account open_orders ctx =
     map (\<lambda>ord. Cancel_order (or_order_id ord))
       [ord \<leftarrow> open_orders. or_account_id ord = rc_account_id (cx_config ctx) \<and>
          (case or_broker_order_id ord of None \<Rightarrow> False | Some b \<Rightarrow> b \<noteq> [])] @
     map (\<lambda>(symbol, pos). Submit_close (rc_account_id (cx_config ctx)) symbol
            (opposite_side (pe_side pos)) (pe_qty pos)) (cx_positions ctx)"

definition trigger_halt ::
  "timestamp \<Rightarrow> broker_order list \<Rightarrow> account_ctx \<Rightarrow> kill_switch_reason \<Rightarrow>
   account_ctx \<times> order_call list" where
  "trigger_halt now open_orders ctx reason =
     (let ctx = ctx\<lparr>cx_state := (cx_state ctx)\<lparr>ds_is_halted := True, ds_halt_reason := Some reason,
            ds_halt_time := Some now\<rparr>\<rparr>
      in (ctx, if rc_kill_switch_flatten (cx_config ctx) then flatten_account open_orders ctx else []))"

definition raise_high_water :: "daily_risk_state \<Rightarrow> daily_risk_state" where
  "raise_high_water s =
     (if ds_current_pnl s > ds_session_high_pnl s then s\<lparr>ds_session_high_pnl := ds_current_pnl s\<rparr> else s)"

definition halt_if_needed ::
  "timestamp \<Rightarrow> broker_order list \<Rightarrow> account_ctx \<Rightarrow> account_ctx \<times> order_call list" where
  "halt_if_needed now open_orders ctx =
     (case check_kill_switch ctx of
        None \<Rightarrow> (ctx, [])
      | Some reason \<Rightarrow>
          if \<not> ds_is_halted (cx_state ctx) then trigger_halt now open_orders ctx reason else (ctx, []))"

definition risk_consumed :: "daily_risk_state \<Rightarrow> rat" where
  "risk_consumed s =
     (if ds_daily_loss_limit s \<noteq> 0 then fl (dq (\<bar>ds_realized_pnl s\<bar> / ds_daily_loss_limit s)) else 0)"

text \<open>The part of \<open>_handle_order_update\<close> that works on the account.\<close>

definition book_fill ::
  "timestamp \<Rightarrow> broker_order list \<Rightarrow> account_ctx \<Rightarrow> string \<Rightarrow> order_side \<Rightarrow> int \<Rightarrow> dec \<Rightarrow>
   account_ctx \<times> order_call list" where
  "book_fill now open_orders ctx symbol side qty price =
     (let (delta, ctx) = apply_fill ctx symbol side qty price;
          ctx = (if delta \<noteq> 0 then
                   (let s = (cx_state ctx)\<lparr>ds_realized_pnl := dq (ds_realized_pnl (cx_state ctx) + delta),
                              ds_trades_taken := ds_trades_taken (cx_state ctx) + 1\<rparr>
                    in ctx\<lparr>cx_state := s\<lparr>ds_risk_consumed_pct := risk_consumed s\<rparr>\<rparr>)
                 else ctx);
          ctx = ctx\<lparr>cx_state := raise_high_water (cx_state ctx)\<rparr>
      in halt_if_needed now open_orders ctx)"

definition handle_order_update ::
  "timestamp \<Rightarrow> broker_order list \<Rightarrow> risk_engine \<Rightarrow> order_update \<Rightarrow> risk_engine \<times> order_call list" where
  "handle_order_update now open_orders e u =
     (if ou_status u \<noteq> Order_FILLED then (e, [])
      else case (ou_avg_fill_price u, ou_side u) of
        (Some price, Some side) \<Rightarrow>
          (case map_of (re_accounts e) (ou_account_id u) of
             None \<Rightarrow> (e, [])
           | Some ctx \<Rightarrow>
               (let (ctx, calls) = book_fill now open_orders ctx (ou_symbol u) side
                      (ou_filled_quantity u) price
                in (e\<lparr>re_accounts := AList.update (ou_account_id u) ctx (re_accounts e)\<rparr>, calls)))
      | _ \<Rightarrow> (e, []))"

section \<open>Daily reset and broker synchronisation\<close>

definition reset_account :: "string \<Rightarrow> account_ctx \<Rightarrow> account_ctx" where
  "reset_account today ctx =
     (if ds_date (cx_state ctx) = today then ctx
      else ctx\<lparr>cx_state := (cx_state ctx)
             \<lparr>ds_date := today, ds_realized_pnl := 0, ds_unrealized_pnl := 0,
              ds_session_high_pnl := 0, ds_max_drawdown := 0, ds_trades_taken := 0,
              ds_open_positions := 0, ds_risk_consumed_pct := 0, ds_is_halted := False,
              ds_halt_reason := None, ds_halt_time := None,
              ds_daily_loss_limit := dq (rc_account_size (cx_config ctx) * rc_max_daily_loss_pct (cx_config ctx))\<rparr>,
            cx_positions := []\<rparr>)"

definition check_day_rollover :: "string \<Rightarrow> risk_engine \<Rightarrow> risk_engine" where
  "check_day_rollover today e =
     e\<lparr>re_accounts := map (\<lambda>(aid, ctx). (aid, reset_account today ctx)) (re_accounts e)\<rparr>"

text \<open>
  The replies of the broker adapter for one account: \<open>None\<close> is an exception, which the loop
  catches. \<open>round(x, 2)\<close> rounds the float to the nearest hundredth.
\<close>

record broker_reply =
  br_pnl :: "(rat \<times> rat) option"
  br_summary :: "(string \<rightharpoonup> rat) option"

definition round_cents :: "rat \<Rightarrow> dec" where
  "round_cents x = of_int (round_half_even (x * 100)) / 100"

definition sync_account ::
  "timestamp \<Rightarrow> broker_order list \<Rightarrow> broker_reply \<Rightarrow> account_ctx \<Rightarrow> account_ctx \<times> order_call list" where
  "sync_account now open_orders reply ctx =
     (case br_pnl reply of
        None \<Rightarrow> (ctx, [])
      | Some (realized, unrealized) \<Rightarrow>
          (let s = (cx_state ctx)\<lparr>ds_realized_pnl := round_cents realized,
                     ds_unrealized_pnl := round_cents unrealized\<rparr>;
               s = raise_high_water (s\<lparr>ds_risk_consumed_pct := risk_consumed s\<rparr>)
           in case br_summary reply of
                None \<Rightarrow> (ctx\<lparr>cx_state := s\<rparr>, [])
              | Some summary \<Rightarrow>
                  (let net = get_default summary ''net_liquidation'' 0;
                       gross = get_default summary ''gross_position_value'' 0;
                       s = s\<lparr>ds_net_liquidation := net,
                             ds_cash_balance := get_default summary ''cash_balance'' 0,
                             ds_gross_position_value := gross,
                             ds_leverage_ratio := (if net > 0 then fl (gross / net) else 0)\<rparr>
                   in halt_if_needed now open_orders (ctx\<lparr>cx_state := s\<rparr>))))"

fun sync_accounts ::
  "timestamp \<Rightarrow> broker_order list \<Rightarrow> (string \<Rightarrow> broker_reply) \<Rightarrow> (string \<times> account_ctx) list \<Rightarrow>
   (string \<times> account_ctx) list \<times> order_call list" where
  "sync_accounts now open_orders replies [] = ([], [])"
| "sync_accounts now open_orders replies ((aid, ctx) # rest) =
     (let (ctx', calls) = sync_account now open_orders (replies aid) ctx;
          (rest', calls') = sync_accounts now open_orders replies rest
      in ((aid, ctx') # rest', calls @ calls'))"

definition sync_broker_pnl ::
  "timestamp \<Rightarrow> broker_order list \<Rightarrow> bool \<Rightarrow> (string \<Rightarrow> broker_reply) \<Rightarrow> risk_engine \<Rightarrow>
   risk_engine \<times> order_call list" where
  "sync_broker_pnl now open_orders adapter_connected replies e =
     (if \<not> adapter_connected then (e, [])
      else (let (accounts, calls) = sync_accounts now open_orders replies (re_accounts e)
            in (e\<lparr>re_accounts := accounts\<rparr>, calls)))"

section \<open>Plans\<close>

definition infer_side :: "setup_view \<Rightarrow> order_side" where
  "infer_side su =
     (if su_setup_type su \<in> {Setup_VWAP_RECLAIM, Setup_ORB_BREAKOUT, Setup_SWEEP_RECLAIM,
           Setup_FAKE_BREAKDOWN}
      then Side_BUY else Side_SELL)"

definition check_daily_limits :: "account_ctx \<Rightarrow> dec \<Rightarrow> risk_error + unit" where
  "check_daily_limits ctx new_risk =
     (let remaining = ds_remaining_risk (cx_state ctx)
      in if new_risk > remaining then Inl (Risk_violation (Exceeds_daily_limit new_risk remaining))
         else if ds_open_positions (cx_state ctx) \<ge> rc_max_open_positions (cx_config ctx)
         then Inl (Risk_violation (Max_open_positions (rc_max_open_positions (cx_config ctx))))
         else Inr ())"

text \<open>The plan for given levels and size, with its risk figures.\<close>

definition sized_plan ::
  "uuid \<Rightarrow> timestamp \<Rightarrow> setup_view \<Rightarrow> account_config \<Rightarrow> dec \<Rightarrow> dec \<Rightarrow> dec \<Rightarrow> int \<Rightarrow> trade_plan" where
  "sized_plan plan_id now su cfg entry stop target shares =
     (let dollar_risk = dq (rc_account_size cfg * rc_max_position_risk_pct cfg);
          reward = dq (\<bar>dq (target - entry)\<bar> * of_int shares);
          risk = dq (\<bar>dq (entry - stop)\<bar> * of_int shares)
      in \<lparr>rp_plan_id = plan_id, rp_setup_id = su_setup_id su, rp_symbol = su_symbol su,
          rp_side = infer_side su, rp_account_id = rc_account_id cfg, rp_entry_price = entry,
          rp_stop_price = stop, rp_target_price = target, rp_position_size = shares,
          rp_risk_amount = risk, rp_reward_amount = reward,
          rp_risk_reward_ratio = (if risk \<noteq> 0 then fl (dq (reward / risk)) else 0),
          rp_account_size = rc_account_size cfg,
          rp_account_risk_pct = fl (dq (dollar_risk / rc_account_size cfg)), rp_created_at = now\<rparr>)"

definition risk_evaluate ::
  "uuid \<Rightarrow> timestamp \<Rightarrow> setup_view \<Rightarrow> account_ctx \<Rightarrow> risk_error + trade_plan" where
  "risk_evaluate plan_id now su ctx =
     (let cfg = cx_config ctx
      in case (su_entry_trigger su, su_stop_reference su, su_target_reference su) of
           (Some entry, Some stop, Some target) \<Rightarrow>
             (let risk_per_share = \<bar>dq (entry - stop)\<bar>
              in if risk_per_share = 0 then Inl (Risk_violation Zero_risk_per_share)
                 else
                   (let dollar_risk = dq (rc_account_size cfg * rc_max_position_risk_pct cfg);
                        shares = int_trunc (dq (dollar_risk / risk_per_share))
                    in if shares < 1 then Inl (Risk_violation Size_rounds_to_zero)
                       else case check_daily_limits ctx dollar_risk of
                         Inl err \<Rightarrow> Inl err
                       | Inr _ \<Rightarrow>
                           (let p = sized_plan plan_id now su cfg entry stop target shares
                            in if rp_risk_reward_ratio p < 2
                               then Inl (Risk_violation (Ratio_below_minimum (rp_risk_reward_ratio p)))
                               else validate_levels p)))
         | _ \<Rightarrow> Inl (Risk_violation Missing_levels))"

text \<open>What \<open>_handle_setup\<close> did with an event: nothing, a rejection, a plan forwarded to the order
  engine, or an exception that leaves the handler.\<close>

datatype setup_outcome = Ignored | Rejected | Forwarded trade_plan | Raised risk_error

definition get_setup :: "setup_view list \<Rightarrow> uuid \<Rightarrow> setup_view option" where
  "get_setup active setup_id = find (\<lambda>s. su_setup_id s = setup_id) active"

definition handle_setup ::
  "uuid \<Rightarrow> timestamp \<Rightarrow> setup_view list \<Rightarrow> risk_engine \<Rightarrow> uuid \<Rightarrow> setup_state \<Rightarrow>
   setup_outcome \<times> risk_engine" where
  "handle_setup plan_id now active e setup_id state =
     (let rejected = e\<lparr>re_plans_rejected := re_plans_rejected e + 1\<rparr>
      in if state \<noteq> SState_TRIGGERED then (Ignored, e)
         else case get_setup active setup_id of
           None \<Rightarrow> (Ignored, e)
         | Some su \<Rightarrow>
             (case map_of (re_accounts e) (re_default_account_id e) of
                None \<Rightarrow> (Rejected, rejected)
              | Some ctx \<Rightarrow>
                  if ds_is_halted (cx_state ctx) then (Rejected, rejected)
                  else case risk_evaluate plan_id now su ctx of
                    Inl (Risk_violation v) \<Rightarrow> (Rejected, rejected)
                  | Inl err \<Rightarrow> (Raised err, e)
                  | Inr p \<Rightarrow> (Forwarded p, e\<lparr>re_plans_generated := re_plans_generated e + 1\<rparr>)))"

section \<open>A sample account\<close>

definition sample_account_config :: account_config where
  "sample_account_config =
     \<lparr>rc_account_id = ''default'', rc_account_type = Account_DAY, rc_account_size = 25000,
      rc_max_daily_loss_pct = 2/100, rc_max_position_risk_pct = 1/100, rc_max_open_positions = 5,
      rc_profit_protect_activation = 200, rc_profit_protect_giveback_pct = 1/2,
      rc_kill_switch_flatten = True\<rparr>"

definition sample_ctx :: account_ctx where
  "sample_ctx = new_account_ctx ''2025-01-02'' sample_account_config"

definition sample_engine :: risk_engine where
  "sample_engine = build_account_contexts ''2025-01-02'' [] sample_account_config
     \<lparr>re_default_account_id = ''default'', re_accounts = [], re_plans_generated = 0, re_plans_rejected = 0\<rparr>"

definition sample_setup :: "setup_type \<Rightarrow> setup_view" where
  "sample_setup t = \<lparr>su_setup_id = ''s1'', su_symbol = ''MNQ'', su_setup_type = t,
     su_entry_trigger = Some 100, su_stop_reference = Some 98, su_target_reference = Some 105\<rparr>"

definition sample_trade_plan :: trade_plan where
  "sample_trade_plan = sized_plan ''p1'' 0 (sample_setup Setup_VWAP_RECLAIM) sample_account_config 100 98 105 125"

definition halted_engine :: risk_engine where
  "halted_engine = sample_engine\<lparr>re_accounts := [(''default'', sample_ctx\<lparr>cx_state :=
     (cx_state sample_ctx)\<lparr>ds_is_halted := True\<rparr>\<rparr>)]\<rparr>"

section \<open>The position book\<close>

text \<open>A fill as the book sees it, and the running total of the realised profit.\<close>

type_synonym book_fill = "string \<times> order_side \<times> int \<times> dec"

definition signed_qty :: "order_side \<Rightarrow> int \<Rightarrow> dec" where
  "signed_qty side qty = (if side = Side_BUY then of_int qty else - of_int qty)"

fun apply_fills :: "account_ctx \<Rightarrow> book_fill list \<Rightarrow> dec \<times> account_ctx" where
  "apply_fills ctx [] = (0, ctx)"
| "apply_fills ctx ((symbol, side, qty, price) # fs) =
     (let (delta, ctx') = apply_fill ctx symbol side qty price;
          (pnl_sum, ctx'') = apply_fills ctx' fs
      in (delta + pnl_sum, ctx''))"

text \<open>The cost at which a symbol's open position stands in the book, and the cash a fill moves.\<close>

definition book_cost :: "account_ctx \<Rightarrow> string \<Rightarrow> dec" where
  "book_cost ctx symbol =
     (case map_of (cx_positions ctx) symbol of
        None \<Rightarrow> 0 | Some pos \<Rightarrow> signed_qty (pe_side pos) (pe_qty pos) * pe_avg_price pos)"

definition net_quantity :: "account_ctx \<Rightarrow> string \<Rightarrow> dec" where
  "net_quantity ctx symbol =
     (case map_of (cx_positions ctx) symbol of
        None \<Rightarrow> 0 | Some pos \<Rightarrow> signed_qty (pe_side pos) (pe_qty pos))"

definition fill_cash :: "book_fill \<Rightarrow> dec" where
  "fill_cash f = (case f of (symbol, side, qty, price) \<Rightarrow> - signed_qty side qty * price)"

text \<open>
  The amounts a fill calculates with: the closed quantity at its distance from the average price, or the two costs
  an average is taken of. Their roundings are relative to these amounts.
\<close>

definition fill_turnover :: "account_ctx \<Rightarrow> book_fill \<Rightarrow> dec" where
  "fill_turnover ctx f = (case f of (symbol, side, qty, price) \<Rightarrow>
     (case map_of (cx_positions ctx) symbol of
        None \<Rightarrow> 0
      | Some pos \<Rightarrow>
          if pe_side pos = side then \<bar>pe_avg_price pos\<bar> * of_int (pe_qty pos) + \<bar>price\<bar> * of_int qty
          else \<bar>price - pe_avg_price pos\<bar> * of_int (min qty (pe_qty pos))))"

fun turnover :: "account_ctx \<Rightarrow> book_fill list \<Rightarrow> dec" where
  "turnover ctx [] = 0"
| "turnover ctx ((symbol, side, qty, price) # fs) =
     fill_turnover ctx (symbol, side, qty, price) + turnover (snd (apply_fill ctx symbol side qty price)) fs"

text \<open>A fill fits the book when it is positive and closes no more than is open.\<close>

definition fill_fits :: "account_ctx \<Rightarrow> book_fill \<Rightarrow> bool" where
  "fill_fits ctx f = (case f of (symbol, side, qty, price) \<Rightarrow> 0 < qty \<and>
     (case map_of (cx_positions ctx) symbol of
        None \<Rightarrow> True | Some pos \<Rightarrow> pe_side pos = side \<or> qty \<le> pe_qty pos))"

fun fills_fit :: "account_ctx \<Rightarrow> book_fill list \<Rightarrow> bool" where
  "fills_fit ctx [] \<longleftrightarrow> True"
| "fills_fit ctx ((symbol, side, qty, price) # fs) \<longleftrightarrow> fill_fits ctx (symbol, side, qty, price) \<and>
     fills_fit (snd (apply_fill ctx symbol side qty price)) fs"

text \<open>Symbols are distinct, open quantities positive, and the counter counts the book.\<close>

definition book_entries_ok :: "(string \<times> position_entry) list \<Rightarrow> bool" where
  "book_entries_ok ps \<longleftrightarrow> distinct (map fst ps) \<and> (\<forall>x \<in> set ps. 0 < pe_qty (snd x))"

definition book_ok :: "account_ctx \<Rightarrow> bool" where
  "book_ok ctx \<longleftrightarrow> book_entries_ok (cx_positions ctx) \<and>
     ds_open_positions (cx_state ctx) = int (length (cx_positions ctx))"

lemma book_entries_update:
  assumes "book_entries_ok ps" "0 < pe_qty v"
  shows "book_entries_ok (AList.update k v ps)"
proof -
  have "set (AList.update k v ps) \<subseteq> insert (k, v) (set ps)"
    by (induction ps) auto
  with assms show ?thesis by (fastforce simp: book_entries_ok_def distinct_update)
qed

lemma book_entries_delete: "book_entries_ok ps \<Longrightarrow> book_entries_ok (AList.delete k ps)"
  by (auto simp: book_entries_ok_def AList.delete_eq intro: distinct_map_filter)

lemma length_update:
  "length (AList.update k v al) = (if map_of al k = None then Suc (length al) else length al)"
  by (induction al) auto

lemma length_delete:
  "distinct (map fst al) \<Longrightarrow> map_of al k \<noteq> None \<Longrightarrow> Suc (length (AList.delete k al)) = length al"
proof (induction al)
  case (Cons a al)
  obtain k' v where a: "a = (k', v)" by (cases a)
  show ?case
  proof (cases "k = k'")
    case True
    with Cons.prems a have "\<forall>x \<in> set al. k \<noteq> fst x" by auto
    then have "AList.delete k al = al" by (auto simp: AList.delete_eq filter_id_conv)
    with True a show ?thesis by simp
  next
    case False
    with Cons a show ?thesis by auto
  qed
qed simp

lemma book_ok_qty: "book_ok ctx \<Longrightarrow> map_of (cx_positions ctx) symbol = Some pos \<Longrightarrow> 0 < pe_qty pos"
  by (force simp: book_ok_def book_entries_ok_def dest: map_of_SomeD)

lemma apply_fill_book_ok:
  assumes ok: "book_ok ctx" and q: "0 < qty" and f: "apply_fill ctx symbol side qty price = (delta, ctx')"
  shows "book_ok ctx'"
proof (cases "map_of (cx_positions ctx) symbol")
  case None
  with assms show ?thesis
    by (auto simp: apply_fill_def book_ok_def length_update book_entries_update)
next
  case (Some pos)
  have pos: "0 < pe_qty pos" using book_ok_qty [OF ok Some] .
  have len: "Suc (length (AList.delete symbol (cx_positions ctx))) = length (cx_positions ctx)"
    using ok Some by (intro length_delete) (auto simp: book_ok_def book_entries_ok_def)
  show ?thesis
    using assms Some pos len
    by (auto simp: apply_fill_def book_ok_def length_update book_entries_update book_entries_delete Let_def
        split: if_splits)
qed

lemma apply_fill_other:
  "apply_fill ctx symbol side qty price = (delta, ctx') \<Longrightarrow> s \<noteq> symbol \<Longrightarrow>
   map_of (cx_positions ctx') s = map_of (cx_positions ctx) s"
  by (auto simp: apply_fill_def Let_def update_conv' delete_conv' split: option.splits if_splits)

lemma opposite_sides:
  "a \<noteq> b \<Longrightarrow> (a = Side_BUY \<and> b = Side_SELL) \<or> (a = Side_SELL \<and> b = Side_BUY)" for a b :: order_side
  by (cases a; cases b) auto

text \<open>One \<open>Decimal\<close> operation is within half a unit of the 28th digit.\<close>

lemma dq_error: "\<bar>dq x - x\<bar> \<le> \<bar>x\<bar> / (2 * 10 ^ 27)"
  using decimal28.rnd_error [of x] by (simp add: dq_def field_simps)

lemma dq_eq_0 [simp]: "dq x = 0 \<longleftrightarrow> x = 0"
  using dq_pos [of x] dq_pos [of "- x"] by (cases x "0 :: rat" rule: linorder_cases) (auto simp: dq_uminus)

lemma dq_abs_upper: "\<bar>dq x\<bar> \<le> \<bar>x\<bar> * (1 + 1 / (2 * 10 ^ 27))"
proof -
  have "\<bar>dq x\<bar> \<le> \<bar>x\<bar> + \<bar>dq x - x\<bar>" by linarith
  also have "\<dots> \<le> \<bar>x\<bar> + \<bar>x\<bar> / (2 * 10 ^ 27)" using dq_error [of x] by linarith
  finally show ?thesis by (simp add: distrib_left)
qed

text \<open>Rounding a value that is off by \<open>e\<close>.\<close>

lemma dq_error_from:
  assumes "\<bar>y - x\<bar> \<le> m * e" "\<bar>x\<bar> \<le> m"
  shows "\<bar>dq y - x\<bar> \<le> m * (e + (1 + e) / (2 * 10 ^ 27))"
proof -
  have y: "\<bar>y\<bar> \<le> m * (1 + e)" using assms by (simp add: distrib_left)
  have "\<bar>dq y - x\<bar> \<le> \<bar>dq y - y\<bar> + \<bar>y - x\<bar>" by linarith
  also have "\<dots> \<le> \<bar>y\<bar> / (2 * 10 ^ 27) + m * e" using dq_error [of y] assms(1) by linarith
  also have "\<dots> \<le> m * (1 + e) / (2 * 10 ^ 27) + m * e" using y by (intro add_right_mono divide_right_mono) simp_all
  finally show ?thesis by (simp add: distrib_left)
qed

lemma close_error: "\<bar>dq (dq d * of_int n) - d * of_int n\<bar> \<le> 2 / 10 ^ 27 * (\<bar>d\<bar> * of_int n)" if "0 \<le> n"
proof -
  have "\<bar>dq d * of_int n - d * of_int n\<bar> = \<bar>dq d - d\<bar> * of_int n"
    using that by (simp add: abs_mult left_diff_distrib [symmetric])
  also have "\<dots> \<le> \<bar>d\<bar> / (2 * 10 ^ 27) * of_int n" using that dq_error [of d] by (intro mult_right_mono) simp_all
  finally have "\<bar>dq (dq d * of_int n) - d * of_int n\<bar>
      \<le> \<bar>d\<bar> * of_int n * (1 / (2 * 10 ^ 27) + (1 + 1 / (2 * 10 ^ 27)) / (2 * 10 ^ 27))"
    using that by (intro dq_error_from) (simp_all add: abs_mult)
  also have "\<dots> \<le> \<bar>d\<bar> * of_int n * (2 / 10 ^ 27)" using that by (intro mult_left_mono) simp_all
  finally show ?thesis by (simp only: mult.commute)
qed

lemma average_error:
  fixes a p :: rat and n m :: int
  assumes "0 < n" "0 < m"
  shows "\<bar>of_int (n + m) * dq (dq (dq (a * of_int n) + dq (p * of_int m)) / of_int (n + m)) - (a * of_int n + p * of_int m)\<bar>
     \<le> 2 / 10 ^ 27 * (\<bar>a\<bar> * of_int n + \<bar>p\<bar> * of_int m)"
proof -
  let ?u = "1 / (2 * 10 ^ 27) :: rat" and ?N = "of_int (n + m) :: rat"
  define M where "M = \<bar>a\<bar> * of_int n + \<bar>p\<bar> * of_int m"
  define x where "x = a * of_int n + p * of_int m"
  define y where "y = dq (a * of_int n) + dq (p * of_int m)"
  have N: "0 < ?N" using assms by simp
  have M0: "0 \<le> M" using assms by (simp add: M_def)
  have abs: "\<bar>a * of_int n\<bar> = \<bar>a\<bar> * of_int n" "\<bar>p * of_int m\<bar> = \<bar>p\<bar> * of_int m"
    using assms by (simp_all add: abs_mult)
  have xM: "\<bar>x\<bar> \<le> M" using abs unfolding x_def M_def by linarith
  have "\<bar>y - x\<bar> \<le> \<bar>dq (a * of_int n) - a * of_int n\<bar> + \<bar>dq (p * of_int m) - p * of_int m\<bar>"
    unfolding x_def y_def by linarith
  also have "\<dots> \<le> \<bar>a * of_int n\<bar> / (2 * 10 ^ 27) + \<bar>p * of_int m\<bar> / (2 * 10 ^ 27)"
    by (intro add_mono dq_error)
  finally have "\<bar>y - x\<bar> \<le> M * ?u" by (simp add: abs M_def add_divide_distrib)
  from dq_error_from [OF this xM] have T: "\<bar>dq y - x\<bar> \<le> M * (?u + (1 + ?u) / (2 * 10 ^ 27))" .
  then have "\<bar>(dq y - x) / ?N\<bar> \<le> M * (?u + (1 + ?u) / (2 * 10 ^ 27)) / ?N"
    using N by (simp only: abs_divide abs_of_pos divide_right_mono less_imp_le)
  then have "\<bar>dq y / ?N - x / ?N\<bar> \<le> M / ?N * (?u + (1 + ?u) / (2 * 10 ^ 27))"
    by (simp only: diff_divide_distrib [symmetric] times_divide_eq_left)
  moreover have "\<bar>x / ?N\<bar> \<le> M / ?N" using xM N by (simp only: abs_divide abs_of_pos divide_right_mono less_imp_le)
  ultimately have "\<bar>dq (dq y / ?N) - x / ?N\<bar> \<le> M / ?N *
      (?u + (1 + ?u) / (2 * 10 ^ 27) + (1 + (?u + (1 + ?u) / (2 * 10 ^ 27))) / (2 * 10 ^ 27))"
    by (rule dq_error_from)
  also have "\<dots> \<le> M / ?N * (2 / 10 ^ 27)" using M0 N by (intro mult_left_mono) simp_all
  finally have "\<bar>dq (dq y / ?N) - x / ?N\<bar> * ?N \<le> M / ?N * (2 / 10 ^ 27) * ?N" using N by (intro mult_right_mono) simp_all
  moreover have "\<bar>dq (dq y / ?N) - x / ?N\<bar> * ?N = \<bar>?N * dq (dq y / ?N) - x\<bar>"
  proof -
    have "\<bar>dq (dq y / ?N) - x / ?N\<bar> * ?N = \<bar>(dq (dq y / ?N) - x / ?N) * ?N\<bar>" using N by (simp only: abs_mult abs_of_pos)
    also have "(dq (dq y / ?N) - x / ?N) * ?N = dq (dq y / ?N) * ?N - x / ?N * ?N" by (rule left_diff_distrib)
    also have "\<dots> = ?N * dq (dq y / ?N) - x" using N by (simp add: mult.commute [of "dq (dq y / ?N)"] del: of_int_add)
    finally show ?thesis .
  qed
  moreover have "M / ?N * (2 / 10 ^ 27) * ?N = 2 / 10 ^ 27 * M" using N by (simp del: of_int_add)
  ultimately show ?thesis by (simp only: M_def x_def y_def)
qed

lemma apply_fill_accounting:
  assumes ok: "book_ok ctx" and fits: "fill_fits ctx (symbol, side, qty, price)"
    and f: "apply_fill ctx symbol side qty price = (delta, ctx')"
  shows "\<bar>delta - (fill_cash (symbol, side, qty, price) + book_cost ctx' symbol - book_cost ctx symbol)\<bar>
       \<le> 2 / 10 ^ 27 * fill_turnover ctx (symbol, side, qty, price) \<and>
     net_quantity ctx' symbol = net_quantity ctx symbol + signed_qty side qty"
proof (cases "map_of (cx_positions ctx) symbol")
  case None
  with f show ?thesis
    by (auto simp: apply_fill_def fill_cash_def book_cost_def net_quantity_def fill_turnover_def update_conv')
next
  case (Some pos)
  have pos: "0 < pe_qty pos" using book_ok_qty [OF ok Some] .
  have q: "0 < qty" using fits by (simp add: fill_fits_def)
  show ?thesis
  proof (cases "pe_side pos = side")
    case True
    define avg where "avg = dq (dq (dq (pe_avg_price pos * of_int (pe_qty pos)) + dq (price * of_int qty))
      / of_int (pe_qty pos + qty))"
    have new: "delta = 0" "map_of (cx_positions ctx') symbol
        = Some \<lparr>pe_qty = pe_qty pos + qty, pe_avg_price = avg, pe_side = pe_side pos\<rparr>"
      using True Some f by (cases side; auto simp: apply_fill_def Let_def update_conv' avg_def)+
    have q': "net_quantity ctx' symbol = net_quantity ctx symbol + signed_qty side qty"
      using True Some new by (simp add: net_quantity_def signed_qty_def)
    have "\<bar>delta - (fill_cash (symbol, side, qty, price) + book_cost ctx' symbol - book_cost ctx symbol)\<bar>
        = \<bar>of_int (pe_qty pos + qty) * avg - (pe_avg_price pos * of_int (pe_qty pos) + price * of_int qty)\<bar>"
      using True Some new by (auto simp: fill_cash_def book_cost_def signed_qty_def algebra_simps abs_minus_commute)
    also have "\<dots> \<le> 2 / 10 ^ 27 * fill_turnover ctx (symbol, side, qty, price)"
      using average_error [OF pos q, of "pe_avg_price pos" price] True Some by (simp add: avg_def fill_turnover_def)
    finally show ?thesis using q' by simp
  next
    case False
    then have le: "qty \<le> pe_qty pos" using fits Some by (simp add: fill_fits_def)
    have d: "pe_side pos = Side_BUY \<and> side = Side_SELL \<or> pe_side pos = Side_SELL \<and> side = Side_BUY"
      using opposite_sides [OF False] .
    define g where "g = (if pe_side pos = Side_BUY then price - pe_avg_price pos else pe_avg_price pos - price)"
    have delta: "delta = dq (dq g * of_int qty)"
      using d le Some f by (auto simp: apply_fill_def Let_def g_def split: if_splits)
    have rest: "map_of (cx_positions ctx') symbol = (if qty = pe_qty pos then None
        else Some \<lparr>pe_qty = pe_qty pos - qty, pe_avg_price = pe_avg_price pos, pe_side = pe_side pos\<rparr>)"
      using d le Some f by (auto simp: apply_fill_def Let_def update_conv' delete_conv' split: if_splits)
    have q': "net_quantity ctx' symbol = net_quantity ctx symbol + signed_qty side qty"
      using d Some rest by (auto simp: net_quantity_def signed_qty_def)
    have "g * of_int qty = fill_cash (symbol, side, qty, price) + book_cost ctx' symbol - book_cost ctx symbol"
      using d Some rest by (auto simp: g_def fill_cash_def book_cost_def signed_qty_def algebra_simps)
    moreover have "\<bar>g\<bar> * of_int qty = fill_turnover ctx (symbol, side, qty, price)"
      using False le Some by (auto simp: fill_turnover_def g_def abs_minus_commute)
    ultimately show ?thesis using close_error [of qty g] q q' by (simp add: delta)
  qed
qed

definition fill_quantity :: "string \<Rightarrow> book_fill \<Rightarrow> dec" where
  "fill_quantity s f = (case f of (symbol, side, qty, price) \<Rightarrow> if symbol = s then signed_qty side qty else 0)"

lemma apply_fills_accounting:
  assumes "book_ok ctx" "fills_fit ctx fs" "apply_fills ctx fs = (pnl_sum, ctx')" "finite S" "fst ` set fs \<subseteq> S"
  shows "\<bar>pnl_sum - (sum_list (map fill_cash fs) + (\<Sum>s\<in>S. book_cost ctx' s) - (\<Sum>s\<in>S. book_cost ctx s))\<bar>
       \<le> 2 / 10 ^ 27 * turnover ctx fs \<and>
     net_quantity ctx' s = net_quantity ctx s + sum_list (map (fill_quantity s) fs) \<and> book_ok ctx'"
  using assms
proof (induction fs arbitrary: ctx pnl_sum)
  case (Cons f fs)
  obtain symbol side qty price where f: "f = (symbol, side, qty, price)" by (metis prod_cases4)
  obtain delta ctx1 where a: "apply_fill ctx symbol side qty price = (delta, ctx1)" by force
  obtain pnl_rest where t: "apply_fills ctx1 fs = (pnl_rest, ctx')" and pnl_sum: "pnl_sum = delta + pnl_rest"
    using Cons.prems(3) by (auto simp: f a Let_def split: prod.splits)
  have fits: "fill_fits ctx (symbol, side, qty, price)" and fits': "fills_fit ctx1 fs"
    using Cons.prems(2) by (auto simp: f a)
  have q: "0 < qty" using fits by (simp add: fill_fits_def)
  note acc = apply_fill_accounting [OF Cons.prems(1) fits a]
  have ok1: "book_ok ctx1" by (rule apply_fill_book_ok [OF Cons.prems(1) q a])
  have S: "symbol \<in> S" and sub: "fst ` set fs \<subseteq> S" using Cons.prems(5) by (auto simp: f)
  note IH = Cons.IH [OF ok1 fits' t Cons.prems(4) sub]
  have other: "book_cost ctx1 s' = book_cost ctx s'" "net_quantity ctx1 s' = net_quantity ctx s'"
    if "s' \<noteq> symbol" for s'
    using apply_fill_other [OF a that] by (simp_all add: book_cost_def net_quantity_def)
  have "(\<Sum>s\<in>S. book_cost ctx1 s) = book_cost ctx1 symbol + (\<Sum>s\<in>S - {symbol}. book_cost ctx1 s)"
    "(\<Sum>s\<in>S. book_cost ctx s) = book_cost ctx symbol + (\<Sum>s\<in>S - {symbol}. book_cost ctx s)"
    using Cons.prems(4) S by (simp_all add: sum.remove)
  moreover have "(\<Sum>s\<in>S - {symbol}. book_cost ctx1 s) = (\<Sum>s\<in>S - {symbol}. book_cost ctx s)"
    by (rule sum.cong) (auto simp: other)
  ultimately have diff: "(\<Sum>s\<in>S. book_cost ctx1 s) - (\<Sum>s\<in>S. book_cost ctx s) = book_cost ctx1 symbol - book_cost ctx symbol"
    by linarith
  have sum: "sum_list (map fill_cash (f # fs)) = fill_cash (symbol, side, qty, price) + sum_list (map fill_cash fs)"
    by (simp add: f)
  have turn: "turnover ctx (f # fs) = fill_turnover ctx (symbol, side, qty, price) + turnover ctx1 fs" by (simp add: f a)
  have pnl: "\<bar>pnl_sum - (sum_list (map fill_cash (f # fs)) + (\<Sum>s\<in>S. book_cost ctx' s) - (\<Sum>s\<in>S. book_cost ctx s))\<bar>
      \<le> 2 / 10 ^ 27 * turnover ctx (f # fs)"
    using acc [THEN conjunct1] IH [THEN conjunct1] diff unfolding pnl_sum sum turn distrib_left by linarith
  have "net_quantity ctx1 s = net_quantity ctx s + fill_quantity s f"
    using acc other(2) [of s] by (cases "s = symbol") (auto simp: f fill_quantity_def)
  with pnl IH show ?case by simp
qed simp

text \<open>
  C8. The book's realised profit is cash plus inventory: for any sequence of fills that never closes more
  than is open, starting from an empty book, the sum of the realised amounts is the cash the
  fills moved plus the cost at which the remaining positions stand, up to the roundings of \<open>Decimal\<close> to 28 digits, which
  are at most two parts in \<open>10 ^ 27\<close> of the amounts the fills were averaged and closed at. Each symbol's
  open quantity is exactly the sum of its signed fills, and the counter of open positions is the number of symbols in the
  book.
\<close>

theorem pnl_accounting_identity:
  assumes "cx_positions ctx = []" "ds_open_positions (cx_state ctx) = 0" "fills_fit ctx fs"
    and "apply_fills ctx fs = (pnl_sum, ctx')"
  shows "\<bar>pnl_sum - (sum_list (map fill_cash fs) + (\<Sum>s \<in> fst ` set fs. book_cost ctx' s))\<bar>
       \<le> 2 / 10 ^ 27 * turnover ctx fs \<and>
     (\<forall>s. net_quantity ctx' s = sum_list (map (fill_quantity s) fs)) \<and>
     ds_open_positions (cx_state ctx') = int (length (cx_positions ctx'))"
proof -
  have ok: "book_ok ctx" using assms(1,2) by (simp add: book_ok_def book_entries_ok_def)
  note acc = apply_fills_accounting [OF ok assms(3,4) _ order_refl]
  have "book_cost ctx s = 0" "net_quantity ctx s = 0" for s
    using assms(1) by (simp_all add: book_cost_def net_quantity_def)
  with acc show ?thesis by (simp add: book_ok_def)
qed

text \<open>Two buys at 100 and 101, of one and two contracts: the average is rounded.\<close>

definition sample_fills :: "book_fill list" where
  "sample_fills = [(''MNQ'', Side_BUY, 1, 100), (''MNQ'', Side_BUY, 2, 101), (''MNQ'', Side_SELL, 2, 110)]"

theorem pnl_accounting_identity_witness:
  "\<bar>fst (apply_fills sample_ctx sample_fills)
     - (- 100 - 202 + 220 + book_cost (snd (apply_fills sample_ctx sample_fills)) ''MNQ'')\<bar>
     \<le> 2 / 10 ^ 27 * turnover sample_ctx sample_fills"
proof -
  have "cx_positions sample_ctx = []" "ds_open_positions (cx_state sample_ctx) = 0" "fills_fit sample_ctx sample_fills"
    by (simp_all add: sample_ctx_def new_account_ctx_def new_daily_state_def sample_fills_def fill_fits_def apply_fill_def
        Let_def)
  from pnl_accounting_identity [OF this prod.collapse [symmetric]] show ?thesis
    by (simp add: sample_fills_def fill_cash_def signed_qty_def)
qed

text \<open>
  A closing fill that is larger than the open position loses its excess: the book ends without the
  symbol, as if flat, although the account now holds the difference on the other side, and only the
  closed part enters the realised profit.
\<close>

theorem overclosing_fill_drops_excess:
  assumes "map_of (cx_positions ctx) symbol = Some pos" "pe_side pos \<noteq> side" "pe_qty pos < qty"
    and "distinct (map fst (cx_positions ctx))" "0 < pe_qty pos"
    and "apply_fill ctx symbol side qty price = (delta, ctx')"
  shows "net_quantity ctx' symbol = 0 \<and>
     net_quantity ctx symbol + signed_qty side qty = signed_qty side (qty - pe_qty pos) \<and>
     \<bar>delta - (fill_cash (symbol, side, pe_qty pos, price) - book_cost ctx symbol)\<bar>
       \<le> 2 / 10 ^ 27 * (\<bar>price - pe_avg_price pos\<bar> * of_int (pe_qty pos))"
proof -
  have d: "pe_side pos = Side_BUY \<and> side = Side_SELL \<or> pe_side pos = Side_SELL \<and> side = Side_BUY"
    using opposite_sides [OF assms(2)] .
  have m: "min qty (pe_qty pos) = pe_qty pos" using assms(3) by simp
  define g where "g = (if pe_side pos = Side_BUY then price - pe_avg_price pos else pe_avg_price pos - price)"
  have "delta = dq (dq g * of_int (pe_qty pos))"
    using d assms(1,6) m by (auto simp: apply_fill_def Let_def g_def)
  moreover have "g * of_int (pe_qty pos) = fill_cash (symbol, side, pe_qty pos, price) - book_cost ctx symbol"
    using d assms(1) by (auto simp: g_def fill_cash_def book_cost_def signed_qty_def algebra_simps)
  moreover have "\<bar>g\<bar> = \<bar>price - pe_avg_price pos\<bar>" by (auto simp: g_def abs_minus_commute)
  moreover have "net_quantity ctx' symbol = 0 \<and>
      net_quantity ctx symbol + signed_qty side qty = signed_qty side (qty - pe_qty pos)"
    using d assms(1,6) m by (auto simp: apply_fill_def Let_def net_quantity_def delete_conv' signed_qty_def)
  ultimately show ?thesis using close_error [of "pe_qty pos" g] assms(5) by simp
qed

theorem overclosing_fill_drops_excess_witness:
  "net_quantity (snd (apply_fill (snd (apply_fill sample_ctx ''MNQ'' Side_BUY 1 100)) ''MNQ'' Side_SELL 3 110))
     ''MNQ'' = 0"
  using overclosing_fill_drops_excess [of "snd (apply_fill sample_ctx ''MNQ'' Side_BUY 1 100)" "''MNQ''"
      "\<lparr>pe_qty = 1, pe_avg_price = 100, pe_side = Side_BUY\<rparr>" Side_SELL 3 110, OF _ _ _ _ _ prod.collapse [symmetric]]
  by (simp add: sample_ctx_def new_account_ctx_def apply_fill_def)

section \<open>Plans stay within the limits\<close>

lemma int_trunc_ge_1: "1 \<le> int_trunc x \<Longrightarrow> 1 \<le> x"
proof -
  assume "1 \<le> int_trunc x"
  then have "0 \<le> x" by (auto simp: int_trunc_def split: if_splits)
  with int_trunc_le [of x] \<open>1 \<le> int_trunc x\<close> show "1 \<le> x"
    by (metis of_int_1 of_int_le_iff order_trans)
qed

lemma risk_evaluate_sized:
  assumes "risk_evaluate plan_id now su ctx = Inr p"
  obtains entry stop target shares where "su_entry_trigger su = Some entry"
    "su_stop_reference su = Some stop" "su_target_reference su = Some target" "entry \<noteq> stop"
    "shares = int_trunc (dq (dq (rc_account_size (cx_config ctx) * rc_max_position_risk_pct (cx_config ctx))
       / \<bar>dq (entry - stop)\<bar>))"
    "1 \<le> shares"
    "dq (rc_account_size (cx_config ctx) * rc_max_position_risk_pct (cx_config ctx)) \<le> ds_remaining_risk (cx_state ctx)"
    "ds_open_positions (cx_state ctx) < rc_max_open_positions (cx_config ctx)"
    "p = sized_plan plan_id now su (cx_config ctx) entry stop target shares"
    "2 \<le> rp_risk_reward_ratio p" "validate_levels p = Inr p"
proof -
  have val: "validate_levels q = Inr p \<Longrightarrow> q = p" for q
    by (auto simp: validate_levels_def split: if_splits)
  show thesis
    using assms
    by (auto simp: risk_evaluate_def Let_def check_daily_limits_def not_less not_le
        split: option.splits if_splits dest: val intro!: that)
qed

lemma sized_risk:
  fixes dollar rps :: dec
  assumes "1 \<le> int_trunc (dq (dollar / rps))" "0 < rps"
  shows "0 < dollar \<and> dq (rps * of_int (int_trunc (dq (dollar / rps)))) \<le> dollar * (1 + 2 / 10 ^ 27)"
proof -
  let ?n = "of_int (int_trunc (dq (dollar / rps))) :: rat" and ?k = "1 + 1 / (2 * 10 ^ 27) :: rat"
  have one: "1 \<le> dq (dollar / rps)" by (rule int_trunc_ge_1 [OF assms(1)])
  have "0 < dollar / rps"
  proof (rule ccontr)
    assume "\<not> 0 < dollar / rps"
    then have "dq (dollar / rps) \<le> dq 0" by (intro dq_mono) simp
    with one show False by simp
  qed
  with assms(2) have d: "0 < dollar" by (simp add: zero_less_divide_iff)
  have "?n \<le> dq (dollar / rps)" using one by (intro int_trunc_le) linarith
  also have "\<dots> \<le> dollar / rps * ?k" using dq_abs_upper [of "dollar / rps"] d assms(2) one by simp
  finally have "rps * ?n \<le> rps * (dollar / rps * ?k)" using assms(2) by (intro mult_left_mono) simp_all
  also have "\<dots> = dollar * ?k" using assms(2) by simp
  finally have "dq (rps * ?n) \<le> dq (dollar * ?k)" by (rule dq_mono)
  also have "\<dots> \<le> \<bar>dollar * ?k\<bar> * ?k" using dq_abs_upper [of "dollar * ?k"] by linarith
  also have "\<dots> = dollar * (?k * ?k)" using d by (simp add: abs_mult)
  also have "\<dots> \<le> dollar * (1 + 2 / 10 ^ 27)" using d by (intro mult_left_mono) simp_all
  finally show ?thesis using d by simp
qed

lemma risk_evaluate_plan:
  assumes "risk_evaluate plan_id now su ctx = Inr p"
  shows "rp_side p = infer_side su \<and>
     su_entry_trigger su = Some (rp_entry_price p) \<and> su_stop_reference su = Some (rp_stop_price p) \<and>
     su_target_reference su = Some (rp_target_price p) \<and>
     1 \<le> rp_position_size p \<and> 0 < rp_risk_amount p \<and> 0 \<le> rp_reward_amount p \<and>
     rp_risk_amount p = dq (\<bar>dq (rp_entry_price p - rp_stop_price p)\<bar> * of_int (rp_position_size p)) \<and>
     0 < dq (rc_account_size (cx_config ctx) * rc_max_position_risk_pct (cx_config ctx)) \<and>
     rp_risk_amount p \<le> dq (rc_account_size (cx_config ctx) * rc_max_position_risk_pct (cx_config ctx)) * (1 + 2 / 10 ^ 27) \<and>
     dq (rc_account_size (cx_config ctx) * rc_max_position_risk_pct (cx_config ctx))
       \<le> ds_remaining_risk (cx_state ctx) \<and>
     ds_open_positions (cx_state ctx) < rc_max_open_positions (cx_config ctx) \<and>
     2 \<le> fl (dq (rp_reward_amount p / rp_risk_amount p)) \<and> validate_levels p = Inr p"
proof -
  from risk_evaluate_sized [OF assms] obtain entry stop target shares where
    lv: "su_entry_trigger su = Some entry" "su_stop_reference su = Some stop"
      "su_target_reference su = Some target"
    and ne: "entry \<noteq> stop"
    and sz: "shares = int_trunc (dq (dq (rc_account_size (cx_config ctx) * rc_max_position_risk_pct (cx_config ctx))
       / \<bar>dq (entry - stop)\<bar>))"
    and shares: "1 \<le> shares"
    and lim: "dq (rc_account_size (cx_config ctx) * rc_max_position_risk_pct (cx_config ctx)) \<le> ds_remaining_risk (cx_state ctx)"
      "ds_open_positions (cx_state ctx) < rc_max_open_positions (cx_config ctx)"
    and p: "p = sized_plan plan_id now su (cx_config ctx) entry stop target shares"
    and rr: "2 \<le> rp_risk_reward_ratio p" "validate_levels p = Inr p" .
  have rps: "0 < \<bar>dq (entry - stop)\<bar>" using ne by simp
  note risk = sized_risk [OF shares [unfolded sz] rps, folded sz]
  have pos: "0 < dq (\<bar>dq (entry - stop)\<bar> * of_int shares)" using rps shares by (intro dq_pos mult_pos_pos) auto
  have rew: "0 \<le> dq (\<bar>dq (target - entry)\<bar> * of_int shares)" using shares by (intro dq_nonneg) simp
  have f: "rp_side p = infer_side su" "rp_entry_price p = entry" "rp_stop_price p = stop"
    "rp_target_price p = target" "rp_position_size p = shares"
    "rp_risk_amount p = dq (\<bar>dq (entry - stop)\<bar> * of_int shares)"
    "rp_reward_amount p = dq (\<bar>dq (target - entry)\<bar> * of_int shares)"
    unfolding p sized_plan_def Let_def by (simp_all only: trade_plan.simps)
  have "rp_risk_reward_ratio p = (if rp_risk_amount p \<noteq> 0 then fl (dq (rp_reward_amount p / rp_risk_amount p)) else 0)"
    by (simp only: p sized_plan_def Let_def trade_plan.simps)
  moreover have "rp_risk_amount p \<noteq> 0" using pos f(6) by linarith
  ultimately have "2 \<le> fl (dq (rp_reward_amount p / rp_risk_amount p))" using rr(1) by (simp only: if_True simp_thms)
  with f lv shares pos rew risk lim rr(2) show ?thesis by (simp only: simp_thms)
qed

lemma reward_at_least:
  fixes risk reward :: dec
  assumes "2 \<le> fl (dq (reward / risk))" "0 < risk" "0 \<le> reward"
  shows "2 * risk \<le> reward * ((1 + 1 / 2 ^ 53) * (1 + 2 / 10 ^ 27))"
proof -
  have nn: "0 \<le> reward / risk" using assms by simp
  have "dq (reward / risk) \<le> reward / risk * (1 + 1 / (2 * 10 ^ 27))"
    using dq_abs_upper [of "reward / risk"] nn dq_nonneg [OF nn] by simp
  also have "\<dots> \<le> reward / risk * (1 + 2 / 10 ^ 27)" using nn by (intro mult_left_mono) simp_all
  finally have "dq (reward / risk) * (1 + 1 / 2 ^ 53) \<le> reward / risk * (1 + 2 / 10 ^ 27) * (1 + 1 / 2 ^ 53)"
    by (intro mult_right_mono) simp_all
  then have "2 \<le> reward / risk * (1 + 2 / 10 ^ 27) * (1 + 1 / 2 ^ 53)"
    using fl_upper [OF dq_nonneg [OF nn]] assms(1) by linarith
  then have "2 * risk \<le> reward / risk * (1 + 2 / 10 ^ 27) * (1 + 1 / 2 ^ 53) * risk"
    using assms(2) by (intro mult_right_mono) auto
  also have "\<dots> = reward * ((1 + 1 / 2 ^ 53) * (1 + 2 / 10 ^ 27))"
  proof -
    have "reward / risk * a * b * risk = reward * (b * a)" for a b using assms(2) by simp
    then show ?thesis .
  qed
  finally show ?thesis .
qed

text \<open>
  C9. Every plan the engine forwards is within its account's limits as the engine counts them: the account is not
  halted and has room for another position, the size is at least one, the risk amount, which is the distance of entry
  and stop times the size, is at most the configured part of the account, and at most what the day's realised result
  leaves above the loss limit, at which the account would halt; the reward is at least twice the risk; and the stop and
  target are on the right sides. The amounts are rounded to 28 digits, which may exceed the limits by two parts in
  \<open>10 ^ 27\<close>, and the ratio is compared as a float. The risk amount
  is in points: the engine leaves out the point value of the instrument, with which the V1 evaluator
  multiplies, so the loss of a future in dollars is the amount times its point value.
\<close>

theorem forwarded_plan_within_limits:
  assumes "handle_setup plan_id now active e setup_id state = (Forwarded p, e')"
  shows "\<exists>ctx. map_of (re_accounts e) (re_default_account_id e) = Some ctx \<and>
     \<not> ds_is_halted (cx_state ctx) \<and> 1 \<le> rp_position_size p \<and>
     ds_open_positions (cx_state ctx) < rc_max_open_positions (cx_config ctx) \<and>
     rp_risk_amount p = dq (\<bar>dq (rp_entry_price p - rp_stop_price p)\<bar> * of_int (rp_position_size p)) \<and>
     rp_risk_amount p \<le> dq (rc_account_size (cx_config ctx) * rc_max_position_risk_pct (cx_config ctx)) * (1 + 2 / 10 ^ 27) \<and>
     rp_risk_amount p \<le> dq (ds_daily_loss_limit (cx_state ctx) + ds_realized_pnl (cx_state ctx)) * (1 + 2 / 10 ^ 27) \<and>
     2 * rp_risk_amount p \<le> rp_reward_amount p * ((1 + 1 / 2 ^ 53) * (1 + 2 / 10 ^ 27)) \<and>
     (if rp_side p = Side_BUY then rp_stop_price p < rp_entry_price p \<and> rp_entry_price p < rp_target_price p
      else rp_target_price p < rp_entry_price p \<and> rp_entry_price p < rp_stop_price p)"
proof -
  obtain ctx su where ctx: "map_of (re_accounts e) (re_default_account_id e) = Some ctx"
    "\<not> ds_is_halted (cx_state ctx)" and ev: "risk_evaluate plan_id now su ctx = Inr p"
    using assms
    by (auto simp: handle_setup_def Let_def split: if_splits option.splits sum.splits risk_error.splits)
  note pl = risk_evaluate_plan [OF ev]
  let ?dollar = "dq (rc_account_size (cx_config ctx) * rc_max_position_risk_pct (cx_config ctx))"
    and ?left = "dq (ds_daily_loss_limit (cx_state ctx) + ds_realized_pnl (cx_state ctx))"
  have "?dollar \<le> ?left" using pl by (auto simp: ds_remaining_risk_def max_def split: if_splits)
  then have "?dollar * (1 + 2 / 10 ^ 27) \<le> ?left * (1 + 2 / 10 ^ 27)" by (intro mult_right_mono) simp_all
  moreover have "rp_risk_amount p \<le> ?dollar * (1 + 2 / 10 ^ 27)" using pl by blast
  ultimately have "rp_risk_amount p \<le> ?left * (1 + 2 / 10 ^ 27)" by (rule order_trans [rotated])
  moreover have "2 * rp_risk_amount p \<le> rp_reward_amount p * ((1 + 1 / 2 ^ 53) * (1 + 2 / 10 ^ 27))"
    using pl by (intro reward_at_least) blast+
  moreover have "(if rp_side p = Side_BUY then rp_stop_price p < rp_entry_price p \<and> rp_entry_price p < rp_target_price p
      else rp_target_price p < rp_entry_price p \<and> rp_entry_price p < rp_stop_price p)"
    using pl by (auto simp: validate_levels_def split: if_splits)
  ultimately show ?thesis using ctx pl by blast
qed

theorem forwarded_plan_within_limits_witness:
  "rp_position_size sample_trade_plan = 125 \<and> 1 \<le> rp_position_size sample_trade_plan"
proof -
  have half: "dq (5 / 2) = 5 / 2" using dq_exact [of 25 1] by simp
  have "handle_setup ''p1'' 0 [sample_setup Setup_VWAP_RECLAIM] sample_engine ''s1'' SState_TRIGGERED
      = (Forwarded sample_trade_plan, sample_engine\<lparr>re_plans_generated := 1\<rparr>)"
    using dq_exact [of 2 0] dq_exact [of 5 0] dq_exact [of 125 0] dq_exact [of 250 0] dq_exact [of 500 0] dq_exact [of 625 0]
      fl_ge_int [of 2 "5/2"]
    by (simp add: half handle_setup_def get_setup_def sample_setup_def sample_engine_def build_account_contexts_def
        new_account_ctx_def new_daily_state_def sample_account_config_def risk_evaluate_def sample_trade_plan_def
        sized_plan_def check_daily_limits_def ds_remaining_risk_def validate_levels_def infer_side_def int_trunc_def Let_def)
  from forwarded_plan_within_limits [OF this] show ?thesis by (auto simp: sample_trade_plan_def sized_plan_def Let_def)
qed

definition long_setup_types :: "setup_type set" where
  "long_setup_types = {Setup_VWAP_UNDERCUT_RECLAIM, Setup_DEEP_EXHAUSTION_RECLAIM, Setup_HOD_BREAKOUT,
     Setup_TREND_PULLBACK, Setup_RELATIVE_STRENGTH_BREAKOUT, Setup_ONL_SWEEP_RECLAIM_LONG,
     Setup_DOUBLE_BOTTOM_RECLAIM_LONG}"

text \<open>
  Seven setup types that buy are taken for sells, so that a long setup of such a type, with its stop below
  and its target above the entry, never becomes a plan: when it passes the risk checks the plan's
  validator raises, and that exception leaves the handler without counting as a rejection.
\<close>

theorem long_setups_taken_for_short:
  assumes "su_setup_type su \<in> long_setup_types"
    and "su_entry_trigger su = Some entry" "su_stop_reference su = Some stop"
    and "su_target_reference su = Some target" "stop < entry" "entry < target"
    and "get_setup active setup_id = Some su"
    and "handle_setup plan_id now active e setup_id state = (out, e')"
  shows "(\<forall>p. out \<noteq> Forwarded p) \<and>
     (state = SState_TRIGGERED \<and> map_of (re_accounts e) (re_default_account_id e) = Some ctx \<and>
      \<not> ds_is_halted (cx_state ctx) \<and> (\<forall>v. risk_evaluate plan_id now su ctx \<noteq> Inl (Risk_violation v)) \<longrightarrow>
      out = Raised Plan_validation_error \<and> e' = e)"
proof -
  have side: "infer_side su = Side_SELL"
    using assms(1) by (auto simp: infer_side_def long_setup_types_def)
  have none: "risk_evaluate plan_id now su ctx \<noteq> Inr p" for ctx p
  proof
    assume "risk_evaluate plan_id now su ctx = Inr p"
    from risk_evaluate_plan [OF this] side assms(2-6) show False
      by (auto simp: validate_levels_def split: if_splits)
  qed
  then have "(\<forall>v. risk_evaluate plan_id now su ctx \<noteq> Inl (Risk_violation v)) \<longrightarrow>
      risk_evaluate plan_id now su ctx = Inl Plan_validation_error"
    by (metis risk_error.exhaust sum.exhaust)
  with assms(7,8) none show ?thesis
    by (auto simp: handle_setup_def Let_def split: if_splits option.splits sum.splits risk_error.splits)
qed

theorem long_setups_taken_for_short_witness:
  "fst (handle_setup ''p1'' 0 [sample_setup Setup_TREND_PULLBACK] sample_engine ''s1'' SState_TRIGGERED)
     \<noteq> Forwarded sample_trade_plan"
  using long_setups_taken_for_short [of "sample_setup Setup_TREND_PULLBACK" 100 98 105
      "[sample_setup Setup_TREND_PULLBACK]" "''s1''", OF _ _ _ _ _ _ _ prod.collapse [symmetric]]
  by (simp add: sample_setup_def long_setup_types_def get_setup_def)

section \<open>The kill switch\<close>

definition kill_condition :: "account_ctx \<Rightarrow> bool" where
  "kill_condition ctx \<longleftrightarrow>
     ds_current_pnl (cx_state ctx) + ds_daily_loss_limit (cx_state ctx) \<le> 0 \<or>
     (rc_profit_protect_activation (cx_config ctx) \<le> ds_session_high_pnl (cx_state ctx) \<and>
      dq (ds_session_high_pnl (cx_state ctx) * rc_profit_protect_giveback_pct (cx_config ctx))
        \<le> dq (ds_session_high_pnl (cx_state ctx) - ds_current_pnl (cx_state ctx)))"

lemma check_kill_switch_iff: "check_kill_switch ctx \<noteq> None \<longleftrightarrow> kill_condition ctx"
  by (auto simp: check_kill_switch_def kill_condition_def Let_def)

lemma halt_if_needed_cases:
  assumes "halt_if_needed now orders ctx = (ctx', calls)"
  obtains (halted) reason where "kill_condition ctx" "\<not> ds_is_halted (cx_state ctx)"
      "check_kill_switch ctx = Some reason"
      "ctx' = ctx\<lparr>cx_state := (cx_state ctx)\<lparr>ds_is_halted := True, ds_halt_reason := Some reason,
         ds_halt_time := Some now\<rparr>\<rparr>"
      "calls = (if rc_kill_switch_flatten (cx_config ctx) then flatten_account orders ctx' else [])"
  | (unchanged) "\<not> kill_condition ctx \<or> ds_is_halted (cx_state ctx)" "ctx' = ctx" "calls = []"
  using assms check_kill_switch_iff [of ctx]
  by (auto simp: halt_if_needed_def trigger_halt_def Let_def split: option.splits if_splits)

lemma kill_condition_cong:
  "kill_condition (ctx\<lparr>cx_state := (cx_state ctx)\<lparr>ds_is_halted := b, ds_halt_reason := r,
     ds_halt_time := t\<rparr>\<rparr>) = kill_condition ctx"
  by (simp add: kill_condition_def ds_current_pnl_def)

lemma raise_high_water_bound: "ds_current_pnl (raise_high_water s) \<le> ds_session_high_pnl (raise_high_water s)"
  by (auto simp: raise_high_water_def ds_current_pnl_def)

text \<open>
  C7. The kill switch is exact: a fill on an account that is not halted halts it if and only if the day's
  result after the fill is at the loss limit or below, or has given back the configured part of a
  session high that reached the activation threshold; the halt names the reason, and with flattening
  configured it orders every open position of the book closed, in full and on the opposite side.
\<close>

theorem kill_switch_exact:
  assumes "book_fill now orders ctx symbol side qty price = (ctx', calls)" "\<not> ds_is_halted (cx_state ctx)"
  shows "(ds_is_halted (cx_state ctx') \<longleftrightarrow> kill_condition ctx') \<and>
     ds_current_pnl (cx_state ctx') \<le> ds_session_high_pnl (cx_state ctx') \<and>
     (\<not> ds_is_halted (cx_state ctx') \<longrightarrow> calls = []) \<and>
     (ds_is_halted (cx_state ctx') \<longrightarrow>
        ds_halt_reason (cx_state ctx') = check_kill_switch ctx' \<and> ds_halt_time (cx_state ctx') = Some now \<and>
        (rc_kill_switch_flatten (cx_config ctx') \<longrightarrow> (\<forall>(s, pos) \<in> set (cx_positions ctx').
           Submit_close (rc_account_id (cx_config ctx')) s (opposite_side (pe_side pos)) (pe_qty pos) \<in> set calls)))"
proof -
  obtain c where c: "halt_if_needed now orders c = (ctx', calls)"
    and live: "\<not> ds_is_halted (cx_state c)"
    and high: "ds_current_pnl (cx_state c) \<le> ds_session_high_pnl (cx_state c)"
  proof -
    obtain delta c1 where d: "apply_fill ctx symbol side qty price = (delta, c1)" by force
    have l1: "ds_is_halted (cx_state c1) = ds_is_halted (cx_state ctx)"
      using d by (auto simp: apply_fill_def Let_def split: option.splits if_splits)
    define c2 where "c2 = (if delta \<noteq> 0 then
        (let s = (cx_state c1)\<lparr>ds_realized_pnl := dq (ds_realized_pnl (cx_state c1) + delta),
                   ds_trades_taken := ds_trades_taken (cx_state c1) + 1\<rparr>
         in c1\<lparr>cx_state := s\<lparr>ds_risk_consumed_pct := risk_consumed s\<rparr>\<rparr>) else c1)"
    have "halt_if_needed now orders (c2\<lparr>cx_state := raise_high_water (cx_state c2)\<rparr>) = (ctx', calls)"
      using assms(1) by (simp only: book_fill_def d c2_def Let_def case_prod_conv)
    moreover have "\<not> ds_is_halted (raise_high_water (cx_state c2))"
      using l1 assms(2) by (simp add: c2_def raise_high_water_def Let_def)
    ultimately show thesis using raise_high_water_bound by (intro that) auto
  qed
  from c show ?thesis
  proof (cases rule: halt_if_needed_cases)
    case (halted reason)
    have same: "check_kill_switch ctx' = check_kill_switch c"
      by (simp add: halted(4) check_kill_switch_def ds_current_pnl_def Let_def)
    have "\<forall>(s, pos) \<in> set (cx_positions ctx').
        Submit_close (rc_account_id (cx_config ctx')) s (opposite_side (pe_side pos)) (pe_qty pos)
        \<in> set (flatten_account orders ctx')"
      by (force simp: flatten_account_def)
    with halted high same show ?thesis
      by (auto simp: kill_condition_cong ds_current_pnl_def)
  next
    case unchanged
    with live high show ?thesis by simp
  qed
qed

theorem kill_switch_exact_witness:
  "ds_is_halted (cx_state (fst (book_fill 0 [] (snd (apply_fill sample_ctx ''MNQ'' Side_BUY 1 1000)) ''MNQ''
     Side_SELL 1 100)))"
proof -
  define bought where "bought = snd (apply_fill sample_ctx ''MNQ'' Side_BUY 1 1000)"
  have sold: "apply_fill bought ''MNQ'' Side_SELL 1 100 = (- 900, sample_ctx)"
    using dq_uminus [of 900] dq_exact [of 900 0]
    by (simp add: bought_def sample_ctx_def new_account_ctx_def new_daily_state_def apply_fill_def Let_def)
  have "dq (- 900) = - 900" "dq 500 = 500" using dq_uminus [of 900] dq_exact [of 900 0] dq_exact [of 500 0] by simp_all
  then have "kill_condition (fst (book_fill 0 [] bought ''MNQ'' Side_SELL 1 100))"
    unfolding book_fill_def sold
    by (simp add: Let_def halt_if_needed_def check_kill_switch_def trigger_halt_def kill_condition_def ds_current_pnl_def
        raise_high_water_def sample_ctx_def new_account_ctx_def new_daily_state_def sample_account_config_def)
  moreover have "\<not> ds_is_halted (cx_state bought)"
    by (simp add: bought_def sample_ctx_def new_account_ctx_def new_daily_state_def apply_fill_def)
  ultimately show ?thesis using kill_switch_exact [OF prod.collapse [symmetric]] unfolding bought_def by blast
qed

section \<open>Sessions\<close>

datatype risk_event =
  Setup_event uuid timestamp "setup_view list" uuid setup_state
| Update_event timestamp "broker_order list" order_update
| Sync_event timestamp "broker_order list" bool "string \<Rightarrow> broker_reply"
| Rollover_event string

text \<open>A step yields the next engine and the plans it forwarded.\<close>

fun risk_step :: "risk_engine \<Rightarrow> risk_event \<Rightarrow> risk_engine \<times> trade_plan list" where
  "risk_step e (Setup_event plan_id now active setup_id state) =
     (case handle_setup plan_id now active e setup_id state of
        (Forwarded p, e') \<Rightarrow> (e', [p]) | (_, e') \<Rightarrow> (e', []))"
| "risk_step e (Update_event now orders u) = (fst (handle_order_update now orders e u), [])"
| "risk_step e (Sync_event now orders conn replies) = (fst (sync_broker_pnl now orders conn replies e), [])"
| "risk_step e (Rollover_event today) = (check_day_rollover today e, [])"

fun risk_run :: "risk_engine \<Rightarrow> risk_event list \<Rightarrow> risk_engine \<times> trade_plan list" where
  "risk_run e [] = (e, [])"
| "risk_run e (ev # evs) =
     (let (e1, ps) = risk_step e ev; (e2, qs) = risk_run e1 evs in (e2, ps @ qs))"

definition halted_on :: "string \<Rightarrow> account_ctx \<Rightarrow> bool" where
  "halted_on day ctx \<longleftrightarrow> ds_is_halted (cx_state ctx) \<and> ds_date (cx_state ctx) = day"

lemma halted_on_halt_if_needed: "halted_on day ctx \<Longrightarrow> fst (halt_if_needed now orders ctx) = ctx"
  by (auto simp: halted_on_def halt_if_needed_def split: option.split)

lemma apply_fill_state:
  "apply_fill ctx symbol side qty price = (delta, ctx') \<Longrightarrow>
   ds_is_halted (cx_state ctx') = ds_is_halted (cx_state ctx) \<and> ds_date (cx_state ctx') = ds_date (cx_state ctx)"
  by (auto simp: apply_fill_def Let_def split: option.splits if_splits)

lemma raise_high_water_state [simp]:
  "ds_is_halted (raise_high_water s) = ds_is_halted s" "ds_date (raise_high_water s) = ds_date s"
  "ds_realized_pnl (raise_high_water s) = ds_realized_pnl s"
  by (simp_all add: raise_high_water_def)

lemma halted_on_book_fill:
  assumes "halted_on day ctx"
  shows "halted_on day (fst (book_fill now orders ctx symbol side qty price))"
proof -
  obtain delta c1 where d: "apply_fill ctx symbol side qty price = (delta, c1)" by force
  note st = apply_fill_state [OF d]
  show ?thesis
    using assms st
    by (auto simp: book_fill_def d Let_def halted_on_def halt_if_needed_def split: option.split)
qed

lemma halted_on_sync: "halted_on day ctx \<Longrightarrow> halted_on day (fst (sync_account now orders reply ctx))"
  by (auto simp: sync_account_def Let_def halted_on_def halt_if_needed_def split: option.split)

lemma map_of_sync:
  "map_of (fst (sync_accounts now orders replies al)) a
     = map_option (\<lambda>ctx. fst (sync_account now orders (replies a) ctx)) (map_of al a)"
  by (induction al) (auto simp: Let_def case_prod_beta)

lemma map_of_rollover:
  "map_of (map (\<lambda>(aid, ctx). (aid, reset_account today ctx)) al) a = map_option (reset_account today) (map_of al a)"
  by (induction al) auto

definition account_halted_on :: "string \<Rightarrow> string \<Rightarrow> risk_engine \<Rightarrow> bool" where
  "account_halted_on a day e \<longleftrightarrow> (\<exists>ctx. map_of (re_accounts e) a = Some ctx \<and> halted_on day ctx)"

lemma account_halted_on_step:
  assumes "account_halted_on a day e" "ev \<in> range Rollover_event \<Longrightarrow> ev = Rollover_event day"
  shows "account_halted_on a day (fst (risk_step e ev)) \<and>
     re_default_account_id (fst (risk_step e ev)) = re_default_account_id e"
proof -
  obtain ctx where ctx: "map_of (re_accounts e) a = Some ctx" "halted_on day ctx"
    using assms(1) by (auto simp: account_halted_on_def)
  show ?thesis
  proof (cases ev)
    case (Setup_event plan_id now active setup_id state)
    have "re_accounts (snd (handle_setup plan_id now active e setup_id state)) = re_accounts e \<and>
        re_default_account_id (snd (handle_setup plan_id now active e setup_id state)) = re_default_account_id e"
      by (auto simp: handle_setup_def Let_def split: option.split sum.split risk_error.split)
    with assms(1) Setup_event show ?thesis
      by (auto simp: account_halted_on_def split: prod.split setup_outcome.split)
  next
    case (Update_event now orders u)
    with ctx show ?thesis
      using halted_on_book_fill [OF ctx(2)]
      by (auto simp: handle_order_update_def account_halted_on_def Let_def update_conv' case_prod_beta
          split: option.split)
  next
    case (Sync_event now orders conn replies)
    with ctx show ?thesis
      using halted_on_sync [OF ctx(2)]
      by (auto simp: sync_broker_pnl_def account_halted_on_def Let_def case_prod_beta map_of_sync)
  next
    case (Rollover_event today)
    with assms(2) ctx have "reset_account today ctx = ctx" by (auto simp: reset_account_def halted_on_def)
    with ctx Rollover_event show ?thesis
      by (auto simp: check_day_rollover_def account_halted_on_def map_of_rollover)
  qed
qed

text \<open>
  A halt lasts until the session date changes: once the account that trades is halted, no sequence of
  setups, fills, broker synchronisations and rollover checks of the same date forwards a plan or lifts
  the halt, whatever the profit does meanwhile.
\<close>

theorem halt_lasts_until_rollover:
  assumes "account_halted_on (re_default_account_id e) day e"
    and "\<forall>today. Rollover_event today \<in> set evs \<longrightarrow> today = day"
    and "risk_run e evs = (e', plans)"
  shows "plans = [] \<and> account_halted_on (re_default_account_id e) day e'"
  using assms
proof (induction evs arbitrary: e plans)
  case (Cons ev evs)
  have roll: "ev \<in> range Rollover_event \<Longrightarrow> ev = Rollover_event day" using Cons.prems(2) by auto
  note st = account_halted_on_step [OF Cons.prems(1) roll]
  obtain ctx where "map_of (re_accounts e) (re_default_account_id e) = Some ctx" "ds_is_halted (cx_state ctx)"
    using Cons.prems(1) by (auto simp: account_halted_on_def halted_on_def)
  then have "snd (risk_step e ev) = []"
    by (cases ev) (auto simp: handle_setup_def Let_def split: option.split)
  moreover obtain plans' where "risk_run (fst (risk_step e ev)) evs = (e', plans')"
    "plans = snd (risk_step e ev) @ plans'"
    using Cons.prems(3) by (auto simp: Let_def split: prod.splits)
  ultimately show ?case using Cons.IH [of "fst (risk_step e ev)" plans'] st Cons.prems(2) by auto
qed simp

theorem halt_lasts_until_rollover_witness:
  "snd (risk_run halted_engine [Rollover_event ''2025-01-02'',
     Setup_event ''p1'' 0 [sample_setup Setup_VWAP_RECLAIM] ''s1'' SState_TRIGGERED]) = []"
proof -
  have "re_default_account_id halted_engine = ''default''"
    "account_halted_on ''default'' ''2025-01-02'' halted_engine"
    by (simp_all add: halted_engine_def sample_engine_def build_account_contexts_def account_halted_on_def
        halted_on_def sample_ctx_def new_account_ctx_def new_daily_state_def Let_def)
  then show ?thesis
    using halt_lasts_until_rollover [of halted_engine "''2025-01-02''" "[Rollover_event ''2025-01-02'',
      Setup_event ''p1'' 0 [sample_setup Setup_VWAP_RECLAIM] ''s1'' SState_TRIGGERED]", OF _ _ prod.collapse [symmetric]]
    by simp
qed

lemma sync_without_summary_skips_kill_switch:
  "br_pnl reply = Some (realized, unrealized) \<Longrightarrow> br_summary reply = None \<Longrightarrow>
   sync_account now orders reply ctx = (ctx', calls) \<Longrightarrow>
   calls = [] \<and> ds_is_halted (cx_state ctx') = ds_is_halted (cx_state ctx) \<and>
   ds_realized_pnl (cx_state ctx') = round_cents realized"
  by (auto simp: sync_account_def Let_def)

end
