(* ===== verification/Order_Engine.thy ===== *)
theory Order_Engine
  imports Risk_Engine State_Machines
begin

text \<open>
  The order engine, \<^verbatim>\<open>src/alpha/engines/order/engine.py\<close>: the choice of the adapter, the
  conversion of a plan into an order, the order table and the update events. The broker adapter
  (\<^verbatim>\<open>order/adapters\<close>) is a parameter: what its \<open>submit_order\<close> and \<open>cancel_order\<close> answer. The last
  section runs the close orders of a kill switch through the risk engine's book.
\<close>

section \<open>State\<close>

datatype order_failure = No_adapter | Adapter_error string

text \<open>Adapters in the order of their registration, each with its source and whether it is paper.\<close>

record order_engine =
  oe_mode :: runtime_mode
  oe_adapters :: "(string \<times> bool) list"
  oe_orders :: "(uuid \<times> broker_order) list"
  oe_orders_submitted :: int
  oe_orders_filled :: int

definition register_adapter :: "order_engine \<Rightarrow> string \<Rightarrow> bool \<Rightarrow> order_engine" where
  "register_adapter e source_id is_paper = e\<lparr>oe_adapters := AList.update source_id is_paper (oe_adapters e)\<rparr>"

definition primary_adapter :: "order_engine \<Rightarrow> order_failure + string" where
  "primary_adapter e =
     (let prefer_paper = oe_mode e \<in> {Mode_PAPER, Mode_REPLAY, Mode_HISTORICAL_BACKFILL}
      in case find (\<lambda>(sid, paper). prefer_paper \<and> paper) (oe_adapters e) of
           Some (sid, _) \<Rightarrow> Inr sid
         | None \<Rightarrow> (case oe_adapters e of (sid, _) # _ \<Rightarrow> Inr sid | [] \<Rightarrow> Inl No_adapter))"

section \<open>Operations\<close>

definition plan_to_intent :: "uuid \<Rightarrow> timestamp \<Rightarrow> trade_plan \<Rightarrow> order_intent" where
  "plan_to_intent intent_id now p =
     \<lparr>oi_intent_id = intent_id, oi_plan_id = rp_plan_id p, oi_symbol = rp_symbol p,
      oi_side = rp_side p, oi_order_type = OType_LIMIT, oi_quantity = rp_position_size p,
      oi_limit_price = Some (rp_entry_price p), oi_stop_price = Some (rp_stop_price p),
      oi_time_in_force = TIF_DAY, oi_created_at = now, oi_account_id = rp_account_id p,
      oi_notes = []\<rparr>"

definition close_intent ::
  "uuid \<Rightarrow> uuid \<Rightarrow> timestamp \<Rightarrow> string \<Rightarrow> string \<Rightarrow> order_side \<Rightarrow> int \<Rightarrow> order_intent" where
  "close_intent intent_id plan_id now account_id symbol side quantity =
     \<lparr>oi_intent_id = intent_id, oi_plan_id = plan_id, oi_symbol = symbol, oi_side = side,
      oi_order_type = OType_MARKET, oi_quantity = quantity, oi_limit_price = None,
      oi_stop_price = None, oi_time_in_force = TIF_DAY, oi_created_at = now,
      oi_account_id = account_id, oi_notes = ''kill_switch_flatten''\<rparr>"

definition emit_update :: "broker_order \<Rightarrow> order_update" where
  "emit_update ord =
     \<lparr>ou_order_id = or_order_id ord, ou_symbol = or_symbol ord, ou_status = or_status ord,
      ou_filled_quantity = or_filled_quantity ord, ou_avg_fill_price = or_avg_fill_price ord,
      ou_account_id = or_account_id ord, ou_side = Some (or_side ord)\<rparr>"

text \<open>
  Both submissions: the adapter's answer, or any exception, which is logged and becomes \<open>None\<close>.
\<close>

definition submit_to_adapter ::
  "(string \<Rightarrow> order_intent \<Rightarrow> order_failure + broker_order) \<Rightarrow> order_intent \<Rightarrow> order_engine \<Rightarrow>
   broker_order option \<times> order_engine \<times> order_update list" where
  "submit_to_adapter reply intent e =
     (case primary_adapter e of
        Inl _ \<Rightarrow> (None, e, [])
      | Inr sid \<Rightarrow>
          (case reply sid intent of
             Inl _ \<Rightarrow> (None, e, [])
           | Inr ord \<Rightarrow>
               (Some ord,
                e\<lparr>oe_orders := AList.update (or_order_id ord) ord (oe_orders e),
                  oe_orders_submitted := oe_orders_submitted e + 1\<rparr>,
                [emit_update ord])))"

definition order_submit_plan ::
  "(string \<Rightarrow> order_intent \<Rightarrow> order_failure + broker_order) \<Rightarrow> uuid \<Rightarrow> timestamp \<Rightarrow> trade_plan \<Rightarrow>
   order_engine \<Rightarrow> broker_order option \<times> order_engine \<times> order_update list" where
  "order_submit_plan reply intent_id now p e = submit_to_adapter reply (plan_to_intent intent_id now p) e"

definition submit_close_order ::
  "(string \<Rightarrow> order_intent \<Rightarrow> order_failure + broker_order) \<Rightarrow> uuid \<Rightarrow> uuid \<Rightarrow> timestamp \<Rightarrow> string \<Rightarrow>
   string \<Rightarrow> order_side \<Rightarrow> int \<Rightarrow> order_engine \<Rightarrow>
   broker_order option \<times> order_engine \<times> order_update list" where
  "submit_close_order reply intent_id plan_id now account_id symbol side quantity e =
     submit_to_adapter reply (close_intent intent_id plan_id now account_id symbol side quantity) e"

definition order_cancel ::
  "(string \<Rightarrow> string \<Rightarrow> bool) \<Rightarrow> order_engine \<Rightarrow> uuid \<Rightarrow> order_failure + bool" where
  "order_cancel reply e order_id =
     (case map_of (oe_orders e) order_id of
        None \<Rightarrow> Inr False
      | Some ord \<Rightarrow>
          (case or_broker_order_id ord of
             None \<Rightarrow> Inr False
           | Some bid \<Rightarrow>
               (case primary_adapter e of Inl err \<Rightarrow> Inl err | Inr sid \<Rightarrow> Inr (reply sid bid))))"

definition get_open_orders :: "order_engine \<Rightarrow> broker_order list" where
  "get_open_orders e = [ord \<leftarrow> map snd (oe_orders e). \<not> or_is_terminal ord]"

definition adapter_order_update :: "broker_order \<Rightarrow> order_engine \<Rightarrow> order_engine \<times> order_update list" where
  "adapter_order_update ord e =
     (e\<lparr>oe_orders := AList.update (or_order_id ord) ord (oe_orders e),
        oe_orders_filled := oe_orders_filled e + (if or_status ord = Order_FILLED then 1 else 0)\<rparr>,
      [emit_update ord])"

section \<open>Open orders\<close>

text \<open>
  What the order engine takes for open is not what the order state machine takes for live: an order the
  broker rejected or replaced is in a terminal state of the table, but the property of the order
  model does not count it as terminal, so it stays in the list of open orders.
\<close>

theorem open_orders_include_dead_ones:
  "set (get_open_orders e) =
     {ord \<in> snd ` set (oe_orders e).
        or_status ord \<in> (- ORDER_TERMINAL_STATES) \<union> {Order_BROKER_REJECTED, Order_REPLACED}} \<and>
   {Order_BROKER_REJECTED, Order_REPLACED} \<subseteq> ORDER_TERMINAL_STATES"
proof -
  have "\<not> or_is_terminal ord \<longleftrightarrow>
      or_status ord \<in> (- ORDER_TERMINAL_STATES) \<union> {Order_BROKER_REJECTED, Order_REPLACED}" for ord
    by (cases "or_status ord") (simp_all add: or_is_terminal_def ORDER_TERMINAL_STATES_def)
  then show ?thesis by (auto simp: get_open_orders_def ORDER_TERMINAL_STATES_def)
qed

section \<open>A flattened account\<close>

text \<open>The fill the risk engine books when a close order fills at the price of its symbol.\<close>

definition close_fill :: "(string \<Rightarrow> dec) \<Rightarrow> order_call \<Rightarrow> book_fill list" where
  "close_fill price call =
     (case call of Cancel_order _ \<Rightarrow> [] | Submit_close account s side q \<Rightarrow> [(s, side, q, price s)])"

lemma apply_fill_close_head:
  assumes "cx_positions ctx = (s, pos) # ps" "book_ok ctx"
  shows "cx_positions (snd (apply_fill ctx s (opposite_side (pe_side pos)) (pe_qty pos) price)) = ps"
proof -
  have d: "pe_side pos = Side_BUY \<and> opposite_side (pe_side pos) = Side_SELL \<or>
      pe_side pos = Side_SELL \<and> opposite_side (pe_side pos) = Side_BUY"
    by (cases "pe_side pos") auto
  have "\<forall>x \<in> set ps. s \<noteq> fst x"
    using assms by (auto simp: book_ok_def book_entries_ok_def)
  then have "AList.delete s ((s, pos) # ps) = ps" by (auto simp: AList.delete_eq filter_id_conv)
  with d assms(1) show ?thesis by (auto simp: apply_fill_def Let_def)
qed

lemma flatten_fills:
  "concat (map (close_fill price) (flatten_account orders ctx))
   = map (\<lambda>(s, pos). (s, opposite_side (pe_side pos), pe_qty pos, price s)) (cx_positions ctx)"
proof -
  have "concat (map (close_fill price) (map (\<lambda>ord. Cancel_order (or_order_id ord)) xs)) = []"
    for xs :: "broker_order list"
    by (induction xs) (simp_all add: close_fill_def)
  moreover have "concat (map (close_fill price) (map (\<lambda>(s, pos). Submit_close a s (opposite_side (pe_side pos)) (pe_qty pos)) xs))
     = map (\<lambda>(s, pos). (s, opposite_side (pe_side pos), pe_qty pos, price s)) xs"
    for a and xs :: "(string \<times> position_entry) list"
    by (induction xs) (auto simp: close_fill_def)
  ultimately show ?thesis
    unfolding flatten_account_def map_append concat_append by (simp only: append_Nil)
qed

text \<open>
  A flattening closes everything: when each close order the kill switch submits is filled, at whatever
  prices, the risk engine's book is empty afterwards and its counter of open positions is zero.
\<close>

theorem flatten_empties_book:
  assumes "book_ok ctx"
  shows "cx_positions (snd (apply_fills ctx (concat (map (close_fill price) (flatten_account orders ctx))))) = [] \<and>
     ds_open_positions (cx_state (snd (apply_fills ctx (concat (map (close_fill price) (flatten_account orders ctx)))))) = 0"
proof -
  have "cx_positions (snd (apply_fills ctx (map (\<lambda>(s, pos). (s, opposite_side (pe_side pos), pe_qty pos, price s)) ps))) = []
      \<and> book_ok (snd (apply_fills ctx (map (\<lambda>(s, pos). (s, opposite_side (pe_side pos), pe_qty pos, price s)) ps)))"
    if "cx_positions ctx = ps" "book_ok ctx" for ps ctx
    using that
  proof (induction ps arbitrary: ctx)
    case (Cons a ps)
    obtain s pos where a: "a = (s, pos)" by (cases a)
    let ?ctx1 = "snd (apply_fill ctx s (opposite_side (pe_side pos)) (pe_qty pos) (price s))"
    have q: "0 < pe_qty pos" using Cons.prems a by (auto simp: book_ok_def book_entries_ok_def)
    have 1: "cx_positions ?ctx1 = ps" using Cons.prems a by (intro apply_fill_close_head) auto
    have 2: "book_ok ?ctx1" by (rule apply_fill_book_ok [OF Cons.prems(2) q prod.collapse [symmetric]])
    from Cons.IH [OF 1 2] show ?case by (simp add: a Let_def case_prod_beta)
  qed simp
  from this [OF refl assms] show ?thesis by (simp add: flatten_fills book_ok_def)
qed

theorem flatten_empties_book_witness:
  "cx_positions (snd (apply_fills (snd (apply_fill sample_ctx ''MNQ'' Side_BUY 2 100))
     (concat (map (close_fill (\<lambda>_. 90)) (flatten_account [] (snd (apply_fill sample_ctx ''MNQ'' Side_BUY 2 100))))))) = []"
  by (rule flatten_empties_book [THEN conjunct1])
     (simp add: book_ok_def book_entries_ok_def apply_fill_def sample_ctx_def new_account_ctx_def new_daily_state_def)

end
