(* ===== verification/Ingestion_Monitor.thy ===== *)
theory Ingestion_Monitor
  imports Numerics Enums
begin

text \<open>
  The data quality tracker, \<^verbatim>\<open>src/alpha/engines/live/monitor.py\<close>: one state machine per symbol,
  driven by bars, records, the periodic health check and the feed's overload warnings. The local
  time of day in New York is a parameter of the health check. An f-string is a constructor with
  its values.
\<close>

section \<open>State\<close>

datatype quality_reason =
  Plain_reason string
| Bar_lag rat int
| Bar_gap timestamp timestamp
| Joined_reasons "quality_reason list"
| Silence rat int
| Clean_bars int int

record symbol_state =
  ss_quality :: data_quality_state
  ss_degraded_reason :: "quality_reason option"
  ss_last_record_at :: "timestamp option"
  ss_last_bar_at :: "timestamp option"
  ss_last_bar_event_ts :: "timestamp option"
  ss_consecutive_clean :: int

type_synonym ingestion_monitor = "string \<rightharpoonup> symbol_state"

definition fresh_symbol_state :: symbol_state where
  "fresh_symbol_state =
     \<lparr>ss_quality = Quality_CLEAN, ss_degraded_reason = None, ss_last_record_at = None,
      ss_last_bar_at = None, ss_last_bar_event_ts = None, ss_consecutive_clean = 0\<rparr>"

definition monitor_init :: "string list \<Rightarrow> ingestion_monitor" where
  "monitor_init symbols = (\<lambda>s. if s \<in> set symbols then Some fresh_symbol_state else None)"

definition BAR_LAG_WARN_MS :: int where "BAR_LAG_WARN_MS = 250"
definition SILENCE_DEGRADED_S :: int where "SILENCE_DEGRADED_S = 30"
definition FAILED_S :: int where "FAILED_S = 300"
definition CLEAN_BARS_NEEDED :: int where "CLEAN_BARS_NEEDED = 2"

text \<open>\<open>minutes\<close> is the minute of the day in New York.\<close>

definition is_rth :: "(timestamp \<Rightarrow> int) \<Rightarrow> timestamp \<Rightarrow> bool" where
  "is_rth minutes now \<longleftrightarrow> 9 * 60 + 30 \<le> minutes now \<and> minutes now < 16 * 60"

section \<open>Transitions of one symbol\<close>

definition set_state :: "data_quality_state \<Rightarrow> quality_reason option \<Rightarrow> symbol_state \<Rightarrow> symbol_state" where
  "set_state q reason st = st\<lparr>ss_quality := q, ss_degraded_reason := reason\<rparr>"

definition degrade :: "quality_reason \<Rightarrow> symbol_state \<Rightarrow> symbol_state" where
  "degrade reason st =
     (let st = st\<lparr>ss_consecutive_clean := 0\<rparr>
      in if ss_quality st \<notin> {Quality_DEGRADED, Quality_FAILED}
         then set_state Quality_DEGRADED (Some reason) st
         else st\<lparr>ss_degraded_reason := Some reason\<rparr>)"

definition record_clean_bar :: "symbol_state \<Rightarrow> symbol_state" where
  "record_clean_bar st =
     (if ss_quality st = Quality_CLEAN then st
      else if ss_quality st = Quality_FAILED then st
      else
        (let st = st\<lparr>ss_consecutive_clean := ss_consecutive_clean st + 1\<rparr>
         in if ss_consecutive_clean st \<ge> CLEAN_BARS_NEEDED
            then (set_state Quality_CLEAN None st)\<lparr>ss_consecutive_clean := 0\<rparr>
            else if ss_quality st = Quality_DEGRADED
            then set_state Quality_RECOVERING (Some (Clean_bars 1 CLEAN_BARS_NEEDED)) st
            else st))"

definition fail_unless_failed :: "quality_reason \<Rightarrow> symbol_state \<Rightarrow> symbol_state" where
  "fail_unless_failed reason st =
     (if ss_quality st \<noteq> Quality_FAILED then set_state Quality_FAILED (Some reason) st else st)"

definition bar_issues :: "timestamp \<Rightarrow> timestamp \<Rightarrow> symbol_state \<Rightarrow> quality_reason list" where
  "bar_issues bar_ts received_at st =
     (let minute = 60 * 10 ^ 6;
          expected_wall = bar_ts - bar_ts mod minute + minute;
          lag_ms = fl (seconds_between received_at expected_wall * 1000)
      in (if lag_ms > of_int BAR_LAG_WARN_MS then [Bar_lag lag_ms BAR_LAG_WARN_MS] else []) @
         (case ss_last_bar_event_ts st of
            None \<Rightarrow> []
          | Some prev \<Rightarrow>
              (let expected_next = prev + minute
               in if bar_ts > expected_next + 5 * 10 ^ 6 then [Bar_gap expected_next bar_ts] else [])))"

definition bar_received :: "timestamp \<Rightarrow> timestamp \<Rightarrow> symbol_state \<Rightarrow> symbol_state" where
  "bar_received bar_ts received_at st =
     (let st = st\<lparr>ss_last_bar_at := Some received_at, ss_last_record_at := Some received_at\<rparr>;
          issues = bar_issues bar_ts received_at st;
          st = st\<lparr>ss_last_bar_event_ts := Some bar_ts\<rparr>
      in if issues \<noteq> [] then degrade (Joined_reasons issues) st else record_clean_bar st)"

definition health_checked :: "timestamp \<Rightarrow> symbol_state \<Rightarrow> symbol_state" where
  "health_checked now st =
     (case ss_last_record_at st of
        None \<Rightarrow> st
      | Some last_at \<Rightarrow>
          (let silence_s = seconds_between now last_at
           in if silence_s \<ge> of_int FAILED_S then fail_unless_failed (Silence silence_s FAILED_S) st
              else if silence_s \<ge> of_int SILENCE_DEGRADED_S then
                (if ss_quality st = Quality_CLEAN
                 then degrade (Silence silence_s SILENCE_DEGRADED_S) st else st)
              else st))"

section \<open>The monitor\<close>

definition on_symbol :: "ingestion_monitor \<Rightarrow> string \<Rightarrow> (symbol_state \<Rightarrow> symbol_state) \<Rightarrow> ingestion_monitor" where
  "on_symbol m s f = (case m s of None \<Rightarrow> m | Some st \<Rightarrow> m(s \<mapsto> f st))"

definition on_all :: "ingestion_monitor \<Rightarrow> (symbol_state \<Rightarrow> symbol_state) \<Rightarrow> ingestion_monitor" where
  "on_all m f = (\<lambda>s. map_option f (m s))"

definition on_bar_received :: "ingestion_monitor \<Rightarrow> string \<Rightarrow> timestamp \<Rightarrow> timestamp \<Rightarrow> ingestion_monitor" where
  "on_bar_received m s bar_ts received_at = on_symbol m s (bar_received bar_ts received_at)"

definition on_slow_reader_warning :: "ingestion_monitor \<Rightarrow> ingestion_monitor" where
  "on_slow_reader_warning m = on_all m (degrade (Plain_reason ''Databento slow reader warning''))"

definition on_skipped_records :: "ingestion_monitor \<Rightarrow> ingestion_monitor" where
  "on_skipped_records m = on_all m (fail_unless_failed (Plain_reason ''Databento SKIPPED_RECORDS''))"

definition on_ingress_overload :: "ingestion_monitor \<Rightarrow> ingestion_monitor" where
  "on_ingress_overload m = on_all m (fail_unless_failed (Plain_reason ''Ingress records dropped''))"

definition on_record_received :: "ingestion_monitor \<Rightarrow> string \<Rightarrow> timestamp \<Rightarrow> ingestion_monitor" where
  "on_record_received m s now = on_symbol m s (\<lambda>st. st\<lparr>ss_last_record_at := Some now\<rparr>)"

definition check_health :: "(timestamp \<Rightarrow> int) \<Rightarrow> ingestion_monitor \<Rightarrow> timestamp \<Rightarrow> ingestion_monitor" where
  "check_health minutes m now = (if \<not> is_rth minutes now then m else on_all m (health_checked now))"

definition is_signal_allowed :: "ingestion_monitor \<Rightarrow> string \<Rightarrow> bool" where
  "is_signal_allowed m s = (case m s of None \<Rightarrow> True | Some st \<Rightarrow> ss_quality st = Quality_CLEAN)"

definition get_quality :: "ingestion_monitor \<Rightarrow> string \<Rightarrow> data_quality_state" where
  "get_quality m s = (case m s of None \<Rightarrow> Quality_CLEAN | Some st \<Rightarrow> ss_quality st)"

definition get_degraded_reason :: "ingestion_monitor \<Rightarrow> string \<Rightarrow> quality_reason option" where
  "get_degraded_reason m s = (case m s of None \<Rightarrow> None | Some st \<Rightarrow> ss_degraded_reason st)"

datatype feed_op =
  Bar_received string timestamp timestamp
| Slow_reader_warning
| Skipped_records
| Ingress_overload
| Record_received string timestamp
| Check_health timestamp

fun feed_step :: "(timestamp \<Rightarrow> int) \<Rightarrow> ingestion_monitor \<Rightarrow> feed_op \<Rightarrow> ingestion_monitor" where
  "feed_step minutes m (Bar_received s bar_ts received_at) = on_bar_received m s bar_ts received_at"
| "feed_step minutes m Slow_reader_warning = on_slow_reader_warning m"
| "feed_step minutes m Skipped_records = on_skipped_records m"
| "feed_step minutes m Ingress_overload = on_ingress_overload m"
| "feed_step minutes m (Record_received s now) = on_record_received m s now"
| "feed_step minutes m (Check_health now) = check_health minutes m now"

definition feed_run :: "(timestamp \<Rightarrow> int) \<Rightarrow> ingestion_monitor \<Rightarrow> feed_op list \<Rightarrow> ingestion_monitor" where
  "feed_run minutes = foldl (feed_step minutes)"

lemmas monitor_defs [state_defs] = on_bar_received_def on_slow_reader_warning_def on_skipped_records_def
  on_ingress_overload_def on_record_received_def check_health_def on_symbol_def on_all_def

lemmas transition_defs = bar_received_def record_clean_bar_def degrade_def fail_unless_failed_def
  health_checked_def set_state_def Let_def CLEAN_BARS_NEEDED_def

section \<open>Loss of data is final\<close>

text \<open>The quality of one symbol after one step.\<close>

lemma step_quality:
  "m s = Some st \<Longrightarrow> \<exists>st'. feed_step minutes m op s = Some st' \<and>
     (ss_quality st = Quality_FAILED \<longrightarrow> ss_quality st' = Quality_FAILED) \<and>
     (ss_quality st \<noteq> Quality_CLEAN \<and> ss_quality st' = Quality_CLEAN \<longrightarrow>
        (\<exists>bar_ts received_at. op = Bar_received s bar_ts received_at) \<and>
        1 \<le> ss_consecutive_clean st)"
  by (cases op)
     (auto simp: state_defs transition_defs split: option.split)

text \<open>
  A symbol that has lost data never signals again in the session: once its state is \<open>FAILED\<close>, through
  dropped records or five minutes of silence, no sequence of bars, records, warnings and health
  checks makes it clean, and new entries stay blocked.
\<close>

theorem failed_feed_stays_blocked:
  assumes "m s = Some st" "ss_quality st = Quality_FAILED"
  shows "get_quality (feed_run minutes m ops) s = Quality_FAILED \<and>
     \<not> is_signal_allowed (feed_run minutes m ops) s"
proof -
  have "\<exists>st'. feed_run minutes m ops s = Some st' \<and> ss_quality st' = Quality_FAILED"
    using assms
  proof (induction ops arbitrary: m st)
    case (Cons op ops)
    from step_quality [of m s st minutes op] Cons.prems obtain st' where
      "feed_step minutes m op s = Some st'" "ss_quality st' = Quality_FAILED" by auto
    from Cons.IH [of "feed_step minutes m op" st', OF this] show ?case by (simp add: feed_run_def)
  qed (simp add: feed_run_def)
  then show ?thesis by (auto simp: get_quality_def is_signal_allowed_def)
qed

theorem failed_feed_stays_blocked_witness:
  "\<not> is_signal_allowed (feed_run (\<lambda>_. 600) (on_ingress_overload (monitor_init [''MNQ'']))
     [Bar_received ''MNQ'' 0 60000000, Bar_received ''MNQ'' 60000000 120000000]) ''MNQ''"
  by (rule failed_feed_stays_blocked [THEN conjunct2,
        of _ _ "fresh_symbol_state\<lparr>ss_quality := Quality_FAILED,
                ss_degraded_reason := Some (Plain_reason ''Ingress records dropped'')\<rparr>"])
     (simp_all add: state_defs transition_defs monitor_init_def fresh_symbol_state_def)

section \<open>Recovery takes two clean bars\<close>

definition quality_ok :: "symbol_state \<Rightarrow> bool" where
  "quality_ok st \<longleftrightarrow>
     (ss_quality st \<in> {Quality_CLEAN, Quality_DEGRADED} \<longrightarrow> ss_consecutive_clean st = 0) \<and>
     (ss_quality st = Quality_RECOVERING \<longrightarrow> ss_consecutive_clean st = 1)"

lemma step_quality_ok:
  "m s = Some st \<Longrightarrow> quality_ok st \<Longrightarrow> \<exists>st'. feed_step minutes m op s = Some st' \<and> quality_ok st'"
  by (cases op; cases "ss_quality st")
     (auto simp: state_defs transition_defs quality_ok_def split: option.split)

lemma step_from_degraded:
  "m s = Some st \<Longrightarrow> quality_ok st \<Longrightarrow> ss_quality st = Quality_DEGRADED \<Longrightarrow>
   \<exists>st'. feed_step minutes m op s = Some st' \<and> quality_ok st' \<and>
     (ss_quality st' \<in> {Quality_DEGRADED, Quality_FAILED} \<or>
      ss_quality st' = Quality_RECOVERING \<and> (\<exists>t r. op = Bar_received s t r))"
  by (cases op) (auto simp: state_defs transition_defs quality_ok_def split: option.split)

lemma step_from_recovering:
  "m s = Some st \<Longrightarrow> quality_ok st \<Longrightarrow> ss_quality st = Quality_RECOVERING \<Longrightarrow>
   \<exists>st'. feed_step minutes m op s = Some st' \<and> quality_ok st' \<and>
     (ss_quality st' \<in> {Quality_DEGRADED, Quality_FAILED, Quality_RECOVERING} \<or>
      ss_quality st' = Quality_CLEAN \<and> (\<exists>t r. op = Bar_received s t r))"
  by (cases op) (auto simp: state_defs transition_defs quality_ok_def split: option.split)

definition is_bar_of :: "string \<Rightarrow> feed_op \<Rightarrow> bool" where
  "is_bar_of s op \<longleftrightarrow> (\<exists>t r. op = Bar_received s t r)"

definition bar_count :: "string \<Rightarrow> feed_op list \<Rightarrow> nat" where
  "bar_count s ops = length (filter (is_bar_of s) ops)"

lemma bars_to_recover:
  "m s = Some st \<Longrightarrow> quality_ok st \<Longrightarrow> ss_quality st \<noteq> Quality_CLEAN \<Longrightarrow>
   is_signal_allowed (feed_run minutes m ops) s \<Longrightarrow>
   (if ss_quality st = Quality_RECOVERING then 1 else 2) \<le> bar_count s ops"
proof (induction ops arbitrary: m st)
  case (Cons op ops)
  have run: "feed_run minutes m (op # ops) = feed_run minutes (feed_step minutes m op) ops"
    by (simp add: feed_run_def)
  have cnt: "bar_count s (op # ops) = (if is_bar_of s op then 1 else 0) + bar_count s ops"
    by (simp add: bar_count_def)
  consider "ss_quality st = Quality_FAILED" | "ss_quality st = Quality_DEGRADED"
    | "ss_quality st = Quality_RECOVERING"
    using Cons.prems(3) by (cases "ss_quality st") auto
  then show ?case
  proof cases
    case 1
    from step_quality [of m s st minutes op] step_quality_ok [of m s st minutes op] Cons.prems 1
    obtain st' where st': "feed_step minutes m op s = Some st'" "quality_ok st'" "ss_quality st' = Quality_FAILED"
      by auto
    with Cons.IH [of "feed_step minutes m op" st', OF st'(1,2)] Cons.prems(4) run cnt 1 show ?thesis by simp
  next
    case 2
    from step_from_degraded [of m s st minutes op, OF Cons.prems(1,2) 2] obtain st' where
      st': "feed_step minutes m op s = Some st'" "quality_ok st'"
      "ss_quality st' \<in> {Quality_DEGRADED, Quality_FAILED} \<or>
       ss_quality st' = Quality_RECOVERING \<and> is_bar_of s op" by (auto simp: is_bar_of_def)
    then have ne: "ss_quality st' \<noteq> Quality_CLEAN" by auto
    have "is_signal_allowed (feed_run minutes (feed_step minutes m op) ops) s"
      using Cons.prems(4) run by simp
    from Cons.IH [of "feed_step minutes m op" st', OF st'(1,2) ne this] st'(3) cnt 2 show ?thesis by auto
  next
    case 3
    from step_from_recovering [of m s st minutes op, OF Cons.prems(1,2) 3] obtain st' where
      st': "feed_step minutes m op s = Some st'" "quality_ok st'"
      "ss_quality st' \<in> {Quality_DEGRADED, Quality_FAILED, Quality_RECOVERING} \<or>
       ss_quality st' = Quality_CLEAN \<and> is_bar_of s op" by (auto simp: is_bar_of_def)
    have al: "is_signal_allowed (feed_run minutes (feed_step minutes m op) ops) s"
      using Cons.prems(4) run by simp
    show ?thesis
    proof (cases "ss_quality st' = Quality_CLEAN")
      case True
      with st'(3) cnt 3 show ?thesis by auto
    next
      case False
      from Cons.IH [of "feed_step minutes m op" st', OF st'(1,2) this al] cnt 3 show ?thesis by (auto split: if_splits)
    qed
  qed
qed (auto simp: feed_run_def is_signal_allowed_def)

lemma monitor_quality_ok:
  assumes "m s = Some st" "quality_ok st"
  shows "\<exists>st'. feed_run minutes m ops s = Some st' \<and> quality_ok st'"
  using assms
proof (induction ops arbitrary: m st)
  case (Cons op ops)
  from step_quality_ok [of m s st minutes op, OF Cons.prems] obtain st' where
    "feed_step minutes m op s = Some st'" "quality_ok st'" by blast
  from Cons.IH [of "feed_step minutes m op" st', OF this] show ?case by (simp add: feed_run_def)
qed (simp add: feed_run_def)

text \<open>
  After a degradation entries resume only when two bars have arrived: for any session, if a symbol's
  signals are blocked at one point and allowed again later, at least two of its bars came in
  between, or one if the first clean bar had already been counted.
\<close>

theorem recovery_needs_two_bars:
  assumes "s \<in> set symbols"
    and "\<not> is_signal_allowed (feed_run minutes (monitor_init symbols) before) s"
    and "is_signal_allowed (feed_run minutes (monitor_init symbols) (before @ between)) s"
  shows "(if get_quality (feed_run minutes (monitor_init symbols) before) s = Quality_RECOVERING
          then 1 else 2) \<le> bar_count s between"
proof -
  have "monitor_init symbols s = Some fresh_symbol_state" "quality_ok fresh_symbol_state"
    using assms(1) by (simp_all add: monitor_init_def quality_ok_def fresh_symbol_state_def)
  from monitor_quality_ok [of "monitor_init symbols" s fresh_symbol_state minutes before, OF this] obtain st where
    st: "feed_run minutes (monitor_init symbols) before s = Some st" "quality_ok st" by blast
  moreover have "ss_quality st \<noteq> Quality_CLEAN" using assms(2) st by (simp add: is_signal_allowed_def)
  moreover have "is_signal_allowed (feed_run minutes (feed_run minutes (monitor_init symbols) before) between) s"
    using assms(3) by (simp add: feed_run_def)
  ultimately show ?thesis using bars_to_recover [of _ s st minutes between] by (auto simp: get_quality_def)
qed

theorem recovery_needs_two_bars_witness:
  "2 \<le> bar_count ''MNQ'' [Bar_received ''MNQ'' 0 60000000, Bar_received ''MNQ'' 60000000 120000000]"
proof -
  have "\<not> is_signal_allowed (feed_run (\<lambda>_. 600) (monitor_init [''MNQ'']) [Slow_reader_warning]) ''MNQ''"
    and "is_signal_allowed (feed_run (\<lambda>_. 600) (monitor_init [''MNQ'']) ([Slow_reader_warning] @
      [Bar_received ''MNQ'' 0 60000000, Bar_received ''MNQ'' 60000000 120000000])) ''MNQ''"
    and "get_quality (feed_run (\<lambda>_. 600) (monitor_init [''MNQ'']) [Slow_reader_warning]) ''MNQ'' = Quality_DEGRADED"
    by code_simp+
  from recovery_needs_two_bars [OF _ this(1,2)] this(3) show ?thesis by simp
qed

end
