(* ===== verification/Events.thy ===== *)
theory Events
  imports Prelude Enums
begin

text \<open>
  The market data events of \<^verbatim>\<open>src/alpha/models/events.py\<close> and the flow context of a sealed bar,
  \<^verbatim>\<open>src/alpha/models/flow.py\<close>. Event types are the record types; a handler's check of the
  event's class is the type of its argument. A trade's conditions, exchange and identifier and a
  quote's exchanges are read by no engine and left out.
\<close>

section \<open>Events\<close>

record event_metadata =
  em_event_id :: uuid
  em_source :: data_source_id
  em_received_at :: timestamp
  em_is_replay :: bool
  em_sequence_num :: "int option"

record bar_event =
  be_symbol :: string
  be_timestamp :: timestamp
  be_metadata :: event_metadata
  be_timeframe :: bar_timeframe
  be_open :: dec
  be_high :: dec
  be_low :: dec
  be_close :: dec
  be_volume :: int
  be_vwap :: "dec option"
  be_trade_count :: "int option"
  be_is_partial :: bool
  be_is_pipeline_fallback :: bool

record trade_event =
  te_symbol :: string
  te_timestamp :: timestamp
  te_price :: dec
  te_size :: int
  te_taker_side :: taker_side

record quote_event =
  qe_symbol :: string
  qe_timestamp :: timestamp
  qe_bid_price :: dec
  qe_bid_size :: int
  qe_ask_price :: dec
  qe_ask_size :: int

section \<open>The flow context of a bar\<close>

record split_bar_delta =
  sd_sweep_low_ts :: "timestamp option"
  sd_sweep_volume :: int
  sd_sweep_delta :: int
  sd_recovery_volume :: int
  sd_recovery_delta :: int
  sd_sweep_seconds :: int
  sd_recovery_seconds :: int
  sd_recovery_ratio :: "rat option"
  sd_recovery_speed :: "rat option"

record absorption_signal =
  ab_detected :: bool
  ab_price_level :: "dec option"
  ab_sell_volume_at_low :: int
  ab_buy_volume_response :: int
  ab_ticks_held :: int
  ab_confidence :: rat

definition no_absorption :: absorption_signal where
  "no_absorption =
     \<lparr>ab_detected = False, ab_price_level = None, ab_sell_volume_at_low = 0,
      ab_buy_volume_response = 0, ab_ticks_held = 0, ab_confidence = 0\<rparr>"

record bar_flow_context =
  fc_total_volume :: int
  fc_buy_volume :: int
  fc_sell_volume :: int
  fc_unknown_volume :: int
  fc_delta :: int
  fc_delta_pct :: "rat option"
  fc_large_trade_count :: int
  fc_large_buy_count :: int
  fc_large_sell_count :: int
  fc_trade_count :: int
  fc_trade_velocity :: "rat option"
  fc_avg_trade_size :: "rat option"
  fc_twap_bid_size :: "rat option"
  fc_twap_ask_size :: "rat option"
  fc_bid_ask_imbalance :: "rat option"
  fc_quote_count :: int
  fc_split :: "split_bar_delta option"
  fc_absorption :: absorption_signal
  fc_is_v_reversal :: bool
  fc_is_genuine_sweep_reversal :: bool
  fc_large_trade_threshold :: int
  fc_has_trade_data :: bool
  fc_has_quote_data :: bool
  fc_has_1s_bars :: bool

section \<open>Bar bundles\<close>

record bar_bundle =
  bb_symbol :: string
  bb_timestamp :: timestamp
  bb_metadata :: event_metadata
  bb_timeframe :: bar_timeframe
  bb_open :: dec
  bb_high :: dec
  bb_low :: dec
  bb_close :: dec
  bb_volume :: int
  bb_vwap :: "dec option"
  bb_trade_count :: "int option"
  bb_flow :: "bar_flow_context option"

definition to_bar_event :: "bar_bundle \<Rightarrow> bar_event" where
  "to_bar_event b =
     \<lparr>be_symbol = bb_symbol b, be_timestamp = bb_timestamp b, be_metadata = bb_metadata b,
      be_timeframe = bb_timeframe b, be_open = bb_open b, be_high = bb_high b, be_low = bb_low b,
      be_close = bb_close b, be_volume = bb_volume b, be_vwap = bb_vwap b,
      be_trade_count = bb_trade_count b, be_is_partial = False, be_is_pipeline_fallback = True\<rparr>"

section \<open>Sample events\<close>

definition sample_metadata :: event_metadata where
  "sample_metadata =
     \<lparr>em_event_id = ''e1'', em_source = DataSource_DATABENTO, em_received_at = 0,
      em_is_replay = False, em_sequence_num = None\<rparr>"

definition sample_ohlc :: "bar_timeframe \<Rightarrow> timestamp \<Rightarrow> dec \<Rightarrow> dec \<Rightarrow> dec \<Rightarrow> dec \<Rightarrow> bar_event" where
  "sample_ohlc tf ts op hi lo cl =
     \<lparr>be_symbol = ''MNQ'', be_timestamp = ts, be_metadata = sample_metadata, be_timeframe = tf,
      be_open = op, be_high = hi, be_low = lo, be_close = cl, be_volume = 100, be_vwap = None,
      be_trade_count = None, be_is_partial = False, be_is_pipeline_fallback = False\<rparr>"

end
