(* ===== verification/Intrabar.thy ===== *)
theory Intrabar
  imports Numerics Events
begin

text \<open>
  The running flow state of the current minute, \<^verbatim>\<open>src/alpha/engines/flow/intrabar.py\<close>:
  trades and one-second bars update an \<open>IntrabarState\<close> that is replaced when a bar of a new
  minute arrives. A handler that has bound the state object to a local name before the
  replacement goes on updating the old object, which nothing else refers to.
\<close>

section \<open>State\<close>

record intrabar_state =
  ib_symbol :: string
  ib_window_open_ts :: "timestamp option"
  ib_buy_volume :: int
  ib_sell_volume :: int
  ib_trade_count :: int
  ib_delta :: int
  ib_running_high :: "dec option"
  ib_running_low :: "dec option"
  ib_sweep_detected :: bool
  ib_sweep_low :: "dec option"
  ib_sweep_low_ts :: "timestamp option"
  ib_sweep_phase_delta :: int
  ib_recovery_phase_delta :: int
  ib_recovery_seconds :: int
  ib_early_absorption :: bool
  ib_absorption_confidence :: rat
  ib_seconds_elapsed :: int
  ib_seconds_remaining :: int

definition new_intrabar_state :: "string \<Rightarrow> timestamp option \<Rightarrow> intrabar_state" where
  "new_intrabar_state s window =
     \<lparr>ib_symbol = s, ib_window_open_ts = window, ib_buy_volume = 0, ib_sell_volume = 0,
      ib_trade_count = 0, ib_delta = 0, ib_running_high = None, ib_running_low = None,
      ib_sweep_detected = False, ib_sweep_low = None, ib_sweep_low_ts = None,
      ib_sweep_phase_delta = 0, ib_recovery_phase_delta = 0, ib_recovery_seconds = 0,
      ib_early_absorption = False, ib_absorption_confidence = 0,
      ib_seconds_elapsed = 0, ib_seconds_remaining = 60\<rparr>"

definition is_v_reversal_risk :: "intrabar_state \<Rightarrow> bool" where
  "is_v_reversal_risk s =
     (if \<not> ib_sweep_detected s then False
      else if ib_recovery_seconds s < 3 then False
      else
        (let sweep_abs = \<bar>ib_sweep_phase_delta s\<bar>
         in if sweep_abs = 0 then False
            else
              (let ratio = fl (of_int \<bar>ib_recovery_phase_delta s\<bar> / of_int sweep_abs)
               in ratio < fl (2/10) \<and> ib_recovery_seconds s \<le> 4 \<and> \<not> ib_early_absorption s)))"

definition is_absorption_forming :: "intrabar_state \<Rightarrow> bool" where
  "is_absorption_forming s \<longleftrightarrow> ib_early_absorption s \<and> ib_absorption_confidence s \<ge> fl (4/10)"

record intrabar_engine =
  ie_symbol :: string
  ie_large_trade_threshold :: int
  ie_state :: intrabar_state
  ie_prior_bar_low :: "dec option"
  ie_current_window_open :: "timestamp option"

definition intrabar_init :: "string \<Rightarrow> dec option \<Rightarrow> int \<Rightarrow> intrabar_engine" where
  "intrabar_init s prior_bar_low threshold =
     \<lparr>ie_symbol = s, ie_large_trade_threshold = threshold, ie_state = new_intrabar_state s None,
      ie_prior_bar_low = prior_bar_low, ie_current_window_open = None\<rparr>"

definition intrabar_get_state :: "intrabar_engine \<Rightarrow> intrabar_state" where
  "intrabar_get_state e = ie_state e"

definition set_prior_bar_low :: "intrabar_engine \<Rightarrow> dec \<Rightarrow> intrabar_engine" where
  "set_prior_bar_low e low = e\<lparr>ie_prior_bar_low := Some low\<rparr>"

section \<open>Trades\<close>

definition trade_sign :: "taker_side \<Rightarrow> int \<Rightarrow> int" where
  "trade_sign side qty = (if side = Taker_BUY then qty else - qty)"

definition trade_on_state :: "taker_side \<Rightarrow> int \<Rightarrow> intrabar_state \<Rightarrow> intrabar_state" where
  "trade_on_state side qty s =
     (let s = (if side = Taker_BUY
               then s\<lparr>ib_buy_volume := ib_buy_volume s + qty, ib_delta := ib_delta s + qty\<rparr>
               else if side = Taker_SELL
               then s\<lparr>ib_sell_volume := ib_sell_volume s + qty, ib_delta := ib_delta s - qty\<rparr>
               else s);
          s = s\<lparr>ib_trade_count := ib_trade_count s + 1\<rparr>
      in if ib_sweep_detected s
         then s\<lparr>ib_recovery_phase_delta := ib_recovery_phase_delta s + trade_sign side qty\<rparr>
         else s\<lparr>ib_sweep_phase_delta := ib_sweep_phase_delta s + trade_sign side qty\<rparr>)"

definition intrabar_on_trade :: "intrabar_engine \<Rightarrow> taker_side \<Rightarrow> int \<Rightarrow> intrabar_engine" where
  "intrabar_on_trade e side qty = e\<lparr>ie_state := trade_on_state side qty (ie_state e)\<rparr>"

section \<open>Bars\<close>

definition minute_boundary :: "timestamp \<Rightarrow> timestamp" where
  "minute_boundary t = t - t mod (60 * 10 ^ 6)"

definition reset_window :: "intrabar_engine \<Rightarrow> timestamp \<Rightarrow> intrabar_engine" where
  "reset_window e window_open =
     e\<lparr>ie_current_window_open := Some window_open,
       ie_state := new_intrabar_state (ie_symbol e) (Some window_open)\<rparr>"

definition update_absorption_signal :: "int \<Rightarrow> intrabar_state \<Rightarrow> intrabar_state" where
  "update_absorption_signal threshold s =
     (let sweep_abs = \<bar>ib_sweep_phase_delta s\<bar>
      in if sweep_abs = 0 then s
         else
           (let recovery_ratio = fl (of_int \<bar>ib_recovery_phase_delta s\<bar> / of_int sweep_abs);
                hold_score = min (fl (of_int (ib_recovery_seconds s) / 15)) 1;
                confidence = fl (fl (recovery_ratio * fl (6/10)) + fl (hold_score * fl (4/10)))
            in s\<lparr>ib_absorption_confidence := confidence,
                 ib_early_absorption := confidence \<ge> 1/2 \<and> ib_sell_volume s \<ge> threshold\<rparr>))"

definition extremes_updated :: "dec option \<Rightarrow> bar_event \<Rightarrow> intrabar_state \<Rightarrow> intrabar_state" where
  "extremes_updated prior_bar_low bar s =
     (let s = (if ib_running_high s = None \<or> be_high bar > the (ib_running_high s)
               then s\<lparr>ib_running_high := Some (be_high bar)\<rparr> else s)
      in if ib_running_low s = None \<or> be_low bar < the (ib_running_low s)
         then
           (let s = s\<lparr>ib_running_low := Some (be_low bar)\<rparr>
            in if prior_bar_low \<noteq> None \<and> be_low bar < the prior_bar_low \<and> \<not> ib_sweep_detected s
               then s\<lparr>ib_sweep_detected := True, ib_sweep_low := Some (be_low bar),
                      ib_sweep_low_ts := Some (be_timestamp bar)\<rparr>
               else s)
         else s)"

definition second_counted :: "bar_event \<Rightarrow> intrabar_state \<Rightarrow> intrabar_state" where
  "second_counted bar s =
     (let s = s\<lparr>ib_seconds_elapsed := ib_seconds_elapsed s + 1\<rparr>;
          s = s\<lparr>ib_seconds_remaining := max 0 (60 - ib_seconds_elapsed s)\<rparr>
      in if ib_sweep_detected s \<and> ib_sweep_low_ts s \<noteq> None \<and> be_timestamp bar > the (ib_sweep_low_ts s)
         then s\<lparr>ib_recovery_seconds := ib_recovery_seconds s + 1\<rparr> else s)"

definition absorption_due :: "intrabar_state \<Rightarrow> bool" where
  "absorption_due s \<longleftrightarrow> ib_sweep_detected s \<and> ib_recovery_seconds s > 0 \<and> ib_recovery_seconds s mod 5 = 0"

text \<open>
  \<open>s\<close> is the object bound on entry; \<open>ie_state e'\<close> is \<open>self._state\<close> after the window check, the
  same object unless the window was reset. The absorption check reads \<open>s\<close> and updates
  \<open>self._state\<close>.
\<close>

definition process_s1_bar :: "intrabar_engine \<Rightarrow> bar_event \<Rightarrow> intrabar_engine" where
  "process_s1_bar e bar =
     (let s = ie_state e;
          boundary = minute_boundary (be_timestamp bar);
          was_reset = (ie_current_window_open e \<noteq> Some boundary);
          e' = (if was_reset then reset_window e boundary else e);
          s = second_counted bar (extremes_updated (ie_prior_bar_low e') bar s);
          current = (if was_reset then ie_state e' else s)
      in e'\<lparr>ie_state :=
              (if absorption_due s then update_absorption_signal (ie_large_trade_threshold e') current
               else current)\<rparr>)"

definition intrabar_on_bar :: "intrabar_engine \<Rightarrow> bar_event \<Rightarrow> intrabar_engine" where
  "intrabar_on_bar e bar =
     (if be_symbol bar \<noteq> ie_symbol e then e
      else if be_timeframe bar = TF_S1 then process_s1_bar e bar
      else if be_timeframe bar = TF_M1 then e\<lparr>ie_prior_bar_low := Some (be_low bar)\<rparr>
      else e)"

datatype tape_event = Tape_bar bar_event | Tape_trade taker_side int

fun intrabar_step :: "intrabar_engine \<Rightarrow> tape_event \<Rightarrow> intrabar_engine" where
  "intrabar_step e (Tape_bar bar) = intrabar_on_bar e bar"
| "intrabar_step e (Tape_trade side qty) = intrabar_on_trade e side qty"

definition intrabar_run :: "intrabar_engine \<Rightarrow> tape_event list \<Rightarrow> intrabar_engine" where
  "intrabar_run = foldl intrabar_step"

section \<open>Rewrite rules\<close>

lemma absorption_of_new_window [simp]:
  "update_absorption_signal thr (new_intrabar_state s w) = new_intrabar_state s w"
  by (simp add: update_absorption_signal_def new_intrabar_state_def)

lemma process_reset:
  "ie_current_window_open e \<noteq> Some (minute_boundary (be_timestamp bar)) \<Longrightarrow>
   process_s1_bar e bar = reset_window e (minute_boundary (be_timestamp bar))"
  by (simp add: process_s1_bar_def reset_window_def Let_def)

lemma process_same_window:
  "ie_current_window_open e = Some (minute_boundary (be_timestamp bar)) \<Longrightarrow>
   process_s1_bar e bar =
     e\<lparr>ie_state :=
        (let s = second_counted bar (extremes_updated (ie_prior_bar_low e) bar (ie_state e))
         in if absorption_due s then update_absorption_signal (ie_large_trade_threshold e) s else s)\<rparr>"
  by (simp add: process_s1_bar_def Let_def)

lemma absorption_frame [simp]:
  "ib_seconds_elapsed (update_absorption_signal thr s) = ib_seconds_elapsed s"
  "ib_running_low (update_absorption_signal thr s) = ib_running_low s"
  "ib_buy_volume (update_absorption_signal thr s) = ib_buy_volume s"
  "ib_sell_volume (update_absorption_signal thr s) = ib_sell_volume s"
  "ib_delta (update_absorption_signal thr s) = ib_delta s"
  "ib_sweep_phase_delta (update_absorption_signal thr s) = ib_sweep_phase_delta s"
  "ib_recovery_phase_delta (update_absorption_signal thr s) = ib_recovery_phase_delta s"
  "ib_sweep_detected (update_absorption_signal thr s) = ib_sweep_detected s"
  by (simp_all add: update_absorption_signal_def Let_def)

lemma extremes_frame [simp]:
  "ib_seconds_elapsed (extremes_updated prior bar s) = ib_seconds_elapsed s"
  "ib_buy_volume (extremes_updated prior bar s) = ib_buy_volume s"
  "ib_sell_volume (extremes_updated prior bar s) = ib_sell_volume s"
  "ib_delta (extremes_updated prior bar s) = ib_delta s"
  "ib_sweep_phase_delta (extremes_updated prior bar s) = ib_sweep_phase_delta s"
  "ib_recovery_phase_delta (extremes_updated prior bar s) = ib_recovery_phase_delta s"
  by (simp_all add: extremes_updated_def Let_def)

lemma extremes_low [simp]:
  "ib_running_low (extremes_updated prior bar s) =
     Some (case ib_running_low s of None \<Rightarrow> be_low bar | Some l \<Rightarrow> min (be_low bar) l)"
  by (auto simp: extremes_updated_def Let_def min_def split: option.split)

lemma second_frame [simp]:
  "ib_seconds_elapsed (second_counted bar s) = ib_seconds_elapsed s + 1"
  "ib_running_low (second_counted bar s) = ib_running_low s"
  "ib_buy_volume (second_counted bar s) = ib_buy_volume s"
  "ib_sell_volume (second_counted bar s) = ib_sell_volume s"
  "ib_delta (second_counted bar s) = ib_delta s"
  "ib_sweep_phase_delta (second_counted bar s) = ib_sweep_phase_delta s"
  "ib_recovery_phase_delta (second_counted bar s) = ib_recovery_phase_delta s"
  "ib_sweep_detected (second_counted bar s) = ib_sweep_detected s"
  by (simp_all add: second_counted_def Let_def)

section \<open>The first second of a minute is dropped\<close>

definition s1_bar_of :: "string \<Rightarrow> timestamp \<Rightarrow> bar_event \<Rightarrow> bool" where
  "s1_bar_of s window bar \<longleftrightarrow>
     be_symbol bar = s \<and> be_timeframe bar = TF_S1 \<and> minute_boundary (be_timestamp bar) = window"

lemma in_window_step:
  assumes "s1_bar_of (ie_symbol e) w bar" "ie_current_window_open e = Some w"
  shows "ie_current_window_open (intrabar_on_bar e bar) = Some w"
    and "ie_symbol (intrabar_on_bar e bar) = ie_symbol e"
    and "ib_seconds_elapsed (ie_state (intrabar_on_bar e bar)) = ib_seconds_elapsed (ie_state e) + 1"
    and "ib_running_low (ie_state (intrabar_on_bar e bar)) =
      Some (case ib_running_low (ie_state e) of None \<Rightarrow> be_low bar | Some l \<Rightarrow> min (be_low bar) l)"
  using assms by (simp_all add: intrabar_on_bar_def process_same_window s1_bar_of_def Let_def)

lemma in_window_run:
  assumes "list_all (s1_bar_of (ie_symbol e) w) bars" "ie_current_window_open e = Some w"
  shows "let s = ie_state (intrabar_run e (map Tape_bar bars)) in
     ib_seconds_elapsed s = ib_seconds_elapsed (ie_state e) + int (length bars) \<and>
     ib_running_low s = fold (\<lambda>bar l. Some (case l of None \<Rightarrow> be_low bar | Some l \<Rightarrow> min (be_low bar) l))
        bars (ib_running_low (ie_state e))"
  using assms
proof (induction bars arbitrary: e)
  case (Cons bar bars)
  then have b: "s1_bar_of (ie_symbol e) w bar" by simp
  note step = in_window_step [OF b Cons.prems(2)]
  have "list_all (s1_bar_of (ie_symbol (intrabar_on_bar e bar)) w) bars"
    using Cons.prems(1) step(2) by simp
  from Cons.IH [OF this step(1)] step show ?case by (simp add: intrabar_run_def Let_def)
qed (simp add: intrabar_run_def)

lemma fold_min_Some:
  "fold (\<lambda>bar l. Some (case l of None \<Rightarrow> be_low bar | Some l \<Rightarrow> min (be_low bar) l)) bars (Some l) =
     Some (Min (set (l # map be_low bars)))"
proof (induction bars arbitrary: l)
  case (Cons b bars)
  have "Min (set (l # map be_low (b # bars))) = Min (set (min (be_low b) l # map be_low bars))"
    by (cases "bars = []") (simp_all add: min.assoc min.left_commute min.commute)
  with Cons show ?case by simp
qed simp

text \<open>
  The first one-second bar of a minute is lost: when a minute's one-second bars arrive, the state they
  leave counts one second fewer than there were bars, and its running low is the minimum over
  the bars after the first, whatever low the first one made. With only the first bar in, the
  state shows no second and no low.
\<close>

theorem first_second_of_minute_is_dropped:
  assumes "list_all (s1_bar_of (ie_symbol e) w) (first # rest)"
    and "ie_current_window_open e \<noteq> Some w"
  shows "let s = intrabar_get_state (intrabar_run e (map Tape_bar (first # rest))) in
     ib_seconds_elapsed s = int (length rest) \<and>
     ib_running_low s = (if rest = [] then None else Some (Min (set (map be_low rest))))"
proof -
  define e1 where "e1 = intrabar_on_bar e first"
  from assms have "e1 = reset_window e w"
    by (simp add: e1_def intrabar_on_bar_def s1_bar_of_def process_reset)
  then have e1: "ie_symbol e1 = ie_symbol e" "ie_current_window_open e1 = Some w"
    "ie_state e1 = new_intrabar_state (ie_symbol e) (Some w)"
    by (simp_all add: reset_window_def)
  have "list_all (s1_bar_of (ie_symbol e1) w) rest" using assms(1) e1(1) by simp
  note run = in_window_run [OF this e1(2)]
  have "fold (\<lambda>bar l. Some (case l of None \<Rightarrow> be_low bar | Some l \<Rightarrow> min (be_low bar) l)) rest None =
     (if rest = [] then None else Some (Min (set (map be_low rest))))"
    by (cases rest) (auto simp: fold_min_Some)
  with run e1(3) show ?thesis
    by (simp add: intrabar_run_def e1_def intrabar_get_state_def Let_def new_intrabar_state_def)
qed

theorem first_second_of_minute_is_dropped_witness:
  "ib_running_low (intrabar_get_state (intrabar_run (intrabar_init ''MNQ'' (Some 100) 10)
     (map Tape_bar [sample_ohlc TF_S1 60000000 100 101 90 100, sample_ohlc TF_S1 61000000 100 103 100 102])))
   = Some 100"
  using first_second_of_minute_is_dropped [of "intrabar_init ''MNQ'' (Some 100) 10" 60000000
     "sample_ohlc TF_S1 60000000 100 101 90 100" "[sample_ohlc TF_S1 61000000 100 103 100 102]"]
  by (simp add: intrabar_init_def s1_bar_of_def minute_boundary_def sample_ohlc_def Let_def)

section \<open>Flow accounting\<close>

definition flow_balanced :: "intrabar_state \<Rightarrow> bool" where
  "flow_balanced s \<longleftrightarrow>
     ib_delta s = ib_buy_volume s - ib_sell_volume s \<and>
     ib_sweep_phase_delta s + ib_recovery_phase_delta s \<le> ib_delta s \<and>
     0 \<le> ib_buy_volume s \<and> 0 \<le> ib_sell_volume s"

lemma flow_balanced_new: "flow_balanced (new_intrabar_state s w)"
  by (simp add: flow_balanced_def new_intrabar_state_def)

lemma flow_balanced_bar: "flow_balanced (ie_state e) \<Longrightarrow> flow_balanced (ie_state (intrabar_on_bar e bar))"
proof (cases "ie_current_window_open e = Some (minute_boundary (be_timestamp bar))")
  case True
  then show "flow_balanced (ie_state e) \<Longrightarrow> ?thesis"
    by (simp add: intrabar_on_bar_def process_same_window flow_balanced_def Let_def)
next
  case False
  then show "flow_balanced (ie_state e) \<Longrightarrow> ?thesis"
    by (simp add: intrabar_on_bar_def process_reset reset_window_def flow_balanced_new)
qed

lemma flow_balanced_trade:
  "0 \<le> qty \<Longrightarrow> flow_balanced (ie_state e) \<Longrightarrow> flow_balanced (ie_state (intrabar_on_trade e side qty))"
  by (cases side)
     (auto simp: intrabar_on_trade_def trade_on_state_def trade_sign_def flow_balanced_def Let_def)

fun tape_ok :: "tape_event \<Rightarrow> bool" where
  "tape_ok (Tape_bar _) = True"
| "tape_ok (Tape_trade _ qty) = (0 \<le> qty)"

text \<open>
  Flow accounting holds at every moment: for any tape of bars and trades of non-negative size,
  the minute's delta is its buy volume minus its sell volume, and the two phase deltas never add up
  to more than it (a trade of unknown side counts as a sale in the phases only).
\<close>

theorem intrabar_delta_accounts:
  assumes "list_all tape_ok tape"
  shows "flow_balanced (intrabar_get_state (intrabar_run (intrabar_init s prior thr) tape))"
proof -
  have "flow_balanced (ie_state (foldl intrabar_step e tape))" if "flow_balanced (ie_state e)" for e
    using assms that
  proof (induction tape arbitrary: e)
    case (Cons ev tape)
    then have "flow_balanced (ie_state (intrabar_step e ev))"
      by (cases ev) (auto intro: flow_balanced_bar flow_balanced_trade)
    with Cons show ?case by simp
  qed simp
  then show ?thesis
    by (simp add: intrabar_get_state_def intrabar_run_def intrabar_init_def flow_balanced_new)
qed

theorem intrabar_delta_accounts_witness:
  "flow_balanced (intrabar_get_state (intrabar_run (intrabar_init ''MNQ'' None 10)
     [Tape_trade Taker_BUY 3, Tape_trade Taker_UNKNOWN 2, Tape_trade Taker_SELL 1]))"
  by (rule intrabar_delta_accounts) simp

end
