(* ===== verification/Position_Monitor.thy ===== *)
theory Position_Monitor
  imports Intrabar Ingestion_Monitor "HOL-Library.AList" "HOL-Library.Product_Lexorder"
    "HOL-Library.List_Lexorder" "HOL-Library.Char_ord"
begin

text \<open>
  The shadow-mode position tracker, \<^verbatim>\<open>src/alpha/engines/position/engine.py\<close>: pending setups
  from the pipeline, at most one hypothetical position per symbol, entry and exit checks on every
  one-second bar. A handler returns the exception it ends with, if any, the new state (what it
  changed before raising stays changed) and what it sent out; the event bus logs a handler's exception
  and goes on with the next event.
\<close>

section \<open>Data\<close>

record scored_setup =
  sc_setup_id :: uuid
  sc_setup_type :: setup_type
  sc_grade :: "setup_grade option"
  sc_entry_trigger :: "dec option"
  sc_stop_reference :: "dec option"
  sc_target_reference :: "dec option"

text \<open>A setup that passed the watch list's filter: its grade and levels are present.\<close>

record watched_setup =
  wa_setup_id :: uuid
  wa_setup_type :: setup_type
  wa_grade :: setup_grade
  wa_entry_trigger :: dec
  wa_stop_reference :: dec
  wa_target_reference :: dec

record shadow_position =
  sh_position_id :: uuid
  sh_symbol :: string
  sh_setup_id :: uuid
  sh_setup_type :: setup_type
  sh_direction :: order_side
  sh_entry_price :: dec
  sh_stop :: dec
  sh_target :: dec
  sh_grade :: setup_grade
  sh_entered_at :: timestamp
  sh_thesis_type_at_entry :: "string option"
  sh_bars_held :: int
  sh_mfe :: dec
  sh_mae :: dec
  sh_last_price :: "dec option"
  sh_pending_thesis_invalidation :: bool

datatype signal_detail =
  Would_enter "int option" "rat option"
| Would_hold int dec dec
| Would_exit string dec int dec dec

record position_signal =
  sg_symbol :: string
  sg_timestamp :: timestamp
  sg_metadata :: "event_metadata option"
  sg_setup_id :: uuid
  sg_setup_type :: setup_type
  sg_direction :: order_side
  sg_entry_price :: dec
  sg_stop :: dec
  sg_target :: dec
  sg_current_price :: dec
  sg_grade :: setup_grade
  sg_detail :: signal_detail

datatype monitor_error = Missing_field string

text \<open>
  Building a \<open>PositionSignalEvent\<close>: \<open>metadata\<close> is a required field of \<open>BaseEvent\<close>
  (\<^verbatim>\<open>src/alpha/models/events.py\<close>), and a missing required field is a validation error.
\<close>

definition position_signal_event :: "position_signal \<Rightarrow> monitor_error + position_signal" where
  "position_signal_event sg =
     (case sg_metadata sg of None \<Rightarrow> Inl (Missing_field ''metadata'') | Some _ \<Rightarrow> Inr sg)"

datatype monitor_output =
  Published position_signal
| Intrabar_flow string timestamp intrabar_state rat "rat option"

record position_monitor =
  pm_min_grade :: setup_grade
  pm_timeout_bars :: int
  pm_broadcast :: bool
  pm_pending_setups :: "string \<rightharpoonup> (uuid \<times> watched_setup) list"
  pm_shadow_positions :: "string \<rightharpoonup> shadow_position"
  pm_latest_quote :: "string \<rightharpoonup> int \<times> int"
  pm_latest_thesis_type :: "string \<rightharpoonup> string"
  pm_recently_exited :: "uuid set"

definition position_monitor_init :: "setup_grade \<Rightarrow> int \<Rightarrow> bool \<Rightarrow> position_monitor" where
  "position_monitor_init min_grade timeout_bars broadcast =
     \<lparr>pm_min_grade = min_grade, pm_timeout_bars = timeout_bars, pm_broadcast = broadcast,
      pm_pending_setups = Map.empty, pm_shadow_positions = Map.empty, pm_latest_quote = Map.empty,
      pm_latest_thesis_type = Map.empty, pm_recently_exited = {}\<rparr>"

type_synonym handler_result = "monitor_error option \<times> position_monitor \<times> monitor_output list"

definition SELL_TYPES :: "setup_type set" where
  "SELL_TYPES = {Setup_VWAP_REJECTION, Setup_VWAP_FAILED_RECLAIM_SHORT, Setup_TREND_PULLBACK_SHORT,
                 Setup_ORB_BREAKDOWN}"

definition GRADE_ORDER :: "setup_grade list" where
  "GRADE_ORDER = [Grade_SSS, Grade_A_PLUS, Grade_A, Grade_B, Grade_C]"

definition grade_index :: "setup_grade option \<Rightarrow> nat" where
  "grade_index g = length (takeWhile (\<lambda>x. Some x \<noteq> g) GRADE_ORDER)"

definition setup_direction :: "setup_type \<Rightarrow> order_side" where
  "setup_direction t = (if t \<in> SELL_TYPES then Side_SELL else Side_BUY)"

section \<open>Watch list, thesis and quotes\<close>

definition qualifying_setup :: "setup_grade \<Rightarrow> scored_setup \<Rightarrow> watched_setup option" where
  "qualifying_setup min_grade su =
     (case (sc_grade su, sc_entry_trigger su, sc_stop_reference su, sc_target_reference su) of
        (Some g, Some entry, Some stop, Some target) \<Rightarrow>
          (if grade_index (Some g) \<le> grade_index (Some min_grade)
           then Some \<lparr>wa_setup_id = sc_setup_id su, wa_setup_type = sc_setup_type su, wa_grade = g,
                      wa_entry_trigger = entry, wa_stop_reference = stop,
                      wa_target_reference = target\<rparr>
           else None)
      | _ \<Rightarrow> None)"

definition on_pipeline_output :: "position_monitor \<Rightarrow> string \<Rightarrow> scored_setup list \<Rightarrow> position_monitor" where
  "on_pipeline_output m s scored =
     m\<lparr>pm_recently_exited := {},
       pm_pending_setups := (pm_pending_setups m)(s \<mapsto>
         foldl (\<lambda>d su. case qualifying_setup (pm_min_grade m) su of
                        None \<Rightarrow> d | Some w \<Rightarrow> AList.update (sc_setup_id su) w d) [] scored)\<rparr>"

definition on_thesis :: "position_monitor \<Rightarrow> string \<Rightarrow> string \<Rightarrow> position_monitor" where
  "on_thesis m s new_type =
     (let m = m\<lparr>pm_latest_thesis_type := (pm_latest_thesis_type m)(s \<mapsto> new_type)\<rparr>
      in case pm_shadow_positions m s of
           None \<Rightarrow> m
         | Some pos \<Rightarrow>
             (if sh_thesis_type_at_entry pos \<noteq> None \<and> Some new_type \<noteq> sh_thesis_type_at_entry pos
              then m\<lparr>pm_shadow_positions := (pm_shadow_positions m)
                       (s \<mapsto> pos\<lparr>sh_pending_thesis_invalidation := True\<rparr>)\<rparr>
              else m))"

definition pm_on_quote :: "position_monitor \<Rightarrow> string \<Rightarrow> int \<times> int \<Rightarrow> position_monitor" where
  "pm_on_quote m s sizes = m\<lparr>pm_latest_quote := (pm_latest_quote m)(s \<mapsto> sizes)\<rparr>"

definition compute_bai :: "position_monitor \<Rightarrow> string \<Rightarrow> rat option" where
  "compute_bai m s =
     (case pm_latest_quote m s of
        None \<Rightarrow> None
      | Some (bid_size, ask_size) \<Rightarrow>
          (if bid_size + ask_size = 0 then None
           else Some (fl (of_int bid_size / of_int (bid_size + ask_size)))))"

section \<open>Signals\<close>

definition signal_for :: "shadow_position \<Rightarrow> dec \<Rightarrow> timestamp \<Rightarrow> signal_detail \<Rightarrow> position_signal" where
  "signal_for pos price ts detail =
     \<lparr>sg_symbol = sh_symbol pos, sg_timestamp = ts, sg_metadata = None,
      sg_setup_id = sh_setup_id pos, sg_setup_type = sh_setup_type pos,
      sg_direction = sh_direction pos, sg_entry_price = sh_entry_price pos, sg_stop = sh_stop pos,
      sg_target = sh_target pos, sg_current_price = price, sg_grade = sh_grade pos,
      sg_detail = detail\<rparr>"

definition emit_enter ::
  "shadow_position \<Rightarrow> dec \<Rightarrow> intrabar_state option \<Rightarrow> rat option \<Rightarrow> timestamp \<Rightarrow> monitor_error + position_signal" where
  "emit_enter pos price intrabar bai ts =
     position_signal_event (signal_for pos price ts (Would_enter (map_option ib_delta intrabar) bai))"

definition emit_hold :: "shadow_position \<Rightarrow> dec \<Rightarrow> timestamp \<Rightarrow> monitor_error + position_signal" where
  "emit_hold pos price ts =
     position_signal_event
       (signal_for pos price ts (Would_hold (sh_bars_held pos) (sh_mfe pos) (sh_mae pos)))"

definition emit_exit ::
  "shadow_position \<Rightarrow> dec \<Rightarrow> string \<Rightarrow> dec \<Rightarrow> timestamp \<Rightarrow> monitor_error + position_signal" where
  "emit_exit pos price reason pnl ts =
     position_signal_event
       (signal_for pos price ts (Would_exit reason pnl (sh_bars_held pos) (sh_mfe pos) (sh_mae pos)))"

section \<open>Entry\<close>

definition confirms_entry ::
  "watched_setup \<Rightarrow> dec \<Rightarrow> intrabar_state option \<Rightarrow> rat option \<Rightarrow> bool" where
  "confirms_entry su price intrabar bai =
     (let entry = wa_entry_trigger su
      in if setup_direction (wa_setup_type su) = Side_BUY
         then price \<ge> entry \<and>
              (case intrabar of None \<Rightarrow> True | Some st \<Rightarrow> ib_delta st > 0) \<and>
              (case bai of None \<Rightarrow> True | Some b \<Rightarrow> b > 1/2)
         else price \<le> entry \<and>
              (case intrabar of None \<Rightarrow> True | Some st \<Rightarrow> ib_delta st < 0) \<and>
              (case bai of None \<Rightarrow> True | Some b \<Rightarrow> b < 1/2))"

definition candidate_key :: "watched_setup \<Rightarrow> nat \<times> uuid" where
  "candidate_key su = (grade_index (Some (wa_grade su)), wa_setup_id su)"

definition new_position ::
  "position_monitor \<Rightarrow> uuid \<Rightarrow> string \<Rightarrow> watched_setup \<Rightarrow> dec \<Rightarrow> timestamp \<Rightarrow> shadow_position" where
  "new_position m position_id s su price ts =
     \<lparr>sh_position_id = position_id, sh_symbol = s, sh_setup_id = wa_setup_id su,
      sh_setup_type = wa_setup_type su, sh_direction = setup_direction (wa_setup_type su),
      sh_entry_price = price, sh_stop = wa_stop_reference su, sh_target = wa_target_reference su,
      sh_grade = wa_grade su, sh_entered_at = ts,
      sh_thesis_type_at_entry = pm_latest_thesis_type m s, sh_bars_held = 0, sh_mfe = 0,
      sh_mae = 0, sh_last_price = None, sh_pending_thesis_invalidation = False\<rparr>"

definition check_entry ::
  "(string \<rightharpoonup> intrabar_state) \<Rightarrow> uuid \<Rightarrow> position_monitor \<Rightarrow> string \<Rightarrow> dec \<Rightarrow> timestamp \<Rightarrow> handler_result" where
  "check_entry engines position_id m s price ts =
     (let pending = (case pm_pending_setups m s of None \<Rightarrow> [] | Some d \<Rightarrow> map snd d);
          intrabar = engines s;
          bai = compute_bai m s;
          candidates = sort_key candidate_key pending
      in case find (\<lambda>su. wa_setup_id su \<notin> pm_recently_exited m \<and> confirms_entry su price intrabar bai)
                candidates of
           None \<Rightarrow> (None, m, [])
         | Some su \<Rightarrow>
             (let pos = new_position m position_id s su price ts;
                  m = m\<lparr>pm_shadow_positions := (pm_shadow_positions m)(s \<mapsto> pos)\<rparr>
              in case emit_enter pos price intrabar bai ts of
                   Inl e \<Rightarrow> (Some e, m, [])
                 | Inr sg \<Rightarrow> (None, m, [Published sg])))"

section \<open>Exit\<close>

definition is_stop_hit :: "shadow_position \<Rightarrow> dec \<Rightarrow> bool" where
  "is_stop_hit pos price =
     (if sh_direction pos = Side_BUY then price \<le> sh_stop pos else price \<ge> sh_stop pos)"

definition is_target_hit :: "shadow_position \<Rightarrow> dec \<Rightarrow> bool" where
  "is_target_hit pos price =
     (if sh_direction pos = Side_BUY then price \<ge> sh_target pos else price \<le> sh_target pos)"

definition excursion :: "shadow_position \<Rightarrow> dec \<Rightarrow> dec" where
  "excursion pos price =
     (if sh_direction pos = Side_BUY then price - sh_entry_price pos else sh_entry_price pos - price)"

definition price_seen :: "shadow_position \<Rightarrow> dec \<Rightarrow> shadow_position" where
  "price_seen pos price =
     (let pos = pos\<lparr>sh_bars_held := sh_bars_held pos + 1, sh_last_price := Some price\<rparr>;
          ex = excursion pos price;
          pos = (if ex > sh_mfe pos then pos\<lparr>sh_mfe := ex\<rparr> else pos)
      in if ex < - sh_mae pos then pos\<lparr>sh_mae := - ex\<rparr> else pos)"

definition exit_reason :: "int \<Rightarrow> shadow_position \<Rightarrow> dec \<Rightarrow> string option" where
  "exit_reason timeout_bars pos price =
     (if is_stop_hit pos price then Some ''stop_hit''
      else if is_target_hit pos price then Some ''target_hit''
      else if sh_pending_thesis_invalidation pos then Some ''thesis_invalidated''
      else if sh_bars_held pos \<ge> timeout_bars then Some ''timeout''
      else None)"

definition check_exit ::
  "position_monitor \<Rightarrow> string \<Rightarrow> shadow_position \<Rightarrow> dec \<Rightarrow> timestamp \<Rightarrow> handler_result" where
  "check_exit m s pos price ts =
     (let pos = price_seen pos price;
          m = m\<lparr>pm_shadow_positions := (pm_shadow_positions m)(s \<mapsto> pos)\<rparr>
      in case exit_reason (pm_timeout_bars m) pos price of
           Some reason \<Rightarrow>
             (case emit_exit pos price reason (excursion pos price) ts of
                Inl e \<Rightarrow> (Some e, m, [])
              | Inr sg \<Rightarrow>
                  (None,
                   m\<lparr>pm_recently_exited := insert (sh_setup_id pos) (pm_recently_exited m),
                     pm_shadow_positions := (pm_shadow_positions m)(sh_symbol pos := None)\<rparr>,
                   [Published sg]))
         | None \<Rightarrow>
             (case emit_hold pos price ts of
                Inl e \<Rightarrow> (Some e, m, [])
              | Inr sg \<Rightarrow> (None, m, [Published sg])))"

section \<open>The one-second bar\<close>

definition round_digits :: "nat \<Rightarrow> rat \<Rightarrow> rat" where
  "round_digits n x = fl (of_int (round_half_even (x * 10 ^ n)) / 10 ^ n)"

definition broadcast_intrabar ::
  "(string \<rightharpoonup> intrabar_state) \<Rightarrow> position_monitor \<Rightarrow> string \<Rightarrow> timestamp \<Rightarrow> monitor_output list" where
  "broadcast_intrabar engines m s ts =
     (if \<not> pm_broadcast m then []
      else case engines s of
             None \<Rightarrow> []
           | Some st \<Rightarrow>
               [Intrabar_flow s ts st (round_digits 2 (ib_absorption_confidence st))
                  (map_option (round_digits 3) (compute_bai m s))])"

text \<open>\<open>ingestion\<close> is the feed's quality monitor, when one is wired in.\<close>

definition on_s1_bar ::
  "ingestion_monitor option \<Rightarrow> (string \<rightharpoonup> intrabar_state) \<Rightarrow> uuid \<Rightarrow> position_monitor \<Rightarrow> bar_event \<Rightarrow> handler_result" where
  "on_s1_bar ingestion engines position_id m bar =
     (if be_timeframe bar \<noteq> TF_S1 then (None, m, [])
      else
        (let s = be_symbol bar; price = be_close bar; ts = be_timestamp bar
         in if pm_shadow_positions m s = None \<and>
               (case ingestion of None \<Rightarrow> False | Some im \<Rightarrow> \<not> is_signal_allowed im s)
            then (None, m, [])
            else
              (case (case pm_shadow_positions m s of
                       Some pos \<Rightarrow> check_exit m s pos price ts
                     | None \<Rightarrow> check_entry engines position_id m s price ts) of
                 (Some e, m, out) \<Rightarrow> (Some e, m, out)
               | (None, m, out) \<Rightarrow> (None, m, out @ broadcast_intrabar engines m s ts))))"

datatype monitor_event =
  Pipeline_output string "scored_setup list"
| Thesis_changed string string
| Quote_seen string "int \<times> int"
| Bar_seen "ingestion_monitor option" "string \<rightharpoonup> intrabar_state" uuid bar_event

fun monitor_step :: "position_monitor \<Rightarrow> monitor_event \<Rightarrow> handler_result" where
  "monitor_step m (Pipeline_output s scored) = (None, on_pipeline_output m s scored, [])"
| "monitor_step m (Thesis_changed s new_type) = (None, on_thesis m s new_type, [])"
| "monitor_step m (Quote_seen s sizes) = (None, pm_on_quote m s sizes, [])"
| "monitor_step m (Bar_seen ingestion engines position_id bar) =
     on_s1_bar ingestion engines position_id m bar"

fun monitor_run :: "position_monitor \<Rightarrow> monitor_event list \<Rightarrow> position_monitor \<times> monitor_output list" where
  "monitor_run m [] = (m, [])"
| "monitor_run m (ev # evs) =
     (case monitor_step m ev of (_, m, out) \<Rightarrow> (case monitor_run m evs of (m, out') \<Rightarrow> (m, out @ out')))"

section \<open>No signal can be built\<close>

lemma signal_lacks_metadata [simp]:
  "position_signal_event (signal_for pos price ts d) = Inl (Missing_field ''metadata'')"
  by (simp add: position_signal_event_def signal_for_def)

lemmas emit_defs = emit_enter_def emit_hold_def emit_exit_def

lemma check_exit_raises:
  "check_exit m s pos price ts =
     (Some (Missing_field ''metadata''),
      m\<lparr>pm_shadow_positions := (pm_shadow_positions m)(s \<mapsto> price_seen pos price)\<rparr>, [])"
  by (simp add: check_exit_def emit_defs Let_def split: option.split)

lemma check_entry_no_output: "check_entry engines pid m s price ts = (e, m', out) \<Longrightarrow> out = []"
  by (auto simp: check_entry_def emit_defs Let_def split: option.splits)

lemma check_entry_frame:
  "check_entry engines pid m s price ts = (e, m', out) \<Longrightarrow> s' \<noteq> s \<Longrightarrow>
   pm_shadow_positions m' s' = pm_shadow_positions m s'"
  by (auto simp: check_entry_def emit_defs Let_def split: option.splits)

lemma price_seen_frame [simp]:
  "sh_position_id (price_seen pos price) = sh_position_id pos"
  "sh_setup_id (price_seen pos price) = sh_setup_id pos"
  "sh_entry_price (price_seen pos price) = sh_entry_price pos"
  "sh_bars_held (price_seen pos price) = sh_bars_held pos + 1"
  by (simp_all add: price_seen_def Let_def)

section \<open>A position is never closed\<close>

definition same_position :: "int \<Rightarrow> shadow_position \<Rightarrow> shadow_position \<Rightarrow> bool" where
  "same_position n pos pos' \<longleftrightarrow>
     sh_position_id pos' = sh_position_id pos \<and> sh_setup_id pos' = sh_setup_id pos \<and>
     sh_entry_price pos' = sh_entry_price pos \<and> sh_bars_held pos' = sh_bars_held pos + n"

definition seconds_seen :: "string \<Rightarrow> monitor_event list \<Rightarrow> int" where
  "seconds_seen s evs =
     int (length [ev \<leftarrow> evs. case ev of Bar_seen _ _ _ bar \<Rightarrow> be_symbol bar = s \<and> be_timeframe bar = TF_S1
                                | _ \<Rightarrow> False])"

lemma seconds_seen_Nil [simp]: "seconds_seen s [] = 0"
  by (simp add: seconds_seen_def)

lemma seconds_seen_Cons: "seconds_seen s (ev # evs) = seconds_seen s [ev] + seconds_seen s evs"
  by (simp add: seconds_seen_def split: monitor_event.split)

lemma on_s1_bar_held:
  assumes "pm_shadow_positions m (be_symbol bar) = Some pos" "be_timeframe bar = TF_S1"
  shows "on_s1_bar im engines pid m bar =
    (Some (Missing_field ''metadata''),
     m\<lparr>pm_shadow_positions := (pm_shadow_positions m)(be_symbol bar \<mapsto> price_seen pos (be_close bar))\<rparr>, [])"
  using assms by (simp add: on_s1_bar_def Let_def check_exit_raises)

lemma on_s1_bar_free:
  assumes "pm_shadow_positions m (be_symbol bar) = None" "be_timeframe bar = TF_S1"
    and "case im of None \<Rightarrow> True | Some q \<Rightarrow> is_signal_allowed q (be_symbol bar)"
    and "check_entry engines pid m (be_symbol bar) (be_close bar) (be_timestamp bar) = (e, m', out)"
  shows "on_s1_bar im engines pid m bar =
    (e, m', if e = None then broadcast_intrabar engines m' (be_symbol bar) (be_timestamp bar) else [])"
  using assms(1,2,3) assms(4) [THEN check_entry_no_output] assms(4)
  by (cases im) (auto simp: on_s1_bar_def Let_def split: option.split)

lemma on_s1_bar_idle:
  assumes "be_timeframe bar \<noteq> TF_S1 \<or>
    pm_shadow_positions m (be_symbol bar) = None \<and>
    (case im of None \<Rightarrow> False | Some q \<Rightarrow> \<not> is_signal_allowed q (be_symbol bar))"
  shows "on_s1_bar im engines pid m bar = (None, m, [])"
  using assms by (auto simp: on_s1_bar_def)

lemma on_s1_bar_cases:
  assumes "on_s1_bar im engines pid m bar = (e, m', out)"
  obtains (idle) "e = None" "m' = m" "out = []"
  | (held) pos where "pm_shadow_positions m (be_symbol bar) = Some pos" "be_timeframe bar = TF_S1"
      "m' = m\<lparr>pm_shadow_positions :=
         (pm_shadow_positions m)(be_symbol bar \<mapsto> price_seen pos (be_close bar))\<rparr>" "out = []"
  | (entry) "pm_shadow_positions m (be_symbol bar) = None" "be_timeframe bar = TF_S1"
      "case im of None \<Rightarrow> True | Some q \<Rightarrow> is_signal_allowed q (be_symbol bar)"
      "check_entry engines pid m (be_symbol bar) (be_close bar) (be_timestamp bar) = (e, m', [])"
      "out = (if e = None then broadcast_intrabar engines m' (be_symbol bar) (be_timestamp bar) else [])"
proof (cases "pm_shadow_positions m (be_symbol bar)")
  case (Some pos)
  show ?thesis
  proof (cases "be_timeframe bar = TF_S1")
    case True
    from on_s1_bar_held [of m bar pos im engines pid, OF Some True] assms
    have "m' = m\<lparr>pm_shadow_positions :=
        (pm_shadow_positions m)(be_symbol bar \<mapsto> price_seen pos (be_close bar))\<rparr>" "out = []" by simp_all
    with Some True show ?thesis by (rule held)
  next
    case False
    then have "on_s1_bar im engines pid m bar = (None, m, [])" by (intro on_s1_bar_idle) simp
    with assms show ?thesis by (intro idle) simp_all
  qed
next
  case None
  obtain e1 m1 out1 where
    ce: "check_entry engines pid m (be_symbol bar) (be_close bar) (be_timestamp bar) = (e1, m1, out1)"
    by (cases "check_entry engines pid m (be_symbol bar) (be_close bar) (be_timestamp bar)")
  show ?thesis
  proof (cases "be_timeframe bar = TF_S1 \<and>
      (case im of None \<Rightarrow> True | Some q \<Rightarrow> is_signal_allowed q (be_symbol bar))")
    case True
    then have "on_s1_bar im engines pid m bar =
      (e1, m1, if e1 = None then broadcast_intrabar engines m1 (be_symbol bar) (be_timestamp bar) else [])"
      using on_s1_bar_free [of m bar im engines pid e1 m1 out1, OF None] ce by blast
    with assms have "e1 = e" "m1 = m'"
      "out = (if e = None then broadcast_intrabar engines m' (be_symbol bar) (be_timestamp bar) else [])"
      by auto
    with None True ce check_entry_no_output [OF ce] show ?thesis by (intro entry) simp_all
  next
    case False
    with None have "on_s1_bar im engines pid m bar = (None, m, [])"
      by (intro on_s1_bar_idle) (auto split: option.splits)
    with assms show ?thesis by (intro idle) simp_all
  qed
qed

lemma on_s1_bar_other:
  assumes "on_s1_bar im engines pid m bar = (e, m', out)" "s \<noteq> be_symbol bar"
  shows "pm_shadow_positions m' s = pm_shadow_positions m s"
  using assms(1)
proof (cases rule: on_s1_bar_cases)
  case entry
  with assms(2) check_entry_frame show ?thesis by blast
qed (use assms(2) in auto)

lemma on_s1_bar_published:
  assumes "on_s1_bar im engines pid m bar = (e, m', out)"
  shows "Published sg \<notin> set out"
  using assms
  by (cases rule: on_s1_bar_cases) (auto simp: broadcast_intrabar_def split: if_splits option.splits)

lemma same_position_refl: "same_position 0 pos pos"
  by (simp add: same_position_def)

lemma on_thesis_keeps:
  assumes "pm_shadow_positions m s = Some pos"
  shows "\<exists>pos'. pm_shadow_positions (on_thesis m s' t) s = Some pos' \<and> same_position 0 pos pos'"
proof (cases "s' = s")
  case True
  with assms show ?thesis
    by (cases "sh_thesis_type_at_entry pos \<noteq> None \<and> Some t \<noteq> sh_thesis_type_at_entry pos")
       (simp_all add: on_thesis_def Let_def same_position_def)
next
  case False
  with assms show ?thesis
    by (cases "pm_shadow_positions m s'") (simp_all add: on_thesis_def Let_def same_position_def)
qed

lemma on_s1_bar_keeps:
  assumes "on_s1_bar im engines pid m bar = (e, m', out)" "pm_shadow_positions m s = Some pos"
  shows "\<exists>pos'. pm_shadow_positions m' s = Some pos' \<and>
     same_position (seconds_seen s [Bar_seen im engines pid bar]) pos pos'"
proof (cases "be_timeframe bar = TF_S1 \<and> be_symbol bar = s")
  case True
  with assms on_s1_bar_held [of m bar pos im engines pid] have
    "m' = m\<lparr>pm_shadow_positions := (pm_shadow_positions m)(s \<mapsto> price_seen pos (be_close bar))\<rparr>" by simp
  with True show ?thesis by (simp add: same_position_def seconds_seen_def)
next
  case False
  have "pm_shadow_positions m' s = Some pos"
    using assms(1)
  proof (cases rule: on_s1_bar_cases)
    case (held p)
    with False assms(2) show ?thesis by auto
  next
    case entry
    with False assms(2) check_entry_frame show ?thesis by metis
  qed (use assms(2) in simp)
  with False show ?thesis by (auto simp: same_position_def seconds_seen_def)
qed

lemma step_keeps_position:
  assumes "pm_shadow_positions m s = Some pos" "monitor_step m ev = (e, m', out)"
  shows "\<exists>pos'. pm_shadow_positions m' s = Some pos' \<and> same_position (seconds_seen s [ev]) pos pos'"
proof (cases ev)
  case (Bar_seen im engines pid bar)
  with assms on_s1_bar_keeps [of im engines pid m bar e m' out s pos] show ?thesis by simp
next
  case (Thesis_changed s' t)
  with assms on_thesis_keeps [of m s pos s' t] show ?thesis by (auto simp: seconds_seen_def)
next
  case (Pipeline_output s' scored)
  with assms show ?thesis
    by (auto simp: on_pipeline_output_def seconds_seen_def intro: same_position_refl)
next
  case (Quote_seen s' sizes)
  with assms show ?thesis by (auto simp: pm_on_quote_def seconds_seen_def intro: same_position_refl)
qed

lemma step_publishes_nothing: "monitor_step m ev = (e, m', out) \<Longrightarrow> Published sg \<notin> set out"
  by (cases ev) (auto dest: on_s1_bar_published)

text \<open>
  C39. A shadow position never closes: once a symbol has one, no sequence of events (bars through its stop
  or target, a changed thesis, any number of bars past the timeout) removes it or opens another;
  it only goes on counting its bars, and the monitor publishes no signal, because every signal is
  built without its required metadata and raises.
\<close>

theorem shadow_position_never_closes:
  assumes "pm_shadow_positions m s = Some pos"
  shows "(\<exists>pos'. pm_shadow_positions (fst (monitor_run m evs)) s = Some pos' \<and>
            same_position (seconds_seen s evs) pos pos') \<and>
         (\<forall>sg. Published sg \<notin> set (snd (monitor_run m evs)))"
  using assms
proof (induction evs arbitrary: m pos)
  case (Cons ev evs)
  obtain e m' out where step: "monitor_step m ev = (e, m', out)" by (cases "monitor_step m ev")
  from step_keeps_position [OF Cons.prems step] obtain pos' where
    p: "pm_shadow_positions m' s = Some pos'" "same_position (seconds_seen s [ev]) pos pos'" by blast
  from Cons.IH [OF p(1)] obtain pos'' where
    q: "pm_shadow_positions (fst (monitor_run m' evs)) s = Some pos''"
    "same_position (seconds_seen s evs) pos' pos''" by blast
  from p(2) q(2) have "same_position (seconds_seen s (ev # evs)) pos pos''"
    by (simp add: same_position_def seconds_seen_Cons [of s ev evs])
  with q(1) Cons.IH [OF p(1)] step step_publishes_nothing [OF step] show ?case
    by (auto split: prod.splits)
qed (simp add: same_position_def)

definition sample_bar :: "timestamp \<Rightarrow> dec \<Rightarrow> bar_event" where
  "sample_bar ts close = sample_ohlc TF_S1 ts close close close close"

definition sample_scored :: "uuid \<Rightarrow> setup_grade \<Rightarrow> scored_setup" where
  "sample_scored su g =
     \<lparr>sc_setup_id = su, sc_setup_type = Setup_VWAP_RECLAIM, sc_grade = Some g,
      sc_entry_trigger = Some 100, sc_stop_reference = Some 95, sc_target_reference = Some 110\<rparr>"

definition sample_watching :: position_monitor where
  "sample_watching = fst (monitor_run (position_monitor_init Grade_A 120 False)
     [Pipeline_output ''MNQ'' [sample_scored ''b'' Grade_A, sample_scored ''a'' Grade_SSS,
                              sample_scored ''c'' Grade_B]])"

definition sample_entered :: position_monitor where
  "sample_entered = fst (monitor_run sample_watching [Bar_seen None Map.empty ''p'' (sample_bar 0 101)])"

theorem shadow_position_never_closes_witness:
  "pm_shadow_positions (fst (monitor_run sample_entered
     [Bar_seen None Map.empty ''q'' (sample_bar 1000000 90)])) ''MNQ'' \<noteq> None"
proof -
  have "pm_shadow_positions sample_entered ''MNQ'' \<noteq> None" by code_simp
  then obtain pos where "pm_shadow_positions sample_entered ''MNQ'' = Some pos" by blast
  from shadow_position_never_closes [OF this, of "[Bar_seen None Map.empty ''q'' (sample_bar 1000000 90)]"]
  show ?thesis by auto
qed

section \<open>What an entry takes\<close>

lemma find_least:
  "sorted (map f xs) \<Longrightarrow> find P xs = Some x \<Longrightarrow>
   x \<in> set xs \<and> P x \<and> (\<forall>y \<in> set xs. P y \<longrightarrow> f x \<le> f y)"
  by (induction xs) (auto split: if_splits)

definition pending_of :: "position_monitor \<Rightarrow> string \<Rightarrow> watched_setup list" where
  "pending_of m s = (case pm_pending_setups m s of None \<Rightarrow> [] | Some d \<Rightarrow> map snd d)"

definition watch_ok :: "setup_grade \<Rightarrow> position_monitor \<Rightarrow> bool" where
  "watch_ok g m \<longleftrightarrow> pm_min_grade m = g \<and>
     (\<forall>s. \<forall>w \<in> set (pending_of m s). grade_index (Some (wa_grade w)) \<le> grade_index (Some g))"

lemma qualifying_grade:
  "qualifying_setup g su = Some w \<Longrightarrow> grade_index (Some (wa_grade w)) \<le> grade_index (Some g)"
  by (auto simp: qualifying_setup_def split: option.splits if_splits)

lemma update_values: "snd ` set (AList.update k v d) \<subseteq> insert v (snd ` set d)"
  by (induction d) auto

lemma qualifying_fold:
  "(\<And>w. w \<in> snd ` set d \<Longrightarrow> Q w) \<Longrightarrow> (\<And>su w. su \<in> set sus \<Longrightarrow> q su = Some w \<Longrightarrow> Q w) \<Longrightarrow>
   w \<in> snd ` set (foldl (\<lambda>d su. case q su of None \<Rightarrow> d | Some w \<Rightarrow> AList.update (k su) w d) d sus) \<Longrightarrow>
   Q w"
proof (induction sus arbitrary: d)
  case Nil
  show ?case by (rule Nil.prems(1)) (use Nil.prems(3) in simp)
next
  case (Cons su sus)
  have later: "q x = Some w \<Longrightarrow> Q w" if "x \<in> set sus" for x w using Cons.prems(2) [of x w] that by simp
  show ?case
  proof (cases "q su")
    case None
    with Cons.prems(3) show ?thesis
      by (intro Cons.IH [of d, OF Cons.prems(1) later]) simp_all
  next
    case (Some v)
    have "Q v" by (rule Cons.prems(2) [OF _ Some]) simp
    then have "Q x" if "x \<in> snd ` set (AList.update (k su) v d)" for x
      using that update_values [of "k su" v d] Cons.prems(1) [of x] by blast
    from Cons.IH [OF this later] Cons.prems(3) Some show ?thesis by simp
  qed
qed

lemma on_pipeline_output_min_grade: "pm_min_grade (on_pipeline_output m s scored) = pm_min_grade m"
  by (simp add: on_pipeline_output_def)

lemma pending_after_output:
  "(\<And>su w. su \<in> set scored \<Longrightarrow> qualifying_setup (pm_min_grade m) su = Some w \<Longrightarrow> Q w) \<Longrightarrow>
   w \<in> set (pending_of (on_pipeline_output m s scored) s) \<Longrightarrow> Q w"
  by (rule qualifying_fold [of "[]" Q scored "qualifying_setup (pm_min_grade m)" w sc_setup_id])
     (auto simp: on_pipeline_output_def pending_of_def)

lemma watch_ok_pipeline:
  assumes "watch_ok g m"
  shows "watch_ok g (on_pipeline_output m s scored)"
proof -
  have "grade_index (Some (wa_grade w)) \<le> grade_index (Some g)"
    if "w \<in> set (pending_of (on_pipeline_output m s scored) s)" for w
    using _ that by (rule pending_after_output) (use assms qualifying_grade in \<open>auto simp: watch_ok_def\<close>)
  moreover have "pending_of (on_pipeline_output m s scored) s' = pending_of m s'" if "s' \<noteq> s" for s'
    using that by (simp add: on_pipeline_output_def pending_of_def)
  ultimately show ?thesis
    using assms unfolding watch_ok_def by (metis on_pipeline_output_min_grade)
qed

lemma watch_ok_frame:
  "watch_ok g m \<Longrightarrow> pm_min_grade m' = pm_min_grade m \<Longrightarrow> pm_pending_setups m' = pm_pending_setups m \<Longrightarrow>
   watch_ok g m'"
  by (simp add: watch_ok_def pending_of_def)

lemma check_entry_watch:
  "check_entry engines pid m s price ts = (e, m', out) \<Longrightarrow>
   pm_min_grade m' = pm_min_grade m \<and> pm_pending_setups m' = pm_pending_setups m"
  by (auto simp: check_entry_def emit_defs Let_def split: option.splits)

lemma on_s1_bar_watch:
  assumes "on_s1_bar im engines pid m bar = (e, m', out)" "watch_ok g m"
  shows "watch_ok g m'"
  using assms(1)
proof (cases rule: on_s1_bar_cases)
  case entry
  from check_entry_watch [OF entry(4)] assms(2) show ?thesis by (blast intro: watch_ok_frame)
qed (use assms(2) in \<open>auto intro: watch_ok_frame\<close>)

lemma monitor_step_watch:
  assumes "monitor_step m ev = (e, m', out)" "watch_ok g m"
  shows "watch_ok g m'"
proof (cases ev)
  case (Pipeline_output s scored)
  with assms watch_ok_pipeline [of g m s scored] show ?thesis by simp
next
  case (Thesis_changed s t)
  have "pm_min_grade (on_thesis m s t) = pm_min_grade m \<and>
    pm_pending_setups (on_thesis m s t) = pm_pending_setups m"
    by (simp add: on_thesis_def Let_def split: option.split)
  with Thesis_changed assms show ?thesis by (auto intro: watch_ok_frame)
next
  case (Quote_seen s sizes)
  with assms show ?thesis by (auto simp: pm_on_quote_def intro: watch_ok_frame)
next
  case (Bar_seen im engines pid bar)
  with assms on_s1_bar_watch [of im engines pid m bar e m' out g] show ?thesis by simp
qed

lemma monitor_run_watch: "watch_ok g m \<Longrightarrow> watch_ok g (fst (monitor_run m evs))"
proof (induction evs arbitrary: m)
  case (Cons ev evs)
  obtain e m' out where step: "monitor_step m ev = (e, m', out)" by (cases "monitor_step m ev")
  from Cons.IH [OF monitor_step_watch [OF step Cons.prems]] step show ?case by (auto split: prod.splits)
qed simp

lemma check_entry_takes:
  assumes "check_entry engines pid m s price ts = (e, m', out)"
    and "pm_shadow_positions m s = None" "pm_shadow_positions m' s = Some pos"
  defines "open_for \<equiv> \<lambda>su. wa_setup_id su \<notin> pm_recently_exited m \<and>
             confirms_entry su price (engines s) (compute_bai m s)"
  shows "\<exists>su \<in> set (pending_of m s). pos = new_position m pid s su price ts \<and> open_for su \<and>
     (\<forall>other \<in> set (pending_of m s). open_for other \<longrightarrow> candidate_key su \<le> candidate_key other)"
proof -
  let ?cs = "sort_key candidate_key (pending_of m s)"
  show ?thesis
  proof (cases "find open_for ?cs")
    case None
    with assms show ?thesis by (simp add: check_entry_def Let_def pending_of_def)
  next
    case (Some su)
    with assms(1) have "m' = m\<lparr>pm_shadow_positions :=
        (pm_shadow_positions m)(s \<mapsto> new_position m pid s su price ts)\<rparr>"
      by (simp add: check_entry_def Let_def pending_of_def open_for_def emit_defs)
    with assms(3) have "pos = new_position m pid s su price ts" by simp
    with find_least [OF sorted_sort_key Some] show ?thesis by auto
  qed
qed

text \<open>
  What an entry takes: whenever a bar opens a shadow position after any session, the feed was clean,
  the position carries the levels of a watched setup of at least the configured grade that had not
  just exited and whose trigger, delta and book imbalance confirmed at that bar, and no other
  setup that also confirmed has a better grade (or the same grade and a smaller id).
\<close>

theorem entry_takes_best_confirmed_setup:
  assumes "m = fst (monitor_run (position_monitor_init g timeout b) before)"
    and "on_s1_bar im engines pid m bar = (e, m', out)"
    and "pm_shadow_positions m (be_symbol bar) = None"
    and "pm_shadow_positions m' (be_symbol bar) = Some pos"
  defines "open_for \<equiv> \<lambda>su. wa_setup_id su \<notin> pm_recently_exited m \<and>
             confirms_entry su (be_close bar) (engines (be_symbol bar)) (compute_bai m (be_symbol bar))"
  shows "(case im of None \<Rightarrow> True | Some q \<Rightarrow> is_signal_allowed q (be_symbol bar)) \<and>
    (\<exists>su \<in> set (pending_of m (be_symbol bar)).
       pos = new_position m pid (be_symbol bar) su (be_close bar) (be_timestamp bar) \<and>
       grade_index (Some (wa_grade su)) \<le> grade_index (Some g) \<and> open_for su \<and>
       (\<forall>other \<in> set (pending_of m (be_symbol bar)).
          open_for other \<longrightarrow> candidate_key su \<le> candidate_key other))"
  using assms(2)
proof (cases rule: on_s1_bar_cases)
  case entry
  have "watch_ok g m"
    unfolding assms(1)
    by (rule monitor_run_watch) (simp add: watch_ok_def position_monitor_init_def pending_of_def)
  with entry(3) check_entry_takes [OF entry(4) assms(3,4)] show ?thesis
    unfolding open_for_def watch_ok_def by blast
qed (use assms(3,4) in auto)

theorem entry_takes_best_confirmed_setup_witness:
  "\<exists>su \<in> set (pending_of sample_watching ''MNQ''). wa_setup_id su = ''a'' \<and>
     grade_index (Some (wa_grade su)) \<le> grade_index (Some Grade_A)"
proof -
  let ?r = "on_s1_bar None Map.empty ''p'' sample_watching (sample_bar 0 101)"
  have none: "pm_shadow_positions sample_watching (be_symbol (sample_bar 0 101)) = None" by code_simp
  have "map_option sh_setup_id (pm_shadow_positions (fst (snd ?r)) (be_symbol (sample_bar 0 101))) = Some ''a''"
    by code_simp
  then obtain pos where
    pos: "pm_shadow_positions (fst (snd ?r)) (be_symbol (sample_bar 0 101)) = Some pos" "sh_setup_id pos = ''a''"
    by auto
  have r: "?r = (fst ?r, fst (snd ?r), snd (snd ?r))" by simp
  from entry_takes_best_confirmed_setup [OF sample_watching_def r none pos(1)] pos(2)
  show ?thesis by (auto simp: new_position_def sample_bar_def sample_ohlc_def)
qed

end
