(* ===== verification/Flow_Aggregator.thy ===== *)
theory Flow_Aggregator
  imports Numerics Events
begin

text \<open>
  The bar flow aggregator, \<^verbatim>\<open>src/alpha/engines/flow/aggregator.py\<close>: trades, quotes and
  one-second bars are accumulated in a window of one minute; a minute bar seals the window into a flow
  context, publishes the bar with it and opens the next window.
\<close>

section \<open>The window\<close>

definition V_REVERSAL_MAX_RATIO :: rat where "V_REVERSAL_MAX_RATIO = fl (3/10)"
definition V_REVERSAL_MAX_SECONDS :: int where "V_REVERSAL_MAX_SECONDS = 5"
definition GENUINE_FLUSH_VOLUME_MULTIPLIER :: rat where "GENUINE_FLUSH_VOLUME_MULTIPLIER = fl (12/10)"
definition GENUINE_REVERSAL_MIN_RATIO :: rat where "GENUINE_REVERSAL_MIN_RATIO = 1/2"

record flow_window =
  fw_open_ts :: timestamp
  fw_close_ts :: timestamp
  fw_buy_vol :: int
  fw_sell_vol :: int
  fw_unknown_vol :: int
  fw_large_buy_count :: int
  fw_large_sell_count :: int
  fw_large_trade_threshold :: int
  fw_trade_count :: int
  fw_s1_deltas :: "(timestamp \<times> int \<times> int) list"
  fw_bar_low :: "dec option"
  fw_bar_low_ts :: "timestamp option"
  fw_quote_count :: int
  fw_twap_last_ts :: "timestamp option"
  fw_twap_last_bid_sz :: int
  fw_twap_last_ask_sz :: int
  fw_twap_weighted_bid :: rat
  fw_twap_weighted_ask :: rat
  fw_twap_total_time :: rat

definition new_window :: "timestamp \<Rightarrow> timestamp \<Rightarrow> int \<Rightarrow> flow_window" where
  "new_window open_ts close_ts threshold =
     \<lparr>fw_open_ts = open_ts, fw_close_ts = close_ts, fw_buy_vol = 0, fw_sell_vol = 0, fw_unknown_vol = 0,
      fw_large_buy_count = 0, fw_large_sell_count = 0, fw_large_trade_threshold = threshold,
      fw_trade_count = 0, fw_s1_deltas = [], fw_bar_low = None, fw_bar_low_ts = None,
      fw_quote_count = 0, fw_twap_last_ts = None, fw_twap_last_bid_sz = 0,
      fw_twap_last_ask_sz = 0, fw_twap_weighted_bid = 0, fw_twap_weighted_ask = 0,
      fw_twap_total_time = 0\<rparr>"

definition add_trade :: "flow_window \<Rightarrow> trade_event \<Rightarrow> flow_window" where
  "add_trade w ev =
     (let n = te_size ev; side = te_taker_side ev;
          w = (if side = Taker_BUY then w\<lparr>fw_buy_vol := fw_buy_vol w + n\<rparr>
               else if side = Taker_SELL then w\<lparr>fw_sell_vol := fw_sell_vol w + n\<rparr>
               else w\<lparr>fw_unknown_vol := fw_unknown_vol w + n\<rparr>);
          w = (if n \<ge> fw_large_trade_threshold w
               then (if side = Taker_BUY then w\<lparr>fw_large_buy_count := fw_large_buy_count w + 1\<rparr>
                     else if side = Taker_SELL then w\<lparr>fw_large_sell_count := fw_large_sell_count w + 1\<rparr>
                     else w)
               else w)
      in w\<lparr>fw_trade_count := fw_trade_count w + 1\<rparr>)"

definition add_quote :: "flow_window \<Rightarrow> quote_event \<Rightarrow> flow_window" where
  "add_quote w ev =
     (let w = (case fw_twap_last_ts w of
                 None \<Rightarrow> w
               | Some last_ts \<Rightarrow>
                   (let dt = seconds_between (qe_timestamp ev) last_ts
                    in if dt > 0
                       then w\<lparr>fw_twap_weighted_bid :=
                                 fl (fw_twap_weighted_bid w + fl (of_int (fw_twap_last_bid_sz w) * dt)),
                              fw_twap_weighted_ask :=
                                 fl (fw_twap_weighted_ask w + fl (of_int (fw_twap_last_ask_sz w) * dt)),
                              fw_twap_total_time := fl (fw_twap_total_time w + dt)\<rparr>
                       else w))
      in w\<lparr>fw_twap_last_ts := Some (qe_timestamp ev), fw_twap_last_bid_sz := qe_bid_size ev,
           fw_twap_last_ask_sz := qe_ask_size ev, fw_quote_count := fw_quote_count w + 1\<rparr>)"

definition add_s1_bar :: "flow_window \<Rightarrow> bar_event \<Rightarrow> flow_window" where
  "add_s1_bar w ev =
     (let delta = (if be_close ev \<ge> be_open ev then be_volume ev else - be_volume ev);
          w = w\<lparr>fw_s1_deltas := fw_s1_deltas w @ [(be_timestamp ev, delta, be_volume ev)]\<rparr>
      in if fw_bar_low w = None \<or> be_low ev < the (fw_bar_low w)
         then w\<lparr>fw_bar_low := Some (be_low ev), fw_bar_low_ts := Some (be_timestamp ev)\<rparr>
         else w)"

definition fw_total_volume :: "flow_window \<Rightarrow> int" where
  "fw_total_volume w = fw_buy_vol w + fw_sell_vol w + fw_unknown_vol w"

definition fw_delta :: "flow_window \<Rightarrow> int" where
  "fw_delta w = fw_buy_vol w - fw_sell_vol w"

section \<open>Sealing\<close>

definition compute_quote_imbalance :: "flow_window \<Rightarrow> rat option \<times> rat option \<times> rat option" where
  "compute_quote_imbalance w =
     (if fw_quote_count w < 2 \<or> fw_twap_total_time w \<le> 0 then (None, None, None)
      else
        (let twap_bid = fl (fw_twap_weighted_bid w / fw_twap_total_time w);
             twap_ask = fl (fw_twap_weighted_ask w / fw_twap_total_time w);
             both = fl (twap_bid + twap_ask)
         in (Some twap_bid, Some twap_ask, if both > 0 then Some (fl (twap_bid / both)) else None)))"

text \<open>The one-second bars up to the low and those after it.\<close>

definition sweep_part :: "flow_window \<Rightarrow> timestamp \<Rightarrow> (timestamp \<times> int \<times> int) list" where
  "sweep_part w low_ts = [x \<leftarrow> fw_s1_deltas w. fst x \<le> low_ts]"

definition recovery_part :: "flow_window \<Rightarrow> timestamp \<Rightarrow> (timestamp \<times> int \<times> int) list" where
  "recovery_part w low_ts = [x \<leftarrow> fw_s1_deltas w. \<not> fst x \<le> low_ts]"

definition compute_split_delta :: "flow_window \<Rightarrow> bar_event \<Rightarrow> split_bar_delta option" where
  "compute_split_delta w bar =
     (case fw_bar_low_ts w of
        None \<Rightarrow> None
      | Some low_ts \<Rightarrow>
          if fw_s1_deltas w = [] then None
          else
            (let bar_range = be_high bar - be_low bar;
                 low_position = (if bar_range > 0 then (be_low bar - be_open bar) / bar_range else 0)
             in if low_position > - (1/5) then None
                else
                  (let sweep = sweep_part w low_ts; recovery = recovery_part w low_ts;
                       sweep_delta = sum_list (map (\<lambda>(_, d, _). d) sweep);
                       recovery_delta = sum_list (map (\<lambda>(_, d, _). d) recovery);
                       recovery_seconds = int (length recovery);
                       sweep_abs = \<bar>sweep_delta\<bar>
                   in Some \<lparr>sd_sweep_low_ts = Some low_ts,
                            sd_sweep_volume = sum_list (map (\<lambda>(_, _, v). v) sweep),
                            sd_sweep_delta = sweep_delta,
                            sd_recovery_volume = sum_list (map (\<lambda>(_, _, v). v) recovery),
                            sd_recovery_delta = recovery_delta,
                            sd_sweep_seconds = int (length sweep),
                            sd_recovery_seconds = recovery_seconds,
                            sd_recovery_ratio =
                              (if sweep_abs > 0 then Some (fl (of_int \<bar>recovery_delta\<bar> / of_int sweep_abs))
                               else None),
                            sd_recovery_speed =
                              (if recovery_seconds > 0
                               then Some (fl (of_int recovery_delta / of_int recovery_seconds))
                               else None)\<rparr>)))"

definition compute_absorption :: "int \<Rightarrow> flow_window \<Rightarrow> dec \<Rightarrow> absorption_signal" where
  "compute_absorption threshold w bar_low =
     (case fw_bar_low_ts w of
        None \<Rightarrow> no_absorption
      | Some low_ts \<Rightarrow>
          if fw_s1_deltas w = [] \<or> fw_sell_vol w = 0 then no_absorption
          else
            (let sell_at_low = sum_list (map (\<lambda>(_, d, _). if d < 0 then \<bar>d\<bar> else 0) (sweep_part w low_ts));
                 buy_response = sum_list (map (\<lambda>(_, d, _). if d > 0 then d else 0) (recovery_part w low_ts));
                 ticks_held = int (length (recovery_part w low_ts))
             in if sell_at_low = 0 then no_absorption
                else
                  (let buy_ratio = (if sell_at_low > 0 then fl (of_int buy_response / of_int sell_at_low) else 0);
                       hold_score = min (fl (of_int ticks_held / 10)) 1;
                       confidence = fl (fl (buy_ratio * fl (6/10)) + fl (hold_score * fl (4/10)))
                   in \<lparr>ab_detected = confidence \<ge> 1/2 \<and> sell_at_low \<ge> threshold,
                       ab_price_level = Some bar_low, ab_sell_volume_at_low = sell_at_low,
                       ab_buy_volume_response = buy_response, ab_ticks_held = ticks_held,
                       ab_confidence = min confidence 1\<rparr>)))"

record flow_aggregator =
  ag_symbol :: string
  ag_large_trade_threshold :: int
  ag_window :: "flow_window option"
  ag_avg_bar_volume :: rat
  ag_vol_history :: "int list"

definition VOL_HISTORY_SIZE :: nat where "VOL_HISTORY_SIZE = 20"

definition aggregator_init :: "string \<Rightarrow> int \<Rightarrow> flow_aggregator" where
  "aggregator_init s threshold =
     \<lparr>ag_symbol = s, ag_large_trade_threshold = threshold, ag_window = None, ag_avg_bar_volume = 0,
      ag_vol_history = []\<rparr>"

definition reversal_flags :: "flow_aggregator \<Rightarrow> flow_window \<Rightarrow> split_bar_delta option \<Rightarrow> bool \<Rightarrow> bool \<times> bool" where
  "reversal_flags a w split detected =
     (case split of
        None \<Rightarrow> (False, False)
      | Some sd \<Rightarrow>
          (case sd_recovery_ratio sd of
             None \<Rightarrow> (False, False)
           | Some ratio \<Rightarrow>
               (ratio < V_REVERSAL_MAX_RATIO \<and> sd_recovery_seconds sd \<le> V_REVERSAL_MAX_SECONDS \<and> \<not> detected,
                of_int (fw_buy_vol w + fw_sell_vol w) > fl (ag_avg_bar_volume a * GENUINE_FLUSH_VOLUME_MULTIPLIER)
                \<and> detected \<and> ratio > GENUINE_REVERSAL_MIN_RATIO \<and> fw_large_buy_count w \<ge> 2)))"

definition build_flow_context :: "flow_aggregator \<Rightarrow> flow_window \<Rightarrow> bar_event \<Rightarrow> bar_flow_context" where
  "build_flow_context a w bar =
     (let total_vol = fw_total_volume w; delta = fw_delta w;
          (twap_bid, twap_ask, imbalance) = compute_quote_imbalance w;
          bar_low = (case fw_bar_low w of None \<Rightarrow> be_low bar | Some l \<Rightarrow> l);
          split = compute_split_delta w bar;
          absorption = compute_absorption (ag_large_trade_threshold a) w bar_low;
          (is_v_reversal, is_genuine) = reversal_flags a w split (ab_detected absorption)
      in \<lparr>fc_total_volume = total_vol, fc_buy_volume = fw_buy_vol w, fc_sell_volume = fw_sell_vol w,
          fc_unknown_volume = fw_unknown_vol w, fc_delta = delta,
          fc_delta_pct = (if total_vol > 0 then Some (fl (fl (of_int delta / of_int total_vol) * 100)) else None),
          fc_large_trade_count = fw_large_buy_count w + fw_large_sell_count w,
          fc_large_buy_count = fw_large_buy_count w, fc_large_sell_count = fw_large_sell_count w,
          fc_trade_count = fw_trade_count w,
          fc_trade_velocity = (if fw_trade_count w > 0 then Some (fl (of_int (fw_trade_count w) / 60)) else None),
          fc_avg_trade_size =
            (if fw_trade_count w > 0 then Some (fl (of_int total_vol / of_int (fw_trade_count w))) else None),
          fc_twap_bid_size = twap_bid, fc_twap_ask_size = twap_ask, fc_bid_ask_imbalance = imbalance,
          fc_quote_count = fw_quote_count w, fc_split = split, fc_absorption = absorption,
          fc_is_v_reversal = is_v_reversal, fc_is_genuine_sweep_reversal = is_genuine,
          fc_large_trade_threshold = ag_large_trade_threshold a,
          fc_has_trade_data = fw_trade_count w > 0, fc_has_quote_data = fw_quote_count w > 0,
          fc_has_1s_bars = fw_s1_deltas w \<noteq> []\<rparr>)"

section \<open>The handlers\<close>

definition window_for :: "flow_aggregator \<Rightarrow> timestamp \<Rightarrow> flow_window option" where
  "window_for a ts =
     (case ag_window a of
        None \<Rightarrow> None
      | Some w \<Rightarrow> if fw_open_ts w \<le> ts \<and> ts < fw_close_ts w then Some w else None)"

definition open_window :: "flow_aggregator \<Rightarrow> timestamp \<Rightarrow> flow_aggregator" where
  "open_window a open_ts =
     a\<lparr>ag_window := Some (new_window open_ts (open_ts + 60 * 10 ^ 6) (ag_large_trade_threshold a))\<rparr>"

definition update_vol_history :: "flow_aggregator \<Rightarrow> int \<Rightarrow> flow_aggregator" where
  "update_vol_history a volume =
     (let history = ag_vol_history a @ [volume];
          history = (if length history > VOL_HISTORY_SIZE then tl history else history)
      in a\<lparr>ag_vol_history := history,
           ag_avg_bar_volume := fl (of_int (sum_list history) / of_nat (length history))\<rparr>)"

definition aggregator_on_trade :: "flow_aggregator \<Rightarrow> trade_event \<Rightarrow> flow_aggregator" where
  "aggregator_on_trade a ev =
     (case window_for a (te_timestamp ev) of
        None \<Rightarrow> a | Some w \<Rightarrow> a\<lparr>ag_window := Some (add_trade w ev)\<rparr>)"

definition aggregator_on_quote :: "flow_aggregator \<Rightarrow> quote_event \<Rightarrow> flow_aggregator" where
  "aggregator_on_quote a ev =
     (case window_for a (qe_timestamp ev) of
        None \<Rightarrow> a | Some w \<Rightarrow> a\<lparr>ag_window := Some (add_quote w ev)\<rparr>)"

definition seal_and_emit :: "flow_aggregator \<Rightarrow> bar_event \<Rightarrow> flow_aggregator \<times> bar_bundle" where
  "seal_and_emit a bar =
     (let flow = map_option (\<lambda>w. build_flow_context a w bar) (ag_window a);
          bundle = \<lparr>bb_symbol = be_symbol bar, bb_timestamp = be_timestamp bar,
                    bb_metadata = be_metadata bar, bb_timeframe = be_timeframe bar,
                    bb_open = be_open bar, bb_high = be_high bar, bb_low = be_low bar,
                    bb_close = be_close bar, bb_volume = be_volume bar, bb_vwap = be_vwap bar,
                    bb_trade_count = be_trade_count bar, bb_flow = flow\<rparr>;
          a = update_vol_history a (be_volume bar)
      in (open_window a (be_timestamp bar + 60 * 10 ^ 6), bundle))"

definition aggregator_on_bar :: "flow_aggregator \<Rightarrow> bar_event \<Rightarrow> flow_aggregator \<times> bar_bundle list" where
  "aggregator_on_bar a ev =
     (if be_symbol ev \<noteq> ag_symbol a then (a, [])
      else if be_is_pipeline_fallback ev then (a, [])
      else if be_timeframe ev = TF_S1 then
        (case window_for a (be_timestamp ev) of
           None \<Rightarrow> (a, []) | Some w \<Rightarrow> (a\<lparr>ag_window := Some (add_s1_bar w ev)\<rparr>, []))
      else if be_timeframe ev = TF_M1 then (case seal_and_emit a ev of (a, b) \<Rightarrow> (a, [b]))
      else (a, []))"

datatype market_tick = Tick_trade trade_event | Tick_quote quote_event | Tick_bar bar_event

fun aggregator_step :: "flow_aggregator \<Rightarrow> market_tick \<Rightarrow> flow_aggregator \<times> bar_bundle list" where
  "aggregator_step a (Tick_trade ev) = (aggregator_on_trade a ev, [])"
| "aggregator_step a (Tick_quote ev) = (aggregator_on_quote a ev, [])"
| "aggregator_step a (Tick_bar ev) = aggregator_on_bar a ev"

fun aggregator_run :: "flow_aggregator \<Rightarrow> market_tick list \<Rightarrow> flow_aggregator \<times> bar_bundle list" where
  "aggregator_run a [] = (a, [])"
| "aggregator_run a (t # ts) =
     (case aggregator_step a t of (a, out) \<Rightarrow> (case aggregator_run a ts of (a, out') \<Rightarrow> (a, out @ out')))"


section \<open>What a sealed window holds\<close>

text \<open>The minute bars of the aggregator's own symbol are the ones that seal.\<close>

fun seals :: "string \<Rightarrow> market_tick \<Rightarrow> bool" where
  "seals s (Tick_bar ev) \<longleftrightarrow>
     be_symbol ev = s \<and> \<not> be_is_pipeline_fallback ev \<and> be_timeframe ev = TF_M1"
| "seals s _ \<longleftrightarrow> False"

fun trades_of :: "market_tick list \<Rightarrow> trade_event list" where
  "trades_of [] = []"
| "trades_of (Tick_trade ev # ts) = ev # trades_of ts"
| "trades_of (_ # ts) = trades_of ts"

definition trades_between :: "timestamp \<Rightarrow> timestamp \<Rightarrow> market_tick list \<Rightarrow> trade_event list" where
  "trades_between t0 t1 ts = [ev \<leftarrow> trades_of ts. t0 \<le> te_timestamp ev \<and> te_timestamp ev < t1]"

definition traded_volume :: "taker_side \<Rightarrow> trade_event list \<Rightarrow> int" where
  "traded_volume side evs = sum_list (map te_size [ev \<leftarrow> evs. te_taker_side ev = side])"

lemma traded_volume_Nil [simp]: "traded_volume side [] = 0"
  by (simp add: traded_volume_def)

lemma traded_volume_Cons [simp]:
  "traded_volume side (ev # evs) =
     (if te_taker_side ev = side then te_size ev else 0) + traded_volume side evs"
  by (simp add: traded_volume_def)

text \<open>\<open>grows w w' evs\<close>: the counters of \<open>w'\<close> are those of \<open>w\<close> and the trades \<open>evs\<close>.\<close>

definition grows :: "flow_window \<Rightarrow> flow_window \<Rightarrow> trade_event list \<Rightarrow> bool" where
  "grows w w' evs \<longleftrightarrow>
     fw_open_ts w' = fw_open_ts w \<and> fw_close_ts w' = fw_close_ts w
     \<and> fw_buy_vol w' = fw_buy_vol w + traded_volume Taker_BUY evs
     \<and> fw_sell_vol w' = fw_sell_vol w + traded_volume Taker_SELL evs
     \<and> fw_unknown_vol w' = fw_unknown_vol w + traded_volume Taker_UNKNOWN evs
     \<and> fw_trade_count w' = fw_trade_count w + int (length evs)"

lemma grows_refl: "grows w w []"
  by (simp add: grows_def)

lemma grows_trans: "grows w w' evs \<Longrightarrow> grows w' w'' evs' \<Longrightarrow> grows w w'' (evs @ evs')"
  by (simp add: grows_def traded_volume_def)

lemma grows_add_trade: "grows w (add_trade w ev) [ev]"
  by (cases "te_taker_side ev") (simp_all add: grows_def add_trade_def Let_def)

lemma grows_add_quote: "grows w (add_quote w ev) []"
  by (simp add: grows_def add_quote_def Let_def split: option.split)

lemma grows_add_s1_bar: "grows w (add_s1_bar w ev) []"
  by (simp add: grows_def add_s1_bar_def Let_def)

lemma aggregator_run_append:
  "aggregator_run a (ts @ us) =
     (case aggregator_run a ts of (a, out) \<Rightarrow>
        (case aggregator_run a us of (a, out') \<Rightarrow> (a, out @ out')))"
  by (induction ts arbitrary: a) (simp_all split: prod.splits)

lemma step_in_window:
  assumes "ag_window a = Some w" "\<not> seals (ag_symbol a) t"
  shows "\<exists>a' w'. aggregator_step a t = (a', []) \<and> ag_symbol a' = ag_symbol a \<and> ag_window a' = Some w'
           \<and> grows w w' (trades_between (fw_open_ts w) (fw_close_ts w) [t])"
proof (cases t)
  case (Tick_trade ev)
  with assms show ?thesis
    by (simp add: aggregator_on_trade_def window_for_def trades_between_def grows_add_trade grows_refl)
next
  case (Tick_quote ev)
  with assms show ?thesis
    by (simp add: aggregator_on_quote_def window_for_def trades_between_def grows_add_quote grows_refl)
next
  case (Tick_bar ev)
  with assms show ?thesis
    by (auto simp: aggregator_on_bar_def window_for_def trades_between_def grows_add_s1_bar grows_refl)
qed

lemma run_in_window:
  assumes "ag_window a = Some w" "list_all (\<lambda>t. \<not> seals (ag_symbol a) t) ts"
  shows "\<exists>a' w'. aggregator_run a ts = (a', []) \<and> ag_symbol a' = ag_symbol a \<and> ag_window a' = Some w'
           \<and> grows w w' (trades_between (fw_open_ts w) (fw_close_ts w) ts)"
  using assms
proof (induction ts arbitrary: a w)
  case Nil
  then show ?case by (simp add: trades_between_def grows_refl)
next
  case (Cons t ts)
  from Cons.prems step_in_window [of a w t] obtain a1 w1
    where s: "aggregator_step a t = (a1, [])" "ag_symbol a1 = ag_symbol a" "ag_window a1 = Some w1"
      and g: "grows w w1 (trades_between (fw_open_ts w) (fw_close_ts w) [t])" by auto
  from Cons.IH [of a1 w1] s Cons.prems obtain a2 w2
    where r: "aggregator_run a1 ts = (a2, [])" "ag_symbol a2 = ag_symbol a" "ag_window a2 = Some w2"
      and h: "grows w1 w2 (trades_between (fw_open_ts w1) (fw_close_ts w1) ts)" by auto
  have "trades_between t0 t1 [t] @ trades_between t0 t1 ts = trades_between t0 t1 (t # ts)" for t0 t1
    by (cases t) (simp_all add: trades_between_def)
  moreover have "fw_open_ts w1 = fw_open_ts w" "fw_close_ts w1 = fw_close_ts w"
    using g by (simp_all add: grows_def)
  ultimately have "grows w w2 (trades_between (fw_open_ts w) (fw_close_ts w) (t # ts))"
    using grows_trans [OF g h] by simp
  with s r show ?case by simp
qed

lemma seal_step:
  assumes "seals (ag_symbol a) (Tick_bar bar)"
  shows "\<exists>a' b. aggregator_step a (Tick_bar bar) = (a', [b]) \<and> ag_symbol a' = ag_symbol a
           \<and> ag_window a' = Some (new_window (be_timestamp bar + 60 * 10 ^ 6)
                (be_timestamp bar + 60 * 10 ^ 6 + 60 * 10 ^ 6) (ag_large_trade_threshold a))
           \<and> bb_timestamp b = be_timestamp bar
           \<and> bb_flow b = map_option (\<lambda>w. build_flow_context a w bar) (ag_window a)"
  using assms by (simp add: aggregator_on_bar_def seal_and_emit_def Let_def open_window_def update_vol_history_def)

lemma build_flow_counts:
  "fc_buy_volume (build_flow_context a w bar) = fw_buy_vol w"
  "fc_sell_volume (build_flow_context a w bar) = fw_sell_vol w"
  "fc_unknown_volume (build_flow_context a w bar) = fw_unknown_vol w"
  "fc_total_volume (build_flow_context a w bar) = fw_buy_vol w + fw_sell_vol w + fw_unknown_vol w"
  "fc_trade_count (build_flow_context a w bar) = fw_trade_count w"
  "fc_delta (build_flow_context a w bar) = fw_buy_vol w - fw_sell_vol w"
  by (simp_all add: build_flow_context_def Let_def fw_total_volume_def fw_delta_def split: prod.split)

text \<open>
  Between two consecutive minute bars of the symbol, the second bar is published with the trades
  of exactly one minute: the one that starts sixty seconds after the first bar's timestamp. Bought,
  sold, unclassified and total volume, delta and trade count are the sums over the trades of
  that minute, whatever quotes, second bars and trades of other minutes arrive in between. The
  second bar's own timestamp does not matter, so after a gap of bars the flow of an earlier minute is
  attached to it.
\<close>

theorem flow_covers_minute_after_previous_bar:
  assumes "seals (ag_symbol a) (Tick_bar b1)" "seals (ag_symbol a) (Tick_bar b2)"
    and "list_all (\<lambda>t. \<not> seals (ag_symbol a) t) mid"
    and evs: "evs = trades_between (be_timestamp b1 + 60000000) (be_timestamp b1 + 120000000) mid"
  shows "\<exists>bundle1 bundle2 flow.
           snd (aggregator_run a (Tick_bar b1 # mid @ [Tick_bar b2])) = [bundle1, bundle2]
           \<and> bb_timestamp bundle2 = be_timestamp b2 \<and> bb_flow bundle2 = Some flow
           \<and> fc_buy_volume flow = traded_volume Taker_BUY evs
           \<and> fc_sell_volume flow = traded_volume Taker_SELL evs
           \<and> fc_unknown_volume flow = traded_volume Taker_UNKNOWN evs
           \<and> fc_total_volume flow = sum_list (map te_size evs)
           \<and> fc_delta flow = traded_volume Taker_BUY evs - traded_volume Taker_SELL evs
           \<and> fc_trade_count flow = int (length evs)"
proof -
  have total: "sum_list (map te_size es)
    = traded_volume Taker_BUY es + traded_volume Taker_SELL es + traded_volume Taker_UNKNOWN es" for es
  proof (induction es)
    case (Cons e es)
    then show ?case by (cases "te_taker_side e") simp_all
  qed simp
  let ?w = "new_window (be_timestamp b1 + 60000000) (be_timestamp b1 + 120000000) (ag_large_trade_threshold a)"
  from seal_step [OF assms(1)] obtain a1 bundle1
    where s1: "aggregator_step a (Tick_bar b1) = (a1, [bundle1])" "ag_symbol a1 = ag_symbol a"
      "ag_window a1 = Some ?w"
    by (auto simp: add.commute)
  with run_in_window [of a1 ?w mid] assms(3) obtain a2 w2
    where r: "aggregator_run a1 mid = (a2, [])" "ag_symbol a2 = ag_symbol a" "ag_window a2 = Some w2"
      and g: "grows ?w w2 evs"
    by (auto simp: evs new_window_def)
  from seal_step [of a2 b2] assms(2) r obtain a3 bundle2
    where s2: "aggregator_step a2 (Tick_bar b2) = (a3, [bundle2])" "bb_timestamp bundle2 = be_timestamp b2"
      "bb_flow bundle2 = Some (build_flow_context a2 w2 b2)"
    by auto
  have "snd (aggregator_run a (Tick_bar b1 # mid @ [Tick_bar b2])) = [bundle1, bundle2]"
    using s1 s2 by (simp add: r aggregator_run_append)
  with s2 g show ?thesis by (simp add: build_flow_counts grows_def new_window_def total)
qed

definition sample_trade :: "timestamp \<Rightarrow> int \<Rightarrow> taker_side \<Rightarrow> trade_event" where
  "sample_trade ts n side =
     \<lparr>te_symbol = ''MNQ'', te_timestamp = ts, te_price = 100, te_size = n, te_taker_side = side\<rparr>"

text \<open>The bar of minute 10 is published with the trade of minute 1, and without the one of minute 9.\<close>

lemma flow_covers_minute_after_previous_bar_witness:
  "\<exists>bundle1 bundle2 flow.
     snd (aggregator_run (aggregator_init ''MNQ'' 10)
       [Tick_bar (sample_ohlc TF_M1 0 1 1 1 1), Tick_trade (sample_trade 70000000 3 Taker_BUY),
        Tick_trade (sample_trade 570000000 5 Taker_SELL), Tick_bar (sample_ohlc TF_M1 600000000 1 1 1 1)])
     = [bundle1, bundle2]
     \<and> bb_timestamp bundle2 = 600000000 \<and> bb_flow bundle2 = Some flow
     \<and> fc_buy_volume flow = 3 \<and> fc_sell_volume flow = 0 \<and> fc_trade_count flow = 1"
  using flow_covers_minute_after_previous_bar
    [of "aggregator_init ''MNQ'' 10" "sample_ohlc TF_M1 0 1 1 1 1" "sample_ohlc TF_M1 600000000 1 1 1 1"
        "[Tick_trade (sample_trade 70000000 3 Taker_BUY), Tick_trade (sample_trade 570000000 5 Taker_SELL)]"
        "[sample_trade 70000000 3 Taker_BUY]"]
  by (auto simp: aggregator_init_def sample_ohlc_def sample_trade_def trades_between_def)

section \<open>Bounds of a flow context\<close>

text \<open>Trades and quotes with the sizes a feed can report.\<close>

fun tick_ok :: "market_tick \<Rightarrow> bool" where
  "tick_ok (Tick_trade ev) \<longleftrightarrow> 0 \<le> te_size ev"
| "tick_ok (Tick_quote ev) \<longleftrightarrow> 0 \<le> qe_bid_size ev \<and> 0 \<le> qe_ask_size ev"
| "tick_ok (Tick_bar _) \<longleftrightarrow> True"

definition window_ok :: "flow_window \<Rightarrow> bool" where
  "window_ok w \<longleftrightarrow>
     0 \<le> fw_buy_vol w \<and> 0 \<le> fw_sell_vol w \<and> 0 \<le> fw_unknown_vol w
     \<and> 0 \<le> fw_twap_last_bid_sz w \<and> 0 \<le> fw_twap_last_ask_sz w
     \<and> 0 \<le> fw_twap_weighted_bid w \<and> 0 \<le> fw_twap_weighted_ask w
     \<and> 0 \<le> fw_twap_total_time w"

definition aggregator_ok :: "flow_aggregator \<Rightarrow> bool" where
  "aggregator_ok a \<longleftrightarrow> (case ag_window a of None \<Rightarrow> True | Some w \<Rightarrow> window_ok w)"

definition unit_interval :: "rat option \<Rightarrow> bool" where
  "unit_interval x \<longleftrightarrow> (case x of None \<Rightarrow> True | Some r \<Rightarrow> 0 \<le> r \<and> r \<le> 1)"

definition flow_bounds :: "bar_flow_context \<Rightarrow> bool" where
  "flow_bounds f \<longleftrightarrow>
     fc_total_volume f = fc_buy_volume f + fc_sell_volume f + fc_unknown_volume f
     \<and> \<bar>fc_delta f\<bar> \<le> fc_total_volume f
     \<and> unit_interval (fc_bid_ask_imbalance f)
     \<and> 0 \<le> ab_confidence (fc_absorption f) \<and> ab_confidence (fc_absorption f) \<le> 1
     \<and> \<not> (fc_is_v_reversal f \<and> fc_is_genuine_sweep_reversal f)"

lemma window_ok_new: "window_ok (new_window t0 t1 n)"
  by (simp add: window_ok_def new_window_def)

lemma window_ok_add_trade: "window_ok w \<Longrightarrow> 0 \<le> te_size ev \<Longrightarrow> window_ok (add_trade w ev)"
  by (cases "te_taker_side ev") (simp_all add: window_ok_def add_trade_def Let_def)

lemma window_ok_add_quote:
  "window_ok w \<Longrightarrow> 0 \<le> qe_bid_size ev \<Longrightarrow> 0 \<le> qe_ask_size ev \<Longrightarrow> window_ok (add_quote w ev)"
  by (simp add: window_ok_def add_quote_def Let_def fl_nonneg split: option.split)

lemma window_ok_add_s1_bar: "window_ok w \<Longrightarrow> window_ok (add_s1_bar w ev)"
  by (simp add: window_ok_def add_s1_bar_def Let_def)

lemmas window_ok_intros =
  window_ok_new window_ok_add_trade window_ok_add_quote window_ok_add_s1_bar

lemma quote_imbalance_unit:
  assumes "window_ok w"
  shows "unit_interval (snd (snd (compute_quote_imbalance w)))"
proof -
  have "0 \<le> fl (fl b / fl (fl b + fl c)) \<and> fl (fl b / fl (fl b + fl c)) \<le> 1"
    if "0 \<le> b" "0 \<le> c" "0 < fl (fl b + fl c)" for b c
  proof -
    have "fl b \<le> fl (fl b + fl c)"
      using fl_mono [of "fl b" "fl b + fl c"] fl_nonneg that by simp
    with that fl_nonneg [of b] show ?thesis by (intro fl_unit) (simp_all add: divide_le_eq)
  qed
  with assms show ?thesis
    by (simp add: unit_interval_def compute_quote_imbalance_def Let_def window_ok_def)
qed

lemma absorption_confidence_unit:
  "0 \<le> ab_confidence (compute_absorption n w low) \<and> ab_confidence (compute_absorption n w low) \<le> 1"
proof -
  have pos: "0 \<le> sum_list (map (\<lambda>(_, d, _). if d > 0 then d else 0) xs)" for xs :: "(timestamp \<times> int \<times> int) list"
    by (induction xs) auto
  have conf: "0 \<le> fl (fl ((if 0 < s then fl (of_int b / of_int s) else 0) * fl (6/10))
      + fl (min (fl (of_int (int k) / 10)) 1 * fl (4/10)))" if "0 \<le> b" for b s :: int and k
    using that by (intro fl_nonneg add_nonneg_nonneg mult_nonneg_nonneg) (auto intro!: fl_nonneg)
  note c = conf [OF pos]
  have "0 \<le> ab_confidence (compute_absorption n w low)"
    using c by (auto simp: compute_absorption_def no_absorption_def Let_def split: option.split)
  moreover have "ab_confidence (compute_absorption n w low) \<le> 1"
    by (simp add: compute_absorption_def no_absorption_def Let_def split: option.split)
  ultimately show ?thesis ..
qed

lemma reversal_flags_exclusive: "\<not> (fst (reversal_flags a w sd d) \<and> snd (reversal_flags a w sd d))"
  by (auto simp: reversal_flags_def split: option.splits)

lemma build_flow_parts:
  "fc_bid_ask_imbalance (build_flow_context a w bar) = snd (snd (compute_quote_imbalance w))"
  "\<exists>low. fc_absorption (build_flow_context a w bar) = compute_absorption (ag_large_trade_threshold a) w low"
  "\<exists>sd d. (fc_is_v_reversal (build_flow_context a w bar), fc_is_genuine_sweep_reversal (build_flow_context a w bar))
     = reversal_flags a w sd d"
  by (auto simp: build_flow_context_def Let_def split: prod.split) (metis prod.collapse)

lemma build_flow_bounds:
  assumes "window_ok w"
  shows "flow_bounds (build_flow_context a w bar)"
proof -
  have "\<bar>fw_buy_vol w - fw_sell_vol w\<bar> \<le> fw_buy_vol w + fw_sell_vol w + fw_unknown_vol w"
    using assms by (simp add: window_ok_def abs_le_iff)
  moreover from build_flow_parts(2) [of a w bar] absorption_confidence_unit have
    "0 \<le> ab_confidence (fc_absorption (build_flow_context a w bar))
     \<and> ab_confidence (fc_absorption (build_flow_context a w bar)) \<le> 1" by auto
  moreover from build_flow_parts(3) [of a w bar] reversal_flags_exclusive have
    "\<not> (fc_is_v_reversal (build_flow_context a w bar) \<and> fc_is_genuine_sweep_reversal (build_flow_context a w bar))"
    by (metis fst_conv snd_conv)
  ultimately show ?thesis using quote_imbalance_unit [OF assms]
    by (simp add: flow_bounds_def build_flow_counts build_flow_parts)
qed

lemma aggregator_step_ok:
  assumes "aggregator_ok a" "tick_ok t"
  shows "aggregator_ok (fst (aggregator_step a t))
    \<and> (\<forall>b \<in> set (snd (aggregator_step a t)). pred_option flow_bounds (bb_flow b))"
proof (cases t)
  case (Tick_bar ev)
  with assms show ?thesis
    by (auto simp: aggregator_ok_def aggregator_on_bar_def window_for_def seal_and_emit_def Let_def open_window_def
        update_vol_history_def window_ok_intros build_flow_bounds split: option.splits prod.splits if_splits)
qed (use assms in \<open>auto simp: aggregator_ok_def aggregator_on_trade_def aggregator_on_quote_def window_for_def
       window_ok_intros split: option.split\<close>)

lemma aggregator_run_ok:
  "aggregator_ok a \<Longrightarrow> list_all tick_ok ts \<Longrightarrow>
   list_all (\<lambda>b. pred_option flow_bounds (bb_flow b)) (snd (aggregator_run a ts))"
proof (induction ts arbitrary: a)
  case (Cons t ts)
  then show ?case
    using aggregator_step_ok [of a t] by (auto simp: list_all_iff split: prod.splits)
qed simp

text \<open>
  Whatever trades, quotes and bars arrive, in whatever order, every flow context that is
  published is well formed: total volume splits into bought, sold and unclassified volume, the delta
  never exceeds it in size, the bid/ask imbalance and the absorption confidence lie between 0 and 1
  although both are computed with rounded floating point operations, and no bar is
  flagged both as a V-reversal and as a genuine sweep reversal.
\<close>

theorem published_flow_is_bounded:
  assumes "list_all tick_ok ts"
  shows "list_all (\<lambda>b. pred_option flow_bounds (bb_flow b)) (snd (aggregator_run (aggregator_init s n) ts))"
  using assms by (intro aggregator_run_ok) (simp_all add: aggregator_ok_def aggregator_init_def)

lemma published_flow_is_bounded_witness:
  "list_all (\<lambda>b. pred_option flow_bounds (bb_flow b))
     (snd (aggregator_run (aggregator_init ''MNQ'' 10)
        [Tick_bar (sample_ohlc TF_M1 0 1 1 1 1), Tick_trade (sample_trade 70000000 3 Taker_BUY),
         Tick_bar (sample_ohlc TF_M1 60000000 1 1 1 1)]))"
  by (rule published_flow_is_bounded) (simp add: sample_trade_def)

end
