(* ===== verification/Snapshots.thy ===== *)
theory Snapshots
  imports Numerics Events
begin

text \<open>
  What the engines of the bar pipeline hand to each other: the normalized bar (\<^verbatim>\<open>models/bar.py\<close>), the
  feature engine's snapshot (\<^verbatim>\<open>models/snapshot.py\<close>), the market state (\<^verbatim>\<open>models/market_state.py\<close>), the
  session context (\<^verbatim>\<open>models/context.py\<close>), the setup with its immutable transition
  (\<^verbatim>\<open>models/setup.py\<close>) and the slope classification (\<^verbatim>\<open>features/slope.py\<close>). The \<open>new_\<close> functions give a
  model's defaults to the fields its constructor call leaves out.
\<close>

section \<open>Bars\<close>

record bar =
  br_symbol :: string
  br_timeframe :: bar_timeframe
  br_timestamp :: timestamp
  br_open :: dec
  br_high :: dec
  br_low :: dec
  br_close :: dec
  br_volume :: int
  br_vwap :: "dec option"
  br_trade_count :: "int option"
  br_is_partial :: bool
  br_source :: data_source_id

text \<open>The validator of \<open>Bar\<close>; the constructor raises when it fails.\<close>

definition bar_valid :: "bar \<Rightarrow> bool" where
  "bar_valid b \<longleftrightarrow>
     \<not> br_high b < br_low b
     \<and> \<not> (br_high b < br_open b \<or> br_high b < br_close b)
     \<and> \<not> (br_low b > br_open b \<or> br_low b > br_close b)"

section \<open>Slopes\<close>

definition SLOPE_FLAT_THRESHOLD_1M :: rat where "SLOPE_FLAT_THRESHOLD_1M = fl (5/100)"
definition SLOPE_FLAT_THRESHOLD_5M :: rat where "SLOPE_FLAT_THRESHOLD_5M = fl (3/100)"
definition SLOPE_FLAT_THRESHOLD_1H :: rat where "SLOPE_FLAT_THRESHOLD_1H = fl (2/100)"

definition classify_slope :: "rat option \<Rightarrow> rat \<Rightarrow> string option" where
  "classify_slope v flat_threshold =
     (case v of
        None \<Rightarrow> None
      | Some x \<Rightarrow> Some (if x > flat_threshold then ''up'' else if x < - flat_threshold then ''down'' else ''flat''))"

section \<open>The bar snapshot\<close>

record bar_snapshot =
  sn_symbol :: string
  sn_timestamp :: timestamp
  sn_timeframe :: bar_timeframe
  sn_bar :: bar
  sn_vwap :: dec
  sn_full_session_vwap :: "dec option"
  sn_rth_vwap :: "dec option"
  sn_vwap_upper_band :: "dec option"
  sn_vwap_lower_band :: "dec option"
  sn_vwap_deviation_pct :: rat
  sn_cumulative_volume :: int
  sn_relative_volume :: "rat option"
  sn_or_high :: "dec option"
  sn_or_low :: "dec option"
  sn_or_range :: "dec option"
  sn_or_established :: bool
  sn_or_position :: "string option"
  sn_session_phase :: session_phase
  sn_bars_since_open :: int
  sn_ema_9 :: "dec option"
  sn_ema_21 :: "dec option"
  sn_ema_50 :: "dec option"
  sn_ema9_1m_slope_norm_3 :: "rat option"
  sn_ema9_1m_slope_direction :: "string option"
  sn_ema21_1m_slope_norm_3 :: "rat option"
  sn_ema21_1m_slope_direction :: "string option"
  sn_vwap_slope :: "rat option"
  sn_vwap_slope_direction :: "string option"
  sn_ema9_5m :: "dec option"
  sn_ema21_5m :: "dec option"
  sn_atr30_5m :: "dec option"
  sn_atr30_5m_samples :: int
  sn_ema9_5m_slope_norm_3 :: "rat option"
  sn_ema9_5m_slope_direction :: "string option"
  sn_ema21_5m_slope_norm_3 :: "rat option"
  sn_ema21_5m_slope_direction :: "string option"
  sn_htf_5m_watermark :: "timestamp option"
  sn_ema9_1h :: "dec option"
  sn_ema21_1h :: "dec option"
  sn_ema50_1h :: "dec option"
  sn_sma200_1h :: "dec option"
  sn_atr30_1h :: "dec option"
  sn_atr30_1h_samples :: int
  sn_ema9_1h_slope_norm_3 :: "rat option"
  sn_ema9_1h_slope_direction :: "string option"
  sn_ema21_1h_slope_norm_3 :: "rat option"
  sn_ema21_1h_slope_direction :: "string option"
  sn_ema50_1h_slope_norm_3 :: "rat option"
  sn_ema50_1h_slope_direction :: "string option"
  sn_ema_ribbon_low_1h :: "dec option"
  sn_ema_ribbon_high_1h :: "dec option"
  sn_ema_ribbon_center_1h :: "dec option"
  sn_ema_ribbon_width_1h_atr :: "rat option"
  sn_ema9_21_distance_1h_atr :: "rat option"
  sn_ema21_50_distance_1h_atr :: "rat option"
  sn_ema_stack_direction_1h :: "string option"
  sn_ema_slope_alignment_1h :: "string option"
  sn_h1_close_location_vs_ema_ribbon_1h :: "string option"
  sn_h1_close_to_ema_ribbon_1h_atr :: "rat option"
  sn_h1_close_to_ema_ribbon_center_1h_atr :: "rat option"
  sn_m1_close_location_vs_ema_ribbon_1h :: "string option"
  sn_m1_close_to_ema_ribbon_1h_atr :: "rat option"
  sn_m1_close_to_ema_ribbon_center_1h_atr :: "rat option"
  sn_ema_ribbon_center_to_sma200_1h_atr :: "rat option"
  sn_price_to_sma200_1h_atr :: "rat option"
  sn_ema_ribbon_width_percentile_60h :: "rat option"
  sn_ema_ribbon_width_slope_3h :: "rat option"
  sn_ema_ribbon_width_slope_6h :: "rat option"
  sn_htf_1h_watermark :: "timestamp option"
  sn_ema10_1d :: "dec option"
  sn_ema20_1d :: "dec option"
  sn_atr_14 :: "dec option"
  sn_bid_price :: "dec option"
  sn_ask_price :: "dec option"
  sn_bid_ask_spread :: "dec option"
  sn_bid_ask_spread_pct :: "rat option"
  sn_rs_vs_spy :: "rat option"
  sn_rs_vs_sector :: "rat option"
  sn_is_above_vwap :: bool
  sn_is_extended :: bool
  sn_bars_above_vwap :: int
  sn_bars_below_vwap :: int
  sn_vwap_cross_up :: bool
  sn_vwap_cross_up_after_bars :: int
  sn_vwap_cross_down :: bool
  sn_vwap_cross_down_after_bars :: int
  sn_vwap_deviation_shrinking :: bool
  sn_bar_close_position_pct :: "rat option"
  sn_intraday_high :: "dec option"
  sn_intraday_low :: "dec option"
  sn_is_new_hod :: bool
  sn_is_new_lod :: bool
  sn_is_new_rth_lod :: bool
  sn_is_higher_high :: bool
  sn_is_lower_low :: bool
  sn_is_lower_high :: bool
  sn_recent_lower_low :: bool
  sn_or_mid :: "dec option"
  sn_swept_below_vwap :: bool
  sn_swept_or_low :: bool
  sn_or_cross_down :: bool
  sn_or_cross_up :: bool
  sn_bars_since_or_breakdown :: int
  sn_vwap_distance_atr :: "rat option"
  sn_atr_30 :: "dec option"
  sn_ema9_1m_slope_accel_norm :: "rat option"
  sn_ema21_1m_slope_accel_norm :: "rat option"
  sn_ema9_5m_slope_accel_norm :: "rat option"
  sn_ema21_5m_slope_accel_norm :: "rat option"
  sn_ema_bearish_alignment_1m :: bool
  sn_ema_bearish_alignment_5m :: bool
  sn_ema_bullish_alignment_1m :: bool
  sn_ema_bullish_alignment_5m :: bool
  sn_ema_mtf_all_bearish :: bool
  sn_ema_mtf_all_bullish :: bool
  sn_ema_mtf_strength :: "rat option"
  sn_ema_slope_dispersion :: "rat option"
  sn_ema_bearish_persistence_bars :: int
  sn_ema_bullish_persistence_bars :: int
  sn_vwap_relative_side :: "string option"
  sn_bar_high_distance_to_vwap_atr :: "rat option"
  sn_bar_low_distance_to_vwap_atr :: "rat option"
  sn_vwap_approach_velocity_atr :: "rat option"
  sn_bar_body_pct :: "rat option"
  sn_upper_wick_pct :: "rat option"
  sn_lower_wick_pct :: "rat option"
  sn_bar_range_atr :: "rat option"
  sn_is_inside_bar :: bool
  sn_is_outside_bar :: bool
  sn_rth_median_1m_range :: "dec option"
  sn_rth_p75_1m_range :: "dec option"
  sn_rth_p90_1m_range :: "dec option"
  sn_vp_source :: "string option"
  sn_vp_poc_distance_atr :: "rat option"
  sn_vp_vah_distance_atr :: "rat option"
  sn_vp_val_distance_atr :: "rat option"
  sn_vp_location :: "string option"
  sn_vp_nearest_hvn_distance_atr :: "rat option"
  sn_vp_nearest_lvn_distance_atr :: "rat option"
  sn_vp_globex_source :: "string option"
  sn_vp_globex_poc_distance_atr :: "rat option"
  sn_vp_globex_location :: "string option"
  sn_flow :: "bar_flow_context option"

definition new_snapshot :: "string \<Rightarrow> timestamp \<Rightarrow> bar_timeframe \<Rightarrow> bar \<Rightarrow> dec \<Rightarrow> bar_snapshot" where
  "new_snapshot s ts tf b vw =
     \<lparr>sn_symbol = s, sn_timestamp = ts, sn_timeframe = tf, sn_bar = b, sn_vwap = vw,
      sn_full_session_vwap = None, sn_rth_vwap = None, sn_vwap_upper_band = None,
      sn_vwap_lower_band = None, sn_vwap_deviation_pct = 0, sn_cumulative_volume = 0,
      sn_relative_volume = None, sn_or_high = None, sn_or_low = None, sn_or_range = None,
      sn_or_established = False, sn_or_position = None, sn_session_phase = Phase_CLOSED,
      sn_bars_since_open = 0, sn_ema_9 = None, sn_ema_21 = None, sn_ema_50 = None,
      sn_ema9_1m_slope_norm_3 = None, sn_ema9_1m_slope_direction = None,
      sn_ema21_1m_slope_norm_3 = None, sn_ema21_1m_slope_direction = None, sn_vwap_slope = None,
      sn_vwap_slope_direction = None, sn_ema9_5m = None, sn_ema21_5m = None, sn_atr30_5m = None,
      sn_atr30_5m_samples = 0, sn_ema9_5m_slope_norm_3 = None, sn_ema9_5m_slope_direction = None,
      sn_ema21_5m_slope_norm_3 = None, sn_ema21_5m_slope_direction = None, sn_htf_5m_watermark = None,
      sn_ema9_1h = None, sn_ema21_1h = None, sn_ema50_1h = None, sn_sma200_1h = None,
      sn_atr30_1h = None, sn_atr30_1h_samples = 0, sn_ema9_1h_slope_norm_3 = None,
      sn_ema9_1h_slope_direction = None, sn_ema21_1h_slope_norm_3 = None,
      sn_ema21_1h_slope_direction = None, sn_ema50_1h_slope_norm_3 = None,
      sn_ema50_1h_slope_direction = None, sn_ema_ribbon_low_1h = None, sn_ema_ribbon_high_1h = None,
      sn_ema_ribbon_center_1h = None, sn_ema_ribbon_width_1h_atr = None,
      sn_ema9_21_distance_1h_atr = None, sn_ema21_50_distance_1h_atr = None,
      sn_ema_stack_direction_1h = None, sn_ema_slope_alignment_1h = None,
      sn_h1_close_location_vs_ema_ribbon_1h = None, sn_h1_close_to_ema_ribbon_1h_atr = None,
      sn_h1_close_to_ema_ribbon_center_1h_atr = None, sn_m1_close_location_vs_ema_ribbon_1h = None,
      sn_m1_close_to_ema_ribbon_1h_atr = None, sn_m1_close_to_ema_ribbon_center_1h_atr = None,
      sn_ema_ribbon_center_to_sma200_1h_atr = None, sn_price_to_sma200_1h_atr = None,
      sn_ema_ribbon_width_percentile_60h = None, sn_ema_ribbon_width_slope_3h = None,
      sn_ema_ribbon_width_slope_6h = None, sn_htf_1h_watermark = None, sn_ema10_1d = None,
      sn_ema20_1d = None, sn_atr_14 = None, sn_bid_price = None, sn_ask_price = None,
      sn_bid_ask_spread = None, sn_bid_ask_spread_pct = None, sn_rs_vs_spy = None,
      sn_rs_vs_sector = None, sn_is_above_vwap = False, sn_is_extended = False, sn_bars_above_vwap = 0,
      sn_bars_below_vwap = 0, sn_vwap_cross_up = False, sn_vwap_cross_up_after_bars = 0,
      sn_vwap_cross_down = False, sn_vwap_cross_down_after_bars = 0,
      sn_vwap_deviation_shrinking = False, sn_bar_close_position_pct = None, sn_intraday_high = None,
      sn_intraday_low = None, sn_is_new_hod = False, sn_is_new_lod = False, sn_is_new_rth_lod = False,
      sn_is_higher_high = False, sn_is_lower_low = False, sn_is_lower_high = False,
      sn_recent_lower_low = False, sn_or_mid = None, sn_swept_below_vwap = False,
      sn_swept_or_low = False, sn_or_cross_down = False, sn_or_cross_up = False,
      sn_bars_since_or_breakdown = 0, sn_vwap_distance_atr = None, sn_atr_30 = None,
      sn_ema9_1m_slope_accel_norm = None, sn_ema21_1m_slope_accel_norm = None,
      sn_ema9_5m_slope_accel_norm = None, sn_ema21_5m_slope_accel_norm = None,
      sn_ema_bearish_alignment_1m = False, sn_ema_bearish_alignment_5m = False,
      sn_ema_bullish_alignment_1m = False, sn_ema_bullish_alignment_5m = False,
      sn_ema_mtf_all_bearish = False, sn_ema_mtf_all_bullish = False, sn_ema_mtf_strength = None,
      sn_ema_slope_dispersion = None, sn_ema_bearish_persistence_bars = 0,
      sn_ema_bullish_persistence_bars = 0, sn_vwap_relative_side = None,
      sn_bar_high_distance_to_vwap_atr = None, sn_bar_low_distance_to_vwap_atr = None,
      sn_vwap_approach_velocity_atr = None, sn_bar_body_pct = None, sn_upper_wick_pct = None,
      sn_lower_wick_pct = None, sn_bar_range_atr = None, sn_is_inside_bar = False,
      sn_is_outside_bar = False, sn_rth_median_1m_range = None, sn_rth_p75_1m_range = None,
      sn_rth_p90_1m_range = None, sn_vp_source = None, sn_vp_poc_distance_atr = None,
      sn_vp_vah_distance_atr = None, sn_vp_val_distance_atr = None, sn_vp_location = None,
      sn_vp_nearest_hvn_distance_atr = None, sn_vp_nearest_lvn_distance_atr = None,
      sn_vp_globex_source = None, sn_vp_globex_poc_distance_atr = None, sn_vp_globex_location = None,
      sn_flow = None\<rparr>"

section \<open>The market state\<close>

record market_state =
  ms_symbol :: string
  ms_timestamp :: timestamp
  ms_trend :: trend_state
  ms_trend_strength :: rat
  ms_trend_bars :: int
  ms_vwap_state :: vwap_state
  ms_vwap_tests :: int
  ms_vwap_holds :: int
  ms_or_position :: "string option"
  ms_orb_breakout_clean :: bool
  ms_orb_volume_confirmed :: bool
  ms_session_phase :: session_phase
  ms_is_low_float :: bool
  ms_is_extended :: bool
  ms_lead_symbol :: "string option"
  ms_lead_lag_correlation :: "rat option"
  ms_structure_score :: rat
  ms_confidence :: rat
  ms_day_type :: day_type
  ms_day_type_status :: day_type_status
  ms_live_bias :: live_bias
  ms_trade_long_allowed :: bool
  ms_trade_short_allowed :: bool
  ms_trade_permission_reason :: string
  ms_is_news_driven :: bool
  ms_is_high_volume_day :: bool
  ms_flags :: "string list"

definition new_market_state :: "string \<Rightarrow> timestamp \<Rightarrow> market_state" where
  "new_market_state s ts =
     \<lparr>ms_symbol = s, ms_timestamp = ts, ms_trend = Trend_UNKNOWN, ms_trend_strength = 0,
      ms_trend_bars = 0, ms_vwap_state = VWAP_BELOW, ms_vwap_tests = 0, ms_vwap_holds = 0,
      ms_or_position = None, ms_orb_breakout_clean = False, ms_orb_volume_confirmed = False,
      ms_session_phase = Phase_CLOSED, ms_is_low_float = False, ms_is_extended = False,
      ms_lead_symbol = None, ms_lead_lag_correlation = None, ms_structure_score = 0, ms_confidence = 0,
      ms_day_type = Day_UNKNOWN, ms_day_type_status = DayStatus_FORMING, ms_live_bias = Bias_UNKNOWN,
      ms_trade_long_allowed = True, ms_trade_short_allowed = True, ms_trade_permission_reason = '''',
      ms_is_news_driven = False, ms_is_high_volume_day = False, ms_flags = []\<rparr>"

section \<open>The session context\<close>

record context_snapshot =
  cx_symbol :: string
  cx_timestamp :: timestamp
  cx_onh :: "dec option"
  cx_onl :: "dec option"
  cx_pdh :: "dec option"
  cx_pdl :: "dec option"
  cx_prev_rth_close :: "dec option"
  cx_rth_open :: "dec option"
  cx_gap_points :: "rat option"
  cx_gap_pct :: "rat option"
  cx_gap_midpoint :: "dec option"
  cx_orb_high :: "dec option"
  cx_orb_low :: "dec option"
  cx_or_mid :: "dec option"
  cx_nearest_war_zone :: "string option"
  cx_nearest_war_zone_price :: "dec option"
  cx_nearest_war_zone_dist :: "rat option"
  cx_dist_to_onl :: "rat option"
  cx_dist_to_onh :: "rat option"
  cx_dist_to_pdl :: "rat option"
  cx_dist_to_pdh :: "rat option"
  cx_dist_to_vwap :: "rat option"
  cx_dist_to_5m21 :: "rat option"
  cx_dist_to_orb_high :: "rat option"
  cx_dist_to_orb_low :: "rat option"
  cx_dist_to_prev_close :: "rat option"

section \<open>Setups\<close>

text \<open>
  The label of a rubric line is represented by the name of its condition, which identifies
  it; a rejection for risk carries the numbers its text is formatted from.
\<close>

datatype score_reason = Base_score setup_type int | Condition string
datatype invalidation = Because string | Risk_gt_atr dec dec | Risk_gt_pct dec

record trade_setup =
  ts_setup_id :: uuid
  ts_symbol :: string
  ts_setup_type :: setup_type
  ts_state :: setup_state
  ts_detected_at :: timestamp
  ts_updated_at :: timestamp
  ts_triggered_at :: "timestamp option"
  ts_invalidated_at :: "timestamp option"
  ts_entry_trigger :: "dec option"
  ts_stop_reference :: "dec option"
  ts_target_reference :: "dec option"
  ts_score :: "rat option"
  ts_grade :: "setup_grade option"
  ts_structural_grade :: "setup_grade option"
  ts_conditions_met :: "score_reason list"
  ts_conditions_missing :: "score_reason list"
  ts_invalidation_reason :: "invalidation option"
  ts_score_reasons :: "score_reason list"
  ts_score_penalties :: "score_reason list"
  ts_market_state :: market_state
  ts_bar_snapshot :: bar_snapshot
  ts_notes :: string
  ts_tags :: "string list"

definition setup_transition :: "trade_setup \<Rightarrow> setup_state \<Rightarrow> invalidation option \<Rightarrow> timestamp \<Rightarrow> trade_setup" where
  "setup_transition su new_state reason t =
     (let su = su\<lparr>ts_state := new_state, ts_updated_at := t\<rparr>;
          su = (if new_state = SState_TRIGGERED then su\<lparr>ts_triggered_at := Some t\<rparr> else su)
      in if new_state \<in> {SState_FAILED, SState_INVALIDATED}
         then (let su = su\<lparr>ts_invalidated_at := Some t\<rparr>
               in if reason \<noteq> None then su\<lparr>ts_invalidation_reason := reason\<rparr> else su)
         else su)"

record setup_history_entry =
  he_setup_id :: uuid
  he_setup_type :: setup_type
  he_state :: setup_state
  he_detected_at :: timestamp
  he_updated_at :: timestamp
  he_resolved_at :: "timestamp option"
  he_side :: order_side
  he_level_tag :: string
  he_entry_trigger :: "dec option"
  he_stop_reference :: "dec option"
  he_target_reference :: "dec option"
  he_grade :: "setup_grade option"
  he_score :: "rat option"
  he_structural_grade :: "setup_grade option"
  he_session_phase :: session_phase
  he_invalidation_reason :: "invalidation option"
  he_score_reasons :: "score_reason list"
  he_score_penalties :: "score_reason list"

end
