(* ===== verification/Calendars.thy ===== *)
theory Calendars
  imports Enums
begin

text \<open>
  The session calendars, \<^verbatim>\<open>src/alpha/calendar/nyse.py\<close>, \<^verbatim>\<open>cme.py\<close>, \<^verbatim>\<open>base.py\<close> and \<^verbatim>\<open>resolver.py\<close>. A
  \<open>date\<close> is a day number (day 0 is 1970-01-01, a Thursday). Times of day in New York are wall-clock
  times, microseconds since day 0 as a New York clock shows them: Python compares and
  shifts datetimes of one zone by wall clock. The zone database is a parameter (\<open>zn_to_et\<close>, \<open>zn_from_et\<close>), and so
  is \<open>trading\<close>, the exchange's list of sessions that the library \<open>exchange_calendars\<close> holds.
\<close>

type_synonym date = int

definition MINUTE :: timestamp where "MINUTE = 60 * 10 ^ 6"
definition HOUR :: timestamp where "HOUR = 60 * MINUTE"
definition DAY :: timestamp where "DAY = 24 * HOUR"

lemmas time_defs = MINUTE_def HOUR_def DAY_def

text \<open>\<open>datetime(d.year, d.month, d.day, h, m, tzinfo=_ET)\<close>, \<open>dt.date()\<close> and \<open>d.weekday()\<close>.\<close>

definition at_time :: "date \<Rightarrow> int \<Rightarrow> int \<Rightarrow> timestamp" where
  "at_time d h m = d * DAY + h * HOUR + m * MINUTE"

definition date_of :: "timestamp \<Rightarrow> date" where
  "date_of w = w div DAY"

definition time_of :: "timestamp \<Rightarrow> timestamp" where
  "time_of w = w mod DAY"

definition weekday :: "date \<Rightarrow> int" where
  "weekday d = (d + 3) mod 7"

record zone =
  zn_to_et :: "timestamp \<Rightarrow> timestamp"
  zn_from_et :: "timestamp \<Rightarrow> timestamp"

section \<open>Trading days\<close>

definition is_holiday :: "(date \<Rightarrow> bool) \<Rightarrow> date \<Rightarrow> bool" where
  "is_holiday trading d \<longleftrightarrow> weekday d < 5 \<and> \<not> trading d"

text \<open>The searches run until they hit a trading day; \<open>None\<close> is a search that never does.\<close>

partial_function (option) search_forward :: "(date \<Rightarrow> bool) \<Rightarrow> date \<Rightarrow> date option" where
  "search_forward trading candidate =
     (if trading candidate then Some candidate else search_forward trading (candidate + 1))"

partial_function (option) search_backward :: "(date \<Rightarrow> bool) \<Rightarrow> date \<Rightarrow> date option" where
  "search_backward trading candidate =
     (if trading candidate then Some candidate else search_backward trading (candidate - 1))"

definition next_trading_day :: "(date \<Rightarrow> bool) \<Rightarrow> date \<Rightarrow> date option" where
  "next_trading_day trading d = search_forward trading (d + 1)"

definition prev_trading_day :: "(date \<Rightarrow> bool) \<Rightarrow> date \<Rightarrow> date option" where
  "prev_trading_day trading d = search_backward trading (d - 1)"

lemma search_forward_finds:
  assumes "trading (c + int n)" "\<forall>k < n. \<not> trading (c + int k)"
  shows "search_forward trading c = Some (c + int n)"
  using assms
proof (induction n arbitrary: c)
  case 0
  then show ?case by (simp add: search_forward.simps)
next
  case (Suc n)
  from Suc.prems have "\<not> trading c" by force
  moreover have "trading (c + 1 + int n)" using Suc.prems(1) by (simp add: algebra_simps)
  moreover have "\<forall>k < n. \<not> trading (c + 1 + int k)"
  proof (intro allI impI)
    fix k assume "k < n"
    then have "\<not> trading (c + int (Suc k))" using Suc.prems(2) by blast
    then show "\<not> trading (c + 1 + int k)" by (simp add: algebra_simps)
  qed
  ultimately show ?case using Suc.IH [of "c + 1"] by (subst search_forward.simps) simp
qed

lemma search_forward_first:
  assumes "trading t" "c \<le> t"
  shows "\<exists>d. search_forward trading c = Some d \<and> trading d \<and> c \<le> d \<and> d \<le> t
    \<and> (\<forall>e. c \<le> e \<longrightarrow> e < d \<longrightarrow> \<not> trading e)"
proof -
  define n where "n = (LEAST n. trading (c + int n))"
  have "trading (c + int (nat (t - c)))" using assms by simp
  then have n: "trading (c + int n)" "\<forall>k < n. \<not> trading (c + int k)" "n \<le> nat (t - c)"
    unfolding n_def by (rule LeastI, use not_less_Least in blast, rule Least_le)
  have gap: "\<not> trading e" if "c \<le> e" "e < c + int n" for e
    using that n(2) [rule_format, of "nat (e - c)"] by simp
  show ?thesis
    using search_forward_finds [OF n(1,2)] n(1,3) gap assms(2)
    by (intro exI [of _ "c + int n"]) auto
qed

lemma next_trading_day_first:
  assumes "trading t" "d < t"
  shows "\<exists>n. next_trading_day trading d = Some n \<and> trading n \<and> d < n \<and> n \<le> t
    \<and> (\<forall>e. d < e \<longrightarrow> e < n \<longrightarrow> \<not> trading e)"
proof -
  have "(d + 1 \<le> e) = (d < e)" for e by linarith
  with search_forward_first [of trading t "d + 1"] assms show ?thesis by (simp add: next_trading_day_def)
qed

text \<open>
  The search for the next trading day ends whenever the exchange has a session after the
  given date, and it returns the first one: a trading day, later than the date, with none in
  between.
\<close>

theorem next_trading_day_terminates:
  assumes "trading t" "d < t"
  shows "\<exists>n. next_trading_day trading d = Some n \<and> trading n \<and> d < n \<and> n \<le> t
    \<and> (\<forall>e. d < e \<longrightarrow> e < n \<longrightarrow> \<not> trading e)"
  using assms by (rule next_trading_day_first)

text \<open>From a Friday (day 1) over a weekend to the Monday (day 4).\<close>

lemma next_trading_day_terminates_witness:
  "\<exists>n. next_trading_day (\<lambda>d. weekday d < 5) 1 = Some n \<and> weekday n < 5 \<and> 1 < n \<and> n \<le> 4
    \<and> (\<forall>e. 1 < e \<longrightarrow> e < n \<longrightarrow> \<not> weekday e < 5)"
  by (rule next_trading_day_terminates) (simp_all add: weekday_def)

section \<open>The calendar interface\<close>

text \<open>\<open>SessionCalendar\<close>: the operations the engines call, on UTC timestamps.\<close>

record session_calendar =
  sc_name :: string
  sc_timezone :: string
  sc_session_open :: "date \<Rightarrow> timestamp"
  sc_session_close :: "date \<Rightarrow> timestamp"
  sc_is_open :: "timestamp \<Rightarrow> bool"
  sc_session_phase :: "timestamp \<Rightarrow> session_phase"
  sc_session_date :: "timestamp \<Rightarrow> date"

definition opening_range_end :: "session_calendar \<Rightarrow> date \<Rightarrow> int \<Rightarrow> timestamp" where
  "opening_range_end cal d minutes = sc_session_open cal d + minutes * MINUTE"

text \<open>The key is \<open>session_date(dt).isoformat()\<close>, represented by the date.\<close>

definition session_key :: "session_calendar \<Rightarrow> timestamp \<Rightarrow> date" where
  "session_key cal t = sc_session_date cal t"

definition REGULAR_PHASES :: "session_phase set" where
  "REGULAR_PHASES = {Phase_OPENING_RANGE, Phase_EARLY, Phase_MID, Phase_POWER_HOUR, Phase_CLOSING}"

definition ORB_MINUTES :: int where "ORB_MINUTES = 5"

text \<open>The cash session's sub-phases, the tail of both \<open>session_phase\<close> methods.\<close>

definition regular_phase :: "timestamp \<Rightarrow> timestamp \<Rightarrow> timestamp \<Rightarrow> session_phase" where
  "regular_phase reg_open reg_close et =
     (if et < reg_open + ORB_MINUTES * MINUTE then Phase_OPENING_RANGE
      else if et < reg_open + HOUR then Phase_EARLY
      else if et < reg_open + 4 * HOUR + 30 * MINUTE then Phase_MID
      else if et < reg_close - 30 * MINUTE then Phase_POWER_HOUR
      else Phase_CLOSING)"

lemma regular_phase_mem [simp]: "regular_phase a b et \<in> REGULAR_PHASES"
  by (simp add: regular_phase_def REGULAR_PHASES_def)

section \<open>NYSE\<close>

definition nyse_session_open :: "date \<Rightarrow> timestamp" where "nyse_session_open d = at_time d 9 30"
definition nyse_session_close :: "date \<Rightarrow> timestamp" where "nyse_session_close d = at_time d 16 0"
definition nyse_pre_market_open :: "date \<Rightarrow> timestamp" where "nyse_pre_market_open d = at_time d 4 0"
definition nyse_after_hours_close :: "date \<Rightarrow> timestamp" where "nyse_after_hours_close d = at_time d 20 0"

definition nyse_is_open :: "(date \<Rightarrow> bool) \<Rightarrow> timestamp \<Rightarrow> bool" where
  "nyse_is_open trading et \<longleftrightarrow>
     (if \<not> trading (date_of et) then False
      else nyse_session_open (date_of et) \<le> et \<and> et < nyse_session_close (date_of et))"

definition nyse_session_phase :: "(date \<Rightarrow> bool) \<Rightarrow> timestamp \<Rightarrow> session_phase" where
  "nyse_session_phase trading et =
     (let d = date_of et in
      if \<not> trading d then Phase_CLOSED
      else
        (let pre = nyse_pre_market_open d; reg_open = nyse_session_open d;
             reg_close = nyse_session_close d; ah_close = nyse_after_hours_close d
         in if pre \<le> et \<and> et < reg_open then Phase_PRE_MARKET
            else if reg_close \<le> et \<and> et < ah_close then Phase_AFTER_HOURS
            else if et \<ge> reg_close \<or> et < reg_open then Phase_CLOSED
            else regular_phase reg_open reg_close et))"

definition nyse_calendar :: "zone \<Rightarrow> (date \<Rightarrow> bool) \<Rightarrow> session_calendar" where
  "nyse_calendar z trading =
     \<lparr>sc_name = ''NYSE'', sc_timezone = ''America/New_York'',
      sc_session_open = nyse_session_open, sc_session_close = nyse_session_close,
      sc_is_open = (\<lambda>t. nyse_is_open trading (zn_to_et z t)),
      sc_session_phase = (\<lambda>t. nyse_session_phase trading (zn_to_et z t)),
      sc_session_date = (\<lambda>t. date_of (zn_to_et z t))\<rparr>"

section \<open>CME equity-index futures\<close>

definition cme_session_open :: "date \<Rightarrow> timestamp" where "cme_session_open d = at_time d 9 30"
definition cme_session_close :: "date \<Rightarrow> timestamp" where "cme_session_close d = at_time d 16 0"
definition cme_pre_market_open :: "date \<Rightarrow> timestamp" where "cme_pre_market_open d = at_time (d - 1) 18 0"
definition cme_after_hours_close :: "date \<Rightarrow> timestamp" where "cme_after_hours_close d = at_time d 17 0"

definition cme_session_date :: "(date \<Rightarrow> bool) \<Rightarrow> timestamp \<Rightarrow> date option" where
  "cme_session_date trading et =
     (let candidate = (if time_of et \<ge> 18 * HOUR then date_of et + 1 else date_of et)
      in if \<not> trading candidate then next_trading_day trading candidate else Some candidate)"

definition cme_session_phase :: "(date \<Rightarrow> bool) \<Rightarrow> timestamp \<Rightarrow> session_phase option" where
  "cme_session_phase trading et =
     map_option (\<lambda>trade_date.
       let session_start = cme_pre_market_open trade_date; reg_open = cme_session_open trade_date;
           reg_close = cme_session_close trade_date; maintenance_close = cme_after_hours_close trade_date
       in if et < session_start \<or> et \<ge> maintenance_close then Phase_CLOSED
          else if et < reg_open then Phase_PRE_MARKET
          else if et \<ge> reg_close then Phase_AFTER_HOURS
          else regular_phase reg_open reg_close et) (cme_session_date trading et)"

definition cme_is_open :: "(date \<Rightarrow> bool) \<Rightarrow> timestamp \<Rightarrow> bool option" where
  "cme_is_open trading et =
     map_option (\<lambda>p. p \<notin> {Phase_CLOSED, Phase_AFTER_HOURS}) (cme_session_phase trading et)"

definition cme_calendar :: "zone \<Rightarrow> (date \<Rightarrow> bool) \<Rightarrow> session_calendar" where
  "cme_calendar z trading =
     \<lparr>sc_name = ''CME_EQ_INDEX'', sc_timezone = ''America/New_York'',
      sc_session_open = cme_session_open, sc_session_close = cme_session_close,
      sc_is_open = (\<lambda>t. the (cme_is_open trading (zn_to_et z t))),
      sc_session_phase = (\<lambda>t. the (cme_session_phase trading (zn_to_et z t))),
      sc_session_date = (\<lambda>t. the (cme_session_date trading (zn_to_et z t)))\<rparr>"

definition calendar_for_symbol :: "session_calendar \<Rightarrow> session_calendar \<Rightarrow> asset_class \<Rightarrow> session_calendar" where
  "calendar_for_symbol nyse cme ac = (if ac = Asset_FUTURE then cme else nyse)"

section \<open>Phases by the clock\<close>

text \<open>The sub-phases of a trading day by time of day.\<close>

definition cash_phase :: "timestamp \<Rightarrow> session_phase" where
  "cash_phase t =
     (if t < 9 * HOUR + 35 * MINUTE then Phase_OPENING_RANGE
      else if t < 10 * HOUR + 30 * MINUTE then Phase_EARLY
      else if t < 14 * HOUR then Phase_MID
      else if t < 15 * HOUR + 30 * MINUTE then Phase_POWER_HOUR
      else Phase_CLOSING)"

definition cme_clock :: "timestamp \<Rightarrow> session_phase" where
  "cme_clock t =
     (if t < 9 * HOUR + 30 * MINUTE \<or> 18 * HOUR \<le> t then Phase_PRE_MARKET
      else if t < 16 * HOUR then cash_phase t
      else if t < 17 * HOUR then Phase_AFTER_HOURS
      else Phase_CLOSED)"

definition nyse_clock :: "timestamp \<Rightarrow> session_phase" where
  "nyse_clock t =
     (if t < 4 * HOUR then Phase_CLOSED
      else if t < 9 * HOUR + 30 * MINUTE then Phase_PRE_MARKET
      else if t < 16 * HOUR then cash_phase t
      else if t < 20 * HOUR then Phase_AFTER_HOURS
      else Phase_CLOSED)"

lemma wall_split: "w = date_of w * DAY + time_of w" "0 \<le> time_of w" "time_of w < DAY"
  by (simp_all add: date_of_def time_of_def DAY_def HOUR_def MINUTE_def)

lemma regular_phase_day:
  "regular_phase (at_time d 9 30) (at_time d 16 0) (d * DAY + t) = cash_phase t"
  by (simp add: regular_phase_def cash_phase_def at_time_def ORB_MINUTES_def HOUR_def)

lemma nyse_phase_table:
  "nyse_session_phase trading w = (if trading (date_of w) then nyse_clock (time_of w) else Phase_CLOSED)"
proof -
  define d t where "d = date_of w" and "t = time_of w"
  have w: "w = d * DAY + t" "date_of w = d" "time_of w = t"
    using wall_split(1) [of w] by (simp_all add: d_def t_def)
  show ?thesis
    unfolding nyse_session_phase_def Let_def w(2,3) unfolding w(1)
    by (simp add: nyse_pre_market_open_def nyse_session_open_def nyse_session_close_def
        nyse_after_hours_close_def regular_phase_day, simp add: at_time_def nyse_clock_def HOUR_def MINUTE_def)
qed

text \<open>The session a New York wall-clock time is assigned to before holidays are looked at.\<close>

definition cme_candidate :: "timestamp \<Rightarrow> date" where
  "cme_candidate w = (if time_of w \<ge> 18 * HOUR then date_of w + 1 else date_of w)"

lemma cme_session_date_cases:
  assumes "trading t" "cme_candidate w \<le> t"
  shows "\<exists>d. cme_session_date trading w = Some d \<and> trading d \<and> cme_candidate w \<le> d
    \<and> (d = cme_candidate w \<longleftrightarrow> trading (cme_candidate w))
    \<and> (\<forall>e. cme_candidate w \<le> e \<longrightarrow> e < d \<longrightarrow> \<not> trading e)"
proof (cases "trading (cme_candidate w)")
  case True
  then show ?thesis by (simp add: cme_session_date_def cme_candidate_def)
next
  case False
  with assms have "cme_candidate w < t" by (cases "t = cme_candidate w") auto
  from next_trading_day_first [of trading, OF assms(1) this] obtain n where
    n: "next_trading_day trading (cme_candidate w) = Some n" "trading n" "cme_candidate w < n"
      "\<forall>e. cme_candidate w < e \<longrightarrow> e < n \<longrightarrow> \<not> trading e" by auto
  from False n(1) have "cme_session_date trading w = Some n"
    by (simp add: cme_session_date_def cme_candidate_def Let_def)
  with n False show ?thesis by (auto simp: le_less)
qed

text \<open>
  The phase of a CME time is decided by the New York clock alone once its session is known to trade:
  18:00 to 9:30 is pre-market, the cash session is split at 9:35, 10:30, 14:00 and 15:30, 16:00 to
  17:00 is after hours and 17:00 to 18:00 is closed. A time whose session (the next day's from 18:00
  on) is not a trading day is closed, although the code measures it against the next session.
\<close>

theorem cme_phase_table:
  assumes "trading t" "cme_candidate w \<le> t"
  shows "cme_session_phase trading w =
    Some (if trading (cme_candidate w) then cme_clock (time_of w) else Phase_CLOSED)"
proof -
  define c x where "c = date_of w" and "x = time_of w"
  have w: "w = c * DAY + x" "date_of w = c" "time_of w = x" "0 \<le> x" "x < DAY"
    using wall_split [of w] by (simp_all add: c_def x_def)
  from cme_session_date_cases [of trading, OF assms] obtain d where
    d: "cme_session_date trading w = Some d" "cme_candidate w \<le> d"
      "d = cme_candidate w \<longleftrightarrow> trading (cme_candidate w)" by auto
  have later: "(d - 1) * DAY \<ge> cme_candidate w * DAY" if "\<not> trading (cme_candidate w)"
    using that d by (intro mult_right_mono) (auto simp: time_defs)
  have phase: "cme_session_phase trading w = Some
      (if w < cme_pre_market_open d \<or> w \<ge> cme_after_hours_close d then Phase_CLOSED
       else if w < cme_session_open d then Phase_PRE_MARKET
       else if w \<ge> cme_session_close d then Phase_AFTER_HOURS
       else regular_phase (cme_session_open d) (cme_session_close d) w)"
    by (simp add: cme_session_phase_def d(1))
  show ?thesis
  proof (cases "trading (cme_candidate w)")
    case True
    with d(3) have d': "d = (if x \<ge> 18 * HOUR then c + 1 else c)" by (simp add: cme_candidate_def w(2,3))
    have "regular_phase (at_time c 9 30) (at_time c 16 0) w = cash_phase x"
      unfolding w(1) by (rule regular_phase_day)
    then show ?thesis using True w(4,5) unfolding phase d'
      by (simp add: cme_pre_market_open_def cme_after_hours_close_def cme_session_open_def
          cme_session_close_def w(3), simp add: w(1) at_time_def cme_clock_def time_defs)
  next
    case False
    have "w < cme_pre_market_open d"
      using later [OF False] w(4,5) unfolding cme_candidate_def w(2,3)
      by (simp add: w(1) cme_pre_market_open_def at_time_def time_defs split: if_splits)
    then show ?thesis using False by (simp add: phase)
  qed
qed

text \<open>Sunday 19:00 (day 3) belongs to the Monday session.\<close>

lemma cme_phase_table_witness:
  "cme_session_phase (\<lambda>d. weekday d < 5) (at_time 3 19 0) = Some Phase_PRE_MARKET"
  using cme_phase_table [of "\<lambda>d. weekday d < 5" 4 "at_time 3 19 0"]
  by (simp add: cme_candidate_def at_time_def time_of_def date_of_def time_defs weekday_def cme_clock_def)

lemma cme_session_date_mono:
  assumes "w \<le> w'" "trading t" "cme_candidate w' \<le> t"
    and "cme_session_date trading w = Some d" "cme_session_date trading w' = Some d'"
  shows "d \<le> d'"
proof -
  have le: "cme_candidate w \<le> cme_candidate w'"
  proof -
    have "date_of w \<le> date_of w'" using assms(1) by (simp add: date_of_def zdiv_mono1 time_defs)
    moreover have "time_of w \<le> time_of w'" if "date_of w = date_of w'"
      using that assms(1) wall_split(1) [of w] wall_split(1) [of w'] by simp
    ultimately show ?thesis by (cases "date_of w = date_of w'") (auto simp: cme_candidate_def)
  qed
  from cme_session_date_cases [of trading t w] assms le obtain
    "cme_candidate w \<le> d" "\<forall>e. cme_candidate w \<le> e \<longrightarrow> e < d \<longrightarrow> \<not> trading e" by auto
  moreover from cme_session_date_cases [of trading t w'] assms obtain
    "trading d'" "cme_candidate w' \<le> d'" by auto
  ultimately show ?thesis using le by (meson not_le order_trans)
qed

section \<open>What the engines rely on\<close>

text \<open>
  The contract of a session calendar in wall-clock terms: the regular phases are exactly the times of a
  trading session between its open and its close, and a later time never belongs to an earlier
  session.
\<close>

locale session_clock =
  fixes phase :: "timestamp \<Rightarrow> session_phase" and session_of :: "timestamp \<Rightarrow> date"
    and trading :: "date \<Rightarrow> bool" and open_at close_at :: "date \<Rightarrow> timestamp"
  assumes regular_iff: "phase w \<in> REGULAR_PHASES \<longleftrightarrow>
      trading (session_of w) \<and> open_at (session_of w) \<le> w \<and> w < close_at (session_of w)"
    and session_mono: "w \<le> w' \<Longrightarrow> session_of w \<le> session_of w'"
begin

text \<open>A session key that has been left never comes back.\<close>

lemma left_for_good: "w \<le> w' \<Longrightarrow> w' \<le> w'' \<Longrightarrow> session_of w \<noteq> session_of w' \<Longrightarrow> session_of w'' \<noteq> session_of w"
  using session_mono [of w w'] session_mono [of w' w''] by auto

lemma regular_between:
  assumes "phase w \<in> REGULAR_PHASES" "phase w'' \<in> REGULAR_PHASES" "w \<le> w'" "w' \<le> w''"
    "session_of w = session_of w''"
  shows "phase w' \<in> REGULAR_PHASES"
proof -
  have "session_of w' = session_of w" using session_mono assms(3-5) by (metis antisym)
  with assms show ?thesis using regular_iff [of w] regular_iff [of w'] regular_iff [of w''] by auto
qed

end

lemma clock_regular_iff:
  "nyse_clock t \<in> REGULAR_PHASES \<longleftrightarrow> 9 * HOUR + 30 * MINUTE \<le> t \<and> t < 16 * HOUR"
  "cme_clock t \<in> REGULAR_PHASES \<longleftrightarrow> 9 * HOUR + 30 * MINUTE \<le> t \<and> t < 16 * HOUR"
  by (auto simp: nyse_clock_def cme_clock_def cash_phase_def REGULAR_PHASES_def time_defs)

interpretation nyse: session_clock "nyse_session_phase trading" date_of trading nyse_session_open nyse_session_close
  for trading
proof unfold_locales
  fix w w'
  show "nyse_session_phase trading w \<in> REGULAR_PHASES \<longleftrightarrow>
      trading (date_of w) \<and> nyse_session_open (date_of w) \<le> w \<and> w < nyse_session_close (date_of w)"
    using wall_split(1) [of w] by (auto simp: nyse_phase_table clock_regular_iff nyse_session_open_def
        nyse_session_close_def at_time_def) (auto simp: REGULAR_PHASES_def)
  show "date_of w \<le> date_of w'" if "w \<le> w'"
    using that by (simp add: date_of_def zdiv_mono1 time_defs)
qed

text \<open>CME keeps the contract when its list of sessions does not end.\<close>

lemma cme_session_clock:
  assumes unending: "\<And>d. \<exists>t \<ge> d. trading t"
  shows "session_clock (\<lambda>w. the (cme_session_phase trading w)) (\<lambda>w. the (cme_session_date trading w))
    trading cme_session_open cme_session_close"
proof unfold_locales
  fix w w'
  define c x where "c = date_of w" and "x = time_of w"
  have w: "w = c * DAY + x" "date_of w = c" "time_of w = x" "0 \<le> x" "x < DAY"
    using wall_split [of w] by (simp_all add: c_def x_def)
  obtain t where t: "trading t" "cme_candidate w \<le> t" using unending by blast
  from cme_session_date_cases [of trading, OF t] obtain d where
    d: "cme_session_date trading w = Some d" "trading d" "cme_candidate w \<le> d"
      "d = cme_candidate w \<longleftrightarrow> trading (cme_candidate w)" by auto
  note table = cme_phase_table [of trading, OF t]
  have "cme_session_open d \<le> w \<and> w < cme_session_close d \<longleftrightarrow>
      d = cme_candidate w \<and> 9 * HOUR + 30 * MINUTE \<le> x \<and> x < 16 * HOUR"
  proof (cases "d = cme_candidate w")
    case True
    then have d': "d = (if x \<ge> 18 * HOUR then c + 1 else c)" by (simp add: cme_candidate_def w(2,3))
    have "cme_session_open d \<le> w \<and> w < cme_session_close d \<longleftrightarrow>
        9 * HOUR + 30 * MINUTE \<le> x \<and> x < 16 * HOUR"
      using w(4,5) unfolding d'
      by (simp add: cme_session_open_def cme_session_close_def, simp add: w(1) at_time_def time_defs)
    with True show ?thesis by simp
  next
    case False
    with d(3) have "(c + (if x \<ge> 18 * HOUR then 1 else 0) + 1) * DAY \<le> d * DAY"
      by (intro mult_right_mono) (auto simp: cme_candidate_def w(2,3) time_defs)
    then have "w < cme_session_open d"
      using w(4,5) by (simp add: cme_session_open_def w(1) at_time_def time_defs split: if_splits)
    with False show ?thesis by simp
  qed
  then show "the (cme_session_phase trading w) \<in> REGULAR_PHASES \<longleftrightarrow>
      trading (the (cme_session_date trading w)) \<and> cme_session_open (the (cme_session_date trading w)) \<le> w
      \<and> w < cme_session_close (the (cme_session_date trading w))"
    using d by (simp add: table w(3) clock_regular_iff) (auto simp: REGULAR_PHASES_def)
  show "the (cme_session_date trading w) \<le> the (cme_session_date trading w')" if le: "w \<le> w'"
  proof -
    obtain u where u: "trading u" "max (cme_candidate w) (cme_candidate w') \<le> u" using unending by blast
    from cme_session_date_cases [of trading u w] cme_session_date_cases [of trading u w'] u
    obtain e e' where e: "cme_session_date trading w = Some e" "cme_session_date trading w' = Some e'" by auto
    with cme_session_date_mono [OF le u(1) _ e] u(2) show ?thesis by simp
  qed
qed

end
