(* ===== verification/Setup_Rules.thy ===== *)
theory Setup_Rules
  imports Snapshots
begin

text \<open>
  The rules of the setup engine, \<^verbatim>\<open>src/alpha/engines/setup/engine.py\<close>, that read only the current
  snapshot: for every setup type the reason why no setup forms on this bar (\<open>None\<close> when
  one does), and the \<open>_detect_*\<close> methods that answer the same question. The texts of the
  reasons are the code's; the one that formats a number carries it.
\<close>

datatype rejection = Rej string | Sweep_too_deep dec

definition is_lt :: "rat option \<Rightarrow> rat \<Rightarrow> bool" where
  "is_lt x c \<longleftrightarrow> (case x of None \<Rightarrow> False | Some v \<Rightarrow> v < c)"

definition is_gt :: "rat option \<Rightarrow> rat \<Rightarrow> bool" where
  "is_gt x c \<longleftrightarrow> (case x of None \<Rightarrow> False | Some v \<Rightarrow> v > c)"

definition none_or_ge :: "rat option \<Rightarrow> rat \<Rightarrow> bool" where
  "none_or_ge x c \<longleftrightarrow> (case x of None \<Rightarrow> True | Some v \<Rightarrow> v \<ge> c)"

text \<open>The snapshot's bar.\<close>

abbreviation sn_open :: "bar_snapshot \<Rightarrow> dec" where "sn_open sn \<equiv> br_open (sn_bar sn)"
abbreviation sn_high :: "bar_snapshot \<Rightarrow> dec" where "sn_high sn \<equiv> br_high (sn_bar sn)"
abbreviation sn_low :: "bar_snapshot \<Rightarrow> dec" where "sn_low sn \<equiv> br_low (sn_bar sn)"
abbreviation sn_close :: "bar_snapshot \<Rightarrow> dec" where "sn_close sn \<equiv> br_close (sn_bar sn)"

section \<open>Structural sweeps\<close>

definition reason_vwap_undercut_reclaim :: "bar_snapshot \<Rightarrow> rejection option" where
  "reason_vwap_undercut_reclaim sn =
     (if \<not> (1 \<le> sn_bars_below_vwap sn \<and> sn_bars_below_vwap sn \<le> 5) then Some (Rej ''bars_below_vwap_not_in_1_to_5'')
      else if sn_low sn < dq (sn_vwap sn * (9985/10000)) then Some (Rej ''low_too_far_below_vwap'')
      else if is_lt (sn_bar_close_position_pct sn) (fl (45/100)) then Some (Rej ''close_in_lower_45pct_of_bar'')
      else if (case sn_ema_9 sn of None \<Rightarrow> False | Some e9 \<Rightarrow> sn_close sn < dq (e9 * (997/1000)))
      then Some (Rej ''close_too_far_below_ema9'')
      else None)"

definition reason_sweep_reclaim :: "bar_snapshot \<Rightarrow> rejection option" where
  "reason_sweep_reclaim sn =
     (if \<not> sn_swept_or_low sn then Some (Rej ''or_low_not_swept'')
      else if (case sn_or_low sn of None \<Rightarrow> True | Some l \<Rightarrow> sn_close sn \<le> l) then Some (Rej ''close_not_above_orb_low'')
      else if is_lt (sn_bar_close_position_pct sn) (1/2) then Some (Rej ''close_in_lower_half'')
      else if is_lt (sn_relative_volume sn) (fl (11/10)) then Some (Rej ''relative_volume_lt_1_1'')
      else if (case (sn_ema_9 sn, sn_ema_21 sn) of
                 (Some e9, Some e21) \<Rightarrow> sn_close sn < e9 \<and> sn_close sn < e21 \<and> e9 < e21 | _ \<Rightarrow> False)
      then Some (Rej ''strongly_bearish_ema_alignment'')
      else None)"

definition reason_fake_breakdown :: "bar_snapshot \<Rightarrow> rejection option" where
  "reason_fake_breakdown sn =
     (if sn_bars_below_vwap sn < 1 then Some (Rej ''price_never_lost_vwap_before_sweep'')
      else if \<not> sn_swept_or_low sn then Some (Rej ''or_low_not_swept'')
      else case sn_or_low sn of
        None \<Rightarrow> Some (Rej ''close_not_above_orb_low'')
      | Some l \<Rightarrow>
          if sn_close sn \<le> l then Some (Rej ''close_not_above_orb_low'')
          else if sn_low sn < dq (l * (997/1000)) then Some (Rej ''sweep_too_deep_gt_0_3pct'')
          else if is_lt (sn_bar_close_position_pct sn) (fl (55/100)) then Some (Rej ''close_not_in_upper_45pct'')
          else if is_lt (sn_relative_volume sn) (fl (12/10)) then Some (Rej ''relative_volume_lt_1_2'')
          else None)"

definition reason_deep_exhaustion_reclaim :: "bar_snapshot \<Rightarrow> rejection option" where
  "reason_deep_exhaustion_reclaim sn =
     (if sn_low sn > dq (sn_vwap sn * (9965/10000)) then Some (Rej ''not_deep_enough_below_vwap'')
      else if \<not> sn_is_new_lod sn then Some (Rej ''not_new_lod'')
      else if is_lt (sn_relative_volume sn) (3/2) then Some (Rej ''relative_volume_lt_1_5'')
      else if is_lt (sn_bar_close_position_pct sn) (fl (35/100)) then Some (Rej ''close_too_low_in_bar'')
      else None)"

definition detect_vwap_undercut_reclaim :: "bar_snapshot \<Rightarrow> bool" where
  "detect_vwap_undercut_reclaim sn \<longleftrightarrow> reason_vwap_undercut_reclaim sn = None"

definition detect_sweep_reclaim :: "bar_snapshot \<Rightarrow> bool" where
  "detect_sweep_reclaim sn \<longleftrightarrow> reason_sweep_reclaim sn = None"

definition detect_fake_breakdown :: "bar_snapshot \<Rightarrow> bool" where
  "detect_fake_breakdown sn \<longleftrightarrow> reason_fake_breakdown sn = None"

definition detect_deep_exhaustion_reclaim :: "bar_snapshot \<Rightarrow> bool" where
  "detect_deep_exhaustion_reclaim sn \<longleftrightarrow> reason_deep_exhaustion_reclaim sn = None"

section \<open>Momentum and trend continuation\<close>

definition detect_hod_breakout :: "bar_snapshot \<Rightarrow> bool" where
  "detect_hod_breakout sn \<longleftrightarrow>
     (if \<not> sn_or_established sn \<or> sn_or_high sn = None then False
      else if sn_intraday_high sn = None then False
      else if the (sn_intraday_high sn) \<le> the (sn_or_high sn) then False
      else if \<not> sn_is_above_vwap sn then False
      else if \<not> sn_is_higher_high sn then False
      else
        (let ih = the (sn_intraday_high sn); dist_to_hod = fl (dq (dq (ih - sn_close sn) / ih))
         in if dist_to_hod > fl (2/1000) then False else True))"

definition reason_hod_breakout :: "bar_snapshot \<Rightarrow> rejection option" where
  "reason_hod_breakout sn =
     (case (sn_or_established sn, sn_or_high sn) of
        (True, Some or_high) \<Rightarrow>
          (case sn_intraday_high sn of
             None \<Rightarrow> Some (Rej ''intraday_high_missing'')
           | Some ih \<Rightarrow>
               if ih \<le> or_high then Some (Rej ''intraday_high_not_above_orb_high'')
               else if \<not> sn_is_above_vwap sn then Some (Rej ''not_above_vwap'')
               else if \<not> sn_is_higher_high sn then Some (Rej ''not_higher_high'')
               else if fl (dq (dq (ih - sn_close sn) / ih)) > fl (2/1000) then Some (Rej ''close_too_far_from_hod'')
               else None)
      | _ \<Rightarrow> Some (Rej ''orb_not_set''))"

definition detect_trend_pullback :: "bar_snapshot \<Rightarrow> bool" where
  "detect_trend_pullback sn \<longleftrightarrow>
     (if sn_bars_above_vwap sn < 5 then False
      else if \<not> sn_vwap_deviation_shrinking sn then False
      else if sn_vwap_deviation_pct sn \<le> 0 \<or> sn_vwap_deviation_pct sn > 1/2 then False
      else True)"

definition reason_trend_pullback :: "bar_snapshot \<Rightarrow> rejection option" where
  "reason_trend_pullback sn =
     (if sn_bars_above_vwap sn < 5 then Some (Rej ''bars_above_vwap_lt_5'')
      else if \<not> sn_vwap_deviation_shrinking sn then Some (Rej ''vwap_deviation_not_shrinking'')
      else if sn_vwap_deviation_pct sn \<le> 0 then Some (Rej ''not_above_vwap'')
      else if sn_vwap_deviation_pct sn > 1/2 then Some (Rej ''pullback_too_far_from_vwap'')
      else None)"

definition reason_vwap_failed_reclaim_short :: "bar_snapshot \<Rightarrow> rejection option" where
  "reason_vwap_failed_reclaim_short sn =
     (if sn_bars_below_vwap sn < 3 then Some (Rej ''bars_below_vwap_lt_3'')
      else if sn_high sn < dq (sn_vwap sn * (9995/10000)) then Some (Rej ''bar_high_did_not_reach_vwap'')
      else if sn_is_above_vwap sn then Some (Rej ''close_above_vwap'')
      else if is_gt (sn_bar_close_position_pct sn) (1/2) then Some (Rej ''close_in_upper_half'')
      else if (case (sn_ema_9 sn, sn_ema_21 sn) of (Some e9, Some e21) \<Rightarrow> e9 > e21 | _ \<Rightarrow> False)
      then Some (Rej ''ema9_above_ema20_not_bearish'')
      else if sn_vwap_slope_direction sn = Some ''up'' then Some (Rej ''vwap_slope_rising'')
      else if sn_ema9_1m_slope_direction sn = Some ''up''
              \<and> (case sn_ema_9 sn of None \<Rightarrow> False | Some e9 \<Rightarrow> sn_close sn \<ge> e9)
      then Some (Rej ''ema9_curling_up_close_above_ema9'')
      else None)"

definition detect_vwap_failed_reclaim_short :: "bar_snapshot \<Rightarrow> bool" where
  "detect_vwap_failed_reclaim_short sn \<longleftrightarrow> reason_vwap_failed_reclaim_short sn = None"

definition reason_trend_pullback_short :: "bar_snapshot \<Rightarrow> rejection option" where
  "reason_trend_pullback_short sn =
     (if sn_bars_below_vwap sn < 5 then Some (Rej ''bars_below_vwap_lt_5'')
      else case (sn_ema_9 sn, sn_ema_21 sn) of
        (Some e9, Some e21) \<Rightarrow>
          if e9 \<ge> e21 then Some (Rej ''ema9_not_below_ema20'')
          else if sn_ema9_1m_slope_direction sn = Some ''up'' then Some (Rej ''ema9_slope_rising'')
          else if sn_ema21_5m_slope_direction sn = Some ''up'' then Some (Rej ''ema20_slope_rising'')
          else if \<not> sn_recent_lower_low sn then Some (Rej ''no_recent_lower_low'')
          else if sn_is_new_lod sn then Some (Rej ''making_new_lod_not_a_pullback'')
          else if sn_high sn < dq (e9 * (997/1000)) then Some (Rej ''bar_high_too_far_from_ema9'')
          else if sn_close sn \<ge> e9 then Some (Rej ''close_above_ema9_reclaim'')
          else None
      | _ \<Rightarrow> Some (Rej ''ema_not_available''))"

definition detect_trend_pullback_short :: "bar_snapshot \<Rightarrow> bool" where
  "detect_trend_pullback_short sn \<longleftrightarrow> reason_trend_pullback_short sn = None"

section \<open>VWAP crosses\<close>

definition detect_vwap_reclaim :: "bar_snapshot \<Rightarrow> bool" where
  "detect_vwap_reclaim sn \<longleftrightarrow>
     (if \<not> sn_vwap_cross_up sn then False
      else if sn_vwap_cross_up_after_bars sn < 2 then False
      else if sn_vwap_deviation_pct sn < fl (5/100) then False
      else if is_lt (sn_bar_close_position_pct sn) (1/2) then False
      else True)"

definition reason_vwap_reclaim :: "bar_snapshot \<Rightarrow> rejection option" where
  "reason_vwap_reclaim sn =
     (if \<not> sn_vwap_cross_up sn then Some (Rej ''no_vwap_cross_up'')
      else if sn_vwap_cross_up_after_bars sn < 2 then Some (Rej ''bars_below_vwap_before_cross_lt_2'')
      else if sn_vwap_deviation_pct sn < fl (5/100) then Some (Rej ''close_not_above_vwap_with_conviction'')
      else if is_lt (sn_bar_close_position_pct sn) (1/2) then Some (Rej ''close_in_lower_half_of_bar'')
      else None)"

definition vwap_rejection_alignment_reason :: "bar_snapshot \<Rightarrow> rejection option" where
  "vwap_rejection_alignment_reason sn =
     (if (case sn_ema_9 sn of None \<Rightarrow> False | Some e \<Rightarrow> sn_close sn \<ge> e) then Some (Rej ''close_not_below_ema9'')
      else if (case sn_ema_21 sn of None \<Rightarrow> False | Some e \<Rightarrow> sn_close sn \<ge> e) then Some (Rej ''close_not_below_ema20'')
      else if sn_ema9_1m_slope_direction sn \<noteq> None \<and> sn_ema9_1m_slope_direction sn \<noteq> Some ''down''
      then Some (Rej ''ema9_slope_not_down'')
      else if (case (sn_ema9_5m sn, sn_ema21_5m sn) of (Some a, Some b) \<Rightarrow> a > b | _ \<Rightarrow> False)
      then Some (Rej ''five_min_stack_still_bullish'')
      else if sn_ema9_5m_slope_direction sn = Some ''up'' \<or> sn_ema21_5m_slope_direction sn = Some ''up''
      then Some (Rej ''five_min_slope_not_bearish'')
      else None)"

definition detect_vwap_rejection :: "bar_snapshot \<Rightarrow> bool" where
  "detect_vwap_rejection sn \<longleftrightarrow>
     (if \<not> sn_vwap_cross_down sn then False
      else if sn_vwap_cross_down_after_bars sn < 2 then False
      else if sn_vwap_deviation_pct sn > - fl (5/100) then False
      else if is_gt (sn_bar_close_position_pct sn) (1/2) then False
      else if vwap_rejection_alignment_reason sn \<noteq> None then False
      else True)"

definition reason_vwap_rejection :: "bar_snapshot \<Rightarrow> rejection option" where
  "reason_vwap_rejection sn =
     (if \<not> sn_vwap_cross_down sn then Some (Rej ''no_vwap_cross_down'')
      else if sn_vwap_cross_down_after_bars sn < 2 then Some (Rej ''bars_above_vwap_before_cross_lt_2'')
      else if sn_vwap_deviation_pct sn > - fl (5/100) then Some (Rej ''close_not_below_vwap_with_conviction'')
      else if is_gt (sn_bar_close_position_pct sn) (1/2) then Some (Rej ''close_in_upper_half_of_bar'')
      else vwap_rejection_alignment_reason sn)"

section \<open>Opening range\<close>

definition detect_orb_breakout :: "bar_snapshot \<Rightarrow> bool" where
  "detect_orb_breakout sn \<longleftrightarrow>
     (case sn_or_high sn of
        None \<Rightarrow> False
      | Some h \<Rightarrow>
          if sn_or_position sn \<noteq> Some ''ABOVE'' then False
          else if \<not> sn_is_above_vwap sn then False
          else if sn_close sn \<le> h then False
          else if sn_open sn > h \<and> sn_low sn > h then False
          else True)"

definition reason_orb_breakout :: "bar_snapshot \<Rightarrow> rejection option" where
  "reason_orb_breakout sn =
     (case sn_or_high sn of
        None \<Rightarrow> Some (Rej ''no_orb_high_set'')
      | Some h \<Rightarrow>
          if sn_or_position sn \<noteq> Some ''ABOVE'' then Some (Rej ''not_orb_breakout_up'')
          else if \<not> sn_is_above_vwap sn then Some (Rej ''below_vwap'')
          else if sn_close sn \<le> h then Some (Rej ''close_not_above_orb_high'')
          else if sn_open sn > h \<and> sn_low sn > h then Some (Rej ''already_extended_above_orb_high'')
          else None)"

definition detect_orb_breakdown :: "bar_snapshot \<Rightarrow> bool" where
  "detect_orb_breakdown sn \<longleftrightarrow>
     (case sn_or_low sn of
        None \<Rightarrow> False
      | Some l \<Rightarrow>
          if \<not> sn_or_cross_down sn then False
          else if sn_is_above_vwap sn then False
          else if sn_close sn \<ge> l then False
          else True)"

definition reason_orb_breakdown :: "bar_snapshot \<Rightarrow> rejection option" where
  "reason_orb_breakdown sn =
     (case sn_or_low sn of
        None \<Rightarrow> Some (Rej ''no_orb_low_set'')
      | Some l \<Rightarrow>
          if \<not> sn_or_cross_down sn then Some (Rej ''not_initial_orb_cross_down'')
          else if sn_is_above_vwap sn then Some (Rej ''above_vwap'')
          else if sn_close sn \<ge> l then Some (Rej ''close_not_below_orb_low'')
          else None)"

text \<open>
  The boolean detectors and the reason functions, written twice in the code for most setup
  types, agree on all twelve types that read only the snapshot: a setup is detected exactly when no
  reason against it is reported.
\<close>

theorem detectors_agree_with_reasons:
  "(detect_vwap_undercut_reclaim sn \<longleftrightarrow> reason_vwap_undercut_reclaim sn = None)
   \<and> (detect_sweep_reclaim sn \<longleftrightarrow> reason_sweep_reclaim sn = None)
   \<and> (detect_fake_breakdown sn \<longleftrightarrow> reason_fake_breakdown sn = None)
   \<and> (detect_deep_exhaustion_reclaim sn \<longleftrightarrow> reason_deep_exhaustion_reclaim sn = None)
   \<and> (detect_hod_breakout sn \<longleftrightarrow> reason_hod_breakout sn = None)
   \<and> (detect_trend_pullback sn \<longleftrightarrow> reason_trend_pullback sn = None)
   \<and> (detect_vwap_reclaim sn \<longleftrightarrow> reason_vwap_reclaim sn = None)
   \<and> (detect_vwap_rejection sn \<longleftrightarrow> reason_vwap_rejection sn = None)
   \<and> (detect_vwap_failed_reclaim_short sn \<longleftrightarrow> reason_vwap_failed_reclaim_short sn = None)
   \<and> (detect_trend_pullback_short sn \<longleftrightarrow> reason_trend_pullback_short sn = None)
   \<and> (detect_orb_breakout sn \<longleftrightarrow> reason_orb_breakout sn = None)
   \<and> (detect_orb_breakdown sn \<longleftrightarrow> reason_orb_breakdown sn = None)"
proof -
  have "detect_hod_breakout sn \<longleftrightarrow> reason_hod_breakout sn = None"
    by (cases "sn_or_established sn"; cases "sn_or_high sn"; cases "sn_intraday_high sn")
       (simp_all add: detect_hod_breakout_def reason_hod_breakout_def Let_def)
  moreover have "detect_trend_pullback sn \<longleftrightarrow> reason_trend_pullback sn = None"
    by (simp add: detect_trend_pullback_def reason_trend_pullback_def)
  moreover have "detect_vwap_reclaim sn \<longleftrightarrow> reason_vwap_reclaim sn = None"
    by (simp add: detect_vwap_reclaim_def reason_vwap_reclaim_def)
  moreover have "detect_vwap_rejection sn \<longleftrightarrow> reason_vwap_rejection sn = None"
    by (simp add: detect_vwap_rejection_def reason_vwap_rejection_def)
  moreover have "detect_orb_breakout sn \<longleftrightarrow> reason_orb_breakout sn = None"
    by (cases "sn_or_high sn") (simp_all add: detect_orb_breakout_def reason_orb_breakout_def)
  moreover have "detect_orb_breakdown sn \<longleftrightarrow> reason_orb_breakdown sn = None"
    by (cases "sn_or_low sn") (simp_all add: detect_orb_breakdown_def reason_orb_breakdown_def)
  ultimately show ?thesis
    by (simp add: detect_vwap_undercut_reclaim_def detect_sweep_reclaim_def detect_fake_breakdown_def
        detect_deep_exhaustion_reclaim_def detect_vwap_failed_reclaim_short_def detect_trend_pullback_short_def)
qed

end
