(* ===== verification/Setup_Lifecycle.thy ===== *)
theory Setup_Lifecycle
  imports Setup_Rules
begin

text \<open>
  The lifecycle of a setup, \<^verbatim>\<open>src/alpha/engines/setup/engine.py\<close>: the target multiplier, the risk
  width guard and the fourteen \<open>_advance_*\<close> methods that move a setup from forming to confirmed and on
  to triggered, failed or invalidated. A method returns the counter of forming bars, which it
  increments, and the setup; the word the code returns beside it is used by no caller and left
  out. Division by a zero entry price, an exception in the code, does not occur for positive
  prices.
\<close>

section \<open>Shared parts\<close>

definition target_mult :: "order_side \<Rightarrow> market_state \<Rightarrow> dec" where
  "target_mult side ms =
     (let bullish = ms_live_bias ms \<in> {Bias_BULLISH, Bias_TRANSITIONING_BULLISH};
          bearish = ms_live_bias ms \<in> {Bias_BEARISH, Bias_TRANSITIONING_BEARISH};
          day = ms_day_type ms;
          with_trend = (day = Day_TREND_UP \<and> side = Side_BUY) \<or> (day = Day_TREND_DOWN \<and> side = Side_SELL);
          against_trend = (day = Day_TREND_UP \<and> side = Side_SELL) \<or> (day = Day_TREND_DOWN \<and> side = Side_BUY)
      in if side = Side_BUY \<and> bullish then 4
         else if side = Side_BUY \<and> bearish then 2
         else if side = Side_SELL \<and> bearish then 4
         else if side = Side_SELL \<and> bullish then 2
         else if with_trend then 4
         else if against_trend then 2
         else if day = Day_RANGE then 3/2
         else 3)"

definition MAX_RISK_ATR_MULT :: dec where "MAX_RISK_ATR_MULT = 3/2"
definition MAX_RISK_PCT :: dec where "MAX_RISK_PCT = 5/1000"

definition risk_width_rejection :: "dec \<Rightarrow> dec \<Rightarrow> bar_snapshot \<Rightarrow> invalidation option" where
  "risk_width_rejection entry stop sn =
     (let risk = \<bar>dq (entry - stop)\<bar> in
      case sn_atr_14 sn of
        Some atr \<Rightarrow> if risk > dq (atr * MAX_RISK_ATR_MULT) then Some (Risk_gt_atr risk atr) else None
      | None \<Rightarrow>
          (let risk_pct = dq (risk / entry)
           in if risk_pct > MAX_RISK_PCT then Some (Risk_gt_pct risk_pct) else None))"

text \<open>\<open>setup.entry_trigger and snap.bar.high >= setup.entry_trigger\<close>: a zero level counts as absent.\<close>

definition rises_to :: "dec \<Rightarrow> dec option \<Rightarrow> bool" where
  "rises_to price level \<longleftrightarrow> (case level of None \<Rightarrow> False | Some l \<Rightarrow> l \<noteq> 0 \<and> price \<ge> l)"

definition falls_to :: "dec \<Rightarrow> dec option \<Rightarrow> bool" where
  "falls_to price level \<longleftrightarrow> (case level of None \<Rightarrow> False | Some l \<Rightarrow> l \<noteq> 0 \<and> price \<le> l)"

definition invalidate :: "trade_setup \<Rightarrow> bar_snapshot \<Rightarrow> invalidation \<Rightarrow> trade_setup" where
  "invalidate su sn why = setup_transition su SState_INVALIDATED (Some why) (sn_timestamp sn)"

definition confirm :: "trade_setup \<Rightarrow> bar_snapshot \<Rightarrow> dec \<Rightarrow> dec \<Rightarrow> dec \<Rightarrow> trade_setup" where
  "confirm su sn entry stop target =
     (setup_transition su SState_CONFIRMED None (sn_timestamp sn))
       \<lparr>ts_entry_trigger := Some entry, ts_stop_reference := Some stop, ts_target_reference := Some target\<rparr>"

definition guarded_confirm :: "trade_setup \<Rightarrow> bar_snapshot \<Rightarrow> dec \<Rightarrow> dec \<Rightarrow> dec \<Rightarrow> trade_setup" where
  "guarded_confirm su sn entry stop target =
     (case risk_width_rejection entry stop sn of
        Some why \<Rightarrow> invalidate su sn why | None \<Rightarrow> confirm su sn entry stop target)"

definition long_exit :: "trade_setup \<Rightarrow> bar_snapshot \<Rightarrow> trade_setup" where
  "long_exit su sn =
     (if rises_to (sn_high sn) (ts_entry_trigger su) then setup_transition su SState_TRIGGERED None (sn_timestamp sn)
      else if falls_to (sn_low sn) (ts_stop_reference su) then setup_transition su SState_FAILED None (sn_timestamp sn)
      else su)"

definition short_exit :: "trade_setup \<Rightarrow> bar_snapshot \<Rightarrow> trade_setup" where
  "short_exit su sn =
     (if falls_to (sn_low sn) (ts_entry_trigger su) then setup_transition su SState_TRIGGERED None (sn_timestamp sn)
      else if rises_to (sn_high sn) (ts_stop_reference su) then setup_transition su SState_FAILED None (sn_timestamp sn)
      else su)"

text \<open>The key-level setups look at the stop first.\<close>

definition stop_first_exit :: "trade_setup \<Rightarrow> bar_snapshot \<Rightarrow> trade_setup" where
  "stop_first_exit su sn =
     (if falls_to (sn_low sn) (ts_stop_reference su) then setup_transition su SState_FAILED None (sn_timestamp sn)
      else if rises_to (sn_high sn) (ts_entry_trigger su) then setup_transition su SState_TRIGGERED None (sn_timestamp sn)
      else su)"

definition long_target :: "dec \<Rightarrow> dec \<Rightarrow> dec \<Rightarrow> dec" where
  "long_target entry stop mult = dq (entry + dq (dq (entry - stop) * mult))"

definition short_target :: "dec \<Rightarrow> dec \<Rightarrow> dec \<Rightarrow> dec" where
  "short_target entry stop mult = dq (entry - dq (dq (stop - entry) * mult))"

definition high_or_long_target :: "bar_snapshot \<Rightarrow> dec \<Rightarrow> dec \<Rightarrow> dec \<Rightarrow> dec" where
  "high_or_long_target sn entry stop mult =
     (case sn_intraday_high sn of
        None \<Rightarrow> long_target entry stop mult
      | Some h \<Rightarrow> if h > entry then h else long_target entry stop mult)"

definition low_or_short_target :: "bar_snapshot \<Rightarrow> dec \<Rightarrow> dec \<Rightarrow> dec \<Rightarrow> dec" where
  "low_or_short_target sn entry stop mult =
     (case sn_intraday_low sn of
        None \<Rightarrow> short_target entry stop mult
      | Some l \<Rightarrow> if l < entry then l else short_target entry stop mult)"

text \<open>\<open>snap.or_high - snap.or_low if snap.or_high and snap.or_low else None\<close>.\<close>

definition or_range_of :: "bar_snapshot \<Rightarrow> dec option" where
  "or_range_of sn =
     (case (sn_or_high sn, sn_or_low sn) of
        (Some h, Some l) \<Rightarrow> if h \<noteq> 0 \<and> l \<noteq> 0 then Some (dq (h - l)) else None
      | _ \<Rightarrow> None)"

type_synonym forming_bars = "uuid \<rightharpoonup> int"

definition count_forming :: "forming_bars \<Rightarrow> trade_setup \<Rightarrow> forming_bars" where
  "count_forming fb su = fb(ts_setup_id su \<mapsto> get_default fb (ts_setup_id su) 0 + 1)"

definition forming_count :: "forming_bars \<Rightarrow> trade_setup \<Rightarrow> int" where
  "forming_count fb su = get_default fb (ts_setup_id su) 0"

section \<open>VWAP crosses and shorts\<close>

definition advance_vwap_reclaim ::
  "forming_bars \<Rightarrow> trade_setup \<Rightarrow> bar_snapshot \<Rightarrow> market_state \<Rightarrow> forming_bars \<times> trade_setup" where
  "advance_vwap_reclaim fb su sn ms =
     (if ts_state su = SState_FORMING then
        (count_forming fb su,
         if sn_vwap_cross_down sn then invalidate su sn (Because ''VWAP lost after reclaim'')
         else if sn_is_above_vwap sn \<and> none_or_ge (sn_relative_volume sn) 1 \<and> \<not> sn_is_lower_low sn
         then (let entry = sn_high (ts_bar_snapshot su); stop = sn_low (ts_bar_snapshot su)
               in guarded_confirm su sn entry stop (high_or_long_target sn entry stop (target_mult Side_BUY ms)))
         else su)
      else if ts_state su = SState_CONFIRMED then
        (fb, if sn_vwap_cross_down sn then invalidate su sn (Because ''VWAP lost while confirmed'')
             else long_exit su sn)
      else (fb, su))"

definition advance_vwap_rejection ::
  "forming_bars \<Rightarrow> trade_setup \<Rightarrow> bar_snapshot \<Rightarrow> market_state \<Rightarrow> forming_bars \<times> trade_setup" where
  "advance_vwap_rejection fb su sn ms =
     (if ts_state su = SState_FORMING then
        (count_forming fb su,
         if sn_vwap_cross_up sn then invalidate su sn (Because ''VWAP reclaimed after rejection'')
         else if \<not> sn_is_above_vwap sn \<and> none_or_ge (sn_relative_volume sn) 1 \<and> \<not> sn_is_higher_high sn
         then (let entry = sn_low (ts_bar_snapshot su); stop = sn_high (ts_bar_snapshot su)
               in confirm su sn entry stop (low_or_short_target sn entry stop (target_mult Side_SELL ms)))
         else su)
      else if ts_state su = SState_CONFIRMED then
        (fb, if sn_vwap_cross_up sn then invalidate su sn (Because ''VWAP reclaimed while confirmed'')
             else short_exit su sn)
      else (fb, su))"

definition advance_vwap_failed_reclaim_short ::
  "forming_bars \<Rightarrow> trade_setup \<Rightarrow> bar_snapshot \<Rightarrow> market_state \<Rightarrow> forming_bars \<times> trade_setup" where
  "advance_vwap_failed_reclaim_short fb su sn ms =
     (if ts_state su = SState_FORMING then
        (let fb = count_forming fb su; bars = forming_count fb su; d = ts_bar_snapshot su in
         (fb,
          if sn_vwap_cross_up sn then invalidate su sn (Because ''vwap_reclaimed_after_rejection'')
          else if bars > 6 then invalidate su sn (Because ''forming_timeout_gt_6_bars'')
          else if \<not> sn_is_above_vwap sn \<and> none_or_ge (sn_relative_volume sn) (fl (8/10))
                  \<and> sn_high sn \<le> sn_high d \<and> sn_low sn < sn_low d
          then (let entry = sn_low d; stop = sn_high d
                in guarded_confirm su sn entry stop (low_or_short_target sn entry stop (target_mult Side_SELL ms)))
          else su))
      else if ts_state su = SState_CONFIRMED then
        (fb, if sn_vwap_cross_up sn then invalidate su sn (Because ''vwap_reclaimed_while_confirmed'')
             else short_exit su sn)
      else (fb, su))"

definition advance_trend_pullback_short ::
  "forming_bars \<Rightarrow> trade_setup \<Rightarrow> bar_snapshot \<Rightarrow> market_state \<Rightarrow> forming_bars \<times> trade_setup" where
  "advance_trend_pullback_short fb su sn ms =
     (if ts_state su = SState_FORMING then
        (let fb = count_forming fb su; bars = forming_count fb su; d = ts_bar_snapshot su in
         (fb,
          if sn_vwap_cross_up sn then invalidate su sn (Because ''vwap_cross_up'')
          else if (case sn_ema_21 sn of None \<Rightarrow> False | Some e \<Rightarrow> sn_close sn \<ge> e)
          then invalidate su sn (Because ''close_above_ema20'')
          else if bars > 8 then invalidate su sn (Because ''forming_timeout_gt_8_bars'')
          else if sn_high sn < sn_high d \<and> sn_low sn < sn_low d \<and> \<not> sn_is_above_vwap sn
                  \<and> (case sn_ema_9 sn of None \<Rightarrow> True | Some e \<Rightarrow> sn_close sn < e)
                  \<and> (case sn_ema_21 sn of None \<Rightarrow> True | Some e \<Rightarrow> sn_close sn < e)
                  \<and> none_or_ge (sn_relative_volume sn) (fl (8/10))
          then (let entry = sn_low d; stop = sn_high d
                in guarded_confirm su sn entry stop (low_or_short_target sn entry stop (target_mult Side_SELL ms)))
          else su))
      else if ts_state su = SState_CONFIRMED then
        (fb, if sn_vwap_cross_up sn then invalidate su sn (Because ''vwap_cross_up_while_confirmed'')
             else short_exit su sn)
      else (fb, su))"

section \<open>Opening range\<close>

definition or_low_reclaimed :: "bar_snapshot \<Rightarrow> string option" where
  "or_low_reclaimed sn =
     (if sn_or_cross_up sn then Some ''orb_low_reclaimed_cross_up''
      else case sn_or_low sn of
        None \<Rightarrow> None
      | Some l \<Rightarrow> if sn_close sn > l then Some ''orb_low_reclaimed_close_above'' else None)"

definition advance_orb_breakdown ::
  "forming_bars \<Rightarrow> trade_setup \<Rightarrow> bar_snapshot \<Rightarrow> market_state \<Rightarrow> forming_bars \<times> trade_setup" where
  "advance_orb_breakdown fb su sn ms =
     (if ts_state su = SState_FORMING then
        (count_forming fb su,
         case or_low_reclaimed sn of
           Some why \<Rightarrow> invalidate su sn (Because why)
         | None \<Rightarrow>
             if sn_is_above_vwap sn then invalidate su sn (Because ''reclaimed_vwap_while_forming'')
             else case sn_or_low sn of
               None \<Rightarrow> su
             | Some l \<Rightarrow>
                 if sn_close sn < l \<and> none_or_ge (sn_relative_volume sn) 1
                 then (let entry = sn_close (ts_bar_snapshot su); stop = dq (l * (1001/1000));
                           mult = target_mult Side_SELL ms;
                           target = (case or_range_of sn of
                                       Some r \<Rightarrow> if r \<noteq> 0 then dq (entry - dq (r * mult)) else short_target entry stop mult
                                     | None \<Rightarrow> short_target entry stop mult)
                       in guarded_confirm su sn entry stop target)
                 else su)
      else if ts_state su = SState_CONFIRMED then
        (fb, case or_low_reclaimed sn of Some why \<Rightarrow> invalidate su sn (Because why) | None \<Rightarrow> short_exit su sn)
      else (fb, su))"

definition fell_below_or_high :: "bar_snapshot \<Rightarrow> bool" where
  "fell_below_or_high sn \<longleftrightarrow> (case sn_or_high sn of None \<Rightarrow> False | Some h \<Rightarrow> sn_close sn < h)"

definition advance_orb_breakout ::
  "forming_bars \<Rightarrow> trade_setup \<Rightarrow> bar_snapshot \<Rightarrow> market_state \<Rightarrow> forming_bars \<times> trade_setup" where
  "advance_orb_breakout fb su sn ms =
     (if ts_state su = SState_FORMING then
        (count_forming fb su,
         if fell_below_or_high sn then invalidate su sn (Because ''fell_back_below_orb_high'')
         else if \<not> sn_is_above_vwap sn then invalidate su sn (Because ''lost_vwap_while_forming'')
         else case sn_or_high sn of
           None \<Rightarrow> su
         | Some h \<Rightarrow>
             if sn_close sn > h \<and> none_or_ge (sn_relative_volume sn) 1
             then (let entry = sn_close (ts_bar_snapshot su); stop = dq (h * (999/1000));
                       mult = target_mult Side_BUY ms;
                       target = (case or_range_of sn of
                                   Some r \<Rightarrow> if r \<noteq> 0 then dq (entry + dq (r * mult)) else long_target entry stop mult
                                 | None \<Rightarrow> long_target entry stop mult)
                   in guarded_confirm su sn entry stop target)
             else su)
      else if ts_state su = SState_CONFIRMED then
        (fb, if fell_below_or_high sn then invalidate su sn (Because ''fell_back_below_orb_high'')
             else long_exit su sn)
      else (fb, su))"

section \<open>Key levels\<close>

definition advance_onl_sweep_reclaim_long ::
  "dec option \<Rightarrow> forming_bars \<Rightarrow> trade_setup \<Rightarrow> bar_snapshot \<Rightarrow> market_state \<Rightarrow> forming_bars \<times> trade_setup" where
  "advance_onl_sweep_reclaim_long onl fb su sn ms =
     (if ts_state su = SState_FORMING then
        (let fb = count_forming fb su; bars = forming_count fb su; d = ts_bar_snapshot su in
         (fb,
          if (case onl of None \<Rightarrow> False | Some l \<Rightarrow> sn_close sn < l)
          then invalidate su sn (Because ''close_below_onl_reclaim_failed'')
          else if bars > 6 then invalidate su sn (Because ''forming_timeout_gt_6_bars'')
          else if (case onl of None \<Rightarrow> False | Some l \<Rightarrow> sn_close sn > l) \<and> \<not> sn_is_lower_low sn
                  \<and> none_or_ge (sn_bar_close_position_pct sn) (fl (4/10))
          then (let entry = sn_high d; stop = sn_low d
                in guarded_confirm su sn entry stop (long_target entry stop (target_mult Side_BUY ms)))
          else su))
      else if ts_state su = SState_CONFIRMED then (fb, stop_first_exit su sn)
      else (fb, su))"

definition advance_double_bottom_reclaim_long ::
  "forming_bars \<Rightarrow> trade_setup \<Rightarrow> bar_snapshot \<Rightarrow> market_state \<Rightarrow> forming_bars \<times> trade_setup" where
  "advance_double_bottom_reclaim_long fb su sn ms =
     (if ts_state su = SState_FORMING then
        (let fb = count_forming fb su; bars = forming_count fb su; d = ts_bar_snapshot su in
         (fb,
          if sn_low sn < sn_low d then invalidate su sn (Because ''new_lower_low_below_second_bottom'')
          else if bars > 8 then invalidate su sn (Because ''forming_timeout_gt_8_bars'')
          else if sn_close sn \<ge> sn_close d \<and> \<not> sn_is_lower_low sn
          then (let entry = sn_high d; stop = sn_low d
                in guarded_confirm su sn entry stop (high_or_long_target sn entry stop (target_mult Side_BUY ms)))
          else su))
      else if ts_state su = SState_CONFIRMED then (fb, stop_first_exit su sn)
      else (fb, su))"

section \<open>Structural sweeps\<close>

definition advance_vwap_undercut_reclaim ::
  "forming_bars \<Rightarrow> trade_setup \<Rightarrow> bar_snapshot \<Rightarrow> market_state \<Rightarrow> forming_bars \<times> trade_setup" where
  "advance_vwap_undercut_reclaim fb su sn ms =
     (if ts_state su = SState_FORMING then
        (let fb = count_forming fb su; bars = forming_count fb su in
         (fb,
          if sn_low sn < dq (sn_vwap sn * (9985/10000)) then invalidate su sn (Because ''low fell deeper below VWAP'')
          else if sn_bars_below_vwap sn > 6 then invalidate su sn (Because ''extended below VWAP >6 bars'')
          else if bars > 8 then invalidate su sn (Because ''forming timeout >8 bars'')
          else if sn_vwap_cross_up sn \<and> none_or_ge (sn_relative_volume sn) 1
                  \<and> none_or_ge (sn_bar_close_position_pct sn) (1/2) \<and> \<not> sn_is_lower_low sn
          then (let entry = sn_vwap sn; stop = dq (sn_low (ts_bar_snapshot su) * (9995/10000))
                in guarded_confirm su sn entry stop (long_target entry stop (target_mult Side_BUY ms)))
          else su))
      else if ts_state su = SState_CONFIRMED then (fb, long_exit su sn)
      else (fb, su))"

definition advance_sweep_reclaim ::
  "forming_bars \<Rightarrow> trade_setup \<Rightarrow> bar_snapshot \<Rightarrow> market_state \<Rightarrow> forming_bars \<times> trade_setup" where
  "advance_sweep_reclaim fb su sn ms =
     (if ts_state su = SState_FORMING then
        (let fb = count_forming fb su; bars = forming_count fb su in
         (fb,
          if sn_low sn < sn_low (ts_bar_snapshot su) then invalidate su sn (Because ''broke below sweep low'')
          else if bars > 5 then invalidate su sn (Because ''forming timeout >5 bars'')
          else if (case sn_or_low sn of None \<Rightarrow> False | Some l \<Rightarrow> sn_close sn > l) \<and> \<not> sn_is_lower_low sn
                  \<and> (sn_vwap_deviation_shrinking sn \<or> sn_is_above_vwap sn)
                  \<and> none_or_ge (sn_relative_volume sn) (fl (8/10))
          then (let entry = sn_high sn; stop = dq (sn_low (ts_bar_snapshot su) * (9995/10000))
                in guarded_confirm su sn entry stop (long_target entry stop (target_mult Side_BUY ms)))
          else su))
      else if ts_state su = SState_CONFIRMED then (fb, long_exit su sn)
      else (fb, su))"

definition advance_fake_breakdown ::
  "forming_bars \<Rightarrow> trade_setup \<Rightarrow> bar_snapshot \<Rightarrow> market_state \<Rightarrow> forming_bars \<times> trade_setup" where
  "advance_fake_breakdown fb su sn ms =
     (if ts_state su = SState_FORMING then
        (let fb = count_forming fb su; bars = forming_count fb su; sweep_low = sn_low (ts_bar_snapshot su) in
         (fb,
          if sn_close sn < sweep_low then invalidate su sn (Because ''close_broke_below_sweep_low'')
          else if sn_low sn < dq (sweep_low * (9995/10000))
          then invalidate su sn (Because ''wick_broke_sweep_low_by_gt_0_05pct'')
          else if sn_bars_below_vwap sn > 8 then invalidate su sn (Because ''below_vwap_gt_8_bars_no_reclaim'')
          else if bars > 12 then invalidate su sn (Because ''forming_timeout_gt_12_bars'')
          else if sn_vwap_cross_up sn \<and> sn_is_above_vwap sn
                  \<and> none_or_ge (sn_relative_volume sn) (fl (12/10))
                  \<and> none_or_ge (sn_bar_close_position_pct sn) (1/2)
                  \<and> (case sn_or_mid sn of None \<Rightarrow> True | Some m \<Rightarrow> sn_close sn > m)
                  \<and> (case sn_ema_9 sn of None \<Rightarrow> True | Some e \<Rightarrow> sn_close sn \<ge> e)
                  \<and> \<not> sn_is_lower_low sn
          then (let entry = sn_close sn; stop = dq (sn_low (ts_bar_snapshot su) * (9995/10000))
                in guarded_confirm su sn entry stop (long_target entry stop (target_mult Side_BUY ms)))
          else su))
      else if ts_state su = SState_CONFIRMED then
        (fb, if sn_vwap_cross_down sn then invalidate su sn (Because ''VWAP lost after confirm'')
             else long_exit su sn)
      else (fb, su))"

definition new_low_below_detection :: "trade_setup \<Rightarrow> bar_snapshot \<Rightarrow> bool" where
  "new_low_below_detection su sn \<longleftrightarrow> sn_is_new_lod sn \<and> sn_low sn < sn_low (ts_bar_snapshot su)"

definition advance_deep_exhaustion_reclaim ::
  "forming_bars \<Rightarrow> trade_setup \<Rightarrow> bar_snapshot \<Rightarrow> market_state \<Rightarrow> forming_bars \<times> trade_setup" where
  "advance_deep_exhaustion_reclaim fb su sn ms =
     (if ts_state su = SState_FORMING then
        (let fb = count_forming fb su; bars = forming_count fb su in
         (fb,
          if new_low_below_detection su sn then invalidate su sn (Because ''new LOD below exhaustion bar'')
          else if sn_vwap_deviation_pct sn < - fl (7/10)
          then invalidate su sn (Because ''VWAP deviation deepened beyond -0.70%'')
          else if bars > 15 then invalidate su sn (Because ''forming timeout >15 bars'')
          else if bars \<ge> 3 \<and> \<not> new_low_below_detection su sn
                  \<and> (case sn_ema_9 sn of None \<Rightarrow> True | Some e \<Rightarrow> sn_close sn \<ge> e)
                  \<and> sn_vwap_deviation_shrinking sn
          then (let entry = sn_high sn; stop = dq (sn_low (ts_bar_snapshot su) * (9995/10000))
                in guarded_confirm su sn entry stop (long_target entry stop (target_mult Side_BUY ms)))
          else su))
      else if ts_state su = SState_CONFIRMED then
        (fb, if new_low_below_detection su sn then invalidate su sn (Because ''new LOD after confirmation'')
             else long_exit su sn)
      else (fb, su))"

section \<open>Momentum\<close>

definition advance_hod_breakout ::
  "forming_bars \<Rightarrow> trade_setup \<Rightarrow> bar_snapshot \<Rightarrow> market_state \<Rightarrow> forming_bars \<times> trade_setup" where
  "advance_hod_breakout fb su sn ms =
     (if ts_state su = SState_FORMING then
        (count_forming fb su,
         case sn_intraday_high sn of
           None \<Rightarrow> su
         | Some ih \<Rightarrow>
             if sn_is_new_hod sn \<and> none_or_ge (sn_relative_volume sn) (fl (12/10))
             then (let entry = ih; stop = sn_low sn
                   in guarded_confirm su sn entry stop (long_target entry stop (target_mult Side_BUY ms)))
             else su)
      else if ts_state su = SState_CONFIRMED then (fb, long_exit su sn)
      else (fb, su))"

definition advance_trend_pullback ::
  "forming_bars \<Rightarrow> trade_setup \<Rightarrow> bar_snapshot \<Rightarrow> market_state \<Rightarrow> forming_bars \<times> trade_setup" where
  "advance_trend_pullback fb su sn ms =
     (if ts_state su = SState_FORMING then
        (count_forming fb su,
         if sn_vwap_cross_down sn then invalidate su sn (Because ''VWAP cross down while forming'')
         else if sn_is_above_vwap sn \<and> 0 < sn_vwap_deviation_pct sn \<and> sn_vwap_deviation_pct sn \<le> 1/4
                 \<and> none_or_ge (sn_relative_volume sn) (fl (8/10)) \<and> \<not> sn_is_lower_low sn
         then (let entry = sn_vwap sn; stop = sn_low sn
               in guarded_confirm su sn entry stop (high_or_long_target sn entry stop (target_mult Side_BUY ms)))
         else su)
      else if ts_state su = SState_CONFIRMED then
        (fb, if sn_vwap_cross_down sn then invalidate su sn (Because ''VWAP cross down while confirmed'')
             else long_exit su sn)
      else (fb, su))"

definition advance_state ::
  "dec option \<Rightarrow> forming_bars \<Rightarrow> trade_setup \<Rightarrow> bar_snapshot \<Rightarrow> market_state \<Rightarrow> forming_bars \<times> trade_setup" where
  "advance_state onl fb su sn ms =
     (case ts_setup_type su of
        Setup_VWAP_UNDERCUT_RECLAIM \<Rightarrow> advance_vwap_undercut_reclaim fb su sn ms
      | Setup_SWEEP_RECLAIM \<Rightarrow> advance_sweep_reclaim fb su sn ms
      | Setup_FAKE_BREAKDOWN \<Rightarrow> advance_fake_breakdown fb su sn ms
      | Setup_DEEP_EXHAUSTION_RECLAIM \<Rightarrow> advance_deep_exhaustion_reclaim fb su sn ms
      | Setup_HOD_BREAKOUT \<Rightarrow> advance_hod_breakout fb su sn ms
      | Setup_TREND_PULLBACK \<Rightarrow> advance_trend_pullback fb su sn ms
      | Setup_VWAP_RECLAIM \<Rightarrow> advance_vwap_reclaim fb su sn ms
      | Setup_VWAP_REJECTION \<Rightarrow> advance_vwap_rejection fb su sn ms
      | Setup_VWAP_FAILED_RECLAIM_SHORT \<Rightarrow> advance_vwap_failed_reclaim_short fb su sn ms
      | Setup_TREND_PULLBACK_SHORT \<Rightarrow> advance_trend_pullback_short fb su sn ms
      | Setup_ORB_BREAKOUT \<Rightarrow> advance_orb_breakout fb su sn ms
      | Setup_ORB_BREAKDOWN \<Rightarrow> advance_orb_breakdown fb su sn ms
      | Setup_ONL_SWEEP_RECLAIM_LONG \<Rightarrow> advance_onl_sweep_reclaim_long onl fb su sn ms
      | Setup_DOUBLE_BOTTOM_RECLAIM_LONG \<Rightarrow> advance_double_bottom_reclaim_long fb su sn ms
      | Setup_RELATIVE_STRENGTH_BREAKOUT \<Rightarrow> (fb, su))"

section \<open>The lifecycle machine\<close>

text \<open>The machine of the module's header: what a single bar may do to a setup's state.\<close>

inductive setup_moves :: "setup_state \<Rightarrow> setup_state \<Rightarrow> bool" where
  forming_confirmed: "setup_moves SState_FORMING SState_CONFIRMED"
| forming_invalidated: "setup_moves SState_FORMING SState_INVALIDATED"
| confirmed_triggered: "setup_moves SState_CONFIRMED SState_TRIGGERED"
| confirmed_failed: "setup_moves SState_CONFIRMED SState_FAILED"
| confirmed_invalidated: "setup_moves SState_CONFIRMED SState_INVALIDATED"

definition SHORT_TYPES :: "setup_type set" where
  "SHORT_TYPES = {Setup_VWAP_REJECTION, Setup_VWAP_FAILED_RECLAIM_SHORT, Setup_TREND_PULLBACK_SHORT,
     Setup_ORB_BREAKDOWN}"

definition entry_reached :: "trade_setup \<Rightarrow> bar_snapshot \<Rightarrow> bool" where
  "entry_reached su sn \<longleftrightarrow>
     (if ts_setup_type su \<in> SHORT_TYPES then falls_to (sn_low sn) (ts_entry_trigger su)
      else rises_to (sn_high sn) (ts_entry_trigger su))"

definition stop_reached :: "trade_setup \<Rightarrow> bar_snapshot \<Rightarrow> bool" where
  "stop_reached su sn \<longleftrightarrow>
     (if ts_setup_type su \<in> SHORT_TYPES then rises_to (sn_high sn) (ts_stop_reference su)
      else falls_to (sn_low sn) (ts_stop_reference su))"

text \<open>All that an advance method may return for a setup and a bar.\<close>

inductive advanced :: "trade_setup \<Rightarrow> bar_snapshot \<Rightarrow> trade_setup \<Rightarrow> bool" for su sn where
  stays: "advanced su sn su"
| invalidated: "ts_state su \<in> {SState_FORMING, SState_CONFIRMED} \<Longrightarrow> advanced su sn (invalidate su sn why)"
| confirmed: "ts_state su = SState_FORMING \<Longrightarrow>
    (ts_setup_type su \<noteq> Setup_VWAP_REJECTION \<longrightarrow> risk_width_rejection entry stop sn = None) \<Longrightarrow>
    advanced su sn (confirm su sn entry stop target)"
| triggered: "ts_state su = SState_CONFIRMED \<Longrightarrow> entry_reached su sn \<Longrightarrow>
    advanced su sn (setup_transition su SState_TRIGGERED None (sn_timestamp sn))"
| stopped: "ts_state su = SState_CONFIRMED \<Longrightarrow> stop_reached su sn \<Longrightarrow>
    advanced su sn (setup_transition su SState_FAILED None (sn_timestamp sn))"

lemma advanced_invalidate:
  "ts_state su = SState_FORMING \<Longrightarrow> advanced su sn (invalidate su sn why)"
  "ts_state su = SState_CONFIRMED \<Longrightarrow> advanced su sn (invalidate su sn why)"
  by (simp_all add: invalidated)

lemma advanced_guarded:
  "ts_state su = SState_FORMING \<Longrightarrow> advanced su sn (guarded_confirm su sn entry stop target)"
  by (cases "risk_width_rejection entry stop sn") (simp_all add: guarded_confirm_def invalidated confirmed)

lemma advanced_exits:
  "ts_state su = SState_CONFIRMED \<Longrightarrow> ts_setup_type su \<notin> SHORT_TYPES \<Longrightarrow> advanced su sn (long_exit su sn)"
  "ts_state su = SState_CONFIRMED \<Longrightarrow> ts_setup_type su \<in> SHORT_TYPES \<Longrightarrow> advanced su sn (short_exit su sn)"
  "ts_state su = SState_CONFIRMED \<Longrightarrow> ts_setup_type su \<notin> SHORT_TYPES \<Longrightarrow> advanced su sn (stop_first_exit su sn)"
  by (simp_all add: long_exit_def short_exit_def stop_first_exit_def stays triggered stopped
      entry_reached_def stop_reached_def)

lemmas advanced_rules = stays advanced_invalidate advanced_guarded advanced_exits

lemmas advance_defs =
  advance_vwap_reclaim_def advance_vwap_rejection_def advance_vwap_failed_reclaim_short_def
  advance_trend_pullback_short_def advance_orb_breakdown_def advance_orb_breakout_def
  advance_onl_sweep_reclaim_long_def advance_double_bottom_reclaim_long_def
  advance_vwap_undercut_reclaim_def advance_sweep_reclaim_def advance_fake_breakdown_def
  advance_deep_exhaustion_reclaim_def advance_hod_breakout_def advance_trend_pullback_def

lemma advance_state_advanced: "advanced su sn (snd (advance_state onl fb su sn ms))"
proof (cases "ts_setup_type su = Setup_VWAP_REJECTION")
  case True
  then show ?thesis
    by (simp add: advance_state_def advance_vwap_rejection_def Let_def advanced_rules confirmed SHORT_TYPES_def)
next
  case False
  then show ?thesis
    by (cases "ts_setup_type su")
       (simp_all add: advance_state_def advance_defs Let_def advanced_rules SHORT_TYPES_def split: option.split)
qed

lemma setup_transition_simps [simp]:
  "ts_state (setup_transition su st why t) = st"
  "ts_setup_id (setup_transition su st why t) = ts_setup_id su"
  "ts_symbol (setup_transition su st why t) = ts_symbol su"
  "ts_setup_type (setup_transition su st why t) = ts_setup_type su"
  "ts_detected_at (setup_transition su st why t) = ts_detected_at su"
  "ts_updated_at (setup_transition su st why t) = t"
  "ts_entry_trigger (setup_transition su st why t) = ts_entry_trigger su"
  "ts_stop_reference (setup_transition su st why t) = ts_stop_reference su"
  "ts_target_reference (setup_transition su st why t) = ts_target_reference su"
  "ts_bar_snapshot (setup_transition su st why t) = ts_bar_snapshot su"
  "ts_market_state (setup_transition su st why t) = ts_market_state su"
  by (simp_all add: setup_transition_def Let_def)

lemma confirm_simps [simp]:
  "ts_state (confirm su sn entry stop target) = SState_CONFIRMED"
  "ts_setup_id (confirm su sn entry stop target) = ts_setup_id su"
  "ts_symbol (confirm su sn entry stop target) = ts_symbol su"
  "ts_setup_type (confirm su sn entry stop target) = ts_setup_type su"
  "ts_bar_snapshot (confirm su sn entry stop target) = ts_bar_snapshot su"
  "ts_entry_trigger (confirm su sn entry stop target) = Some entry"
  "ts_stop_reference (confirm su sn entry stop target) = Some stop"
  "ts_target_reference (confirm su sn entry stop target) = Some target"
  by (simp_all add: confirm_def)

lemma invalidate_simps [simp]:
  "ts_state (invalidate su sn why) = SState_INVALIDATED"
  "ts_setup_id (invalidate su sn why) = ts_setup_id su"
  "ts_symbol (invalidate su sn why) = ts_symbol su"
  "ts_setup_type (invalidate su sn why) = ts_setup_type su"
  "ts_bar_snapshot (invalidate su sn why) = ts_bar_snapshot su"
  "ts_entry_trigger (invalidate su sn why) = ts_entry_trigger su"
  by (simp_all add: invalidate_def)

lemma advance_state_identity [simp]:
  "ts_setup_id (snd (advance_state onl fb su sn ms)) = ts_setup_id su"
  "ts_symbol (snd (advance_state onl fb su sn ms)) = ts_symbol su"
  "ts_setup_type (snd (advance_state onl fb su sn ms)) = ts_setup_type su"
  "ts_bar_snapshot (snd (advance_state onl fb su sn ms)) = ts_bar_snapshot su"
  using advance_state_advanced [of su sn onl fb ms] by (auto elim!: advanced.cases)

lemma advanced_moves:
  "advanced su sn r \<Longrightarrow> r = su \<or> setup_moves (ts_state su) (ts_state r) \<and> ts_updated_at r = sn_timestamp sn"
  by (cases rule: advanced.cases) (auto simp: setup_moves.simps invalidate_def confirm_def)

text \<open>What the table of active setups holds: forming setups and confirmed ones with their three prices.\<close>

definition live_setup :: "trade_setup \<Rightarrow> bool" where
  "live_setup su \<longleftrightarrow>
     ts_state su = SState_FORMING
     \<or> ts_state su = SState_CONFIRMED \<and> ts_entry_trigger su \<noteq> None \<and> ts_stop_reference su \<noteq> None
       \<and> ts_target_reference su \<noteq> None"

lemma advanced_live:
  "advanced su sn r \<Longrightarrow> live_setup su \<Longrightarrow> live_setup r \<or> ts_state r \<in> {SState_TRIGGERED, SState_FAILED, SState_INVALIDATED}"
  by (cases rule: advanced.cases) (auto simp: live_setup_def)

text \<open>
  C4. One bar moves a setup along the lifecycle machine or leaves it as it is, whatever its type: forming
  setups are confirmed or invalidated, confirmed ones triggered, failed or invalidated, and a closed setup never
  changes. Its identity, type and detection snapshot stay, and a forming setup never triggers
  on the bar that confirms it. The machine is the code's: the diagram in the file's header and in the docs lets a
  forming setup fail and a confirmed one be invalidated or expire, whereas a forming one is invalidated and never
  fails here, failing is what a confirmed one does at its stop, and expiry is the session roll's alone.
\<close>

theorem advance_refines_lifecycle:
  "(let r = snd (advance_state onl fb su sn ms) in
      (r = su \<or> setup_moves (ts_state su) (ts_state r) \<and> ts_updated_at r = sn_timestamp sn)
      \<and> ts_setup_id r = ts_setup_id su \<and> ts_setup_type r = ts_setup_type su
      \<and> ts_bar_snapshot r = ts_bar_snapshot su)"
  using advanced_moves [OF advance_state_advanced [of su sn onl fb ms]] by (simp add: Let_def)

text \<open>
  A confirmed setup leaves the table for a reason the bar shows: it triggers only when the bar
  reached its entry (the high for longs, the low for shorts) and fails only when the bar
  reached its stop.
\<close>

theorem exits_need_their_price:
  "(ts_state (snd (advance_state onl fb su sn ms)) = SState_TRIGGERED \<and> ts_state su = SState_CONFIRMED
     \<longrightarrow> entry_reached su sn)
   \<and> (ts_state (snd (advance_state onl fb su sn ms)) = SState_FAILED \<and> ts_state su = SState_CONFIRMED
     \<longrightarrow> stop_reached su sn)"
  using advance_state_advanced [of su sn onl fb ms] by (auto elim!: advanced.cases)

section \<open>Samples\<close>

definition plain_bar :: "dec \<Rightarrow> dec \<Rightarrow> dec \<Rightarrow> dec \<Rightarrow> bar" where
  "plain_bar op hi lo cl =
     \<lparr>br_symbol = ''MNQ'', br_timeframe = TF_M1, br_timestamp = 60000000, br_open = op, br_high = hi,
      br_low = lo, br_close = cl, br_volume = 100, br_vwap = None, br_trade_count = None,
      br_is_partial = False, br_source = DataSource_DATABENTO\<rparr>"

definition plain_snapshot :: "bar \<Rightarrow> dec \<Rightarrow> bar_snapshot" where
  "plain_snapshot b vw = new_snapshot ''MNQ'' (br_timestamp b) TF_M1 b vw"

definition plain_market_state :: market_state where
  "plain_market_state = new_market_state ''MNQ'' 60000000"

definition plain_setup :: "setup_type \<Rightarrow> bar_snapshot \<Rightarrow> trade_setup" where
  "plain_setup t sn =
     \<lparr>ts_setup_id = ''s1'', ts_symbol = ''MNQ'', ts_setup_type = t, ts_state = SState_FORMING,
      ts_detected_at = 0, ts_updated_at = 0, ts_triggered_at = None, ts_invalidated_at = None,
      ts_entry_trigger = None, ts_stop_reference = None, ts_target_reference = None, ts_score = None,
      ts_grade = None, ts_structural_grade = None, ts_conditions_met = [], ts_conditions_missing = [],
      ts_invalidation_reason = None, ts_score_reasons = [], ts_score_penalties = [],
      ts_market_state = plain_market_state, ts_bar_snapshot = sn, ts_notes = '''', ts_tags = []\<rparr>"

definition reclaim_snapshot :: bar_snapshot where
  "reclaim_snapshot = (plain_snapshot (plain_bar 100 102 99 101) 100)\<lparr>sn_is_above_vwap := True, sn_atr_14 := Some 4\<rparr>"

text \<open>A forming VWAP reclaim confirmed on a bar that holds above VWAP.\<close>

lemma sample_confirmed:
  "snd (advance_state None Map.empty (plain_setup Setup_VWAP_RECLAIM reclaim_snapshot) reclaim_snapshot plain_market_state)
   = confirm (plain_setup Setup_VWAP_RECLAIM reclaim_snapshot) reclaim_snapshot 102 99 111"
  by code_simp

lemma exits_need_their_price_witness:
  "entry_reached (confirm (plain_setup Setup_VWAP_RECLAIM reclaim_snapshot) reclaim_snapshot 102 99 111) reclaim_snapshot"
proof -
  let ?su = "confirm (plain_setup Setup_VWAP_RECLAIM reclaim_snapshot) reclaim_snapshot 102 99 111"
  have "ts_state (snd (advance_state None Map.empty ?su reclaim_snapshot plain_market_state)) = SState_TRIGGERED"
    by code_simp
  moreover have "ts_state ?su = SState_CONFIRMED" by simp
  ultimately show ?thesis using exits_need_their_price [of None Map.empty ?su] by blast
qed

section \<open>Risk of a confirmed setup\<close>

text \<open>
  C20. A setup of any type but the first VWAP rejection is confirmed only when the distance between its
  entry and its stop is at most one and a half times the 14-bar ATR, or, without an ATR, half a
  percent of the entry price.
\<close>

theorem confirmed_risk_is_bounded:
  assumes "ts_state su = SState_FORMING" "ts_setup_type su \<noteq> Setup_VWAP_REJECTION"
    and r: "r = snd (advance_state onl fb su sn ms)" "ts_state r = SState_CONFIRMED"
  shows "\<exists>entry stop. ts_entry_trigger r = Some entry \<and> ts_stop_reference r = Some stop
    \<and> (case sn_atr_14 sn of
         Some atr \<Rightarrow> \<bar>dq (entry - stop)\<bar> \<le> dq (atr * (3/2))
       | None \<Rightarrow> dq (\<bar>dq (entry - stop)\<bar> / entry) \<le> 5/1000)"
proof -
  have "advanced su sn r" using r(1) advance_state_advanced by simp
  then obtain entry stop target where c: "r = confirm su sn entry stop target"
    and w: "risk_width_rejection entry stop sn = None"
    by (cases rule: advanced.cases) (use assms in \<open>auto simp: setup_transition_def\<close>)
  then show ?thesis
    by (auto simp: risk_width_rejection_def MAX_RISK_ATR_MULT_def MAX_RISK_PCT_def Let_def
        split: option.splits if_splits)
qed

lemma confirmed_risk_is_bounded_witness:
  "\<bar>dq (102 - 99)\<bar> \<le> dq (4 * (3/2))"
  using confirmed_risk_is_bounded
    [of "plain_setup Setup_VWAP_RECLAIM reclaim_snapshot" _ None Map.empty reclaim_snapshot plain_market_state, OF _ _ refl]
  by (simp add: sample_confirmed) (simp add: plain_setup_def reclaim_snapshot_def)

text \<open>
  The first VWAP rejection has no such limit: below VWAP, without a higher high and with
  ordinary volume it is confirmed whatever the size of its detection bar, the entry at that bar's low
  and the stop at its high.
\<close>

theorem vwap_rejection_risk_is_unbounded:
  assumes "ts_state su = SState_FORMING" "ts_setup_type su = Setup_VWAP_REJECTION"
    and "\<not> sn_vwap_cross_up sn" "\<not> sn_is_above_vwap sn" "\<not> sn_is_higher_high sn"
    and "none_or_ge (sn_relative_volume sn) 1"
  shows "let r = snd (advance_state onl fb su sn ms) in
    ts_state r = SState_CONFIRMED \<and> ts_entry_trigger r = Some (sn_low (ts_bar_snapshot su))
    \<and> ts_stop_reference r = Some (sn_high (ts_bar_snapshot su))"
  using assms by (simp add: advance_state_def advance_vwap_rejection_def Let_def)

text \<open>A detection bar of a thousand points, against an ATR of four.\<close>

lemma vwap_rejection_risk_is_unbounded_witness:
  "let r = snd (advance_state None Map.empty
       (plain_setup Setup_VWAP_REJECTION (plain_snapshot (plain_bar 20100 20200 19200 19300) 20000))
       ((plain_snapshot (plain_bar 19300 19400 19250 19300) 20000)\<lparr>sn_atr_14 := Some 4\<rparr>) plain_market_state) in
    ts_state r = SState_CONFIRMED \<and> ts_entry_trigger r = Some 19200 \<and> ts_stop_reference r = Some 20200"
  using vwap_rejection_risk_is_unbounded
    [of "plain_setup Setup_VWAP_REJECTION (plain_snapshot (plain_bar 20100 20200 19200 19300) 20000)"
        "(plain_snapshot (plain_bar 19300 19400 19250 19300) 20000)\<lparr>sn_atr_14 := Some 4\<rparr>" None Map.empty plain_market_state]
  by (simp add: plain_setup_def plain_snapshot_def new_snapshot_def plain_bar_def none_or_ge_def)

section \<open>Brackets\<close>

text \<open>A price as the feed delivers it: at most 28 significant digits.\<close>

definition is_decimal :: "dec \<Rightarrow> bool" where
  "is_decimal x \<longleftrightarrow> dq x = x"

lemma dq_le_decimal: "x \<le> y \<Longrightarrow> is_decimal y \<Longrightarrow> dq x \<le> y"
  using dq_mono [of x y] by (simp add: is_decimal_def)

lemma decimal_le_dq: "x \<le> y \<Longrightarrow> is_decimal x \<Longrightarrow> x \<le> dq y"
  using dq_mono [of x y] by (simp add: is_decimal_def)

lemma target_mult_pos: "0 < target_mult side ms"
  by (simp add: target_mult_def Let_def)

lemma long_target_ge: "stop \<le> entry \<Longrightarrow> is_decimal entry \<Longrightarrow> entry \<le> long_target entry stop (target_mult side ms)"
  unfolding long_target_def
  by (intro decimal_le_dq) (simp_all add: dq_nonneg target_mult_pos less_imp_le)

lemma short_target_le: "entry \<le> stop \<Longrightarrow> is_decimal entry \<Longrightarrow> short_target entry stop (target_mult side ms) \<le> entry"
  unfolding short_target_def
  by (intro dq_le_decimal) (simp_all add: dq_nonneg target_mult_pos less_imp_le)

lemma bracket_targets:
  "stop \<le> entry \<Longrightarrow> is_decimal entry \<Longrightarrow> entry \<le> high_or_long_target sn entry stop (target_mult side ms)"
  "entry \<le> stop \<Longrightarrow> is_decimal entry \<Longrightarrow> low_or_short_target sn entry stop (target_mult side ms) \<le> entry"
  by (simp_all add: high_or_long_target_def low_or_short_target_def long_target_ge short_target_le split: option.split)

definition bracketed :: "trade_setup \<Rightarrow> bool" where
  "bracketed su \<longleftrightarrow>
     (case (ts_entry_trigger su, ts_stop_reference su, ts_target_reference su) of
        (Some entry, Some stop, Some target) \<Rightarrow>
          if ts_setup_type su \<in> SHORT_TYPES then target \<le> entry \<and> entry \<le> stop else stop \<le> entry \<and> entry \<le> target
      | _ \<Rightarrow> False)"

definition snapshot_prices_ok :: "bar_snapshot \<Rightarrow> bool" where
  "snapshot_prices_ok sn \<longleftrightarrow>
     bar_valid (sn_bar sn) \<and> 0 \<le> sn_low sn \<and> is_decimal (sn_high sn) \<and> is_decimal (sn_low sn) \<and> is_decimal (sn_close sn)"

lemma snapshot_prices_okD:
  "snapshot_prices_ok sn \<Longrightarrow> sn_low sn \<le> sn_close sn \<and> sn_close sn \<le> sn_high sn \<and> sn_low sn \<le> sn_high sn"
  by (auto simp: snapshot_prices_ok_def bar_valid_def)

lemma shaved_low: "snapshot_prices_ok d \<Longrightarrow> dq (sn_low d * (9995/10000)) \<le> sn_low d"
  by (rule dq_le_decimal) (auto simp: snapshot_prices_ok_def)

lemma guarded_confirm_state:
  "ts_state (guarded_confirm su sn entry stop target) = SState_CONFIRMED \<longleftrightarrow> risk_width_rejection entry stop sn = None"
  "risk_width_rejection entry stop sn = None \<Longrightarrow> guarded_confirm su sn entry stop target = confirm su sn entry stop target"
  by (simp_all add: guarded_confirm_def split: option.split)

lemma bracketed_confirm:
  "(if ts_setup_type su \<in> SHORT_TYPES then target \<le> entry \<and> entry \<le> stop else stop \<le> entry \<and> entry \<le> target) \<Longrightarrow>
   bracketed (confirm su sn entry stop target)"
  by (simp add: bracketed_def)

lemma bracketed_guarded:
  "ts_state (guarded_confirm su sn entry stop target) = SState_CONFIRMED \<Longrightarrow>
   (if ts_setup_type su \<in> SHORT_TYPES then target \<le> entry \<and> entry \<le> stop else stop \<le> entry \<and> entry \<le> target) \<Longrightarrow>
   bracketed (guarded_confirm su sn entry stop target)"
  by (simp add: guarded_confirm_state bracketed_confirm)

definition BRACKETED_TYPES :: "setup_type set" where
  "BRACKETED_TYPES = {Setup_SWEEP_RECLAIM, Setup_FAKE_BREAKDOWN, Setup_VWAP_RECLAIM, Setup_ONL_SWEEP_RECLAIM_LONG,
     Setup_DOUBLE_BOTTOM_RECLAIM_LONG, Setup_VWAP_REJECTION, Setup_VWAP_FAILED_RECLAIM_SHORT,
     Setup_TREND_PULLBACK_SHORT}"

text \<open>
  Eight of the types set consistent prices whenever they confirm, from valid bars with ordinary
  prices: a long has its stop at or below the entry and its target at or above it, a short the
  other way round, with every product rounded to the 28 digits of a decimal.
\<close>

theorem confirmed_prices_are_ordered:
  assumes "ts_state su = SState_FORMING" "ts_setup_type su \<in> BRACKETED_TYPES"
    and d: "snapshot_prices_ok (ts_bar_snapshot su)" and n: "snapshot_prices_ok sn"
    and r: "r = snd (advance_state onl fb su sn ms)" "ts_state r = SState_CONFIRMED"
  shows "bracketed r"
proof -
  note dd = snapshot_prices_okD [OF d] and nn = snapshot_prices_okD [OF n] and sh = shaved_low [OF d]
  have dec: "is_decimal (sn_high (ts_bar_snapshot su))" "is_decimal (sn_low (ts_bar_snapshot su))"
    "is_decimal (sn_high sn)" "is_decimal (sn_close sn)"
    using d n by (simp_all add: snapshot_prices_ok_def)
  show ?thesis
    using assms(1,2) r dd nn sh dec
    by (auto simp: BRACKETED_TYPES_def advance_state_def advance_defs Let_def SHORT_TYPES_def
        bracket_targets long_target_ge intro!: bracketed_guarded bracketed_confirm split: if_splits)
qed

lemma confirmed_prices_are_ordered_witness:
  "bracketed (confirm (plain_setup Setup_VWAP_RECLAIM reclaim_snapshot) reclaim_snapshot 102 99 111)"
  by (rule confirmed_prices_are_ordered
        [of "plain_setup Setup_VWAP_RECLAIM reclaim_snapshot" reclaim_snapshot _ None Map.empty plain_market_state])
     (simp_all only: sample_confirmed, code_simp+)

text \<open>
  The trend pullback does not: its entry is the VWAP and its stop the low of the confirming bar. When that bar
  stays above VWAP, which the confirmation allows, the long is confirmed with its stop above
  its entry.
\<close>

theorem pullback_stop_above_entry:
  assumes "ts_state su = SState_FORMING" "ts_setup_type su = Setup_TREND_PULLBACK"
    and "sn_vwap sn < sn_low sn" "risk_width_rejection (sn_vwap sn) (sn_low sn) sn = None"
    and "\<not> sn_vwap_cross_down sn" "sn_is_above_vwap sn" "0 < sn_vwap_deviation_pct sn"
    "sn_vwap_deviation_pct sn \<le> 1/4" "none_or_ge (sn_relative_volume sn) (fl (8/10))" "\<not> sn_is_lower_low sn"
  shows "\<exists>entry stop. ts_state (snd (advance_state onl fb su sn ms)) = SState_CONFIRMED
    \<and> ts_entry_trigger (snd (advance_state onl fb su sn ms)) = Some entry
    \<and> ts_stop_reference (snd (advance_state onl fb su sn ms)) = Some stop \<and> entry < stop"
  using assms by (simp add: advance_state_def advance_trend_pullback_def Let_def guarded_confirm_state)

lemma pullback_stop_above_entry_witness:
  "\<exists>entry stop. ts_stop_reference (snd (advance_state None Map.empty
       (plain_setup Setup_TREND_PULLBACK (plain_snapshot (plain_bar 20030 20040 20020 20030) 20000))
       ((plain_snapshot (plain_bar 20030 20040 20010 20020) 20000)
          \<lparr>sn_atr_14 := Some 20, sn_is_above_vwap := True, sn_vwap_deviation_pct := 1/10\<rparr>) plain_market_state))
     = Some stop
     \<and> ts_entry_trigger (snd (advance_state None Map.empty
       (plain_setup Setup_TREND_PULLBACK (plain_snapshot (plain_bar 20030 20040 20020 20030) 20000))
       ((plain_snapshot (plain_bar 20030 20040 20010 20020) 20000)
          \<lparr>sn_atr_14 := Some 20, sn_is_above_vwap := True, sn_vwap_deviation_pct := 1/10\<rparr>) plain_market_state))
     = Some entry \<and> entry < stop"
proof -
  let ?su = "plain_setup Setup_TREND_PULLBACK (plain_snapshot (plain_bar 20030 20040 20020 20030) 20000)"
  let ?sn = "(plain_snapshot (plain_bar 20030 20040 20010 20020) 20000)
    \<lparr>sn_atr_14 := Some 20, sn_is_above_vwap := True, sn_vwap_deviation_pct := 1/10\<rparr>"
  have "risk_width_rejection (sn_vwap ?sn) (sn_low ?sn) ?sn = None" by code_simp
  then show ?thesis
    using pullback_stop_above_entry [of ?su ?sn None Map.empty plain_market_state]
    by (auto simp: plain_setup_def plain_snapshot_def new_snapshot_def plain_bar_def none_or_ge_def)
qed

end
