(* ===== verification/Setup_Engine.thy ===== *)
theory Setup_Engine
  imports Setup_Lifecycle Calendars "HOL-Library.AList"
begin

text \<open>
  The setup engine, \<^verbatim>\<open>src/alpha/engines/setup/engine.py\<close>: the tables of active setups per symbol, the scan
  that opens setups, the update that advances and closes them, the session roll, the session's history
  and its counts. The identifier \<open>uuid5(f"{symbol}:{setup_type}:{bar_time}")\<close> is a parameter \<open>mk_id\<close> of
  its three parts; the context engine is \<open>get_context\<close>; the symbol's calendar is the record of
  its operations. Published events are returned in order. Log lines are left out.
\<close>

section \<open>State\<close>

record onl_sweep =
  os_sweep_low :: dec
  os_bar_count :: int

record session_setup_context =
  xc_symbol :: string
  xc_session_key :: date
  xc_session_date :: date
  xc_session_open :: timestamp
  xc_session_close :: timestamp
  xc_session_timezone :: string
  xc_last_setup :: "setup_history_entry option"
  xc_setups :: "setup_history_entry list"
  xc_counts :: "string \<rightharpoonup> int"
  xc_counts_by_type :: "setup_type \<rightharpoonup> (string \<rightharpoonup> int)"
  xc_counts_by_level :: "string \<rightharpoonup> int"

record setup_event =
  sv_symbol :: string
  sv_timestamp :: timestamp
  sv_setup_id :: uuid
  sv_setup_type :: setup_type
  sv_setup_state :: setup_state
  sv_prev_state :: "setup_state option"
  sv_entry_trigger :: "dec option"
  sv_stop_reference :: "dec option"
  sv_target_reference :: "dec option"
  sv_grade :: "string option"
  sv_score :: "rat option"

record setup_engine =
  su_active :: "string \<Rightarrow> (uuid \<times> trade_setup) list"
  su_session_contexts :: "string \<rightharpoonup> session_setup_context"
  su_prev_session_contexts :: "string \<rightharpoonup> session_setup_context"
  su_session_keys :: "string \<rightharpoonup> date"
  su_forming_bars :: forming_bars
  su_last_close_bar :: "string \<Rightarrow> setup_type \<rightharpoonup> int"
  su_bar_counts :: "string \<rightharpoonup> int"
  su_bar_count_session :: "string \<rightharpoonup> date"
  su_onl_sweep_state :: "string \<rightharpoonup> onl_sweep"
  su_dbl_first_bottom :: "string \<rightharpoonup> dec \<times> int"
  su_setups_detected :: int
  su_setups_triggered :: int

definition setup_engine_init :: setup_engine where
  "setup_engine_init =
     \<lparr>su_active = \<lambda>_. [], su_session_contexts = Map.empty, su_prev_session_contexts = Map.empty,
      su_session_keys = Map.empty, su_forming_bars = Map.empty, su_last_close_bar = \<lambda>_. Map.empty,
      su_bar_counts = Map.empty, su_bar_count_session = Map.empty, su_onl_sweep_state = Map.empty,
      su_dbl_first_bottom = Map.empty, su_setups_detected = 0, su_setups_triggered = 0\<rparr>"

definition COOLDOWN_BARS :: int where "COOLDOWN_BARS = 10"

definition SSS_TYPES :: "setup_type set" where "SSS_TYPES = {Setup_FAKE_BREAKDOWN}"

definition active_setups :: "setup_engine \<Rightarrow> string \<Rightarrow> trade_setup list" where
  "active_setups e s = map snd (su_active e s)"

definition bar_count :: "setup_engine \<Rightarrow> string \<Rightarrow> int" where
  "bar_count e s = get_default (su_bar_counts e) s 0"

section \<open>History and counts\<close>

definition side_for_setup_type :: "setup_type \<Rightarrow> order_side" where
  "side_for_setup_type t =
     (if t \<in> {Setup_VWAP_RECLAIM, Setup_VWAP_UNDERCUT_RECLAIM, Setup_ORB_BREAKOUT, Setup_SWEEP_RECLAIM,
              Setup_FAKE_BREAKDOWN, Setup_DEEP_EXHAUSTION_RECLAIM, Setup_HOD_BREAKOUT, Setup_TREND_PULLBACK,
              Setup_RELATIVE_STRENGTH_BREAKOUT}
      then Side_BUY else Side_SELL)"

definition level_tag_for_setup_type :: "setup_type \<Rightarrow> string" where
  "level_tag_for_setup_type t =
     (if t = Setup_HOD_BREAKOUT then ''hod''
      else if t \<in> {Setup_VWAP_RECLAIM, Setup_VWAP_REJECTION, Setup_VWAP_UNDERCUT_RECLAIM, Setup_TREND_PULLBACK,
                   Setup_VWAP_FAILED_RECLAIM_SHORT, Setup_TREND_PULLBACK_SHORT} then ''vwap''
      else if t \<in> {Setup_ORB_BREAKOUT, Setup_ORB_BREAKDOWN} then ''orb''
      else if t \<in> {Setup_SWEEP_RECLAIM, Setup_FAKE_BREAKDOWN} then ''sweep''
      else if t = Setup_DEEP_EXHAUSTION_RECLAIM then ''exhaustion''
      else if t = Setup_RELATIVE_STRENGTH_BREAKOUT then ''relative_strength''
      else ''other'')"

definition RESOLVED_STATES :: "setup_state set" where
  "RESOLVED_STATES = {SState_TRIGGERED, SState_FAILED, SState_INVALIDATED, SState_EXPIRED}"

definition history_entry_from_setup :: "trade_setup \<Rightarrow> setup_history_entry" where
  "history_entry_from_setup su =
     \<lparr>he_setup_id = ts_setup_id su, he_setup_type = ts_setup_type su, he_state = ts_state su,
      he_detected_at = ts_detected_at su, he_updated_at = ts_updated_at su,
      he_resolved_at = (if ts_state su \<in> RESOLVED_STATES then Some (ts_updated_at su) else None),
      he_side = side_for_setup_type (ts_setup_type su),
      he_level_tag = level_tag_for_setup_type (ts_setup_type su),
      he_entry_trigger = ts_entry_trigger su, he_stop_reference = ts_stop_reference su,
      he_target_reference = ts_target_reference su, he_grade = ts_grade su, he_score = ts_score su,
      he_structural_grade = ts_structural_grade su,
      he_session_phase = sn_session_phase (ts_bar_snapshot su),
      he_invalidation_reason = ts_invalidation_reason su,
      he_score_reasons = ts_score_reasons su, he_score_penalties = ts_score_penalties su\<rparr>"

definition count_state :: "setup_state \<Rightarrow> setup_history_entry list \<Rightarrow> int" where
  "count_state st entries = int (length [e \<leftarrow> entries. he_state e = st])"

definition build_counts :: "setup_history_entry list \<Rightarrow> string \<rightharpoonup> int" where
  "build_counts entries =
     [''detected_total'' \<mapsto> int (length entries),
      ''forming_total'' \<mapsto> count_state SState_FORMING entries,
      ''confirmed_total'' \<mapsto> count_state SState_CONFIRMED entries,
      ''triggered_total'' \<mapsto> count_state SState_TRIGGERED entries,
      ''failed_total'' \<mapsto> count_state SState_FAILED entries,
      ''invalidated_total'' \<mapsto> count_state SState_INVALIDATED entries,
      ''expired_total'' \<mapsto> count_state SState_EXPIRED entries]"

definition empty_bucket :: "string \<rightharpoonup> int" where
  "empty_bucket =
     [''detected'' \<mapsto> 0, ''forming'' \<mapsto> 0, ''confirmed'' \<mapsto> 0, ''triggered'' \<mapsto> 0, ''failed'' \<mapsto> 0,
      ''invalidated'' \<mapsto> 0, ''expired'' \<mapsto> 0]"

definition bump :: "(string \<rightharpoonup> int) \<Rightarrow> string \<Rightarrow> (string \<rightharpoonup> int)" where
  "bump m k = m(k \<mapsto> get_default m k 0 + 1)"

definition build_counts_by_type :: "setup_history_entry list \<Rightarrow> setup_type \<rightharpoonup> (string \<rightharpoonup> int)" where
  "build_counts_by_type entries =
     foldl (\<lambda>counts e.
       let bucket = get_default counts (he_setup_type e) empty_bucket
       in counts(he_setup_type e \<mapsto> bump (bump bucket ''detected'') (setup_state_value (he_state e))))
     Map.empty entries"

definition build_counts_by_level :: "setup_history_entry list \<Rightarrow> string \<rightharpoonup> int" where
  "build_counts_by_level entries = foldl (\<lambda>counts e. bump counts (he_level_tag e)) Map.empty entries"

text \<open>The first entry of the same setup is replaced; a new setup is appended.\<close>

fun record_entry :: "setup_history_entry \<Rightarrow> setup_history_entry list \<Rightarrow> setup_history_entry list" where
  "record_entry e [] = [e]"
| "record_entry e (x # xs) = (if he_setup_id x = he_setup_id e then e # xs else x # record_entry e xs)"

definition record_setup :: "setup_engine \<Rightarrow> string \<Rightarrow> trade_setup \<Rightarrow> setup_engine" where
  "record_setup e s su =
     (case su_session_contexts e s of
        None \<Rightarrow> e
      | Some context \<Rightarrow>
          (let entry = history_entry_from_setup su;
               setups = record_entry entry (xc_setups context);
               context = context\<lparr>xc_setups := setups, xc_last_setup := Some entry,
                                 xc_counts := build_counts setups,
                                 xc_counts_by_type := build_counts_by_type setups,
                                 xc_counts_by_level := build_counts_by_level setups\<rparr>
           in e\<lparr>su_session_contexts := (su_session_contexts e)(s \<mapsto> context)\<rparr>))"

definition setup_emit :: "trade_setup \<Rightarrow> setup_state option \<Rightarrow> setup_event" where
  "setup_emit su prev_state =
     \<lparr>sv_symbol = ts_symbol su, sv_timestamp = ts_updated_at su, sv_setup_id = ts_setup_id su,
      sv_setup_type = ts_setup_type su, sv_setup_state = ts_state su, sv_prev_state = prev_state,
      sv_entry_trigger = ts_entry_trigger su, sv_stop_reference = ts_stop_reference su,
      sv_target_reference = ts_target_reference su,
      sv_grade = map_option setup_grade_value (ts_grade su), sv_score = ts_score su\<rparr>"

section \<open>The key-level detectors\<close>

type_synonym context_lookup = "(string \<Rightarrow> context_snapshot option) option"

definition onl_of :: "context_lookup \<Rightarrow> string \<Rightarrow> dec option" where
  "onl_of get_context s =
     (case get_context of
        None \<Rightarrow> None
      | Some f \<Rightarrow> (case f s of None \<Rightarrow> None | Some ctx \<Rightarrow> cx_onl ctx))"

definition onl_hard_cap :: "bar_snapshot \<Rightarrow> dec" where
  "onl_hard_cap sn =
     (case sn_atr_14 sn of
        None \<Rightarrow> 30
      | Some atr \<Rightarrow> if atr > 0 then min (max 30 (dq (atr * (5/2)))) 60 else 30)"

definition reason_onl_sweep_reclaim_long ::
  "context_lookup \<Rightarrow> setup_engine \<Rightarrow> bar_snapshot \<Rightarrow> rejection option" where
  "reason_onl_sweep_reclaim_long get_context e sn =
     (if get_context = None then Some (Rej ''no_context_engine'')
      else case onl_of get_context (sn_symbol sn) of
        None \<Rightarrow> Some (Rej ''no_onl'')
      | Some onl \<Rightarrow>
          (case su_onl_sweep_state e (sn_symbol sn) of
             None \<Rightarrow> Some (Rej ''no_active_sweep_below_onl'')
           | Some st \<Rightarrow>
               if sn_close sn \<le> onl then Some (Rej ''close_not_above_onl'')
               else
                 (let sweep_pts = dq (onl - os_sweep_low st); hard_cap = onl_hard_cap sn;
                      atr_reason =
                        (case sn_atr_14 sn of
                           Some atr \<Rightarrow>
                             if atr > 0
                             then (if fl (fl sweep_pts / fl atr) > 2 \<and> is_lt (sn_bar_close_position_pct sn) (fl (6/10))
                                   then Some (Rej ''deep_sweep_requires_strong_close_ge_60pct'') else None)
                             else None
                         | None \<Rightarrow> None);
                      fallback_reason =
                        (if (case sn_atr_14 sn of Some atr \<Rightarrow> atr > 0 | None \<Rightarrow> False) then None
                         else case sn_rth_p75_1m_range sn of
                           Some p75 \<Rightarrow> if sweep_pts > dq (p75 * 2) then Some (Rej ''sweep_too_deep_vs_rth_p75_fallback'') else None
                         | None \<Rightarrow> if fl (fl sweep_pts / fl onl) > fl (15/10000)
                                   then Some (Rej ''sweep_too_deep_pct_fallback'') else None)
                  in if sweep_pts > hard_cap then Some (Sweep_too_deep hard_cap)
                     else if atr_reason \<noteq> None then atr_reason
                     else if fallback_reason \<noteq> None then fallback_reason
                     else if sn_bars_since_open sn \<ge> 15
                             \<and> (case sn_rth_p90_1m_range sn of None \<Rightarrow> False | Some p90 \<Rightarrow> sweep_pts > dq (p90 * 2))
                     then Some (Rej ''sweep_too_deep_vs_rth_p90_distribution'')
                     else if is_lt (sn_bar_close_position_pct sn) (1/2) then Some (Rej ''close_in_lower_half'')
                     else None)))"

text \<open>The method that tracks a sweep. The scan never calls it; see below.\<close>

definition detect_onl_sweep_reclaim_long ::
  "context_lookup \<Rightarrow> setup_engine \<Rightarrow> bar_snapshot \<Rightarrow> setup_engine \<times> bool" where
  "detect_onl_sweep_reclaim_long get_context e sn =
     (let s = sn_symbol sn; n = bar_count e s in
      case onl_of get_context s of
        None \<Rightarrow> (e, False)
      | Some onl \<Rightarrow>
          (let sweeps = su_onl_sweep_state e;
               sweeps = (case sweeps s of
                           Some st \<Rightarrow> if n - os_bar_count st > 8 then sweeps(s := None) else sweeps
                         | None \<Rightarrow> sweeps)
           in if sn_low sn < onl then
                (case sweeps s of
                   None \<Rightarrow>
                     (let e = e\<lparr>su_onl_sweep_state := sweeps(s \<mapsto> \<lparr>os_sweep_low = sn_low sn, os_bar_count = n\<rparr>)\<rparr>
                      in (e, reason_onl_sweep_reclaim_long get_context e sn = None))
                 | Some st \<Rightarrow>
                     if sn_low sn < os_sweep_low st then
                       (if fl (fl (dq (onl - sn_low sn)) / fl onl) > fl (5/1000)
                        then (e\<lparr>su_onl_sweep_state := sweeps(s := None)\<rparr>, False)
                        else (let e = e\<lparr>su_onl_sweep_state := sweeps(s \<mapsto> st\<lparr>os_sweep_low := sn_low sn\<rparr>)\<rparr>
                              in (e, reason_onl_sweep_reclaim_long get_context e sn = None)))
                     else (let e = e\<lparr>su_onl_sweep_state := sweeps\<rparr>
                           in (e, reason_onl_sweep_reclaim_long get_context e sn = None)))
              else (let e = e\<lparr>su_onl_sweep_state := sweeps\<rparr>
                    in (e, reason_onl_sweep_reclaim_long get_context e sn = None))))"

definition reason_double_bottom_reclaim_long :: "setup_engine \<Rightarrow> bar_snapshot \<Rightarrow> rejection option" where
  "reason_double_bottom_reclaim_long e sn =
     (case su_dbl_first_bottom e (sn_symbol sn) of
        None \<Rightarrow> Some (Rej ''no_first_bottom_tracked'')
      | Some (first_low, first_bar) \<Rightarrow>
          (let bars_since_first = bar_count e (sn_symbol sn) - first_bar;
               atr = (case sn_atr_14 sn of None \<Rightarrow> None | Some a \<Rightarrow> if a \<noteq> 0 then Some a else None);
               tolerance = (case atr of Some a \<Rightarrow> min 40 (dq (a * (5/2))) | None \<Rightarrow> dq (first_low * (15/10000)));
               max_extension = (case atr of Some a \<Rightarrow> min 20 a | None \<Rightarrow> dq (first_low * (1/1000)))
           in if bars_since_first < 3 then Some (Rej ''too_few_bars_since_first_bottom'')
              else if bars_since_first > 60 then Some (Rej ''first_bottom_too_stale'')
              else if \<bar>dq (sn_low sn - first_low)\<bar> > tolerance then Some (Rej ''low_not_near_first_bottom_zone'')
              else if sn_low sn < dq (first_low - max_extension)
              then Some (Rej ''second_low_extends_materially_below_first'')
              else if is_lt (sn_bar_close_position_pct sn) (1/2) then Some (Rej ''second_bottom_close_in_lower_half'')
              else if sn_close sn \<le> first_low then Some (Rej ''second_bottom_close_not_above_first_low'')
              else None))"

definition detect_double_bottom_reclaim_long :: "setup_engine \<Rightarrow> bar_snapshot \<Rightarrow> setup_engine \<times> bool" where
  "detect_double_bottom_reclaim_long e sn =
     (let s = sn_symbol sn; n = bar_count e s; is_second = (reason_double_bottom_reclaim_long e sn = None)
      in if is_second then (e, True)
         else if sn_is_new_lod sn \<or> sn_is_new_rth_lod sn then
           (let first = su_dbl_first_bottom e s;
                weak_close = is_lt (sn_bar_close_position_pct sn) (fl (3/10))
            in if weak_close \<and> (case first of None \<Rightarrow> False | Some (l, _) \<Rightarrow> sn_low sn < dq (l * (997/1000)))
               then (e\<lparr>su_dbl_first_bottom := (su_dbl_first_bottom e)(s := None)\<rparr>, False)
               else if (case first of None \<Rightarrow> True | Some (l, _) \<Rightarrow> sn_low sn < dq (l * (9997/10000)))
               then (e\<lparr>su_dbl_first_bottom := (su_dbl_first_bottom e)(s \<mapsto> (sn_low sn, n))\<rparr>, False)
               else (e, False))
         else (e, False))"

section \<open>The scan\<close>

definition detector_reason ::
  "context_lookup \<Rightarrow> setup_engine \<Rightarrow> setup_type \<Rightarrow> bar_snapshot \<Rightarrow> rejection option" where
  "detector_reason get_context e t sn =
     (case t of
        Setup_VWAP_UNDERCUT_RECLAIM \<Rightarrow> reason_vwap_undercut_reclaim sn
      | Setup_SWEEP_RECLAIM \<Rightarrow> reason_sweep_reclaim sn
      | Setup_FAKE_BREAKDOWN \<Rightarrow> reason_fake_breakdown sn
      | Setup_DEEP_EXHAUSTION_RECLAIM \<Rightarrow> reason_deep_exhaustion_reclaim sn
      | Setup_HOD_BREAKOUT \<Rightarrow> reason_hod_breakout sn
      | Setup_TREND_PULLBACK \<Rightarrow> reason_trend_pullback sn
      | Setup_VWAP_RECLAIM \<Rightarrow> reason_vwap_reclaim sn
      | Setup_VWAP_REJECTION \<Rightarrow> reason_vwap_rejection sn
      | Setup_VWAP_FAILED_RECLAIM_SHORT \<Rightarrow> reason_vwap_failed_reclaim_short sn
      | Setup_TREND_PULLBACK_SHORT \<Rightarrow> reason_trend_pullback_short sn
      | Setup_ORB_BREAKDOWN \<Rightarrow> reason_orb_breakdown sn
      | Setup_ORB_BREAKOUT \<Rightarrow> reason_orb_breakout sn
      | Setup_ONL_SWEEP_RECLAIM_LONG \<Rightarrow> reason_onl_sweep_reclaim_long get_context e sn
      | Setup_DOUBLE_BOTTOM_RECLAIM_LONG \<Rightarrow> reason_double_bottom_reclaim_long e sn
      | _ \<Rightarrow> Some (Rej ''no_reason_available''))"

definition DETECTORS :: "setup_type list" where
  "DETECTORS =
     [Setup_VWAP_UNDERCUT_RECLAIM, Setup_SWEEP_RECLAIM, Setup_FAKE_BREAKDOWN, Setup_DEEP_EXHAUSTION_RECLAIM,
      Setup_HOD_BREAKOUT, Setup_TREND_PULLBACK, Setup_VWAP_RECLAIM, Setup_VWAP_REJECTION,
      Setup_VWAP_FAILED_RECLAIM_SHORT, Setup_TREND_PULLBACK_SHORT, Setup_ORB_BREAKOUT, Setup_ORB_BREAKDOWN,
      Setup_ONL_SWEEP_RECLAIM_LONG, Setup_DOUBLE_BOTTOM_RECLAIM_LONG]"

definition has_active :: "setup_engine \<Rightarrow> string \<Rightarrow> setup_type \<Rightarrow> bool" where
  "has_active e s t \<longleftrightarrow> list_ex (\<lambda>x. ts_setup_type x = t) (active_setups e s)"

definition session_allows_detection :: "bar_snapshot \<Rightarrow> bool" where
  "session_allows_detection sn \<longleftrightarrow> sn_session_phase sn \<in> REGULAR_PHASES"

definition cooling_down :: "setup_engine \<Rightarrow> string \<Rightarrow> setup_type \<Rightarrow> bool" where
  "cooling_down e s t \<longleftrightarrow>
     (case su_last_close_bar e s t of None \<Rightarrow> False | Some last_close \<Rightarrow> bar_count e s - last_close < COOLDOWN_BARS)"

text \<open>The setup \<open>_open_setup\<close> constructs.\<close>

definition new_setup ::
  "(string \<Rightarrow> setup_type \<Rightarrow> timestamp \<Rightarrow> uuid) \<Rightarrow> string \<Rightarrow> setup_type \<Rightarrow> bar_snapshot \<Rightarrow>
   market_state \<Rightarrow> bar_event \<Rightarrow> trade_setup" where
  "new_setup mk_id s t sn ms trigger =
     (let bar_time = be_timestamp trigger in
      \<lparr>ts_setup_id = mk_id s t bar_time, ts_symbol = s, ts_setup_type = t, ts_state = SState_FORMING,
       ts_detected_at = bar_time, ts_updated_at = bar_time, ts_triggered_at = None,
       ts_invalidated_at = None, ts_entry_trigger = None, ts_stop_reference = None,
       ts_target_reference = None, ts_score = None, ts_grade = None,
       ts_structural_grade = (if t \<in> SSS_TYPES then Some Grade_SSS else None),
       ts_conditions_met = [], ts_conditions_missing = [], ts_invalidation_reason = None,
       ts_score_reasons = [], ts_score_penalties = [], ts_market_state = ms, ts_bar_snapshot = sn,
       ts_notes = '''', ts_tags = []\<rparr>)"

definition open_setup ::
  "(string \<Rightarrow> setup_type \<Rightarrow> timestamp \<Rightarrow> uuid) \<Rightarrow> setup_engine \<Rightarrow> string \<Rightarrow> setup_type \<Rightarrow> bar_snapshot \<Rightarrow>
   market_state \<Rightarrow> bar_event \<Rightarrow> setup_engine \<times> setup_event" where
  "open_setup mk_id e s t sn ms trigger =
     (let su = new_setup mk_id s t sn ms trigger;
          e = e\<lparr>su_active := (su_active e)(s := AList.update (ts_setup_id su) su (su_active e s)),
                su_setups_detected := su_setups_detected e + 1\<rparr>
      in (record_setup e s su, setup_emit su None))"

definition scan_one ::
  "(string \<Rightarrow> setup_type \<Rightarrow> timestamp \<Rightarrow> uuid) \<Rightarrow> context_lookup \<Rightarrow> string \<Rightarrow> bar_snapshot \<Rightarrow> market_state \<Rightarrow>
   bar_event \<Rightarrow> setup_engine \<times> setup_event list \<Rightarrow> setup_type \<Rightarrow> setup_engine \<times> setup_event list" where
  "scan_one mk_id get_context s sn ms trigger st t =
     (case st of (e, out) \<Rightarrow>
        if has_active e s t then (e, out)
        else if cooling_down e s t then (e, out)
        else if \<not> session_allows_detection sn then (e, out)
        else if detector_reason get_context e t sn = None
        then (case open_setup mk_id e s t sn ms trigger of (e, ev) \<Rightarrow> (e, out @ [ev]))
        else (e, out))"

definition scan_for_setups ::
  "(string \<Rightarrow> setup_type \<Rightarrow> timestamp \<Rightarrow> uuid) \<Rightarrow> context_lookup \<Rightarrow> setup_engine \<Rightarrow> string \<Rightarrow> bar_snapshot \<Rightarrow>
   market_state \<Rightarrow> bar_event \<Rightarrow> setup_engine \<times> setup_event list" where
  "scan_for_setups mk_id get_context e s sn ms trigger =
     foldl (scan_one mk_id get_context s sn ms trigger) (e, []) DETECTORS"

section \<open>The update\<close>

definition update_one ::
  "context_lookup \<Rightarrow> string \<Rightarrow> bar_snapshot \<Rightarrow> market_state \<Rightarrow>
   setup_engine \<times> setup_event list \<times> uuid list \<Rightarrow> uuid \<times> trade_setup \<Rightarrow>
   setup_engine \<times> setup_event list \<times> uuid list" where
  "update_one get_context s sn ms st entry =
     (case st of (e, out, to_remove) \<Rightarrow> case entry of (k, su) \<Rightarrow>
        (case advance_state (onl_of get_context (ts_symbol su)) (su_forming_bars e) su sn ms of (fb, updated) \<Rightarrow>
          (let e = e\<lparr>su_forming_bars := fb\<rparr>;
               (e, out) =
                 (if ts_state updated \<noteq> ts_state su
                  then (let e = e\<lparr>su_active := (su_active e)(s := AList.update k updated (su_active e s))\<rparr>;
                            e = record_setup e s updated;
                            e = (if ts_state updated = SState_TRIGGERED
                                 then e\<lparr>su_setups_triggered := su_setups_triggered e + 1\<rparr> else e)
                        in (e, out @ [setup_emit updated (Some (ts_state su))]))
                  else (e, out))
           in (e, out, if ts_state updated \<in> RESOLVED_STATES then to_remove @ [k] else to_remove))))"

definition close_setup :: "string \<Rightarrow> setup_engine \<Rightarrow> uuid \<Rightarrow> setup_engine" where
  "close_setup s e k =
     (let closed = map_of (su_active e s) k;
          e = e\<lparr>su_active := (su_active e)(s := AList.delete k (su_active e s)),
                su_forming_bars := (su_forming_bars e)(k := None)\<rparr>
      in case closed of
           None \<Rightarrow> e
         | Some su \<Rightarrow>
             e\<lparr>su_last_close_bar :=
                 (su_last_close_bar e)(s := (su_last_close_bar e s)(ts_setup_type su \<mapsto> bar_count e s))\<rparr>)"

definition update_active_setups ::
  "context_lookup \<Rightarrow> setup_engine \<Rightarrow> string \<Rightarrow> bar_snapshot \<Rightarrow> market_state \<Rightarrow> setup_engine \<times> setup_event list" where
  "update_active_setups get_context e s sn ms =
     (case foldl (update_one get_context s sn ms) (e, [], []) (su_active e s) of
        (e, out, to_remove) \<Rightarrow> (foldl (close_setup s) e to_remove, out))"

section \<open>Sessions and the two entry points\<close>

definition expire_one :: "string \<Rightarrow> timestamp \<Rightarrow> setup_engine \<times> setup_event list \<Rightarrow> uuid \<times> trade_setup \<Rightarrow>
   setup_engine \<times> setup_event list" where
  "expire_one s ts st entry =
     (case st of (e, out) \<Rightarrow> case entry of (k, su) \<Rightarrow>
        (let expired = setup_transition su SState_EXPIRED (Some (Because ''session_rolled'')) ts;
             e = record_setup e s expired
         in (e\<lparr>su_forming_bars := (su_forming_bars e)(k := None)\<rparr>, out @ [setup_emit expired (Some (ts_state su))])))"

definition roll_session_if_needed ::
  "session_calendar \<Rightarrow> setup_engine \<Rightarrow> string \<Rightarrow> timestamp \<Rightarrow> setup_engine \<times> setup_event list" where
  "roll_session_if_needed cal e s ts =
     (let key = session_key cal ts in
      if su_session_keys e s = Some key then (e, [])
      else
        (case foldl (expire_one s ts) (e, []) (su_active e s) of (e, out) \<Rightarrow>
          (let e = e\<lparr>su_session_keys := (su_session_keys e)(s \<mapsto> key),
                     su_active := (su_active e)(s := []),
                     su_last_close_bar := (su_last_close_bar e)(s := Map.empty),
                     su_bar_counts := (su_bar_counts e)(s \<mapsto> 0),
                     su_bar_count_session := (su_bar_count_session e)(s \<mapsto> key)\<rparr>;
               e = (case su_session_contexts e s of
                      None \<Rightarrow> e
                    | Some old \<Rightarrow> e\<lparr>su_prev_session_contexts := (su_prev_session_contexts e)(s \<mapsto> old)\<rparr>);
               d = sc_session_date cal ts;
               context = \<lparr>xc_symbol = s, xc_session_key = key, xc_session_date = d,
                          xc_session_open = sc_session_open cal d, xc_session_close = sc_session_close cal d,
                          xc_session_timezone = sc_timezone cal, xc_last_setup = None, xc_setups = [],
                          xc_counts = Map.empty, xc_counts_by_type = Map.empty,
                          xc_counts_by_level = Map.empty\<rparr>
           in (e\<lparr>su_session_contexts := (su_session_contexts e)(s \<mapsto> context)\<rparr>, out))))"

text \<open>The block both entry points run after the roll.\<close>

definition count_bar :: "setup_engine \<Rightarrow> string \<Rightarrow> setup_engine" where
  "count_bar e s =
     (let e = (if su_bar_count_session e s \<noteq> su_session_keys e s
               then e\<lparr>su_bar_count_session := (su_bar_count_session e)(s := su_session_keys e s),
                      su_bar_counts := (su_bar_counts e)(s \<mapsto> 0),
                      su_last_close_bar := (su_last_close_bar e)(s := Map.empty),
                      su_onl_sweep_state := (su_onl_sweep_state e)(s := None),
                      su_dbl_first_bottom := (su_dbl_first_bottom e)(s := None)\<rparr>
               else e)
      in e\<lparr>su_bar_counts := (su_bar_counts e)(s \<mapsto> bar_count e s + 1)\<rparr>)"

definition setup_process_bar ::
  "session_calendar \<Rightarrow> (string \<Rightarrow> setup_type \<Rightarrow> timestamp \<Rightarrow> uuid) \<Rightarrow> context_lookup \<Rightarrow> setup_engine \<Rightarrow>
   bar_snapshot \<Rightarrow> market_state \<Rightarrow> bar_bundle \<Rightarrow> setup_engine \<times> setup_event list" where
  "setup_process_bar cal mk_id get_context e sn ms bundle =
     (let s = bb_symbol bundle; bar = to_bar_event bundle;
          (e, rolled) = roll_session_if_needed cal e s (be_timestamp bar);
          e = count_bar e s;
          (e, opened) = scan_for_setups mk_id get_context e s sn ms bar;
          (e, changed) = update_active_setups get_context e s sn ms
      in (e, rolled @ opened @ changed))"

text \<open>The bus handler, with the snapshot and market state the engines hold.\<close>

definition setup_handle_bar ::
  "bool \<Rightarrow> session_calendar \<Rightarrow> (string \<Rightarrow> setup_type \<Rightarrow> timestamp \<Rightarrow> uuid) \<Rightarrow> context_lookup \<Rightarrow> setup_engine \<Rightarrow>
   bar_snapshot option \<Rightarrow> market_state option \<Rightarrow> bar_event \<Rightarrow> setup_engine \<times> setup_event list" where
  "setup_handle_bar pipeline_mode cal mk_id get_context e snap state ev =
     (if be_timeframe ev \<noteq> TF_M1 \<or> pipeline_mode then (e, [])
      else
        (let s = be_symbol ev;
             (e, rolled) = roll_session_if_needed cal e s (be_timestamp ev);
             e = count_bar e s
         in case (snap, state) of
              (Some sn, Some ms) \<Rightarrow>
                (let (e, opened) = scan_for_setups mk_id get_context e s sn ms ev;
                     (e, changed) = update_active_setups get_context e s sn ms
                 in (e, rolled @ opened @ changed))
            | _ \<Rightarrow> (e, rolled)))"

definition patch_setup_score ::
  "setup_engine \<Rightarrow> string \<Rightarrow> uuid \<Rightarrow> rat \<Rightarrow> setup_grade \<Rightarrow> score_reason list \<Rightarrow> score_reason list \<Rightarrow>
   score_reason list \<Rightarrow> score_reason list \<Rightarrow> setup_engine \<times> bool" where
  "patch_setup_score e s k score grade met missing reasons penalties =
     (case map_of (su_active e s) k of
        None \<Rightarrow> (e, False)
      | Some su \<Rightarrow>
          (let patched = su\<lparr>ts_score := Some score, ts_grade := Some grade, ts_conditions_met := met,
                            ts_conditions_missing := missing, ts_score_reasons := reasons,
                            ts_score_penalties := penalties\<rparr>;
               e = e\<lparr>su_active := (su_active e)(s := AList.update k patched (su_active e s))\<rparr>
           in (record_setup e s patched, True)))"

section \<open>Commands\<close>

text \<open>What happens to the engine in the pipeline: bars and the scoring engine's patches.\<close>

datatype setup_cmd =
  Setup_bar bar_snapshot market_state bar_bundle
| Setup_patch string uuid rat setup_grade "score_reason list" "score_reason list" "score_reason list" "score_reason list"

record setup_env =
  ve_calendar :: "string \<Rightarrow> session_calendar"
  ve_mk_id :: "string \<Rightarrow> setup_type \<Rightarrow> timestamp \<Rightarrow> uuid"
  ve_context :: context_lookup

fun setup_step :: "setup_env \<Rightarrow> setup_engine \<Rightarrow> setup_cmd \<Rightarrow> setup_engine \<times> setup_event list" where
  "setup_step v e (Setup_bar sn ms b) =
     setup_process_bar (ve_calendar v (bb_symbol b)) (ve_mk_id v) (ve_context v) e sn ms b"
| "setup_step v e (Setup_patch s k score grade met missing reasons penalties) =
     (fst (patch_setup_score e s k score grade met missing reasons penalties), [])"

fun setup_run :: "setup_env \<Rightarrow> setup_engine \<Rightarrow> setup_cmd list \<Rightarrow> setup_engine \<times> setup_event list" where
  "setup_run v e [] = (e, [])"
| "setup_run v e (c # cs) =
     (case setup_step v e c of (e, out) \<Rightarrow> (case setup_run v e cs of (e, out') \<Rightarrow> (e, out @ out')))"

section \<open>What the operations leave alone\<close>

lemma record_setup_frame [simp]:
  "su_active (record_setup e s su) = su_active e"
  "su_prev_session_contexts (record_setup e s su) = su_prev_session_contexts e"
  "su_session_keys (record_setup e s su) = su_session_keys e"
  "su_forming_bars (record_setup e s su) = su_forming_bars e"
  "su_last_close_bar (record_setup e s su) = su_last_close_bar e"
  "su_bar_counts (record_setup e s su) = su_bar_counts e"
  "su_bar_count_session (record_setup e s su) = su_bar_count_session e"
  "su_onl_sweep_state (record_setup e s su) = su_onl_sweep_state e"
  "su_dbl_first_bottom (record_setup e s su) = su_dbl_first_bottom e"
  by (simp_all add: record_setup_def Let_def split: option.split)

lemma update_one_cases:
  obtains fb updated e' where
    "advance_state (onl_of gc (ts_symbol su)) (su_forming_bars e) su sn ms = (fb, updated)" "advanced su sn updated"
    "update_one gc s sn ms (e, out, rm) (k, su) =
       (e', if ts_state updated = ts_state su then out else out @ [setup_emit updated (Some (ts_state su))],
        if ts_state updated \<in> RESOLVED_STATES then rm @ [k] else rm)"
    "su_active e' = (if ts_state updated = ts_state su then su_active e
                     else (su_active e)(s := AList.update k updated (su_active e s)))"
    "su_session_keys e' = su_session_keys e" "su_last_close_bar e' = su_last_close_bar e"
    "su_bar_counts e' = su_bar_counts e" "su_bar_count_session e' = su_bar_count_session e"
    "su_onl_sweep_state e' = su_onl_sweep_state e" "su_dbl_first_bottom e' = su_dbl_first_bottom e"
    "su_session_contexts e' = (if ts_state updated = ts_state su then su_session_contexts e
                               else su_session_contexts (record_setup e s updated))"
proof -
  obtain fb updated where a: "advance_state (onl_of gc (ts_symbol su)) (su_forming_bars e) su sn ms = (fb, updated)"
    by fastforce
  then have "advanced su sn updated" using advance_state_advanced by (metis snd_conv)
  with a show ?thesis
    by (intro that [of fb updated "fst (update_one gc s sn ms (e, out, rm) (k, su))"])
       (simp_all add: update_one_def Let_def, simp_all add: record_setup_def Let_def split: option.split)
qed

lemma update_fold_frame:
  assumes "foldl (update_one gc s sn ms) (e, out, rm) xs = (e', out', rm')"
  shows "su_session_keys e' = su_session_keys e \<and> su_last_close_bar e' = su_last_close_bar e
    \<and> su_bar_counts e' = su_bar_counts e \<and> su_bar_count_session e' = su_bar_count_session e
    \<and> su_onl_sweep_state e' = su_onl_sweep_state e \<and> su_dbl_first_bottom e' = su_dbl_first_bottom e
    \<and> (\<forall>s'. s' \<noteq> s \<longrightarrow> su_active e' s' = su_active e s')"
  using assms
proof (induction xs arbitrary: e out rm)
  case (Cons x xs)
  obtain k su where x: "x = (k, su)" by fastforce
  obtain e1 out1 rm1 where st: "update_one gc s sn ms (e, out, rm) x = (e1, out1, rm1)" by (metis prod_cases3)
  have "su_session_keys e1 = su_session_keys e \<and> su_last_close_bar e1 = su_last_close_bar e
    \<and> su_bar_counts e1 = su_bar_counts e \<and> su_bar_count_session e1 = su_bar_count_session e
    \<and> su_onl_sweep_state e1 = su_onl_sweep_state e \<and> su_dbl_first_bottom e1 = su_dbl_first_bottom e
    \<and> (\<forall>s'. s' \<noteq> s \<longrightarrow> su_active e1 s' = su_active e s')"
    by (rule update_one_cases [of gc su e sn ms s out rm k]) (use st x in auto)
  with Cons.IH [of e1 out1 rm1] Cons.prems st show ?case by simp
qed simp

lemma close_setup_frame [simp]:
  "su_session_keys (close_setup s e k) = su_session_keys e"
  "su_bar_counts (close_setup s e k) = su_bar_counts e"
  "su_bar_count_session (close_setup s e k) = su_bar_count_session e"
  "su_onl_sweep_state (close_setup s e k) = su_onl_sweep_state e"
  "su_dbl_first_bottom (close_setup s e k) = su_dbl_first_bottom e"
  "su_active (close_setup s e k) = (su_active e)(s := AList.delete k (su_active e s))"
  "su_session_contexts (close_setup s e k) = su_session_contexts e"
  by (simp_all add: close_setup_def Let_def split: option.split)

lemma close_fold_frame:
  "su_session_keys (foldl (close_setup s) e ks) = su_session_keys e"
  "su_bar_counts (foldl (close_setup s) e ks) = su_bar_counts e"
  "su_bar_count_session (foldl (close_setup s) e ks) = su_bar_count_session e"
  "su_onl_sweep_state (foldl (close_setup s) e ks) = su_onl_sweep_state e"
  "su_dbl_first_bottom (foldl (close_setup s) e ks) = su_dbl_first_bottom e"
  "su_session_contexts (foldl (close_setup s) e ks) = su_session_contexts e"
  "su_active (foldl (close_setup s) e ks) =
     (su_active e)(s := [p \<leftarrow> su_active e s. fst p \<notin> set ks])"
  by (induction ks arbitrary: e)
     (auto simp: AList.delete_eq fun_eq_iff case_prod_unfold filter_filter intro: filter_cong arg_cong2)

lemma open_setup_frame [simp]:
  "su_session_keys (fst (open_setup mk_id e s t sn ms ev)) = su_session_keys e"
  "su_last_close_bar (fst (open_setup mk_id e s t sn ms ev)) = su_last_close_bar e"
  "su_bar_counts (fst (open_setup mk_id e s t sn ms ev)) = su_bar_counts e"
  "su_bar_count_session (fst (open_setup mk_id e s t sn ms ev)) = su_bar_count_session e"
  "su_onl_sweep_state (fst (open_setup mk_id e s t sn ms ev)) = su_onl_sweep_state e"
  "su_dbl_first_bottom (fst (open_setup mk_id e s t sn ms ev)) = su_dbl_first_bottom e"
  by (simp_all add: open_setup_def Let_def)

lemma scan_fold_frame:
  assumes "foldl (scan_one mk_id gc s sn ms ev) (e, out) ts = (e', out')"
  shows "su_session_keys e' = su_session_keys e \<and> su_last_close_bar e' = su_last_close_bar e
    \<and> su_bar_counts e' = su_bar_counts e \<and> su_bar_count_session e' = su_bar_count_session e
    \<and> su_onl_sweep_state e' = su_onl_sweep_state e \<and> su_dbl_first_bottom e' = su_dbl_first_bottom e"
  using assms
proof (induction ts arbitrary: e out)
  case (Cons t ts)
  obtain e1 out1 where st: "scan_one mk_id gc s sn ms ev (e, out) t = (e1, out1)" by fastforce
  then have "e1 = e \<or> e1 = fst (open_setup mk_id e s t sn ms ev)"
    by (auto simp: scan_one_def split: if_splits prod.splits)
  with Cons.IH [of e1 out1] Cons.prems st show ?case by auto
qed simp

lemma roll_frame:
  assumes "roll_session_if_needed cal e s ts = (e', out)"
  shows "su_onl_sweep_state e' = su_onl_sweep_state e \<and> su_dbl_first_bottom e' = su_dbl_first_bottom e
    \<and> su_session_keys e' = (su_session_keys e)(s \<mapsto> session_key cal ts)
    \<and> (su_bar_count_session e = su_session_keys e \<longrightarrow> su_bar_count_session e' = su_session_keys e')"
proof -
  define I where "I st \<longleftrightarrow> su_onl_sweep_state (fst st) = su_onl_sweep_state e
    \<and> su_dbl_first_bottom (fst st) = su_dbl_first_bottom e \<and> su_session_keys (fst st) = su_session_keys e
    \<and> su_bar_count_session (fst st) = su_bar_count_session e" for st :: "setup_engine \<times> setup_event list"
  have "I (foldl (expire_one s ts) (e, []) (su_active e s))"
    by (rule foldl_invariant) (auto simp: I_def expire_one_def Let_def split: prod.split)
  with assms show ?thesis
    by (auto simp: roll_session_if_needed_def I_def Let_def split: if_splits prod.splits option.splits)
qed

lemma count_bar_synced:
  "su_bar_count_session e = su_session_keys e \<Longrightarrow>
   count_bar e s = e\<lparr>su_bar_counts := (su_bar_counts e)(s \<mapsto> bar_count e s + 1)\<rparr>"
  by (simp add: count_bar_def)

lemma process_bar_key_level_state:
  assumes "su_bar_count_session e = su_session_keys e"
    and "setup_process_bar cal mk_id gc e sn ms b = (e', out)"
  shows "su_bar_count_session e' = su_session_keys e'"
    "su_onl_sweep_state e' = su_onl_sweep_state e" "su_dbl_first_bottom e' = su_dbl_first_bottom e"
proof -
  let ?s = "bb_symbol b" and ?ev = "to_bar_event b"
  obtain e1 o1 where r: "roll_session_if_needed cal e ?s (be_timestamp ?ev) = (e1, o1)" by fastforce
  obtain e2 o2 where sc: "scan_for_setups mk_id gc (count_bar e1 ?s) ?s sn ms ?ev = (e2, o2)" by fastforce
  obtain e3 o3 rm where u: "foldl (update_one gc ?s sn ms) (e2, [], []) (su_active e2 ?s) = (e3, o3, rm)"
    by (metis prod_cases3)
  have e': "e' = foldl (close_setup ?s) e3 rm"
    using assms(2) r sc u by (simp add: setup_process_bar_def update_active_setups_def Let_def)
  note frames = roll_frame [OF r] scan_fold_frame [OF sc [unfolded scan_for_setups_def]] update_fold_frame [OF u]
  from frames assms(1) show "su_bar_count_session e' = su_session_keys e'"
    "su_onl_sweep_state e' = su_onl_sweep_state e" "su_dbl_first_bottom e' = su_dbl_first_bottom e"
    by (simp_all add: e' close_fold_frame count_bar_synced)
qed

section \<open>Types that are never detected\<close>

definition KEY_LEVEL_TYPES :: "setup_type set" where
  "KEY_LEVEL_TYPES = {Setup_ONL_SWEEP_RECLAIM_LONG, Setup_DOUBLE_BOTTOM_RECLAIM_LONG}"

text \<open>
  No active setup has one of the types \<open>T\<close>; a snapshot is silent about them when, with empty tracking tables,
  it gives a reason against each.
\<close>

definition no_types :: "setup_type set \<Rightarrow> setup_engine \<Rightarrow> bool" where
  "no_types T e \<longleftrightarrow> (\<forall>s k su. (k, su) \<in> set (su_active e s) \<longrightarrow> ts_setup_type su \<notin> T)"

definition silent :: "setup_type set \<Rightarrow> context_lookup \<Rightarrow> bar_snapshot \<Rightarrow> bool" where
  "silent T gc sn \<longleftrightarrow>
     (\<forall>e. su_onl_sweep_state e = Map.empty \<longrightarrow> su_dbl_first_bottom e = Map.empty \<longrightarrow>
        (\<forall>t \<in> T. detector_reason gc e t sn \<noteq> None))"

lemma key_levels_silent: "silent KEY_LEVEL_TYPES gc sn"
  by (auto simp: silent_def KEY_LEVEL_TYPES_def detector_reason_def reason_onl_sweep_reclaim_long_def
      reason_double_bottom_reclaim_long_def split: option.splits if_splits)

lemma scan_opens:
  assumes "scan_one mk_id gc s sn ms ev (e, out) t = (e', out')"
  obtains "e' = e" "out' = out"
  | ev' where "detector_reason gc e t sn = None" "\<not> has_active e s t" "\<not> cooling_down e s t"
      "session_allows_detection sn" "open_setup mk_id e s t sn ms ev = (e', ev')" "out' = out @ [ev']"
  using assms by (auto simp: scan_one_def split: if_splits prod.splits)

lemma new_setup_simps [simp]:
  "ts_setup_id (new_setup mk_id s t sn ms ev) = mk_id s t (be_timestamp ev)"
  "ts_symbol (new_setup mk_id s t sn ms ev) = s" "ts_setup_type (new_setup mk_id s t sn ms ev) = t"
  "ts_state (new_setup mk_id s t sn ms ev) = SState_FORMING"
  "ts_bar_snapshot (new_setup mk_id s t sn ms ev) = sn"
  by (simp_all add: new_setup_def Let_def)

lemma open_setup_cases:
  assumes "open_setup mk_id e s t sn ms ev = (e', ev')"
  obtains su where "ts_setup_id su = mk_id s t (be_timestamp ev)" "ts_symbol su = s" "ts_setup_type su = t"
    "ts_state su = SState_FORMING" "ts_bar_snapshot su = sn"
    "su_active e' = (su_active e)(s := AList.update (ts_setup_id su) su (su_active e s))"
    "ev' = setup_emit su None"
    "su_session_contexts e' = su_session_contexts (record_setup e s su)"
  using assms
  by (intro that [of "new_setup mk_id s t sn ms ev"])
     (auto simp: open_setup_def Let_def record_setup_def split: option.splits)

lemma set_alist_update: "set (AList.update k v al) \<subseteq> insert (k, v) (set al)"
  by (induction al) auto

lemma setup_emit_simps [simp]:
  "sv_setup_type (setup_emit su prev) = ts_setup_type su" "sv_setup_state (setup_emit su prev) = ts_state su"
  "sv_prev_state (setup_emit su prev) = prev" "sv_symbol (setup_emit su prev) = ts_symbol su"
  by (simp_all add: setup_emit_def)

lemma no_types_upd:
  assumes "no_types T e" "ts_setup_type su \<notin> T"
    and act: "su_active e' = (su_active e)(s := AList.update k su (su_active e s))"
  shows "no_types T e'"
  unfolding no_types_def
proof (intro allI impI)
  fix s' k' su' assume p: "(k', su') \<in> set (su_active e' s')"
  then have "(k', su') = (k, su) \<or> (k', su') \<in> set (su_active e s')"
    using set_alist_update [of k su "su_active e s"] act by (cases "s' = s") auto
  with assms(1,2) show "ts_setup_type su' \<notin> T" by (auto simp: no_types_def)
qed

lemma scan_types:
  assumes "foldl (scan_one mk_id gc s sn ms ev) (e, out) ts = (e', out')"
    and "su_onl_sweep_state e = Map.empty" "su_dbl_first_bottom e = Map.empty" "no_types T e"
    and "\<forall>x \<in> set out. sv_setup_type x \<notin> T" and sil: "silent T gc sn"
  shows "no_types T e' \<and> (\<forall>x \<in> set out'. sv_setup_type x \<notin> T)"
  using assms(1-5)
proof (induction ts arbitrary: e out)
  case (Cons t ts)
  obtain e1 out1 where st: "scan_one mk_id gc s sn ms ev (e, out) t = (e1, out1)" by fastforce
  have "no_types T e1 \<and> (\<forall>x \<in> set out1. sv_setup_type x \<notin> T)
      \<and> su_onl_sweep_state e1 = Map.empty \<and> su_dbl_first_bottom e1 = Map.empty"
    using st
  proof (cases rule: scan_opens)
    case (2 ev')
    have t: "t \<notin> T" using 2(1) Cons.prems(2,3) sil unfolding silent_def by blast
    from 2(5) show ?thesis
    proof (cases rule: open_setup_cases)
      case (1 su)
      have "no_types T e1" using Cons.prems(4) _ 1(6) by (rule no_types_upd) (use 1(3) t in simp)
      then show ?thesis
        using 1 2(5,6) t Cons.prems open_setup_frame [of mk_id e s t sn ms ev] by auto
    qed
  qed (use Cons.prems in simp)
  with Cons st show ?case by simp
qed simp

lemma update_types:
  assumes "foldl (update_one gc s sn ms) (e, out, rm) xs = (e', out', rm')" "no_types T e"
    and "\<forall>k su. (k, su) \<in> set xs \<longrightarrow> ts_setup_type su \<notin> T"
    and "\<forall>x \<in> set out. sv_setup_type x \<notin> T"
  shows "no_types T e' \<and> (\<forall>x \<in> set out'. sv_setup_type x \<notin> T)"
  using assms
proof (induction xs arbitrary: e out rm)
  case (Cons x xs)
  obtain k su where x: "x = (k, su)" by fastforce
  obtain e1 out1 rm1 where st: "update_one gc s sn ms (e, out, rm) x = (e1, out1, rm1)" by (metis prod_cases3)
  have "no_types T e1 \<and> (\<forall>x \<in> set out1. sv_setup_type x \<notin> T)"
  proof (rule update_one_cases [of gc su e sn ms s out rm k])
    fix fb updated e'
    assume a: "advance_state (onl_of gc (ts_symbol su)) (su_forming_bars e) su sn ms = (fb, updated)"
      and u: "update_one gc s sn ms (e, out, rm) (k, su) =
       (e', if ts_state updated = ts_state su then out else out @ [setup_emit updated (Some (ts_state su))],
        if ts_state updated \<in> RESOLVED_STATES then rm @ [k] else rm)"
      and act: "su_active e' = (if ts_state updated = ts_state su then su_active e
                     else (su_active e)(s := AList.update k updated (su_active e s)))"
    have t: "ts_setup_type updated \<notin> T"
      using advance_state_identity(3) [of "onl_of gc (ts_symbol su)" "su_forming_bars e" su sn ms] a x Cons.prems(3)
      by simp
    have "no_types T e'"
    proof (cases "ts_state updated = ts_state su")
      case True
      with act Cons.prems(2) show ?thesis by (simp add: no_types_def)
    next
      case False
      with no_types_upd [OF Cons.prems(2) t, of e' s k] act show ?thesis by simp
    qed
    with u t st x Cons.prems show ?thesis by (auto split: if_splits)
  qed
  with Cons st show ?case by simp
qed simp

definition types_idle :: "setup_type set \<Rightarrow> setup_engine \<Rightarrow> bool" where
  "types_idle T e \<longleftrightarrow>
     su_onl_sweep_state e = Map.empty \<and> su_dbl_first_bottom e = Map.empty \<and> no_types T e
     \<and> su_bar_count_session e = su_session_keys e"

lemma expire_fold:
  assumes "foldl (expire_one s ts) (e, out) xs = (e', out')"
  shows "su_active e' = su_active e" "set out' = set out \<union> (\<lambda>(k, su). setup_emit
    (setup_transition su SState_EXPIRED (Some (Because ''session_rolled'')) ts) (Some (ts_state su))) ` set xs"
  using assms by (induction xs arbitrary: e out) (auto simp: expire_one_def Let_def split: prod.splits)

lemma roll_types:
  assumes "roll_session_if_needed cal e s ts = (e', out)" "no_types T e"
  shows "no_types T e' \<and> (\<forall>x \<in> set out. sv_setup_type x \<notin> T)"
proof (cases "su_session_keys e s = Some (session_key cal ts)")
  case True
  with assms show ?thesis by (simp add: roll_session_if_needed_def)
next
  case False
  obtain e1 o1 where f: "foldl (expire_one s ts) (e, []) (su_active e s) = (e1, o1)" by fastforce
  with assms(1) False have "out = o1" "su_active e' = (su_active e1)(s := [])"
    by (auto simp: roll_session_if_needed_def Let_def split: option.splits)
  have "\<forall>x \<in> set o1. sv_setup_type x \<notin> T"
    using expire_fold(2) [OF f] assms(2) by (auto simp: no_types_def)
  moreover from \<open>su_active e' = _\<close> assms(2) have "no_types T e'"
    by (simp add: no_types_def expire_fold(1) [OF f])
  ultimately show ?thesis using \<open>out = o1\<close> by simp
qed

lemma process_bar_types:
  assumes "types_idle T e" "setup_process_bar cal mk_id gc e sn ms b = (e', out)" and sil: "silent T gc sn"
  shows "types_idle T e' \<and> (\<forall>x \<in> set out. sv_setup_type x \<notin> T)"
proof -
  let ?s = "bb_symbol b" and ?ev = "to_bar_event b"
  obtain e1 o1 where r: "roll_session_if_needed cal e ?s (be_timestamp ?ev) = (e1, o1)" by fastforce
  obtain e2 o2 where sc: "scan_for_setups mk_id gc (count_bar e1 ?s) ?s sn ms ?ev = (e2, o2)" by fastforce
  obtain e3 o3 rm where u: "foldl (update_one gc ?s sn ms) (e2, [], []) (su_active e2 ?s) = (e3, o3, rm)"
    by (metis prod_cases3)
  have e': "e' = foldl (close_setup ?s) e3 rm" "out = o1 @ o2 @ o3"
    using assms(2) r sc u by (simp_all add: setup_process_bar_def update_active_setups_def Let_def)
  from roll_types [OF r] roll_frame [OF r] assms(1)
  have 1: "types_idle T e1" "\<forall>x \<in> set o1. sv_setup_type x \<notin> T" by (simp_all add: types_idle_def)
  then have c: "types_idle T (count_bar e1 ?s)" by (simp add: types_idle_def count_bar_synced no_types_def)
  from scan_types [OF sc [unfolded scan_for_setups_def] _ _ _ _ sil] c
  have 2: "no_types T e2" "\<forall>x \<in> set o2. sv_setup_type x \<notin> T" by (simp_all add: types_idle_def)
  from update_types [OF u 2(1)] 2(1)
  have 3: "no_types T e3" "\<forall>x \<in> set o3. sv_setup_type x \<notin> T" by (simp_all add: no_types_def)
  from process_bar_key_level_state [OF _ assms(2)] assms(1)
  have "su_bar_count_session e' = su_session_keys e'" "su_onl_sweep_state e' = Map.empty" "su_dbl_first_bottom e' = Map.empty"
    by (simp_all add: types_idle_def)
  then show ?thesis
    using 1 2 3 by (auto simp: types_idle_def e' close_fold_frame no_types_def)
qed

lemma patch_cases:
  obtains "patch_setup_score e s k score grade met missing reasons penalties = (e, False)" "map_of (su_active e s) k = None"
  | su patched where "map_of (su_active e s) k = Some su"
      "patched = su\<lparr>ts_score := Some score, ts_grade := Some grade, ts_conditions_met := met,
                    ts_conditions_missing := missing, ts_score_reasons := reasons, ts_score_penalties := penalties\<rparr>"
      "patch_setup_score e s k score grade met missing reasons penalties =
         (record_setup (e\<lparr>su_active := (su_active e)(s := AList.update k patched (su_active e s))\<rparr>) s patched, True)"
  by (cases "map_of (su_active e s) k") (simp_all add: patch_setup_score_def Let_def)

lemma patch_types:
  assumes "types_idle T e"
  shows "types_idle T (fst (patch_setup_score e s k score grade met missing reasons penalties))"
proof (cases rule: patch_cases [of e s k score grade met missing reasons penalties])
  case (2 su patched)
  then have "(k, su) \<in> set (su_active e s)" by (simp add: map_of_SomeD)
  with assms have "ts_setup_type su \<notin> T" by (auto simp: types_idle_def no_types_def)
  with 2(2) have t: "ts_setup_type patched \<notin> T" by simp
  let ?e = "record_setup (e\<lparr>su_active := (su_active e)(s := AList.update k patched (su_active e s))\<rparr>) s patched"
  from assms have "no_types T e" by (simp add: types_idle_def)
  from no_types_upd [OF this t, of ?e s k] have "no_types T ?e" by simp
  with assms 2(3) show ?thesis by (simp add: types_idle_def)
qed (use assms in auto)

lemma step_key_level:
  assumes "types_idle KEY_LEVEL_TYPES e" "setup_step v e c = (e', out)"
  shows "types_idle KEY_LEVEL_TYPES e' \<and> (\<forall>x \<in> set out. sv_setup_type x \<notin> KEY_LEVEL_TYPES)"
proof (cases c)
  case (Setup_bar sn ms b)
  with process_bar_types [OF assms(1) _ key_levels_silent] assms(2) show ?thesis by simp
next
  case (Setup_patch s k score grade met missing reasons penalties)
  with patch_types [OF assms(1)] assms(2) show ?thesis by auto
qed

lemma run_key_level:
  "types_idle KEY_LEVEL_TYPES e \<Longrightarrow> setup_run v e cs = (e', out) \<Longrightarrow>
   types_idle KEY_LEVEL_TYPES e' \<and> (\<forall>x \<in> set out. sv_setup_type x \<notin> KEY_LEVEL_TYPES)"
proof (induction cs arbitrary: e out)
  case (Cons c cs)
  obtain e1 o1 where st: "setup_step v e c = (e1, o1)" by fastforce
  obtain o2 where "setup_run v e1 cs = (e', o2)" "out = o1 @ o2" using Cons.prems st by (auto split: prod.splits)
  with Cons.IH [of e1 o2] step_key_level [OF Cons.prems(1) st] show ?case by auto
qed simp

lemma types_idle_init: "types_idle T setup_engine_init"
  by (simp add: types_idle_def setup_engine_init_def no_types_def)

text \<open>
  The overnight-low sweep and the double bottom are never detected: the scan asks only the
  functions that read their tracking state, the methods that write it are called from nowhere. Over
  any sequence of bars and patches, of any symbols and with any context, no event of either type
  is published, no such setup is active and the tracking tables stay empty.
\<close>

theorem key_level_setups_never_appear:
  "list_all (\<lambda>x. sv_setup_type x \<noteq> Setup_ONL_SWEEP_RECLAIM_LONG
       \<and> sv_setup_type x \<noteq> Setup_DOUBLE_BOTTOM_RECLAIM_LONG) (snd (setup_run v setup_engine_init cs))
   \<and> su_onl_sweep_state (fst (setup_run v setup_engine_init cs)) = Map.empty
   \<and> su_dbl_first_bottom (fst (setup_run v setup_engine_init cs)) = Map.empty"
proof -
  from run_key_level [OF types_idle_init, of v cs "fst (setup_run v setup_engine_init cs)" "snd (setup_run v setup_engine_init cs)"]
  show ?thesis by (simp add: types_idle_def KEY_LEVEL_TYPES_def list_all_iff)
qed

section \<open>The table of active setups\<close>

text \<open>
  The table of a symbol: keys are the setups' identifiers, no type occurs twice, and only forming
  setups and confirmed ones with their prices are in it.
\<close>

definition table_shape :: "string \<Rightarrow> (uuid \<times> trade_setup) list \<Rightarrow> bool" where
  "table_shape s t \<longleftrightarrow>
     distinct (map fst t) \<and> distinct (map (ts_setup_type \<circ> snd) t)
     \<and> list_all (\<lambda>(k, su). ts_setup_id su = k \<and> ts_symbol su = s) t"

definition table_live :: "(uuid \<times> trade_setup) list \<Rightarrow> bool" where
  "table_live t \<longleftrightarrow> list_all (\<lambda>(k, su). live_setup su) t"

lemma map_type_update:
  "map_of t k = Some old \<Longrightarrow> ts_setup_type su = ts_setup_type old \<Longrightarrow>
   map (ts_setup_type \<circ> snd) (AList.update k su t) = map (ts_setup_type \<circ> snd) t"
  by (induction t) (auto split: if_splits)

lemma map_fst_update_old: "k \<in> fst ` set t \<Longrightarrow> map fst (AList.update k su t) = map fst t"
  by (induction t) auto

lemma list_all_alist_update: "list_all P t \<Longrightarrow> P (k, v) \<Longrightarrow> list_all P (AList.update k v t)"
  by (induction t) auto

lemma table_shape_replace:
  assumes "table_shape s t" "map_of t k = Some old" "ts_setup_type su = ts_setup_type old" "ts_setup_id su = k" "ts_symbol su = s"
  shows "table_shape s (AList.update k su t)"
proof -
  have "k \<in> fst ` set t" using assms(2) by (force dest: map_of_SomeD)
  then show ?thesis
    using assms set_alist_update [of k su t]
    by (auto simp: table_shape_def map_type_update map_fst_update_old list_all_iff)
qed

lemma types_update_new:
  "set (map (ts_setup_type \<circ> snd) (AList.update k su t)) \<subseteq> insert (ts_setup_type su) (set (map (ts_setup_type \<circ> snd) t))"
  by (induction t) auto

lemma distinct_update_new:
  "distinct (map (ts_setup_type \<circ> snd) t) \<Longrightarrow> ts_setup_type su \<notin> set (map (ts_setup_type \<circ> snd) t) \<Longrightarrow>
   distinct (map (ts_setup_type \<circ> snd) (AList.update k su t))"
proof (induction t)
  case (Cons p t)
  then show ?case using types_update_new [of k su t] by (cases p) auto
qed simp

lemma table_shape_open:
  assumes "table_shape s t" "\<not> list_ex (\<lambda>x. ts_setup_type x = ts_setup_type su) (map snd t)"
    "ts_setup_id su = k" "ts_symbol su = s"
  shows "table_shape s (AList.update k su t)"
proof -
  have "ts_setup_type su \<notin> set (map (ts_setup_type \<circ> snd) t)"
    using assms(2) by (auto simp: list_ex_iff)
  then have "distinct (map (ts_setup_type \<circ> snd) (AList.update k su t))"
    using assms(1) by (intro distinct_update_new) (simp_all add: table_shape_def)
  moreover have "distinct (map fst (AList.update k su t))"
    using assms(1) by (simp add: table_shape_def distinct_update)
  ultimately show ?thesis
    using assms set_alist_update [of k su t] by (auto simp: table_shape_def list_all_iff)
qed

lemma table_shape_filter: "table_shape s t \<Longrightarrow> table_shape s (filter P t)"
  by (auto simp: table_shape_def list_all_iff distinct_map_filter)

lemma scan_shape:
  assumes "foldl (scan_one mk_id gc s sn ms ev) (e, out) ts = (e', out')"
    and "table_shape s (su_active e s)" "table_live (su_active e s)"
  shows "table_shape s (su_active e' s) \<and> table_live (su_active e' s)
    \<and> (\<forall>s'. s' \<noteq> s \<longrightarrow> su_active e' s' = su_active e s')
    \<and> (\<forall>x \<in> set out'. x \<in> set out \<or> sv_prev_state x = None \<and> sv_setup_state x = SState_FORMING)"
  using assms
proof (induction ts arbitrary: e out)
  case (Cons t ts)
  obtain e1 out1 where st: "scan_one mk_id gc s sn ms ev (e, out) t = (e1, out1)" by fastforce
  have "table_shape s (su_active e1 s) \<and> table_live (su_active e1 s)
    \<and> (\<forall>s'. s' \<noteq> s \<longrightarrow> su_active e1 s' = su_active e s')
    \<and> (\<forall>x \<in> set out1. x \<in> set out \<or> sv_prev_state x = None \<and> sv_setup_state x = SState_FORMING)"
    using st
  proof (cases rule: scan_opens)
    case (2 ev')
    from 2(5) show ?thesis
    proof (cases rule: open_setup_cases)
      case (1 su)
      have "table_shape s (AList.update (ts_setup_id su) su (su_active e s))"
        using Cons.prems(2) 2(2) 1(2,3) by (intro table_shape_open) (simp_all add: has_active_def active_setups_def)
      moreover have "table_live (AList.update (ts_setup_id su) su (su_active e s))"
        using Cons.prems(3) 1(4) set_alist_update [of "ts_setup_id su" su "su_active e s"]
        by (auto simp: table_live_def list_all_iff live_setup_def)
      ultimately show ?thesis using 1 2(6) by simp
    qed
  qed (use Cons.prems in simp)
  with Cons st show ?case by fastforce
qed simp

lemma update_shape:
  assumes "foldl (update_one gc s sn ms) (e, out, rm) xs = (e', out', rm')"
    and "table_shape s (su_active e s)" "list_all (\<lambda>(k, su). live_setup su \<or> k \<in> set rm) (su_active e s)"
    and "distinct (map fst xs)" "\<forall>(k, su) \<in> set xs. map_of (su_active e s) k = Some su \<and> live_setup su"
  shows "table_shape s (su_active e' s)
    \<and> list_all (\<lambda>(k, su). live_setup su \<or> k \<in> set rm') (su_active e' s)
    \<and> (\<forall>x \<in> set out'. x \<in> set out \<or> (\<exists>p. sv_prev_state x = Some p \<and> setup_moves p (sv_setup_state x)))"
  using assms
proof (induction xs arbitrary: e out rm)
  case (Cons x xs)
  obtain k su where x: "x = (k, su)" by fastforce
  with Cons.prems(5) have su: "map_of (su_active e s) k = Some su" "live_setup su" by auto
  then have keys: "ts_setup_id su = k" "ts_symbol su = s"
    using Cons.prems(2) by (auto simp: table_shape_def list_all_iff dest!: map_of_SomeD)
  obtain e1 out1 rm1 where st: "update_one gc s sn ms (e, out, rm) x = (e1, out1, rm1)" by (metis prod_cases3)
  have step: "table_shape s (su_active e1 s)
    \<and> list_all (\<lambda>(k, su). live_setup su \<or> k \<in> set rm1) (su_active e1 s)
    \<and> (\<forall>k'. k' \<noteq> k \<longrightarrow> map_of (su_active e1 s) k' = map_of (su_active e s) k')
    \<and> (\<forall>x \<in> set out1. x \<in> set out \<or> (\<exists>p. sv_prev_state x = Some p \<and> setup_moves p (sv_setup_state x)))"
  proof (rule update_one_cases [of gc su e sn ms s out rm k])
    fix fb updated e'
    assume a: "advance_state (onl_of gc (ts_symbol su)) (su_forming_bars e) su sn ms = (fb, updated)"
      and adv: "advanced su sn updated"
      and u: "update_one gc s sn ms (e, out, rm) (k, su) =
       (e', if ts_state updated = ts_state su then out else out @ [setup_emit updated (Some (ts_state su))],
        if ts_state updated \<in> RESOLVED_STATES then rm @ [k] else rm)"
      and act: "su_active e' = (if ts_state updated = ts_state su then su_active e
                     else (su_active e)(s := AList.update k updated (su_active e s)))"
    have "updated = snd (advance_state (onl_of gc (ts_symbol su)) (su_forming_bars e) su sn ms)"
      using a by (metis snd_conv)
    then have same: "ts_setup_id updated = k" "ts_symbol updated = s" "ts_setup_type updated = ts_setup_type su"
      using advance_state_identity [of "onl_of gc (ts_symbol su)" "su_forming_bars e" su sn ms] keys by metis+
    have live: "live_setup updated \<or> ts_state updated \<in> RESOLVED_STATES"
      using advanced_live [OF adv su(2)] by (auto simp: RESOLVED_STATES_def)
    have moved: "setup_moves (ts_state su) (ts_state updated)" if "ts_state updated \<noteq> ts_state su"
      using advanced_moves [OF adv] that by auto
    have unresolved: "ts_state updated \<notin> RESOLVED_STATES" if "ts_state updated = ts_state su"
      using that su(2) by (auto simp: live_setup_def RESOLVED_STATES_def)
    show ?thesis
    proof (cases "ts_state updated = ts_state su")
      case True
      then show ?thesis using u act st x Cons.prems unresolved by auto
    next
      case False
      have "table_shape s (AList.update k updated (su_active e s))"
        using Cons.prems(2) su(1) same by (intro table_shape_replace)
      moreover have "list_all (\<lambda>(k, su). live_setup su \<or> k \<in> set rm1) (AList.update k updated (su_active e s))"
      proof (rule list_all_alist_update)
        show "list_all (\<lambda>(k, su). live_setup su \<or> k \<in> set rm1) (su_active e s)"
          using Cons.prems(3) u st x by (auto simp: list_all_iff split: if_splits)
        show "case (k, updated) of (k, su) \<Rightarrow> live_setup su \<or> k \<in> set rm1"
          using live u st x by (auto split: if_splits)
      qed
      ultimately show ?thesis using False u act st x moved by (auto simp: update_conv')
    qed
  qed
  have rest: "\<forall>(k', su') \<in> set xs. map_of (su_active e1 s) k' = Some su' \<and> live_setup su'"
  proof (clarify)
    fix k' su' assume a: "(k', su') \<in> set xs"
    with Cons.prems(4) x have "k' \<noteq> k" by force
    with a step Cons.prems(5) show "map_of (su_active e1 s) k' = Some su' \<and> live_setup su'" by auto
  qed
  have "foldl (update_one gc s sn ms) (e1, out1, rm1) xs = (e', out', rm')" using Cons.prems(1) st by simp
  moreover have "distinct (map fst xs)" using Cons.prems(4) by simp
  ultimately have "table_shape s (su_active e' s)
    \<and> list_all (\<lambda>(k, su). live_setup su \<or> k \<in> set rm') (su_active e' s)
    \<and> (\<forall>x \<in> set out'. x \<in> set out1 \<or> (\<exists>p. sv_prev_state x = Some p \<and> setup_moves p (sv_setup_state x)))"
    using step rest by (intro Cons.IH) blast+
  with step show ?case by blast
qed auto

lemma map_of_self: "distinct (map fst t) \<Longrightarrow> \<forall>(k, su) \<in> set t. map_of t k = Some su"
  by (auto simp: map_of_eq_Some_iff)

lemma update_active_shape:
  assumes "update_active_setups gc e s sn ms = (e', out)"
    and "table_shape s (su_active e s)" "table_live (su_active e s)"
  shows "table_shape s (su_active e' s) \<and> table_live (su_active e' s)
    \<and> (\<forall>s'. s' \<noteq> s \<longrightarrow> su_active e' s' = su_active e s')
    \<and> (\<forall>x \<in> set out. \<exists>p. sv_prev_state x = Some p \<and> setup_moves p (sv_setup_state x))"
proof -
  obtain e1 out1 rm where u: "foldl (update_one gc s sn ms) (e, [], []) (su_active e s) = (e1, out1, rm)"
    by (metis prod_cases3)
  with assms(1) have e': "e' = foldl (close_setup s) e1 rm" "out = out1" by (simp_all add: update_active_setups_def)
  have d: "distinct (map fst (su_active e s))" using assms(2) by (simp add: table_shape_def)
  have "table_shape s (su_active e1 s)
    \<and> list_all (\<lambda>(k, su). live_setup su \<or> k \<in> set rm) (su_active e1 s)
    \<and> (\<forall>x \<in> set out1. \<exists>p. sv_prev_state x = Some p \<and> setup_moves p (sv_setup_state x))"
    using update_shape [OF u assms(2) _ d] map_of_self [OF d] assms(3)
    by (fastforce simp: table_live_def list_all_iff)
  moreover note update_fold_frame [OF u]
  ultimately show ?thesis
    by (auto simp: e' close_fold_frame table_shape_filter table_live_def list_all_iff)
qed

definition tables_ok :: "setup_engine \<Rightarrow> bool" where
  "tables_ok e \<longleftrightarrow> (\<forall>s. table_shape s (su_active e s) \<and> table_live (su_active e s))"

text \<open>A published change starts a setup, follows the lifecycle machine or expires a live setup.\<close>

definition event_ok :: "setup_event \<Rightarrow> bool" where
  "event_ok x \<longleftrightarrow>
     (case sv_prev_state x of
        None \<Rightarrow> sv_setup_state x = SState_FORMING
      | Some p \<Rightarrow> setup_moves p (sv_setup_state x)
                  \<or> sv_setup_state x = SState_EXPIRED \<and> p \<in> {SState_FORMING, SState_CONFIRMED})"

lemma tables_okI:
  "tables_ok e \<Longrightarrow> \<forall>s'. s' \<noteq> s \<longrightarrow> su_active e' s' = su_active e s' \<Longrightarrow>
   table_shape s (su_active e' s) \<Longrightarrow> table_live (su_active e' s) \<Longrightarrow> tables_ok e'"
  by (metis tables_ok_def)

lemma roll_tables:
  assumes "roll_session_if_needed cal e s ts = (e', out)" "tables_ok e"
  shows "tables_ok e' \<and> (\<forall>x \<in> set out. event_ok x)"
proof (cases "su_session_keys e s = Some (session_key cal ts)")
  case True
  with assms show ?thesis by (simp add: roll_session_if_needed_def)
next
  case False
  obtain e1 o1 where f: "foldl (expire_one s ts) (e, []) (su_active e s) = (e1, o1)" by fastforce
  with assms(1) False have "out = o1" "su_active e' = (su_active e1)(s := [])"
    by (auto simp: roll_session_if_needed_def Let_def split: option.splits)
  moreover have "event_ok x" if "x \<in> set o1" for x
    using that expire_fold(2) [OF f] assms(2)
    by (fastforce simp: event_ok_def tables_ok_def table_live_def list_all_iff live_setup_def)
  ultimately show ?thesis
    using assms(2) expire_fold(1) [OF f] by (auto simp: tables_ok_def table_shape_def table_live_def)
qed

lemma process_bar_tables:
  assumes "tables_ok e" "setup_process_bar cal mk_id gc e sn ms b = (e', out)"
  shows "tables_ok e' \<and> (\<forall>x \<in> set out. event_ok x)"
proof -
  let ?s = "bb_symbol b" and ?ev = "to_bar_event b"
  obtain e1 o1 where r: "roll_session_if_needed cal e ?s (be_timestamp ?ev) = (e1, o1)" by fastforce
  obtain e2 o2 where sc: "scan_for_setups mk_id gc (count_bar e1 ?s) ?s sn ms ?ev = (e2, o2)" by fastforce
  obtain o3 where u: "update_active_setups gc e2 ?s sn ms = (e', o3)" and out: "out = o1 @ o2 @ o3"
    using assms(2) r sc by (auto simp: setup_process_bar_def Let_def split: prod.splits)
  have c: "su_active (count_bar e1 ?s) = su_active e1" by (simp add: count_bar_def Let_def)
  note 1 = roll_tables [OF r assms(1)]
  then have t: "table_shape ?s (su_active (count_bar e1 ?s) ?s)" "table_live (su_active (count_bar e1 ?s) ?s)"
    by (simp_all add: c tables_ok_def)
  have 2: "tables_ok e2" "\<forall>x \<in> set o2. event_ok x"
    using scan_shape [OF sc [unfolded scan_for_setups_def] t] 1
    by (auto simp: c event_ok_def intro!: tables_okI [of e1 ?s e2])
  then have t: "table_shape ?s (su_active e2 ?s)" "table_live (su_active e2 ?s)"
    by (simp_all add: tables_ok_def)
  have "tables_ok e'" "\<forall>x \<in> set o3. event_ok x"
    using update_active_shape [OF u t] 2(1) by (fastforce simp: event_ok_def intro!: tables_okI [of e2 ?s e'])+
  with 1 2 show ?thesis by (auto simp: out)
qed

lemma step_tables:
  assumes "tables_ok e" "setup_step v e c = (e', out)"
  shows "tables_ok e' \<and> (\<forall>x \<in> set out. event_ok x)"
proof (cases c)
  case (Setup_bar sn ms b)
  with process_bar_tables assms show ?thesis by simp
next
  case (Setup_patch s k score grade met missing reasons penalties)
  show ?thesis
  proof (cases rule: patch_cases [of e s k score grade met missing reasons penalties])
    case (2 su patched)
    have t: "table_shape s (su_active e s)" "table_live (su_active e s)" using assms(1) by (simp_all add: tables_ok_def)
    have su: "ts_setup_id su = k" "ts_symbol su = s" "live_setup su"
      using t 2(1) by (auto simp: table_shape_def table_live_def list_all_iff dest!: map_of_SomeD)
    have "table_shape s (AList.update k patched (su_active e s))"
      using t(1) 2(1) su by (rule_tac table_shape_replace) (simp_all add: 2(2))
    moreover have "table_live (AList.update k patched (su_active e s))"
      using t(2) su(3) set_alist_update [of k patched "su_active e s"] 2(2)
      by (auto simp: table_live_def list_all_iff live_setup_def)
    ultimately show ?thesis using 2(3) assms Setup_patch by (auto simp: tables_ok_def)
  qed (use assms Setup_patch in auto)
qed

lemma run_tables:
  "tables_ok e \<Longrightarrow> setup_run v e cs = (e', out) \<Longrightarrow> tables_ok e' \<and> (\<forall>x \<in> set out. event_ok x)"
proof (induction cs arbitrary: e out)
  case (Cons c cs)
  obtain e1 o1 where st: "setup_step v e c = (e1, o1)" by fastforce
  obtain o2 where "setup_run v e1 cs = (e', o2)" "out = o1 @ o2" using Cons.prems st by (auto split: prod.splits)
  with Cons.IH [of e1 o2] step_tables [OF Cons.prems(1) st] show ?case by auto
qed simp

lemma tables_ok_init: "tables_ok setup_engine_init"
  by (simp add: tables_ok_def setup_engine_init_def table_shape_def table_live_def)

text \<open>
  C18. Whatever bars and patches arrive, the table of every symbol holds at most one setup of a type, keyed by
  its own identifier and filed under its own symbol, and only live ones: forming, or confirmed
  with entry, stop and target set. Every published event starts a setup, follows the lifecycle
  machine, or expires a live setup at the end of a session.
\<close>

theorem setup_tables_stay_well_formed:
  "table_shape s (su_active (fst (setup_run v setup_engine_init cs)) s)
   \<and> table_live (su_active (fst (setup_run v setup_engine_init cs)) s)
   \<and> list_all event_ok (snd (setup_run v setup_engine_init cs))"
  using run_tables [OF tables_ok_init, of v cs "fst (setup_run v setup_engine_init cs)" "snd (setup_run v setup_engine_init cs)"]
  by (simp add: tables_ok_def list_all_iff)

section \<open>The cooldown\<close>

text \<open>The part of the state that belongs to one symbol.\<close>

definition symbol_view where
  "symbol_view e s =
     (su_session_keys e s, su_bar_count_session e s, su_last_close_bar e s, su_bar_counts e s, su_active e s)"

lemma process_bar_parts:
  assumes "setup_process_bar cal mk_id gc e sn ms b = (e', out)"
  obtains e1 o1 e2 o2 e3 o3 rm where
    "roll_session_if_needed cal e (bb_symbol b) (be_timestamp (to_bar_event b)) = (e1, o1)"
    "foldl (scan_one mk_id gc (bb_symbol b) sn ms (to_bar_event b)) (count_bar e1 (bb_symbol b), []) DETECTORS = (e2, o2)"
    "foldl (update_one gc (bb_symbol b) sn ms) (e2, [], []) (su_active e2 (bb_symbol b)) = (e3, o3, rm)"
    "e' = foldl (close_setup (bb_symbol b)) e3 rm" "out = o1 @ o2 @ o3"
proof -
  let ?s = "bb_symbol b" and ?ev = "to_bar_event b"
  obtain e1 o1 where r: "roll_session_if_needed cal e ?s (be_timestamp ?ev) = (e1, o1)" by fastforce
  obtain e2 o2 where sc: "scan_for_setups mk_id gc (count_bar e1 ?s) ?s sn ms ?ev = (e2, o2)" by fastforce
  obtain e3 o3 rm where u: "foldl (update_one gc ?s sn ms) (e2, [], []) (su_active e2 ?s) = (e3, o3, rm)"
    by (metis prod_cases3)
  from assms r sc u have "e' = foldl (close_setup ?s) e3 rm" "out = o1 @ o2 @ o3"
    by (simp_all add: setup_process_bar_def update_active_setups_def Let_def)
  with that r sc u show ?thesis by (simp add: scan_for_setups_def)
qed

lemma close_fold_other:
  "s' \<noteq> s \<Longrightarrow> su_last_close_bar (foldl (close_setup s) e ks) s' = su_last_close_bar e s'"
  by (induction ks arbitrary: e) (simp_all add: close_setup_def Let_def split: option.split)

lemma close_fold_absent:
  "\<forall>(k, su) \<in> set (su_active e s). ts_setup_type su \<noteq> t \<Longrightarrow>
   su_last_close_bar (foldl (close_setup s) e ks) s t = su_last_close_bar e s t"
proof (induction ks arbitrary: e)
  case (Cons k ks)
  have "su_last_close_bar (close_setup s e k) s t = su_last_close_bar e s t"
    using Cons.prems by (auto simp: close_setup_def Let_def dest!: map_of_SomeD split: option.split)
  moreover have "\<forall>(k', su) \<in> set (su_active (close_setup s e k) s). ts_setup_type su \<noteq> t"
    using Cons.prems by (auto simp: AList.delete_eq)
  ultimately show ?case using Cons.IH by simp
qed simp

lemma scan_other:
  assumes "foldl (scan_one mk_id gc s sn ms ev) (e, out) ts = (e', out')" "s' \<noteq> s"
  shows "su_active e' s' = su_active e s'"
  using assms
proof (induction ts arbitrary: e out)
  case (Cons t ts)
  obtain e1 out1 where st: "scan_one mk_id gc s sn ms ev (e, out) t = (e1, out1)" by fastforce
  from st have "su_active e1 s' = su_active e s'"
  proof (cases rule: scan_opens)
    case (2 ev')
    from 2(5) show ?thesis by (cases rule: open_setup_cases) (use assms(2) in simp)
  qed simp
  with Cons st show ?case by simp
qed simp

lemma roll_other:
  assumes "roll_session_if_needed cal e s ts = (e', out)" "s' \<noteq> s"
  shows "symbol_view e' s' = symbol_view e s'"
proof -
  define I where "I st \<longleftrightarrow> (\<forall>s. symbol_view (fst st) s = symbol_view e s)" for st :: "setup_engine \<times> setup_event list"
  have "I (foldl (expire_one s ts) (e, []) (su_active e s))"
    by (rule foldl_invariant) (auto simp: I_def expire_one_def symbol_view_def Let_def split: prod.split)
  with assms show ?thesis
    by (auto simp: roll_session_if_needed_def I_def symbol_view_def Let_def split: if_splits prod.splits option.splits)
qed

lemma count_bar_other: "s' \<noteq> s \<Longrightarrow> symbol_view (count_bar e s) s' = symbol_view e s'"
  by (simp add: count_bar_def symbol_view_def bar_count_def Let_def)

lemma process_bar_other:
  assumes "setup_process_bar cal mk_id gc e sn ms b = (e', out)" "s' \<noteq> bb_symbol b"
  shows "symbol_view e' s' = symbol_view e s'"
  using assms(1)
proof (cases rule: process_bar_parts)
  case (1 e1 o1 e2 o2 e3 o3 rm)
  have "symbol_view e' s' = symbol_view (count_bar e1 (bb_symbol b)) s'"
    using scan_fold_frame [OF 1(2)] scan_other [OF 1(2) assms(2)] update_fold_frame [OF 1(3)] assms(2)
      close_fold_other [OF assms(2)]
    by (simp add: symbol_view_def 1(4) close_fold_frame)
  with count_bar_other [OF assms(2)] roll_other [OF 1(1) assms(2)] show ?thesis by simp
qed

text \<open>A type that is cooling down: not active, closed at bar \<open>c\<close> of session \<open>k\<close>, and at most \<open>n\<close> bars ago.\<close>

definition cooling :: "setup_engine \<Rightarrow> string \<Rightarrow> setup_type \<Rightarrow> date \<Rightarrow> int \<Rightarrow> int \<Rightarrow> bool" where
  "cooling e s t k c n \<longleftrightarrow>
     su_session_keys e s = Some k \<and> su_bar_count_session e s = Some k
     \<and> su_last_close_bar e s t = Some c \<and> bar_count e s \<le> c + n
     \<and> list_all (\<lambda>(k, su). ts_setup_type su \<noteq> t) (su_active e s)"

lemma cooling_view:
  "symbol_view e' s = symbol_view e s \<Longrightarrow> cooling e' s t k c n = cooling e s t k c n"
  by (simp add: cooling_def symbol_view_def bar_count_def get_default_def)

lemma scan_cooling:
  assumes "foldl (scan_one mk_id gc s sn ms ev) (e, out) ts = (e', out')" "cooling e s t k c n" "n < COOLDOWN_BARS"
    "\<forall>x \<in> set out. sv_setup_type x = t \<longrightarrow> sv_prev_state x \<noteq> None"
  shows "cooling e' s t k c n \<and> (\<forall>x \<in> set out'. sv_setup_type x = t \<longrightarrow> sv_prev_state x \<noteq> None)"
  using assms
proof (induction ts arbitrary: e out)
  case (Cons u ts)
  obtain e1 out1 where st: "scan_one mk_id gc s sn ms ev (e, out) u = (e1, out1)" by fastforce
  from st have "cooling e1 s t k c n \<and> (\<forall>x \<in> set out1. sv_setup_type x = t \<longrightarrow> sv_prev_state x \<noteq> None)"
  proof (cases rule: scan_opens)
    case (2 ev')
    have u: "u \<noteq> t" using 2(3) Cons.prems(2,3) by (auto simp: cooling_down_def cooling_def)
    have fr: "su_session_keys e1 = su_session_keys e" "su_bar_count_session e1 = su_bar_count_session e"
      "su_last_close_bar e1 = su_last_close_bar e" "su_bar_counts e1 = su_bar_counts e"
      using 2(5) open_setup_frame [of mk_id e s u sn ms ev] by simp_all
    from 2(5) show ?thesis
    proof (cases rule: open_setup_cases)
      case (1 su)
      have "list_all (\<lambda>(k, su). ts_setup_type su \<noteq> t) (AList.update (ts_setup_id su) su (su_active e s))"
        using Cons.prems(2) 1(3) u by (intro list_all_alist_update) (simp_all add: cooling_def)
      then show ?thesis using Cons.prems(2,4) fr 1 2(6) u by (auto simp: cooling_def bar_count_def)
    qed
  qed (use Cons.prems in simp)
  with Cons st show ?case by simp
qed simp

lemma update_cooling:
  assumes "foldl (update_one gc s sn ms) (e, out, rm) xs = (e', out', rm')"
    and "list_all (\<lambda>(k, su). ts_setup_type su \<noteq> t) (su_active e s)"
    and "list_all (\<lambda>(k, su). ts_setup_type su \<noteq> t) xs"
  shows "list_all (\<lambda>(k, su). ts_setup_type su \<noteq> t) (su_active e' s)"
  using assms
proof (induction xs arbitrary: e out rm)
  case (Cons x xs)
  obtain k su where x: "x = (k, su)" by fastforce
  obtain e1 out1 rm1 where st: "update_one gc s sn ms (e, out, rm) x = (e1, out1, rm1)" by (metis prod_cases3)
  have "list_all (\<lambda>(k, su). ts_setup_type su \<noteq> t) (su_active e1 s)"
  proof (rule update_one_cases [of gc su e sn ms s out rm k])
    fix fb updated e'
    assume a: "advance_state (onl_of gc (ts_symbol su)) (su_forming_bars e) su sn ms = (fb, updated)"
      and u: "update_one gc s sn ms (e, out, rm) (k, su) =
       (e', if ts_state updated = ts_state su then out else out @ [setup_emit updated (Some (ts_state su))],
        if ts_state updated \<in> RESOLVED_STATES then rm @ [k] else rm)"
      and act: "su_active e' = (if ts_state updated = ts_state su then su_active e
                     else (su_active e)(s := AList.update k updated (su_active e s)))"
    have "ts_setup_type updated \<noteq> t"
      using advance_state_identity(3) [of "onl_of gc (ts_symbol su)" "su_forming_bars e" su sn ms] a x Cons.prems(3)
      by simp
    then have "list_all (\<lambda>(k, su). ts_setup_type su \<noteq> t) (AList.update k updated (su_active e s))"
      using Cons.prems(2) by (intro list_all_alist_update) simp_all
    with act u st x Cons.prems(2) show ?thesis by auto
  qed
  with Cons st show ?case by simp
qed simp

lemma update_fold_events:
  assumes "foldl (update_one gc s sn ms) (e, out, rm) xs = (e', out', rm')"
  shows "(\<forall>x \<in> set out'. x \<in> set out \<or>
           sv_prev_state x \<noteq> None
           \<and> (sv_setup_state x \<in> RESOLVED_STATES \<longrightarrow> (\<exists>(k, su) \<in> set xs. k \<in> set rm' \<and> ts_setup_type su = sv_setup_type x)))
         \<and> set rm \<subseteq> set rm'"
  using assms
proof (induction xs arbitrary: e out rm)
  case (Cons x xs)
  obtain k su where x: "x = (k, su)" by fastforce
  obtain e1 out1 rm1 where st: "update_one gc s sn ms (e, out, rm) x = (e1, out1, rm1)" by (metis prod_cases3)
  have step: "\<forall>y \<in> set out1. y \<in> set out \<or> sv_prev_state y \<noteq> None
      \<and> (sv_setup_state y \<in> RESOLVED_STATES \<longrightarrow> k \<in> set rm1 \<and> ts_setup_type su = sv_setup_type y)"
    "set rm \<subseteq> set rm1"
  proof (atomize (full), rule update_one_cases [of gc su e sn ms s out rm k])
    fix fb updated e'
    assume a: "advance_state (onl_of gc (ts_symbol su)) (su_forming_bars e) su sn ms = (fb, updated)"
      and u: "update_one gc s sn ms (e, out, rm) (k, su) =
       (e', if ts_state updated = ts_state su then out else out @ [setup_emit updated (Some (ts_state su))],
        if ts_state updated \<in> RESOLVED_STATES then rm @ [k] else rm)"
    have "ts_setup_type updated = ts_setup_type su"
      using advance_state_identity(3) [of "onl_of gc (ts_symbol su)" "su_forming_bars e" su sn ms] a by simp
    with u st x show "(\<forall>y \<in> set out1. y \<in> set out \<or> sv_prev_state y \<noteq> None
      \<and> (sv_setup_state y \<in> RESOLVED_STATES \<longrightarrow> k \<in> set rm1 \<and> ts_setup_type su = sv_setup_type y))
      \<and> set rm \<subseteq> set rm1" by (auto split: if_splits)
  qed
  have "foldl (update_one gc s sn ms) (e1, out1, rm1) xs = (e', out', rm')" using Cons.prems st by simp
  note ih = Cons.IH [OF this]
  then have rm: "set rm1 \<subseteq> set rm'" by blast
  show ?case
  proof (intro conjI ballI)
    fix y assume "y \<in> set out'"
    with ih consider "y \<in> set out1"
      | "sv_prev_state y \<noteq> None" "sv_setup_state y \<in> RESOLVED_STATES \<longrightarrow>
          (\<exists>(k, su) \<in> set xs. k \<in> set rm' \<and> ts_setup_type su = sv_setup_type y)" by blast
    then show "y \<in> set out \<or> sv_prev_state y \<noteq> None \<and> (sv_setup_state y \<in> RESOLVED_STATES \<longrightarrow>
        (\<exists>(k, su) \<in> set (x # xs). k \<in> set rm' \<and> ts_setup_type su = sv_setup_type y))"
      by cases (use step(1) rm x in auto)
  qed (use rm step(2) in blast)
qed simp

lemma process_bar_cooling:
  assumes "setup_process_bar cal mk_id gc e sn ms b = (e', out)" "bb_symbol b = s"
    and "session_key cal (be_timestamp (to_bar_event b)) = k" "cooling e s t k c n" "n + 1 < COOLDOWN_BARS"
  shows "cooling e' s t k c (n + 1) \<and> (\<forall>x \<in> set out. sv_setup_type x = t \<longrightarrow> sv_prev_state x \<noteq> None)"
  using assms(1)
proof (cases rule: process_bar_parts)
  case (1 e1 o1 e2 o2 e3 o3 rm)
  have e1: "e1 = e" "o1 = []" using 1(1) assms(2,3,4) by (simp_all add: roll_session_if_needed_def cooling_def)
  then have "cooling (count_bar e1 s) s t k c (n + 1)"
    using assms(4) by (simp add: cooling_def count_bar_def bar_count_def get_default_def Let_def)
  then have 2: "cooling e2 s t k c (n + 1)" "\<forall>x \<in> set o2. sv_setup_type x = t \<longrightarrow> sv_prev_state x \<noteq> None"
    using scan_cooling [OF 1(2) [unfolded assms(2)] _ assms(5)] by simp_all
  note frame = update_fold_frame [OF 1(3) [unfolded assms(2)]]
  have "list_all (\<lambda>(k, su). ts_setup_type su \<noteq> t) (su_active e3 s)"
    using update_cooling [OF 1(3) [unfolded assms(2)]] 2(1) by (simp add: cooling_def)
  then have "cooling e' s t k c (n + 1)"
    using 2(1) frame close_fold_absent [of e3 s t rm]
    by (auto simp: cooling_def 1(4) assms(2) close_fold_frame bar_count_def list_all_iff)
  moreover have "\<forall>x \<in> set o3. sv_prev_state x \<noteq> None"
    using update_fold_events [OF 1(3)] by auto
  ultimately show ?thesis using 2(2) e1 by (auto simp: 1(5))
qed

definition typed_keys :: "(uuid \<times> trade_setup) list \<Rightarrow> (uuid \<times> setup_type) list" where
  "typed_keys t = map (\<lambda>(k, su). (k, ts_setup_type su)) t"

lemma typed_keys_update:
  "map_of (typed_keys t) k = Some (ts_setup_type su) \<Longrightarrow> typed_keys (AList.update k su t) = typed_keys t"
  by (induction t) (auto simp: typed_keys_def split: if_splits)

lemma update_fold_keeps:
  assumes "foldl (update_one gc s sn ms) (e, out, rm) xs = (e', out', rm')"
    and "\<forall>(k, su) \<in> set xs. map_of (typed_keys (su_active e s)) k = Some (ts_setup_type su)"
  shows "typed_keys (su_active e' s) = typed_keys (su_active e s)"
  using assms
proof (induction xs arbitrary: e out rm)
  case (Cons x xs)
  obtain k su where x: "x = (k, su)" by fastforce
  obtain e1 out1 rm1 where st: "update_one gc s sn ms (e, out, rm) x = (e1, out1, rm1)" by (metis prod_cases3)
  have "typed_keys (su_active e1 s) = typed_keys (su_active e s)"
  proof (rule update_one_cases [of gc su e sn ms s out rm k])
    fix fb updated e'
    assume a: "advance_state (onl_of gc (ts_symbol su)) (su_forming_bars e) su sn ms = (fb, updated)"
      and u: "update_one gc s sn ms (e, out, rm) (k, su) =
       (e', if ts_state updated = ts_state su then out else out @ [setup_emit updated (Some (ts_state su))],
        if ts_state updated \<in> RESOLVED_STATES then rm @ [k] else rm)"
      and act: "su_active e' = (if ts_state updated = ts_state su then su_active e
                     else (su_active e)(s := AList.update k updated (su_active e s)))"
    have "ts_setup_type updated = ts_setup_type su"
      using advance_state_identity(3) [of "onl_of gc (ts_symbol su)" "su_forming_bars e" su sn ms] a by simp
    then have "typed_keys (AList.update k updated (su_active e s)) = typed_keys (su_active e s)"
      using Cons.prems(2) x by (intro typed_keys_update) simp
    with act u st x show ?thesis by auto
  qed
  with Cons st show ?case by simp
qed simp

lemma close_fold_present:
  assumes "distinct (map fst (su_active e s))" "(k, su) \<in> set (su_active e s)" "k \<in> set ks" "ts_setup_type su = t"
  shows "su_last_close_bar (foldl (close_setup s) e ks) s t = Some (bar_count e s)"
  using assms
proof (induction ks arbitrary: e)
  case (Cons k' ks)
  have bc: "bar_count (close_setup s e k') s = bar_count e s" by (simp add: bar_count_def)
  show ?case
  proof (cases "k' = k")
    case True
    then have closed: "su_last_close_bar (close_setup s e k') s t = Some (bar_count e s)"
      using Cons.prems by (simp add: close_setup_def Let_def bar_count_def)
    define I where "I e' \<longleftrightarrow> su_last_close_bar e' s t = Some (bar_count e s) \<and> bar_count e' s = bar_count e s" for e'
    have "I (foldl (close_setup s) (close_setup s e k') ks)"
    proof (rule foldl_invariant)
      show "I (close_setup s e k')" by (simp add: I_def closed bc)
      show "I (close_setup s e' x)" if "I e'" for e' x
        using that by (auto simp: I_def close_setup_def Let_def bar_count_def split: option.split)
    qed
    then show ?thesis by (simp add: I_def)
  next
    case False
    have "su_last_close_bar (foldl (close_setup s) (close_setup s e k') ks) s t = Some (bar_count (close_setup s e k') s)"
    proof (rule Cons.IH)
      show "distinct (map fst (su_active (close_setup s e k') s))"
        using Cons.prems(1) by (simp add: AList.distinct_delete)
      show "(k, su) \<in> set (su_active (close_setup s e k') s)"
        using Cons.prems(2) False by (simp add: AList.delete_eq)
    qed (use Cons.prems False in simp_all)
    then show ?thesis by (simp add: bc)
  qed
qed simp

text \<open>A setup that resolves on a bar starts the cooldown of its type.\<close>

lemma process_bar_starts_cooling:
  assumes p: "setup_process_bar cal mk_id gc e sn ms b = (e', out)" and ok: "tables_ok e"
    and sync: "su_bar_count_session e = su_session_keys e"
    and x: "x \<in> set out" "sv_setup_state x \<in> {SState_TRIGGERED, SState_FAILED, SState_INVALIDATED}"
  shows "cooling e' (bb_symbol b) (sv_setup_type x) (session_key cal (be_timestamp (to_bar_event b)))
           (bar_count e' (bb_symbol b)) 0"
  using p
proof (cases rule: process_bar_parts)
  case (1 e1 o1 e2 o2 e3 o3 rm)
  let ?s = "bb_symbol b" and ?t = "sv_setup_type x" and ?k = "session_key cal (be_timestamp (to_bar_event b))"
  note roll = roll_tables [OF 1(1) ok]
  have c: "su_active (count_bar e1 ?s) = su_active e1" by (simp add: count_bar_def Let_def)
  have t1: "table_shape ?s (su_active (count_bar e1 ?s) ?s)" "table_live (su_active (count_bar e1 ?s) ?s)"
    using roll by (simp_all add: c tables_ok_def)
  note sc = scan_shape [OF 1(2) t1]
  have d2: "distinct (map fst (su_active e2 ?s))" using sc by (simp add: table_shape_def)
  have live2: "\<forall>(k, su) \<in> set (su_active e2 ?s). map_of (su_active e2 ?s) k = Some su \<and> live_setup su"
    using map_of_self [OF d2] sc by (auto simp: table_live_def list_all_iff)
  have shape3: "table_shape ?s (su_active e3 ?s)"
    using update_shape [OF 1(3) _ _ d2 live2] sc by (simp add: table_live_def list_all_iff case_prod_unfold)
  have "x \<notin> set o1"
  proof
    assume "x \<in> set o1"
    then have "sv_setup_state x = SState_EXPIRED"
      using 1(1) by (auto simp: roll_session_if_needed_def Let_def dest!: expire_fold(2) split: if_splits prod.splits option.splits)
    with x(2) show False by simp
  qed
  moreover have "x \<notin> set o2" using sc x(2) by auto
  ultimately have "x \<in> set o3" using x(1) by (simp add: 1(5))
  with update_fold_events [OF 1(3)] x(2) obtain k su
    where su: "(k, su) \<in> set (su_active e2 ?s)" "k \<in> set rm" "ts_setup_type su = ?t"
    by (auto simp: RESOLVED_STATES_def)
  have "\<forall>(k, su) \<in> set (su_active e2 ?s). map_of (typed_keys (su_active e2 ?s)) k = Some (ts_setup_type su)"
    using live2 by (auto simp: typed_keys_def map_of_map)
  from update_fold_keeps [OF 1(3) this] su(1,3) have "(k, ?t) \<in> set (typed_keys (su_active e3 ?s))"
    by (force simp: typed_keys_def)
  then obtain su3 where su3: "(k, su3) \<in> set (su_active e3 ?s)" "ts_setup_type su3 = ?t"
    by (auto simp: typed_keys_def)
  have d3: "distinct (map fst (su_active e3 ?s))" using shape3 by (simp add: table_shape_def)
  have "su_last_close_bar e' ?s ?t = Some (bar_count e3 ?s)"
    unfolding 1(4) by (rule close_fold_present [OF d3 su3(1) su(2) su3(2)])
  moreover have "bar_count e3 ?s = bar_count e' ?s" by (simp add: bar_count_def 1(4) close_fold_frame)
  moreover have "ts_setup_type su' \<noteq> ?t" if "(k', su') \<in> set (su_active e3 ?s)" "k' \<notin> set rm" for k' su'
  proof
    assume "ts_setup_type su' = ?t"
    moreover from shape3 have "inj_on (ts_setup_type \<circ> snd) (set (su_active e3 ?s))"
      by (simp add: table_shape_def distinct_map)
    ultimately have "(k', su') = (k, su3)"
      using inj_onD [of "ts_setup_type \<circ> snd" "set (su_active e3 ?s)" "(k', su')" "(k, su3)"] su3 that(1) by simp
    with that(2) su(2) show False by simp
  qed
  then have "list_all (\<lambda>(k, su). ts_setup_type su \<noteq> ?t) (su_active e' ?s)"
    by (auto simp: 1(4) close_fold_frame list_all_iff)
  moreover have "su_session_keys e' ?s = Some ?k" "su_bar_count_session e' ?s = Some ?k"
    using roll_frame [OF 1(1)] sync scan_fold_frame [OF 1(2)] update_fold_frame [OF 1(3)]
    by (simp_all add: 1(4) close_fold_frame count_bar_synced)
  ultimately show ?thesis by (simp add: cooling_def)
qed

fun is_bar_of :: "string \<Rightarrow> setup_cmd \<Rightarrow> bool" where
  "is_bar_of s (Setup_bar sn ms b) \<longleftrightarrow> bb_symbol b = s"
| "is_bar_of s _ \<longleftrightarrow> False"

fun cmd_in_session :: "setup_env \<Rightarrow> string \<Rightarrow> date \<Rightarrow> setup_cmd \<Rightarrow> bool" where
  "cmd_in_session v s k (Setup_bar sn ms b) \<longleftrightarrow>
     bb_symbol b = s \<longrightarrow> session_key (ve_calendar v s) (be_timestamp (to_bar_event b)) = k"
| "cmd_in_session v s k _ \<longleftrightarrow> True"

definition opens :: "string \<Rightarrow> setup_type \<Rightarrow> setup_event \<Rightarrow> bool" where
  "opens s t x \<longleftrightarrow> sv_symbol x = s \<and> sv_setup_type x = t \<and> sv_prev_state x = None"

lemma scan_fold_symbol:
  assumes "foldl (scan_one mk_id gc s sn ms ev) (e, out) ts = (e', out')" "\<forall>x \<in> set out. sv_symbol x = s"
  shows "\<forall>x \<in> set out'. sv_symbol x = s"
  using assms
proof (induction ts arbitrary: e out)
  case (Cons t ts)
  obtain e1 out1 where st: "scan_one mk_id gc s sn ms ev (e, out) t = (e1, out1)" by fastforce
  from st have "\<forall>x \<in> set out1. sv_symbol x = s"
  proof (cases rule: scan_opens)
    case (2 ev')
    from 2(5) show ?thesis by (cases rule: open_setup_cases) (use 2(6) Cons.prems in simp)
  qed (use Cons.prems in simp)
  with Cons st show ?case by simp
qed simp

lemma roll_events:
  assumes "roll_session_if_needed cal e s ts = (e', out)"
  shows "\<forall>x \<in> set out. sv_prev_state x \<noteq> None \<and> sv_setup_state x = SState_EXPIRED"
  using assms by (auto simp: roll_session_if_needed_def Let_def dest!: expire_fold(2) split: if_splits prod.splits option.splits)

lemma process_bar_opens_own:
  assumes "setup_process_bar cal mk_id gc e sn ms b = (e', out)"
  shows "\<forall>x \<in> set out. sv_prev_state x = None \<longrightarrow> sv_symbol x = bb_symbol b"
  using assms
proof (cases rule: process_bar_parts)
  case (1 e1 o1 e2 o2 e3 o3 rm)
  with roll_events [OF 1(1)] scan_fold_symbol [OF 1(2)] update_fold_events [OF 1(3)] show ?thesis by auto
qed

lemma run_cooling:
  assumes "setup_run v e cs = (e', out)" "cooling e s t k c n" "n + int (length (filter (is_bar_of s) cs)) < COOLDOWN_BARS"
    and "list_all (cmd_in_session v s k) cs"
  shows "\<forall>x \<in> set out. \<not> opens s t x"
  using assms
proof (induction cs arbitrary: e out n)
  case (Cons d cs)
  obtain e1 o1 where st: "setup_step v e d = (e1, o1)" by fastforce
  obtain o2 where r: "setup_run v e1 cs = (e', o2)" "out = o1 @ o2" using Cons.prems(1) st by (auto split: prod.splits)
  show ?case
  proof (cases d)
    case (Setup_bar sn ms b)
    have p: "setup_process_bar (ve_calendar v (bb_symbol b)) (ve_mk_id v) (ve_context v) e sn ms b = (e1, o1)"
      using st Setup_bar by simp
    show ?thesis
    proof (cases "bb_symbol b = s")
      case True
      have "cooling e1 s t k c (n + 1) \<and> (\<forall>x \<in> set o1. sv_setup_type x = t \<longrightarrow> sv_prev_state x \<noteq> None)"
        using Cons.prems(2,3,4) Setup_bar True by (intro process_bar_cooling [OF p True]) simp_all
      with Cons.IH [OF r(1), of "n + 1"] Cons.prems(3,4) Setup_bar True r(2) show ?thesis
        by (auto simp: opens_def)
    next
      case False
      have "cooling e1 s t k c n"
        using process_bar_other [OF p] False Cons.prems(2) cooling_view by metis
      with Cons.IH [OF r(1), of n] Cons.prems(3,4) Setup_bar False process_bar_opens_own [OF p] r(2)
      show ?thesis by (auto simp: opens_def)
    qed
  next
    case (Setup_patch s' k' score grade met missing reasons penalties)
    have "cooling e1 s t k c n"
    proof (cases rule: patch_cases [of e s' k' score grade met missing reasons penalties])
      case 1
      with st Setup_patch Cons.prems(2) show ?thesis by simp
    next
      case (2 su patched)
      have "list_all (\<lambda>(k, su). ts_setup_type su \<noteq> t) (AList.update k' patched (su_active e s))" if "s' = s"
        using Cons.prems(2) 2(1,2) that
        by (intro list_all_alist_update) (auto simp: cooling_def list_all_iff dest!: map_of_SomeD)
      with st Setup_patch Cons.prems(2) 2(3) show ?thesis by (auto simp: cooling_def bar_count_def)
    qed
    with Cons.IH [OF r(1), of n] Cons.prems(3,4) Setup_patch st r(2) show ?thesis by auto
  qed
qed simp

lemma run_synced:
  "su_bar_count_session e = su_session_keys e \<Longrightarrow> su_bar_count_session (fst (setup_run v e cs)) = su_session_keys (fst (setup_run v e cs))"
proof (induction cs arbitrary: e)
  case (Cons d cs)
  obtain e1 o1 where st: "setup_step v e d = (e1, o1)" by fastforce
  have "su_bar_count_session e1 = su_session_keys e1"
  proof (cases d)
    case (Setup_bar sn ms b)
    with process_bar_key_level_state(1) [OF Cons.prems] st show ?thesis by auto
  next
    case (Setup_patch s k score grade met missing reasons penalties)
    with st Cons.prems show ?thesis
      by (cases rule: patch_cases [of e s k score grade met missing reasons penalties]) auto
  qed
  with Cons.IH [of e1] st show ?case by (simp add: case_prod_unfold)
qed simp

text \<open>
  C19. A setup that triggers, fails or is invalidated keeps its type closed for the symbol: whatever
  happened before, over any later commands that bring at most nine bars of the symbol, all of
  the same session, no setup of that type is opened again, however strong the pattern. Bars of
  other symbols and score patches in between change nothing.
\<close>

theorem resolved_type_cools_down:
  assumes run: "setup_run v setup_engine_init cs = (e, before)"
    and bar: "setup_step v e (Setup_bar sn ms b) = (e', out)"
    and x: "x \<in> set out" "sv_setup_state x \<in> {SState_TRIGGERED, SState_FAILED, SState_INVALIDATED}"
    and later: "list_all (cmd_in_session v (bb_symbol b)
                  (session_key (ve_calendar v (bb_symbol b)) (be_timestamp (to_bar_event b)))) ds"
      "length (filter (is_bar_of (bb_symbol b)) ds) \<le> 9"
  shows "\<forall>y \<in> set (snd (setup_run v e' ds)). \<not> opens (bb_symbol b) (sv_setup_type x) y"
proof -
  have p: "setup_process_bar (ve_calendar v (bb_symbol b)) (ve_mk_id v) (ve_context v) e sn ms b = (e', out)"
    using bar by simp
  have sync: "su_bar_count_session e = su_session_keys e"
    using run_synced [of setup_engine_init v cs] run by (simp add: setup_engine_init_def)
  have "tables_ok e" using run_tables [OF tables_ok_init run] by simp
  from process_bar_starts_cooling [OF p this sync x]
  show ?thesis
    by (rule run_cooling [OF surjective_pairing]) (use later in \<open>simp_all add: COOLDOWN_BARS_def\<close>)
qed

text \<open>Three bars on one morning: a reclaim of VWAP opens and confirms a setup, the second bar triggers it.\<close>

definition sample_setup_env :: setup_env where
  "sample_setup_env =
     \<lparr>ve_calendar = \<lambda>_. nyse_calendar \<lparr>zn_to_et = id, zn_from_et = id\<rparr> (\<lambda>_. True), ve_mk_id = \<lambda>s t ts. s, ve_context = None\<rparr>"

definition sample_reclaim :: bar_snapshot where
  "sample_reclaim =
     reclaim_snapshot\<lparr>sn_vwap_cross_up := True, sn_vwap_cross_up_after_bars := 3, sn_vwap_deviation_pct := 1,
       sn_session_phase := Phase_MID\<rparr>"

definition sample_reclaim_bundle :: "timestamp \<Rightarrow> bar_bundle" where
  "sample_reclaim_bundle ts =
     \<lparr>bb_symbol = ''MNQ'', bb_timestamp = ts, bb_metadata = sample_metadata, bb_timeframe = TF_M1,
      bb_open = 100, bb_high = 102, bb_low = 99, bb_close = 101, bb_volume = 100, bb_vwap = None,
      bb_trade_count = None, bb_flow = None\<rparr>"

definition sample_setup_bar :: "timestamp \<Rightarrow> setup_cmd" where
  "sample_setup_bar ts = Setup_bar sample_reclaim plain_market_state (sample_reclaim_bundle ts)"

lemma sample_setup_triggers:
  "map (\<lambda>x. (sv_setup_type x, sv_setup_state x))
     (snd (setup_step sample_setup_env (fst (setup_run sample_setup_env setup_engine_init [sample_setup_bar 0])) (sample_setup_bar MINUTE)))
   = [(Setup_VWAP_RECLAIM, SState_TRIGGERED)]"
  by code_simp

lemma resolved_type_cools_down_witness:
  "list_all (\<lambda>y. \<not> opens ''MNQ'' Setup_VWAP_RECLAIM y)
     (snd (setup_run sample_setup_env
        (fst (setup_step sample_setup_env (fst (setup_run sample_setup_env setup_engine_init [sample_setup_bar 0])) (sample_setup_bar MINUTE)))
        [sample_setup_bar (2 * MINUTE)]))"
proof -
  let ?e = "fst (setup_run sample_setup_env setup_engine_init [sample_setup_bar 0])"
  let ?r = "setup_step sample_setup_env ?e (sample_setup_bar MINUTE)"
  obtain x where x: "x \<in> set (snd ?r)" "sv_setup_type x = Setup_VWAP_RECLAIM" "sv_setup_state x = SState_TRIGGERED"
    using sample_setup_triggers by (cases "snd ?r") auto
  have r: "setup_run sample_setup_env setup_engine_init [sample_setup_bar 0] =
      (?e, snd (setup_run sample_setup_env setup_engine_init [sample_setup_bar 0]))" by simp
  have st: "setup_step sample_setup_env ?e
      (Setup_bar sample_reclaim plain_market_state (sample_reclaim_bundle MINUTE)) = (fst ?r, snd ?r)"
    by (simp add: sample_setup_bar_def)
  have "\<forall>y \<in> set (snd (setup_run sample_setup_env (fst ?r) [sample_setup_bar (2 * MINUTE)])).
      \<not> opens (bb_symbol (sample_reclaim_bundle MINUTE)) (sv_setup_type x) y"
    by (rule resolved_type_cools_down [OF r st x(1)])
       (use x in \<open>simp_all add: sample_setup_bar_def sample_reclaim_bundle_def sample_setup_env_def to_bar_event_def
          session_key_def nyse_calendar_def date_of_def MINUTE_def DAY_def HOUR_def\<close>)
  then show ?thesis by (simp add: x sample_reclaim_bundle_def list_all_iff)
qed

end
