(* ===== verification/Scoring.thy ===== *)
theory Scoring
  imports Setup_Engine
begin

text \<open>
  The scoring engine, \<^verbatim>\<open>src/alpha/engines/scoring/engine.py\<close>: the point rubrics for short and long
  setups, the grade thresholds and caps, the handler of published confirmations and the pipeline
  stage that scores confirmed setups; both write into the setup engine. Grades are ordered from \<open>C\<close> up to \<open>SSS\<close>. The label of a
  rubric line is represented by the name of its condition, which identifies it.
\<close>

section \<open>Grades\<close>

definition SCORING_GRADE_ORDER :: "setup_grade list" where
  "SCORING_GRADE_ORDER = [Grade_C, Grade_B, Grade_A, Grade_A_PLUS, Grade_SSS]"

definition scoring_grade_index :: "setup_grade \<Rightarrow> nat" where
  "scoring_grade_index g = length (takeWhile (\<lambda>x. x \<noteq> g) SCORING_GRADE_ORDER)"

definition grade_from_score :: "int \<Rightarrow> setup_grade" where
  "grade_from_score score =
     (if score \<ge> 7 then Grade_SSS
      else if score \<ge> 5 then Grade_A_PLUS
      else if score \<ge> 3 then Grade_A
      else if score \<ge> 1 then Grade_B
      else Grade_C)"

definition apply_cap :: "setup_grade \<Rightarrow> setup_grade \<Rightarrow> setup_grade" where
  "apply_cap grade cap = SCORING_GRADE_ORDER ! min (scoring_grade_index grade) (scoring_grade_index cap)"

instantiation setup_grade :: linorder
begin

definition less_eq_setup_grade :: "setup_grade \<Rightarrow> setup_grade \<Rightarrow> bool" where
  "less_eq_setup_grade g h \<longleftrightarrow> scoring_grade_index g \<le> scoring_grade_index h"

definition less_setup_grade :: "setup_grade \<Rightarrow> setup_grade \<Rightarrow> bool" where
  "less_setup_grade g h \<longleftrightarrow> scoring_grade_index g < scoring_grade_index h"

instance
proof
  fix g h k :: setup_grade
  show "g < h \<longleftrightarrow> g \<le> h \<and> \<not> h \<le> g" by (auto simp: less_eq_setup_grade_def less_setup_grade_def)
  show "g \<le> g" by (simp add: less_eq_setup_grade_def)
  show "g \<le> h \<Longrightarrow> h \<le> k \<Longrightarrow> g \<le> k" by (simp add: less_eq_setup_grade_def)
  show "g \<le> h \<Longrightarrow> h \<le> g \<Longrightarrow> g = h"
    by (cases g; cases h) (simp_all add: less_eq_setup_grade_def scoring_grade_index_def SCORING_GRADE_ORDER_def)
  show "g \<le> h \<or> h \<le> g" by (auto simp: less_eq_setup_grade_def)
qed

end

lemma apply_cap_min [simp]: "apply_cap g h = min g h"
  by (cases g; cases h)
     (simp_all add: apply_cap_def min_def less_eq_setup_grade_def scoring_grade_index_def SCORING_GRADE_ORDER_def)

lemma grade_top [simp]: "g \<le> Grade_SSS"
  by (cases g) (simp_all add: less_eq_setup_grade_def scoring_grade_index_def SCORING_GRADE_ORDER_def)

lemma grade_from_score_mono: "a \<le> b \<Longrightarrow> grade_from_score a \<le> grade_from_score b"
  by (auto simp: grade_from_score_def less_eq_setup_grade_def scoring_grade_index_def SCORING_GRADE_ORDER_def)

section \<open>Rubrics\<close>

definition SHORT_BASE :: "setup_type \<rightharpoonup> int" where
  "SHORT_BASE = [Setup_VWAP_REJECTION \<mapsto> 1, Setup_VWAP_FAILED_RECLAIM_SHORT \<mapsto> 3,
                 Setup_TREND_PULLBACK_SHORT \<mapsto> 3, Setup_ORB_BREAKDOWN \<mapsto> 2]"

definition SHORT_ADD_ONS :: "(string \<times> int) list" where
  "SHORT_ADD_ONS =
     [(''vwap_slope_down'', 1), (''ema9_slope_down'', 1), (''ema20_slope_down'', 1),
      (''recent_lower_low'', 1), (''live_bias_bearish'', 1), (''trend_down'', 1),
      (''confirm_lower_40pct'', 1), (''rvol_above_1_0'', 1), (''rvol_above_1_3'', 1),
      (''tight_risk_width'', 1), (''flow_net_selling'', 1), (''flow_large_sellers'', 1)]"

definition SHORT_PENALTIES :: "(string \<times> int) list" where
  "SHORT_PENALTIES =
     [(''vwap_slope_rising'', -1), (''ema20_slope_rising'', -1), (''live_bias_bullish'', -2),
      (''chasing_extension'', -1), (''market_not_bearish'', -1),
      (''flow_absorption_at_low'', -1), (''flow_v_reversal_snap'', -1)]"

definition SHORT_GRADE_CAPS :: "setup_type \<rightharpoonup> setup_grade" where
  "SHORT_GRADE_CAPS = [Setup_VWAP_REJECTION \<mapsto> Grade_A]"

definition LONG_BASE :: int where "LONG_BASE = 3"

definition LONG_ADD_ONS :: "(string \<times> int) list" where
  "LONG_ADD_ONS =
     [(''trend_aligned_bullish'', 1), (''price_above_vwap'', 1), (''price_above_ema21'', 1),
      (''live_bias_bullish'', 1), (''rvol_above_1_0'', 1), (''rvol_above_1_5'', 1),
      (''orb_confirmed'', 1), (''tight_risk_width'', 1), (''flow_absorption'', 1),
      (''flow_genuine_sweep'', 2)]"

definition LONG_PENALTIES :: "(string \<times> int) list" where
  "LONG_PENALTIES =
     [(''live_bias_bearish'', -2), (''trend_down'', -1), (''chasing_extension_up'', -1),
      (''market_not_bullish'', -1), (''flow_v_reversal'', -2)]"

definition LONG_V_REVERSAL_CAP :: setup_grade where "LONG_V_REVERSAL_CAP = Grade_B"

definition SCORING_SELL_TYPES :: "setup_type set" where
  "SCORING_SELL_TYPES = {Setup_VWAP_REJECTION, Setup_VWAP_FAILED_RECLAIM_SHORT,
     Setup_TREND_PULLBACK_SHORT, Setup_ORB_BREAKDOWN}"

text \<open>One pass over a rubric: a line counts when its check is present and true.\<close>

definition apply_rubric ::
  "(string \<times> int) list \<Rightarrow> (string \<rightharpoonup> bool) \<Rightarrow> int \<times> score_reason list \<Rightarrow> int \<times> score_reason list" where
  "apply_rubric rubric checks start =
     foldl (\<lambda>(score, reasons) (name, pts).
       if get_default checks name False then (score + pts, reasons @ [Condition name])
       else (score, reasons)) start rubric"

definition long_flow_checks :: "bar_snapshot \<Rightarrow> (string \<times> bool) list" where
  "long_flow_checks cs =
     (case sn_flow cs of
        None \<Rightarrow> []
      | Some flow \<Rightarrow>
          [(''flow_absorption'', ab_detected (fc_absorption flow)),
           (''flow_genuine_sweep'', fc_is_genuine_sweep_reversal flow),
           (''flow_v_reversal'', fc_is_v_reversal flow)])"

definition short_flow_checks :: "bar_snapshot \<Rightarrow> (string \<times> bool) list" where
  "short_flow_checks cs =
     (case sn_flow cs of
        None \<Rightarrow> []
      | Some flow \<Rightarrow>
          [(''flow_net_selling'', fc_delta flow < 0 \<and> fc_has_trade_data flow),
           (''flow_large_sellers'', fc_large_sell_count flow \<ge> 2),
           (''flow_absorption_at_low'', ab_detected (fc_absorption flow)),
           (''flow_v_reversal_snap'', fc_is_v_reversal flow)])"

definition is_tight_risk :: "trade_setup \<Rightarrow> bar_snapshot \<Rightarrow> bool" where
  "is_tight_risk su snap =
     (case (ts_entry_trigger su, ts_stop_reference su) of
        (Some entry, Some stop) \<Rightarrow>
          (case sn_atr_14 snap of None \<Rightarrow> False | Some atr \<Rightarrow> \<bar>dq (entry - stop)\<bar> \<le> dq (atr * 1))
      | _ \<Rightarrow> False)"

definition rvol_of :: "bar_snapshot \<Rightarrow> bar_snapshot \<Rightarrow> rat option" where
  "rvol_of snap cs = (if sn_relative_volume cs \<noteq> None then sn_relative_volume cs else sn_relative_volume snap)"

definition at_least :: "rat option \<Rightarrow> rat \<Rightarrow> bool" where
  "at_least x bound = (case x of None \<Rightarrow> False | Some v \<Rightarrow> v \<ge> bound)"

section \<open>Scoring a setup\<close>

definition short_checks ::
  "trade_setup \<Rightarrow> bar_snapshot \<Rightarrow> bar_snapshot \<Rightarrow> market_state \<Rightarrow> (string \<times> bool) list" where
  "short_checks su snap cs ms =
     (let bearish_bias = ms_live_bias ms \<in> {Bias_BEARISH, Bias_TRANSITIONING_BEARISH};
          rvol = rvol_of snap cs
      in [(''vwap_slope_down'', sn_vwap_slope_direction snap = Some ''down''),
          (''ema9_slope_down'', sn_ema9_1m_slope_direction snap = Some ''down''),
          (''ema20_slope_down'', sn_ema21_5m_slope_direction snap = Some ''down''),
          (''recent_lower_low'', sn_recent_lower_low snap),
          (''live_bias_bearish'', bearish_bias),
          (''trend_down'', ms_trend ms = Trend_TRENDING_DOWN),
          (''confirm_lower_40pct'',
             (case sn_bar_close_position_pct cs of None \<Rightarrow> False | Some p \<Rightarrow> p \<le> fl (4/10))),
          (''rvol_above_1_0'', at_least rvol 1),
          (''rvol_above_1_3'', at_least rvol (fl (13/10))),
          (''tight_risk_width'', is_tight_risk su cs)] @ short_flow_checks cs)"

definition short_pen_checks ::
  "bar_snapshot \<Rightarrow> bar_snapshot \<Rightarrow> market_state \<Rightarrow> (string \<times> bool) list" where
  "short_pen_checks snap cs ms =
     (let bearish_bias = ms_live_bias ms \<in> {Bias_BEARISH, Bias_TRANSITIONING_BEARISH};
          bullish_bias = (ms_live_bias ms = Bias_BULLISH)
      in [(''vwap_slope_rising'', sn_vwap_slope_direction snap = Some ''up''),
          (''ema20_slope_rising'', sn_ema21_5m_slope_direction snap = Some ''up''),
          (''live_bias_bullish'', bullish_bias),
          (''chasing_extension'', sn_vwap_deviation_pct snap < - (1/2)),
          (''market_not_bearish'', \<not> bearish_bias)] @ short_flow_checks cs)"

definition score_short ::
  "trade_setup \<Rightarrow> bar_snapshot \<Rightarrow> bar_snapshot \<Rightarrow> market_state \<Rightarrow>
   int \<times> setup_grade \<times> score_reason list \<times> score_reason list" where
  "score_short su snap cs ms =
     (let setup_type = ts_setup_type su;
          base = get_default SHORT_BASE setup_type 1;
          (score, reasons) =
            apply_rubric SHORT_ADD_ONS (map_of (short_checks su snap cs ms)) (base, [Base_score setup_type base]);
          (score, penalties) = apply_rubric SHORT_PENALTIES (map_of (short_pen_checks snap cs ms)) (score, []);
          grade = grade_from_score score;
          grade = (case SHORT_GRADE_CAPS setup_type of None \<Rightarrow> grade | Some cap \<Rightarrow> apply_cap grade cap);
          grade = (if ms_live_bias ms = Bias_BULLISH then apply_cap grade Grade_A else grade)
      in (score, grade, reasons, penalties))"

definition long_checks ::
  "trade_setup \<Rightarrow> bar_snapshot \<Rightarrow> bar_snapshot \<Rightarrow> market_state \<Rightarrow> (string \<times> bool) list" where
  "long_checks su snap cs ms =
     (let bullish_bias = ms_live_bias ms \<in> {Bias_BULLISH, Bias_TRANSITIONING_BULLISH};
          rvol = rvol_of snap cs
      in [(''trend_aligned_bullish'', ms_trend ms = Trend_TRENDING_UP \<and> sn_is_above_vwap snap),
          (''price_above_vwap'', sn_is_above_vwap snap),
          (''price_above_ema21'',
             (case sn_ema_21 snap of None \<Rightarrow> False | Some e \<Rightarrow> sn_close snap \<ge> e)),
          (''live_bias_bullish'', bullish_bias),
          (''rvol_above_1_0'', at_least rvol 1),
          (''rvol_above_1_5'', at_least rvol (3/2)),
          (''orb_confirmed'', ms_orb_volume_confirmed ms),
          (''tight_risk_width'', is_tight_risk su cs)] @ long_flow_checks cs)"

definition long_pen_checks ::
  "bar_snapshot \<Rightarrow> bar_snapshot \<Rightarrow> market_state \<Rightarrow> (string \<times> bool) list" where
  "long_pen_checks snap cs ms =
     (let bullish_bias = ms_live_bias ms \<in> {Bias_BULLISH, Bias_TRANSITIONING_BULLISH}
      in [(''live_bias_bearish'', ms_live_bias ms = Bias_BEARISH),
          (''trend_down'', ms_trend ms = Trend_TRENDING_DOWN),
          (''chasing_extension_up'', sn_vwap_deviation_pct snap > 1/2),
          (''market_not_bullish'', \<not> bullish_bias)] @ long_flow_checks cs)"

definition score_long ::
  "trade_setup \<Rightarrow> bar_snapshot \<Rightarrow> bar_snapshot \<Rightarrow> market_state \<Rightarrow>
   int \<times> setup_grade \<times> score_reason list \<times> score_reason list" where
  "score_long su snap cs ms =
     (let checks = map_of (long_checks su snap cs ms);
          (score, reasons) =
            apply_rubric LONG_ADD_ONS checks (LONG_BASE, [Base_score (ts_setup_type su) LONG_BASE]);
          (score, penalties) = apply_rubric LONG_PENALTIES (map_of (long_pen_checks snap cs ms)) (score, []);
          grade = grade_from_score score;
          grade = (if ms_live_bias ms = Bias_BEARISH then apply_cap grade Grade_A else grade);
          grade = (if get_default checks ''flow_v_reversal'' False
                   then apply_cap grade LONG_V_REVERSAL_CAP else grade)
      in (score, grade, reasons, penalties))"

definition compute_score ::
  "trade_setup \<Rightarrow> bar_snapshot option \<Rightarrow> int \<times> setup_grade \<times> score_reason list \<times> score_reason list" where
  "compute_score su confirm_snap =
     (let snap = ts_bar_snapshot su;
          cs = (case confirm_snap of None \<Rightarrow> snap | Some c \<Rightarrow> c);
          ms = ts_market_state su
      in if ts_setup_type su \<in> SCORING_SELL_TYPES then score_short su snap cs ms
         else score_long su snap cs ms)"

section \<open>Scoring confirmed setups\<close>

record scoring_engine =
  se_scored_total :: int
  se_pipeline_mode :: bool

text \<open>\<open>_apply_score\<close>: the score as a float, no missing conditions.\<close>

definition apply_score ::
  "setup_engine \<Rightarrow> string \<Rightarrow> uuid \<Rightarrow> int \<times> setup_grade \<times> score_reason list \<times> score_reason list \<Rightarrow> setup_engine" where
  "apply_score su s k r =
     (case r of (score, grade, reasons, penalties) \<Rightarrow>
        fst (patch_setup_score su s k (fl (of_int score)) grade reasons [] reasons penalties))"

definition get_setup :: "setup_engine \<Rightarrow> string \<Rightarrow> uuid \<Rightarrow> trade_setup option" where
  "get_setup su s k = find (\<lambda>x. ts_setup_id x = k) (active_setups su s)"

text \<open>The bus handler; \<open>confirm_snap\<close> is the feature engine's current snapshot of the symbol.\<close>

definition handle_setup_event ::
  "bar_snapshot option \<Rightarrow> scoring_engine \<Rightarrow> setup_engine \<Rightarrow> setup_event \<Rightarrow> scoring_engine \<times> setup_engine" where
  "handle_setup_event confirm_snap e su ev =
     (if se_pipeline_mode e then (e, su)
      else if sv_setup_state ev \<noteq> SState_CONFIRMED then (e, su)
      else case get_setup su (sv_symbol ev) (sv_setup_id ev) of
             None \<Rightarrow> (e, su)
           | Some x \<Rightarrow>
               (e\<lparr>se_scored_total := se_scored_total e + 1\<rparr>,
                apply_score su (sv_symbol ev) (sv_setup_id ev) (compute_score x confirm_snap)))"

text \<open>
  The pipeline stage walks the list it is given and writes every score into the setup engine's
  table; the list's own entries are immutable and stay as they were.
\<close>

definition score_one :: "bar_snapshot \<Rightarrow> scoring_engine \<times> setup_engine \<Rightarrow> trade_setup \<Rightarrow> scoring_engine \<times> setup_engine" where
  "score_one confirm_snap st x =
     (case st of (e, su) \<Rightarrow>
        (if ts_state x \<noteq> SState_CONFIRMED then (e, su)
         else if ts_grade x \<noteq> None then (e, su)
         else (e\<lparr>se_scored_total := se_scored_total e + 1\<rparr>,
               apply_score su (ts_symbol x) (ts_setup_id x) (compute_score x (Some confirm_snap)))))"

definition score_bar ::
  "scoring_engine \<Rightarrow> setup_engine \<Rightarrow> bar_snapshot \<Rightarrow> trade_setup list \<Rightarrow> scoring_engine \<times> setup_engine \<times> trade_setup list" where
  "score_bar e su confirm_snap setups =
     (case foldl (score_one confirm_snap) (e, su) setups of (e, su) \<Rightarrow> (e, su, setups))"

section \<open>What a score is made of\<close>

lemma apply_rubric_eq:
  "apply_rubric rubric checks (score, reasons) =
     (let hit = [line \<leftarrow> rubric. get_default checks (fst line) False]
      in (score + sum_list (map snd hit), reasons @ map (Condition \<circ> fst) hit))"
  by (induction rubric arbitrary: score reasons) (auto simp: apply_rubric_def Let_def)

definition grade_cap :: "trade_setup \<Rightarrow> bar_snapshot option \<Rightarrow> setup_grade" where
  "grade_cap su confirm_snap =
     (let cs = (case confirm_snap of None \<Rightarrow> ts_bar_snapshot su | Some c \<Rightarrow> c);
          bias = ms_live_bias (ts_market_state su);
          v_reversal = (case sn_flow cs of None \<Rightarrow> False | Some flow \<Rightarrow> fc_is_v_reversal flow)
      in if ts_setup_type su \<in> SCORING_SELL_TYPES
         then (if ts_setup_type su = Setup_VWAP_REJECTION \<or> bias = Bias_BULLISH then Grade_A else Grade_SSS)
         else if v_reversal then Grade_B
         else if bias = Bias_BEARISH then Grade_A
         else Grade_SSS)"

lemma grade_B_le_A [simp]: "Grade_B \<le> Grade_A" "\<not> Grade_A \<le> Grade_B"
  by (simp_all add: less_eq_setup_grade_def scoring_grade_index_def SCORING_GRADE_ORDER_def)

lemma min_SSS [simp]: "min g Grade_SSS = g"
  by (simp add: min_def)

lemma v_reversal_check:
  "get_default (map_of (long_checks su snap cs ms)) ''flow_v_reversal'' False =
     (case sn_flow cs of None \<Rightarrow> False | Some flow \<Rightarrow> fc_is_v_reversal flow)"
  by (simp add: long_checks_def long_flow_checks_def get_default_def Let_def split: option.split)

lemma score_short_grade:
  "score_short su snap cs ms = (score, grade, reasons, penalties) \<Longrightarrow>
   grade = min (grade_from_score score)
     (if ts_setup_type su = Setup_VWAP_REJECTION \<or> ms_live_bias ms = Bias_BULLISH then Grade_A else Grade_SSS)"
  by (auto simp: score_short_def Let_def SHORT_GRADE_CAPS_def split: prod.splits)

lemma score_long_grade:
  "score_long su snap cs ms = (score, grade, reasons, penalties) \<Longrightarrow>
   grade = min (grade_from_score score)
     (if case sn_flow cs of None \<Rightarrow> False | Some flow \<Rightarrow> fc_is_v_reversal flow then Grade_B
      else if ms_live_bias ms = Bias_BEARISH then Grade_A else Grade_SSS)"
  by (auto simp: score_long_def Let_def v_reversal_check LONG_V_REVERSAL_CAP_def min_def
        split: prod.splits dest: order_trans [OF _ grade_B_le_A(1)])

text \<open>
  A setup's grade is what its points earn, lowered by the caps and by nothing else: first VWAP
  rejections and shorts against a bullish bias get at most \<open>A\<close>, longs against a bearish bias at
  most \<open>A\<close>, longs whose confirmation bar snapped back at most \<open>B\<close>; every other setup keeps
  the grade of its score.
\<close>

theorem grade_is_capped_score:
  "case compute_score su confirm_snap of (score, grade, reasons, penalties) \<Rightarrow>
     grade = min (grade_from_score score) (grade_cap su confirm_snap)"
proof -
  obtain score grade reasons penalties where
    r: "compute_score su confirm_snap = (score, grade, reasons, penalties)"
    by (cases "compute_score su confirm_snap")
  then show ?thesis
    by (cases "ts_setup_type su \<in> SCORING_SELL_TYPES"; cases confirm_snap)
       (auto simp: compute_score_def grade_cap_def Let_def dest!: score_short_grade score_long_grade)
qed

end
