(* ===== verification/Market_State.thy ===== *)
theory Market_State
  imports Snapshots Calendars
begin

text \<open>
  The market state engine, \<^verbatim>\<open>src/alpha/engines/market_state/engine.py\<close>: trend, VWAP state, live bias, the
  day type that locks once a session, its confidence and status, and the trade permission. The
  session key, the UTC date as text, is represented by the date it prints. Every float operation
  rounds by \<open>fl\<close>.
\<close>

section \<open>State\<close>

record market_state_engine =
  me_latest_states :: "string \<rightharpoonup> market_state"
  me_classifications_total :: int
  me_day_types :: "string \<rightharpoonup> day_type"
  me_day_type_session :: "string \<rightharpoonup> date"
  me_day_type_candidates :: "string \<rightharpoonup> day_type list"
  me_trend_bars :: "string \<rightharpoonup> int"
  me_trend_bars_session :: "string \<rightharpoonup> date"
  me_last_trend :: "string \<rightharpoonup> trend_state"
  me_pipeline_mode :: bool

definition market_state_engine_init :: market_state_engine where
  "market_state_engine_init =
     \<lparr>me_latest_states = Map.empty, me_classifications_total = 0, me_day_types = Map.empty,
      me_day_type_session = Map.empty, me_day_type_candidates = Map.empty, me_trend_bars = Map.empty,
      me_trend_bars_session = Map.empty, me_last_trend = Map.empty, me_pipeline_mode = False\<rparr>"

record market_state_event =
  mv_symbol :: string
  mv_timestamp :: timestamp
  mv_metadata :: event_metadata
  mv_state_data :: market_state

definition DAY_TYPE_MIN_BARS :: int where "DAY_TYPE_MIN_BARS = 30"
definition DAY_TYPE_CONFIRMATION_WIDTH :: nat where "DAY_TYPE_CONFIRMATION_WIDTH = 3"
definition THRESHOLD_HEALTHY :: rat where "THRESHOLD_HEALTHY = fl (55/100)"
definition THRESHOLD_STRESSED :: rat where "THRESHOLD_STRESSED = fl (3/10)"

section \<open>Classifiers of one bar\<close>

definition classify_trend :: "bar_snapshot \<Rightarrow> trend_state" where
  "classify_trend sn =
     (case (sn_ema_9 sn, sn_ema_21 sn) of
        (Some e9, Some e21) \<Rightarrow>
          if e9 > e21 \<and> br_close (sn_bar sn) > e9 then Trend_TRENDING_UP
          else if e9 < e21 \<and> br_close (sn_bar sn) < e9 then Trend_TRENDING_DOWN
          else Trend_CHOPPY
      | _ \<Rightarrow> Trend_UNKNOWN)"

definition classify_vwap :: "bar_snapshot \<Rightarrow> vwap_state" where
  "classify_vwap sn =
     (if sn_vwap_cross_up sn then VWAP_RECLAIMING
      else if sn_vwap_cross_down sn then VWAP_REJECTING
      else if br_close (sn_bar sn) > sn_vwap sn then VWAP_ABOVE
      else VWAP_BELOW)"

definition vwap_above :: "vwap_state \<Rightarrow> bool" where
  "vwap_above v \<longleftrightarrow> v \<in> {VWAP_ABOVE, VWAP_RECLAIMING}"

definition classify_live_bias :: "trend_state \<Rightarrow> vwap_state \<Rightarrow> live_bias" where
  "classify_live_bias trend v =
     (if trend = Trend_UNKNOWN then Bias_UNKNOWN
      else if trend = Trend_TRENDING_UP \<and> vwap_above v then Bias_BULLISH
      else if trend = Trend_TRENDING_DOWN \<and> \<not> vwap_above v then Bias_BEARISH
      else if trend = Trend_TRENDING_DOWN \<and> vwap_above v then Bias_TRANSITIONING_BEARISH
      else if trend = Trend_TRENDING_UP \<and> \<not> vwap_above v then Bias_TRANSITIONING_BULLISH
      else Bias_NEUTRAL)"

definition score_structure :: "bar_snapshot \<Rightarrow> trend_state \<Rightarrow> rat" where
  "score_structure sn trend =
     (let score = 1/2;
          score = (if trend \<in> {Trend_TRENDING_UP, Trend_TRENDING_DOWN} then fl (score + fl (3/10)) else score);
          score = (if (case sn_relative_volume sn of None \<Rightarrow> False | Some r \<Rightarrow> r \<noteq> 0 \<and> r > fl (12/10))
                   then fl (score + fl (2/10)) else score)
      in min 1 score)"

text \<open>The candidate of a bar, and the gate it has to pass.\<close>

definition day_type_eligible :: "bar_snapshot \<Rightarrow> bool" where
  "day_type_eligible sn \<longleftrightarrow> \<not> (\<not> sn_or_established sn \<or> sn_bars_since_open sn < DAY_TYPE_MIN_BARS)"

definition day_type_candidate :: "bar_snapshot \<Rightarrow> trend_state \<Rightarrow> vwap_state \<Rightarrow> day_type" where
  "day_type_candidate sn trend v =
     (if sn_or_position sn = Some ''ABOVE''
      then (if vwap_above v \<and> trend = Trend_TRENDING_UP then Day_TREND_UP else Day_BALANCED)
      else if sn_or_position sn = Some ''BELOW''
      then (if v \<in> {VWAP_BELOW, VWAP_REJECTING} \<and> trend = Trend_TRENDING_DOWN then Day_TREND_DOWN else Day_BALANCED)
      else if sn_or_established sn \<and> sn_or_position sn = Some ''INSIDE'' then Day_RANGE
      else Day_BALANCED)"

definition day_type_confidence :: "day_type \<Rightarrow> bar_snapshot \<Rightarrow> trend_state \<Rightarrow> vwap_state \<Rightarrow> rat" where
  "day_type_confidence locked sn trend v =
     (case locked of
        Day_UNKNOWN \<Rightarrow>
          if sn_bars_since_open sn < 5 then fl (2/10)
          else if sn_bars_since_open sn < 15 then fl (35/100)
          else if sn_bars_since_open sn < DAY_TYPE_MIN_BARS then 1/2
          else fl (6/10)
      | Day_TREND_UP \<Rightarrow>
          (let score = 0;
               score = (if trend = Trend_TRENDING_UP then fl (score + fl (4/10))
                        else if trend = Trend_CHOPPY then fl (score + fl (1/10)) else score);
               score = (if vwap_above v then fl (score + 1/4) else score);
               score = (if sn_is_higher_high sn then fl (score + fl (2/10)) else score);
               score = (if \<not> sn_is_new_lod sn then fl (score + fl (15/100)) else score)
           in min 1 score)
      | Day_TREND_DOWN \<Rightarrow>
          (let score = 0;
               score = (if trend = Trend_TRENDING_DOWN then fl (score + fl (4/10))
                        else if trend = Trend_CHOPPY then fl (score + fl (1/10)) else score);
               score = (if \<not> vwap_above v then fl (score + 1/4) else score);
               score = (if sn_is_new_lod sn then fl (score + fl (2/10)) else score);
               score = (if \<not> sn_is_higher_high sn then fl (score + fl (15/100)) else score)
           in min 1 score)
      | Day_RANGE \<Rightarrow>
          (let score = 0;
               score = (if trend = Trend_CHOPPY then fl (score + fl (4/10)) else score);
               score = (if sn_or_established sn \<and> sn_or_position sn = Some ''INSIDE'' then fl (score + fl (35/100)) else score);
               score = fl (score + fl (1/4 * max 0 (fl (1 - fl (\<bar>sn_vwap_deviation_pct sn\<bar> / 3)))))
           in min 1 score)
      | Day_BALANCED \<Rightarrow>
          (let score = fl (4/10);
               score = (if trend = Trend_CHOPPY then fl (score + fl (2/10)) else score)
           in min 1 score))"

definition compute_day_type_status :: "day_type \<Rightarrow> rat \<Rightarrow> day_type_status" where
  "compute_day_type_status locked confidence =
     (if locked = Day_UNKNOWN then DayStatus_FORMING
      else if confidence \<ge> THRESHOLD_HEALTHY then DayStatus_LOCKED_HEALTHY
      else if confidence \<ge> THRESHOLD_STRESSED then DayStatus_STRESSED
      else DayStatus_INVALIDATED)"

definition trade_permission :: "day_type \<Rightarrow> day_type_status \<Rightarrow> live_bias \<Rightarrow> bool \<times> bool \<times> string" where
  "trade_permission day status bias =
     (if day = Day_UNKNOWN \<or> status = DayStatus_FORMING then (True, True, ''forming: no restriction'')
      else
        (let healthy = (status = DayStatus_LOCKED_HEALTHY);
             invalidated = (status = DayStatus_INVALIDATED);
             bearish = (bias \<in> {Bias_BEARISH, Bias_TRANSITIONING_BEARISH});
             bullish = (bias \<in> {Bias_BULLISH, Bias_TRANSITIONING_BULLISH})
         in if day = Day_TREND_UP then
              (if healthy then (True, False, ''trend_up healthy: short blocked'')
               else if invalidated \<and> bearish then (False, True, ''trend_up invalidated + bearish: long blocked'')
               else if invalidated then (True, True, ''trend_up invalidated: both allowed'')
               else if bullish then (True, False, ''trend_up stressed + bullish: short blocked'')
               else (True, True, ''trend_up stressed + bearish: both allowed''))
            else if day = Day_TREND_DOWN then
              (if healthy then (False, True, ''trend_down healthy: long blocked'')
               else if invalidated \<and> bullish then (True, False, ''trend_down invalidated + bullish: short blocked'')
               else if invalidated then (True, True, ''trend_down invalidated: both allowed'')
               else if bearish then (False, True, ''trend_down stressed + bearish: long blocked'')
               else (True, True, ''trend_down stressed + bullish: both allowed''))
            else if invalidated \<and> bearish then (False, True, ''range/balanced invalidated + bearish: long blocked'')
            else if invalidated \<and> bullish then (True, False, ''range/balanced invalidated + bullish: short blocked'')
            else (True, True, ''no restriction'')))"

section \<open>Trackers\<close>

definition track_trend_bars ::
  "market_state_engine \<Rightarrow> string \<Rightarrow> date \<Rightarrow> trend_state \<Rightarrow> market_state_engine \<times> int" where
  "track_trend_bars e s key trend =
     (let e = (if me_trend_bars_session e s \<noteq> Some key
               then e\<lparr>me_trend_bars_session := (me_trend_bars_session e)(s \<mapsto> key),
                      me_trend_bars := (me_trend_bars e)(s \<mapsto> 0),
                      me_last_trend := (me_last_trend e)(s := None)\<rparr>
               else e);
          e = (if me_last_trend e s = Some trend
               then e\<lparr>me_trend_bars := (me_trend_bars e)(s \<mapsto> get_default (me_trend_bars e) s 0 + 1)\<rparr>
               else e\<lparr>me_trend_bars := (me_trend_bars e)(s \<mapsto> 1),
                      me_last_trend := (me_last_trend e)(s \<mapsto> trend)\<rparr>)
      in (e, get_default (me_trend_bars e) s 0))"

text \<open>The three steps of \<open>_classify_day_type\<close>: reset on a new date, the lock, the vote of an eligible bar.\<close>

definition session_reset :: "market_state_engine \<Rightarrow> string \<Rightarrow> date \<Rightarrow> market_state_engine" where
  "session_reset e s key =
     (if me_day_type_session e s \<noteq> Some key
      then e\<lparr>me_day_type_session := (me_day_type_session e)(s \<mapsto> key),
             me_day_types := (me_day_types e)(s := None),
             me_day_type_candidates := (me_day_type_candidates e)(s := None)\<rparr>
      else e)"

definition vote :: "market_state_engine \<Rightarrow> string \<Rightarrow> day_type \<Rightarrow> market_state_engine \<times> day_type" where
  "vote e s candidate =
     (let window = get_default (me_day_type_candidates e) s [] @ [candidate];
          window = (if length window > DAY_TYPE_CONFIRMATION_WIDTH then tl window else window)
      in if length window = DAY_TYPE_CONFIRMATION_WIDTH \<and> card (set window) = 1
         then (e\<lparr>me_day_types := (me_day_types e)(s \<mapsto> hd window),
                 me_day_type_candidates := (me_day_type_candidates e)(s := None)\<rparr>, hd window)
         else (e\<lparr>me_day_type_candidates := (me_day_type_candidates e)(s \<mapsto> window)\<rparr>, Day_UNKNOWN))"

definition classify_day_type ::
  "market_state_engine \<Rightarrow> string \<Rightarrow> date \<Rightarrow> bar_snapshot \<Rightarrow> trend_state \<Rightarrow> vwap_state \<Rightarrow> market_state_engine \<times> day_type" where
  "classify_day_type e s key sn trend v =
     (let e = session_reset e s key in
      case me_day_types e s of
        Some d \<Rightarrow> (e, d)
      | None \<Rightarrow> if \<not> day_type_eligible sn then (e, Day_UNKNOWN) else vote e s (day_type_candidate sn trend v))"

section \<open>The engine\<close>

definition classify :: "market_state_engine \<Rightarrow> string \<Rightarrow> bar_snapshot \<Rightarrow> market_state_engine \<times> market_state" where
  "classify e s sn =
     (let key = date_of (sn_timestamp sn);
          trend = classify_trend sn;
          (e, trend_bars) = track_trend_bars e s key trend;
          v = classify_vwap sn;
          structure_score = score_structure sn trend;
          (e, day) = classify_day_type e s key sn trend v;
          bias = classify_live_bias trend v;
          confidence = day_type_confidence day sn trend v;
          status = compute_day_type_status day confidence;
          (long_ok, short_ok, reason) = trade_permission day status bias
      in (e, (new_market_state s (sn_timestamp sn))
               \<lparr>ms_trend := trend, ms_trend_strength := min 1 (fl (\<bar>sn_vwap_deviation_pct sn\<bar> / 5)),
                ms_trend_bars := trend_bars, ms_vwap_state := v, ms_or_position := sn_or_position sn,
                ms_session_phase := sn_session_phase sn, ms_is_extended := sn_is_extended sn,
                ms_structure_score := structure_score, ms_confidence := confidence, ms_day_type := day,
                ms_day_type_status := status, ms_live_bias := bias, ms_trade_long_allowed := long_ok,
                ms_trade_short_allowed := short_ok, ms_trade_permission_reason := reason\<rparr>))"

definition market_state_emit :: "market_state \<Rightarrow> bar_event \<Rightarrow> market_state_event" where
  "market_state_emit st trigger =
     \<lparr>mv_symbol = ms_symbol st, mv_timestamp = ms_timestamp st, mv_metadata = be_metadata trigger,
      mv_state_data = st\<rparr>"

definition market_state_process_bar ::
  "market_state_engine \<Rightarrow> bar_snapshot \<Rightarrow> bar_bundle \<Rightarrow> market_state_engine \<times> market_state \<times> market_state_event list" where
  "market_state_process_bar e sn bundle =
     (case classify e (sn_symbol sn) sn of (e, st) \<Rightarrow>
        (e\<lparr>me_latest_states := (me_latest_states e)(sn_symbol sn \<mapsto> st),
           me_classifications_total := me_classifications_total e + 1\<rparr>,
         st, [market_state_emit st (to_bar_event bundle)]))"

text \<open>The bus handler; \<open>snap\<close> is what the feature engine holds for the symbol.\<close>

definition market_state_handle_bar ::
  "market_state_engine \<Rightarrow> bar_snapshot option \<Rightarrow> bar_event \<Rightarrow> market_state_engine \<times> market_state_event list" where
  "market_state_handle_bar e snap ev =
     (if me_pipeline_mode e then (e, [])
      else case snap of
        None \<Rightarrow> (e, [])
      | Some sn \<Rightarrow>
          (case classify e (be_symbol ev) sn of (e, st) \<Rightarrow>
             (e\<lparr>me_latest_states := (me_latest_states e)(be_symbol ev \<mapsto> st),
                me_classifications_total := me_classifications_total e + 1\<rparr>,
              [market_state_emit st ev])))"

section \<open>Scores\<close>

lemma min_one_bounds: "0 \<le> x \<Longrightarrow> 0 \<le> min 1 x \<and> min 1 x \<le> (1 :: rat)"
  by simp

lemma fl_add_nonneg: "0 \<le> x \<Longrightarrow> 0 \<le> y \<Longrightarrow> 0 \<le> fl (x + y)"
  by (simp add: fl_nonneg)

lemma confidence_nonneg: "0 \<le> day_type_confidence day sn trend v"
  by (cases day) (simp_all add: day_type_confidence_def Let_def fl_nonneg fl_add_nonneg)

lemma fl_le_one: "x \<le> 1 \<Longrightarrow> fl x \<le> 1"
  using fl_le_int [of x 1] by simp

lemma confidence_le_one: "day_type_confidence day sn trend v \<le> 1"
proof (cases day)
  case Day_UNKNOWN
  show ?thesis unfolding Day_UNKNOWN day_type_confidence_def day_type.case using fl_le_one by (auto split: if_split)
qed (simp_all only: day_type_confidence_def day_type.case Let_def min.cobounded1)

lemma structure_bounds: "0 \<le> score_structure sn trend \<and> score_structure sn trend \<le> 1"
  by (simp add: score_structure_def Let_def fl_nonneg fl_add_nonneg)

lemma strength_bounds: "0 \<le> min 1 (fl (\<bar>x\<bar> / 5)) \<and> min 1 (fl (\<bar>x\<bar> / 5)) \<le> 1"
  by (simp add: fl_nonneg)

lemma classify_fields:
  "ms_trend (snd (classify e s sn)) = classify_trend sn"
  "ms_trend_strength (snd (classify e s sn)) = min 1 (fl (\<bar>sn_vwap_deviation_pct sn\<bar> / 5))"
  "ms_structure_score (snd (classify e s sn)) = score_structure sn (classify_trend sn)"
  "ms_live_bias (snd (classify e s sn)) = classify_live_bias (classify_trend sn) (classify_vwap sn)"
  "ms_confidence (snd (classify e s sn)) =
     day_type_confidence (ms_day_type (snd (classify e s sn))) sn (classify_trend sn) (classify_vwap sn)"
  "ms_day_type_status (snd (classify e s sn)) =
     compute_day_type_status (ms_day_type (snd (classify e s sn))) (ms_confidence (snd (classify e s sn)))"
  "(ms_trade_long_allowed (snd (classify e s sn)), ms_trade_short_allowed (snd (classify e s sn)),
    ms_trade_permission_reason (snd (classify e s sn))) =
     trade_permission (ms_day_type (snd (classify e s sn))) (ms_day_type_status (snd (classify e s sn)))
       (ms_live_bias (snd (classify e s sn)))"
  "ms_orb_volume_confirmed (snd (classify e s sn)) = False"
  by (simp_all add: classify_def new_market_state_def Let_def case_prod_unfold)

text \<open>
  In every market state the engine computes, whatever it has seen before and whatever the snapshot holds,
  trend strength, structure score and day-type confidence lie between zero and one.
\<close>

theorem market_state_scores_bounded:
  "let st = snd (classify e s sn) in
     0 \<le> ms_trend_strength st \<and> ms_trend_strength st \<le> 1
     \<and> 0 \<le> ms_structure_score st \<and> ms_structure_score st \<le> 1
     \<and> 0 \<le> ms_confidence st \<and> ms_confidence st \<le> 1"
  using strength_bounds structure_bounds confidence_nonneg confidence_le_one
  by (simp only: Let_def classify_fields simp_thms)

section \<open>Permission\<close>

lemma balanced_never_invalidated:
  "compute_day_type_status Day_BALANCED (day_type_confidence Day_BALANCED sn trend v) \<noteq> DayStatus_INVALIDATED"
proof -
  have "3/10 \<le> fl (4/10)" using fl_error [of "4/10"] by (simp add: abs_if split: if_splits)
  then have "THRESHOLD_STRESSED \<le> fl (fl (4/10) + fl (2/10))"
    unfolding THRESHOLD_STRESSED_def by (intro fl_mono) (simp add: fl_nonneg add_increasing2)
  moreover have "THRESHOLD_STRESSED \<le> fl (4/10)" unfolding THRESHOLD_STRESSED_def by (intro fl_mono) simp
  moreover have "THRESHOLD_STRESSED \<le> 1" unfolding THRESHOLD_STRESSED_def by (intro fl_le_one) simp
  ultimately have "THRESHOLD_STRESSED \<le> day_type_confidence Day_BALANCED sn trend v"
    unfolding day_type_confidence_def day_type.case Let_def by (cases "trend = Trend_CHOPPY") (simp_all only: if_True if_False min.bounded_iff simp_thms)
  then show ?thesis by (simp add: compute_day_type_status_def)
qed

definition BULLISH_BIASES :: "live_bias set" where
  "BULLISH_BIASES = {Bias_BULLISH, Bias_TRANSITIONING_BULLISH}"

definition BEARISH_BIASES :: "live_bias set" where
  "BEARISH_BIASES = {Bias_BEARISH, Bias_TRANSITIONING_BEARISH}"

text \<open>
  A market state never blocks both sides. Longs are blocked exactly on a healthy trend-down day,
  on a stressed one with a bearish bias, and on a trend-up or range day that is invalidated with a
  bearish bias; shorts in the mirrored cases. A balanced day blocks nobody, its confidence
  never falls to the invalidation threshold.
\<close>

theorem trade_permission_table:
  "let st = snd (classify e s sn); day = ms_day_type st; status = ms_day_type_status st; bias = ms_live_bias st in
     (ms_trade_long_allowed st \<or> ms_trade_short_allowed st)
     \<and> (ms_trade_long_allowed st = False \<longleftrightarrow>
          day = Day_TREND_DOWN \<and> status = DayStatus_LOCKED_HEALTHY
          \<or> day = Day_TREND_DOWN \<and> status = DayStatus_STRESSED \<and> bias \<in> BEARISH_BIASES
          \<or> day \<in> {Day_TREND_UP, Day_RANGE} \<and> status = DayStatus_INVALIDATED \<and> bias \<in> BEARISH_BIASES)
     \<and> (ms_trade_short_allowed st = False \<longleftrightarrow>
          day = Day_TREND_UP \<and> status = DayStatus_LOCKED_HEALTHY
          \<or> day = Day_TREND_UP \<and> status = DayStatus_STRESSED \<and> bias \<in> BULLISH_BIASES
          \<or> day \<in> {Day_TREND_DOWN, Day_RANGE} \<and> status = DayStatus_INVALIDATED \<and> bias \<in> BULLISH_BIASES)"
proof -
  define st where "st = snd (classify e s sn)"
  obtain day status bias where d: "ms_day_type st = day" "ms_day_type_status st = status" "ms_live_bias st = bias" by simp
  have p: "(ms_trade_long_allowed st, ms_trade_short_allowed st, ms_trade_permission_reason st) =
      trade_permission day status bias"
    using classify_fields(7) [of e s sn] d by (simp add: st_def)
  have status: "status = compute_day_type_status day (day_type_confidence day sn (classify_trend sn) (classify_vwap sn))"
    using classify_fields(5,6) [of e s sn] d by (simp add: st_def)
  then have "day = Day_BALANCED \<Longrightarrow> status \<noteq> DayStatus_INVALIDATED" by (simp add: balanced_never_invalidated)
  moreover from status have "day = Day_UNKNOWN \<longleftrightarrow> status = DayStatus_FORMING" by (simp add: compute_day_type_status_def)
  ultimately show ?thesis
    using p unfolding Let_def st_def [symmetric] d
    by (cases day; cases status; cases bias)
       (simp_all add: trade_permission_def BULLISH_BIASES_def BEARISH_BIASES_def)
qed


section \<open>Day type and trend bars as functions of the day's bars\<close>

text \<open>
  The reference: the snapshots of the symbol since its last change of UTC date; the first candidate that
  three consecutive eligible bars agree on; the length of the run of equal trends at the end.
\<close>

definition snapshot_day :: "bar_snapshot \<Rightarrow> date" where
  "snapshot_day sn = date_of (sn_timestamp sn)"

definition last_day :: "bar_snapshot list \<Rightarrow> bar_snapshot list" where
  "last_day h = last_part snapshot_day h"

definition bar_candidate :: "bar_snapshot \<Rightarrow> day_type" where
  "bar_candidate sn = day_type_candidate sn (classify_trend sn) (classify_vwap sn)"

fun first_agreement :: "day_type list \<Rightarrow> day_type" where
  "first_agreement (a # b # c # ds) = (if a = b \<and> b = c then a else first_agreement (b # c # ds))"
| "first_agreement _ = Day_UNKNOWN"

definition day_type_reference :: "bar_snapshot list \<Rightarrow> day_type" where
  "day_type_reference h = first_agreement (map bar_candidate (filter day_type_eligible (last_day h)))"

definition trend_run :: "trend_state list \<Rightarrow> int" where
  "trend_run ts = int (length (takeWhile (\<lambda>t. t = last ts) (rev ts)))"

lemmas last_day_snoc = last_part_snoc [of snapshot_day, folded last_day_def]

lemma trend_run_snoc:
  "trend_run (ts @ [t]) = (if ts \<noteq> [] \<and> last ts = t then trend_run ts + 1 else 1)"
  by (cases ts rule: rev_cases) (auto simp: trend_run_def)

lemma candidate_known: "bar_candidate sn \<noteq> Day_UNKNOWN"
  by (simp add: bar_candidate_def day_type_candidate_def)

definition last_two :: "'a list \<Rightarrow> 'a list" where "last_two ds = drop (length ds - 2) ds"

lemma last_two_snoc: "last_two (ds @ [d]) = (if ds = [] then [d] else [last ds, d])"
  by (cases ds rule: rev_cases) (simp_all add: last_two_def)

lemma first_agreement_snoc:
  "Day_UNKNOWN \<notin> set ds \<Longrightarrow>
   first_agreement (ds @ [d]) =
     (if first_agreement ds \<noteq> Day_UNKNOWN then first_agreement ds
      else if last_two ds = [d, d] then d else Day_UNKNOWN)"
proof (induction ds rule: first_agreement.induct)
  case (1 a b c ds)
  have "last_two (a # b # c # ds) = last_two (b # c # ds)" by (simp add: last_two_def Suc_diff_le)
  with 1 show ?case by auto
qed (auto simp: last_two_def)

text \<open>The symbol's lock and window for a list of candidates.\<close>

definition votes_ok :: "market_state_engine \<Rightarrow> string \<Rightarrow> day_type list \<Rightarrow> bool" where
  "votes_ok e s cands \<longleftrightarrow>
     me_day_types e s = (if first_agreement cands = Day_UNKNOWN then None else Some (first_agreement cands))
     \<and> (first_agreement cands = Day_UNKNOWN \<longrightarrow>
          get_default (me_day_type_candidates e) s [] = drop (length cands - 3) cands)"

text \<open>What the engine keeps for a symbol, as a function of its history.\<close>

definition tracks :: "market_state_engine \<Rightarrow> string \<Rightarrow> bar_snapshot list \<Rightarrow> bool" where
  "tracks e s h \<longleftrightarrow>
     (let day = (if h = [] then None else Some (snapshot_day (last h)));
          cands = map bar_candidate (filter day_type_eligible (last_day h));
          trends = map classify_trend (last_day h)
      in me_day_type_session e s = day \<and> me_trend_bars_session e s = day
         \<and> votes_ok e s cands
         \<and> me_last_trend e s = (if h = [] then None else Some (last trends))
         \<and> (h \<noteq> [] \<longrightarrow> me_trend_bars e s = Some (trend_run trends)))"

lemma card_set_three: "card (set [a, b, c]) = 1 \<longleftrightarrow> a = b \<and> b = c"
  by (auto simp: card_insert_if)


lemma track_trend_spec:
  assumes "tracks e s h" "track_trend_bars e s (snapshot_day sn) (classify_trend sn) = (e', n)"
  shows "me_trend_bars_session e' s = Some (snapshot_day sn)" "me_last_trend e' s = Some (classify_trend sn)"
    "me_trend_bars e' s = Some (trend_run (map classify_trend (last_day (h @ [sn]))))"
    "n = trend_run (map classify_trend (last_day (h @ [sn])))"
    "me_day_type_session e' = me_day_type_session e" "me_day_types e' = me_day_types e"
    "me_day_type_candidates e' = me_day_type_candidates e"
proof -
  let ?trends = "map classify_trend (last_day h)"
  have ne: "?trends \<noteq> []" if "h \<noteq> []" using that by (cases h rule: rev_cases) (simp_all add: last_day_snoc)
  have run: "trend_run (map classify_trend (last_day (h @ [sn]))) =
      (if h \<noteq> [] \<and> snapshot_day (last h) = snapshot_day sn \<and> last ?trends = classify_trend sn
       then trend_run ?trends + 1 else 1)"
    using ne trend_run_snoc [of "[]"] by (simp add: last_day_snoc trend_run_snoc)
  show "me_trend_bars_session e' s = Some (snapshot_day sn)" "me_last_trend e' s = Some (classify_trend sn)"
    "me_trend_bars e' s = Some (trend_run (map classify_trend (last_day (h @ [sn]))))"
    "n = trend_run (map classify_trend (last_day (h @ [sn])))"
    "me_day_type_session e' = me_day_type_session e" "me_day_types e' = me_day_types e"
    "me_day_type_candidates e' = me_day_type_candidates e"
    using assms unfolding run
    by (auto simp: track_trend_bars_def tracks_def get_default_def Let_def split: if_splits)
qed

lemma window_push:
  "(if length (drop (length cands - 3) cands @ [c]) > 3 then tl (drop (length cands - 3) cands @ [c])
    else drop (length cands - 3) cands @ [c]) = last_two cands @ [c]"
proof (cases "3 \<le> length cands")
  case True
  then have "Suc (length cands - 3) = length cands - 2" by simp
  then have "tl (drop (length cands - 3) cands) = last_two cands"
    by (metis drop_Suc tl_drop last_two_def)
  with True show ?thesis by (simp add: tl_append2)
qed (auto simp: last_two_def)

lemma vote_agrees:
  "length (last_two cands @ [c]) = 3 \<and> card (set (last_two cands @ [c])) = 1 \<longleftrightarrow> last_two cands = [c, c]"
proof (cases "length (last_two cands) = 2")
  case True
  then obtain a b where "last_two cands = [a, b]" by (auto simp: length_Suc_conv numeral_eq_Suc)
  then show ?thesis using card_set_three [of a b c] by auto
qed auto

lemma vote_ok:
  assumes ok: "votes_ok e s cands" "first_agreement cands = Day_UNKNOWN" "Day_UNKNOWN \<notin> set cands" "c \<noteq> Day_UNKNOWN"
    and v: "vote e s c = (e', d)"
  shows "d = first_agreement (cands @ [c])" "votes_ok e' s (cands @ [c])" "me_day_type_session e' = me_day_type_session e"
proof -
  have w: "(if length (get_default (me_day_type_candidates e) s [] @ [c]) > DAY_TYPE_CONFIRMATION_WIDTH
            then tl (get_default (me_day_type_candidates e) s [] @ [c])
            else get_default (me_day_type_candidates e) s [] @ [c]) = last_two cands @ [c]"
    using window_push [of cands c] ok(1,2) by (simp only: votes_ok_def DAY_TYPE_CONFIRMATION_WIDTH_def simp_thms)
  have r: "(e', d) = (if last_two cands = [c, c]
        then (e\<lparr>me_day_types := (me_day_types e)(s \<mapsto> c),
                me_day_type_candidates := (me_day_type_candidates e)(s := None)\<rparr>, c)
        else (e\<lparr>me_day_type_candidates := (me_day_type_candidates e)(s \<mapsto> last_two cands @ [c])\<rparr>, Day_UNKNOWN))"
    using v vote_agrees [of cands c] unfolding vote_def Let_def w unfolding DAY_TYPE_CONFIRMATION_WIDTH_def by auto
  note fa = first_agreement_snoc [OF ok(3), of c]
  show "d = first_agreement (cands @ [c])" using r fa ok(2) by (simp split: if_splits)
  show "me_day_type_session e' = me_day_type_session e" using r by (simp split: if_splits)
  have three: "last_two cands @ [c] = drop (length (cands @ [c]) - 3) (cands @ [c])"
    by (cases "length cands \<ge> 2") (simp_all add: last_two_def Suc_diff_le)
  show "votes_ok e' s (cands @ [c])"
    using r fa ok(1,2,4) three by (auto simp: votes_ok_def get_default_def split: if_splits)
qed


lemma classify_day_type_alt:
  "classify_day_type e s key sn trend v =
     (case me_day_types (session_reset e s key) s of
        Some d \<Rightarrow> (session_reset e s key, d)
      | None \<Rightarrow> if day_type_eligible sn then vote (session_reset e s key) s (day_type_candidate sn trend v)
                else (session_reset e s key, Day_UNKNOWN))"
  by (simp add: classify_day_type_def Let_def split: option.split)

lemma day_type_spec:
  assumes "tracks e0 s h" "me_day_type_session e = me_day_type_session e0" "me_day_types e = me_day_types e0"
    "me_day_type_candidates e = me_day_type_candidates e0"
    and r: "classify_day_type e s (snapshot_day sn) sn (classify_trend sn) (classify_vwap sn) = (e', d)"
  shows "me_day_type_session e' s = Some (snapshot_day sn)" "d = day_type_reference (h @ [sn])"
    "votes_ok e' s (map bar_candidate (filter day_type_eligible (last_day (h @ [sn]))))"
proof -
  let ?e = "session_reset e s (snapshot_day sn)"
  define cands where "cands = (if h \<noteq> [] \<and> snapshot_day (last h) = snapshot_day sn
      then map bar_candidate (filter day_type_eligible (last_day h)) else [])"
  have known: "Day_UNKNOWN \<notin> set cands" using candidate_known [THEN not_sym] by (auto simp: cands_def)
  have new: "map bar_candidate (filter day_type_eligible (last_day (h @ [sn]))) =
      cands @ (if day_type_eligible sn then [bar_candidate sn] else [])"
    by (simp add: cands_def last_day_snoc)
  have ok: "votes_ok ?e s cands"
    using assms(1-4) by (auto simp: tracks_def Let_def cands_def session_reset_def votes_ok_def get_default_def split: if_splits)
  have sess: "me_day_type_session ?e s = Some (snapshot_day sn)" by (simp add: session_reset_def)
  consider (locked) "first_agreement cands \<noteq> Day_UNKNOWN"
    | (vote) "first_agreement cands = Day_UNKNOWN" "day_type_eligible sn"
    | (wait) "first_agreement cands = Day_UNKNOWN" "\<not> day_type_eligible sn" by blast
  then have "me_day_type_session e' s = Some (snapshot_day sn) \<and> d = day_type_reference (h @ [sn])
      \<and> votes_ok e' s (map bar_candidate (filter day_type_eligible (last_day (h @ [sn]))))"
  proof cases
    case locked
    then have "e' = ?e" "d = first_agreement cands" using r ok by (simp_all add: classify_day_type_alt votes_ok_def)
    moreover have "first_agreement (cands @ [bar_candidate sn]) = first_agreement cands"
      using locked first_agreement_snoc [OF known] by simp
    ultimately show ?thesis using sess ok locked by (auto simp: day_type_reference_def new votes_ok_def)
  next
    case vote
    then have "vote ?e s (bar_candidate sn) = (e', d)"
      using r ok by (simp add: classify_day_type_alt votes_ok_def bar_candidate_def)
    from vote_ok [OF ok vote(1) known candidate_known this] sess vote(2) show ?thesis
      by (simp add: day_type_reference_def new)
  next
    case wait
    then have "e' = ?e" "d = Day_UNKNOWN" using r ok by (simp_all add: classify_day_type_alt votes_ok_def)
    with ok sess wait show ?thesis by (simp add: day_type_reference_def new)
  qed
  then show "me_day_type_session e' s = Some (snapshot_day sn)" "d = day_type_reference (h @ [sn])"
    "votes_ok e' s (map bar_candidate (filter day_type_eligible (last_day (h @ [sn]))))" by simp_all
qed

lemma classify_tracks:
  assumes "tracks e s h" "classify e s sn = (e', st)"
  shows "tracks e' s (h @ [sn])" "ms_day_type st = day_type_reference (h @ [sn])"
    "ms_trend_bars st = trend_run (map classify_trend (last_day (h @ [sn])))"
proof -
  obtain e1 n where t: "track_trend_bars e s (snapshot_day sn) (classify_trend sn) = (e1, n)" by fastforce
  obtain d where c: "classify_day_type e1 s (snapshot_day sn) sn (classify_trend sn) (classify_vwap sn) = (e', d)"
    and st: "ms_day_type st = d" "ms_trend_bars st = n"
    using assms(2) t by (auto simp: classify_def snapshot_day_def Let_def split: prod.splits)
  note ts = track_trend_spec [OF assms(1) t]
  note ds = day_type_spec [OF assms(1) ts(5-7) c]
  have frame: "me_trend_bars e' = me_trend_bars e1" "me_trend_bars_session e' = me_trend_bars_session e1"
    "me_last_trend e' = me_last_trend e1"
    using c by (auto simp: classify_day_type_def session_reset_def vote_def Let_def split: option.splits if_splits)
  have "last (map classify_trend (last_day (h @ [sn]))) = classify_trend sn" by (simp add: last_day_snoc)
  with ts ds frame show "tracks e' s (h @ [sn])" by (simp add: tracks_def Let_def)
  show "ms_day_type st = day_type_reference (h @ [sn])" using ds(2) st by simp
  show "ms_trend_bars st = trend_run (map classify_trend (last_day (h @ [sn])))" using ts(4) st by simp
qed

definition tracker_view where
  "tracker_view e s =
     (me_day_type_session e s, me_day_types e s, me_day_type_candidates e s, me_trend_bars_session e s,
      me_trend_bars e s, me_last_trend e s)"

lemma tracks_view: "tracker_view e' s = tracker_view e s \<Longrightarrow> tracks e' s h = tracks e s h"
  by (simp add: tracker_view_def tracks_def votes_ok_def get_default_def)

lemma trackers_other:
  assumes "s' \<noteq> s"
  shows "tracker_view (fst (track_trend_bars e s' key t)) s = tracker_view e s"
    "tracker_view (session_reset e s' key) s = tracker_view e s"
    "tracker_view (fst (vote e s' d)) s = tracker_view e s"
  using assms by (simp_all add: track_trend_bars_def session_reset_def vote_def tracker_view_def Let_def)

lemma classify_other:
  assumes "tracks e s h" "classify e s' sn = (e', st)" "s' \<noteq> s"
  shows "tracks e' s h"
proof -
  obtain e1 n where t: "track_trend_bars e s' (snapshot_day sn) (classify_trend sn) = (e1, n)" by fastforce
  obtain d where c: "classify_day_type e1 s' (snapshot_day sn) sn (classify_trend sn) (classify_vwap sn) = (e', d)"
    using assms(2) t by (auto simp: classify_def snapshot_day_def Let_def split: prod.splits)
  from c have "e' = session_reset e1 s' (snapshot_day sn)
      \<or> e' = fst (vote (session_reset e1 s' (snapshot_day sn)) s' (day_type_candidate sn (classify_trend sn) (classify_vwap sn)))"
    by (auto simp: classify_day_type_alt split: option.splits if_splits)
  moreover from t have "e1 = fst (track_trend_bars e s' (snapshot_day sn) (classify_trend sn))" by simp
  ultimately have "tracker_view e' s = tracker_view e s" using trackers_other [OF assms(3)] by metis
  with assms(1) tracks_view show ?thesis by blast
qed

definition market_state_run :: "market_state_engine \<Rightarrow> (bar_snapshot \<times> bar_bundle) list \<Rightarrow> market_state_engine" where
  "market_state_run e xs = foldl (\<lambda>e (sn, b). fst (market_state_process_bar e sn b)) e xs"

definition snapshots_of :: "string \<Rightarrow> (bar_snapshot \<times> bar_bundle) list \<Rightarrow> bar_snapshot list" where
  "snapshots_of s xs = [sn \<leftarrow> map fst xs. sn_symbol sn = s]"

lemma run_tracks: "tracks (market_state_run market_state_engine_init xs) s (snapshots_of s xs)"
proof (induction xs rule: rev_induct)
  case Nil
  show ?case
    by (simp add: market_state_run_def snapshots_of_def market_state_engine_init_def tracks_def votes_ok_def
        get_default_def last_day_def)
next
  case (snoc x xs)
  obtain sn b where x: "x = (sn, b)" by fastforce
  let ?e = "market_state_run market_state_engine_init xs"
  obtain e' st where c: "classify ?e (sn_symbol sn) sn = (e', st)" by fastforce
  have "tracks e' s (snapshots_of s (xs @ [x]))"
  proof (cases "sn_symbol sn = s")
    case True
    with classify_tracks(1) [OF snoc c [unfolded True]] x show ?thesis by (simp add: snapshots_of_def)
  next
    case False
    with classify_other [OF snoc c] x show ?thesis by (simp add: snapshots_of_def)
  qed
  then show ?case using c x by (simp add: market_state_run_def market_state_process_bar_def tracks_def votes_ok_def Let_def)
qed

text \<open>
  C12. Day type and trend length are functions of the symbol's own snapshots since its last change of UTC date,
  however bars of other symbols interleave: the day type is the first candidate that three consecutive
  eligible bars agree on (opening range established, at least 30 bars), unknown before that and fixed
  after it; the trend length counts the equal trends at the end.
\<close>

theorem day_type_is_first_agreement:
  "case market_state_process_bar (market_state_run market_state_engine_init xs) sn b of (e, st, events) \<Rightarrow>
     ms_day_type st = day_type_reference (snapshots_of (sn_symbol sn) (xs @ [(sn, b)]))
     \<and> ms_trend_bars st = trend_run (map classify_trend (last_day (snapshots_of (sn_symbol sn) (xs @ [(sn, b)]))))"
proof -
  let ?e = "market_state_run market_state_engine_init xs"
  obtain e' st where c: "classify ?e (sn_symbol sn) sn = (e', st)" by fastforce
  with classify_tracks(2,3) [OF run_tracks c] show ?thesis
    by (simp add: market_state_process_bar_def snapshots_of_def)
qed

end
