(* ===== verification/Htf_Ema.thy ===== *)
theory Htf_Ema
  imports Snapshots
begin

text \<open>
  The higher-timeframe part of the feature engine, \<^verbatim>\<open>src/alpha/engines/feature/engine.py\<close>: the state
  \<open>_HTFEMAState\<close> of one timeframe, its update on a sealed bar with moving averages, true range,
  slopes and the one-hour ribbon, and where a close lies against the ribbon. A bounded deque is a
  list pushed at the end. Decimal operations round by \<open>dq\<close>, conversions and float
  operations by \<open>fl\<close>. The \<open>_slope\<close> percentages of the state are written and read by nobody else;
  they are kept.
\<close>

section \<open>Shared helpers of the engine\<close>

definition push :: "nat \<Rightarrow> 'a \<Rightarrow> 'a list \<Rightarrow> 'a list" where
  "push n x xs = drop (length xs + 1 - n) (xs @ [x])"

text \<open>\<open>sum\<close> of Decimals, from the integer zero.\<close>

definition dec_sum :: "dec list \<Rightarrow> dec" where
  "dec_sum xs = foldl (\<lambda>acc x. dq (acc + x)) 0 xs"

definition dec_mean :: "dec list \<Rightarrow> dec" where
  "dec_mean xs = dq (dec_sum xs / of_nat (length xs))"

definition ema :: "dec \<Rightarrow> dec option \<Rightarrow> int \<Rightarrow> dec" where
  "ema price prev period =
     (case prev of
        None \<Rightarrow> price
      | Some p \<Rightarrow> (let k = dq (2 / of_int (period + 1)) in dq (dq (price * k) + dq (p * dq (1 - k)))))"

definition pct_slope :: "dec option \<Rightarrow> dec option \<Rightarrow> rat option" where
  "pct_slope current prev =
     (case (current, prev) of
        (Some c, Some p) \<Rightarrow> if p \<le> 0 then None else Some (fl (dq (dq (dq (c - p) / p) * 100)))
      | _ \<Rightarrow> None)"

definition norm3_slope :: "dec list \<Rightarrow> dec option \<Rightarrow> rat option" where
  "norm3_slope history atr =
     (case atr of
        None \<Rightarrow> None
      | Some a \<Rightarrow>
          if length history < 4 \<or> a \<le> 0 then None
          else Some (fl (dq (dq (last history - hd history) / dq (3 * a)))))"

definition true_range :: "dec \<Rightarrow> dec \<Rightarrow> dec \<Rightarrow> dec" where
  "true_range high low prev_close =
     max (max (dq (high - low)) \<bar>dq (high - prev_close)\<bar>) \<bar>dq (low - prev_close)\<bar>"

text \<open>\<open>float(x / atr)\<close>.\<close>

definition in_atr :: "dec \<Rightarrow> dec \<Rightarrow> rat" where
  "in_atr x atr = fl (dq (x / atr))"

section \<open>State\<close>

record htf_state =
  ht_ema_9 :: "dec option"
  ht_ema_21 :: "dec option"
  ht_ema_10 :: "dec option"
  ht_ema_20 :: "dec option"
  ht_ema_50 :: "dec option"
  ht_prev_ema_9 :: "dec option"
  ht_prev_ema_21 :: "dec option"
  ht_prev_ema_10 :: "dec option"
  ht_prev_ema_20 :: "dec option"
  ht_prev_ema_50 :: "dec option"
  ht_ema_9_slope :: "rat option"
  ht_ema_21_slope :: "rat option"
  ht_ema_10_slope :: "rat option"
  ht_ema_20_slope :: "rat option"
  ht_ema_50_slope :: "rat option"
  ht_track_ema10 :: bool
  ht_track_ema20 :: bool
  ht_track_ema50 :: bool
  ht_sma200_buf :: "dec list option"
  ht_sma_200 :: "dec option"
  ht_track_atr30 :: bool
  ht_atr30_min_samples :: int
  ht_prev_close :: "dec option"
  ht_atr30_buffer :: "dec list"
  ht_atr30 :: "dec option"
  ht_atr30_sample_count :: int
  ht_ema9_history :: "dec list"
  ht_ema21_history :: "dec list"
  ht_ema50_history :: "dec list"
  ht_last_sealed_ts :: "timestamp option"
  ht_prev_ema9_slope_norm_3 :: "rat option"
  ht_prev_ema21_slope_norm_3 :: "rat option"
  ht_ema9_slope_accel :: "rat option"
  ht_ema21_slope_accel :: "rat option"
  ht_slope9_norm3 :: "rat option"
  ht_slope21_norm3 :: "rat option"
  ht_slope50_norm3 :: "rat option"
  ht_dir9 :: "string option"
  ht_dir21 :: "string option"
  ht_dir50 :: "string option"
  ht_track_ribbon :: bool
  ht_ribbon_width_history :: "rat list"
  ht_ribbon_low :: "dec option"
  ht_ribbon_high :: "dec option"
  ht_ribbon_center :: "dec option"
  ht_ribbon_width_atr :: "rat option"
  ht_ema9_21_dist_atr :: "rat option"
  ht_ema21_50_dist_atr :: "rat option"
  ht_stack_direction :: "string option"
  ht_slope_alignment :: "string option"
  ht_h1_close_location :: "string option"
  ht_h1_close_to_ribbon_atr :: "rat option"
  ht_h1_close_to_center_atr :: "rat option"
  ht_ribbon_width_percentile :: "rat option"
  ht_ribbon_width_slope_3h :: "rat option"
  ht_ribbon_width_slope_6h :: "rat option"

text \<open>The keyword arguments of an update, which a new state keeps.\<close>

record htf_tracking =
  tk_ema10 :: bool
  tk_ema20 :: bool
  tk_ema50 :: bool
  tk_sma200 :: bool
  tk_atr30 :: bool
  tk_ribbon :: bool
  tk_atr30_min_samples :: int

definition htf_state_new :: "htf_tracking \<Rightarrow> htf_state" where
  "htf_state_new tk =
     \<lparr>ht_ema_9 = None, ht_ema_21 = None, ht_ema_10 = None, ht_ema_20 = None, ht_ema_50 = None,
      ht_prev_ema_9 = None, ht_prev_ema_21 = None, ht_prev_ema_10 = None, ht_prev_ema_20 = None,
      ht_prev_ema_50 = None, ht_ema_9_slope = None, ht_ema_21_slope = None, ht_ema_10_slope = None,
      ht_ema_20_slope = None, ht_ema_50_slope = None, ht_track_ema10 = tk_ema10 tk,
      ht_track_ema20 = tk_ema20 tk, ht_track_ema50 = tk_ema50 tk,
      ht_sma200_buf = (if tk_sma200 tk then Some [] else None), ht_sma_200 = None,
      ht_track_atr30 = tk_atr30 tk, ht_atr30_min_samples = tk_atr30_min_samples tk,
      ht_prev_close = None, ht_atr30_buffer = [], ht_atr30 = None, ht_atr30_sample_count = 0,
      ht_ema9_history = [], ht_ema21_history = [], ht_ema50_history = [], ht_last_sealed_ts = None,
      ht_prev_ema9_slope_norm_3 = None, ht_prev_ema21_slope_norm_3 = None,
      ht_ema9_slope_accel = None, ht_ema21_slope_accel = None, ht_slope9_norm3 = None,
      ht_slope21_norm3 = None, ht_slope50_norm3 = None, ht_dir9 = None, ht_dir21 = None,
      ht_dir50 = None, ht_track_ribbon = tk_ribbon tk, ht_ribbon_width_history = [],
      ht_ribbon_low = None, ht_ribbon_high = None, ht_ribbon_center = None, ht_ribbon_width_atr = None,
      ht_ema9_21_dist_atr = None, ht_ema21_50_dist_atr = None, ht_stack_direction = None,
      ht_slope_alignment = None, ht_h1_close_location = None, ht_h1_close_to_ribbon_atr = None,
      ht_h1_close_to_center_atr = None, ht_ribbon_width_percentile = None,
      ht_ribbon_width_slope_3h = None, ht_ribbon_width_slope_6h = None\<rparr>"

definition ATR30_5M_MIN_SAMPLES :: int where "ATR30_5M_MIN_SAMPLES = 5"
definition ATR30_1H_MIN_SAMPLES :: int where "ATR30_1H_MIN_SAMPLES = 3"
definition RIBBON_HISTORY_LEN :: nat where "RIBBON_HISTORY_LEN = 120"

definition M5_TRACKING :: htf_tracking where
  "M5_TRACKING =
     \<lparr>tk_ema10 = False, tk_ema20 = False, tk_ema50 = False, tk_sma200 = False, tk_atr30 = True,
      tk_ribbon = False, tk_atr30_min_samples = ATR30_5M_MIN_SAMPLES\<rparr>"

definition H1_TRACKING :: htf_tracking where
  "H1_TRACKING =
     \<lparr>tk_ema10 = False, tk_ema20 = False, tk_ema50 = True, tk_sma200 = True, tk_atr30 = True,
      tk_ribbon = True, tk_atr30_min_samples = ATR30_1H_MIN_SAMPLES\<rparr>"

definition D1_TRACKING :: htf_tracking where
  "D1_TRACKING =
     \<lparr>tk_ema10 = True, tk_ema20 = True, tk_ema50 = False, tk_sma200 = False, tk_atr30 = False,
      tk_ribbon = False, tk_atr30_min_samples = 1\<rparr>"

section \<open>The update on a sealed bar\<close>

definition htf_emas :: "htf_state \<Rightarrow> bar_event \<Rightarrow> htf_state" where
  "htf_emas h bar =
     (let close = be_close bar;
          e9 = ema close (ht_ema_9 h) 9;
          e21 = ema close (ht_ema_21 h) 21;
          e10 = (if ht_track_ema10 h then Some (ema close (ht_ema_10 h) 10) else ht_ema_10 h);
          e20 = (if ht_track_ema20 h then Some (ema close (ht_ema_20 h) 20) else ht_ema_20 h);
          e50 = (if ht_track_ema50 h then Some (ema close (ht_ema_50 h) 50) else ht_ema_50 h);
          buf = map_option (push 200 close) (ht_sma200_buf h);
          sma = (case buf of None \<Rightarrow> ht_sma_200 h
                 | Some xs \<Rightarrow> if length xs = 200 then Some (dq (dec_sum xs / 200)) else ht_sma_200 h)
      in h\<lparr>ht_prev_ema_9 := ht_ema_9 h, ht_prev_ema_21 := ht_ema_21 h, ht_prev_ema_10 := ht_ema_10 h,
           ht_prev_ema_20 := ht_ema_20 h, ht_prev_ema_50 := ht_ema_50 h,
           ht_ema_9 := Some e9, ht_ema_21 := Some e21, ht_ema_10 := e10, ht_ema_20 := e20, ht_ema_50 := e50,
           ht_sma200_buf := buf, ht_sma_200 := sma,
           ht_ema_9_slope := pct_slope (Some e9) (ht_ema_9 h),
           ht_ema_21_slope := pct_slope (Some e21) (ht_ema_21 h),
           ht_ema_10_slope := pct_slope e10 (ht_ema_10 h),
           ht_ema_20_slope := pct_slope e20 (ht_ema_20 h),
           ht_ema_50_slope := pct_slope e50 (ht_ema_50 h),
           ht_ema9_history := push 4 e9 (ht_ema9_history h),
           ht_ema21_history := push 4 e21 (ht_ema21_history h),
           ht_ema50_history := (case (ht_track_ema50 h, e50) of (True, Some e) \<Rightarrow> push 4 e (ht_ema50_history h)
                                | _ \<Rightarrow> ht_ema50_history h),
           ht_last_sealed_ts := Some (be_timestamp bar)\<rparr>)"

definition htf_atr :: "htf_state \<Rightarrow> bar_event \<Rightarrow> htf_state" where
  "htf_atr h bar =
     (if \<not> ht_track_atr30 h then h
      else case ht_prev_close h of
        None \<Rightarrow> h\<lparr>ht_prev_close := Some (be_close bar)\<rparr>
      | Some pc \<Rightarrow>
          (let buf = push 30 (true_range (be_high bar) (be_low bar) pc) (ht_atr30_buffer h);
               n = ht_atr30_sample_count h + 1
           in h\<lparr>ht_atr30_buffer := buf, ht_atr30_sample_count := n,
                ht_atr30 := (if n \<ge> ht_atr30_min_samples h then Some (dec_mean buf) else ht_atr30 h),
                ht_prev_close := Some (be_close bar)\<rparr>))"

text \<open>A close against the ribbon: its side and the distance to the nearer edge.\<close>

definition ribbon_location :: "dec \<Rightarrow> dec \<Rightarrow> dec \<Rightarrow> dec \<Rightarrow> string \<times> rat" where
  "ribbon_location close low high atr =
     (if close > high then (''above'', in_atr (dq (close - high)) atr)
      else if close < low then (''below'', in_atr (dq (close - low)) atr)
      else (''inside'', 0))"

definition slope_alignment :: "string option \<Rightarrow> string option \<Rightarrow> string option \<Rightarrow> string" where
  "slope_alignment d9 d21 d50 =
     (if d9 = Some ''up'' \<and> d21 = Some ''up'' \<and> d50 = Some ''up'' then ''bullish''
      else if d9 = Some ''down'' \<and> d21 = Some ''down'' \<and> d50 = Some ''down'' then ''bearish''
      else if d9 = Some ''flat'' \<and> d21 = Some ''flat'' \<and> d50 = Some ''flat'' then ''flat''
      else ''mixed'')"

text \<open>The rank of a width among the last 60 sealed ones, and its slope over \<open>n\<close> of them.\<close>

definition width_percentile :: "rat \<Rightarrow> rat list \<Rightarrow> rat option" where
  "width_percentile width history =
     (let prev = drop (length history - 60) history in
      if prev = [] then None
      else Some (fl (fl (of_nat (length [w \<leftarrow> prev. w \<le> width]) / of_nat (length prev)) * 100)))"

definition width_slope :: "rat \<Rightarrow> rat list \<Rightarrow> nat \<Rightarrow> rat option" where
  "width_slope width history n =
     (if length history \<ge> n then Some (fl (fl (width - history ! (length history - n)) / of_nat n)) else None)"

definition ribbon_geometry :: "htf_state \<Rightarrow> bar_event \<Rightarrow> dec \<Rightarrow> dec \<Rightarrow> dec \<Rightarrow> dec \<Rightarrow> htf_state" where
  "ribbon_geometry h bar e9 e21 e50 atr30 =
     (let low = min (min e9 e21) e50; high = max (max e9 e21) e50;
          center = dq (dq (dq (e9 + e21) + e50) / 3);
          width = in_atr (dq (high - low)) atr30;
          s9 = norm3_slope (ht_ema9_history h) (Some atr30);
          s21 = norm3_slope (ht_ema21_history h) (Some atr30);
          s50 = norm3_slope (ht_ema50_history h) (Some atr30);
          d9 = classify_slope s9 SLOPE_FLAT_THRESHOLD_1H;
          d21 = classify_slope s21 SLOPE_FLAT_THRESHOLD_1H;
          d50 = classify_slope s50 SLOPE_FLAT_THRESHOLD_1H;
          (loc, dist_to_edge) = ribbon_location (be_close bar) low high atr30
      in h\<lparr>ht_ribbon_low := Some low, ht_ribbon_high := Some high, ht_ribbon_center := Some center,
           ht_ribbon_width_atr := Some width,
           ht_ema9_21_dist_atr := Some (in_atr (dq (e9 - e21)) atr30),
           ht_ema21_50_dist_atr := Some (in_atr (dq (e21 - e50)) atr30),
           ht_stack_direction := Some (if e9 > e21 \<and> e21 > e50 then ''bullish''
                                       else if e9 < e21 \<and> e21 < e50 then ''bearish'' else ''mixed''),
           ht_slope9_norm3 := s9, ht_slope21_norm3 := s21, ht_slope50_norm3 := s50,
           ht_dir9 := d9, ht_dir21 := d21, ht_dir50 := d50,
           ht_slope_alignment := Some (slope_alignment d9 d21 d50),
           ht_h1_close_location := Some loc, ht_h1_close_to_ribbon_atr := Some dist_to_edge,
           ht_h1_close_to_center_atr := Some (in_atr (dq (be_close bar - center)) atr30),
           ht_ribbon_width_percentile := width_percentile width (ht_ribbon_width_history h),
           ht_ribbon_width_slope_3h := width_slope width (ht_ribbon_width_history h) 3,
           ht_ribbon_width_slope_6h := width_slope width (ht_ribbon_width_history h) 6,
           ht_ribbon_width_history := push RIBBON_HISTORY_LEN width (ht_ribbon_width_history h)\<rparr>)"

definition htf_ribbon :: "htf_state \<Rightarrow> bar_event \<Rightarrow> htf_state" where
  "htf_ribbon h bar =
     (if \<not> ht_track_ribbon h then h
      else case (ht_ema_9 h, ht_ema_21 h, ht_ema_50 h, ht_atr30 h) of
             (Some e9, Some e21, Some e50, Some atr30) \<Rightarrow>
               if atr30 > 0 then ribbon_geometry h bar e9 e21 e50 atr30
               else h\<lparr>ht_slope9_norm3 := None, ht_slope21_norm3 := None, ht_slope50_norm3 := None,
                      ht_dir9 := None, ht_dir21 := None, ht_dir50 := None\<rparr>
           | _ \<Rightarrow> h\<lparr>ht_slope9_norm3 := None, ht_slope21_norm3 := None, ht_slope50_norm3 := None,
                    ht_dir9 := None, ht_dir21 := None, ht_dir50 := None\<rparr>)"

definition update_htf_ema :: "htf_tracking \<Rightarrow> (string \<rightharpoonup> htf_state) \<Rightarrow> bar_event \<Rightarrow> (string \<rightharpoonup> htf_state)" where
  "update_htf_ema tk store bar =
     (let h = get_default store (be_symbol bar) (htf_state_new tk)
      in store(be_symbol bar \<mapsto> htf_ribbon (htf_atr (htf_emas h bar) bar) bar))"

text \<open>Where a one-minute close lies against the carried ribbon: location, distances to edge and center.\<close>

definition m1_ribbon_location :: "dec \<Rightarrow> htf_state option \<Rightarrow> string option \<times> rat option \<times> rat option" where
  "m1_ribbon_location close h1 =
     (case h1 of
        None \<Rightarrow> (None, None, None)
      | Some h \<Rightarrow>
          (case (ht_ribbon_low h, ht_ribbon_high h, ht_ribbon_center h, ht_atr30 h) of
             (Some low, Some high, Some center, Some atr) \<Rightarrow>
               if atr \<le> 0 then (None, None, None)
               else (case ribbon_location close low high atr of
                       (loc, edge) \<Rightarrow> (Some loc, Some edge, Some (in_atr (dq (close - center)) atr)))
           | _ \<Rightarrow> (None, None, None)))"

section \<open>What every reachable state satisfies\<close>

definition htf_ok :: "htf_state \<Rightarrow> bool" where
  "htf_ok h \<longleftrightarrow>
     length (ht_atr30_buffer h) \<le> 30 \<and> length (ht_ema9_history h) \<le> 4 \<and> length (ht_ema21_history h) \<le> 4
     \<and> length (ht_ema50_history h) \<le> 4 \<and> length (ht_ribbon_width_history h) \<le> RIBBON_HISTORY_LEN
     \<and> (\<forall>buf. ht_sma200_buf h = Some buf \<longrightarrow> length buf \<le> 200)
     \<and> list_all (\<lambda>x. 0 \<le> x) (ht_atr30_buffer h) \<and> list_all (\<lambda>w. 0 \<le> w) (ht_ribbon_width_history h)
     \<and> (\<forall>a. ht_atr30 h = Some a \<longrightarrow> 0 \<le> a \<and> ht_atr30_min_samples h \<le> ht_atr30_sample_count h)
     \<and> (\<forall>low high. ht_ribbon_low h = Some low \<longrightarrow> ht_ribbon_high h = Some high \<longrightarrow> low \<le> high)
     \<and> (\<forall>w. ht_ribbon_width_atr h = Some w \<longrightarrow> 0 \<le> w)
     \<and> (\<forall>p. ht_ribbon_width_percentile h = Some p \<longrightarrow> 0 \<le> p \<and> p \<le> 100)"

lemma length_push [simp]: "length (push n x xs) = min n (length xs + 1)"
  by (simp add: push_def)

lemma set_push: "set (push n x xs) \<subseteq> insert x (set xs)"
  using set_drop_subset [of "length xs + 1 - n" "xs @ [x]"] by (auto simp: push_def)

lemma list_all_push: "list_all P xs \<Longrightarrow> P x \<Longrightarrow> list_all P (push n x xs)"
  using set_push [of n x xs] by (auto simp: list_all_iff)

lemma dec_sum_nonneg: "list_all (\<lambda>x. 0 \<le> x) xs \<Longrightarrow> 0 \<le> dec_sum xs"
proof -
  assume "list_all (\<lambda>x. 0 \<le> x) xs"
  then have "0 \<le> foldl (\<lambda>acc x. dq (acc + x)) a xs" if "0 \<le> a" for a
    using that by (induction xs arbitrary: a) (simp_all add: dq_nonneg)
  then show ?thesis by (simp add: dec_sum_def)
qed

lemma dec_mean_nonneg: "list_all (\<lambda>x. 0 \<le> x) xs \<Longrightarrow> 0 \<le> dec_mean xs"
  by (simp add: dec_mean_def dq_nonneg dec_sum_nonneg)

lemma true_range_nonneg: "0 \<le> true_range high low pc"
  by (simp add: true_range_def le_max_iff_disj)

lemma percentile_bounds:
  assumes "width_percentile w history = Some p"
  shows "0 \<le> p \<and> p \<le> 100"
proof -
  let ?prev = "drop (length history - 60) history"
  let ?r = "of_nat (length [x \<leftarrow> ?prev. x \<le> w]) / of_nat (length ?prev) :: rat"
  have p: "p = fl (fl ?r * 100)" using assms by (auto simp: width_percentile_def Let_def split: if_splits)
  have "0 \<le> ?r" by simp
  moreover have "?r \<le> 1"
    using length_filter_le [of "\<lambda>x. x \<le> w" ?prev] by (cases "?prev = []") (simp_all add: divide_le_eq_1 del: length_drop drop_eq_Nil)
  ultimately have "0 \<le> fl ?r" "fl ?r \<le> 1" using fl_unit [of ?r] by blast+
  then have "0 \<le> fl ?r * 100" "fl ?r * 100 \<le> of_int 100" by simp_all
  then show ?thesis unfolding p using fl_nonneg [of "fl ?r * 100"] fl_le_int [of "fl ?r * 100" 100] by simp
qed

lemma ok_new: "htf_ok (htf_state_new tk)"
  by (simp add: htf_ok_def htf_state_new_def)

lemma ok_emas: "htf_ok h \<Longrightarrow> htf_ok (htf_emas h bar)"
  unfolding htf_emas_def Let_def
  by (cases "ht_sma200_buf h") (simp_all add: htf_ok_def split: bool.split option.split)

lemma ok_atr: "htf_ok h \<Longrightarrow> htf_ok (htf_atr h bar)"
proof (cases "ht_track_atr30 h")
  case True
  assume h: "htf_ok h"
  show ?thesis
  proof (cases "ht_prev_close h")
    case (Some pc)
    let ?buf = "push 30 (true_range (be_high bar) (be_low bar) pc) (ht_atr30_buffer h)"
    have "list_all (\<lambda>x. 0 \<le> x) ?buf" using h by (intro list_all_push true_range_nonneg) (simp add: htf_ok_def)
    with h Some True dec_mean_nonneg [OF this] show ?thesis
      by (auto simp: htf_atr_def htf_ok_def Let_def split: option.splits)
  qed (use h True in \<open>simp add: htf_atr_def htf_ok_def\<close>)
qed (simp add: htf_atr_def)

lemma ok_geometry:
  assumes h: "htf_ok h" and "0 < atr"
  shows "htf_ok (ribbon_geometry h bar e9 e21 e50 atr)"
proof -
  let ?low = "min (min e9 e21) e50" and ?high = "max (max e9 e21) e50"
  define width where "width = in_atr (dq (?high - ?low)) atr"
  have le: "?low \<le> ?high" by simp
  then have w: "0 \<le> width"
    using assms(2) unfolding width_def in_atr_def by (intro fl_nonneg dq_nonneg) (simp add: dq_nonneg)
  have hist: "list_all (\<lambda>w. 0 \<le> w) (push RIBBON_HISTORY_LEN width (ht_ribbon_width_history h))"
    using h w by (intro list_all_push) (simp_all add: htf_ok_def)
  show ?thesis
    using h le w hist percentile_bounds [of width "ht_ribbon_width_history h"]
    unfolding ribbon_geometry_def Let_def width_def [symmetric] htf_ok_def
    by (simp add: case_prod_unfold split: option.split)
qed

lemma ok_ribbon: "htf_ok h \<Longrightarrow> htf_ok (htf_ribbon h bar)"
proof -
  assume h: "htf_ok h"
  then have clear: "htf_ok (h\<lparr>ht_slope9_norm3 := None, ht_slope21_norm3 := None, ht_slope50_norm3 := None,
      ht_dir9 := None, ht_dir21 := None, ht_dir50 := None\<rparr>)" by (simp add: htf_ok_def)
  show ?thesis using h ok_geometry [OF h] clear by (simp add: htf_ribbon_def split: option.split)
qed

text \<open>
  Whatever bars arrive, the state of a higher timeframe stays within its windows (30 true ranges, 4
  averages, 200 closes, 120 widths); its ATR is not negative and appears only after the minimum
  number of samples; its ribbon is ordered with a width that is not negative, and the width's
  percentile lies between 0 and 100.
\<close>

theorem htf_state_stays_ok:
  "case foldl (update_htf_ema tk) Map.empty bars s of None \<Rightarrow> True | Some h \<Rightarrow> htf_ok h"
proof -
  define I where "I store \<longleftrightarrow> (\<forall>s. case store s of None \<Rightarrow> True | Some h \<Rightarrow> htf_ok h)" for store :: "string \<rightharpoonup> htf_state"
  have "I (foldl (update_htf_ema tk) Map.empty bars)"
  proof (rule foldl_invariant [where I = I])
    show "I (update_htf_ema tk store bar)" if "I store" for store and bar :: bar_event
    proof -
      have "htf_ok (get_default store (be_symbol bar) (htf_state_new tk))"
        using that ok_new [of tk] by (auto simp: I_def get_default_def split: option.splits dest: spec [of _ "be_symbol bar"])
      from ok_ribbon [OF ok_atr [OF ok_emas [OF this]]] that show ?thesis by (auto simp: I_def update_htf_ema_def Let_def)
    qed
  qed (simp add: I_def)
  then show ?thesis by (simp add: I_def)
qed

end
