(* ===== verification/Feature_State.thy ===== *)
theory Feature_State
  imports Htf_Ema Float_Math Calendars Registry
begin

text \<open>
  The per-symbol state of the feature engine, \<^verbatim>\<open>src/alpha/engines/feature/engine.py\<close>: the class
  \<open>SymbolFeatureState\<close>, its session reset and VWAPs, the update on a one-minute bar in the order of
  \<open>_update_state\<close>, and the tick handler that keeps the intraday extremes between bars. Decimal operations
  round by \<open>dq\<close>, float operations by \<open>fl\<close>. The session date, a midnight \<open>datetime\<close> in the code, is its date.
\<close>

section \<open>State\<close>

record feature_state =
  fs_ticker :: string
  fs_orb_minutes :: int
  fs_bars :: "bar_event list"
  fs_bars_since_open :: int
  fs_cumulative_volume :: int
  fs_cumulative_vwap_num :: dec
  fs_orb_high :: "dec option"
  fs_orb_low :: "dec option"
  fs_orb_established :: bool
  fs_session_date :: "date option"
  fs_ema_9 :: "dec option"
  fs_ema_20 :: "dec option"
  fs_ema_21 :: "dec option"
  fs_ema_50 :: "dec option"
  fs_latest_bid :: "dec option"
  fs_latest_ask :: "dec option"
  fs_atr_buffer :: "dec list"
  fs_prev_close :: "dec option"
  fs_volume_buffer :: "int list"
  fs_relative_volume :: "rat option"
  fs_bars_above_vwap :: int
  fs_bars_below_vwap :: int
  fs_bars_below_vwap_at_cross :: int
  fs_bars_above_vwap_at_cross :: int
  fs_prev_above_vwap :: "bool option"
  fs_prev_vwap_deviation_pct :: "rat option"
  fs_vwap_deviation_shrinking :: bool
  fs_vwap_cross_up :: bool
  fs_vwap_cross_down :: bool
  fs_intraday_high :: "dec option"
  fs_intraday_low :: "dec option"
  fs_is_new_hod :: bool
  fs_is_new_lod :: bool
  fs_is_higher_high :: bool
  fs_is_lower_low :: bool
  fs_is_lower_high :: bool
  fs_is_inside_bar :: bool
  fs_is_outside_bar :: bool
  fs_prev_bar_high :: "dec option"
  fs_prev_bar_low :: "dec option"
  fs_prev_ema_9 :: "dec option"
  fs_prev_ema_20 :: "dec option"
  fs_prev_vwap :: "dec option"
  fs_bars_since_last_lower_low :: int
  fs_session_key :: "date option"
  fs_vwap_touch_count :: int
  fs_last_vwap_outcome :: "string option"
  fs_bars_since_last_vwap_touch :: int
  fs_vwap_last_cross_direction :: "string option"
  fs_vwap_bars_since_cross :: int
  fs_vwap_touch_cooldown :: int
  fs_session_sweep_low :: "dec option"
  fs_session_reject_high :: "dec option"
  fs_atr_30_buffer :: "dec list"
  fs_atr_30 :: "dec option"
  fs_ema9_1m_history :: "dec list"
  fs_ema21_1m_history :: "dec list"
  fs_prev_ema9_1m_slope_norm_3 :: "rat option"
  fs_prev_ema21_1m_slope_norm_3 :: "rat option"
  fs_ema_bearish_persistence_bars :: int
  fs_ema_bullish_persistence_bars :: int
  fs_prev_vwap_distance_atr :: "rat option"
  fs_rth_ranges :: "dec list"
  fs_rth_median_1m_range :: "dec option"
  fs_rth_p75_1m_range :: "dec option"
  fs_rth_p90_1m_range :: "dec option"
  fs_rth_intraday_low :: "dec option"
  fs_is_new_rth_lod :: bool
  fs_rth_vwap_num :: dec
  fs_rth_vwap_vol :: int
  fs_rth_session_active :: bool

definition feature_state_new :: "string \<Rightarrow> int \<Rightarrow> feature_state" where
  "feature_state_new ticker minutes =
     \<lparr>fs_ticker = ticker, fs_orb_minutes = minutes, fs_bars = [], fs_bars_since_open = 0,
      fs_cumulative_volume = 0, fs_cumulative_vwap_num = 0, fs_orb_high = None, fs_orb_low = None,
      fs_orb_established = False, fs_session_date = None, fs_ema_9 = None, fs_ema_20 = None,
      fs_ema_21 = None, fs_ema_50 = None, fs_latest_bid = None, fs_latest_ask = None, fs_atr_buffer = [],
      fs_prev_close = None, fs_volume_buffer = [], fs_relative_volume = None, fs_bars_above_vwap = 0,
      fs_bars_below_vwap = 0, fs_bars_below_vwap_at_cross = 0, fs_bars_above_vwap_at_cross = 0,
      fs_prev_above_vwap = None, fs_prev_vwap_deviation_pct = None, fs_vwap_deviation_shrinking = False,
      fs_vwap_cross_up = False, fs_vwap_cross_down = False, fs_intraday_high = None, fs_intraday_low = None,
      fs_is_new_hod = False, fs_is_new_lod = False, fs_is_higher_high = False, fs_is_lower_low = False,
      fs_is_lower_high = False, fs_is_inside_bar = False, fs_is_outside_bar = False,
      fs_prev_bar_high = None, fs_prev_bar_low = None, fs_prev_ema_9 = None, fs_prev_ema_20 = None,
      fs_prev_vwap = None, fs_bars_since_last_lower_low = 999, fs_session_key = None,
      fs_vwap_touch_count = 0, fs_last_vwap_outcome = None, fs_bars_since_last_vwap_touch = 0,
      fs_vwap_last_cross_direction = None, fs_vwap_bars_since_cross = 0, fs_vwap_touch_cooldown = 0,
      fs_session_sweep_low = None, fs_session_reject_high = None, fs_atr_30_buffer = [], fs_atr_30 = None,
      fs_ema9_1m_history = [], fs_ema21_1m_history = [], fs_prev_ema9_1m_slope_norm_3 = None,
      fs_prev_ema21_1m_slope_norm_3 = None, fs_ema_bearish_persistence_bars = 0,
      fs_ema_bullish_persistence_bars = 0, fs_prev_vwap_distance_atr = None, fs_rth_ranges = [],
      fs_rth_median_1m_range = None, fs_rth_p75_1m_range = None, fs_rth_p90_1m_range = None,
      fs_rth_intraday_low = None, fs_is_new_rth_lod = False, fs_rth_vwap_num = 0, fs_rth_vwap_vol = 0,
      fs_rth_session_active = False\<rparr>"

definition reset_session :: "feature_state \<Rightarrow> feature_state" where
  "reset_session st =
     st\<lparr>fs_bars_since_open := 0, fs_cumulative_volume := 0, fs_cumulative_vwap_num := 0,
        fs_orb_high := None, fs_orb_low := None, fs_orb_established := False, fs_bars_above_vwap := 0,
        fs_bars_below_vwap := 0, fs_bars_below_vwap_at_cross := 0, fs_bars_above_vwap_at_cross := 0,
        fs_prev_above_vwap := None, fs_prev_vwap_deviation_pct := None,
        fs_vwap_deviation_shrinking := False, fs_vwap_cross_up := False, fs_vwap_cross_down := False,
        fs_intraday_high := None, fs_intraday_low := None, fs_is_new_hod := False, fs_is_new_lod := False,
        fs_is_higher_high := False, fs_is_lower_low := False, fs_is_lower_high := False,
        fs_is_inside_bar := False, fs_is_outside_bar := False, fs_prev_bar_high := None,
        fs_prev_bar_low := None, fs_prev_ema_9 := None, fs_prev_ema_20 := None, fs_prev_vwap := None,
        fs_bars_since_last_lower_low := 999, fs_session_key := None, fs_vwap_touch_count := 0,
        fs_last_vwap_outcome := None, fs_bars_since_last_vwap_touch := 0,
        fs_vwap_last_cross_direction := None, fs_vwap_bars_since_cross := 0, fs_vwap_touch_cooldown := 0,
        fs_session_sweep_low := None, fs_session_reject_high := None, fs_atr_30_buffer := [],
        fs_atr_30 := None, fs_ema9_1m_history := [], fs_ema21_1m_history := [],
        fs_prev_ema9_1m_slope_norm_3 := None, fs_prev_ema21_1m_slope_norm_3 := None,
        fs_ema_bearish_persistence_bars := 0, fs_ema_bullish_persistence_bars := 0,
        fs_prev_vwap_distance_atr := None, fs_rth_ranges := [], fs_rth_median_1m_range := None,
        fs_rth_p75_1m_range := None, fs_rth_p90_1m_range := None, fs_rth_intraday_low := None,
        fs_is_new_rth_lod := False, fs_rth_vwap_num := 0, fs_rth_vwap_vol := 0,
        fs_rth_session_active := False\<rparr>"

definition session_vwap :: "feature_state \<Rightarrow> dec" where
  "session_vwap st =
     (if fs_cumulative_volume st = 0 then 0 else dq (fs_cumulative_vwap_num st / of_int (fs_cumulative_volume st)))"

definition rth_vwap :: "feature_state \<Rightarrow> dec option" where
  "rth_vwap st =
     (if \<not> fs_rth_session_active st \<or> fs_rth_vwap_vol st = 0 then None
      else Some (dq (fs_rth_vwap_num st / of_int (fs_rth_vwap_vol st))))"

text \<open>Linear interpolation between the neighbours of the rank, the fraction rounded to six places.\<close>

definition percentile :: "dec list \<Rightarrow> rat \<Rightarrow> dec option" where
  "percentile data pct =
     (if data = [] then None
      else
        (let s = sort data; n = int (length s);
             idx = fl (pct * of_int (n - 1));
             lo = int_trunc idx;
             hi = min (lo + 1) (n - 1)
         in if lo = hi then Some (s ! nat lo)
            else (let frac = round_places 6 (fl (idx - of_int lo))
                  in Some (dq (s ! nat lo + dq (dq (s ! nat hi - s ! nat lo) * frac))))))"

section \<open>The parts of the update\<close>

definition typical_price :: "bar_event \<Rightarrow> dec" where
  "typical_price bar = dq (dq (dq (be_high bar + be_low bar) + be_close bar) / 3)"

definition accumulate :: "feature_state \<Rightarrow> bar_event \<Rightarrow> feature_state" where
  "accumulate st bar =
     st\<lparr>fs_prev_vwap := (if fs_cumulative_volume st > 0 then Some (session_vwap st) else None),
        fs_cumulative_volume := fs_cumulative_volume st + be_volume bar,
        fs_cumulative_vwap_num :=
          dq (fs_cumulative_vwap_num st + dq (typical_price bar * of_int (be_volume bar)))\<rparr>"

definition lower :: "dec \<Rightarrow> dec option \<Rightarrow> bool" where
  "lower x best = (case best of None \<Rightarrow> True | Some b \<Rightarrow> x < b)"

definition higher :: "dec \<Rightarrow> dec option \<Rightarrow> bool" where
  "higher x best = (case best of None \<Rightarrow> True | Some b \<Rightarrow> x > b)"

text \<open>The cash-session part: RTH VWAP, opening range, RTH low and the distribution of ranges.\<close>

definition rth_update :: "feature_state \<Rightarrow> bar_event \<Rightarrow> timestamp \<Rightarrow> feature_state" where
  "rth_update st bar orb_end =
     (let in_orb = (\<not> fs_orb_established st \<and> be_timestamp bar < orb_end);
          new_low = lower (be_low bar) (fs_rth_intraday_low st);
          ranges = fs_rth_ranges st
      in st\<lparr>fs_rth_session_active := True,
            fs_rth_vwap_num := dq (fs_rth_vwap_num st + dq (typical_price bar * of_int (be_volume bar))),
            fs_rth_vwap_vol := fs_rth_vwap_vol st + be_volume bar,
            fs_bars_since_open := fs_bars_since_open st + 1,
            fs_orb_high := (if in_orb \<and> higher (be_high bar) (fs_orb_high st) then Some (be_high bar) else fs_orb_high st),
            fs_orb_low := (if in_orb \<and> lower (be_low bar) (fs_orb_low st) then Some (be_low bar) else fs_orb_low st),
            fs_orb_established := (fs_orb_established st \<or> \<not> in_orb),
            fs_is_new_rth_lod := new_low,
            fs_rth_intraday_low := (if new_low then Some (be_low bar) else fs_rth_intraday_low st),
            fs_rth_median_1m_range := percentile ranges (1/2),
            fs_rth_p75_1m_range := percentile ranges (3/4),
            fs_rth_p90_1m_range := percentile ranges (fl (9/10)),
            fs_rth_ranges := ranges @ [dq (be_high bar - be_low bar)]\<rparr>)"

text \<open>The side of VWAP, its crosses and the shrinking deviation, for a positive VWAP.\<close>

definition vwap_deviation :: "dec \<Rightarrow> dec \<Rightarrow> rat" where
  "vwap_deviation close vwap = fl (dq (dq (dq (close - vwap) / vwap) * 100))"

definition vwap_flags :: "feature_state \<Rightarrow> bar_event \<Rightarrow> dec \<Rightarrow> feature_state" where
  "vwap_flags st bar vwap =
     (let is_above = (be_close bar \<ge> vwap);
          dev_pct = vwap_deviation (be_close bar) vwap;
          up = (fs_prev_above_vwap st = Some False \<and> is_above);
          down = (fs_prev_above_vwap st = Some True \<and> \<not> is_above)
      in st\<lparr>fs_bars_above_vwap := (if is_above then fs_bars_above_vwap st + 1 else 0),
            fs_bars_below_vwap := (if is_above then 0 else fs_bars_below_vwap st + 1),
            fs_vwap_cross_up := up, fs_vwap_cross_down := down,
            fs_bars_below_vwap_at_cross := (if up then fs_bars_below_vwap st else fs_bars_below_vwap_at_cross st),
            fs_bars_above_vwap_at_cross := (if down then fs_bars_above_vwap st else fs_bars_above_vwap_at_cross st),
            fs_prev_above_vwap := Some is_above,
            fs_vwap_deviation_shrinking :=
              (case fs_prev_vwap_deviation_pct st of None \<Rightarrow> False | Some prev \<Rightarrow> prev > 0 \<and> dev_pct < prev \<and> dev_pct > 0),
            fs_prev_vwap_deviation_pct := Some dev_pct\<rparr>)"

text \<open>Touches of VWAP: counted on a cross or a sweep, then three bars of cooldown.\<close>

definition vwap_touch :: "feature_state \<Rightarrow> bar_event \<Rightarrow> dec \<Rightarrow> feature_state" where
  "vwap_touch st bar vwap =
     (let is_above = (be_close bar \<ge> vwap);
          swept = (vwap > 0 \<and> be_low bar < vwap \<and> vwap \<le> be_close bar
                   \<and> (case fs_atr_30 st of None \<Rightarrow> True | Some a \<Rightarrow> be_low bar < dq (vwap - dq (a * (1/10)))));
          free = (fs_vwap_touch_cooldown st = 0);
          up = (free \<and> fs_vwap_cross_up st);
          down = (free \<and> \<not> up \<and> fs_vwap_cross_down st);
          sweep = (free \<and> \<not> up \<and> \<not> down \<and> swept \<and> is_above);
          counted = (up \<or> down \<or> sweep);
          cooldown = (if counted then 3 else fs_vwap_touch_cooldown st)
      in st\<lparr>fs_vwap_touch_count := (if counted then fs_vwap_touch_count st + 1 else fs_vwap_touch_count st),
            fs_last_vwap_outcome :=
              (if up then Some ''reclaimed''
               else if down then Some (if fs_vwap_last_cross_direction st = Some ''up'' \<and> fs_vwap_bars_since_cross st \<le> 3
                                       then ''rejected'' else ''broken'')
               else if sweep then Some ''swept'' else fs_last_vwap_outcome st),
            fs_bars_since_last_vwap_touch :=
              (if counted then 0
               else if fs_last_vwap_outcome st \<noteq> None then fs_bars_since_last_vwap_touch st + 1
               else fs_bars_since_last_vwap_touch st),
            fs_vwap_last_cross_direction :=
              (if up then Some ''up'' else if down then Some ''down'' else fs_vwap_last_cross_direction st),
            fs_vwap_bars_since_cross :=
              (if up \<or> down then 0
               else if \<not> counted \<and> fs_vwap_last_cross_direction st \<noteq> None then fs_vwap_bars_since_cross st + 1
               else fs_vwap_bars_since_cross st),
            fs_vwap_touch_cooldown := (if cooldown > 0 then cooldown - 1 else cooldown),
            fs_session_sweep_low :=
              (if vwap > 0 \<and> be_low bar < vwap \<and> lower (be_low bar) (fs_session_sweep_low st)
               then Some (be_low bar) else fs_session_sweep_low st)\<rparr>)"

definition vwap_part :: "feature_state \<Rightarrow> bar_event \<Rightarrow> feature_state" where
  "vwap_part st bar =
     (let vwap = session_vwap st in
      if vwap > 0 then vwap_touch (vwap_flags st bar vwap) bar vwap
      else st\<lparr>fs_vwap_cross_up := False, fs_vwap_cross_down := False, fs_vwap_deviation_shrinking := False\<rparr>)"

definition bar_shape :: "feature_state \<Rightarrow> bar_event \<Rightarrow> feature_state" where
  "bar_shape st bar =
     (let h = be_high bar; l = be_low bar;
          new_hod = higher h (fs_intraday_high st); new_lod = lower l (fs_intraday_low st);
          lower_low = (case fs_prev_bar_low st of None \<Rightarrow> False | Some pl \<Rightarrow> l < pl)
      in st\<lparr>fs_is_new_hod := new_hod, fs_is_new_lod := new_lod,
            fs_intraday_high := (if new_hod then Some h else fs_intraday_high st),
            fs_intraday_low := (if new_lod then Some l else fs_intraday_low st),
            fs_is_higher_high := (case fs_prev_bar_high st of None \<Rightarrow> False | Some ph \<Rightarrow> h > ph),
            fs_is_lower_low := lower_low,
            fs_is_lower_high := (case fs_prev_bar_high st of None \<Rightarrow> False | Some ph \<Rightarrow> h < ph),
            fs_is_inside_bar := (case (fs_prev_bar_high st, fs_prev_bar_low st) of
                                   (Some ph, Some pl) \<Rightarrow> h \<le> ph \<and> l \<ge> pl | _ \<Rightarrow> False),
            fs_is_outside_bar := (case (fs_prev_bar_high st, fs_prev_bar_low st) of
                                   (Some ph, Some pl) \<Rightarrow> h > ph \<and> l < pl | _ \<Rightarrow> False),
            fs_prev_bar_high := Some h, fs_prev_bar_low := Some l,
            fs_bars_since_last_lower_low :=
              (if lower_low then 0
               else if fs_bars_since_last_lower_low st < 999 then fs_bars_since_last_lower_low st + 1
               else fs_bars_since_last_lower_low st)\<rparr>)"

definition idle_flags :: "feature_state \<Rightarrow> feature_state" where
  "idle_flags st =
     st\<lparr>fs_vwap_cross_up := False, fs_vwap_cross_down := False, fs_vwap_deviation_shrinking := False,
        fs_is_new_hod := False, fs_is_new_lod := False, fs_is_new_rth_lod := False,
        fs_is_higher_high := False, fs_is_lower_low := False, fs_is_lower_high := False,
        fs_is_inside_bar := False, fs_is_outside_bar := False\<rparr>"

text \<open>Averages, true ranges and relative volume, on every bar.\<close>

definition indicators :: "feature_state \<Rightarrow> bar_event \<Rightarrow> feature_state" where
  "indicators st bar =
     (let close = be_close bar;
          e9 = ema close (fs_ema_9 st) 9; e21 = ema close (fs_ema_21 st) 21;
          tr = map_option (true_range (be_high bar) (be_low bar)) (fs_prev_close st);
          buf14 = (case tr of None \<Rightarrow> fs_atr_buffer st | Some x \<Rightarrow> push 14 x (fs_atr_buffer st));
          buf30 = (case tr of None \<Rightarrow> fs_atr_30_buffer st | Some x \<Rightarrow> push 30 x (fs_atr_30_buffer st));
          volumes = fs_volume_buffer st;
          avg_vol = fl (of_int (sum_list volumes) / of_nat (length volumes))
      in st\<lparr>fs_ema_9 := Some e9, fs_ema_20 := Some (ema close (fs_ema_20 st) 20), fs_ema_21 := Some e21,
            fs_ema_50 := Some (ema close (fs_ema_50 st) 50),
            fs_prev_ema_9 := fs_ema_9 st, fs_prev_ema_20 := fs_ema_20 st,
            fs_ema9_1m_history := push 4 e9 (fs_ema9_1m_history st),
            fs_ema21_1m_history := push 4 e21 (fs_ema21_1m_history st),
            fs_atr_buffer := buf14, fs_atr_30_buffer := buf30,
            fs_atr_30 := (if tr \<noteq> None \<and> length buf30 \<ge> 2 then Some (dec_mean buf30) else fs_atr_30 st),
            fs_prev_close := Some close,
            fs_relative_volume :=
              (if volumes = [] then None
               else if avg_vol > 0 then Some (fl (fl (of_int (be_volume bar)) / avg_vol)) else None),
            fs_volume_buffer := push 20 (be_volume bar) volumes\<rparr>)"

section \<open>The update\<close>

definition is_rth_phase :: "session_phase \<Rightarrow> bool" where
  "is_rth_phase phase \<longleftrightarrow> phase \<notin> {Phase_PRE_MARKET, Phase_AFTER_HOURS, Phase_CLOSED}"

definition is_active_phase :: "bool \<Rightarrow> session_phase \<Rightarrow> bool" where
  "is_active_phase is_futures phase \<longleftrightarrow> is_rth_phase phase \<or> is_futures \<and> phase \<noteq> Phase_CLOSED"

text \<open>The part of \<open>_update_state\<close> after the session roll.\<close>

definition update_state ::
  "session_calendar \<Rightarrow> bool \<Rightarrow> feature_state \<Rightarrow> bar_event \<Rightarrow> feature_state" where
  "update_state cal is_futures st bar =
     (let phase = sc_session_phase cal (be_timestamp bar);
          orb_end = opening_range_end cal (sc_session_date cal (be_timestamp bar)) (fs_orb_minutes st);
          st = st\<lparr>fs_bars := push 200 bar (fs_bars st)\<rparr>;
          st = (if is_active_phase is_futures phase
                then bar_shape (vwap_part (if is_rth_phase phase then rth_update (accumulate st bar) bar orb_end
                                           else accumulate st bar) bar) bar
                else idle_flags st)
      in indicators st bar)"

definition roll_state :: "session_calendar \<Rightarrow> feature_state \<Rightarrow> bar_event \<Rightarrow> feature_state" where
  "roll_state cal st bar =
     (let key = session_key cal (be_timestamp bar) in
      if fs_session_key st \<noteq> Some key
      then (reset_session st)\<lparr>fs_session_key := Some key, fs_session_date := Some (sc_session_date cal (be_timestamp bar))\<rparr>
      else st)"

section \<open>Ticks\<close>

text \<open>\<open>record_trade\<close>: a print far outside the quote is ignored.\<close>

definition off_market :: "feature_state \<Rightarrow> dec \<Rightarrow> bool" where
  "off_market st p =
     (case (fs_latest_bid st, fs_latest_ask st) of
        (Some bid, Some ask) \<Rightarrow>
          (let anchor = dq (dq (bid + ask) / 2); spread = dq (ask - bid);
               band = max (dq (anchor * (1/1000))) (dq (spread * 30))
           in band > 0 \<and> \<bar>dq (p - anchor)\<bar> > band)
      | _ \<Rightarrow> False)"

definition record_trade :: "feature_state \<Rightarrow> dec \<Rightarrow> feature_state" where
  "record_trade st p =
     (if off_market st p then st
      else st\<lparr>fs_intraday_high := (if higher p (fs_intraday_high st) then Some p else fs_intraday_high st),
              fs_intraday_low := (if lower p (fs_intraday_low st) then Some p else fs_intraday_low st)\<rparr>)"

definition apply_quote :: "feature_state \<Rightarrow> quote_event \<Rightarrow> feature_state" where
  "apply_quote st q = st\<lparr>fs_latest_bid := Some (qe_bid_price q), fs_latest_ask := Some (qe_ask_price q)\<rparr>"

section \<open>What the parts leave alone\<close>

lemma quote_frame [simp]:
  "fs_latest_bid (accumulate st bar) = fs_latest_bid st" "fs_latest_ask (accumulate st bar) = fs_latest_ask st"
  "fs_latest_bid (rth_update st bar t) = fs_latest_bid st" "fs_latest_ask (rth_update st bar t) = fs_latest_ask st"
  "fs_latest_bid (vwap_part st bar) = fs_latest_bid st" "fs_latest_ask (vwap_part st bar) = fs_latest_ask st"
  "fs_latest_bid (bar_shape st bar) = fs_latest_bid st" "fs_latest_ask (bar_shape st bar) = fs_latest_ask st"
  "fs_latest_bid (idle_flags st) = fs_latest_bid st" "fs_latest_ask (idle_flags st) = fs_latest_ask st"
  "fs_latest_bid (indicators st bar) = fs_latest_bid st" "fs_latest_ask (indicators st bar) = fs_latest_ask st"
  by (simp_all add: accumulate_def rth_update_def vwap_part_def vwap_touch_def vwap_flags_def bar_shape_def idle_flags_def
      indicators_def Let_def)

lemma accumulate_frame [simp]:
  "fs_bars_since_open (accumulate st bar) = fs_bars_since_open st"
  "fs_intraday_high (accumulate st bar) = fs_intraday_high st" "fs_intraday_low (accumulate st bar) = fs_intraday_low st"
  "fs_orb_high (accumulate st bar) = fs_orb_high st" "fs_orb_low (accumulate st bar) = fs_orb_low st"
  "fs_orb_established (accumulate st bar) = fs_orb_established st"
  "fs_rth_intraday_low (accumulate st bar) = fs_rth_intraday_low st"
  "fs_session_key (accumulate st bar) = fs_session_key st" "fs_orb_minutes (accumulate st bar) = fs_orb_minutes st"
  "fs_cumulative_volume (accumulate st bar) = fs_cumulative_volume st + be_volume bar"
  by (simp_all add: accumulate_def)

lemma rth_update_frame [simp]:
  "fs_cumulative_volume (rth_update st bar t) = fs_cumulative_volume st"
  "fs_cumulative_vwap_num (rth_update st bar t) = fs_cumulative_vwap_num st"
  "fs_intraday_high (rth_update st bar t) = fs_intraday_high st" "fs_intraday_low (rth_update st bar t) = fs_intraday_low st"
  "fs_session_key (rth_update st bar t) = fs_session_key st" "fs_orb_minutes (rth_update st bar t) = fs_orb_minutes st"
  by (simp_all add: rth_update_def Let_def)

lemma vwap_part_frame [simp]:
  "fs_cumulative_volume (vwap_part st bar) = fs_cumulative_volume st"
  "fs_cumulative_vwap_num (vwap_part st bar) = fs_cumulative_vwap_num st"
  "fs_bars_since_open (vwap_part st bar) = fs_bars_since_open st"
  "fs_intraday_high (vwap_part st bar) = fs_intraday_high st" "fs_intraday_low (vwap_part st bar) = fs_intraday_low st"
  "fs_orb_high (vwap_part st bar) = fs_orb_high st" "fs_orb_low (vwap_part st bar) = fs_orb_low st"
  "fs_orb_established (vwap_part st bar) = fs_orb_established st"
  "fs_rth_intraday_low (vwap_part st bar) = fs_rth_intraday_low st"
  "fs_session_key (vwap_part st bar) = fs_session_key st" "fs_orb_minutes (vwap_part st bar) = fs_orb_minutes st"
  by (simp_all add: vwap_part_def vwap_touch_def vwap_flags_def Let_def)

lemma bar_shape_frame [simp]:
  "fs_cumulative_volume (bar_shape st bar) = fs_cumulative_volume st"
  "fs_cumulative_vwap_num (bar_shape st bar) = fs_cumulative_vwap_num st"
  "fs_bars_since_open (bar_shape st bar) = fs_bars_since_open st"
  "fs_orb_high (bar_shape st bar) = fs_orb_high st" "fs_orb_low (bar_shape st bar) = fs_orb_low st"
  "fs_orb_established (bar_shape st bar) = fs_orb_established st"
  "fs_rth_intraday_low (bar_shape st bar) = fs_rth_intraday_low st"
  "fs_session_key (bar_shape st bar) = fs_session_key st" "fs_orb_minutes (bar_shape st bar) = fs_orb_minutes st"
  by (simp_all add: bar_shape_def Let_def)

lemma idle_flags_frame [simp]:
  "fs_cumulative_volume (idle_flags st) = fs_cumulative_volume st"
  "fs_cumulative_vwap_num (idle_flags st) = fs_cumulative_vwap_num st"
  "fs_bars_since_open (idle_flags st) = fs_bars_since_open st"
  "fs_intraday_high (idle_flags st) = fs_intraday_high st" "fs_intraday_low (idle_flags st) = fs_intraday_low st"
  "fs_orb_high (idle_flags st) = fs_orb_high st" "fs_orb_low (idle_flags st) = fs_orb_low st"
  "fs_orb_established (idle_flags st) = fs_orb_established st"
  "fs_rth_intraday_low (idle_flags st) = fs_rth_intraday_low st"
  "fs_session_key (idle_flags st) = fs_session_key st" "fs_orb_minutes (idle_flags st) = fs_orb_minutes st"
  by (simp_all add: idle_flags_def)

lemma indicators_frame [simp]:
  "fs_cumulative_volume (indicators st bar) = fs_cumulative_volume st"
  "fs_cumulative_vwap_num (indicators st bar) = fs_cumulative_vwap_num st"
  "fs_bars_since_open (indicators st bar) = fs_bars_since_open st"
  "fs_intraday_high (indicators st bar) = fs_intraday_high st" "fs_intraday_low (indicators st bar) = fs_intraday_low st"
  "fs_orb_high (indicators st bar) = fs_orb_high st" "fs_orb_low (indicators st bar) = fs_orb_low st"
  "fs_orb_established (indicators st bar) = fs_orb_established st"
  "fs_rth_intraday_low (indicators st bar) = fs_rth_intraday_low st"
  "fs_session_key (indicators st bar) = fs_session_key st" "fs_orb_minutes (indicators st bar) = fs_orb_minutes st"
  by (simp_all add: indicators_def Let_def)

text \<open>One bar with its session roll, and the runs of them.\<close>

definition feature_step :: "session_calendar \<Rightarrow> bool \<Rightarrow> feature_state \<Rightarrow> bar_event \<Rightarrow> feature_state" where
  "feature_step cal is_futures st bar = update_state cal is_futures (roll_state cal st bar) bar"

definition feature_run :: "session_calendar \<Rightarrow> bool \<Rightarrow> string \<Rightarrow> int \<Rightarrow> bar_event list \<Rightarrow> feature_state" where
  "feature_run cal is_futures s minutes bars = foldl (feature_step cal is_futures) (feature_state_new s minutes) bars"

section \<open>VWAP\<close>

lemma dq_scaled_le: "x \<le> of_int m / 10 ^ k \<Longrightarrow> \<bar>m\<bar> < 10 ^ 28 \<Longrightarrow> dq x \<le> of_int m / 10 ^ k"
  using dq_mono [of x "of_int m / 10 ^ k"] dq_exact [of m k] by simp

lemma dq_scaled_ge: "of_int m / 10 ^ k \<le> x \<Longrightarrow> \<bar>m\<bar> < 10 ^ 28 \<Longrightarrow> of_int m / 10 ^ k \<le> dq x"
  using dq_mono [of "of_int m / 10 ^ k" x] dq_exact [of m k] by simp

text \<open>A bar whose prices lie between two decimals with \<open>k\<close> places.\<close>

definition bar_between :: "int \<Rightarrow> int \<Rightarrow> nat \<Rightarrow> bar_event \<Rightarrow> bool" where
  "bar_between l h k bar \<longleftrightarrow>
     list_all (\<lambda>p. of_int l / 10 ^ k \<le> p \<and> p \<le> of_int h / 10 ^ k) [be_high bar, be_low bar, be_close bar]
     \<and> 0 \<le> be_volume bar"

lemma typical_between:
  assumes "bar_between l h k bar" "0 \<le> l" "3 * h < 10 ^ 28"
  shows "of_int l / 10 ^ k \<le> typical_price bar \<and> typical_price bar \<le> of_int h / 10 ^ k"
proof -
  have b: "of_int l / 10 ^ k \<le> be_high bar" "be_high bar \<le> of_int h / 10 ^ k" "of_int l / 10 ^ k \<le> be_low bar"
    "be_low bar \<le> of_int h / 10 ^ k" "of_int l / 10 ^ k \<le> be_close bar" "be_close bar \<le> of_int h / 10 ^ k"
    using assms(1) by (simp_all add: bar_between_def)
  then have "(of_int l :: rat) / 10 ^ k \<le> of_int h / 10 ^ k" by linarith
  then have lh: "l \<le> h" by (simp add: divide_right_mono divide_le_cancel)
  have "dq (be_high bar + be_low bar) \<le> of_int (2 * h) / 10 ^ k"
    using b lh assms by (intro dq_scaled_le) (simp_all add: field_simps)
  then have "dq (dq (be_high bar + be_low bar) + be_close bar) \<le> of_int (3 * h) / 10 ^ k"
    using b lh assms by (intro dq_scaled_le) (simp_all add: field_simps)
  then have "typical_price bar \<le> of_int h / 10 ^ k"
    unfolding typical_price_def using lh assms by (intro dq_scaled_le) (simp_all add: field_simps)
  moreover have "of_int (2 * l) / 10 ^ k \<le> dq (be_high bar + be_low bar)"
    using b lh assms by (intro dq_scaled_ge) (simp_all add: field_simps)
  then have "of_int (3 * l) / 10 ^ k \<le> dq (dq (be_high bar + be_low bar) + be_close bar)"
    using b lh assms by (intro dq_scaled_ge) (simp_all add: field_simps)
  then have "of_int l / 10 ^ k \<le> typical_price bar"
    unfolding typical_price_def using lh assms by (intro dq_scaled_ge) (simp_all add: field_simps)
  ultimately show ?thesis by simp
qed

text \<open>The accumulators lie between the volume at the lowest and at the highest price.\<close>

definition vwap_sums_ok :: "int \<Rightarrow> int \<Rightarrow> nat \<Rightarrow> int \<Rightarrow> feature_state \<Rightarrow> bool" where
  "vwap_sums_ok l h k fed st \<longleftrightarrow>
     0 \<le> fs_cumulative_volume st \<and> fs_cumulative_volume st \<le> fed
     \<and> of_int (l * fs_cumulative_volume st) / 10 ^ k \<le> fs_cumulative_vwap_num st
     \<and> fs_cumulative_vwap_num st \<le> of_int (h * fs_cumulative_volume st) / 10 ^ k"

lemma weighted_between:
  assumes "of_int l / 10 ^ k \<le> (p :: rat)" "p \<le> of_int h / 10 ^ k" "0 \<le> v" "0 \<le> l" "h * v < 10 ^ 28"
  shows "of_int (l * v) / 10 ^ k \<le> dq (p * of_int v) \<and> dq (p * of_int v) \<le> of_int (h * v) / 10 ^ k"
proof
  have "(of_int l :: rat) / 10 ^ k \<le> of_int h / 10 ^ k" using assms by linarith
  then have lh: "l \<le> h" by (simp add: divide_le_cancel)
  then have small: "\<bar>l * v\<bar> < 10 ^ 28" "\<bar>h * v\<bar> < 10 ^ 28"
    using assms mult_right_mono [of l h v] by simp_all
  have "of_int l / 10 ^ k * of_int v \<le> p * of_int v" "p * of_int v \<le> of_int h / 10 ^ k * of_int v"
    by (rule mult_right_mono; use assms in simp)+
  then have "of_int (l * v) / 10 ^ k \<le> p * of_int v" "p * of_int v \<le> of_int (h * v) / 10 ^ k" by simp_all
  then show "of_int (l * v) / 10 ^ k \<le> dq (p * of_int v)" "dq (p * of_int v) \<le> of_int (h * v) / 10 ^ k"
    using small by (blast intro: dq_scaled_ge dq_scaled_le)+
qed

lemma accumulate_sums:
  assumes ok: "vwap_sums_ok l h k fed st" and bar: "bar_between l h k bar"
    and "0 \<le> l" "3 * h < 10 ^ 28" "h * (fed + be_volume bar) < 10 ^ 28"
  shows "vwap_sums_ok l h k (fed + be_volume bar) (accumulate st bar)"
proof -
  define V where "V = fs_cumulative_volume st"
  define v where "v = be_volume bar"
  note t = typical_between [OF bar assms(3,4)]
  then have "(of_int l :: rat) / 10 ^ k \<le> of_int h / 10 ^ k" by linarith
  then have lh: "l \<le> h" by (simp add: divide_le_cancel)
  have v: "0 \<le> v" "0 \<le> V" "V \<le> fed" using bar ok by (simp_all add: bar_between_def vwap_sums_ok_def v_def V_def)
  have "h * v \<le> h * (fed + v)" "h * (V + v) \<le> h * (fed + v)"
    using v lh assms(3) by (intro mult_left_mono; simp)+
  then have small: "h * v < 10 ^ 28" "h * (V + v) < 10 ^ 28" using assms(5) by (simp_all add: v_def)
  from weighted_between [of l k "typical_price bar" h v] t v small(1) assms(3)
  have w: "of_int (l * v) / 10 ^ k \<le> dq (typical_price bar * of_int v)"
    "dq (typical_price bar * of_int v) \<le> of_int (h * v) / 10 ^ k" by simp_all
  have n: "of_int (l * V) / 10 ^ k \<le> fs_cumulative_vwap_num st" "fs_cumulative_vwap_num st \<le> of_int (h * V) / 10 ^ k"
    using ok by (simp_all add: vwap_sums_ok_def V_def)
  have "0 \<le> l * (V + v)" "l * (V + v) \<le> h * (V + v)" using v lh assms(3) by (simp_all add: mult_right_mono)
  then have "of_int (l * (V + v)) / 10 ^ k \<le> dq (fs_cumulative_vwap_num st + dq (typical_price bar * of_int v))"
    "dq (fs_cumulative_vwap_num st + dq (typical_price bar * of_int v)) \<le> of_int (h * (V + v)) / 10 ^ k"
    using n w small(2) by (intro dq_scaled_ge dq_scaled_le; simp add: distrib_left add_divide_distrib)+
  then show ?thesis
    using v by (simp add: vwap_sums_ok_def) (simp add: accumulate_def V_def v_def)
qed

lemma step_sums:
  assumes "vwap_sums_ok l h k fed st" "bar_between l h k bar" "0 \<le> l" "3 * h < 10 ^ 28"
    "h * (fed + be_volume bar) < 10 ^ 28"
  shows "vwap_sums_ok l h k (fed + be_volume bar) (feature_step cal fut st bar)"
proof -
  have v: "0 \<le> be_volume bar" using assms(2) by (simp add: bar_between_def)
  have "vwap_sums_ok l h k fed (roll_state cal st bar)"
    using assms(1) by (auto simp: roll_state_def reset_session_def vwap_sums_ok_def Let_def)
  then have r: "vwap_sums_ok l h k fed ((roll_state cal st bar)\<lparr>fs_bars := push 200 bar (fs_bars (roll_state cal st bar))\<rparr>)"
    by (simp add: vwap_sums_ok_def)
  then have "vwap_sums_ok l h k (fed + be_volume bar)
      ((roll_state cal st bar)\<lparr>fs_bars := push 200 bar (fs_bars (roll_state cal st bar))\<rparr>)"
    using v by (simp add: vwap_sums_ok_def)
  with accumulate_sums [OF r assms(2-5)] show ?thesis
    by (simp add: feature_step_def update_state_def vwap_sums_ok_def Let_def)
qed

lemma run_sums:
  "list_all (bar_between l h k) bars \<Longrightarrow> 0 \<le> l \<Longrightarrow> 3 * h < 10 ^ 28 \<Longrightarrow>
   h * sum_list (map be_volume bars) < 10 ^ 28 \<Longrightarrow>
   vwap_sums_ok l h k (sum_list (map be_volume bars)) (feature_run cal fut s m bars)"
proof (induction bars rule: rev_induct)
  case Nil
  show ?case by (simp add: feature_run_def feature_state_new_def vwap_sums_ok_def)
next
  case (snoc bar bars)
  let ?t = "sum_list (map be_volume bars)"
  have b: "bar_between l h k bar" "0 \<le> be_volume bar" using snoc.prems(1) by (simp_all add: bar_between_def)
  then have "0 \<le> h"
  proof -
    have "(of_int l :: rat) / 10 ^ k \<le> of_int h / 10 ^ k" using b(1) by (auto simp: bar_between_def)
    then show ?thesis using snoc.prems(2) by (simp add: divide_le_cancel)
  qed
  then have "h * ?t \<le> h * (?t + be_volume bar)" using b(2) by (intro mult_left_mono) simp_all
  with snoc.prems have "h * ?t < 10 ^ 28" by simp
  with snoc have "vwap_sums_ok l h k ?t (feature_run cal fut s m bars)" by simp
  from step_sums [OF this b(1) snoc.prems(2,3)] snoc.prems(4) show ?case by (simp add: feature_run_def)
qed

text \<open>
  The session VWAP lies between the lowest and the highest price of the bars it was fed, in spite of the
  28-digit rounding of every step: for bars with prices between two decimals of \<open>k\<close> places, no
  negative volume and price times volume below \<open>10^28\<close>.
\<close>

theorem vwap_within_price_range:
  assumes "list_all (bar_between l h k) bars" "0 \<le> l" "3 * h < 10 ^ 28"
    "h * sum_list (map be_volume bars) < 10 ^ 28"
    and "fs_cumulative_volume (feature_run cal fut s m bars) \<noteq> 0"
  shows "of_int l / 10 ^ k \<le> session_vwap (feature_run cal fut s m bars)
    \<and> session_vwap (feature_run cal fut s m bars) \<le> of_int h / 10 ^ k"
proof -
  define st where "st = feature_run cal fut s m bars"
  define V where "V = fs_cumulative_volume st"
  from run_sums [OF assms(1-4)] have ok: "vwap_sums_ok l h k (sum_list (map be_volume bars)) st" by (simp add: st_def)
  then have V: "0 < V" using assms(5) by (simp add: V_def st_def vwap_sums_ok_def)
  have "of_int (l * V) / 10 ^ k \<le> of_int (h * V) / (10 ^ k :: rat)"
    using ok unfolding vwap_sums_ok_def V_def by linarith
  then have "l * V \<le> h * V" by (simp add: divide_le_cancel del: of_int_mult)
  then have lh: "l \<le> h" using V by simp
  have "of_int l / 10 ^ k \<le> fs_cumulative_vwap_num st / of_int V" "fs_cumulative_vwap_num st / of_int V \<le> of_int h / 10 ^ k"
    using ok V by (simp_all add: vwap_sums_ok_def V_def le_divide_eq divide_le_eq)
  then have "of_int l / 10 ^ k \<le> dq (fs_cumulative_vwap_num st / of_int V)" "dq (fs_cumulative_vwap_num st / of_int V) \<le> of_int h / 10 ^ k"
    using lh assms(2,3) by (intro dq_scaled_ge dq_scaled_le; simp)+
  then show ?thesis using V by (simp add: session_vwap_def st_def [symmetric] V_def)
qed

definition sample_state_bar :: bar_event where
  "sample_state_bar = sample_ohlc TF_M1 (at_time 2 14 0) 100 101 99 100"

lemma vwap_within_price_range_witness:
  "let st = feature_run (cme_calendar \<lparr>zn_to_et = id, zn_from_et = id\<rparr> (\<lambda>_. True)) True ''MNQ'' 5 [sample_state_bar]
   in fs_cumulative_volume st = 100 \<and> 99 \<le> session_vwap st \<and> session_vwap st \<le> 101"
proof -
  let ?cal = "cme_calendar \<lparr>zn_to_et = id, zn_from_et = id\<rparr> (\<lambda>_. True)"
  have bar: "be_timestamp sample_state_bar = at_time 2 14 0" "be_volume sample_state_bar = 100"
    "bar_between 99 101 0 sample_state_bar"
    by (simp_all add: sample_state_bar_def sample_ohlc_def bar_between_def)
  have phase: "is_active_phase True (sc_session_phase ?cal (at_time 2 14 0))" by code_simp
  have v: "fs_cumulative_volume (feature_run ?cal True ''MNQ'' 5 [sample_state_bar]) = 100"
    using phase
    by (simp add: feature_run_def feature_step_def update_state_def Let_def bar roll_state_def feature_state_new_def
        reset_session_def)
  with vwap_within_price_range [of 99 101 0 "[sample_state_bar]" ?cal True "''MNQ''" 5] bar
  show ?thesis by (simp add: Let_def)
qed

section \<open>Session values as functions of the session's bars\<close>

definition max_of :: "dec list \<Rightarrow> dec option" where
  "max_of xs = (if xs = [] then None else Some (Max (set xs)))"

definition min_of :: "dec list \<Rightarrow> dec option" where
  "min_of xs = (if xs = [] then None else Some (Min (set xs)))"

lemma max_of_Nil [simp]: "max_of [] = None" and min_of_Nil [simp]: "min_of [] = None"
  by (simp_all add: max_of_def min_of_def)

lemma max_of_snoc: "max_of (xs @ [x]) = (if higher x (max_of xs) then Some x else max_of xs)"
proof (cases "xs = []")
  case False
  define y where "y = Max (set xs)"
  from False have "max_of xs = Some y" "max_of (xs @ [x]) = Some (max x y)" by (simp_all add: max_of_def y_def)
  then show ?thesis by (simp add: higher_def max_def)
qed (simp add: max_of_def higher_def)

lemma min_of_snoc: "min_of (xs @ [x]) = (if lower x (min_of xs) then Some x else min_of xs)"
proof (cases "xs = []")
  case False
  define y where "y = Min (set xs)"
  from False have "min_of xs = Some y" "min_of (xs @ [x]) = Some (min x y)" by (simp_all add: min_of_def y_def)
  then show ?thesis by (simp add: lower_def min_def)
qed (simp add: min_of_def lower_def)

definition phase_of :: "session_calendar \<Rightarrow> bar_event \<Rightarrow> session_phase" where
  "phase_of cal bar = sc_session_phase cal (be_timestamp bar)"

definition session_bars :: "session_calendar \<Rightarrow> bar_event list \<Rightarrow> bar_event list" where
  "session_bars cal bars = last_part (\<lambda>b. session_key cal (be_timestamp b)) bars"

text \<open>
  The session's values, as folds over its bars: \<open>active\<close> the bars outside the closed phase that count,
  \<open>rth\<close> the cash-session bars, \<open>orb\<close> those of them before the first one past the opening range. The extremes are
  those of the prices \<open>highs\<close> and \<open>lows\<close>.
\<close>

definition session_values ::
  "session_calendar \<Rightarrow> bool \<Rightarrow> timestamp \<Rightarrow> bar_event list \<Rightarrow> dec list \<Rightarrow> dec list \<Rightarrow> feature_state \<Rightarrow> bool" where
  "session_values cal fut orb_end ses highs lows st \<longleftrightarrow>
     (let active = [b \<leftarrow> ses. is_active_phase fut (phase_of cal b)];
          rth = [b \<leftarrow> ses. is_rth_phase (phase_of cal b)];
          orb = takeWhile (\<lambda>b. be_timestamp b < orb_end) rth
      in fs_cumulative_volume st = sum_list (map be_volume active)
         \<and> fs_intraday_high st = max_of highs \<and> fs_intraday_low st = min_of lows
         \<and> fs_bars_since_open st = int (length rth) \<and> fs_rth_intraday_low st = min_of (map be_low rth)
         \<and> fs_orb_high st = max_of (map be_high orb) \<and> fs_orb_low st = min_of (map be_low orb)
         \<and> (fs_orb_established st \<longleftrightarrow> list_ex (\<lambda>b. orb_end \<le> be_timestamp b) rth))"

lemma values_reset: "session_values cal fut e [] [] [] ((reset_session st)\<lparr>fs_session_key := k, fs_session_date := d\<rparr>)"
  by (simp add: session_values_def reset_session_def)

lemma rth_is_active: "is_rth_phase p \<Longrightarrow> is_active_phase fut p"
  by (simp add: is_active_phase_def)

lemma bar_shape_extremes:
  "fs_intraday_high (bar_shape st bar) =
     (if higher (be_high bar) (fs_intraday_high st) then Some (be_high bar) else fs_intraday_high st)"
  "fs_intraday_low (bar_shape st bar) =
     (if lower (be_low bar) (fs_intraday_low st) then Some (be_low bar) else fs_intraday_low st)"
  by (simp_all add: bar_shape_def Let_def)

lemma rth_update_values:
  "fs_bars_since_open (rth_update st bar e) = fs_bars_since_open st + 1"
  "fs_rth_intraday_low (rth_update st bar e) =
     (if lower (be_low bar) (fs_rth_intraday_low st) then Some (be_low bar) else fs_rth_intraday_low st)"
  "fs_orb_established (rth_update st bar e) = (fs_orb_established st \<or> e \<le> be_timestamp bar)"
  "fs_orb_high (rth_update st bar e) =
     (if \<not> fs_orb_established st \<and> be_timestamp bar < e \<and> higher (be_high bar) (fs_orb_high st)
      then Some (be_high bar) else fs_orb_high st)"
  "fs_orb_low (rth_update st bar e) =
     (if \<not> fs_orb_established st \<and> be_timestamp bar < e \<and> lower (be_low bar) (fs_orb_low st)
      then Some (be_low bar) else fs_orb_low st)"
  by (auto simp: rth_update_def Let_def)

lemma takeWhile_orb:
  "takeWhile (\<lambda>b. be_timestamp b < e) (rth @ [bar]) =
     (if \<not> list_ex (\<lambda>b. e \<le> be_timestamp b) rth \<and> be_timestamp bar < e
      then takeWhile (\<lambda>b. be_timestamp b < e) rth @ [bar] else takeWhile (\<lambda>b. be_timestamp b < e) rth)"
  by (induction rth) auto

lemma update_state_values:
  assumes "session_values cal fut e ses highs lows st"
    and "e = opening_range_end cal (sc_session_date cal (be_timestamp bar)) (fs_orb_minutes st)"
  shows "session_values cal fut e (ses @ [bar])
    (highs @ (if is_active_phase fut (phase_of cal bar) then [be_high bar] else []))
    (lows @ (if is_active_phase fut (phase_of cal bar) then [be_low bar] else [])) (update_state cal fut st bar)"
proof -
  let ?p = "phase_of cal bar"
  consider (rth) "is_rth_phase ?p" "is_active_phase fut ?p" | (active) "\<not> is_rth_phase ?p" "is_active_phase fut ?p"
    | (idle) "\<not> is_rth_phase ?p" "\<not> is_active_phase fut ?p"
    using rth_is_active by blast
  then show ?thesis
  proof cases
    case rth
    with assms show ?thesis
      unfolding session_values_def update_state_def Let_def phase_of_def
      by (simp add: bar_shape_extremes rth_update_values takeWhile_orb max_of_snoc min_of_snoc)
  next
    case active
    with assms show ?thesis
      unfolding session_values_def update_state_def Let_def phase_of_def
      by (simp add: bar_shape_extremes max_of_snoc min_of_snoc)
  next
    case idle
    with assms show ?thesis
      unfolding session_values_def update_state_def Let_def phase_of_def by simp
  qed
qed

lemma step_session:
  "fs_session_key (feature_step cal fut st bar) = Some (session_key cal (be_timestamp bar))"
  "fs_orb_minutes (feature_step cal fut st bar) = fs_orb_minutes st"
  by (simp_all add: feature_step_def update_state_def roll_state_def reset_session_def Let_def)

section \<open>Runs with ticks\<close>

text \<open>What reaches the state of a symbol: its bars, and between them its trades and quotes.\<close>

datatype state_input = Bar_in bar_event | Trade_in dec | Quote_in quote_event

fun input_step :: "session_calendar \<Rightarrow> bool \<Rightarrow> feature_state \<Rightarrow> state_input \<Rightarrow> feature_state" where
  "input_step cal fut st (Bar_in b) = feature_step cal fut st b"
| "input_step cal fut st (Trade_in p) = record_trade st p"
| "input_step cal fut st (Quote_in q) = apply_quote st q"

definition input_run :: "session_calendar \<Rightarrow> bool \<Rightarrow> string \<Rightarrow> int \<Rightarrow> state_input list \<Rightarrow> feature_state" where
  "input_run cal fut s m ins = foldl (input_step cal fut) (feature_state_new s m) ins"

text \<open>The session of the last bar, and the last quote, of a history.\<close>

definition last_key :: "session_calendar \<Rightarrow> state_input list \<Rightarrow> date option" where
  "last_key cal ins =
     fold (\<lambda>i k. case i of Bar_in b \<Rightarrow> Some (session_key cal (be_timestamp b)) | _ \<Rightarrow> k) ins None"

definition last_quote :: "state_input list \<Rightarrow> quote_event option" where
  "last_quote ins = fold (\<lambda>i q. case i of Quote_in q' \<Rightarrow> Some q' | _ \<Rightarrow> q) ins None"

text \<open>The inputs since the first bar of the running session, each with the quote before it.\<close>

definition tagged :: "session_calendar \<Rightarrow> state_input list \<Rightarrow> (date option \<times> quote_event option \<times> state_input) list" where
  "tagged cal ins = map (\<lambda>n. (last_key cal (take (Suc n) ins), last_quote (take n ins), ins ! n)) [0..<length ins]"

definition session_inputs :: "session_calendar \<Rightarrow> state_input list \<Rightarrow> (quote_event option \<times> state_input) list" where
  "session_inputs cal ins = map snd (last_part fst (tagged cal ins))"

text \<open>A print is off the market when it is farther from the middle of the quote than 0.1 % and thirty spreads.\<close>

definition off_quote :: "quote_event option \<Rightarrow> dec \<Rightarrow> bool" where
  "off_quote q p =
     (case q of
        None \<Rightarrow> False
      | Some q \<Rightarrow>
          (let anchor = dq (dq (qe_bid_price q + qe_ask_price q) / 2);
               band = max (dq (anchor * (1/1000))) (dq (dq (qe_ask_price q - qe_bid_price q) * 30))
           in band > 0 \<and> \<bar>dq (p - anchor)\<bar> > band))"

definition input_bars :: "(quote_event option \<times> state_input) list \<Rightarrow> bar_event list" where
  "input_bars xs = concat (map (\<lambda>(q, i). case i of Bar_in b \<Rightarrow> [b] | _ \<Rightarrow> []) xs)"

text \<open>The prices an extreme is taken over: \<open>f\<close> of the active bars, and the prints on the market.\<close>

definition input_prices ::
  "session_calendar \<Rightarrow> bool \<Rightarrow> (bar_event \<Rightarrow> dec) \<Rightarrow> (quote_event option \<times> state_input) list \<Rightarrow> dec list" where
  "input_prices cal fut f xs =
     concat (map (\<lambda>(q, i). case i of
         Bar_in b \<Rightarrow> if is_active_phase fut (phase_of cal b) then [f b] else []
       | Trade_in p \<Rightarrow> if off_quote q p then [] else [p]
       | Quote_in _ \<Rightarrow> []) xs)"

lemma last_key_snoc: "last_key cal (ins @ [i]) = (case i of Bar_in b \<Rightarrow> Some (session_key cal (be_timestamp b)) | _ \<Rightarrow> last_key cal ins)"
  and last_quote_snoc: "last_quote (ins @ [i]) = (case i of Quote_in q \<Rightarrow> Some q | _ \<Rightarrow> last_quote ins)"
  by (simp_all add: last_key_def last_quote_def split: state_input.split)

lemma tagged_snoc: "tagged cal (ins @ [i]) = tagged cal ins @ [(last_key cal (ins @ [i]), last_quote ins, i)]"
  by (auto simp: tagged_def nth_append intro!: map_cong)

lemma tagged_last: "ins \<noteq> [] \<Longrightarrow> tagged cal ins \<noteq> [] \<and> fst (last (tagged cal ins)) = last_key cal ins"
  by (cases ins rule: rev_cases) (simp_all add: tagged_snoc)

lemma session_inputs_snoc:
  "session_inputs cal (ins @ [i]) =
     (if ins \<noteq> [] \<and> last_key cal (ins @ [i]) = last_key cal ins then session_inputs cal ins else []) @ [(last_quote ins, i)]"
proof (cases "ins = []")
  case True
  then show ?thesis by (simp add: session_inputs_def tagged_def last_part_def)
next
  case False
  then show ?thesis
    using tagged_last [of ins cal] by (auto simp: session_inputs_def tagged_snoc last_part_snoc)
qed

lemma input_parts_snoc:
  "input_bars (xs @ [(q, i)]) = input_bars xs @ (case i of Bar_in b \<Rightarrow> [b] | _ \<Rightarrow> [])"
  "input_prices cal fut f (xs @ [(q, i)]) = input_prices cal fut f xs @
     (case i of
        Bar_in b \<Rightarrow> if is_active_phase fut (phase_of cal b) then [f b] else []
      | Trade_in p \<Rightarrow> if off_quote q p then [] else [p]
      | Quote_in _ \<Rightarrow> [])"
  by (simp_all add: input_bars_def input_prices_def)

text \<open>The state beside its history.\<close>

definition input_ok :: "session_calendar \<Rightarrow> bool \<Rightarrow> int \<Rightarrow> state_input list \<Rightarrow> feature_state \<Rightarrow> bool" where
  "input_ok cal fut m ins st \<longleftrightarrow>
     fs_session_key st = last_key cal ins \<and> fs_orb_minutes st = m
     \<and> fs_latest_bid st = map_option qe_bid_price (last_quote ins) \<and> fs_latest_ask st = map_option qe_ask_price (last_quote ins)
     \<and> (\<forall>k xs. last_key cal ins = Some k \<longrightarrow> xs = session_inputs cal ins \<longrightarrow>
          session_values cal fut (opening_range_end cal k m) (input_bars xs)
            (input_prices cal fut be_high xs) (input_prices cal fut be_low xs) st)"

lemma values_trade:
  assumes "session_values cal fut e ses highs lows st"
  shows "session_values cal fut e ses (highs @ (if off_market st p then [] else [p])) (lows @ (if off_market st p then [] else [p]))
    (record_trade st p)"
  using assms by (simp add: session_values_def record_trade_def Let_def max_of_snoc min_of_snoc)

lemma off_market_quote:
  "fs_latest_bid st = map_option qe_bid_price q \<Longrightarrow> fs_latest_ask st = map_option qe_ask_price q \<Longrightarrow> off_market st p = off_quote q p"
  by (cases q) (simp_all add: off_market_def off_quote_def Let_def)

lemma update_state_frame:
  "fs_session_key (update_state cal fut st bar) = fs_session_key st" "fs_orb_minutes (update_state cal fut st bar) = fs_orb_minutes st"
  "fs_latest_bid (update_state cal fut st bar) = fs_latest_bid st" "fs_latest_ask (update_state cal fut st bar) = fs_latest_ask st"
  by (simp_all add: update_state_def Let_def)

lemma roll_state_frame:
  "fs_session_key (roll_state cal st bar) = Some (session_key cal (be_timestamp bar))"
  "fs_orb_minutes (roll_state cal st bar) = fs_orb_minutes st"
  "fs_latest_bid (roll_state cal st bar) = fs_latest_bid st" "fs_latest_ask (roll_state cal st bar) = fs_latest_ask st"
  by (simp_all add: roll_state_def reset_session_def Let_def)

lemma bar_keeps_input_ok:
  assumes ok: "input_ok cal fut m ins st"
  shows "input_ok cal fut m (ins @ [Bar_in bar]) (feature_step cal fut st bar)"
proof -
  let ?k = "session_key cal (be_timestamp bar)" and ?start = "roll_state cal st bar"
  let ?e = "opening_range_end cal ?k m"
  define old where "old = (if last_key cal ins = Some ?k then session_inputs cal ins else [])"
  have nonempty: "ins \<noteq> []" if "last_key cal ins = Some ?k" using that by (auto simp: last_key_def)
  have old: "session_inputs cal (ins @ [Bar_in bar]) = old @ [(last_quote ins, Bar_in bar)]"
    using nonempty by (auto simp: session_inputs_snoc last_key_snoc old_def)
  have "session_values cal fut ?e (input_bars old) (input_prices cal fut be_high old) (input_prices cal fut be_low old) ?start"
  proof (cases "last_key cal ins = Some ?k")
    case True
    then have "?start = st" using ok by (simp add: roll_state_def input_ok_def Let_def)
    with True ok show ?thesis by (simp add: old_def input_ok_def)
  next
    case False
    then have "?start = (reset_session st)\<lparr>fs_session_key := Some ?k, fs_session_date := Some (sc_session_date cal (be_timestamp bar))\<rparr>"
      using ok by (simp add: roll_state_def input_ok_def Let_def)
    with False values_reset show ?thesis by (simp add: old_def input_bars_def input_prices_def)
  qed
  moreover have "?e = opening_range_end cal (sc_session_date cal (be_timestamp bar)) (fs_orb_minutes ?start)"
    using ok by (simp add: roll_state_frame input_ok_def session_key_def)
  ultimately have "session_values cal fut ?e (input_bars (old @ [(last_quote ins, Bar_in bar)]))
      (input_prices cal fut be_high (old @ [(last_quote ins, Bar_in bar)])) (input_prices cal fut be_low (old @ [(last_quote ins, Bar_in bar)]))
      (feature_step cal fut st bar)"
    using update_state_values [of cal fut ?e _ _ _ ?start bar] by (simp add: feature_step_def input_parts_snoc)
  with ok show ?thesis
    by (simp add: input_ok_def old last_key_snoc last_quote_snoc feature_step_def update_state_frame roll_state_frame)
qed

lemma trade_keeps_input_ok:
  assumes ok: "input_ok cal fut m ins st"
  shows "input_ok cal fut m (ins @ [Trade_in p]) (record_trade st p)"
proof -
  have frame: "fs_session_key (record_trade st p) = fs_session_key st" "fs_orb_minutes (record_trade st p) = fs_orb_minutes st"
    "fs_latest_bid (record_trade st p) = fs_latest_bid st" "fs_latest_ask (record_trade st p) = fs_latest_ask st"
    by (simp_all add: record_trade_def)
  have "off_market st p = off_quote (last_quote ins) p" using ok by (intro off_market_quote) (simp_all add: input_ok_def)
  moreover have "ins \<noteq> []" if "last_key cal ins = Some k" for k using that by (auto simp: last_key_def)
  ultimately show ?thesis
    using ok values_trade [of cal fut _ _ _ _ st p]
    by (auto simp: input_ok_def frame last_key_snoc last_quote_snoc session_inputs_snoc input_parts_snoc)
qed

lemma quote_keeps_input_ok:
  assumes ok: "input_ok cal fut m ins st"
  shows "input_ok cal fut m (ins @ [Quote_in q]) (apply_quote st q)"
proof -
  have "ins \<noteq> []" if "last_key cal ins = Some k" for k using that by (auto simp: last_key_def)
  with ok show ?thesis
    by (auto simp: input_ok_def apply_quote_def last_key_snoc last_quote_snoc session_inputs_snoc input_parts_snoc session_values_def Let_def)
qed

lemma run_input_ok: "input_ok cal fut m ins (input_run cal fut s m ins)"
proof (induction ins rule: rev_induct)
  case Nil
  then show ?case by (simp add: input_ok_def input_run_def last_key_def last_quote_def feature_state_new_def)
next
  case (snoc i ins)
  then show ?case
    by (cases i) (simp_all add: input_run_def bar_keeps_input_ok trade_keeps_input_ok quote_keeps_input_ok)
qed

text \<open>
  C10. Volume, intraday extremes, the bar count since the open, the RTH low and the opening range of a symbol are functions
  of the inputs of its current session, which begins with its first bar: whatever bars, trades and quotes reached the
  state, it has the values that a recomputation gives. The extremes are those of the session's bars that count and of
  its trades that were not off the quote before them; all else comes from the bars alone, the opening range being the
  extremes of the cash bars before the first one past its end.
\<close>

theorem session_values_are_folds:
  fixes ins :: "state_input list"
  assumes "last_key cal ins = Some k"
  defines "xs \<equiv> session_inputs cal ins"
  shows "session_values cal fut (opening_range_end cal k m) (input_bars xs)
    (input_prices cal fut be_high xs) (input_prices cal fut be_low xs) (input_run cal fut s m ins)"
  using run_input_ok [of cal fut m ins s] assms by (simp add: input_ok_def)

theorem session_values_are_folds_witness:
  "session_values (cme_calendar \<lparr>zn_to_et = id, zn_from_et = id\<rparr> (\<lambda>_. True)) True
     (opening_range_end (cme_calendar \<lparr>zn_to_et = id, zn_from_et = id\<rparr> (\<lambda>_. True)) 2 5)
     (input_bars (session_inputs (cme_calendar \<lparr>zn_to_et = id, zn_from_et = id\<rparr> (\<lambda>_. True)) [Bar_in sample_state_bar, Trade_in 103]))
     (input_prices (cme_calendar \<lparr>zn_to_et = id, zn_from_et = id\<rparr> (\<lambda>_. True)) True be_high
       (session_inputs (cme_calendar \<lparr>zn_to_et = id, zn_from_et = id\<rparr> (\<lambda>_. True)) [Bar_in sample_state_bar, Trade_in 103]))
     (input_prices (cme_calendar \<lparr>zn_to_et = id, zn_from_et = id\<rparr> (\<lambda>_. True)) True be_low
       (session_inputs (cme_calendar \<lparr>zn_to_et = id, zn_from_et = id\<rparr> (\<lambda>_. True)) [Bar_in sample_state_bar, Trade_in 103]))
     (input_run (cme_calendar \<lparr>zn_to_et = id, zn_from_et = id\<rparr> (\<lambda>_. True)) True ''MNQ'' 5 [Bar_in sample_state_bar, Trade_in 103])"
proof -
  have "last_key (cme_calendar \<lparr>zn_to_et = id, zn_from_et = id\<rparr> (\<lambda>_. True)) [Bar_in sample_state_bar, Trade_in 103] = Some 2"
    by code_simp
  then show ?thesis by (rule session_values_are_folds)
qed

end
