(* ===== verification/Feature_Engine.thy ===== *)
theory Feature_Engine
  imports Feature_State
begin

text \<open>
  The feature engine, \<^verbatim>\<open>src/alpha/engines/feature/engine.py\<close>: the snapshot built from a symbol's state and the
  carried higher-timeframe states, the volume profile readings and their loader
  (\<^verbatim>\<open>features/volume_profile_loader.py\<close>, whose JSON files are a parameter), and the engine's handlers and
  pipeline entry point. The registry and the calendars come with the environment. An error
  (an unregistered symbol, a bar the snapshot's \<open>Bar\<close> rejects) is \<open>Inl\<close>; the state reached before the
  exception is returned with it.
\<close>

section \<open>Volume profiles\<close>

record volume_profile =
  vp_symbol :: string
  vp_session_date :: date
  vp_session_type :: string
  vp_bin_size :: rat
  vp_source :: string
  vp_poc :: dec
  vp_vah :: dec
  vp_val :: dec
  vp_total_volume :: int
  vp_value_area_volume :: int
  vp_hvn_levels :: "dec list"
  vp_lvn_levels :: "dec list"
  vp_distribution :: "(string \<times> int) list"
  vp_delta_distribution :: "(string \<times> int) list option"

text \<open>The stored profile of a symbol, date and session type, as \<open>_load\<close> reads it.\<close>

type_synonym profile_files = "string \<Rightarrow> date \<Rightarrow> string \<Rightarrow> volume_profile option"

fun load_back :: "profile_files \<Rightarrow> string \<Rightarrow> date \<Rightarrow> int list \<Rightarrow> volume_profile option" where
  "load_back files s d [] = None"
| "load_back files s d (offset # offsets) =
     (case files s (d - offset) ''rth'' of Some p \<Rightarrow> Some p | None \<Rightarrow> load_back files s d offsets)"

definition load_prior_rth :: "profile_files \<Rightarrow> nat \<Rightarrow> string \<Rightarrow> date \<Rightarrow> volume_profile option" where
  "load_prior_rth files max_lookback_days s d = load_back files s d [1..int max_lookback_days]"

definition load_globex :: "profile_files \<Rightarrow> string \<Rightarrow> date \<Rightarrow> volume_profile option" where
  "load_globex files s d = files s d ''globex''"

definition load_session_pair ::
  "profile_files \<Rightarrow> nat \<Rightarrow> string \<Rightarrow> date \<Rightarrow> volume_profile option \<times> volume_profile option" where
  "load_session_pair files max_lookback_days s d = (load_prior_rth files max_lookback_days s d, load_globex files s d)"

definition vp_location :: "dec \<Rightarrow> volume_profile \<Rightarrow> string" where
  "vp_location close p =
     (if close = vp_poc p then ''at_poc''
      else if close \<ge> vp_val p \<and> close \<le> vp_vah p then ''inside_va''
      else if close > vp_vah p then ''above_va''
      else ''below_va'')"

text \<open>The first level nearest to the close.\<close>

fun nearest_level :: "dec \<Rightarrow> dec \<Rightarrow> dec list \<Rightarrow> dec" where
  "nearest_level close best [] = best"
| "nearest_level close best (l # ls) =
     nearest_level close (if \<bar>dq (close - l)\<bar> < \<bar>dq (close - best)\<bar> then l else best) ls"

definition nearest_level_distance :: "dec \<Rightarrow> dec list \<Rightarrow> dec \<Rightarrow> rat option" where
  "nearest_level_distance close levels atr =
     (case levels of [] \<Rightarrow> None | l # ls \<Rightarrow> Some (in_atr (dq (close - nearest_level close l ls)) atr))"

record vp_reading =
  vr_source :: "string option"
  vr_poc_distance_atr :: "rat option"
  vr_vah_distance_atr :: "rat option"
  vr_val_distance_atr :: "rat option"
  vr_location :: "string option"
  vr_nearest_hvn_distance_atr :: "rat option"
  vr_nearest_lvn_distance_atr :: "rat option"
  vr_globex_source :: "string option"
  vr_globex_poc_distance_atr :: "rat option"
  vr_globex_location :: "string option"

definition no_vp_reading :: vp_reading where
  "no_vp_reading =
     \<lparr>vr_source = None, vr_poc_distance_atr = None, vr_vah_distance_atr = None, vr_val_distance_atr = None,
      vr_location = None, vr_nearest_hvn_distance_atr = None, vr_nearest_lvn_distance_atr = None,
      vr_globex_source = None, vr_globex_poc_distance_atr = None, vr_globex_location = None\<rparr>"

definition compute_vp_fields ::
  "volume_profile option \<Rightarrow> volume_profile option \<Rightarrow> dec \<Rightarrow> dec option \<Rightarrow> vp_reading" where
  "compute_vp_fields rth globex close atr =
     (case atr of
        None \<Rightarrow> no_vp_reading
      | Some a \<Rightarrow>
          if a \<le> 0 then no_vp_reading
          else
            (let r = (case rth of
                        None \<Rightarrow> no_vp_reading
                      | Some p \<Rightarrow>
                          no_vp_reading
                            \<lparr>vr_source := Some (vp_source p),
                             vr_poc_distance_atr := Some (in_atr (dq (close - vp_poc p)) a),
                             vr_vah_distance_atr := Some (in_atr (dq (close - vp_vah p)) a),
                             vr_val_distance_atr := Some (in_atr (dq (close - vp_val p)) a),
                             vr_location := Some (vp_location close p),
                             vr_nearest_hvn_distance_atr := nearest_level_distance close (vp_hvn_levels p) a,
                             vr_nearest_lvn_distance_atr := nearest_level_distance close (vp_lvn_levels p) a\<rparr>)
             in case globex of
                  None \<Rightarrow> r
                | Some p \<Rightarrow>
                    r\<lparr>vr_globex_source := Some (vp_source p),
                      vr_globex_poc_distance_atr := Some (in_atr (dq (close - vp_poc p)) a),
                      vr_globex_location := Some (vp_location close p)\<rparr>))"

section \<open>Values of a snapshot\<close>

text \<open>A Decimal in a condition: zero counts as absent.\<close>

definition truthy :: "dec option \<Rightarrow> dec option" where
  "truthy x = (case x of None \<Rightarrow> None | Some v \<Rightarrow> if v = 0 then None else Some v)"

definition hopt :: "(htf_state \<Rightarrow> 'a option) \<Rightarrow> htf_state option \<Rightarrow> 'a option" where
  "hopt f h = (case h of None \<Rightarrow> None | Some s \<Rightarrow> f s)"

definition or_established :: "feature_state \<Rightarrow> bool" where
  "or_established st \<longleftrightarrow> \<not> (\<not> fs_orb_established st \<or> fs_orb_high st = None \<or> fs_orb_low st = None)"

definition or_position :: "feature_state \<Rightarrow> dec \<Rightarrow> string option" where
  "or_position st close =
     (if \<not> or_established st then None
      else if close > the (fs_orb_high st) then Some ''ABOVE''
      else if close < the (fs_orb_low st) then Some ''BELOW''
      else Some ''INSIDE'')"

definition atr_14 :: "feature_state \<Rightarrow> dec option" where
  "atr_14 st = (if fs_atr_buffer st = [] then None else Some (round_places 4 (fl (dec_mean (fs_atr_buffer st)))))"

definition quoted_spread :: "feature_state \<Rightarrow> dec option" where
  "quoted_spread st =
     (case (truthy (fs_latest_bid st), truthy (fs_latest_ask st)) of
        (Some bid, Some ask) \<Rightarrow> Some (dq (ask - bid)) | _ \<Rightarrow> None)"

definition quoted_spread_pct :: "feature_state \<Rightarrow> rat option" where
  "quoted_spread_pct st =
     (case (truthy (fs_latest_bid st), truthy (fs_latest_ask st)) of
        (Some bid, Some ask) \<Rightarrow>
          (let spread = dq (ask - bid); mid = dq (dq (bid + ask) / 2)
           in if spread \<noteq> 0 \<and> mid \<noteq> 0 then Some (fl (dq (dq (spread / mid) * 100))) else None)
      | _ \<Rightarrow> None)"

definition vwap_slope :: "feature_state \<Rightarrow> rat option" where
  "vwap_slope st =
     (case fs_prev_vwap st of
        None \<Rightarrow> None
      | Some p \<Rightarrow> if p > 0 then Some (fl (dq (dq (dq (session_vwap st - p) / p) * 100))) else None)"

definition bar_range :: "bar_event \<Rightarrow> dec" where
  "bar_range bar = dq (be_high bar - be_low bar)"

definition close_position :: "bar_event \<Rightarrow> rat option" where
  "close_position bar =
     (if bar_range bar > 0 then Some (fl (dq (dq (be_close bar - be_low bar) / bar_range bar))) else None)"

definition bar_fraction :: "bar_event \<Rightarrow> rat \<Rightarrow> rat option" where
  "bar_fraction bar part = (if bar_range bar > 0 then Some (fl (part / fl (bar_range bar))) else None)"

definition vwap_distance :: "feature_state \<Rightarrow> dec \<Rightarrow> rat option" where
  "vwap_distance st price =
     (case fs_atr_30 st of
        None \<Rightarrow> None
      | Some a \<Rightarrow> if a > 0 \<and> session_vwap st > 0 then Some (in_atr (dq (price - session_vwap st)) a) else None)"

definition slope_change :: "rat option \<Rightarrow> rat option \<Rightarrow> rat option" where
  "slope_change now before = (case (now, before) of (Some a, Some b) \<Rightarrow> Some (fl (a - b)) | _ \<Rightarrow> None)"

definition sma_distance :: "dec option \<Rightarrow> htf_state option \<Rightarrow> rat option" where
  "sma_distance price h1 =
     (case (price, hopt ht_sma_200 h1, hopt ht_atr30 h1) of
        (Some p, Some sma, Some atr) \<Rightarrow> if atr > 0 then Some (in_atr (dq (p - sma)) atr) else None
      | _ \<Rightarrow> None)"

text \<open>The four slopes of a bar and their composites.\<close>

record slopes =
  sl_9_1m :: "rat option"
  sl_21_1m :: "rat option"
  sl_9_5m :: "rat option"
  sl_21_5m :: "rat option"

definition slopes_of :: "feature_state \<Rightarrow> htf_state option \<Rightarrow> slopes" where
  "slopes_of st m5 =
     \<lparr>sl_9_1m = norm3_slope (fs_ema9_1m_history st) (fs_atr_30 st),
      sl_21_1m = norm3_slope (fs_ema21_1m_history st) (fs_atr_30 st),
      sl_9_5m = (case m5 of None \<Rightarrow> None | Some m \<Rightarrow> norm3_slope (ht_ema9_history m) (ht_atr30 m)),
      sl_21_5m = (case m5 of None \<Rightarrow> None | Some m \<Rightarrow> norm3_slope (ht_ema21_history m) (ht_atr30 m))\<rparr>"

definition both_negative :: "rat option \<Rightarrow> rat option \<Rightarrow> bool" where
  "both_negative a b = (case (a, b) of (Some x, Some y) \<Rightarrow> x < 0 \<and> y < 0 | _ \<Rightarrow> False)"

definition both_positive :: "rat option \<Rightarrow> rat option \<Rightarrow> bool" where
  "both_positive a b = (case (a, b) of (Some x, Some y) \<Rightarrow> x > 0 \<and> y > 0 | _ \<Rightarrow> False)"

definition all_bearish :: "slopes \<Rightarrow> bool" where
  "all_bearish s \<longleftrightarrow> both_negative (sl_9_1m s) (sl_21_1m s) \<and> both_negative (sl_9_5m s) (sl_21_5m s)"

definition all_bullish :: "slopes \<Rightarrow> bool" where
  "all_bullish s \<longleftrightarrow> both_positive (sl_9_1m s) (sl_21_1m s) \<and> both_positive (sl_9_5m s) (sl_21_5m s)"

definition mtf_strength :: "slopes \<Rightarrow> rat option" where
  "mtf_strength s =
     (if all_bearish s \<or> all_bullish s
      then Some (fl (fl (fl (fl (the (sl_9_1m s) + the (sl_21_1m s)) + the (sl_9_5m s)) + the (sl_21_5m s)) / 4))
      else None)"

definition slope_dispersion :: "slopes \<Rightarrow> rat option" where
  "slope_dispersion s =
     (case (sl_9_1m s, sl_21_1m s, sl_9_5m s, sl_21_5m s) of
        (Some a, Some b, Some c, Some d) \<Rightarrow>
          (let xs = [a, b, c, d]; mean = fl (fl_sum xs / 4)
           in Some (fl_sqrt (fl (fl_sum (map (\<lambda>x. let y = fl (x - mean) in fl (y * y)) xs) / 4))))
      | _ \<Rightarrow> None)"

definition bearish_persistence :: "feature_state \<Rightarrow> slopes \<Rightarrow> int" where
  "bearish_persistence st s = (if all_bearish s then fs_ema_bearish_persistence_bars st + 1 else 0)"

definition bullish_persistence :: "feature_state \<Rightarrow> slopes \<Rightarrow> int" where
  "bullish_persistence st s =
     (if \<not> all_bearish s \<and> all_bullish s then fs_ema_bullish_persistence_bars st + 1 else 0)"

text \<open>The bar the snapshot embeds.\<close>

definition snapshot_bar :: "bar_event \<Rightarrow> bar" where
  "snapshot_bar ev =
     \<lparr>br_symbol = be_symbol ev, br_timeframe = be_timeframe ev, br_timestamp = be_timestamp ev,
      br_open = be_open ev, br_high = be_high ev, br_low = be_low ev, br_close = be_close ev,
      br_volume = be_volume ev, br_vwap = be_vwap ev, br_trade_count = be_trade_count ev,
      br_is_partial = False, br_source = em_source (be_metadata ev)\<rparr>"

section \<open>The snapshot\<close>

text \<open>
  The fields the constructor call leaves out keep their defaults: the VWAP bands, relative strength and
  the opening-range crosses.
\<close>

definition snapshot_of ::
  "feature_state \<Rightarrow> htf_state option \<Rightarrow> htf_state option \<Rightarrow> htf_state option \<Rightarrow> vp_reading \<Rightarrow> session_phase \<Rightarrow>
   bar_event \<Rightarrow> bar_snapshot" where
  "snapshot_of st m5 h1 d1 vp phase bar =
     (let vwap = session_vwap st; s = slopes_of st m5; vd = vwap_distance st (be_close bar);
          m1_loc = m1_ribbon_location (be_close bar) h1
      in \<lparr>sn_symbol = be_symbol bar, sn_timestamp = be_timestamp bar, sn_timeframe = be_timeframe bar,
          sn_bar = snapshot_bar bar, sn_vwap = vwap, sn_full_session_vwap = (if vwap > 0 then Some vwap else None),
          sn_rth_vwap = rth_vwap st, sn_vwap_upper_band = None, sn_vwap_lower_band = None,
          sn_vwap_deviation_pct = (if vwap \<noteq> 0 then vwap_deviation (be_close bar) vwap else 0),
          sn_cumulative_volume = fs_cumulative_volume st, sn_relative_volume = fs_relative_volume st,
          sn_or_high = fs_orb_high st, sn_or_low = fs_orb_low st,
          sn_or_range = (case (truthy (fs_orb_high st), truthy (fs_orb_low st)) of (Some h, Some l) \<Rightarrow> Some (dq (h - l)) | _ \<Rightarrow> None),
          sn_or_established = or_established st, sn_or_position = or_position st (be_close bar),
          sn_session_phase = phase, sn_bars_since_open = fs_bars_since_open st, sn_ema_9 = fs_ema_9 st,
          sn_ema_21 = fs_ema_21 st, sn_ema_50 = fs_ema_50 st, sn_ema9_1m_slope_norm_3 = sl_9_1m s,
          sn_ema9_1m_slope_direction = classify_slope (sl_9_1m s) SLOPE_FLAT_THRESHOLD_1M,
          sn_ema21_1m_slope_norm_3 = sl_21_1m s,
          sn_ema21_1m_slope_direction = classify_slope (sl_21_1m s) SLOPE_FLAT_THRESHOLD_1M,
          sn_vwap_slope = vwap_slope st, sn_vwap_slope_direction = classify_slope (vwap_slope st) (fl (2/1000)),
          sn_ema9_5m = hopt ht_ema_9 m5, sn_ema21_5m = hopt ht_ema_21 m5, sn_atr30_5m = hopt ht_atr30 m5,
          sn_atr30_5m_samples = (case m5 of None \<Rightarrow> 0 | Some m \<Rightarrow> ht_atr30_sample_count m),
          sn_ema9_5m_slope_norm_3 = sl_9_5m s,
          sn_ema9_5m_slope_direction = classify_slope (sl_9_5m s) SLOPE_FLAT_THRESHOLD_5M,
          sn_ema21_5m_slope_norm_3 = sl_21_5m s,
          sn_ema21_5m_slope_direction = classify_slope (sl_21_5m s) SLOPE_FLAT_THRESHOLD_5M,
          sn_htf_5m_watermark = hopt ht_last_sealed_ts m5, sn_ema9_1h = hopt ht_ema_9 h1,
          sn_ema21_1h = hopt ht_ema_21 h1, sn_ema50_1h = hopt ht_ema_50 h1, sn_sma200_1h = hopt ht_sma_200 h1,
          sn_atr30_1h = hopt ht_atr30 h1,
          sn_atr30_1h_samples = (case h1 of None \<Rightarrow> 0 | Some h \<Rightarrow> ht_atr30_sample_count h),
          sn_ema9_1h_slope_norm_3 = hopt ht_slope9_norm3 h1,
          sn_ema9_1h_slope_direction = classify_slope (hopt ht_slope9_norm3 h1) SLOPE_FLAT_THRESHOLD_1H,
          sn_ema21_1h_slope_norm_3 = hopt ht_slope21_norm3 h1,
          sn_ema21_1h_slope_direction = classify_slope (hopt ht_slope21_norm3 h1) SLOPE_FLAT_THRESHOLD_1H,
          sn_ema50_1h_slope_norm_3 = hopt ht_slope50_norm3 h1,
          sn_ema50_1h_slope_direction = classify_slope (hopt ht_slope50_norm3 h1) SLOPE_FLAT_THRESHOLD_1H,
          sn_ema_ribbon_low_1h = hopt ht_ribbon_low h1, sn_ema_ribbon_high_1h = hopt ht_ribbon_high h1,
          sn_ema_ribbon_center_1h = hopt ht_ribbon_center h1,
          sn_ema_ribbon_width_1h_atr = hopt ht_ribbon_width_atr h1,
          sn_ema9_21_distance_1h_atr = hopt ht_ema9_21_dist_atr h1,
          sn_ema21_50_distance_1h_atr = hopt ht_ema21_50_dist_atr h1,
          sn_ema_stack_direction_1h = hopt ht_stack_direction h1,
          sn_ema_slope_alignment_1h = hopt ht_slope_alignment h1,
          sn_h1_close_location_vs_ema_ribbon_1h = hopt ht_h1_close_location h1,
          sn_h1_close_to_ema_ribbon_1h_atr = hopt ht_h1_close_to_ribbon_atr h1,
          sn_h1_close_to_ema_ribbon_center_1h_atr = hopt ht_h1_close_to_center_atr h1,
          sn_m1_close_location_vs_ema_ribbon_1h = fst m1_loc, sn_m1_close_to_ema_ribbon_1h_atr = fst (snd m1_loc),
          sn_m1_close_to_ema_ribbon_center_1h_atr = snd (snd m1_loc),
          sn_ema_ribbon_center_to_sma200_1h_atr = sma_distance (hopt ht_ribbon_center h1) h1,
          sn_price_to_sma200_1h_atr = sma_distance (Some (be_close bar)) h1,
          sn_ema_ribbon_width_percentile_60h = hopt ht_ribbon_width_percentile h1,
          sn_ema_ribbon_width_slope_3h = hopt ht_ribbon_width_slope_3h h1,
          sn_ema_ribbon_width_slope_6h = hopt ht_ribbon_width_slope_6h h1,
          sn_htf_1h_watermark = hopt ht_last_sealed_ts h1, sn_ema10_1d = hopt ht_ema_10 d1,
          sn_ema20_1d = hopt ht_ema_20 d1, sn_atr_14 = atr_14 st, sn_bid_price = fs_latest_bid st,
          sn_ask_price = fs_latest_ask st, sn_bid_ask_spread = quoted_spread st,
          sn_bid_ask_spread_pct = quoted_spread_pct st, sn_rs_vs_spy = None, sn_rs_vs_sector = None,
          sn_is_above_vwap = (be_close bar \<ge> vwap),
          sn_is_extended = (case vd of None \<Rightarrow> False | Some d \<Rightarrow> \<bar>d\<bar> > 2),
          sn_bars_above_vwap = fs_bars_above_vwap st, sn_bars_below_vwap = fs_bars_below_vwap st,
          sn_vwap_cross_up = fs_vwap_cross_up st, sn_vwap_cross_up_after_bars = fs_bars_below_vwap_at_cross st,
          sn_vwap_cross_down = fs_vwap_cross_down st,
          sn_vwap_cross_down_after_bars = fs_bars_above_vwap_at_cross st,
          sn_vwap_deviation_shrinking = fs_vwap_deviation_shrinking st,
          sn_bar_close_position_pct = close_position bar, sn_intraday_high = fs_intraday_high st,
          sn_intraday_low = fs_intraday_low st, sn_is_new_hod = fs_is_new_hod st, sn_is_new_lod = fs_is_new_lod st,
          sn_is_new_rth_lod = fs_is_new_rth_lod st, sn_is_higher_high = fs_is_higher_high st,
          sn_is_lower_low = fs_is_lower_low st, sn_is_lower_high = fs_is_lower_high st,
          sn_recent_lower_low = (fs_bars_since_last_lower_low st \<le> 10),
          sn_or_mid = (case (truthy (fs_orb_high st), truthy (fs_orb_low st)) of (Some h, Some l) \<Rightarrow> Some (dq (dq (h + l) / 2)) | _ \<Rightarrow> None),
          sn_swept_below_vwap = (vwap > 0 \<and> be_low bar < vwap \<and> be_close bar \<ge> vwap),
          sn_swept_or_low = (case fs_orb_low st of None \<Rightarrow> False | Some l \<Rightarrow> be_low bar < l),
          sn_or_cross_down = False, sn_or_cross_up = False, sn_bars_since_or_breakdown = 0,
          sn_vwap_distance_atr = vd, sn_atr_30 = fs_atr_30 st,
          sn_ema9_1m_slope_accel_norm = slope_change (sl_9_1m s) (fs_prev_ema9_1m_slope_norm_3 st),
          sn_ema21_1m_slope_accel_norm = slope_change (sl_21_1m s) (fs_prev_ema21_1m_slope_norm_3 st),
          sn_ema9_5m_slope_accel_norm = hopt ht_ema9_slope_accel m5,
          sn_ema21_5m_slope_accel_norm = hopt ht_ema21_slope_accel m5,
          sn_ema_bearish_alignment_1m = both_negative (sl_9_1m s) (sl_21_1m s),
          sn_ema_bearish_alignment_5m = both_negative (sl_9_5m s) (sl_21_5m s),
          sn_ema_bullish_alignment_1m = both_positive (sl_9_1m s) (sl_21_1m s),
          sn_ema_bullish_alignment_5m = both_positive (sl_9_5m s) (sl_21_5m s),
          sn_ema_mtf_all_bearish = all_bearish s, sn_ema_mtf_all_bullish = all_bullish s,
          sn_ema_mtf_strength = mtf_strength s, sn_ema_slope_dispersion = slope_dispersion s,
          sn_ema_bearish_persistence_bars = bearish_persistence st s,
          sn_ema_bullish_persistence_bars = bullish_persistence st s,
          sn_vwap_relative_side = (if vwap > 0 then Some (if be_close bar \<ge> vwap then ''above'' else ''below'') else None),
          sn_bar_high_distance_to_vwap_atr = vwap_distance st (be_high bar),
          sn_bar_low_distance_to_vwap_atr = vwap_distance st (be_low bar),
          sn_vwap_approach_velocity_atr = slope_change vd (fs_prev_vwap_distance_atr st),
          sn_bar_body_pct = bar_fraction bar \<bar>fl (dq (be_close bar - be_open bar))\<bar>,
          sn_upper_wick_pct = bar_fraction bar (fl (dq (be_high bar - max (be_open bar) (be_close bar)))),
          sn_lower_wick_pct = bar_fraction bar (fl (dq (min (be_open bar) (be_close bar) - be_low bar))),
          sn_bar_range_atr = (case fs_atr_30 st of None \<Rightarrow> None | Some a \<Rightarrow> if a > 0 then Some (fl (fl (bar_range bar) / fl a)) else None),
          sn_is_inside_bar = fs_is_inside_bar st, sn_is_outside_bar = fs_is_outside_bar st,
          sn_rth_median_1m_range = fs_rth_median_1m_range st, sn_rth_p75_1m_range = fs_rth_p75_1m_range st,
          sn_rth_p90_1m_range = fs_rth_p90_1m_range st, sn_vp_source = vr_source vp,
          sn_vp_poc_distance_atr = vr_poc_distance_atr vp, sn_vp_vah_distance_atr = vr_vah_distance_atr vp,
          sn_vp_val_distance_atr = vr_val_distance_atr vp, sn_vp_location = vr_location vp,
          sn_vp_nearest_hvn_distance_atr = vr_nearest_hvn_distance_atr vp,
          sn_vp_nearest_lvn_distance_atr = vr_nearest_lvn_distance_atr vp,
          sn_vp_globex_source = vr_globex_source vp, sn_vp_globex_poc_distance_atr = vr_globex_poc_distance_atr vp,
          sn_vp_globex_location = vr_globex_location vp, sn_flow = None\<rparr>)"

text \<open>What building the snapshot writes back: previous slopes, persistence and VWAP distance.\<close>

definition remember :: "feature_state \<Rightarrow> slopes \<Rightarrow> rat option \<Rightarrow> feature_state" where
  "remember st s vd =
     st\<lparr>fs_prev_ema9_1m_slope_norm_3 := sl_9_1m s, fs_prev_ema21_1m_slope_norm_3 := sl_21_1m s,
        fs_ema_bearish_persistence_bars := bearish_persistence st s,
        fs_ema_bullish_persistence_bars := bullish_persistence st s,
        fs_prev_vwap_distance_atr := vd\<rparr>"

text \<open>The five-minute accelerations, only on the bar that coincides with a sealed five-minute bar.\<close>

definition m5_accelerate :: "htf_state \<Rightarrow> slopes \<Rightarrow> bar_event \<Rightarrow> htf_state" where
  "m5_accelerate m s bar =
     (if ht_last_sealed_ts m = Some (be_timestamp bar)
      then m\<lparr>ht_ema9_slope_accel := slope_change (sl_9_5m s) (ht_prev_ema9_slope_norm_3 m),
             ht_ema21_slope_accel := slope_change (sl_21_5m s) (ht_prev_ema21_slope_norm_3 m),
             ht_prev_ema9_slope_norm_3 := sl_9_5m s, ht_prev_ema21_slope_norm_3 := sl_21_5m s\<rparr>
      else m)"

section \<open>The engine\<close>

record feature_engine =
  fe_states :: "string \<rightharpoonup> feature_state"
  fe_snapshots :: "string \<rightharpoonup> bar_snapshot"
  fe_symbol_calendars :: "string \<rightharpoonup> session_calendar"
  fe_snapshots_emitted :: int
  fe_m5_ema :: "string \<rightharpoonup> htf_state"
  fe_h1_ema :: "string \<rightharpoonup> htf_state"
  fe_d1_ema :: "string \<rightharpoonup> htf_state"
  fe_pipeline_mode :: bool
  fe_pending_m5 :: "string \<rightharpoonup> bar_event list"
  fe_vp_rth :: "string \<rightharpoonup> volume_profile"
  fe_vp_globex :: "string \<rightharpoonup> volume_profile"
  fe_vp_session_key :: "string \<rightharpoonup> date"

text \<open>What the engine is constructed with.\<close>

record feature_env =
  fv_registry :: symbol_registry
  fv_calendar :: session_calendar
  fv_nyse :: session_calendar
  fv_cme :: session_calendar
  fv_orb_minutes :: int
  fv_profiles :: profile_files
  fv_max_lookback_days :: nat

datatype feature_error = Symbol_unknown string | Bar_rejected bar

definition feature_engine_new :: feature_engine where
  "feature_engine_new =
     \<lparr>fe_states = Map.empty, fe_snapshots = Map.empty, fe_symbol_calendars = Map.empty,
      fe_snapshots_emitted = 0, fe_m5_ema = Map.empty, fe_h1_ema = Map.empty, fe_d1_ema = Map.empty,
      fe_pipeline_mode = False, fe_pending_m5 = Map.empty, fe_vp_rth = Map.empty, fe_vp_globex = Map.empty,
      fe_vp_session_key = Map.empty\<rparr>"

definition calendar_of :: "feature_env \<Rightarrow> symbol \<Rightarrow> session_calendar" where
  "calendar_of v s = calendar_for_symbol (fv_nyse v) (fv_cme v) (sy_asset_class s)"

text \<open>\<open>_on_initialize\<close>: a state and a calendar for every active symbol.\<close>

definition feature_initialize :: "feature_env \<Rightarrow> feature_engine \<Rightarrow> feature_engine" where
  "feature_initialize v e =
     foldl (\<lambda>e s. e\<lparr>fe_symbol_calendars := (fe_symbol_calendars e)(sy_ticker s \<mapsto> calendar_of v s),
                    fe_states := (fe_states e)(sy_ticker s \<mapsto> feature_state_new (sy_ticker s) (fv_orb_minutes v))\<rparr>)
       e (active_symbols (fv_registry v))"

definition get_snapshot :: "feature_engine \<Rightarrow> string \<Rightarrow> bar_snapshot option" where
  "get_snapshot e s = fe_snapshots e s"

definition engine_calendar :: "feature_env \<Rightarrow> feature_engine \<Rightarrow> string \<Rightarrow> session_calendar" where
  "engine_calendar v e s = get_default (fe_symbol_calendars e) s (fv_calendar v)"

definition get_or_create :: "feature_env \<Rightarrow> feature_engine \<Rightarrow> string \<Rightarrow> feature_error + feature_engine \<times> feature_state" where
  "get_or_create v e s =
     (case fe_states e s of
        Some st \<Rightarrow> Inr (e, st)
      | None \<Rightarrow>
          (case registry_get (fv_registry v) s of
             Inl _ \<Rightarrow> Inl (Symbol_unknown s)
           | Inr sym_found \<Rightarrow>
               (let st = feature_state_new s (fv_orb_minutes v)
                in Inr (e\<lparr>fe_symbol_calendars := (fe_symbol_calendars e)(s \<mapsto> calendar_of v sym_found),
                          fe_states := (fe_states e)(s \<mapsto> st)\<rparr>, st))))"

text \<open>The profiles, loaded once per session when the state rolls.\<close>

definition load_profiles :: "feature_env \<Rightarrow> feature_engine \<Rightarrow> string \<Rightarrow> date \<Rightarrow> date \<Rightarrow> feature_engine" where
  "load_profiles v e s key d =
     (if fe_vp_session_key e s = Some key then e
      else case load_session_pair (fv_profiles v) (fv_max_lookback_days v) s d of
             (rth, globex) \<Rightarrow>
               e\<lparr>fe_vp_session_key := (fe_vp_session_key e)(s \<mapsto> key),
                 fe_vp_rth := (fe_vp_rth e)(s := rth), fe_vp_globex := (fe_vp_globex e)(s := globex)\<rparr>)"

text \<open>
  \<open>_update_state\<close> and \<open>_build_snapshot\<close> for a symbol whose state exists: the registry is asked for the
  asset class, the state is rolled and updated, the snapshot built. The exception of an invalid bar
  comes from the \<open>Bar\<close> constructor, after the state was updated.
\<close>

definition feature_bar ::
  "feature_env \<Rightarrow> feature_engine \<Rightarrow> feature_state \<Rightarrow> bar_event \<Rightarrow> feature_engine \<times> (feature_error + bar_snapshot)" where
  "feature_bar v e st bar =
     (let s = be_symbol bar; cal = engine_calendar v e s;
          rolled = (fs_session_key st \<noteq> Some (session_key cal (be_timestamp bar)));
          st = roll_state cal st bar;
          e = (if rolled then load_profiles v e s (session_key cal (be_timestamp bar)) (sc_session_date cal (be_timestamp bar))
               else e)
      in case registry_get (fv_registry v) s of
           Inl _ \<Rightarrow>
             (e\<lparr>fe_states := (fe_states e)(s \<mapsto> st\<lparr>fs_bars := push 200 bar (fs_bars st)\<rparr>)\<rparr>, Inl (Symbol_unknown s))
         | Inr sym_found \<Rightarrow>
             (let st = update_state cal (sy_asset_class sym_found = Asset_FUTURE) st bar;
                  slopes = slopes_of st (fe_m5_ema e s);
                  m5 = map_option (\<lambda>m. m5_accelerate m slopes bar) (fe_m5_ema e s);
                  vp = compute_vp_fields (fe_vp_rth e s) (fe_vp_globex e s) (be_close bar) (fs_atr_30 st);
                  snap = snapshot_of st m5 (fe_h1_ema e s) (fe_d1_ema e s) vp
                           (sc_session_phase cal (be_timestamp bar)) bar;
                  e = e\<lparr>fe_states := (fe_states e)(s \<mapsto> remember st slopes (vwap_distance st (be_close bar))),
                        fe_m5_ema := (fe_m5_ema e)(s := m5)\<rparr>
              in if bar_valid (snapshot_bar bar) then (e, Inr snap) else (e, Inl (Bar_rejected (snapshot_bar bar)))))"

definition store_snapshot :: "feature_engine \<Rightarrow> string \<Rightarrow> bar_snapshot \<Rightarrow> feature_engine" where
  "store_snapshot e s snap =
     e\<lparr>fe_snapshots := (fe_snapshots e)(s \<mapsto> snap), fe_snapshots_emitted := fe_snapshots_emitted e + 1\<rparr>"

definition update_m5 :: "feature_engine \<Rightarrow> bar_event \<Rightarrow> feature_engine" where
  "update_m5 e bar = e\<lparr>fe_m5_ema := update_htf_ema M5_TRACKING (fe_m5_ema e) bar\<rparr>"

text \<open>The pipeline's first stage: buffered five-minute bars first, then the one-minute bar.\<close>

definition flush_m5 :: "feature_engine \<Rightarrow> string \<Rightarrow> feature_engine" where
  "flush_m5 e s =
     foldl update_m5 (e\<lparr>fe_pending_m5 := (fe_pending_m5 e)(s := None)\<rparr>) (get_default (fe_pending_m5 e) s [])"

definition process_flushed ::
  "feature_env \<Rightarrow> feature_engine \<Rightarrow> bar_bundle \<Rightarrow> feature_engine \<times> (feature_error + bar_snapshot option)" where
  "process_flushed v e bundle =
     (let bar = to_bar_event bundle; s = be_symbol bar in
      case get_or_create v e s of
        Inl err \<Rightarrow> (e, Inl err)
      | Inr (e, st) \<Rightarrow>
          (case feature_bar v e st bar of
             (e, Inl err) \<Rightarrow> (e, Inl err)
           | (e, Inr snap) \<Rightarrow>
               (let snap = (case bb_flow bundle of None \<Rightarrow> snap | Some f \<Rightarrow> snap\<lparr>sn_flow := Some f\<rparr>)
                in (store_snapshot e s snap, Inr (Some snap)))))"

definition feature_process_bar ::
  "feature_env \<Rightarrow> feature_engine \<Rightarrow> bar_bundle \<Rightarrow> feature_engine \<times> (feature_error + bar_snapshot option)" where
  "feature_process_bar v e bundle =
     (if bb_timeframe bundle \<noteq> TF_M1 then (e, Inr None)
      else process_flushed v (flush_m5 e (be_symbol (to_bar_event bundle))) bundle)"

definition feature_handle_bar ::
  "feature_env \<Rightarrow> feature_engine \<Rightarrow> bar_event \<Rightarrow> feature_engine \<times> (feature_error + unit)" where
  "feature_handle_bar v e bar =
     (let s = be_symbol bar in
      if be_timeframe bar = TF_D1 then (e\<lparr>fe_d1_ema := update_htf_ema D1_TRACKING (fe_d1_ema e) bar\<rparr>, Inr ())
      else if be_timeframe bar = TF_M5 then
        (if fe_pipeline_mode e
         then (e\<lparr>fe_pending_m5 := (fe_pending_m5 e)(s \<mapsto> get_default (fe_pending_m5 e) s [] @ [bar])\<rparr>, Inr ())
         else (update_m5 e bar, Inr ()))
      else if be_timeframe bar = TF_H1 then (e\<lparr>fe_h1_ema := update_htf_ema H1_TRACKING (fe_h1_ema e) bar\<rparr>, Inr ())
      else if be_timeframe bar \<noteq> TF_M1 then (e, Inr ())
      else if fe_pipeline_mode e then (e, Inr ())
      else
        (case get_or_create v e s of
           Inl err \<Rightarrow> (e, Inl err)
         | Inr (e, st) \<Rightarrow>
             (case feature_bar v e st bar of
                (e, Inl err) \<Rightarrow> (e, Inl err)
              | (e, Inr snap) \<Rightarrow> (store_snapshot e s snap, Inr ()))))"

definition feature_handle_quote ::
  "feature_env \<Rightarrow> feature_engine \<Rightarrow> quote_event \<Rightarrow> feature_engine \<times> (feature_error + unit)" where
  "feature_handle_quote v e q =
     (case get_or_create v e (qe_symbol q) of
        Inl err \<Rightarrow> (e, Inl err)
      | Inr (e, st) \<Rightarrow> (e\<lparr>fe_states := (fe_states e)(qe_symbol q \<mapsto> apply_quote st q)\<rparr>, Inr ()))"

text \<open>\<open>price\<close> is the Decimal the trade's float prints as.\<close>

definition feature_record_trade :: "feature_engine \<Rightarrow> string \<Rightarrow> dec \<Rightarrow> feature_engine" where
  "feature_record_trade e s price =
     (case fe_states e s of
        None \<Rightarrow> e
      | Some st \<Rightarrow> e\<lparr>fe_states := (fe_states e)(s \<mapsto> record_trade st price)\<rparr>)"

text \<open>What the thesis engine reads of a symbol; \<open>now\<close> is the clock, used before the first snapshot.\<close>

record level_memory =
  lm_symbol :: string
  lm_timestamp :: timestamp
  lm_vwap_touch_count :: int
  lm_last_vwap_outcome :: "string option"
  lm_bars_since_last_vwap_touch :: int
  lm_current_side :: "string option"
  lm_session_sweep_low :: "dec option"
  lm_session_reject_high :: "dec option"

definition get_level_memory :: "feature_engine \<Rightarrow> timestamp \<Rightarrow> string \<Rightarrow> level_memory option" where
  "get_level_memory e now s =
     (case fe_states e s of
        None \<Rightarrow> None
      | Some st \<Rightarrow>
          Some \<lparr>lm_symbol = s,
                lm_timestamp = (case fe_snapshots e s of None \<Rightarrow> now | Some snap \<Rightarrow> sn_timestamp snap),
                lm_vwap_touch_count = fs_vwap_touch_count st,
                lm_last_vwap_outcome = fs_last_vwap_outcome st,
                lm_bars_since_last_vwap_touch = fs_bars_since_last_vwap_touch st,
                lm_current_side = (case fs_prev_above_vwap st of
                                     None \<Rightarrow> None | Some True \<Rightarrow> Some ''above'' | Some False \<Rightarrow> Some ''below''),
                lm_session_sweep_low = fs_session_sweep_low st,
                lm_session_reject_high = fs_session_reject_high st\<rparr>)"

section \<open>Opening-range crosses\<close>

lemma snapshot_of_crosses:
  "sn_or_cross_down (snapshot_of st m5 h1 d1 vp phase bar) = False"
  "sn_or_cross_up (snapshot_of st m5 h1 d1 vp phase bar) = False"
  by (simp_all add: snapshot_of_def Let_def)

lemma feature_bar_crosses:
  "feature_bar v e st bar = (e', Inr snap) \<Longrightarrow> sn_or_cross_down snap = False \<and> sn_or_cross_up snap = False"
  unfolding feature_bar_def Let_def
  by (auto simp: snapshot_of_crosses split: sum.splits if_splits)

lemma process_bar_crosses:
  "feature_process_bar v e b = (e', Inr (Some snap)) \<Longrightarrow> sn_or_cross_down snap = False \<and> sn_or_cross_up snap = False"
  unfolding feature_process_bar_def process_flushed_def Let_def
  by (auto dest!: feature_bar_crosses split: sum.splits prod.splits if_splits option.splits)

section \<open>Five-minute bars in the pipeline\<close>

lemma handle_m5:
  assumes "fe_pipeline_mode e" "be_timeframe bar = TF_M5"
  shows "fst (feature_handle_bar v e bar) =
    e\<lparr>fe_pending_m5 := (fe_pending_m5 e)(be_symbol bar \<mapsto> get_default (fe_pending_m5 e) (be_symbol bar) [] @ [bar])\<rparr>"
  using assms by (simp add: feature_handle_bar_def Let_def)

lemma handle_m5_fold:
  assumes "fe_pipeline_mode e" "list_all (\<lambda>b. be_timeframe b = TF_M5 \<and> be_symbol b = s) bars" "bars \<noteq> []"
  shows "foldl (\<lambda>e b. fst (feature_handle_bar v e b)) e bars =
    e\<lparr>fe_pending_m5 := (fe_pending_m5 e)(s \<mapsto> get_default (fe_pending_m5 e) s [] @ bars)\<rparr>"
  using assms
proof (induction bars rule: rev_induct)
  case (snoc bar bars)
  define e1 where "e1 = foldl (\<lambda>e b. fst (feature_handle_bar v e b)) e bars"
  have e1: "e1 = (if bars = [] then e else e\<lparr>fe_pending_m5 := (fe_pending_m5 e)(s \<mapsto> get_default (fe_pending_m5 e) s [] @ bars)\<rparr>)"
    using snoc by (simp add: e1_def fun_upd_def)
  have "foldl (\<lambda>e b. fst (feature_handle_bar v e b)) e (bars @ [bar]) = fst (feature_handle_bar v e1 bar)"
    by (simp add: e1_def)
  also have "\<dots> = e1\<lparr>fe_pending_m5 := (fe_pending_m5 e1)(s \<mapsto> get_default (fe_pending_m5 e1) s [] @ [bar])\<rparr>"
    using handle_m5 [of e1 bar v] snoc.prems e1 by simp
  also have "\<dots> = e\<lparr>fe_pending_m5 := (fe_pending_m5 e)(s \<mapsto> get_default (fe_pending_m5 e) s [] @ bars @ [bar])\<rparr>"
    unfolding e1 by (cases "bars = []") simp_all
  finally show ?case by (simp add: fun_upd_def)
qed simp

lemma update_m5_comm: "update_m5 (e\<lparr>fe_pending_m5 := p\<rparr>) bar = (update_m5 e bar)\<lparr>fe_pending_m5 := p\<rparr>"
  by (simp add: update_m5_def)

lemma update_m5_pending: "foldl update_m5 (e\<lparr>fe_pending_m5 := p\<rparr>) bars = (foldl update_m5 e bars)\<lparr>fe_pending_m5 := p\<rparr>"
  by (induction bars arbitrary: e) (simp_all add: update_m5_comm)

lemma update_m5_fold_pending [simp]: "fe_pending_m5 (foldl update_m5 e bars) = fe_pending_m5 e"
  by (induction bars arbitrary: e) (simp_all add: update_m5_def)

text \<open>
  C32. Buffering the five-minute bars while the pipeline owns the one-minute bars changes nothing: however many of the
  symbol's five-minute bars the bus delivered before a one-minute bundle, the bundle is processed as if each had
  updated the five-minute averages when it arrived, so the snapshot sees all of them.
\<close>

theorem m5_buffering_is_transparent:
  assumes "fe_pipeline_mode e" "list_all (\<lambda>b. be_timeframe b = TF_M5 \<and> be_symbol b = bb_symbol bundle) bars"
    and "bb_timeframe bundle = TF_M1"
  shows "feature_process_bar v (foldl (\<lambda>e b. fst (feature_handle_bar v e b)) e bars) bundle =
    feature_process_bar v (foldl update_m5 (flush_m5 e (bb_symbol bundle)) bars) bundle"
proof -
  let ?s = "bb_symbol bundle"
  have "flush_m5 (foldl (\<lambda>e b. fst (feature_handle_bar v e b)) e bars) ?s =
      foldl update_m5 (flush_m5 e ?s) bars"
  proof (cases "bars = []")
    case False
    from handle_m5_fold [OF assms(1,2) False] show ?thesis by (simp add: flush_m5_def)
  qed simp
  moreover have "flush_m5 (foldl update_m5 (flush_m5 e ?s) bars) ?s = foldl update_m5 (flush_m5 e ?s) bars"
    by (simp add: flush_m5_def update_m5_pending [symmetric])
  moreover have "be_symbol (to_bar_event bundle) = ?s" by (simp add: to_bar_event_def)
  ultimately show ?thesis using assms(3) by (simp add: feature_process_bar_def)
qed

definition sample_m5_bar :: bar_event where
  "sample_m5_bar = sample_ohlc TF_M5 0 100 101 99 100"

definition sample_m1_bundle :: bar_bundle where
  "sample_m1_bundle =
     \<lparr>bb_symbol = ''MNQ'', bb_timestamp = 0, bb_metadata = sample_metadata, bb_timeframe = TF_M1,
      bb_open = 100, bb_high = 102, bb_low = 99, bb_close = 101, bb_volume = 100, bb_vwap = None,
      bb_trade_count = None, bb_flow = None\<rparr>"

lemma m5_buffering_is_transparent_witness:
  "let e = feature_engine_new\<lparr>fe_pipeline_mode := True\<rparr>
   in \<forall>v. feature_process_bar v (fst (feature_handle_bar v e sample_m5_bar)) sample_m1_bundle
        = feature_process_bar v (update_m5 e sample_m5_bar) sample_m1_bundle"
proof -
  let ?e = "feature_engine_new\<lparr>fe_pipeline_mode := True\<rparr>"
  have "flush_m5 ?e ''MNQ'' = ?e"
    by (simp add: flush_m5_def feature_engine_new_def fun_eq_iff)
  then have "feature_process_bar v (fst (feature_handle_bar v ?e sample_m5_bar)) sample_m1_bundle
      = feature_process_bar v (update_m5 ?e sample_m5_bar) sample_m1_bundle" for v
    using m5_buffering_is_transparent [of ?e sample_m1_bundle "[sample_m5_bar]" v]
    by (simp add: sample_m1_bundle_def sample_m5_bar_def sample_ohlc_def)
  then show ?thesis by (simp add: Let_def)
qed

end
