(* ===== verification/Thesis_Engine.thy ===== *)
theory Thesis_Engine
  imports Feature_Engine
begin

text \<open>
  The thesis engine, \<^verbatim>\<open>engines/thesis/engine.py\<close>, with its models \<^verbatim>\<open>models/thesis.py\<close>: a running
  belief per symbol, scored bar by bar from the snapshot, the VWAP memory and the rolling trade window. The
  texts of evidence and conditions are kept as their parts, a prefix, the formatted number and a suffix (with
  \<open>-\<close> and \<open>x\<close> for the code's dash and multiplication sign); identifiers and the wall clock are arguments.
  A division by a zero ATR, which Python raises on, is the branch \<open>Inl\<close>.
\<close>

section \<open>Data\<close>

datatype narrative =
  Plain string
| With_int string int string
| With_text string string string
| With_value string rat string

record evidence_item =
  ei_text :: narrative
  ei_positive :: bool
  ei_weight :: rat

record tick_flow =
  tw_symbol :: string
  tw_timestamp :: timestamp
  tw_tps_10s :: rat
  tw_tps_30s :: rat
  tw_vps_10s :: rat
  tw_vps_30s :: rat
  tw_buy_tps_10s :: "rat option"
  tw_sell_tps_10s :: "rat option"
  tw_buy_vps_10s :: "rat option"
  tw_sell_vps_10s :: "rat option"
  tw_avg_trade_size_30s :: rat
  tw_large_burst_count_10s :: int
  tw_volume_acceleration :: rat
  tw_session_avg_tps :: rat
  tw_bar_delta :: rat
  tw_absorption :: bool
  tw_book_imbalance :: "rat option"

record thesis_candidate =
  tc_thesis_id :: uuid
  tc_thesis_type :: thesis_type
  tc_symbol :: string
  tc_state :: thesis_state
  tc_confidence :: rat
  tc_bars_alive :: int
  tc_entry :: "dec option"
  tc_stop :: "dec option"
  tc_target :: "dec option"
  tc_key_level :: "dec option"
  tc_sweep_low :: "dec option"
  tc_rejection_high :: "dec option"
  tc_evidence :: "evidence_item list"
  tc_commit_conditions :: "narrative list"
  tc_invalidation_conditions :: "narrative list"
  tc_possible_flip :: "thesis_type option"
  tc_invalidation_reason :: "narrative option"
  tc_pre_vwap_break :: bool
  tc_created_at :: timestamp
  tc_updated_at :: timestamp

record active_thesis =
  at_dominant :: thesis_candidate
  at_flip :: "thesis_candidate option"

text \<open>A watching candidate with the defaults of \<open>ThesisCandidate\<close>.\<close>

definition new_candidate ::
  "uuid \<Rightarrow> thesis_type \<Rightarrow> string \<Rightarrow> rat \<Rightarrow> dec \<Rightarrow> thesis_type \<Rightarrow> timestamp \<Rightarrow> thesis_candidate" where
  "new_candidate k ty s confidence level flip ts =
     \<lparr>tc_thesis_id = k, tc_thesis_type = ty, tc_symbol = s, tc_state = Thesis_WATCHING,
      tc_confidence = confidence, tc_bars_alive = 0, tc_entry = None, tc_stop = None, tc_target = None,
      tc_key_level = Some level, tc_sweep_low = None, tc_rejection_high = None, tc_evidence = [],
      tc_commit_conditions = [], tc_invalidation_conditions = [], tc_possible_flip = Some flip,
      tc_invalidation_reason = None, tc_pre_vwap_break = False, tc_created_at = ts, tc_updated_at = ts\<rparr>"

definition WATCHING_TO_BUILDING :: rat where "WATCHING_TO_BUILDING = fl (30/100)"
definition BUILDING_TO_READY :: rat where "BUILDING_TO_READY = fl (65/100)"
definition MAX_RISK_PCT :: dec where "MAX_RISK_PCT = 5/1000"
definition MAX_BARS_WATCHING :: int where "MAX_BARS_WATCHING = 8"
definition MAX_BARS_BUILDING :: int where "MAX_BARS_BUILDING = 20"
definition TICK_WINDOW_SECONDS :: int where "TICK_WINDOW_SECONDS = 30"
definition TICK_SHORT_WINDOW_SECONDS :: int where "TICK_SHORT_WINDOW_SECONDS = 10"
definition LARGE_TRADE_MULT :: rat where "LARGE_TRADE_MULT = 3"

record trade_record =
  tr_ts :: timestamp
  tr_price :: dec
  tr_size :: int
  tr_is_buy :: bool
  tr_is_sell :: bool

record thesis_engine =
  th_active :: "string \<rightharpoonup> active_thesis"
  th_trade_windows :: "string \<rightharpoonup> trade_record list"
  th_session_trades :: "string \<rightharpoonup> int"
  th_session_start :: "string \<rightharpoonup> timestamp"
  th_bars_processed :: int
  th_thesis_created :: int
  th_latest_quotes :: "string \<rightharpoonup> quote_event"
  th_pipeline_mode :: bool

definition thesis_engine_new :: thesis_engine where
  "thesis_engine_new =
     \<lparr>th_active = Map.empty, th_trade_windows = Map.empty, th_session_trades = Map.empty,
      th_session_start = Map.empty, th_bars_processed = 0, th_thesis_created = 0,
      th_latest_quotes = Map.empty, th_pipeline_mode = False\<rparr>"

datatype thesis_error = Zero_atr_division

section \<open>Detection\<close>

definition opt_less :: "rat option \<Rightarrow> rat \<Rightarrow> bool" where
  "opt_less x b \<longleftrightarrow> (case x of None \<Rightarrow> False | Some v \<Rightarrow> v < b)"

definition opt_greater :: "rat option \<Rightarrow> rat \<Rightarrow> bool" where
  "opt_greater x b \<longleftrightarrow> (case x of None \<Rightarrow> False | Some v \<Rightarrow> v > b)"

definition detect_thesis ::
  "uuid \<Rightarrow> string \<Rightarrow> bar_snapshot \<Rightarrow> level_memory \<Rightarrow> bar_event \<Rightarrow> thesis_candidate option" where
  "detect_thesis k s snap level trigger =
     (if sn_is_above_vwap snap \<and> sn_bars_above_vwap snap \<ge> 2 \<and> sn_is_lower_high snap
         \<and> opt_less (sn_bar_close_position_pct snap) (fl (40/100))
         \<and> sn_vwap snap > 0 \<and> sn_vwap_deviation_pct snap \<le> fl (8/10)
      then Some ((new_candidate k TType_VWAP_FAILED_RECLAIM_SHORT s (fl (10/100)) (sn_vwap snap)
                    TType_FAKE_BREAKDOWN_RECLAIM_LONG (be_timestamp trigger))
                   \<lparr>tc_rejection_high := Some (be_high trigger), tc_pre_vwap_break := True\<rparr>)
      else if sn_vwap_cross_down snap \<or> sn_swept_below_vwap snap
      then Some ((new_candidate k TType_FAKE_BREAKDOWN_RECLAIM_LONG s (fl (10/100)) (sn_vwap snap)
                    TType_VWAP_FAILED_RECLAIM_SHORT (be_timestamp trigger))
                   \<lparr>tc_sweep_low := Some (be_low trigger)\<rparr>)
      else if \<not> sn_is_above_vwap snap \<and> sn_bars_below_vwap snap \<ge> 2
         \<and> lm_last_vwap_outcome level \<in> {Some ''rejected'', Some ''broken''}
         \<and> lm_bars_since_last_vwap_touch level \<le> 5
      then Some ((new_candidate k TType_VWAP_FAILED_RECLAIM_SHORT s (fl (15/100)) (sn_vwap snap)
                    TType_FAKE_BREAKDOWN_RECLAIM_LONG (be_timestamp trigger))
                   \<lparr>tc_rejection_high := Some (be_high trigger)\<rparr>)
      else None)"

definition opposite_type :: "thesis_type \<Rightarrow> thesis_type" where
  "opposite_type t =
     (case t of TType_FAKE_BREAKDOWN_RECLAIM_LONG \<Rightarrow> TType_VWAP_FAILED_RECLAIM_SHORT
      | TType_VWAP_FAILED_RECLAIM_SHORT \<Rightarrow> TType_FAKE_BREAKDOWN_RECLAIM_LONG)"

definition build_flip_candidate ::
  "uuid \<Rightarrow> timestamp \<Rightarrow> thesis_candidate \<Rightarrow> bar_snapshot \<Rightarrow> thesis_candidate option" where
  "build_flip_candidate k now dominant snap =
     Some (new_candidate k (opposite_type (tc_thesis_type dominant)) (tc_symbol dominant) (fl (5/100))
             (sn_vwap snap) (tc_thesis_type dominant) now)"

section \<open>Narrative\<close>

definition commit_conditions ::
  "bool \<Rightarrow> bool \<Rightarrow> string \<Rightarrow> string \<Rightarrow> dec option \<Rightarrow> (dec \<Rightarrow> dec) \<Rightarrow> thesis_candidate \<Rightarrow> bar_snapshot \<Rightarrow>
   thesis_error + narrative list" where
  "commit_conditions wrong_side unheld side_text anchor_text anchor risk_of thesis snap =
     (let risk_part =
            (case (sn_atr_14 snap, anchor) of
               (Some atr, Some level) \<Rightarrow>
                 (if atr = 0 then Inl Zero_atr_division
                  else let risk_atr = fl (dq (risk_of level / atr))
                       in Inr (if risk_atr > 3/2
                               then [With_value ''risk must tighten (currently '' risk_atr ''x ATR, need < 1.5x)''] else []))
             | _ \<Rightarrow> Inr [])
      in case risk_part of
           Inl err \<Rightarrow> Inl err
         | Inr risk \<Rightarrow>
             Inr ((if wrong_side then [Plain side_text] else [])
                  @ (if unheld then [Plain ''need at least one confirmed bar above VWAP''] else [])
                  @ (if anchor = None then [Plain anchor_text] else [])
                  @ risk
                  @ (if tc_confidence thesis < BUILDING_TO_READY
                     then [With_value ''confidence must reach 65% (currently '' (tc_confidence thesis) '')''] else [])))"

definition commit_conditions_long :: "thesis_candidate \<Rightarrow> bar_snapshot \<Rightarrow> thesis_error + narrative list" where
  "commit_conditions_long thesis snap =
     commit_conditions (\<not> sn_is_above_vwap snap) (sn_bars_above_vwap snap < 1) ''price must close above VWAP''
       ''need to identify a clear sweep low for stop placement'' (tc_sweep_low thesis)
       (\<lambda>low. dq (br_close (sn_bar snap) - low)) thesis snap"

definition commit_conditions_short :: "thesis_candidate \<Rightarrow> bar_snapshot \<Rightarrow> thesis_error + narrative list" where
  "commit_conditions_short thesis snap =
     commit_conditions (sn_is_above_vwap snap) False ''price must close below VWAP''
       ''need to identify a clear rejection high for stop placement'' (tc_rejection_high thesis)
       (\<lambda>high. dq (high - br_close (sn_bar snap))) thesis snap"

definition INVALIDATION_CONDITIONS_LONG :: "narrative list" where
  "INVALIDATION_CONDITIONS_LONG =
     [Plain ''2+ bars close below VWAP - sellers in control'',
      Plain ''wide red bar closes near its low below VWAP'',
      Plain ''new session low below the sweep low - no fake breakdown'',
      Plain ''stop distance expands beyond 1.5x ATR'']"

definition INVALIDATION_CONDITIONS_SHORT :: "narrative list" where
  "INVALIDATION_CONDITIONS_SHORT =
     [Plain ''2+ bars hold above VWAP - buyers in control'',
      Plain ''higher high forms above VWAP - trend reversing'',
      Plain ''strong green bar closes in upper range above VWAP'',
      Plain ''stop distance expands beyond 1.5x ATR'']"

section \<open>Evidence\<close>

text \<open>\<open>delta += w\<close> or \<open>delta -= w\<close> with the item appended, when the condition holds.\<close>

type_synonym weighing = "rat \<times> evidence_item list"

definition supports :: "rat \<Rightarrow> narrative \<Rightarrow> weighing \<Rightarrow> weighing" where
  "supports w text acc =
     (fl (fst acc + fl w), snd acc @ [\<lparr>ei_text = text, ei_positive = True, ei_weight = fl w\<rparr>])"

definition weakens :: "rat \<Rightarrow> narrative \<Rightarrow> weighing \<Rightarrow> weighing" where
  "weakens w text acc =
     (fl (fst acc - fl w), snd acc @ [\<lparr>ei_text = text, ei_positive = False, ei_weight = fl w\<rparr>])"

definition invalidate :: "narrative \<Rightarrow> thesis_candidate \<Rightarrow> thesis_candidate" where
  "invalidate reason thesis = thesis\<lparr>tc_state := Thesis_INVALIDATED, tc_invalidation_reason := Some reason\<rparr>"

text \<open>
  The end of both updates: the clamped confidence and the evidence are stored, then the conditions are
  computed, which may raise.
\<close>

definition conclude ::
  "(thesis_candidate \<Rightarrow> bar_snapshot \<Rightarrow> thesis_error + narrative list) \<Rightarrow> narrative list \<Rightarrow> thesis_candidate \<Rightarrow>
   bar_snapshot \<Rightarrow> weighing \<Rightarrow> thesis_candidate \<times> thesis_error option" where
  "conclude conditions invalidation thesis snap acc =
     (let thesis = thesis\<lparr>tc_confidence := max 0 (min 1 (fl (tc_confidence thesis + fst acc))), tc_evidence := snd acc\<rparr>
      in case conditions thesis snap of
           Inl err \<Rightarrow> (thesis, Some err)
         | Inr conds \<Rightarrow>
             (thesis\<lparr>tc_commit_conditions := conds, tc_invalidation_conditions := invalidation\<rparr>, None))"

text \<open>\<open>float(snap.atr_14 or 1) * m\<close>.\<close>

definition wide_bar :: "bar_snapshot \<Rightarrow> bar_event \<Rightarrow> rat \<Rightarrow> bool" where
  "wide_bar snap trigger m \<longleftrightarrow>
     dq (be_high trigger - be_low trigger) > fl (fl (case truthy (sn_atr_14 snap) of None \<Rightarrow> 1 | Some a \<Rightarrow> a) * fl m)"

definition weigh_risk ::
  "dec option \<Rightarrow> bar_snapshot \<Rightarrow> (dec \<Rightarrow> dec) \<Rightarrow> string \<Rightarrow> weighing \<Rightarrow> weighing" where
  "weigh_risk anchor snap risk_of late acc =
     (case (anchor, sn_atr_14 snap) of
        (Some level, Some atr) \<Rightarrow>
          (if atr > 0 then
             let risk_atr = fl (dq (risk_of level / atr))
             in if risk_atr \<le> fl (7/10) then supports (5/100) (With_value ''tight stop distance ('' risk_atr ''x ATR)'') acc
                else if risk_atr > 3/2 then weakens (10/100) (With_value ''stop too wide ('' risk_atr late) acc
                else acc
           else acc)
      | _ \<Rightarrow> acc)"

definition weigh_fading :: "rat option \<Rightarrow> rat \<Rightarrow> string \<Rightarrow> string \<Rightarrow> weighing \<Rightarrow> weighing" where
  "weigh_fading tps avg faded active acc =
     (case tps of
        None \<Rightarrow> acc
      | Some t \<Rightarrow>
          (if avg > 0 then
             let ratio = fl (t / avg)
             in if ratio < fl (4/10) then supports (10/100) (With_value faded ratio '' of avg TPS)'') acc
                else if ratio > fl (14/10) then weakens (8/100) (With_value active ratio '' of avg TPS)'') acc
                else acc
           else acc))"

section \<open>The long thesis\<close>

definition invalidation_long :: "thesis_candidate \<Rightarrow> bar_snapshot \<Rightarrow> bar_event \<Rightarrow> narrative option" where
  "invalidation_long thesis snap trigger =
     (if sn_bars_below_vwap snap \<ge> 3 \<and> \<not> sn_vwap_cross_up snap \<and> \<not> sn_swept_below_vwap snap
      then Some (With_int ''price held below VWAP for '' (sn_bars_below_vwap snap) '' bars - sellers in control'')
      else if sn_is_lower_low snap \<and> \<not> sn_is_above_vwap snap \<and> tc_bars_alive thesis > 2
      then Some (Plain ''new session low formed below VWAP - no fake breakdown'')
      else if opt_less (sn_bar_close_position_pct snap) (25/100) \<and> \<not> sn_is_above_vwap snap
         \<and> wide_bar snap trigger (12/10)
      then Some (Plain ''wide red bar closed near its low below VWAP'')
      else None)"

definition weigh_reclaim :: "bar_snapshot \<Rightarrow> weighing \<Rightarrow> weighing" where
  "weigh_reclaim snap acc =
     (if sn_vwap_cross_up snap then supports (22/100) (Plain ''price reclaimed VWAP'') acc
      else if sn_swept_below_vwap snap then supports (12/100) (Plain ''price swept below VWAP but recovered above'') acc
      else if sn_is_above_vwap snap \<and> sn_bars_above_vwap snap \<ge> 2
      then supports (6/100) (With_int ''held above VWAP for '' (sn_bars_above_vwap snap) '' bars'') acc
      else acc)"

definition weigh_close_long :: "bar_snapshot \<Rightarrow> weighing \<Rightarrow> weighing" where
  "weigh_close_long snap acc =
     (case sn_bar_close_position_pct snap of
        None \<Rightarrow> acc
      | Some cp \<Rightarrow>
          (if cp > fl (65/100) then supports (10/100) (With_value ''strong close ('' cp '' of bar range)'') acc
           else if cp < fl (35/100) \<and> sn_is_above_vwap snap
           then weakens (8/100) (With_value ''weak close ('' cp '') despite above VWAP'') acc
           else acc))"

definition weigh_volume_long :: "tick_flow \<Rightarrow> bar_snapshot \<Rightarrow> weighing \<Rightarrow> weighing" where
  "weigh_volume_long tick snap acc =
     (let a = tw_volume_acceleration tick in
      if a > 0 then
        (if a < fl (65/100) \<and> \<not> sn_is_above_vwap snap then supports (5/100) (Plain ''breakdown volume shrinking'') acc
         else if a > 3/2 \<and> sn_vwap_cross_up snap then supports (5/100) (Plain ''reclaim has accelerating volume'') acc
         else acc)
      else acc)"

definition weigh_memory_long :: "level_memory \<Rightarrow> weighing \<Rightarrow> weighing" where
  "weigh_memory_long level acc =
     (case lm_last_vwap_outcome level of
        None \<Rightarrow> acc
      | Some outcome \<Rightarrow>
          (if outcome \<in> {''swept'', ''reclaimed''}
           then supports (5/100) (With_text ''VWAP previously '' outcome '' - level respects buyers'') acc
           else if outcome = ''broken'' \<and> lm_bars_since_last_vwap_touch level < 5
           then weakens (5/100) (Plain ''VWAP was recently broken - may act as resistance'') acc
           else acc))"

definition update_fake_breakdown_long ::
  "thesis_candidate \<Rightarrow> bar_snapshot \<Rightarrow> level_memory \<Rightarrow> tick_flow \<Rightarrow> bar_event \<Rightarrow> thesis_candidate \<times> thesis_error option" where
  "update_fake_breakdown_long thesis snap level tick trigger =
     (let sweep = (if be_low trigger < sn_vwap snap \<and> lower (be_low trigger) (tc_sweep_low thesis)
                   then Some (be_low trigger) else tc_sweep_low thesis);
          thesis = thesis\<lparr>tc_sweep_low := sweep\<rparr>
      in case invalidation_long thesis snap trigger of
           Some reason \<Rightarrow> (invalidate reason thesis, None)
         | None \<Rightarrow>
             (let acc = weigh_close_long snap (weigh_reclaim snap (0, []));
                  acc = weigh_fading (tw_sell_tps_10s tick) (tw_session_avg_tps tick) ''selling dried up (''
                          ''selling still elevated ('' acc;
                  acc = weigh_memory_long level (weigh_volume_long tick snap acc);
                  acc = weigh_risk sweep snap (\<lambda>low. dq (br_close (sn_bar snap) - low))
                          ''x ATR) - setup may be late'' acc
              in conclude commit_conditions_long INVALIDATION_CONDITIONS_LONG thesis snap acc))"

section \<open>The short thesis\<close>

definition invalidation_pre_break :: "bar_snapshot \<Rightarrow> narrative option" where
  "invalidation_pre_break snap =
     (if sn_is_new_hod snap then Some (Plain ''new session high - distribution thesis failed'')
      else if sn_vwap_deviation_pct snap > fl (12/10)
      then Some (Plain ''price moved too far above VWAP - setup no longer near entry'')
      else None)"

definition invalidation_short :: "bar_snapshot \<Rightarrow> bar_event \<Rightarrow> narrative option" where
  "invalidation_short snap trigger =
     (if sn_is_higher_high snap \<and> sn_is_above_vwap snap
      then Some (Plain ''higher high formed above VWAP - failed reclaim reversed'')
      else if opt_greater (sn_bar_close_position_pct snap) (75/100) \<and> sn_is_above_vwap snap \<and> wide_bar snap trigger 1
      then Some (Plain ''strong green bar closed near its high above VWAP'')
      else None)"

definition weigh_pre_break :: "bar_snapshot \<Rightarrow> weighing" where
  "weigh_pre_break snap =
     (let acc = (if sn_is_lower_high snap
                 then supports (7/100) (Plain ''lower high forming - distribution continuing'') (0, []) else (0, []))
      in if opt_less (sn_bar_close_position_pct snap) (fl (35/100))
         then supports (5/100) (Plain ''weak close - sellers controlling the bar'') acc else acc)"

definition weigh_failed_reclaim :: "bar_snapshot \<Rightarrow> weighing \<Rightarrow> weighing" where
  "weigh_failed_reclaim snap acc =
     (if sn_vwap_cross_down snap
      then supports (20/100) (Plain ''reclaim attempt failed - price crossed back below VWAP'') acc
      else if \<not> sn_is_above_vwap snap \<and> sn_bars_below_vwap snap \<ge> 2
      then supports (6/100) (With_int ''price holding below VWAP ('' (sn_bars_below_vwap snap) '' bars)'') acc
      else acc)"

definition weigh_close_short :: "bar_snapshot \<Rightarrow> weighing \<Rightarrow> weighing" where
  "weigh_close_short snap acc =
     (case sn_bar_close_position_pct snap of
        None \<Rightarrow> acc
      | Some cp \<Rightarrow>
          (if cp < fl (35/100) then supports (10/100) (With_value ''weak close ('' cp '' of bar range) after VWAP test'') acc
           else if cp > fl (65/100) \<and> \<not> sn_is_above_vwap snap
           then weakens (8/100) (With_value ''strong close ('' cp '') - buyers present'') acc
           else acc))"

definition weigh_memory_short :: "level_memory \<Rightarrow> weighing \<Rightarrow> weighing" where
  "weigh_memory_short level acc =
     (if lm_last_vwap_outcome level = Some ''rejected''
      then supports (6/100) (Plain ''previous VWAP reclaim also failed - double rejection'') acc
      else if lm_last_vwap_outcome level \<in> {Some ''reclaimed'', Some ''swept''}
      then weakens (5/100) (Plain ''VWAP has previously been reclaimed - support present'') acc
      else acc)"

definition weigh_flow_short :: "tick_flow \<Rightarrow> weighing \<Rightarrow> weighing" where
  "weigh_flow_short tick acc =
     (let acc = (if tw_absorption tick
                 then supports (10/100) (Plain ''buyers absorbed - supply overwhelming demand'') acc
                 else if tw_bar_delta tick < - 50
                 then supports (6/100) (With_value ''net sell flow ('' (tw_bar_delta tick) '' contracts)'') acc
                 else acc)
      in case tw_book_imbalance tick of
           None \<Rightarrow> acc
         | Some b \<Rightarrow>
             (if b < - fl (30/100) then supports (8/100) (With_value ''ask-heavy book ('' b '') - sellers stacking offer'') acc
              else if b > fl (30/100) then weakens (6/100) (With_value ''bid-heavy book ('' b '') - buyers present'') acc
              else acc))"

definition score_short_thesis ::
  "thesis_candidate \<Rightarrow> bar_snapshot \<Rightarrow> level_memory \<Rightarrow> tick_flow \<Rightarrow> bar_event \<Rightarrow> weighing \<Rightarrow>
   thesis_candidate \<times> thesis_error option" where
  "score_short_thesis thesis snap level tick trigger acc =
     (case invalidation_short snap trigger of
        Some reason \<Rightarrow> (invalidate reason thesis, None)
      | None \<Rightarrow>
          (let acc = weigh_close_short snap (weigh_failed_reclaim snap acc);
               acc = weigh_fading (tw_buy_tps_10s tick) (tw_session_avg_tps tick) ''buying faded (''
                       ''buying still active ('' acc;
               acc = (if tw_volume_acceleration tick > 0 \<and> tw_volume_acceleration tick > fl (13/10)
                         \<and> \<not> sn_is_above_vwap snap
                      then supports (5/100) (Plain ''sell volume accelerating below VWAP'') acc else acc);
               acc = weigh_memory_short level acc;
               acc = (if sn_is_lower_high snap \<and> \<not> sn_is_above_vwap snap
                      then supports (6/100) (Plain ''lower high forming below VWAP'') acc else acc);
               acc = weigh_risk (tc_rejection_high thesis) snap (\<lambda>high. dq (high - br_close (sn_bar snap)))
                       ''x ATR)'' acc
           in conclude commit_conditions_short INVALIDATION_CONDITIONS_SHORT thesis snap (weigh_flow_short tick acc)))"

definition update_vwap_failed_reclaim_short ::
  "thesis_candidate \<Rightarrow> bar_snapshot \<Rightarrow> level_memory \<Rightarrow> tick_flow \<Rightarrow> bar_event \<Rightarrow> thesis_candidate \<times> thesis_error option" where
  "update_vwap_failed_reclaim_short thesis snap level tick trigger =
     (let thesis = thesis\<lparr>tc_rejection_high :=
              (if be_high trigger > sn_vwap snap \<and> higher (be_high trigger) (tc_rejection_high thesis)
               then Some (be_high trigger) else tc_rejection_high thesis)\<rparr>
      in if tc_pre_vwap_break thesis then
           (case invalidation_pre_break snap of
              Some reason \<Rightarrow> (invalidate reason thesis, None)
            | None \<Rightarrow>
                if sn_vwap_cross_down snap
                then score_short_thesis (thesis\<lparr>tc_pre_vwap_break := False\<rparr>) snap level tick trigger
                       (supports (25/100) (Plain ''VWAP crossed below - pre-breakdown confirmed'') (0, []))
                else conclude commit_conditions_short INVALIDATION_CONDITIONS_SHORT thesis snap (weigh_pre_break snap))
         else if sn_bars_above_vwap snap \<ge> 2
         then (invalidate (With_int ''price held above VWAP for '' (sn_bars_above_vwap snap) '' bars - buyers in control'')
                 thesis, None)
         else score_short_thesis thesis snap level tick trigger (0, []))"

section \<open>The state machine\<close>

definition necessary_conditions_met :: "thesis_candidate \<Rightarrow> bar_snapshot \<Rightarrow> bool" where
  "necessary_conditions_met thesis snap =
     (case tc_thesis_type thesis of
        TType_FAKE_BREAKDOWN_RECLAIM_LONG \<Rightarrow>
          sn_is_above_vwap snap \<and> \<not> sn_bars_above_vwap snap < 1
          \<and> (case tc_sweep_low thesis of
               None \<Rightarrow> False
             | Some low \<Rightarrow>
                 (case sn_atr_14 snap of
                    None \<Rightarrow> True
                  | Some atr \<Rightarrow> \<not> (atr > 0 \<and> dq (br_close (sn_bar snap) - low) > dq (atr * (15/10)))))
      | TType_VWAP_FAILED_RECLAIM_SHORT \<Rightarrow>
          \<not> sn_is_above_vwap snap \<and> \<not> sn_bars_below_vwap snap < 1
          \<and> (case tc_rejection_high thesis of
               None \<Rightarrow> False
             | Some high \<Rightarrow>
                 \<not> (sn_vwap snap > 0 \<and> dq (dq (high - sn_vwap snap) / sn_vwap snap) > MAX_RISK_PCT)))"

definition compute_entry_plan :: "thesis_candidate \<Rightarrow> bar_snapshot \<Rightarrow> thesis_candidate" where
  "compute_entry_plan thesis snap =
     (let atr = (case truthy (sn_atr_14 snap) of None \<Rightarrow> 10 | Some a \<Rightarrow> a);
          pad = dq (atr * (10/100)); vwap = sn_vwap snap
      in case tc_thesis_type thesis of
           TType_FAKE_BREAKDOWN_RECLAIM_LONG \<Rightarrow>
             (let entry = dq (vwap + pad);
                  stop = (case truthy (tc_sweep_low thesis) of None \<Rightarrow> dq (vwap - atr) | Some low \<Rightarrow> dq (low - pad))
              in thesis\<lparr>tc_entry := Some entry, tc_stop := Some stop,
                        tc_target := (if entry = 0 \<or> stop = 0 then tc_target thesis
                                      else Some (dq (entry + dq (dq (entry - stop) * (25/10)))))\<rparr>)
         | TType_VWAP_FAILED_RECLAIM_SHORT \<Rightarrow>
             (let entry = dq (vwap - pad);
                  stop = (case truthy (tc_rejection_high thesis) of None \<Rightarrow> dq (vwap + atr) | Some high \<Rightarrow> dq (high + pad))
              in thesis\<lparr>tc_entry := Some entry, tc_stop := Some stop,
                        tc_target := (if entry = 0 \<or> stop = 0 then tc_target thesis
                                      else Some (dq (entry - dq (dq (stop - entry) * (25/10)))))\<rparr>))"

definition advance_state :: "thesis_candidate \<Rightarrow> bar_snapshot \<Rightarrow> thesis_candidate" where
  "advance_state thesis snap =
     (case tc_state thesis of
        Thesis_WATCHING \<Rightarrow>
          (if tc_confidence thesis \<ge> WATCHING_TO_BUILDING then thesis\<lparr>tc_state := Thesis_BUILDING\<rparr>
           else if tc_bars_alive thesis > MAX_BARS_WATCHING then thesis\<lparr>tc_state := Thesis_EXPIRED\<rparr>
           else thesis)
      | Thesis_BUILDING \<Rightarrow>
          (if tc_confidence thesis \<ge> BUILDING_TO_READY \<and> necessary_conditions_met thesis snap
           then compute_entry_plan (thesis\<lparr>tc_state := Thesis_READY\<rparr>) snap
           else if tc_bars_alive thesis > MAX_BARS_BUILDING then thesis\<lparr>tc_state := Thesis_EXPIRED\<rparr>
           else thesis)
      | _ \<Rightarrow> thesis)"

definition update_thesis ::
  "thesis_candidate \<Rightarrow> bar_snapshot \<Rightarrow> level_memory \<Rightarrow> tick_flow \<Rightarrow> bar_event \<Rightarrow> thesis_candidate \<times> thesis_error option" where
  "update_thesis thesis snap level tick trigger =
     (let thesis = thesis\<lparr>tc_bars_alive := tc_bars_alive thesis + 1, tc_updated_at := be_timestamp trigger\<rparr>
      in case (case tc_thesis_type thesis of
                 TType_FAKE_BREAKDOWN_RECLAIM_LONG \<Rightarrow> update_fake_breakdown_long thesis snap level tick trigger
               | TType_VWAP_FAILED_RECLAIM_SHORT \<Rightarrow> update_vwap_failed_reclaim_short thesis snap level tick trigger) of
           (thesis, Some err) \<Rightarrow> (thesis, Some err)
         | (thesis, None) \<Rightarrow> (advance_state thesis snap, None))"

section \<open>Tick flow\<close>

definition default_tick_flow :: "string \<Rightarrow> timestamp \<Rightarrow> tick_flow" where
  "default_tick_flow s ts =
     \<lparr>tw_symbol = s, tw_timestamp = ts, tw_tps_10s = 0, tw_tps_30s = 0, tw_vps_10s = 0, tw_vps_30s = 0,
      tw_buy_tps_10s = None, tw_sell_tps_10s = None, tw_buy_vps_10s = None, tw_sell_vps_10s = None,
      tw_avg_trade_size_30s = 0, tw_large_burst_count_10s = 0, tw_volume_acceleration = 1,
      tw_session_avg_tps = 0, tw_bar_delta = 0, tw_absorption = False, tw_book_imbalance = None\<rparr>"

definition sizes :: "trade_record list \<Rightarrow> int" where
  "sizes rs = sum_list (map tr_size rs)"

text \<open>The rates of a window: all, then per side, absent when the side is.\<close>

definition rate :: "int \<Rightarrow> int \<Rightarrow> rat" where
  "rate n window_s = fl (of_int n / of_int window_s)"

definition side_rates :: "(trade_record \<Rightarrow> bool) \<Rightarrow> trade_record list \<Rightarrow> int \<Rightarrow> rat option \<times> rat option" where
  "side_rates side rs window_s =
     (let xs = filter side rs
      in if xs = [] then (None, None) else (Some (rate (int (length xs)) window_s), Some (rate (sizes xs) window_s)))"

definition session_avg_tps :: "thesis_engine \<Rightarrow> timestamp \<Rightarrow> string \<Rightarrow> rat" where
  "session_avg_tps e now s =
     (case th_session_start e s of
        None \<Rightarrow> 0
      | Some start \<Rightarrow>
          (let n = get_default (th_session_trades e) s 0; elapsed = seconds_between now start
           in if n = 0 then 0 else if elapsed > 0 then fl (fl (of_int n) / elapsed) else 0))"

definition book_imbalance :: "quote_event option \<Rightarrow> rat option" where
  "book_imbalance q =
     (case q of
        None \<Rightarrow> None
      | Some q \<Rightarrow>
          (if qe_bid_size q > 0 \<and> qe_ask_size q > 0
           then Some (fl (of_int (qe_bid_size q - qe_ask_size q) / of_int (qe_bid_size q + qe_ask_size q)))
           else None))"

definition compute_tick_flow ::
  "thesis_engine \<Rightarrow> timestamp \<Rightarrow> string \<Rightarrow> timestamp \<Rightarrow> thesis_engine \<times> tick_flow" where
  "compute_tick_flow e now s as_of =
     (case get_default (th_trade_windows e) s [] of
        [] \<Rightarrow> (e, default_tick_flow s as_of)
      | window \<Rightarrow>
          (let records_30 = dropWhile (\<lambda>r. tr_ts r < as_of - TICK_WINDOW_SECONDS * 10 ^ 6) window;
               records_10 = [r \<leftarrow> records_30. tr_ts r \<ge> as_of - TICK_SHORT_WINDOW_SECONDS * 10 ^ 6];
               tps_30 = rate (int (length records_30)) TICK_WINDOW_SECONDS;
               vps_30 = rate (sizes records_30) TICK_WINDOW_SECONDS;
               tps_10 = rate (int (length records_10)) TICK_SHORT_WINDOW_SECONDS;
               vps_10 = rate (sizes records_10) TICK_SHORT_WINDOW_SECONDS;
               buys = side_rates tr_is_buy records_10 TICK_SHORT_WINDOW_SECONDS;
               sells = side_rates tr_is_sell records_10 TICK_SHORT_WINDOW_SECONDS;
               avg_size = (if records_30 = [] then 0 else fl (of_int (sizes records_30) / of_nat (length records_30)));
               accel = (if vps_30 > 0 then fl (vps_10 / vps_30) else 1);
               bar_delta = fl (of_int (sizes (filter tr_is_buy records_30) - sizes (filter tr_is_sell records_30)))
           in (e\<lparr>th_trade_windows := (th_trade_windows e)(s \<mapsto> records_30)\<rparr>,
               \<lparr>tw_symbol = s, tw_timestamp = as_of, tw_tps_10s = tps_10, tw_tps_30s = tps_30,
                tw_vps_10s = vps_10, tw_vps_30s = vps_30, tw_buy_tps_10s = fst buys, tw_sell_tps_10s = fst sells,
                tw_buy_vps_10s = snd buys, tw_sell_vps_10s = snd sells, tw_avg_trade_size_30s = avg_size,
                tw_large_burst_count_10s =
                  int (length [r \<leftarrow> records_10. of_int (tr_size r) > fl (avg_size * LARGE_TRADE_MULT)]),
                tw_volume_acceleration = accel, tw_session_avg_tps = session_avg_tps e now s,
                tw_bar_delta = bar_delta, tw_absorption = (bar_delta > 0 \<and> accel < fl (8/10)),
                tw_book_imbalance = book_imbalance (th_latest_quotes e s)\<rparr>)))"

definition update_session_baseline :: "thesis_engine \<Rightarrow> string \<Rightarrow> timestamp \<Rightarrow> thesis_engine" where
  "update_session_baseline e s ts =
     (if th_session_start e s = None then e\<lparr>th_session_start := (th_session_start e)(s \<mapsto> ts)\<rparr> else e)"

section \<open>The published event\<close>

record thesis_event =
  tx_symbol :: string
  tx_timestamp :: timestamp
  tx_source :: data_source_id
  tx_received_at :: timestamp
  tx_is_replay :: bool
  tx_thesis_id :: uuid
  tx_thesis_type :: string
  tx_thesis_state :: string
  tx_confidence :: rat
  tx_bars_alive :: int
  tx_entry :: "dec option"
  tx_stop :: "dec option"
  tx_target :: "dec option"
  tx_risk_pts :: "dec option"
  tx_reward_pts :: "dec option"
  tx_risk_ratio :: "rat option"
  tx_key_level :: "dec option"
  tx_sweep_low :: "dec option"
  tx_rejection_high :: "dec option"
  tx_evidence_positive :: "narrative list"
  tx_evidence_negative :: "narrative list"
  tx_commit_conditions :: "narrative list"
  tx_invalidation_conditions :: "narrative list"
  tx_possible_flip :: "string option"
  tx_invalidation_reason :: "narrative option"
  tx_vwap_touch_count :: int
  tx_last_vwap_outcome :: "string option"
  tx_session_phase :: "string option"

definition plan_points :: "thesis_candidate \<Rightarrow> (dec \<times> dec) option" where
  "plan_points thesis =
     (case (truthy (tc_entry thesis), truthy (tc_stop thesis), truthy (tc_target thesis)) of
        (Some entry, Some stop, Some target) \<Rightarrow>
          Some (if tc_thesis_type thesis = TType_FAKE_BREAKDOWN_RECLAIM_LONG
                then (dq (entry - stop), dq (target - entry)) else (dq (stop - entry), dq (entry - target)))
      | _ \<Rightarrow> None)"

definition thesis_emit :: "thesis_candidate \<Rightarrow> bar_snapshot \<Rightarrow> level_memory \<Rightarrow> bar_event \<Rightarrow> thesis_event" where
  "thesis_emit thesis snap level trigger =
     \<lparr>tx_symbol = tc_symbol thesis, tx_timestamp = be_timestamp trigger,
      tx_source = em_source (be_metadata trigger), tx_received_at = em_received_at (be_metadata trigger),
      tx_is_replay = em_is_replay (be_metadata trigger), tx_thesis_id = tc_thesis_id thesis,
      tx_thesis_type = thesis_type_value (tc_thesis_type thesis),
      tx_thesis_state = thesis_state_value (tc_state thesis),
      tx_confidence = fl (round_places 3 (tc_confidence thesis)), tx_bars_alive = tc_bars_alive thesis,
      tx_entry = tc_entry thesis, tx_stop = tc_stop thesis, tx_target = tc_target thesis,
      tx_risk_pts = map_option fst (plan_points thesis), tx_reward_pts = map_option snd (plan_points thesis),
      tx_risk_ratio =
        (case plan_points thesis of
           None \<Rightarrow> None
         | Some (risk, reward) \<Rightarrow> if risk > 0 \<and> reward \<noteq> 0 then Some (fl (dq (reward / risk))) else None),
      tx_key_level = tc_key_level thesis, tx_sweep_low = tc_sweep_low thesis,
      tx_rejection_high = tc_rejection_high thesis,
      tx_evidence_positive = map ei_text (filter ei_positive (tc_evidence thesis)),
      tx_evidence_negative = map ei_text [x \<leftarrow> tc_evidence thesis. \<not> ei_positive x],
      tx_commit_conditions = tc_commit_conditions thesis,
      tx_invalidation_conditions = tc_invalidation_conditions thesis,
      tx_possible_flip = map_option thesis_type_value (tc_possible_flip thesis),
      tx_invalidation_reason = tc_invalidation_reason thesis,
      tx_vwap_touch_count = lm_vwap_touch_count level, tx_last_vwap_outcome = lm_last_vwap_outcome level,
      tx_session_phase = Some (session_phase_value (sn_session_phase snap))\<rparr>"

section \<open>The engine\<close>

text \<open>One bar's sources of fresh values: the identifiers of a new thesis and of its flip, and the wall clock.\<close>

record thesis_ids =
  ti_thesis :: uuid
  ti_flip :: uuid
  ti_now :: timestamp

definition open_thesis ::
  "thesis_ids \<Rightarrow> thesis_engine \<Rightarrow> string \<Rightarrow> bar_snapshot \<Rightarrow> level_memory \<Rightarrow> bar_event \<Rightarrow> thesis_engine" where
  "open_thesis ids e s snap level bar =
     (case detect_thesis (ti_thesis ids) s snap level bar of
        None \<Rightarrow> e
      | Some candidate \<Rightarrow>
          e\<lparr>th_active := (th_active e)(s \<mapsto>
               \<lparr>at_dominant = candidate, at_flip = build_flip_candidate (ti_flip ids) (ti_now ids) candidate snap\<rparr>),
            th_thesis_created := th_thesis_created e + 1\<rparr>)"

text \<open>After an update: an invalidated thesis gives way to its flip or is forgotten.\<close>

definition settle :: "active_thesis \<Rightarrow> active_thesis option" where
  "settle active =
     (case at_flip active of
        Some flip \<Rightarrow>
          (if tc_state (at_dominant active) = Thesis_INVALIDATED
           then Some \<lparr>at_dominant = flip\<lparr>tc_state := Thesis_WATCHING\<rparr>, at_flip = None\<rparr>
           else if tc_state (at_dominant active) = Thesis_FLIPPED then None else Some active)
      | None \<Rightarrow>
          (if tc_state (at_dominant active) \<in> {Thesis_INVALIDATED, Thesis_FLIPPED} then None else Some active))"

definition thesis_bar ::
  "thesis_ids \<Rightarrow> thesis_engine \<Rightarrow> string \<Rightarrow> bar_snapshot \<Rightarrow> level_memory \<Rightarrow> bar_event \<Rightarrow>
   thesis_engine \<times> (thesis_error + thesis_event option)" where
  "thesis_bar ids e s snap level bar =
     (case compute_tick_flow e (ti_now ids) s (be_timestamp bar) of
        (e, tick) \<Rightarrow>
          (let e = update_session_baseline e s (be_timestamp bar);
               publish = (\<lambda>e. map_option (\<lambda>a. thesis_emit (at_dominant a) snap level bar) (th_active e s))
           in case th_active e s of
                None \<Rightarrow> (let e = open_thesis ids e s snap level bar in (e, Inr (publish e)))
              | Some active \<Rightarrow>
                  (if tc_state (at_dominant active) \<in> {Thesis_TRIGGERED, Thesis_EXPIRED}
                   then (let e = open_thesis ids e s snap level bar in (e, Inr (publish e)))
                   else
                     (case update_thesis (at_dominant active) snap level tick bar of
                        (thesis, Some err) \<Rightarrow>
                          (e\<lparr>th_active := (th_active e)(s \<mapsto> active\<lparr>at_dominant := thesis\<rparr>)\<rparr>, Inl err)
                      | (thesis, None) \<Rightarrow>
                          (let e = e\<lparr>th_active := (th_active e)(s := settle (active\<lparr>at_dominant := thesis\<rparr>))\<rparr>
                           in (e, Inr (publish e)))))))"

text \<open>
  Stage three of the pipeline; \<open>level\<close> is what \<open>get_level_memory\<close> gives, nothing without a feature
  engine. It returns the symbol's active thesis with the event published.
\<close>

definition thesis_process_bar ::
  "thesis_ids \<Rightarrow> thesis_engine \<Rightarrow> level_memory option \<Rightarrow> bar_snapshot \<Rightarrow> bar_bundle \<Rightarrow>
   thesis_engine \<times> (thesis_error + active_thesis option \<times> thesis_event option)" where
  "thesis_process_bar ids e level snap bundle =
     (case level of
        None \<Rightarrow> (e, Inr (None, None))
      | Some level \<Rightarrow>
          (case thesis_bar ids (e\<lparr>th_bars_processed := th_bars_processed e + 1\<rparr>) (bb_symbol bundle) snap level
                  (to_bar_event bundle) of
             (e, Inl err) \<Rightarrow> (e, Inl err)
           | (e, Inr event) \<Rightarrow> (e, Inr (th_active e (bb_symbol bundle), event))))"

text \<open>The bus handler; \<open>feature\<close> gives the symbol's snapshot and VWAP memory.\<close>

definition thesis_handle_bar ::
  "thesis_ids \<Rightarrow> thesis_engine \<Rightarrow> (bar_snapshot option \<times> level_memory option) option \<Rightarrow> bar_event \<Rightarrow>
   thesis_engine \<times> (thesis_error + thesis_event option)" where
  "thesis_handle_bar ids e feature bar =
     (if be_timeframe bar \<noteq> TF_M1 \<or> be_is_partial bar \<or> th_pipeline_mode e then (e, Inr None)
      else let e = e\<lparr>th_bars_processed := th_bars_processed e + 1\<rparr>
           in case feature of
                Some (Some snap, Some level) \<Rightarrow> thesis_bar ids e (be_symbol bar) snap level bar
              | _ \<Rightarrow> (e, Inr None))"

definition thesis_handle_trade :: "thesis_engine \<Rightarrow> trade_event \<Rightarrow> thesis_engine" where
  "thesis_handle_trade e t =
     (let s = te_symbol t;
          r = \<lparr>tr_ts = te_timestamp t, tr_price = te_price t, tr_size = te_size t,
               tr_is_buy = (te_taker_side t = Taker_BUY), tr_is_sell = (te_taker_side t = Taker_SELL)\<rparr>
      in e\<lparr>th_trade_windows := (th_trade_windows e)(s \<mapsto> get_default (th_trade_windows e) s [] @ [r]),
           th_session_trades := (th_session_trades e)(s \<mapsto> get_default (th_session_trades e) s 0 + 1)\<rparr>)"

definition thesis_handle_quote :: "thesis_engine \<Rightarrow> quote_event \<Rightarrow> thesis_engine" where
  "thesis_handle_quote e q = e\<lparr>th_latest_quotes := (th_latest_quotes e)(qe_symbol q \<mapsto> q)\<rparr>"

definition get_thesis :: "thesis_engine \<Rightarrow> string \<Rightarrow> active_thesis option" where
  "get_thesis e s = th_active e s"

section \<open>Runs\<close>

datatype thesis_cmd =
  Thesis_bundle thesis_ids "level_memory option" bar_snapshot bar_bundle
| Thesis_bar_event thesis_ids "(bar_snapshot option \<times> level_memory option) option" bar_event
| Thesis_trade trade_event
| Thesis_quote quote_event

fun thesis_step :: "thesis_engine \<Rightarrow> thesis_cmd \<Rightarrow> thesis_engine" where
  "thesis_step e (Thesis_bundle ids level snap bundle) = fst (thesis_process_bar ids e level snap bundle)"
| "thesis_step e (Thesis_bar_event ids feature bar) = fst (thesis_handle_bar ids e feature bar)"
| "thesis_step e (Thesis_trade t) = thesis_handle_trade e t"
| "thesis_step e (Thesis_quote q) = thesis_handle_quote e q"

definition thesis_run :: "bool \<Rightarrow> thesis_cmd list \<Rightarrow> thesis_engine" where
  "thesis_run pipeline cmds = foldl thesis_step (thesis_engine_new\<lparr>th_pipeline_mode := pipeline\<rparr>) cmds"

text \<open>
  A bar leaves a symbol's active thesis alone, opens one, or updates it (kept as it is when the update
  raises, settled otherwise). What holds of all four holds along runs.
\<close>

definition on_active :: "(active_thesis \<Rightarrow> bool) \<Rightarrow> thesis_engine \<Rightarrow> bool" where
  "on_active P e \<longleftrightarrow> (\<forall>s a. th_active e s = Some a \<longrightarrow> P a)"

lemma tick_flow_frame: "compute_tick_flow e now s ts = (e', tick) \<Longrightarrow> th_active e' = th_active e"
  by (auto simp: compute_tick_flow_def Let_def split: list.splits)

lemma baseline_frame [simp]: "th_active (update_session_baseline e s ts) = th_active e"
  by (simp add: update_session_baseline_def)

lemma thesis_bar_cases:
  assumes "P (th_active e)"
    and "\<And>c. detect_thesis (ti_thesis ids) s snap level bar = Some c \<Longrightarrow>
      (\<And>a. th_active e s = Some a \<Longrightarrow> tc_state (at_dominant a) \<in> {Thesis_TRIGGERED, Thesis_EXPIRED}) \<Longrightarrow>
      P ((th_active e)(s \<mapsto> \<lparr>at_dominant = c, at_flip = build_flip_candidate (ti_flip ids) (ti_now ids) c snap\<rparr>))"
    and "\<And>a tick err. th_active e s = Some a \<Longrightarrow> tc_state (at_dominant a) \<notin> {Thesis_TRIGGERED, Thesis_EXPIRED} \<Longrightarrow>
      snd (update_thesis (at_dominant a) snap level tick bar) = Some err \<Longrightarrow>
      P ((th_active e)(s \<mapsto> a\<lparr>at_dominant := fst (update_thesis (at_dominant a) snap level tick bar)\<rparr>))"
    and "\<And>a tick. th_active e s = Some a \<Longrightarrow> tc_state (at_dominant a) \<notin> {Thesis_TRIGGERED, Thesis_EXPIRED} \<Longrightarrow>
      snd (update_thesis (at_dominant a) snap level tick bar) = None \<Longrightarrow>
      P ((th_active e)(s := settle (a\<lparr>at_dominant := fst (update_thesis (at_dominant a) snap level tick bar)\<rparr>)))"
  shows "P (th_active (fst (thesis_bar ids e s snap level bar)))"
proof -
  obtain e1 tick where t: "compute_tick_flow e (ti_now ids) s (be_timestamp bar) = (e1, tick)"
    by (cases "compute_tick_flow e (ti_now ids) s (be_timestamp bar)")
  note a1 = tick_flow_frame [OF t]
  define e2 where "e2 = update_session_baseline e1 s (be_timestamp bar)"
  have a2: "th_active e2 = th_active e" by (simp add: e2_def a1)
  have opened: "P (th_active (open_thesis ids e2 s snap level bar))"
    if "\<And>a. th_active e s = Some a \<Longrightarrow> tc_state (at_dominant a) \<in> {Thesis_TRIGGERED, Thesis_EXPIRED}"
    using assms(1,2) that by (simp add: open_thesis_def a2 split: option.split)
  show ?thesis
  proof (cases "th_active e s")
    case None
    then show ?thesis using opened by (simp add: thesis_bar_def t Let_def a1 e2_def [symmetric])
  next
    case (Some a)
    show ?thesis
    proof (cases "tc_state (at_dominant a) \<in> {Thesis_TRIGGERED, Thesis_EXPIRED}")
      case True
      then show ?thesis using opened Some by (simp add: thesis_bar_def t Let_def a1 e2_def [symmetric])
    next
      case False
      with Some assms(3,4) [of a tick] show ?thesis
        by (cases "update_thesis (at_dominant a) snap level tick bar"; cases "snd (update_thesis (at_dominant a) snap level tick bar)")
           (simp_all add: thesis_bar_def t Let_def a1 e2_def [symmetric] a2)
    qed
  qed
qed

lemma on_active_bar:
  assumes "on_active P e"
    and "\<And>c. detect_thesis (ti_thesis ids) s snap level bar = Some c \<Longrightarrow>
      P \<lparr>at_dominant = c, at_flip = build_flip_candidate (ti_flip ids) (ti_now ids) c snap\<rparr>"
    and "\<And>a tick. P a \<Longrightarrow> tc_state (at_dominant a) \<notin> {Thesis_TRIGGERED, Thesis_EXPIRED} \<Longrightarrow>
      (case update_thesis (at_dominant a) snap level tick bar of
         (t, Some _) \<Rightarrow> P (a\<lparr>at_dominant := t\<rparr>)
       | (t, None) \<Rightarrow> pred_option P (settle (a\<lparr>at_dominant := t\<rparr>)))"
  shows "on_active P (fst (thesis_bar ids e s snap level bar))"
proof -
  have old: "\<And>s a. th_active e s = Some a \<Longrightarrow> P a" using assms(1) by (simp add: on_active_def)
  have "\<forall>s' a. th_active (fst (thesis_bar ids e s snap level bar)) s' = Some a \<longrightarrow> P a"
  proof (rule thesis_bar_cases, goal_cases)
    case 1
    show ?case using old by simp
  next
    case (2 c)
    from assms(2) [OF 2(1)] show ?case using old by simp
  next
    case (3 a tick err)
    from assms(3) [OF old [OF 3(1)] 3(2), of tick] 3(3) show ?case
      using old by (auto split: prod.splits)
  next
    case (4 a tick)
    from assms(3) [OF old [OF 4(1)] 4(2), of tick] 4(3) show ?case
      using old by (auto split: prod.splits)
  qed
  then show ?thesis by (simp add: on_active_def)
qed

lemma process_bar_engine:
  "fst (thesis_process_bar ids e None snap b) = e"
  "fst (thesis_process_bar ids e (Some level) snap b) =
     fst (thesis_bar ids (e\<lparr>th_bars_processed := th_bars_processed e + 1\<rparr>) (bb_symbol b) snap level (to_bar_event b))"
  by (simp_all add: thesis_process_bar_def split: prod.split sum.split)

text \<open>The same over commands, for a condition \<open>C\<close> on the snapshots used.\<close>

fun cmd_snapshots :: "(bar_snapshot \<Rightarrow> bool) \<Rightarrow> thesis_cmd \<Rightarrow> bool" where
  "cmd_snapshots C (Thesis_bundle ids level snap bundle) = C snap"
| "cmd_snapshots C (Thesis_bar_event ids feature bar) =
     (case feature of Some (Some snap, _) \<Rightarrow> C snap | _ \<Rightarrow> True)"
| "cmd_snapshots C _ = True"

lemma cmd_snapshots_True [simp]: "cmd_snapshots (\<lambda>_. True) c"
  by (cases c) (simp_all split: option.split)

lemma on_active_run:
  assumes "list_all (cmd_snapshots C) cmds"
    and "\<And>k s snap level bar c fk now. C snap \<Longrightarrow> detect_thesis k s snap level bar = Some c \<Longrightarrow>
      P \<lparr>at_dominant = c, at_flip = build_flip_candidate fk now c snap\<rparr>"
    and "\<And>a snap level tick bar. C snap \<Longrightarrow> P a \<Longrightarrow> tc_state (at_dominant a) \<notin> {Thesis_TRIGGERED, Thesis_EXPIRED} \<Longrightarrow>
      (case update_thesis (at_dominant a) snap level tick bar of
         (t, Some _) \<Rightarrow> P (a\<lparr>at_dominant := t\<rparr>)
       | (t, None) \<Rightarrow> pred_option P (settle (a\<lparr>at_dominant := t\<rparr>)))"
  shows "on_active P (thesis_run pipeline cmds)"
  unfolding thesis_run_def
proof (rule foldl_invariant [where I = "on_active P"])
  fix e c
  assume e: "on_active P e" and "c \<in> set cmds"
  with assms(1) have c: "cmd_snapshots C c" by (simp add: list_all_iff)
  have frame: "on_active P (e\<lparr>th_bars_processed := n\<rparr>)" for n using e by (simp add: on_active_def)
  have bar: "on_active P (fst (thesis_bar ids (e\<lparr>th_bars_processed := n\<rparr>) s snap level b))" if "C snap" for ids n s snap level b
    by (rule on_active_bar [OF frame]) (blast intro: assms(2) [OF that], rule assms(3) [OF that])
  show "on_active P (thesis_step e c)"
  proof (cases c)
    case (Thesis_bundle ids level snap bb)
    with c e bar [of snap] show ?thesis by (cases level) (simp_all add: process_bar_engine)
  next
    case (Thesis_bar_event ids feature b)
    with c e bar frame show ?thesis
      by (auto simp: thesis_handle_bar_def Let_def split: option.splits)
  next
    case (Thesis_trade t)
    with e show ?thesis by (simp add: thesis_handle_trade_def on_active_def Let_def)
  next
    case (Thesis_quote q)
    with e show ?thesis by (simp add: thesis_handle_quote_def on_active_def)
  qed
qed (simp add: on_active_def thesis_engine_new_def)

section \<open>What one update does\<close>

text \<open>The scoring part keeps a thesis's identity and plan; its state changes to invalidated at most.\<close>

definition scored_from :: "thesis_candidate \<Rightarrow> thesis_candidate \<Rightarrow> thesis_error option \<Rightarrow> bool" where
  "scored_from t t' err \<longleftrightarrow>
     tc_thesis_id t' = tc_thesis_id t \<and> tc_thesis_type t' = tc_thesis_type t \<and> tc_symbol t' = tc_symbol t
     \<and> tc_bars_alive t' = tc_bars_alive t \<and> tc_entry t' = tc_entry t \<and> tc_stop t' = tc_stop t
     \<and> tc_target t' = tc_target t \<and> (tc_pre_vwap_break t' \<longrightarrow> tc_pre_vwap_break t)
     \<and> (tc_confidence t' = tc_confidence t \<or> 0 \<le> tc_confidence t' \<and> tc_confidence t' \<le> 1)
     \<and> (tc_state t' = tc_state t \<or> tc_state t' = Thesis_INVALIDATED \<and> err = None)"

lemma conclude_scored: "conclude conditions invs t snap acc = (t', err) \<Longrightarrow> scored_from t t' err"
  by (auto simp: conclude_def scored_from_def Let_def max_def min_def split: sum.splits if_splits)

lemma invalidate_scored: "scored_from t (invalidate reason t) None"
  by (simp add: invalidate_def scored_from_def)

lemma scored_from_prepared:
  "scored_from (t\<lparr>tc_sweep_low := x\<rparr>) t' err = scored_from t t' err"
  "scored_from (t\<lparr>tc_rejection_high := x\<rparr>) t' err = scored_from t t' err"
  "scored_from (t\<lparr>tc_pre_vwap_break := False\<rparr>) t' err \<Longrightarrow> scored_from t t' err"
  by (auto simp: scored_from_def)

lemma score_short_scored: "score_short_thesis t snap level tick bar acc = (t', err) \<Longrightarrow> scored_from t t' err"
  unfolding score_short_thesis_def Let_def
  by (auto dest: conclude_scored simp: invalidate_scored split: option.splits)

lemma update_long_scored: "update_fake_breakdown_long t snap level tick bar = (t', err) \<Longrightarrow> scored_from t t' err"
proof -
  define r where "r = (if be_low bar < sn_vwap snap \<and> lower (be_low bar) (tc_sweep_low t)
    then Some (be_low bar) else tc_sweep_low t)"
  assume "update_fake_breakdown_long t snap level tick bar = (t', err)"
  then have "scored_from (t\<lparr>tc_sweep_low := r\<rparr>) t' err"
    unfolding update_fake_breakdown_long_def Let_def r_def [symmetric]
    by (auto dest!: conclude_scored simp: invalidate_scored split: option.splits)
  then show ?thesis by (simp add: scored_from_prepared)
qed

lemma update_short_scored:
  "update_vwap_failed_reclaim_short t snap level tick bar = (t', err) \<Longrightarrow> scored_from t t' err"
proof -
  define r where "r = (if be_high bar > sn_vwap snap \<and> higher (be_high bar) (tc_rejection_high t)
    then Some (be_high bar) else tc_rejection_high t)"
  assume "update_vwap_failed_reclaim_short t snap level tick bar = (t', err)"
  then have "scored_from (t\<lparr>tc_rejection_high := r\<rparr>) t' err"
    unfolding update_vwap_failed_reclaim_short_def Let_def r_def [symmetric]
    by (auto dest!: conclude_scored score_short_scored simp: invalidate_scored
          intro: scored_from_prepared(3) split: option.splits if_splits)
  then show ?thesis by (simp add: scored_from_prepared)
qed

text \<open>The lifecycle of a thesis, one bar at a time.\<close>

inductive thesis_next :: "thesis_state \<Rightarrow> thesis_state \<Rightarrow> bool" where
  stay: "thesis_next s s"
| build: "thesis_next Thesis_WATCHING Thesis_BUILDING"
| ready: "thesis_next Thesis_BUILDING Thesis_READY"
| expire: "s \<in> {Thesis_WATCHING, Thesis_BUILDING} \<Longrightarrow> thesis_next s Thesis_EXPIRED"
| invalid: "thesis_next s Thesis_INVALIDATED"

inductive_simps thesis_next_simps [simp]:
  "thesis_next Thesis_WATCHING s" "thesis_next Thesis_BUILDING s" "thesis_next Thesis_READY s"

lemma entry_plan_frame [simp]:
  "tc_state (compute_entry_plan t snap) = tc_state t" "tc_thesis_type (compute_entry_plan t snap) = tc_thesis_type t"
  "tc_confidence (compute_entry_plan t snap) = tc_confidence t"
  "tc_bars_alive (compute_entry_plan t snap) = tc_bars_alive t"
  "tc_pre_vwap_break (compute_entry_plan t snap) = tc_pre_vwap_break t"
  "tc_thesis_id (compute_entry_plan t snap) = tc_thesis_id t"
  "tc_entry (compute_entry_plan t snap) \<noteq> None" "tc_stop (compute_entry_plan t snap) \<noteq> None"
  by (simp_all add: compute_entry_plan_def Let_def split: thesis_type.split)

lemma advance_state_frame [simp]:
  "tc_thesis_type (advance_state t snap) = tc_thesis_type t" "tc_confidence (advance_state t snap) = tc_confidence t"
  "tc_bars_alive (advance_state t snap) = tc_bars_alive t" "tc_pre_vwap_break (advance_state t snap) = tc_pre_vwap_break t"
  "tc_thesis_id (advance_state t snap) = tc_thesis_id t"
  by (simp_all add: advance_state_def split: thesis_state.split)

lemma advance_state_next: "thesis_next (tc_state t) (tc_state (advance_state t snap))"
  by (simp add: advance_state_def thesis_next.intros split: thesis_state.split)

lemma advance_state_plan:
  "tc_state (advance_state t snap) = Thesis_READY \<Longrightarrow>
   (tc_state t = Thesis_READY \<Longrightarrow> tc_entry t \<noteq> None \<and> tc_stop t \<noteq> None) \<Longrightarrow>
   tc_entry (advance_state t snap) \<noteq> None \<and> tc_stop (advance_state t snap) \<noteq> None"
  by (cases "tc_state t"; simp add: advance_state_def del: not_None_eq split: if_splits)

lemma advance_state_age:
  "tc_state (advance_state t snap) = Thesis_WATCHING \<Longrightarrow> tc_bars_alive t \<le> MAX_BARS_WATCHING"
  "tc_state (advance_state t snap) = Thesis_BUILDING \<Longrightarrow>
     tc_state t = Thesis_WATCHING \<or> tc_bars_alive t \<le> MAX_BARS_BUILDING"
  by (cases "tc_state t"; simp add: advance_state_def split: if_splits)+

lemma update_thesis_parts:
  assumes "update_thesis t snap level tick bar = (t', err)"
  obtains u where "scored_from (t\<lparr>tc_bars_alive := tc_bars_alive t + 1, tc_updated_at := be_timestamp bar\<rparr>) u err"
    "t' = (if err = None then advance_state u snap else u)"
proof -
  define t1 where "t1 = t\<lparr>tc_bars_alive := tc_bars_alive t + 1, tc_updated_at := be_timestamp bar\<rparr>"
  define r where "r = (case tc_thesis_type t1 of
      TType_FAKE_BREAKDOWN_RECLAIM_LONG \<Rightarrow> update_fake_breakdown_long t1 snap level tick bar
    | TType_VWAP_FAILED_RECLAIM_SHORT \<Rightarrow> update_vwap_failed_reclaim_short t1 snap level tick bar)"
  obtain u e where r: "r = (u, e)" by (cases r)
  have "scored_from t1 u e"
    using r by (auto simp: r_def dest: update_long_scored update_short_scored split: thesis_type.splits)
  moreover have "e = err \<and> t' = (if err = None then advance_state u snap else u)"
    using assms r unfolding update_thesis_def Let_def t1_def [symmetric] r_def [symmetric]
    by (auto split: option.splits)
  ultimately show ?thesis using that by (simp add: t1_def)
qed

section \<open>Properties\<close>

definition thesis_ok :: "thesis_candidate \<Rightarrow> bool" where
  "thesis_ok t \<longleftrightarrow>
     0 \<le> tc_confidence t \<and> tc_confidence t \<le> 1
     \<and> tc_state t \<in> {Thesis_WATCHING, Thesis_BUILDING, Thesis_READY, Thesis_EXPIRED}
     \<and> (tc_state t = Thesis_READY \<longrightarrow> tc_entry t \<noteq> None \<and> tc_stop t \<noteq> None)"

text \<open>A flip as it was built: nothing the market did since has reached it.\<close>

definition blank_flip :: "thesis_candidate \<Rightarrow> thesis_candidate \<Rightarrow> bool" where
  "blank_flip d f \<longleftrightarrow>
     tc_thesis_type f = opposite_type (tc_thesis_type d) \<and> tc_state f = Thesis_WATCHING
     \<and> tc_confidence f = fl (5/100) \<and> tc_bars_alive f = 0 \<and> tc_sweep_low f = None \<and> tc_rejection_high f = None
     \<and> tc_evidence f = [] \<and> tc_entry f = None \<and> tc_stop f = None"

definition active_ok :: "active_thesis \<Rightarrow> bool" where
  "active_ok a \<longleftrightarrow> thesis_ok (at_dominant a) \<and> (\<forall>f. at_flip a = Some f \<longrightarrow> blank_flip (at_dominant a) f)"

lemma small_confidences: "0 \<le> fl (5/100)" "fl (5/100) \<le> 1" "0 \<le> fl (10/100)" "fl (10/100) \<le> 1" "0 \<le> fl (15/100)" "fl (15/100) \<le> 1"
  by (simp_all add: fl_unit fl_nonneg fl_le_int [of _ 1, simplified])

lemma new_candidate_ok:
  "0 \<le> confidence \<Longrightarrow> confidence \<le> 1 \<Longrightarrow> thesis_ok (new_candidate k ty s confidence level flip ts)"
  by (simp add: thesis_ok_def new_candidate_def)

lemma detected:
  assumes "detect_thesis k s snap level bar = Some c"
  shows "thesis_ok c" "tc_state c = Thesis_WATCHING" "tc_bars_alive c = 0"
  using assms small_confidences
  by (auto simp: detect_thesis_def new_candidate_def thesis_ok_def split: if_splits)

lemma flip_blank: "build_flip_candidate k now c snap = Some f \<Longrightarrow> blank_flip c f"
  by (auto simp: build_flip_candidate_def new_candidate_def blank_flip_def)

lemma blank_flip_ok: "blank_flip d f \<Longrightarrow> thesis_ok f"
  using small_confidences by (simp add: blank_flip_def thesis_ok_def)

lemma update_keeps:
  assumes "update_thesis t snap level tick bar = (t', err)" "thesis_ok t" "tc_state t \<noteq> Thesis_EXPIRED"
  shows "tc_thesis_type t' = tc_thesis_type t" "thesis_next (tc_state t) (tc_state t')"
    "thesis_ok t' \<or> tc_state t' = Thesis_INVALIDATED \<and> err = None"
proof -
  obtain u where u: "scored_from (t\<lparr>tc_bars_alive := tc_bars_alive t + 1, tc_updated_at := be_timestamp bar\<rparr>) u err"
    and t': "t' = (if err = None then advance_state u snap else u)"
    by (rule update_thesis_parts [OF assms(1)])
  show "tc_thesis_type t' = tc_thesis_type t" using u t' by (simp add: scored_from_def)
  have conf: "0 \<le> tc_confidence t'" "tc_confidence t' \<le> 1"
    using u t' assms(2) by (auto simp: scored_from_def thesis_ok_def)
  have inv: "advance_state u snap = u" if "tc_state u = Thesis_INVALIDATED" using that by (simp add: advance_state_def)
  consider (same) "tc_state u = tc_state t" | (invalid) "tc_state u = Thesis_INVALIDATED" "err = None"
    using u by (auto simp: scored_from_def)
  then show next': "thesis_next (tc_state t) (tc_state t')"
  proof cases
    case same
    with advance_state_next [of u snap] t' show ?thesis by (simp add: thesis_next.stay)
  next
    case invalid
    with inv t' show ?thesis by (simp add: thesis_next.invalid)
  qed
  have plan: "tc_entry t' \<noteq> None \<and> tc_stop t' \<noteq> None" if "tc_state t' = Thesis_READY"
  proof -
    have old: "tc_entry u \<noteq> None \<and> tc_stop u \<noteq> None" if "tc_state u = Thesis_READY"
      using that u assms(2) by (auto simp: scored_from_def thesis_ok_def)
    show ?thesis
    proof (cases err)
      case None
      then have "t' = advance_state u snap" using t' by simp
      with advance_state_plan [OF _ old] \<open>tc_state t' = Thesis_READY\<close> show ?thesis by blast
    next
      case (Some x)
      then have "t' = u" using t' by simp
      with old \<open>tc_state t' = Thesis_READY\<close> show ?thesis by simp
    qed
  qed
  have "tc_state t \<in> {Thesis_WATCHING, Thesis_BUILDING, Thesis_READY}" using assms(2,3) by (auto simp: thesis_ok_def)
  with next' have "tc_state t' \<in> {Thesis_WATCHING, Thesis_BUILDING, Thesis_READY, Thesis_EXPIRED, Thesis_INVALIDATED}"
    by auto
  with conf plan have "thesis_ok t' \<or> tc_state t' = Thesis_INVALIDATED" by (auto simp: thesis_ok_def)
  moreover have "err = None" if "tc_state t' = Thesis_INVALIDATED"
    using that u t' assms(2) by (cases err) (auto simp: scored_from_def thesis_ok_def)
  ultimately show "thesis_ok t' \<or> tc_state t' = Thesis_INVALIDATED \<and> err = None" by blast
qed

lemma settle_ok:
  assumes "thesis_ok t \<or> tc_state t = Thesis_INVALIDATED" "\<And>f. at_flip a = Some f \<Longrightarrow> blank_flip t f"
  shows "pred_option active_ok (settle (a\<lparr>at_dominant := t\<rparr>))"
proof (cases "at_flip a")
  case None
  with assms(1) show ?thesis by (auto simp: settle_def active_ok_def)
next
  case (Some f)
  note b = assms(2) [OF Some]
  have f: "f\<lparr>tc_state := Thesis_WATCHING\<rparr> = f" using b by (cases f) (simp add: blank_flip_def)
  from assms(1) show ?thesis
  proof
    assume "thesis_ok t"
    with Some b show ?thesis by (auto simp: settle_def active_ok_def thesis_ok_def)
  next
    assume "tc_state t = Thesis_INVALIDATED"
    with Some f blank_flip_ok [OF b] show ?thesis by (simp add: settle_def active_ok_def)
  qed
qed

text \<open>
  Whatever bars, trades and quotes arrive, every active thesis has a confidence between 0 and 1, is watching,
  building, ready or expired, and has its entry and stop when it is ready; its flip, documented as tracked in
  parallel, is still exactly as it was built, so an invalidated thesis is replaced by one that has seen nothing.
\<close>

theorem theses_stay_well_formed: "on_active active_ok (thesis_run pipeline cmds)"
proof (rule on_active_run [where C = "\<lambda>_. True"])
  show "list_all (cmd_snapshots (\<lambda>_. True)) cmds"
    by (simp add: list_all_iff)
next
  fix k s snap level bar c fk now
  assume "detect_thesis k s snap level bar = Some c"
  from detected(1) [OF this] show "active_ok \<lparr>at_dominant = c, at_flip = build_flip_candidate fk now c snap\<rparr>"
    by (auto simp: active_ok_def dest: flip_blank)
next
  fix a snap level tick bar
  assume a: "active_ok a" "tc_state (at_dominant a) \<notin> {Thesis_TRIGGERED, Thesis_EXPIRED}"
  obtain t err where u: "update_thesis (at_dominant a) snap level tick bar = (t, err)"
    by (cases "update_thesis (at_dominant a) snap level tick bar")
  have ok: "thesis_ok (at_dominant a)" "tc_state (at_dominant a) \<noteq> Thesis_EXPIRED" using a by (simp_all add: active_ok_def)
  note k = update_keeps [OF u ok]
  have flip: "blank_flip t f" if "at_flip a = Some f" for f
    using a(1) that k(1) by (simp add: active_ok_def blank_flip_def)
  show "case update_thesis (at_dominant a) snap level tick bar of
      (t, Some _) \<Rightarrow> active_ok (a\<lparr>at_dominant := t\<rparr>)
    | (t, None) \<Rightarrow> pred_option active_ok (settle (a\<lparr>at_dominant := t\<rparr>))"
  proof (cases err)
    case None
    with u k(3) settle_ok [OF _ flip] show ?thesis by auto
  next
    case (Some x)
    with u k(3) flip show ?thesis by (auto simp: active_ok_def)
  qed
qed

definition thesis_status :: "thesis_engine \<Rightarrow> string \<Rightarrow> thesis_state option" where
  "thesis_status e s = map_option (\<lambda>a. tc_state (at_dominant a)) (th_active e s)"

text \<open>The specification of a symbol's status from event to event.\<close>

inductive status_next :: "thesis_state option \<Rightarrow> thesis_state option \<Rightarrow> bool" where
  keep: "status_next x x"
| detect: "x \<in> {None, Some Thesis_TRIGGERED, Some Thesis_EXPIRED} \<Longrightarrow> status_next x (Some Thesis_WATCHING)"
| move: "thesis_next s s' \<Longrightarrow> s' \<noteq> Thesis_INVALIDATED \<Longrightarrow> status_next (Some s) (Some s')"
| flip: "s \<notin> {Thesis_TRIGGERED, Thesis_EXPIRED} \<Longrightarrow> status_next (Some s) (Some Thesis_WATCHING)"
| drop: "s \<notin> {Thesis_TRIGGERED, Thesis_EXPIRED} \<Longrightarrow> status_next (Some s) None"

lemma update_thesis_next:
  assumes "update_thesis t snap level tick bar = (t', err)"
  shows "thesis_next (tc_state t) (tc_state t')" "err \<noteq> None \<Longrightarrow> tc_state t' = tc_state t"
proof -
  obtain u where u: "scored_from (t\<lparr>tc_bars_alive := tc_bars_alive t + 1, tc_updated_at := be_timestamp bar\<rparr>) u err"
    and t': "t' = (if err = None then advance_state u snap else u)"
    by (rule update_thesis_parts [OF assms])
  have inv: "advance_state u snap = u" if "tc_state u = Thesis_INVALIDATED" using that by (simp add: advance_state_def)
  from u consider "tc_state u = tc_state t" | "tc_state u = Thesis_INVALIDATED" "err = None"
    by (auto simp: scored_from_def)
  then show "thesis_next (tc_state t) (tc_state t')"
    by cases (use advance_state_next [of u snap] t' inv in \<open>auto simp: thesis_next.stay thesis_next.invalid\<close>)
  show "tc_state t' = tc_state t" if "err \<noteq> None" using that u t' by (auto simp: scored_from_def)
qed

lemma settle_next:
  assumes "thesis_next s (tc_state t)" "s \<notin> {Thesis_TRIGGERED, Thesis_EXPIRED}"
  shows "status_next (Some s) (map_option (\<lambda>a. tc_state (at_dominant a)) (settle (a\<lparr>at_dominant := t\<rparr>)))"
  using assms
  by (cases "at_flip a"; cases "tc_state t = Thesis_INVALIDATED"; cases "tc_state t = Thesis_FLIPPED")
     (auto simp: settle_def intro: status_next.intros)

lemma thesis_bar_status:
  "status_next (thesis_status e s') (thesis_status (fst (thesis_bar ids e s snap level bar)) s')"
  unfolding thesis_status_def
proof (rule thesis_bar_cases, goal_cases)
  case 1
  show ?case by (rule status_next.keep)
next
  case (2 c)
  have "status_next (map_option (\<lambda>a. tc_state (at_dominant a)) (th_active e s)) (Some Thesis_WATCHING)"
    using 2(2) by (cases "th_active e s") (auto intro!: status_next.detect)
  with detected(2) [OF 2(1)] show ?case by (simp add: status_next.keep)
next
  case (3 a tick err)
  then have "tc_state (fst (update_thesis (at_dominant a) snap level tick bar)) = tc_state (at_dominant a)"
    by (intro update_thesis_next(2) [of _ _ _ _ _ _ "Some err"]) (simp_all add: prod_eq_iff)
  with 3(1) show ?case by (simp add: status_next.keep)
next
  case (4 a tick)
  then have "thesis_next (tc_state (at_dominant a)) (tc_state (fst (update_thesis (at_dominant a) snap level tick bar)))"
    by (intro update_thesis_next(1) [of _ _ _ _ _ _ None]) (simp_all add: prod_eq_iff)
  from settle_next [OF this 4(2), of a] 4(1) show ?case by (simp add: status_next.keep)
qed

lemma thesis_bar_other:
  assumes "s' \<noteq> s"
  shows "thesis_status (fst (thesis_bar ids e s snap level bar)) s' = thesis_status e s'"
  unfolding thesis_status_def by (rule thesis_bar_cases) (use assms in simp_all)

definition bar_symbol :: "thesis_cmd \<Rightarrow> string option" where
  "bar_symbol c =
     (case c of Thesis_bundle _ _ _ bb \<Rightarrow> Some (bb_symbol bb) | Thesis_bar_event _ _ b \<Rightarrow> Some (be_symbol b) | _ \<Rightarrow> None)"

text \<open>
  C5. From event to event a symbol's thesis follows its lifecycle: watching, building, ready, or expired from the first
  two; opened only where there was none or a finished one; removed, or replaced by its watching flip,
  only while it is live. Trades and quotes leave it as it is, and so do the bars of other symbols.
\<close>

theorem thesis_status_follows_lifecycle:
  "if bar_symbol c = Some s then status_next (thesis_status e s) (thesis_status (thesis_step e c) s)
   else thesis_status (thesis_step e c) s = thesis_status e s"
proof -
  have frame: "thesis_status (e\<lparr>th_bars_processed := n\<rparr>) s = thesis_status e s" for n by (simp add: thesis_status_def)
  show ?thesis
  proof (cases c)
    case (Thesis_bundle ids level snap bb)
    let ?e = "e\<lparr>th_bars_processed := th_bars_processed e + 1\<rparr>"
    show ?thesis
      using thesis_bar_status [of ?e s ids "bb_symbol bb" snap _ "to_bar_event bb"]
        thesis_bar_other [of s "bb_symbol bb" ids ?e snap _ "to_bar_event bb"] Thesis_bundle
      by (cases level) (auto simp: bar_symbol_def process_bar_engine frame status_next.keep)
  next
    case (Thesis_bar_event ids feature b)
    let ?e = "e\<lparr>th_bars_processed := th_bars_processed e + 1\<rparr>"
    show ?thesis
      using thesis_bar_status [of ?e s ids "be_symbol b" _ _ b] thesis_bar_other [of s "be_symbol b" ids ?e _ _ b] Thesis_bar_event
      by (auto simp: bar_symbol_def thesis_handle_bar_def Let_def frame status_next.keep split: option.split)
  qed (simp_all add: bar_symbol_def thesis_handle_trade_def thesis_handle_quote_def thesis_status_def Let_def)
qed

text \<open>Ages, on bars whose ATR is not zero.\<close>

definition age_ok :: "active_thesis \<Rightarrow> bool" where
  "age_ok a \<longleftrightarrow>
     (tc_state (at_dominant a) = Thesis_WATCHING \<longrightarrow> tc_bars_alive (at_dominant a) \<le> 8)
     \<and> (tc_state (at_dominant a) = Thesis_BUILDING \<longrightarrow> tc_bars_alive (at_dominant a) \<le> 20)
     \<and> (\<forall>f. at_flip a = Some f \<longrightarrow> tc_bars_alive f = 0)"

lemma conclude_error: "conclude conditions invs t snap acc = (t', Some err) \<Longrightarrow>
   (\<And>t. conditions t snap = Inl err \<Longrightarrow> sn_atr_14 snap = Some 0) \<Longrightarrow> sn_atr_14 snap = Some 0"
  by (auto simp: conclude_def Let_def split: sum.splits)

lemma commit_error: "commit_conditions w u side text anchor risk t snap = Inl err \<Longrightarrow> sn_atr_14 snap = Some 0"
  by (auto simp: commit_conditions_def Let_def split: sum.splits option.splits if_splits)

lemma commit_long_error: "commit_conditions_long t snap = Inl err \<Longrightarrow> sn_atr_14 snap = Some 0"
  and commit_short_error: "commit_conditions_short t snap = Inl err \<Longrightarrow> sn_atr_14 snap = Some 0"
  by (auto simp: commit_conditions_long_def commit_conditions_short_def dest: commit_error)

lemma short_error: "score_short_thesis t snap level tick bar acc = (t', Some err) \<Longrightarrow> sn_atr_14 snap = Some 0"
  by (auto simp: score_short_thesis_def Let_def dest!: conclude_error intro: commit_short_error split: option.splits)

lemma update_error: "update_thesis t snap level tick bar = (t', Some err) \<Longrightarrow> sn_atr_14 snap = Some 0"
  unfolding update_thesis_def update_fake_breakdown_long_def update_vwap_failed_reclaim_short_def Let_def
  by (auto dest!: short_error conclude_error intro: commit_short_error commit_long_error
      split: option.splits prod.splits thesis_type.splits if_splits)

lemma age_settle:
  assumes "tc_state t = Thesis_WATCHING \<Longrightarrow> tc_bars_alive t \<le> 8" "tc_state t = Thesis_BUILDING \<Longrightarrow> tc_bars_alive t \<le> 20"
    and "\<And>f. at_flip a = Some f \<Longrightarrow> tc_bars_alive f = 0"
  shows "pred_option age_ok (settle (a\<lparr>at_dominant := t\<rparr>))"
  using assms by (cases "at_flip a") (simp_all add: settle_def age_ok_def)

text \<open>
  C30. Unless the ATR is zero, no thesis lingers undecided: one that is watching has lived at most eight bars, one that
  is building at most twenty, so every thesis is decided (ready, expired or gone) after twenty.
\<close>

theorem undecided_theses_expire:
  assumes "list_all (cmd_snapshots (\<lambda>snap. sn_atr_14 snap \<noteq> Some 0)) cmds"
  shows "on_active age_ok (thesis_run pipeline cmds)"
  using assms
proof (rule on_active_run)
  fix k s snap level bar c fk now
  assume "detect_thesis k s snap level bar = Some c"
  from detected(2,3) [OF this] show "age_ok \<lparr>at_dominant = c, at_flip = build_flip_candidate fk now c snap\<rparr>"
    by (simp add: age_ok_def build_flip_candidate_def new_candidate_def)
next
  fix a and snap :: bar_snapshot and level tick bar
  assume a: "sn_atr_14 snap \<noteq> Some 0" "age_ok a" "tc_state (at_dominant a) \<notin> {Thesis_TRIGGERED, Thesis_EXPIRED}"
  let ?d = "at_dominant a"
  obtain t err where u: "update_thesis ?d snap level tick bar = (t, err)" by (cases "update_thesis ?d snap level tick bar")
  with a(1) update_error have err: "err = None" by (cases err) blast+
  obtain v where v: "scored_from (?d\<lparr>tc_bars_alive := tc_bars_alive ?d + 1, tc_updated_at := be_timestamp bar\<rparr>) v err"
    and t: "t = (if err = None then advance_state v snap else v)"
    by (rule update_thesis_parts [OF u])
  have n: "tc_bars_alive v = tc_bars_alive ?d + 1" using v by (simp add: scored_from_def)
  have ages: "tc_bars_alive t \<le> 8" if "tc_state t = Thesis_WATCHING"
    using that advance_state_age(1) [of v snap] t err by (simp add: MAX_BARS_WATCHING_def)
  have "tc_bars_alive t \<le> 20" if b: "tc_state t = Thesis_BUILDING"
  proof -
    from b t err advance_state_age(2) [of v snap] consider "tc_state v = Thesis_WATCHING" | "tc_bars_alive v \<le> MAX_BARS_BUILDING"
      by auto
    then show ?thesis
    proof cases
      case 1
      with v have "tc_state ?d = Thesis_WATCHING" by (simp add: scored_from_def)
      with a(2) n t err show ?thesis by (simp add: age_ok_def)
    qed (use t err in \<open>simp add: MAX_BARS_BUILDING_def\<close>)
  qed
  with ages age_settle [of t a] a(2) u err show "case update_thesis ?d snap level tick bar of
      (t, Some _) \<Rightarrow> age_ok (a\<lparr>at_dominant := t\<rparr>)
    | (t, None) \<Rightarrow> pred_option age_ok (settle (a\<lparr>at_dominant := t\<rparr>))"
    by (simp add: age_ok_def)
qed

definition sample_level :: level_memory where
  "sample_level =
     \<lparr>lm_symbol = ''MNQ'', lm_timestamp = 0, lm_vwap_touch_count = 0, lm_last_vwap_outcome = None,
      lm_bars_since_last_vwap_touch = 0, lm_current_side = None, lm_session_sweep_low = None,
      lm_session_reject_high = None\<rparr>"

text \<open>The snapshot of a bar with the given ATR buffer, swept or not, on a flat tape.\<close>

definition sample_thesis_snapshot :: "dec list \<Rightarrow> dec \<Rightarrow> bar_snapshot" where
  "sample_thesis_snapshot atrs low =
     snapshot_of ((feature_state_new ''MNQ'' 5)\<lparr>fs_atr_buffer := atrs, fs_cumulative_volume := 100, fs_cumulative_vwap_num := 10000\<rparr>)
       None None None (compute_vp_fields None None 100 None) Phase_MID (sample_ohlc TF_M1 0 100 100 low 100)"

definition sample_thesis_bundle :: bar_bundle where
  "sample_thesis_bundle = sample_m1_bundle\<lparr>bb_high := 100, bb_low := 99, bb_close := 100\<rparr>"

definition sample_ids :: thesis_ids where
  "sample_ids = \<lparr>ti_thesis = ''t1'', ti_flip = ''t2'', ti_now = 0\<rparr>"

lemma sample_thesis_fields:
  "sn_vwap (sample_thesis_snapshot atrs low) = 100" "sn_is_above_vwap (sample_thesis_snapshot atrs low)"
  "sn_bars_above_vwap (sample_thesis_snapshot atrs low) = 0" "sn_bars_below_vwap (sample_thesis_snapshot atrs low) = 0"
  "sn_vwap_cross_down (sample_thesis_snapshot atrs low) = False"
  "sn_is_lower_low (sample_thesis_snapshot atrs low) = False"
  "sn_swept_below_vwap (sample_thesis_snapshot atrs low) \<longleftrightarrow> low < 100"
  "sn_atr_14 (sample_thesis_snapshot [] low) = None" "sn_atr_14 (sample_thesis_snapshot [0] low) = Some 0"
  by (simp_all add: sample_thesis_snapshot_def snapshot_of_def Let_def session_vwap_def feature_state_new_def
      sample_ohlc_def atr_14_def dec_mean_def dec_sum_def dq_exact [of 100 0, simplified])

lemma undecided_theses_expire_witness:
  "on_active age_ok (thesis_run True
     [Thesis_bundle sample_ids (Some sample_level) (sample_thesis_snapshot [] 99) sample_thesis_bundle])
   \<and> thesis_status (thesis_run True
     [Thesis_bundle sample_ids (Some sample_level) (sample_thesis_snapshot [] 99) sample_thesis_bundle]) ''MNQ''
     = Some Thesis_WATCHING"
  using undecided_theses_expire [of "[Thesis_bundle sample_ids (Some sample_level) (sample_thesis_snapshot [] 99) sample_thesis_bundle]" True]
  by (simp add: sample_thesis_fields thesis_run_def process_bar_engine thesis_bar_def compute_tick_flow_def
      thesis_engine_new_def update_session_baseline_def open_thesis_def detect_thesis_def Let_def
      thesis_status_def sample_thesis_bundle_def sample_m1_bundle_def new_candidate_def to_bar_event_def)

text \<open>
  A zero ATR takes the thesis stage down: the commit conditions divide by it without the guard the other checks
  have, so a long thesis with a sweep low, not invalidated by the bar, raises instead of returning.
\<close>

theorem zero_atr_stops_the_thesis_stage:
  assumes "th_active e (bb_symbol b) = Some a" "tc_thesis_type (at_dominant a) = TType_FAKE_BREAKDOWN_RECLAIM_LONG"
    and "tc_state (at_dominant a) \<notin> {Thesis_TRIGGERED, Thesis_EXPIRED}" "tc_sweep_low (at_dominant a) \<noteq> None"
    and "sn_atr_14 snap = Some 0" "sn_bars_below_vwap snap < 3" "sn_is_above_vwap snap"
  shows "snd (thesis_process_bar ids e (Some level) snap b) = Inl Zero_atr_division"
proof -
  define e0 where "e0 = e\<lparr>th_bars_processed := th_bars_processed e + 1\<rparr>"
  obtain e1 tick where t: "compute_tick_flow e0 (ti_now ids) (bb_symbol b) (be_timestamp (to_bar_event b)) = (e1, tick)"
    by (cases "compute_tick_flow e0 (ti_now ids) (bb_symbol b) (be_timestamp (to_bar_event b))")
  have act: "th_active e1 (bb_symbol b) = Some a" using tick_flow_frame [OF t] assms(1) by (simp add: e0_def)
  obtain low where low: "tc_sweep_low (at_dominant a) = Some low" using assms(4) by blast
  have "commit_conditions_long th snap = Inl Zero_atr_division" if "tc_sweep_low th \<noteq> None" for th
    using that assms(5) by (auto simp: commit_conditions_long_def commit_conditions_def Let_def)
  then have "snd (update_thesis (at_dominant a) snap level tick (to_bar_event b)) = Some Zero_atr_division"
    using assms(2,5-7) low
    by (simp add: update_thesis_def update_fake_breakdown_long_def invalidation_long_def conclude_def Let_def split: prod.split)
  then obtain d where "update_thesis (at_dominant a) snap level tick (to_bar_event b) = (d, Some Zero_atr_division)"
    by (cases "update_thesis (at_dominant a) snap level tick (to_bar_event b)") simp
  then show ?thesis
    using assms(3) act by (simp add: thesis_process_bar_def thesis_bar_def e0_def [symmetric] t Let_def)
qed

lemma zero_atr_stops_the_thesis_stage_witness:
  "snd (thesis_process_bar sample_ids
     (thesis_run True [Thesis_bundle sample_ids (Some sample_level) (sample_thesis_snapshot [] 99) sample_thesis_bundle])
     (Some sample_level) (sample_thesis_snapshot [0] 100) sample_thesis_bundle) = Inl Zero_atr_division"
proof -
  let ?e = "thesis_run True [Thesis_bundle sample_ids (Some sample_level) (sample_thesis_snapshot [] 99) sample_thesis_bundle]"
  obtain a where "th_active ?e ''MNQ'' = Some a" "tc_thesis_type (at_dominant a) = TType_FAKE_BREAKDOWN_RECLAIM_LONG"
      "tc_state (at_dominant a) = Thesis_WATCHING" "tc_sweep_low (at_dominant a) = Some 99"
    by (simp add: sample_thesis_fields thesis_run_def process_bar_engine thesis_bar_def compute_tick_flow_def
      thesis_engine_new_def update_session_baseline_def open_thesis_def detect_thesis_def Let_def
      sample_thesis_bundle_def sample_m1_bundle_def new_candidate_def to_bar_event_def)
  with zero_atr_stops_the_thesis_stage [of ?e sample_thesis_bundle a "sample_thesis_snapshot [0] 100" sample_ids sample_level]
  show ?thesis by (simp add: sample_thesis_fields sample_thesis_bundle_def sample_m1_bundle_def)
qed

end
