(* ===== verification/Context_Engine.thy ===== *)
theory Context_Engine
  imports Feature_Engine
begin

text \<open>
  The context engine, \<^verbatim>\<open>engines/context/engine.py\<close>: the overnight and previous-session levels kept per
  symbol from its minute bars, and the context snapshot built on demand from them and the feature engine's
  current snapshot. The theorem on the levels compares the state with the levels read off the history
  of bars, cut into sessions.
\<close>

section \<open>State\<close>

record context_state =
  kx_session_key :: "date option"
  kx_pdh :: "dec option"
  kx_pdl :: "dec option"
  kx_prev_rth_close :: "dec option"
  kx_cur_rth_high :: "dec option"
  kx_cur_rth_low :: "dec option"
  kx_cur_rth_close :: "dec option"
  kx_onh :: "dec option"
  kx_onl :: "dec option"
  kx_rth_open :: "dec option"
  kx_gap_points :: "rat option"
  kx_gap_pct :: "rat option"
  kx_gap_midpoint :: "dec option"

definition context_state_new :: context_state where
  "context_state_new =
     \<lparr>kx_session_key = None, kx_pdh = None, kx_pdl = None, kx_prev_rth_close = None,
      kx_cur_rth_high = None, kx_cur_rth_low = None, kx_cur_rth_close = None, kx_onh = None, kx_onl = None,
      kx_rth_open = None, kx_gap_points = None, kx_gap_pct = None, kx_gap_midpoint = None\<rparr>"

text \<open>\<open>new if new is not None else old\<close>.\<close>

definition or_keep :: "'a option \<Rightarrow> 'a option \<Rightarrow> 'a option" where
  "or_keep x old = (case x of None \<Rightarrow> old | Some v \<Rightarrow> Some v)"

definition rollover :: "context_state \<Rightarrow> context_state" where
  "rollover st =
     st\<lparr>kx_pdh := or_keep (kx_cur_rth_high st) (kx_pdh st), kx_pdl := or_keep (kx_cur_rth_low st) (kx_pdl st),
        kx_prev_rth_close := or_keep (kx_cur_rth_close st) (kx_prev_rth_close st),
        kx_cur_rth_high := None, kx_cur_rth_low := None, kx_cur_rth_close := None, kx_onh := None, kx_onl := None,
        kx_rth_open := None, kx_gap_points := None, kx_gap_pct := None, kx_gap_midpoint := None\<rparr>"

record context_engine =
  ke_states :: "string \<rightharpoonup> context_state"
  ke_last_bars :: "string \<rightharpoonup> bar_event"
  ke_symbol_calendars :: "string \<rightharpoonup> session_calendar"

definition context_engine_new :: context_engine where
  "context_engine_new = \<lparr>ke_states = Map.empty, ke_last_bars = Map.empty, ke_symbol_calendars = Map.empty\<rparr>"

definition context_initialize :: "feature_env \<Rightarrow> context_engine \<Rightarrow> context_engine" where
  "context_initialize v e =
     foldl (\<lambda>e s. e\<lparr>ke_symbol_calendars := (ke_symbol_calendars e)(sy_ticker s \<mapsto> calendar_of v s),
                    ke_states := (ke_states e)(sy_ticker s \<mapsto> context_state_new)\<rparr>)
       e (active_symbols (fv_registry v))"

section \<open>The handler\<close>

definition overnight :: "context_state \<Rightarrow> bar_event \<Rightarrow> context_state" where
  "overnight st bar =
     st\<lparr>kx_onh := (if higher (be_high bar) (kx_onh st) then Some (be_high bar) else kx_onh st),
        kx_onl := (if lower (be_low bar) (kx_onl st) then Some (be_low bar) else kx_onl st)\<rparr>"

definition open_gap :: "dec \<Rightarrow> dec \<Rightarrow> rat \<times> rat \<times> dec" where
  "open_gap rth_open prev =
     (let gap = fl (dq (rth_open - prev))
      in (gap, fl (fl (gap / fl prev) * 100), dq (dq (rth_open + prev) / 2)))"

definition rth_opening :: "context_state \<Rightarrow> bar_event \<Rightarrow> context_state" where
  "rth_opening st bar =
     (if kx_rth_open st \<noteq> None then st
      else case kx_prev_rth_close st of
             None \<Rightarrow> st\<lparr>kx_rth_open := Some (be_open bar)\<rparr>
           | Some prev \<Rightarrow>
               (if prev > 0
                then case open_gap (be_open bar) prev of
                       (points, pct, mid) \<Rightarrow>
                         st\<lparr>kx_rth_open := Some (be_open bar), kx_gap_points := Some points,
                            kx_gap_pct := Some pct, kx_gap_midpoint := Some mid\<rparr>
                else st\<lparr>kx_rth_open := Some (be_open bar)\<rparr>))"

definition rth_accumulate :: "context_state \<Rightarrow> bar_event \<Rightarrow> context_state" where
  "rth_accumulate st bar =
     st\<lparr>kx_cur_rth_high := (if higher (be_high bar) (kx_cur_rth_high st) then Some (be_high bar) else kx_cur_rth_high st),
        kx_cur_rth_low := (if lower (be_low bar) (kx_cur_rth_low st) then Some (be_low bar) else kx_cur_rth_low st),
        kx_cur_rth_close := Some (be_close bar)\<rparr>"

definition context_roll :: "session_calendar \<Rightarrow> context_state \<Rightarrow> bar_event \<Rightarrow> context_state" where
  "context_roll cal st bar =
     (let key = session_key cal (be_timestamp bar)
      in if kx_session_key st \<noteq> Some key then (rollover st)\<lparr>kx_session_key := Some key\<rparr> else st)"

definition context_bar :: "session_calendar \<Rightarrow> context_state \<Rightarrow> bar_event \<Rightarrow> context_state" where
  "context_bar cal st bar =
     (let phase = sc_session_phase cal (be_timestamp bar);
          st = context_roll cal st bar;
          st = (if phase = Phase_PRE_MARKET then overnight st bar else st)
      in if is_rth_phase phase then rth_accumulate (rth_opening st bar) bar else st)"

definition context_handle_bar ::
  "feature_env \<Rightarrow> context_engine \<Rightarrow> bar_event \<Rightarrow> context_engine \<times> (feature_error + unit)" where
  "context_handle_bar v e bar =
     (let s = be_symbol bar in
      if be_timeframe bar \<noteq> TF_M1 then (e, Inr ())
      else
        (let prepared =
               (case ke_states e s of
                  Some st \<Rightarrow> Inr e
                | None \<Rightarrow>
                    (case registry_get (fv_registry v) s of
                       Inl _ \<Rightarrow> Inl (Symbol_unknown s)
                     | Inr sy \<Rightarrow>
                         Inr (e\<lparr>ke_symbol_calendars := (ke_symbol_calendars e)(s \<mapsto> calendar_of v sy),
                                ke_states := (ke_states e)(s \<mapsto> context_state_new)\<rparr>)))
         in case prepared of
              Inl err \<Rightarrow> (e, Inl err)
            | Inr e \<Rightarrow>
                (let cal = get_default (ke_symbol_calendars e) s (fv_calendar v);
                     st = context_bar cal (get_default (ke_states e) s context_state_new) bar
                 in (e\<lparr>ke_states := (ke_states e)(s \<mapsto> st), ke_last_bars := (ke_last_bars e)(s \<mapsto> bar)\<rparr>, Inr ()))))"

section \<open>The snapshot\<close>

definition level_named :: "string \<Rightarrow> dec option \<Rightarrow> (string \<times> dec) list" where
  "level_named n l = (case l of None \<Rightarrow> [] | Some x \<Rightarrow> [(n, x)])"

definition war_zone_candidates :: "context_state \<Rightarrow> bar_snapshot option \<Rightarrow> (string \<times> dec) list" where
  "war_zone_candidates st feat =
     level_named ''ONL'' (kx_onl st) @ level_named ''ONH'' (kx_onh st) @ level_named ''PDL'' (kx_pdl st)
     @ level_named ''PDH'' (kx_pdh st) @ level_named ''PREV_CLOSE'' (kx_prev_rth_close st)
     @ level_named ''RTH_OPEN'' (kx_rth_open st) @ level_named ''GAP_MID'' (kx_gap_midpoint st)
     @ (case feat of
          None \<Rightarrow> []
        | Some sn \<Rightarrow>
            level_named ''VWAP'' (if sn_vwap sn > 0 then Some (sn_vwap sn) else None)
            @ level_named ''5M21'' (sn_ema21_5m sn) @ level_named ''ORH'' (sn_or_high sn)
            @ level_named ''ORL'' (sn_or_low sn))"

text \<open>\<open>min(candidates, key=...)\<close>: the first of the least.\<close>

definition level_gap :: "dec \<Rightarrow> dec \<Rightarrow> rat" where
  "level_gap price lvl = \<bar>fl (dq (price - lvl))\<bar>"

fun nearest_zone :: "dec \<Rightarrow> (string \<times> dec) list \<Rightarrow> (string \<times> dec) option" where
  "nearest_zone price [] = None"
| "nearest_zone price (c # cs) =
     (case nearest_zone price cs of
        None \<Rightarrow> Some c
      | Some d \<Rightarrow> Some (if level_gap price (snd c) \<le> level_gap price (snd d) then c else d))"

definition build_context :: "context_state \<Rightarrow> bar_event \<Rightarrow> bar_snapshot option \<Rightarrow> context_snapshot" where
  "build_context st bar feat =
     (let price = be_close bar;
          live = (\<lambda>f. case feat of None \<Rightarrow> None | Some sn \<Rightarrow> f sn);
          distance = map_option (\<lambda>lvl. fl (dq (price - lvl)));
          zone = nearest_zone price (war_zone_candidates st feat)
      in \<lparr>cx_symbol = be_symbol bar, cx_timestamp = be_timestamp bar, cx_onh = kx_onh st, cx_onl = kx_onl st,
          cx_pdh = kx_pdh st, cx_pdl = kx_pdl st, cx_prev_rth_close = kx_prev_rth_close st,
          cx_rth_open = kx_rth_open st, cx_gap_points = kx_gap_points st, cx_gap_pct = kx_gap_pct st,
          cx_gap_midpoint = kx_gap_midpoint st, cx_orb_high = live sn_or_high, cx_orb_low = live sn_or_low,
          cx_or_mid = live sn_or_mid, cx_nearest_war_zone = map_option fst zone,
          cx_nearest_war_zone_price = map_option snd zone,
          cx_nearest_war_zone_dist = map_option (\<lambda>z. level_gap price (snd z)) zone,
          cx_dist_to_onl = distance (kx_onl st), cx_dist_to_onh = distance (kx_onh st),
          cx_dist_to_pdl = distance (kx_pdl st), cx_dist_to_pdh = distance (kx_pdh st),
          cx_dist_to_vwap = distance (live (\<lambda>sn. Some (sn_vwap sn))), cx_dist_to_5m21 = distance (live sn_ema21_5m),
          cx_dist_to_orb_high = distance (live sn_or_high), cx_dist_to_orb_low = distance (live sn_or_low),
          cx_dist_to_prev_close = distance (kx_prev_rth_close st)\<rparr>)"

text \<open>\<open>get_context\<close>; \<open>feature\<close> is the feature engine's \<open>get_snapshot\<close> when one is set.\<close>

definition get_context ::
  "context_engine \<Rightarrow> (string \<Rightarrow> bar_snapshot option) option \<Rightarrow> string \<Rightarrow> context_snapshot option" where
  "get_context e feature s =
     (case (ke_states e s, ke_last_bars e s) of
        (Some st, Some bar) \<Rightarrow> Some (build_context st bar (case feature of None \<Rightarrow> None | Some f \<Rightarrow> f s))
      | _ \<Rightarrow> None)"

section \<open>Sessions of a history\<close>

text \<open>The history cut where the session key changes.\<close>

definition add_run :: "('a \<Rightarrow> 'k) \<Rightarrow> 'a list list \<Rightarrow> 'a \<Rightarrow> 'a list list" where
  "add_run key runs x =
     (if runs \<noteq> [] \<and> key (last (last runs)) = key x then butlast runs @ [last runs @ [x]] else runs @ [[x]])"

definition runs_of :: "('a \<Rightarrow> 'k) \<Rightarrow> 'a list \<Rightarrow> 'a list list" where
  "runs_of key h = foldl (add_run key) [] h"

lemma runs_of_snoc: "runs_of key (h @ [x]) = add_run key (runs_of key h) x"
  by (simp add: runs_of_def)

lemma add_run_last: "last (last (add_run key runs x)) = x" "add_run key runs x \<noteq> []"
  by (simp_all add: add_run_def)

lemma runs_of_concat: "concat (runs_of key h) = h"
proof (induction h rule: rev_induct)
  case (snoc x h)
  have "concat (add_run key runs x) = concat runs @ [x]" for runs
    by (cases runs rule: rev_cases) (auto simp: add_run_def)
  with snoc show ?case by (simp add: runs_of_snoc)
qed (simp add: runs_of_def)

lemma runs_of_last: "h \<noteq> [] \<Longrightarrow> runs_of key h \<noteq> [] \<and> last (last (runs_of key h)) = last h"
  by (cases h rule: rev_cases) (simp_all add: runs_of_snoc add_run_last)

text \<open>What a session's bars say.\<close>

definition pre_bars :: "session_calendar \<Rightarrow> bar_event list \<Rightarrow> bar_event list" where
  "pre_bars cal bars = [b \<leftarrow> bars. phase_of cal b = Phase_PRE_MARKET]"

definition rth_bars :: "session_calendar \<Rightarrow> bar_event list \<Rightarrow> bar_event list" where
  "rth_bars cal bars = [b \<leftarrow> bars. is_rth_phase (phase_of cal b)]"

text \<open>The cash bars of the last earlier session that had any.\<close>

definition prior_rth :: "session_calendar \<Rightarrow> bar_event list list \<Rightarrow> bar_event list" where
  "prior_rth cal sessions =
     (let rs = [r \<leftarrow> map (rth_bars cal) sessions. r \<noteq> []] in if rs = [] then [] else last rs)"

definition close_of :: "bar_event list \<Rightarrow> dec option" where
  "close_of bars = (if bars = [] then None else Some (be_close (last bars)))"

definition levels_ok :: "session_calendar \<Rightarrow> bar_event list list \<Rightarrow> bar_event list \<Rightarrow> context_state \<Rightarrow> bool" where
  "levels_ok cal earlier now st \<longleftrightarrow>
     (let pre = pre_bars cal now; rth = rth_bars cal now; prior = prior_rth cal earlier
      in kx_onh st = max_of (map be_high pre) \<and> kx_onl st = min_of (map be_low pre)
         \<and> kx_pdh st = max_of (map be_high prior) \<and> kx_pdl st = min_of (map be_low prior)
         \<and> kx_prev_rth_close st = close_of prior
         \<and> kx_rth_open st = (if rth = [] then None else Some (be_open (hd rth)))
         \<and> kx_cur_rth_high st = max_of (map be_high rth) \<and> kx_cur_rth_low st = min_of (map be_low rth)
         \<and> kx_cur_rth_close st = close_of rth)"

lemma prior_rth_snoc: "prior_rth cal (sessions @ [r]) = (if rth_bars cal r = [] then prior_rth cal sessions else rth_bars cal r)"
  by (simp add: prior_rth_def Let_def)

lemma levels_roll:
  "levels_ok cal earlier now st \<Longrightarrow> levels_ok cal (earlier @ [now]) [] ((rollover st)\<lparr>kx_session_key := k\<rparr>)"
  by (auto simp: levels_ok_def Let_def rollover_def prior_rth_snoc or_keep_def pre_bars_def rth_bars_def close_of_def
      max_of_def min_of_def)

lemma rth_opening_frame [simp]:
  "kx_cur_rth_high (rth_opening st bar) = kx_cur_rth_high st" "kx_cur_rth_low (rth_opening st bar) = kx_cur_rth_low st"
  "kx_onh (rth_opening st bar) = kx_onh st" "kx_onl (rth_opening st bar) = kx_onl st"
  "kx_pdh (rth_opening st bar) = kx_pdh st" "kx_pdl (rth_opening st bar) = kx_pdl st"
  "kx_prev_rth_close (rth_opening st bar) = kx_prev_rth_close st"
  "kx_session_key (rth_opening st bar) = kx_session_key st"
  "kx_rth_open (rth_opening st bar) = (if kx_rth_open st = None then Some (be_open bar) else kx_rth_open st)"
  by (simp_all add: rth_opening_def split: option.split prod.split)

definition context_body :: "session_calendar \<Rightarrow> context_state \<Rightarrow> bar_event \<Rightarrow> context_state" where
  "context_body cal st bar =
     (let st = (if phase_of cal bar = Phase_PRE_MARKET then overnight st bar else st)
      in if is_rth_phase (phase_of cal bar) then rth_accumulate (rth_opening st bar) bar else st)"

lemma context_bar_body: "context_bar cal st bar = context_body cal (context_roll cal st bar) bar"
  by (simp add: context_bar_def context_body_def phase_of_def Let_def)

lemma levels_body:
  assumes "levels_ok cal earlier now st"
  shows "levels_ok cal earlier (now @ [bar]) (context_body cal st bar)"
proof -
  consider (pre) "phase_of cal bar = Phase_PRE_MARKET" "\<not> is_rth_phase (phase_of cal bar)"
    | (rth) "is_rth_phase (phase_of cal bar)" "phase_of cal bar \<noteq> Phase_PRE_MARKET"
    | (idle) "\<not> is_rth_phase (phase_of cal bar)" "phase_of cal bar \<noteq> Phase_PRE_MARKET"
    by (auto simp: is_rth_phase_def)
  then show ?thesis
  proof cases
    case pre
    with assms show ?thesis
      by (simp add: levels_ok_def context_body_def overnight_def pre_bars_def rth_bars_def max_of_snoc min_of_snoc Let_def)
  next
    case rth
    with assms show ?thesis
      by (simp add: levels_ok_def context_body_def rth_accumulate_def pre_bars_def rth_bars_def max_of_snoc min_of_snoc
          close_of_def Let_def)
  next
    case idle
    with assms show ?thesis
      by (simp add: levels_ok_def context_body_def pre_bars_def rth_bars_def)
  qed
qed

definition context_run :: "session_calendar \<Rightarrow> bar_event list \<Rightarrow> context_state" where
  "context_run cal bars = foldl (context_bar cal) context_state_new bars"

abbreviation bar_key :: "session_calendar \<Rightarrow> bar_event \<Rightarrow> date" where
  "bar_key cal b \<equiv> session_key cal (be_timestamp b)"

lemma context_body_key [simp]: "kx_session_key (context_body cal st bar) = kx_session_key st"
  by (simp add: context_body_def overnight_def rth_accumulate_def Let_def)

lemma context_run_levels:
  "bars \<noteq> [] \<Longrightarrow>
   levels_ok cal (butlast (runs_of (bar_key cal) bars)) (last (runs_of (bar_key cal) bars)) (context_run cal bars)
   \<and> kx_session_key (context_run cal bars) = Some (bar_key cal (last bars))"
proof (induction bars rule: rev_induct)
  case (snoc bar bars)
  define st where "st = context_run cal bars"
  define rs where "rs = runs_of (bar_key cal) bars"
  have run: "context_run cal (bars @ [bar]) = context_body cal (context_roll cal st bar) bar"
    by (simp add: context_run_def st_def context_bar_body)
  show ?case
  proof (cases "bars = []")
    case True
    have "levels_ok cal [] [] ((rollover st)\<lparr>kx_session_key := Some (bar_key cal bar)\<rparr>)"
      by (simp add: st_def context_run_def True context_state_new_def levels_ok_def rollover_def or_keep_def
          pre_bars_def rth_bars_def prior_rth_def close_of_def)
    moreover have "st = context_state_new" by (simp add: st_def context_run_def True)
    moreover have "runs_of (bar_key cal) (bars @ [bar]) = [[bar]]" by (simp add: True runs_of_def add_run_def)
    ultimately show ?thesis
      using levels_body [of cal "[]" "[]" _ bar] unfolding run
      by (simp add: context_roll_def context_state_new_def)
  next
    case False
    with snoc have ih: "levels_ok cal (butlast rs) (last rs) st" "kx_session_key st = Some (bar_key cal (last bars))"
      by (simp_all add: st_def rs_def)
    have rs: "rs \<noteq> []" "last (last rs) = last bars" using runs_of_last [OF False, of "bar_key cal"] by (simp_all add: rs_def)
    have new: "runs_of (bar_key cal) (bars @ [bar]) = add_run (bar_key cal) rs bar" by (simp add: runs_of_snoc rs_def)
    show ?thesis
    proof (cases "bar_key cal (last bars) = bar_key cal bar")
      case True
      with ih levels_body [OF ih(1), of bar] rs show ?thesis
        by (simp add: run new context_roll_def add_run_def)
    next
      case False
      from levels_body [OF levels_roll [OF ih(1), of "Some (bar_key cal bar)"], of bar] False ih rs show ?thesis
        by (simp add: run new context_roll_def add_run_def)
    qed
  qed
qed simp

text \<open>
  C11. The session levels are what the history says: after any bars of a symbol, the overnight high and low are the
  extremes of the current session's pre-market bars, the previous day's high, low and close those of the cash bars
  of the last earlier session that had any (weekends and sessions without cash trading are skipped), the
  open the first cash bar's.
\<close>

theorem context_levels_are_history:
  "levels_ok cal (butlast (runs_of (bar_key cal) (bars @ [bar]))) (last (runs_of (bar_key cal) (bars @ [bar])))
     (context_run cal (bars @ [bar]))"
  using context_run_levels [of "bars @ [bar]" cal] by simp

section \<open>The nearest war zone\<close>

lemma nearest_zone_least:
  "nearest_zone price cs = Some z \<Longrightarrow> z \<in> set cs \<and> list_all (\<lambda>c. level_gap price (snd z) \<le> level_gap price (snd c)) cs"
proof (induction cs arbitrary: z)
  case (Cons c cs)
  show ?case
  proof (cases "nearest_zone price cs")
    case None
    then have "cs = []" by (cases cs) (simp_all split: option.splits)
    with Cons.prems show ?thesis by simp
  next
    case (Some d)
    from Cons.IH [OF this] Cons.prems Some show ?thesis
      by (auto simp: list_all_iff split: if_splits)
  qed
qed simp

lemma nearest_zone_None: "nearest_zone price cs = None \<longleftrightarrow> cs = []"
  by (cases cs) (simp_all split: option.split)

text \<open>
  The nearest war zone of a context is one of the known levels, no other known level is closer to the price, and
  it is missing exactly when no level is known.
\<close>

theorem nearest_war_zone_is_nearest:
  "case cx_nearest_war_zone (build_context st bar feat) of
     None \<Rightarrow> war_zone_candidates st feat = []
   | Some n \<Rightarrow>
       \<exists>lvl. cx_nearest_war_zone_price (build_context st bar feat) = Some lvl
         \<and> (n, lvl) \<in> set (war_zone_candidates st feat)
         \<and> cx_nearest_war_zone_dist (build_context st bar feat) = Some (level_gap (be_close bar) lvl)
         \<and> list_all (\<lambda>c. level_gap (be_close bar) lvl \<le> level_gap (be_close bar) (snd c)) (war_zone_candidates st feat)"
proof (cases "nearest_zone (be_close bar) (war_zone_candidates st feat)")
  case None
  then show ?thesis by (simp add: build_context_def Let_def nearest_zone_None)
next
  case (Some z)
  with nearest_zone_least [OF Some] show ?thesis by (simp add: build_context_def Let_def)
qed

end
