(* ===== verification/Pipeline.thy ===== *)
theory Pipeline
  imports Scoring Market_State Thesis_Engine Context_Engine Position_Monitor
begin

text \<open>
  The bar pipeline, \<^verbatim>\<open>src/alpha/engines/flow/pipeline.py\<close>: one sealed minute bar goes through the
  feature, market state, thesis, setup and scoring engines in order and one output event is published. The state is the
  five engines, each present when registered; a stage is the model of its engine. As wired by the
  bootstrap, the thesis engine reads the VWAP memory of the same feature engine, and the context engine, which has its own
  bus subscription, is read by the setup stage. An exception leaves the pipeline with what the stages did so far
  and no output. Timings and the latency warning only log.
\<close>

section \<open>State and events\<close>

record bar_pipeline =
  pl_feature :: "feature_engine option"
  pl_market_state :: "market_state_engine option"
  pl_thesis :: "thesis_engine option"
  pl_setup :: "setup_engine option"
  pl_scoring :: "scoring_engine option"

definition pipeline_new :: bar_pipeline where
  "pipeline_new = \<lparr>pl_feature = None, pl_market_state = None, pl_thesis = None, pl_setup = None, pl_scoring = None\<rparr>"

text \<open>The registrations; the setup engine's own flag only guards its bus handler.\<close>

definition set_feature_engine :: "bar_pipeline \<Rightarrow> feature_engine \<Rightarrow> bar_pipeline" where
  "set_feature_engine p e = p\<lparr>pl_feature := Some (e\<lparr>fe_pipeline_mode := True\<rparr>)\<rparr>"

definition set_market_state_engine :: "bar_pipeline \<Rightarrow> market_state_engine \<Rightarrow> bar_pipeline" where
  "set_market_state_engine p e = p\<lparr>pl_market_state := Some (e\<lparr>me_pipeline_mode := True\<rparr>)\<rparr>"

definition set_thesis_engine :: "bar_pipeline \<Rightarrow> thesis_engine \<Rightarrow> bar_pipeline" where
  "set_thesis_engine p e = p\<lparr>pl_thesis := Some (e\<lparr>th_pipeline_mode := True\<rparr>)\<rparr>"

definition set_setup_engine :: "bar_pipeline \<Rightarrow> setup_engine \<Rightarrow> bar_pipeline" where
  "set_setup_engine p e = p\<lparr>pl_setup := Some e\<rparr>"

definition set_scoring_engine :: "bar_pipeline \<Rightarrow> scoring_engine \<Rightarrow> bar_pipeline" where
  "set_scoring_engine p e = p\<lparr>pl_scoring := Some (e\<lparr>se_pipeline_mode := True\<rparr>)\<rparr>"

text \<open>What a bar is processed with: the engines' settings, fresh identifiers with the wall clock, the context engine.\<close>

record pipeline_env =
  pv_feature :: feature_env
  pv_ids :: thesis_ids
  pv_calendar :: "string \<Rightarrow> session_calendar"
  pv_mk_id :: "string \<Rightarrow> setup_type \<Rightarrow> timestamp \<Rightarrow> uuid"
  pv_context :: "context_engine option"

record pipeline_output =
  po_symbol :: string
  po_timestamp :: timestamp
  po_pipeline_ts :: timestamp
  po_bar_snapshot :: bar_snapshot
  po_flow_context :: "bar_flow_context option"
  po_market_state :: "market_state option"
  po_thesis :: "active_thesis option"
  po_setups :: "trade_setup list"
  po_scored_setups :: "trade_setup list"
  po_metadata :: event_metadata

datatype pipeline_event =
  Market_state_published market_state_event
| Thesis_published thesis_event
| Setup_published setup_event
| Output_published pipeline_output
| Bar_republished bar_event

datatype pipeline_error = Feature_failed feature_error | Thesis_failed thesis_error

section \<open>The stages\<close>

definition market_stage ::
  "bar_pipeline \<Rightarrow> bar_snapshot \<Rightarrow> bar_bundle \<Rightarrow> bar_pipeline \<times> market_state option \<times> pipeline_event list" where
  "market_stage p snap bundle =
     (case pl_market_state p of
        None \<Rightarrow> (p, None, [])
      | Some me \<Rightarrow>
          (case market_state_process_bar me snap bundle of
             (me, ms, out) \<Rightarrow> (p\<lparr>pl_market_state := Some me\<rparr>, Some ms, map Market_state_published out)))"

definition thesis_stage ::
  "pipeline_env \<Rightarrow> bar_pipeline \<Rightarrow> bar_snapshot \<Rightarrow> market_state option \<Rightarrow> bar_bundle \<Rightarrow>
   bar_pipeline \<times> (thesis_error + active_thesis option \<times> pipeline_event list)" where
  "thesis_stage v p snap ms bundle =
     (case (pl_thesis p, ms) of
        (Some te, Some _) \<Rightarrow>
          (let level = (case pl_feature p of
                          None \<Rightarrow> None
                        | Some fe \<Rightarrow> get_level_memory fe (ti_now (pv_ids v)) (bb_symbol bundle))
           in case thesis_process_bar (pv_ids v) te level snap bundle of
                (te, Inl err) \<Rightarrow> (p\<lparr>pl_thesis := Some te\<rparr>, Inl err)
              | (te, Inr (active, event)) \<Rightarrow>
                  (p\<lparr>pl_thesis := Some te\<rparr>,
                   Inr (active, case event of None \<Rightarrow> [] | Some x \<Rightarrow> [Thesis_published x])))
      | _ \<Rightarrow> (p, Inr (None, [])))"

definition context_of :: "pipeline_env \<Rightarrow> bar_pipeline \<Rightarrow> context_lookup" where
  "context_of v p = map_option (\<lambda>c. get_context c (map_option get_snapshot (pl_feature p))) (pv_context v)"

definition setup_stage ::
  "pipeline_env \<Rightarrow> bar_pipeline \<Rightarrow> bar_snapshot \<Rightarrow> market_state option \<Rightarrow> bar_bundle \<Rightarrow>
   bar_pipeline \<times> trade_setup list \<times> pipeline_event list" where
  "setup_stage v p snap ms bundle =
     (case (pl_setup p, ms) of
        (Some su, Some ms) \<Rightarrow>
          (case setup_process_bar (pv_calendar v (bb_symbol bundle)) (pv_mk_id v) (context_of v p) su snap ms bundle of
             (su, out) \<Rightarrow> (p\<lparr>pl_setup := Some su\<rparr>, active_setups su (bb_symbol bundle), map Setup_published out))
      | _ \<Rightarrow> (p, [], []))"

text \<open>The scoring engine writes its scores into the setup engine's table.\<close>

definition scoring_stage :: "bar_pipeline \<Rightarrow> bar_snapshot \<Rightarrow> trade_setup list \<Rightarrow> bar_pipeline" where
  "scoring_stage p snap setups =
     (case (pl_scoring p, pl_setup p) of
        (Some sc, Some su) \<Rightarrow>
          (if setups = [] then p
           else case score_bar sc su snap setups of (sc, su, _) \<Rightarrow> p\<lparr>pl_scoring := Some sc, pl_setup := Some su\<rparr>)
      | _ \<Rightarrow> p)"

section \<open>One bar\<close>

definition stage_output ::
  "pipeline_env \<Rightarrow> bar_snapshot \<Rightarrow> bar_bundle \<Rightarrow> market_state option \<Rightarrow> active_thesis option \<Rightarrow> trade_setup list \<Rightarrow>
   pipeline_output" where
  "stage_output v snap bundle ms thesis setups =
     \<lparr>po_symbol = bb_symbol bundle, po_timestamp = bb_timestamp bundle, po_pipeline_ts = ti_now (pv_ids v),
      po_bar_snapshot = snap, po_flow_context = bb_flow bundle, po_market_state = ms, po_thesis = thesis,
      po_setups = setups, po_scored_setups = [x \<leftarrow> setups. ts_grade x \<noteq> None], po_metadata = bb_metadata bundle\<rparr>"

text \<open>The stages after the feature engine, and the output.\<close>

definition pipeline_rest ::
  "pipeline_env \<Rightarrow> bar_pipeline \<Rightarrow> bar_snapshot \<Rightarrow> bar_bundle \<Rightarrow>
   bar_pipeline \<times> pipeline_event list \<times> pipeline_error option" where
  "pipeline_rest v p snap bundle =
     (case market_stage p snap bundle of
        (p, ms, market_events) \<Rightarrow>
          (case thesis_stage v p snap ms bundle of
             (p, Inl err) \<Rightarrow> (p, market_events, Some (Thesis_failed err))
           | (p, Inr (thesis, thesis_events)) \<Rightarrow>
               (case setup_stage v p snap ms bundle of
                  (p, setups, setup_events) \<Rightarrow>
                    (let p = scoring_stage p snap setups
                     in (p,
                         market_events @ thesis_events @ setup_events
                         @ Output_published (stage_output v snap bundle ms thesis setups)
                         # (if pl_thesis p = None \<or> pl_setup p = None \<or> ms = None
                            then [Bar_republished (to_bar_event bundle)] else []),
                         None)))))"

definition pipeline_process ::
  "pipeline_env \<Rightarrow> bar_pipeline \<Rightarrow> bar_bundle \<Rightarrow> bar_pipeline \<times> pipeline_event list \<times> pipeline_error option" where
  "pipeline_process v p bundle =
     (if bb_timeframe bundle \<noteq> TF_M1 then (p, [], None)
      else case pl_feature p of
        None \<Rightarrow> (p, [], None)
      | Some fe \<Rightarrow>
          (case feature_process_bar (pv_feature v) fe bundle of
             (fe, Inl err) \<Rightarrow> (p\<lparr>pl_feature := Some fe\<rparr>, [], Some (Feature_failed err))
           | (fe, Inr None) \<Rightarrow> (p\<lparr>pl_feature := Some fe\<rparr>, [], None)
           | (fe, Inr (Some snap)) \<Rightarrow> pipeline_rest v (p\<lparr>pl_feature := Some fe\<rparr>) snap bundle))"

text \<open>The bar after bar run; between bars the engines change only through their own handlers.\<close>

fun pipeline_run ::
  "bar_pipeline \<Rightarrow> (pipeline_env \<times> bar_bundle) list \<Rightarrow> bar_pipeline \<times> pipeline_event list" where
  "pipeline_run p [] = (p, [])"
| "pipeline_run p ((v, b) # bs) =
     (case pipeline_process v p b of (p, out, _) \<Rightarrow>
        (case pipeline_run p bs of (p, out') \<Rightarrow> (p, out @ out')))"

text \<open>What the position monitor reads of a scored setup.\<close>

definition scored_view :: "trade_setup \<Rightarrow> scored_setup" where
  "scored_view x =
     \<lparr>sc_setup_id = ts_setup_id x, sc_setup_type = ts_setup_type x, sc_grade = ts_grade x,
      sc_entry_trigger = ts_entry_trigger x, sc_stop_reference = ts_stop_reference x,
      sc_target_reference = ts_target_reference x\<rparr>"

section \<open>Grades reach the output one bar late\<close>

definition scored_as ::
  "int \<times> setup_grade \<times> score_reason list \<times> score_reason list \<Rightarrow> trade_setup \<Rightarrow> trade_setup" where
  "scored_as r x =
     x\<lparr>ts_score := Some (fl (of_int (fst r))), ts_grade := Some (fst (snd r)), ts_conditions_met := fst (snd (snd r)),
       ts_conditions_missing := [], ts_score_reasons := fst (snd (snd r)), ts_score_penalties := snd (snd (snd r))\<rparr>"

lemma apply_score_lookup:
  "map_of (su_active (apply_score su s k r) s) k' =
     (if k' = k then map_option (scored_as r) (map_of (su_active su s) k) else map_of (su_active su s) k')"
  by (auto simp: apply_score_def patch_setup_score_def scored_as_def update_conv' Let_def
      split: option.split prod.split)

lemma score_one_lookup:
  "ts_symbol x = s \<Longrightarrow>
   map_of (su_active (snd (score_one snap (e, su) x)) s) k =
     (if k = ts_setup_id x \<and> ts_state x = SState_CONFIRMED \<and> ts_grade x = None
      then map_option (scored_as (compute_score x (Some snap))) (map_of (su_active su s) k)
      else map_of (su_active su s) k)"
  by (auto simp: score_one_def apply_score_lookup)

lemma score_fold_other:
  "\<forall>x \<in> set xs. ts_symbol x = s \<Longrightarrow> k \<notin> ts_setup_id ` set xs \<Longrightarrow>
   map_of (su_active (snd (foldl (score_one snap) (e, su) xs)) s) k = map_of (su_active su s) k"
proof (induction xs arbitrary: e su)
  case (Cons x xs)
  obtain e' su' where st: "score_one snap (e, su) x = (e', su')" by (cases "score_one snap (e, su) x")
  with score_one_lookup [of x s snap e su k] Cons.prems have "map_of (su_active su' s) k = map_of (su_active su s) k" by auto
  with Cons st show ?case by simp
qed simp

lemma score_fold_hit:
  "distinct (map ts_setup_id xs) \<Longrightarrow> \<forall>x \<in> set xs. ts_symbol x = s \<Longrightarrow> x \<in> set xs \<Longrightarrow>
   ts_state x = SState_CONFIRMED \<Longrightarrow> ts_grade x = None \<Longrightarrow>
   map_of (su_active (snd (foldl (score_one snap) (e, su) xs)) s) (ts_setup_id x) =
     map_option (scored_as (compute_score x (Some snap))) (map_of (su_active su s) (ts_setup_id x))"
proof (induction xs arbitrary: e su)
  case (Cons y ys)
  obtain e' su' where st: "score_one snap (e, su) y = (e', su')" by (cases "score_one snap (e, su) y")
  note look = score_one_lookup [of y s snap e su "ts_setup_id x", unfolded st snd_conv]
  show ?case
  proof (cases "x = y")
    case True
    with Cons.prems have "ts_setup_id x \<notin> ts_setup_id ` set ys" by auto
    from score_fold_other [OF _ this, of s snap e' su'] Cons.prems look True st show ?thesis by simp
  next
    case False
    with Cons.prems(3) have "x \<in> set ys" by simp
    with Cons.prems(1) have "ts_setup_id x \<noteq> ts_setup_id y" by (auto simp: image_iff)
    with Cons.IH [of e' su'] Cons.prems False look st show ?thesis by simp
  qed
qed simp

lemma table_lists:
  assumes "table_shape s (su_active su s)"
  shows "map ts_setup_id (active_setups su s) = map fst (su_active su s)"
    "\<forall>x \<in> set (active_setups su s). ts_symbol x = s"
    and "x \<in> set (active_setups su s) \<Longrightarrow> map_of (su_active su s) (ts_setup_id x) = Some x"
proof -
  show "map ts_setup_id (active_setups su s) = map fst (su_active su s)"
    using assms by (auto simp: table_shape_def active_setups_def list_all_iff)
  show "\<forall>x \<in> set (active_setups su s). ts_symbol x = s"
    using assms by (auto simp: table_shape_def active_setups_def list_all_iff)
  assume "x \<in> set (active_setups su s)"
  then obtain k where "(k, x) \<in> set (su_active su s)" by (auto simp: active_setups_def)
  moreover from this assms have "ts_setup_id x = k" by (auto simp: table_shape_def list_all_iff)
  ultimately show "map_of (su_active su s) (ts_setup_id x) = Some x" using assms by (simp add: table_shape_def)
qed

lemma pending_ids:
  "w \<in> set (pending_of (on_pipeline_output m s scored) s) \<Longrightarrow> wa_setup_id w \<in> sc_setup_id ` set scored"
  by (rule pending_after_output) (auto simp: qualifying_setup_def split: option.splits if_splits)

lemma market_stage_frame:
  assumes "market_stage p snap bundle = (p', ms, ev)"
  shows "pl_setup p' = pl_setup p" "pl_scoring p' = pl_scoring p" "Output_published out \<notin> set ev"
  using assms by (auto simp: market_stage_def split: option.splits prod.splits)

lemma thesis_stage_frame:
  assumes "thesis_stage v p snap ms bundle = (p', r)"
  shows "pl_setup p' = pl_setup p" "pl_scoring p' = pl_scoring p"
    "r = Inr (th, ev) \<Longrightarrow> Output_published out \<notin> set ev"
proof -
  have "pl_setup p' = pl_setup p \<and> pl_scoring p' = pl_scoring p \<and> (r = Inr (th, ev) \<longrightarrow> Output_published out \<notin> set ev)"
  proof (cases "pl_thesis p = None \<or> ms = None")
    case True
    with assms show ?thesis by (auto simp: thesis_stage_def split: option.splits)
  next
    case False
    then obtain te mst where te: "pl_thesis p = Some te" "ms = Some mst" by auto
    define level where "level = (case pl_feature p of None \<Rightarrow> None
      | Some fe \<Rightarrow> get_level_memory fe (ti_now (pv_ids v)) (bb_symbol bundle))"
    obtain te' q where "thesis_process_bar (pv_ids v) te level snap bundle = (te', q)" by fastforce
    with assms te show ?thesis
      by (cases q) (auto simp: thesis_stage_def level_def [symmetric] Let_def split: option.splits)
  qed
  then show "pl_setup p' = pl_setup p" "pl_scoring p' = pl_scoring p"
    "r = Inr (th, ev) \<Longrightarrow> Output_published out \<notin> set ev" by blast+
qed

lemma setup_stage_frame:
  assumes "setup_stage v p snap ms bundle = (p', setups, ev)"
  shows "Output_published out \<notin> set ev"
  using assms by (auto simp: setup_stage_def split: option.splits prod.splits)

lemma rest_output:
  assumes "pipeline_rest v p snap bundle = (p', events, err)" "Output_published out \<in> set events"
  obtains p1 ms p2 su where "setup_stage v p1 snap ms bundle = (p2, po_setups out, su)"
    "pl_setup p1 = pl_setup p" "pl_scoring p1 = pl_scoring p" "p' = scoring_stage p2 snap (po_setups out)"
    "po_bar_snapshot out = snap" "po_symbol out = bb_symbol bundle"
    "po_scored_setups out = [x \<leftarrow> po_setups out. ts_grade x \<noteq> None]" "po_market_state out = ms"
proof -
  obtain p1 ms ev1 where m: "market_stage p snap bundle = (p1, ms, ev1)" by (metis prod_cases3)
  note p1 = market_stage_frame [OF m]
  obtain p2 r where t: "thesis_stage v p1 snap ms bundle = (p2, r)" by fastforce
  note p2 = thesis_stage_frame [OF t]
  have "\<exists>th ev2. r = Inr (th, ev2)"
  proof (cases r)
    case (Inl e)
    then have "pipeline_rest v p snap bundle = (p2, ev1, Some (Thesis_failed e))" by (simp add: pipeline_rest_def m t)
    with assms p1(3) show ?thesis by simp
  qed fastforce
  then obtain th ev2 where r: "r = Inr (th, ev2)" by blast
  with p2(3) have ev2: "Output_published out \<notin> set ev2" by simp
  obtain p3 setups ev3 where s: "setup_stage v p2 snap ms bundle = (p3, setups, ev3)" by (metis prod_cases3)
  note ev3 = setup_stage_frame [OF s]
  have "\<exists>tail. pipeline_rest v p snap bundle = (scoring_stage p3 snap setups,
      ev1 @ ev2 @ ev3 @ Output_published (stage_output v snap bundle ms th setups) # tail, None)
      \<and> Output_published out \<notin> set tail"
    by (simp add: pipeline_rest_def m t r s Let_def)
  then have o: "out = stage_output v snap bundle ms th setups" "p' = scoring_stage p3 snap setups"
    using assms p1(3) ev2 ev3 by auto
  show ?thesis
    by (rule that [of p2 ms p3 ev3]) (use s o p1 p2 in \<open>simp_all add: stage_output_def\<close>)
qed

text \<open>
  A grade reaches the position monitor one bar late: when the pipeline processes a bar, every
  confirmed setup that has no grade yet is scored in the setup engine's table, but the published
  output does not list it as scored, and the watch list the position monitor builds from that
  output does not hold it.
\<close>

theorem grade_misses_its_bar:
  assumes "pipeline_rest v p snap bundle = (p', events, None)" "Output_published out \<in> set events"
    and "pl_setup p = Some su" "tables_ok su" "pl_scoring p \<noteq> None" "x \<in> set (po_setups out)"
    and "ts_state x = SState_CONFIRMED" "ts_grade x = None"
  shows "x \<notin> set (po_scored_setups out)
    \<and> (\<forall>m. list_all (\<lambda>w. wa_setup_id w \<noteq> ts_setup_id x)
         (pending_of (on_pipeline_output m (po_symbol out) (map scored_view (po_scored_setups out))) (po_symbol out)))
    \<and> (\<exists>su'. pl_setup p' = Some su' \<and> map_of (su_active su' (po_symbol out)) (ts_setup_id x)
         = Some (scored_as (compute_score x (Some snap)) x))"
proof -
  let ?s = "bb_symbol bundle"
  obtain p1 ms p2 ev where st: "setup_stage v p1 snap ms bundle = (p2, po_setups out, ev)"
    and p1: "pl_setup p1 = pl_setup p" "pl_scoring p1 = pl_scoring p" and p': "p' = scoring_stage p2 snap (po_setups out)"
    and "po_bar_snapshot out = snap"
    and out: "po_symbol out = ?s" "po_scored_setups out = [x \<leftarrow> po_setups out. ts_grade x \<noteq> None]"
    and "po_market_state out = ms"
    by (rule rest_output [OF assms(1,2)])
  obtain mst where ms: "ms = Some mst"
    using st assms(6) by (cases ms) (auto simp: setup_stage_def split: option.splits)
  obtain su1 evs where
    pb: "setup_process_bar (pv_calendar v ?s) (pv_mk_id v) (context_of v p1) su snap mst bundle = (su1, evs)"
    by fastforce
  have p2: "p2 = p1\<lparr>pl_setup := Some su1\<rparr>" and xs: "po_setups out = active_setups su1 ?s"
    using st by (simp_all add: setup_stage_def p1 assms(3) ms pb)
  from process_bar_tables [OF assms(4) pb] have ok: "table_shape ?s (su_active su1 ?s)" by (simp add: tables_ok_def)
  note lists = table_lists [OF ok]
  have dist: "distinct (map ts_setup_id (active_setups su1 ?s))" using ok lists(1) by (simp add: table_shape_def)
  have x: "x \<in> set (active_setups su1 ?s)" using assms(6) xs by simp
  have ids: "ts_setup_id x \<notin> ts_setup_id ` set (po_scored_setups out)"
    using dist x assms(8) by (auto simp: out xs distinct_map inj_on_def)
  have w: "list_all (\<lambda>w. wa_setup_id w \<noteq> ts_setup_id x)
      (pending_of (on_pipeline_output m ?s (map scored_view (po_scored_setups out))) ?s)" for m
    using ids by (auto simp: list_all_iff scored_view_def dest!: pending_ids)
  obtain sc where sc: "pl_scoring p2 = Some sc" using assms(5) p1(2) p2 by auto
  obtain e' su' where fold: "foldl (score_one snap) (sc, su1) (active_setups su1 ?s) = (e', su')" by fastforce
  with score_fold_hit [OF dist lists(2) x assms(7,8), of snap sc su1] lists(3) [OF x]
  have tab: "map_of (su_active su' ?s) (ts_setup_id x) = Some (scored_as (compute_score x (Some snap)) x)" by simp
  have "active_setups su1 ?s \<noteq> []" using x by auto
  then have "pl_setup p' = Some su'" using sc p2 fold by (simp add: p' xs scoring_stage_def score_bar_def)
  with tab w ids out show ?thesis by auto
qed

definition sample_pipeline :: bar_pipeline where
  "sample_pipeline =
     set_scoring_engine (set_setup_engine (set_market_state_engine pipeline_new market_state_engine_init) setup_engine_init)
       \<lparr>se_scored_total = 0, se_pipeline_mode = False\<rparr>"

definition sample_pipeline_env :: pipeline_env where
  "sample_pipeline_env =
     (let cal = nyse_calendar \<lparr>zn_to_et = id, zn_from_et = id\<rparr> (\<lambda>_. True)
      in \<lparr>pv_feature = \<lparr>fv_registry = empty_registry, fv_calendar = cal, fv_nyse = cal, fv_cme = cal, fv_orb_minutes = 5,
          fv_profiles = \<lambda>_ _ _. None, fv_max_lookback_days = 0\<rparr>,
          pv_ids = sample_ids, pv_calendar = \<lambda>_. cal, pv_mk_id = \<lambda>s t ts. s, pv_context = None\<rparr>)"

abbreviation sample_rest :: "bar_pipeline \<times> pipeline_event list \<times> pipeline_error option" where
  "sample_rest \<equiv> pipeline_rest sample_pipeline_env sample_pipeline sample_reclaim (sample_reclaim_bundle 0)"

lemma sample_rest_setups:
  "map (\<lambda>x. case x of Output_published out \<Rightarrow> map (\<lambda>x. (ts_state x, ts_grade x)) (po_setups out) | _ \<Rightarrow> [])
     (fst (snd sample_rest)) = [[], [], [], [(SState_CONFIRMED, None)], []]"
  by code_simp

lemma sample_rest_returns: "snd (snd sample_rest) = None"
  by code_simp

lemma grade_misses_its_bar_witness:
  "\<exists>out su' x. Output_published out \<in> set (fst (snd sample_rest)) \<and> pl_setup (fst sample_rest) = Some su'
     \<and> x \<in> set (po_setups out) \<and> x \<notin> set (po_scored_setups out)
     \<and> map_of (su_active su' (po_symbol out)) (ts_setup_id x) = Some (scored_as (compute_score x (Some sample_reclaim)) x)"
proof -
  have "fst (snd sample_rest) ! 3 \<in> set (fst (snd sample_rest))"
    using arg_cong [OF sample_rest_setups, of length] by (intro nth_mem) simp
  moreover obtain out where o: "fst (snd sample_rest) ! 3 = Output_published out"
      "map (\<lambda>x. (ts_state x, ts_grade x)) (po_setups out) = [(SState_CONFIRMED, None)]"
    using arg_cong [OF sample_rest_setups, of "\<lambda>l. l ! 3"] arg_cong [OF sample_rest_setups, of length]
    by (cases "fst (snd sample_rest) ! 3") simp_all
  ultimately have ev: "Output_published out \<in> set (fst (snd sample_rest))" by simp
  obtain x where x: "po_setups out = [x]" "ts_state x = SState_CONFIRMED" "ts_grade x = None" using o(2) by auto
  have r: "sample_rest = (fst sample_rest, fst (snd sample_rest), None)" using sample_rest_returns by (simp add: prod_eq_iff)
  have p: "pl_setup sample_pipeline = Some setup_engine_init" "pl_scoring sample_pipeline \<noteq> None"
    by (simp_all add: sample_pipeline_def set_scoring_engine_def set_setup_engine_def)
  from grade_misses_its_bar [OF r ev p(1) tables_ok_init p(2), of x] x ev show ?thesis by auto
qed

section \<open>One output per bar\<close>

text \<open>The stages before the output register and remove no engine.\<close>

lemma market_stage_engines:
  "market_stage p snap bundle = (p', ms, ev) \<Longrightarrow> pl_thesis p' = pl_thesis p \<and> (ms = None \<longleftrightarrow> pl_market_state p = None)"
  by (auto simp: market_stage_def split: option.splits prod.splits)

lemma thesis_stage_engines: "thesis_stage v p snap ms bundle = (p', r) \<Longrightarrow> pl_thesis p' = None \<longleftrightarrow> pl_thesis p = None"
  by (auto simp: thesis_stage_def Let_def split: option.splits prod.splits sum.splits)

lemma setup_stage_engines:
  "setup_stage v p snap ms bundle = (p', setups, ev) \<Longrightarrow>
   (pl_thesis p' = None \<longleftrightarrow> pl_thesis p = None) \<and> (pl_setup p' = None \<longleftrightarrow> pl_setup p = None)"
  by (auto simp: setup_stage_def split: option.splits prod.splits)

lemma scoring_stage_engines:
  "(pl_thesis (scoring_stage p snap setups) = None \<longleftrightarrow> pl_thesis p = None)
   \<and> (pl_setup (scoring_stage p snap setups) = None \<longleftrightarrow> pl_setup p = None)"
  by (auto simp: scoring_stage_def split: option.splits prod.splits)

definition is_engine_event :: "pipeline_event \<Rightarrow> bool" where
  "is_engine_event e \<longleftrightarrow> (case e of Output_published _ \<Rightarrow> False | Bar_republished _ \<Rightarrow> False | _ \<Rightarrow> True)"

lemma market_events: "market_stage p snap bundle = (p', ms, ev) \<Longrightarrow> list_all is_engine_event ev"
  by (auto simp: market_stage_def list_all_iff is_engine_event_def split: option.splits prod.splits)

lemma thesis_events: "thesis_stage v p snap ms bundle = (p', Inr (th, ev)) \<Longrightarrow> list_all is_engine_event ev"
  by (auto simp: thesis_stage_def Let_def is_engine_event_def split: option.splits prod.splits sum.splits)

lemma setup_events: "setup_stage v p snap ms bundle = (p', setups, ev) \<Longrightarrow> list_all is_engine_event ev"
  by (auto simp: setup_stage_def list_all_iff is_engine_event_def split: option.splits prod.splits)

text \<open>
  C3. A minute bar with a snapshot is published exactly once, with that snapshot and after all events of the engines;
  the bar itself follows it when the market-state, the thesis or the setup engine is not registered, and nothing else
  does. When the thesis stage raised, neither is published: then the setups were not scanned, no setup was
  scored, and the error ends the bar.
\<close>

theorem bar_is_published_once_or_lost:
  "case pipeline_rest v p snap bundle of
     (p', events, None) \<Rightarrow>
       (\<exists>engine_events out. list_all is_engine_event engine_events
         \<and> events = engine_events @ Output_published out
             # (if pl_market_state p = None \<or> pl_thesis p = None \<or> pl_setup p = None then [Bar_republished (to_bar_event bundle)] else [])
         \<and> po_symbol out = bb_symbol bundle \<and> po_timestamp out = bb_timestamp bundle \<and> po_bar_snapshot out = snap)
   | (p', events, Some err) \<Rightarrow>
       list_all is_engine_event events \<and> pl_setup p' = pl_setup p \<and> pl_scoring p' = pl_scoring p
       \<and> err = Thesis_failed Zero_atr_division"
proof -
  obtain p1 ms ev1 where m: "market_stage p snap bundle = (p1, ms, ev1)" by (metis prod_cases3)
  obtain p2 r where t: "thesis_stage v p1 snap ms bundle = (p2, r)" by fastforce
  note f1 = market_stage_frame [OF m] and f2 = thesis_stage_frame [OF t] and e1 = market_events [OF m]
  show ?thesis
  proof (cases r)
    case (Inl e)
    with m t f1 f2 e1 show ?thesis by (cases e) (simp add: pipeline_rest_def)
  next
    case (Inr a)
    obtain th ev2 where a: "a = (th, ev2)" by fastforce
    obtain p3 setups ev3 where s: "setup_stage v p2 snap ms bundle = (p3, setups, ev3)" by (metis prod_cases3)
    let ?p = "scoring_stage p3 snap setups"
    have missing: "pl_thesis ?p = None \<or> pl_setup ?p = None \<or> ms = None
        \<longleftrightarrow> pl_market_state p = None \<or> pl_thesis p = None \<or> pl_setup p = None"
      using market_stage_engines [OF m] thesis_stage_engines [OF t] setup_stage_engines [OF s]
        scoring_stage_engines [of p3 snap setups] f1(1) f2(1) by auto
    have "list_all is_engine_event (ev1 @ ev2 @ ev3)"
      using e1 thesis_events [OF t [unfolded Inr a]] setup_events [OF s] by simp
    moreover have "pipeline_rest v p snap bundle = (?p, (ev1 @ ev2 @ ev3) @ Output_published (stage_output v snap bundle ms th setups)
        # (if pl_market_state p = None \<or> pl_thesis p = None \<or> pl_setup p = None then [Bar_republished (to_bar_event bundle)] else []), None)"
      unfolding missing [symmetric] by (simp add: pipeline_rest_def m t s Inr a Let_def)
    ultimately show ?thesis by (auto simp: stage_output_def intro!: exI [of _ "ev1 @ ev2 @ ev3"])
  qed
qed

section \<open>Setups that never open\<close>

text \<open>The types no snapshot of the feature engine opens: the key-level ones and the opening-range breakdown.\<close>

definition DEAD_TYPES :: "setup_type set" where
  "DEAD_TYPES = insert Setup_ORB_BREAKDOWN KEY_LEVEL_TYPES"

definition alive_event :: "pipeline_event \<Rightarrow> bool" where
  "alive_event e \<longleftrightarrow>
     (case e of
        Setup_published x \<Rightarrow> sv_setup_type x \<notin> DEAD_TYPES
      | Output_published out \<Rightarrow> list_all (\<lambda>x. ts_setup_type x \<notin> DEAD_TYPES) (po_setups out)
      | _ \<Rightarrow> True)"

lemma dead_types_silent: "\<not> sn_or_cross_down sn \<Longrightarrow> silent DEAD_TYPES gc sn"
  using key_levels_silent [of gc sn]
  by (auto simp: silent_def DEAD_TYPES_def detector_reason_def reason_orb_breakdown_def split: option.split)

definition setups_idle :: "bar_pipeline \<Rightarrow> bool" where
  "setups_idle p \<longleftrightarrow> pred_option (types_idle DEAD_TYPES) (pl_setup p)"

lemma score_fold_types:
  "types_idle T su \<Longrightarrow> types_idle T (snd (foldl (score_one snap) (sc, su) xs))"
proof (induction xs arbitrary: sc su)
  case (Cons x xs)
  have "types_idle T (snd (score_one snap (sc, su) x))"
    using Cons.prems by (simp add: score_one_def apply_score_def patch_types split: prod.split)
  with Cons.IH show ?case by (cases "score_one snap (sc, su) x") simp
qed simp

lemma scoring_stage_idle:
  assumes "setups_idle p"
  shows "setups_idle (scoring_stage p snap setups)"
proof (cases "pl_scoring p = None \<or> pl_setup p = None \<or> setups = []")
  case True
  then have "scoring_stage p snap setups = p" by (auto simp: scoring_stage_def split: option.split)
  with assms show ?thesis by simp
next
  case False
  then obtain sc su where e: "pl_scoring p = Some sc" "pl_setup p = Some su" "setups \<noteq> []" by auto
  obtain sc' su' where f: "foldl (score_one snap) (sc, su) setups = (sc', su')" by fastforce
  have "types_idle DEAD_TYPES su'"
    using score_fold_types [of DEAD_TYPES su snap sc setups] assms e(2) f by (simp add: setups_idle_def)
  with e f show ?thesis by (simp add: scoring_stage_def score_bar_def setups_idle_def)
qed

lemma setup_stage_idle:
  assumes "setup_stage v p snap ms bundle = (p', setups, ev)" "setups_idle p" "\<not> sn_or_cross_down snap"
  shows "setups_idle p'" "list_all alive_event ev" "list_all (\<lambda>x. ts_setup_type x \<notin> DEAD_TYPES) setups"
proof -
  have "setups_idle p' \<and> list_all alive_event ev \<and> list_all (\<lambda>x. ts_setup_type x \<notin> DEAD_TYPES) setups"
  proof (cases "pl_setup p = None \<or> ms = None")
    case True
    with assms show ?thesis by (auto simp: setup_stage_def split: option.splits)
  next
    case False
    then obtain su mst where su: "pl_setup p = Some su" "ms = Some mst" by auto
    obtain su' out where pb: "setup_process_bar (pv_calendar v (bb_symbol bundle)) (pv_mk_id v) (context_of v p) su snap mst bundle
        = (su', out)" by fastforce
    from process_bar_types [OF _ this dead_types_silent] assms(2,3) su
    have "types_idle DEAD_TYPES su'" "\<forall>x \<in> set out. sv_setup_type x \<notin> DEAD_TYPES" by (simp_all add: setups_idle_def)
    with assms(1) su pb show ?thesis
      by (auto simp: setup_stage_def setups_idle_def alive_event_def list_all_iff active_setups_def types_idle_def no_types_def)
  qed
  then show "setups_idle p'" "list_all alive_event ev" "list_all (\<lambda>x. ts_setup_type x \<notin> DEAD_TYPES) setups" by auto
qed

lemma early_stages_alive:
  "market_stage p snap bundle = (p', ms, ev) \<Longrightarrow> list_all alive_event ev"
  "thesis_stage v p snap ms bundle = (p', Inr (th, ev)) \<Longrightarrow> list_all alive_event ev"
  by (auto simp: market_stage_def thesis_stage_def alive_event_def list_all_iff Let_def
      split: option.splits prod.splits sum.splits)

lemma rest_idle:
  assumes "setups_idle p" "\<not> sn_or_cross_down snap" "pipeline_rest v p snap bundle = (p', events, err)"
  shows "setups_idle p' \<and> list_all alive_event events"
proof -
  obtain p1 ms ev1 where m: "market_stage p snap bundle = (p1, ms, ev1)" by (metis prod_cases3)
  obtain p2 r where t: "thesis_stage v p1 snap ms bundle = (p2, r)" by fastforce
  have i2: "setups_idle p2" "setups_idle p1"
    using assms(1) market_stage_frame(1) [OF m] thesis_stage_frame(1) [OF t] by (simp_all add: setups_idle_def)
  show ?thesis
  proof (cases r)
    case (Inl e)
    with assms(3) m t i2 early_stages_alive(1) [OF m] show ?thesis by (simp add: pipeline_rest_def)
  next
    case (Inr a)
    obtain th ev2 where a: "a = (th, ev2)" by fastforce
    obtain p3 setups ev3 where s: "setup_stage v p2 snap ms bundle = (p3, setups, ev3)" by (metis prod_cases3)
    note idle = setup_stage_idle [OF s i2(1) assms(2)]
    have "list_all alive_event ev2" using early_stages_alive(2) t Inr a by blast
    with assms(3) m t s Inr a idle early_stages_alive(1) [OF m] scoring_stage_idle [OF idle(1), of snap setups]
    show ?thesis by (auto simp: pipeline_rest_def Let_def alive_event_def stage_output_def)
  qed
qed

lemma process_idle:
  assumes "setups_idle p" "pipeline_process v p bundle = (p', events, err)"
  shows "setups_idle p' \<and> list_all alive_event events"
proof (cases "bb_timeframe bundle \<noteq> TF_M1 \<or> pl_feature p = None")
  case True
  then have "pipeline_process v p bundle = (p, [], None)"
    by (cases "bb_timeframe bundle = TF_M1") (auto simp: pipeline_process_def)
  with assms show ?thesis by simp
next
  case False
  then obtain fe where fe: "pl_feature p = Some fe" "bb_timeframe bundle = TF_M1" by auto
  obtain fe' r where r: "feature_process_bar (pv_feature v) fe bundle = (fe', r)" by fastforce
  have i: "setups_idle (p\<lparr>pl_feature := Some fe'\<rparr>)" using assms(1) by (simp add: setups_idle_def)
  show ?thesis
  proof (cases "\<exists>snap. r = Inr (Some snap)")
    case True
    then obtain snap where snap: "r = Inr (Some snap)" by blast
    with process_bar_crosses r have "\<not> sn_or_cross_down snap" by blast
    from rest_idle [OF i this, of v "bundle"] assms(2) fe r snap show ?thesis by (simp add: pipeline_process_def)
  next
    case False
    with assms(2) fe r i show ?thesis
      by (auto simp: pipeline_process_def split: sum.splits option.splits)
  qed
qed

lemma run_idle: "setups_idle p \<Longrightarrow> list_all alive_event (snd (pipeline_run p bars))"
proof (induction p bars rule: pipeline_run.induct)
  case (2 p v b bs)
  obtain p1 out err where st: "pipeline_process v p b = (p1, out, err)" by (metis prod_cases3)
  with process_idle [OF 2(2)] 2(1) show ?case by (auto split: prod.splits)
qed simp

text \<open>
  Three setup types never open in the pipeline: the feature engine never sets the opening-range cross flags the
  breakdown short is detected by, and nothing feeds the two key-level detectors. However the other engines are
  set up and whatever bars arrive, no event and no output ever carries such a setup.
\<close>

theorem dead_setups_never_open:
  "list_all alive_event (snd (pipeline_run (set_setup_engine p setup_engine_init) bars))"
  by (rule run_idle) (simp add: setups_idle_def set_setup_engine_def types_idle_init)

end
