(* ===== verification/Event_Bus.thy ===== *)
theory Event_Bus
  imports Prelude Enums
begin

text \<open>
  The event bus, \<^verbatim>\<open>src/alpha/core/event_bus.py\<close>. Subscription objects are named by the order they
  were made in (their position in \<open>eb_objects\<close>), \<open>publish\<close> calls likewise. A coroutine runs without
  interruption to its next suspension: \<open>publish\<close> suspends only in \<open>put\<close> on a full queue, a drain task
  only in \<open>get\<close> on an empty queue and in its handler. A run is a list of such atomic steps,
  in any order. Cancelling a drain task ends it at once, and with it the handler it waits for. A
  handler's exception is logged and dropped, so a handler is the event it is called with.
\<close>

section \<open>State\<close>

record 'e bus_event =
  bv_type :: event_type
  bv_symbol :: "string option"
  bv_payload :: 'e

text \<open>\<open>sb_maxsize\<close>, \<open>sb_queue\<close> and \<open>sb_unfinished\<close> are the \<open>asyncio.Queue\<close>; \<open>sb_current\<close> is the event whose
  handler is running, \<open>sb_alive\<close> says that the drain task is not done.\<close>

record 'e subscription =
  sb_event_type :: event_type
  sb_symbol :: "string option"
  sb_maxsize :: nat
  sb_queue :: "'e bus_event list"
  sb_unfinished :: int
  sb_drop_if_full :: bool
  sb_current :: "'e bus_event option"
  sb_alive :: bool
  sb_full_count :: int
  sb_drop_count :: int

text \<open>A suspended \<open>publish\<close>: its event, the subscription it waits on, and the next index into the list of targets.\<close>

record 'e publication =
  pb_event :: "'e bus_event"
  pb_waits_on :: nat
  pb_next :: nat

record 'e event_bus =
  eb_queue_size :: nat
  eb_subscriptions :: "event_type \<Rightarrow> nat list"
  eb_objects :: "'e subscription list"
  eb_running :: bool
  eb_publications :: "'e publication option list"

definition bus_init :: "nat \<Rightarrow> 'e event_bus" where
  "bus_init n =
     \<lparr>eb_queue_size = n, eb_subscriptions = \<lambda>_. [], eb_objects = [], eb_running = False, eb_publications = []\<rparr>"

text \<open>What a step does outside: a queue takes an event from a publisher, evicts one, or hands one to its handler.\<close>

datatype 'e bus_output =
  Accepted nat nat "'e bus_event"
| Dropped nat "'e bus_event"
| Delivered nat "'e bus_event"

section \<open>Queues\<close>

definition queue_full :: "'e subscription \<Rightarrow> bool" where
  "queue_full sb \<longleftrightarrow> sb_maxsize sb > 0 \<and> length (sb_queue sb) \<ge> sb_maxsize sb"

definition queue_put :: "'e bus_event \<Rightarrow> 'e subscription \<Rightarrow> 'e subscription" where
  "queue_put ev sb = sb\<lparr>sb_queue := sb_queue sb @ [ev], sb_unfinished := sb_unfinished sb + 1\<rparr>"

definition queue_evict :: "'e subscription \<Rightarrow> 'e subscription" where
  "queue_evict sb =
     sb\<lparr>sb_queue := tl (sb_queue sb), sb_unfinished := sb_unfinished sb - 1, sb_drop_count := sb_drop_count sb + 1\<rparr>"

definition cancel_drain :: "'e subscription \<Rightarrow> 'e subscription" where
  "cancel_drain sb =
     (if sb_alive sb
      then sb\<lparr>sb_alive := False, sb_current := None,
              sb_unfinished := sb_unfinished sb - (if sb_current sb = None then 0 else 1)\<rparr>
      else sb)"

section \<open>Publishing\<close>

definition skips :: "'e subscription \<Rightarrow> 'e bus_event \<Rightarrow> bool" where
  "skips sb ev \<longleftrightarrow> sb_symbol sb \<noteq> None \<and> sb_symbol sb \<noteq> bv_symbol ev"

text \<open>The loop over the targets from index \<open>i\<close> on, up to its end or to the first \<open>put\<close> that suspends.\<close>

fun publish_to ::
  "nat \<Rightarrow> 'e bus_event \<Rightarrow> nat list \<Rightarrow> nat \<Rightarrow> 'e subscription list \<Rightarrow>
   'e subscription list \<times> 'e bus_output list \<times> 'e publication option" where
  "publish_to p ev [] i objs = (objs, [], None)"
| "publish_to p ev (t # ts) i objs =
     (let sb = objs ! t in
      if skips sb ev then publish_to p ev ts (i + 1) objs
      else if queue_full sb then
        (let sb = sb\<lparr>sb_full_count := sb_full_count sb + 1\<rparr> in
         if sb_drop_if_full sb
         then (case publish_to p ev ts (i + 1) (objs[t := queue_put ev (queue_evict sb)]) of
                 (objs', out, w) \<Rightarrow> (objs', Dropped t (hd (sb_queue sb)) # Accepted p t ev # out, w))
         else (objs[t := sb], [], Some \<lparr>pb_event = ev, pb_waits_on = t, pb_next = i + 1\<rparr>))
      else (case publish_to p ev ts (i + 1) (objs[t := queue_put ev sb]) of
              (objs', out, w) \<Rightarrow> (objs', Accepted p t ev # out, w)))"

definition publish :: "'e event_bus \<Rightarrow> 'e bus_event \<Rightarrow> 'e event_bus \<times> 'e bus_output list" where
  "publish b ev =
     (if \<not> eb_running b then (b\<lparr>eb_publications := eb_publications b @ [None]\<rparr>, [])
      else case publish_to (length (eb_publications b)) ev (eb_subscriptions b (bv_type ev)) 0 (eb_objects b) of
             (objs, out, w) \<Rightarrow> (b\<lparr>eb_objects := objs, eb_publications := eb_publications b @ [w]\<rparr>, out))"

text \<open>A suspended publisher looks at its queue again; \<open>put\<close> returns once there is room.\<close>

definition resume_publish :: "'e event_bus \<Rightarrow> nat \<Rightarrow> 'e event_bus \<times> 'e bus_output list" where
  "resume_publish b p =
     (if p \<ge> length (eb_publications b) then (b, [])
      else case eb_publications b ! p of
        None \<Rightarrow> (b, [])
      | Some w \<Rightarrow>
          (let t = pb_waits_on w; ev = pb_event w; sb = eb_objects b ! t in
           if queue_full sb then (b, [])
           else (case publish_to p ev (drop (pb_next w) (eb_subscriptions b (bv_type ev))) (pb_next w)
                        ((eb_objects b)[t := queue_put ev sb]) of
                   (objs, out, w') \<Rightarrow>
                     (b\<lparr>eb_objects := objs, eb_publications := (eb_publications b)[p := w']\<rparr>, Accepted p t ev # out))))"

section \<open>Subscriptions and drain tasks\<close>

definition subscribe ::
  "'e event_bus \<Rightarrow> event_type \<Rightarrow> string option \<Rightarrow> nat option \<Rightarrow> bool \<Rightarrow> 'e event_bus" where
  "subscribe b ty s qsize drop_flag =
     (let n = (case qsize of None \<Rightarrow> eb_queue_size b | Some k \<Rightarrow> if k = 0 then eb_queue_size b else k);
          sb = \<lparr>sb_event_type = ty, sb_symbol = s, sb_maxsize = n, sb_queue = [], sb_unfinished = 0,
                sb_drop_if_full = drop_flag, sb_current = None, sb_alive = True, sb_full_count = 0, sb_drop_count = 0\<rparr>
      in b\<lparr>eb_objects := eb_objects b @ [sb],
           eb_subscriptions := (eb_subscriptions b)(ty := eb_subscriptions b ty @ [length (eb_objects b)])\<rparr>)"

definition unsubscribe :: "'e event_bus \<Rightarrow> nat \<Rightarrow> 'e event_bus" where
  "unsubscribe b t =
     (if t \<ge> length (eb_objects b) then b
      else let ty = sb_event_type (eb_objects b ! t) in
           b\<lparr>eb_objects := (eb_objects b)[t := cancel_drain (eb_objects b ! t)],
             eb_subscriptions := (eb_subscriptions b)(ty := remove1 t (eb_subscriptions b ty))\<rparr>)"

definition is_subscribed :: "'e event_bus \<Rightarrow> nat \<Rightarrow> bool" where
  "is_subscribed b t \<longleftrightarrow> t \<in> set (eb_subscriptions b (sb_event_type (eb_objects b ! t)))"

definition stop_bus :: "'e event_bus \<Rightarrow> 'e event_bus" where
  "stop_bus b =
     b\<lparr>eb_running := False,
       eb_objects := map (\<lambda>t. if is_subscribed b t then cancel_drain (eb_objects b ! t) else eb_objects b ! t)
                       [0..<length (eb_objects b)]\<rparr>"

text \<open>\<open>_drain\<close>: the next event goes to the handler; later the handler returns or raises.\<close>

definition drain_get :: "'e event_bus \<Rightarrow> nat \<Rightarrow> 'e event_bus \<times> 'e bus_output list" where
  "drain_get b t =
     (if t \<ge> length (eb_objects b) then (b, [])
      else let sb = eb_objects b ! t in
           if sb_alive sb \<and> sb_current sb = None then
             (case sb_queue sb of
                [] \<Rightarrow> (b, [])
              | ev # evs \<Rightarrow>
                  (b\<lparr>eb_objects := (eb_objects b)[t := sb\<lparr>sb_queue := evs, sb_current := Some ev\<rparr>]\<rparr>, [Delivered t ev]))
           else (b, []))"

definition drain_done :: "'e event_bus \<Rightarrow> nat \<Rightarrow> 'e event_bus" where
  "drain_done b t =
     (if t \<ge> length (eb_objects b) then b
      else let sb = eb_objects b ! t in
           if sb_current sb = None then b
           else b\<lparr>eb_objects := (eb_objects b)[t := sb\<lparr>sb_current := None, sb_unfinished := sb_unfinished sb - 1\<rparr>]\<rparr>)"

text \<open>\<open>flush\<close> waits on \<open>queue.join()\<close>, which returns when no task is unfinished.\<close>

definition queue_joined :: "'e subscription \<Rightarrow> bool" where
  "queue_joined sb \<longleftrightarrow> sb_unfinished sb = 0"

section \<open>Runs\<close>

datatype 'e bus_cmd =
  Start_bus
| Stop_bus
| Subscribe event_type "string option" "nat option" bool
| Unsubscribe nat
| Publish "'e bus_event"
| Resume nat
| Drain_get nat
| Drain_done nat

fun bus_step :: "'e event_bus \<Rightarrow> 'e bus_cmd \<Rightarrow> 'e event_bus \<times> 'e bus_output list" where
  "bus_step b Start_bus = (b\<lparr>eb_running := True\<rparr>, [])"
| "bus_step b Stop_bus = (stop_bus b, [])"
| "bus_step b (Subscribe ty s qsize d) = (subscribe b ty s qsize d, [])"
| "bus_step b (Unsubscribe t) = (unsubscribe b t, [])"
| "bus_step b (Publish ev) = publish b ev"
| "bus_step b (Resume p) = resume_publish b p"
| "bus_step b (Drain_get t) = drain_get b t"
| "bus_step b (Drain_done t) = (drain_done b t, [])"

fun bus_run :: "'e event_bus \<Rightarrow> 'e bus_cmd list \<Rightarrow> 'e event_bus \<times> 'e bus_output list" where
  "bus_run b [] = (b, [])"
| "bus_run b (c # cs) =
     (case bus_step b c of (b, out) \<Rightarrow> (case bus_run b cs of (b, out') \<Rightarrow> (b, out @ out')))"

section \<open>Well-formedness\<close>

definition subscription_ok :: "'e subscription \<Rightarrow> bool" where
  "subscription_ok sb \<longleftrightarrow>
     (sb_maxsize sb = 0 \<or> length (sb_queue sb) \<le> sb_maxsize sb)
     \<and> sb_unfinished sb = int (length (sb_queue sb)) + (if sb_current sb = None then 0 else 1)
     \<and> (sb_current sb = None \<or> sb_alive sb)"

definition targets_ok :: "'e event_bus \<Rightarrow> bool" where
  "targets_ok b \<longleftrightarrow>
     (\<forall>ty. \<forall>t \<in> set (eb_subscriptions b ty). t < length (eb_objects b) \<and> sb_event_type (eb_objects b ! t) = ty)"

definition waits_ok :: "nat \<Rightarrow> 'e publication option \<Rightarrow> bool" where
  "waits_ok n w \<longleftrightarrow> (case w of None \<Rightarrow> True | Some w \<Rightarrow> pb_waits_on w < n)"

definition bus_ok :: "'e event_bus \<Rightarrow> bool" where
  "bus_ok b \<longleftrightarrow>
     list_all subscription_ok (eb_objects b) \<and> targets_ok b
     \<and> list_all (waits_ok (length (eb_objects b))) (eb_publications b)"

lemma subscription_ok_put: "subscription_ok sb \<Longrightarrow> \<not> queue_full sb \<Longrightarrow> subscription_ok (queue_put ev sb)"
  by (auto simp: subscription_ok_def queue_full_def queue_put_def)

lemma queue_full_nonempty: "queue_full sb \<Longrightarrow> sb_queue sb \<noteq> []"
  by (auto simp: queue_full_def)

lemma evict_full:
  assumes "subscription_ok sb" "queue_full sb"
  shows "subscription_ok (queue_evict sb)" "\<not> queue_full (queue_evict sb)"
  using assms queue_full_nonempty [OF assms(2)]
  by (cases "sb_queue sb"; auto simp: subscription_ok_def queue_full_def queue_evict_def)+

lemma subscription_ok_cancel: "subscription_ok sb \<Longrightarrow> subscription_ok (cancel_drain sb)"
  by (auto simp: subscription_ok_def cancel_drain_def)

lemma subscription_ok_counts [simp]: "subscription_ok (sb\<lparr>sb_full_count := n\<rparr>) = subscription_ok sb"
  by (simp add: subscription_ok_def)

section \<open>What goes in and out of a queue\<close>

fun departure :: "nat \<Rightarrow> 'e bus_output \<Rightarrow> 'e bus_event list" where
  "departure t (Dropped t' ev) = (if t' = t then [ev] else [])"
| "departure t (Delivered t' ev) = (if t' = t then [ev] else [])"
| "departure t (Accepted p t' ev) = []"

fun delivery :: "nat \<Rightarrow> 'e bus_output \<Rightarrow> 'e bus_event list" where
  "delivery t (Delivered t' ev) = (if t' = t then [ev] else [])"
| "delivery t out = []"

fun acceptance :: "nat \<Rightarrow> 'e bus_output \<Rightarrow> 'e bus_event list" where
  "acceptance t (Accepted p t' ev) = (if t' = t then [ev] else [])"
| "acceptance t out = []"

definition departed :: "nat \<Rightarrow> 'e bus_output list \<Rightarrow> 'e bus_event list" where
  "departed t outs = concat (map (departure t) outs)"

definition delivered :: "nat \<Rightarrow> 'e bus_output list \<Rightarrow> 'e bus_event list" where
  "delivered t outs = concat (map (delivery t) outs)"

definition accepted :: "nat \<Rightarrow> 'e bus_output list \<Rightarrow> 'e bus_event list" where
  "accepted t outs = concat (map (acceptance t) outs)"

lemmas trace_defs = departed_def delivered_def accepted_def

definition queue_at :: "'e subscription list \<Rightarrow> nat \<Rightarrow> 'e bus_event list" where
  "queue_at objs t = (if t < length objs then sb_queue (objs ! t) else [])"

text \<open>From one list of subscriptions to a later one: each queue gave up its head and grew at its end.\<close>

definition flows :: "'e subscription list \<Rightarrow> 'e subscription list \<Rightarrow> 'e bus_output list \<Rightarrow> bool" where
  "flows objs objs' outs \<longleftrightarrow>
     length objs \<le> length objs'
     \<and> (\<forall>t < length objs. sb_event_type (objs' ! t) = sb_event_type (objs ! t) \<and> sb_symbol (objs' ! t) = sb_symbol (objs ! t)
          \<and> sb_drop_if_full (objs' ! t) = sb_drop_if_full (objs ! t))
     \<and> (\<forall>t. departed t outs @ queue_at objs' t = queue_at objs t @ accepted t outs)
     \<and> (\<forall>t ev. Dropped t ev \<in> set outs \<longrightarrow> t < length objs' \<and> sb_drop_if_full (objs' ! t))"

lemma flows_refl [simp]: "flows objs objs []"
  by (simp add: flows_def trace_defs)

lemma flows_trans:
  assumes "flows a b o1" "flows b c o2"
  shows "flows a c (o1 @ o2)"
proof -
  have "departed t (o1 @ o2) @ queue_at c t = queue_at a t @ accepted t (o1 @ o2)" for t
  proof -
    have "departed t (o1 @ o2) @ queue_at c t = departed t o1 @ (departed t o2 @ queue_at c t)"
      by (simp add: departed_def)
    also have "\<dots> = (departed t o1 @ queue_at b t) @ accepted t o2" using assms(2) by (simp add: flows_def)
    also have "\<dots> = queue_at a t @ accepted t (o1 @ o2)" using assms(1) by (simp add: flows_def accepted_def)
    finally show ?thesis .
  qed
  moreover have "t < length c \<and> sb_drop_if_full (c ! t)" if "Dropped t ev \<in> set (o1 @ o2)" for t ev
  proof (cases "Dropped t ev \<in> set o2")
    case False
    with that assms(1) have "t < length b" "sb_drop_if_full (b ! t)" by (auto simp: flows_def)
    with assms(2) show ?thesis by (auto simp: flows_def)
  qed (use assms(2) in \<open>auto simp: flows_def\<close>)
  ultimately show ?thesis using assms by (simp add: flows_def)
qed

text \<open>One subscription changes; \<open>q\<close> leaves its queue, \<open>r\<close> enters.\<close>

lemma flows_update:
  assumes "t < length objs" "sb_event_type sb = sb_event_type (objs ! t)" "sb_symbol sb = sb_symbol (objs ! t)"
    "sb_drop_if_full sb = sb_drop_if_full (objs ! t)"
    "departed t outs @ sb_queue sb = sb_queue (objs ! t) @ accepted t outs"
    "\<forall>t'. t' \<noteq> t \<longrightarrow> departed t' outs = [] \<and> accepted t' outs = []"
    "\<forall>t' ev. Dropped t' ev \<in> set outs \<longrightarrow> t' = t \<and> sb_drop_if_full (objs ! t)"
  shows "flows objs (objs[t := sb]) outs"
  unfolding flows_def
proof (intro conjI allI)
  fix t'
  show "departed t' outs @ queue_at (objs[t := sb]) t' = queue_at objs t' @ accepted t' outs"
    using assms(1,5,6) by (cases "t' = t") (simp_all add: queue_at_def)
next
  fix t'
  show "t' < length objs \<longrightarrow> sb_event_type (objs[t := sb] ! t') = sb_event_type (objs ! t')
      \<and> sb_symbol (objs[t := sb] ! t') = sb_symbol (objs ! t')
      \<and> sb_drop_if_full (objs[t := sb] ! t') = sb_drop_if_full (objs ! t')"
    using assms(1-4) by (simp add: nth_list_update)
next
  fix t' ev
  show "Dropped t' ev \<in> set outs \<longrightarrow> t' < length (objs[t := sb]) \<and> sb_drop_if_full (objs[t := sb] ! t')"
    using assms(1,4,7) by auto
qed simp

lemma flows_put:
  assumes "t < length objs"
  shows "flows objs (objs[t := queue_put ev (objs ! t)]) [Accepted p t ev]"
  by (rule flows_update) (use assms in \<open>simp_all add: queue_put_def trace_defs\<close>)

lemma flows_evict_put:
  assumes "t < length objs" "sb_queue (objs ! t) \<noteq> []" "sb_drop_if_full (objs ! t)"
  shows "flows objs (objs[t := queue_put ev (queue_evict ((objs ! t)\<lparr>sb_full_count := n\<rparr>))])
           [Dropped t (hd (sb_queue (objs ! t))), Accepted p t ev]"
  by (rule flows_update) (use assms in \<open>simp_all add: queue_put_def queue_evict_def trace_defs\<close>)

lemma flows_same_queue:
  assumes "t < length objs" "sb_queue sb = sb_queue (objs ! t)" "sb_event_type sb = sb_event_type (objs ! t)"
    "sb_symbol sb = sb_symbol (objs ! t)" "sb_drop_if_full sb = sb_drop_if_full (objs ! t)"
  shows "flows objs (objs[t := sb]) []"
  by (rule flows_update) (use assms in \<open>simp_all add: trace_defs\<close>)

section \<open>Every step keeps the bus well formed\<close>

lemma list_all_update: "list_all P xs \<Longrightarrow> P x \<Longrightarrow> list_all P (xs[i := x])"
  by (auto simp: list_all_iff dest: set_update_subset_insert [THEN subsetD])

lemma list_all_at: "list_all P xs \<Longrightarrow> i < length xs \<Longrightarrow> P (xs ! i)"
  by (simp add: list_all_length)

lemma publish_to_keeps:
  assumes "list_all subscription_ok objs" "\<forall>t \<in> set ts. t < length objs" "publish_to p ev ts i objs = (objs', out, w)"
  shows "flows objs objs' out \<and> length objs' = length objs \<and> list_all subscription_ok objs' \<and> waits_ok (length objs) w"
  using assms
proof (induction p ev ts i objs arbitrary: objs' out w rule: publish_to.induct)
  case (2 p ev t ts i objs)
  have t: "t < length objs" and ts: "\<forall>t \<in> set ts. t < length objs" using "2.prems"(2) by simp_all
  have ok: "subscription_ok (objs ! t)" using "2.prems"(1) t by (rule list_all_at)
  consider "skips (objs ! t) ev" | "\<not> skips (objs ! t) ev" "\<not> queue_full (objs ! t)"
    | "\<not> skips (objs ! t) ev" "queue_full (objs ! t)" "\<not> sb_drop_if_full (objs ! t)"
    | "\<not> skips (objs ! t) ev" "queue_full (objs ! t)" "sb_drop_if_full (objs ! t)" by blast
  then show ?case
  proof cases
    case 1
    with "2.prems"(3) have "publish_to p ev ts (i + 1) objs = (objs', out, w)" by simp
    from "2.IH"(1) [OF refl 1 "2.prems"(1) ts this] show ?thesis .
  next
    case put: 2
    obtain o' where rest: "publish_to p ev ts (i + 1) (objs[t := queue_put ev (objs ! t)]) = (objs', o', w)"
      and out: "out = Accepted p t ev # o'" using "2.prems"(3) put by (auto simp: Let_def split: prod.splits)
    have "list_all subscription_ok (objs[t := queue_put ev (objs ! t)])"
      by (rule list_all_update [OF "2.prems"(1) subscription_ok_put [OF ok put(2)]])
    from "2.IH"(3) [OF refl put this _ rest] ts flows_trans [OF flows_put [OF t, of ev p], of objs' o'] out
    show ?thesis by simp
  next
    case 3
    then have "objs' = objs[t := (objs ! t)\<lparr>sb_full_count := sb_full_count (objs ! t) + 1\<rparr>]" "out = []"
      "w = Some \<lparr>pb_event = ev, pb_waits_on = t, pb_next = i + 1\<rparr>" using "2.prems"(3) by (auto simp: Let_def)
    with t ok show ?thesis
      using flows_same_queue [OF t, of "(objs ! t)\<lparr>sb_full_count := sb_full_count (objs ! t) + 1\<rparr>"]
      by (simp add: list_all_update [OF "2.prems"(1)] waits_ok_def)
  next
    case 4
    let ?sb = "(objs ! t)\<lparr>sb_full_count := sb_full_count (objs ! t) + 1\<rparr>"
    obtain o' where rest: "publish_to p ev ts (i + 1) (objs[t := queue_put ev (queue_evict ?sb)]) = (objs', o', w)"
      and out: "out = Dropped t (hd (sb_queue (objs ! t))) # Accepted p t ev # o'"
      using "2.prems"(3) 4 by (auto simp: Let_def split: prod.splits)
    have full: "subscription_ok ?sb" "queue_full ?sb" using ok 4(2) by (simp_all add: queue_full_def)
    have "list_all subscription_ok (objs[t := queue_put ev (queue_evict ?sb)])"
      by (rule list_all_update [OF "2.prems"(1) subscription_ok_put [OF evict_full [OF full]]])
    note rest = "2.IH"(2) [OF refl 4(1,2) refl _ this _ rest]
    have "flows objs (objs[t := queue_put ev (queue_evict ?sb)]) [Dropped t (hd (sb_queue (objs ! t))), Accepted p t ev]"
      by (rule flows_evict_put [OF t queue_full_nonempty [OF 4(2)] 4(3)])
    from rest 4(3) ts out flows_trans [OF this, of objs' o'] show ?thesis by simp
  qed
qed (simp add: waits_ok_def)

text \<open>A step that keeps or shortens the lists of targets.\<close>

lemma bus_ok_step:
  assumes "bus_ok b" "flows (eb_objects b) (eb_objects b') out" "list_all subscription_ok (eb_objects b')"
    "\<forall>ty. set (eb_subscriptions b' ty) \<subseteq> set (eb_subscriptions b ty)"
    "list_all (waits_ok (length (eb_objects b'))) (eb_publications b')"
  shows "bus_ok b'"
proof -
  have "t < length (eb_objects b') \<and> sb_event_type (eb_objects b' ! t) = ty" if "t \<in> set (eb_subscriptions b' ty)" for t ty
  proof -
    from that assms(1,4) have "t < length (eb_objects b)" "sb_event_type (eb_objects b ! t) = ty"
      by (auto simp: bus_ok_def targets_ok_def)
    with assms(2) show ?thesis by (auto simp: flows_def)
  qed
  with assms(3,5) show ?thesis by (simp add: bus_ok_def targets_ok_def)
qed

lemma waits_ok_mono: "waits_ok n w \<Longrightarrow> n \<le> m \<Longrightarrow> waits_ok m w"
  by (auto simp: waits_ok_def split: option.splits)

lemma waits_ok_all_mono: "list_all (waits_ok n) ws \<Longrightarrow> n \<le> m \<Longrightarrow> list_all (waits_ok m) ws"
  by (auto simp: list_all_iff intro: waits_ok_mono)

lemma bus_okD:
  assumes "bus_ok b"
  shows "list_all subscription_ok (eb_objects b)" "list_all (waits_ok (length (eb_objects b))) (eb_publications b)"
    "t \<in> set (eb_subscriptions b ty) \<Longrightarrow> t < length (eb_objects b)"
  using assms by (auto simp: bus_ok_def targets_ok_def)

lemma publish_keeps:
  assumes "bus_ok b" "publish b ev = (b', out)"
  shows "bus_ok b'" "flows (eb_objects b) (eb_objects b') out"
proof -
  have "bus_ok b' \<and> flows (eb_objects b) (eb_objects b') out"
  proof (cases "eb_running b")
    case False
    with assms(2) have b': "b' = b\<lparr>eb_publications := eb_publications b @ [None]\<rparr>" "out = []" by (simp_all add: publish_def)
    then have "bus_ok b'"
      using bus_okD(1,2) [OF assms(1)]
      by (intro bus_ok_step [OF assms(1), where out = "[]"]) (simp_all add: waits_ok_def)
    with b' show ?thesis by simp
  next
    case True
    obtain objs w where pub: "publish_to (length (eb_publications b)) ev (eb_subscriptions b (bv_type ev)) 0 (eb_objects b) = (objs, out, w)"
      and b': "b' = b\<lparr>eb_objects := objs, eb_publications := eb_publications b @ [w]\<rparr>"
      using assms(2) True by (auto simp: publish_def split: prod.splits)
    have "\<forall>t \<in> set (eb_subscriptions b (bv_type ev)). t < length (eb_objects b)" using bus_okD(3) [OF assms(1)] by blast
    note k = publish_to_keeps [OF bus_okD(1) [OF assms(1)] this pub]
    then have "bus_ok b'"
      using bus_okD(2) [OF assms(1)] by (intro bus_ok_step [OF assms(1), where out = out]) (simp_all add: b')
    with k show ?thesis by (simp add: b')
  qed
  then show "bus_ok b'" "flows (eb_objects b) (eb_objects b') out" by simp_all
qed

lemma resume_cases:
  assumes "resume_publish b p = (b', out)"
  obtains (idle) "b' = b" "out = []"
  | (moves) u objs o' w where "p < length (eb_publications b)" "eb_publications b ! p = Some u"
      "\<not> queue_full (eb_objects b ! pb_waits_on u)"
      "publish_to p (pb_event u) (drop (pb_next u) (eb_subscriptions b (bv_type (pb_event u)))) (pb_next u)
         ((eb_objects b)[pb_waits_on u := queue_put (pb_event u) (eb_objects b ! pb_waits_on u)]) = (objs, o', w)"
      "b' = b\<lparr>eb_objects := objs, eb_publications := (eb_publications b)[p := w]\<rparr>"
      "out = Accepted p (pb_waits_on u) (pb_event u) # o'"
proof -
  show thesis
  proof (cases "p < length (eb_publications b) \<and> eb_publications b ! p \<noteq> None")
    case False
    with assms have "b' = b" "out = []" by (auto simp: resume_publish_def split: option.splits)
    then show thesis by (rule idle)
  next
    case True
    then obtain u where u: "p < length (eb_publications b)" "eb_publications b ! p = Some u" by blast
    show thesis
    proof (cases "queue_full (eb_objects b ! pb_waits_on u)")
      case True
      with u assms have "b' = b" "out = []" by (simp_all add: resume_publish_def Let_def)
      then show thesis by (rule idle)
    next
      case False
      obtain objs o' w where pub: "publish_to p (pb_event u) (drop (pb_next u) (eb_subscriptions b (bv_type (pb_event u)))) (pb_next u)
         ((eb_objects b)[pb_waits_on u := queue_put (pb_event u) (eb_objects b ! pb_waits_on u)]) = (objs, o', w)"
        by (metis prod_cases3)
      with u False assms have "b' = b\<lparr>eb_objects := objs, eb_publications := (eb_publications b)[p := w]\<rparr>"
        "out = Accepted p (pb_waits_on u) (pb_event u) # o'" by (simp_all add: resume_publish_def Let_def)
      with moves u False pub show thesis by blast
    qed
  qed
qed

lemma resume_keeps:
  assumes "bus_ok b" "resume_publish b p = (b', out)"
  shows "bus_ok b'" "flows (eb_objects b) (eb_objects b') out"
proof -
  have "bus_ok b' \<and> flows (eb_objects b) (eb_objects b') out"
    using assms(2)
  proof (cases rule: resume_cases)
    case idle
    with assms(1) show ?thesis by simp
  next
    case (moves u objs o' w)
    let ?t = "pb_waits_on u"
    let ?objs = "(eb_objects b)[?t := queue_put (pb_event u) (eb_objects b ! ?t)]"
    have t: "?t < length (eb_objects b)"
      using list_all_at [OF bus_okD(2) [OF assms(1)] moves(1)] moves(2) by (simp add: waits_ok_def)
    have ok: "list_all subscription_ok ?objs"
      by (intro list_all_update subscription_ok_put list_all_at bus_okD(1) [OF assms(1)] t moves(3))
    have "\<forall>t \<in> set (drop (pb_next u) (eb_subscriptions b (bv_type (pb_event u)))). t < length ?objs"
      using bus_okD(3) [OF assms(1)] by (auto dest: in_set_dropD)
    note k = publish_to_keeps [OF ok this moves(4)]
    have "flows (eb_objects b) objs ([Accepted p ?t (pb_event u)] @ o')"
      by (rule flows_trans [OF flows_put [OF t]]) (use k in simp)
    then have f: "flows (eb_objects b) (eb_objects b') out" by (simp add: moves(5,6))
    have "bus_ok b'"
      by (rule bus_ok_step [OF assms(1) f])
         (use k bus_okD(2) [OF assms(1)] in \<open>simp_all add: moves(5) list_all_update\<close>)
    with f show ?thesis by simp
  qed
  then show "bus_ok b'" "flows (eb_objects b) (eb_objects b') out" by simp_all
qed

lemma cancel_drain_simps [simp]:
  "sb_queue (cancel_drain sb) = sb_queue sb" "sb_event_type (cancel_drain sb) = sb_event_type sb"
  "sb_symbol (cancel_drain sb) = sb_symbol sb" "sb_drop_if_full (cancel_drain sb) = sb_drop_if_full sb"
  "sb_maxsize (cancel_drain sb) = sb_maxsize sb" "\<not> sb_alive (cancel_drain sb)"
  by (simp_all add: cancel_drain_def)

text \<open>One subscription changes and the rest of the bus stays.\<close>

lemma object_step_keeps:
  assumes "bus_ok b" "subscription_ok sb" "flows (eb_objects b) ((eb_objects b)[t := sb]) out"
    "\<forall>ty. set (subs ty) \<subseteq> set (eb_subscriptions b ty)"
  shows "bus_ok (b\<lparr>eb_objects := (eb_objects b)[t := sb], eb_subscriptions := subs\<rparr>)"
  by (rule bus_ok_step [OF assms(1), where out = out])
     (use assms bus_okD(2) [OF assms(1)] in \<open>simp_all add: list_all_update bus_okD(1)\<close>)

lemma unsubscribe_keeps:
  assumes "bus_ok b"
  shows "bus_ok (unsubscribe b t)" "flows (eb_objects b) (eb_objects (unsubscribe b t)) []"
proof -
  have "bus_ok (unsubscribe b t) \<and> flows (eb_objects b) (eb_objects (unsubscribe b t)) []"
  proof (cases "t < length (eb_objects b)")
    case True
    let ?sb = "cancel_drain (eb_objects b ! t)" and ?ty = "sb_event_type (eb_objects b ! t)"
    have f: "flows (eb_objects b) ((eb_objects b)[t := ?sb]) []" by (rule flows_same_queue [OF True]) simp_all
    have "bus_ok (b\<lparr>eb_objects := (eb_objects b)[t := ?sb],
        eb_subscriptions := (eb_subscriptions b)(?ty := remove1 t (eb_subscriptions b ?ty))\<rparr>)"
      by (rule object_step_keeps [OF assms _ f])
         (use list_all_at [OF bus_okD(1) [OF assms] True] in \<open>auto intro: subscription_ok_cancel dest: set_remove1_subset [THEN subsetD]\<close>)
    with f True show ?thesis by (simp add: unsubscribe_def Let_def)
  qed (use assms in \<open>simp add: unsubscribe_def\<close>)
  then show "bus_ok (unsubscribe b t)" "flows (eb_objects b) (eb_objects (unsubscribe b t)) []" by simp_all
qed

lemma flows_pointwise:
  assumes "length objs' = length objs"
    "\<And>t. t < length objs \<Longrightarrow> sb_queue (objs' ! t) = sb_queue (objs ! t) \<and> sb_event_type (objs' ! t) = sb_event_type (objs ! t)
       \<and> sb_symbol (objs' ! t) = sb_symbol (objs ! t) \<and> sb_drop_if_full (objs' ! t) = sb_drop_if_full (objs ! t)"
  shows "flows objs objs' []"
  using assms by (simp add: flows_def trace_defs queue_at_def)

lemma stop_keeps:
  assumes "bus_ok b"
  shows "bus_ok (stop_bus b)" "flows (eb_objects b) (eb_objects (stop_bus b)) []"
proof -
  show f: "flows (eb_objects b) (eb_objects (stop_bus b)) []" by (rule flows_pointwise) (simp_all add: stop_bus_def)
  show "bus_ok (stop_bus b)"
    by (rule bus_ok_step [OF assms f])
       (use bus_okD(2) [OF assms] list_all_at [OF bus_okD(1) [OF assms]]
         in \<open>auto simp: stop_bus_def list_all_length intro: subscription_ok_cancel\<close>)
qed

lemma subscribe_keeps:
  assumes "bus_ok b"
  shows "bus_ok (subscribe b ty s qsize d)" "flows (eb_objects b) (eb_objects (subscribe b ty s qsize d)) []"
proof -
  let ?b = "subscribe b ty s qsize d"
  obtain n where b: "?b = b\<lparr>eb_objects := eb_objects b @ [\<lparr>sb_event_type = ty, sb_symbol = s, sb_maxsize = n, sb_queue = [],
      sb_unfinished = 0, sb_drop_if_full = d, sb_current = None, sb_alive = True, sb_full_count = 0, sb_drop_count = 0\<rparr>],
      eb_subscriptions := (eb_subscriptions b)(ty := eb_subscriptions b ty @ [length (eb_objects b)])\<rparr>"
    by (simp add: subscribe_def Let_def)
  show "flows (eb_objects b) (eb_objects ?b) []"
    by (auto simp: b flows_def trace_defs queue_at_def nth_append)
  have "targets_ok ?b"
    using assms unfolding targets_ok_def bus_ok_def b by (auto simp: nth_append less_Suc_eq)
  moreover have "list_all subscription_ok (eb_objects ?b)"
    using bus_okD(1) [OF assms] by (simp add: b subscription_ok_def)
  moreover have "list_all (waits_ok (length (eb_objects ?b))) (eb_publications ?b)"
    using waits_ok_all_mono [OF bus_okD(2) [OF assms], of "Suc (length (eb_objects b))"] by (simp add: b)
  ultimately show "bus_ok ?b" by (simp add: bus_ok_def)
qed

lemma drain_get_keeps:
  assumes "bus_ok b" "drain_get b t = (b', out)"
  shows "bus_ok b'" "flows (eb_objects b) (eb_objects b') out"
proof -
  let ?sb = "eb_objects b ! t"
  have "bus_ok b' \<and> flows (eb_objects b) (eb_objects b') out"
  proof (cases "t < length (eb_objects b) \<and> sb_alive ?sb \<and> sb_current ?sb = None \<and> sb_queue ?sb \<noteq> []")
    case True
    then obtain ev evs where q: "sb_queue ?sb = ev # evs" by (cases "sb_queue ?sb") auto
    let ?new = "?sb\<lparr>sb_queue := evs, sb_current := Some ev\<rparr>"
    from True q assms(2) have b': "b' = b\<lparr>eb_objects := (eb_objects b)[t := ?new]\<rparr>" and out: "out = [Delivered t ev]"
      by (simp_all add: drain_get_def Let_def)
    have f: "flows (eb_objects b) ((eb_objects b)[t := ?new]) out"
      by (rule flows_update) (use True q out in \<open>simp_all add: trace_defs\<close>)
    have "subscription_ok ?new"
      using list_all_at [OF bus_okD(1) [OF assms(1)], of t] True q by (auto simp: subscription_ok_def)
    from object_step_keeps [OF assms(1) this f, of "eb_subscriptions b"] f show ?thesis by (simp add: b')
  next
    case False
    with assms(2) have "b' = b" "out = []" by (auto simp: drain_get_def Let_def split: if_splits list.splits)
    with assms(1) show ?thesis by simp
  qed
  then show "bus_ok b'" "flows (eb_objects b) (eb_objects b') out" by simp_all
qed

lemma drain_done_keeps:
  assumes "bus_ok b"
  shows "bus_ok (drain_done b t)" "flows (eb_objects b) (eb_objects (drain_done b t)) []"
proof -
  let ?sb = "eb_objects b ! t"
  let ?new = "?sb\<lparr>sb_current := None, sb_unfinished := sb_unfinished ?sb - 1\<rparr>"
  have "bus_ok (drain_done b t) \<and> flows (eb_objects b) (eb_objects (drain_done b t)) []"
  proof (cases "t < length (eb_objects b) \<and> sb_current ?sb \<noteq> None")
    case True
    then have f: "flows (eb_objects b) ((eb_objects b)[t := ?new]) []" by (intro flows_same_queue) simp_all
    have "subscription_ok ?new"
      using list_all_at [OF bus_okD(1) [OF assms(1)], of t] True by (auto simp: subscription_ok_def)
    from object_step_keeps [OF assms(1) this f, of "eb_subscriptions b"] f True show ?thesis
      by (auto simp: drain_done_def Let_def)
  qed (use assms in \<open>auto simp: drain_done_def Let_def\<close>)
  then show "bus_ok (drain_done b t)" "flows (eb_objects b) (eb_objects (drain_done b t)) []" by simp_all
qed

lemma bus_step_keeps:
  assumes "bus_ok b" "bus_step b c = (b', out)"
  shows "bus_ok b' \<and> flows (eb_objects b) (eb_objects b') out"
proof (cases c)
  case Start_bus
  with assms show ?thesis by (auto simp: bus_ok_def targets_ok_def)
qed (use assms publish_keeps [OF assms(1)] resume_keeps [OF assms(1)] drain_get_keeps [OF assms(1)]
       stop_keeps [OF assms(1)] subscribe_keeps [OF assms(1)] unsubscribe_keeps [OF assms(1)]
       drain_done_keeps [OF assms(1)] in \<open>auto\<close>)

lemma bus_run_keeps:
  "bus_ok b \<Longrightarrow> bus_run b cs = (b', out) \<Longrightarrow> bus_ok b' \<and> flows (eb_objects b) (eb_objects b') out"
proof (induction cs arbitrary: b b' out)
  case (Cons c cs)
  obtain b1 o1 where s: "bus_step b c = (b1, o1)" by fastforce
  obtain b2 o2 where r: "bus_run b1 cs = (b2, o2)" by fastforce
  from bus_step_keeps [OF Cons.prems(1) s] Cons.IH [OF _ r] Cons.prems(2) s r flows_trans show ?case by force
qed simp

lemma bus_init_ok [simp]: "bus_ok (bus_init n)"
  by (simp add: bus_ok_def targets_ok_def bus_init_def)

section \<open>Queues are first in, first out, and lose only what they may drop\<close>

lemma no_drops_delivered:
  "(\<And>ev. Dropped t ev \<notin> set outs) \<Longrightarrow> departed t outs = delivered t outs"
proof (induction outs)
  case (Cons x outs)
  then have "departed t outs = delivered t outs" by simp
  moreover have "departure t x = delivery t x" using Cons.prems by (cases x) auto
  ultimately show ?case by (simp add: trace_defs)
qed (simp add: trace_defs)

text \<open>
  C24. Whatever the order of publishers, handlers, subscriptions and cancellations: what a subscriber's queue
  accepted is what was handed to its handler, in that order, followed by what still waits. Only a queue
  that was made to drop may lose events, and it loses its oldest ones.
\<close>

theorem queues_are_fifo:
  "case bus_run (bus_init n) cs of (b, outs) \<Rightarrow>
     list_all (\<lambda>t. let sb = eb_objects b ! t in
                 (if sb_drop_if_full sb then departed t outs else delivered t outs) @ sb_queue sb = accepted t outs)
       [0..<length (eb_objects b)]"
proof -
  obtain b outs where r: "bus_run (bus_init n) cs = (b, outs)" by fastforce
  from bus_run_keeps [OF bus_init_ok r] have f: "flows [] (eb_objects b) outs" by (simp add: bus_init_def)
  have "(if sb_drop_if_full (eb_objects b ! t) then departed t outs else delivered t outs) @ sb_queue (eb_objects b ! t)
      = accepted t outs" if "t < length (eb_objects b)" for t
  proof -
    have "departed t outs @ sb_queue (eb_objects b ! t) = accepted t outs"
      using f that by (auto simp: flows_def queue_at_def dest: spec [of _ t])
    moreover have "departed t outs = delivered t outs" if "\<not> sb_drop_if_full (eb_objects b ! t)"
      using f that by (intro no_drops_delivered) (auto simp: flows_def)
    ultimately show ?thesis by (cases "sb_drop_if_full (eb_objects b ! t)") simp_all
  qed
  then show ?thesis unfolding r prod.case list_all_iff Let_def by simp
qed

text \<open>
  No queue grows over its bound, and the count of unfinished tasks that \<open>flush\<close> waits for is the length of
  the queue, plus one while a handler runs: \<open>task_done\<close> never raises, and \<open>join\<close> returns exactly when
  nothing is queued or being handled.
\<close>

theorem bus_queues_are_bounded:
  "list_all (\<lambda>sb. (sb_maxsize sb = 0 \<or> length (sb_queue sb) \<le> sb_maxsize sb)
       \<and> sb_unfinished sb = int (length (sb_queue sb)) + (if sb_current sb = None then 0 else 1)
       \<and> (queue_joined sb \<longleftrightarrow> sb_queue sb = [] \<and> sb_current sb = None))
     (eb_objects (fst (bus_run (bus_init n) cs)))"
proof -
  obtain b outs where r: "bus_run (bus_init n) cs = (b, outs)" by fastforce
  from bus_run_keeps [OF bus_init_ok r] have "list_all subscription_ok (eb_objects b)" by (simp add: bus_ok_def)
  then show ?thesis unfolding r fst_conv
    by (rule list.pred_mono_strong) (auto simp: subscription_ok_def queue_joined_def)
qed

section \<open>A publisher that waits on a cancelled subscriber\<close>

definition stuck :: "'e event_bus \<Rightarrow> nat \<Rightarrow> 'e publication \<Rightarrow> bool" where
  "stuck b p w \<longleftrightarrow>
     p < length (eb_publications b) \<and> eb_publications b ! p = Some w
     \<and> pb_waits_on w < length (eb_objects b)
     \<and> (let sb = eb_objects b ! pb_waits_on w in queue_full sb \<and> \<not> sb_alive sb)"

definition dead_full :: "'e subscription \<Rightarrow> bool" where
  "dead_full sb \<longleftrightarrow> queue_full sb \<and> \<not> sb_alive sb"

lemma publish_to_dead_full:
  assumes "publish_to p ev ts i objs = (objs', out, w)" "t < length objs" "dead_full (objs ! t)"
  shows "dead_full (objs' ! t) \<and> length objs' = length objs"
  using assms
proof (induction p ev ts i objs arbitrary: objs' out w rule: publish_to.induct)
  case (2 p ev u ts i objs)
  let ?sb = "objs ! u"
  let ?sb1 = "?sb\<lparr>sb_full_count := sb_full_count ?sb + 1\<rparr>"
  consider "skips ?sb ev" | "\<not> skips ?sb ev" "\<not> queue_full ?sb"
    | "\<not> skips ?sb ev" "queue_full ?sb" "\<not> sb_drop_if_full ?sb"
    | "\<not> skips ?sb ev" "queue_full ?sb" "sb_drop_if_full ?sb" by blast
  then show ?case
  proof cases
    case 1
    with "2.prems"(1) have "publish_to p ev ts (i + 1) objs = (objs', out, w)" by simp
    from "2.IH"(1) [OF refl 1 this "2.prems"(2,3)] show ?thesis .
  next
    case put: 2
    obtain o' where rest: "publish_to p ev ts (i + 1) (objs[u := queue_put ev ?sb]) = (objs', o', w)"
      using "2.prems"(1) put by (auto simp: Let_def split: prod.splits)
    have "u \<noteq> t" using put(2) "2.prems"(3) by (auto simp: dead_full_def)
    with "2.IH"(3) [OF refl put rest] "2.prems"(2,3) show ?thesis by simp
  next
    case 3
    then have "objs' = objs[u := ?sb1]" using "2.prems"(1) by (auto simp: Let_def)
    with "2.prems"(2,3) show ?thesis by (cases "u = t") (simp_all add: dead_full_def queue_full_def)
  next
    case 4
    obtain o' where rest: "publish_to p ev ts (i + 1) (objs[u := queue_put ev (queue_evict ?sb1)]) = (objs', o', w)"
      using "2.prems"(1) 4 by (auto simp: Let_def split: prod.splits)
    have "dead_full (objs[u := queue_put ev (queue_evict ?sb1)] ! t)"
      using "2.prems"(2,3) by (cases "u = t") (auto simp: dead_full_def queue_full_def queue_put_def queue_evict_def)
    with "2.IH"(2) [OF refl 4(1,2) refl _ rest] "2.prems"(2) 4(3) show ?thesis by simp
  qed
qed simp

lemma stuckI:
  assumes "stuck b p w" "p < length (eb_publications b')" "eb_publications b' ! p = Some w"
    "pb_waits_on w < length (eb_objects b')" "dead_full (eb_objects b' ! pb_waits_on w)"
  shows "stuck b' p w"
  using assms by (simp add: stuck_def dead_full_def Let_def)

lemma bus_step_stuck:
  assumes "stuck b p w" "bus_step b c = (b', out)"
  shows "stuck b' p w"
proof -
  let ?t = "pb_waits_on w"
  have p: "p < length (eb_publications b)" "eb_publications b ! p = Some w" and t: "?t < length (eb_objects b)"
    and dead: "dead_full (eb_objects b ! ?t)" using assms(1) by (simp_all add: stuck_def dead_full_def Let_def)
  have same: "dead_full (sb\<lparr>sb_current := x, sb_unfinished := y\<rparr>) = dead_full sb"
    "dead_full sb \<Longrightarrow> dead_full (cancel_drain sb)" for sb x y
    by (simp_all add: dead_full_def queue_full_def)
  show ?thesis
  proof (cases c)
    case (Publish ev)
    show ?thesis
    proof (cases "eb_running b")
      case True
      obtain objs o' v where pub: "publish_to (length (eb_publications b)) ev (eb_subscriptions b (bv_type ev)) 0 (eb_objects b) = (objs, o', v)"
        by (metis prod_cases3)
      from Publish True assms(2) pub have b': "b' = b\<lparr>eb_objects := objs, eb_publications := eb_publications b @ [v]\<rparr>"
        by (simp add: publish_def)
      note objs = publish_to_dead_full [OF pub t dead]
      show ?thesis
        by (rule stuckI [OF assms(1)]) (use p t objs in \<open>simp_all add: b' nth_append\<close>)
    next
      case False
      with Publish assms(2) have b': "b' = b\<lparr>eb_publications := eb_publications b @ [None]\<rparr>" by (simp add: publish_def)
      show ?thesis
        by (rule stuckI [OF assms(1)]) (use p t dead in \<open>simp_all add: b' nth_append\<close>)
    qed
  next
    case (Resume q)
    with assms(2) have "resume_publish b q = (b', out)" by simp
    then show ?thesis
    proof (cases rule: resume_cases)
      case idle
      with assms(1) show ?thesis by simp
    next
      case (moves u objs o' v)
      have "pb_waits_on u \<noteq> ?t" using moves(3) dead by (auto simp: dead_full_def)
      moreover have "q \<noteq> p" using moves(2,3) p(2) dead by (auto simp: dead_full_def)
      ultimately show ?thesis
        using publish_to_dead_full [OF moves(4), of ?t] p t dead
        by (intro stuckI [OF assms(1)]) (simp_all add: moves(5))
    qed
  next
    case (Drain_get u)
    show ?thesis
    proof (cases "u = ?t")
      case True
      with Drain_get assms(2) dead have "b' = b" by (auto simp: drain_get_def Let_def dead_full_def split: if_splits)
      with assms(1) show ?thesis by simp
    next
      case False
      obtain objs where "b' = b\<lparr>eb_objects := objs\<rparr>" "length objs = length (eb_objects b)" "objs ! ?t = eb_objects b ! ?t"
      proof (cases "u < length (eb_objects b) \<and> sb_alive (eb_objects b ! u) \<and> sb_current (eb_objects b ! u) = None")
        case True
        show thesis
        proof (cases "sb_queue (eb_objects b ! u)")
          case Nil
          with Drain_get assms(2) True have "b' = b" by (simp add: drain_get_def Let_def)
          with that [of "eb_objects b"] show thesis by simp
        next
          case (Cons x xs)
          with Drain_get assms(2) True have "b' = b\<lparr>eb_objects := (eb_objects b)
              [u := (eb_objects b ! u)\<lparr>sb_queue := xs, sb_current := Some x\<rparr>]\<rparr>"
            by (simp add: drain_get_def Let_def)
          then show thesis by (rule that) (use False in simp_all)
        qed
      next
        case no: False
        with Drain_get assms(2) have "b' = b" by (auto simp: drain_get_def Let_def split: if_splits)
        with that [of "eb_objects b"] show thesis by simp
      qed
      then show ?thesis by (intro stuckI [OF assms(1)]) (use p t dead in simp_all)
    qed
  next
    case (Drain_done u)
    then have pubs: "eb_publications b' = eb_publications b" "length (eb_objects b') = length (eb_objects b)"
      and obj: "dead_full (eb_objects b' ! ?t)"
      using assms(2) t dead by (auto simp: drain_done_def Let_def same nth_list_update split: if_splits)
    show ?thesis by (rule stuckI [OF assms(1)]) (use p t pubs obj in simp_all)
  next
    case (Unsubscribe u)
    then have pubs: "eb_publications b' = eb_publications b" "length (eb_objects b') = length (eb_objects b)"
      and obj: "dead_full (eb_objects b' ! ?t)"
      using assms(2) t dead by (auto simp: unsubscribe_def Let_def same nth_list_update split: if_splits)
    show ?thesis by (rule stuckI [OF assms(1)]) (use p t pubs obj in simp_all)
  next
    case (Subscribe ty s n d)
    then have pubs: "eb_publications b' = eb_publications b" "length (eb_objects b) \<le> length (eb_objects b')"
      and obj: "eb_objects b' ! ?t = eb_objects b ! ?t"
      using assms(2) t by (auto simp: subscribe_def Let_def nth_append)
    show ?thesis by (rule stuckI [OF assms(1)]) (use p t pubs obj dead in simp_all)
  next
    case Start_bus
    with assms(2) have b': "b' = b\<lparr>eb_running := True\<rparr>" by simp
    show ?thesis by (rule stuckI [OF assms(1)]) (use p t dead in \<open>simp_all add: b'\<close>)
  next
    case Stop_bus
    with assms(2) have pubs: "eb_publications b' = eb_publications b" "length (eb_objects b') = length (eb_objects b)"
      and obj: "dead_full (eb_objects b' ! ?t)"
      using t dead same(2) by (auto simp: stop_bus_def)
    show ?thesis by (rule stuckI [OF assms(1)]) (use p t pubs obj in simp_all)
  qed
qed

lemma bus_run_stuck: "stuck b p w \<Longrightarrow> stuck (fst (bus_run b cs)) p w"
proof (induction cs arbitrary: b)
  case (Cons c cs)
  obtain b1 o1 where s: "bus_step b c = (b1, o1)" by fastforce
  obtain b2 o2 where r: "bus_run b1 cs = (b2, o2)" by fastforce
  from Cons.IH [OF bus_step_stuck [OF Cons.prems s]] s r show ?case by simp
qed simp

text \<open>
  Unsubscribing a subscriber cancels its drain task but leaves its queue as it is: a publisher that
  waits for room in that queue waits for ever, whatever runs afterwards, and the later subscribers
  of its event never get it.
\<close>

theorem unsubscribing_strands_the_publisher:
  assumes "p < length (eb_publications b)" "eb_publications b ! p = Some w"
    "pb_waits_on w < length (eb_objects b)" "queue_full (eb_objects b ! pb_waits_on w)"
  shows "eb_publications (fst (bus_run b (Unsubscribe (pb_waits_on w) # cs))) ! p = Some w"
proof -
  have "stuck (unsubscribe b (pb_waits_on w)) p w"
    using assms by (simp add: stuck_def unsubscribe_def Let_def queue_full_def)
  from bus_run_stuck [OF this, of cs] show ?thesis by (simp add: stuck_def split: prod.splits)
qed

text \<open>A queue of one: the second event waits, the subscriber leaves, a second subscriber never sees the event.\<close>

definition sample_bus_event :: "nat bus_event" where
  "sample_bus_event = \<lparr>bv_type = Event_BAR, bv_symbol = Some ''MNQ'', bv_payload = 0\<rparr>"

definition sample_bus :: "nat event_bus" where
  "sample_bus =
     fst (bus_run (bus_init 1)
            [Start_bus, Subscribe Event_BAR None None False, Subscribe Event_BAR None None False,
             Publish sample_bus_event, Drain_get 1, Publish sample_bus_event])"

lemma unsubscribing_strands_the_publisher_witness:
  "eb_publications
     (fst (bus_run sample_bus (Unsubscribe 0 # [Resume 1, Drain_get 0, Drain_done 1, Drain_get 1]))) ! 1
   = Some \<lparr>pb_event = sample_bus_event, pb_waits_on = 0, pb_next = 1\<rparr>"
  using unsubscribing_strands_the_publisher
    [of 1 sample_bus "\<lparr>pb_event = sample_bus_event, pb_waits_on = 0, pb_next = 1\<rparr>"
       "[Resume 1, Drain_get 0, Drain_done 1, Drain_get 1]"]
  by (simp add: sample_bus_def sample_bus_event_def bus_init_def subscribe_def publish_def skips_def queue_full_def
      queue_put_def drain_get_def)

end
