(* ===== verification/Engine_Lifecycle.thy ===== *)
theory Engine_Lifecycle
  imports Prelude Enums "HOL-Library.Transitive_Closure_Table"
begin

text \<open>
  The lifecycle every engine inherits, \<^verbatim>\<open>src/alpha/core/engine.py\<close>, and the clocks of
  \<^verbatim>\<open>src/alpha/core/clock.py\<close>. \<open>initialize\<close>, \<open>start\<close> and \<open>stop\<close> suspend once, in the hook the engine
  overrides. Each is two atomic steps: the call, up to the hook, and the hook's end. Between
  the two, other calls run. A hook returns, raises an \<open>Exception\<close>, or is cancelled: \<open>CancelledError\<close> is
  no \<open>Exception\<close>, so no handler of the class sees it.
\<close>

section \<open>The engine\<close>

record base_engine =
  be_state :: engine_state
  be_error :: "string option"
  be_started_at :: "timestamp option"
  be_stopped_at :: "timestamp option"

definition base_engine_new :: base_engine where
  "base_engine_new = \<lparr>be_state = Engine_CREATED, be_error = None, be_started_at = None, be_stopped_at = None\<rparr>"

datatype hook_end = Hook_returned | Hook_raised string | Hook_cancelled

definition transition_error :: "base_engine \<Rightarrow> string \<Rightarrow> base_engine" where
  "transition_error e err = e\<lparr>be_state := Engine_ERROR, be_error := Some err\<rparr>"

text \<open>\<open>_assert_state\<close>: a call in another state raises \<open>RuntimeError\<close>.\<close>

datatype engine_error = Wrong_state engine_state engine_state

definition assert_state :: "base_engine \<Rightarrow> engine_state \<Rightarrow> engine_error option" where
  "assert_state e expected = (if be_state e \<noteq> expected then Some (Wrong_state expected (be_state e)) else None)"

definition initialize_call :: "base_engine \<Rightarrow> engine_error + base_engine" where
  "initialize_call e =
     (case assert_state e Engine_CREATED of
        Some err \<Rightarrow> Inl err
      | None \<Rightarrow> Inr (e\<lparr>be_state := Engine_INITIALIZING\<rparr>))"

definition initialize_end :: "base_engine \<Rightarrow> hook_end \<Rightarrow> base_engine" where
  "initialize_end e h =
     (case h of
        Hook_returned \<Rightarrow> e\<lparr>be_state := Engine_READY\<rparr>
      | Hook_raised err \<Rightarrow> transition_error e err
      | Hook_cancelled \<Rightarrow> e)"

definition start_call :: "base_engine \<Rightarrow> timestamp \<Rightarrow> engine_error + base_engine" where
  "start_call e now =
     (case assert_state e Engine_READY of
        Some err \<Rightarrow> Inl err
      | None \<Rightarrow> Inr (e\<lparr>be_state := Engine_STARTING, be_started_at := Some now\<rparr>))"

definition start_end :: "base_engine \<Rightarrow> hook_end \<Rightarrow> base_engine" where
  "start_end e h =
     (case h of
        Hook_returned \<Rightarrow> e\<lparr>be_state := Engine_RUNNING\<rparr>
      | Hook_raised err \<Rightarrow> transition_error e err
      | Hook_cancelled \<Rightarrow> e)"

text \<open>\<open>stop\<close> returns at once in the other states; whatever its hook does, the \<open>finally\<close> block runs.\<close>

definition stoppable :: "engine_state \<Rightarrow> bool" where
  "stoppable st \<longleftrightarrow> st \<in> {Engine_RUNNING, Engine_STARTING, Engine_ERROR}"

definition stop_call :: "base_engine \<Rightarrow> base_engine" where
  "stop_call e = (if stoppable (be_state e) then e\<lparr>be_state := Engine_STOPPING\<rparr> else e)"

definition stop_end :: "base_engine \<Rightarrow> timestamp \<Rightarrow> base_engine" where
  "stop_end e now = e\<lparr>be_state := Engine_STOPPED, be_stopped_at := Some now\<rparr>"

section \<open>Health\<close>

record engine_health =
  eh_status :: health_status
  eh_details :: "engine_state option"
  eh_error :: "string option"

definition is_healthy :: "engine_health \<Rightarrow> bool" where
  "is_healthy h \<longleftrightarrow> eh_status h = Health_HEALTHY"

text \<open>\<open>hook\<close> is the engine's own \<open>_health_check\<close>; \<open>str(None)\<close> is \<open>None\<close>.\<close>

definition health_check :: "base_engine \<Rightarrow> engine_health \<Rightarrow> engine_health" where
  "health_check e hook =
     (if be_state e = Engine_ERROR
      then \<lparr>eh_status = Health_UNHEALTHY, eh_details = None,
            eh_error = Some (case be_error e of None \<Rightarrow> ''None'' | Some err \<Rightarrow> err)\<rparr>
      else if be_state e \<noteq> Engine_RUNNING
      then \<lparr>eh_status = Health_DEGRADED, eh_details = Some (be_state e), eh_error = None\<rparr>
      else hook)"

definition is_running :: "base_engine \<Rightarrow> bool" where
  "is_running e \<longleftrightarrow> be_state e = Engine_RUNNING"

section \<open>Runs\<close>

text \<open>The engine with the calls that wait in a hook.\<close>

record engine_run =
  ru_engine :: base_engine
  ru_initializing :: nat
  ru_starting :: nat
  ru_stopping :: nat

definition engine_run_new :: engine_run where
  "engine_run_new = \<lparr>ru_engine = base_engine_new, ru_initializing = 0, ru_starting = 0, ru_stopping = 0\<rparr>"

datatype engine_cmd =
  Initialize
| Initialize_ends hook_end
| Start timestamp
| Start_ends hook_end
| Stop
| Stop_ends timestamp

text \<open>A call that raises and an end that nobody waits for leave the run as it is.\<close>

fun engine_step :: "engine_run \<Rightarrow> engine_cmd \<Rightarrow> engine_run" where
  "engine_step r Initialize =
     (case initialize_call (ru_engine r) of
        Inl _ \<Rightarrow> r
      | Inr e \<Rightarrow> r\<lparr>ru_engine := e, ru_initializing := ru_initializing r + 1\<rparr>)"
| "engine_step r (Initialize_ends h) =
     (if ru_initializing r = 0 then r
      else r\<lparr>ru_engine := initialize_end (ru_engine r) h, ru_initializing := ru_initializing r - 1\<rparr>)"
| "engine_step r (Start now) =
     (case start_call (ru_engine r) now of
        Inl _ \<Rightarrow> r
      | Inr e \<Rightarrow> r\<lparr>ru_engine := e, ru_starting := ru_starting r + 1\<rparr>)"
| "engine_step r (Start_ends h) =
     (if ru_starting r = 0 then r
      else r\<lparr>ru_engine := start_end (ru_engine r) h, ru_starting := ru_starting r - 1\<rparr>)"
| "engine_step r Stop =
     (if stoppable (be_state (ru_engine r))
      then r\<lparr>ru_engine := stop_call (ru_engine r), ru_stopping := ru_stopping r + 1\<rparr>
      else r)"
| "engine_step r (Stop_ends now) =
     (if ru_stopping r = 0 then r
      else r\<lparr>ru_engine := stop_end (ru_engine r) now, ru_stopping := ru_stopping r - 1\<rparr>)"

fun engine_runs :: "engine_run \<Rightarrow> engine_cmd list \<Rightarrow> engine_run" where
  "engine_runs r [] = r"
| "engine_runs r (c # cs) = engine_runs (engine_step r c) cs"

section \<open>The documented state machine\<close>

inductive lifecycle_step :: "engine_state \<Rightarrow> engine_state \<Rightarrow> bool" where
  "lifecycle_step Engine_CREATED Engine_INITIALIZING"
| "lifecycle_step Engine_INITIALIZING Engine_READY"
| "lifecycle_step Engine_INITIALIZING Engine_ERROR"
| "lifecycle_step Engine_READY Engine_STARTING"
| "lifecycle_step Engine_STARTING Engine_RUNNING"
| "lifecycle_step Engine_STARTING Engine_ERROR"
| "lifecycle_step Engine_RUNNING Engine_STOPPING"
| "lifecycle_step Engine_ERROR Engine_STOPPING"
| "lifecycle_step Engine_STOPPING Engine_STOPPED"

inductive_cases lifecycle_from_stopped: "lifecycle_step Engine_STOPPED st"

lemmas lifecycle_intros = lifecycle_step.intros

text \<open>No stop while a start is under way: the calls the documentation has in mind.\<close>

fun orderly :: "engine_run \<Rightarrow> engine_cmd list \<Rightarrow> bool" where
  "orderly r [] = True"
| "orderly r (c # cs) = ((c = Stop \<longrightarrow> be_state (ru_engine r) \<noteq> Engine_STARTING) \<and> orderly (engine_step r c) cs)"

definition run_ok :: "engine_run \<Rightarrow> bool" where
  "run_ok r \<longleftrightarrow>
     (ru_initializing r > 0 \<longrightarrow> be_state (ru_engine r) = Engine_INITIALIZING \<and> ru_initializing r = 1)
     \<and> (ru_starting r > 0 \<longrightarrow> be_state (ru_engine r) = Engine_STARTING \<and> ru_starting r = 1)
     \<and> (ru_stopping r > 0 \<longrightarrow> be_state (ru_engine r) = Engine_STOPPING \<and> ru_stopping r = 1)"

lemmas call_defs = initialize_call_def start_call_def stop_call_def assert_state_def stoppable_def
lemmas end_defs = initialize_end_def start_end_def stop_end_def transition_error_def

lemma run_ok_new: "run_ok engine_run_new"
  by (simp add: run_ok_def engine_run_new_def)

lemma engine_step_ok:
  assumes "run_ok r" "c = Stop \<longrightarrow> be_state (ru_engine r) \<noteq> Engine_STARTING"
  shows "run_ok (engine_step r c)
    \<and> lifecycle_step\<^sup>=\<^sup>= (be_state (ru_engine r)) (be_state (ru_engine (engine_step r c)))"
  using assms
  by (cases c) (auto simp: run_ok_def call_defs end_defs intro: lifecycle_intros split: hook_end.splits)

text \<open>The states a run goes through, one for each command and the first.\<close>

fun states_of :: "engine_run \<Rightarrow> engine_cmd list \<Rightarrow> engine_state list" where
  "states_of r [] = [be_state (ru_engine r)]"
| "states_of r (c # cs) = be_state (ru_engine r) # states_of (engine_step r c) cs"

lemma states_of_Cons: "\<exists>sts. states_of r cs = be_state (ru_engine r) # sts"
  by (cases cs) simp_all

lemma last_states_of: "last (states_of r cs) = be_state (ru_engine (engine_runs r cs))"
  by (induction cs arbitrary: r) (simp, metis states_of_Cons engine_runs.simps(2) last_ConsR list.distinct(1) states_of.simps(2))

lemma states_follow_arrows:
  "run_ok r \<Longrightarrow> orderly r cs \<Longrightarrow> successively lifecycle_step (remdups_adj (states_of r cs))"
proof (induction cs arbitrary: r)
  case (Cons c cs)
  let ?r = "engine_step r c"
  from Cons.prems have step: "run_ok ?r" "lifecycle_step\<^sup>=\<^sup>= (be_state (ru_engine r)) (be_state (ru_engine ?r))"
    using engine_step_ok [of r c] by simp_all
  have IH: "successively lifecycle_step (remdups_adj (states_of ?r cs))" using Cons.IH [OF step(1)] Cons.prems(2) by simp
  obtain sts where sts: "states_of ?r cs = be_state (ru_engine ?r) # sts" using states_of_Cons by blast
  obtain rest where rest: "remdups_adj (be_state (ru_engine ?r) # sts) = be_state (ru_engine ?r) # rest"
    by (metis remdups_adj_Cons_alt)
  from IH step(2) show ?case by (auto simp: sts rest)
qed simp

text \<open>
  C25. Used in order, every engine follows the state machine: as long as no stop falls into a start, the
  sequence of states a run goes through, starting with the new engine's, has only arrows of the table between
  neighbours that differ, whatever calls and hook ends make up the run, failed and cancelled hooks included. So
  no stopped engine starts again, no call skips a state, and no state is entered but from its predecessors. (The
  header draws \<open>ERROR\<close> after \<open>STOPPING\<close> only; the code enters it from a failed initialisation or start and leaves
  it by a stop, and the table here has these arrows.)
\<close>

theorem engine_refines_lifecycle:
  assumes "orderly engine_run_new cs"
  shows "hd (states_of engine_run_new cs) = Engine_CREATED \<and> last (states_of engine_run_new cs) = be_state (ru_engine (engine_runs engine_run_new cs))
    \<and> successively lifecycle_step (remdups_adj (states_of engine_run_new cs))"
proof -
  have "states_of engine_run_new cs = Engine_CREATED # tl (states_of engine_run_new cs)"
    by (cases cs) (simp_all add: engine_run_new_def base_engine_new_def)
  then have "hd (states_of engine_run_new cs) = Engine_CREATED" by (metis list.sel(1))
  with states_follow_arrows [OF run_ok_new assms] show ?thesis by (simp add: last_states_of)
qed

lemma engine_refines_lifecycle_witness:
  "successively lifecycle_step (remdups_adj (states_of engine_run_new
       [Initialize, Initialize_ends Hook_returned, Start 1, Start_ends (Hook_raised ''no feed''), Stop, Stop_ends 2]))
   \<and> states_of engine_run_new
       [Initialize, Initialize_ends Hook_returned, Start 1, Start_ends (Hook_raised ''no feed''), Stop, Stop_ends 2]
     = [Engine_CREATED, Engine_INITIALIZING, Engine_READY, Engine_STARTING, Engine_ERROR, Engine_STOPPING, Engine_STOPPED]"
  using engine_refines_lifecycle
    [of "[Initialize, Initialize_ends Hook_returned, Start 1, Start_ends (Hook_raised ''no feed''), Stop, Stop_ends 2]"]
  by (simp add: engine_run_new_def base_engine_new_def call_defs end_defs)

text \<open>
  A stop that falls into a start is undone: \<open>stop\<close> accepts a starting engine and runs to its end,
  but it does not end the start, and when the start hook returns the engine is running again, with
  its stop time set.
\<close>

theorem stop_during_start_is_undone:
  assumes "be_state (ru_engine r) = Engine_STARTING" "0 < ru_starting r"
  shows "is_running (ru_engine (engine_runs r [Stop, Stop_ends now, Start_ends Hook_returned]))
    \<and> be_stopped_at (ru_engine (engine_runs r [Stop, Stop_ends now, Start_ends Hook_returned])) = Some now"
  using assms by (simp add: call_defs end_defs is_running_def)

lemma stop_during_start_is_undone_witness:
  "is_running (ru_engine (engine_runs (engine_runs engine_run_new [Initialize, Initialize_ends Hook_returned, Start 1])
     [Stop, Stop_ends 2, Start_ends Hook_returned]))"
  using stop_during_start_is_undone
    [of "engine_runs engine_run_new [Initialize, Initialize_ends Hook_returned, Start 1]" 2]
  by (simp add: engine_run_new_def base_engine_new_def call_defs end_defs)

section \<open>Clocks\<close>

text \<open>Seconds are exact here: Python rounds them to binary floats and times to microseconds. A replay clock is its virtual start, the wall time it was made at, and its speed.\<close>

record replay_clock =
  rk_virtual_start :: rat
  rk_wall_start :: rat
  rk_speed :: rat

datatype clock_error = Speed_not_positive

definition replay_clock_new :: "rat \<Rightarrow> rat \<Rightarrow> rat \<Rightarrow> clock_error + replay_clock" where
  "replay_clock_new start_time wall speed =
     (if speed \<le> 0 then Inl Speed_not_positive
      else Inr \<lparr>rk_virtual_start = start_time, rk_wall_start = wall, rk_speed = speed\<rparr>)"

definition replay_now :: "replay_clock \<Rightarrow> rat \<Rightarrow> rat" where
  "replay_now k wall = rk_virtual_start k + (wall - rk_wall_start k) * rk_speed k"

definition replay_sleep :: "replay_clock \<Rightarrow> rat \<Rightarrow> rat" where
  "replay_sleep k seconds = seconds / rk_speed k"

text \<open>The wall seconds \<open>sleep_until\<close> sleeps, if it sleeps.\<close>

definition replay_sleep_until :: "replay_clock \<Rightarrow> rat \<Rightarrow> rat \<Rightarrow> rat option" where
  "replay_sleep_until k wall target =
     (let delta = target - replay_now k wall in if delta > 0 then Some (delta / rk_speed k) else None)"

definition wall_sleep_until :: "rat \<Rightarrow> rat \<Rightarrow> rat option" where
  "wall_sleep_until wall target = (let delta = target - wall in if delta > 0 then Some delta else None)"

text \<open>Sleeping until a virtual time wakes at that virtual time, whatever the speed.\<close>

lemma replay_sleep_wakes_on_time:
  assumes "replay_clock_new start_time wall0 speed = Inr k" "replay_sleep_until k wall target = Some s"
  shows "0 < s \<and> replay_now k (wall + s) = target"
proof -
  have k: "rk_speed k > 0" using assms(1) by (auto simp: replay_clock_new_def split: if_splits)
  from assms(2) have s: "target - replay_now k wall > 0" "s = (target - replay_now k wall) / rk_speed k"
    by (auto simp: replay_sleep_until_def Let_def split: if_splits)
  have "0 < s" unfolding s(2) using s(1) k by (rule divide_pos_pos)
  moreover have "replay_now k (wall + s) = target" using s(2) k by (simp add: replay_now_def field_simps)
  ultimately show ?thesis ..
qed

end
