(* ===== verification/Decimal_Text.thy ===== *)
theory Decimal_Text
  imports Prelude
begin

text \<open>
  How Python writes and reads the decimals of the stored files: \<open>str(Decimal)\<close> in plain notation, with
  the number of digits after the point that the decimal carries, and \<open>Decimal(text)\<close> on such a
  text. Scientific notation and special values are not written by the program and are rejected here.
\<close>

section \<open>Digits\<close>

definition digit_char :: "nat \<Rightarrow> char" where
  "digit_char d = char_of (48 + d)"

definition char_digit :: "char \<Rightarrow> nat option" where
  "char_digit c = (let n = of_char c :: nat in if 48 \<le> n \<and> n \<le> 57 then Some (n - 48) else None)"

lemma char_digit_digit_char [simp]: "d < 10 \<Longrightarrow> char_digit (digit_char d) = Some d"
  by (simp add: digit_char_def char_digit_def Let_def)

lemma digit_char_ne [simp]: "d < 10 \<Longrightarrow> digit_char d \<noteq> CHR ''.''" "d < 10 \<Longrightarrow> digit_char d \<noteq> CHR ''-''"
proof -
  have "of_char (digit_char d) = 48 + d" if "d < 10"
    using that by (simp add: digit_char_def)
  moreover have "(of_char (CHR ''.'') :: nat) = 46" "(of_char (CHR ''-'') :: nat) = 45" by simp_all
  ultimately show "d < 10 \<Longrightarrow> digit_char d \<noteq> CHR ''.''" "d < 10 \<Longrightarrow> digit_char d \<noteq> CHR ''-''" by force+
qed

fun nat_text :: "nat \<Rightarrow> string" where
  "nat_text n = (if n < 10 then [digit_char n] else nat_text (n div 10) @ [digit_char (n mod 10)])"

declare nat_text.simps [simp del]

fun parse_digits :: "nat \<Rightarrow> string \<Rightarrow> nat option" where
  "parse_digits acc [] = Some acc"
| "parse_digits acc (c # cs) =
     (case char_digit c of None \<Rightarrow> None | Some d \<Rightarrow> parse_digits (10 * acc + d) cs)"

definition parse_nat :: "string \<Rightarrow> nat option" where
  "parse_nat s = (if s = [] then None else parse_digits 0 s)"

lemma parse_digits_append:
  "parse_digits acc (s @ t) = (case parse_digits acc s of None \<Rightarrow> None | Some n \<Rightarrow> parse_digits n t)"
  by (induction acc s rule: parse_digits.induct) (auto split: option.split)

lemma nat_text_nonempty [simp]: "nat_text n \<noteq> []"
  by (subst nat_text.simps) simp

lemma parse_digits_nat_text [simp]: "parse_digits 0 (nat_text n) = Some n"
proof (induction n rule: nat_text.induct)
  case (1 n)
  show ?case
  proof (cases "n < 10")
    case True
    then show ?thesis by (subst nat_text.simps) simp
  next
    case False
    with 1 show ?thesis by (subst nat_text.simps) (simp add: parse_digits_append)
  qed
qed

text \<open>The digits of \<open>n\<close> in a field of \<open>k\<close> digits.\<close>

fun fixed_digits :: "nat \<Rightarrow> nat \<Rightarrow> string" where
  "fixed_digits 0 n = []"
| "fixed_digits (Suc k) n = fixed_digits k (n div 10) @ [digit_char (n mod 10)]"

lemma length_fixed_digits [simp]: "length (fixed_digits k n) = k"
  by (induction k n rule: fixed_digits.induct) simp_all

lemma parse_fixed_digits: "parse_digits acc (fixed_digits k n) = Some (acc * 10 ^ k + n mod 10 ^ k)"
proof (induction k n arbitrary: acc rule: fixed_digits.induct)
  case (2 k n)
  have "n mod 10 ^ Suc k = 10 * (n div 10 mod 10 ^ k) + n mod 10"
    by (simp add: mod_mult2_eq)
  with 2 show ?case by (simp add: parse_digits_append algebra_simps)
qed simp

lemma digits_have_no_mark:
  "CHR ''.'' \<notin> set (nat_text n) \<and> CHR ''-'' \<notin> set (nat_text n)"
proof (induction n rule: nat_text.induct)
  case (1 n)
  have "n mod 10 < 10" by simp
  note last = digit_char_ne [OF this, THEN not_sym]
  with 1 show ?case
    by (cases "n < 10") (auto simp: nat_text.simps [of n] dest: digit_char_ne [THEN not_sym])
qed

section \<open>Decimals\<close>

text \<open>\<open>str(x)\<close> of a decimal written with \<open>k\<close> digits after the point.\<close>

definition unsigned_text :: "nat \<Rightarrow> dec \<Rightarrow> string" where
  "unsigned_text k x =
     (let m = nat \<lfloor>x * 10 ^ k\<rfloor> in
      nat_text (m div 10 ^ k) @ (if k = 0 then [] else CHR ''.'' # fixed_digits k m))"

definition dec_text :: "nat \<Rightarrow> dec \<Rightarrow> string" where
  "dec_text k x = (if x < 0 then CHR ''-'' # unsigned_text k (- x) else unsigned_text k x)"

definition parse_unsigned :: "string \<Rightarrow> dec option" where
  "parse_unsigned s =
     (let whole = takeWhile (\<lambda>c. c \<noteq> CHR ''.'') s; rest = dropWhile (\<lambda>c. c \<noteq> CHR ''.'') s in
      case parse_nat whole of
        None \<Rightarrow> None
      | Some n \<Rightarrow>
          (case rest of
             [] \<Rightarrow> Some (of_nat n)
           | _ # digits \<Rightarrow>
               (case parse_nat digits of
                  None \<Rightarrow> None
                | Some f \<Rightarrow> Some (of_nat n + of_nat f / 10 ^ length digits))))"

definition parse_dec :: "string \<Rightarrow> dec option" where
  "parse_dec s =
     (case s of
        [] \<Rightarrow> None
      | c # cs \<Rightarrow> if c = CHR ''-'' then map_option uminus (parse_unsigned cs) else parse_unsigned s)"

text \<open>\<open>x\<close> can be written with \<open>k\<close> digits after the point.\<close>

definition has_places :: "nat \<Rightarrow> dec \<Rightarrow> bool" where
  "has_places k x \<longleftrightarrow> of_int \<lfloor>x * 10 ^ k\<rfloor> = x * 10 ^ k"

lemma has_places_of_int [simp]: "has_places k (of_int m)"
proof -
  have "(of_int m * 10 ^ k :: rat) = of_int (m * 10 ^ k)" by simp
  then show ?thesis unfolding has_places_def by (metis floor_of_int)
qed

lemma has_places_uminus: "has_places k x \<Longrightarrow> has_places k (- x)"
proof -
  assume "has_places k x"
  then obtain m where "x * 10 ^ k = of_int m" unfolding has_places_def by metis
  then have "- x * 10 ^ k = of_int (- m)" by simp
  then show ?thesis unfolding has_places_def by (metis floor_of_int)
qed

lemma parse_unsigned_text:
  assumes "0 \<le> x" "has_places k x"
  shows "parse_unsigned (unsigned_text k x) = Some x"
proof -
  define m where "m = nat \<lfloor>x * 10 ^ k\<rfloor>"
  have "of_nat m = (of_int \<lfloor>x * 10 ^ k\<rfloor> :: rat)" using assms(1) by (simp add: m_def)
  with assms(2) have m: "of_nat m = x * 10 ^ k" by (simp add: has_places_def)
  have plain: "\<And>c. c \<in> set (nat_text n) \<Longrightarrow> c \<noteq> CHR ''.''" for n
    using digits_have_no_mark by metis
  show ?thesis unfolding unsigned_text_def Let_def m_def [symmetric]
  proof (cases "k = 0")
    case True
    have w: "takeWhile (\<lambda>c. c \<noteq> CHR ''.'') (nat_text m) = nat_text m"
      using plain by (simp add: takeWhile_eq_all_conv)
    have d: "dropWhile (\<lambda>c. c \<noteq> CHR ''.'') (nat_text m) = []"
      using plain by (simp add: dropWhile_eq_Nil_conv)
    from True m show "parse_unsigned (nat_text (m div 10 ^ k) @ (if k = 0 then [] else CHR ''.'' # fixed_digits k m)) = Some x"
      by (simp add: parse_unsigned_def parse_nat_def w d del: takeWhile_eq_all_conv dropWhile_eq_Nil_conv)
  next
    case False
    let ?w = "nat_text (m div 10 ^ k)" and ?f = "fixed_digits k m"
    have split: "takeWhile (\<lambda>c. c \<noteq> CHR ''.'') (?w @ CHR ''.'' # ?f) = ?w"
      "dropWhile (\<lambda>c. c \<noteq> CHR ''.'') (?w @ CHR ''.'' # ?f) = CHR ''.'' # ?f"
      using plain by (simp_all add: takeWhile_append2 dropWhile_append2)
    have "of_nat m = (of_nat (m div 10 ^ k * 10 ^ k + m mod 10 ^ k) :: rat)" by (simp only: div_mult_mod_eq)
    with m have "x * 10 ^ k = of_nat (m div 10 ^ k) * 10 ^ k + of_nat (m mod 10 ^ k)" by simp
    then have x: "of_nat (m div 10 ^ k) + of_nat (m mod 10 ^ k) / 10 ^ k = x" by (simp add: field_simps)
    have "?f \<noteq> []" using False by (metis length_fixed_digits list.size(3))
    with False split x show "parse_unsigned (?w @ (if k = 0 then [] else CHR ''.'' # ?f)) = Some x"
      by (simp only: parse_unsigned_def Let_def split parse_nat_def nat_text_nonempty parse_digits_nat_text
          parse_fixed_digits length_fixed_digits if_False option.case list.case) simp
  qed
qed

lemma parse_dec_text: "has_places k x \<Longrightarrow> parse_dec (dec_text k x) = Some x"
proof -
  assume x: "has_places k x"
  obtain c cs where head: "unsigned_text k x = c # cs" "c \<in> set (nat_text (nat \<lfloor>x * 10 ^ k\<rfloor> div 10 ^ k))"
  proof -
    obtain c cs where "nat_text (nat \<lfloor>x * 10 ^ k\<rfloor> div 10 ^ k) = c # cs" by (metis list.exhaust nat_text_nonempty)
    with that [of c] show thesis by (simp add: unsigned_text_def Let_def)
  qed
  then have c: "c \<noteq> CHR ''-''" using digits_have_no_mark by metis
  show ?thesis
  proof (cases "x < 0")
    case True
    with parse_unsigned_text [OF _ has_places_uminus [OF x]] show ?thesis by (simp add: parse_dec_def dec_text_def)
  next
    case False
    with parse_unsigned_text [OF _ x] head(1) c show ?thesis by (simp add: parse_dec_def dec_text_def)
  qed
qed

lemma dec_text_inject: "has_places k x \<Longrightarrow> has_places k y \<Longrightarrow> dec_text k x = dec_text k y \<Longrightarrow> x = y"
  by (metis option.inject parse_dec_text)

end
