(* ===== verification/Volume_Profile.thy ===== *)
theory Volume_Profile
  imports Feature_Engine Decimal_Text Float_Math "HOL-Library.AList" "HOL-Library.Multiset"
begin

text \<open>
  The volume profile builder, \<^verbatim>\<open>src/alpha/features/volume_profile.py\<close>: bins, the two ways volume is
  distributed over them, the value area, the high and low volume nodes and the profile made of
  them. The builder's dictionaries are association lists in insertion order. The two loops that
  Python runs until a condition holds (the bins of a bar, the value area) are partial functions:
  \<open>None\<close> is a loop that never ends. An exception is \<open>Inl\<close>. \<open>vb_places\<close> is the number of digits after
  the point that the bin size is written with; every level carries as many.
\<close>

section \<open>Builder\<close>

record profile_builder =
  vb_bin_size :: dec
  vb_places :: nat
  vb_value_area_pct :: rat
  vb_max_hvn :: nat
  vb_max_lvn :: nat
  vb_min_merge_distance :: dec

definition DEFAULT_BIN_SIZE :: dec where "DEFAULT_BIN_SIZE = 1"
definition VALUE_AREA_PCT :: rat where "VALUE_AREA_PCT = fl (7/10)"
definition DEFAULT_MAX_HVN :: nat where "DEFAULT_MAX_HVN = 5"
definition DEFAULT_MAX_LVN :: nat where "DEFAULT_MAX_LVN = 5"
definition DEFAULT_MIN_MERGE_DISTANCE :: dec where "DEFAULT_MIN_MERGE_DISTANCE = 8"

definition default_builder :: profile_builder where
  "default_builder =
     \<lparr>vb_bin_size = DEFAULT_BIN_SIZE, vb_places = 1, vb_value_area_pct = VALUE_AREA_PCT, vb_max_hvn = DEFAULT_MAX_HVN,
      vb_max_lvn = DEFAULT_MAX_LVN, vb_min_merge_distance = DEFAULT_MIN_MERGE_DISTANCE\<rparr>"

datatype profile_error = No_items | No_levels | Division_by_zero

section \<open>Distributions\<close>

type_synonym volume_dist = "(dec \<times> int) list"

definition volume_of :: "volume_dist \<Rightarrow> dec \<Rightarrow> int" where
  "volume_of d b = (case map_of d b of None \<Rightarrow> 0 | Some v \<Rightarrow> v)"

definition add_volume :: "dec \<Rightarrow> int \<Rightarrow> volume_dist \<Rightarrow> volume_dist" where
  "add_volume b v d = AList.update b (volume_of d b + v) d"

definition bin_of :: "dec \<Rightarrow> dec \<Rightarrow> dec" where
  "bin_of bin_size price = dq (of_int (int_trunc (dq (price / bin_size))) * bin_size)"

partial_function (option) bins_from :: "dec \<Rightarrow> dec \<Rightarrow> dec \<Rightarrow> dec list option" where
  "bins_from bin_size high_bin current =
     (if current \<le> high_bin
      then Option.bind (bins_from bin_size high_bin (dq (current + bin_size))) (\<lambda>bins. Some (current # bins))
      else Some [])"

definition allocation :: "int \<Rightarrow> nat \<Rightarrow> nat \<Rightarrow> int" where
  "allocation volume n i =
     (let base = volume div int n; remainder = volume - base * int n in
      base + (if int i < remainder then 1 else 0))"

definition spread_bar :: "int \<Rightarrow> dec list \<Rightarrow> volume_dist \<Rightarrow> volume_dist" where
  "spread_bar volume bins d =
     fold (\<lambda>(i, b). add_volume b (allocation volume (length bins) i)) (zip [0..<length bins] bins) d"

fun build_distribution :: "dec \<Rightarrow> bar list \<Rightarrow> volume_dist \<Rightarrow> volume_dist option" where
  "build_distribution bin_size [] d = Some d"
| "build_distribution bin_size (b # bs) d =
     (case bins_from bin_size (bin_of bin_size (br_high b)) (bin_of bin_size (br_low b)) of
        None \<Rightarrow> None
      | Some bins \<Rightarrow>
          build_distribution bin_size bs (if bins = [] then d else spread_bar (br_volume b) bins d))"

definition place_trade :: "dec \<Rightarrow> trade_event \<Rightarrow> volume_dist \<times> volume_dist \<Rightarrow> volume_dist \<times> volume_dist" where
  "place_trade bin_size t =
     (\<lambda>(vol, delta).
        (let b = bin_of bin_size (te_price t) in
         (add_volume b (te_size t) vol,
          if te_taker_side t = Taker_BUY then add_volume b (te_size t) delta
          else if te_taker_side t = Taker_SELL then add_volume b (- te_size t) delta
          else delta)))"

definition build_distribution_from_trades :: "dec \<Rightarrow> trade_event list \<Rightarrow> volume_dist \<times> volume_dist" where
  "build_distribution_from_trades bin_size trades = fold (place_trade bin_size) trades ([], [])"

section \<open>Value area\<close>

partial_function (option) value_loop ::
  "volume_dist \<Rightarrow> dec list \<Rightarrow> int \<Rightarrow> int \<Rightarrow> int \<Rightarrow> int \<Rightarrow> (int \<times> int \<times> int) option" where
  "value_loop d levels target lo hi va =
     (if va < target then
        (let next_hi = hi + 1; next_lo = lo - 1;
             vol_above = (if next_hi < int (length levels) then volume_of d (levels ! nat next_hi) else 0);
             vol_below = (if 0 \<le> next_lo then volume_of d (levels ! nat next_lo) else 0)
         in if vol_above = 0 \<and> vol_below = 0 then Some (lo, hi, va)
            else if vol_above \<ge> vol_below then value_loop d levels target lo next_hi (va + vol_above)
            else value_loop d levels target next_lo hi (va + vol_below))
      else Some (lo, hi, va))"

fun index_of :: "'a \<Rightarrow> 'a list \<Rightarrow> nat" where
  "index_of x [] = 0"
| "index_of x (y # ys) = (if y = x then 0 else Suc (index_of x ys))"

definition value_target :: "rat \<Rightarrow> int \<Rightarrow> int" where
  "value_target pct volume = \<lceil>fl (fl (of_int volume) * pct)\<rceil>"

definition value_area ::
  "profile_builder \<Rightarrow> volume_dist \<Rightarrow> dec list \<Rightarrow> dec \<Rightarrow> int \<Rightarrow> (dec \<times> dec \<times> int) option" where
  "value_area B d levels poc volume =
     (let i = int (index_of poc levels) in
      case value_loop d levels (value_target (vb_value_area_pct B) volume) i i (volume_of d poc) of
        None \<Rightarrow> None
      | Some (lo, hi, va) \<Rightarrow> Some (levels ! nat hi, levels ! nat lo, va))"

section \<open>High and low volume nodes\<close>

fun cluster_nodes :: "dec \<Rightarrow> (dec \<times> int) list \<Rightarrow> (dec \<times> int) list \<Rightarrow> (dec \<times> int) list list" where
  "cluster_nodes distance cur [] = [cur]"
| "cluster_nodes distance cur (n # ns) =
     (if dq (fst n - fst (last cur)) \<le> distance then cluster_nodes distance (cur @ [n]) ns
      else cur # cluster_nodes distance [n] ns)"

definition weighted_sum :: "(dec \<times> int) list \<Rightarrow> dec" where
  "weighted_sum cluster = foldl (\<lambda>s (p, v). dq (s + dq (p * of_int v))) 0 cluster"

definition merge_cluster :: "dec \<Rightarrow> (dec \<times> int) list \<Rightarrow> profile_error + dec \<times> int" where
  "merge_cluster bin_size cluster =
     (let total_vol = sum_list (map snd cluster) in
      if total_vol = 0 then Inl Division_by_zero
      else (let center = dq (weighted_sum cluster / of_int total_vol);
                n_bins = round_half_even (fl (fl center / fl bin_size))
            in Inr (dq (of_int n_bins * bin_size), total_vol)))"

fun merge_clusters :: "dec \<Rightarrow> (dec \<times> int) list list \<Rightarrow> profile_error + (dec \<times> int) list" where
  "merge_clusters bin_size [] = Inr []"
| "merge_clusters bin_size (c # cs) =
     (case merge_cluster bin_size c of
        Inl e \<Rightarrow> Inl e
      | Inr n \<Rightarrow> (case merge_clusters bin_size cs of Inl e \<Rightarrow> Inl e | Inr ns \<Rightarrow> Inr (n # ns)))"

text \<open>Python's sort is stable, also with \<open>reverse=True\<close>.\<close>

definition sort_by_volume :: "bool \<Rightarrow> (dec \<times> int) list \<Rightarrow> (dec \<times> int) list" where
  "sort_by_volume descending_vol ns = sort_key (\<lambda>n. if descending_vol then - snd n else snd n) ns"

definition merge_nodes :: "profile_builder \<Rightarrow> (dec \<times> int) list \<Rightarrow> bool \<Rightarrow> profile_error + (dec \<times> int) list" where
  "merge_nodes B nodes descending_vol =
     (if nodes = [] \<or> vb_min_merge_distance B \<le> 0 then Inr (sort_by_volume descending_vol nodes)
      else (let by_price = sort_key fst nodes in
            case merge_clusters (vb_bin_size B) (cluster_nodes (vb_min_merge_distance B) [hd by_price] (tl by_price)) of
              Inl e \<Rightarrow> Inl e
            | Inr merged \<Rightarrow> Inr (sort_by_volume descending_vol merged)))"

definition high_nodes :: "volume_dist \<Rightarrow> dec list \<Rightarrow> dec \<Rightarrow> (dec \<times> int) list" where
  "high_nodes d levels poc =
     [(levels ! i, volume_of d (levels ! i)).
        i \<leftarrow> [1..<length levels - 1],
        levels ! i \<noteq> poc \<and> volume_of d (levels ! i) > volume_of d (levels ! (i - 1))
        \<and> volume_of d (levels ! i) > volume_of d (levels ! (i + 1))]"

definition low_nodes :: "volume_dist \<Rightarrow> dec list \<Rightarrow> (dec \<times> int) list" where
  "low_nodes d levels =
     [(levels ! i, volume_of d (levels ! i)).
        i \<leftarrow> [1..<length levels - 1],
        volume_of d (levels ! i) < volume_of d (levels ! (i - 1))
        \<and> volume_of d (levels ! i) < volume_of d (levels ! (i + 1))]"

section \<open>The profile\<close>

definition point_of_control :: "volume_dist \<Rightarrow> dec" where
  "point_of_control d = Min {k \<in> fst ` set d. volume_of d k = Max (snd ` set d)}"

definition finalize_profile ::
  "profile_builder \<Rightarrow> volume_dist \<Rightarrow> volume_dist option \<Rightarrow> string \<Rightarrow> date \<Rightarrow> string \<Rightarrow> string \<Rightarrow>
   (profile_error + volume_profile) option" where
  "finalize_profile B d delta s day ty source =
     (let levels = sort (map fst d); volume = sum_list (map snd d); text_of = dec_text (vb_places B) in
      if d = [] then Some (Inl No_levels)
      else (let poc = point_of_control d in
        case value_area B d levels poc volume of
          None \<Rightarrow> None
        | Some (vah, val_low, va_volume) \<Rightarrow>
            (case merge_nodes B (high_nodes d levels poc) True of
               Inl e \<Rightarrow> Some (Inl e)
             | Inr high \<Rightarrow>
                 (let hvns = take (vb_max_hvn B) (map fst high) in
                  case merge_nodes B (low_nodes d levels) False of
                    Inl e \<Rightarrow> Some (Inl e)
                  | Inr low \<Rightarrow>
                      Some (Inr
                        \<lparr>vp_symbol = s, vp_session_date = day, vp_session_type = ty,
                         vp_bin_size = fl (vb_bin_size B), vp_source = source,
                         vp_poc = poc, vp_vah = vah, vp_val = val_low,
                         vp_total_volume = volume, vp_value_area_volume = va_volume,
                         vp_hvn_levels = hvns,
                         vp_lvn_levels = take (vb_max_lvn B) (filter (\<lambda>l. l \<notin> set hvns) (map fst low)),
                         vp_distribution = map (\<lambda>k. (text_of k, volume_of d k)) levels,
                         vp_delta_distribution =
                           map_option (\<lambda>dd. map (\<lambda>k. (text_of k, volume_of dd k)) (filter (\<lambda>k. k \<in> fst ` set dd) levels)) delta\<rparr>)))))"

definition build_profile ::
  "profile_builder \<Rightarrow> bar list \<Rightarrow> string \<Rightarrow> date \<Rightarrow> string \<Rightarrow> (profile_error + volume_profile) option" where
  "build_profile B bars s day ty =
     (if bars = [] then Some (Inl No_items)
      else if vb_bin_size B = 0 then Some (Inl Division_by_zero)
      else case build_distribution (vb_bin_size B) bars [] of
             None \<Rightarrow> None
           | Some d \<Rightarrow> finalize_profile B d None s day ty ''bars'')"

definition build_from_trades ::
  "profile_builder \<Rightarrow> trade_event list \<Rightarrow> string \<Rightarrow> date \<Rightarrow> string \<Rightarrow> (profile_error + volume_profile) option" where
  "build_from_trades B trades s day ty =
     (if trades = [] then Some (Inl No_items)
      else if vb_bin_size B = 0 then Some (Inl Division_by_zero)
      else case build_distribution_from_trades (vb_bin_size B) trades of
             (d, delta) \<Rightarrow> finalize_profile B d (Some delta) s day ty ''trades'')"

section \<open>Distributions add up\<close>

abbreviation dist_sum :: "volume_dist \<Rightarrow> int" where
  "dist_sum d \<equiv> sum_list (map snd d)"

definition volumes_ok :: "volume_dist \<Rightarrow> bool" where
  "volumes_ok d \<longleftrightarrow> distinct (map fst d) \<and> (\<forall>v \<in> snd ` set d. 0 \<le> v)"

lemma sum_add_volume [simp]: "dist_sum (add_volume b v d) = dist_sum d + v"
proof -
  have "dist_sum (AList.update b w d) = dist_sum d + w - volume_of d b" for w
    by (induction d) (auto simp: volume_of_def)
  then show ?thesis by (simp add: add_volume_def)
qed

lemma volume_of_add [simp]: "volume_of (add_volume b v d) k = volume_of d k + (if k = b then v else 0)"
  by (simp add: add_volume_def volume_of_def update_conv')

lemma keys_add_volume: "fst ` set (add_volume b v d) = insert b (fst ` set d)"
proof -
  have "fst ` set (AList.update b w d) = insert b (fst ` set d)" for w
    by (induction d) auto
  then show ?thesis by (simp add: add_volume_def)
qed

lemma volume_of_nonneg: "volumes_ok d \<Longrightarrow> 0 \<le> volume_of d k"
  by (force simp: volumes_ok_def volume_of_def split: option.split dest: map_of_SomeD)

lemma volumes_ok_add: "volumes_ok d \<Longrightarrow> 0 \<le> v \<Longrightarrow> volumes_ok (add_volume b v d)"
proof -
  assume ok: "volumes_ok d" and v: "0 \<le> v"
  have "snd ` set (AList.update b w d) \<subseteq> insert w (snd ` set d)" for w
    by (induction d) auto
  then have "\<forall>x \<in> snd ` set (add_volume b v d). 0 \<le> x"
    using ok v volume_of_nonneg [OF ok, of b] by (fastforce simp: add_volume_def volumes_ok_def)
  with ok show ?thesis by (simp add: volumes_ok_def add_volume_def distinct_update)
qed

lemma volumes_ok_Nil [simp]: "volumes_ok []"
  by (simp add: volumes_ok_def)

lemma sum_over_keys: "distinct (map fst d) \<Longrightarrow> sum_list (map (volume_of d) (map fst d)) = dist_sum d"
proof (induction d)
  case (Cons x d)
  have "map (volume_of (x # d)) (map fst d) = map (volume_of d) (map fst d)"
    using Cons.prems by (intro map_cong refl) (force simp: volume_of_def image_iff)
  moreover have "volume_of (x # d) (fst x) = snd x" by (simp add: volume_of_def)
  moreover have "sum_list (map (volume_of d) (map fst d)) = dist_sum d" using Cons by simp
  ultimately show ?case by (simp only: list.map sum_list.Cons)
qed simp

lemma sum_over_levels: "volumes_ok d \<Longrightarrow> sum_list (map (volume_of d) (sort (map fst d))) = dist_sum d"
  using sum_over_keys [of d] mset_map [of "volume_of d" "sort (map fst d)"] mset_map [of "volume_of d" "map fst d"]
  by (simp add: volumes_ok_def flip: sum_mset_sum_list)

text \<open>A bar's allocations add up to its volume.\<close>

lemma sum_allocation:
  assumes "0 < n"
  shows "(\<Sum>i\<leftarrow>[0..<n]. allocation volume n i) = volume"
proof -
  let ?r = "volume - volume div int n * int n"
  have r: "0 \<le> ?r" "?r < int n"
    using assms by (simp_all add: minus_div_mult_eq_mod)
  have "(\<Sum>i\<leftarrow>[0..<m]. if int i < ?r then 1 else 0 :: int) = min (int m) ?r" for m
    using r(1) by (induction m) auto
  with r(2) have rem: "(\<Sum>i\<leftarrow>[0..<n]. if int i < ?r then 1 else 0) = ?r" by simp
  have "(\<Sum>i\<leftarrow>[0..<n]. allocation volume n i) = int n * (volume div int n) + ?r"
    by (simp add: allocation_def Let_def sum_list_addf sum_list_triv rem)
  then show ?thesis by simp
qed

lemma allocation_nonneg: "0 \<le> volume \<Longrightarrow> 0 \<le> allocation volume n i"
  by (simp add: allocation_def Let_def pos_imp_zdiv_nonneg_iff div_int_pos_iff)

lemma sum_fold_add: "dist_sum (fold (\<lambda>(i, b). add_volume b (f i)) ps d) = dist_sum d + (\<Sum>(i, b)\<leftarrow>ps. f i)"
  by (induction ps arbitrary: d) auto

lemma ok_fold_add:
  "volumes_ok d \<Longrightarrow> (\<And>i. 0 \<le> f i) \<Longrightarrow> volumes_ok (fold (\<lambda>(i, b). add_volume b (f i)) ps d)"
  by (induction ps arbitrary: d) (auto intro: volumes_ok_add)

lemma sum_spread_bar: "bins \<noteq> [] \<Longrightarrow> dist_sum (spread_bar volume bins d) = dist_sum d + volume"
proof -
  assume "bins \<noteq> []"
  have "map (\<lambda>(i, b). allocation volume (length bins) i) (zip [0..<length bins] bins)
      = map (allocation volume (length bins)) (map fst (zip [0..<length bins] bins))"
    by (simp only: map_map comp_def case_prod_unfold)
  then have "map (\<lambda>(i, b). allocation volume (length bins) i) (zip [0..<length bins] bins)
      = map (allocation volume (length bins)) [0..<length bins]"
    by simp
  moreover have "0 < length bins" using \<open>bins \<noteq> []\<close> by simp
  ultimately show ?thesis by (simp only: spread_bar_def sum_fold_add sum_allocation)
qed

lemma ok_spread_bar: "volumes_ok d \<Longrightarrow> 0 \<le> volume \<Longrightarrow> volumes_ok (spread_bar volume bins d)"
  unfolding spread_bar_def by (intro ok_fold_add allocation_nonneg)

section \<open>Bins\<close>

lemma bin_of_mono: "0 < bin_size \<Longrightarrow> p \<le> q \<Longrightarrow> bin_of bin_size p \<le> bin_of bin_size q"
  unfolding bin_of_def
  by (intro dq_mono mult_right_mono) (simp_all add: int_trunc_mono dq_mono divide_right_mono)

lemma bins_from_nonempty: "bins_from bin_size high_bin low_bin = Some bins \<Longrightarrow> low_bin \<le> high_bin \<Longrightarrow> bins \<noteq> []"
  by (subst (asm) bins_from.simps) (auto simp: bind_eq_Some_conv)

lemma build_distribution_sum:
  assumes "build_distribution bin_size bars d = Some d'" "0 < bin_size" "\<forall>b \<in> set bars. br_low b \<le> br_high b"
  shows "dist_sum d' = dist_sum d + (\<Sum>b\<leftarrow>bars. br_volume b)"
  using assms
proof (induction bin_size bars d rule: build_distribution.induct)
  case (2 bin_size b bs d)
  then obtain bins where bins: "bins_from bin_size (bin_of bin_size (br_high b)) (bin_of bin_size (br_low b)) = Some bins"
    and rest: "build_distribution bin_size bs (if bins = [] then d else spread_bar (br_volume b) bins d) = Some d'"
    by (auto split: option.splits)
  have "bins \<noteq> []" using bins_from_nonempty [OF bins bin_of_mono] 2(3,4) by simp
  with 2(1) [OF bins rest] 2(3,4) show ?case by (simp add: sum_spread_bar)
qed simp

lemma build_distribution_ok:
  "build_distribution bin_size bars d = Some d' \<Longrightarrow> volumes_ok d \<Longrightarrow> \<forall>b \<in> set bars. 0 \<le> br_volume b \<Longrightarrow> volumes_ok d'"
  by (induction bin_size bars d rule: build_distribution.induct)
    (auto simp: ok_spread_bar split: option.splits if_splits)

section \<open>The loops end\<close>

text \<open>On the grid of a bin size with \<open>k\<close> decimals the bins of a bar are exact, so \<open>_build_distribution\<close> ends.\<close>

definition on_grid :: "dec \<Rightarrow> int \<Rightarrow> bool" where
  "on_grid bin_size n \<longleftrightarrow> dq (of_int n * bin_size) = of_int n * bin_size"

lemma bins_from_grid:
  assumes "0 < bin_size" "\<forall>j \<in> {a..c + 1}. on_grid bin_size j"
  shows "bins_from bin_size (of_int c * bin_size) (of_int a * bin_size) = Some (map (\<lambda>j. of_int j * bin_size) [a..c])"
  using assms(2)
proof (induction "nat (c + 1 - a)" arbitrary: a)
  case 0
  then have "c < a" by simp
  with assms(1) show ?case by (subst bins_from.simps) simp
next
  case (Suc n)
  then have le: "a \<le> c" by simp
  have "on_grid bin_size (a + 1)" using Suc.prems le by simp
  then have "dq (of_int a * bin_size + bin_size) = of_int (a + 1) * bin_size" by (simp add: on_grid_def algebra_simps)
  moreover have "bins_from bin_size (of_int c * bin_size) (of_int (a + 1) * bin_size)
      = Some (map (\<lambda>j. of_int j * bin_size) [a + 1..c])"
    using Suc.hyps(2) Suc.prems by (intro Suc.hyps(1)) auto
  ultimately show ?case using le assms(1) by (subst bins_from.simps) (simp add: upto_rec1 [of a c])
qed

definition grid_bound :: "dec \<Rightarrow> int \<Rightarrow> bool" where
  "grid_bound bin_size n \<longleftrightarrow> 0 < bin_size \<and> n < 10 ^ 28 \<and> (\<forall>j \<in> {- n..n + 1}. on_grid bin_size j)"

lemma grid_bound_decimal:
  assumes "0 < m" "0 \<le> n" "m * (n + 1) < 10 ^ 28"
  shows "grid_bound (of_int m / 10 ^ k) n"
proof -
  have "on_grid (of_int m / 10 ^ k) j" if "j \<in> {- n..n + 1}" for j
  proof -
    have "\<bar>j\<bar> \<le> n + 1" using that by auto
    with assms(1) have "\<bar>j * m\<bar> \<le> m * (n + 1)" by (simp add: abs_mult mult.commute mult_left_mono)
    with assms(3) have "\<bar>j * m\<bar> < 10 ^ 28" by linarith
    from dq_exact [OF this] show ?thesis by (simp add: on_grid_def)
  qed
  moreover have "1 * (n + 1) \<le> m * (n + 1)" using assms(1,2) by (intro mult_right_mono) simp_all
  ultimately show ?thesis using assms(1,3) by (simp add: grid_bound_def)
qed

lemma bin_of_grid:
  assumes "grid_bound bin_size n" "\<bar>p\<bar> \<le> of_int n * bin_size"
  obtains j where "\<bar>j\<bar> \<le> n" "bin_of bin_size p = of_int j * bin_size"
proof -
  have pos: "0 < bin_size" and n: "n < 10 ^ 28" using assms(1) by (simp_all add: grid_bound_def)
  have "- (of_int n * bin_size) \<le> p" "p \<le> of_int n * bin_size" using assms(2) by (simp_all only: abs_le_iff) linarith
  with pos have q: "of_int (- n) \<le> p / bin_size" "p / bin_size \<le> of_int n"
    by (simp_all add: pos_divide_le_eq pos_le_divide_eq)
  moreover have "0 \<le> n"
  proof -
    have "(0::rat) \<le> of_int n * bin_size" using assms(2) by (metis abs_ge_zero order_trans)
    with pos show ?thesis by (simp add: zero_le_mult_iff)
  qed
  ultimately have "of_int (- n) \<le> dq (p / bin_size)" "dq (p / bin_size) \<le> of_int n"
    using n decimal28.rnd_ge_int [of "- n"] decimal28.rnd_le_int [of _ n] by (simp_all add: dq_def)
  then have j: "\<bar>int_trunc (dq (p / bin_size))\<bar> \<le> n"
    using int_trunc_mono [of "of_int (- n)" "dq (p / bin_size)"] int_trunc_mono [of "dq (p / bin_size)" "of_int n"]
    by (simp del: of_int_minus)
  then have "on_grid bin_size (int_trunc (dq (p / bin_size)))" using assms(1) by (simp add: grid_bound_def abs_le_iff)
  with that [OF j] show thesis by (simp add: bin_of_def on_grid_def)
qed

lemma build_distribution_returns:
  assumes "grid_bound bin_size n" "\<forall>b \<in> set bars. \<bar>br_low b\<bar> \<le> of_int n * bin_size \<and> \<bar>br_high b\<bar> \<le> of_int n * bin_size"
  shows "\<exists>d'. build_distribution bin_size bars d = Some d'"
  using assms
proof (induction bin_size bars d rule: build_distribution.induct)
  case (2 bin_size b bs d)
  obtain a where a: "\<bar>a\<bar> \<le> n" "bin_of bin_size (br_low b) = of_int a * bin_size"
    using bin_of_grid [OF 2(2), of "br_low b"] 2(3) by auto
  obtain c where c: "\<bar>c\<bar> \<le> n" "bin_of bin_size (br_high b) = of_int c * bin_size"
    using bin_of_grid [OF 2(2), of "br_high b"] 2(3) by auto
  have "bins_from bin_size (of_int c * bin_size) (of_int a * bin_size) = Some (map (\<lambda>j. of_int j * bin_size) [a..c])"
    using 2(2) a(1) c(1) by (intro bins_from_grid) (auto simp: grid_bound_def abs_le_iff)
  with a c have bins: "bins_from bin_size (bin_of bin_size (br_high b)) (bin_of bin_size (br_low b))
      = Some (map (\<lambda>j. of_int j * bin_size) [a..c])" by simp
  from 2(1) [OF bins 2(2)] 2(3) show ?case by (simp only: build_distribution.simps bins option.case) simp
qed simp

text \<open>The volume of the levels \<open>lo..hi\<close>.\<close>

definition area_sum :: "volume_dist \<Rightarrow> dec list \<Rightarrow> int \<Rightarrow> int \<Rightarrow> int" where
  "area_sum d levels lo hi = (\<Sum>j = lo..hi. volume_of d (levels ! nat j))"

lemma area_sum_above: "lo \<le> hi + 1 \<Longrightarrow> area_sum d levels lo (hi + 1) = area_sum d levels lo hi + volume_of d (levels ! nat (hi + 1))"
proof -
  assume "lo \<le> hi + 1"
  then have "{lo..hi + 1} = insert (hi + 1) {lo..hi}" by auto
  then show ?thesis by (simp add: area_sum_def)
qed

lemma area_sum_below: "lo \<le> hi + 1 \<Longrightarrow> area_sum d levels (lo - 1) hi = area_sum d levels lo hi + volume_of d (levels ! nat (lo - 1))"
proof -
  assume "lo \<le> hi + 1"
  then have "{lo - 1..hi} = insert (lo - 1) {lo..hi}" by auto
  then show ?thesis by (simp add: area_sum_def)
qed

definition closed_area :: "volume_dist \<Rightarrow> dec list \<Rightarrow> int \<Rightarrow> int \<Rightarrow> bool" where
  "closed_area d levels lo hi \<longleftrightarrow>
     (hi + 1 < int (length levels) \<longrightarrow> volume_of d (levels ! nat (hi + 1)) = 0)
     \<and> (0 < lo \<longrightarrow> volume_of d (levels ! nat (lo - 1)) = 0)"

lemma value_loop_ends:
  assumes "volumes_ok d" "0 \<le> lo" "lo \<le> hi" "hi < int (length levels)"
  shows "\<exists>lo' hi'. value_loop d levels target lo hi (area_sum d levels lo hi) = Some (lo', hi', area_sum d levels lo' hi')
    \<and> 0 \<le> lo' \<and> lo' \<le> lo \<and> hi \<le> hi' \<and> hi' < int (length levels)
    \<and> (target \<le> area_sum d levels lo' hi' \<or> closed_area d levels lo' hi')"
  using assms
proof (induction "nat (lo + (int (length levels) - hi))" arbitrary: lo hi rule: less_induct)
  case less
  let ?above = "if hi + 1 < int (length levels) then volume_of d (levels ! nat (hi + 1)) else 0"
  let ?below = "if 0 \<le> lo - 1 then volume_of d (levels ! nat (lo - 1)) else 0"
  note loop = value_loop.simps [of d levels target lo hi "area_sum d levels lo hi"]
  have nonneg: "0 \<le> ?above" "0 \<le> ?below" using volume_of_nonneg [OF less.prems(1)] by auto
  consider "target \<le> area_sum d levels lo hi" | "area_sum d levels lo hi < target" "?above = 0" "?below = 0"
    | "area_sum d levels lo hi < target" "\<not> (?above = 0 \<and> ?below = 0)" "?below \<le> ?above"
    | "area_sum d levels lo hi < target" "\<not> (?above = 0 \<and> ?below = 0)" "\<not> ?below \<le> ?above" by linarith
  then show ?case
  proof cases
    case 1
    with loop less.prems show ?thesis by (intro exI [of _ lo] exI [of _ hi]) simp
  next
    case 2
    then have "closed_area d levels lo hi" by (auto simp: closed_area_def split: if_splits)
    moreover have "value_loop d levels target lo hi (area_sum d levels lo hi) = Some (lo, hi, area_sum d levels lo hi)"
      by (subst loop) (use 2 in \<open>simp only: Let_def if_True simp_thms\<close>)
    ultimately show ?thesis using less.prems by (intro exI [of _ lo] exI [of _ hi]) simp
  next
    case 3
    then have "0 < ?above" using nonneg by linarith
    then have hi: "hi + 1 < int (length levels)" by (simp split: if_splits)
    then have grown: "area_sum d levels lo hi + ?above = area_sum d levels lo (hi + 1)"
      using area_sum_above [of lo hi d levels] less.prems(3) by simp
    have step: "value_loop d levels target lo hi (area_sum d levels lo hi)
        = value_loop d levels target lo (hi + 1) (area_sum d levels lo (hi + 1))"
      by (subst loop) (use 3 in \<open>simp only: Let_def if_True if_False simp_thms grown\<close>)
    from less.hyps [of lo "hi + 1"] less.prems hi show ?thesis unfolding step by auto
  next
    case 4
    then have "0 < ?below" using nonneg by linarith
    then have lo: "0 \<le> lo - 1" by (simp split: if_splits)
    then have grown: "area_sum d levels lo hi + ?below = area_sum d levels (lo - 1) hi"
      using area_sum_below [of lo hi d levels] less.prems(3) by simp
    have step: "value_loop d levels target lo hi (area_sum d levels lo hi)
        = value_loop d levels target (lo - 1) hi (area_sum d levels (lo - 1) hi)"
      by (subst loop) (use 4 in \<open>simp only: Let_def if_True if_False simp_thms grown\<close>)
    from less.hyps [of "lo - 1" hi] less.prems lo show ?thesis unfolding step by auto
  qed
qed

section \<open>The profile\<close>

lemma sum_levels: "volumes_ok d \<Longrightarrow> levels = sort (map fst d) \<Longrightarrow> (\<Sum>k\<leftarrow>levels. volume_of d k) = dist_sum d"
  using sum_over_levels by simp

lemma point_of_control_key: "d \<noteq> [] \<Longrightarrow> volumes_ok d \<Longrightarrow> point_of_control d \<in> fst ` set d"
proof -
  assume d: "d \<noteq> []" "volumes_ok d"
  then have "Max (snd ` set d) \<in> snd ` set d" by (intro Max_in) auto
  then obtain k v where kv: "(k, v) \<in> set d" "v = Max (snd ` set d)" by auto
  then have "volume_of d k = v" using d(2) by (simp add: volume_of_def volumes_ok_def)
  with kv have "{k \<in> fst ` set d. volume_of d k = Max (snd ` set d)} \<noteq> {}" by force
  then have "point_of_control d \<in> {k \<in> fst ` set d. volume_of d k = Max (snd ` set d)}"
    unfolding point_of_control_def by (intro Min_in) auto
  then show ?thesis by simp
qed

lemma index_of_member: "x \<in> set xs \<Longrightarrow> index_of x xs < length xs \<and> xs ! index_of x xs = x"
  by (induction x xs rule: index_of.induct) auto

lemma value_area_ends:
  assumes "volumes_ok d" "d \<noteq> []" "levels = sort (map fst d)" "i = int (index_of (point_of_control d) levels)"
  shows "\<exists>lo hi. value_area B d levels (point_of_control d) volume = Some (levels ! nat hi, levels ! nat lo, area_sum d levels lo hi)
    \<and> 0 \<le> lo \<and> lo \<le> i \<and> i \<le> hi \<and> hi < int (length levels)
    \<and> (value_target (vb_value_area_pct B) volume \<le> area_sum d levels lo hi \<or> closed_area d levels lo hi)"
proof -
  let ?poc = "point_of_control d"
  have "?poc \<in> set levels" using point_of_control_key assms(1-3) by simp
  have i: "i < int (length levels)" "levels ! nat i = ?poc" "0 \<le> i"
    using index_of_member [of ?poc levels] \<open>?poc \<in> set levels\<close> unfolding assms(4) by auto
  then have start: "volume_of d ?poc = area_sum d levels i i" by (simp add: area_sum_def)
  obtain lo hi where "value_loop d levels (value_target (vb_value_area_pct B) volume) i i (area_sum d levels i i)
      = Some (lo, hi, area_sum d levels lo hi)" "0 \<le> lo" "lo \<le> i" "i \<le> hi" "hi < int (length levels)"
    "value_target (vb_value_area_pct B) volume \<le> area_sum d levels lo hi \<or> closed_area d levels lo hi"
    using value_loop_ends [OF assms(1) i(3) order_refl i(1), of "value_target (vb_value_area_pct B) volume"] by blast
  then show ?thesis unfolding value_area_def Let_def assms(4) [symmetric] start
    by (intro exI [of _ lo] exI [of _ hi]) simp
qed

lemma merge_clusters_volume:
  "merge_clusters bin_size cs = Inr ns \<Longrightarrow> sum_list (map snd ns) = sum_list (map snd (concat cs))"
  by (induction cs arbitrary: ns) (auto simp: merge_cluster_def Let_def split: sum.splits if_splits)

lemma concat_cluster_nodes: "concat (cluster_nodes distance cur ns) = cur @ ns"
  by (induction distance cur ns rule: cluster_nodes.induct) auto

lemma clusters_nonempty: "cur \<noteq> [] \<Longrightarrow> c \<in> set (cluster_nodes distance cur ns) \<Longrightarrow> c \<noteq> []"
  by (induction distance cur ns rule: cluster_nodes.induct) (auto split: if_splits)

lemma sum_sort_key: "sum_list (map h (sort_key f ns)) = sum_list (map h ns)" for h :: "'a \<Rightarrow> int"
proof -
  have "mset (map h (sort_key f ns)) = mset (map h ns)" by (simp only: mset_map mset_sort)
  then have "sum_mset (mset (map h (sort_key f ns))) = sum_mset (mset (map h ns))" by (rule arg_cong)
  then show ?thesis by (simp only: sum_mset_sum_list)
qed

lemma merge_nodes_cases:
  assumes "merge_nodes B nodes r = Inr ns"
  obtains "ns = sort_by_volume r nodes"
  | cs ms where "merge_clusters (vb_bin_size B) cs = Inr ms" "concat cs = sort_key fst nodes" "ns = sort_by_volume r ms"
proof (cases "nodes = [] \<or> vb_min_merge_distance B \<le> 0")
  case True
  with assms that(1) show thesis by (simp add: merge_nodes_def)
next
  case False
  then have "sort_key fst nodes \<noteq> []" by (metis length_0_conv length_sort)
  then have "concat (cluster_nodes (vb_min_merge_distance B) [hd (sort_key fst nodes)] (tl (sort_key fst nodes))) = sort_key fst nodes"
    by (simp add: concat_cluster_nodes)
  with False assms that(2) show thesis by (auto simp: merge_nodes_def Let_def split: sum.splits)
qed

lemma sorted_sort_by_volume:
  "sorted_wrt (\<lambda>m n. if r then snd n \<le> snd m else snd m \<le> snd n) (sort_by_volume r ns)"
proof -
  have "sorted (map (\<lambda>n. if r then - snd n else snd n) (sort_by_volume r ns))" by (simp add: sort_by_volume_def)
  then show ?thesis by (cases r) (simp_all add: sorted_map)
qed

text \<open>
  Merging close nodes into one keeps their volume: the merged nodes hold together what the
  raw ones did, and they come ranked by volume, the largest first for high volume nodes, the
  smallest first for low ones.
\<close>

theorem merging_keeps_volume:
  assumes "merge_nodes B nodes descending_vol = Inr ns"
  shows "sum_list (map snd ns) = sum_list (map snd nodes)
    \<and> sorted_wrt (\<lambda>m n. if descending_vol then snd n \<le> snd m else snd m \<le> snd n) ns"
  using assms
proof (cases rule: merge_nodes_cases)
  case 1
  then show ?thesis using sorted_sort_by_volume [of descending_vol nodes] by (simp add: sum_sort_key sort_by_volume_def)
next
  case (2 cs ms)
  have "sum_list (map snd ns) = sum_list (map snd ms)" by (simp add: 2(3) sum_sort_key sort_by_volume_def)
  with 2 sorted_sort_by_volume [of descending_vol ms] show ?thesis by (simp add: merge_clusters_volume sum_sort_key)
qed

lemma finalize_cases:
  assumes "finalize_profile B d delta s day ty source = Some (Inr p)"
  obtains va_volume high low where "d \<noteq> []"
    "value_area B d (sort (map fst d)) (point_of_control d) (dist_sum d) = Some (vp_vah p, vp_val p, va_volume)"
    "vp_poc p = point_of_control d" "vp_total_volume p = dist_sum d" "vp_value_area_volume p = va_volume"
    "vp_distribution p = map (\<lambda>k. (dec_text (vb_places B) k, volume_of d k)) (sort (map fst d))"
    "merge_nodes B (high_nodes d (sort (map fst d)) (vp_poc p)) True = Inr high"
    "merge_nodes B (low_nodes d (sort (map fst d))) False = Inr low"
    "vp_hvn_levels p = take (vb_max_hvn B) (map fst high)"
    "vp_lvn_levels p = take (vb_max_lvn B) (filter (\<lambda>l. l \<notin> set (vp_hvn_levels p)) (map fst low))"
  using assms unfolding finalize_profile_def
  by (auto simp: Let_def split: if_splits option.splits sum.splits prod.splits)

text \<open>
  C17. Building a profile from bars loses and invents no volume: the total of the profile, and the sum of its
  distribution, is the volume of the bars.
\<close>

theorem bar_profile_conserves_volume:
  assumes "build_profile B bars s day ty = Some (Inr p)" "0 < vb_bin_size B"
    "\<forall>b \<in> set bars. br_low b \<le> br_high b \<and> 0 \<le> br_volume b"
  shows "vp_total_volume p = (\<Sum>b\<leftarrow>bars. br_volume b) \<and> sum_list (map snd (vp_distribution p)) = (\<Sum>b\<leftarrow>bars. br_volume b)"
proof -
  obtain d where d: "build_distribution (vb_bin_size B) bars [] = Some d"
    and p: "finalize_profile B d None s day ty ''bars'' = Some (Inr p)"
    using assms(1) by (auto simp: build_profile_def split: if_splits option.splits)
  have ok: "volumes_ok d" using build_distribution_ok [OF d] assms(3) by simp
  have total: "dist_sum d = (\<Sum>b\<leftarrow>bars. br_volume b)" using build_distribution_sum [OF d] assms(2,3) by simp
  from p show ?thesis
  proof (cases rule: finalize_cases)
    case (1 va high low)
    then show ?thesis using total sum_levels [OF ok refl] by (simp add: comp_def)
  qed
qed

text \<open>
  C35. The loops of the builder end: for bars with prices in the range where bins of the given size are
  exact decimals, and volumes that are not negative, \<open>build\<close> returns a profile or raises.
\<close>

theorem every_profile_is_built:
  assumes "vb_bin_size B = of_int m / 10 ^ k" "0 < m" "0 \<le> n" "m * (n + 1) < 10 ^ 28"
    "\<forall>b \<in> set bars. \<bar>br_low b\<bar> \<le> of_int n * vb_bin_size B \<and> \<bar>br_high b\<bar> \<le> of_int n * vb_bin_size B \<and> 0 \<le> br_volume b"
  shows "\<exists>r. build_profile B bars s day ty = Some r"
proof -
  have grid: "grid_bound (vb_bin_size B) n" using grid_bound_decimal assms(1-4) by simp
  obtain d where d: "build_distribution (vb_bin_size B) bars [] = Some d"
    using build_distribution_returns [OF grid] assms(5) by blast
  have ok: "volumes_ok d" using build_distribution_ok [OF d] assms(5) by simp
  have "\<exists>r. finalize_profile B d None s day ty ''bars'' = Some r"
  proof (cases "d = []")
    case False
    from value_area_ends [OF ok False refl refl, of B "dist_sum d"]
    show ?thesis by (auto simp: finalize_profile_def Let_def False split: sum.splits)
  qed (simp add: finalize_profile_def)
  with d show ?thesis by (simp add: build_profile_def)
qed

lemma sorted_levels_between:
  assumes "volumes_ok d" "levels = sort (map fst d)" "0 \<le> lo" "lo \<le> hi" "hi < int (length levels)"
  shows "(\<Sum>k \<in> {k \<in> fst ` set d. levels ! nat lo \<le> k \<and> k \<le> levels ! nat hi}. volume_of d k) = area_sum d levels lo hi"
proof -
  have strict: "sorted levels" "distinct levels" "set levels = fst ` set d" using assms(1,2) by (simp_all add: volumes_ok_def)
  have less: "levels ! i \<le> levels ! j \<longleftrightarrow> i \<le> j" if "i < length levels" "j < length levels" for i j
    using that strict(1,2) by (metis antisym le_cases nth_eq_iff_index_eq sorted_nth_mono)
  have "bij_betw (\<lambda>j. levels ! nat j) {lo..hi} {k \<in> fst ` set d. levels ! nat lo \<le> k \<and> k \<le> levels ! nat hi}"
  proof (rule bij_betwI')
    fix i j assume ij: "i \<in> {lo..hi}" "j \<in> {lo..hi}"
    with assms(3,5) have "nat i < length levels" "nat j < length levels" by auto
    with strict(2) ij assms(3) show "levels ! nat i = levels ! nat j \<longleftrightarrow> i = j"
      by (simp add: nth_eq_iff_index_eq eq_nat_nat_iff)
  next
    fix i assume "i \<in> {lo..hi}"
    with assms(3,5) have "nat i < length levels" "nat lo \<le> nat i" "nat i \<le> nat hi" "nat lo < length levels" "nat hi < length levels" by auto
    then show "levels ! nat i \<in> {k \<in> fst ` set d. levels ! nat lo \<le> k \<and> k \<le> levels ! nat hi}"
      unfolding strict(3) [symmetric] by (simp add: less)
  next
    fix k assume k: "k \<in> {k \<in> fst ` set d. levels ! nat lo \<le> k \<and> k \<le> levels ! nat hi}"
    then have "k \<in> set levels" unfolding strict(3) by simp
    then obtain i where i: "i < length levels" "levels ! i = k" by (auto simp: in_set_conv_nth)
    with k have "nat lo \<le> i" "i \<le> nat hi" using less [of "nat lo" i] less [of i "nat hi"] assms(3-5) by auto
    then have "int i \<in> {lo..hi}" using assms(3,4) by auto
    with i show "\<exists>j \<in> {lo..hi}. k = levels ! nat j" by (intro bexI [of _ "int i"]) simp_all
  qed
  then show ?thesis unfolding area_sum_def by (rule sum.reindex_bij_betw [symmetric])
qed

definition levels_between :: "volume_dist \<Rightarrow> dec \<Rightarrow> dec \<Rightarrow> dec set" where
  "levels_between d a b = {k \<in> fst ` set d. a \<le> k \<and> k \<le> b}"

lemma closed_area_neighbours:
  assumes "volumes_ok d" "levels = sort (map fst d)" "closed_area d levels lo hi" "0 \<le> lo" "lo \<le> hi" "hi < int (length levels)"
  shows "(\<forall>k \<in> fst ` set d. levels ! nat hi < k \<longrightarrow> (\<exists>l \<in> fst ` set d. levels ! nat hi < l \<and> l \<le> k \<and> volume_of d l = 0))
    \<and> (\<forall>k \<in> fst ` set d. k < levels ! nat lo \<longrightarrow> (\<exists>l \<in> fst ` set d. k \<le> l \<and> l < levels ! nat lo \<and> volume_of d l = 0))"
proof -
  have strict: "sorted_wrt (<) levels" "set levels = fst ` set d"
    using assms(1,2) by (simp_all add: volumes_ok_def strict_sorted_iff)
  have less: "levels ! i < levels ! j" if "i < j" "j < length levels" for i j
    using that strict(1) by (simp add: sorted_wrt_nth_less)
  have up: "\<exists>l \<in> fst ` set d. levels ! nat hi < l \<and> l \<le> k \<and> volume_of d l = 0" if k: "k \<in> fst ` set d" "levels ! nat hi < k" for k
  proof -
    from k(1) obtain i where i: "i < length levels" "k = levels ! i" by (metis in_set_conv_nth strict(2))
    have "nat hi < i"
    proof (rule ccontr)
      assume "\<not> nat hi < i"
      then have "i = nat hi \<or> i < nat hi" by linarith
      moreover have "nat hi < length levels" using assms(4-6) by linarith
      ultimately show False using k(2) i less [of i "nat hi"] by auto
    qed
    then have le: "nat (hi + 1) \<le> i" and len: "hi + 1 < int (length levels)" using i(1) assms(4,5) by linarith+
    then have "levels ! nat (hi + 1) \<le> k" using less [of "nat (hi + 1)" i] i by (cases "nat (hi + 1) = i") auto
    moreover have "levels ! nat hi < levels ! nat (hi + 1)" using len assms(4,5) by (intro less) auto
    moreover have "levels ! nat (hi + 1) \<in> fst ` set d" using len assms(4,5) by (auto simp flip: strict(2))
    ultimately show ?thesis using assms(3) len
      by (intro bexI [of _ "levels ! nat (hi + 1)"]) (simp_all add: closed_area_def)
  qed
  have down: "\<exists>l \<in> fst ` set d. k \<le> l \<and> l < levels ! nat lo \<and> volume_of d l = 0" if k: "k \<in> fst ` set d" "k < levels ! nat lo" for k
  proof -
    from k(1) obtain i where i: "i < length levels" "k = levels ! i" by (metis in_set_conv_nth strict(2))
    have "i < nat lo"
    proof (rule ccontr)
      assume "\<not> i < nat lo"
      then have "i = nat lo \<or> nat lo < i" by linarith
      with k(2) i less [of "nat lo" i] show False by auto
    qed
    then have le: "i \<le> nat (lo - 1)" and pos: "0 < lo" by linarith+
    have "nat (lo - 1) < length levels" using pos assms(5,6) by linarith
    with le have "k \<le> levels ! nat (lo - 1)" using less [of i "nat (lo - 1)"] i by (cases "nat (lo - 1) = i") auto
    moreover have "levels ! nat (lo - 1) < levels ! nat lo" using pos assms(5,6) by (intro less) auto
    moreover have "levels ! nat (lo - 1) \<in> fst ` set d" using pos assms(5,6) by (auto simp flip: strict(2))
    ultimately show ?thesis using assms(3) pos
      by (intro bexI [of _ "levels ! nat (lo - 1)"]) (simp_all add: closed_area_def)
  qed
  from up down show ?thesis by blast
qed

text \<open>
  The value area surrounds the point of control, its volume is that of the levels in it, and it holds
  the target share of the volume unless every level next to it is empty. The second case occurs:
  an empty bin on each side ends the area early.
\<close>

theorem value_area_surrounds_the_poc:
  assumes "volumes_ok d" "finalize_profile B d delta s day ty source = Some (Inr p)"
  shows "vp_val p \<le> vp_poc p \<and> vp_poc p \<le> vp_vah p
    \<and> vp_value_area_volume p = (\<Sum>k \<in> levels_between d (vp_val p) (vp_vah p). volume_of d k)
    \<and> (value_target (vb_value_area_pct B) (dist_sum d) \<le> vp_value_area_volume p
       \<or> (\<forall>k \<in> fst ` set d. vp_vah p < k \<longrightarrow> (\<exists>l \<in> fst ` set d. vp_vah p < l \<and> l \<le> k \<and> volume_of d l = 0))
         \<and> (\<forall>k \<in> fst ` set d. k < vp_val p \<longrightarrow> (\<exists>l \<in> fst ` set d. k \<le> l \<and> l < vp_val p \<and> volume_of d l = 0)))"
  using assms(2)
proof (cases rule: finalize_cases)
  case (1 va high low)
  let ?levels = "sort (map fst d)"
  let ?i = "int (index_of (point_of_control d) ?levels)"
  obtain lo hi where area: "value_area B d ?levels (point_of_control d) (dist_sum d) = Some (?levels ! nat hi, ?levels ! nat lo, area_sum d ?levels lo hi)"
    and bounds: "0 \<le> lo" "lo \<le> ?i" "?i \<le> hi" "hi < int (length ?levels)"
    and ends: "value_target (vb_value_area_pct B) (dist_sum d) \<le> area_sum d ?levels lo hi \<or> closed_area d ?levels lo hi"
    using value_area_ends [OF assms(1) 1(1) refl refl] by blast
  have eqs: "vp_vah p = ?levels ! nat hi" "vp_val p = ?levels ! nat lo" "vp_value_area_volume p = area_sum d ?levels lo hi"
    using area 1(2,5) by auto
  have "point_of_control d \<in> set ?levels" using point_of_control_key [OF 1(1) assms(1)] by simp
  from index_of_member [OF this] have poc: "vp_poc p = ?levels ! nat ?i" using 1(3) by simp
  have "vp_val p \<le> vp_poc p" "vp_poc p \<le> vp_vah p"
    unfolding eqs poc using bounds by (auto intro!: sorted_nth_mono)
  moreover have "vp_value_area_volume p = (\<Sum>k \<in> levels_between d (vp_val p) (vp_vah p). volume_of d k)"
    unfolding eqs levels_between_def using sorted_levels_between [OF assms(1) refl, of lo hi] bounds by simp
  moreover have "(\<forall>k \<in> fst ` set d. vp_vah p < k \<longrightarrow> (\<exists>l \<in> fst ` set d. vp_vah p < l \<and> l \<le> k \<and> volume_of d l = 0))
      \<and> (\<forall>k \<in> fst ` set d. k < vp_val p \<longrightarrow> (\<exists>l \<in> fst ` set d. k \<le> l \<and> l < vp_val p \<and> volume_of d l = 0))"
    if "closed_area d ?levels lo hi"
    using closed_area_neighbours [OF assms(1) refl that] bounds unfolding eqs by simp
  ultimately show ?thesis using ends eqs(3) by auto
qed

text \<open>Five empty and full bins: the point of control has an empty bin below and nothing above, and the area ends there.\<close>

definition gap_levels :: volume_dist where
  "gap_levels = [(97, 5), (98, 0), (99, 0), (100, 6)]"

lemma dq_numeral: "(numeral w :: int) < 10 ^ 28 \<Longrightarrow> dq (numeral w) = numeral w"
  using dq_exact [of "numeral w" 0] by simp

lemma fl_numeral: "(numeral w :: int) < 2 ^ 53 \<Longrightarrow> fl (numeral w) = numeral w"
  using fl_int_exact [of "numeral w"] by simp

lemma point_of_control_unique:
  assumes "volumes_ok d" "(k, v) \<in> set d" "\<forall>(l, w) \<in> set d. l = k \<or> w < v"
  shows "point_of_control d = k"
proof -
  have v: "volume_of d l = w" if "(l, w) \<in> set d" for l w
    using that assms(1) by (simp add: volume_of_def volumes_ok_def)
  have le: "w \<le> v" if "(l, w) \<in> set d" for l w
  proof (cases "l = k")
    case True
    with v [OF that] v [OF assms(2)] show ?thesis by simp
  next
    case False
    with assms(3) that show ?thesis by fastforce
  qed
  have max: "Max (snd ` set d) = v"
    by (rule Max_eqI) (use le assms(2) in \<open>auto intro: rev_image_eqI\<close>)
  have only: "l = k" if l: "l \<in> fst ` set d" "volume_of d l = v" for l
  proof -
    from l(1) obtain w where w: "(l, w) \<in> set d" by auto
    with v l(2) have "(l, v) \<in> set d" by auto
    with assms(3) show ?thesis by auto
  qed
  have key: "k \<in> fst ` set d" using assms(2) by (rule rev_image_eqI) simp
  have "{l \<in> fst ` set d. volume_of d l = Max (snd ` set d)} = {k}"
    unfolding max using only key v [OF assms(2)] by blast
  then show ?thesis by (simp add: point_of_control_def)
qed

lemma finalize_returns:
  assumes "volumes_ok d" "d \<noteq> []" "merge_nodes B (high_nodes d (sort (map fst d)) (point_of_control d)) True = Inr high"
    "merge_nodes B (low_nodes d (sort (map fst d))) False = Inr low"
  obtains p where "finalize_profile B d delta s day ty source = Some (Inr p)" "vp_poc p = point_of_control d"
    "vp_hvn_levels p = take (vb_max_hvn B) (map fst high)"
proof -
  obtain vah val_low va where "value_area B d (sort (map fst d)) (point_of_control d) (dist_sum d) = Some (vah, val_low, va)"
    using value_area_ends [OF assms(1,2) refl refl] by blast
  with assms that show thesis by (simp add: finalize_profile_def Let_def)
qed

text \<open>
  C0. The documentation excludes the point of control from the high volume nodes, but merging can bring
  it back: two equal peaks four points below and above it are within the merge distance, and the
  volume-weighted centre of the two is the point of control itself.
\<close>

definition twin_peaks :: volume_dist where
  "twin_peaks = [(95, 1), (96, 3), (97, 1), (100, 9), (103, 1), (104, 3), (105, 1)]"

theorem merged_peaks_hit_the_poc:
  "\<exists>p. finalize_profile default_builder twin_peaks None s day ty source = Some (Inr p) \<and> vp_hvn_levels p = [vp_poc p]"
proof -
  have ok: "volumes_ok twin_peaks" by (simp add: volumes_ok_def twin_peaks_def)
  have poc: "point_of_control twin_peaks = 100"
    by (rule point_of_control_unique [OF ok, of _ 9]) (simp_all add: twin_peaks_def)
  have levels: "sort (map fst twin_peaks) = [95, 96, 97, 100, 103, 104, 105]" by (simp add: twin_peaks_def)
  have high: "high_nodes twin_peaks (sort (map fst twin_peaks)) (point_of_control twin_peaks) = [(96, 3), (104, 3)]"
    unfolding poc levels by (simp add: high_nodes_def twin_peaks_def volume_of_def upt_rec nth_Cons')
  have low: "low_nodes twin_peaks (sort (map fst twin_peaks)) = [(97, 1), (103, 1)]"
    unfolding levels by (simp add: low_nodes_def twin_peaks_def volume_of_def upt_rec nth_Cons')
  note numbers = dq_numeral fl_numeral default_builder_def DEFAULT_BIN_SIZE_def DEFAULT_MIN_MERGE_DISTANCE_def DEFAULT_MAX_HVN_def
  have "merge_nodes default_builder [(96, 3), (104, 3)] True = Inr [(100, 6)]"
    by (simp add: merge_nodes_def merge_cluster_def weighted_sum_def sort_by_volume_def Let_def numbers
        round_half_even_of_int [of 100, simplified])
  moreover have "merge_nodes default_builder [(97, 1), (103, 1)] False = Inr [(100, 2)]"
    by (simp add: merge_nodes_def merge_cluster_def weighted_sum_def sort_by_volume_def Let_def numbers
        round_half_even_of_int [of 100, simplified])
  moreover have "twin_peaks \<noteq> []" by (simp add: twin_peaks_def)
  ultimately obtain p where "finalize_profile default_builder twin_peaks None s day ty source = Some (Inr p)"
    "vp_poc p = 100" "vp_hvn_levels p = take (vb_max_hvn default_builder) (map fst [(100, 6 :: int)])"
    using finalize_returns [OF ok, of default_builder, unfolded high low] poc by metis
  then show ?thesis by (intro exI [of _ p]) (simp add: numbers)
qed

lemma merge_clusters_zero:
  "cs \<noteq> [] \<Longrightarrow> \<forall>c \<in> set cs. \<forall>n \<in> set c. snd n = 0 \<Longrightarrow> merge_clusters bin_size cs = Inl Division_by_zero"
proof (cases cs)
  case (Cons c cs')
  moreover assume "\<forall>c \<in> set cs. \<forall>n \<in> set c. snd n = 0"
  ultimately have "map snd c = map (\<lambda>_. 0) c" by simp
  then have "sum_list (map snd c) = 0" by (simp only: sum_list_0)
  with Cons show ?thesis by (simp add: merge_cluster_def)
qed simp

text \<open>
  A profile with an empty bin between two traded ones cannot be built when its troughs are all empty:
  merging them divides by their volume, which is zero, and the exception leaves \<open>_finalize\<close>.
\<close>

theorem empty_troughs_stop_the_build:
  assumes "0 < vb_min_merge_distance B" "low_nodes d (sort (map fst d)) \<noteq> []"
    "\<forall>n \<in> set (low_nodes d (sort (map fst d))). snd n = 0"
  shows "\<nexists>p. finalize_profile B d delta s day ty source = Some (Inr p)"
proof
  assume "\<exists>p. finalize_profile B d delta s day ty source = Some (Inr p)"
  then obtain p where p: "finalize_profile B d delta s day ty source = Some (Inr p)" ..
  let ?ns = "sort_key fst (low_nodes d (sort (map fst d)))"
  let ?cs = "cluster_nodes (vb_min_merge_distance B) [hd ?ns] (tl ?ns)"
  have "?ns \<noteq> []" using assms(2) by (metis length_0_conv length_sort)
  then have "concat ?cs = ?ns" by (simp add: concat_cluster_nodes)
  moreover have "?cs \<noteq> []" using \<open>?ns \<noteq> []\<close> calculation by (metis concat.simps(1))
  moreover have "\<forall>n \<in> set (concat ?cs). snd n = 0" using assms(3) unfolding calculation(1) by simp
  then have "\<forall>c \<in> set ?cs. \<forall>n \<in> set c. snd n = 0" unfolding set_concat by blast
  ultimately have "merge_clusters (vb_bin_size B) ?cs = Inl Division_by_zero" by (intro merge_clusters_zero)
  with assms(1,2) have "merge_nodes B (low_nodes d (sort (map fst d))) False = Inl Division_by_zero"
    by (simp add: merge_nodes_def Let_def)
  with p show False by (cases rule: finalize_cases) simp
qed

text \<open>Witnesses: one bar over two bins, and the levels with gaps.\<close>

definition two_bin_bar :: bar where
  "two_bin_bar =
     \<lparr>br_symbol = ''MNQ-09'', br_timeframe = TF_M1, br_timestamp = 0, br_open = 100, br_high = 101, br_low = 100, br_close = 101,
      br_volume = 3, br_vwap = None, br_trade_count = None, br_is_partial = False, br_source = DataSource_UNKNOWN\<rparr>"

lemma two_bin_bar_levels: "build_distribution 1 [two_bin_bar] [] = Some [(100, 2), (101, 1)]"
proof -
  have int: "int_trunc (100 :: rat) = 100" "int_trunc (101 :: rat) = 101"
    using int_trunc_of_int [of 100] int_trunc_of_int [of 101] by simp_all
  have bins: "bins_from 1 101 100 = Some [100, 101]"
    by (simp add: bins_from.simps [of 1 101 100] bins_from.simps [of 1 101 101] bins_from.simps [of 1 101 102] dq_numeral)
  show ?thesis
    by (simp add: two_bin_bar_def bin_of_def dq_numeral int bins spread_bar_def allocation_def add_volume_def volume_of_def)
qed

lemma two_bin_profile:
  obtains p where "build_profile default_builder [two_bin_bar] ''MNQ-09'' 0 ''rth'' = Some (Inr p)"
proof -
  let ?d = "[(100, 2), (101, 1)] :: volume_dist"
  have "merge_nodes default_builder (high_nodes ?d (sort (map fst ?d)) (point_of_control ?d)) True = Inr []"
    "merge_nodes default_builder (low_nodes ?d (sort (map fst ?d))) False = Inr []"
    by (simp_all add: high_nodes_def low_nodes_def merge_nodes_def sort_by_volume_def)
  moreover have "volumes_ok ?d" "?d \<noteq> []" by (simp_all add: volumes_ok_def)
  ultimately obtain p where "finalize_profile default_builder ?d None ''MNQ-09'' 0 ''rth'' ''bars'' = Some (Inr p)"
    using finalize_returns by blast
  moreover have "vb_bin_size default_builder = 1" by (simp add: default_builder_def DEFAULT_BIN_SIZE_def)
  ultimately have "build_profile default_builder [two_bin_bar] ''MNQ-09'' 0 ''rth'' = Some (Inr p)"
    by (simp add: build_profile_def two_bin_bar_levels del: build_distribution.simps)
  then show thesis by (rule that)
qed

lemma bar_profile_conserves_volume_witness:
  "\<exists>p. build_profile default_builder [two_bin_bar] ''MNQ-09'' 0 ''rth'' = Some (Inr p) \<and> vp_total_volume p = 3"
proof -
  obtain p where p: "build_profile default_builder [two_bin_bar] ''MNQ-09'' 0 ''rth'' = Some (Inr p)" by (rule two_bin_profile)
  from bar_profile_conserves_volume [OF this] p show ?thesis
    by (simp add: two_bin_bar_def default_builder_def DEFAULT_BIN_SIZE_def)
qed

lemma every_profile_is_built_witness:
  "\<exists>r. build_profile default_builder [two_bin_bar] ''MNQ-09'' 0 ''rth'' = Some r"
  by (rule every_profile_is_built [of _ 1 0 1000])
    (simp_all add: two_bin_bar_def default_builder_def DEFAULT_BIN_SIZE_def)

lemma merging_keeps_volume_witness:
  "merge_nodes (default_builder\<lparr>vb_min_merge_distance := 0\<rparr>) [(96, 3), (104, 5)] True = Inr [(104, 5), (96, 3)]
   \<and> sum_list (map snd [(104 :: dec, 5), (96, 3 :: int)]) = 8"
  using merging_keeps_volume [of "default_builder\<lparr>vb_min_merge_distance := 0\<rparr>" "[(96, 3), (104, 5)]" True "[(104, 5), (96, 3)]"]
  by (simp add: merge_nodes_def sort_by_volume_def)

lemma target_of_eleven: "7 \<le> value_target VALUE_AREA_PCT 11"
proof -
  have "\<bar>fl (7/10) - 7/10\<bar> \<le> (7/10) / 2 ^ 53" using fl_error [of "7/10"] by simp
  moreover have "(7/10) / 2 ^ 53 \<le> (1/1000 :: rat)" by simp
  ultimately have "\<bar>fl (7/10) - 7/10\<bar> \<le> (1/1000 :: rat)" by (rule order_trans)
  then have "7/10 - 1/1000 \<le> fl (7/10 :: rat)" unfolding abs_le_iff by linarith
  then have "7 \<le> 11 * fl (7/10 :: rat)" by linarith
  then have "7 \<le> fl (11 * fl (7/10))" using fl_ge_int [of 7 "11 * fl (7/10)"] by simp
  then show ?thesis by (simp add: value_target_def VALUE_AREA_PCT_def fl_numeral le_ceiling_iff)
qed

lemma value_area_surrounds_the_poc_witness:
  "\<exists>p. finalize_profile default_builder gap_levels None ''MNQ-09'' 0 ''rth'' ''bars'' = Some (Inr p)
     \<and> vp_val p \<le> vp_poc p \<and> vp_poc p \<le> vp_vah p
     \<and> vp_value_area_volume p = 6 \<and> vp_value_area_volume p < value_target (vb_value_area_pct default_builder) (dist_sum gap_levels)"
proof -
  have ok: "volumes_ok gap_levels" by (simp add: volumes_ok_def gap_levels_def)
  have poc: "point_of_control gap_levels = 100"
    by (rule point_of_control_unique [OF ok, of _ 6]) (simp_all add: gap_levels_def)
  have levels: "sort (map fst gap_levels) = [97, 98, 99, 100]" by (simp add: gap_levels_def)
  have merged: "merge_nodes default_builder (high_nodes gap_levels (sort (map fst gap_levels)) (point_of_control gap_levels)) True = Inr []"
    "merge_nodes default_builder (low_nodes gap_levels (sort (map fst gap_levels))) False = Inr []"
    unfolding levels poc
    by (simp_all add: high_nodes_def low_nodes_def merge_nodes_def sort_by_volume_def gap_levels_def volume_of_def upt_rec nth_Cons')
  have "gap_levels \<noteq> []" by (simp add: gap_levels_def)
  then obtain p where p: "finalize_profile default_builder gap_levels None ''MNQ-09'' 0 ''rth'' ''bars'' = Some (Inr p)"
    using finalize_returns [OF ok _ merged] by blast
  have target: "6 < value_target (vb_value_area_pct default_builder) (dist_sum gap_levels)"
    using target_of_eleven by (simp add: default_builder_def gap_levels_def)
  have "volume_of gap_levels 100 = 6" "volume_of gap_levels 99 = 0" by (simp_all add: gap_levels_def volume_of_def)
  with target have "value_area default_builder gap_levels [97, 98, 99, 100] 100 (dist_sum gap_levels) = Some (100, 100, 6)"
    by (simp add: value_area_def value_loop.simps [of _ _ _ 3 3])
  moreover have "value_area default_builder gap_levels [97, 98, 99, 100] 100 (dist_sum gap_levels)
      = Some (vp_vah p, vp_val p, vp_value_area_volume p)"
    using p by (cases rule: finalize_cases) (simp add: levels poc)
  ultimately have "vp_value_area_volume p = 6" by simp
  with value_area_surrounds_the_poc [OF ok p] p target show ?thesis by auto
qed

lemma empty_troughs_stop_the_build_witness:
  "low_nodes [(100, 1), (101, 0), (102, 2)] [100, 101, 102] = [(101, 0)]
   \<and> (\<nexists>p. finalize_profile default_builder [(100, 1), (101, 0), (102, 2)] None ''MNQ-09'' 0 ''rth'' ''bars'' = Some (Inr p))"
proof -
  let ?d = "[(100, 1), (101, 0), (102, 2)] :: volume_dist"
  have low: "low_nodes ?d [100, 101, 102] = [(101, 0)]" by (simp add: low_nodes_def volume_of_def upt_rec nth_Cons')
  then show ?thesis
    using empty_troughs_stop_the_build [of default_builder ?d] by (simp add: default_builder_def DEFAULT_MIN_MERGE_DISTANCE_def)
qed

end
