(* ===== verification/Profile_Store.thy ===== *)
theory Profile_Store
  imports Volume_Profile
begin

text \<open>
  Stored volume profiles: the JSON files of \<^verbatim>\<open>src/alpha/features/volume_profile_loader.py\<close> and the script
  that fills them, \<^verbatim>\<open>scripts/build_volume_profiles.py\<close>. A file's contents are a JSON tree; the JSON
  library reads back the tree it wrote, and a date's ISO text is \<open>J_date\<close>. Decimals are the text that
  \<open>str\<close> makes of them. A path is the triple of symbol, date and session type it is made of. A field
  whose value has another type is rejected: the conversions pydantic would try on it are not modelled.
\<close>

section \<open>JSON\<close>

datatype json =
  J_null
| J_int int
| J_float rat
| J_text string
| J_date date
| J_list "json list"
| J_object "(string \<times> json) list"

datatype load_error = Missing_key string | Bad_value string

definition sum_bind :: "'e + 'a \<Rightarrow> ('a \<Rightarrow> 'e + 'b) \<Rightarrow> 'e + 'b" where
  "sum_bind r f = (case r of Inl e \<Rightarrow> Inl e | Inr x \<Rightarrow> f x)"

lemma sum_bind_simps [simp]: "sum_bind (Inl e) f = Inl e" "sum_bind (Inr x) f = f x"
  by (simp_all add: sum_bind_def)

fun sum_map :: "('a \<Rightarrow> 'e + 'b) \<Rightarrow> 'a list \<Rightarrow> 'e + 'b list" where
  "sum_map f [] = Inr []"
| "sum_map f (x # xs) = sum_bind (f x) (\<lambda>y. sum_bind (sum_map f xs) (\<lambda>ys. Inr (y # ys)))"

lemma sum_map_inverse: "\<forall>x \<in> set xs. f (g x) = Inr x \<Longrightarrow> sum_map f (map g xs) = Inr xs"
  by (induction xs) simp_all

section \<open>Writing\<close>

type_synonym profile_store = "string \<times> date \<times> string \<Rightarrow> json option"

definition serialize_profile :: "nat \<Rightarrow> volume_profile \<Rightarrow> json" where
  "serialize_profile k p =
     J_object
       [(''symbol'', J_text (vp_symbol p)),
        (''session_date'', J_date (vp_session_date p)),
        (''session_type'', J_text (vp_session_type p)),
        (''bin_size'', J_float (vp_bin_size p)),
        (''source'', J_text (vp_source p)),
        (''poc'', J_text (dec_text k (vp_poc p))),
        (''vah'', J_text (dec_text k (vp_vah p))),
        (''val'', J_text (dec_text k (vp_val p))),
        (''total_volume'', J_int (vp_total_volume p)),
        (''value_area_volume'', J_int (vp_value_area_volume p)),
        (''hvn_levels'', J_list (map (\<lambda>x. J_text (dec_text k x)) (vp_hvn_levels p))),
        (''lvn_levels'', J_list (map (\<lambda>x. J_text (dec_text k x)) (vp_lvn_levels p))),
        (''distribution'', J_object (map (\<lambda>(l, v). (l, J_int v)) (vp_distribution p))),
        (''delta_distribution'',
         (case vp_delta_distribution p of None \<Rightarrow> J_null | Some d \<Rightarrow> J_object (map (\<lambda>(l, v). (l, J_int v)) d)))]"

definition profile_path :: "string \<Rightarrow> date \<Rightarrow> string \<Rightarrow> string \<times> date \<times> string" where
  "profile_path s d ty = (s, d, ty)"

definition save_profile :: "nat \<Rightarrow> profile_store \<Rightarrow> string \<Rightarrow> volume_profile \<Rightarrow> profile_store" where
  "save_profile k files s p = files(profile_path s (vp_session_date p) (vp_session_type p) \<mapsto> serialize_profile k p)"

section \<open>Reading\<close>

definition field :: "(string \<times> json) list \<Rightarrow> string \<Rightarrow> load_error + json" where
  "field fs k = (case map_of fs k of None \<Rightarrow> Inl (Missing_key k) | Some v \<Rightarrow> Inr v)"

fun decimal_of :: "json \<Rightarrow> load_error + dec" where
  "decimal_of (J_text s) = (case parse_dec s of None \<Rightarrow> Inl (Bad_value s) | Some x \<Rightarrow> Inr x)"
| "decimal_of (J_int n) = Inr (of_int n)"
| "decimal_of (J_float x) = Inr x"
| "decimal_of _ = Inl (Bad_value ''decimal'')"

text \<open>What \<open>for x in value\<close> runs over.\<close>

fun json_items :: "json \<Rightarrow> load_error + json list" where
  "json_items (J_list xs) = Inr xs"
| "json_items (J_text s) = Inr (map (\<lambda>c. J_text [c]) s)"
| "json_items (J_object fs) = Inr (map (\<lambda>(k, v). J_text k) fs)"
| "json_items _ = Inl (Bad_value ''iterable'')"

definition decimal_list :: "json \<Rightarrow> load_error + dec list" where
  "decimal_list j = sum_bind (json_items j) (sum_map decimal_of)"

fun text_of_json :: "json \<Rightarrow> load_error + string" where
  "text_of_json (J_text s) = Inr s"
| "text_of_json _ = Inl (Bad_value ''str'')"

fun date_of_json :: "json \<Rightarrow> load_error + date" where
  "date_of_json (J_date d) = Inr d"
| "date_of_json _ = Inl (Bad_value ''date'')"

fun int_of_json :: "json \<Rightarrow> load_error + int" where
  "int_of_json (J_int n) = Inr n"
| "int_of_json _ = Inl (Bad_value ''int'')"

fun float_of_json :: "json \<Rightarrow> load_error + rat" where
  "float_of_json (J_float x) = Inr x"
| "float_of_json (J_int n) = Inr (fl (of_int n))"
| "float_of_json _ = Inl (Bad_value ''float'')"

fun volumes_of_json :: "json \<Rightarrow> load_error + (string \<times> int) list" where
  "volumes_of_json (J_object fs) = sum_map (\<lambda>(k, j). sum_bind (int_of_json j) (\<lambda>v. Inr (k, v))) fs"
| "volumes_of_json _ = Inl (Bad_value ''dict'')"

definition deltas_of_json :: "json option \<Rightarrow> load_error + (string \<times> int) list option" where
  "deltas_of_json j =
     (case j of
        None \<Rightarrow> Inr None
      | Some J_null \<Rightarrow> Inr None
      | Some v \<Rightarrow> sum_bind (volumes_of_json v) (\<lambda>d. Inr (Some d)))"

definition deserialize_profile :: "json \<Rightarrow> load_error + volume_profile" where
  "deserialize_profile j =
     (case j of
        J_object fs \<Rightarrow>
          sum_bind (sum_bind (field fs ''poc'') decimal_of) (\<lambda>poc.
          sum_bind (sum_bind (field fs ''vah'') decimal_of) (\<lambda>vah.
          sum_bind (sum_bind (field fs ''val'') decimal_of) (\<lambda>val_low.
          sum_bind (sum_bind (field fs ''hvn_levels'') decimal_list) (\<lambda>hvns.
          sum_bind (sum_bind (field fs ''lvn_levels'') decimal_list) (\<lambda>lvns.
          sum_bind (case map_of fs ''source'' of None \<Rightarrow> Inr ''bars'' | Some v \<Rightarrow> text_of_json v) (\<lambda>source.
          sum_bind (sum_bind (field fs ''symbol'') text_of_json) (\<lambda>s.
          sum_bind (sum_bind (field fs ''session_date'') date_of_json) (\<lambda>d.
          sum_bind (sum_bind (field fs ''session_type'') text_of_json) (\<lambda>ty.
          sum_bind (sum_bind (field fs ''bin_size'') float_of_json) (\<lambda>bin_size.
          sum_bind (sum_bind (field fs ''total_volume'') int_of_json) (\<lambda>volume.
          sum_bind (sum_bind (field fs ''value_area_volume'') int_of_json) (\<lambda>va_volume.
          sum_bind (sum_bind (field fs ''distribution'') volumes_of_json) (\<lambda>d_volumes.
          sum_bind (deltas_of_json (map_of fs ''delta_distribution'')) (\<lambda>d_deltas.
            Inr \<lparr>vp_symbol = s, vp_session_date = d, vp_session_type = ty, vp_bin_size = bin_size, vp_source = source,
                 vp_poc = poc, vp_vah = vah, vp_val = val_low, vp_total_volume = volume,
                 vp_value_area_volume = va_volume, vp_hvn_levels = hvns, vp_lvn_levels = lvns,
                 vp_distribution = d_volumes, vp_delta_distribution = d_deltas\<rparr>))))))))))))))
      | _ \<Rightarrow> Inl (Bad_value ''profile''))"

definition load_profile :: "profile_store \<Rightarrow> string \<Rightarrow> date \<Rightarrow> string \<Rightarrow> load_error + volume_profile option" where
  "load_profile files s d ty =
     (case files (profile_path s d ty) of
        None \<Rightarrow> Inr None
      | Some j \<Rightarrow> sum_bind (deserialize_profile j) (\<lambda>p. Inr (Some p)))"

section \<open>Round trip\<close>

definition profile_has_places :: "nat \<Rightarrow> volume_profile \<Rightarrow> bool" where
  "profile_has_places k p \<longleftrightarrow>
     (\<forall>x \<in> {vp_poc p, vp_vah p, vp_val p} \<union> set (vp_hvn_levels p) \<union> set (vp_lvn_levels p). has_places k x)"

lemma decimal_of_text: "has_places k x \<Longrightarrow> decimal_of (J_text (dec_text k x)) = Inr x"
  by (simp add: parse_dec_text)

lemma volumes_of_json_object: "volumes_of_json (J_object (map (\<lambda>(l, v). (l, J_int v)) d)) = Inr d"
  by (simp add: sum_map_inverse split: prod.splits)

lemma deserialize_serialize:
  assumes "profile_has_places k p"
  shows "deserialize_profile (serialize_profile k p) = Inr p"
proof -
  have "decimal_list (J_list (map (\<lambda>x. J_text (dec_text k x)) (vp_hvn_levels p))) = Inr (vp_hvn_levels p)"
    "decimal_list (J_list (map (\<lambda>x. J_text (dec_text k x)) (vp_lvn_levels p))) = Inr (vp_lvn_levels p)"
    using assms by (auto simp: decimal_list_def profile_has_places_def intro!: sum_map_inverse decimal_of_text)
  moreover have "decimal_of (J_text (dec_text k (vp_poc p))) = Inr (vp_poc p)"
    "decimal_of (J_text (dec_text k (vp_vah p))) = Inr (vp_vah p)" "decimal_of (J_text (dec_text k (vp_val p))) = Inr (vp_val p)"
    using assms by (simp_all add: profile_has_places_def parse_dec_text)
  moreover have "deltas_of_json (Some (case vp_delta_distribution p of None \<Rightarrow> J_null
      | Some d \<Rightarrow> J_object (map (\<lambda>(l, v). (l, J_int v)) d))) = Inr (vp_delta_distribution p)"
    using volumes_of_json_object
    by (cases "vp_delta_distribution p") (simp_all add: deltas_of_json_def del: volumes_of_json.simps)
  ultimately show ?thesis
    by (simp add: deserialize_profile_def serialize_profile_def field_def volumes_of_json_object
        del: decimal_of.simps volumes_of_json.simps)
qed

text \<open>Rounding to 28 digits does not lengthen a decimal.\<close>

lemma has_places_dq:
  assumes "has_places k x"
  shows "has_places k (dq x)"
proof (cases "x = 0")
  case False
  obtain m where m: "x * 10 ^ k = of_int m" using assms unfolding has_places_def by metis
  let ?e = "flog 10 \<bar>x\<bar> - 27"
  have ulp: "ulp 10 28 x = 10 powi ?e" by (simp add: ulp_def)
  have dq_eq: "dq x = of_int (round_half_even (x / 10 powi ?e)) * 10 powi ?e" using False by (simp add: dq_def rnd_def ulp Let_def)
  show ?thesis
  proof (cases "- int k \<le> ?e")
    case True
    then obtain j where j: "?e = int j - int k" by (metis add.commute add_diff_cancel_left' diff_add_cancel zle_iff_zadd uminus_add_conv_diff)
    have "(10 :: rat) powi ?e * 10 ^ k = 10 ^ j"
      unfolding j by (simp add: power_int_diff)
    then have "dq x * 10 ^ k = of_int (round_half_even (x / 10 powi ?e) * 10 ^ j)" by (simp add: dq_eq mult.assoc)
    then show ?thesis unfolding has_places_def by (metis floor_of_int)
  next
    case False
    then obtain j where j: "- int k = ?e + int j" by (metis le_add_diff_inverse linorder_le_cases zle_iff_zadd)
    have "x = of_int m * 10 powi (- int k)" using m by (simp add: power_int_minus field_simps)
    also have "\<dots> = of_int (m * 10 ^ j) * 10 powi ?e" unfolding j by (simp add: power_int_add mult.commute mult.left_commute)
    finally have "x / 10 powi ?e = of_int (m * 10 ^ j)" by (simp add: field_simps)
    then have "dq x = x" using dq_eq by (metis nonzero_eq_divide_eq power_int_eq_0_iff round_half_even_of_int zero_neq_numeral)
    with assms show ?thesis by simp
  qed
qed (use assms in simp)

lemma has_places_iff: "has_places k x \<longleftrightarrow> (\<exists>m. x * 10 ^ k = of_int m)"
  unfolding has_places_def by (metis floor_of_int)

lemma has_places_add: "has_places k x \<Longrightarrow> has_places k y \<Longrightarrow> has_places k (x + y)"
  unfolding has_places_iff by (metis distrib_right of_int_add)

lemma has_places_mult: "has_places k x \<Longrightarrow> has_places k (of_int n * x)"
  unfolding has_places_iff by (metis mult.assoc of_int_mult)

lemma bin_of_places: "has_places k bin_size \<Longrightarrow> has_places k (bin_of bin_size p)"
  unfolding bin_of_def by (intro has_places_dq has_places_mult)

lemma bins_from_places:
  assumes "bins_from bin_size high_bin current = Some bins" "has_places k bin_size" "has_places k current"
  shows "set bins \<subseteq> {b. has_places k b}"
proof -
  have "has_places k bin_size \<longrightarrow> has_places k current \<longrightarrow> set bins \<subseteq> {b. has_places k b}"
  proof (rule bins_from.raw_induct [OF _ assms(1)])
    fix bins_from bin_size high_bin current bins
    assume IH: "\<And>bin_size high_bin current bins. bins_from bin_size high_bin current = Some bins \<Longrightarrow>
        has_places k bin_size \<longrightarrow> has_places k current \<longrightarrow> set bins \<subseteq> {b. has_places k b}"
      and step: "(if current \<le> high_bin
        then Option.bind (bins_from bin_size high_bin (dq (current + bin_size))) (\<lambda>bins. Some (current # bins))
        else Some []) = Some bins"
    show "has_places k bin_size \<longrightarrow> has_places k current \<longrightarrow> set bins \<subseteq> {b. has_places k b}"
    proof (intro impI)
      assume places: "has_places k bin_size" "has_places k current"
      from step consider "bins = []" | bins' where "bins_from bin_size high_bin (dq (current + bin_size)) = Some bins'" "bins = current # bins'"
        by (auto simp: bind_eq_Some_conv split: if_splits)
      then show "set bins \<subseteq> {b. has_places k b}"
      proof cases
        case (2 bins')
        with IH [OF 2(1)] places has_places_dq [OF has_places_add [OF places(2,1)]] show ?thesis by simp
      qed simp
    qed
  qed
  with assms(2,3) show ?thesis by blast
qed

abbreviation keys_have_places :: "nat \<Rightarrow> (dec \<times> int) list \<Rightarrow> bool" where
  "keys_have_places k d \<equiv> fst ` set d \<subseteq> {b. has_places k b}"

lemma keys_fold_add:
  "keys_have_places k d \<Longrightarrow> snd ` set ps \<subseteq> {b. has_places k b} \<Longrightarrow> keys_have_places k (fold (\<lambda>(i, b). add_volume b (f i)) ps d)"
proof (induction ps arbitrary: d)
  case (Cons x ps)
  have "keys_have_places k (add_volume (snd x) (f (fst x)) d)"
    unfolding keys_add_volume using Cons.prems by simp
  from Cons.IH [OF this] Cons.prems(2) show ?case by (simp add: case_prod_unfold)
qed simp

lemma spread_bar_places:
  "keys_have_places k d \<Longrightarrow> set bins \<subseteq> {b. has_places k b} \<Longrightarrow> keys_have_places k (spread_bar volume bins d)"
  unfolding spread_bar_def by (rule keys_fold_add) (auto dest: set_zip_rightD)

lemma build_distribution_places:
  "build_distribution bin_size bars d = Some d' \<Longrightarrow> has_places k bin_size \<Longrightarrow> keys_have_places k d \<Longrightarrow> keys_have_places k d'"
proof (induction bin_size bars d rule: build_distribution.induct)
  case (2 bin_size b bs d)
  then obtain bins where bins: "bins_from bin_size (bin_of bin_size (br_high b)) (bin_of bin_size (br_low b)) = Some bins"
    and rest: "build_distribution bin_size bs (if bins = [] then d else spread_bar (br_volume b) bins d) = Some d'"
    by (auto split: option.splits)
  note bins_from_places [OF bins 2(3) bin_of_places [OF 2(3)]]
  then have "keys_have_places k (if bins = [] then d else spread_bar (br_volume b) bins d)"
    using 2(4) spread_bar_places [of d k bins] by (cases "bins = []") simp_all
  from "2.IH" [OF bins rest 2(3) this] show ?case .
qed simp

lemma merge_clusters_places:
  "merge_clusters bin_size cs = Inr ns \<Longrightarrow> has_places k bin_size \<Longrightarrow> keys_have_places k ns"
proof (induction cs arbitrary: ns)
  case (Cons c cs)
  from Cons.prems(1) obtain n ms where n: "merge_cluster bin_size c = Inr n" and ms: "merge_clusters bin_size cs = Inr ms" "ns = n # ms"
    by (auto split: sum.splits)
  from n Cons.prems(2) have "has_places k (fst n)"
    by (auto simp: merge_cluster_def Let_def has_places_dq has_places_mult split: if_splits)
  with Cons.IH [OF ms(1) Cons.prems(2)] show ?case by (simp add: ms(2))
qed simp

lemma merge_nodes_places:
  assumes "merge_nodes B nodes r = Inr ns" "has_places k (vb_bin_size B)" "keys_have_places k nodes"
  shows "keys_have_places k ns"
  using assms(1)
proof (cases rule: merge_nodes_cases)
  case 1
  with assms(3) show ?thesis by (simp add: sort_by_volume_def)
next
  case (2 cs ms)
  from merge_clusters_places [OF 2(1) assms(2)] show ?thesis by (simp add: 2(3) sort_by_volume_def)
qed

lemma finalized_has_places:
  assumes "finalize_profile B d delta s day ty source = Some (Inr p)" "volumes_ok d" "has_places k (vb_bin_size B)" "keys_have_places k d"
  shows "profile_has_places k p"
  using assms(1)
proof (cases rule: finalize_cases)
  case (1 va high low)
  let ?levels = "sort (map fst d)"
  have levels: "has_places k (?levels ! i)" if "i < length ?levels" for i
    using assms(4) nth_mem [OF that] by (simp only: set_sort set_map) blast
  have nodes: "keys_have_places k (high_nodes d ?levels (vp_poc p))" "keys_have_places k (low_nodes d ?levels)"
    by (auto simp: high_nodes_def low_nodes_def intro!: levels)
  have "has_places k (vp_poc p)" using assms(4) point_of_control_key [OF 1(1) assms(2)] unfolding 1(3) by blast
  moreover have "has_places k (vp_vah p)" "has_places k (vp_val p)"
    using value_area_ends [OF assms(2) 1(1) refl refl, of B "dist_sum d"] 1(2) by (auto intro!: levels)
  moreover have "set (vp_hvn_levels p) \<subseteq> {x. has_places k x}"
    using merge_nodes_places [OF 1(7) assms(3) nodes(1)] set_take_subset [of "vb_max_hvn B" "map fst high"]
    unfolding 1(9) set_map by blast
  moreover have "set (vp_lvn_levels p) \<subseteq> {x. has_places k x}"
    using merge_nodes_places [OF 1(8) assms(3) nodes(2)]
      set_take_subset [of "vb_max_lvn B" "filter (\<lambda>l. l \<notin> set (vp_hvn_levels p)) (map fst low)"]
    unfolding 1(10) set_filter set_map by blast
  ultimately show ?thesis by (auto simp: profile_has_places_def)
qed

text \<open>
  C6. A profile built from bars survives storage: what \<open>save\<close> wrote, \<open>_load\<close> reads back unchanged, every level and
  every volume of it; the other files are as they were.
\<close>

theorem stored_profiles_come_back:
  assumes "build_profile B bars s day ty = Some (Inr p)" "has_places (vb_places B) (vb_bin_size B)"
    "\<forall>b \<in> set bars. 0 \<le> br_volume b"
  shows "load_profile (save_profile (vb_places B) files s p) s (vp_session_date p) (vp_session_type p) = Inr (Some p)
    \<and> (\<forall>s' d' ty'. (s', d', ty') \<noteq> (s, vp_session_date p, vp_session_type p)
         \<longrightarrow> load_profile (save_profile (vb_places B) files s p) s' d' ty' = load_profile files s' d' ty')"
proof -
  obtain d where d: "build_distribution (vb_bin_size B) bars [] = Some d"
    and p: "finalize_profile B d None s day ty ''bars'' = Some (Inr p)"
    using assms(1) by (auto simp: build_profile_def split: if_splits option.splits)
  have "profile_has_places (vb_places B) p"
    using finalized_has_places [OF p build_distribution_ok [OF d] assms(2) build_distribution_places [OF d assms(2)]] assms(3) by simp
  from deserialize_serialize [OF this] show ?thesis
    by (auto simp: load_profile_def save_profile_def profile_path_def)
qed

lemma stored_profiles_come_back_witness:
  "\<exists>p. build_profile default_builder [two_bin_bar] ''MNQ-09'' 0 ''rth'' = Some (Inr p)
     \<and> load_profile (save_profile 1 Map.empty ''MNQ-09'' p) ''MNQ-09'' (vp_session_date p) (vp_session_type p) = Inr (Some p)"
proof -
  obtain p where p: "build_profile default_builder [two_bin_bar] ''MNQ-09'' 0 ''rth'' = Some (Inr p)" by (rule two_bin_profile)
  have "has_places (vb_places default_builder) (vb_bin_size default_builder)"
    using has_places_of_int [of 1 1] by (simp add: default_builder_def DEFAULT_BIN_SIZE_def)
  from stored_profiles_come_back [OF p this] p show ?thesis by (simp add: two_bin_bar_def default_builder_def)
qed

section \<open>The build script\<close>

text \<open>
  \<open>build_date\<close>: the RTH profile and the overnight one of a day, from trades when there are any, else from
  bars. \<open>bi_trades\<close> and \<open>bi_bars\<close> are the Parquet files (\<open>None\<close>: no file). Instants are compared on the
  New York clock. The result is the exception that ended the run, if any, and the files.
\<close>

record build_inputs =
  bi_trades :: "date \<Rightarrow> trade_event list option"
  bi_bars :: "date \<Rightarrow> bar list"

definition rth_window :: "date \<Rightarrow> timestamp \<times> timestamp" where
  "rth_window d = (at_time d 9 30, at_time d 16 0)"

definition globex_window :: "date \<Rightarrow> timestamp \<times> timestamp" where
  "globex_window d = (at_time d 18 0 - DAY, at_time d 9 30)"

definition in_window :: "zone \<Rightarrow> timestamp \<times> timestamp \<Rightarrow> timestamp \<Rightarrow> bool" where
  "in_window z w t \<longleftrightarrow> fst w \<le> zn_to_et z t \<and> zn_to_et z t < snd w"

definition filter_rth :: "zone \<Rightarrow> bar list \<Rightarrow> date \<Rightarrow> bar list" where
  "filter_rth z bars d = filter (\<lambda>b. in_window z (rth_window d) (br_timestamp b)) bars"

definition filter_rth_trades :: "zone \<Rightarrow> trade_event list \<Rightarrow> date \<Rightarrow> trade_event list" where
  "filter_rth_trades z trades d = filter (\<lambda>t. in_window z (rth_window d) (te_timestamp t)) trades"

definition filter_globex :: "zone \<Rightarrow> bar list \<Rightarrow> bar list \<Rightarrow> date \<Rightarrow> bar list" where
  "filter_globex z bars_prior bars_current d =
     filter (\<lambda>b. in_window z (globex_window d) (br_timestamp b)) (bars_prior @ bars_current)"

definition filter_globex_trades :: "zone \<Rightarrow> trade_event list \<Rightarrow> trade_event list \<Rightarrow> date \<Rightarrow> trade_event list" where
  "filter_globex_trades z trades_prior trades_current d =
     filter (\<lambda>t. in_window z (globex_window d) (te_timestamp t)) (trades_prior @ trades_current)"

definition globex_trades_complete :: "zone \<Rightarrow> trade_event list \<Rightarrow> date \<Rightarrow> bool" where
  "globex_trades_complete z trades d \<longleftrightarrow>
     trades \<noteq> [] \<and> list_ex (\<lambda>t. zn_to_et z (te_timestamp t) < at_time d 0 0) trades"

definition save_built ::
  "nat \<Rightarrow> string \<Rightarrow> profile_store \<Rightarrow> (profile_error + volume_profile) option \<Rightarrow> (profile_error option \<times> profile_store) option" where
  "save_built k s files r =
     (case r of
        None \<Rightarrow> None
      | Some (Inl e) \<Rightarrow> Some (Some e, files)
      | Some (Inr p) \<Rightarrow> Some (None, save_profile k files s p))"

definition save_from_bars ::
  "profile_builder \<Rightarrow> string \<Rightarrow> date \<Rightarrow> string \<Rightarrow> bar list \<Rightarrow> profile_store \<Rightarrow> (profile_error option \<times> profile_store) option" where
  "save_from_bars B s d ty bars files =
     (if bars = [] then Some (None, files) else save_built (vb_places B) s files (build_profile B bars s d ty))"

definition save_from_trades ::
  "profile_builder \<Rightarrow> string \<Rightarrow> date \<Rightarrow> string \<Rightarrow> trade_event list \<Rightarrow> profile_store \<Rightarrow> (profile_error option \<times> profile_store) option" where
  "save_from_trades B s d ty trades files =
     (if trades = [] then Some (None, files) else save_built (vb_places B) s files (build_from_trades B trades s d ty))"

definition trades_of :: "build_inputs \<Rightarrow> date \<Rightarrow> trade_event list" where
  "trades_of I d = (case bi_trades I d of None \<Rightarrow> [] | Some ts \<Rightarrow> ts)"

definition build_globex ::
  "profile_builder \<Rightarrow> zone \<Rightarrow> build_inputs \<Rightarrow> string \<Rightarrow> date \<Rightarrow> bool \<Rightarrow> profile_store \<Rightarrow>
   (profile_error option \<times> profile_store) option" where
  "build_globex B z I s d use_trades files =
     (let bars = filter_globex z (bi_bars I (d - 1)) (bi_bars I d) d in
      if use_trades then
        (let items = filter_globex_trades z (trades_of I (d - 1)) (trades_of I d) d in
         if items = [] then Some (None, files)
         else if \<not> globex_trades_complete z items d then save_from_bars B s d ''globex'' bars files
         else save_from_trades B s d ''globex'' items files)
      else save_from_bars B s d ''globex'' bars files)"

definition build_rth ::
  "profile_builder \<Rightarrow> zone \<Rightarrow> build_inputs \<Rightarrow> string \<Rightarrow> date \<Rightarrow> bool \<Rightarrow> profile_store \<Rightarrow>
   (profile_error option \<times> profile_store) option" where
  "build_rth B z I s d use_trades files =
     (if use_trades then save_from_trades B s d ''rth'' (filter_rth_trades z (trades_of I d) d) files
      else save_from_bars B s d ''rth'' (filter_rth z (bi_bars I d) d) files)"

definition build_date ::
  "profile_builder \<Rightarrow> zone \<Rightarrow> build_inputs \<Rightarrow> string \<Rightarrow> date \<Rightarrow> bool \<Rightarrow> bool \<Rightarrow> profile_store \<Rightarrow>
   (profile_error option \<times> profile_store) option" where
  "build_date B z I s d force bars_only files =
     (let rth_needed = (force \<or> files (profile_path s d ''rth'') = None);
          globex_needed = (force \<or> files (profile_path s d ''globex'') = None);
          use_trades = (\<not> bars_only \<and> trades_of I d \<noteq> [])
      in if \<not> rth_needed \<and> \<not> globex_needed then Some (None, files)
         else if \<not> use_trades \<and> bi_bars I d = [] then Some (None, files)
         else (case (if rth_needed then build_rth B z I s d use_trades files else Some (None, files)) of
                 None \<Rightarrow> None
               | Some (Some e, files') \<Rightarrow> Some (Some e, files')
               | Some (None, files') \<Rightarrow>
                   if globex_needed then build_globex B z I s d use_trades files' else Some (None, files')))"

lemma finalize_key:
  "finalize_profile B vols delta s d ty source = Some (Inr p) \<Longrightarrow> vp_session_date p = d \<and> vp_session_type p = ty"
  unfolding finalize_profile_def
  by (auto simp: Let_def split: if_splits option.splits sum.splits prod.splits)

lemma save_from_bars_other:
  "save_from_bars B s d ty bars files = Some (e, files') \<Longrightarrow> key \<noteq> profile_path s d ty \<Longrightarrow> files' key = files key"
  by (auto simp: save_from_bars_def save_built_def save_profile_def build_profile_def dest: finalize_key
      split: if_splits option.splits sum.splits)

lemma save_from_trades_other:
  "save_from_trades B s d ty trades files = Some (e, files') \<Longrightarrow> key \<noteq> profile_path s d ty \<Longrightarrow> files' key = files key"
  by (auto simp: save_from_trades_def save_built_def save_profile_def build_from_trades_def dest: finalize_key
      split: if_splits option.splits sum.splits prod.splits)

lemma build_globex_other:
  "build_globex B z I s d use_trades files = Some (e, files') \<Longrightarrow> key \<noteq> profile_path s d ''globex'' \<Longrightarrow> files' key = files key"
  by (auto simp: build_globex_def Let_def dest: save_from_bars_other save_from_trades_other split: if_splits)

lemma build_rth_other:
  "build_rth B z I s d use_trades files = Some (e, files') \<Longrightarrow> key \<noteq> profile_path s d ''rth'' \<Longrightarrow> files' key = files key"
  by (auto simp: build_rth_def dest: save_from_bars_other save_from_trades_other split: if_splits)

text \<open>
  Without \<open>--force\<close> the script never touches a profile that exists: every file there was before
  the run, whatever the day and also when the run ends in an exception, is the same after it.
\<close>

theorem existing_profiles_are_kept:
  assumes "build_date B z I s d False bars_only files = Some (e, files')" "files key = Some j"
  shows "files' key = Some j"
proof -
  consider (same) "files' = files"
    | (rth) "files (profile_path s d ''rth'') = None" "build_rth B z I s d (\<not> bars_only \<and> trades_of I d \<noteq> []) files = Some (e, files')"
    | (both) f1 where "files (profile_path s d ''globex'') = None" "f1 = files \<or> files (profile_path s d ''rth'') = None
        \<and> build_rth B z I s d (\<not> bars_only \<and> trades_of I d \<noteq> []) files = Some (None, f1)"
        "build_globex B z I s d (\<not> bars_only \<and> trades_of I d \<noteq> []) f1 = Some (e, files')"
    using assms(1) unfolding build_date_def Let_def
    by (auto split: if_splits option.splits prod.splits)
  then show ?thesis
  proof cases
    case same
    with assms(2) show ?thesis by simp
  next
    case rth
    with assms(2) have "key \<noteq> profile_path s d ''rth''" by auto
    from build_rth_other [OF rth(2) this] assms(2) show ?thesis by simp
  next
    case (both f1)
    with assms(2) have "key \<noteq> profile_path s d ''globex''" by auto
    from build_globex_other [OF both(3) this] have "files' key = f1 key" .
    moreover have "f1 key = files key"
    proof (cases "f1 = files")
      case False
      with both(2) assms(2) have "key \<noteq> profile_path s d ''rth''" by auto
      from build_rth_other [OF _ this] both(2) False show ?thesis by blast
    qed simp
    ultimately show ?thesis using assms(2) by simp
  qed
qed

end
