(* ===== verification/Episodes.thy ===== *)
theory Episodes
  imports Snapshots Calendars "HOL-Library.AList"
begin

text \<open>
  Interaction episodes of the shadow research pipeline, \<^verbatim>\<open>src/alpha/research/interaction/\<close>: the distance
  configuration (\<^verbatim>\<open>config.py\<close>), the bar and level geometry (\<^verbatim>\<open>geometry.py\<close>), the records
  (\<^verbatim>\<open>models.py\<close>) and the manager that opens, follows and closes one episode per level
  (\<^verbatim>\<open>episode.py\<close>). An identifier made by an f-string is the tuple of its parts. \<open>uuid4\<close> draws are
  numbered; the hash of the configuration is a field of the manager; the constant version
  strings of a summary are left out. The callback's calls are the
  list of completed episodes that every operation returns.
\<close>

section \<open>Configuration\<close>

record level_config =
  lc_proximity_atr_fraction :: rat
  lc_separation_atr_fraction :: rat
  lc_min_separation_bars :: int
  lc_max_episode_bars :: int
  lc_max_bar_gap_seconds :: int
  lc_fallback_proximity_ticks :: int
  lc_fallback_separation_ticks :: int

definition level_config_default :: level_config where
  "level_config_default =
     \<lparr>lc_proximity_atr_fraction = fl (1/5), lc_separation_atr_fraction = fl (1/2), lc_min_separation_bars = 3,
      lc_max_episode_bars = 60, lc_max_bar_gap_seconds = 90, lc_fallback_proximity_ticks = 10,
      lc_fallback_separation_ticks = 25\<rparr>"

definition atr_ticks :: "rat \<Rightarrow> int \<Rightarrow> dec option \<Rightarrow> dec \<Rightarrow> int" where
  "atr_ticks fraction fallback atr tick_size =
     (case atr of
        None \<Rightarrow> fallback
      | Some a \<Rightarrow>
          if a = 0 then fallback
          else max 1 (int_trunc (fl (fl (fl a * fraction) / fl tick_size))))"

definition proximity_ticks :: "level_config \<Rightarrow> dec option \<Rightarrow> dec \<Rightarrow> int" where
  "proximity_ticks c = atr_ticks (lc_proximity_atr_fraction c) (lc_fallback_proximity_ticks c)"

definition separation_ticks :: "level_config \<Rightarrow> dec option \<Rightarrow> dec \<Rightarrow> int" where
  "separation_ticks c = atr_ticks (lc_separation_atr_fraction c) (lc_fallback_separation_ticks c)"

section \<open>Geometry\<close>

datatype level_side = Above | Below | On_level

record bar_geometry =
  bg_open_distance_ticks :: int
  bg_high_distance_ticks :: int
  bg_low_distance_ticks :: int
  bg_close_distance_ticks :: int
  bg_open_side :: level_side
  bg_close_side :: level_side
  bg_range_spans_level :: bool
  bg_crossed_within_bar :: bool
  bg_proximity_band_ticks :: int

definition tick_distance :: "bool \<Rightarrow> dec \<Rightarrow> dec \<Rightarrow> dec \<Rightarrow> int" where
  "tick_distance vwap price level tick_size =
     (let raw = dq (dq (price - level) / tick_size) in if vwap then round_half_up raw else int_trunc raw)"

definition side_of :: "int \<Rightarrow> level_side" where
  "side_of distance_ticks = (if distance_ticks > 0 then Above else if distance_ticks < 0 then Below else On_level)"

definition proximity_band :: "dec option \<Rightarrow> dec \<Rightarrow> int" where
  "proximity_band atr tick_size =
     (case atr of
        None \<Rightarrow> 10
      | Some a \<Rightarrow> if a = 0 then 10 else max 1 (round_half_up (dq (dq (a * (1/5)) / tick_size))))"

definition compute_geometry ::
  "dec \<Rightarrow> dec \<Rightarrow> dec \<Rightarrow> dec \<Rightarrow> dec \<Rightarrow> dec \<Rightarrow> dec option \<Rightarrow> bool \<Rightarrow> bar_geometry" where
  "compute_geometry open_price high_price low_price close_price level tick_size atr is_vwap =
     (let open_d = tick_distance is_vwap open_price level tick_size;
          high_d = tick_distance is_vwap high_price level tick_size;
          low_d = tick_distance is_vwap low_price level tick_size;
          close_d = tick_distance is_vwap close_price level tick_size;
          range_spans = (low_d \<le> 0 \<and> 0 \<le> high_d)
      in \<lparr>bg_open_distance_ticks = open_d, bg_high_distance_ticks = high_d, bg_low_distance_ticks = low_d,
          bg_close_distance_ticks = close_d, bg_open_side = side_of open_d, bg_close_side = side_of close_d,
          bg_range_spans_level = range_spans,
          bg_crossed_within_bar = (range_spans \<and> side_of open_d \<noteq> On_level \<and> side_of close_d \<noteq> On_level),
          bg_proximity_band_ticks = proximity_band atr tick_size\<rparr>)"

section \<open>Records\<close>

datatype level_type = Level_vwap | Level_orh | Level_orl
datatype session_scope = Full_session | Rth

type_synonym session_id = "string \<times> date"
type_synonym level_id = "string \<times> level_type \<times> session_scope \<times> date"
type_synonym episode_id = nat

record level_snapshot =
  ls_level_id :: level_id
  ls_symbol :: string
  ls_session_id :: session_id
  ls_level_type :: level_type
  ls_level_value :: dec
  ls_tick_size :: dec
  ls_is_dynamic :: bool
  ls_sampling_note :: string
  ls_session_scope :: session_scope

record interaction_frame =
  fr_bar_timestamp :: timestamp
  fr_symbol :: string
  fr_session_id :: session_id
  fr_sequence_num :: "int option"
  fr_open :: dec
  fr_high :: dec
  fr_low :: dec
  fr_close :: dec
  fr_volume :: int
  fr_atr_14 :: "dec option"
  fr_session_phase :: session_phase
  fr_is_replay :: bool
  fr_levels :: "level_snapshot list"

record episode_bar =
  eb_episode_id :: episode_id
  eb_bar_seq :: nat
  eb_bar_timestamp :: timestamp
  eb_symbol :: string
  eb_session_id :: session_id
  eb_session_date :: date
  eb_open_side :: level_side
  eb_close_side :: level_side
  eb_range_spans_level :: bool
  eb_high_distance_ticks :: int
  eb_low_distance_ticks :: int
  eb_close_distance_ticks :: int
  eb_level_value_at_timestamp :: dec
  eb_atr_14 :: "dec option"
  eb_proximity_ticks :: int
  eb_separation_ticks :: int
  eb_sequence_num :: "int option"

datatype end_reason = Separation | Timeout | Session_ended | Gap_detected | Processing_error | Replay_completed

datatype approach = From_above | From_below | Approach_unknown

text \<open>The empty \<open>end_reason\<close> of an open episode is \<open>None\<close>.\<close>

record episode_summary =
  ep_episode_id :: episode_id
  ep_prior_episode_id :: "episode_id option"
  ep_level_id :: level_id
  ep_level_type :: level_type
  ep_symbol :: string
  ep_session_id :: session_id
  ep_session_date :: date
  ep_interaction_index :: nat
  ep_started_at :: timestamp
  ep_ended_at :: "timestamp option"
  ep_pre_entry_close_side :: "level_side option"
  ep_pre_entry_close_distance_ticks :: "int option"
  ep_approach_side :: approach
  ep_bar_count :: int
  ep_range_span_count :: int
  ep_max_above_ticks :: int
  ep_max_below_ticks :: int
  ep_end_side :: level_side
  ep_end_reason :: "end_reason option"
  ep_close_side_flip_count :: nat
  ep_max_consecutive_closes_above :: nat
  ep_max_consecutive_closes_below :: nat
  ep_is_valid_for_research :: bool
  ep_policy_config_hash :: string
  ep_session_scope :: session_scope
  ep_start_session_phase :: session_phase
  ep_end_session_phase :: "session_phase option"

record active_episode =
  ae_summary :: episode_summary
  ae_bar_records :: "episode_bar list"
  ae_bars_at_separation :: int
  ae_separation_direction :: "level_side option"
  ae_last_bar_ts :: "timestamp option"
  ae_atr_at_start_was_none :: bool
  ae_last_session_phase :: "session_phase option"

section \<open>Manager\<close>

type_synonym episode_key = "string \<times> session_id \<times> level_id"
type_synonym completed = "episode_summary \<times> episode_bar list"

record episode_manager =
  ip_config :: level_config
  ip_config_hash :: string
  ip_active :: "(episode_key \<times> active_episode) list"
  ip_last_geo :: "episode_key \<rightharpoonup> level_side \<times> int"
  ip_last_episode_id :: "episode_key \<rightharpoonup> episode_id"
  ip_interaction_index :: "episode_key \<rightharpoonup> nat"
  ip_next_id :: nat

definition manager_new :: "level_config \<Rightarrow> string \<Rightarrow> episode_manager" where
  "manager_new c h =
     \<lparr>ip_config = c, ip_config_hash = h, ip_active = [], ip_last_geo = Map.empty, ip_last_episode_id = Map.empty,
      ip_interaction_index = Map.empty, ip_next_id = 0\<rparr>"

definition geo_for_level :: "interaction_frame \<Rightarrow> level_snapshot \<Rightarrow> bar_geometry" where
  "geo_for_level fr l =
     compute_geometry (fr_open fr) (fr_high fr) (fr_low fr) (fr_close fr) (ls_level_value l) (ls_tick_size l)
       (fr_atr_14 fr) (ls_level_type l = Level_vwap)"

definition infer_approach_side :: "level_side option \<Rightarrow> level_side \<Rightarrow> approach" where
  "infer_approach_side pre_close open_side =
     (if pre_close = Some Above then From_above
      else if pre_close = Some Below then From_below
      else (case open_side of Above \<Rightarrow> From_above | Below \<Rightarrow> From_below | On_level \<Rightarrow> Approach_unknown))"

text \<open>The flips of the closing side and the longest runs of closes above and below.\<close>

definition close_step ::
  "level_side \<Rightarrow> nat \<times> nat \<times> nat \<times> nat \<times> nat \<times> level_side option \<Rightarrow> nat \<times> nat \<times> nat \<times> nat \<times> nat \<times> level_side option" where
  "close_step side =
     (\<lambda>(flips, max_above, max_below, cur_above, cur_below, prev).
        (let flips = (if prev \<noteq> None \<and> Some side \<noteq> prev \<and> prev \<noteq> Some On_level \<and> side \<noteq> On_level then flips + 1 else flips);
             cur_above = (if side = Above then cur_above + 1 else 0);
             cur_below = (if side = Below then cur_below + 1 else 0)
         in (flips, max max_above cur_above, max max_below cur_below, cur_above, cur_below, Some side)))"

definition derive_close_sequence :: "episode_bar list \<Rightarrow> nat \<times> nat \<times> nat" where
  "derive_close_sequence records =
     (case fold close_step (map eb_close_side records) (0, 0, 0, 0, 0, None) of
        (flips, max_above, max_below, _) \<Rightarrow> (flips, max_above, max_below))"

definition bar_record :: "episode_id \<Rightarrow> nat \<Rightarrow> episode_key \<Rightarrow> interaction_frame \<Rightarrow> level_snapshot \<Rightarrow> bar_geometry \<Rightarrow> int \<Rightarrow> int \<Rightarrow> episode_bar" where
  "bar_record i bar_seq key fr l geo prox sep =
     \<lparr>eb_episode_id = i, eb_bar_seq = bar_seq, eb_bar_timestamp = fr_bar_timestamp fr, eb_symbol = fst key,
      eb_session_id = fst (snd key), eb_session_date = snd (fst (snd key)), eb_open_side = bg_open_side geo,
      eb_close_side = bg_close_side geo, eb_range_spans_level = bg_range_spans_level geo,
      eb_high_distance_ticks = bg_high_distance_ticks geo, eb_low_distance_ticks = bg_low_distance_ticks geo,
      eb_close_distance_ticks = bg_close_distance_ticks geo, eb_level_value_at_timestamp = ls_level_value l,
      eb_atr_14 = fr_atr_14 fr, eb_proximity_ticks = prox, eb_separation_ticks = sep,
      eb_sequence_num = fr_sequence_num fr\<rparr>"

definition closed_summary :: "active_episode \<Rightarrow> timestamp \<Rightarrow> end_reason \<Rightarrow> episode_summary" where
  "closed_summary ep t reason =
     (let s = ae_summary ep in
      case derive_close_sequence (ae_bar_records ep) of (flips, max_above, max_below) \<Rightarrow>
        s\<lparr>ep_ended_at := Some t, ep_end_reason := Some reason,
          ep_end_session_phase :=
            (case ae_last_session_phase ep of None \<Rightarrow> Some (ep_start_session_phase s) | Some ph \<Rightarrow> Some ph),
          ep_close_side_flip_count := flips, ep_max_consecutive_closes_above := max_above,
          ep_max_consecutive_closes_below := max_below,
          ep_is_valid_for_research := (ep_is_valid_for_research s \<and> reason \<notin> {Gap_detected, Processing_error})\<rparr>)"

definition close_episode ::
  "episode_manager \<Rightarrow> episode_key \<Rightarrow> timestamp \<Rightarrow> end_reason \<Rightarrow> episode_manager \<times> completed list" where
  "close_episode m key t reason =
     (case map_of (ip_active m) key of
        None \<Rightarrow> (m, [])
      | Some ep \<Rightarrow>
          (m\<lparr>ip_active := AList.delete key (ip_active m),
             ip_last_episode_id := (ip_last_episode_id m)(key \<mapsto> ep_episode_id (ae_summary ep))\<rparr>,
           [(closed_summary ep t reason, ae_bar_records ep)]))"

definition next_index :: "episode_manager \<Rightarrow> episode_key \<Rightarrow> nat" where
  "next_index m key = (case ip_interaction_index m key of None \<Rightarrow> 0 | Some n \<Rightarrow> n) + 1"

definition new_episode ::
  "episode_manager \<Rightarrow> episode_key \<Rightarrow> interaction_frame \<Rightarrow> level_snapshot \<Rightarrow> bar_geometry \<Rightarrow>
   level_side option \<Rightarrow> int option \<Rightarrow> int \<Rightarrow> int \<Rightarrow> active_episode" where
  "new_episode m key fr l geo pre_side pre_distance prox sep =
     \<lparr>ae_summary =
        \<lparr>ep_episode_id = ip_next_id m, ep_prior_episode_id = ip_last_episode_id m key, ep_level_id = snd (snd key),
         ep_level_type = ls_level_type l, ep_symbol = fst key, ep_session_id = fst (snd key),
         ep_session_date = snd (fst (snd key)), ep_interaction_index = next_index m key,
         ep_started_at = fr_bar_timestamp fr, ep_ended_at = None, ep_pre_entry_close_side = pre_side,
         ep_pre_entry_close_distance_ticks = pre_distance,
         ep_approach_side = infer_approach_side pre_side (bg_open_side geo), ep_bar_count = 1,
         ep_range_span_count = (if bg_range_spans_level geo then 1 else 0),
         ep_max_above_ticks = bg_high_distance_ticks geo, ep_max_below_ticks = bg_low_distance_ticks geo,
         ep_end_side = bg_close_side geo, ep_end_reason = None, ep_close_side_flip_count = 0,
         ep_max_consecutive_closes_above = 0, ep_max_consecutive_closes_below = 0,
         ep_is_valid_for_research = (fr_atr_14 fr \<noteq> None), ep_policy_config_hash = ip_config_hash m,
         ep_session_scope = ls_session_scope l, ep_start_session_phase = fr_session_phase fr,
         ep_end_session_phase = None\<rparr>,
      ae_bar_records = [bar_record (ip_next_id m) 0 key fr l geo prox sep], ae_bars_at_separation = 0,
      ae_separation_direction = None, ae_last_bar_ts = Some (fr_bar_timestamp fr),
      ae_atr_at_start_was_none = (fr_atr_14 fr = None), ae_last_session_phase = Some (fr_session_phase fr)\<rparr>"

definition open_episode ::
  "episode_manager \<Rightarrow> episode_key \<Rightarrow> interaction_frame \<Rightarrow> level_snapshot \<Rightarrow> bar_geometry \<Rightarrow>
   level_side option \<Rightarrow> int option \<Rightarrow> int \<Rightarrow> int \<Rightarrow> episode_manager" where
  "open_episode m key fr l geo pre_side pre_distance prox sep =
     m\<lparr>ip_interaction_index := (ip_interaction_index m)(key \<mapsto> next_index m key), ip_next_id := ip_next_id m + 1,
       ip_active := AList.update key (new_episode m key fr l geo pre_side pre_distance prox sep) (ip_active m)\<rparr>"

definition enters_proximity :: "bar_geometry \<Rightarrow> int \<Rightarrow> bool" where
  "enters_proximity geo prox \<longleftrightarrow> bg_low_distance_ticks geo \<le> prox \<and> bg_high_distance_ticks geo \<ge> - prox"

definition handle_outside ::
  "episode_manager \<Rightarrow> episode_key \<Rightarrow> interaction_frame \<Rightarrow> level_snapshot \<Rightarrow> bar_geometry \<Rightarrow> episode_manager" where
  "handle_outside m key fr l geo =
     (let pre = ip_last_geo m key;
          m = m\<lparr>ip_last_geo := (ip_last_geo m)(key \<mapsto> (bg_close_side geo, bg_close_distance_ticks geo))\<rparr>;
          prox = proximity_ticks (ip_config m) (fr_atr_14 fr) (ls_tick_size l);
          sep = separation_ticks (ip_config m) (fr_atr_14 fr) (ls_tick_size l)
      in if enters_proximity geo prox
         then open_episode m key fr l geo (map_option fst pre) (map_option snd pre) prox sep
         else m)"

text \<open>The bar's record and the running aggregates.\<close>

definition extend_episode ::
  "active_episode \<Rightarrow> episode_key \<Rightarrow> interaction_frame \<Rightarrow> level_snapshot \<Rightarrow> bar_geometry \<Rightarrow> int \<Rightarrow> int \<Rightarrow> active_episode" where
  "extend_episode ep key fr l geo prox sep =
     (let s = ae_summary ep in
      ep\<lparr>ae_last_bar_ts := Some (fr_bar_timestamp fr), ae_last_session_phase := Some (fr_session_phase fr),
         ae_bar_records := ae_bar_records ep
           @ [bar_record (ep_episode_id s) (length (ae_bar_records ep)) (ep_symbol s, ep_session_id s, snd (snd key)) fr l geo prox sep],
         ae_summary := s\<lparr>ep_bar_count := ep_bar_count s + 1,
           ep_range_span_count := ep_range_span_count s + (if bg_range_spans_level geo then 1 else 0),
           ep_max_above_ticks := max (ep_max_above_ticks s) (bg_high_distance_ticks geo),
           ep_max_below_ticks := min (ep_max_below_ticks s) (bg_low_distance_ticks geo),
           ep_end_side := bg_close_side geo\<rparr>\<rparr>)"

definition separated_side :: "bar_geometry \<Rightarrow> int \<Rightarrow> level_side option" where
  "separated_side geo sep =
     (if bg_low_distance_ticks geo > sep then Some Above
      else if bg_high_distance_ticks geo < - sep then Some Below
      else None)"

definition count_separation :: "active_episode \<Rightarrow> level_side option \<Rightarrow> active_episode" where
  "count_separation ep this_dir =
     (case this_dir of
        Some d \<Rightarrow>
          if this_dir = ae_separation_direction ep
          then ep\<lparr>ae_bars_at_separation := ae_bars_at_separation ep + 1\<rparr>
          else ep\<lparr>ae_bars_at_separation := 1, ae_separation_direction := this_dir\<rparr>
      | None \<Rightarrow> ep\<lparr>ae_bars_at_separation := 0, ae_separation_direction := None\<rparr>)"

definition handle_active ::
  "episode_manager \<Rightarrow> episode_key \<Rightarrow> active_episode \<Rightarrow> interaction_frame \<Rightarrow> level_snapshot \<Rightarrow> bar_geometry \<Rightarrow>
   episode_manager \<times> completed list" where
  "handle_active m key ep fr l geo =
     (let c = ip_config m;
          prox = proximity_ticks c (fr_atr_14 fr) (ls_tick_size l);
          sep = separation_ticks c (fr_atr_14 fr) (ls_tick_size l);
          ep = extend_episode ep key fr l geo prox sep;
          m = m\<lparr>ip_last_geo := (ip_last_geo m)(key \<mapsto> (bg_close_side geo, bg_close_distance_ticks geo))\<rparr>
      in if ep_bar_count (ae_summary ep) \<ge> lc_max_episode_bars c
         then close_episode (m\<lparr>ip_active := AList.update key ep (ip_active m)\<rparr>) key (fr_bar_timestamp fr) Timeout
         else
           (let ep = count_separation ep (separated_side geo sep);
                m = m\<lparr>ip_active := AList.update key ep (ip_active m)\<rparr>
            in if ae_bars_at_separation ep \<ge> lc_min_separation_bars c
               then close_episode m key (fr_bar_timestamp fr) Separation
               else (m, [])))"

definition level_key :: "level_snapshot \<Rightarrow> episode_key" where
  "level_key l = (ls_symbol l, ls_session_id l, ls_level_id l)"

definition process_level :: "interaction_frame \<Rightarrow> episode_manager \<Rightarrow> level_snapshot \<Rightarrow> episode_manager \<times> completed list" where
  "process_level fr m l =
     (let geo = geo_for_level fr l; key = level_key l in
      case map_of (ip_active m) key of
        None \<Rightarrow> (handle_outside m key fr l geo, [])
      | Some ep \<Rightarrow> handle_active m key ep fr l geo)"

text \<open>A loop that threads the manager and collects the completed episodes.\<close>

fun collect :: "(episode_manager \<Rightarrow> 'a \<Rightarrow> episode_manager \<times> completed list) \<Rightarrow> episode_manager \<Rightarrow> 'a list \<Rightarrow>
    episode_manager \<times> completed list" where
  "collect f m [] = (m, [])"
| "collect f m (x # xs) = (case f m x of (m, out) \<Rightarrow> (case collect f m xs of (m, out') \<Rightarrow> (m, out @ out')))"

definition process_frame :: "episode_manager \<Rightarrow> interaction_frame \<Rightarrow> episode_manager \<times> completed list" where
  "process_frame m fr = collect (process_level fr) m (fr_levels fr)"

definition close_keys :: "episode_manager \<Rightarrow> episode_key list \<Rightarrow> timestamp \<Rightarrow> end_reason \<Rightarrow> episode_manager \<times> completed list" where
  "close_keys m keys t reason = collect (\<lambda>m key. close_episode m key t reason) m keys"

definition in_session :: "string \<Rightarrow> session_id \<Rightarrow> episode_key \<Rightarrow> bool" where
  "in_session s sid key \<longleftrightarrow> fst key = s \<and> fst (snd key) = sid"

definition on_session_end :: "episode_manager \<Rightarrow> string \<Rightarrow> session_id \<Rightarrow> timestamp \<Rightarrow> episode_manager \<times> completed list" where
  "on_session_end m s sid t =
     (case close_keys m (filter (in_session s sid) (map fst (ip_active m))) t Session_ended of
        (m, out) \<Rightarrow>
          (let gone = (\<lambda>key. in_session s sid key \<and> ip_interaction_index m key \<noteq> None) in
           (m\<lparr>ip_interaction_index := (\<lambda>key. if gone key then None else ip_interaction_index m key),
              ip_last_episode_id := (\<lambda>key. if gone key then None else ip_last_episode_id m key),
              ip_last_geo := (\<lambda>key. if gone key then None else ip_last_geo m key)\<rparr>, out)))"

definition on_gap :: "episode_manager \<Rightarrow> string \<Rightarrow> session_id \<Rightarrow> timestamp \<Rightarrow> episode_manager \<times> completed list" where
  "on_gap m s sid t = close_keys m (filter (in_session s sid) (map fst (ip_active m))) t Gap_detected"

definition on_processing_error :: "episode_manager \<Rightarrow> string \<Rightarrow> timestamp \<Rightarrow> episode_manager \<times> completed list" where
  "on_processing_error m s t = close_keys m (filter (\<lambda>key. fst key = s) (map fst (ip_active m))) t Processing_error"

definition flush_one :: "episode_manager \<Rightarrow> episode_key \<Rightarrow> episode_manager \<times> completed list" where
  "flush_one m key =
     (case map_of (ip_active m) key of
        None \<Rightarrow> (m, [])
      | Some ep \<Rightarrow>
          close_episode m key
            (case ae_last_bar_ts ep of None \<Rightarrow> ep_started_at (ae_summary ep) | Some t \<Rightarrow> t) Replay_completed)"

definition manager_flush :: "episode_manager \<Rightarrow> episode_manager \<times> completed list" where
  "manager_flush m = collect flush_one m (map fst (ip_active m))"

section \<open>Runs\<close>

datatype manager_cmd =
  Frame interaction_frame
| Session_end string session_id timestamp
| Gap string session_id timestamp
| Failed string timestamp
| Flush

fun manager_step :: "episode_manager \<Rightarrow> manager_cmd \<Rightarrow> episode_manager \<times> completed list" where
  "manager_step m (Frame fr) = process_frame m fr"
| "manager_step m (Session_end s sid t) = on_session_end m s sid t"
| "manager_step m (Gap s sid t) = on_gap m s sid t"
| "manager_step m (Failed s t) = on_processing_error m s t"
| "manager_step m Flush = manager_flush m"

definition manager_run :: "episode_manager \<Rightarrow> manager_cmd list \<Rightarrow> episode_manager \<times> completed list" where
  "manager_run m cmds = collect manager_step m cmds"

section \<open>What an episode must be\<close>

text \<open>The summary's figures are those of the bars.\<close>

definition summary_of_bars :: "episode_summary \<Rightarrow> episode_bar list \<Rightarrow> bool" where
  "summary_of_bars s rs \<longleftrightarrow>
     rs \<noteq> []
     \<and> ep_bar_count s = int (length rs)
     \<and> ep_range_span_count s = int (length (filter eb_range_spans_level rs))
     \<and> ep_max_above_ticks s = Max (eb_high_distance_ticks ` set rs)
     \<and> ep_max_below_ticks s = Min (eb_low_distance_ticks ` set rs)
     \<and> ep_end_side s = eb_close_side (last rs)
     \<and> ep_started_at s = eb_bar_timestamp (hd rs)
     \<and> map eb_bar_seq rs = [0..<length rs]
     \<and> (\<forall>r \<in> set rs. eb_episode_id r = ep_episode_id s)"

text \<open>The side a bar is separated on, by its own threshold, and the run of bars at the end of the list on one side.\<close>

definition bar_separation :: "episode_bar \<Rightarrow> level_side option" where
  "bar_separation r =
     (if eb_low_distance_ticks r > eb_separation_ticks r then Some Above
      else if eb_high_distance_ticks r < - eb_separation_ticks r then Some Below
      else None)"

fun trailing_run :: "'a option list \<Rightarrow> nat \<times> 'a option" where
  "trailing_run [] = (0, None)"
| "trailing_run (None # xs) = (0, None)"
| "trailing_run (Some d # xs) = (Suc (length (takeWhile ((=) (Some d)) xs)), Some d)"

definition separation_run :: "episode_bar list \<Rightarrow> nat \<times> level_side option" where
  "separation_run rs = trailing_run (rev (map bar_separation (tl rs)))"

definition active_ok :: "episode_key \<Rightarrow> active_episode \<Rightarrow> bool" where
  "active_ok key ep \<longleftrightarrow>
     summary_of_bars (ae_summary ep) (ae_bar_records ep)
     \<and> (ep_symbol (ae_summary ep), ep_session_id (ae_summary ep), ep_level_id (ae_summary ep)) = key
     \<and> ae_last_bar_ts ep = Some (eb_bar_timestamp (last (ae_bar_records ep)))
     \<and> (ae_bars_at_separation ep, ae_separation_direction ep)
        = (int (fst (separation_run (ae_bar_records ep))), snd (separation_run (ae_bar_records ep)))
     \<and> (ep_is_valid_for_research (ae_summary ep) \<longleftrightarrow> eb_atr_14 (hd (ae_bar_records ep)) \<noteq> None)
     \<and> ep_end_reason (ae_summary ep) = None"

definition within_limits :: "level_config \<Rightarrow> active_episode \<Rightarrow> bool" where
  "within_limits c ep \<longleftrightarrow>
     ae_bars_at_separation ep < max 1 (lc_min_separation_bars c)
     \<and> int (length (ae_bar_records ep)) < max 2 (lc_max_episode_bars c)"

definition manager_ok :: "episode_manager \<Rightarrow> bool" where
  "manager_ok m \<longleftrightarrow>
     distinct (map fst (ip_active m))
     \<and> (\<forall>(key, ep) \<in> set (ip_active m). active_ok key ep \<and> within_limits (ip_config m) ep)"

definition completed_ok :: "level_config \<Rightarrow> completed \<Rightarrow> bool" where
  "completed_ok c e \<longleftrightarrow>
     (case e of (s, rs) \<Rightarrow>
       summary_of_bars s rs
       \<and> ep_ended_at s \<noteq> None
       \<and> (ep_close_side_flip_count s, ep_max_consecutive_closes_above s, ep_max_consecutive_closes_below s)
          = derive_close_sequence rs
       \<and> (ep_end_reason s = Some Timeout \<longrightarrow> int (length rs) \<ge> lc_max_episode_bars c)
       \<and> (ep_end_reason s = Some Separation \<longrightarrow> int (fst (separation_run rs)) \<ge> lc_min_separation_bars c)
       \<and> int (length rs) \<le> max 2 (lc_max_episode_bars c)
       \<and> (ep_is_valid_for_research s \<longleftrightarrow>
            eb_atr_14 (hd rs) \<noteq> None \<and> ep_end_reason s \<notin> {Some Gap_detected, Some Processing_error}))"

section \<open>One bar\<close>

lemma trailing_run_Cons:
  "trailing_run (x # xs) =
     (case x of None \<Rightarrow> (0, None)
      | Some d \<Rightarrow> if snd (trailing_run xs) = x then (fst (trailing_run xs) + 1, x) else (1, x))"
  by (cases x; cases xs rule: trailing_run.cases) auto

lemma separation_run_snoc:
  "rs \<noteq> [] \<Longrightarrow> separation_run (rs @ [r]) =
     (case bar_separation r of None \<Rightarrow> (0, None)
      | Some d \<Rightarrow> if snd (separation_run rs) = Some d then (fst (separation_run rs) + 1, Some d) else (1, Some d))"
  by (cases rs) (auto simp: separation_run_def trailing_run_Cons split: option.split)

lemma bar_separation_record:
  "bar_separation (bar_record i n key fr l geo prox sep) = separated_side geo sep"
  by (simp add: bar_separation_def bar_record_def separated_side_def)

lemma summary_of_bars_snoc:
  assumes "summary_of_bars s rs" "eb_episode_id r = ep_episode_id s" "eb_bar_seq r = length rs"
  shows "summary_of_bars
    (s\<lparr>ep_bar_count := ep_bar_count s + 1,
       ep_range_span_count := ep_range_span_count s + (if eb_range_spans_level r then 1 else 0),
       ep_max_above_ticks := max (ep_max_above_ticks s) (eb_high_distance_ticks r),
       ep_max_below_ticks := min (ep_max_below_ticks s) (eb_low_distance_ticks r),
       ep_end_side := eb_close_side r\<rparr>) (rs @ [r])"
proof -
  have "rs \<noteq> []" using assms(1) by (simp add: summary_of_bars_def)
  then have "Max (eb_high_distance_ticks ` set (rs @ [r])) = max (Max (eb_high_distance_ticks ` set rs)) (eb_high_distance_ticks r)"
    "Min (eb_low_distance_ticks ` set (rs @ [r])) = min (Min (eb_low_distance_ticks ` set rs)) (eb_low_distance_ticks r)"
    by (simp_all add: max.commute min.commute)
  with assms show ?thesis by (simp add: summary_of_bars_def hd_append)
qed

lemma extend_episode_ok:
  assumes "active_ok key ep"
  shows "active_ok key (count_separation (extend_episode ep key fr l geo prox sep) (separated_side geo sep))"
    "summary_of_bars (ae_summary (extend_episode ep key fr l geo prox sep)) (ae_bar_records (extend_episode ep key fr l geo prox sep))"
    "ep_is_valid_for_research (ae_summary (extend_episode ep key fr l geo prox sep))
      = (eb_atr_14 (hd (ae_bar_records (extend_episode ep key fr l geo prox sep))) \<noteq> None)"
    "length (ae_bar_records (extend_episode ep key fr l geo prox sep)) = length (ae_bar_records ep) + 1"
    "ep_end_reason (ae_summary (extend_episode ep key fr l geo prox sep)) = None"
proof -
  let ?s = "ae_summary ep" and ?rs = "ae_bar_records ep"
  let ?r = "bar_record (ep_episode_id ?s) (length ?rs) (ep_symbol ?s, ep_session_id ?s, snd (snd key)) fr l geo prox sep"
  let ?ep = "extend_episode ep key fr l geo prox sep"
  have ne: "?rs \<noteq> []" using assms by (simp add: active_ok_def summary_of_bars_def)
  have records: "ae_bar_records ?ep = ?rs @ [?r]" by (simp add: extend_episode_def Let_def)
  have old: "summary_of_bars ?s ?rs" using assms by (simp add: active_ok_def)
  have summary: "ae_summary ?ep = ?s\<lparr>ep_bar_count := ep_bar_count ?s + 1,
       ep_range_span_count := ep_range_span_count ?s + (if eb_range_spans_level ?r then 1 else 0),
       ep_max_above_ticks := max (ep_max_above_ticks ?s) (eb_high_distance_ticks ?r),
       ep_max_below_ticks := min (ep_max_below_ticks ?s) (eb_low_distance_ticks ?r),
       ep_end_side := eb_close_side ?r\<rparr>"
    by (simp add: extend_episode_def Let_def bar_record_def)
  show bars: "summary_of_bars (ae_summary ?ep) (ae_bar_records ?ep)"
    unfolding records summary by (rule summary_of_bars_snoc [OF old]) (simp_all add: bar_record_def)
  show valid: "ep_is_valid_for_research (ae_summary ?ep) = (eb_atr_14 (hd (ae_bar_records ?ep)) \<noteq> None)"
    using assms ne unfolding records summary by (simp add: active_ok_def)
  show "length (ae_bar_records ?ep) = length ?rs + 1" unfolding records by simp
  show open': "ep_end_reason (ae_summary ?ep) = None" using assms unfolding summary by (simp add: active_ok_def)
  have run: "separation_run (ae_bar_records ?ep) =
      (case separated_side geo sep of None \<Rightarrow> (0, None)
       | Some d \<Rightarrow> if snd (separation_run ?rs) = Some d then (fst (separation_run ?rs) + 1, Some d) else (1, Some d))"
    unfolding records separation_run_snoc [OF ne] bar_separation_record ..
  have sep: "ae_bars_at_separation ?ep = int (fst (separation_run ?rs))" "ae_separation_direction ?ep = snd (separation_run ?rs)"
    using assms by (simp_all add: extend_episode_def Let_def active_ok_def)
  let ?ep' = "count_separation ?ep (separated_side geo sep)"
  have same: "ae_summary ?ep' = ae_summary ?ep" "ae_bar_records ?ep' = ae_bar_records ?ep" "ae_last_bar_ts ?ep' = ae_last_bar_ts ?ep"
    by (simp_all add: count_separation_def split: option.split)
  have "(ae_bars_at_separation ?ep', ae_separation_direction ?ep')
      = (int (fst (separation_run (ae_bar_records ?ep))), snd (separation_run (ae_bar_records ?ep)))"
    unfolding run by (auto simp: count_separation_def sep split: option.split)
  moreover have "(ep_symbol (ae_summary ?ep), ep_session_id (ae_summary ?ep), ep_level_id (ae_summary ?ep)) = key"
    using assms unfolding summary by (simp add: active_ok_def)
  moreover have "ae_last_bar_ts ?ep = Some (eb_bar_timestamp (last (ae_bar_records ?ep)))"
    unfolding records by (simp add: extend_episode_def Let_def bar_record_def)
  ultimately show "active_ok key ?ep'" using bars valid open' unfolding active_ok_def same by blast
qed

section \<open>The operations keep the invariant\<close>

lemma closed_summary_simps [simp]:
  "ep_ended_at (closed_summary ep t reason) = Some t"
  "ep_end_reason (closed_summary ep t reason) = Some reason"
  "ep_is_valid_for_research (closed_summary ep t reason)
    = (ep_is_valid_for_research (ae_summary ep) \<and> reason \<notin> {Gap_detected, Processing_error})"
  "ep_episode_id (closed_summary ep t reason) = ep_episode_id (ae_summary ep)"
  "ep_interaction_index (closed_summary ep t reason) = ep_interaction_index (ae_summary ep)"
  "ep_prior_episode_id (closed_summary ep t reason) = ep_prior_episode_id (ae_summary ep)"
  by (simp_all add: closed_summary_def Let_def split: prod.split)

lemma closed_summary_sequence:
  "(ep_close_side_flip_count (closed_summary ep t reason), ep_max_consecutive_closes_above (closed_summary ep t reason),
    ep_max_consecutive_closes_below (closed_summary ep t reason)) = derive_close_sequence (ae_bar_records ep)"
  by (simp add: closed_summary_def Let_def split: prod.split)

lemma closed_summary_bars: "summary_of_bars (closed_summary ep t reason) rs = summary_of_bars (ae_summary ep) rs"
proof -
  let ?s = "closed_summary ep t reason"
  have "ep_bar_count ?s = ep_bar_count (ae_summary ep)" "ep_range_span_count ?s = ep_range_span_count (ae_summary ep)"
    "ep_max_above_ticks ?s = ep_max_above_ticks (ae_summary ep)" "ep_max_below_ticks ?s = ep_max_below_ticks (ae_summary ep)"
    "ep_end_side ?s = ep_end_side (ae_summary ep)" "ep_started_at ?s = ep_started_at (ae_summary ep)"
    by (simp_all add: closed_summary_def Let_def split: prod.split)
  then show ?thesis by (simp add: summary_of_bars_def)
qed

lemma close_episode_cases:
  assumes "close_episode m key t reason = (m', out)"
  obtains (idle) "map_of (ip_active m) key = None" "m' = m" "out = []"
  | (closes) ep where "map_of (ip_active m) key = Some ep"
      "m' = m\<lparr>ip_active := AList.delete key (ip_active m),
             ip_last_episode_id := (ip_last_episode_id m)(key \<mapsto> ep_episode_id (ae_summary ep))\<rparr>"
      "out = [(closed_summary ep t reason, ae_bar_records ep)]"
  using assms by (auto simp: close_episode_def split: option.splits)

definition key_bound :: "level_config \<Rightarrow> active_episode \<Rightarrow> end_reason \<Rightarrow> bool" where
  "key_bound c ep reason \<longleftrightarrow>
     int (length (ae_bar_records ep)) \<le> max 2 (lc_max_episode_bars c)
     \<and> (reason = Timeout \<longrightarrow> int (length (ae_bar_records ep)) \<ge> lc_max_episode_bars c)
     \<and> (reason = Separation \<longrightarrow> int (fst (separation_run (ae_bar_records ep))) \<ge> lc_min_separation_bars c)"

lemma close_episode_completed:
  assumes "close_episode m key t reason = (m', out)"
    "\<And>ep. map_of (ip_active m) key = Some ep \<Longrightarrow> key_bound (ip_config m) ep reason
       \<and> summary_of_bars (ae_summary ep) (ae_bar_records ep)
       \<and> ep_is_valid_for_research (ae_summary ep) = (eb_atr_14 (hd (ae_bar_records ep)) \<noteq> None)"
  shows "\<forall>e \<in> set out. completed_ok (ip_config m) e"
  using assms(1)
proof (cases rule: close_episode_cases)
  case (closes ep)
  with assms(2) [OF closes(1)] closed_summary_sequence [of ep t reason] show ?thesis
    by (auto simp: completed_ok_def key_bound_def closed_summary_bars)
qed simp

lemma close_episode_active: "ip_active (fst (close_episode m key t reason)) = AList.delete key (ip_active m)"
  "ip_config (fst (close_episode m key t reason)) = ip_config m"
proof -
  have "AList.delete key xs = xs" if "map_of xs key = None" for xs :: "(episode_key \<times> active_episode) list"
    using that by (induction xs) (auto simp: AList.delete_eq split: if_splits)
  then show "ip_active (fst (close_episode m key t reason)) = AList.delete key (ip_active m)"
    "ip_config (fst (close_episode m key t reason)) = ip_config m"
    by (simp_all add: close_episode_def split: option.split)
qed

lemma manager_ok_delete: "manager_ok m \<Longrightarrow> ip_active m' = AList.delete key (ip_active m) \<Longrightarrow> ip_config m' = ip_config m \<Longrightarrow> manager_ok m'"
  by (auto simp: manager_ok_def AList.delete_eq distinct_map_filter)

lemma manager_ok_update:
  assumes "manager_ok m" "ip_active m' = AList.update key ep (ip_active m)" "ip_config m' = ip_config m"
    "active_ok key ep" "within_limits (ip_config m) ep"
  shows "manager_ok m'"
proof -
  have "set (AList.update key ep xs) \<subseteq> insert (key, ep) (set xs)" for xs
    by (induction xs) auto
  with assms show ?thesis by (fastforce simp: manager_ok_def distinct_update)
qed

lemma manager_ok_lookup: "manager_ok m \<Longrightarrow> map_of (ip_active m) key = Some ep \<Longrightarrow> active_ok key ep \<and> within_limits (ip_config m) ep"
  by (auto simp: manager_ok_def dest: map_of_SomeD)

lemma close_episode_ok:
  assumes "manager_ok m" "close_episode m key t reason = (m', out)" "reason \<notin> {Timeout, Separation}"
  shows "manager_ok m' \<and> ip_config m' = ip_config m \<and> (\<forall>e \<in> set out. completed_ok (ip_config m) e)"
proof -
  have m': "m' = fst (close_episode m key t reason)" using assms(2) by simp
  have "\<forall>e \<in> set out. completed_ok (ip_config m) e"
  proof (rule close_episode_completed [OF assms(2)])
    fix ep assume "map_of (ip_active m) key = Some ep"
    from manager_ok_lookup [OF assms(1) this] assms(3)
    show "key_bound (ip_config m) ep reason \<and> summary_of_bars (ae_summary ep) (ae_bar_records ep)
       \<and> ep_is_valid_for_research (ae_summary ep) = (eb_atr_14 (hd (ae_bar_records ep)) \<noteq> None)"
      by (auto simp: key_bound_def active_ok_def within_limits_def)
  qed
  with manager_ok_delete [OF assms(1) close_episode_active(1) close_episode_active(2), of key t reason]
  show ?thesis unfolding m' by (simp add: close_episode_active)
qed

lemma collect_ok:
  assumes "\<And>m x m' out. manager_ok m \<Longrightarrow> f m x = (m', out) \<Longrightarrow>
      manager_ok m' \<and> ip_config m' = ip_config m \<and> (\<forall>e \<in> set out. completed_ok (ip_config m) e)"
  shows "manager_ok m \<Longrightarrow> collect f m xs = (m', out) \<Longrightarrow>
      manager_ok m' \<and> ip_config m' = ip_config m \<and> (\<forall>e \<in> set out. completed_ok (ip_config m) e)"
proof (induction xs arbitrary: m out)
  case (Cons x xs)
  obtain m1 o1 where one: "f m x = (m1, o1)" by fastforce
  obtain m2 o2 where rest: "collect f m1 xs = (m2, o2)" by fastforce
  from Cons.prems(2) one rest have eqs: "m' = m2" "out = o1 @ o2" by simp_all
  from assms [OF Cons.prems(1) one] have first: "manager_ok m1" "ip_config m1 = ip_config m" "\<forall>e \<in> set o1. completed_ok (ip_config m) e" by simp_all
  from Cons.IH [OF first(1)] rest eqs(1) have "manager_ok m2 \<and> ip_config m2 = ip_config m1 \<and> (\<forall>e \<in> set o2. completed_ok (ip_config m1) e)" by simp
  with first show ?case by (auto simp: eqs)
qed simp

lemma new_episode_ok:
  "active_ok key (new_episode m key fr l geo pre_side pre_distance prox sep)"
  "within_limits c (new_episode m key fr l geo pre_side pre_distance prox sep)"
  by (simp_all add: new_episode_def active_ok_def summary_of_bars_def bar_record_def separation_run_def within_limits_def
      less_max_iff_disj)

lemma open_episode_active_ok:
  assumes "manager_ok m"
  shows "manager_ok (open_episode m key fr l geo pre_side pre_distance prox sep)
    \<and> ip_config (open_episode m key fr l geo pre_side pre_distance prox sep) = ip_config m"
  using manager_ok_update [OF assms _ _ new_episode_ok]
  by (simp add: open_episode_def)

lemma manager_ok_cong: "ip_active m' = ip_active m \<Longrightarrow> ip_config m' = ip_config m \<Longrightarrow> manager_ok m' = manager_ok m"
  by (simp add: manager_ok_def)

lemma handle_outside_ok:
  assumes "manager_ok m"
  shows "manager_ok (handle_outside m key fr l geo) \<and> ip_config (handle_outside m key fr l geo) = ip_config m"
proof -
  let ?m = "m\<lparr>ip_last_geo := (ip_last_geo m)(key \<mapsto> (bg_close_side geo, bg_close_distance_ticks geo))\<rparr>"
  have "manager_ok ?m" using assms manager_ok_cong [of ?m m] by simp
  from open_episode_active_ok [OF this] this show ?thesis unfolding handle_outside_def Let_def by simp
qed

lemma handle_active_ok:
  assumes "manager_ok m" "map_of (ip_active m) key = Some ep" "handle_active m key ep fr l geo = (m', out)"
  shows "manager_ok m' \<and> ip_config m' = ip_config m \<and> (\<forall>e \<in> set out. completed_ok (ip_config m) e)"
proof -
  let ?c = "ip_config m"
  let ?prox = "proximity_ticks ?c (fr_atr_14 fr) (ls_tick_size l)" and ?sep = "separation_ticks ?c (fr_atr_14 fr) (ls_tick_size l)"
  let ?e1 = "extend_episode ep key fr l geo ?prox ?sep"
  let ?e2 = "count_separation ?e1 (separated_side geo ?sep)"
  let ?m = "m\<lparr>ip_last_geo := (ip_last_geo m)(key \<mapsto> (bg_close_side geo, bg_close_distance_ticks geo))\<rparr>"
  from manager_ok_lookup [OF assms(1,2)] have ep: "active_ok key ep" "within_limits ?c ep" by simp_all
  note grown = extend_episode_ok [OF ep(1), of fr l geo ?prox ?sep]
  have count: "ep_bar_count (ae_summary ?e1) = int (length (ae_bar_records ?e1))" using grown(2) by (simp add: summary_of_bars_def)
  have len: "int (length (ae_bar_records ?e1)) \<le> max 2 (lc_max_episode_bars ?c)"
    using ep(2) grown(4) by (auto simp: within_limits_def)
  have records: "ae_bar_records ?e2 = ae_bar_records ?e1" "ae_summary ?e2 = ae_summary ?e1"
    by (simp_all add: count_separation_def split: option.split)
  have drop: "AList.delete key (AList.update key e xs) = AList.delete key xs" for e and xs :: "(episode_key \<times> active_episode) list"
    by (induction xs) (auto simp: AList.delete_eq)
  have close: "manager_ok m' \<and> ip_config m' = ?c \<and> (\<forall>e \<in> set out. completed_ok ?c e)"
    if "close_episode (?m\<lparr>ip_active := AList.update key e (ip_active m)\<rparr>) key t reason = (m', out)"
      "key_bound ?c e reason" "ae_summary e = ae_summary ?e1" "ae_bar_records e = ae_bar_records ?e1" for e t reason
  proof -
    let ?n = "?m\<lparr>ip_active := AList.update key e (ip_active m)\<rparr>"
    have n: "m' = fst (close_episode ?n key t reason)" using that(1) by simp
    have "ip_active m' = AList.delete key (ip_active m)" "ip_config m' = ?c"
      unfolding n close_episode_active by (simp_all add: drop)
    then have "manager_ok m'" by (rule manager_ok_delete [OF assms(1)])
    moreover have "\<forall>e \<in> set out. completed_ok (ip_config ?n) e"
    proof (rule close_episode_completed [OF that(1)])
      fix x assume "map_of (ip_active ?n) key = Some x"
      then have "x = e" by (simp add: update_conv')
      then show "key_bound (ip_config ?n) x reason \<and> summary_of_bars (ae_summary x) (ae_bar_records x)
          \<and> ep_is_valid_for_research (ae_summary x) = (eb_atr_14 (hd (ae_bar_records x)) \<noteq> None)"
        using that(2-4) grown(2,3) by simp
    qed
    ultimately show ?thesis using \<open>ip_config m' = ?c\<close> by simp
  qed
  consider (timeout) "lc_max_episode_bars ?c \<le> int (length (ae_bar_records ?e1))"
    | (separation) "\<not> lc_max_episode_bars ?c \<le> int (length (ae_bar_records ?e1))" "lc_min_separation_bars ?c \<le> ae_bars_at_separation ?e2"
    | (stays) "\<not> lc_max_episode_bars ?c \<le> int (length (ae_bar_records ?e1))" "\<not> lc_min_separation_bars ?c \<le> ae_bars_at_separation ?e2" by blast
  then show ?thesis
  proof cases
    case timeout
    with assms(3) count have "close_episode (?m\<lparr>ip_active := AList.update key ?e1 (ip_active m)\<rparr>) key (fr_bar_timestamp fr) Timeout = (m', out)"
      by (simp add: handle_active_def Let_def)
    from close [OF this] timeout len show ?thesis by (simp add: key_bound_def)
  next
    case separation
    with assms(3) count have "close_episode (?m\<lparr>ip_active := AList.update key ?e2 (ip_active m)\<rparr>) key (fr_bar_timestamp fr) Separation = (m', out)"
      by (simp add: handle_active_def Let_def)
    moreover have "ae_bars_at_separation ?e2 = int (fst (separation_run (ae_bar_records ?e1)))"
      using grown(1) records by (simp add: active_ok_def)
    ultimately show ?thesis using close [of ?e2] separation len records by (simp add: key_bound_def)
  next
    case stays
    with assms(3) count have m': "m' = ?m\<lparr>ip_active := AList.update key ?e2 (ip_active m)\<rparr>" "out = []"
      by (simp_all add: handle_active_def Let_def)
    have "within_limits ?c ?e2" using stays records by (simp add: within_limits_def less_max_iff_disj)
    from manager_ok_update [OF assms(1) _ _ grown(1) this, of m'] show ?thesis by (simp add: m')
  qed
qed

lemma process_level_ok:
  assumes "manager_ok m" "process_level fr m l = (m', out)"
  shows "manager_ok m' \<and> ip_config m' = ip_config m \<and> (\<forall>e \<in> set out. completed_ok (ip_config m) e)"
proof (cases "map_of (ip_active m) (level_key l)")
  case None
  with assms(2) have "m' = handle_outside m (level_key l) fr l (geo_for_level fr l)" "out = []"
    by (simp_all add: process_level_def Let_def)
  with handle_outside_ok [OF assms(1)] show ?thesis by simp
next
  case (Some ep)
  with assms(2) have "handle_active m (level_key l) ep fr l (geo_for_level fr l) = (m', out)"
    by (simp add: process_level_def Let_def)
  from handle_active_ok [OF assms(1) Some this] show ?thesis .
qed

lemma close_keys_ok:
  "manager_ok m \<Longrightarrow> reason \<notin> {Timeout, Separation} \<Longrightarrow> close_keys m keys t reason = (m', out) \<Longrightarrow>
   manager_ok m' \<and> ip_config m' = ip_config m \<and> (\<forall>e \<in> set out. completed_ok (ip_config m) e)"
  unfolding close_keys_def by (rule collect_ok) (rule close_episode_ok)

lemma manager_step_ok:
  assumes "manager_ok m" "manager_step m c = (m', out)"
  shows "manager_ok m' \<and> ip_config m' = ip_config m \<and> (\<forall>e \<in> set out. completed_ok (ip_config m) e)"
proof (cases c)
  case (Frame fr)
  with assms(2) have "collect (process_level fr) m (fr_levels fr) = (m', out)" by (simp add: process_frame_def)
  from collect_ok [OF process_level_ok assms(1) this] show ?thesis by simp
next
  case (Session_end s sid t)
  obtain m1 o1 where one: "close_keys m (filter (in_session s sid) (map fst (ip_active m))) t Session_ended = (m1, o1)" by fastforce
  with Session_end assms(2) have m': "ip_active m' = ip_active m1" "ip_config m' = ip_config m1" "out = o1"
    by (auto simp: on_session_end_def Let_def)
  from close_keys_ok [OF assms(1) _ one] m' manager_ok_cong [OF m'(1,2)] show ?thesis by simp
next
  case (Gap s sid t)
  with assms(2) have "close_keys m (filter (in_session s sid) (map fst (ip_active m))) t Gap_detected = (m', out)"
    by (simp add: on_gap_def)
  from close_keys_ok [OF assms(1) _ this] show ?thesis by simp
next
  case (Failed s t)
  with assms(2) have "close_keys m (filter (\<lambda>key. fst key = s) (map fst (ip_active m))) t Processing_error = (m', out)"
    by (simp add: on_processing_error_def)
  from close_keys_ok [OF assms(1) _ this] show ?thesis by simp
next
  case Flush
  with assms(2) have run: "collect flush_one m (map fst (ip_active m)) = (m', out)" by (simp add: manager_flush_def)
  show ?thesis
  proof (rule collect_ok [OF _ assms(1) run])
    fix m x m' out assume "manager_ok m" "flush_one m x = (m', out)"
    then show "manager_ok m' \<and> ip_config m' = ip_config m \<and> (\<forall>e \<in> set out. completed_ok (ip_config m) e)"
      using close_episode_ok [of m x _ Replay_completed] by (auto simp: flush_one_def split: option.splits)
  qed
qed

lemma manager_ok_new: "manager_ok (manager_new c h)"
  by (simp add: manager_ok_def manager_new_def)

text \<open>
  C13. Whatever frames, session ends, gaps, failures and flushes the manager sees, in any order, every
  completed episode is consistent with its bars: its counts and extremes are those of its bar
  records, the bars are numbered in order under its identifier, it has an end time, it is
  no longer than the configured maximum, a timeout has that many bars, a separation ends in that
  many separated bars on one side, and it is valid for research exactly when the ATR was known at the
  start and neither a gap nor a failure ended it. The episodes still open are within the limits.
\<close>

theorem episodes_agree_with_their_bars:
  assumes "manager_run (manager_new c h) cmds = (m, out)"
  shows "(\<forall>e \<in> set out. completed_ok c e) \<and> manager_ok m"
  using collect_ok [OF manager_step_ok manager_ok_new] assms
  by (fastforce simp: manager_run_def manager_new_def)

text \<open>
  The documentation calls a bar crossed when it spans the level and closes on the other side than it
  opened. The code only asks that it neither opens nor closes on the level: a bar that opens above,
  dips below and closes above again is reported as crossed.
\<close>

theorem crossed_without_changing_side:
  assumes "tick_distance is_vwap low_price level tick \<le> 0" "0 < tick_distance is_vwap open_price level tick"
    "0 < tick_distance is_vwap close_price level tick" "0 < tick_distance is_vwap high_price level tick"
  shows "bg_crossed_within_bar (compute_geometry open_price high_price low_price close_price level tick atr is_vwap)
    \<and> bg_open_side (compute_geometry open_price high_price low_price close_price level tick atr is_vwap)
      = bg_close_side (compute_geometry open_price high_price low_price close_price level tick atr is_vwap)"
  using assms by (simp add: compute_geometry_def Let_def side_of_def)

lemma tick_distance_exact: "\<bar>k\<bar> < 10 ^ 28 \<Longrightarrow> tick_distance v (of_int (l + k)) (of_int l) 1 = k"
proof -
  assume "\<bar>k\<bar> < 10 ^ 28"
  then have "dq (of_int k) = of_int k" using dq_exact [of k 0] by simp
  then show ?thesis by (simp add: tick_distance_def Let_def)
qed

lemma crossed_without_changing_side_witness:
  "bg_crossed_within_bar (compute_geometry 101 102 99 101 100 1 None False)
   \<and> bg_close_side (compute_geometry 101 102 99 101 100 1 None False) = Above"
proof -
  have d: "tick_distance False 101 100 1 = 1" "tick_distance False 102 100 1 = 2" "tick_distance False 99 100 1 = -1"
    using tick_distance_exact [of 1 False 100] tick_distance_exact [of 2 False 100] tick_distance_exact [of "-1" False 100] by simp_all
  then show ?thesis
    using crossed_without_changing_side [of False 99 100 1 101 101 102 None]
    by (simp add: compute_geometry_def Let_def side_of_def)
qed

text \<open>Witness: one bar on the level, then a shutdown.\<close>

definition sample_level :: level_snapshot where
  "sample_level =
     \<lparr>ls_level_id = (''MNQ'', Level_orh, Rth, 0), ls_symbol = ''MNQ'', ls_session_id = (''MNQ'', 0), ls_level_type = Level_orh,
      ls_level_value = 100, ls_tick_size = 1, ls_is_dynamic = False, ls_sampling_note = ''fixed_orb_high'', ls_session_scope = Rth\<rparr>"

definition sample_frame :: interaction_frame where
  "sample_frame =
     \<lparr>fr_bar_timestamp = 0, fr_symbol = ''MNQ'', fr_session_id = (''MNQ'', 0), fr_sequence_num = None, fr_open = 100,
      fr_high = 100, fr_low = 100, fr_close = 100, fr_volume = 1, fr_atr_14 = None, fr_session_phase = Phase_MID,
      fr_is_replay = True, fr_levels = [sample_level]\<rparr>"

lemma episodes_agree_with_their_bars_witness:
  "\<exists>e. snd (manager_run (manager_new level_config_default ''h'') [Frame sample_frame, Flush]) = [e]
     \<and> completed_ok level_config_default e \<and> ep_end_reason (fst e) = Some Replay_completed"
proof -
  obtain m out where run: "manager_run (manager_new level_config_default ''h'') [Frame sample_frame, Flush] = (m, out)" by fastforce
  have "length out = 1 \<and> ep_end_reason (fst (hd out)) = Some Replay_completed"
    using arg_cong [OF run, of snd]
    by (auto simp: manager_run_def process_frame_def sample_frame_def sample_level_def process_level_def manager_new_def
        handle_outside_def Let_def geo_for_level_def compute_geometry_def tick_distance_def level_key_def enters_proximity_def
        proximity_ticks_def atr_ticks_def level_config_default_def open_episode_def manager_flush_def flush_one_def
        new_episode_def close_episode_def round_half_up_of_int [of 0, simplified] int_trunc_of_int [of 0, simplified])
  then obtain e where "out = [e]" "ep_end_reason (fst e) = Some Replay_completed" by (cases out) auto
  with episodes_agree_with_their_bars [OF run] run show ?thesis by auto
qed

end
