(* ===== verification/Interaction_Engine.thy ===== *)
theory Interaction_Engine
  imports Episodes Registry
begin

text \<open>
  The subscriber that feeds the episode manager, \<^verbatim>\<open>research/interaction/engine.py\<close>, and the writer it
  hands completed episodes to, \<^verbatim>\<open>research/interaction/writer.py\<close>. A Parquet part is the rows in it; rows are
  the records themselves. Whether writing a part succeeds is a parameter: \<open>ok\<close> is asked for the
  table, the partition and the part's number. Creating the directory is taken to succeed. None of the
  modelled operations raises, so the handler's recovery path is \<open>on_processing_error\<close> of \<open>Episodes\<close> alone.
\<close>

section \<open>Writer\<close>

datatype table_name = Episodes_table | Bars_table

type_synonym partition_key = "string \<times> date"

record episode_writer =
  ew_ep_buf :: "(partition_key \<times> episode_summary list) list"
  ew_bar_buf :: "(partition_key \<times> episode_bar list) list"
  ew_seq :: "table_name \<times> partition_key \<Rightarrow> nat"
  ew_episodes_written :: nat
  ew_bars_written :: nat
  ew_episode_parts :: "(partition_key \<times> nat \<times> episode_summary list) list"
  ew_bar_parts :: "(partition_key \<times> nat \<times> episode_bar list) list"

definition writer_new :: episode_writer where
  "writer_new =
     \<lparr>ew_ep_buf = [], ew_bar_buf = [], ew_seq = \<lambda>_. 0, ew_episodes_written = 0, ew_bars_written = 0,
      ew_episode_parts = [], ew_bar_parts = []\<rparr>"

definition buffered :: "(partition_key \<times> 'a list) list \<Rightarrow> partition_key \<Rightarrow> 'a list" where
  "buffered buf k = (case map_of buf k of None \<Rightarrow> [] | Some rows \<Rightarrow> rows)"

definition buffer_extend :: "partition_key \<Rightarrow> 'a list \<Rightarrow> (partition_key \<times> 'a list) list \<Rightarrow> (partition_key \<times> 'a list) list" where
  "buffer_extend k rows buf = AList.update k (buffered buf k @ rows) buf"

definition write_episode :: "episode_writer \<Rightarrow> completed \<Rightarrow> episode_writer" where
  "write_episode w e =
     (let bk = (ep_symbol (fst e), ep_session_date (fst e)) in
      w\<lparr>ew_ep_buf := buffer_extend bk [fst e] (ew_ep_buf w),
        ew_bar_buf := (if snd e = [] then ew_bar_buf w else buffer_extend bk (snd e) (ew_bar_buf w))\<rparr>)"

text \<open>\<open>_write_table\<close>: the number is taken also when the write fails.\<close>

definition next_seq :: "episode_writer \<Rightarrow> table_name \<Rightarrow> partition_key \<Rightarrow> episode_writer" where
  "next_seq w tb k = w\<lparr>ew_seq := (ew_seq w)((tb, k) := ew_seq w (tb, k) + 1)\<rparr>"

definition write_episodes_table ::
  "(table_name \<Rightarrow> partition_key \<Rightarrow> nat \<Rightarrow> bool) \<Rightarrow> episode_writer \<Rightarrow> partition_key \<Rightarrow> episode_summary list \<Rightarrow> episode_writer \<times> bool" where
  "write_episodes_table ok w k rows =
     (let w = next_seq w Episodes_table k; n = ew_seq w (Episodes_table, k) in
      if ok Episodes_table k n then (w\<lparr>ew_episode_parts := ew_episode_parts w @ [(k, n, rows)]\<rparr>, True) else (w, False))"

definition write_bars_table ::
  "(table_name \<Rightarrow> partition_key \<Rightarrow> nat \<Rightarrow> bool) \<Rightarrow> episode_writer \<Rightarrow> partition_key \<Rightarrow> episode_bar list \<Rightarrow> episode_writer \<times> bool" where
  "write_bars_table ok w k rows =
     (let w = next_seq w Bars_table k; n = ew_seq w (Bars_table, k) in
      if ok Bars_table k n then (w\<lparr>ew_bar_parts := ew_bar_parts w @ [(k, n, rows)]\<rparr>, True) else (w, False))"

definition requeue :: "episode_writer \<Rightarrow> partition_key \<Rightarrow> episode_summary list \<Rightarrow> episode_bar list \<Rightarrow> episode_writer" where
  "requeue w k ep_rows bar_rows =
     w\<lparr>ew_ep_buf := buffer_extend k ep_rows (ew_ep_buf w), ew_bar_buf := buffer_extend k bar_rows (ew_bar_buf w)\<rparr>"

definition flush_partition ::
  "(table_name \<Rightarrow> partition_key \<Rightarrow> nat \<Rightarrow> bool) \<Rightarrow> episode_writer \<Rightarrow> partition_key \<Rightarrow> episode_writer" where
  "flush_partition ok w k =
     (let ep_rows = buffered (ew_ep_buf w) k; bar_rows = buffered (ew_bar_buf w) k;
          w = w\<lparr>ew_ep_buf := AList.delete k (ew_ep_buf w), ew_bar_buf := AList.delete k (ew_bar_buf w)\<rparr>
      in if ep_rows = [] then w
         else (case write_episodes_table ok w k ep_rows of
                 (w, False) \<Rightarrow> requeue w k ep_rows bar_rows
               | (w, True) \<Rightarrow>
                   (case write_bars_table ok w k bar_rows of
                      (w, False) \<Rightarrow> requeue w k ep_rows bar_rows
                    | (w, True) \<Rightarrow>
                        w\<lparr>ew_episodes_written := ew_episodes_written w + length ep_rows,
                          ew_bars_written := ew_bars_written w + length bar_rows\<rparr>)))"

definition writer_flush :: "(table_name \<Rightarrow> partition_key \<Rightarrow> nat \<Rightarrow> bool) \<Rightarrow> episode_writer \<Rightarrow> episode_writer" where
  "writer_flush ok w = foldl (flush_partition ok) w (map fst (ew_ep_buf w))"

section \<open>Engine\<close>

record interaction_env =
  iv_registry :: symbol_registry
  iv_nyse :: session_calendar
  iv_cme :: session_calendar
  iv_write_ok :: "table_name \<Rightarrow> partition_key \<Rightarrow> nat \<Rightarrow> bool"

record interaction_engine =
  ie_manager :: episode_manager
  ie_writer :: episode_writer
  ie_last_bar_ts :: "string \<rightharpoonup> timestamp"
  ie_last_session_key :: "string \<rightharpoonup> session_id"
  ie_frames_processed :: nat
  ie_completed_episode_count :: nat

definition interaction_engine_new :: "level_config \<Rightarrow> string \<Rightarrow> interaction_engine" where
  "interaction_engine_new c h =
     \<lparr>ie_manager = manager_new c h, ie_writer = writer_new, ie_last_bar_ts = Map.empty, ie_last_session_key = Map.empty,
      ie_frames_processed = 0, ie_completed_episode_count = 0\<rparr>"

definition build_session_id :: "interaction_env \<Rightarrow> string \<Rightarrow> bar_snapshot \<Rightarrow> session_id" where
  "build_session_id v s snap =
     (case registry_get (iv_registry v) s of
        Inr sy \<Rightarrow> (s, sc_session_date (calendar_for_symbol (iv_nyse v) (iv_cme v) (sy_asset_class sy)) (br_timestamp (sn_bar snap)))
      | Inl _ \<Rightarrow> (s, date_of (br_timestamp (sn_bar snap))))"

definition get_tick_size :: "interaction_env \<Rightarrow> string \<Rightarrow> dec" where
  "get_tick_size v s =
     (case registry_get (iv_registry v) s of
        Inr sy \<Rightarrow> if sy_tick_size sy \<noteq> 0 then sy_tick_size sy else 1/4
      | Inl _ \<Rightarrow> 1/4)"

definition RTH_PHASES :: "session_phase set" where
  "RTH_PHASES = {Phase_OPENING_RANGE, Phase_EARLY, Phase_MID, Phase_POWER_HOUR, Phase_CLOSING}"

definition level_of ::
  "string \<Rightarrow> session_id \<Rightarrow> dec \<Rightarrow> level_type \<Rightarrow> session_scope \<Rightarrow> bool \<Rightarrow> string \<Rightarrow> dec \<Rightarrow> level_snapshot" where
  "level_of s sid tick ty scope is_dynamic note value =
     \<lparr>ls_level_id = (s, ty, scope, snd sid), ls_symbol = s, ls_session_id = sid, ls_level_type = ty, ls_level_value = value,
      ls_tick_size = tick, ls_is_dynamic = is_dynamic, ls_sampling_note = note, ls_session_scope = scope\<rparr>"

definition opt_level :: "bool \<Rightarrow> (dec \<Rightarrow> level_snapshot) \<Rightarrow> dec option \<Rightarrow> level_snapshot list" where
  "opt_level wanted mk value = (case value of None \<Rightarrow> [] | Some x \<Rightarrow> if wanted then [mk x] else [])"

definition positive :: "dec option \<Rightarrow> bool" where
  "positive x \<longleftrightarrow> (case x of None \<Rightarrow> False | Some y \<Rightarrow> y > 0)"

definition resolve_levels :: "interaction_env \<Rightarrow> string \<Rightarrow> session_id \<Rightarrow> bar_snapshot \<Rightarrow> level_snapshot list" where
  "resolve_levels v s sid snap =
     (let mk = level_of s sid (get_tick_size v s) in
      opt_level (positive (sn_full_session_vwap snap)) (mk Level_vwap Full_session True ''end_of_bar_cumulative_vwap_full_session'')
        (sn_full_session_vwap snap)
      @ opt_level (positive (sn_rth_vwap snap) \<and> sn_session_phase snap \<in> RTH_PHASES)
          (mk Level_vwap Rth True ''end_of_bar_cumulative_vwap_rth'') (sn_rth_vwap snap)
      @ opt_level (sn_or_established snap) (mk Level_orh Rth False ''fixed_orb_high'') (sn_or_high snap)
      @ opt_level (sn_or_established snap) (mk Level_orl Rth False ''fixed_orb_low'') (sn_or_low snap))"

text \<open>\<open>_on_episode_complete\<close>: every tenth completed episode flushes the writer.\<close>

definition on_episode_complete :: "interaction_env \<Rightarrow> interaction_engine \<Rightarrow> completed \<Rightarrow> interaction_engine" where
  "on_episode_complete v e c =
     (let w = write_episode (ie_writer e) c; n = ie_completed_episode_count e + 1 in
      e\<lparr>ie_writer := (if n mod 10 = 0 then writer_flush (iv_write_ok v) w else w), ie_completed_episode_count := n\<rparr>)"

definition with_manager ::
  "interaction_env \<Rightarrow> interaction_engine \<Rightarrow> episode_manager \<times> completed list \<Rightarrow> interaction_engine" where
  "with_manager v e r = foldl (on_episode_complete v) (e\<lparr>ie_manager := fst r\<rparr>) (snd r)"

text \<open>A session change is looked for before a gap: the overnight break is none.\<close>

definition roll_session :: "interaction_env \<Rightarrow> interaction_engine \<Rightarrow> string \<Rightarrow> session_id \<Rightarrow> timestamp \<Rightarrow> interaction_engine" where
  "roll_session v e s sid t =
     (case ie_last_session_key e s of
        None \<Rightarrow> e\<lparr>ie_last_session_key := (ie_last_session_key e)(s \<mapsto> sid)\<rparr>
      | Some last_session \<Rightarrow>
          if sid = last_session then e\<lparr>ie_last_session_key := (ie_last_session_key e)(s \<mapsto> sid)\<rparr>
          else
            (let e = with_manager v e (on_session_end (ie_manager e) s last_session t) in
             e\<lparr>ie_writer := writer_flush (iv_write_ok v) (ie_writer e),
               ie_last_session_key := (ie_last_session_key e)(s \<mapsto> sid)\<rparr>))"

definition is_gap :: "level_config \<Rightarrow> timestamp option \<Rightarrow> timestamp \<Rightarrow> bool" where
  "is_gap c last_ts t \<longleftrightarrow>
     (case last_ts of None \<Rightarrow> False | Some u \<Rightarrow> seconds_between t u > of_int (lc_max_bar_gap_seconds c))"

definition detect_gap ::
  "interaction_env \<Rightarrow> interaction_engine \<Rightarrow> bool \<Rightarrow> string \<Rightarrow> session_id \<Rightarrow> timestamp \<Rightarrow> interaction_engine" where
  "detect_gap v e rolled s sid t =
     (let e' = (if is_gap (ip_config (ie_manager e)) (ie_last_bar_ts e s) t \<and> \<not> rolled
                then with_manager v e (on_gap (ie_manager e) s sid t) else e)
      in e'\<lparr>ie_last_bar_ts := (ie_last_bar_ts e')(s \<mapsto> t)\<rparr>)"

definition frame_of ::
  "string \<Rightarrow> session_id \<Rightarrow> int option \<Rightarrow> bool \<Rightarrow> bar_snapshot \<Rightarrow> level_snapshot list \<Rightarrow> interaction_frame" where
  "frame_of s sid seq_num is_replay snap levels =
     (let b = sn_bar snap in
      \<lparr>fr_bar_timestamp = br_timestamp b, fr_symbol = s, fr_session_id = sid, fr_sequence_num = seq_num,
       fr_open = br_open b, fr_high = br_high b, fr_low = br_low b, fr_close = br_close b, fr_volume = br_volume b,
       fr_atr_14 = sn_atr_14 snap, fr_session_phase = sn_session_phase snap, fr_is_replay = is_replay,
       fr_levels = levels\<rparr>)"

definition interaction_process ::
  "interaction_env \<Rightarrow> interaction_engine \<Rightarrow> string \<Rightarrow> bar_snapshot \<Rightarrow> int option \<Rightarrow> bool \<Rightarrow> interaction_engine" where
  "interaction_process v e s snap seq_num is_replay =
     (let t = br_timestamp (sn_bar snap);
          sid = build_session_id v s snap;
          rolled = (case ie_last_session_key e s of None \<Rightarrow> False | Some k \<Rightarrow> sid \<noteq> k);
          e = detect_gap v (roll_session v e s sid t) rolled s sid t;
          levels = resolve_levels v s sid snap
      in if levels = [] then e
         else
           (let e = with_manager v e (process_frame (ie_manager e) (frame_of s sid seq_num is_replay snap levels)) in
            e\<lparr>ie_frames_processed := ie_frames_processed e + 1\<rparr>))"

definition interaction_flush :: "interaction_env \<Rightarrow> interaction_engine \<Rightarrow> interaction_engine" where
  "interaction_flush v e =
     (let e = with_manager v e (manager_flush (ie_manager e)) in
      e\<lparr>ie_writer := writer_flush (iv_write_ok v) (ie_writer e)\<rparr>)"

section \<open>The writer keeps every row\<close>

definition held :: "(partition_key \<times> 'a list) list \<Rightarrow> 'a set" where
  "held buf = (\<Union>kr \<in> set buf. set (snd kr))"

definition stored :: "(partition_key \<times> nat \<times> 'a list) list \<Rightarrow> 'a set" where
  "stored parts = (\<Union>p \<in> set parts. set (snd (snd p)))"

definition episodes_kept :: "episode_writer \<Rightarrow> episode_summary set" where
  "episodes_kept w = held (ew_ep_buf w) \<union> stored (ew_episode_parts w)"

definition bars_kept :: "episode_writer \<Rightarrow> episode_bar set" where
  "bars_kept w = held (ew_bar_buf w) \<union> stored (ew_bar_parts w)"

definition buffers_ok :: "episode_writer \<Rightarrow> bool" where
  "buffers_ok w \<longleftrightarrow> distinct (map fst (ew_ep_buf w)) \<and> distinct (map fst (ew_bar_buf w))"

lemma held_extend: "held (buffer_extend k rows buf) = set rows \<union> held buf"
proof -
  have "held (AList.update k (buffered buf k @ rows) buf) = set rows \<union> held buf"
    by (induction buf) (auto simp: held_def buffered_def)
  then show ?thesis by (simp add: buffer_extend_def)
qed

lemma held_delete: "distinct (map fst buf) \<Longrightarrow> set (buffered buf k) \<union> held (AList.delete k buf) = held buf"
  by (induction buf) (auto simp: held_def buffered_def AList.delete_eq rev_image_eqI)

lemma distinct_buffers: "distinct (map fst buf) \<Longrightarrow> distinct (map fst (buffer_extend k rows buf))"
  "distinct (map fst buf) \<Longrightarrow> distinct (map fst (AList.delete k buf))"
  by (simp_all add: buffer_extend_def distinct_update AList.delete_eq distinct_map_filter)

lemma stored_snoc: "stored (parts @ [(k, n, rows)]) = stored parts \<union> set rows"
  by (auto simp: stored_def)

lemma write_episode_keeps:
  "buffers_ok w \<Longrightarrow> buffers_ok (write_episode w e)
   \<and> episodes_kept (write_episode w e) = insert (fst e) (episodes_kept w)
   \<and> bars_kept (write_episode w e) = set (snd e) \<union> bars_kept w"
  by (auto simp: write_episode_def Let_def buffers_ok_def episodes_kept_def bars_kept_def held_extend distinct_buffers)

lemma flush_partition_keeps:
  assumes "buffers_ok w" "buffered (ew_ep_buf w) k \<noteq> []"
  shows "buffers_ok (flush_partition ok w k) \<and> episodes_kept (flush_partition ok w k) = episodes_kept w
    \<and> bars_kept (flush_partition ok w k) = bars_kept w"
proof -
  have d: "distinct (map fst (ew_ep_buf w))" "distinct (map fst (ew_bar_buf w))" using assms(1) by (simp_all add: buffers_ok_def)
  show ?thesis
    using held_delete [OF d(1), of k] held_delete [OF d(2), of k] d assms(2)
    by (auto simp: flush_partition_def Let_def write_episodes_table_def write_bars_table_def next_seq_def requeue_def
        buffers_ok_def episodes_kept_def bars_kept_def held_extend distinct_buffers stored_snoc)
qed

text \<open>A partition in the episode buffer has rows.\<close>

definition rows_ok :: "episode_writer \<Rightarrow> bool" where
  "rows_ok w \<longleftrightarrow> (\<forall>kr \<in> set (ew_ep_buf w). snd kr \<noteq> [])"

lemma update_mem: "x \<in> set (AList.update k v d) \<Longrightarrow> x = (k, v) \<or> x \<in> set d"
  by (induction d) (auto split: if_splits)

lemma rows_ok_write: "rows_ok w \<Longrightarrow> rows_ok (write_episode w e)"
  by (auto simp: rows_ok_def write_episode_def Let_def buffer_extend_def dest!: update_mem)

lemma rows_ok_flush_partition:
  assumes "rows_ok w"
  shows "rows_ok (flush_partition ok w k)"
proof -
  have "snd kr \<noteq> []" if "kr \<in> set (AList.delete k (ew_ep_buf w))" for kr
    using that assms by (auto simp: rows_ok_def AList.delete_eq)
  then show ?thesis
    by (auto simp: rows_ok_def flush_partition_def Let_def write_episodes_table_def write_bars_table_def next_seq_def
        requeue_def buffer_extend_def dest!: update_mem)
qed

lemma flush_partition_any:
  assumes "buffers_ok w" "rows_ok w"
  shows "buffers_ok (flush_partition ok w k) \<and> episodes_kept (flush_partition ok w k) = episodes_kept w
    \<and> bars_kept w \<subseteq> bars_kept (flush_partition ok w k) \<union> set (buffered (ew_bar_buf w) k)"
proof (cases "buffered (ew_ep_buf w) k = []")
  case True
  have d: "distinct (map fst (ew_ep_buf w))" "distinct (map fst (ew_bar_buf w))" using assms(1) by (simp_all add: buffers_ok_def)
  show ?thesis
    using held_delete [OF d(1), of k] held_delete [OF d(2), of k] d True
    by (auto simp: flush_partition_def buffers_ok_def episodes_kept_def bars_kept_def distinct_buffers)
next
  case False
  from flush_partition_keeps [OF assms(1) this] show ?thesis by simp
qed

text \<open>Bars are never buffered without an episode of the same partition.\<close>

definition paired :: "episode_writer \<Rightarrow> bool" where
  "paired w \<longleftrightarrow> fst ` set (ew_bar_buf w) \<subseteq> fst ` set (ew_ep_buf w)"

definition writer_ok :: "episode_writer \<Rightarrow> bool" where
  "writer_ok w \<longleftrightarrow> buffers_ok w \<and> rows_ok w \<and> paired w"

lemma keys_extend: "fst ` set (buffer_extend k rows buf) = insert k (fst ` set buf)"
proof -
  have "fst ` set (AList.update k v buf) = insert k (fst ` set buf)" for v
    by (induction buf) auto
  then show ?thesis by (simp add: buffer_extend_def)
qed

lemma keys_delete: "fst ` set (AList.delete k buf) = fst ` set buf - {k}"
  by (auto simp: AList.delete_eq)

lemma writer_ok_new: "writer_ok writer_new"
  by (simp add: writer_ok_def buffers_ok_def rows_ok_def paired_def writer_new_def)

lemma writer_ok_write: "writer_ok w \<Longrightarrow> writer_ok (write_episode w e)"
  using write_episode_keeps [of w e] rows_ok_write [of w e]
  by (auto simp: writer_ok_def paired_def write_episode_def Let_def keys_extend)

lemma writer_ok_flush_partition:
  assumes "writer_ok w"
  shows "writer_ok (flush_partition ok w k) \<and> episodes_kept (flush_partition ok w k) = episodes_kept w
    \<and> bars_kept (flush_partition ok w k) = bars_kept w"
proof -
  have ok: "buffers_ok w" "rows_ok w" "paired w" using assms by (simp_all add: writer_ok_def)
  have "paired (flush_partition ok w k)"
    using ok(3) by (auto simp: paired_def flush_partition_def Let_def write_episodes_table_def write_bars_table_def
        next_seq_def requeue_def keys_extend keys_delete)
  moreover have "bars_kept (flush_partition ok w k) = bars_kept w"
  proof (cases "buffered (ew_ep_buf w) k = []")
    case True
    have "k \<notin> fst ` set (ew_ep_buf w)"
    proof
      assume "k \<in> fst ` set (ew_ep_buf w)"
      then obtain rows where rows: "map_of (ew_ep_buf w) k = Some rows" by (metis map_of_eq_None_iff option.exhaust)
      with True have "rows = []" by (simp add: buffered_def)
      with ok(2) map_of_SomeD [OF rows] show False by (auto simp: rows_ok_def)
    qed
    with ok(3) have "k \<notin> fst ` set (ew_bar_buf w)" by (auto simp: paired_def)
    then have "AList.delete k (ew_bar_buf w) = ew_bar_buf w" by (force simp: AList.delete_eq intro!: filter_True)
    with True show ?thesis by (simp add: flush_partition_def bars_kept_def)
  next
    case False
    from flush_partition_keeps [OF ok(1) False] show ?thesis by simp
  qed
  ultimately show ?thesis using flush_partition_any [OF ok(1,2)] rows_ok_flush_partition [OF ok(2)] by (simp add: writer_ok_def)
qed

lemma writer_ok_flush:
  "writer_ok w \<Longrightarrow> writer_ok (writer_flush ok w) \<and> episodes_kept (writer_flush ok w) = episodes_kept w
    \<and> bars_kept (writer_flush ok w) = bars_kept w"
proof -
  assume "writer_ok w"
  then have "writer_ok (foldl (flush_partition ok) w ks) \<and> episodes_kept (foldl (flush_partition ok) w ks) = episodes_kept w
    \<and> bars_kept (foldl (flush_partition ok) w ks) = bars_kept w" for ks
  proof (induction ks arbitrary: w)
    case (Cons k ks)
    from writer_ok_flush_partition [OF Cons.prems] Cons.IH [of "flush_partition ok w k"] show ?case by simp
  qed simp
  then show ?thesis by (simp add: writer_flush_def)
qed

datatype writer_cmd =
  Write_completed completed
| Flush_writer "table_name \<Rightarrow> partition_key \<Rightarrow> nat \<Rightarrow> bool"

fun writer_step :: "episode_writer \<Rightarrow> writer_cmd \<Rightarrow> episode_writer" where
  "writer_step w (Write_completed e) = write_episode w e"
| "writer_step w (Flush_writer ok) = writer_flush ok w"

fun written_episodes :: "writer_cmd list \<Rightarrow> completed set" where
  "written_episodes [] = {}"
| "written_episodes (Write_completed e # cs) = insert e (written_episodes cs)"
| "written_episodes (Flush_writer ok # cs) = written_episodes cs"

lemma writer_run_keeps:
  "writer_ok w \<Longrightarrow>
   episodes_kept (foldl writer_step w cmds) = episodes_kept w \<union> fst ` written_episodes cmds
   \<and> bars_kept (foldl writer_step w cmds) = bars_kept w \<union> (\<Union>e \<in> written_episodes cmds. set (snd e))"
proof (induction cmds arbitrary: w)
  case (Cons c cmds)
  show ?case
  proof (cases c)
    case (Write_completed e)
    from write_episode_keeps [of w e] Cons.prems have "episodes_kept (write_episode w e) = insert (fst e) (episodes_kept w)"
      "bars_kept (write_episode w e) = set (snd e) \<union> bars_kept w" by (simp_all add: writer_ok_def)
    with Cons.IH [OF writer_ok_write [OF Cons.prems], of e] Write_completed show ?thesis by auto
  next
    case (Flush_writer ok)
    from writer_ok_flush [OF Cons.prems, of ok] Cons.IH [of "writer_flush ok w"] Flush_writer show ?thesis by simp
  qed
qed simp

text \<open>
  The episode writer loses and invents nothing, however writes and flushes follow each other and whichever
  parts fail to be written: the episodes in its buffers and files are exactly those it was given, and the
  bars in them exactly the bars of those episodes.
\<close>

theorem writer_keeps_every_row:
  "episodes_kept (foldl writer_step writer_new cmds) = fst ` written_episodes cmds
   \<and> bars_kept (foldl writer_step writer_new cmds) = (\<Union>e \<in> written_episodes cmds. set (snd e))"
  using writer_run_keeps [OF writer_ok_new, of cmds]
  by (simp add: episodes_kept_def bars_kept_def held_def stored_def writer_new_def)

text \<open>
  Episodes and bars are not written as an atomic pair: when the episode part is written and the bar part
  fails, both are queued again, and the next flush writes the same episodes into a second part.
\<close>

theorem failed_bar_part_duplicates_episodes:
  assumes "ew_ep_buf w = [(k, rows)]" "rows \<noteq> []"
    "ok Episodes_table k (ew_seq w (Episodes_table, k) + 1)" "\<not> ok Bars_table k (ew_seq w (Bars_table, k) + 1)"
  shows "ew_episode_parts (writer_flush (\<lambda>_ _ _. True) (writer_flush ok w))
    = ew_episode_parts w @ [(k, ew_seq w (Episodes_table, k) + 1, rows), (k, ew_seq w (Episodes_table, k) + 2, rows)]
    \<and> ew_episodes_written (writer_flush (\<lambda>_ _ _. True) (writer_flush ok w)) = ew_episodes_written w + length rows"
proof -
  let ?bars = "buffered (ew_bar_buf w) k"
  let ?w1 = "w\<lparr>ew_ep_buf := [(k, rows)], ew_bar_buf := buffer_extend k ?bars (AList.delete k (ew_bar_buf w)),
      ew_seq := (ew_seq w)((Episodes_table, k) := ew_seq w (Episodes_table, k) + 1, (Bars_table, k) := ew_seq w (Bars_table, k) + 1),
      ew_episode_parts := ew_episode_parts w @ [(k, ew_seq w (Episodes_table, k) + 1, rows)]\<rparr>"
  have "writer_flush ok w = ?w1"
    using assms by (simp add: writer_flush_def flush_partition_def Let_def write_episodes_table_def write_bars_table_def
        next_seq_def requeue_def buffered_def buffer_extend_def AList.delete_eq)
  moreover have "ew_episode_parts (writer_flush (\<lambda>_ _ _. True) ?w1)
    = ew_episode_parts ?w1 @ [(k, ew_seq w (Episodes_table, k) + 2, rows)]
    \<and> ew_episodes_written (writer_flush (\<lambda>_ _ _. True) ?w1) = ew_episodes_written w + length rows"
    using assms(2) by (simp add: writer_flush_def flush_partition_def Let_def write_episodes_table_def write_bars_table_def
        next_seq_def buffered_def)
  ultimately show ?thesis by simp
qed

section \<open>Gaps\<close>

lemma close_keys_outputs:
  "distinct keys \<Longrightarrow> key \<in> set keys \<Longrightarrow> map_of (ip_active m) key = Some ep \<Longrightarrow>
   (closed_summary ep t reason, ae_bar_records ep) \<in> set (snd (close_keys m keys t reason))"
proof (induction keys arbitrary: m)
  case (Cons k keys)
  obtain m1 o1 where one: "close_episode m k t reason = (m1, o1)" by fastforce
  obtain m2 o2 where rest: "close_keys m1 keys t reason = (m2, o2)" by fastforce
  have out: "snd (close_keys m (k # keys) t reason) = o1 @ o2" using one rest by (simp add: close_keys_def)
  show ?case
  proof (cases "k = key")
    case True
    with one Cons.prems(3) have "o1 = [(closed_summary ep t reason, ae_bar_records ep)]" by (simp add: close_episode_def)
    with out show ?thesis by simp
  next
    case False
    have "ip_active m1 = AList.delete k (ip_active m)" using close_episode_active(1) [of m k t reason] one by simp
    with False Cons.prems(3) have "map_of (ip_active m1) key = Some ep" by (simp add: AList.delete_conv')
    with Cons.IH [of m1] Cons.prems(1,2) False rest out show ?thesis by simp
  qed
qed simp

lemma completes_keep:
  "writer_ok (ie_writer e) \<Longrightarrow>
   writer_ok (ie_writer (foldl (on_episode_complete v) e cs))
   \<and> episodes_kept (ie_writer (foldl (on_episode_complete v) e cs)) = episodes_kept (ie_writer e) \<union> fst ` set cs"
proof (induction cs arbitrary: e)
  case (Cons c cs)
  let ?w = "write_episode (ie_writer e) c"
  have "writer_ok ?w" "episodes_kept ?w = insert (fst c) (episodes_kept (ie_writer e))"
    using writer_ok_write [OF Cons.prems] write_episode_keeps [of "ie_writer e" c] Cons.prems by (simp_all add: writer_ok_def)
  then have "writer_ok (ie_writer (on_episode_complete v e c))
      \<and> episodes_kept (ie_writer (on_episode_complete v e c)) = insert (fst c) (episodes_kept (ie_writer e))"
    using writer_ok_flush [of ?w "iv_write_ok v"] by (simp add: on_episode_complete_def Let_def)
  with Cons.IH [of "on_episode_complete v e c"] show ?case by auto
qed simp

lemma with_manager_keeps:
  "writer_ok (ie_writer e) \<Longrightarrow>
   writer_ok (ie_writer (with_manager v e r))
   \<and> episodes_kept (ie_writer (with_manager v e r)) = episodes_kept (ie_writer e) \<union> fst ` set (snd r)"
  using completes_keep [of "e\<lparr>ie_manager := fst r\<rparr>" v "snd r"] by (simp add: with_manager_def)

text \<open>
  A hole in the bars invalidates what was open: when a bar of the same session comes more than the configured
  gap after the last one, every open episode of that symbol and session goes to the writer, ended by the gap and
  marked invalid for research, before the bar itself is looked at.
\<close>

theorem gap_invalidates_open_episodes:
  assumes "writer_ok (ie_writer e)" "manager_ok (ie_manager e)"
    "ie_last_session_key e s = Some (build_session_id v s snap)"
    "is_gap (ip_config (ie_manager e)) (ie_last_bar_ts e s) (br_timestamp (sn_bar snap))"
    "(key, ep) \<in> set (ip_active (ie_manager e))" "in_session s (build_session_id v s snap) key"
  shows "\<exists>x \<in> episodes_kept (ie_writer (interaction_process v e s snap seq_num is_replay)).
    ep_episode_id x = ep_episode_id (ae_summary ep) \<and> ep_end_reason x = Some Gap_detected \<and> \<not> ep_is_valid_for_research x"
proof -
  let ?sid = "build_session_id v s snap" and ?t = "br_timestamp (sn_bar snap)"
  let ?e0 = "e\<lparr>ie_last_session_key := (ie_last_session_key e)(s \<mapsto> ?sid)\<rparr>"
  let ?x = "closed_summary ep ?t Gap_detected"
  have roll: "roll_session v e s ?sid ?t = ?e0" using assms(3) by (simp add: roll_session_def)
  have d: "distinct (map fst (ip_active (ie_manager e)))" using assms(2) by (simp add: manager_ok_def)
  then have "map_of (ip_active (ie_manager e)) key = Some ep" using assms(5) by simp
  then have out: "(?x, ae_bar_records ep) \<in> set (snd (on_gap (ie_manager e) s ?sid ?t))"
    unfolding on_gap_def using d assms(5,6) by (intro close_keys_outputs) (auto simp: rev_image_eqI)
  let ?e1 = "detect_gap v ?e0 False s ?sid ?t"
  have "ie_writer ?e1 = ie_writer (with_manager v ?e0 (on_gap (ie_manager e) s ?sid ?t))"
    using assms(4) by (simp add: detect_gap_def Let_def)
  then have e1: "writer_ok (ie_writer ?e1)" "?x \<in> episodes_kept (ie_writer ?e1)"
    using with_manager_keeps [of ?e0 v "on_gap (ie_manager e) s ?sid ?t"] assms(1) out by (auto simp: rev_image_eqI)
  have "?x \<in> episodes_kept (ie_writer (interaction_process v e s snap seq_num is_replay))"
    using e1 with_manager_keeps [OF e1(1)] assms(3) by (simp add: interaction_process_def Let_def roll)
  then show ?thesis by (rule rev_bexI) simp
qed

text \<open>Witnesses: a writer with one episode, and an engine with an open episode and a bar 100 seconds later.\<close>

definition sample_key :: episode_key where
  "sample_key = (''MNQ'', (''MNQ'', 0), (''MNQ'', Level_orh, Rth, 0))"

definition sample_active :: active_episode where
  "sample_active =
     new_episode (manager_new level_config_default ''h'') sample_key sample_frame sample_level
       (geo_for_level sample_frame sample_level) None None 10 25"

lemma failed_bar_part_duplicates_episodes_witness:
  "map (\<lambda>(k, n, rows). (k, n)) (ew_episode_parts (writer_flush (\<lambda>_ _ _. True) (writer_flush (\<lambda>tb k n. tb = Episodes_table)
     (write_episode writer_new (ae_summary sample_active, ae_bar_records sample_active)))))
   = [((''MNQ'', 0), 1), ((''MNQ'', 0), 2)]"
proof -
  let ?w = "write_episode writer_new (ae_summary sample_active, ae_bar_records sample_active)"
  have "ew_ep_buf ?w = [((''MNQ'', 0), [ae_summary sample_active])]" "ew_seq ?w = (\<lambda>_. 0)" "ew_episode_parts ?w = []"
    by (simp_all add: write_episode_def writer_new_def Let_def buffer_extend_def buffered_def sample_active_def new_episode_def sample_key_def)
  with failed_bar_part_duplicates_episodes [of ?w "(''MNQ'', 0)" "[ae_summary sample_active]" "\<lambda>tb k n. tb = Episodes_table"]
  show ?thesis by simp
qed

definition sample_calendar :: session_calendar where
  "sample_calendar =
     \<lparr>sc_name = ''XNYS'', sc_timezone = ''America/New_York'', sc_session_open = \<lambda>d. at_time d 9 30,
      sc_session_close = \<lambda>d. at_time d 16 0, sc_is_open = \<lambda>_. True, sc_session_phase = \<lambda>_. Phase_MID, sc_session_date = date_of\<rparr>"

definition sample_env :: interaction_env where
  "sample_env =
     \<lparr>iv_registry = empty_registry, iv_nyse = sample_calendar, iv_cme = sample_calendar, iv_write_ok = \<lambda>_ _ _. True\<rparr>"

definition late_bar :: bar_snapshot where
  "late_bar =
     new_snapshot ''MNQ'' (100 * 10 ^ 6) TF_M1
       \<lparr>br_symbol = ''MNQ'', br_timeframe = TF_M1, br_timestamp = 100 * 10 ^ 6, br_open = 100, br_high = 101, br_low = 99,
        br_close = 100, br_volume = 5, br_vwap = None, br_trade_count = None, br_is_partial = False, br_source = DataSource_UNKNOWN\<rparr>
       100"

definition sample_interaction :: interaction_engine where
  "sample_interaction =
     (interaction_engine_new level_config_default ''h'')
       \<lparr>ie_manager := (manager_new level_config_default ''h'')\<lparr>ip_active := [(sample_key, sample_active)]\<rparr>,
        ie_last_bar_ts := [''MNQ'' \<mapsto> 0], ie_last_session_key := [''MNQ'' \<mapsto> (''MNQ'', 0)]\<rparr>"

lemma gap_invalidates_open_episodes_witness:
  "\<exists>x \<in> episodes_kept (ie_writer (interaction_process sample_env sample_interaction ''MNQ'' late_bar None False)).
     ep_episode_id x = 0 \<and> ep_end_reason x = Some Gap_detected \<and> \<not> ep_is_valid_for_research x"
proof -
  have bar: "br_timestamp (sn_bar late_bar) = 100 * 10 ^ 6" by (simp add: late_bar_def new_snapshot_def)
  have sid: "build_session_id sample_env ''MNQ'' late_bar = (''MNQ'', 0)"
    by (simp add: build_session_id_def sample_env_def registry_get_def empty_registry_def bar date_of_def time_defs)
  have "active_ok sample_key sample_active" "within_limits level_config_default sample_active"
    unfolding sample_active_def by (rule new_episode_ok)+
  then have ok: "manager_ok (ie_manager sample_interaction)"
    by (simp add: sample_interaction_def interaction_engine_new_def manager_ok_def manager_new_def)
  have gap: "is_gap (ip_config (ie_manager sample_interaction)) (ie_last_bar_ts sample_interaction ''MNQ'') (br_timestamp (sn_bar late_bar))"
    by (simp add: is_gap_def sample_interaction_def manager_new_def level_config_default_def seconds_between_def bar fl_int_exact [of 100, simplified])
  have "writer_ok (ie_writer sample_interaction)"
    using writer_ok_new by (simp add: sample_interaction_def interaction_engine_new_def)
  from gap_invalidates_open_episodes [OF this ok _ gap, of sample_env sample_key sample_active None False] sid
  show ?thesis
    by (simp add: sample_interaction_def in_session_def sample_key_def sample_active_def new_episode_def manager_new_def)
qed

end
