(* ===== verification/Level_Observer.thy ===== *)
theory Level_Observer
  imports Interaction_Engine Ingestion_Monitor Pipeline
begin

text \<open>
  The shadow recorder of level geometry: the rows of \<^verbatim>\<open>research/models.py\<close>, the buffered writer of
  \<^verbatim>\<open>research/parquet_writer.py\<close> and the subscriber of \<^verbatim>\<open>research/level_observer.py\<close>. The identifier
  that \<open>uuid5\<close> makes of a key is the tuple of the key's parts. A Parquet part is its rows; \<open>ok\<close> says whether
  writing the part of a partition with a number succeeds, and creating the directory does. The
  run identifier and the producer version are fields of the observer.
\<close>

section \<open>Rows\<close>

datatype reference_level_type = RL_VWAP | RL_RTH_VWAP | RL_ORH | RL_ORL

datatype price_side = Side_ABOVE | Side_BELOW | Side_ON

datatype run_mode = Run_LIVE | Run_REPLAY | Run_BACKFILL

type_synonym obs_id = "string \<times> string \<times> timestamp \<times> reference_level_type"

definition make_obs_id :: "string \<Rightarrow> string \<Rightarrow> timestamp \<Rightarrow> reference_level_type \<Rightarrow> obs_id" where
  "make_obs_id run_id s t ty = (run_id, s, t, ty)"

text \<open>The entries of \<open>IngestionMonitor.summary\<close>, by their keys.\<close>

datatype summary_value =
  Sum_quality data_quality_state
| Sum_reason "quality_reason option"
| Sum_flag bool
| Sum_time "timestamp option"

definition symbol_summary :: "symbol_state \<Rightarrow> (string \<times> summary_value) list" where
  "symbol_summary st =
     [(''quality'', Sum_quality (ss_quality st)),
      (''degraded_reason'', Sum_reason (ss_degraded_reason st)),
      (''signals_allowed'', Sum_flag (ss_quality st = Quality_CLEAN)),
      (''last_record_at'', Sum_time (ss_last_record_at st)),
      (''last_bar_at'', Sum_time (ss_last_bar_at st))]"

definition monitor_summary :: "ingestion_monitor \<Rightarrow> string \<rightharpoonup> (string \<times> summary_value) list" where
  "monitor_summary m = (\<lambda>s. map_option symbol_summary (m s))"

record level_observation =
  lb_obs_id :: obs_id
  lb_run_id :: string
  lb_run_mode :: run_mode
  lb_source_bar_id :: uuid
  lb_symbol :: string
  lb_session_date :: date
  lb_bar_timestamp :: timestamp
  lb_level_type :: reference_level_type
  lb_level_value :: dec
  lb_open_distance_ticks :: int
  lb_high_distance_ticks :: int
  lb_low_distance_ticks :: int
  lb_close_distance_ticks :: int
  lb_bar_overlaps_level :: bool
  lb_open_side :: price_side
  lb_close_side :: price_side
  lb_proximity_band_ticks :: int
  lb_volatility_reference :: dec
  lb_volatility_definition_version :: string
  lb_tick_size :: dec
  lb_session_phase :: session_phase
  lb_orb_state :: string
  lb_schema_version :: string
  lb_producer_version :: string
  lb_data_quality :: summary_value

section \<open>Writer\<close>

record level_writer =
  lw_max_buffer :: nat
  lw_max_pending :: nat
  lw_pending :: "(partition_key \<times> level_observation list) list"
  lw_pending_count :: int
  lw_seen_obs_ids :: "obs_id set"
  lw_seq :: "partition_key \<Rightarrow> nat"
  lw_rows_written :: nat
  lw_flush_errors :: nat
  lw_parts :: "(partition_key \<times> nat \<times> level_observation list) list"

definition level_writer_new :: "nat \<Rightarrow> nat \<Rightarrow> level_writer" where
  "level_writer_new max_buffer max_pending =
     \<lparr>lw_max_buffer = max_buffer, lw_max_pending = max_pending, lw_pending = [], lw_pending_count = 0,
      lw_seen_obs_ids = {}, lw_seq = \<lambda>_. 0, lw_rows_written = 0, lw_flush_errors = 0, lw_parts = []\<rparr>"

function chunks :: "nat \<Rightarrow> 'a list \<Rightarrow> 'a list list" where
  "chunks n xs = (if n = 0 \<or> xs = [] then [] else take n xs # chunks n (drop n xs))"
  by pat_completeness auto
termination by (relation "measure (length \<circ> snd)") auto

declare chunks.simps [simp del]

type_synonym write_oracle = "partition_key \<Rightarrow> nat \<Rightarrow> bool"

text \<open>A part's number is taken before it is written, and is spent when that fails.\<close>

fun write_chunks :: "write_oracle \<Rightarrow> partition_key \<Rightarrow> level_observation list list \<Rightarrow> level_writer \<Rightarrow> level_writer \<times> bool" where
  "write_chunks ok k [] w = (w, True)"
| "write_chunks ok k (c # cs) w =
     (let n = lw_seq w k + 1; w = w\<lparr>lw_seq := (lw_seq w)(k := n)\<rparr>
      in if ok k n then write_chunks ok k cs (w\<lparr>lw_parts := lw_parts w @ [(k, n, c)]\<rparr>) else (w, False))"

text \<open>With a chunk size of zero \<open>range\<close> raises before anything is written.\<close>

definition write_partition ::
  "write_oracle \<Rightarrow> partition_key \<Rightarrow> level_observation list \<Rightarrow> level_writer \<Rightarrow> level_writer \<times> bool" where
  "write_partition ok k rows w =
     (if lw_max_buffer w = 0 then (w, False) else write_chunks ok k (chunks (lw_max_buffer w) rows) w)"

fun flush_keys ::
  "write_oracle \<Rightarrow> (partition_key \<times> level_observation list) list \<Rightarrow> level_writer \<Rightarrow> level_writer \<times> partition_key list" where
  "flush_keys ok [] w = (w, [])"
| "flush_keys ok ((k, rows) # rest) w =
     (if rows = [] then (case flush_keys ok rest w of (w, ks) \<Rightarrow> (w, k # ks))
      else (case write_partition ok k rows w of
              (w, True) \<Rightarrow>
                (case flush_keys ok rest (w\<lparr>lw_rows_written := lw_rows_written w + length rows\<rparr>) of (w, ks) \<Rightarrow> (w, k # ks))
            | (w, False) \<Rightarrow> flush_keys ok rest (w\<lparr>lw_flush_errors := lw_flush_errors w + 1\<rparr>)))"

definition pop_batch :: "partition_key \<Rightarrow> level_writer \<Rightarrow> level_writer" where
  "pop_batch k w =
     w\<lparr>lw_pending_count := lw_pending_count w - int (length (buffered (lw_pending w) k)),
       lw_pending := AList.delete k (lw_pending w)\<rparr>"

fun drop_oldest :: "partition_key list \<Rightarrow> level_writer \<Rightarrow> level_writer" where
  "drop_oldest [] w = w"
| "drop_oldest (k # ks) w =
     (if lw_pending_count w \<le> int (lw_max_pending w) div 2 then w else drop_oldest ks (pop_batch k w))"

definition level_flush :: "write_oracle \<Rightarrow> level_writer \<Rightarrow> level_writer" where
  "level_flush ok w =
     (if lw_pending_count w = 0 then w
      else (case flush_keys ok (lw_pending w) w of
              (w, written_keys) \<Rightarrow>
                (let w = fold pop_batch written_keys w
                 in if lw_pending_count w > int (lw_max_pending w) then drop_oldest (map fst (lw_pending w)) w else w)))"

definition obs_key :: "level_observation \<Rightarrow> partition_key" where
  "obs_key obs = (lb_symbol obs, lb_session_date obs)"

definition add_obs :: "write_oracle \<Rightarrow> level_observation \<Rightarrow> level_writer \<Rightarrow> level_writer" where
  "add_obs ok obs w =
     (if lb_obs_id obs \<in> lw_seen_obs_ids w then w
      else
        (let w = w\<lparr>lw_seen_obs_ids := insert (lb_obs_id obs) (lw_seen_obs_ids w),
                   lw_pending := buffer_extend (obs_key obs) [obs] (lw_pending w),
                   lw_pending_count := lw_pending_count w + 1\<rparr>
         in if lw_pending_count w \<ge> int (lw_max_buffer w) then level_flush ok w else w))"

definition reset_writer :: "write_oracle \<Rightarrow> level_writer \<Rightarrow> level_writer" where
  "reset_writer ok w = (level_flush ok w)\<lparr>lw_seen_obs_ids := {}\<rparr>"

section \<open>Observer\<close>

record observer_env =
  ov_registry :: symbol_registry
  ov_nyse :: session_calendar
  ov_cme :: session_calendar
  ov_write_ok :: write_oracle

record level_observer =
  lo_writer :: level_writer
  lo_run_mode :: run_mode
  lo_run_id :: string
  lo_producer_version :: string
  lo_last_session_key :: "string \<rightharpoonup> date"
  lo_bars_processed :: nat
  lo_obs_emitted :: nat

definition level_observer_new :: "level_writer \<Rightarrow> run_mode \<Rightarrow> string \<Rightarrow> string \<Rightarrow> level_observer" where
  "level_observer_new w mode run_id producer =
     \<lparr>lo_writer = w, lo_run_mode = mode, lo_run_id = run_id, lo_producer_version = producer,
      lo_last_session_key = Map.empty, lo_bars_processed = 0, lo_obs_emitted = 0\<rparr>"

definition price_side_of :: "int \<Rightarrow> price_side" where
  "price_side_of distance_ticks =
     (if distance_ticks > 0 then Side_ABOVE else if distance_ticks < 0 then Side_BELOW else Side_ON)"

text \<open>The branch for prices on the tick grid rounds the same way; it only logs when it had to.\<close>

definition distance_ticks :: "dec \<Rightarrow> dec \<Rightarrow> dec \<Rightarrow> int" where
  "distance_ticks price level tick_size = round_half_up (dq (dq (price - level) / tick_size))"

definition observer_proximity_band :: "dec option \<Rightarrow> dec \<Rightarrow> int" where
  "observer_proximity_band atr tick_size =
     (case atr of
        None \<Rightarrow> 10
      | Some a \<Rightarrow> if a \<le> 0 then 10 else max 1 (round_half_up (dq (dq (a * (1/5)) / tick_size))))"

definition observed_levels :: "bar_snapshot \<Rightarrow> (reference_level_type \<times> dec) list" where
  "observed_levels snap =
     (if sn_vwap snap > 0 then [(RL_VWAP, sn_vwap snap)] else [])
     @ (case sn_rth_vwap snap of
          None \<Rightarrow> []
        | Some v \<Rightarrow> if v > 0 \<and> sn_session_phase snap \<in> RTH_PHASES then [(RL_RTH_VWAP, v)] else [])
     @ (case sn_or_high snap of None \<Rightarrow> [] | Some v \<Rightarrow> [(RL_ORH, v)])
     @ (case sn_or_low snap of None \<Rightarrow> [] | Some v \<Rightarrow> [(RL_ORL, v)])"

text \<open>The monitor's entries have no key \<open>state\<close>; the default is returned.\<close>

definition get_data_quality :: "ingestion_monitor option \<Rightarrow> string \<Rightarrow> summary_value" where
  "get_data_quality monitor s =
     (case monitor of
        None \<Rightarrow> Sum_quality Quality_CLEAN
      | Some m \<Rightarrow>
          (case map_of (get_default (monitor_summary m) s []) ''state'' of
             None \<Rightarrow> Sum_quality Quality_CLEAN
           | Some v \<Rightarrow> v))"

definition observation_of ::
  "level_observer \<Rightarrow> ingestion_monitor option \<Rightarrow> date \<Rightarrow> dec \<Rightarrow> pipeline_output \<Rightarrow> reference_level_type \<times> dec \<Rightarrow> level_observation" where
  "observation_of o' monitor d tick ev lv =
     (let snap = po_bar_snapshot ev; b = sn_bar snap; s = po_symbol ev; t = po_timestamp ev;
          open_d = distance_ticks (br_open b) (snd lv) tick;
          high_d = distance_ticks (br_high b) (snd lv) tick;
          low_d = distance_ticks (br_low b) (snd lv) tick;
          close_d = distance_ticks (br_close b) (snd lv) tick
      in \<lparr>lb_obs_id = make_obs_id (lo_run_id o') s t (fst lv), lb_run_id = lo_run_id o', lb_run_mode = lo_run_mode o',
          lb_source_bar_id = em_event_id (po_metadata ev), lb_symbol = s, lb_session_date = d, lb_bar_timestamp = t,
          lb_level_type = fst lv, lb_level_value = snd lv,
          lb_open_distance_ticks = open_d, lb_high_distance_ticks = high_d,
          lb_low_distance_ticks = low_d, lb_close_distance_ticks = close_d,
          lb_bar_overlaps_level = (low_d \<le> 0 \<and> 0 \<le> high_d),
          lb_open_side = price_side_of open_d, lb_close_side = price_side_of close_d,
          lb_proximity_band_ticks = observer_proximity_band (sn_atr_14 snap) tick,
          lb_volatility_reference = (case sn_atr_14 snap of None \<Rightarrow> 0 | Some a \<Rightarrow> a),
          lb_volatility_definition_version = ''atr14_m1_v1'', lb_tick_size = tick,
          lb_session_phase = sn_session_phase snap,
          lb_orb_state = (if sn_or_established snap then ''established'' else ''not_set''),
          lb_schema_version = ''lbo_v1'', lb_producer_version = lo_producer_version o',
          lb_data_quality = get_data_quality monitor s\<rparr>)"

definition emit_obs :: "write_oracle \<Rightarrow> level_observation \<Rightarrow> level_observer \<Rightarrow> level_observer" where
  "emit_obs ok obs o' =
     o'\<lparr>lo_writer := add_obs ok obs (lo_writer o'), lo_obs_emitted := lo_obs_emitted o' + 1\<rparr>"

definition roll_observer :: "write_oracle \<Rightarrow> string \<Rightarrow> date \<Rightarrow> level_observer \<Rightarrow> level_observer" where
  "roll_observer ok s key o' =
     (if lo_last_session_key o' s \<noteq> Some key
      then o'\<lparr>lo_writer := reset_writer ok (lo_writer o'), lo_last_session_key := (lo_last_session_key o')(s \<mapsto> key)\<rparr>
      else o')"

text \<open>
  \<open>_handle\<close> with \<open>_process\<close>. \<open>SymbolRegistry.get\<close> raises for a symbol that is not registered, so the
  branches for a missing one are never taken. The event has no attribute \<open>is_replay\<close>: rows are
  written for every event. The handler logs an exception and keeps what was done before it: a
  tick size of zero raises in the band, or else at the first level.
\<close>

definition observer_handle ::
  "observer_env \<Rightarrow> ingestion_monitor option \<Rightarrow> pipeline_output \<Rightarrow> level_observer \<Rightarrow> level_observer" where
  "observer_handle v monitor ev o' =
     (case registry_get (ov_registry v) (po_symbol ev) of
        Inl _ \<Rightarrow> o'
      | Inr sy \<Rightarrow>
          (let cal = calendar_for_symbol (ov_nyse v) (ov_cme v) (sy_asset_class sy);
               d = sc_session_date cal (po_timestamp ev);
               tick = sy_tick_size sy;
               snap = po_bar_snapshot ev;
               o' = roll_observer (ov_write_ok v) (po_symbol ev) d o'
           in if tick = 0 \<and> positive (sn_atr_14 snap) then o'
              else
                (let o' = o'\<lparr>lo_bars_processed := lo_bars_processed o' + 1\<rparr>
                 in if tick = 0 then o'
                    else fold (emit_obs (ov_write_ok v)) (map (observation_of o' monitor d tick ev) (observed_levels snap)) o')))"

definition observer_flush :: "observer_env \<Rightarrow> level_observer \<Rightarrow> level_observer" where
  "observer_flush v o' = o'\<lparr>lo_writer := level_flush (ov_write_ok v) (lo_writer o')\<rparr>"


section \<open>The buffer\<close>

lemma concat_chunks: "0 < n \<Longrightarrow> concat (chunks n xs) = xs"
  by (induction n xs rule: chunks.induct) (subst chunks.simps, auto)

lemma chunk_sizes: "c \<in> set (chunks n xs) \<Longrightarrow> c \<noteq> [] \<and> length c \<le> n"
  by (induction n xs rule: chunks.induct) (subst (asm) (2) chunks.simps, auto split: if_splits)

lemma write_chunks_frame:
  "write_chunks ok k cs w = (w', b) \<Longrightarrow>
   lw_pending w' = lw_pending w \<and> lw_pending_count w' = lw_pending_count w \<and> lw_max_buffer w' = lw_max_buffer w
   \<and> lw_max_pending w' = lw_max_pending w \<and> lw_seen_obs_ids w' = lw_seen_obs_ids w"
  by (induction cs arbitrary: w) (fastforce simp: Let_def split: if_splits)+

lemma write_partition_frame:
  "write_partition ok k rows w = (w', b) \<Longrightarrow>
   lw_pending w' = lw_pending w \<and> lw_pending_count w' = lw_pending_count w \<and> lw_max_buffer w' = lw_max_buffer w
   \<and> lw_max_pending w' = lw_max_pending w \<and> lw_seen_obs_ids w' = lw_seen_obs_ids w"
  by (auto simp: write_partition_def dest: write_chunks_frame split: if_splits)

lemma flush_keys_frame:
  "flush_keys ok rest w = (w', ks) \<Longrightarrow>
   lw_pending w' = lw_pending w \<and> lw_pending_count w' = lw_pending_count w \<and> lw_max_buffer w' = lw_max_buffer w
   \<and> lw_max_pending w' = lw_max_pending w \<and> lw_seen_obs_ids w' = lw_seen_obs_ids w"
proof (induction ok rest w arbitrary: ks rule: flush_keys.induct)
  case (2 ok k rows rest w)
  show ?case
  proof (cases "rows = []")
    case True
    with 2 show ?thesis by (auto split: prod.splits)
  next
    case False
    obtain w1 b where w1: "write_partition ok k rows w = (w1, b)" by fastforce
    from write_partition_frame [OF w1] 2(2,3) [OF False w1 [symmetric]] 2(4) w1 False
    show ?thesis by (auto split: prod.splits bool.splits)
  qed
qed simp

definition batch_rows :: "(partition_key \<times> 'a list) list \<Rightarrow> int" where
  "batch_rows buf = (\<Sum>kr\<leftarrow>buf. int (length (snd kr)))"

lemma batch_rows_delete:
  "distinct (map fst buf) \<Longrightarrow> batch_rows (AList.delete k buf) = batch_rows buf - int (length (buffered buf k))"
proof (induction buf)
  case (Cons kr buf)
  obtain k' rows where kr: "kr = (k', rows)" by fastforce
  show ?case
  proof (cases "k' = k")
    case True
    with Cons.prems kr have "k \<notin> fst ` set buf" by simp
    then have "AList.delete k buf = buf" by (force simp: AList.delete_eq intro!: filter_True)
    with True kr show ?thesis by (simp add: batch_rows_def buffered_def)
  next
    case False
    with Cons kr show ?thesis by (simp add: batch_rows_def buffered_def)
  qed
qed (simp add: batch_rows_def buffered_def)

lemma batch_rows_update: "batch_rows (AList.update k rows buf) = batch_rows buf - int (length (buffered buf k)) + int (length rows)"
  if "distinct (map fst buf)"
  using that
proof (induction buf)
  case (Cons kr buf)
  obtain k' rows' where kr: "kr = (k', rows')" by fastforce
  with Cons show ?case by (cases "k' = k") (simp_all add: batch_rows_def buffered_def)
qed (simp add: batch_rows_def buffered_def)

lemma batch_rows_extend:
  "distinct (map fst buf) \<Longrightarrow> batch_rows (buffer_extend k rows buf) = batch_rows buf + int (length rows)"
  by (simp add: buffer_extend_def batch_rows_update)

text \<open>What every operation keeps: one batch per partition, and the count of their rows.\<close>

definition count_ok :: "level_writer \<Rightarrow> bool" where
  "count_ok w \<longleftrightarrow> distinct (map fst (lw_pending w)) \<and> lw_pending_count w = batch_rows (lw_pending w)"

lemma batch_rows_nonneg: "0 \<le> batch_rows buf"
  by (induction buf) (simp_all add: batch_rows_def)

lemma pop_batch_ok: "count_ok w \<Longrightarrow> count_ok (pop_batch k w)"
  by (simp add: count_ok_def pop_batch_def batch_rows_delete distinct_buffers)

lemma fold_pop_ok: "count_ok w \<Longrightarrow> count_ok (fold pop_batch ks w)"
  by (induction ks arbitrary: w) (simp_all add: pop_batch_ok)

lemma fold_pop_frame:
  "lw_max_pending (fold pop_batch ks w) = lw_max_pending w \<and> lw_max_buffer (fold pop_batch ks w) = lw_max_buffer w
   \<and> lw_parts (fold pop_batch ks w) = lw_parts w \<and> lw_seq (fold pop_batch ks w) = lw_seq w
   \<and> lw_seen_obs_ids (fold pop_batch ks w) = lw_seen_obs_ids w"
  by (induction ks arbitrary: w) (simp_all add: pop_batch_def)

lemma drop_oldest_frame:
  "lw_max_pending (drop_oldest ks w) = lw_max_pending w \<and> lw_max_buffer (drop_oldest ks w) = lw_max_buffer w
   \<and> lw_parts (drop_oldest ks w) = lw_parts w \<and> lw_seq (drop_oldest ks w) = lw_seq w
   \<and> lw_seen_obs_ids (drop_oldest ks w) = lw_seen_obs_ids w"
  by (induction ks arbitrary: w) (simp_all add: pop_batch_def)

lemma drop_oldest_ok:
  "count_ok w \<Longrightarrow> fst ` set (lw_pending w) \<subseteq> set ks \<Longrightarrow>
   count_ok (drop_oldest ks w) \<and> lw_pending_count (drop_oldest ks w) \<le> int (lw_max_pending w) div 2"
proof (induction ks arbitrary: w)
  case Nil
  then show ?case by (simp add: count_ok_def batch_rows_def)
next
  case (Cons k ks)
  show ?case
  proof (cases "lw_pending_count w \<le> int (lw_max_pending w) div 2")
    case True
    with Cons.prems show ?thesis by simp
  next
    case False
    from Cons.prems(2) have "fst ` set (lw_pending (pop_batch k w)) \<subseteq> set ks" by (auto simp: pop_batch_def keys_delete)
    from Cons.IH [OF pop_batch_ok [OF Cons.prems(1)] this] False show ?thesis by (simp add: pop_batch_def)
  qed
qed

lemma level_flush_ok:
  assumes "count_ok w"
  shows "count_ok (level_flush ok w) \<and> lw_pending_count (level_flush ok w) \<le> int (lw_max_pending w)
    \<and> lw_max_buffer (level_flush ok w) = lw_max_buffer w \<and> lw_max_pending (level_flush ok w) = lw_max_pending w
    \<and> lw_seen_obs_ids (level_flush ok w) = lw_seen_obs_ids w"
proof (cases "lw_pending_count w = 0")
  case True
  with assms show ?thesis by (simp add: level_flush_def)
next
  case False
  obtain w1 ks where f: "flush_keys ok (lw_pending w) w = (w1, ks)" by fastforce
  let ?w = "fold pop_batch ks w1"
  have fr: "lw_max_pending ?w = lw_max_pending w" "lw_max_buffer ?w = lw_max_buffer w" "lw_seen_obs_ids ?w = lw_seen_obs_ids w"
    using flush_keys_frame [OF f] fold_pop_frame [of ks w1] by simp_all
  have "count_ok w1" using flush_keys_frame [OF f] assms by (simp add: count_ok_def)
  then have "count_ok ?w" by (rule fold_pop_ok)
  from drop_oldest_ok [OF this, of "map fst (lw_pending ?w)"] this fr drop_oldest_frame [of "map fst (lw_pending ?w)" ?w]
  show ?thesis using False f by (auto simp: level_flush_def Let_def)
qed

definition writer_bounded :: "level_writer \<Rightarrow> bool" where
  "writer_bounded w \<longleftrightarrow> count_ok w \<and> (lw_pending_count w \<le> int (lw_max_pending w) \<or> lw_pending_count w < int (lw_max_buffer w))"

lemma add_obs_bounded: "writer_bounded w \<Longrightarrow> writer_bounded (add_obs ok obs w)"
proof (cases "lb_obs_id obs \<in> lw_seen_obs_ids w")
  case False
  assume w: "writer_bounded w"
  let ?w = "w\<lparr>lw_seen_obs_ids := insert (lb_obs_id obs) (lw_seen_obs_ids w),
              lw_pending := buffer_extend (obs_key obs) [obs] (lw_pending w),
              lw_pending_count := lw_pending_count w + 1\<rparr>"
  have "count_ok ?w" using w by (simp add: writer_bounded_def count_ok_def distinct_buffers batch_rows_extend)
  with level_flush_ok [OF this] False show ?thesis by (auto simp: add_obs_def Let_def writer_bounded_def)
qed (simp add: add_obs_def)


text \<open>The parts that were written: none larger than the buffer, and no file name used twice.\<close>

definition parts_ok :: "level_writer \<Rightarrow> bool" where
  "parts_ok w \<longleftrightarrow> list_all (\<lambda>(k, n, rows). n \<le> lw_seq w k \<and> length rows \<le> lw_max_buffer w) (lw_parts w)
     \<and> distinct (map (\<lambda>(k, n, rows). (k, n)) (lw_parts w))"

lemma parts_ok_next:
  assumes "parts_ok w" "length c \<le> lw_max_buffer w"
  shows "parts_ok (w\<lparr>lw_seq := (lw_seq w)(k := lw_seq w k + 1), lw_parts := lw_parts w @ [(k, lw_seq w k + 1, c)]\<rparr>)"
    "parts_ok (w\<lparr>lw_seq := (lw_seq w)(k := lw_seq w k + 1)\<rparr>)"
proof -
  have "(k, lw_seq w k + 1) \<notin> (\<lambda>(k, n, rows). (k, n)) ` set (lw_parts w)"
    using assms(1) by (fastforce simp: parts_ok_def list_all_iff)
  with assms show "parts_ok (w\<lparr>lw_seq := (lw_seq w)(k := lw_seq w k + 1), lw_parts := lw_parts w @ [(k, lw_seq w k + 1, c)]\<rparr>)"
    by (fastforce simp: parts_ok_def list_all_iff)
  show "parts_ok (w\<lparr>lw_seq := (lw_seq w)(k := lw_seq w k + 1)\<rparr>)"
    using assms(1) by (fastforce simp: parts_ok_def list_all_iff)
qed

lemma write_chunks_parts:
  "parts_ok w \<Longrightarrow> (\<And>c. c \<in> set cs \<Longrightarrow> length c \<le> lw_max_buffer w) \<Longrightarrow> parts_ok (fst (write_chunks ok k cs w))"
proof (induction cs arbitrary: w)
  case (Cons c cs)
  from parts_ok_next [OF Cons.prems(1), of c k] Cons.prems(2) have
    p: "parts_ok (w\<lparr>lw_seq := (lw_seq w)(k := lw_seq w k + 1), lw_parts := lw_parts w @ [(k, lw_seq w k + 1, c)]\<rparr>)"
      "parts_ok (w\<lparr>lw_seq := (lw_seq w)(k := lw_seq w k + 1)\<rparr>)" by simp_all
  from Cons.IH [OF p(1)] Cons.prems(2) p(2) show ?case by (simp add: Let_def)
qed simp

lemma write_partition_parts: "parts_ok w \<Longrightarrow> parts_ok (fst (write_partition ok k rows w))"
  using write_chunks_parts [of w "chunks (lw_max_buffer w) rows" ok k] chunk_sizes [of _ "lw_max_buffer w" rows]
  by (auto simp: write_partition_def)

lemma flush_keys_parts: "parts_ok w \<Longrightarrow> parts_ok (fst (flush_keys ok rest w))"
proof (induction ok rest w rule: flush_keys.induct)
  case (2 ok k rows rest w)
  show ?case
  proof (cases "rows = []")
    case True
    with 2 show ?thesis by (auto split: prod.splits)
  next
    case False
    obtain w1 b where w1: "write_partition ok k rows w = (w1, b)" by fastforce
    from write_partition_parts [OF 2(4), of ok k rows] w1 have p: "parts_ok w1" by simp
    then have "parts_ok (w1\<lparr>lw_rows_written := n\<rparr>)" "parts_ok (w1\<lparr>lw_flush_errors := n\<rparr>)" for n by (simp_all add: parts_ok_def)
    with 2(2,3) [OF False w1 [symmetric]] w1 False show ?thesis by (cases b) (auto split: prod.splits)
  qed
qed simp

lemma level_flush_parts: "parts_ok w \<Longrightarrow> parts_ok (level_flush ok w)"
proof -
  assume w: "parts_ok w"
  obtain w1 ks where f: "flush_keys ok (lw_pending w) w = (w1, ks)" by fastforce
  let ?w = "fold pop_batch ks w1"
  have "parts_ok w1" using flush_keys_parts [OF w, of ok "lw_pending w"] f by simp
  then have "parts_ok ?w" "parts_ok (drop_oldest (map fst (lw_pending ?w)) ?w)"
    using fold_pop_frame [of ks w1] drop_oldest_frame [of "map fst (lw_pending ?w)" ?w] by (simp_all add: parts_ok_def)
  with w f show ?thesis by (simp add: level_flush_def Let_def)
qed

lemma add_obs_parts: "parts_ok w \<Longrightarrow> parts_ok (add_obs ok obs w)"
proof -
  assume w: "parts_ok w"
  have "parts_ok (w\<lparr>lw_seen_obs_ids := A, lw_pending := B, lw_pending_count := n\<rparr>)" for A B n
    using w by (simp add: parts_ok_def)
  with w level_flush_parts show ?thesis by (simp add: add_obs_def Let_def)
qed

section \<open>Runs\<close>

datatype observation_cmd = Add_obs level_observation | Flush_obs | Reset_obs

fun observation_step :: "write_oracle \<Rightarrow> level_writer \<Rightarrow> observation_cmd \<Rightarrow> level_writer" where
  "observation_step ok w (Add_obs obs) = add_obs ok obs w"
| "observation_step ok w Flush_obs = level_flush ok w"
| "observation_step ok w Reset_obs = reset_writer ok w"

lemma observation_step_ok:
  assumes "writer_bounded w \<and> parts_ok w"
  shows "writer_bounded (observation_step ok w c) \<and> parts_ok (observation_step ok w c)"
proof (cases c)
  case (Add_obs obs)
  with assms add_obs_bounded add_obs_parts show ?thesis by simp
next
  case Flush_obs
  with assms level_flush_ok [of w ok] level_flush_parts [of w ok] show ?thesis by (auto simp: writer_bounded_def)
next
  case Reset_obs
  with assms level_flush_ok [of w ok] level_flush_parts [of w ok] show ?thesis
    by (auto simp: writer_bounded_def reset_writer_def count_ok_def parts_ok_def)
qed

lemma observation_run_frame:
  "count_ok w \<Longrightarrow> lw_max_buffer (foldl (observation_step ok) w cmds) = lw_max_buffer w
    \<and> lw_max_pending (foldl (observation_step ok) w cmds) = lw_max_pending w"
proof (induction cmds arbitrary: w)
  case (Cons c cmds)
  have s: "count_ok (w\<lparr>lw_seen_obs_ids := A, lw_pending := buffer_extend k rows (lw_pending w),
      lw_pending_count := lw_pending_count w + int (length rows)\<rparr>)" for A k rows
    using Cons.prems by (simp add: count_ok_def distinct_buffers batch_rows_extend)
  have "count_ok (observation_step ok w c) \<and> lw_max_buffer (observation_step ok w c) = lw_max_buffer w
    \<and> lw_max_pending (observation_step ok w c) = lw_max_pending w"
  proof (cases c)
    case (Add_obs obs)
    with level_flush_ok [OF s [where rows = "[obs]"]] s [where rows = "[obs]"] Cons.prems show ?thesis
      by (simp add: add_obs_def Let_def)
  next
    case Flush_obs
    with level_flush_ok [OF Cons.prems] show ?thesis by simp
  next
    case Reset_obs
    with level_flush_ok [OF Cons.prems, of ok] show ?thesis by (simp add: reset_writer_def count_ok_def)
  qed
  with Cons.IH [of "observation_step ok w c"] show ?case by simp
qed simp

text \<open>
  C40. Whatever parts fail to be written, the recorder's memory is bounded: the count of pending rows is exact,
  it never passes the limit for retained rows unless it is still below one buffer, no part
  file has more rows than a buffer, and no part file is written over another.
\<close>

theorem observation_buffer_is_bounded:
  "case foldl (observation_step ok) (level_writer_new max_buffer max_pending) cmds of w \<Rightarrow>
     lw_pending_count w = batch_rows (lw_pending w)
     \<and> lw_pending_count w \<le> max (int max_pending) (int max_buffer - 1)
     \<and> list_all (\<lambda>(k, n, rows). length rows \<le> max_buffer) (lw_parts w)
     \<and> distinct (map (\<lambda>(k, n, rows). (k, n)) (lw_parts w))"
proof -
  let ?w0 = "level_writer_new max_buffer max_pending"
  have z: "writer_bounded ?w0 \<and> parts_ok ?w0" "count_ok ?w0"
    by (simp_all add: writer_bounded_def count_ok_def parts_ok_def level_writer_new_def batch_rows_def)
  have "writer_bounded (foldl (observation_step ok) ?w0 cmds) \<and> parts_ok (foldl (observation_step ok) ?w0 cmds)"
    by (rule foldl_invariant [where I = "\<lambda>w. writer_bounded w \<and> parts_ok w", OF observation_step_ok z(1)])
  with observation_run_frame [OF z(2), of ok cmds] show ?thesis
    by (auto simp: writer_bounded_def count_ok_def parts_ok_def list_all_iff level_writer_new_def)
qed

text \<open>The rows a session accepts: the first of every identifier.\<close>

fun accepted_obs :: "obs_id set \<Rightarrow> observation_cmd list \<Rightarrow> level_observation list" where
  "accepted_obs seen [] = []"
| "accepted_obs seen (Add_obs obs # cs) =
     (if lb_obs_id obs \<in> seen then accepted_obs seen cs else obs # accepted_obs (insert (lb_obs_id obs) seen) cs)"
| "accepted_obs seen (Flush_obs # cs) = accepted_obs seen cs"
| "accepted_obs seen (Reset_obs # cs) = accepted_obs {} cs"

definition written_rows :: "level_writer \<Rightarrow> partition_key \<Rightarrow> level_observation list" where
  "written_rows w k = concat (map (\<lambda>(k', n, rows). if k' = k then rows else []) (lw_parts w))"

abbreviation "never_fails \<equiv> (\<lambda>(_ :: partition_key) (_ :: nat). True)"

lemma write_chunks_rows:
  "write_chunks never_fails k cs w = (w', b) \<Longrightarrow>
   b \<and> written_rows w' k' = written_rows w k' @ (if k' = k then concat cs else [])"
proof (induction cs arbitrary: w)
  case (Cons c cs)
  then have "b \<and> written_rows w' k'
    = written_rows (w\<lparr>lw_seq := (lw_seq w)(k := lw_seq w k + 1), lw_parts := lw_parts w @ [(k, lw_seq w k + 1, c)]\<rparr>) k'
      @ (if k' = k then concat cs else [])" by (auto simp: Let_def)
  then show ?case by (simp add: written_rows_def)
qed simp

lemma flush_keys_rows:
  "flush_keys never_fails rest w = (w', ks) \<Longrightarrow> distinct (map fst rest) \<Longrightarrow> 0 < lw_max_buffer w \<Longrightarrow>
   ks = map fst rest \<and> written_rows w' k' = written_rows w k' @ buffered rest k'"
proof (induction rest arbitrary: w ks)
  case (Cons kr rest)
  obtain k rows where kr: "kr = (k, rows)" by fastforce
  have rest: "k \<notin> fst ` set rest" "distinct (map fst rest)" using Cons.prems(2) kr by auto
  then have no: "buffered rest k = []" by (simp add: buffered_def map_of_eq_None_iff [THEN iffD2])
  show ?case
  proof (cases "rows = []")
    case True
    with Cons.prems kr obtain ks1 where "flush_keys never_fails rest w = (w', ks1)" "ks = k # ks1"
      by (auto split: prod.splits)
    with Cons.IH [OF this(1) rest(2) Cons.prems(3)] True kr no show ?thesis by (simp add: buffered_def)
  next
    case False
    obtain w1 b where w1: "write_partition never_fails k rows w = (w1, b)" by fastforce
    from w1 Cons.prems(3) have "write_chunks never_fails k (chunks (lw_max_buffer w) rows) w = (w1, b)"
      by (simp add: write_partition_def)
    from write_chunks_rows [OF this] concat_chunks [OF Cons.prems(3), of rows]
    have r: "b" "written_rows w1 k' = written_rows w k' @ (if k' = k then rows else [])" by simp_all
    let ?w1 = "w1\<lparr>lw_rows_written := lw_rows_written w1 + length rows\<rparr>"
    from Cons.prems(1) kr False w1 r(1) obtain ks1 where f: "flush_keys never_fails rest ?w1 = (w', ks1)" "ks = k # ks1"
      by (auto split: prod.splits)
    have "0 < lw_max_buffer ?w1" using write_partition_frame [OF w1] Cons.prems(3) by simp
    from Cons.IH [OF f(1) rest(2) this] f(2) r(2) kr no show ?thesis by (auto simp: written_rows_def buffered_def)
  qed
qed (simp add: buffered_def)

lemma fold_pop_all: "fst ` set (lw_pending w) \<subseteq> set ks \<Longrightarrow> lw_pending (fold pop_batch ks w) = []"
proof (induction ks arbitrary: w)
  case (Cons k ks)
  then have "fst ` set (lw_pending (pop_batch k w)) \<subseteq> set ks" by (auto simp: pop_batch_def keys_delete)
  from Cons.IH [OF this] show ?case by simp
qed simp

lemma level_flush_rows:
  assumes "count_ok w" "0 < lw_max_buffer w"
  shows "written_rows (level_flush never_fails w) k @ buffered (lw_pending (level_flush never_fails w)) k
    = written_rows w k @ buffered (lw_pending w) k"
proof (cases "lw_pending_count w = 0")
  case False
  obtain w1 ks where f: "flush_keys never_fails (lw_pending w) w = (w1, ks)" by fastforce
  have d: "distinct (map fst (lw_pending w))" using assms(1) by (simp add: count_ok_def)
  from flush_keys_rows [OF f d assms(2)] have r: "ks = map fst (lw_pending w)"
    "written_rows w1 k = written_rows w k @ buffered (lw_pending w) k" by simp_all
  let ?w = "fold pop_batch ks w1"
  have "lw_pending ?w = []" using fold_pop_all [of w1 ks] r(1) flush_keys_frame [OF f] by simp
  moreover have "count_ok ?w" using fold_pop_ok [of w1 ks] flush_keys_frame [OF f] assms(1) by (simp add: count_ok_def)
  ultimately have p: "lw_pending ?w = []" "lw_pending_count ?w = 0" by (simp_all add: count_ok_def batch_rows_def)
  have "written_rows ?w k = written_rows w1 k" using fold_pop_frame [of ks w1] by (simp add: written_rows_def)
  with f False p r(2) show ?thesis by (simp add: level_flush_def Let_def buffered_def)
qed (simp add: level_flush_def)

lemma buffered_extend: "buffered (buffer_extend k rows buf) k' = buffered buf k' @ (if k' = k then rows else [])"
  by (simp add: buffered_def buffer_extend_def update_conv')

lemma observation_run_rows:
  "count_ok w \<Longrightarrow> 0 < lw_max_buffer w \<Longrightarrow>
   written_rows (foldl (observation_step never_fails) w cmds) k
     @ buffered (lw_pending (foldl (observation_step never_fails) w cmds)) k
   = written_rows w k @ buffered (lw_pending w) k @ [obs \<leftarrow> accepted_obs (lw_seen_obs_ids w) cmds. obs_key obs = k]"
proof (induction cmds arbitrary: w)
  case (Cons c cmds)
  show ?case
  proof (cases c)
    case (Add_obs obs)
    show ?thesis
    proof (cases "lb_obs_id obs \<in> lw_seen_obs_ids w")
      case True
      with Cons Add_obs show ?thesis by (simp add: add_obs_def)
    next
      case False
      let ?w = "w\<lparr>lw_seen_obs_ids := insert (lb_obs_id obs) (lw_seen_obs_ids w),
              lw_pending := buffer_extend (obs_key obs) [obs] (lw_pending w),
              lw_pending_count := lw_pending_count w + 1\<rparr>"
      have ok: "count_ok ?w" using Cons.prems by (simp add: count_ok_def distinct_buffers batch_rows_extend)
      have mb: "0 < lw_max_buffer ?w" using Cons.prems by simp
      have ra: "written_rows ?w k = written_rows w k" by (simp add: written_rows_def)
      have rb: "buffered (lw_pending ?w) k = buffered (lw_pending w) k @ (if obs_key obs = k then [obs] else [])"
        by (simp add: buffered_extend)
      have a: "add_obs never_fails obs w = ?w \<or> add_obs never_fails obs w = level_flush never_fails ?w"
        using False by (simp add: add_obs_def Let_def)
      from Cons.IH [OF ok mb] Cons.IH [of "level_flush never_fails ?w"] level_flush_ok [OF ok, of never_fails]
        level_flush_rows [OF ok mb, of k] mb ra rb a Add_obs False
      show ?thesis by auto
    qed
  next
    case Flush_obs
    with Cons.IH [of "level_flush never_fails w"] level_flush_ok [OF Cons.prems(1), of never_fails]
      level_flush_rows [OF Cons.prems, of k] Cons.prems show ?thesis by simp
  next
    case Reset_obs
    let ?w = "reset_writer never_fails w"
    have "count_ok ?w" "0 < lw_max_buffer ?w" "lw_seen_obs_ids ?w = {}"
      using level_flush_ok [OF Cons.prems(1), of never_fails] Cons.prems(2) by (simp_all add: reset_writer_def count_ok_def)
    with Cons.IH [of ?w] level_flush_rows [OF Cons.prems, of k] Reset_obs show ?thesis
      by (simp add: reset_writer_def written_rows_def)
  qed
qed simp

text \<open>
  While the files can be written, every accepted row is recorded exactly once and in order: for each
  symbol and session, the rows of its part files followed by the buffered ones are the rows that
  were added, without those whose identifier was seen before in the session.
\<close>

theorem observations_recorded_once:
  "case foldl (observation_step never_fails) (level_writer_new (Suc max_buffer) max_pending) cmds of w \<Rightarrow>
     written_rows w k @ buffered (lw_pending w) k = [obs \<leftarrow> accepted_obs {} cmds. obs_key obs = k]"
  using observation_run_rows [of "level_writer_new (Suc max_buffer) max_pending" cmds k]
  by (simp add: level_writer_new_def count_ok_def batch_rows_def written_rows_def buffered_def)

text \<open>
  When a later chunk of a batch fails, the earlier ones are on disk and stay in the buffer: the next flush
  writes them a second time.
\<close>

lemma failed_chunk_is_written_twice:
  assumes "lw_max_buffer w = 1" "lw_pending w = [(k, [a, b])]" "lw_pending_count w = 2" "2 \<le> lw_max_pending w"
    "ok = (\<lambda>_ n. n \<noteq> lw_seq w k + 2)"
  shows "lw_parts (level_flush ok (level_flush ok w))
    = lw_parts w @ [(k, lw_seq w k + 1, [a]), (k, lw_seq w k + 3, [a]), (k, lw_seq w k + 4, [b])]"
proof -
  have c: "chunks 1 [a, b] = [[a], [b]]" by (simp add: chunks.simps)
  show ?thesis using assms c
    by (simp add: level_flush_def write_partition_def Let_def pop_batch_def buffered_def)
qed

section \<open>The observer over bars\<close>

lemma add_obs_seen: "count_ok w \<Longrightarrow> lw_seen_obs_ids (add_obs ok obs w) = insert (lb_obs_id obs) (lw_seen_obs_ids w)"
proof (cases "lb_obs_id obs \<in> lw_seen_obs_ids w")
  case False
  assume w: "count_ok w"
  let ?w = "w\<lparr>lw_seen_obs_ids := insert (lb_obs_id obs) (lw_seen_obs_ids w),
              lw_pending := buffer_extend (obs_key obs) [obs] (lw_pending w),
              lw_pending_count := lw_pending_count w + 1\<rparr>"
  have "count_ok ?w" using w by (simp add: count_ok_def distinct_buffers batch_rows_extend)
  from level_flush_ok [OF this] False show ?thesis by (auto simp: add_obs_def Let_def)
qed (auto simp: add_obs_def)


lemma add_obs_ok: "count_ok w \<Longrightarrow> count_ok (add_obs ok obs w)"
proof (cases "lb_obs_id obs \<in> lw_seen_obs_ids w")
  case False
  assume w: "count_ok w"
  let ?w = "w\<lparr>lw_seen_obs_ids := insert (lb_obs_id obs) (lw_seen_obs_ids w),
              lw_pending := buffer_extend (obs_key obs) [obs] (lw_pending w),
              lw_pending_count := lw_pending_count w + 1\<rparr>"
  have "count_ok ?w" using w by (simp add: count_ok_def distinct_buffers batch_rows_extend)
  with level_flush_ok [OF this] False show ?thesis by (auto simp: add_obs_def Let_def)
qed (simp add: add_obs_def)

lemma emit_fold_seen:
  "count_ok (lo_writer o') \<Longrightarrow>
   lw_seen_obs_ids (lo_writer (fold (emit_obs ok) rows o')) = lb_obs_id ` set rows \<union> lw_seen_obs_ids (lo_writer o')
   \<and> lo_last_session_key (fold (emit_obs ok) rows o') = lo_last_session_key o'
   \<and> lo_run_id (fold (emit_obs ok) rows o') = lo_run_id o'"
  by (induction rows arbitrary: o') (auto simp: emit_obs_def add_obs_ok add_obs_seen)

lemma emit_fold_seen_again:
  "lb_obs_id ` set rows \<subseteq> lw_seen_obs_ids (lo_writer o') \<Longrightarrow> lo_writer (fold (emit_obs ok) rows o') = lo_writer o'"
  by (induction rows arbitrary: o') (simp_all add: emit_obs_def add_obs_def)

lemma roll_observer_ok: "count_ok (lo_writer o') \<Longrightarrow> count_ok (lo_writer (roll_observer ok s d o'))"
  using level_flush_ok [of "lo_writer o'" ok] by (simp add: roll_observer_def reset_writer_def count_ok_def)

lemma roll_observer_same: "lo_last_session_key o' s = Some d \<Longrightarrow> roll_observer ok s d o' = o'"
  by (simp add: roll_observer_def)

lemma roll_observer_key: "lo_last_session_key (roll_observer ok s d o') s = Some d"
  by (simp add: roll_observer_def)

lemma observation_ids:
  "lb_obs_id (observation_of o' m d tick ev lv) = (lo_run_id o', po_symbol ev, po_timestamp ev, fst lv)"
  by (simp add: observation_of_def Let_def make_obs_id_def)

lemma emit_again:
  assumes "count_ok (lo_writer p)" "lo_writer q = lo_writer (fold (emit_obs ok) (map (observation_of p m d tick ev) lvs) p)"
    "lo_run_id q = lo_run_id (fold (emit_obs ok) (map (observation_of p m d tick ev) lvs) p)"
  shows "lo_writer (fold (emit_obs ok) (map (observation_of q m' d tick ev) lvs) q) = lo_writer q"
proof (rule emit_fold_seen_again)
  have ids: "lb_obs_id ` set (map (observation_of x n d tick ev) lvs)
    = (\<lambda>lv. (lo_run_id x, po_symbol ev, po_timestamp ev, fst lv)) ` set lvs" for x n
    by (simp add: image_image observation_ids)
  show "lb_obs_id ` set (map (observation_of q m' d tick ev) lvs) \<subseteq> lw_seen_obs_ids (lo_writer q)"
    using emit_fold_seen [OF assms(1), of ok "map (observation_of p m d tick ev) lvs"] assms(2,3)
    unfolding ids by simp
qed

text \<open>
  Delivering the same pipeline output twice records it once: the second delivery leaves the writer, its
  buffer and its files, as they are, whatever the monitor says in between.
\<close>

theorem redelivery_records_nothing:
  assumes "count_ok (lo_writer o')"
  shows "lo_writer (observer_handle v monitor' ev (observer_handle v monitor ev o')) = lo_writer (observer_handle v monitor ev o')"
proof (cases "registry_get (ov_registry v) (po_symbol ev)")
  case (Inr sy)
  let ?d = "sc_session_date (calendar_for_symbol (ov_nyse v) (ov_cme v) (sy_asset_class sy)) (po_timestamp ev)"
  let ?ok = "ov_write_ok v" and ?tick = "sy_tick_size sy" and ?snap = "po_bar_snapshot ev"
  let ?r = "roll_observer ?ok (po_symbol ev) ?d o'"
  let ?p = "?r\<lparr>lo_bars_processed := lo_bars_processed ?r + 1\<rparr>"
  let ?rows = "map (observation_of ?p monitor ?d ?tick ev) (observed_levels ?snap)"
  let ?e = "fold (emit_obs ?ok) ?rows ?p"
  have same: "roll_observer ?ok (po_symbol ev) ?d ?r = ?r" "roll_observer ?ok (po_symbol ev) ?d ?p = ?p"
    using roll_observer_key [of ?ok "po_symbol ev" ?d o'] by (simp_all add: roll_observer_same)
  show ?thesis
  proof (cases "?tick = 0")
    case True
    with Inr same show ?thesis by (simp add: observer_handle_def Let_def)
  next
    case False
    have h: "observer_handle v m ev x =
      (let r = roll_observer ?ok (po_symbol ev) ?d x; p = r\<lparr>lo_bars_processed := lo_bars_processed r + 1\<rparr>
       in fold (emit_obs ?ok) (map (observation_of p m ?d ?tick ev) (observed_levels ?snap)) p)" for m x
      using Inr False by (simp add: observer_handle_def Let_def)
    have "count_ok (lo_writer ?p)" using roll_observer_ok [OF assms] by simp
    from emit_fold_seen [OF this, of ?ok ?rows] have e: "lo_last_session_key ?e = lo_last_session_key ?p" by simp
    have roll: "roll_observer ?ok (po_symbol ev) ?d ?e = ?e"
      using e roll_observer_key [of ?ok "po_symbol ev" ?d o'] by (simp add: roll_observer_same)
    let ?q = "?e\<lparr>lo_bars_processed := lo_bars_processed ?e + 1\<rparr>"
    have again: "lo_writer (fold (emit_obs ?ok) (map (observation_of ?q monitor' ?d ?tick ev) (observed_levels ?snap)) ?q) = lo_writer ?q"
      by (rule emit_again [OF \<open>count_ok (lo_writer ?p)\<close>]) simp_all
    show ?thesis unfolding h Let_def roll using again by simp
  qed
qed (simp add: observer_handle_def)

lemma redelivery_records_nothing_witness:
  "lo_writer (observer_handle v monitor' ev (observer_handle v monitor ev
       (level_observer_new (level_writer_new 500 10000) Run_LIVE ''live-1'' ''dev'')))
   = lo_writer (observer_handle v monitor ev (level_observer_new (level_writer_new 500 10000) Run_LIVE ''live-1'' ''dev''))"
  by (rule redelivery_records_nothing) (simp add: level_observer_new_def level_writer_new_def count_ok_def batch_rows_def)

text \<open>A session change of any symbol forgets the identifiers of all of them.\<close>

lemma rollover_forgets_every_symbol:
  "lo_last_session_key o' s \<noteq> Some d \<Longrightarrow> lw_seen_obs_ids (lo_writer (roll_observer ok s d o')) = {}"
  by (simp add: roll_observer_def reset_writer_def)

text \<open>
  The recorded data quality is \<open>CLEAN\<close> whatever the monitor knows: the summary is asked for a key it
  does not have.
\<close>

lemma data_quality_is_always_clean: "get_data_quality monitor s = Sum_quality Quality_CLEAN"
proof (cases monitor)
  case (Some m)
  have "map_of (symbol_summary st) ''state'' = None" for st by (simp add: symbol_summary_def)
  with Some show ?thesis by (cases "m s") (simp_all add: get_data_quality_def monitor_summary_def get_default_def)
qed (simp add: get_data_quality_def)

end
