(* ===== verification/Storage.thy ===== *)
theory Storage
  imports Market_State Setup_Engine "HOL-Library.AList"
begin

text \<open>
  Persistence of events: the partitioned Parquet store of \<^verbatim>\<open>engines/storage/parquet.py\<close> and the engine of
  \<^verbatim>\<open>engines/storage/engine.py\<close> that buffers rows and writes them in batches. A table is its column names and
  rows; a cell is the value its text stands for. \<open>is_in\<close> of the Arrow library takes two
  nulls as equal. What the disk does is a parameter: whether the existing file can be read, whether it
  can be merged, and whether the new file is written. A write runs in a thread of its own: reading and
  replacing the file are two steps, between which everything else may run. Times of the event loop
  are in microseconds.
\<close>

section \<open>Tables\<close>

datatype json_doc = Conditions_doc "string list" | Levels_doc "(dec \<times> int) list" | State_doc market_state | Payload_doc string

datatype cell =
  Null | Text string | Decimal_cell dec | Time_cell timestamp | Num int | Float_cell rat | Flag bool | Json_cell json_doc

type_synonym row = "(string \<times> cell) list"

definition cell_at :: "row \<Rightarrow> string \<Rightarrow> cell" where
  "cell_at r c = get_default (map_of r) c Null"

record table =
  tb_columns :: "string list"
  tb_rows :: "row list"

text \<open>\<open>pa.Table.from_pylist\<close>: the columns are the first row's keys.\<close>

definition table_of :: "row list \<Rightarrow> table" where
  "table_of rows = \<lparr>tb_columns = (case rows of [] \<Rightarrow> [] | r # _ \<Rightarrow> map fst r), tb_rows = rows\<rparr>"

definition concat_tables :: "table \<Rightarrow> table \<Rightarrow> table" where
  "concat_tables a b =
     \<lparr>tb_columns = tb_columns a @ [c \<leftarrow> tb_columns b. c \<notin> set (tb_columns a)], tb_rows = tb_rows a @ tb_rows b\<rparr>"

section \<open>Parquet store\<close>

type_synonym storage_key = "string \<times> string \<times> date"
type_synonym parquet_files = "storage_key \<rightharpoonup> table"

datatype disk_read = File_intact | Read_fails | Merge_fails

definition both_have :: "table \<Rightarrow> table \<Rightarrow> string \<Rightarrow> bool" where
  "both_have a b c \<longleftrightarrow> c \<in> set (tb_columns a) \<and> c \<in> set (tb_columns b)"

definition live_row :: "row \<Rightarrow> bool" where
  "live_row r \<longleftrightarrow> cell_at r ''is_replay'' = Flag False"

text \<open>The new rows that may be written, and the old rows that stay.\<close>

definition incoming_rows :: "string option \<Rightarrow> bool \<Rightarrow> table \<Rightarrow> table \<Rightarrow> row list" where
  "incoming_rows dedup prefer_live existing new =
     (case dedup of
        None \<Rightarrow> tb_rows new
      | Some k \<Rightarrow>
          if both_have existing new k \<and> prefer_live \<and> both_have existing new ''is_replay''
          then [r \<leftarrow> tb_rows new. cell_at r k \<notin> (\<lambda>x. cell_at x k) ` set (filter live_row (tb_rows existing))]
          else tb_rows new)"

definition remaining_rows :: "string option \<Rightarrow> table \<Rightarrow> table \<Rightarrow> row list \<Rightarrow> row list" where
  "remaining_rows dedup existing new incoming =
     (case dedup of
        None \<Rightarrow> tb_rows existing
      | Some k \<Rightarrow>
          if both_have existing new k
          then [r \<leftarrow> tb_rows existing. cell_at r k \<notin> (\<lambda>x. cell_at x k) ` set incoming]
          else tb_rows existing)"

definition merge_tables :: "string option \<Rightarrow> bool \<Rightarrow> table \<Rightarrow> table \<Rightarrow> table" where
  "merge_tables dedup prefer_live existing new =
     (let incoming = incoming_rows dedup prefer_live existing new
      in concat_tables (existing\<lparr>tb_rows := remaining_rows dedup existing new incoming\<rparr>) (new\<lparr>tb_rows := incoming\<rparr>))"

text \<open>
  What the write is going to put in place of the file. A file that cannot be read or merged is discarded;
  when the merge fails, the rows that live ones would have replaced are already gone from the new table.
\<close>

definition new_contents :: "disk_read \<Rightarrow> parquet_files \<Rightarrow> storage_key \<Rightarrow> table \<Rightarrow> string option \<Rightarrow> bool \<Rightarrow> table" where
  "new_contents dr files k new dedup prefer_live =
     (case files k of
        None \<Rightarrow> new
      | Some existing \<Rightarrow>
          (case dr of
             File_intact \<Rightarrow> merge_tables dedup prefer_live existing new
           | Read_fails \<Rightarrow> new
           | Merge_fails \<Rightarrow> new\<lparr>tb_rows := incoming_rows dedup prefer_live existing new\<rparr>))"

definition discards :: "disk_read \<Rightarrow> parquet_files \<Rightarrow> storage_key \<Rightarrow> parquet_files" where
  "discards dr files k = (if dr = File_intact then files else files(k := None))"

definition parquet_write ::
  "disk_read \<Rightarrow> bool \<Rightarrow> parquet_files \<Rightarrow> storage_key \<Rightarrow> table \<Rightarrow> string option \<Rightarrow> bool \<Rightarrow> parquet_files \<times> bool" where
  "parquet_write dr ok files k new dedup prefer_live =
     (if ok then (files(k \<mapsto> new_contents dr files k new dedup prefer_live), True) else (discards dr files k, False))"

text \<open>\<open>write_streaming\<close> replaces the file by the chunks that have rows, without merging.\<close>

definition write_streaming :: "bool \<Rightarrow> parquet_files \<Rightarrow> storage_key \<Rightarrow> table list \<Rightarrow> parquet_files \<times> bool" where
  "write_streaming ok files k chs =
     (case filter (\<lambda>t. tb_rows t \<noteq> []) chs of
        [] \<Rightarrow> (files, True)
      | t # ts \<Rightarrow> if ok then (files(k \<mapsto> t\<lparr>tb_rows := concat (map tb_rows (t # ts))\<rparr>), True) else (files, False))"

definition parquet_read_range :: "parquet_files \<Rightarrow> string \<Rightarrow> string \<Rightarrow> date \<Rightarrow> date \<Rightarrow> row list" where
  "parquet_read_range files ty s day_lo day_hi =
     concat (map (\<lambda>d. case files (ty, s, d) of None \<Rightarrow> [] | Some t \<Rightarrow> tb_rows t) [day_lo..day_hi])"

definition parquet_exists :: "parquet_files \<Rightarrow> string \<Rightarrow> string \<Rightarrow> date \<Rightarrow> bool" where
  "parquet_exists files ty s d \<longleftrightarrow> files (ty, s, d) \<noteq> None"

definition parquet_delete :: "parquet_files \<Rightarrow> string \<Rightarrow> string \<Rightarrow> date \<Rightarrow> parquet_files" where
  "parquet_delete files ty s d = files((ty, s, d) := None)"

section \<open>Events and rows\<close>

record stored_trade = trade_event +
  st_metadata :: event_metadata
  st_conditions :: "string list"
  st_exchange :: "string option"
  st_trade_id :: "string option"

record stored_quote = quote_event +
  sq_metadata :: event_metadata
  sq_bid_exchange :: "string option"
  sq_ask_exchange :: "string option"

record order_book_event =
  ob_symbol :: string
  ob_timestamp :: timestamp
  ob_metadata :: event_metadata
  ob_bids :: "(dec \<times> int) list"
  ob_asks :: "(dec \<times> int) list"
  ob_is_snapshot :: bool

record order_update_event =
  oe_symbol :: string
  oe_timestamp :: timestamp
  oe_metadata :: event_metadata
  oe_order_id :: uuid
  oe_broker_order_id :: "string option"
  oe_order_status :: order_status
  oe_filled_quantity :: int
  oe_avg_fill_price :: "dec option"
  oe_reject_reason :: "string option"

record system_event =
  ye_symbol :: string
  ye_timestamp :: timestamp
  ye_metadata :: event_metadata
  ye_event_name :: string
  ye_payload :: string

text \<open>The last constructor stands for the event classes that storage does not know.\<close>

datatype storage_event =
  Bar_ev bar_event
| Trade_ev stored_trade
| Quote_ev stored_quote
| Book_ev order_book_event
| Market_ev market_state_event
| Setup_ev setup_event event_metadata
| Order_ev order_update_event
| System_ev system_event
| Unknown_ev

definition opt_text :: "string option \<Rightarrow> cell" where
  "opt_text x = (case x of None \<Rightarrow> Null | Some s \<Rightarrow> Text s)"

definition decimal_text :: "dec option \<Rightarrow> cell" where
  "decimal_text x = (case x of None \<Rightarrow> Null | Some d \<Rightarrow> Decimal_cell d)"

definition opt_num :: "int option \<Rightarrow> cell" where
  "opt_num x = (case x of None \<Rightarrow> Null | Some n \<Rightarrow> Num n)"

definition opt_float :: "rat option \<Rightarrow> cell" where
  "opt_float x = (case x of None \<Rightarrow> Null | Some q \<Rightarrow> Float_cell q)"

definition base_row :: "timestamp \<Rightarrow> event_type \<Rightarrow> string \<Rightarrow> timestamp \<Rightarrow> event_metadata \<Rightarrow> row" where
  "base_row now ty s t m =
     [(''event_id'', Text (em_event_id m)), (''event_type'', Text (event_type_value ty)), (''symbol'', Text s),
      (''timestamp'', Time_cell t), (''source'', Text (data_source_id_value (em_source m))),
      (''received_at'', Time_cell (em_received_at m)), (''is_replay'', Flag (em_is_replay m)),
      (''sequence_num'', opt_num (em_sequence_num m)), (''recorded_at'', Time_cell now)]"

definition serialize_bar :: "timestamp \<Rightarrow> bar_event \<Rightarrow> row" where
  "serialize_bar now e =
     base_row now Event_BAR (be_symbol e) (be_timestamp e) (be_metadata e)
     @ [(''timeframe'', Text (bar_timeframe_value (be_timeframe e))), (''open'', Decimal_cell (be_open e)),
        (''high'', Decimal_cell (be_high e)), (''low'', Decimal_cell (be_low e)), (''close'', Decimal_cell (be_close e)),
        (''volume'', Num (be_volume e)), (''vwap'', decimal_text (be_vwap e)), (''trade_count'', opt_num (be_trade_count e)),
        (''is_partial'', Flag (be_is_partial e))]"

fun serialize_event :: "timestamp \<Rightarrow> storage_event \<Rightarrow> row option" where
  "serialize_event now (Bar_ev e) = Some (serialize_bar now e)"
| "serialize_event now (Trade_ev e) =
     Some (base_row now Event_TRADE (te_symbol e) (te_timestamp e) (st_metadata e)
       @ [(''price'', Decimal_cell (te_price e)), (''size'', Num (te_size e)),
          (''conditions_json'', Json_cell (Conditions_doc (st_conditions e))), (''exchange'', opt_text (st_exchange e)),
          (''taker_side'', Text (taker_side_value (te_taker_side e))), (''trade_id'', opt_text (st_trade_id e))])"
| "serialize_event now (Quote_ev e) =
     Some (base_row now Event_QUOTE (qe_symbol e) (qe_timestamp e) (sq_metadata e)
       @ [(''bid_price'', Decimal_cell (qe_bid_price e)), (''bid_size'', Num (qe_bid_size e)),
          (''ask_price'', Decimal_cell (qe_ask_price e)), (''ask_size'', Num (qe_ask_size e)),
          (''bid_exchange'', opt_text (sq_bid_exchange e)), (''ask_exchange'', opt_text (sq_ask_exchange e))])"
| "serialize_event now (Book_ev e) =
     Some (base_row now Event_ORDER_BOOK (ob_symbol e) (ob_timestamp e) (ob_metadata e)
       @ [(''bids_json'', Json_cell (Levels_doc (ob_bids e))), (''asks_json'', Json_cell (Levels_doc (ob_asks e))),
          (''is_snapshot'', Flag (ob_is_snapshot e))])"
| "serialize_event now (Market_ev e) =
     Some (base_row now Event_MARKET_STATE (mv_symbol e) (mv_timestamp e) (mv_metadata e)
       @ [(''state_data_json'', Json_cell (State_doc (mv_state_data e)))])"
| "serialize_event now (Setup_ev e m) =
     Some (base_row now Event_SETUP (sv_symbol e) (sv_timestamp e) m
       @ [(''setup_id'', Text (sv_setup_id e)), (''setup_type'', Text (setup_type_value (sv_setup_type e))),
          (''setup_state'', Text (setup_state_value (sv_setup_state e))),
          (''prev_state'', opt_text (map_option setup_state_value (sv_prev_state e))),
          (''entry_trigger'', decimal_text (sv_entry_trigger e)), (''stop_reference'', decimal_text (sv_stop_reference e)),
          (''target_reference'', decimal_text (sv_target_reference e)), (''grade'', opt_text (sv_grade e)),
          (''score'', opt_float (sv_score e))])"
| "serialize_event now (Order_ev e) =
     Some (base_row now Event_ORDER_UPDATE (oe_symbol e) (oe_timestamp e) (oe_metadata e)
       @ [(''order_id'', Text (oe_order_id e)), (''broker_order_id'', opt_text (oe_broker_order_id e)),
          (''order_status'', Text (order_status_value (oe_order_status e))),
          (''filled_quantity'', Num (oe_filled_quantity e)), (''avg_fill_price'', decimal_text (oe_avg_fill_price e)),
          (''reject_reason'', opt_text (oe_reject_reason e))])"
| "serialize_event now (System_ev e) =
     Some (base_row now Event_SYSTEM (ye_symbol e) (ye_timestamp e) (ye_metadata e)
       @ [(''event_name'', Text (ye_event_name e)), (''payload_json'', Json_cell (Payload_doc (ye_payload e)))])"
| "serialize_event now Unknown_ev = None"

fun data_type_for :: "storage_event \<Rightarrow> string option" where
  "data_type_for (Bar_ev e) = Some (''bars/'' @ bar_timeframe_value (be_timeframe e))"
| "data_type_for (Trade_ev e) = Some ''trades''"
| "data_type_for (Quote_ev e) = Some ''quotes''"
| "data_type_for (Book_ev e) = Some ''order_books''"
| "data_type_for (Market_ev e) = Some ''market_states''"
| "data_type_for (Setup_ev e m) = Some ''setups''"
| "data_type_for (Order_ev e) = Some ''orders''"
| "data_type_for (System_ev e) = Some ''system''"
| "data_type_for Unknown_ev = None"

text \<open>Symbol and date of the partition; system events share one symbol.\<close>

fun storage_place :: "storage_event \<Rightarrow> string \<times> date" where
  "storage_place (Bar_ev e) = (be_symbol e, date_of (be_timestamp e))"
| "storage_place (Trade_ev e) = (te_symbol e, date_of (te_timestamp e))"
| "storage_place (Quote_ev e) = (qe_symbol e, date_of (qe_timestamp e))"
| "storage_place (Book_ev e) = (ob_symbol e, date_of (ob_timestamp e))"
| "storage_place (Market_ev e) = (mv_symbol e, date_of (mv_timestamp e))"
| "storage_place (Setup_ev e m) = (sv_symbol e, date_of (sv_timestamp e))"
| "storage_place (Order_ev e) = (oe_symbol e, date_of (oe_timestamp e))"
| "storage_place (System_ev e) = (''__system__'', date_of (ye_timestamp e))"
| "storage_place Unknown_ev = ([], 0)"

definition is_bar_type :: "string \<Rightarrow> bool" where
  "is_bar_type ty \<longleftrightarrow> take 5 ty = ''bars/''"

definition dedup_key :: "string \<Rightarrow> string option" where
  "dedup_key ty =
     (if is_bar_type ty then Some ''timestamp''
      else if ty = ''setups'' then Some ''setup_id''
      else if ty = ''trades'' then Some ''trade_id''
      else None)"

section \<open>Reading bars back\<close>

definition all_sources :: "data_source_id list" where
  "all_sources =
     [DataSource_ALPACA, DataSource_DATABENTO, DataSource_POLYGON, DataSource_INTERACTIVE_BROKERS, DataSource_TASTYTRADE,
      DataSource_CSV, DataSource_JSON_FILE, DataSource_PARQUET, DataSource_SYNTHETIC, DataSource_UNKNOWN]"

definition parse_source :: "cell \<Rightarrow> data_source_id option" where
  "parse_source c = (case c of Text s \<Rightarrow> find (\<lambda>d. data_source_id_value d = s) all_sources | _ \<Rightarrow> None)"

fun text_cell :: "cell \<Rightarrow> string option" where
  "text_cell (Text s) = Some s" | "text_cell _ = None"

fun time_cell :: "cell \<Rightarrow> timestamp option" where
  "time_cell (Time_cell t) = Some t" | "time_cell _ = None"

fun decimal_cell :: "cell \<Rightarrow> dec option" where
  "decimal_cell (Decimal_cell d) = Some d" | "decimal_cell _ = None"

fun num_cell :: "cell \<Rightarrow> int option" where
  "num_cell (Num n) = Some n" | "num_cell _ = None"

text \<open>A cell that may be null: a value that cannot be converted raises.\<close>

definition nullable :: "(cell \<Rightarrow> 'a option) \<Rightarrow> cell \<Rightarrow> 'a option option" where
  "nullable f c = (if c = Null then Some None else map_option Some (f c))"

definition row_to_bar_event :: "bar_timeframe \<Rightarrow> row \<Rightarrow> bar_event option" where
  "row_to_bar_event tf r =
     Option.bind (time_cell (cell_at r ''timestamp'')) (\<lambda>t.
     Option.bind (time_cell (cell_at r ''received_at'')) (\<lambda>received.
     Option.bind (text_cell (cell_at r ''symbol'')) (\<lambda>s.
     Option.bind (text_cell (cell_at r ''event_id'')) (\<lambda>eid.
     Option.bind (parse_source (cell_at r ''source'')) (\<lambda>source.
     Option.bind (nullable num_cell (cell_at r ''sequence_num'')) (\<lambda>sq.
     Option.bind (decimal_cell (cell_at r ''open'')) (\<lambda>op.
     Option.bind (decimal_cell (cell_at r ''high'')) (\<lambda>hi.
     Option.bind (decimal_cell (cell_at r ''low'')) (\<lambda>lo.
     Option.bind (decimal_cell (cell_at r ''close'')) (\<lambda>cl.
     Option.bind (num_cell (cell_at r ''volume'')) (\<lambda>vol.
     Option.bind (nullable decimal_cell (cell_at r ''vwap'')) (\<lambda>vw.
     Option.bind (nullable num_cell (cell_at r ''trade_count'')) (\<lambda>tc.
       Some \<lparr>be_symbol = s, be_timestamp = t,
             be_metadata = \<lparr>em_event_id = eid, em_source = source, em_received_at = received,
                            em_is_replay = (cell_at r ''is_replay'' = Flag True), em_sequence_num = sq\<rparr>,
             be_timeframe = tf, be_open = op, be_high = hi, be_low = lo, be_close = cl, be_volume = vol,
             be_vwap = vw, be_trade_count = tc, be_is_partial = (cell_at r ''is_partial'' = Flag True),
             be_is_pipeline_fallback = False\<rparr>)))))))))))))"

definition load_bar_events :: "parquet_files \<Rightarrow> string \<Rightarrow> bar_timeframe \<Rightarrow> date \<Rightarrow> date \<Rightarrow> bar_event list option" where
  "load_bar_events files s tf day_lo day_hi =
     those (map (row_to_bar_event tf) (parquet_read_range files (''bars/'' @ bar_timeframe_value tf) s day_lo day_hi))"


section \<open>Engine\<close>

record write_job =
  wj_flushed_at :: timestamp
  wj_pending :: "(storage_key \<times> row list) list"
  wj_running :: "(storage_key \<times> table) option"

text \<open>
  \<open>se_jobs\<close> are the flushes under way (\<open>_write_pending\<close> of the flush loop, of \<open>flush\<close> callers and of
  \<open>stop\<close>); a job writes its partitions one after the other.
\<close>

record storage_engine =
  se_queue :: "storage_event list"
  se_buffers :: "(storage_key \<times> row list) list"
  se_last_flush_at :: "storage_key \<rightharpoonup> timestamp"
  se_writes_total :: nat
  se_jobs :: "write_job list"
  se_files :: parquet_files

definition storage_new :: "parquet_files \<Rightarrow> storage_engine" where
  "storage_new files =
     \<lparr>se_queue = [], se_buffers = [], se_last_flush_at = Map.empty, se_writes_total = 0, se_jobs = [], se_files = files\<rparr>"

definition WRITE_QUEUE_SIZE :: nat where "WRITE_QUEUE_SIZE = 10000"
definition MAX_BUFFERED_ROWS :: nat where "MAX_BUFFERED_ROWS = 50000"
definition FLUSH_INTERVAL :: timestamp where "FLUSH_INTERVAL = 2000000"
definition HIGH_FREQ_FLUSH_INTERVAL :: timestamp where "HIGH_FREQ_FLUSH_INTERVAL = 120000000"

definition flush_interval_for :: "string \<Rightarrow> timestamp" where
  "flush_interval_for ty = (if ty = ''trades'' \<or> ty = ''quotes'' then HIGH_FREQ_FLUSH_INTERVAL else FLUSH_INTERVAL)"

text \<open>\<open>save_*\<close>: with a full queue the caller waits, and tries again at a later step.\<close>

definition enqueue :: "storage_event \<Rightarrow> storage_engine \<Rightarrow> storage_engine" where
  "enqueue ev e = (if length (se_queue e) < WRITE_QUEUE_SIZE then e\<lparr>se_queue := se_queue e @ [ev]\<rparr> else e)"

text \<open>\<open>_on_event\<close>: a replayed bar is skipped; other events are dropped when the queue is full.\<close>

definition storage_on_event :: "storage_event \<Rightarrow> storage_engine \<Rightarrow> storage_engine" where
  "storage_on_event ev e =
     (case ev of
        Bar_ev b \<Rightarrow> if em_is_replay (be_metadata b) then e else enqueue ev e
      | _ \<Rightarrow> if length (se_queue e) < WRITE_QUEUE_SIZE then e\<lparr>se_queue := se_queue e @ [ev]\<rparr> else e)"

definition buffer_row :: "storage_key \<Rightarrow> row \<Rightarrow> (storage_key \<times> row list) list \<Rightarrow> (storage_key \<times> row list) list" where
  "buffer_row k r bufs = AList.update k ((case map_of bufs k of None \<Rightarrow> [] | Some rows \<Rightarrow> rows) @ [r]) bufs"

definition buffer_event :: "timestamp \<Rightarrow> storage_event \<Rightarrow> storage_engine \<Rightarrow> storage_engine" where
  "buffer_event now ev e =
     (case (data_type_for ev, serialize_event now ev) of
        (Some ty, Some r) \<Rightarrow> e\<lparr>se_buffers := buffer_row (ty, storage_place ev) r (se_buffers e)\<rparr>
      | _ \<Rightarrow> e)"

definition is_live_quote :: "storage_event \<Rightarrow> bool" where
  "is_live_quote ev \<longleftrightarrow> (case ev of Quote_ev q \<Rightarrow> \<not> em_is_replay (sq_metadata q) | _ \<Rightarrow> False)"

definition writer_step :: "timestamp \<Rightarrow> storage_engine \<Rightarrow> storage_engine" where
  "writer_step now e =
     (case se_queue e of
        [] \<Rightarrow> e
      | ev # rest \<Rightarrow>
          (let e = e\<lparr>se_queue := rest\<rparr>; e = (if is_live_quote ev then e else buffer_event now ev e)
           in e\<lparr>se_writes_total := se_writes_total e + 1\<rparr>))"

definition is_due :: "timestamp \<Rightarrow> storage_engine \<Rightarrow> storage_key \<times> row list \<Rightarrow> bool" where
  "is_due now e p \<longleftrightarrow>
     snd p \<noteq> []
     \<and> (now - get_default (se_last_flush_at e) (fst p) 0 \<ge> flush_interval_for (fst (fst p))
        \<or> length (snd p) \<ge> MAX_BUFFERED_ROWS)"

definition start_job :: "timestamp \<Rightarrow> (storage_key \<times> row list) list \<Rightarrow> storage_engine \<Rightarrow> storage_engine" where
  "start_job now pending e = e\<lparr>se_jobs := se_jobs e @ [\<lparr>wj_flushed_at = now, wj_pending = pending, wj_running = None\<rparr>]\<rparr>"

definition flush_due :: "timestamp \<Rightarrow> storage_engine \<Rightarrow> storage_engine" where
  "flush_due now e =
     (let due = filter (is_due now e) (se_buffers e)
      in if due = [] then e
         else start_job now due (e\<lparr>se_buffers := filter (\<lambda>p. \<not> is_due now e p) (se_buffers e)\<rparr>))"

definition flush_all :: "timestamp \<Rightarrow> storage_engine \<Rightarrow> storage_engine" where
  "flush_all now e = (if se_buffers e = [] then e else start_job now (se_buffers e) (e\<lparr>se_buffers := []\<rparr>))"

text \<open>
  \<open>_write_pending\<close> and \<open>_write_rows_sync\<close>: the first step takes the next partition and reads its file, the
  second replaces the file. A write that fails is logged; its rows are in no buffer any more.
\<close>

definition write_begin :: "nat \<Rightarrow> disk_read \<Rightarrow> storage_engine \<Rightarrow> storage_engine" where
  "write_begin i dr e =
     (if i < length (se_jobs e) \<and> wj_running (se_jobs e ! i) = None then
        (let j = se_jobs e ! i in
         case wj_pending j of
           [] \<Rightarrow> e\<lparr>se_jobs := take i (se_jobs e) @ drop (Suc i) (se_jobs e)\<rparr>
         | (k, rows) # rest \<Rightarrow>
             if rows = [] then e\<lparr>se_jobs := (se_jobs e)[i := j\<lparr>wj_pending := rest\<rparr>]\<rparr>
             else
               e\<lparr>se_last_flush_at := (se_last_flush_at e)(k \<mapsto> wj_flushed_at j),
                 se_files := discards dr (se_files e) k,
                 se_jobs := (se_jobs e)[i := j\<lparr>wj_pending := rest,
                   wj_running := Some (k, new_contents dr (se_files e) k (table_of rows) (dedup_key (fst k)) (fst k = ''trades''))\<rparr>]\<rparr>)
      else e)"

definition write_end :: "nat \<Rightarrow> bool \<Rightarrow> storage_engine \<Rightarrow> storage_engine" where
  "write_end i ok e =
     (if i < length (se_jobs e) then
        (case wj_running (se_jobs e ! i) of
           None \<Rightarrow> e
         | Some (k, t) \<Rightarrow>
             e\<lparr>se_files := (if ok then (se_files e)(k \<mapsto> t) else se_files e),
               se_jobs := (se_jobs e)[i := (se_jobs e ! i)\<lparr>wj_running := None\<rparr>]\<rparr>)
      else e)"

datatype storage_cmd =
  Save_event storage_event
| Bus_event storage_event
| Writer_takes timestamp
| Flush_due timestamp
| Flush_all timestamp
| Write_begins nat disk_read
| Write_ends nat bool

fun storage_step :: "storage_engine \<Rightarrow> storage_cmd \<Rightarrow> storage_engine" where
  "storage_step e (Save_event ev) = enqueue ev e"
| "storage_step e (Bus_event ev) = storage_on_event ev e"
| "storage_step e (Writer_takes now) = writer_step now e"
| "storage_step e (Flush_due now) = flush_due now e"
| "storage_step e (Flush_all now) = flush_all now e"
| "storage_step e (Write_begins i dr) = write_begin i dr e"
| "storage_step e (Write_ends i ok) = write_end i ok e"

text \<open>The bulk writes of a backfill bypass queue and buffers.\<close>

definition save_trades_bulk ::
  "timestamp \<Rightarrow> disk_read \<Rightarrow> bool \<Rightarrow> parquet_files \<Rightarrow> string \<Rightarrow> date \<Rightarrow> stored_trade list \<Rightarrow> parquet_files \<times> bool" where
  "save_trades_bulk now dr ok files s d events =
     (if events = [] then (files, True)
      else parquet_write dr ok files (''trades'', s, d)
             (table_of (map (\<lambda>t. the (serialize_event now (Trade_ev t))) events)) (Some ''trade_id'') True)"

definition STREAM_CHUNK_SIZE :: nat where "STREAM_CHUNK_SIZE = 65536"

fun split_every :: "nat \<Rightarrow> nat \<Rightarrow> 'a list \<Rightarrow> 'a list list" where
  "split_every n 0 xs = []"
| "split_every n (Suc m) xs = (if xs = [] then [] else take n xs # split_every n m (drop n xs))"

definition save_quote_rows_bulk :: "bool \<Rightarrow> parquet_files \<Rightarrow> string \<Rightarrow> date \<Rightarrow> row list \<Rightarrow> parquet_files \<times> bool" where
  "save_quote_rows_bulk ok files s d rows =
     (if rows = [] then (files, True)
      else write_streaming ok files (''quotes'', s, d) (map table_of (split_every STREAM_CHUNK_SIZE (length rows) rows)))"

definition save_quotes_bulk ::
  "timestamp \<Rightarrow> bool \<Rightarrow> parquet_files \<Rightarrow> string \<Rightarrow> date \<Rightarrow> stored_quote list \<Rightarrow> parquet_files \<times> bool" where
  "save_quotes_bulk now ok files s d events =
     save_quote_rows_bulk ok files s d (map (\<lambda>q. the (serialize_event now (Quote_ev q))) events)"


section \<open>Upserts\<close>

lemma merge_keeps_live_row:
  assumes "r \<in> set (tb_rows existing)" "live_row r" "both_have existing new k" "both_have existing new ''is_replay''"
  shows "r \<in> set (tb_rows (merge_tables (Some k) True existing new))"
proof -
  have "cell_at r k \<in> (\<lambda>x. cell_at x k) ` set (filter live_row (tb_rows existing))" using assms(1,2) by (intro imageI) simp
  then have "cell_at r k \<notin> (\<lambda>x. cell_at x k) ` set (incoming_rows (Some k) True existing new)"
    using assms(3,4) by (auto simp: incoming_rows_def)
  with assms(1,3) show ?thesis by (simp add: merge_tables_def Let_def concat_tables_def remaining_rows_def)
qed

lemma merge_columns: "set (tb_columns (merge_tables dedup p a b)) = set (tb_columns a) \<union> set (tb_columns b)"
  by (auto simp: merge_tables_def Let_def concat_tables_def)

lemma trade_table_columns:
  "events \<noteq> [] \<Longrightarrow> {''trade_id'', ''is_replay''} \<subseteq> set (tb_columns (table_of (map (\<lambda>t. the (serialize_event now (Trade_ev t))) events)))"
  by (cases events) (simp_all add: table_of_def base_row_def)

lemma save_trades_keeps_live_row:
  assumes "files (''trades'', s, d) = Some t" "r \<in> set (tb_rows t)" "live_row r" "{''trade_id'', ''is_replay''} \<subseteq> set (tb_columns t)"
  obtains t' where "fst (save_trades_bulk now File_intact ok files s d events) (''trades'', s, d) = Some t'"
    "r \<in> set (tb_rows t')" "{''trade_id'', ''is_replay''} \<subseteq> set (tb_columns t')"
proof (cases "events = [] \<or> \<not> ok")
  case True
  then have "fst (save_trades_bulk now File_intact ok files s d events) = files"
    by (auto simp: save_trades_bulk_def parquet_write_def discards_def)
  with assms that show ?thesis by simp
next
  case False
  define new where "new = table_of (map (\<lambda>t. the (serialize_event now (Trade_ev t))) events)"
  have "fst (save_trades_bulk now File_intact ok files s d events) (''trades'', s, d) = Some (merge_tables (Some ''trade_id'') True t new)"
    using assms(1) False unfolding save_trades_bulk_def new_def [symmetric] by (simp add: parquet_write_def new_contents_def)
  moreover have "both_have t new ''trade_id''" "both_have t new ''is_replay''"
    using trade_table_columns [of events now] assms(4) False unfolding new_def [symmetric] by (auto simp: both_have_def)
  ultimately show ?thesis
    using that merge_keeps_live_row [OF assms(2,3)] assms(4) by (simp add: merge_columns)
qed

text \<open>
  C26. A trade captured live is never overwritten: whatever batches of trades of that day are saved later, and
  whichever of the writes fail, its row stays in the file as it was, as long as the file can be read and merged with
  the new rows. A file whose merge raises is discarded by the code, its live rows with it.
\<close>

theorem live_trades_survive:
  assumes "files (''trades'', s, d) = Some t" "r \<in> set (tb_rows t)" "live_row r" "{''trade_id'', ''is_replay''} \<subseteq> set (tb_columns t)"
  shows "\<exists>t'. fold (\<lambda>(now, ok, events) f. fst (save_trades_bulk now File_intact ok f s d events)) batches files (''trades'', s, d) = Some t'
    \<and> r \<in> set (tb_rows t')"
  using assms(1,2,4)
proof (induction batches arbitrary: files t)
  case (Cons x batches)
  obtain now ok events where x: "x = (now, ok, events)" by (cases x)
  from save_trades_keeps_live_row [of files s d t r now ok events, OF Cons.prems(1,2) assms(3) Cons.prems(3)] obtain t1
    where "fst (save_trades_bulk now File_intact ok files s d events) (''trades'', s, d) = Some t1"
      "r \<in> set (tb_rows t1)" "{''trade_id'', ''is_replay''} \<subseteq> set (tb_columns t1)" .
  from Cons.IH [of "fst (save_trades_bulk now File_intact ok files s d events)", OF this] x show ?case by simp
qed simp

definition sample_stored_trade :: "bool \<Rightarrow> timestamp \<Rightarrow> stored_trade" where
  "sample_stored_trade replay received =
     \<lparr>te_symbol = ''MNQ'', te_timestamp = 0, te_price = 100, te_size = 1, te_taker_side = Taker_BUY,
      st_metadata = \<lparr>em_event_id = ''t1'', em_source = DataSource_DATABENTO, em_received_at = received, em_is_replay = replay,
                     em_sequence_num = None\<rparr>,
      st_conditions = [], st_exchange = None, st_trade_id = Some ''77''\<rparr>"

lemma live_trades_survive_witness:
  "\<exists>t'. fold (\<lambda>(now, ok, events) f. fst (save_trades_bulk now File_intact ok f ''MNQ'' 0 events))
       [(9, True, [sample_stored_trade True 8])]
       [(''trades'', ''MNQ'', 0) \<mapsto> table_of [the (serialize_event 1 (Trade_ev (sample_stored_trade False 1)))]] (''trades'', ''MNQ'', 0) = Some t'
     \<and> the (serialize_event 1 (Trade_ev (sample_stored_trade False 1))) \<in> set (tb_rows t')"
  by (rule live_trades_survive [where t = "table_of [the (serialize_event 1 (Trade_ev (sample_stored_trade False 1)))]"])
    (simp_all add: table_of_def base_row_def sample_stored_trade_def live_row_def cell_at_def)

text \<open>Writing the same table twice is writing it once.\<close>

lemma rewriting_changes_nothing:
  assumes "k \<in> set (tb_columns new)" "\<forall>t. files key = Some t \<longrightarrow> k \<in> set (tb_columns t)"
  shows "parquet_write File_intact True (fst (parquet_write File_intact True files key new (Some k) False)) key new (Some k) False
    = parquet_write File_intact True files key new (Some k) False"
proof (cases "files key")
  case None
  with assms(1) show ?thesis
    by (cases new) (simp add: parquet_write_def new_contents_def merge_tables_def Let_def concat_tables_def remaining_rows_def
        incoming_rows_def both_have_def filter_empty_conv)
next
  case (Some t)
  with assms have "both_have t new k" by (simp add: both_have_def)
  with Some assms(1) show ?thesis
    by (auto simp: parquet_write_def new_contents_def merge_tables_def Let_def concat_tables_def remaining_rows_def
        incoming_rows_def both_have_def filter_empty_conv)
qed

section \<open>Bars through the store\<close>

lemma parse_source_value [simp]: "parse_source (Text (data_source_id_value d)) = Some d"
  by (cases d) (simp_all add: parse_source_def all_sources_def)

lemma nullable_cells [simp]:
  "nullable num_cell (opt_num x) = Some x" "nullable decimal_cell (decimal_text y) = Some y"
  by (cases x; simp add: nullable_def opt_num_def) (cases y; simp add: nullable_def decimal_text_def)

text \<open>Whether a bar is a republished copy is not stored.\<close>

lemma row_to_bar_serialize_bar:
  "be_timeframe b = tf \<Longrightarrow> row_to_bar_event tf (serialize_bar now b) = Some (b\<lparr>be_is_pipeline_fallback := False\<rparr>)"
  by (simp add: row_to_bar_event_def serialize_bar_def base_row_def cell_at_def)

lemma those_map_Some: "(\<And>x. x \<in> set xs \<Longrightarrow> f x = Some (g x)) \<Longrightarrow> those (map f xs) = Some (map g xs)"
  by (induction xs) auto

lemma bar_timestamp_cell [simp]: "cell_at (serialize_bar now b) ''timestamp'' = Time_cell (be_timestamp b)"
  by (simp add: serialize_bar_def base_row_def cell_at_def)

lemma bar_table_columns: "''timestamp'' \<in> set (tb_columns (table_of (map (serialize_bar now) bars))) \<longleftrightarrow> bars \<noteq> []"
  by (cases bars) (simp_all add: table_of_def serialize_bar_def base_row_def)

lemma merged_bar_rows:
  "tb_rows (merge_tables (Some ''timestamp'') False (table_of (map (serialize_bar now) old_bars)) (table_of (map (serialize_bar now') bars)))
   = map (serialize_bar now) [b \<leftarrow> old_bars. be_timestamp b \<notin> be_timestamp ` set bars] @ map (serialize_bar now') bars"
proof -
  have "[r \<leftarrow> map (serialize_bar now) old_bars. cell_at r ''timestamp'' \<notin> (\<lambda>x. cell_at x ''timestamp'') ` set (map (serialize_bar now') bars)]
    = map (serialize_bar now) [b \<leftarrow> old_bars. be_timestamp b \<notin> be_timestamp ` set bars]"
    by (simp add: filter_map comp_def image_iff)
  then show ?thesis
    using bar_table_columns [of now old_bars] bar_table_columns [of now' bars]
    by (auto simp: merge_tables_def Let_def concat_tables_def remaining_rows_def incoming_rows_def both_have_def)
      (auto simp: table_of_def)
qed

text \<open>
  Bars survive storage: after two batches of bars of a day were written, loading that day gives back the second
  batch and, before it, the bars of the first that the second has no bar for, every field as it was
  but the mark of a republished bar.
\<close>

theorem stored_bars_come_back:
  assumes "\<forall>b \<in> set (first_batch @ bars). be_timeframe b = tf"
    "key = (''bars/'' @ bar_timeframe_value tf, s, d)" "files key = None"
    "files1 = fst (parquet_write File_intact True files key (table_of (map (serialize_bar now) first_batch)) (dedup_key (fst key)) False)"
    "files2 = fst (parquet_write File_intact True files1 key (table_of (map (serialize_bar now') bars)) (dedup_key (fst key)) False)"
  shows "load_bar_events files2 s tf d d
    = Some (map (\<lambda>b. b\<lparr>be_is_pipeline_fallback := False\<rparr>) ([b \<leftarrow> first_batch. be_timestamp b \<notin> be_timestamp ` set bars] @ bars))"
proof -
  have k: "dedup_key (fst key) = Some ''timestamp''" by (simp add: assms(2) dedup_key_def is_bar_type_def)
  have "files1 key = Some (table_of (map (serialize_bar now) first_batch))"
    using assms(3) by (simp add: assms(4) parquet_write_def new_contents_def)
  then have "files2 key = Some (merge_tables (Some ''timestamp'') False (table_of (map (serialize_bar now) first_batch))
      (table_of (map (serialize_bar now') bars)))"
    unfolding assms(5) k by (simp add: parquet_write_def new_contents_def)
  then have "parquet_read_range files2 (''bars/'' @ bar_timeframe_value tf) s d d
    = map (serialize_bar now) [b \<leftarrow> first_batch. be_timestamp b \<notin> be_timestamp ` set bars] @ map (serialize_bar now') bars"
    by (simp add: parquet_read_range_def assms(2) merged_bar_rows)
  then have "load_bar_events files2 s tf d d
    = those (map (\<lambda>(n, b). row_to_bar_event tf (serialize_bar n b))
        (map (Pair now) [b \<leftarrow> first_batch. be_timestamp b \<notin> be_timestamp ` set bars] @ map (Pair now') bars))"
    by (simp add: load_bar_events_def comp_def)
  also have "\<dots> = Some (map (\<lambda>(n, b). b\<lparr>be_is_pipeline_fallback := False\<rparr>)
        (map (Pair now) [b \<leftarrow> first_batch. be_timestamp b \<notin> be_timestamp ` set bars] @ map (Pair now') bars))"
    by (rule those_map_Some) (use assms(1) in \<open>auto simp: row_to_bar_serialize_bar\<close>)
  finally show ?thesis by (simp add: comp_def)
qed

lemma stored_bars_come_back_witness:
  "load_bar_events
     (fst (parquet_write File_intact True
        (fst (parquet_write File_intact True Map.empty (''bars/1m'', ''MNQ'', 0)
          (table_of (map (serialize_bar 1) [sample_ohlc TF_M1 0 1 2 0 1, sample_ohlc TF_M1 60000000 1 2 0 1])) (dedup_key ''bars/1m'') False))
        (''bars/1m'', ''MNQ'', 0) (table_of (map (serialize_bar 2) [sample_ohlc TF_M1 60000000 1 3 0 2])) (dedup_key ''bars/1m'') False))
     ''MNQ'' TF_M1 0 0
   = Some [sample_ohlc TF_M1 0 1 2 0 1, sample_ohlc TF_M1 60000000 1 3 0 2]"
  by (subst stored_bars_come_back [where key = "(''bars/1m'', ''MNQ'', 0)"
        and first_batch = "[sample_ohlc TF_M1 0 1 2 0 1, sample_ohlc TF_M1 60000000 1 2 0 1]"
        and bars = "[sample_ohlc TF_M1 60000000 1 3 0 2]"]) (simp_all add: sample_ohlc_def)

text \<open>
  Rows of one batch are not compared with each other: a bar and its republished copy that are flushed together
  are both stored.
\<close>

lemma copies_of_one_batch_stay:
  assumes "be_timeframe b = tf" "key = (''bars/'' @ bar_timeframe_value tf, s, d)" "files key = None"
  shows "load_bar_events
      (fst (parquet_write File_intact True files key
         (table_of (map (serialize_bar now) [b, b\<lparr>be_is_pipeline_fallback := True\<rparr>])) (dedup_key (fst key)) False)) s tf d d
    = Some [b\<lparr>be_is_pipeline_fallback := False\<rparr>, b\<lparr>be_is_pipeline_fallback := False\<rparr>]"
  using assms
  by (simp add: load_bar_events_def parquet_read_range_def parquet_write_def new_contents_def table_of_def row_to_bar_serialize_bar)

text \<open>Replayed setup events are stored like live ones; only replayed bars are skipped.\<close>

lemma replayed_setups_are_stored:
  "length (se_queue e) < WRITE_QUEUE_SIZE \<Longrightarrow> se_queue (storage_on_event (Setup_ev su m) e) = se_queue e @ [Setup_ev su m]"
  by (simp add: storage_on_event_def)


section \<open>Nothing is lost in serial writes\<close>

definition rows_of :: "(storage_key \<times> row list) list \<Rightarrow> storage_key \<Rightarrow> row list" where
  "rows_of bufs k = (case map_of bufs k of None \<Rightarrow> [] | Some rows \<Rightarrow> rows)"

definition file_rows :: "parquet_files \<Rightarrow> storage_key \<Rightarrow> row list" where
  "file_rows files k = (case files k of None \<Rightarrow> [] | Some t \<Rightarrow> tb_rows t)"

text \<open>The row that a step takes from the queue into a buffer.\<close>

fun kept_rows :: "storage_engine \<Rightarrow> storage_cmd \<Rightarrow> storage_key \<Rightarrow> row list" where
  "kept_rows e (Writer_takes now) k =
     (case se_queue e of
        [] \<Rightarrow> []
      | ev # _ \<Rightarrow>
          (case (data_type_for ev, serialize_event now ev) of
             (Some ty, Some r) \<Rightarrow> if \<not> is_live_quote ev \<and> (ty, storage_place ev) = k then [r] else []
           | _ \<Rightarrow> []))"
| "kept_rows e _ k = []"

fun rows_kept :: "storage_engine \<Rightarrow> storage_cmd list \<Rightarrow> storage_key \<Rightarrow> row list" where
  "rows_kept e [] k = []"
| "rows_kept e (c # cs) k = kept_rows e c k @ rows_kept (storage_step e c) cs k"

text \<open>A serial run: no flush starts while another is under way, and the disk works.\<close>

fun serial_cmd :: "storage_engine \<Rightarrow> storage_cmd \<Rightarrow> bool" where
  "serial_cmd e (Flush_due now) = (se_jobs e = [])"
| "serial_cmd e (Flush_all now) = (se_jobs e = [])"
| "serial_cmd e (Write_begins i dr) = (dr = File_intact)"
| "serial_cmd e (Write_ends i ok) = ok"
| "serial_cmd e _ = True"

fun serial_run :: "storage_engine \<Rightarrow> storage_cmd list \<Rightarrow> bool" where
  "serial_run e [] = True"
| "serial_run e (c # cs) = (serial_cmd e c \<and> serial_run (storage_step e c) cs)"

definition job_rows :: "write_job list \<Rightarrow> storage_key \<Rightarrow> row list" where
  "job_rows js k = (case js of [] \<Rightarrow> [] | j # _ \<Rightarrow> rows_of (wj_pending j) k)"

fun disk_of :: "write_job list \<Rightarrow> parquet_files \<Rightarrow> storage_key \<Rightarrow> row list" where
  "disk_of [] files k = file_rows files k"
| "disk_of (j # js) files k =
     (case wj_running j of None \<Rightarrow> file_rows files k | Some (k', t) \<Rightarrow> if k' = k then tb_rows t else file_rows files k)"

definition disk_rows :: "storage_engine \<Rightarrow> storage_key \<Rightarrow> row list" where
  "disk_rows e k = disk_of (se_jobs e) (se_files e) k"

definition all_rows :: "storage_engine \<Rightarrow> storage_key \<Rightarrow> row list" where
  "all_rows e k = disk_rows e k @ job_rows (se_jobs e) k @ rows_of (se_buffers e) k"

definition storage_ok :: "storage_engine \<Rightarrow> bool" where
  "storage_ok e \<longleftrightarrow> length (se_jobs e) \<le> 1 \<and> distinct (map fst (se_buffers e))
     \<and> (\<forall>j \<in> set (se_jobs e). distinct (map fst (wj_pending j)))"

lemma rows_of_update: "rows_of (AList.update k rows bufs) k' = (if k' = k then rows else rows_of bufs k')"
  by (simp add: rows_of_def update_conv')

lemma rows_of_buffer_row: "rows_of (buffer_row k r bufs) k' = rows_of bufs k' @ (if k' = k then [r] else [])"
  by (simp add: buffer_row_def rows_of_update) (simp add: rows_of_def)

lemma rows_of_absent: "k \<notin> fst ` set bufs \<Longrightarrow> rows_of bufs k = []"
  by (simp add: rows_of_def map_of_eq_None_iff [THEN iffD2])

lemma rows_of_filter:
  "distinct (map fst bufs) \<Longrightarrow> rows_of (filter P bufs) k @ rows_of (filter (\<lambda>p. \<not> P p) bufs) k = rows_of bufs k"
proof (induction bufs)
  case (Cons p bufs)
  have "rows_of (filter Q bufs) (fst p) = []" for Q
    using Cons.prems by (intro rows_of_absent) auto
  with Cons show ?case by (cases p) (auto simp: rows_of_def)
qed (simp add: rows_of_def)

lemma flush_due_keeps:
  assumes "storage_ok e" "se_jobs e = []"
  shows "storage_ok (flush_due now e) \<and> all_rows (flush_due now e) k = all_rows e k"
  using assms rows_of_filter [of "se_buffers e" "is_due now e" k]
  by (auto simp: flush_due_def Let_def start_job_def storage_ok_def all_rows_def disk_rows_def job_rows_def
      distinct_map_filter)

lemma flush_all_keeps:
  assumes "storage_ok e" "se_jobs e = []"
  shows "storage_ok (flush_all now e) \<and> all_rows (flush_all now e) k = all_rows e k"
  using assms
  by (auto simp: flush_all_def start_job_def storage_ok_def all_rows_def disk_rows_def job_rows_def rows_of_def)

lemma writer_step_keeps:
  assumes "storage_ok e"
  shows "storage_ok (writer_step now e) \<and> all_rows (writer_step now e) k = all_rows e k @ kept_rows e (Writer_takes now) k"
proof (cases "se_queue e")
  case Nil
  with assms show ?thesis by (simp add: writer_step_def)
next
  case (Cons ev rest)
  have d: "distinct (map fst (buffer_row k r (se_buffers e)))" for k r
    using assms by (simp add: buffer_row_def distinct_update storage_ok_def)
  show ?thesis
  proof (cases "is_live_quote ev \<or> data_type_for ev = None \<or> serialize_event now ev = None")
    case True
    with Cons assms show ?thesis
      by (auto simp: writer_step_def Let_def buffer_event_def storage_ok_def all_rows_def disk_rows_def split: option.split)
  next
    case False
    then obtain ty r where "data_type_for ev = Some ty" "serialize_event now ev = Some r" by auto
    with False Cons assms d show ?thesis
      by (simp add: writer_step_def Let_def buffer_event_def storage_ok_def all_rows_def disk_rows_def rows_of_buffer_row)
  qed
qed

text \<open>A write without deduplication appends.\<close>

lemma appended_contents:
  "dedup_key (fst k) = None \<Longrightarrow> tb_rows (new_contents File_intact files k (table_of rows) (dedup_key (fst k)) p) = file_rows files k @ rows"
  by (simp add: new_contents_def merge_tables_def Let_def concat_tables_def remaining_rows_def incoming_rows_def file_rows_def
      table_of_def split: option.split)

lemma write_begin_keeps:
  assumes "storage_ok e" "dedup_key (fst k) = None"
  shows "storage_ok (write_begin i File_intact e) \<and> all_rows (write_begin i File_intact e) k = all_rows e k"
proof (cases "i < length (se_jobs e) \<and> wj_running (se_jobs e ! i) = None")
  case True
  with assms(1) obtain j where j: "se_jobs e = [j]" "i = 0" by (cases "se_jobs e") (auto simp: storage_ok_def)
  with True have run: "wj_running j = None" by simp
  show ?thesis
  proof (cases "wj_pending j")
    case Nil
    with j run assms(1) show ?thesis
      by (simp add: write_begin_def Let_def storage_ok_def all_rows_def disk_rows_def job_rows_def rows_of_def)
  next
    case (Cons p rest)
    obtain k' rows where p: "p = (k', rows)" by fastforce
    have d: "k' \<notin> fst ` set rest" "distinct (map fst rest)" using assms(1) j Cons p by (auto simp: storage_ok_def)
    then have none: "rows_of rest k' = []" by (simp add: rows_of_absent)
    show ?thesis
    proof (cases "rows = []")
      case True
      with j run assms(1) Cons p d none show ?thesis
        by (auto simp: write_begin_def Let_def storage_ok_def all_rows_def disk_rows_def job_rows_def rows_of_def)
    next
      case False
      with j run assms(1) Cons p d none appended_contents [OF assms(2), of "se_files e" rows "fst k = ''trades''"]
      show ?thesis
        by (auto simp: write_begin_def Let_def storage_ok_def all_rows_def disk_rows_def job_rows_def rows_of_def discards_def)
    qed
  qed
next
  case False
  then have "write_begin i File_intact e = e" unfolding write_begin_def by (simp only: if_False)
  with assms show ?thesis by simp
qed

lemma write_end_keeps:
  assumes "storage_ok e"
  shows "storage_ok (write_end i True e) \<and> all_rows (write_end i True e) k = all_rows e k"
proof (cases "i < length (se_jobs e)")
  case True
  with assms obtain j where "se_jobs e = [j]" "i = 0" by (cases "se_jobs e") (auto simp: storage_ok_def)
  with assms show ?thesis
    by (auto simp: write_end_def storage_ok_def all_rows_def disk_rows_def job_rows_def file_rows_def split: option.split)
qed (use assms in \<open>simp add: write_end_def\<close>)

lemma enqueue_keeps:
  "storage_ok e \<Longrightarrow> storage_ok (enqueue ev e) \<and> all_rows (enqueue ev e) k = all_rows e k"
  by (simp add: enqueue_def storage_ok_def all_rows_def disk_rows_def)

lemma storage_on_event_enqueues: "storage_on_event ev e = e \<or> storage_on_event ev e = enqueue ev e"
  by (cases ev) (simp_all add: storage_on_event_def enqueue_def)

lemma storage_step_keeps:
  assumes "storage_ok e" "serial_cmd e c" "dedup_key (fst k) = None"
  shows "storage_ok (storage_step e c) \<and> all_rows (storage_step e c) k = all_rows e k @ kept_rows e c k"
proof (cases c)
  case (Bus_event ev)
  with assms enqueue_keeps [of e ev k] storage_on_event_enqueues [of ev e] show ?thesis by auto
next
  case (Writer_takes now)
  with writer_step_keeps [OF assms(1), of now k] show ?thesis by simp
qed (use assms enqueue_keeps [of e _ k] flush_due_keeps [of e] flush_all_keeps [of e] write_begin_keeps [of e k] write_end_keeps [of e] in simp_all)

lemma serial_run_keeps:
  "storage_ok e \<Longrightarrow> serial_run e cs \<Longrightarrow> dedup_key (fst k) = None \<Longrightarrow>
   storage_ok (foldl storage_step e cs) \<and> all_rows (foldl storage_step e cs) k = all_rows e k @ rows_kept e cs k"
proof (induction cs arbitrary: e)
  case (Cons c cs)
  from storage_step_keeps [of e c k] Cons.prems have
    s: "storage_ok (storage_step e c)" "all_rows (storage_step e c) k = all_rows e k @ kept_rows e c k" by simp_all
  from Cons.IH [OF s(1)] Cons.prems s(2) show ?case by simp
qed simp

text \<open>
  C21. Storage loses no event that it keeps: whatever the order of saves, bus events, flushes and
  writes, as long as flushes do not overlap and the disk works, when buffers and writes are done
  the file of a partition without a deduplication key holds what it held, and then the row of every event taken
  from the queue that belongs there, once and in order, but for live quotes, which the writer discards.
\<close>

theorem serial_storage_keeps_rows:
  assumes "serial_run (storage_new files) cs" "dedup_key (fst k) = None"
    "e = foldl storage_step (storage_new files) cs" "se_jobs e = []" "se_buffers e = []"
  shows "file_rows (se_files e) k = file_rows files k @ rows_kept (storage_new files) cs k"
proof -
  have "storage_ok (storage_new files)" by (simp add: storage_new_def storage_ok_def)
  from serial_run_keeps [OF this assms(1,2)] assms(3-5) show ?thesis
    by (simp add: all_rows_def disk_rows_def job_rows_def rows_of_def storage_new_def)
qed

definition sample_system_event :: storage_event where
  "sample_system_event =
     System_ev \<lparr>ye_symbol = ''*'', ye_timestamp = 0, ye_metadata = sample_metadata, ye_event_name = ''session_open'', ye_payload = []\<rparr>"

lemma serial_storage_keeps_rows_witness:
  "file_rows (se_files (foldl storage_step (storage_new Map.empty)
       [Save_event sample_system_event, Writer_takes 5, Flush_all 6, Write_begins 0 File_intact, Write_ends 0 True, Write_begins 0 File_intact]))
     (''system'', ''__system__'', 0) = [the (serialize_event 5 sample_system_event)]"
proof -
  let ?cs = "[Save_event sample_system_event, Writer_takes 5, Flush_all 6, Write_begins 0 File_intact, Write_ends 0 True, Write_begins 0 File_intact]"
  note defs = storage_new_def enqueue_def WRITE_QUEUE_SIZE_def writer_step_def buffer_event_def buffer_row_def flush_all_def start_job_def
    write_begin_def write_end_def sample_system_event_def is_live_quote_def date_of_def DAY_def HOUR_def MINUTE_def discards_def
  have "serial_run (storage_new Map.empty) ?cs" by (simp add: defs)
  moreover have "se_jobs (foldl storage_step (storage_new Map.empty) ?cs) = []" "se_buffers (foldl storage_step (storage_new Map.empty) ?cs) = []"
    by (simp_all add: defs)
  ultimately have "file_rows (se_files (foldl storage_step (storage_new Map.empty) ?cs)) (''system'', ''__system__'', 0)
    = file_rows Map.empty (''system'', ''__system__'', 0) @ rows_kept (storage_new Map.empty) ?cs (''system'', ''__system__'', 0)"
    by (intro serial_storage_keeps_rows [OF _ _ refl]) (simp_all add: dedup_key_def is_bar_type_def)
  also have "\<dots> = [the (serialize_event 5 sample_system_event)]" by (simp add: defs file_rows_def)
  finally show ?thesis .
qed

text \<open>
  C38. Flushes that overlap lose rows: when \<open>flush\<close> and the flush loop write the same partition at once, both read
  the file before either replaces it, and the rows of the one that replaces it first are gone.
\<close>

theorem overlapping_flushes_lose_rows:
  assumes "se_jobs e = [\<lparr>wj_flushed_at = t1, wj_pending = [(k, a)], wj_running = None\<rparr>, \<lparr>wj_flushed_at = t2, wj_pending = [(k, b)], wj_running = None\<rparr>]"
    "dedup_key (fst k) = None" "a \<noteq> []" "b \<noteq> []"
  shows "file_rows (se_files (foldl storage_step e
      [Write_begins 0 File_intact, Write_begins 1 File_intact, Write_ends 0 True, Write_ends 1 True])) k
    = file_rows (se_files e) k @ b"
  using assms appended_contents [OF assms(2), of "se_files e" b]
  by (simp add: write_begin_def write_end_def Let_def discards_def file_rows_def)

lemma overlapping_flushes_lose_rows_witness:
  "file_rows (se_files (foldl storage_step
      ((storage_new Map.empty)\<lparr>se_jobs := [\<lparr>wj_flushed_at = 1, wj_pending = [((''quotes'', ''MNQ'', 0), [[(''a'', Num 1)]])], wj_running = None\<rparr>,
         \<lparr>wj_flushed_at = 2, wj_pending = [((''quotes'', ''MNQ'', 0), [[(''a'', Num 2)]])], wj_running = None\<rparr>]\<rparr>)
      [Write_begins 0 File_intact, Write_begins 1 File_intact, Write_ends 0 True, Write_ends 1 True])) (''quotes'', ''MNQ'', 0)
    = [[(''a'', Num 2)]]"
  by (subst overlapping_flushes_lose_rows [where k = "(''quotes'', ''MNQ'', 0)" and a = "[[(''a'', Num 1)]]" and b = "[[(''a'', Num 2)]]"])
    (simp_all add: storage_new_def dedup_key_def is_bar_type_def file_rows_def)

end
