(* ===== verification/Catchup.thy ===== *)
theory Catchup
  imports Registry Profile_Store
begin

text \<open>
  The warm-up at start: the fetches of \<^verbatim>\<open>engines/historical/engine.py\<close> and the catch-up service of
  \<^verbatim>\<open>engines/bootstrap/catchup.py\<close>. The vendor's replies are a parameter: a list of bars, or the
  exception the fetch ends with. So are the stored bars that the storage engine loads. What the service does to
  storage and to the bus is a list of actions in order; the profiles are the files of \<open>Profile_Store\<close>. Bar timestamps
  are in UTC, so \<open>replace\<close> of minute and second is arithmetic on them.
\<close>

section \<open>Historical engine\<close>

record gap_record =
  gp_symbol :: string
  gp_start :: timestamp
  gp_end :: timestamp

record historical_engine =
  he_gaps :: "gap_record list"
  he_bars_emitted :: nat
  he_max_gap_seconds :: int

type_synonym fetch_error = string

definition SECOND :: timestamp where "SECOND = 10 ^ 6"

definition validate_bar_event :: "bar_event \<Rightarrow> timestamp option \<Rightarrow> historical_engine \<Rightarrow> historical_engine" where
  "validate_bar_event ev prev h =
     (case prev of
        None \<Rightarrow> h
      | Some p \<Rightarrow>
          if be_timestamp ev - p > he_max_gap_seconds h * SECOND
          then h\<lparr>he_gaps := he_gaps h @ [\<lparr>gp_symbol = be_symbol ev, gp_start = p, gp_end = be_timestamp ev\<rparr>]\<rparr>
          else h)"

fun fetch_loop ::
  "bool \<Rightarrow> timestamp option \<Rightarrow> bar_event list \<Rightarrow> historical_engine \<Rightarrow> historical_engine \<times> bar_event list \<times> bar_event list" where
  "fetch_loop emit prev [] h = (h, [], [])"
| "fetch_loop emit prev (ev # evs) h =
     (let h = validate_bar_event ev prev h;
          h = (if emit then h\<lparr>he_bars_emitted := he_bars_emitted h + 1\<rparr> else h)
      in case fetch_loop emit (Some (be_timestamp ev)) evs h of
           (h, events, published) \<Rightarrow> (h, ev # events, if emit then ev # published else published))"

text \<open>
  A source yields events and may end with an exception; then the caller gets that, not the events.
  An empty source name means the primary source, as no name does.
\<close>

type_synonym 'e reply = "'e list \<times> fetch_error option"

definition source_reply :: "(string \<rightharpoonup> 'e reply) \<Rightarrow> string \<Rightarrow> string option \<Rightarrow> 'e reply option" where
  "source_reply sources primary source_id =
     sources (case source_id of None \<Rightarrow> primary | Some sid \<Rightarrow> if sid = [] then primary else sid)"

definition no_source :: fetch_error where "no_source = ''No source available''"

definition delivered :: "'e reply \<Rightarrow> fetch_error + 'e list" where
  "delivered reply = (case snd reply of None \<Rightarrow> Inr (fst reply) | Some e \<Rightarrow> Inl e)"

definition fetch_bars ::
  "(string \<rightharpoonup> bar_event reply) \<Rightarrow> string \<Rightarrow> string option \<Rightarrow> bool \<Rightarrow> historical_engine \<Rightarrow>
   historical_engine \<times> bar_event list \<times> (fetch_error + bar_event list)" where
  "fetch_bars sources primary source_id emit h =
     (case source_reply sources primary source_id of
        None \<Rightarrow> (h, [], Inl no_source)
      | Some reply \<Rightarrow>
          (case fetch_loop emit None (fst reply) h of
             (h, events, published) \<Rightarrow> (h, published, delivered (events, snd reply))))"

text \<open>\<open>fetch_trades\<close> and \<open>fetch_quotes\<close> have the same body; the events published come first.\<close>

definition fetch_ticks ::
  "(string \<rightharpoonup> 'e reply) \<Rightarrow> string \<Rightarrow> string option \<Rightarrow> bool \<Rightarrow> 'e list \<times> (fetch_error + 'e list)" where
  "fetch_ticks sources primary source_id emit =
     (case source_reply sources primary source_id of
        None \<Rightarrow> ([], Inl no_source)
      | Some reply \<Rightarrow> (if emit then fst reply else [], delivered reply))"

text \<open>The flag beside a reply tells whether the source has the method at all.\<close>

definition fetch_quotes_rows ::
  "(string \<rightharpoonup> bool \<times> 'r reply) \<Rightarrow> string \<Rightarrow> string option \<Rightarrow> fetch_error + 'r list" where
  "fetch_quotes_rows sources primary source_id =
     (case sources (case source_id of None \<Rightarrow> primary | Some sid \<Rightarrow> if sid = [] then primary else sid) of
        None \<Rightarrow> Inl no_source
      | Some (supported, reply) \<Rightarrow> if supported then delivered reply else Inl ''does not support fetch_quotes_rows'')"

section \<open>Timeframes and resampling\<close>

text \<open>A timeframe that is not in the table is a \<open>KeyError\<close>.\<close>

fun timeframe_delta :: "bar_timeframe \<Rightarrow> timestamp option" where
  "timeframe_delta TF_M1 = Some MINUTE"
| "timeframe_delta TF_M5 = Some (5 * MINUTE)"
| "timeframe_delta TF_H1 = Some HOUR"
| "timeframe_delta TF_D1 = Some DAY"
| "timeframe_delta _ = None"

definition force_replay :: "bar_event \<Rightarrow> bar_event" where
  "force_replay b =
     (if em_is_replay (be_metadata b) then b else b\<lparr>be_metadata := (be_metadata b)\<lparr>em_is_replay := True\<rparr>\<rparr>)"

definition m5_bucket :: "timestamp \<Rightarrow> timestamp" where
  "m5_bucket t = t - t mod (5 * MINUTE)"

definition max_by :: "('a \<Rightarrow> 'b::linorder) \<Rightarrow> 'a list \<Rightarrow> 'b" where
  "max_by f xs = fold (\<lambda>x m. max m (f x)) (tl xs) (f (hd xs))"

definition min_by :: "('a \<Rightarrow> 'b::linorder) \<Rightarrow> 'a list \<Rightarrow> 'b" where
  "min_by f xs = fold (\<lambda>x m. min m (f x)) (tl xs) (f (hd xs))"

text \<open>\<open>new_id\<close> is the identifier drawn for the bar of a bucket.\<close>

definition m5_bar :: "(timestamp \<Rightarrow> uuid) \<Rightarrow> timestamp \<Rightarrow> bar_event list \<Rightarrow> bar_event" where
  "m5_bar new_id bucket bars =
     \<lparr>be_symbol = be_symbol (hd bars), be_timestamp = bucket,
      be_metadata =
        \<lparr>em_event_id = new_id bucket, em_source = em_source (be_metadata (hd bars)),
         em_received_at = em_received_at (be_metadata (hd bars)), em_is_replay = True, em_sequence_num = None\<rparr>,
      be_timeframe = TF_M5, be_open = be_open (hd bars), be_high = max_by be_high bars, be_low = min_by be_low bars,
      be_close = be_close (last bars), be_volume = (\<Sum>b\<leftarrow>bars. be_volume b), be_vwap = None, be_trade_count = None,
      be_is_partial = False, be_is_pipeline_fallback = False\<rparr>"

definition m5_group :: "bar_event list \<Rightarrow> timestamp \<Rightarrow> bar_event list" where
  "m5_group m1_bars bucket = sort_key be_timestamp [b \<leftarrow> m1_bars. m5_bucket (be_timestamp b) = bucket]"

definition m5_buckets :: "bar_event list \<Rightarrow> timestamp list" where
  "m5_buckets m1_bars = sort (remdups (map (m5_bucket \<circ> be_timestamp) m1_bars))"

definition resample_m5 :: "(timestamp \<Rightarrow> uuid) \<Rightarrow> bar_event list \<Rightarrow> bar_event list" where
  "resample_m5 new_id m1_bars = map (\<lambda>k. m5_bar new_id k (m5_group m1_bars k)) (m5_buckets m1_bars)"

section \<open>Missing ranges\<close>

type_synonym time_range = "timestamp \<times> timestamp"

definition trading_days :: "(date \<Rightarrow> bool) \<Rightarrow> date \<Rightarrow> date \<Rightarrow> date list" where
  "trading_days trading first_day last_day = filter trading [first_day..last_day]"

text \<open>Whether the hole between two neighbouring bars is one the market explains.\<close>

definition closed_between ::
  "session_calendar \<Rightarrow> (date \<Rightarrow> bool) \<Rightarrow> bar_timeframe \<Rightarrow> timestamp \<Rightarrow> timestamp \<Rightarrow> bool" where
  "closed_between cal trading tf l r \<longleftrightarrow>
     (if tf = TF_D1 then trading_days trading (sc_session_date cal l + 1) (sc_session_date cal r - 1) = []
      else if tf = TF_H1 then session_key cal l \<noteq> session_key cal r
      else False)"

fun inner_gaps ::
  "session_calendar \<Rightarrow> (date \<Rightarrow> bool) \<Rightarrow> bar_timeframe \<Rightarrow> timestamp \<Rightarrow> timestamp list \<Rightarrow> time_range list" where
  "inner_gaps cal trading tf step (l # r # ts) =
     (if r > l + step \<and> \<not> closed_between cal trading tf l r then [(l + step, r - step)] else [])
     @ inner_gaps cal trading tf step (r # ts)"
| "inner_gaps cal trading tf step _ = []"

definition ranges_missing ::
  "session_calendar \<Rightarrow> (date \<Rightarrow> bool) \<Rightarrow> bar_timeframe \<Rightarrow> timestamp \<Rightarrow> timestamp list \<Rightarrow> timestamp \<Rightarrow> timestamp \<Rightarrow>
   time_range list" where
  "ranges_missing cal trading tf step stored start_t end_t =
     (let relevant = sort [t \<leftarrow> stored. start_t \<le> t \<and> t \<le> end_t]
      in if relevant = [] then [(start_t, end_t)]
         else
           [g \<leftarrow> (if hd relevant > start_t then [(start_t, hd relevant - step)] else [])
                 @ inner_gaps cal trading tf step relevant
                 @ (if last relevant < end_t then [(last relevant + step, end_t)] else []).
              fst g \<le> snd g])"

record catchup_env =
  cv_registry :: symbol_registry
  cv_nyse :: session_calendar
  cv_cme :: session_calendar
  cv_trading :: "asset_class \<Rightarrow> date \<Rightarrow> bool"
  cv_zone :: zone
  cv_new_id :: "timestamp \<Rightarrow> uuid"
  cv_fetch :: "string \<Rightarrow> bar_timeframe \<Rightarrow> time_range \<Rightarrow> fetch_error + bar_event list"
  cv_load :: "string \<Rightarrow> bar_timeframe \<Rightarrow> date \<Rightarrow> date \<Rightarrow> bar_event list"
  cv_minute1_warmup_bars :: int
  cv_hourly_warmup_bars :: int
  cv_daily_warmup_bars :: int

datatype catchup_error =
  Unknown_symbol string
| Unknown_timeframe bar_timeframe
| Fetch_failed fetch_error
| Profile_failed profile_error

definition missing_ranges ::
  "catchup_env \<Rightarrow> string \<Rightarrow> bar_event list \<Rightarrow> timestamp \<Rightarrow> timestamp \<Rightarrow> bar_timeframe \<Rightarrow> catchup_error + time_range list" where
  "missing_ranges v s stored start_t end_t tf =
     (case timeframe_delta tf of
        None \<Rightarrow> Inl (Unknown_timeframe tf)
      | Some step \<Rightarrow>
          (case registry_get (cv_registry v) s of
             Inl _ \<Rightarrow> Inl (Unknown_symbol s)
           | Inr sy \<Rightarrow>
               Inr (ranges_missing (calendar_for_symbol (cv_nyse v) (cv_cme v) (sy_asset_class sy))
                      (cv_trading v (sy_asset_class sy)) tf step (map be_timestamp stored) start_t end_t)))"

section \<open>Load or fetch\<close>

fun fetch_ranges ::
  "(time_range \<Rightarrow> fetch_error + bar_event list) \<Rightarrow> time_range list \<Rightarrow> bar_event list \<times> fetch_error option" where
  "fetch_ranges fetch [] = ([], None)"
| "fetch_ranges fetch (g # gs) =
     (case fetch g of
        Inl e \<Rightarrow> ([], Some e)
      | Inr bars \<Rightarrow> (case fetch_ranges fetch gs of (later, e) \<Rightarrow> (bars @ later, e)))"

definition merge_by_timestamp :: "bar_event list \<Rightarrow> bar_event list \<Rightarrow> bar_event list" where
  "merge_by_timestamp stored fetched =
     sort_key be_timestamp (map snd (fold (\<lambda>b m. AList.update (be_timestamp b) b m) (stored @ fetched) []))"

text \<open>The bars saved on the way, and the result.\<close>

definition load_or_fetch_bars ::
  "catchup_env \<Rightarrow> string \<Rightarrow> bar_timeframe \<Rightarrow> timestamp \<Rightarrow> timestamp \<Rightarrow> bar_event list \<times> (catchup_error + bar_event list)" where
  "load_or_fetch_bars v s tf start_t end_t =
     (let stored = [b \<leftarrow> cv_load v s tf (date_of start_t) (date_of end_t). start_t \<le> be_timestamp b \<and> be_timestamp b \<le> end_t]
      in case missing_ranges v s stored start_t end_t tf of
           Inl e \<Rightarrow> ([], Inl e)
         | Inr gaps \<Rightarrow>
             (case fetch_ranges (cv_fetch v s tf) gaps of
                (fetched, Some e) \<Rightarrow> (fetched, Inl (Fetch_failed e))
              | (fetched, None) \<Rightarrow> (fetched, Inr (merge_by_timestamp stored fetched))))"

section \<open>Profiles at start\<close>

definition et_date :: "zone \<Rightarrow> bar_event \<Rightarrow> date" where
  "et_date z b = date_of (zn_to_et z (be_timestamp b))"

definition bars_on :: "zone \<Rightarrow> bar_event list \<Rightarrow> date \<Rightarrow> bar_event list" where
  "bars_on z m1_bars d = [b \<leftarrow> m1_bars. et_date z b = d]"

definition startup_rth ::
  "zone \<Rightarrow> string \<Rightarrow> bar_event list \<Rightarrow> date \<Rightarrow> profile_store \<Rightarrow> (profile_error option \<times> profile_store) option" where
  "startup_rth z s m1_bars d files =
     (let rth_bars = [b \<leftarrow> bars_on z m1_bars d. in_window z (rth_window d) (be_timestamp b)];
          is_sealed = list_ex (\<lambda>b. at_time d 15 55 \<le> zn_to_et z (be_timestamp b)) rth_bars
      in if files (profile_path s d ''rth'') = None \<and> rth_bars \<noteq> [] \<and> is_sealed
         then save_from_bars default_builder s d ''rth'' (map snapshot_bar rth_bars) files
         else Some (None, files))"

definition startup_globex ::
  "zone \<Rightarrow> string \<Rightarrow> bar_event list \<Rightarrow> date \<Rightarrow> profile_store \<Rightarrow> (profile_error option \<times> profile_store) option" where
  "startup_globex z s m1_bars d files =
     (let overnight = [b \<leftarrow> bars_on z m1_bars (d - 1) @ bars_on z m1_bars d. in_window z (globex_window d) (be_timestamp b)];
          has_prior_evening = list_ex (\<lambda>b. zn_to_et z (be_timestamp b) < at_time d 0 0) overnight
      in if files (profile_path s d ''globex'') = None \<and> overnight \<noteq> [] \<and> has_prior_evening
         then save_from_bars default_builder s d ''globex'' (map snapshot_bar overnight) files
         else Some (None, files))"

fun build_vp_days ::
  "zone \<Rightarrow> string \<Rightarrow> bar_event list \<Rightarrow> date list \<Rightarrow> profile_store \<Rightarrow> (profile_error option \<times> profile_store) option" where
  "build_vp_days z s m1_bars [] files = Some (None, files)"
| "build_vp_days z s m1_bars (d # ds) files =
     (case startup_rth z s m1_bars d files of
        None \<Rightarrow> None
      | Some (Some e, files) \<Rightarrow> Some (Some e, files)
      | Some (None, files) \<Rightarrow>
          (case startup_globex z s m1_bars d files of
             None \<Rightarrow> None
           | Some (Some e, files) \<Rightarrow> Some (Some e, files)
           | Some (None, files) \<Rightarrow> build_vp_days z s m1_bars ds files))"

definition build_vp_profiles ::
  "zone \<Rightarrow> string \<Rightarrow> bar_event list \<Rightarrow> profile_store \<Rightarrow> (profile_error option \<times> profile_store) option" where
  "build_vp_profiles z s m1_bars files = build_vp_days z s m1_bars (sort (remdups (map (et_date z) m1_bars))) files"

section \<open>The service\<close>

datatype catchup_action = Save_bar bar_event | Flush_storage | Publish_bar bar_event

record warm_bars =
  wm_minute_bars :: "bar_event list"
  wm_hourly_bars :: "bar_event list"
  wm_daily_bars :: "bar_event list"

text \<open>\<open>int(daily_warmup_bars * 1.5)\<close> truncates; the counts are not negative.\<close>

definition m1_start :: "catchup_env \<Rightarrow> timestamp \<Rightarrow> timestamp" where
  "m1_start v m1_end = m1_end - max 3 (cv_minute1_warmup_bars v div 390 + 1) * DAY"

definition h1_start :: "catchup_env \<Rightarrow> timestamp \<Rightarrow> timestamp" where
  "h1_start v h1_end = h1_end - max 60 (cv_hourly_warmup_bars v div 23 + 15) * DAY"

definition d1_start :: "catchup_env \<Rightarrow> asset_class \<Rightarrow> timestamp \<Rightarrow> timestamp" where
  "d1_start v ac d1_end =
     (let start_t = d1_end - int_trunc (of_int (cv_daily_warmup_bars v) * (3/2)) * DAY
      in if ac = Asset_FUTURE then max start_t (d1_end - 45 * DAY) else start_t)"

record catchup_run =
  cr_actions :: "catchup_action list"
  cr_files :: profile_store
  cr_result :: "catchup_error + (string \<times> warm_bars) list"

definition fail_run :: "catchup_action list \<Rightarrow> profile_store \<Rightarrow> catchup_error \<Rightarrow> catchup_run" where
  "fail_run acts files e = \<lparr>cr_actions = acts, cr_files = files, cr_result = Inl e\<rparr>"

text \<open>One symbol; \<open>None\<close> is a profile that is never finished. The symbols of a run are distinct.\<close>

definition catchup_symbol ::
  "catchup_env \<Rightarrow> timestamp \<times> timestamp \<times> timestamp \<Rightarrow> string \<Rightarrow> profile_store \<Rightarrow> catchup_run option" where
  "catchup_symbol v ends s files =
     (case ends of (m1_end, h1_end, d1_end) \<Rightarrow>
      case registry_get (cv_registry v) s of
        Inl _ \<Rightarrow> Some (fail_run [] files (Unknown_symbol s))
      | Inr sy \<Rightarrow>
      case cv_fetch v s TF_M1 (m1_start v m1_end, m1_end) of
        Inl e \<Rightarrow> Some (fail_run [] files (Fetch_failed e))
      | Inr m1_bars \<Rightarrow>
      let acts = map Save_bar m1_bars @ [Flush_storage] in
      case build_vp_profiles (cv_zone v) s m1_bars files of
        None \<Rightarrow> None
      | Some (Some e, files) \<Rightarrow> Some (fail_run acts files (Profile_failed e))
      | Some (None, files) \<Rightarrow>
      case load_or_fetch_bars v s TF_H1 (h1_start v h1_end) h1_end of
        (saved_h1, Inl e) \<Rightarrow> Some (fail_run (acts @ map Save_bar saved_h1) files e)
      | (saved_h1, Inr hourly) \<Rightarrow>
      case load_or_fetch_bars v s TF_D1 (d1_start v (sy_asset_class sy) d1_end) d1_end of
        (saved_d1, Inl e) \<Rightarrow> Some (fail_run (acts @ map Save_bar saved_h1 @ map Save_bar saved_d1) files e)
      | (saved_d1, Inr daily) \<Rightarrow>
      Some \<lparr>cr_actions =
              acts @ map Save_bar saved_h1 @ map Save_bar saved_d1
              @ map (Publish_bar \<circ> force_replay) (daily @ hourly @ resample_m5 (cv_new_id v) m1_bars @ m1_bars),
            cr_files = files,
            cr_result = Inr [(s, \<lparr>wm_minute_bars = m1_bars, wm_hourly_bars = hourly, wm_daily_bars = daily\<rparr>)]\<rparr>)"

fun catchup_run_all ::
  "catchup_env \<Rightarrow> timestamp \<times> timestamp \<times> timestamp \<Rightarrow> string list \<Rightarrow> profile_store \<Rightarrow> catchup_run option" where
  "catchup_run_all v ends [] files = Some \<lparr>cr_actions = [], cr_files = files, cr_result = Inr []\<rparr>"
| "catchup_run_all v ends (s # ss) files =
     (case catchup_symbol v ends s files of
        None \<Rightarrow> None
      | Some r \<Rightarrow>
          (case cr_result r of
             Inl e \<Rightarrow> Some r
           | Inr warm \<Rightarrow>
               (case catchup_run_all v ends ss (cr_files r) of
                  None \<Rightarrow> None
                | Some r' \<Rightarrow>
                    Some (r'\<lparr>cr_actions := cr_actions r @ cr_actions r',
                             cr_result := (case cr_result r' of Inl e \<Rightarrow> Inl e | Inr later \<Rightarrow> Inr (warm @ later))\<rparr>))))"


section \<open>Where bars are missing\<close>

lemma sort_key_Nil_iff [simp]: "sort_key f xs = [] \<longleftrightarrow> xs = []"
  by (metis length_0_conv length_sort)

definition far_from :: "timestamp \<Rightarrow> timestamp list \<Rightarrow> timestamp \<Rightarrow> bool" where
  "far_from step ts t \<longleftrightarrow> (\<forall>u \<in> set ts. step \<le> \<bar>t - u\<bar>)"

definition in_range :: "timestamp \<Rightarrow> time_range \<Rightarrow> bool" where
  "in_range t g \<longleftrightarrow> fst g \<le> t \<and> t \<le> snd g"

lemma far_from_simps [simp]: "far_from step [] t" "far_from step (u # us) t \<longleftrightarrow> step \<le> \<bar>t - u\<bar> \<and> far_from step us t"
  by (auto simp: far_from_def)

lemma far_before: "sorted (u # us) \<Longrightarrow> t \<le> u - step \<Longrightarrow> 0 < step \<Longrightarrow> far_from step (u # us) t"
  by (fastforce simp: far_from_def)

lemma ends_of_sorted:
  assumes "sorted ts" "ts \<noteq> []" "u \<in> set ts"
  shows "hd ts \<le> u" "u \<le> last ts"
proof -
  from assms show "hd ts \<le> u" by (cases ts) auto
  from assms have "sorted (butlast ts @ [last ts])" "u \<in> set (butlast ts @ [last ts])" by simp_all
  then show "u \<le> last ts" unfolding sorted_append by auto
qed

lemma inner_gaps_sound:
  assumes "sorted ts" "0 < step" "g \<in> set (inner_gaps cal trading tf step ts)" "in_range t g"
  shows "far_from step ts t \<and> hd ts < t \<and> t < last ts"
  using assms
proof (induction cal trading tf step ts rule: inner_gaps.induct)
  case (1 cal trading tf step l r ts)
  show ?case
  proof (cases "g \<in> set (inner_gaps cal trading tf step (r # ts))")
    case True
    have lr: "sorted (r # ts)" "l \<le> r" using 1(2) by simp_all
    from 1(1) [OF lr(1) 1(3) True 1(5)] have r: "far_from step (r # ts) t \<and> hd (r # ts) < t \<and> t < last (r # ts)" .
    then have "step \<le> \<bar>t - r\<bar>" "r < t" unfolding far_from_simps list.sel by blast+
    with lr(2) have "step \<le> \<bar>t - l\<bar>" "l < t" by linarith+
    with r show ?thesis unfolding far_from_simps list.sel last.simps by (auto simp del: abs_if)
  next
    case False
    with 1(4) have g: "g = (l + step, r - step)" "r > l + step" by (auto split: if_splits)
    with 1(5) have t: "l + step \<le> t" "t \<le> r - step" by (simp_all add: in_range_def)
    have "far_from step (r # ts) t" by (rule far_before) (use 1(2,3) t in auto)
    moreover have "r \<le> last (r # ts)" using ends_of_sorted(2) [of "r # ts" r] 1(2) by simp
    ultimately show ?thesis using t 1(3) by auto
  qed
qed simp_all

lemma inner_gaps_complete:
  assumes "sorted ts" "0 < step" "tf \<noteq> TF_H1" "tf \<noteq> TF_D1" "far_from step ts t" "ts \<noteq> []" "hd ts < t" "t < last ts"
  shows "\<exists>g \<in> set (inner_gaps cal trading tf step ts). in_range t g"
  using assms
proof (induction cal trading tf step ts rule: inner_gaps.induct)
  case (1 cal trading tf step l r ts)
  show ?case
  proof (cases "r < t")
    case True
    with 1 have "\<exists>g \<in> set (inner_gaps cal trading tf step (r # ts)). in_range t g" by (auto split: if_splits)
    then show ?thesis by auto
  next
    case False
    with 1(3,6,8) have "l + step \<le> t" "t \<le> r - step" by auto
    with 1(3,4,5) show ?thesis by (auto simp: in_range_def closed_between_def)
  qed
qed simp_all

lemma far_from_sort: "far_from step (sort ts) t = far_from step ts t"
  by (simp add: far_from_def)

text \<open>A range never asks for what is stored.\<close>

lemma ranges_missing_sound:
  assumes "0 < step" "g \<in> set (ranges_missing cal trading tf step stored start_t end_t)" "in_range t g"
  shows "start_t \<le> t \<and> t \<le> end_t \<and> far_from step [u \<leftarrow> stored. start_t \<le> u \<and> u \<le> end_t] t"
proof (cases "[u \<leftarrow> stored. start_t \<le> u \<and> u \<le> end_t] = []")
  case True
  with assms(2,3) show ?thesis by (auto simp: ranges_missing_def in_range_def Let_def)
next
  case False
  define ts where "ts = sort [u \<leftarrow> stored. start_t \<le> u \<and> u \<le> end_t]"
  have ts: "sorted ts" "ts \<noteq> []" "set ts \<subseteq> {start_t..end_t}" using False by (auto simp: ts_def)
  then have "hd ts \<in> set ts" "last ts \<in> set ts" by simp_all
  then have bounds: "start_t \<le> hd ts" "hd ts \<le> end_t" "start_t \<le> last ts" "last ts \<le> end_t" using ts(3) by auto
  consider "hd ts > start_t" "g = (start_t, hd ts - step)" | "g \<in> set (inner_gaps cal trading tf step ts)"
    | "last ts < end_t" "g = (last ts + step, end_t)"
    using assms(2) ts(2) unfolding ranges_missing_def Let_def ts_def [symmetric] by (auto split: if_splits)
  then have "start_t \<le> t \<and> t \<le> end_t \<and> far_from step ts t"
  proof cases
    case 1
    with assms(3) have t: "start_t \<le> t" "t \<le> hd ts - step" by (simp_all add: in_range_def)
    have "far_from step ts t" using far_before [of "hd ts" "tl ts" t step] ts t(2) assms(1) by simp
    with t bounds assms(1) show ?thesis by simp
  next
    case 2
    from inner_gaps_sound [OF ts(1) assms(1) 2 assms(3)] bounds show ?thesis by simp
  next
    case 3
    with assms(3) have t: "last ts + step \<le> t" "t \<le> end_t" by (simp_all add: in_range_def)
    have "far_from step ts t"
      unfolding far_from_def using ends_of_sorted(2) [OF ts(1,2)] t(1) assms(1) by fastforce
    with t bounds assms(1) show ?thesis by simp
  qed
  then show ?thesis by (simp add: ts_def far_from_sort)
qed

lemma ranges_missing_complete:
  assumes "0 < step" "tf \<noteq> TF_H1" "tf \<noteq> TF_D1" "start_t \<le> t" "t \<le> end_t"
    "far_from step [u \<leftarrow> stored. start_t \<le> u \<and> u \<le> end_t] t"
  shows "\<exists>g \<in> set (ranges_missing cal trading tf step stored start_t end_t). in_range t g"
proof (cases "[u \<leftarrow> stored. start_t \<le> u \<and> u \<le> end_t] = []")
  case True
  with assms(4,5) show ?thesis by (auto simp: ranges_missing_def in_range_def Let_def)
next
  case False
  define ts where "ts = sort [u \<leftarrow> stored. start_t \<le> u \<and> u \<le> end_t]"
  have ts: "sorted ts" "ts \<noteq> []" using False by (auto simp: ts_def)
  have far: "far_from step ts t" using assms(6) by (simp add: ts_def far_from_sort)
  have members: "hd ts \<in> set ts" "last ts \<in> set ts" using ts(2) by simp_all
  have ends: "step \<le> \<bar>t - hd ts\<bar>" "step \<le> \<bar>t - last ts\<bar>" using far members by (simp_all add: far_from_def)
  have le: "hd ts \<le> last ts" using ends_of_sorted(1) [OF ts members(2)] .
  have r: "ranges_missing cal trading tf step stored start_t end_t =
    [g \<leftarrow> (if hd ts > start_t then [(start_t, hd ts - step)] else []) @ inner_gaps cal trading tf step ts
        @ (if last ts < end_t then [(last ts + step, end_t)] else []). fst g \<le> snd g]"
    using ts(2) unfolding ranges_missing_def Let_def ts_def [symmetric] by simp
  consider "t < hd ts" | "last ts < t" | "hd ts < t" "t < last ts" using ends assms(1) by fastforce
  then show ?thesis
  proof cases
    case 1
    with ends(1) assms(4) have "in_range t (start_t, hd ts - step)" "start_t < hd ts" by (auto simp: in_range_def)
    with assms(4) show ?thesis unfolding r by (auto simp: in_range_def)
  next
    case 2
    with ends(2) assms(5) have "in_range t (last ts + step, end_t)" "last ts < end_t" by (auto simp: in_range_def)
    with assms(5) show ?thesis unfolding r by (auto simp: in_range_def)
  next
    case 3
    from inner_gaps_complete [OF ts(1) assms(1-3) far ts(2) 3] obtain g
      where "g \<in> set (inner_gaps cal trading tf step ts)" "in_range t g" ..
    then show ?thesis unfolding r by (auto simp: in_range_def)
  qed
qed

text \<open>
  C31. The gap search of the catch-up is exact for minute and five-minute bars: an instant of the window lies
  in a range to fetch exactly when no stored bar of the window is within one bar of it. Nothing
  that is stored is asked for again, and nothing that is missing is left out.
\<close>

theorem missing_ranges_are_exact:
  assumes "missing_ranges v s stored start_t end_t tf = Inr gaps" "tf = TF_M1 \<or> tf = TF_M5"
  shows "(\<exists>g \<in> set gaps. in_range t g) \<longleftrightarrow>
    start_t \<le> t \<and> t \<le> end_t
    \<and> (\<forall>b \<in> set stored. start_t \<le> be_timestamp b \<longrightarrow> be_timestamp b \<le> end_t \<longrightarrow> the (timeframe_delta tf) \<le> \<bar>t - be_timestamp b\<bar>)"
proof -
  have step: "timeframe_delta tf = Some (the (timeframe_delta tf))" "0 < the (timeframe_delta tf)" "tf \<noteq> TF_H1" "tf \<noteq> TF_D1"
    using assms(2) by (auto simp: MINUTE_def)
  obtain cal trading where gaps: "gaps = ranges_missing cal trading tf (the (timeframe_delta tf)) (map be_timestamp stored) start_t end_t"
    using assms(1) step(1) by (auto simp: missing_ranges_def split: option.splits sum.splits)
  have far: "far_from (the (timeframe_delta tf)) [u \<leftarrow> map be_timestamp stored. start_t \<le> u \<and> u \<le> end_t] t \<longleftrightarrow>
    (\<forall>b \<in> set stored. start_t \<le> be_timestamp b \<longrightarrow> be_timestamp b \<le> end_t \<longrightarrow> the (timeframe_delta tf) \<le> \<bar>t - be_timestamp b\<bar>)"
    by (auto simp: far_from_def)
  show ?thesis
    using ranges_missing_sound [OF step(2), of _ cal trading tf "map be_timestamp stored" start_t end_t t]
      ranges_missing_complete [OF step(2-4), of start_t t end_t "map be_timestamp stored" cal trading]
    unfolding gaps far by blast
qed


definition sample_catchup :: catchup_env where
  "sample_catchup =
     \<lparr>cv_registry = register empty_registry
        \<lparr>sy_ticker = ''MNQ'', sy_exchange = ''CME'', sy_asset_class = Asset_FUTURE, sy_root_symbol = None, sy_lot_size = 1, sy_tick_size = 1/4,
         sy_point_value = 2, sy_is_active = True\<rparr> None,
      cv_nyse = nyse_calendar \<lparr>zn_to_et = id, zn_from_et = id\<rparr> (\<lambda>d. weekday d < 5),
      cv_cme = cme_calendar \<lparr>zn_to_et = id, zn_from_et = id\<rparr> (\<lambda>d. weekday d < 5),
      cv_trading = (\<lambda>_ d. weekday d < 5), cv_zone = \<lparr>zn_to_et = id, zn_from_et = id\<rparr>, cv_new_id = (\<lambda>_. ''m5''),
      cv_fetch = (\<lambda>_ _ _. Inr []), cv_load = (\<lambda>_ _ _ _. []), cv_minute1_warmup_bars = 390, cv_hourly_warmup_bars = 200,
      cv_daily_warmup_bars = 200\<rparr>"

lemma missing_ranges_are_exact_witness:
  "\<exists>gaps. missing_ranges sample_catchup ''MNQ'' [sample_ohlc TF_M1 MINUTE 1 1 1 1] 0 (3 * MINUTE) TF_M1 = Inr gaps
     \<and> (\<exists>g \<in> set gaps. in_range (2 * MINUTE) g) \<and> \<not> (\<exists>g \<in> set gaps. in_range MINUTE g)"
proof -
  have "\<exists>sy. registry_get (cv_registry sample_catchup) ''MNQ'' = Inr sy"
    by (simp add: sample_catchup_def registry_get_def register_def empty_registry_def upper_def upper_char_def)
  then obtain gaps where g: "missing_ranges sample_catchup ''MNQ'' [sample_ohlc TF_M1 MINUTE 1 1 1 1] 0 (3 * MINUTE) TF_M1 = Inr gaps"
    by (auto simp: missing_ranges_def)
  from missing_ranges_are_exact [OF g, of "2 * MINUTE"] missing_ranges_are_exact [OF g, of MINUTE] g
  show ?thesis by (simp add: sample_ohlc_def MINUTE_def)
qed

section \<open>What the catch-up returns\<close>

lemma fold_update_keys:
  "distinct (map fst m) \<Longrightarrow> (\<And>p. p \<in> set m \<Longrightarrow> fst p = f (snd p)) \<Longrightarrow>
   distinct (map fst (fold (\<lambda>b. AList.update (f b) b) bs m)) \<and> (\<forall>p \<in> set (fold (\<lambda>b. AList.update (f b) b) bs m). fst p = f (snd p))"
proof (induction bs arbitrary: m)
  case (Cons b bs)
  have "fst p = f (snd p)" if "p \<in> set (AList.update (f b) b m)" for p
  proof -
    from that have "p = (f b, b) \<or> p \<in> set m" by (induction m) (auto split: if_splits)
    with Cons.prems(2) show ?thesis by auto
  qed
  with Cons.IH [of "AList.update (f b) b m"] Cons.prems(1) show ?case by (simp add: distinct_update)
qed simp

lemma fold_update_lookup:
  "map_of (fold (\<lambda>b. AList.update (f b) b) bs m) k
   = (case find (\<lambda>b. f b = k) (rev bs) of None \<Rightarrow> map_of m k | Some b \<Rightarrow> Some b)"
proof (induction bs rule: rev_induct)
  case (snoc b bs)
  then show ?case by (simp add: update_conv')
qed simp

text \<open>The merged bars have one bar per timestamp, in order: the last one given for it.\<close>

lemma merge_by_timestamp:
  defines "latest bs t \<equiv> find (\<lambda>b. be_timestamp b = t) (rev bs)"
  shows "sorted_wrt (<) (map be_timestamp (merge_by_timestamp stored fetched))
    \<and> (\<forall>b. b \<in> set (merge_by_timestamp stored fetched) \<longleftrightarrow> latest (stored @ fetched) (be_timestamp b) = Some b)"
proof -
  define m where "m = fold (\<lambda>b. AList.update (be_timestamp b) b) (stored @ fetched) []"
  have m: "distinct (map fst m)" "\<And>p. p \<in> set m \<Longrightarrow> fst p = be_timestamp (snd p)"
    using fold_update_keys [of "[]" be_timestamp "stored @ fetched"] by (simp_all add: m_def)
  have keys: "map be_timestamp (map snd m) = map fst m" using m(2) by simp
  have "distinct (map be_timestamp (sort_key be_timestamp (map snd m)))"
    using m(1) unfolding keys [symmetric] by (metis distinct_map distinct_sort set_sort)
  then have "sorted_wrt (<) (map be_timestamp (merge_by_timestamp stored fetched))"
    by (simp add: merge_by_timestamp_def m_def strict_sorted_iff)
  moreover have "b \<in> snd ` set m \<longleftrightarrow> map_of m (be_timestamp b) = Some b" for b
    using m by (force simp: map_of_eq_Some_iff)
  moreover have "map_of m t = latest (stored @ fetched) t" for t
    unfolding m_def fold_update_lookup latest_def by (simp split: option.split)
  ultimately show ?thesis by (simp add: merge_by_timestamp_def m_def)
qed

section \<open>Resampling\<close>

lemma sum_of_member_key:
  "distinct ks \<Longrightarrow> (\<Sum>k\<leftarrow>ks. if x = k then (c :: int) else 0) = (if x \<in> set ks then c else 0)"
  by (induction ks) auto

lemma sum_list_by_key:
  "distinct ks \<Longrightarrow> f ` set bs \<subseteq> set ks \<Longrightarrow> (\<Sum>k\<leftarrow>ks. \<Sum>b\<leftarrow>[b \<leftarrow> bs. f b = k]. g b) = (\<Sum>b\<leftarrow>bs. g b)" for g :: "'a \<Rightarrow> int"
proof (induction bs)
  case (Cons b bs)
  have "(\<Sum>k\<leftarrow>ks. \<Sum>b\<leftarrow>[b' \<leftarrow> b # bs. f b' = k]. g b) = (\<Sum>k\<leftarrow>ks. (if f b = k then g b else 0) + (\<Sum>b\<leftarrow>[b \<leftarrow> bs. f b = k]. g b))"
    by (rule arg_cong [of _ _ sum_list]) simp
  also have "\<dots> = g b + (\<Sum>b\<leftarrow>bs. g b)" using Cons by (simp add: sum_list_addf sum_of_member_key)
  finally show ?case by simp
qed simp

lemma fold_max_ge: "a \<le> fold (\<lambda>x m. max m (f x)) xs a \<and> (x \<in> set xs \<longrightarrow> f x \<le> fold (\<lambda>x m. max m (f x)) xs a)" for a :: "'b::linorder"
proof (induction xs arbitrary: a)
  case (Cons y ys)
  from Cons.IH [of "max a (f y)"] show ?case by auto
qed simp

lemma fold_min_le: "fold (\<lambda>x m. min m (f x)) xs a \<le> a \<and> (x \<in> set xs \<longrightarrow> fold (\<lambda>x m. min m (f x)) xs a \<le> f x)" for a :: "'b::linorder"
proof (induction xs arbitrary: a)
  case (Cons y ys)
  from Cons.IH [of "min a (f y)"] show ?case by auto
qed simp

lemma max_by_ge: "x \<in> set xs \<Longrightarrow> f x \<le> max_by f xs"
  using fold_max_ge [of "f (hd xs)" f "tl xs" x] by (cases xs) (auto simp: max_by_def)

lemma min_by_le: "x \<in> set xs \<Longrightarrow> min_by f xs \<le> f x"
  using fold_min_le [of f "tl xs" "f (hd xs)" x] by (cases xs) (auto simp: min_by_def)

lemma m5_bucket_bounds: "m5_bucket t \<le> t" "t < m5_bucket t + 5 * MINUTE" "5 * MINUTE dvd m5_bucket t"
  by (simp_all add: m5_bucket_def MINUTE_def dvd_minus_mod)

lemma m5_bucket_eq:
  assumes "5 * MINUTE dvd k"
  shows "m5_bucket t = k \<longleftrightarrow> k \<le> t \<and> t < k + 5 * MINUTE"
proof -
  from assms obtain q where q: "k = 5 * MINUTE * q" by (elim dvdE)
  have "t mod (5 * MINUTE) = t - k" if "k \<le> t" "t < k + 5 * MINUTE"
    using that mod_pos_pos_trivial [of "t - k" "5 * MINUTE"] mod_mult_self2 [of "t - k" "5 * MINUTE" q] by (simp add: q)
  then show ?thesis using m5_bucket_bounds(1,2) [of t] by (auto simp: m5_bucket_def)
qed

lemma max_by_attained: "xs \<noteq> [] \<Longrightarrow> max_by f xs \<in> f ` set xs"
proof (induction xs rule: rev_induct)
  case (snoc x xs)
  then show ?case by (cases "xs = []") (auto simp: max_by_def max_def)
qed simp

lemma min_by_attained: "xs \<noteq> [] \<Longrightarrow> min_by f xs \<in> f ` set xs"
proof (induction xs rule: rev_induct)
  case (snoc x xs)
  then show ?case by (cases "xs = []") (auto simp: min_by_def min_def)
qed simp

lemma sort_key_ends:
  fixes f :: "'a \<Rightarrow> 'b::linorder"
  assumes "xs \<noteq> []" "x \<in> set xs"
  shows "f (hd (sort_key f xs)) \<le> f x \<and> f x \<le> f (last (sort_key f xs))"
proof -
  let ?ys = "sort_key f xs"
  have "sorted (map f ?ys)" "x \<in> set ?ys" "?ys \<noteq> []" using assms by simp_all
  then obtain i where i: "i < length ?ys" "x = ?ys ! i" unfolding in_set_conv_nth by auto
  with \<open>sorted (map f ?ys)\<close> have "f (?ys ! 0) \<le> f (?ys ! i)" "f (?ys ! i) \<le> f (?ys ! (length ?ys - 1))"
    by (auto simp: sorted_iff_nth_mono dest: spec)
  with i \<open>?ys \<noteq> []\<close> show ?thesis by (simp add: hd_conv_nth last_conv_nth)
qed

text \<open>The bars within the five minutes that a bar stands for.\<close>

definition minutes_of :: "bar_event list \<Rightarrow> bar_event \<Rightarrow> bar_event list" where
  "minutes_of bars m = [b \<leftarrow> bars. be_timestamp m \<le> be_timestamp b \<and> be_timestamp b < be_timestamp m + 5 * MINUTE]"

text \<open>A bar that opens, closes and reaches as far as its minutes do.\<close>

definition stands_for :: "bar_event list \<Rightarrow> bar_event \<Rightarrow> bool" where
  "stands_for own m \<longleftrightarrow>
     list_ex (\<lambda>b. be_open b = be_open m \<and> list_all (\<lambda>c. be_timestamp b \<le> be_timestamp c) own) own
     \<and> list_ex (\<lambda>b. be_close b = be_close m \<and> list_all (\<lambda>c. be_timestamp c \<le> be_timestamp b) own) own
     \<and> list_ex (\<lambda>b. be_high b = be_high m) own \<and> list_ex (\<lambda>b. be_low b = be_low m) own
     \<and> list_all (\<lambda>b. be_low m \<le> be_low b \<and> be_high b \<le> be_high m) own"

lemma m5_bar_of_its_minutes:
  fixes new_id :: "timestamp \<Rightarrow> uuid"
  assumes "b0 \<in> set bars"
  defines "k \<equiv> m5_bucket (be_timestamp b0)"
  defines "m \<equiv> m5_bar new_id k (m5_group bars k)"
  shows "stands_for (minutes_of bars m) m"
proof -
  define g where "g = m5_group bars k"
  have own: "minutes_of bars m = [b \<leftarrow> bars. m5_bucket (be_timestamp b) = k]"
    using m5_bucket_bounds(3) [of "be_timestamp b0"]
    by (simp add: minutes_of_def m_def m5_bar_def m5_bucket_eq k_def [symmetric])
  have g: "g = sort_key be_timestamp (minutes_of bars m)" by (simp add: g_def m5_group_def own)
  have m: "be_open m = be_open (hd g)" "be_close m = be_close (last g)" "be_high m = max_by be_high g" "be_low m = min_by be_low g"
    by (simp_all add: m_def m5_bar_def g_def)
  have ne: "minutes_of bars m \<noteq> []" "g \<noteq> []" and set_g: "set (minutes_of bars m) = set g"
    using assms(1) by (auto simp: g own k_def filter_empty_conv)
  note ends = sort_key_ends [OF ne(1), of _ be_timestamp, folded g]
  have hd: "\<exists>b \<in> set g. be_open b = be_open (hd g) \<and> (\<forall>c \<in> set g. be_timestamp b \<le> be_timestamp c)"
    using ne(2) ends [unfolded set_g] by (intro bexI [of _ "hd g"]) auto
  have last: "\<exists>b \<in> set g. be_close b = be_close (last g) \<and> (\<forall>c \<in> set g. be_timestamp c \<le> be_timestamp b)"
    using ne(2) ends [unfolded set_g] by (intro bexI [of _ "last g"]) auto
  have ext: "\<exists>b \<in> set g. be_high b = max_by be_high g" "\<exists>b \<in> set g. be_low b = min_by be_low g"
    using max_by_attained [OF ne(2), of be_high] min_by_attained [OF ne(2), of be_low] by auto
  show ?thesis
    unfolding stands_for_def m list_ex_iff list_all_iff set_g
    by (intro conjI hd last ext ballI max_by_ge min_by_le)
qed

text \<open>
  Five-minute bars made of minute bars lose nothing: their volumes add up to those of the minute bars, their
  timestamps are distinct, in order and on five-minute boundaries. Each opens as the earliest of its minutes
  opens, closes as the latest closes, has their extremes, and every minute bar belongs to one.
\<close>

theorem resampling_conserves:
  "(\<Sum>m\<leftarrow>resample_m5 new_id bars. be_volume m) = (\<Sum>b\<leftarrow>bars. be_volume b)
   \<and> sorted_wrt (<) (map be_timestamp (resample_m5 new_id bars))
   \<and> list_all (\<lambda>m. 5 * MINUTE dvd be_timestamp m) (resample_m5 new_id bars)
   \<and> list_all (\<lambda>m. stands_for (minutes_of bars m) m) (resample_m5 new_id bars)
   \<and> list_all (\<lambda>b. list_ex (\<lambda>m. b \<in> set (minutes_of bars m)) (resample_m5 new_id bars)) bars"
proof (intro conjI)
  have group: "(\<Sum>b\<leftarrow>m5_group bars k. be_volume b) = (\<Sum>b\<leftarrow>[b \<leftarrow> bars. m5_bucket (be_timestamp b) = k]. be_volume b)" for k
    by (simp add: m5_group_def sum_sort_key)
  have ks: "distinct (m5_buckets bars)" "set (m5_buckets bars) = (\<lambda>b. m5_bucket (be_timestamp b)) ` set bars"
    by (simp_all add: m5_buckets_def comp_def)
  show "(\<Sum>m\<leftarrow>resample_m5 new_id bars. be_volume m) = (\<Sum>b\<leftarrow>bars. be_volume b)"
    using sum_list_by_key [OF ks(1), of "\<lambda>b. m5_bucket (be_timestamp b)" bars be_volume] ks(2)
    by (simp add: resample_m5_def m5_bar_def comp_def group)
  have stamps: "map be_timestamp (resample_m5 new_id bars) = m5_buckets bars"
    by (simp add: resample_m5_def m5_bar_def comp_def)
  show "sorted_wrt (<) (map be_timestamp (resample_m5 new_id bars))"
    unfolding stamps by (simp add: strict_sorted_iff m5_buckets_def)
  show "list_all (\<lambda>m. 5 * MINUTE dvd be_timestamp m) (resample_m5 new_id bars)"
    using ks(2) m5_bucket_bounds(3) by (auto simp: list_all_iff resample_m5_def m5_bar_def)
  show "list_all (\<lambda>m. stands_for (minutes_of bars m) m) (resample_m5 new_id bars)"
    using m5_bar_of_its_minutes ks(2) by (auto simp: list_all_iff resample_m5_def)
  show "list_all (\<lambda>b. list_ex (\<lambda>m. b \<in> set (minutes_of bars m)) (resample_m5 new_id bars)) bars"
    using m5_bucket_bounds ks(2) by (auto simp: list_all_iff list_ex_iff resample_m5_def minutes_of_def m5_bar_def)
qed

section \<open>Profiles and publications\<close>

lemma startup_rth_keeps:
  "startup_rth z s bars d files = Some (e, files') \<Longrightarrow> files key = Some j \<Longrightarrow> files' key = Some j"
  by (auto simp: startup_rth_def Let_def split: if_splits dest: save_from_bars_other [of _ _ _ _ _ _ _ _ key])

lemma startup_globex_keeps:
  "startup_globex z s bars d files = Some (e, files') \<Longrightarrow> files key = Some j \<Longrightarrow> files' key = Some j"
  by (auto simp: startup_globex_def Let_def split: if_splits dest: save_from_bars_other [of _ _ _ _ _ _ _ _ key])

text \<open>The start-up build never touches a profile that exists, also when it ends in an exception.\<close>

lemma startup_keeps_profiles:
  "build_vp_days z s bars ds files = Some (e, files') \<Longrightarrow> files key = Some j \<Longrightarrow> files' key = Some j"
  by (induction ds arbitrary: files)
    (auto dest: startup_rth_keeps startup_globex_keeps split: option.splits prod.splits)

text \<open>Whatever a start-up publishes is marked as a replay, so storage and research do not take it for live.\<close>

lemma catchup_publishes_replays:
  assumes "catchup_symbol v ends s files = Some r" "Publish_bar b \<in> set (cr_actions r)"
  shows "em_is_replay (be_metadata b)"
proof -
  have "em_is_replay (be_metadata (force_replay b))" for b by (simp add: force_replay_def)
  with assms show ?thesis
    by (auto simp: catchup_symbol_def fail_run_def Let_def
        split: prod.splits sum.splits option.splits)
qed

end
