(* ===== verification/Live_Ingestion.thy ===== *)
theory Live_Ingestion
  imports Storage Catchup Ingestion_Monitor
begin

text \<open>
  Live ingestion, \<^verbatim>\<open>engines/live/engine.py\<close>, and the observer of the vendor's record loop,
  \<^verbatim>\<open>engines/live/ingress_observer.py\<close>. The feed adapter is a parameter: its connection succeeds or raises, and
  what the engine asks of it is a list of calls. \<open>_on_trade\<close> suspends in \<open>publish\<close>: its arrival and the
  update of the forming candle are two steps. Published events are a list. The clock is an argument. The
  observer computes in floats.
\<close>

section \<open>State\<close>

record partial_accum =
  pa_minute_ts :: timestamp
  pa_open :: dec
  pa_high :: dec
  pa_low :: dec
  pa_close :: dec
  pa_volume :: int

datatype live_publication =
  Pub_bar bar_event | Pub_trade stored_trade | Pub_quote stored_quote | Pub_book order_book_event

record live_engine =
  le_monitor :: "ingestion_monitor option"
  le_adapters :: "(data_source_id \<times> bool) list"
  le_primary_source :: data_source_id
  le_bars_received :: nat
  le_trades_received :: nat
  le_quotes_received :: nat
  le_latest_bars :: "string \<rightharpoonup> bar_event"
  le_latest_partial_bars :: "string \<rightharpoonup> bar_event"
  le_latest_quotes :: "string \<rightharpoonup> stored_quote"
  le_last_published_bid :: "string \<rightharpoonup> dec"
  le_last_published_ask :: "string \<rightharpoonup> dec"
  le_partial_accum :: "string \<rightharpoonup> partial_accum"
  le_health_task :: bool

definition live_engine_new :: "ingestion_monitor option \<Rightarrow> data_source_id \<Rightarrow> live_engine" where
  "live_engine_new monitor primary =
     \<lparr>le_monitor = monitor, le_adapters = [], le_primary_source = primary, le_bars_received = 0, le_trades_received = 0,
      le_quotes_received = 0, le_latest_bars = Map.empty, le_latest_partial_bars = Map.empty, le_latest_quotes = Map.empty,
      le_last_published_bid = Map.empty, le_last_published_ask = Map.empty, le_partial_accum = Map.empty,
      le_health_task = False\<rparr>"

section \<open>Start and stop\<close>

datatype adapter_call =
  Set_skipped_records_handler data_source_id
| Connect data_source_id
| Disconnect data_source_id
| Subscribe_bars data_source_id "string list" bar_timeframe "timestamp option"
| Subscribe_trades data_source_id "string list"
| Subscribe_quotes data_source_id "string list"
| Start_stream data_source_id
| Add_symbols data_source_id "string list"
| Remove_symbols data_source_id "string list"
| Subscribe_tick_trades data_source_id "string list"

definition register_live_adapter :: "data_source_id \<Rightarrow> bool \<Rightarrow> live_engine \<Rightarrow> live_engine \<times> adapter_call list" where
  "register_live_adapter src has_handler e =
     (e\<lparr>le_adapters := AList.update src False (le_adapters e)\<rparr>,
      if le_monitor e \<noteq> None \<and> has_handler then [Set_skipped_records_handler src] else [])"

definition primary_live_adapter :: "live_engine \<Rightarrow> string + data_source_id" where
  "primary_live_adapter e =
     (if le_primary_source e \<in> fst ` set (le_adapters e) then Inr (le_primary_source e)
      else Inl ''Primary live adapter not registered'')"

text \<open>\<open>_on_start\<close>: without symbols or adapters, or when the connection fails, the engine runs without a feed.\<close>

definition live_on_start ::
  "string list \<Rightarrow> timestamp option \<Rightarrow> bool \<Rightarrow> live_engine \<Rightarrow> live_engine \<times> adapter_call list \<times> string option" where
  "live_on_start symbols replay_start connects e =
     (if symbols = [] \<or> le_adapters e = [] then (e, [], None)
      else case primary_live_adapter e of
        Inl err \<Rightarrow> (e, [], Some err)
      | Inr src \<Rightarrow>
          if \<not> connects then (e, [Connect src], None)
          else (e\<lparr>le_adapters := AList.update src True (le_adapters e), le_health_task := (le_monitor e \<noteq> None)\<rparr>,
                [Connect src, Subscribe_bars src symbols TF_M1 replay_start, Subscribe_bars src symbols TF_S1 None,
                 Subscribe_trades src symbols, Subscribe_quotes src symbols, Start_stream src], None))"

definition live_on_stop :: "live_engine \<Rightarrow> live_engine \<times> adapter_call list" where
  "live_on_stop e =
     (e\<lparr>le_health_task := False, le_adapters := map (\<lambda>a. (fst a, False)) (le_adapters e)\<rparr>, map (Disconnect \<circ> fst) (le_adapters e))"

definition add_live_symbol :: "string \<Rightarrow> live_engine \<Rightarrow> adapter_call list" where
  "add_live_symbol ticker e = map (\<lambda>a. Add_symbols (fst a) [ticker]) (le_adapters e)"

definition remove_live_symbol :: "string \<Rightarrow> live_engine \<Rightarrow> adapter_call list" where
  "remove_live_symbol ticker e = map (\<lambda>a. Remove_symbols (fst a) [ticker]) (le_adapters e)"

definition subscribe_tick_trades :: "string list \<Rightarrow> live_engine \<Rightarrow> string + adapter_call list" where
  "subscribe_tick_trades symbols e = map_sum id (\<lambda>src. [Subscribe_tick_trades src symbols]) (primary_live_adapter e)"

definition live_health :: "live_engine \<Rightarrow> health_status \<times> data_source_id list" where
  "live_health e =
     (let connected = map fst (filter snd (le_adapters e))
      in (if connected = [] then Health_UNHEALTHY else Health_HEALTHY, connected))"

section \<open>Bars and the forming candle\<close>

definition SNAPSHOT_TIMEFRAMES :: "bar_timeframe list" where
  "SNAPSHOT_TIMEFRAMES = [TF_M1, TF_M5, TF_H1, TF_D1]"

text \<open>A completed minute bar replaces what the trades made.\<close>

definition supersede_partial :: "timestamp \<Rightarrow> bar_event \<Rightarrow> live_engine \<Rightarrow> live_engine" where
  "supersede_partial now b e =
     (let s = be_symbol b in
      e\<lparr>le_partial_accum := (le_partial_accum e)(s := None),
        le_latest_partial_bars :=
          (case le_latest_partial_bars e s of
             None \<Rightarrow> le_latest_partial_bars e
           | Some p \<Rightarrow> if be_timestamp p \<le> be_timestamp b then (le_latest_partial_bars e)(s := None) else le_latest_partial_bars e),
        le_monitor := map_option (\<lambda>m. on_bar_received m s (be_timestamp b) now) (le_monitor e)\<rparr>)"

definition live_on_bar :: "timestamp \<Rightarrow> bar_event \<Rightarrow> live_engine \<Rightarrow> live_engine \<times> live_publication list" where
  "live_on_bar now b e =
     (let e = e\<lparr>le_bars_received := le_bars_received e + 1\<rparr>
      in if be_is_partial b then (e\<lparr>le_latest_partial_bars := (le_latest_partial_bars e)(be_symbol b \<mapsto> b)\<rparr>, [])
         else
           (let e = (if be_timeframe b = TF_M1 then supersede_partial now b e else e);
                e = (if be_timeframe b \<in> set SNAPSHOT_TIMEFRAMES
                     then e\<lparr>le_latest_bars := (le_latest_bars e)(be_symbol b \<mapsto> b)\<rparr> else e)
            in (e, [Pub_bar b])))"

definition live_on_trade :: "timestamp \<Rightarrow> stored_trade \<Rightarrow> live_engine \<Rightarrow> live_engine \<times> live_publication list" where
  "live_on_trade now t e =
     (e\<lparr>le_trades_received := le_trades_received e + 1,
        le_monitor := map_option (\<lambda>m. on_record_received m (te_symbol t) now) (le_monitor e)\<rparr>, [Pub_trade t])"

definition OUTLIER_SPREAD_MULT :: dec where "OUTLIER_SPREAD_MULT = 30"
definition OUTLIER_PRICE_PCT :: dec where "OUTLIER_PRICE_PCT = 1/1000"
definition OUTLIER_FALLBACK_PCT :: dec where "OUTLIER_FALLBACK_PCT = 2/1000"

definition outside_band :: "dec \<Rightarrow> dec \<Rightarrow> dec \<Rightarrow> bool" where
  "outside_band anchor band price \<longleftrightarrow> band > 0 \<and> \<bar>dq (price - anchor)\<bar> > band"

definition is_outlier_trade :: "live_engine \<Rightarrow> string \<Rightarrow> dec \<Rightarrow> dec option \<Rightarrow> bool" where
  "is_outlier_trade e s price reference \<longleftrightarrow>
     (case le_latest_quotes e s of
        Some q \<Rightarrow>
          (let anchor = dq (dq (qe_bid_price q + qe_ask_price q) / 2);
               spread = dq (qe_ask_price q - qe_bid_price q)
           in outside_band anchor (max (dq (anchor * OUTLIER_PRICE_PCT)) (dq (spread * OUTLIER_SPREAD_MULT))) price)
      | None \<Rightarrow>
          (case reference of
             None \<Rightarrow> False
           | Some anchor \<Rightarrow> outside_band anchor (dq (anchor * OUTLIER_FALLBACK_PCT)) price))"

definition minute_start :: "timestamp \<Rightarrow> timestamp" where
  "minute_start t = t - t mod MINUTE"

definition first_tick :: "stored_trade \<Rightarrow> partial_accum" where
  "first_tick t =
     \<lparr>pa_minute_ts = minute_start (te_timestamp t), pa_open = te_price t, pa_high = te_price t, pa_low = te_price t,
      pa_close = te_price t, pa_volume = te_size t\<rparr>"

definition next_tick :: "partial_accum \<Rightarrow> stored_trade \<Rightarrow> partial_accum" where
  "next_tick a t =
     a\<lparr>pa_high := max (pa_high a) (te_price t), pa_low := min (pa_low a) (te_price t), pa_close := te_price t,
       pa_volume := pa_volume a + te_size t\<rparr>"

definition partial_bar :: "uuid \<Rightarrow> stored_trade \<Rightarrow> partial_accum \<Rightarrow> bar_event" where
  "partial_bar new_id t a =
     \<lparr>be_symbol = te_symbol t, be_timestamp = pa_minute_ts a,
      be_metadata = \<lparr>em_event_id = new_id, em_source = em_source (st_metadata t), em_received_at = em_received_at (st_metadata t),
                     em_is_replay = False, em_sequence_num = None\<rparr>,
      be_timeframe = TF_M1, be_open = pa_open a, be_high = pa_high a, be_low = pa_low a, be_close = pa_close a,
      be_volume = pa_volume a, be_vwap = None, be_trade_count = None, be_is_partial = True, be_is_pipeline_fallback = False\<rparr>"

definition update_partial_bar :: "uuid \<Rightarrow> stored_trade \<Rightarrow> live_engine \<Rightarrow> live_engine" where
  "update_partial_bar new_id t e =
     (let s = te_symbol t; acc = le_partial_accum e s
      in if is_outlier_trade e s (te_price t) (map_option pa_close acc) then e
         else
           (let a = (case acc of
                       None \<Rightarrow> first_tick t
                     | Some a \<Rightarrow> if pa_minute_ts a \<noteq> minute_start (te_timestamp t) then first_tick t else next_tick a t)
            in e\<lparr>le_partial_accum := (le_partial_accum e)(s \<mapsto> a),
                 le_latest_partial_bars := (le_latest_partial_bars e)(s \<mapsto> partial_bar new_id t a)\<rparr>))"

text \<open>A quote is published when one of its prices changed.\<close>

definition live_on_quote :: "timestamp \<Rightarrow> stored_quote \<Rightarrow> live_engine \<Rightarrow> live_engine \<times> live_publication list" where
  "live_on_quote now q e =
     (let s = qe_symbol q;
          e = e\<lparr>le_quotes_received := le_quotes_received e + 1, le_latest_quotes := (le_latest_quotes e)(s \<mapsto> q),
                le_monitor := map_option (\<lambda>m. on_record_received m s now) (le_monitor e)\<rparr>
      in if Some (qe_bid_price q) \<noteq> le_last_published_bid e s \<or> Some (qe_ask_price q) \<noteq> le_last_published_ask e s
         then (e\<lparr>le_last_published_bid := (le_last_published_bid e)(s \<mapsto> qe_bid_price q),
                 le_last_published_ask := (le_last_published_ask e)(s \<mapsto> qe_ask_price q)\<rparr>, [Pub_quote q])
         else (e, []))"

definition live_on_order_book :: "order_book_event \<Rightarrow> live_engine \<Rightarrow> live_engine \<times> live_publication list" where
  "live_on_order_book b e = (e, [Pub_book b])"

text \<open>One turn of \<open>_health_check_loop\<close>.\<close>

definition health_tick :: "(timestamp \<Rightarrow> int) \<Rightarrow> timestamp \<Rightarrow> live_engine \<Rightarrow> live_engine" where
  "health_tick minutes now e = e\<lparr>le_monitor := map_option (\<lambda>m. check_health minutes m now) (le_monitor e)\<rparr>"

datatype live_cmd =
  Bar_arrives timestamp bar_event
| Trade_arrives timestamp stored_trade
| Trade_was_published uuid stored_trade
| Quote_arrives timestamp stored_quote
| Book_arrives order_book_event
| Health_tick "timestamp \<Rightarrow> int" timestamp

fun live_step :: "live_engine \<Rightarrow> live_cmd \<Rightarrow> live_engine \<times> live_publication list" where
  "live_step e (Bar_arrives now b) = live_on_bar now b e"
| "live_step e (Trade_arrives now t) = live_on_trade now t e"
| "live_step e (Trade_was_published new_id t) = (update_partial_bar new_id t e, [])"
| "live_step e (Quote_arrives now q) = live_on_quote now q e"
| "live_step e (Book_arrives b) = live_on_order_book b e"
| "live_step e (Health_tick minutes now) = (health_tick minutes now e, [])"

fun live_run :: "live_engine \<Rightarrow> live_cmd list \<Rightarrow> live_engine \<times> live_publication list" where
  "live_run e [] = (e, [])"
| "live_run e (c # cs) =
     (case live_step e c of (e, out) \<Rightarrow> (case live_run e cs of (e, more_out) \<Rightarrow> (e, out @ more_out)))"


section \<open>Quotes\<close>

fun debounce :: "'a option \<Rightarrow> 'a list \<Rightarrow> 'a list" where
  "debounce l [] = []"
| "debounce l (x # xs) = (if l = Some x then debounce l xs else x # debounce (Some x) xs)"

lemma debounce_Some: "p # debounce (Some p) xs = remdups_adj (p # xs)"
  by (induction xs arbitrary: p) auto

lemma debounce_None: "debounce None xs = remdups_adj xs"
proof (cases xs)
  case (Cons y ys)
  with debounce_Some [of y ys] show ?thesis by simp
qed simp

definition published_prices :: "string \<Rightarrow> live_publication list \<Rightarrow> (dec \<times> dec) list" where
  "published_prices s out =
     concat (map (\<lambda>p. case p of Pub_quote q \<Rightarrow> if qe_symbol q = s then [(qe_bid_price q, qe_ask_price q)] else [] | _ \<Rightarrow> []) out)"

definition received_prices :: "string \<Rightarrow> live_cmd list \<Rightarrow> (dec \<times> dec) list" where
  "received_prices s cs =
     concat (map (\<lambda>c. case c of Quote_arrives now q \<Rightarrow> if qe_symbol q = s then [(qe_bid_price q, qe_ask_price q)] else [] | _ \<Rightarrow> []) cs)"

definition last_prices :: "live_engine \<Rightarrow> string \<Rightarrow> (dec \<times> dec) option" where
  "last_prices e s = (case (le_last_published_bid e s, le_last_published_ask e s) of (Some b, Some a) \<Rightarrow> Some (b, a) | _ \<Rightarrow> None)"

definition prices_paired :: "live_engine \<Rightarrow> bool" where
  "prices_paired e \<longleftrightarrow> (\<forall>s. (le_last_published_bid e s = None) = (le_last_published_ask e s = None))"

text \<open>Only quotes touch the published prices.\<close>

lemma live_step_prices:
  assumes "\<And>now q. c \<noteq> Quote_arrives now q"
  shows "le_last_published_bid (fst (live_step e c)) = le_last_published_bid e
    \<and> le_last_published_ask (fst (live_step e c)) = le_last_published_ask e
    \<and> published_prices s (snd (live_step e c)) = [] \<and> received_prices s [c] = []"
proof (cases c)
  case (Quote_arrives now q)
  with assms show ?thesis by blast
qed (simp_all add: live_on_bar_def supersede_partial_def Let_def live_on_trade_def update_partial_bar_def
      live_on_order_book_def health_tick_def published_prices_def received_prices_def)

lemma live_on_quote_prices:
  assumes "prices_paired e"
  shows "prices_paired (fst (live_on_quote now q e))
    \<and> last_prices (fst (live_on_quote now q e)) s
      = (if qe_symbol q = s then Some (qe_bid_price q, qe_ask_price q) else last_prices e s)
    \<and> published_prices s (snd (live_on_quote now q e))
      = (if qe_symbol q = s \<and> last_prices e s \<noteq> Some (qe_bid_price q, qe_ask_price q) then [(qe_bid_price q, qe_ask_price q)] else [])"
proof -
  let ?s = "qe_symbol q" and ?p = "(qe_bid_price q, qe_ask_price q)"
  have paired: "(le_last_published_bid e ?s = None) = (le_last_published_ask e ?s = None)"
    using assms by (simp add: prices_paired_def)
  then have changed: "(Some (qe_bid_price q) \<noteq> le_last_published_bid e ?s \<or> Some (qe_ask_price q) \<noteq> le_last_published_ask e ?s)
    \<longleftrightarrow> last_prices e ?s \<noteq> Some ?p"
    by (auto simp: last_prices_def split: option.splits)
  show ?thesis
  proof (cases "last_prices e ?s = Some ?p")
    case True
    with changed assms show ?thesis
      by (auto simp: live_on_quote_def Let_def prices_paired_def published_prices_def last_prices_def)
  next
    case False
    with changed assms show ?thesis
      by (cases "qe_symbol q = s") (auto simp: live_on_quote_def Let_def prices_paired_def published_prices_def last_prices_def)
  qed
qed

lemma live_run_prices:
  "prices_paired e \<Longrightarrow> published_prices s (snd (live_run e cs)) = debounce (last_prices e s) (received_prices s cs)"
proof (induction cs arbitrary: e)
  case (Cons c cs)
  obtain e1 out1 where s1: "live_step e c = (e1, out1)" by fastforce
  obtain e2 out2 where r: "live_run e1 cs = (e2, out2)" by fastforce
  have split: "published_prices s (snd (live_run e (c # cs))) = published_prices s out1 @ published_prices s out2"
    "received_prices s (c # cs) = received_prices s [c] @ received_prices s cs"
    using s1 r by (simp_all add: published_prices_def received_prices_def)
  show ?case
  proof (cases "\<exists>now q. c = Quote_arrives now q")
    case True
    then obtain now q where q: "c = Quote_arrives now q" by blast
    have p1: "prices_paired e1" using live_on_quote_prices [OF Cons.prems, of now q] s1 q by simp
    show ?thesis
      unfolding split using live_on_quote_prices [OF Cons.prems, of now q s] s1 q r Cons.IH [OF p1]
      by (auto simp: received_prices_def)
  next
    case False
    with live_step_prices [of c e s] s1 have
      f: "le_last_published_bid e1 = le_last_published_bid e" "le_last_published_ask e1 = le_last_published_ask e"
        "published_prices s out1 = []" "received_prices s [c] = []" by auto
    then have "prices_paired e1" "last_prices e1 s = last_prices e s"
      using Cons.prems by (simp_all add: prices_paired_def last_prices_def)
    with Cons.IH [of e1] r f(3,4) show ?thesis unfolding split by simp
  qed
qed (simp add: published_prices_def received_prices_def)

text \<open>
  C33. The quotes a symbol's subscribers get are the received ones without repetitions: each change of bid
  or ask is published once, in order, and nothing else is, whatever bars, trades and other symbols' quotes come between.
\<close>

theorem published_quotes_are_the_changes:
  "published_prices s (snd (live_run (live_engine_new monitor primary) cs)) = remdups_adj (received_prices s cs)"
proof -
  have "prices_paired (live_engine_new monitor primary)" "last_prices (live_engine_new monitor primary) s = None"
    by (simp_all add: prices_paired_def last_prices_def live_engine_new_def)
  with live_run_prices [of "live_engine_new monitor primary" s cs] show ?thesis by (simp add: debounce_None)
qed

section \<open>The forming candle\<close>

definition candle_of :: "stored_trade list \<Rightarrow> partial_accum" where
  "candle_of ts =
     \<lparr>pa_minute_ts = minute_start (te_timestamp (hd ts)), pa_open = te_price (hd ts), pa_high = max_by te_price ts,
      pa_low = min_by te_price ts, pa_close = te_price (last ts), pa_volume = (\<Sum>t\<leftarrow>ts. te_size t)\<rparr>"

lemma candle_of_single: "candle_of [t] = first_tick t"
  by (simp add: candle_of_def first_tick_def max_by_def min_by_def)

lemma candle_of_snoc: "ts \<noteq> [] \<Longrightarrow> candle_of (ts @ [t]) = next_tick (candle_of ts) t"
  by (simp add: candle_of_def next_tick_def max_by_def min_by_def)

text \<open>The accepted trades of a symbol since its last completed bar.\<close>

fun accepted_after :: "string \<Rightarrow> live_engine \<Rightarrow> stored_trade list \<Rightarrow> live_cmd \<Rightarrow> stored_trade list" where
  "accepted_after s e h (Bar_arrives now b) = (if \<not> be_is_partial b \<and> be_timeframe b = TF_M1 \<and> be_symbol b = s then [] else h)"
| "accepted_after s e h (Trade_was_published i t) =
     (if te_symbol t \<noteq> s \<or> is_outlier_trade e s (te_price t) (if h = [] then None else Some (te_price (last h))) then h
      else h @ [t])"
| "accepted_after s e h _ = h"

fun accepted_trades :: "string \<Rightarrow> live_engine \<Rightarrow> stored_trade list \<Rightarrow> live_cmd list \<Rightarrow> stored_trade list" where
  "accepted_trades s e h [] = h"
| "accepted_trades s e h (c # cs) = accepted_trades s (fst (live_step e c)) (accepted_after s e h c) cs"

definition trade_minute :: "stored_trade \<Rightarrow> timestamp" where
  "trade_minute t = minute_start (te_timestamp t)"

definition candle_opt :: "stored_trade list \<Rightarrow> partial_accum option" where
  "candle_opt h = (if h = [] then None else Some (candle_of (last_part trade_minute h)))"

lemma last_part_last: "h \<noteq> [] \<Longrightarrow> last_part k h \<noteq> [] \<and> last (last_part k h) = last h \<and> k (hd (last_part k h)) = k (last h)"
proof (induction h rule: rev_induct)
  case (snoc x h)
  then show ?case by (cases "h = []") (auto simp: last_part_snoc last_part_snoc [of k "[]", simplified] hd_append)
qed simp

lemma candle_opt_snoc:
  "h \<noteq> [] \<Longrightarrow> candle_opt (h @ [t]) =
   Some (if trade_minute (last h) = trade_minute t then next_tick (candle_of (last_part trade_minute h)) t else first_tick t)"
  by (simp add: candle_opt_def last_part_snoc candle_of_snoc candle_of_single last_part_last)

lemma candle_of_minute: "h \<noteq> [] \<Longrightarrow> pa_minute_ts (candle_of (last_part trade_minute h)) = trade_minute (last h)"
  using last_part_last [of h trade_minute] by (simp add: candle_of_def trade_minute_def)

lemma live_step_candle:
  assumes "le_partial_accum e s = candle_opt h"
  shows "le_partial_accum (fst (live_step e c)) s = candle_opt (accepted_after s e h c)"
proof (cases c)
  case (Trade_was_published i t)
  show ?thesis
  proof (cases "te_symbol t = s")
    case True
    have ref: "map_option pa_close (le_partial_accum e s) = (if h = [] then None else Some (te_price (last h)))"
      unfolding assms by (simp add: candle_opt_def candle_of_def last_part_last)
    show ?thesis
    proof (cases "h = []")
      case True
      with Trade_was_published \<open>te_symbol t = s\<close> ref assms show ?thesis
        by (simp add: update_partial_bar_def Let_def candle_opt_def candle_of_single last_part_def)
    next
      case False
      then have acc: "le_partial_accum e s = Some (candle_of (last_part trade_minute h))" using assms by (simp add: candle_opt_def)
      show ?thesis
      proof (cases "is_outlier_trade e s (te_price t) (Some (te_price (last h)))")
        case True
        then have "is_outlier_trade e s (te_price t) (map_option pa_close (le_partial_accum e s))" unfolding ref using False by simp
        then have "fst (live_step e c) = e" "accepted_after s e h c = h"
          using True False Trade_was_published \<open>te_symbol t = s\<close> by (simp_all add: update_partial_bar_def Let_def)
        then show ?thesis using assms by simp
      next
        case accepted: False
        have "le_partial_accum (fst (live_step e c)) s = Some (if trade_minute (last h) \<noteq> minute_start (te_timestamp t) then first_tick t
            else next_tick (candle_of (last_part trade_minute h)) t)"
          using accepted False Trade_was_published \<open>te_symbol t = s\<close> ref acc candle_of_minute [OF False]
          by (simp add: update_partial_bar_def Let_def)
        moreover have "accepted_after s e h c = h @ [t]"
          using accepted False Trade_was_published \<open>te_symbol t = s\<close> by simp
        ultimately show ?thesis using False by (simp add: candle_opt_snoc trade_minute_def [of t])
      qed
    qed
  qed (use Trade_was_published assms in \<open>simp add: update_partial_bar_def Let_def\<close>)
qed (use assms in \<open>simp_all add: live_on_bar_def supersede_partial_def Let_def live_on_trade_def live_on_quote_def
      live_on_order_book_def health_tick_def candle_opt_def\<close>)

lemma live_run_candle:
  "le_partial_accum e s = candle_opt h \<Longrightarrow> le_partial_accum (fst (live_run e cs)) s = candle_opt (accepted_trades s e h cs)"
proof (induction cs arbitrary: e h)
  case (Cons c cs)
  from Cons.IH [OF live_step_candle [OF Cons.prems, of c]] show ?case by (auto split: prod.splits)
qed simp

text \<open>
  C34. The forming candle is its trades: at any time its minute, open, extremes, close and volume are those of the
  latest accepted trades since the last completed bar of the symbol, as far back as they share the minute of the
  last one; there is no candle when no trade was accepted since that bar. Outliers and the trades of other symbols
  leave no trace in it. Two things follow that the code's comment does not intend: a completed bar of whatever minute
  ends the running candle, and a late trade of an earlier minute starts the candle anew.
\<close>

theorem forming_candle_is_its_trades:
  "le_partial_accum (fst (live_run (live_engine_new monitor primary) cs)) s
   = candle_opt (accepted_trades s (live_engine_new monitor primary) [] cs)"
  by (rule live_run_candle) (simp add: live_engine_new_def candle_opt_def)

text \<open>When trades come in the order of their minutes, those are all accepted trades of the minute since the bar.\<close>

lemma last_part_sorted:
  "sorted (map k h) \<Longrightarrow> last_part k h = [t \<leftarrow> h. k t = k (last h)]" for k :: "'a \<Rightarrow> int"
proof (induction h rule: rev_induct)
  case (snoc x h)
  then have IH: "last_part k h = [t \<leftarrow> h. k t = k (last h)]" and le: "\<forall>t \<in> set h. k t \<le> k x" "\<forall>t \<in> set h. k t \<le> k (last h)"
    by (auto simp: sorted_append) (cases h rule: rev_cases; auto simp: sorted_append)
  show ?case
  proof (cases "h \<noteq> [] \<and> k (last h) = k x")
    case False
    have "k t \<noteq> k x" if "t \<in> set h" for t
      using le(1) [rule_format, of "last h"] le(2) [rule_format, OF that] that False by (cases "h = []") auto
    then have "[t \<leftarrow> h. k t = k x] = []" by (simp add: filter_empty_conv)
    with False show ?thesis by (auto simp: last_part_snoc)
  qed (simp add: last_part_snoc IH)
qed simp

text \<open>
  A completed bar arrives after the next minute has begun. It clears the running candle whatever its
  minute: the first trades of the new minute are lost from it.
\<close>

lemma completed_bar_drops_the_next_minute:
  assumes "le_partial_accum e (be_symbol b) = Some a" "be_timestamp b + MINUTE \<le> pa_minute_ts a" "\<not> be_is_partial b" "be_timeframe b = TF_M1"
  shows "le_partial_accum (fst (live_on_bar now b e)) (be_symbol b) = None"
  using assms by (simp add: live_on_bar_def supersede_partial_def Let_def SNAPSHOT_TIMEFRAMES_def)

section \<open>The ingress observer\<close>

record ingress_record =
  ir_ts_recv :: "int option"
  ir_ts_event :: "int option"
  ir_instrument_id :: "int option"
  ir_rtype :: "int option"

record latency_stat =
  ls_max_ms :: rat
  ls_total_ms :: rat
  ls_count :: nat

record throttle =
  th_last_warn_ns :: "int option"
  th_suppressed :: nat

record ingress_observer =
  io_records_seen :: nat
  io_out_of_order :: nat
  io_window_start_ns :: int
  io_window_records :: nat
  io_last_arrival_ns :: "int option"
  io_gap :: latency_stat
  io_recv_latency :: latency_stat
  io_feed_latency :: latency_stat
  io_queue_wait :: latency_stat
  io_gap_warn :: throttle
  io_recv_latency_warn :: throttle
  io_queue_wait_warn :: throttle
  io_last_ts_event_ns :: "int \<times> int \<rightharpoonup> int"
  io_window_dropped :: nat
  io_total_dropped :: nat

text \<open>A summary line shows the window's record count, its length, and the three other averages when there are any.\<close>

datatype ingress_log =
  Log_gap rat nat
| Log_recv_latency rat nat
| Log_backlog rat bool nat
| Log_queue_full nat nat
| Log_summary nat rat rat "rat option" "rat option" "rat option" nat

definition no_latency :: latency_stat where "no_latency = \<lparr>ls_max_ms = 0, ls_total_ms = 0, ls_count = 0\<rparr>"
definition no_throttle :: throttle where "no_throttle = \<lparr>th_last_warn_ns = None, th_suppressed = 0\<rparr>"

definition ingress_observer_new :: "int \<Rightarrow> ingress_observer" where
  "ingress_observer_new now =
     \<lparr>io_records_seen = 0, io_out_of_order = 0, io_window_start_ns = now, io_window_records = 0, io_last_arrival_ns = None,
      io_gap = no_latency, io_recv_latency = no_latency, io_feed_latency = no_latency, io_queue_wait = no_latency,
      io_gap_warn = no_throttle, io_recv_latency_warn = no_throttle, io_queue_wait_warn = no_throttle,
      io_last_ts_event_ns = Map.empty, io_window_dropped = 0, io_total_dropped = 0\<rparr>"

definition LOG_INTERVAL_RECORDS :: nat where "LOG_INTERVAL_RECORDS = 500"
definition LOG_INTERVAL_SECS :: rat where "LOG_INTERVAL_SECS = 30"
definition GAP_WARN_MS :: rat where "GAP_WARN_MS = 5000"
definition RECV_LATENCY_WARN_MS :: rat where "RECV_LATENCY_WARN_MS = 500"
definition QUEUE_WAIT_DEGRADE_MS :: rat where "QUEUE_WAIT_DEGRADE_MS = 500"
definition QUEUE_WAIT_CRITICAL_MS :: rat where "QUEUE_WAIT_CRITICAL_MS = 2000"
definition WARN_THROTTLE_S :: rat where "WARN_THROTTLE_S = 2"

definition note_latency :: "rat \<Rightarrow> latency_stat \<Rightarrow> latency_stat" where
  "note_latency ms st =
     st\<lparr>ls_count := ls_count st + 1, ls_total_ms := fl (ls_total_ms st + ms), ls_max_ms := (if ms > ls_max_ms st then ms else ls_max_ms st)\<rparr>"

definition millis :: "int \<Rightarrow> rat" where "millis ns = fl (of_int ns / 1000000)"
definition nano_seconds :: "int \<Rightarrow> rat" where "nano_seconds ns = fl (of_int ns / 1000000000)"

definition may_warn :: "int \<Rightarrow> throttle \<Rightarrow> bool" where
  "may_warn now th \<longleftrightarrow> (case th_last_warn_ns th of None \<Rightarrow> True | Some l \<Rightarrow> nano_seconds (now - l) \<ge> WARN_THROTTLE_S)"

text \<open>The throttle of all three warnings: a line with the count suppressed before it, or one more suppressed.\<close>

definition throttle_warning :: "int \<Rightarrow> throttle \<Rightarrow> throttle \<times> nat option" where
  "throttle_warning now th =
     (if may_warn now th then (\<lparr>th_last_warn_ns = Some now, th_suppressed = 0\<rparr>, Some (th_suppressed th))
      else (th\<lparr>th_suppressed := th_suppressed th + 1\<rparr>, None))"

definition observe_gap :: "int \<Rightarrow> ingress_observer \<Rightarrow> ingress_observer \<times> ingress_log list" where
  "observe_gap arrival o' =
     (case io_last_arrival_ns o' of
        None \<Rightarrow> (o'\<lparr>io_last_arrival_ns := Some arrival\<rparr>, [])
      | Some l \<Rightarrow>
          (let gap = millis (arrival - l); o' = o'\<lparr>io_gap := note_latency gap (io_gap o'), io_last_arrival_ns := Some arrival\<rparr>
           in if gap > GAP_WARN_MS then
                (case throttle_warning arrival (io_gap_warn o') of
                   (th, w) \<Rightarrow> (o'\<lparr>io_gap_warn := th\<rparr>, case w of None \<Rightarrow> [] | Some n \<Rightarrow> [Log_gap gap n]))
              else (o', [])))"

definition observe_recv :: "ingress_record \<Rightarrow> int \<Rightarrow> ingress_observer \<Rightarrow> ingress_observer \<times> ingress_log list" where
  "observe_recv r arrival o' =
     (case ir_ts_recv r of
        None \<Rightarrow> (o', [])
      | Some ts_recv \<Rightarrow>
          (let lat = millis (arrival - ts_recv)
           in if ts_recv > 0 \<and> lat \<ge> 0 then
                (let o' = o'\<lparr>io_recv_latency := note_latency lat (io_recv_latency o')\<rparr>
                 in if lat > RECV_LATENCY_WARN_MS then
                      (case throttle_warning arrival (io_recv_latency_warn o') of
                         (th, w) \<Rightarrow> (o'\<lparr>io_recv_latency_warn := th\<rparr>, case w of None \<Rightarrow> [] | Some n \<Rightarrow> [Log_recv_latency lat n]))
                    else (o', []))
              else (o', [])))"

definition observe_feed :: "ingress_record \<Rightarrow> ingress_observer \<Rightarrow> ingress_observer" where
  "observe_feed r o' =
     (case (ir_ts_recv r, ir_ts_event r) of
        (Some ts_recv, Some ts_event) \<Rightarrow>
          (let lat = millis (ts_recv - ts_event)
           in if ts_recv > 0 \<and> ts_event > 0 \<and> 0 \<le> lat \<and> lat < 60000
              then o'\<lparr>io_feed_latency := note_latency lat (io_feed_latency o')\<rparr> else o')
      | _ \<Rightarrow> o')"

definition observe_order :: "ingress_record \<Rightarrow> ingress_observer \<Rightarrow> ingress_observer" where
  "observe_order r o' =
     (case (ir_ts_event r, ir_instrument_id r, ir_rtype r) of
        (Some ts_event, Some iid, Some rtype) \<Rightarrow>
          (let late = (case io_last_ts_event_ns o' (iid, rtype) of None \<Rightarrow> False | Some prev \<Rightarrow> ts_event < prev)
           in o'\<lparr>io_out_of_order := io_out_of_order o' + (if late then 1 else 0),
                 io_last_ts_event_ns := (if ts_event > 0 then (io_last_ts_event_ns o')((iid, rtype) \<mapsto> ts_event) else io_last_ts_event_ns o')\<rparr>)
      | _ \<Rightarrow> o')"

definition average_of :: "latency_stat \<Rightarrow> rat option" where
  "average_of st = (if ls_count st > 0 then Some (fl (ls_total_ms st / of_nat (ls_count st))) else None)"

definition log_summary :: "rat \<Rightarrow> ingress_observer \<Rightarrow> ingress_log" where
  "log_summary elapsed o' =
     Log_summary (io_window_records o') elapsed (case average_of (io_gap o') of None \<Rightarrow> 0 | Some a \<Rightarrow> a)
       (average_of (io_recv_latency o')) (average_of (io_feed_latency o')) (average_of (io_queue_wait o')) (io_window_dropped o')"

definition reset_observer_window :: "int \<Rightarrow> ingress_observer \<Rightarrow> ingress_observer" where
  "reset_observer_window now o' =
     o'\<lparr>io_window_start_ns := now, io_window_records := 0, io_gap := no_latency, io_recv_latency := no_latency,
        io_feed_latency := no_latency, io_queue_wait := no_latency, io_window_dropped := 0\<rparr>"

definition observe_window :: "int \<Rightarrow> ingress_observer \<Rightarrow> ingress_observer \<times> ingress_log list" where
  "observe_window arrival o' =
     (let elapsed = nano_seconds (arrival - io_window_start_ns o')
      in if io_window_records o' \<ge> LOG_INTERVAL_RECORDS \<or> elapsed \<ge> LOG_INTERVAL_SECS
         then (reset_observer_window arrival o', [log_summary elapsed o']) else (o', []))"

definition ingress_observe :: "ingress_record \<Rightarrow> int \<Rightarrow> ingress_observer \<Rightarrow> ingress_observer \<times> ingress_log list" where
  "ingress_observe r arrival o' =
     (let o' = o'\<lparr>io_records_seen := io_records_seen o' + 1, io_window_records := io_window_records o' + 1\<rparr>
      in case observe_gap arrival o' of (o', w1) \<Rightarrow>
         case observe_recv r arrival o' of (o', w2) \<Rightarrow>
         case observe_window arrival (observe_order r (observe_feed r o')) of (o', w3) \<Rightarrow> (o', w1 @ w2 @ w3))"

definition observe_queue_wait :: "rat \<Rightarrow> int \<Rightarrow> ingress_observer \<Rightarrow> ingress_observer \<times> ingress_log list" where
  "observe_queue_wait ms now o' =
     (let o' = o'\<lparr>io_queue_wait := note_latency ms (io_queue_wait o')\<rparr>
      in if ms \<ge> QUEUE_WAIT_DEGRADE_MS then
           (case throttle_warning now (io_queue_wait_warn o') of
              (th, w) \<Rightarrow> (o'\<lparr>io_queue_wait_warn := th\<rparr>,
                          case w of None \<Rightarrow> [] | Some n \<Rightarrow> [Log_backlog ms (ms \<ge> QUEUE_WAIT_CRITICAL_MS) n]))
         else (o', []))"

text \<open>A drop uses the window of the backlog warning, but suppresses nothing in its count.\<close>

definition record_ingress_drop :: "int \<Rightarrow> ingress_observer \<Rightarrow> ingress_observer \<times> ingress_log list" where
  "record_ingress_drop now o' =
     (let o' = o'\<lparr>io_window_dropped := io_window_dropped o' + 1, io_total_dropped := io_total_dropped o' + 1\<rparr>
      in if may_warn now (io_queue_wait_warn o')
         then (o'\<lparr>io_queue_wait_warn := (io_queue_wait_warn o')\<lparr>th_last_warn_ns := Some now\<rparr>\<rparr>,
               [Log_queue_full (io_window_dropped o') (io_total_dropped o')])
         else (o', []))"

datatype ingress_cmd = Record_seen ingress_record int | Queue_waited rat int | Record_dropped int

fun ingress_step :: "ingress_observer \<Rightarrow> ingress_cmd \<Rightarrow> ingress_observer \<times> ingress_log list" where
  "ingress_step o' (Record_seen r arrival) = ingress_observe r arrival o'"
| "ingress_step o' (Queue_waited ms now) = observe_queue_wait ms now o'"
| "ingress_step o' (Record_dropped now) = record_ingress_drop now o'"

fun ingress_run :: "ingress_observer \<Rightarrow> ingress_cmd list \<Rightarrow> ingress_observer \<times> ingress_log list" where
  "ingress_run o' [] = (o', [])"
| "ingress_run o' (c # cs) =
     (case ingress_step o' c of (o', w) \<Rightarrow> (case ingress_run o' cs of (o', ws) \<Rightarrow> (o', w @ ws)))"

text \<open>The gaps that are reported: one for each line, and those it says were suppressed before it.\<close>

definition gaps_told :: "ingress_log list \<Rightarrow> nat" where
  "gaps_told ws = (\<Sum>w\<leftarrow>ws. case w of Log_gap ms n \<Rightarrow> n + 1 | _ \<Rightarrow> 0)"

fun long_gaps :: "int option \<Rightarrow> ingress_cmd list \<Rightarrow> nat" where
  "long_gaps l [] = 0"
| "long_gaps l (Record_seen r arrival # cs) =
     (case l of None \<Rightarrow> 0 | Some t \<Rightarrow> if millis (arrival - t) > GAP_WARN_MS then 1 else 0) + long_gaps (Some arrival) cs"
| "long_gaps l (c # cs) = long_gaps l cs"

lemma gaps_told_append [simp]: "gaps_told (ws @ ws') = gaps_told ws + gaps_told ws'" "gaps_told [] = 0"
  by (simp_all add: gaps_told_def)

lemma observe_gap_told:
  "case observe_gap arrival o' of (o1, ws) \<Rightarrow>
     io_last_arrival_ns o1 = Some arrival
     \<and> gaps_told ws + th_suppressed (io_gap_warn o1) = th_suppressed (io_gap_warn o')
       + (case io_last_arrival_ns o' of None \<Rightarrow> 0 | Some t \<Rightarrow> if millis (arrival - t) > GAP_WARN_MS then 1 else 0)"
  by (auto simp: observe_gap_def Let_def throttle_warning_def gaps_told_def split: option.splits prod.splits)

lemma observe_recv_told:
  "case observe_recv r arrival o' of (o1, ws) \<Rightarrow>
     io_last_arrival_ns o1 = io_last_arrival_ns o' \<and> io_gap_warn o1 = io_gap_warn o' \<and> gaps_told ws = 0"
  by (auto simp: observe_recv_def Let_def throttle_warning_def gaps_told_def split: option.splits prod.splits)

lemma observe_rest_told:
  "case observe_window arrival (observe_order r (observe_feed r o')) of (o1, ws) \<Rightarrow>
     io_last_arrival_ns o1 = io_last_arrival_ns o' \<and> io_gap_warn o1 = io_gap_warn o' \<and> gaps_told ws = 0"
  by (auto simp: observe_window_def observe_order_def observe_feed_def reset_observer_window_def Let_def log_summary_def
      gaps_told_def split: option.splits prod.splits)

lemma ingress_observe_told:
  "case ingress_observe r arrival o' of (o1, ws) \<Rightarrow>
     io_last_arrival_ns o1 = Some arrival
     \<and> gaps_told ws + th_suppressed (io_gap_warn o1) = th_suppressed (io_gap_warn o')
       + (case io_last_arrival_ns o' of None \<Rightarrow> 0 | Some t \<Rightarrow> if millis (arrival - t) > GAP_WARN_MS then 1 else 0)"
proof -
  let ?o = "o'\<lparr>io_records_seen := io_records_seen o' + 1, io_window_records := io_window_records o' + 1\<rparr>"
  obtain o1 w1 where 1: "observe_gap arrival ?o = (o1, w1)" by fastforce
  obtain o2 w2 where 2: "observe_recv r arrival o1 = (o2, w2)" by fastforce
  obtain o3 w3 where 3: "observe_window arrival (observe_order r (observe_feed r o2)) = (o3, w3)" by fastforce
  have "ingress_observe r arrival o' = (o3, w1 @ w2 @ w3)" using 1 2 3 by (simp add: ingress_observe_def)
  with observe_gap_told [where arrival = arrival and o' = ?o] observe_recv_told [where r = r and arrival = arrival and o' = o1]
    observe_rest_told [where arrival = arrival and r = r and o' = o2] 1 2 3
  show ?thesis by simp
qed

text \<open>
  No long gap of the feed goes unreported: the lines that are printed, the gaps they say were suppressed, and those
  still held back add up to the gaps there were.
\<close>

lemma every_feed_gap_is_accounted_for:
  "case ingress_run o' cs of (o1, ws) \<Rightarrow>
     gaps_told ws + th_suppressed (io_gap_warn o1) = th_suppressed (io_gap_warn o') + long_gaps (io_last_arrival_ns o') cs"
proof (induction cs arbitrary: o')
  case (Cons c cs)
  obtain o1 w1 where s1: "ingress_step o' c = (o1, w1)" by fastforce
  obtain o2 w2 where r: "ingress_run o1 cs = (o2, w2)" by fastforce
  have ih: "gaps_told w2 + th_suppressed (io_gap_warn o2) = th_suppressed (io_gap_warn o1) + long_gaps (io_last_arrival_ns o1) cs"
    using Cons.IH [of o1] r by simp
  show ?case
  proof (cases c)
    case (Record_seen rc arrival)
    with ingress_observe_told [where r = rc and arrival = arrival and o' = o'] s1 r ih show ?thesis by simp
  next
    case (Queue_waited ms now)
    with s1 have "io_last_arrival_ns o1 = io_last_arrival_ns o'" "io_gap_warn o1 = io_gap_warn o'" "gaps_told w1 = 0"
      by (auto simp: observe_queue_wait_def Let_def throttle_warning_def gaps_told_def split: if_splits)
    with s1 r ih Queue_waited show ?thesis by simp
  next
    case (Record_dropped now)
    with s1 have "io_last_arrival_ns o1 = io_last_arrival_ns o'" "io_gap_warn o1 = io_gap_warn o'" "gaps_told w1 = 0"
      by (auto simp: record_ingress_drop_def Let_def gaps_told_def split: if_splits)
    with s1 r ih Record_dropped show ?thesis by simp
  qed
qed simp

end
