(* ===== verification/Texts.thy ===== *)
theory Texts
  imports Registry
begin

text \<open>Searching and lower-casing ASCII text, as \<open>in\<close>, \<open>str.lower\<close> and \<open>str.split\<close> do.\<close>

definition contains_text :: "string \<Rightarrow> string \<Rightarrow> bool" where
  "contains_text needle s \<longleftrightarrow> list_ex (\<lambda>i. take (length needle) (drop i s) = needle) [0..<Suc (length s)]"

definition lower_char :: "char \<Rightarrow> char" where
  "lower_char c = (let n = (of_char c :: nat) in if 65 \<le> n \<and> n \<le> 90 then char_of (n + 32) else c)"

definition lower :: "string \<Rightarrow> string" where
  "lower = map lower_char"

definition before_mark :: "char \<Rightarrow> string \<Rightarrow> string" where
  "before_mark c s = takeWhile (\<lambda>x. x \<noteq> c) s"

lemma contains_text_char: "contains_text [c] s \<longleftrightarrow> c \<in> set s"
proof -
  have "take 1 (drop i s) = [c] \<longleftrightarrow> i < length s \<and> s ! i = c" for i
    by (cases "i < length s") (simp_all add: take_Suc hd_drop_conv_nth)
  then show ?thesis by (auto simp: contains_text_def list_ex_iff in_set_conv_nth)
qed

end
