(* ===== verification/Databento_Feed.thy ===== *)
theory Databento_Feed
  imports Live_Ingestion Texts "HOL-Library.Sublist"
begin

text \<open>
  The vendor adapter of the live feed, \<^verbatim>\<open>engines/live/adapters/databento.py\<close>, and its connection to the live
  engine. The vendor's client is a parameter: a session is the list of subscriptions made on it, the records it
  yields, its end and the reconnect after the backoff are steps. The record loop (a thread) and the consumer (a task) interleave in any order, one record
  at a time. A record is its attributes, each of which may be missing; reading a missing one raises, which ends the
  dispatch of that record. Attribute values that are enumerations stand for their text.
\<close>

section \<open>Values\<close>

record book_level =
  bl_bid_px :: int
  bl_bid_sz :: int
  bl_ask_px :: int
  bl_ask_sz :: int

record feed_record =
  fr_rtype :: "int option"
  fr_instrument_id :: "int option"
  fr_ts_event :: "int option"
  fr_ts_recv :: "int option"
  fr_ohlcv :: "(int \<times> int \<times> int \<times> int \<times> int) option"
  fr_levels :: "book_level list option"
  fr_price :: "int option"
  fr_size :: "int option"
  fr_match_type :: "string option"
  fr_side :: "string option"
  fr_sequence :: "string option"
  fr_stype_in_symbol :: "string option"
  fr_msg :: "string option"

definition UNDEF_PRICE :: int where "UNDEF_PRICE = 2 ^ 63 - 1"
definition INGRESS_QUEUE_MAXSIZE :: nat where "INGRESS_QUEUE_MAXSIZE = 50000"
definition OVERLOAD_SIGNAL_NS :: int where "OVERLOAD_SIGNAL_NS = 5000000000"

text \<open>
  \<open>datetime.fromtimestamp (ts_ns / 1e9)\<close>: the integer becomes a float, is divided, and the fraction of the result is
  rounded to microseconds.
\<close>

definition feed_time :: "int \<Rightarrow> timestamp" where
  "feed_time ts_ns =
     (let d = fl (fl (of_int ts_ns) / 10 ^ 9); whole = int_trunc d
      in whole * SECOND + round_half_even (fl ((d - of_int whole) * 10 ^ 6)))"

definition feed_decimal :: "int \<Rightarrow> dec" where
  "feed_decimal raw = dq (of_int raw / 10 ^ 9)"

definition map_taker_side :: "string option \<Rightarrow> taker_side" where
  "map_taker_side side =
     (let s = (case side of None \<Rightarrow> [] | Some t \<Rightarrow> t)
      in if CHR ''A'' \<in> set s then Taker_SELL else if CHR ''B'' \<in> set s then Taker_BUY else Taker_UNKNOWN)"

definition timeframe_schema :: "bar_timeframe \<Rightarrow> string option" where
  "timeframe_schema tf =
     (if tf = TF_S1 then Some ''ohlcv-1s'' else if tf = TF_M1 then Some ''ohlcv-1m''
      else if tf = TF_H1 then Some ''ohlcv-1h'' else if tf = TF_D1 then Some ''ohlcv-1d'' else None)"

definition rtype_timeframe :: "int \<Rightarrow> (bar_timeframe \<times> string) option" where
  "rtype_timeframe rtype =
     (if rtype = 32 then Some (TF_S1, ''ohlcv-1s'') else if rtype = 33 then Some (TF_M1, ''ohlcv-1m'')
      else if rtype = 34 then Some (TF_H1, ''ohlcv-1h'') else if rtype = 35 then Some (TF_D1, ''ohlcv-1d'') else None)"

text \<open>The pattern \<open>Not authorized for (\S+) schema\<close>, searched from the left.\<close>

definition schema_after :: "string \<Rightarrow> string option" where
  "schema_after s =
     (let rest = drop 19 s; word = takeWhile (\<lambda>c. \<not> is_space c) rest
      in if take 19 s = ''Not authorized for '' \<and> word \<noteq> [] \<and> take 7 (drop (length word) rest) = '' schema''
         then Some word else None)"

fun unauthorized_schema :: "string \<Rightarrow> string option" where
  "unauthorized_schema [] = None"
| "unauthorized_schema (c # cs) =
     (case schema_after (c # cs) of Some w \<Rightarrow> Some w | None \<Rightarrow> unauthorized_schema cs)"

section \<open>State\<close>

text \<open>The symbols of a subscription are a set: those of a reconnect come from one.\<close>

record feed_subscription =
  fs_schema :: string
  fs_symbols :: "string set"
  fs_start :: "timestamp option"

text \<open>
  Of a handler, only its presence matters; the bar handlers are kept by ticker and schema. \<open>fa_waiting\<close>: the record
  loop sleeps before a reconnect.
\<close>

record feed_adapter =
  fa_registry :: symbol_registry
  fa_suffix :: string
  fa_session :: "feed_subscription list option"
  fa_thread :: bool
  fa_waiting :: bool
  fa_connected :: bool
  fa_bar_handlers :: "(string \<times> string) set"
  fa_quote_handlers :: "string set"
  fa_trade_handlers :: "string set"
  fa_tick_handlers :: "string set"
  fa_book_handlers :: "string set"
  fa_tickers :: "int \<rightharpoonup> string"
  fa_db_to_ticker :: "string \<rightharpoonup> string"
  fa_sub_specs :: "(string \<times> string set) list"
  fa_observer :: ingress_observer
  fa_skipped_handler :: bool
  fa_slow_handler :: bool
  fa_overload_handler :: bool
  fa_queue :: "(feed_record \<times> int \<times> int) list"
  fa_ingress_dropped :: nat
  fa_last_overload_signal_ns :: "int option"
  fa_consumer :: bool
  fa_backoff :: int

definition feed_adapter_new :: "symbol_registry \<Rightarrow> string \<Rightarrow> int \<Rightarrow> feed_adapter" where
  "feed_adapter_new reg sfx now =
     \<lparr>fa_registry = reg, fa_suffix = sfx, fa_session = None, fa_thread = False, fa_waiting = False, fa_connected = False,
      fa_bar_handlers = {}, fa_quote_handlers = {}, fa_trade_handlers = {}, fa_tick_handlers = {}, fa_book_handlers = {},
      fa_tickers = Map.empty, fa_db_to_ticker = Map.empty, fa_sub_specs = [], fa_observer = ingress_observer_new now,
      fa_skipped_handler = False, fa_slow_handler = False, fa_overload_handler = False, fa_queue = [],
      fa_ingress_dropped = 0, fa_last_overload_signal_ns = None, fa_consumer = False, fa_backoff = 1\<rparr>"

definition databento_symbol :: "feed_adapter \<Rightarrow> string \<Rightarrow> string" where
  "databento_symbol a ticker =
     (case registry_get (fa_registry a) ticker of
        Inl _ \<Rightarrow> ticker
      | Inr sy \<Rightarrow>
          if sy_asset_class sy = Asset_FUTURE
          then (case sy_root_symbol sy of None \<Rightarrow> sy_ticker sy | Some r \<Rightarrow> if r = [] then sy_ticker sy else r) @ fa_suffix a
          else sy_ticker sy)"

definition register_db_symbols :: "string list \<Rightarrow> feed_adapter \<Rightarrow> feed_adapter" where
  "register_db_symbols names a =
     a\<lparr>fa_db_to_ticker := fold (\<lambda>t m. m(databento_symbol a t \<mapsto> t)) names (fa_db_to_ticker a)\<rparr>"

definition resolve_ticker :: "feed_adapter \<Rightarrow> feed_record \<Rightarrow> string option" where
  "resolve_ticker a r = Option.bind (fr_instrument_id r) (fa_tickers a)"

text \<open>Two contracts of one root have the same continuous symbol; its records go to the ticker registered last.\<close>

lemma contracts_of_one_root_collide:
  "databento_symbol a t = databento_symbol a t' \<Longrightarrow>
   fa_db_to_ticker (register_db_symbols [t, t'] a) (databento_symbol a t) = Some t'"
  by (simp add: register_db_symbols_def)

section \<open>Connection and subscriptions\<close>

definition feed_connect :: "feed_adapter \<Rightarrow> feed_adapter" where
  "feed_connect a = a\<lparr>fa_session := Some [], fa_connected := True, fa_consumer := True\<rparr>"

text \<open>
  A loop that reads ends with the stopped session and is joined; a record it has read meanwhile is discarded. A loop that
  sleeps outlives the join.
\<close>

definition feed_disconnect :: "feed_adapter \<Rightarrow> feed_adapter" where
  "feed_disconnect a =
     a\<lparr>fa_connected := False, fa_consumer := False, fa_session := None, fa_thread := fa_thread a \<and> fa_waiting a\<rparr>"

definition add_spec :: "string \<Rightarrow> string set \<Rightarrow> (string \<times> string set) list \<Rightarrow> (string \<times> string set) list" where
  "add_spec schema syms specs = AList.update schema ((case map_of specs schema of None \<Rightarrow> {} | Some old \<Rightarrow> old) \<union> syms) specs"

text \<open>What the subscriptions share: without a session they raise.\<close>

definition subscribe_schema ::
  "string \<Rightarrow> string list \<Rightarrow> timestamp option \<Rightarrow> feed_adapter \<Rightarrow> string + feed_adapter" where
  "subscribe_schema schema names start_t a =
     (case fa_session a of
        None \<Rightarrow> Inl ''Call connect() before subscribing''
      | Some subs \<Rightarrow>
          (let syms = databento_symbol a ` set names
           in Inr ((register_db_symbols names a)
                \<lparr>fa_session := Some (subs @ [\<lparr>fs_schema = schema, fs_symbols = syms, fs_start = start_t\<rparr>]),
                 fa_sub_specs := add_spec schema syms (fa_sub_specs a)\<rparr>)))"

definition feed_subscribe_bars ::
  "string list \<Rightarrow> bar_timeframe \<Rightarrow> timestamp option \<Rightarrow> feed_adapter \<Rightarrow> string + feed_adapter" where
  "feed_subscribe_bars names tf start_t a =
     (case timeframe_schema tf of
        None \<Rightarrow> if fa_session a = None then Inl ''Call connect() before subscribing'' else Inr a
      | Some schema \<Rightarrow>
          map_sum id (\<lambda>a. a\<lparr>fa_bar_handlers := fa_bar_handlers a \<union> (\<lambda>t. (t, schema)) ` set names\<rparr>)
            (subscribe_schema schema names start_t a))"

definition feed_subscribe_trades :: "string list \<Rightarrow> feed_adapter \<Rightarrow> string + feed_adapter" where
  "feed_subscribe_trades names a =
     map_sum id (\<lambda>a. a\<lparr>fa_trade_handlers := fa_trade_handlers a \<union> set names\<rparr>) (subscribe_schema ''trades'' names None a)"

definition feed_subscribe_quotes :: "string list \<Rightarrow> feed_adapter \<Rightarrow> string + feed_adapter" where
  "feed_subscribe_quotes names a =
     map_sum id (\<lambda>a. a\<lparr>fa_quote_handlers := fa_quote_handlers a \<union> set names\<rparr>) (subscribe_schema ''mbp-1'' names None a)"

definition feed_subscribe_order_book :: "string list \<Rightarrow> feed_adapter \<Rightarrow> string + feed_adapter" where
  "feed_subscribe_order_book names a =
     map_sum id (\<lambda>a. a\<lparr>fa_book_handlers := fa_book_handlers a \<union> set names\<rparr>) (subscribe_schema ''mbp-10'' names None a)"

definition feed_subscribe_ticks :: "string list \<Rightarrow> feed_adapter \<Rightarrow> string + feed_adapter" where
  "feed_subscribe_ticks names a =
     map_sum id (\<lambda>a. a\<lparr>fa_tick_handlers := fa_tick_handlers a \<union> set names\<rparr>)
       (if fa_session a = None then Inl ''Call connect() before subscribing''
        else if list_ex (\<lambda>t. t \<in> fa_trade_handlers a) names then Inr (register_db_symbols names a)
        else subscribe_schema ''trades'' names None a)"

text \<open>A loop that is started without a connection ends at once.\<close>

definition feed_start_stream :: "feed_adapter \<Rightarrow> feed_adapter" where
  "feed_start_stream a =
     (if fa_thread a \<or> \<not> fa_connected a \<or> fa_session a = None then a
      else a\<lparr>fa_thread := True, fa_waiting := False, fa_backoff := 1\<rparr>)"

section \<open>The record loop\<close>

definition observed_record :: "feed_record \<Rightarrow> ingress_record" where
  "observed_record r =
     \<lparr>ir_ts_recv = fr_ts_recv r, ir_ts_event = fr_ts_event r, ir_instrument_id = fr_instrument_id r, ir_rtype = fr_rtype r\<rparr>"

definition overload_due :: "int \<Rightarrow> feed_adapter \<Rightarrow> bool" where
  "overload_due now_ns a \<longleftrightarrow>
     fa_overload_handler a
     \<and> (case fa_last_overload_signal_ns a of None \<Rightarrow> True | Some t \<Rightarrow> now_ns - t \<ge> OVERLOAD_SIGNAL_NS)"

text \<open>A full queue drops the record; the flag returned tells whether the overload handler is called.\<close>

definition ingress_drop :: "int \<Rightarrow> feed_adapter \<Rightarrow> feed_adapter \<times> bool" where
  "ingress_drop now_ns a =
     (let a = a\<lparr>fa_ingress_dropped := fa_ingress_dropped a + 1,
                fa_observer := fst (record_ingress_drop now_ns (fa_observer a))\<rparr>
      in if overload_due now_ns a then (a\<lparr>fa_last_overload_signal_ns := Some now_ns\<rparr>, True) else (a, False))"

definition ingress_put :: "feed_record \<Rightarrow> int \<Rightarrow> int \<Rightarrow> int \<Rightarrow> feed_adapter \<Rightarrow> feed_adapter \<times> bool" where
  "ingress_put r wall_ns mono_ns now_ns a =
     (let a = a\<lparr>fa_observer := fst (ingress_observe (observed_record r) wall_ns (fa_observer a))\<rparr>
      in if length (fa_queue a) < INGRESS_QUEUE_MAXSIZE then (a\<lparr>fa_queue := fa_queue a @ [(r, wall_ns, mono_ns)]\<rparr>, False)
         else ingress_drop now_ns a)"

text \<open>The session yields a record. A loop that finds the adapter disconnected, or the event loop stopped, ends.\<close>

definition loop_reads :: "feed_adapter \<Rightarrow> bool" where
  "loop_reads a \<longleftrightarrow> fa_thread a \<and> \<not> fa_waiting a \<and> fa_session a \<noteq> None"

definition record_arrives :: "bool \<Rightarrow> feed_record \<Rightarrow> int \<Rightarrow> int \<Rightarrow> int \<Rightarrow> feed_adapter \<Rightarrow> feed_adapter \<times> bool" where
  "record_arrives loop_running r wall_ns mono_ns now_ns a =
     (if \<not> loop_reads a then (a, False)
      else if \<not> fa_connected a \<or> \<not> loop_running then (a\<lparr>fa_thread := False\<rparr>, False)
      else ingress_put r wall_ns mono_ns now_ns a)"

datatype session_end = Server_closed | Vendor_error string | Other_error

definition drop_unauthorized :: "session_end \<Rightarrow> feed_adapter \<Rightarrow> feed_adapter" where
  "drop_unauthorized why a =
     (case why of
        Vendor_error msg \<Rightarrow>
          if contains_text ''pop from an empty deque'' msg then a
          else (case unauthorized_schema msg of None \<Rightarrow> a | Some schema \<Rightarrow> a\<lparr>fa_sub_specs := AList.delete schema (fa_sub_specs a)\<rparr>)
      | _ \<Rightarrow> a)"

text \<open>A reconnect succeeds, fails to make a client, or fails at the subscription after the first \<open>n\<close>.\<close>

datatype reconnect_outcome = Reconnected | Client_fails | Subscribe_fails nat

definition spec_subscriptions :: "(string \<times> string set) list \<Rightarrow> feed_subscription list" where
  "spec_subscriptions specs = map (\<lambda>(schema, syms). \<lparr>fs_schema = schema, fs_symbols = syms, fs_start = None\<rparr>) specs"

definition feed_reconnect :: "reconnect_outcome \<Rightarrow> feed_adapter \<Rightarrow> feed_adapter" where
  "feed_reconnect outcome a =
     (case outcome of
        Client_fails \<Rightarrow> a
      | Subscribe_fails n \<Rightarrow>
          a\<lparr>fa_session := Some (spec_subscriptions (take n (fa_sub_specs a))), fa_tickers := Map.empty\<rparr>
      | Reconnected \<Rightarrow>
          a\<lparr>fa_session := Some (spec_subscriptions (fa_sub_specs a)), fa_tickers := Map.empty\<rparr>)"

definition MAX_BACKOFF :: int where "MAX_BACKOFF = 60"

text \<open>The session ends: unless the adapter was disconnected, the loop sleeps for the backoff.\<close>

definition session_ends :: "session_end \<Rightarrow> feed_adapter \<Rightarrow> feed_adapter" where
  "session_ends why a =
     (if \<not> loop_reads a then a
      else
        (let a = drop_unauthorized why a
         in if \<not> fa_connected a then a\<lparr>fa_connected := False, fa_thread := False\<rparr> else a\<lparr>fa_waiting := True\<rparr>))"

text \<open>
  The sleep is over, whatever happened meanwhile: the loop reconnects without a look at \<open>_connected\<close>, goes on when the adapter
  is still connected, and ends otherwise.
\<close>

definition backoff_over :: "reconnect_outcome \<Rightarrow> feed_adapter \<Rightarrow> feed_adapter" where
  "backoff_over outcome a =
     (if \<not> fa_thread a \<or> \<not> fa_waiting a then a
      else
        (let a = feed_reconnect outcome (a\<lparr>fa_waiting := False, fa_backoff := min (fa_backoff a * 2) MAX_BACKOFF\<rparr>);
             a = (if outcome = Reconnected then a\<lparr>fa_backoff := 1\<rparr> else a)
         in if \<not> fa_connected a \<or> fa_session a = None then a\<lparr>fa_connected := False, fa_thread := False\<rparr> else a))"

section \<open>Dispatch\<close>

datatype feed_effect =
  Emit_bar bar_event
| Emit_quote stored_quote "dec option"
| Emit_tick string rat int
| Emit_trade stored_trade
| Emit_book order_book_event
| Signal_skipped
| Signal_slow

definition feed_metadata :: "uuid \<Rightarrow> timestamp \<Rightarrow> event_metadata" where
  "feed_metadata new_id now =
     \<lparr>em_event_id = new_id, em_source = DataSource_DATABENTO, em_received_at = now, em_is_replay = False, em_sequence_num = None\<rparr>"

definition dispatch_bar :: "uuid \<Rightarrow> timestamp \<Rightarrow> feed_record \<Rightarrow> bar_timeframe \<times> string \<Rightarrow> feed_adapter \<Rightarrow> feed_effect list" where
  "dispatch_bar new_id now r ts a =
     (case (resolve_ticker a r, fr_ts_event r, fr_ohlcv r) of
        (Some ticker, Some t, Some (op, hi, lo, cl, vol)) \<Rightarrow>
          if (ticker, snd ts) \<in> fa_bar_handlers a
          then [Emit_bar
                 \<lparr>be_symbol = ticker, be_timestamp = feed_time t, be_metadata = feed_metadata new_id now, be_timeframe = fst ts,
                  be_open = feed_decimal op, be_high = feed_decimal hi, be_low = feed_decimal lo, be_close = feed_decimal cl,
                  be_volume = vol, be_vwap = None, be_trade_count = None, be_is_partial = False,
                  be_is_pipeline_fallback = False\<rparr>]
          else []
      | _ \<Rightarrow> [])"

text \<open>A missing price attribute counts as the undefined price.\<close>

definition quote_event_of :: "uuid \<Rightarrow> timestamp \<Rightarrow> string \<Rightarrow> int \<Rightarrow> book_level \<Rightarrow> stored_quote" where
  "quote_event_of new_id now ticker t lvl =
     \<lparr>qe_symbol = ticker, qe_timestamp = feed_time t, qe_bid_price = feed_decimal (bl_bid_px lvl), qe_bid_size = bl_bid_sz lvl,
      qe_ask_price = feed_decimal (bl_ask_px lvl), qe_ask_size = bl_ask_sz lvl,
      sq_metadata = feed_metadata new_id now, sq_bid_exchange = None, sq_ask_exchange = None\<rparr>"

definition dispatch_quote :: "uuid \<Rightarrow> timestamp \<Rightarrow> feed_record \<Rightarrow> feed_adapter \<Rightarrow> feed_effect list" where
  "dispatch_quote new_id now r a =
     (case (resolve_ticker a r, fr_levels r, fr_ts_event r) of
        (Some ticker, Some (lvl # _), Some t) \<Rightarrow>
          if ticker \<notin> fa_quote_handlers a \<or> bl_bid_px lvl = UNDEF_PRICE \<or> bl_ask_px lvl = UNDEF_PRICE then []
          else
            (let raw = (case fr_price r of None \<Rightarrow> UNDEF_PRICE | Some p \<Rightarrow> p)
             in [Emit_quote (quote_event_of new_id now ticker t lvl)
                   (if raw \<noteq> UNDEF_PRICE then Some (feed_decimal raw) else None)])
      | _ \<Rightarrow> [])"

definition trade_event_of :: "uuid \<Rightarrow> timestamp \<Rightarrow> string \<Rightarrow> int \<Rightarrow> int \<Rightarrow> int \<Rightarrow> feed_record \<Rightarrow> stored_trade" where
  "trade_event_of new_id now ticker t raw_price size_n r =
     \<lparr>te_symbol = ticker, te_timestamp = feed_time t, te_price = feed_decimal raw_price, te_size = size_n,
      te_taker_side = map_taker_side (fr_side r), st_metadata = feed_metadata new_id now, st_conditions = [], st_exchange = None,
      st_trade_id = Some (case fr_sequence r of None \<Rightarrow> [] | Some q \<Rightarrow> q)\<rparr>"

text \<open>The tick handler is called before the event is built, also when building it fails.\<close>

definition dispatch_trade :: "uuid \<Rightarrow> timestamp \<Rightarrow> feed_record \<Rightarrow> feed_adapter \<Rightarrow> feed_effect list" where
  "dispatch_trade new_id now r a =
     (case (resolve_ticker a r, fr_price r, fr_size r) of
        (Some ticker, Some p, Some n) \<Rightarrow>
          if (case fr_match_type r of None \<Rightarrow> False | Some m \<Rightarrow> m \<noteq> ''E'' \<and> m \<noteq> []) then []
          else
            (if ticker \<in> fa_tick_handlers a then [Emit_tick ticker (fl (feed_decimal p)) n] else [])
            @ (if ticker \<in> fa_trade_handlers a
               then (case fr_ts_event r of None \<Rightarrow> [] | Some t \<Rightarrow> [Emit_trade (trade_event_of new_id now ticker t p n r)])
               else [])
      | _ \<Rightarrow> [])"

definition dispatch_book :: "uuid \<Rightarrow> timestamp \<Rightarrow> feed_record \<Rightarrow> feed_adapter \<Rightarrow> feed_effect list" where
  "dispatch_book new_id now r a =
     (case (resolve_ticker a r, fr_ts_event r) of
        (Some ticker, Some t) \<Rightarrow>
          if ticker \<in> fa_book_handlers a
          then (let levels = (case fr_levels r of None \<Rightarrow> [] | Some ls \<Rightarrow> ls)
                in [Emit_book
                      \<lparr>ob_symbol = ticker, ob_timestamp = feed_time t, ob_metadata = feed_metadata new_id now,
                       ob_bids = map (\<lambda>l. (feed_decimal (bl_bid_px l), bl_bid_sz l)) levels,
                       ob_asks = map (\<lambda>l. (feed_decimal (bl_ask_px l), bl_ask_sz l)) levels, ob_is_snapshot = False\<rparr>])
          else []
      | _ \<Rightarrow> [])"

definition handle_symbol_mapping :: "feed_record \<Rightarrow> feed_adapter \<Rightarrow> feed_adapter" where
  "handle_symbol_mapping r a =
     (case (fr_instrument_id r, fr_stype_in_symbol r) of
        (Some iid, Some requested) \<Rightarrow>
          (case fa_db_to_ticker a requested of
             None \<Rightarrow> a
           | Some ticker \<Rightarrow> if requested = [] then a else a\<lparr>fa_tickers := (fa_tickers a)(iid \<mapsto> ticker)\<rparr>)
      | _ \<Rightarrow> a)"

definition system_message :: "feed_record \<Rightarrow> feed_adapter \<Rightarrow> feed_effect list" where
  "system_message r a =
     (let msg = upper (case fr_msg r of None \<Rightarrow> [] | Some m \<Rightarrow> m)
      in if contains_text ''SKIPPED'' msg then (if fa_skipped_handler a then [Signal_skipped] else [])
         else if contains_text ''SLOW'' msg then (if fa_slow_handler a then [Signal_slow] else [])
         else [])"

definition feed_dispatch :: "uuid \<Rightarrow> timestamp \<Rightarrow> feed_record \<Rightarrow> feed_adapter \<Rightarrow> feed_adapter \<times> feed_effect list" where
  "feed_dispatch new_id now r a =
     (case fr_rtype r of
        None \<Rightarrow> (a, [])
      | Some rtype \<Rightarrow>
          (case rtype_timeframe rtype of
             Some ts \<Rightarrow> (a, dispatch_bar new_id now r ts a)
           | None \<Rightarrow>
               if rtype = 1 then (a, dispatch_quote new_id now r a)
               else if rtype = 10 then (a, dispatch_book new_id now r a)
               else if rtype = 0 then (a, dispatch_trade new_id now r a)
               else if rtype = 22 then (handle_symbol_mapping r a, [])
               else if rtype = 23 then (a, system_message r a)
               else (a, [])))"

text \<open>The consumer takes the oldest record; \<open>mono_now\<close> and \<open>now_ns\<close> are the two clocks it reads.\<close>

definition consume_record ::
  "int \<Rightarrow> int \<Rightarrow> uuid \<Rightarrow> timestamp \<Rightarrow> feed_adapter \<Rightarrow> feed_adapter \<times> feed_effect list" where
  "consume_record mono_now now_ns new_id now a =
     (case fa_queue a of
        [] \<Rightarrow> (a, [])
      | (r, wall_ns, mono_ns) # rest \<Rightarrow>
          if \<not> fa_consumer a then (a, [])
          else feed_dispatch new_id now r
                 (a\<lparr>fa_queue := rest, fa_observer := fst (observe_queue_wait (millis (mono_now - mono_ns)) now_ns (fa_observer a))\<rparr>))"


text \<open>The three setters; only the first has a caller, \<open>register_adapter\<close> of the live engine.\<close>

definition set_skipped_records_handler :: "feed_adapter \<Rightarrow> feed_adapter" where
  "set_skipped_records_handler a = a\<lparr>fa_skipped_handler := True\<rparr>"

definition set_slow_reader_handler :: "feed_adapter \<Rightarrow> feed_adapter" where
  "set_slow_reader_handler a = a\<lparr>fa_slow_handler := True\<rparr>"

definition set_ingress_overload_handler :: "feed_adapter \<Rightarrow> feed_adapter" where
  "set_ingress_overload_handler a = a\<lparr>fa_overload_handler := True\<rparr>"

text \<open>What the live engine calls; symbols cannot be added to or removed from a running session.\<close>

fun perform_call :: "adapter_call \<Rightarrow> feed_adapter \<Rightarrow> string + feed_adapter" where
  "perform_call (Set_skipped_records_handler _) a = Inr (set_skipped_records_handler a)"
| "perform_call (Connect _) a = Inr (feed_connect a)"
| "perform_call (Disconnect _) a = Inr (feed_disconnect a)"
| "perform_call (Subscribe_bars _ names tf start_t) a = feed_subscribe_bars names tf start_t a"
| "perform_call (Subscribe_trades _ names) a = feed_subscribe_trades names a"
| "perform_call (Subscribe_quotes _ names) a = feed_subscribe_quotes names a"
| "perform_call (Start_stream _) a = Inr (feed_start_stream a)"
| "perform_call (Add_symbols _ names) a = Inr a"
| "perform_call (Remove_symbols _ names) a = Inr a"
| "perform_call (Subscribe_tick_trades _ names) a = feed_subscribe_ticks names a"

fun perform_calls :: "adapter_call list \<Rightarrow> feed_adapter \<Rightarrow> string + feed_adapter" where
  "perform_calls [] a = Inr a"
| "perform_calls (c # cs) a = (case perform_call c a of Inl err \<Rightarrow> Inl err | Inr a \<Rightarrow> perform_calls cs a)"

datatype adapter_cmd =
  Call_made adapter_call
| Record_arrives bool feed_record int int int
| Session_ends session_end
| Backoff_over reconnect_outcome
| Consumer_takes int int uuid timestamp

text \<open>One step: the adapter, the effects of a dispatch, and whether the overload handler is called.\<close>

fun adapter_step :: "feed_adapter \<Rightarrow> adapter_cmd \<Rightarrow> feed_adapter \<times> feed_effect list \<times> bool" where
  "adapter_step a (Call_made c) = (case perform_call c a of Inl _ \<Rightarrow> a | Inr a' \<Rightarrow> a', [], False)"
| "adapter_step a (Record_arrives running r wall_ns mono_ns now_ns) =
     (case record_arrives running r wall_ns mono_ns now_ns a of (a', overload) \<Rightarrow> (a', [], overload))"
| "adapter_step a (Session_ends why) = (session_ends why a, [], False)"
| "adapter_step a (Backoff_over outcome) = (backoff_over outcome a, [], False)"
| "adapter_step a (Consumer_takes mono_now now_ns new_id now) =
     (case consume_record mono_now now_ns new_id now a of (a', effects) \<Rightarrow> (a', effects, False))"

definition adapter_run :: "feed_adapter \<Rightarrow> adapter_cmd list \<Rightarrow> feed_adapter" where
  "adapter_run = foldl (\<lambda>a c. fst (adapter_step a c))"

section \<open>Every record read is dispatched, queued or counted\<close>

definition record_read :: "feed_adapter \<Rightarrow> adapter_cmd \<Rightarrow> feed_record list" where
  "record_read a c =
     (case c of
        Record_arrives running r _ _ _ \<Rightarrow> if loop_reads a \<and> fa_connected a \<and> running then [r] else []
      | _ \<Rightarrow> [])"

definition record_taken :: "feed_adapter \<Rightarrow> adapter_cmd \<Rightarrow> feed_record list" where
  "record_taken a c =
     (case c of
        Consumer_takes _ _ _ _ \<Rightarrow> if fa_consumer a then map fst (take 1 (fa_queue a)) else []
      | _ \<Rightarrow> [])"

fun records_along :: "(feed_adapter \<Rightarrow> adapter_cmd \<Rightarrow> 'r list) \<Rightarrow> feed_adapter \<Rightarrow> adapter_cmd list \<Rightarrow> 'r list" where
  "records_along f a [] = []"
| "records_along f a (c # cs) = f a c @ records_along f (fst (adapter_step a c)) cs"

definition queued :: "feed_adapter \<Rightarrow> feed_record list" where
  "queued a = map fst (fa_queue a)"

lemma subscribe_schema_frame:
  "subscribe_schema schema names start_t a = Inr a' \<Longrightarrow>
   fa_queue a' = fa_queue a \<and> fa_ingress_dropped a' = fa_ingress_dropped a \<and> fa_observer a' = fa_observer a
   \<and> fa_overload_handler a' = fa_overload_handler a \<and> fa_slow_handler a' = fa_slow_handler a"
  by (cases "fa_session a") (auto simp: subscribe_schema_def register_db_symbols_def Let_def)

lemma map_sum_Inr: "map_sum f g x = Inr y \<longleftrightarrow> (\<exists>z. x = Inr z \<and> y = g z)"
  by (cases x) auto

lemma perform_call_frame:
  "perform_call c a = Inr a' \<Longrightarrow>
   fa_queue a' = fa_queue a \<and> fa_ingress_dropped a' = fa_ingress_dropped a \<and> fa_observer a' = fa_observer a
   \<and> fa_overload_handler a' = fa_overload_handler a \<and> fa_slow_handler a' = fa_slow_handler a"
proof (cases c)
  case (Subscribe_tick_trades src names)
  then show "perform_call c a = Inr a' \<Longrightarrow> ?thesis"
    by (auto simp: feed_subscribe_ticks_def map_sum_Inr register_db_symbols_def split: if_splits dest: subscribe_schema_frame)
qed (auto simp: set_skipped_records_handler_def feed_connect_def feed_disconnect_def feed_start_stream_def
    feed_subscribe_bars_def feed_subscribe_trades_def feed_subscribe_quotes_def map_sum_Inr
    split: option.splits if_splits dest: subscribe_schema_frame)

lemma drop_unauthorized_cases:
  "drop_unauthorized why a = a \<or> (\<exists>schema. drop_unauthorized why a = a\<lparr>fa_sub_specs := AList.delete schema (fa_sub_specs a)\<rparr>)"
  by (cases why) (auto simp: drop_unauthorized_def split: option.split)

lemma session_ends_frame:
  "fa_queue (session_ends why a) = fa_queue a \<and> fa_ingress_dropped (session_ends why a) = fa_ingress_dropped a
   \<and> fa_observer (session_ends why a) = fa_observer a
   \<and> fa_overload_handler (session_ends why a) = fa_overload_handler a
   \<and> fa_slow_handler (session_ends why a) = fa_slow_handler a"
  using drop_unauthorized_cases [of why a] by (auto simp: session_ends_def Let_def)

lemma backoff_over_frame:
  "fa_queue (backoff_over outcome a) = fa_queue a \<and> fa_ingress_dropped (backoff_over outcome a) = fa_ingress_dropped a
   \<and> fa_observer (backoff_over outcome a) = fa_observer a
   \<and> fa_overload_handler (backoff_over outcome a) = fa_overload_handler a
   \<and> fa_slow_handler (backoff_over outcome a) = fa_slow_handler a"
  by (cases outcome) (simp_all add: backoff_over_def feed_reconnect_def Let_def)

lemma feed_dispatch_frame:
  "case feed_dispatch new_id now r a of (a', effects) \<Rightarrow>
     fa_queue a' = fa_queue a \<and> fa_ingress_dropped a' = fa_ingress_dropped a \<and> fa_observer a' = fa_observer a
     \<and> fa_overload_handler a' = fa_overload_handler a \<and> fa_slow_handler a' = fa_slow_handler a"
  by (auto simp: feed_dispatch_def handle_symbol_mapping_def split: option.splits)

lemma observer_parts_total_dropped:
  "io_total_dropped (fst (observe_gap arrival o')) = io_total_dropped o'"
  "io_total_dropped (fst (observe_recv r arrival o')) = io_total_dropped o'"
  "io_total_dropped (observe_feed r o') = io_total_dropped o'"
  "io_total_dropped (observe_order r o') = io_total_dropped o'"
  "io_total_dropped (fst (observe_window arrival o')) = io_total_dropped o'"
  by (simp_all add: observe_gap_def observe_recv_def observe_feed_def observe_order_def observe_window_def
      reset_observer_window_def throttle_warning_def Let_def split: option.split prod.split)

lemma observer_total_dropped [simp]:
  "io_total_dropped (fst (ingress_observe r arrival o')) = io_total_dropped o'"
  "io_total_dropped (fst (observe_queue_wait ms now o')) = io_total_dropped o'"
  "io_total_dropped (fst (record_ingress_drop now o')) = io_total_dropped o' + 1"
  by (simp_all add: ingress_observe_def observer_parts_total_dropped observe_queue_wait_def record_ingress_drop_def Let_def case_prod_beta)

text \<open>What one step does to the queue and the two counters of lost records.\<close>

lemma adapter_step_queue:
  fixes a :: feed_adapter and c :: adapter_cmd
  defines "a' \<equiv> fst (adapter_step a c)"
  obtains acc where "record_taken a c @ queued a' = queued a @ acc" "subseq acc (record_read a c)"
    "length acc + fa_ingress_dropped a' = length (record_read a c) + fa_ingress_dropped a"
    "length (fa_queue a) \<le> INGRESS_QUEUE_MAXSIZE \<Longrightarrow> length (fa_queue a') \<le> INGRESS_QUEUE_MAXSIZE"
    "io_total_dropped (fa_observer a') + fa_ingress_dropped a = io_total_dropped (fa_observer a) + fa_ingress_dropped a'"
proof (cases c)
  case (Call_made call)
  then have "fa_queue a' = fa_queue a \<and> fa_ingress_dropped a' = fa_ingress_dropped a \<and> fa_observer a' = fa_observer a"
    using perform_call_frame [of call a] by (auto simp: a'_def split: sum.split)
  with Call_made that [of "[]"] show thesis by (simp add: record_taken_def record_read_def queued_def)
next
  case (Session_ends why)
  with session_ends_frame [of why a] that [of "[]"] show thesis
    by (simp add: record_taken_def record_read_def queued_def a'_def)
next
  case (Backoff_over outcome)
  with backoff_over_frame [of outcome a] that [of "[]"] show thesis
    by (simp add: record_taken_def record_read_def queued_def a'_def)
next
  case (Record_arrives running r wall_ns mono_ns now_ns)
  show thesis
  proof (cases "record_read a c = []")
    case True
    with Record_arrives have "fa_queue a' = fa_queue a \<and> fa_ingress_dropped a' = fa_ingress_dropped a \<and> fa_observer a' = fa_observer a"
      by (auto simp: a'_def record_read_def record_arrives_def split: if_splits)
    with True Record_arrives that [of "[]"] show thesis by (simp add: record_taken_def queued_def)
  next
    case False
    with Record_arrives have step: "a' = fst (ingress_put r wall_ns mono_ns now_ns a)" and read: "record_read a c = [r]"
      by (auto simp: a'_def record_read_def record_arrives_def split: if_splits prod.splits)
    show thesis
    proof (cases "length (fa_queue a) < INGRESS_QUEUE_MAXSIZE")
      case True
      with step read Record_arrives that [of "[r]"] show thesis
        by (simp add: ingress_put_def Let_def queued_def record_taken_def)
    next
      case False
      with step read Record_arrives that [of "[]"] show thesis
        by (simp add: ingress_put_def ingress_drop_def Let_def queued_def record_taken_def)
    qed
  qed
next
  case (Consumer_takes mono_now now_ns new_id now)
  show thesis
  proof (cases "fa_queue a = [] \<or> \<not> fa_consumer a")
    case True
    with Consumer_takes have "a' = a" by (auto simp: a'_def consume_record_def split: list.split)
    with True Consumer_takes that [of "[]"] show thesis by (auto simp: record_taken_def record_read_def queued_def)
  next
    case False
    then obtain r wall_ns mono_ns rest where q: "fa_queue a = (r, wall_ns, mono_ns) # rest" by (cases "fa_queue a") auto
    with False Consumer_takes feed_dispatch_frame [where new_id = new_id and now = now and r = r and a =
        "a\<lparr>fa_queue := rest, fa_observer := fst (observe_queue_wait (millis (mono_now - mono_ns)) now_ns (fa_observer a))\<rparr>"]
    have "fa_queue a' = rest \<and> fa_ingress_dropped a' = fa_ingress_dropped a
        \<and> io_total_dropped (fa_observer a') = io_total_dropped (fa_observer a)"
      by (auto simp: a'_def consume_record_def split: prod.splits)
    with q False Consumer_takes that [of "[]"] show thesis by (simp add: record_taken_def record_read_def queued_def)
  qed
qed

lemma adapter_run_simps [simp]:
  "adapter_run a [] = a" "adapter_run a (c # cs) = adapter_run (fst (adapter_step a c)) cs"
  by (simp_all add: adapter_run_def)

lemma adapter_run_queue:
  "length (fa_queue a) \<le> INGRESS_QUEUE_MAXSIZE \<Longrightarrow> io_total_dropped (fa_observer a) = fa_ingress_dropped a \<Longrightarrow>
   subseq (records_along record_taken a cs @ queued (adapter_run a cs)) (queued a @ records_along record_read a cs)
   \<and> length (records_along record_taken a cs) + length (queued (adapter_run a cs)) + fa_ingress_dropped (adapter_run a cs)
     = length (queued a) + length (records_along record_read a cs) + fa_ingress_dropped a
   \<and> length (fa_queue (adapter_run a cs)) \<le> INGRESS_QUEUE_MAXSIZE
   \<and> io_total_dropped (fa_observer (adapter_run a cs)) = fa_ingress_dropped (adapter_run a cs)"
proof (induction cs arbitrary: a)
  case (Cons c cs)
  define a' where "a' = fst (adapter_step a c)"
  obtain acc where acc: "record_taken a c @ queued a' = queued a @ acc" "subseq acc (record_read a c)"
    "length acc + fa_ingress_dropped a' = length (record_read a c) + fa_ingress_dropped a"
    "length (fa_queue a') \<le> INGRESS_QUEUE_MAXSIZE" "io_total_dropped (fa_observer a') = fa_ingress_dropped a'"
    using adapter_step_queue [of a c] Cons.prems unfolding a'_def by (metis add_right_cancel add.commute)
  note ih = Cons.IH [OF acc(4,5)]
  let ?t = "records_along record_taken a' cs @ queued (adapter_run a' cs)" and ?r = "records_along record_read a' cs"
  have "subseq (record_taken a c @ ?t) (record_taken a c @ queued a' @ ?r)" using ih by (simp add: list_emb_append_mono)
  also have "subseq (record_taken a c @ queued a' @ ?r) (queued a @ record_read a c @ ?r)"
    unfolding append_assoc [symmetric] acc(1) using acc(2) by (simp add: list_emb_append_mono)
  finally have "subseq (record_taken a c @ ?t) (queued a @ record_read a c @ ?r)" .
  moreover have "length (record_taken a c) + length (queued a') = length (queued a) + length acc"
    using arg_cong [OF acc(1), of length] by simp
  ultimately show ?case using ih acc(3) by (simp add: a'_def [symmetric])
qed simp

text \<open>
  C14. Every record read from the vendor is dispatched, still queued, or counted as lost, in both counters; what is
  dispatched comes in the order it was read, and the queue stays within its bound, however the record loop, the
  consumer, reconnects and calls of the engine interleave. A record that a loop has in hand when it finds the adapter
  disconnected or the event loop stopped is not read: it is discarded uncounted, and the loop ends.
\<close>

theorem every_record_is_accounted_for:
  fixes cmds :: "adapter_cmd list" and reg :: symbol_registry and sfx :: string and now :: int
  defines "a0 \<equiv> feed_adapter_new reg sfx now"
  defines "a \<equiv> adapter_run a0 cmds"
  shows "subseq (records_along record_taken a0 cmds @ queued a) (records_along record_read a0 cmds)
    \<and> length (records_along record_taken a0 cmds) + length (queued a) + fa_ingress_dropped a = length (records_along record_read a0 cmds)
    \<and> length (fa_queue a) \<le> INGRESS_QUEUE_MAXSIZE \<and> io_total_dropped (fa_observer a) = fa_ingress_dropped a"
  using adapter_run_queue [of a0 cmds]
  by (simp add: a_def a0_def queued_def feed_adapter_new_def ingress_observer_new_def)

section \<open>Times\<close>

lemma abs_diff_trans: "\<bar>x - y\<bar> \<le> a \<Longrightarrow> \<bar>y - z\<bar> \<le> b \<Longrightarrow> \<bar>x - z\<bar> \<le> a + b" for x y z a b :: rat
  by linarith

lemma feed_seconds_near:
  assumes "0 \<le> ns" "ns < 2 ^ 31 * 10 ^ 9"
  shows "\<bar>fl (fl (of_int ns) / 10 ^ 9) - of_int ns / 10 ^ 9\<bar> \<le> 48 / 10 ^ 8"
proof -
  let ?x = "fl (of_int ns) / 10 ^ 9"
  have "of_int ns \<le> (of_int (2 ^ 31 * 10 ^ 9) :: rat)" using assms(2) by (simp only: of_int_le_iff)
  then have ns: "(0 :: rat) \<le> of_int ns" "(of_int ns :: rat) \<le> 2 ^ 31 * 10 ^ 9" using assms(1) by simp_all
  have 1: "\<bar>fl (of_int ns) - of_int ns\<bar> \<le> 2 ^ 31 * 10 ^ 9 / 2 ^ 53"
    using fl_error [of "of_int ns"] ns by simp
  have "0 \<le> ?x" using ns(1) by (simp add: fl_nonneg)
  moreover have "?x \<le> 2 ^ 31 + 1" using abs_le_D1 [OF 1] ns(2) by simp
  ultimately have "\<bar>fl ?x - ?x\<bar> \<le> (2 ^ 31 + 1) / 2 ^ 53" using fl_error [of ?x] by simp
  moreover have "\<bar>?x - of_int ns / 10 ^ 9\<bar> \<le> 2 ^ 31 / 2 ^ 53"
    using 1 by (simp add: diff_divide_distrib [symmetric])
  ultimately have "\<bar>fl ?x - of_int ns / 10 ^ 9\<bar> \<le> (2 ^ 31 + 1) / 2 ^ 53 + 2 ^ 31 / 2 ^ 53" by (rule abs_diff_trans)
  then show ?thesis by simp
qed

lemma feed_time_near_seconds:
  assumes "0 \<le> d"
  shows "\<bar>of_int (int_trunc d * SECOND + round_half_even (fl ((d - of_int (int_trunc d)) * 10 ^ 6))) - d * 10 ^ 6\<bar> \<le> 1/2 + 1 / 10 ^ 9"
proof -
  let ?y = "(d - of_int (int_trunc d)) * 10 ^ 6"
  have y: "0 \<le> ?y" "?y \<le> 10 ^ 6" using int_trunc_le [OF assms] int_trunc_gt [OF assms] by (auto simp: algebra_simps)
  have "\<bar>fl ?y - ?y\<bar> \<le> 1 / 10 ^ 9" using fl_error [of ?y] y by simp
  moreover have "\<bar>of_int (round_half_even (fl ?y)) - fl ?y\<bar> \<le> 1/2" by (rule round_half_even_error)
  ultimately have "\<bar>of_int (round_half_even (fl ?y)) - ?y\<bar> \<le> 1/2 + 1 / 10 ^ 9" by linarith
  then show ?thesis by (simp add: SECOND_def algebra_simps)
qed

text \<open>
  The timestamps of the feed are within a microsecond of the vendor's nanoseconds, although they pass through
  two floats, and those of whole seconds, as of every bar, are exact.
\<close>

theorem feed_times_are_near:
  assumes "0 \<le> ns" "ns < 2 ^ 31 * 10 ^ 9"
  shows "\<bar>1000 * feed_time ns - ns\<bar> < 1000 \<and> (10 ^ 9 dvd ns \<longrightarrow> feed_time ns = ns div 1000)"
proof -
  let ?d = "fl (fl (of_int ns) / 10 ^ 9)"
  have "0 \<le> ?d" using assms(1) by (simp add: fl_nonneg)
  from feed_time_near_seconds [OF this] have "\<bar>of_int (feed_time ns) - ?d * 10 ^ 6\<bar> \<le> 1/2 + 1 / 10 ^ 9"
    by (simp add: feed_time_def Let_def)
  moreover have "\<bar>?d * 10 ^ 6 - of_int ns / 1000\<bar> \<le> 48 / 100"
    using feed_seconds_near [OF assms] by (simp add: abs_le_iff field_simps)
  ultimately have "\<bar>(of_int (feed_time ns) :: rat) - of_int ns / 1000\<bar> \<le> 1/2 + 1 / 10 ^ 9 + 48 / 100" by (rule abs_diff_trans)
  then have "\<bar>(of_int (feed_time ns) :: rat) - of_int ns / 1000\<bar> < 1" by simp
  then have "\<bar>(of_int (1000 * feed_time ns - ns) :: rat)\<bar> < of_int 1000" by (simp add: field_simps)
  then have lt: "\<bar>1000 * feed_time ns - ns\<bar> < 1000" by (simp only: of_int_abs [symmetric] of_int_less_iff)
  have "feed_time ns = ns div 1000" if "10 ^ 9 dvd ns"
  proof -
    from that obtain k where ns: "ns = 1000 * (1000000 * k)" by (auto elim: dvdE)
    with lt have "feed_time ns = 1000000 * k" by linarith
    with ns show ?thesis by simp
  qed
  with lt show ?thesis by blast
qed

text \<open>
  Rounding can carry: a trade of the last nanosecond of a minute gets the timestamp of the next one, and is counted in the
  next candle.
\<close>

lemma last_nanosecond_is_next_minute:
  "feed_time 59999999999 = MINUTE"
proof -
  let ?d = "fl (59999999999 / 10 ^ 9)"
  have "fl (of_int 59999999999) = of_int 59999999999" by (rule fl_int_exact) simp
  then have "feed_time 59999999999 = int_trunc ?d * SECOND + round_half_even (fl ((?d - of_int (int_trunc ?d)) * 10 ^ 6))"
    unfolding feed_time_def Let_def by simp
  with feed_time_near_seconds [of ?d] have "\<bar>of_int (feed_time 59999999999) - ?d * 10 ^ 6\<bar> \<le> 1/2 + 1 / 10 ^ 9"
    by (simp only: fl_nonneg) (simp add: fl_nonneg)
  moreover have "\<bar>?d * 10 ^ 6 - of_int 60000000\<bar> \<le> 1 / 100"
  proof -
    have "\<bar>?d - 59999999999 / 10 ^ 9\<bar> \<le> 1 / 10 ^ 9" using fl_error [of "59999999999 / 10 ^ 9"] by simp
    then show ?thesis unfolding abs_le_iff by simp
  qed
  ultimately have "\<bar>(of_int (feed_time 59999999999) :: rat) - of_int 60000000\<bar> \<le> 1/2 + 1 / 10 ^ 9 + 1 / 100" by (rule abs_diff_trans)
  then have "\<bar>(of_int (feed_time 59999999999 - 60000000) :: rat)\<bar> < of_int 1" by simp
  then have "\<bar>feed_time 59999999999 - 60000000\<bar> < 1" by (simp only: of_int_abs [symmetric] of_int_less_iff)
  then show ?thesis by (simp add: MINUTE_def)
qed

section \<open>Reconnects\<close>

definition subscribed :: "feed_subscription list \<Rightarrow> string \<Rightarrow> string \<Rightarrow> bool" where
  "subscribed subs schema t \<longleftrightarrow> list_ex (\<lambda>sub. fs_schema sub = schema \<and> t \<in> fs_symbols sub) subs"

text \<open>The running session has every subscription that is on record.\<close>

definition covers_specs :: "feed_subscription list option \<Rightarrow> (string \<times> string set) list \<Rightarrow> bool" where
  "covers_specs session specs \<longleftrightarrow>
     (\<forall>subs schema syms. \<forall>t \<in> syms. session = Some subs \<and> (schema, syms) \<in> set specs \<longrightarrow> subscribed subs schema t)"

definition session_covers :: "feed_adapter \<Rightarrow> bool" where
  "session_covers a \<longleftrightarrow> covers_specs (fa_session a) (fa_sub_specs a)"

lemma subscribed_append [simp]: "subscribed (xs @ ys) schema t \<longleftrightarrow> subscribed xs schema t \<or> subscribed ys schema t"
  by (simp add: subscribed_def)

lemma subscribed_specs: "(schema, syms) \<in> set specs \<Longrightarrow> t \<in> syms \<Longrightarrow> subscribed (spec_subscriptions specs) schema t"
  by (force simp: subscribed_def list_ex_iff spec_subscriptions_def)

lemma set_update_cases: "p \<in> set (AList.update k v m) \<Longrightarrow> p = (k, v) \<or> p \<in> set m"
  by (induction m) (auto split: if_splits)

lemma subscribe_covers:
  assumes "session_covers a" "subscribe_schema schema names start_t a = Inr a'"
  shows "session_covers a'"
proof (cases "fa_session a")
  case None
  with assms(2) show ?thesis by (simp add: subscribe_schema_def)
next
  case (Some subs)
  define syms where "syms = databento_symbol a ` set names"
  have sess: "fa_session a' = Some (subs @ [\<lparr>fs_schema = schema, fs_symbols = syms, fs_start = start_t\<rparr>])"
    and specs: "fa_sub_specs a' = add_spec schema syms (fa_sub_specs a)"
    using assms(2) Some by (auto simp: subscribe_schema_def Let_def syms_def)
  have old: "subscribed subs sc t" if "(sc, ss) \<in> set (fa_sub_specs a)" "t \<in> ss" for sc ss t
    using assms(1) Some that by (auto simp: session_covers_def covers_specs_def)
  have "subscribed (subs @ [\<lparr>fs_schema = schema, fs_symbols = syms, fs_start = start_t\<rparr>]) sc t"
    if mem: "(sc, ss) \<in> set (fa_sub_specs a')" and t: "t \<in> ss" for sc ss t
  proof -
    from mem consider "(sc, ss) \<in> set (fa_sub_specs a)"
      | "sc = schema" "ss = (case map_of (fa_sub_specs a) schema of None \<Rightarrow> {} | Some o' \<Rightarrow> o') \<union> syms"
      by (auto simp: specs add_spec_def dest: set_update_cases)
    then show ?thesis
      using old t by cases (auto simp: subscribed_def dest: map_of_SomeD split: option.splits)
  qed
  with sess show ?thesis by (auto simp: session_covers_def covers_specs_def)
qed

text \<open>A fresh \<open>connect\<close> opens a session without subscriptions, a reconnect that fails half-way one without the later ones.\<close>

definition keeps_session :: "adapter_cmd \<Rightarrow> bool" where
  "keeps_session c \<longleftrightarrow>
     (case c of Call_made (Connect _) \<Rightarrow> False | Backoff_over (Subscribe_fails _) \<Rightarrow> False | _ \<Rightarrow> True)"

lemma perform_call_covers:
  assumes "session_covers a" "perform_call c a = Inr a'" "keeps_session (Call_made c)"
  shows "session_covers a'"
  using assms
  by (cases c)
    (auto simp: set_skipped_records_handler_def feed_disconnect_def feed_start_stream_def keeps_session_def session_covers_def
      feed_subscribe_bars_def feed_subscribe_trades_def feed_subscribe_quotes_def feed_subscribe_ticks_def map_sum_Inr
      register_db_symbols_def covers_specs_def [of None]
      split: option.splits if_splits dest: subscribe_covers [unfolded session_covers_def, rotated])

lemma session_ends_covers:
  assumes "session_covers a"
  shows "session_covers (session_ends why a)"
proof -
  have "fa_session (session_ends why a) = fa_session a" "set (fa_sub_specs (session_ends why a)) \<subseteq> set (fa_sub_specs a)"
    using drop_unauthorized_cases [of why a] by (auto simp: session_ends_def Let_def AList.delete_eq)
  then show ?thesis using assms by (auto simp: session_covers_def covers_specs_def)
qed

lemma backoff_over_covers:
  assumes "session_covers a" "keeps_session (Backoff_over outcome)"
  shows "session_covers (backoff_over outcome a)"
  using assms
  by (cases outcome) (auto simp: backoff_over_def Let_def feed_reconnect_def keeps_session_def session_covers_def
      covers_specs_def subscribed_specs)

text \<open>Whatever the session was, a successful reconnect covers the record.\<close>

lemma reconnected_covers:
  assumes "fa_thread a" "fa_waiting a"
  shows "fa_session (backoff_over Reconnected a) = Some (spec_subscriptions (fa_sub_specs a))
    \<and> session_covers (backoff_over Reconnected a)"
  using assms
  by (auto simp: backoff_over_def Let_def feed_reconnect_def session_covers_def covers_specs_def subscribed_specs)

lemma adapter_step_covers:
  assumes "session_covers a" "keeps_session c"
  shows "session_covers (fst (adapter_step a c))"
proof (cases c)
  case (Call_made call)
  with assms perform_call_covers [of a call] show ?thesis by (auto split: sum.split)
next
  case (Session_ends why)
  with assms session_ends_covers show ?thesis by simp
next
  case (Backoff_over outcome)
  with assms backoff_over_covers show ?thesis by simp
next
  case (Record_arrives running r w m n)
  then have "fa_session (fst (adapter_step a c)) = fa_session a \<and> fa_sub_specs (fst (adapter_step a c)) = fa_sub_specs a"
    by (auto simp: record_arrives_def ingress_put_def ingress_drop_def Let_def split: prod.splits)
  with assms(1) show ?thesis by (simp add: session_covers_def)
next
  case (Consumer_takes m n i t)
  then have "fa_session (fst (adapter_step a c)) = fa_session a \<and> fa_sub_specs (fst (adapter_step a c)) = fa_sub_specs a"
    by (auto simp: consume_record_def feed_dispatch_def handle_symbol_mapping_def split: list.splits option.splits prod.splits)
  with assms(1) show ?thesis by (simp add: session_covers_def)
qed

lemma run_covers: "session_covers a \<Longrightarrow> list_all keeps_session cmds \<Longrightarrow> session_covers (adapter_run a cmds)"
  by (induction cmds arbitrary: a) (simp_all add: adapter_step_covers)

text \<open>
  C22. Reconnecting restores the feed: after any history of calls, records, lost sessions and failed reconnects, a loop that was
  waiting and reconnects has exactly the subscriptions on record in its session, and whatever is on record stays
  subscribed in the session through any later interleaving, up to a \<open>connect\<close> by the engine, which starts a session
  with no subscriptions beside the old record, or a reconnect that breaks off between two subscriptions. The same
  holds from the first connect on, when nothing is on record.
\<close>

theorem reconnects_restore_subscriptions:
  fixes reg :: symbol_registry and sfx :: string and now :: int and history :: "adapter_cmd list"
  defines "a \<equiv> adapter_run (feed_adapter_new reg sfx now) history"
  assumes "list_all keeps_session cmds"
  shows "(fa_thread a \<and> fa_waiting a \<longrightarrow>
       fa_session (fst (adapter_step a (Backoff_over Reconnected))) = Some (spec_subscriptions (fa_sub_specs a))
       \<and> session_covers (adapter_run (fst (adapter_step a (Backoff_over Reconnected))) cmds))
     \<and> session_covers (adapter_run (feed_connect (feed_adapter_new reg sfx now)) cmds)"
proof -
  have "session_covers (feed_connect (feed_adapter_new reg sfx now))"
    by (simp add: session_covers_def covers_specs_def feed_connect_def feed_adapter_new_def)
  with assms(2) reconnected_covers [of a] show ?thesis by (simp add: run_covers)
qed

text \<open>When a reconnect breaks off, the loop goes on with the session as it is; nothing asks for the rest again.\<close>

lemma partial_reconnect_is_kept:
  assumes "fa_thread a" "fa_waiting a" "fa_connected a" "fa_sub_specs a = specs @ later"
  shows "loop_reads (backoff_over (Subscribe_fails (length specs)) a)
    \<and> fa_session (backoff_over (Subscribe_fails (length specs)) a) = Some (spec_subscriptions specs)"
  using assms by (simp add: backoff_over_def Let_def feed_reconnect_def loop_reads_def)

text \<open>
  A loop that sleeps while the adapter is disconnected opens a new session all the same, with every subscription, and
  ends: nobody reads the session or stops it.
\<close>

lemma session_opened_after_disconnect:
  assumes "fa_thread a" "fa_waiting a"
  defines "a' \<equiv> backoff_over Reconnected (feed_disconnect a)"
  shows "fa_session a' = Some (spec_subscriptions (fa_sub_specs a)) \<and> \<not> fa_connected a' \<and> \<not> fa_thread a'"
  using assms by (simp add: backoff_over_def Let_def feed_reconnect_def feed_disconnect_def)

text \<open>An unauthorized schema is taken off the record; the reconnect asks for all others and not for it.\<close>

lemma unauthorized_schema_is_dropped:
  assumes "loop_reads a" "fa_connected a" "\<not> contains_text ''pop from an empty deque'' msg" "unauthorized_schema msg = Some schema"
  shows "fa_session (backoff_over Reconnected (session_ends (Vendor_error msg) a))
    = Some (spec_subscriptions [p \<leftarrow> fa_sub_specs a. fst p \<noteq> schema])"
proof -
  have "AList.delete schema m = [p \<leftarrow> m. fst p \<noteq> schema]" for m :: "(string \<times> string set) list"
    by (induction m) auto
  with assms show ?thesis
    by (simp add: session_ends_def backoff_over_def drop_unauthorized_def Let_def feed_reconnect_def loop_reads_def)
qed

text \<open>After \<open>n\<close> reconnects that failed the loop waits for \<open>2 ^ n\<close> seconds, but for no more than a minute.\<close>

lemma backoff_doubles:
  fixes a :: feed_adapter
  defines "fails \<equiv> \<lambda>a. backoff_over Client_fails (session_ends Server_closed a)"
  assumes "loop_reads a" "fa_connected a" "fa_backoff a = 1"
  shows "fa_backoff ((fails ^^ n) a) = min (2 ^ n) MAX_BACKOFF \<and> loop_reads ((fails ^^ n) a) \<and> fa_connected ((fails ^^ n) a)"
  using assms(2-4)
  by (induction n) (auto simp: fails_def session_ends_def backoff_over_def drop_unauthorized_def Let_def feed_reconnect_def
      loop_reads_def MAX_BACKOFF_def min_def)

section \<open>Subscriptions that are missing\<close>

text \<open>
  Tick trades of a list of symbols are not subscribed when one of the symbols has its trades already: the others' tick
  handlers are registered for a stream nobody asked for.
\<close>

lemma partial_tick_subscription:
  assumes "fa_session a = Some subs" "t \<in> fa_trade_handlers a"
  shows "\<exists>a'. feed_subscribe_ticks [t, u] a = Inr a' \<and> u \<in> fa_tick_handlers a' \<and> fa_session a' = fa_session a
    \<and> fa_sub_specs a' = fa_sub_specs a"
  using assms by (simp add: feed_subscribe_ticks_def register_db_symbols_def)

text \<open>A symbol's records are dropped silently until its mapping message is taken from the queue, and again after each reconnect.\<close>

lemma unmapped_records_are_silent:
  assumes "resolve_ticker a r = None" "fr_rtype r \<notin> {Some 22, Some 23}"
  shows "feed_dispatch new_id now r a = (a, [])"
  using assms
  by (auto simp: feed_dispatch_def dispatch_bar_def dispatch_quote_def dispatch_trade_def dispatch_book_def split: option.split)

lemma reconnect_strands_queued_records:
  assumes "fa_thread a" "fa_waiting a"
  shows "resolve_ticker (backoff_over Reconnected a) r = None \<and> fa_queue (backoff_over Reconnected a) = fa_queue a"
  using assms by (cases "fr_instrument_id r") (simp_all add: backoff_over_def Let_def feed_reconnect_def resolve_ticker_def)

section \<open>With the live engine\<close>

record live_feed =
  lf_adapter :: feed_adapter
  lf_engine :: live_engine

text \<open>
  The handlers of the engine are what it registers on its start: bars, trades and quotes. \<open>now\<close> is the time it reads;
  the monitor's methods are the handlers of the signals.
\<close>

definition deliver :: "timestamp \<Rightarrow> feed_effect \<Rightarrow> live_engine \<Rightarrow> live_engine \<times> live_publication list" where
  "deliver now effect e =
     (case effect of
        Emit_bar b \<Rightarrow> live_on_bar now b e
      | Emit_quote q last_price \<Rightarrow> live_on_quote now q e
      | Emit_tick _ _ _ \<Rightarrow> (e, [])
      | Emit_trade t \<Rightarrow> live_on_trade now t e
      | Emit_book b \<Rightarrow> live_on_order_book b e
      | Signal_skipped \<Rightarrow> (e\<lparr>le_monitor := map_option on_skipped_records (le_monitor e)\<rparr>, [])
      | Signal_slow \<Rightarrow> (e\<lparr>le_monitor := map_option on_slow_reader_warning (le_monitor e)\<rparr>, []))"

fun deliver_all :: "timestamp \<Rightarrow> feed_effect list \<Rightarrow> live_engine \<Rightarrow> live_engine \<times> live_publication list" where
  "deliver_all now [] e = (e, [])"
| "deliver_all now (x # xs) e =
     (case deliver now x e of (e, out) \<Rightarrow> (case deliver_all now xs e of (e, later) \<Rightarrow> (e, out @ later)))"

text \<open>
  \<open>Engine_acts\<close> is a step of the engine alone: a trade's publication has returned, or a turn of the health check.
\<close>

datatype live_feed_cmd = Adapter_acts timestamp adapter_cmd | Engine_acts live_cmd

fun live_feed_step :: "live_feed \<Rightarrow> live_feed_cmd \<Rightarrow> live_feed \<times> live_publication list" where
  "live_feed_step f (Adapter_acts now c) =
     (case adapter_step (lf_adapter f) c of
        (a, effects, overload) \<Rightarrow>
          (case deliver_all now effects (lf_engine f) of
             (e, out) \<Rightarrow>
               (\<lparr>lf_adapter = a,
                 lf_engine = (if overload then e\<lparr>le_monitor := map_option on_ingress_overload (le_monitor e)\<rparr> else e)\<rparr>, out)))"
| "live_feed_step f (Engine_acts c) =
     (case live_step (lf_engine f) c of (e, out) \<Rightarrow> (f\<lparr>lf_engine := e\<rparr>, out))"

definition live_feed_run :: "live_feed \<Rightarrow> live_feed_cmd list \<Rightarrow> live_feed" where
  "live_feed_run = foldl (\<lambda>f c. fst (live_feed_step f c))"

text \<open>The start: the adapter is registered, and the engine's start makes its calls.\<close>

definition live_feed_start ::
  "symbol_registry \<Rightarrow> string \<Rightarrow> int \<Rightarrow> ingestion_monitor \<Rightarrow> string list \<Rightarrow> timestamp option \<Rightarrow> string + live_feed" where
  "live_feed_start reg sfx now m names replay_start =
     (case register_live_adapter DataSource_DATABENTO True (live_engine_new (Some m) DataSource_DATABENTO) of
        (e, registering) \<Rightarrow>
          (case live_on_start names replay_start True e of
             (e, calls, _) \<Rightarrow>
               map_sum id (\<lambda>a. \<lparr>lf_adapter = a, lf_engine = e\<rparr>)
                 (perform_calls (registering @ calls) (feed_adapter_new reg sfx now))))"

text \<open>A start with symbols always succeeds: all four schemas are subscribed for all symbols, and the stream runs.\<close>

lemma live_start_subscribes_everything:
  assumes "names \<noteq> []"
  obtains f where "live_feed_start reg sfx now m names replay_start = Inr f" "loop_reads (lf_adapter f)" "fa_connected (lf_adapter f)"
    "fa_consumer (lf_adapter f)" "fa_queue (lf_adapter f) = []" "fa_ingress_dropped (lf_adapter f) = 0"
    "\<not> fa_overload_handler (lf_adapter f)" "\<not> fa_slow_handler (lf_adapter f)" "fa_skipped_handler (lf_adapter f)"
    "map fs_schema (the (fa_session (lf_adapter f))) = [''ohlcv-1m'', ''ohlcv-1s'', ''trades'', ''mbp-1'']"
    "le_monitor (lf_engine f) = Some m"
  using assms
  by (auto simp: live_feed_start_def register_live_adapter_def live_engine_new_def live_on_start_def primary_live_adapter_def
      feed_adapter_new_def set_skipped_records_handler_def feed_connect_def feed_subscribe_bars_def feed_subscribe_trades_def
      feed_subscribe_quotes_def feed_start_stream_def subscribe_schema_def timeframe_schema_def register_db_symbols_def Let_def
      loop_reads_def)

lemma adapter_step_handlers:
  "fa_overload_handler (fst (adapter_step a c)) = fa_overload_handler a"
proof (cases c)
  case (Call_made call)
  then show ?thesis using perform_call_frame [of call a] by (auto split: sum.split)
next
  case (Session_ends why)
  then show ?thesis using session_ends_frame [of why a] by simp
next
  case (Backoff_over outcome)
  then show ?thesis using backoff_over_frame [of outcome a] by simp
next
  case (Record_arrives running r w m n)
  then show ?thesis by (auto simp: record_arrives_def ingress_put_def ingress_drop_def Let_def split: prod.splits)
next
  case (Consumer_takes mono_now now_ns new_id now)
  show ?thesis
  proof (cases "fa_queue a")
    case (Cons q rest)
    obtain r w m where "q = (r, w, m)" by (cases q)
    with Cons Consumer_takes show ?thesis
      by (auto simp: consume_record_def feed_dispatch_def handle_symbol_mapping_def split: option.split prod.split)
  qed (simp add: Consumer_takes consume_record_def)
qed

lemma live_feed_run_handlers:
  "fa_overload_handler (lf_adapter (live_feed_run f cmds)) = fa_overload_handler (lf_adapter f)"
proof (induction cmds arbitrary: f)
  case (Cons c cmds)
  have "fa_overload_handler (lf_adapter (fst (live_feed_step f c))) = fa_overload_handler (lf_adapter f)"
  proof (cases c)
    case (Adapter_acts now ac)
    with adapter_step_handlers [of "lf_adapter f" ac] show ?thesis by (auto split: prod.splits)
  qed (simp split: prod.split)
  with Cons.IH show ?case by (simp add: live_feed_run_def)
qed (simp add: live_feed_run_def)

text \<open>
  C28. Records lost at a full ingress queue do not stop the signals. The adapter has a handler for this, and the monitor a
  method that blocks every symbol, but the start does not connect them: in every run of the started feed, a record that
  finds the queue full is counted and the engine, its monitor included, is as before, so symbols that may signal still may.
\<close>

theorem ingress_drops_go_unnoticed:
  assumes "live_feed_start reg sfx t0 m names replay_start = Inr f0" "names \<noteq> []"
    and "f = live_feed_run f0 cmds" "loop_reads (lf_adapter f)" "fa_connected (lf_adapter f)"
    and "INGRESS_QUEUE_MAXSIZE \<le> length (fa_queue (lf_adapter f))"
  shows "case live_feed_step f (Adapter_acts now (Record_arrives True r wall_ns mono_ns now_ns)) of
      (f', out) \<Rightarrow> fa_ingress_dropped (lf_adapter f') = fa_ingress_dropped (lf_adapter f) + 1 \<and> lf_engine f' = lf_engine f \<and> out = []"
proof -
  from live_start_subscribes_everything [OF assms(2), of reg sfx t0 m replay_start] assms(1)
  have "\<not> fa_overload_handler (lf_adapter f0)" by auto
  then have "\<not> fa_overload_handler (lf_adapter f)" by (simp add: assms(3) live_feed_run_handlers)
  with assms(4-6) show ?thesis
    by (simp add: record_arrives_def ingress_put_def ingress_drop_def overload_due_def Let_def)
qed

text \<open>While nobody takes them, records fill the queue.\<close>

lemma arrivals_fill_the_queue:
  fixes r :: feed_record
  assumes "loop_reads (lf_adapter f)" "fa_connected (lf_adapter f)" "length (fa_queue (lf_adapter f)) + n \<le> INGRESS_QUEUE_MAXSIZE"
  defines "f' \<equiv> live_feed_run f (replicate n (Adapter_acts 0 (Record_arrives True r 0 0 0)))"
  shows "loop_reads (lf_adapter f') \<and> fa_connected (lf_adapter f') \<and> length (fa_queue (lf_adapter f')) = length (fa_queue (lf_adapter f)) + n"
  using assms(1-3) unfolding f'_def
proof (induction n arbitrary: f)
  case (Suc n)
  define g where "g = fst (live_feed_step f (Adapter_acts 0 (Record_arrives True r 0 0 0)))"
  have g: "loop_reads (lf_adapter g) \<and> fa_connected (lf_adapter g) \<and> length (fa_queue (lf_adapter g)) = length (fa_queue (lf_adapter f)) + 1"
    using Suc.prems by (simp add: g_def record_arrives_def ingress_put_def Let_def loop_reads_def)
  with Suc.IH [of g] Suc.prems show ?case by (simp add: live_feed_run_def g_def)
qed (simp add: live_feed_run_def)

definition sample_record :: feed_record where
  "sample_record =
     \<lparr>fr_rtype = Some 0, fr_instrument_id = Some 1, fr_ts_event = Some 0, fr_ts_recv = None, fr_ohlcv = None, fr_levels = None,
      fr_price = Some 20000000000000, fr_size = Some 1, fr_match_type = None, fr_side = Some ''A'', fr_sequence = None,
      fr_stype_in_symbol = None, fr_msg = None\<rparr>"

theorem ingress_drops_go_unnoticed_witness:
  "\<exists>f. case live_feed_step f (Adapter_acts 0 (Record_arrives True sample_record 0 0 0)) of
      (f', out) \<Rightarrow> fa_ingress_dropped (lf_adapter f') = fa_ingress_dropped (lf_adapter f) + 1 \<and> lf_engine f' = lf_engine f \<and> out = []"
proof -
  obtain f0 where f0: "live_feed_start empty_registry ''.c.0'' 0 (monitor_init [''MNQ'']) [''MNQ''] None = Inr f0"
    "loop_reads (lf_adapter f0)" "fa_connected (lf_adapter f0)" "fa_queue (lf_adapter f0) = []"
    using live_start_subscribes_everything [of "[''MNQ'']" empty_registry "''.c.0''" 0 "monitor_init [''MNQ'']" None] by auto
  let ?cmds = "replicate INGRESS_QUEUE_MAXSIZE (Adapter_acts 0 (Record_arrives True sample_record 0 0 0))"
  define f where "f = live_feed_run f0 ?cmds"
  have "loop_reads (lf_adapter f) \<and> fa_connected (lf_adapter f) \<and> length (fa_queue (lf_adapter f)) = INGRESS_QUEUE_MAXSIZE"
    using arrivals_fill_the_queue [of f0 INGRESS_QUEUE_MAXSIZE sample_record] f0 by (simp add: f_def)
  then show ?thesis
    by (intro exI [of _ f] ingress_drops_go_unnoticed [OF f0(1) _ f_def]) simp_all
qed

theorem reconnects_restore_subscriptions_witness:
  "session_covers (adapter_run (fst (adapter_step (adapter_run (feed_adapter_new empty_registry ''.c.0'' 0)
      [Call_made (Connect DataSource_DATABENTO), Call_made (Subscribe_trades DataSource_DATABENTO [''MNQ'']),
       Call_made (Start_stream DataSource_DATABENTO), Session_ends (Vendor_error ''Not authorized for mbp-10 schema'')])
      (Backoff_over Reconnected))) [Session_ends Server_closed, Backoff_over Client_fails])"
proof -
  define history where "history = [Call_made (Connect DataSource_DATABENTO), Call_made (Subscribe_trades DataSource_DATABENTO [''MNQ'']),
    Call_made (Start_stream DataSource_DATABENTO), Session_ends (Vendor_error ''Not authorized for mbp-10 schema'')]"
  define a where "a = adapter_run (feed_adapter_new empty_registry ''.c.0'' 0) history"
  have "drop_unauthorized why b = b \<or> fa_thread (drop_unauthorized why b) = fa_thread b
      \<and> fa_connected (drop_unauthorized why b) = fa_connected b" for why b
    using drop_unauthorized_cases [of why b] by auto
  then have same: "fa_thread (drop_unauthorized why b) = fa_thread b" "fa_connected (drop_unauthorized why b) = fa_connected b"
    for why b by metis+
  have "fa_thread a \<and> fa_waiting a"
    by (simp add: a_def history_def feed_adapter_new_def feed_connect_def feed_subscribe_trades_def subscribe_schema_def
        register_db_symbols_def feed_start_stream_def session_ends_def loop_reads_def same Let_def)
  with reconnects_restore_subscriptions [of "[Session_ends Server_closed, Backoff_over Client_fails]" empty_registry "''.c.0''" 0 history]
  show ?thesis by (simp add: keeps_session_def a_def history_def)
qed

theorem feed_times_are_near_witness:
  "\<bar>1000 * feed_time 1753372800123456789 - 1753372800123456789\<bar> < (1000 :: int)"
  by (rule feed_times_are_near [THEN conjunct1]) simp_all

end
