(* ===== verification/Replay_Common.thy ===== *)
theory Replay_Common
  imports Catchup Storage Texts
begin

text \<open>
  What the replay scripts share, \<^verbatim>\<open>scripts/replay_common.py\<close>, and the warm-up windows of
  \<^verbatim>\<open>engines/backfill/engine.py\<close>: the bars of a range read back from the store, the audit of their
  coverage, the guard that keeps \<open>--persist\<close> from writing a reconstruction twice, and the redaction of saved settings.
  Which files can be read and written is an argument.
\<close>

section \<open>Warm-up windows and the replayed symbol\<close>

record historical_settings =
  hs_minute1_warmup_bars :: int
  hs_minute5_warmup_bars :: int
  hs_hourly_warmup_bars :: int
  hs_daily_warmup_bars :: int

text \<open>A timeframe outside the table is a \<open>KeyError\<close>.\<close>

fun default_warmup_days :: "historical_settings \<Rightarrow> bar_timeframe \<Rightarrow> int option" where
  "default_warmup_days h TF_M1 = Some (max 3 (hs_minute1_warmup_bars h div 390 + 1))"
| "default_warmup_days h TF_M5 = Some (max 7 (hs_minute5_warmup_bars h div 78 + 2))"
| "default_warmup_days h TF_H1 = Some (int_trunc (fl (of_int (hs_hourly_warmup_bars h) * fl (22 / 100))) + 30)"
| "default_warmup_days h TF_D1 = Some (int_trunc (fl (of_int (hs_daily_warmup_bars h) * (3 / 2))))"
| "default_warmup_days h _ = None"

definition default_m1_warmup_days :: "historical_settings \<Rightarrow> int" where
  "default_m1_warmup_days h = the (default_warmup_days h TF_M1)"

definition replay_symbol :: "string \<Rightarrow> symbol" where
  "replay_symbol s =
     (let future = contains_text ''-'' s; mnq = contains_text ''MNQ'' s
      in make_symbol
           \<lparr>sy_ticker = s, sy_exchange = (if future then ''CME'' else ''NYSE''),
            sy_asset_class = (if future then Asset_FUTURE else Asset_EQUITY), sy_root_symbol = Some (before_mark CHR ''-'' s),
            sy_lot_size = 1, sy_tick_size = (if mnq then 1/4 else 1/100), sy_point_value = (if mnq then 2 else 1), sy_is_active = True\<rparr>)"

section \<open>Loading bars\<close>

definition replay_bar :: "string \<Rightarrow> bar_event \<Rightarrow> bar_event" where
  "replay_bar s b = force_replay (if be_symbol b = s then b else b\<lparr>be_symbol := s\<rparr>)"

definition load_day :: "parquet_files \<Rightarrow> string \<Rightarrow> date \<Rightarrow> bar_event list option" where
  "load_day files s d =
     map_option (map (replay_bar s))
       (those (map (row_to_bar_event TF_M1) (parquet_read_range files (''bars/'' @ bar_timeframe_value TF_M1) s d d)))"

text \<open>\<open>reads d\<close>: the file of day \<open>d\<close> can be read. \<open>None\<close> is an exception; a bad row raises in both modes.\<close>

fun load_days :: "bool \<Rightarrow> (date \<Rightarrow> bool) \<Rightarrow> parquet_files \<Rightarrow> string \<Rightarrow> date list \<Rightarrow> bar_event list option" where
  "load_days skip_errors reads files s [] = Some []"
| "load_days skip_errors reads files s (d # ds) =
     (if \<not> reads d then (if skip_errors then load_days skip_errors reads files s ds else None)
      else Option.bind (load_day files s d) (\<lambda>bars. map_option ((@) bars) (load_days skip_errors reads files s ds)))"

definition load_m1_bars ::
  "bool \<Rightarrow> (date \<Rightarrow> bool) \<Rightarrow> parquet_files \<Rightarrow> string \<Rightarrow> date \<Rightarrow> date \<Rightarrow> bar_event list option" where
  "load_m1_bars skip_errors reads files s day_lo day_hi =
     map_option (sort_key be_timestamp) (load_days skip_errors reads files s [day_lo..day_hi])"

section \<open>Coverage\<close>

record manifest =
  mf_expected_trading_days :: nat
  mf_trading_days_with_bars :: int
  mf_missing_days :: "date list"

definition dataset_manifest :: "bar_event list \<Rightarrow> session_calendar \<Rightarrow> (date \<Rightarrow> bool) \<Rightarrow> date \<Rightarrow> date \<Rightarrow> manifest" where
  "dataset_manifest bars cal trading day_lo day_hi =
     (let expected = remdups (trading_days trading day_lo day_hi);
          actual = map (\<lambda>b. sc_session_date cal (be_timestamp b)) bars;
          missing = sort [d \<leftarrow> expected. d \<notin> set actual]
      in \<lparr>mf_expected_trading_days = length expected,
          mf_trading_days_with_bars = int (length expected) - int (length missing), mf_missing_days = missing\<rparr>)"

section \<open>Persisted reconstructions\<close>

definition PERSISTED_DATA_TYPES :: "string list" where
  "PERSISTED_DATA_TYPES = [''setups'', ''market_states'']"

definition read_partition_file :: "(storage_key \<Rightarrow> bool) \<Rightarrow> parquet_files \<Rightarrow> storage_key \<Rightarrow> table option" where
  "read_partition_file reads files k = (if reads k then files k else None)"

definition replay_row :: "row \<Rightarrow> bool" where
  "replay_row r \<longleftrightarrow> cell_at r ''is_replay'' = Flag True"

text \<open>A readable file without the column raises: the selection is outside the \<open>try\<close>.\<close>

definition has_replays :: "(storage_key \<Rightarrow> bool) \<Rightarrow> parquet_files \<Rightarrow> storage_key \<Rightarrow> bool option" where
  "has_replays reads files k =
     (case read_partition_file reads files k of
        None \<Rightarrow> Some False
      | Some t \<Rightarrow> if ''is_replay'' \<in> set (tb_columns t) then Some (list_ex replay_row (tb_rows t)) else None)"

fun replay_dates :: "(storage_key \<Rightarrow> bool) \<Rightarrow> parquet_files \<Rightarrow> string \<Rightarrow> string \<Rightarrow> date list \<Rightarrow> date list option" where
  "replay_dates reads files ty s [] = Some []"
| "replay_dates reads files ty s (d # ds) =
     Option.bind (has_replays reads files (ty, s, d))
       (\<lambda>hit. map_option (\<lambda>hits. if hit then d # hits else hits) (replay_dates reads files ty s ds))"

definition find_existing_persisted_replay ::
  "(storage_key \<Rightarrow> bool) \<Rightarrow> string \<Rightarrow> date list \<Rightarrow> parquet_files \<Rightarrow> (string \<times> date list) list option" where
  "find_existing_persisted_replay reads s dates files =
     map_option (filter (\<lambda>p. snd p \<noteq> []))
       (those (map (\<lambda>ty. map_option (Pair ty) (replay_dates reads files ty s dates)) PERSISTED_DATA_TYPES))"

text \<open>
  One file: rows that are not marked live go, a file without replays stays as it is. The flag tells whether the call returned:
  a missing column, a failing deletion or a failing write raises, and leaves the file as it was.
\<close>

definition clear_partition ::
  "(storage_key \<Rightarrow> bool) \<Rightarrow> (storage_key \<Rightarrow> bool) \<Rightarrow> parquet_files \<Rightarrow> storage_key \<Rightarrow> parquet_files \<times> bool" where
  "clear_partition reads writes files k =
     (case read_partition_file reads files k of
        None \<Rightarrow> (files, True)
      | Some t \<Rightarrow>
          if ''is_replay'' \<notin> set (tb_columns t) then (files, False)
          else
            (let kept = filter live_row (tb_rows t)
             in if length kept = length (tb_rows t) then (files, True)
                else if \<not> writes k then (files, False)
                else if kept = [] then (parquet_delete files (fst k) (fst (snd k)) (snd (snd k)), True)
                else (files(k \<mapsto> t\<lparr>tb_rows := kept\<rparr>), True)))"

text \<open>The files cleared before a failure stay cleared.\<close>

fun clear_partitions ::
  "(storage_key \<Rightarrow> bool) \<Rightarrow> (storage_key \<Rightarrow> bool) \<Rightarrow> storage_key list \<Rightarrow> parquet_files \<Rightarrow> parquet_files \<times> bool" where
  "clear_partitions reads writes [] files = (files, True)"
| "clear_partitions reads writes (k # ks) files =
     (case clear_partition reads writes files k of
        (files', ok) \<Rightarrow> if ok then clear_partitions reads writes ks files' else (files', False))"

definition clear_persisted_replay ::
  "(storage_key \<Rightarrow> bool) \<Rightarrow> (storage_key \<Rightarrow> bool) \<Rightarrow> string \<Rightarrow> date list \<Rightarrow> parquet_files \<Rightarrow> parquet_files \<times> bool" where
  "clear_persisted_replay reads writes s dates files =
     clear_partitions reads writes (concat (map (\<lambda>ty. map (\<lambda>d. (ty, s, d)) dates) PERSISTED_DATA_TYPES)) files"

text \<open>The run exits with the dates it found, raises, or goes on; an exit changes nothing.\<close>

datatype guard_result = Guard_exits "(string \<times> date list) list" | Guard_raises parquet_files | Guard_passes parquet_files

definition enforce_persist_guard ::
  "(storage_key \<Rightarrow> bool) \<Rightarrow> (storage_key \<Rightarrow> bool) \<Rightarrow> string \<Rightarrow> date list \<Rightarrow> bool \<Rightarrow> bool \<Rightarrow> parquet_files \<Rightarrow> guard_result" where
  "enforce_persist_guard reads writes s dates persist persist_force files =
     (if \<not> persist then Guard_passes files
      else
        (case find_existing_persisted_replay reads s dates files of
           None \<Rightarrow> Guard_raises files
         | Some existing \<Rightarrow>
             if existing = [] then Guard_passes files
             else if \<not> persist_force then Guard_exits existing
             else
               (case clear_persisted_replay reads writes s (sort (remdups (concat (map snd existing)))) files of
                  (files', ok) \<Rightarrow> if ok then Guard_passes files' else Guard_raises files')))"

section \<open>Redaction\<close>

definition SENSITIVE_KEY_MARKERS :: "string list" where
  "SENSITIVE_KEY_MARKERS = [''key'', ''token'', ''secret'', ''password'', ''database_url'', ''dsn'']"

definition sensitive :: "string \<Rightarrow> bool" where
  "sensitive k \<longleftrightarrow> list_ex (\<lambda>m. contains_text m (lower k)) SENSITIVE_KEY_MARKERS"

definition REDACTED :: json where "REDACTED = J_text ''***REDACTED***''"

fun redact :: "json \<Rightarrow> json" where
  "redact (J_object kvs) = J_object (map (\<lambda>(k, v). (k, if sensitive k then REDACTED else redact v)) kvs)"
| "redact (J_list vs) = J_list (map redact vs)"
| "redact v = v"


section \<open>The guard\<close>

lemma live_row_no_replay: "live_row r \<Longrightarrow> \<not> replay_row r"
  by (simp add: live_row_def replay_row_def)

lemma all_live_no_replay: "filter live_row xs = xs \<Longrightarrow> \<not> list_ex replay_row xs"
  by (auto simp: filter_id_conv list_ex_iff dest: live_row_no_replay)

lemma has_replays_cong: "files' k = files k \<Longrightarrow> has_replays reads files' k = has_replays reads files k"
  by (simp add: has_replays_def read_partition_file_def)

lemma clear_partition_cases:
  assumes "clear_partition reads writes files k = (files', ok)"
  obtains (unreadable) "files' = files" "has_replays reads files k = Some False"
  | (raises) "files' = files" "\<not> ok"
  | (deleted) t where "files k = Some t" "files' = files(k := None)" "filter live_row (tb_rows t) = []"
  | (rewritten) t where "files k = Some t" "files' = files(k \<mapsto> t\<lparr>tb_rows := filter live_row (tb_rows t)\<rparr>)"
      "''is_replay'' \<in> set (tb_columns t)"
proof (cases "read_partition_file reads files k")
  case None
  with assms show thesis by (intro unreadable) (simp_all add: clear_partition_def has_replays_def)
next
  case (Some t)
  then have t: "files k = Some t" by (auto simp: read_partition_file_def split: if_splits)
  show thesis
  proof (cases "''is_replay'' \<in> set (tb_columns t) \<and> length (filter live_row (tb_rows t)) = length (tb_rows t)")
    case True
    then have "\<not> list_ex replay_row (tb_rows t)" by (intro all_live_no_replay) (simp add: length_filter_eq_iff filter_id_conv)
    with True Some assms show thesis by (intro unreadable) (simp_all add: clear_partition_def has_replays_def)
  next
    case False
    with Some t assms raises deleted rewritten show thesis
      by (cases k) (auto simp: clear_partition_def Let_def parquet_delete_def split: if_splits)
  qed
qed

lemma clear_partition_effect:
  assumes "clear_partition reads writes files k = (files', ok)"
  shows "ok \<Longrightarrow> has_replays reads files' k = Some False" and "k' \<noteq> k \<Longrightarrow> files' k' = files k'"
    and "filter live_row (file_rows files' k') = filter live_row (file_rows files k')"
proof -
  have "\<not> list_ex replay_row (filter live_row xs)" for xs by (rule all_live_no_replay) simp
  with assms show "ok \<Longrightarrow> has_replays reads files' k = Some False"
    by (cases rule: clear_partition_cases) (auto simp: has_replays_def read_partition_file_def)
  from assms show "k' \<noteq> k \<Longrightarrow> files' k' = files k'" by (cases rule: clear_partition_cases) auto
  from assms show "filter live_row (file_rows files' k') = filter live_row (file_rows files k')"
    by (cases rule: clear_partition_cases) (auto simp: file_rows_def)
qed

lemma clear_partitions_effect:
  "clear_partitions reads writes ks files = (files', ok) \<Longrightarrow>
   (\<forall>k. filter live_row (file_rows files' k) = filter live_row (file_rows files k))
   \<and> (ok \<longrightarrow> (\<forall>k. if k \<in> set ks then has_replays reads files' k = Some False else files' k = files k))"
proof (induction ks arbitrary: files)
  case (Cons k ks)
  obtain g one where g: "clear_partition reads writes files k = (g, one)" by force
  note effect = clear_partition_effect [OF g]
  show ?case
  proof (cases one)
    case True
    with Cons.prems g have rest: "clear_partitions reads writes ks g = (files', ok)" by simp
    note ih = Cons.IH [OF rest]
    have "if k' \<in> set (k # ks) then has_replays reads files' k' = Some False else files' k' = files k'" if ok for k'
    proof -
      have "if k' \<in> set ks then has_replays reads files' k' = Some False else files' k' = g k'" using ih that by blast
      with effect(1) [OF True] effect(2) [of k'] has_replays_cong [of files' k' g reads] show ?thesis
        by (cases "k' = k"; cases "k' \<in> set ks") simp_all
    qed
    with ih effect(3) show ?thesis by simp
  next
    case False
    with Cons.prems g effect(3) show ?thesis by simp
  qed
qed simp

lemma replay_dates_Some:
  "replay_dates reads files ty s dates = Some hits \<longleftrightarrow>
   (\<forall>d \<in> set dates. has_replays reads files (ty, s, d) \<noteq> None) \<and> hits = [d \<leftarrow> dates. has_replays reads files (ty, s, d) = Some True]"
proof (induction dates arbitrary: hits)
  case (Cons d ds)
  show ?case using Cons.IH by (cases "has_replays reads files (ty, s, d)") auto
qed auto

lemma find_existing_Some:
  "find_existing_persisted_replay reads s dates files = Some existing \<longleftrightarrow>
   (\<forall>ty \<in> set PERSISTED_DATA_TYPES. \<forall>d \<in> set dates. has_replays reads files (ty, s, d) \<noteq> None)
   \<and> existing = [p \<leftarrow> map (\<lambda>ty. (ty, [d \<leftarrow> dates. has_replays reads files (ty, s, d) = Some True])) PERSISTED_DATA_TYPES. snd p \<noteq> []]"
proof -
  have "replay_dates reads files ty s dates = (if \<forall>d \<in> set dates. has_replays reads files (ty, s, d) \<noteq> None
      then Some [d \<leftarrow> dates. has_replays reads files (ty, s, d) = Some True] else None)" for ty
    using replay_dates_Some [of reads files ty s dates] by (cases "replay_dates reads files ty s dates") auto
  then show ?thesis by (auto simp: find_existing_persisted_replay_def PERSISTED_DATA_TYPES_def)
qed

lemma find_existing_hits:
  assumes "find_existing_persisted_replay reads s dates files = Some existing" "ty \<in> set PERSISTED_DATA_TYPES" "d \<in> set dates"
    and "has_replays reads files (ty, s, d) = Some True"
  shows "d \<in> set (concat (map snd existing))"
proof -
  define hits where "hits = [d \<leftarrow> dates. has_replays reads files (ty, s, d) = Some True]"
  have d: "d \<in> set hits" using assms(3,4) by (simp add: hits_def)
  then have "hits \<noteq> []" by auto
  with assms(1,2) have "(ty, hits) \<in> set existing" by (auto simp: find_existing_Some hits_def)
  with d show ?thesis by (auto intro: bexI [of _ "(ty, hits)"])
qed

lemma clear_removes_replays:
  assumes found: "find_existing_persisted_replay reads s dates files = Some existing"
    and cleared: "clear_persisted_replay reads writes s (sort (remdups (concat (map snd existing)))) files = (files', ok)"
  shows "(\<forall>k. filter live_row (file_rows files' k) = filter live_row (file_rows files k))
    \<and> (ok \<longrightarrow> find_existing_persisted_replay reads s dates files' = Some [])"
proof -
  note effect = clear_partitions_effect [OF cleared [unfolded clear_persisted_replay_def]]
  have "has_replays reads files' (ty, s, d) = Some False"
    if ty: "ty \<in> set PERSISTED_DATA_TYPES" and d: "d \<in> set dates" and ok for ty d
  proof -
    let ?ks = "concat (map (\<lambda>ty. map (\<lambda>d. (ty, s, d)) (sort (remdups (concat (map snd existing))))) PERSISTED_DATA_TYPES)"
    have k: "if (ty, s, d) \<in> set ?ks then has_replays reads files' (ty, s, d) = Some False
        else files' (ty, s, d) = files (ty, s, d)" using effect \<open>ok\<close> by blast
    show ?thesis
    proof (cases "d \<in> set (concat (map snd existing))")
      case True
      with ty have "(ty, s, d) \<in> set ?ks" by auto
      with k show ?thesis by (simp only: if_True)
    next
      case False
      then have "(ty, s, d) \<notin> set ?ks" by auto
      with k have "files' (ty, s, d) = files (ty, s, d)" by (simp only: if_False)
      moreover have "has_replays reads files (ty, s, d) \<noteq> Some True"
        using False find_existing_hits [OF found ty d] by blast
      moreover have "has_replays reads files (ty, s, d) \<noteq> None" using found ty d by (simp add: find_existing_Some)
      ultimately show ?thesis
        using has_replays_cong [of files' "(ty, s, d)" files reads] by (cases "has_replays reads files (ty, s, d)") simp_all
    qed
  qed
  then have "ok \<longrightarrow> find_existing_persisted_replay reads s dates files' = Some []"
    by (simp add: find_existing_Some filter_empty_conv)
  with effect show ?thesis by blast
qed

text \<open>
  C27. A persisted replay never adds to an earlier one. The guard exits the run, raises, or hands on a store in which no file
  of the symbol and the dates that can be read has a replayed row; it clears nothing unless it is told to. Whatever it does,
  also when it raises after some files are cleared, every row captured live stays as it was, in its order.
\<close>

theorem persisting_never_duplicates:
  "case enforce_persist_guard reads writes s dates persist persist_force files of
     Guard_exits hits \<Rightarrow> persist \<and> \<not> persist_force \<and> hits \<noteq> []
   | Guard_raises files' \<Rightarrow>
       persist \<and> (persist_force \<or> files' = files)
       \<and> (\<forall>k. filter live_row (file_rows files' k) = filter live_row (file_rows files k))
   | Guard_passes files' \<Rightarrow>
       (if persist then find_existing_persisted_replay reads s dates files' = Some [] else files' = files)
       \<and> (persist_force \<or> files' = files)
       \<and> (\<forall>k. filter live_row (file_rows files' k) = filter live_row (file_rows files k))"
proof (cases "find_existing_persisted_replay reads s dates files")
  case (Some existing)
  obtain files' ok where "clear_persisted_replay reads writes s (sort (remdups (concat (map snd existing)))) files = (files', ok)"
    by force
  with clear_removes_replays [OF Some this] Some show ?thesis
    by (cases persist; cases persist_force; cases ok) (simp_all add: enforce_persist_guard_def)
qed (simp add: enforce_persist_guard_def)

section \<open>Coverage and loading\<close>

text \<open>
  The coverage audit is exact: the missing days are the trading days of the range, in order, that no loaded bar belongs
  to, and the two counts are those of the trading days and of the trading days with a bar.
\<close>

theorem missing_days_are_exact:
  fixes bars :: "bar_event list" and cal :: session_calendar and trading :: "date \<Rightarrow> bool" and day_lo day_hi :: date
  defines "m \<equiv> dataset_manifest bars cal trading day_lo day_hi"
    and "days \<equiv> {d. day_lo \<le> d \<and> d \<le> day_hi \<and> trading d}"
    and "covered \<equiv> (\<lambda>b. sc_session_date cal (be_timestamp b)) ` set bars"
  shows "set (mf_missing_days m) = days - covered \<and> sorted_wrt (<) (mf_missing_days m)
    \<and> mf_expected_trading_days m = card days \<and> mf_trading_days_with_bars m = int (card (days \<inter> covered))"
proof -
  define expected where "expected = remdups (trading_days trading day_lo day_hi)"
  have set_expected: "set expected = days" by (auto simp: expected_def trading_days_def days_def)
  have m: "mf_missing_days m = sort [d \<leftarrow> expected. d \<notin> covered]" "mf_expected_trading_days m = length expected"
    "mf_trading_days_with_bars m = int (length expected) - int (length (mf_missing_days m))"
    by (simp_all add: m_def dataset_manifest_def Let_def expected_def covered_def)
  have missing: "set (mf_missing_days m) = days - covered" "distinct (mf_missing_days m)"
    using set_expected by (auto simp: m(1)) (simp add: expected_def)
  have cards: "length expected = card days" "length (mf_missing_days m) = card (days - covered)"
    using distinct_card [of expected] distinct_card [OF missing(2)] by (simp_all add: set_expected missing(1)) (simp add: expected_def)
  have "finite days" using set_expected by (metis finite_set)
  then have "card days = card (days - covered) + card (days \<inter> covered)"
    using card_Diff_subset_Int [of days covered] card_mono [of days "days \<inter> covered"] by simp
  with m cards missing show ?thesis by (simp add: strict_sorted_iff)
qed

lemma force_replay_marks: "em_is_replay (be_metadata (force_replay b)) \<and> be_symbol (force_replay b) = be_symbol b"
  by (simp add: force_replay_def)

lemma replay_bar_marks: "em_is_replay (be_metadata (replay_bar s b)) \<and> be_symbol (replay_bar s b) = s"
  by (simp add: replay_bar_def force_replay_marks)

lemma load_days_marks:
  "load_days skip_errors reads files s ds = Some bars \<Longrightarrow> b \<in> set bars \<Longrightarrow> em_is_replay (be_metadata b) \<and> be_symbol b = s"
  by (induction ds arbitrary: bars)
    (auto simp: load_day_def replay_bar_marks split: if_splits Option.bind_splits)

text \<open>Loaded bars are in order, marked as replays, and under the symbol that was asked for.\<close>

lemma loaded_bars_are_replays:
  "load_m1_bars skip_errors reads files s day_lo day_hi = Some bars \<Longrightarrow>
   sorted (map be_timestamp bars) \<and> list_all (\<lambda>b. em_is_replay (be_metadata b) \<and> be_symbol b = s) bars"
  by (auto simp: load_m1_bars_def list_all_iff dest: load_days_marks)

section \<open>Redaction is complete\<close>

fun redacted :: "json \<Rightarrow> bool" where
  "redacted (J_object kvs) = list_all (\<lambda>(k, v). if sensitive k then v = REDACTED else redacted v) kvs"
| "redacted (J_list vs) = list_all redacted vs"
| "redacted v = True"

text \<open>No value under a sensitive key survives, at any depth, and redacting again changes nothing.\<close>

lemma redaction_is_complete: "redacted (redact j) \<and> redact (redact j) = redact j"
proof (induction j rule: redact.induct)
  case (1 kvs)
  then show ?case by (auto simp: list_all_iff REDACTED_def split: prod.splits)
next
  case (2 vs)
  then show ?case by (auto simp: list_all_iff)
qed auto

text \<open>The settings of other futures are those of a stock: a tick of a cent and a point worth one.\<close>

lemma only_mnq_has_its_tick:
  "sy_tick_size (replay_symbol ''ES-09'') = 1/100 \<and> sy_point_value (replay_symbol ''ES-09'') = 1
   \<and> sy_asset_class (replay_symbol ''ES-09'') = Asset_FUTURE"
  by (simp add: replay_symbol_def Let_def make_symbol_def contains_text_char) (simp add: contains_text_def)

end
