(* ===== verification/Instruments.thy ===== *)
theory Instruments
  imports Calendars Texts Replay_Common
begin

text \<open>
  The instrument table and the resolution of tickers, \<^verbatim>\<open>instruments.py\<close>: which quarterly contract is the current
  one, and what a ticker such as \<^verbatim>\<open>MNQ-09\<close> stands for. The date of today is an argument, given by
  year, month and day; dates are counted in days from 1970-01-01, a Thursday.
\<close>

section \<open>Dates\<close>

definition is_leap :: "int \<Rightarrow> bool" where
  "is_leap y \<longleftrightarrow> y mod 4 = 0 \<and> (y mod 100 \<noteq> 0 \<or> y mod 400 = 0)"

definition days_before_month :: "int \<Rightarrow> int \<Rightarrow> int" where
  "days_before_month y m =
     [0, 31, 59, 90, 120, 151, 181, 212, 243, 273, 304, 334] ! nat (m - 1) + (if m > 2 \<and> is_leap y then 1 else 0)"

definition make_date :: "int \<Rightarrow> int \<Rightarrow> int \<Rightarrow> date" where
  "make_date y m d =
     365 * (y - 1) + (y - 1) div 4 - (y - 1) div 100 + (y - 1) div 400 + days_before_month y m + d - 719163"

definition third_friday :: "int \<Rightarrow> int \<Rightarrow> date" where
  "third_friday y m =
     (let first = make_date y m 1; days_until_friday = (4 - weekday first) mod 7 in first + days_until_friday + 14)"

section \<open>Contracts\<close>

text \<open>A contract month \<open>YYYYMM\<close> is its year and month.\<close>

definition QUARTERLY_MONTHS :: "int list" where "QUARTERLY_MONTHS = [3, 6, 9, 12]"

fun quarter_loop :: "int \<Rightarrow> int \<Rightarrow> int \<Rightarrow> int list \<Rightarrow> int \<times> int" where
  "quarter_loop y m d [] = (y + 1, 3)"
| "quarter_loop y m d (q # qs) =
     (if m < q then (y, q)
      else if m = q then
        (if make_date y m d < third_friday y q then (y, q)
         else case qs of q' # _ \<Rightarrow> (y, q') | [] \<Rightarrow> (y + 1, 3))
      else quarter_loop y m d qs)"

definition quarterly_contract_month :: "int \<Rightarrow> int \<Rightarrow> int \<Rightarrow> int \<times> int" where
  "quarterly_contract_month y m d = quarter_loop y m d QUARTERLY_MONTHS"

record future_spec =
  fu_ticker :: string
  fu_exchange :: string
  fu_currency :: string
  fu_description :: string
  fu_tick_size :: dec
  fu_point_value :: dec
  fu_benchmark :: "string option"

definition FUTURES :: "(string \<times> future_spec) list" where
  "FUTURES =
     [(''MNQ'', \<lparr>fu_ticker = ''MNQ'', fu_exchange = ''CME'', fu_currency = ''USD'', fu_description = ''Micro E-mini Nasdaq-100'',
                 fu_tick_size = 1/4, fu_point_value = 2, fu_benchmark = None\<rparr>),
      (''MES'', \<lparr>fu_ticker = ''MES'', fu_exchange = ''CME'', fu_currency = ''USD'', fu_description = ''Micro E-mini S&P 500'',
                 fu_tick_size = 1/4, fu_point_value = 5, fu_benchmark = Some ''SPY''\<rparr>),
      (''M2K'', \<lparr>fu_ticker = ''M2K'', fu_exchange = ''CME'', fu_currency = ''USD'', fu_description = ''Micro E-mini Russell 2000'',
                 fu_tick_size = 1/10, fu_point_value = 5, fu_benchmark = None\<rparr>),
      (''MYM'', \<lparr>fu_ticker = ''MYM'', fu_exchange = ''CBOT'', fu_currency = ''USD'', fu_description = ''Micro E-mini Dow'',
                 fu_tick_size = 1, fu_point_value = 1/2, fu_benchmark = None\<rparr>),
      (''NQ'', \<lparr>fu_ticker = ''NQ'', fu_exchange = ''CME'', fu_currency = ''USD'', fu_description = ''E-mini Nasdaq-100'',
                fu_tick_size = 1/4, fu_point_value = 20, fu_benchmark = None\<rparr>),
      (''ES'', \<lparr>fu_ticker = ''ES'', fu_exchange = ''CME'', fu_currency = ''USD'', fu_description = ''E-mini S&P 500'',
                fu_tick_size = 1/4, fu_point_value = 50, fu_benchmark = Some ''SPY''\<rparr>)]"

record resolved_symbol = symbol +
  rs_contract_month :: "(int \<times> int) option"
  rs_currency :: string
  rs_description :: string
  rs_benchmark :: "string option"

definition is_digit :: "char \<Rightarrow> bool" where
  "is_digit c \<longleftrightarrow> 48 \<le> (of_char c :: nat) \<and> (of_char c :: nat) \<le> 57"

definition two_digits :: "string \<Rightarrow> int option" where
  "two_digits s =
     (case s of [a, b] \<Rightarrow> if is_digit a \<and> is_digit b then Some (10 * (of_char a - 48) + (of_char b - 48)) else None | _ \<Rightarrow> None)"

text \<open>The root and the month of a ticker of the form \<open>ROOT-MM\<close>; other tickers are their own root.\<close>

definition split_ticker :: "string \<Rightarrow> string \<times> int option" where
  "split_ticker normalized =
     (let root = before_mark CHR ''-'' normalized; rest = drop (Suc (length root)) normalized
      in if CHR ''-'' \<in> set normalized \<and> map_of FUTURES root \<noteq> None
         then (case two_digits rest of None \<Rightarrow> (normalized, None) | Some mm \<Rightarrow> (root, Some mm))
         else (normalized, None))"

definition resolve_symbol :: "string \<Rightarrow> int \<Rightarrow> int \<Rightarrow> int \<Rightarrow> resolved_symbol" where
  "resolve_symbol ticker y m d =
     (let normalized = strip (upper ticker); root = fst (split_ticker normalized);
          named = map_option (\<lambda>mm. (if mm \<ge> m then y else y + 1, mm)) (snd (split_ticker normalized))
      in case map_of FUTURES root of
           Some fu \<Rightarrow>
             \<lparr>sy_ticker = ticker_upper normalized, sy_exchange = exchange_upper (fu_exchange fu), sy_asset_class = Asset_FUTURE,
              sy_root_symbol = Some (fu_ticker fu), sy_lot_size = 1, sy_tick_size = fu_tick_size fu,
              sy_point_value = fu_point_value fu, sy_is_active = True,
              rs_contract_month = Some (case named of None \<Rightarrow> quarterly_contract_month y m d | Some c \<Rightarrow> c),
              rs_currency = fu_currency fu, rs_description = fu_description fu, rs_benchmark = fu_benchmark fu\<rparr>
         | None \<Rightarrow>
             \<lparr>sy_ticker = ticker_upper normalized, sy_exchange = ''SMART'', sy_asset_class = Asset_EQUITY, sy_root_symbol = None,
              sy_lot_size = 1, sy_tick_size = 1/100, sy_point_value = 1, sy_is_active = True,
              rs_contract_month = None, rs_currency = ''USD'', rs_description = [],
              rs_benchmark = (if normalized \<in> {''SPY'', ''QQQ''} then None else Some ''SPY'')\<rparr>)"

section \<open>Expiries\<close>

lemma weekday_bounds: "0 \<le> weekday d" "weekday d < 7"
  by (simp_all add: weekday_def)

text \<open>The third Friday is a Friday, from the fifteenth to the twenty-first.\<close>

lemma third_friday_is_friday: "weekday (third_friday y m) = 4"
  unfolding third_friday_def Let_def weekday_def by presburger

lemma third_friday_bounds: "make_date y m 15 \<le> third_friday y m" "third_friday y m \<le> make_date y m 21"
  by (simp_all add: third_friday_def Let_def make_date_def)

lemma month_cases:
  assumes "1 \<le> m" "m \<le> (12 :: int)"
  shows "m = 1 \<or> m = 2 \<or> m = 3 \<or> m = 4 \<or> m = 5 \<or> m = 6 \<or> m = 7 \<or> m = 8 \<or> m = 9 \<or> m = 10 \<or> m = 11 \<or> m = 12"
  using assms by presburger

lemma month_steps:
  "days_before_month y 1 = 0" "31 \<le> days_before_month y 2" "days_before_month y 2 + 28 \<le> days_before_month y 3"
  "days_before_month y 2 = 31" "59 \<le> days_before_month y 3" "days_before_month y 12 \<le> 335"
  "days_before_month y 4 = days_before_month y 3 + 31" "days_before_month y 5 = days_before_month y 4 + 30"
  "days_before_month y 6 = days_before_month y 5 + 31" "days_before_month y 7 = days_before_month y 6 + 30"
  "days_before_month y 8 = days_before_month y 7 + 31" "days_before_month y 9 = days_before_month y 8 + 31"
  "days_before_month y 10 = days_before_month y 9 + 30" "days_before_month y 11 = days_before_month y 10 + 31"
  "days_before_month y 12 = days_before_month y 11 + 30"
  by (simp_all add: days_before_month_def)

lemma month_step:
  assumes "1 \<le> m" "m < 12"
  shows "days_before_month y m + 28 \<le> days_before_month y (m + 1)"
  using month_cases [OF assms(1) less_imp_le [OF assms(2)]] assms(2) month_steps [of y]
  by (elim disjE) (simp_all add: days_before_month_def)

lemma month_order:
  assumes "1 \<le> m" "m < q" "q \<le> 12"
  shows "days_before_month y m + 28 \<le> days_before_month y q"
proof -
  have "m + 1 \<le> q" using assms(2) by simp
  then show ?thesis using assms(3)
  proof (induction q rule: int_ge_induct)
    case base then show ?case using month_step [of m y] assms(1) by simp
  next
    case (step q) then show ?case using month_step [of q y] assms(1) by simp
  qed
qed

lemma last_month: "1 \<le> m \<Longrightarrow> m \<le> 12 \<Longrightarrow> days_before_month y m \<le> 335"
  using month_order [of m 12 y] month_steps(6) [of y] by (cases "m = 12") simp_all

lemma later_month:
  assumes "1 \<le> m" "m < q" "q \<le> 12" "1 \<le> d" "d \<le> 31"
  shows "make_date y m d < make_date y q 15"
  using month_order [OF assms(1-3), of y] assms(4,5) by (simp add: make_date_def)

lemma later_expiry:
  assumes "1 \<le> m" "m < q" "q \<le> 12" "1 \<le> d"
  shows "third_friday y m < make_date y q d"
  using month_order [OF assms(1-3), of y] third_friday_bounds(2) [of y m] assms(4) by (simp add: make_date_def)

lemma year_later:
  fixes y a a' b b' c c' m m' d :: int
  assumes "a \<le> a'" "b' \<le> b + 1" "c \<le> c'" "m \<le> 335" "59 \<le> m'" "d \<le> 31"
  shows "365 * (y - 1) + a - b + c + m + d - 719163 < 365 * y + a' - b' + c' + m' + 15 - 719163"
  using assms by (simp add: right_diff_distrib)

lemma next_year:
  assumes "1 \<le> m" "m \<le> 12" "1 \<le> d" "d \<le> 31"
  shows "make_date y m d < make_date (y + 1) 3 15"
proof -
  have "y div 100 \<le> (y - 1 + 1 * 100) div 100" by (rule zdiv_mono1) simp_all
  also have "\<dots> = 1 + (y - 1) div 100" by (rule div_mult_self1) simp
  finally have century: "y div 100 \<le> (y - 1) div 100 + 1" by (simp only: add.commute)
  have leap: "(y - 1) div 4 \<le> y div 4" "(y - 1) div 400 \<le> y div 400" by (rule zdiv_mono1; simp)+
  show ?thesis
    unfolding make_date_def add_diff_cancel_right'
    by (rule year_later [OF leap(1) century leap(2) last_month [OF assms(1,2)] month_steps(5) assms(4)])
qed

text \<open>
  C37. The contract month is the right one: on every day of every year it is the first of the coming quarterly months whose
  expiry, the third Friday, is still ahead; the day of the expiry belongs to the next contract.
\<close>

theorem contract_is_the_first_open_quarter:
  assumes "1 \<le> m" "m \<le> 12" "1 \<le> d" "d \<le> 31"
  shows "Some (quarterly_contract_month y m d)
    = find (\<lambda>(y', q). make_date y m d < third_friday y' q) [(y, 3), (y, 6), (y, 9), (y, 12), (y + 1, 3)]"
proof -
  have later: "make_date y m d < third_friday y q" if "m < q" "q \<le> 12" for q
    using later_month [of m q d y] third_friday_bounds(1) [of y q] assms that by linarith
  have earlier: "\<not> make_date y m d < third_friday y q" if "q < m" "1 \<le> q" for q
    using later_expiry [of q m d y] assms that by linarith
  have year: "make_date y m d < third_friday (y + 1) 3"
    using next_year [of m d y] third_friday_bounds(1) [of "y + 1" 3] assms by linarith
  show ?thesis
    using month_cases [OF assms(1,2)] later [of 3] later [of 6] later [of 9] later [of 12]
      earlier [of 3] earlier [of 6] earlier [of 9] year
    by (elim disjE) (simp_all add: quarterly_contract_month_def QUARTERLY_MONTHS_def)
qed

theorem contract_is_the_first_open_quarter_witness:
  "Some (quarterly_contract_month 2026 9 18)
   = find (\<lambda>(y', q). make_date 2026 9 18 < third_friday y' q) [(2026, 3), (2026, 6), (2026, 9), (2026, 12), (2026 + 1, 3)]"
  by (rule contract_is_the_first_open_quarter) simp_all

lemma september_expiry_rolls:
  "quarterly_contract_month 2026 9 17 = (2026, 9)" "quarterly_contract_month 2026 9 18 = (2026, 12)"
  by code_simp+

text \<open>A ticker with a month keeps naming this year's contract until the month ends, also after its expiry.\<close>

lemma named_contract_outlives_its_expiry:
  "rs_contract_month (resolve_symbol ''MNQ-09'' 2026 9 28) = Some (2026, 9) \<and> third_friday 2026 9 < make_date 2026 9 28"
  by code_simp

text \<open>What a replay takes for the settings of a contract agrees with the table for MNQ only.\<close>

lemma replay_settings_of_other_futures:
  "sy_tick_size (replay_symbol ''MNQ-09'') = sy_tick_size (resolve_symbol ''MNQ-09'' 2026 7 1)"
  "sy_tick_size (replay_symbol ''MES-09'') \<noteq> sy_tick_size (resolve_symbol ''MES-09'' 2026 7 1)"
  "sy_point_value (replay_symbol ''MES-09'') \<noteq> sy_point_value (resolve_symbol ''MES-09'' 2026 7 1)"
  by code_simp+

end
