(* ===== verification/Backtest.thy ===== *)
theory Backtest
  imports Position_Monitor Float_Math Replay_Common
begin

text \<open>
  The multi-day backtest, \<^verbatim>\<open>scripts/backtest.py\<close>: the tracker that simulates entries and exits bar by
  bar, the feeding of the session days of a range through a running pipeline, and the statistics of a run. The pipeline is
  an argument, a function from a bar and its state to its next state and the outputs it publishes; timestamps stand for
  their ISO texts. The order of types, grades and directions of the shadow tracker is the same as here, so its definitions
  are used.
\<close>

section \<open>The tracker\<close>

record open_position =
  op_signal_id :: uuid
  op_symbol :: string
  op_setup_id :: uuid
  op_setup_type :: setup_type
  op_grade :: setup_grade
  op_direction :: order_side
  op_entry_bar_ts :: timestamp
  op_entry_price :: dec
  op_stop :: dec
  op_target :: dec
  op_risk_pts :: dec
  op_reward_pts :: dec
  op_rr_setup :: rat
  op_bars_held :: int

record signal_record =
  sr_signal_id :: uuid
  sr_date :: date
  sr_symbol :: string
  sr_entry_bar_ts :: timestamp
  sr_setup_type :: setup_type
  sr_grade :: setup_grade
  sr_direction :: string
  sr_entry_price :: rat
  sr_stop :: rat
  sr_target :: rat
  sr_risk_pts :: rat
  sr_reward_pts :: rat
  sr_rr_setup :: rat
  sr_exit_bar_ts :: timestamp
  sr_exit_price :: rat
  sr_exit_reason :: string
  sr_pnl_pts :: rat
  sr_hold_bars :: int
  sr_outcome :: string

record signal_tracker =
  tk_symbol :: string
  tk_session_date :: date
  tk_min_grade :: setup_grade
  tk_max_hold_bars :: int
  tk_open :: "open_position option"
  tk_pending_setups :: "watched_setup list"
  tk_signals :: "signal_record list"

definition tracker_new :: "string \<Rightarrow> date \<Rightarrow> setup_grade \<Rightarrow> int \<Rightarrow> signal_tracker" where
  "tracker_new s d min_grade max_hold =
     \<lparr>tk_symbol = s, tk_session_date = d, tk_min_grade = min_grade, tk_max_hold_bars = max_hold, tk_open = None,
      tk_pending_setups = [], tk_signals = []\<rparr>"

definition simulate_exit :: "int \<Rightarrow> open_position \<Rightarrow> bar_event \<Rightarrow> (dec \<times> string) option" where
  "simulate_exit max_hold pos bar =
     (if op_direction pos = Side_BUY \<and> be_open bar \<le> op_stop pos then Some (be_open bar, ''stop_hit_gap'')
      else if op_direction pos = Side_BUY \<and> be_low bar \<le> op_stop pos then Some (op_stop pos, ''stop_hit'')
      else if op_direction pos = Side_BUY \<and> be_high bar \<ge> op_target pos then Some (op_target pos, ''target_hit'')
      else if op_direction pos \<noteq> Side_BUY \<and> be_open bar \<ge> op_stop pos then Some (be_open bar, ''stop_hit_gap'')
      else if op_direction pos \<noteq> Side_BUY \<and> be_high bar \<ge> op_stop pos then Some (op_stop pos, ''stop_hit'')
      else if op_direction pos \<noteq> Side_BUY \<and> be_low bar \<le> op_target pos then Some (op_target pos, ''target_hit'')
      else if op_bars_held pos \<ge> max_hold then Some (be_close bar, ''timeout'')
      else None)"

definition outcome_of :: "rat \<Rightarrow> string \<Rightarrow> string" where
  "outcome_of pnl reason =
     (if reason = ''session_end'' then ''incomplete''
      else if pnl > fl (1/100) then ''win'' else if pnl < - fl (1/100) then ''loss'' else ''breakeven'')"

definition signal_of :: "date \<Rightarrow> open_position \<Rightarrow> timestamp \<Rightarrow> dec \<Rightarrow> string \<Rightarrow> signal_record" where
  "signal_of d pos bar_ts price reason =
     (let pnl = fl (dq (if op_direction pos = Side_BUY then price - op_entry_price pos else op_entry_price pos - price))
      in \<lparr>sr_signal_id = op_signal_id pos, sr_date = d, sr_symbol = op_symbol pos, sr_entry_bar_ts = op_entry_bar_ts pos,
          sr_setup_type = op_setup_type pos, sr_grade = op_grade pos,
          sr_direction = (if op_direction pos = Side_BUY then ''long'' else ''short''),
          sr_entry_price = fl (op_entry_price pos), sr_stop = fl (op_stop pos), sr_target = fl (op_target pos),
          sr_risk_pts = fl (op_risk_pts pos), sr_reward_pts = fl (op_reward_pts pos), sr_rr_setup = op_rr_setup pos,
          sr_exit_bar_ts = bar_ts, sr_exit_price = fl price, sr_exit_reason = reason, sr_pnl_pts = pnl,
          sr_hold_bars = op_bars_held pos, sr_outcome = outcome_of pnl reason\<rparr>)"

definition close_position :: "open_position \<Rightarrow> timestamp \<Rightarrow> dec \<Rightarrow> string \<Rightarrow> signal_tracker \<Rightarrow> signal_tracker" where
  "close_position pos bar_ts price reason t =
     t\<lparr>tk_signals := tk_signals t @ [signal_of (tk_session_date t) pos bar_ts price reason], tk_open := None\<rparr>"

definition triggers :: "bar_event \<Rightarrow> watched_setup \<Rightarrow> bool" where
  "triggers bar su \<longleftrightarrow>
     (setup_direction (wa_setup_type su) = Side_BUY \<and> be_high bar \<ge> wa_entry_trigger su)
     \<or> (setup_direction (wa_setup_type su) = Side_SELL \<and> be_low bar \<le> wa_entry_trigger su)"

definition position_of :: "string \<Rightarrow> uuid \<Rightarrow> timestamp \<Rightarrow> watched_setup \<Rightarrow> open_position" where
  "position_of s signal_id bar_ts su =
     (let risk = \<bar>dq (wa_entry_trigger su - wa_stop_reference su)\<bar>;
          reward = \<bar>dq (wa_target_reference su - wa_entry_trigger su)\<bar>
      in \<lparr>op_signal_id = signal_id, op_symbol = s, op_setup_id = wa_setup_id su, op_setup_type = wa_setup_type su,
          op_grade = wa_grade su, op_direction = setup_direction (wa_setup_type su), op_entry_bar_ts = bar_ts,
          op_entry_price = wa_entry_trigger su, op_stop = wa_stop_reference su, op_target = wa_target_reference su,
          op_risk_pts = risk, op_reward_pts = reward, op_rr_setup = (if risk > 0 then fl (dq (reward / risk)) else 0),
          op_bars_held = 0\<rparr>)"

definition pre_bar :: "uuid \<Rightarrow> bar_event \<Rightarrow> signal_tracker \<Rightarrow> signal_tracker" where
  "pre_bar signal_id bar t =
     (case tk_open t of
        Some pos \<Rightarrow>
          (let pos = pos\<lparr>op_bars_held := op_bars_held pos + 1\<rparr>
           in case simulate_exit (tk_max_hold_bars t) pos bar of
                Some (price, reason) \<Rightarrow> close_position pos (be_timestamp bar) price reason t
              | None \<Rightarrow> t\<lparr>tk_open := Some pos\<rparr>)
      | None \<Rightarrow>
          (case find (triggers bar) (tk_pending_setups t) of
             None \<Rightarrow> t
           | Some su \<Rightarrow> t\<lparr>tk_open := Some (position_of (tk_symbol t) signal_id (be_timestamp bar) su)\<rparr>))"

text \<open>An output replaces the pending setups: those good enough and with all three levels, best grade first.\<close>

definition tracker_on_output :: "scored_setup list \<Rightarrow> signal_tracker \<Rightarrow> signal_tracker" where
  "tracker_on_output scored t =
     t\<lparr>tk_pending_setups := List.map_filter (qualifying_setup (tk_min_grade t))
         (sort_key (\<lambda>s. (grade_index (sc_grade s), sc_setup_id s)) scored)\<rparr>"

definition close_remaining :: "bar_event \<Rightarrow> signal_tracker \<Rightarrow> signal_tracker" where
  "close_remaining last_bar t =
     (case tk_open t of
        None \<Rightarrow> t
      | Some pos \<Rightarrow> close_position pos (be_timestamp last_bar) (be_close last_bar) ''session_end'' t)"

section \<open>Feeding\<close>

type_synonym 's pipeline = "bar_event \<Rightarrow> 's \<Rightarrow> 's \<times> scored_setup list list"

text \<open>One bar: the tracker first, then the pipeline, whose outputs reach the tracker before the next bar.\<close>

definition track_bar :: "'s pipeline \<Rightarrow> (bar_event \<Rightarrow> uuid) \<Rightarrow> 's \<times> signal_tracker \<Rightarrow> bar_event \<Rightarrow> 's \<times> signal_tracker" where
  "track_bar pipe new_id st bar =
     (case pipe bar (fst st) of
        (s', outputs) \<Rightarrow> (s', fold tracker_on_output outputs (pre_bar (new_id bar) bar (snd st))))"

definition feed_bars :: "'s pipeline \<Rightarrow> (bar_event \<Rightarrow> uuid) \<Rightarrow> bar_event list \<Rightarrow> 's \<times> signal_tracker \<Rightarrow> 's \<times> signal_tracker" where
  "feed_bars pipe new_id bars st = foldl (track_bar pipe new_id) st bars"

definition feed_session_day ::
  "'s pipeline \<Rightarrow> (bar_event \<Rightarrow> uuid) \<Rightarrow> bar_event list \<Rightarrow> 's \<times> signal_tracker \<Rightarrow> 's \<times> signal_tracker" where
  "feed_session_day pipe new_id bars st =
     (if bars = [] then st else apsnd (close_remaining (last bars)) (feed_bars pipe new_id bars st))"

definition pre_market_open :: "zone \<Rightarrow> asset_class \<Rightarrow> date \<Rightarrow> timestamp" where
  "pre_market_open z ac d =
     zn_from_et z (if ac = Asset_FUTURE then cme_pre_market_open d else nyse_pre_market_open d)"

definition warmup_bars :: "zone \<Rightarrow> asset_class \<Rightarrow> date \<Rightarrow> bar_event list \<Rightarrow> bar_event list" where
  "warmup_bars z ac day_lo bars = [b \<leftarrow> bars. be_timestamp b < pre_market_open z ac day_lo]"

definition session_bars :: "zone \<Rightarrow> asset_class \<Rightarrow> bar_event list \<Rightarrow> date \<Rightarrow> bar_event list" where
  "session_bars z ac bars d =
     [b \<leftarrow> bars. pre_market_open z ac d \<le> be_timestamp b \<and> be_timestamp b < pre_market_open z ac (d + 1)]"

text \<open>The days of the range, each with a tracker of its own; a day without bars is passed over.\<close>

fun run_days ::
  "'s pipeline \<Rightarrow> (bar_event \<Rightarrow> uuid) \<Rightarrow> (date \<Rightarrow> bar_event list) \<Rightarrow> (date \<Rightarrow> signal_tracker) \<Rightarrow> date list \<Rightarrow> 's \<Rightarrow> 's \<times> signal_record list" where
  "run_days pipe new_id day_bars tracker [] s = (s, [])"
| "run_days pipe new_id day_bars tracker (d # ds) s =
     (if day_bars d = [] then run_days pipe new_id day_bars tracker ds s
      else
        (case feed_session_day pipe new_id (day_bars d) (s, tracker d) of
           (s, t) \<Rightarrow> apsnd ((@) (tk_signals t)) (run_days pipe new_id day_bars tracker ds s)))"

definition backtest_run ::
  "'s pipeline \<Rightarrow> (bar_event \<Rightarrow> uuid) \<Rightarrow> zone \<Rightarrow> asset_class \<Rightarrow> string \<Rightarrow> setup_grade \<Rightarrow> int \<Rightarrow> date \<Rightarrow> date \<Rightarrow> bar_event list \<Rightarrow> 's \<Rightarrow>
   's \<times> signal_record list" where
  "backtest_run pipe new_id z ac s min_grade max_hold day_lo day_hi bars st =
     run_days pipe new_id (session_bars z ac bars) (\<lambda>d. tracker_new s d min_grade max_hold) [day_lo..day_hi]
       (foldl (\<lambda>st b. fst (pipe b st)) st (warmup_bars z ac day_lo bars))"

section \<open>Statistics\<close>

definition fl_round :: "nat \<Rightarrow> rat \<Rightarrow> rat" where
  "fl_round n x = fl (of_int (round_half_even (x * 10 ^ n)) / 10 ^ n)"

record group_stats =
  gs_total :: nat
  gs_wins :: nat
  gs_losses :: nat
  gs_pnl_pts :: rat
  gs_win_rate :: rat

definition count_in_group :: "signal_record \<Rightarrow> group_stats \<Rightarrow> group_stats" where
  "count_in_group s g =
     g\<lparr>gs_total := gs_total g + 1, gs_pnl_pts := fl (gs_pnl_pts g + sr_pnl_pts s),
       gs_wins := gs_wins g + (if sr_outcome s = ''win'' then 1 else 0),
       gs_losses := gs_losses g + (if sr_outcome s = ''loss'' then 1 else 0)\<rparr>"

definition NEW_GROUP :: group_stats where
  "NEW_GROUP = \<lparr>gs_total = 0, gs_wins = 0, gs_losses = 0, gs_pnl_pts = 0, gs_win_rate = 0\<rparr>"

definition with_win_rate :: "group_stats \<Rightarrow> group_stats" where
  "with_win_rate g =
     g\<lparr>gs_win_rate := (if gs_total g > 0 then fl_round 3 (fl (of_nat (gs_wins g) / of_nat (gs_total g))) else 0)\<rparr>"

definition group_by :: "(signal_record \<Rightarrow> 'k) \<Rightarrow> signal_record list \<Rightarrow> ('k \<times> group_stats) list" where
  "group_by key signals =
     map (apsnd with_win_rate)
       (foldl (\<lambda>groups s. AList.map_default (key s) (count_in_group s NEW_GROUP) (count_in_group s) groups) [] signals)"

definition exit_reason_counts :: "signal_record list \<Rightarrow> (string \<times> nat) list" where
  "exit_reason_counts signals = foldl (\<lambda>counts s. AList.map_default (sr_exit_reason s) 1 Suc counts) [] signals"

record backtest_stats =
  bs_total_signals :: nat
  bs_completed :: nat
  bs_wins :: nat
  bs_losses :: nat
  bs_timeouts :: nat
  bs_incomplete :: nat
  bs_win_rate :: rat
  bs_avg_rr_setup :: rat
  bs_avg_rr_actual :: rat
  bs_avg_win_pts :: rat
  bs_avg_loss_pts :: rat
  bs_profit_factor :: "rat option"
  bs_total_pnl_pts :: rat
  bs_by_setup_type :: "(setup_type \<times> group_stats) list"
  bs_by_grade :: "(setup_grade \<times> group_stats) list"
  bs_exit_reasons :: "(string \<times> nat) list"

text \<open>Quotients of zero by zero signals are zero, an infinite profit factor is \<open>None\<close>.\<close>

definition compute_stats :: "signal_record list \<Rightarrow> backtest_stats" where
  "compute_stats signals =
     (let completed = [s \<leftarrow> signals. sr_outcome s \<noteq> ''incomplete''];
          wins = [s \<leftarrow> completed. sr_outcome s = ''win''];
          losses = [s \<leftarrow> completed. sr_outcome s = ''loss''];
          quotient = (\<lambda>x n. if n > 0 then fl (x / n) else 0);
          win_pts = fl_sum (map sr_pnl_pts wins);
          loss_pts = \<bar>fl_sum (map sr_pnl_pts losses)\<bar>;
          avg_win = quotient win_pts (of_nat (length wins));
          avg_loss = quotient loss_pts (of_nat (length losses))
      in \<lparr>bs_total_signals = length signals, bs_completed = length completed, bs_wins = length wins, bs_losses = length losses,
          bs_timeouts = length [s \<leftarrow> completed. sr_exit_reason s = ''timeout''],
          bs_incomplete = length [s \<leftarrow> signals. sr_outcome s = ''incomplete''],
          bs_win_rate = fl_round 4 (quotient (of_nat (length wins)) (of_nat (length completed))),
          bs_avg_rr_setup = fl_round 3 (quotient (fl_sum (map sr_rr_setup signals)) (of_nat (length signals))),
          bs_avg_rr_actual = fl_round 3 (quotient avg_win avg_loss),
          bs_avg_win_pts = fl_round 2 avg_win, bs_avg_loss_pts = fl_round 2 avg_loss,
          bs_profit_factor = (if loss_pts > 0 then Some (fl_round 3 (fl (win_pts / loss_pts))) else None),
          bs_total_pnl_pts = fl_round 2 (fl_sum (map sr_pnl_pts completed)),
          bs_by_setup_type = group_by sr_setup_type completed, bs_by_grade = group_by sr_grade completed,
          bs_exit_reasons = exit_reason_counts signals\<rparr>)"

section \<open>Exits\<close>

text \<open>What a position is closed by: the stop, whose fill is the worse of the stop and the open, before the target.\<close>

definition stopped :: "open_position \<Rightarrow> bar_event \<Rightarrow> bool" where
  "stopped pos bar \<longleftrightarrow>
     (if op_direction pos = Side_BUY then min (be_open bar) (be_low bar) \<le> op_stop pos
      else op_stop pos \<le> max (be_open bar) (be_high bar))"

definition target_reached :: "open_position \<Rightarrow> bar_event \<Rightarrow> bool" where
  "target_reached pos bar \<longleftrightarrow>
     (if op_direction pos = Side_BUY then op_target pos \<le> be_high bar else be_low bar \<le> op_target pos)"

definition fill_price :: "open_position \<Rightarrow> bar_event \<Rightarrow> dec" where
  "fill_price pos bar =
     (if stopped pos bar
      then (if op_direction pos = Side_BUY then min (be_open bar) (op_stop pos) else max (be_open bar) (op_stop pos))
      else if target_reached pos bar then op_target pos else be_close bar)"

definition fill_reason :: "open_position \<Rightarrow> bar_event \<Rightarrow> string" where
  "fill_reason pos bar =
     (if stopped pos bar
      then (if (if op_direction pos = Side_BUY then be_open bar \<le> op_stop pos else op_stop pos \<le> be_open bar)
            then ''stop_hit_gap'' else ''stop_hit'')
      else if target_reached pos bar then ''target_hit'' else ''timeout'')"

definition held_on :: "nat \<Rightarrow> open_position \<Rightarrow> open_position" where
  "held_on n pos = pos\<lparr>op_bars_held := op_bars_held pos + int n\<rparr>"

text \<open>The first bar, counted from \<open>Suc n\<close>, that touches the stop or the target or is the last one allowed.\<close>

definition first_exit :: "int \<Rightarrow> nat \<Rightarrow> open_position \<Rightarrow> bar_event list \<Rightarrow> (nat \<times> bar_event) option" where
  "first_exit max_hold n pos bars =
     find (\<lambda>(i, b). stopped pos b \<or> target_reached pos b \<or> max_hold \<le> op_bars_held pos + int i) (enumerate (Suc n) bars)"

definition exit_signal :: "int \<Rightarrow> date \<Rightarrow> nat \<Rightarrow> open_position \<Rightarrow> bar_event list \<Rightarrow> bar_event \<Rightarrow> signal_record" where
  "exit_signal max_hold d n pos bars last_bar =
     (case first_exit max_hold n pos bars of
        Some (i, b) \<Rightarrow> signal_of d (held_on i pos) (be_timestamp b) (fill_price pos b) (fill_reason pos b)
      | None \<Rightarrow> signal_of d (held_on (n + length bars) pos) (be_timestamp last_bar) (be_close last_bar) ''session_end'')"

lemma held_on_sel [simp]:
  "op_direction (held_on n pos) = op_direction pos" "op_stop (held_on n pos) = op_stop pos"
  "op_target (held_on n pos) = op_target pos" "op_bars_held (held_on n pos) = op_bars_held pos + int n"
  "op_entry_bar_ts (held_on n pos) = op_entry_bar_ts pos"
  by (simp_all add: held_on_def)

lemma held_on_spec [simp]:
  "stopped (held_on n pos) b = stopped pos b" "target_reached (held_on n pos) b = target_reached pos b"
  "fill_price (held_on n pos) b = fill_price pos b" "fill_reason (held_on n pos) b = fill_reason pos b"
  by (simp_all add: stopped_def target_reached_def fill_price_def fill_reason_def)

lemma held_on_Suc: "(held_on n pos)\<lparr>op_bars_held := op_bars_held pos + int n + 1\<rparr> = held_on (Suc n) pos"
  by (simp add: held_on_def)

lemma simulate_exit_spec:
  "simulate_exit max_hold pos bar =
   (if stopped pos bar \<or> target_reached pos bar \<or> max_hold \<le> op_bars_held pos
    then Some (fill_price pos bar, fill_reason pos bar) else None)"
proof (cases "op_direction pos = Side_BUY")
  case True
  then show ?thesis
    by (simp add: simulate_exit_def stopped_def target_reached_def fill_price_def fill_reason_def min_def)
next
  case False
  then show ?thesis
    by (simp add: simulate_exit_def stopped_def target_reached_def fill_price_def fill_reason_def max_def)
qed

text \<open>Outputs change the pending setups only.\<close>

lemma outputs_frame:
  "tk_open (fold tracker_on_output outputs t) = tk_open t \<and> tk_signals (fold tracker_on_output outputs t) = tk_signals t
   \<and> tk_max_hold_bars (fold tracker_on_output outputs t) = tk_max_hold_bars t
   \<and> tk_session_date (fold tracker_on_output outputs t) = tk_session_date t"
  by (induction outputs arbitrary: t) (simp_all add: tracker_on_output_def)

lemma pre_bar_frame:
  "tk_max_hold_bars (pre_bar i b t) = tk_max_hold_bars t \<and> tk_session_date (pre_bar i b t) = tk_session_date t"
  by (simp add: pre_bar_def close_position_def Let_def split: option.split prod.split)

lemma track_bar_tracker:
  "tk_open (snd (track_bar pipe ids st b)) = tk_open (pre_bar (ids b) b (snd st))"
  "tk_signals (snd (track_bar pipe ids st b)) = tk_signals (pre_bar (ids b) b (snd st))"
  "tk_max_hold_bars (snd (track_bar pipe ids st b)) = tk_max_hold_bars (snd st)"
  "tk_session_date (snd (track_bar pipe ids st b)) = tk_session_date (snd st)"
  by (simp_all add: track_bar_def outputs_frame pre_bar_frame split: prod.split)

lemma feed_bars_Cons [simp]:
  "feed_bars pipe ids [] st = st" "feed_bars pipe ids (b # bs) st = feed_bars pipe ids bs (track_bar pipe ids st b)"
  by (simp_all add: feed_bars_def)

lemma feed_bars_max_hold: "tk_max_hold_bars (snd (feed_bars pipe ids bars st)) = tk_max_hold_bars (snd st)"
  by (induction bars arbitrary: st) (simp_all add: track_bar_tracker)

lemma feed_bars_extends: "\<exists>later. tk_signals (snd (feed_bars pipe ids bars st)) = tk_signals (snd st) @ later"
proof (induction bars arbitrary: st)
  case (Cons b bs)
  obtain later where "tk_signals (snd (feed_bars pipe ids bs (track_bar pipe ids st b))) = tk_signals (snd (track_bar pipe ids st b)) @ later"
    using Cons.IH by blast
  moreover have "\<exists>x. tk_signals (pre_bar (ids b) b (snd st)) = tk_signals (snd st) @ x"
    by (simp add: pre_bar_def close_position_def Let_def split: option.split prod.split)
  ultimately show ?case by (auto simp: track_bar_tracker)
qed simp

lemma close_remaining_extends: "\<exists>later. tk_signals (close_remaining b t) = tk_signals t @ later"
  by (simp add: close_remaining_def close_position_def split: option.split)

lemma open_position_exits:
  assumes "tk_open (snd st) = Some (held_on n pos)"
  shows "\<exists>later. tk_signals (close_remaining lb (snd (feed_bars pipe ids bars st)))
    = tk_signals (snd st) @ exit_signal (tk_max_hold_bars (snd st)) (tk_session_date (snd st)) n pos bars lb # later"
  using assms
proof (induction bars arbitrary: st n)
  case Nil
  then show ?case by (simp add: close_remaining_def close_position_def exit_signal_def first_exit_def)
next
  case (Cons b bs)
  let ?st = "track_bar pipe ids st b" and ?M = "tk_max_hold_bars (snd st)" and ?d = "tk_session_date (snd st)"
  show ?case
  proof (cases "stopped pos b \<or> target_reached pos b \<or> ?M \<le> op_bars_held pos + int (Suc n)")
    case True
    then have exit: "simulate_exit ?M (held_on (Suc n) pos) b = Some (fill_price pos b, fill_reason pos b)"
      by (simp add: simulate_exit_spec)
    with Cons.prems have "tk_signals (snd ?st) = tk_signals (snd st)
        @ [signal_of ?d (held_on (Suc n) pos) (be_timestamp b) (fill_price pos b) (fill_reason pos b)]"
      by (simp add: track_bar_tracker pre_bar_def held_on_Suc close_position_def Let_def)
    moreover have "exit_signal ?M ?d n pos (b # bs) lb
        = signal_of ?d (held_on (Suc n) pos) (be_timestamp b) (fill_price pos b) (fill_reason pos b)"
      using True by (simp add: exit_signal_def first_exit_def)
    moreover obtain l1 where "tk_signals (snd (feed_bars pipe ids bs ?st)) = tk_signals (snd ?st) @ l1"
      using feed_bars_extends by blast
    moreover obtain l2 where "tk_signals (close_remaining lb (snd (feed_bars pipe ids bs ?st))) = tk_signals (snd (feed_bars pipe ids bs ?st)) @ l2"
      using close_remaining_extends by blast
    ultimately show ?thesis by simp
  next
    case False
    then have "simulate_exit ?M (held_on (Suc n) pos) b = None" by (simp add: simulate_exit_spec)
    with Cons.prems have step: "tk_open (snd ?st) = Some (held_on (Suc n) pos)" "tk_signals (snd ?st) = tk_signals (snd st)"
      by (simp_all add: track_bar_tracker pre_bar_def held_on_Suc Let_def)
    moreover have "exit_signal ?M ?d n pos (b # bs) lb = exit_signal ?M ?d (Suc n) pos bs lb"
      using False by (simp add: exit_signal_def first_exit_def cong: option.case_cong)
    ultimately show ?thesis using Cons.IH [OF step(1)] by (simp add: track_bar_tracker)
  qed
qed

text \<open>
  C16. A simulated position ends where it should, whatever the pipeline publishes meanwhile: at the first bar that touches
  the stop or the target or is the last one allowed, and at the last bar of the session if there is none. A bar that
  touches both counts as a stop, and a stop is filled at the worse of its price and the open.
\<close>

theorem positions_exit_at_the_first_touch:
  assumes "tk_open t = Some pos" "bars \<noteq> []"
  shows "\<exists>later. tk_signals (snd (feed_session_day pipe new_id bars (s, t))) = tk_signals t @
    (case find (\<lambda>(i, b). stopped pos b \<or> target_reached pos b \<or> tk_max_hold_bars t \<le> op_bars_held pos + int i) (enumerate 1 bars) of
       Some (i, b) \<Rightarrow> signal_of (tk_session_date t) (held_on i pos) (be_timestamp b) (fill_price pos b) (fill_reason pos b)
     | None \<Rightarrow> signal_of (tk_session_date t) (held_on (length bars) pos) (be_timestamp (last bars)) (be_close (last bars)) ''session_end'')
    # later"
proof -
  have "tk_open (snd (s, t)) = Some (held_on 0 pos)" using assms(1) by (simp add: held_on_def)
  from open_position_exits [OF this, of "last bars" pipe new_id bars] assms(2) show ?thesis
    by (simp add: feed_session_day_def exit_signal_def first_exit_def cong: option.case_cong)
qed

section \<open>The signals of a day\<close>

text \<open>A signal against the bars seen so far: it was held for the bars after its entry, up to its exit.\<close>

definition signal_fits :: "bar_event list \<Rightarrow> int \<Rightarrow> signal_record \<Rightarrow> bool" where
  "signal_fits seen max_hold x \<longleftrightarrow>
     sr_entry_bar_ts x \<le> sr_exit_bar_ts x \<and> sr_exit_bar_ts x \<in> be_timestamp ` set seen
     \<and> sr_hold_bars x = int (length [b \<leftarrow> seen. sr_entry_bar_ts x < be_timestamp b \<and> be_timestamp b \<le> sr_exit_bar_ts x])
     \<and> sr_hold_bars x \<le> max 1 max_hold"

definition open_fits :: "bar_event list \<Rightarrow> int \<Rightarrow> signal_record list \<Rightarrow> open_position \<Rightarrow> bool" where
  "open_fits seen max_hold signals pos \<longleftrightarrow>
     op_entry_bar_ts pos \<in> be_timestamp ` set seen \<and> op_bars_held pos < max 1 max_hold
     \<and> op_bars_held pos = int (length [b \<leftarrow> seen. op_entry_bar_ts pos < be_timestamp b])
     \<and> (\<forall>x \<in> set signals. sr_exit_bar_ts x < op_entry_bar_ts pos)"

definition day_inv :: "bar_event list \<Rightarrow> signal_tracker \<Rightarrow> bool" where
  "day_inv seen t \<longleftrightarrow>
     (\<forall>x \<in> set (tk_signals t). signal_fits seen (tk_max_hold_bars t) x)
     \<and> sorted_wrt (\<lambda>x y. sr_exit_bar_ts x < sr_entry_bar_ts y) (tk_signals t)
     \<and> pred_option (open_fits seen (tk_max_hold_bars t) (tk_signals t)) (tk_open t)"

lemma signal_of_sel [simp]:
  "sr_entry_bar_ts (signal_of d pos ts price reason) = op_entry_bar_ts pos"
  "sr_exit_bar_ts (signal_of d pos ts price reason) = ts"
  "sr_hold_bars (signal_of d pos ts price reason) = op_bars_held pos"
  by (simp_all add: signal_of_def Let_def)

lemma position_of_sel [simp]:
  "op_entry_bar_ts (position_of s i ts su) = ts" "op_bars_held (position_of s i ts su) = 0"
  by (simp_all add: position_of_def Let_def)

lemma later_than_exits:
  assumes "\<forall>x \<in> set xs. signal_fits seen m x" "\<forall>c \<in> set seen. be_timestamp c < ts"
  shows "\<forall>x \<in> set xs. sr_exit_bar_ts x < ts"
  using assms by (fastforce simp: signal_fits_def)

lemma signal_fits_later:
  assumes "signal_fits seen m x" "\<forall>c \<in> set seen. be_timestamp c < be_timestamp b"
  shows "signal_fits (seen @ [b]) m x"
  using assms later_than_exits [of "[x]" seen m "be_timestamp b"] by (simp add: signal_fits_def)

lemma open_fits_closes:
  assumes "open_fits seen m xs pos" "\<forall>c \<in> set seen. be_timestamp c < be_timestamp b"
  shows "signal_fits (seen @ [b]) m (signal_of d (pos\<lparr>op_bars_held := op_bars_held pos + 1\<rparr>) (be_timestamp b) price reason)"
proof -
  have entry: "op_entry_bar_ts pos < be_timestamp b" using assms by (auto simp: open_fits_def)
  have "[c \<leftarrow> seen. op_entry_bar_ts pos < be_timestamp c \<and> be_timestamp c \<le> be_timestamp b]
      = [c \<leftarrow> seen. op_entry_bar_ts pos < be_timestamp c]"
    using assms(2) by (intro filter_cong) auto
  with assms(1) entry show ?thesis by (simp add: signal_fits_def open_fits_def)
qed

lemma open_fits_later:
  assumes "open_fits seen m xs pos" "\<forall>c \<in> set seen. be_timestamp c < be_timestamp b" "op_bars_held pos + 1 < max 1 m"
  shows "open_fits (seen @ [b]) m xs (pos\<lparr>op_bars_held := op_bars_held pos + 1\<rparr>)"
proof -
  have "op_entry_bar_ts pos < be_timestamp b" using assms by (auto simp: open_fits_def)
  with assms show ?thesis by (simp add: open_fits_def)
qed

lemma pre_bar_keeps_day_inv:
  assumes inv: "day_inv seen t" and later: "\<forall>c \<in> set seen. be_timestamp c < be_timestamp b"
  shows "day_inv (seen @ [b]) (pre_bar i b t)"
proof -
  let ?M = "tk_max_hold_bars t"
  have old: "\<forall>x \<in> set (tk_signals t). signal_fits (seen @ [b]) ?M x"
    using inv later by (auto simp: day_inv_def intro: signal_fits_later)
  have sorted: "sorted_wrt (\<lambda>x y. sr_exit_bar_ts x < sr_entry_bar_ts y) (tk_signals t)"
    using inv by (simp add: day_inv_def)
  show ?thesis
  proof (cases "tk_open t")
    case None
    have "open_fits (seen @ [b]) ?M (tk_signals t) (position_of (tk_symbol t) i (be_timestamp b) su)" for su
    proof -
      have "[c \<leftarrow> seen. be_timestamp b < be_timestamp c] = []" using later by (force simp: filter_empty_conv)
      then show ?thesis
        using later_than_exits [OF _ later, of "tk_signals t" ?M] inv by (auto simp: open_fits_def day_inv_def)
    qed
    with None old sorted show ?thesis by (simp add: pre_bar_def day_inv_def split: option.split)
  next
    case (Some pos)
    let ?pos = "pos\<lparr>op_bars_held := op_bars_held pos + 1\<rparr>"
    have fits: "open_fits seen ?M (tk_signals t) pos" using inv Some by (simp add: day_inv_def)
    show ?thesis
    proof (cases "simulate_exit ?M ?pos b")
      case None
      then have "op_bars_held pos + 1 < max 1 ?M" by (auto simp: simulate_exit_spec split: if_splits)
      from open_fits_later [OF fits later this] None Some old sorted show ?thesis
        by (simp add: pre_bar_def day_inv_def Let_def)
    next
      case (Some exit)
      obtain price reason where "exit = (price, reason)" by (cases exit)
      with Some \<open>tk_open t = Some pos\<close> old sorted open_fits_closes [OF fits later] fits show ?thesis
        by (simp add: pre_bar_def close_position_def day_inv_def open_fits_def sorted_wrt_append Let_def)
    qed
  qed
qed

lemma day_inv_track_bar:
  "day_inv seen (snd st) \<Longrightarrow> \<forall>c \<in> set seen. be_timestamp c < be_timestamp b \<Longrightarrow> day_inv (seen @ [b]) (snd (track_bar pipe ids st b))"
  using pre_bar_keeps_day_inv [of seen "snd st" b "ids b"] pre_bar_frame [of "ids b" b "snd st"]
  by (simp add: day_inv_def track_bar_tracker)

lemma day_inv_feed_bars:
  "day_inv seen (snd st) \<Longrightarrow> sorted_wrt (\<lambda>b c. be_timestamp b < be_timestamp c) (seen @ bars) \<Longrightarrow>
   day_inv (seen @ bars) (snd (feed_bars pipe ids bars st))"
proof (induction bars arbitrary: seen st)
  case (Cons b bs)
  from Cons.prems(2) have "\<forall>c \<in> set seen. be_timestamp c < be_timestamp b" by (simp add: sorted_wrt_append)
  from Cons.IH [of "seen @ [b]", OF day_inv_track_bar [OF Cons.prems(1) this]] Cons.prems(2) show ?case by simp
qed simp

lemma day_inv_close:
  assumes inv: "day_inv bars t" and sorted: "sorted_wrt (\<lambda>b c. be_timestamp b < be_timestamp c) bars" and "bars \<noteq> []"
  shows "day_inv bars (close_remaining (last bars) t)"
proof (cases "tk_open t")
  case (Some pos)
  have le: "\<forall>c \<in> set bars. be_timestamp c \<le> be_timestamp (last bars)"
    using sorted \<open>bars \<noteq> []\<close> by (cases bars rule: rev_cases) (auto simp: sorted_wrt_append)
  have fits: "open_fits bars (tk_max_hold_bars t) (tk_signals t) pos" using inv Some by (simp add: day_inv_def)
  have "[c \<leftarrow> bars. op_entry_bar_ts pos < be_timestamp c \<and> be_timestamp c \<le> be_timestamp (last bars)]
      = [c \<leftarrow> bars. op_entry_bar_ts pos < be_timestamp c]"
    using le by (intro filter_cong) auto
  with fits le \<open>bars \<noteq> []\<close> have "signal_fits bars (tk_max_hold_bars t)
      (signal_of (tk_session_date t) pos (be_timestamp (last bars)) (be_close (last bars)) ''session_end'')"
    by (auto simp: signal_fits_def open_fits_def)
  with inv fits Some show ?thesis
    by (auto simp: close_remaining_def close_position_def day_inv_def open_fits_def sorted_wrt_append)
qed (simp add: close_remaining_def inv)

text \<open>
  C15. The signals of a session are one position after the other: each is entered after the exit of the one before, ends on
  a bar of the session, was held for exactly the bars after its entry up to its exit, and for no more than the limit.
\<close>

theorem signals_do_not_overlap:
  fixes bars :: "bar_event list" and pipe :: "'s pipeline" and new_id :: "bar_event \<Rightarrow> uuid" and s :: 's
    and sy :: string and d :: date and min_grade :: setup_grade and max_hold :: int
  assumes "sorted_wrt (\<lambda>b c. be_timestamp b < be_timestamp c) bars"
  defines "signals \<equiv> tk_signals (snd (feed_session_day pipe new_id bars (s, tracker_new sy d min_grade max_hold)))"
  shows "sorted_wrt (\<lambda>x y. sr_exit_bar_ts x < sr_entry_bar_ts y) signals
    \<and> (\<forall>x \<in> set signals. sr_entry_bar_ts x \<le> sr_exit_bar_ts x \<and> sr_exit_bar_ts x \<in> be_timestamp ` set bars
       \<and> sr_hold_bars x = int (length [b \<leftarrow> bars. sr_entry_bar_ts x < be_timestamp b \<and> be_timestamp b \<le> sr_exit_bar_ts x])
       \<and> sr_hold_bars x \<le> max 1 max_hold)"
proof (cases "bars = []")
  case True
  then show ?thesis by (simp add: signals_def feed_session_day_def tracker_new_def)
next
  case False
  let ?t = "tracker_new sy d min_grade max_hold"
  let ?t1 = "snd (feed_bars pipe new_id bars (s, ?t))"
  have "day_inv [] (snd (s, ?t))" by (simp add: day_inv_def tracker_new_def)
  then have "day_inv ([] @ bars) ?t1" using assms(1) by (intro day_inv_feed_bars) simp_all
  then have inv: "day_inv bars (close_remaining (last bars) ?t1)"
    using day_inv_close [OF _ assms(1) False] by simp
  have "tk_max_hold_bars (close_remaining (last bars) ?t1) = max_hold"
    by (simp add: close_remaining_def close_position_def feed_bars_max_hold tracker_new_def split: option.split)
  with inv False show ?thesis
    by (auto simp: signals_def feed_session_day_def day_inv_def signal_fits_def)
qed

section \<open>The bars of a run\<close>

lemma filter_split:
  fixes f :: "'a \<Rightarrow> int"
  assumes "sorted (map f xs)" "a \<le> b"
  shows "[x \<leftarrow> xs. f x < a] @ [x \<leftarrow> xs. a \<le> f x \<and> f x < b] = [x \<leftarrow> xs. f x < b]"
  using assms
proof (induction xs)
  case (Cons x xs)
  show ?case
  proof (cases "f x < a")
    case False
    then have "[y \<leftarrow> xs. f y < a] = []" using Cons.prems(1) by (fastforce simp: filter_empty_conv)
    with False Cons show ?thesis by (simp cong: filter_cong)
  qed (use Cons in simp)
qed simp

lemma pre_market_open_later:
  assumes "\<And>w. \<bar>zn_from_et z w - w\<bar> \<le> 12 * HOUR"
  shows "pre_market_open z ac d \<le> pre_market_open z ac (d + 1)"
proof -
  define w where "w = (if ac = Asset_FUTURE then cme_pre_market_open d else nyse_pre_market_open d)"
  have next_open: "(if ac = Asset_FUTURE then cme_pre_market_open (d + 1) else nyse_pre_market_open (d + 1)) = w + 24 * HOUR"
    by (simp add: w_def cme_pre_market_open_def nyse_pre_market_open_def at_time_def DAY_def algebra_simps)
  from assms [of w] assms [of "w + 24 * HOUR"] show ?thesis
    unfolding pre_market_open_def w_def [symmetric] next_open by linarith
qed

lemma sessions_cover_range:
  assumes sorted: "sorted (map be_timestamp bars)" and near: "\<And>w. \<bar>zn_from_et z w - w\<bar> \<le> 12 * HOUR"
  shows "warmup_bars z ac lo bars @ concat (map (session_bars z ac bars) [lo..lo + int n - 1])
    = [b \<leftarrow> bars. be_timestamp b < pre_market_open z ac (lo + int n)]"
proof (induction n)
  case 0
  then show ?case by (simp add: warmup_bars_def)
next
  case (Suc n)
  have days: "[lo..lo + int (Suc n) - 1] = [lo..lo + int n - 1] @ [lo + int n]"
    using upto_rec2 [of lo "lo + int n"] by simp
  have "warmup_bars z ac lo bars @ concat (map (session_bars z ac bars) [lo..lo + int (Suc n) - 1])
      = [b \<leftarrow> bars. be_timestamp b < pre_market_open z ac (lo + int n)] @ session_bars z ac bars (lo + int n)"
    by (simp only: days map_append concat_append list.map concat.simps append_Nil2 Suc.IH flip: append_assoc)
  also have "\<dots> = [b \<leftarrow> bars. be_timestamp b < pre_market_open z ac (lo + int n + 1)]"
    unfolding session_bars_def by (rule filter_split [OF sorted pre_market_open_later [OF near]])
  finally show ?case by (simp add: algebra_simps)
qed

lemma fst_feed_bars: "fst (feed_bars pipe ids bars st) = foldl (\<lambda>st b. fst (pipe b st)) (fst st) bars"
  by (induction bars arbitrary: st) (simp_all add: track_bar_def split: prod.split)

lemma fst_feed_session_day: "fst (feed_session_day pipe ids bars st) = foldl (\<lambda>st b. fst (pipe b st)) (fst st) bars"
  by (simp add: feed_session_day_def fst_feed_bars)

lemma fst_run_days:
  "fst (run_days pipe ids day_bars tracker ds s) = foldl (\<lambda>st b. fst (pipe b st)) s (concat (map day_bars ds))"
proof (induction ds arbitrary: s)
  case (Cons d ds)
  have "fst (feed_session_day pipe ids (day_bars d) (s, tracker d)) = foldl (\<lambda>st b. fst (pipe b st)) s (day_bars d)"
    by (simp add: fst_feed_session_day)
  with Cons.IH show ?case by (auto split: prod.split)
qed simp

text \<open>
  C36. A run feeds each bar once and in order, warm-up and sessions together: what the engines have seen at the end is every
  bar before the opening of the day after the range, with no bar lost or repeated where one session meets the next. The
  zone's clock is taken to be at most twelve hours from UTC.
\<close>

theorem run_feeds_every_bar_once:
  assumes "sorted (map be_timestamp bars)" "lo \<le> hi + 1" "\<And>w. \<bar>zn_from_et z w - w\<bar> \<le> 12 * HOUR"
  shows "fst (backtest_run pipe new_id z ac sy min_grade max_hold lo hi bars st)
    = foldl (\<lambda>st b. fst (pipe b st)) st [b \<leftarrow> bars. be_timestamp b < pre_market_open z ac (hi + 1)]"
proof -
  have "lo + int (nat (hi + 1 - lo)) = hi + 1" using assms(2) by simp
  with sessions_cover_range [OF assms(1,3), of ac lo "nat (hi + 1 - lo)"]
  have "warmup_bars z ac lo bars @ concat (map (session_bars z ac bars) [lo..hi])
      = [b \<leftarrow> bars. be_timestamp b < pre_market_open z ac (hi + 1)]" by simp
  then show ?thesis by (simp add: backtest_run_def fst_run_days flip: foldl_append)
qed

section \<open>The statistics add up\<close>

definition sum_by :: "('v \<Rightarrow> nat) \<Rightarrow> ('k \<times> 'v) list \<Rightarrow> nat" where
  "sum_by f groups = sum_list (map (f \<circ> snd) groups)"

lemma sum_by_map_default:
  "(\<And>v. f (g v) = f v + n) \<Longrightarrow> f v0 = n \<Longrightarrow> sum_by f (AList.map_default k v0 g groups) = sum_by f groups + n"
  by (induction groups) (auto simp: sum_by_def)

lemma sum_by_group_by:
  assumes "\<And>s g. f (count_in_group s g) = f g + n s" "f NEW_GROUP = 0" "\<And>g. f (with_win_rate g) = f g"
  shows "sum_by f (group_by key signals) = sum_list (map n signals)"
proof -
  have "sum_by f (foldl (\<lambda>groups s. AList.map_default (key s) (count_in_group s NEW_GROUP) (count_in_group s) groups) groups signals)
      = sum_by f groups + sum_list (map n signals)" for groups
    by (induction signals arbitrary: groups) (simp_all add: sum_by_map_default [where n = "n s" for s] assms)
  from this [of "[]"] show ?thesis
    by (simp add: group_by_def sum_by_def comp_def assms(3) case_prod_beta)
qed

lemma group_totals: "sum_by gs_total (group_by key signals) = length signals"
  by (subst sum_by_group_by [where n = "\<lambda>_. 1"])
    (simp_all add: count_in_group_def NEW_GROUP_def with_win_rate_def sum_list_triv)

lemma group_wins: "sum_by gs_wins (group_by key signals) = length [s \<leftarrow> signals. sr_outcome s = ''win'']"
proof -
  have "sum_list (map (\<lambda>s. if sr_outcome s = ''win'' then 1 else 0) signals) = length [s \<leftarrow> signals. sr_outcome s = ''win'']"
    by (induction signals) simp_all
  then show ?thesis
    by (subst sum_by_group_by [where n = "\<lambda>s. if sr_outcome s = ''win'' then 1 else 0"])
      (simp_all add: count_in_group_def NEW_GROUP_def with_win_rate_def)
qed

lemma reason_totals: "sum_by id (exit_reason_counts signals) = length signals"
proof -
  have "sum_by id (foldl (\<lambda>counts s. AList.map_default (sr_exit_reason s) 1 Suc counts) counts signals) = sum_by id counts + length signals" for counts
    by (induction signals arbitrary: counts) (simp_all add: sum_by_map_default [where n = 1])
  from this [of "[]"] show ?thesis by (simp add: exit_reason_counts_def sum_by_def)
qed

lemma outcome_counts:
  "length [s \<leftarrow> xs. P s] + length [s \<leftarrow> xs. Q s] \<le> length xs" if "\<And>s. P s \<Longrightarrow> \<not> Q s"
  using that by (induction xs) auto

text \<open>
  The counts of a summary agree: each signal is completed or incomplete, wins and losses are completed
  signals, and the groups by type, by grade and by exit reason each count every one of theirs once.
\<close>

theorem statistics_add_up:
  "case compute_stats signals of st \<Rightarrow>
     bs_completed st + bs_incomplete st = bs_total_signals st \<and> bs_total_signals st = length signals
     \<and> bs_wins st + bs_losses st \<le> bs_completed st
     \<and> sum_by gs_total (bs_by_setup_type st) = bs_completed st \<and> sum_by gs_total (bs_by_grade st) = bs_completed st
     \<and> sum_by gs_wins (bs_by_setup_type st) = bs_wins st \<and> sum_by gs_wins (bs_by_grade st) = bs_wins st
     \<and> sum_by id (bs_exit_reasons st) = bs_total_signals st"
proof -
  have "length [s \<leftarrow> signals. sr_outcome s \<noteq> ''incomplete''] + length [s \<leftarrow> signals. sr_outcome s = ''incomplete''] = length signals"
    using sum_length_filter_compl [of "\<lambda>s. sr_outcome s \<noteq> ''incomplete''" signals] by simp
  moreover have "length [s \<leftarrow> xs. sr_outcome s = ''win''] + length [s \<leftarrow> xs. sr_outcome s = ''loss''] \<le> length xs" for xs
    by (rule outcome_counts) simp
  ultimately show ?thesis
    by (simp only: compute_stats_def Let_def backtest_stats.simps group_totals group_wins reason_totals simp_thms)
qed

section \<open>Examples\<close>

text \<open>A pipeline that publishes a long setup with every bar: entry 100, stop 95, target 110.\<close>

definition sample_pipeline :: "unit pipeline" where
  "sample_pipeline b s = (s, [[sample_scored ''a'' Grade_A]])"

definition sample_minutes :: "bar_event list" where
  "sample_minutes =
     [sample_ohlc TF_M1 0 99 99 98 99, sample_ohlc TF_M1 60000000 99 101 98 100, sample_ohlc TF_M1 120000000 100 111 94 96]"

definition sample_tracker :: signal_tracker where
  "sample_tracker = tracker_new ''MNQ'' 0 Grade_A 60"

definition sample_position :: open_position where
  "sample_position =
     position_of ''MNQ'' ''p'' 0
       \<lparr>wa_setup_id = ''a'', wa_setup_type = Setup_VWAP_RECLAIM, wa_grade = Grade_A, wa_entry_trigger = 100,
        wa_stop_reference = 95, wa_target_reference = 110\<rparr>"

theorem positions_exit_at_the_first_touch_witness:
  "\<exists>later. tk_signals (snd (feed_session_day sample_pipeline (\<lambda>_. ''q'') sample_minutes
      ((), sample_tracker\<lparr>tk_open := Some sample_position\<rparr>))) = tk_signals (sample_tracker\<lparr>tk_open := Some sample_position\<rparr>) @
    (case find (\<lambda>(i, b). stopped sample_position b \<or> target_reached sample_position b
              \<or> tk_max_hold_bars (sample_tracker\<lparr>tk_open := Some sample_position\<rparr>) \<le> op_bars_held sample_position + int i)
            (enumerate 1 sample_minutes) of
       Some (i, b) \<Rightarrow> signal_of (tk_session_date (sample_tracker\<lparr>tk_open := Some sample_position\<rparr>)) (held_on i sample_position)
         (be_timestamp b) (fill_price sample_position b) (fill_reason sample_position b)
     | None \<Rightarrow> signal_of (tk_session_date (sample_tracker\<lparr>tk_open := Some sample_position\<rparr>))
         (held_on (length sample_minutes) sample_position) (be_timestamp (last sample_minutes)) (be_close (last sample_minutes)) ''session_end'')
    # later"
  by (rule positions_exit_at_the_first_touch) (simp_all add: sample_minutes_def)

theorem signals_do_not_overlap_witness:
  "sorted_wrt (\<lambda>x y. sr_exit_bar_ts x < sr_entry_bar_ts y)
     (tk_signals (snd (feed_session_day sample_pipeline (\<lambda>_. ''q'') sample_minutes ((), tracker_new ''MNQ'' 0 Grade_A 60))))"
  by (rule signals_do_not_overlap [THEN conjunct1]) (simp add: sample_minutes_def sample_ohlc_def)

definition count_bars :: "nat pipeline" where
  "count_bars b n = (n + 1, [])"

definition five_hours :: zone where
  "five_hours = \<lparr>zn_to_et = \<lambda>w. w - 5 * HOUR, zn_from_et = \<lambda>w. w + 5 * HOUR\<rparr>"

theorem run_feeds_every_bar_once_witness:
  "fst (backtest_run count_bars (\<lambda>_. ''q'') five_hours Asset_FUTURE ''MNQ-09'' Grade_A 60 0 0 sample_minutes 0)
   = foldl (\<lambda>st b. fst (count_bars b st)) 0 [b \<leftarrow> sample_minutes. be_timestamp b < pre_market_open five_hours Asset_FUTURE (0 + 1)]"
  by (rule run_feeds_every_bar_once) (simp_all add: sample_minutes_def sample_ohlc_def five_hours_def time_defs)

text \<open>The bar that is entered on is not looked at again: it may have traded through the stop.\<close>

lemma entry_bar_cannot_stop_out:
  "tk_signals (pre_bar ''q'' (sample_ohlc TF_M1 60000000 99 101 90 92) (tracker_on_output [sample_scored ''a'' Grade_A] sample_tracker)) = []"
  "map_option op_stop (tk_open (pre_bar ''q'' (sample_ohlc TF_M1 60000000 99 101 90 92)
     (tracker_on_output [sample_scored ''a'' Grade_A] sample_tracker))) = Some 95"
  by code_simp+

text \<open>A bar that lies beyond the trigger enters at the trigger, a price it never traded.\<close>

lemma entries_fill_at_untraded_prices:
  "map_option op_entry_price (tk_open (pre_bar ''q'' (sample_ohlc TF_M1 60000000 106 108 105 107)
     (tracker_on_output [sample_scored ''a'' Grade_A] sample_tracker))) = Some 100"
  by code_simp

end
