(* ===== verification/Spec2Isabelle.thy ===== *)
theory Spec2Isabelle
  imports Prelude Numerics Float_Math Enums State_Machines Exec_Models Exec_Guards Registry V1_Risk Paper_Router
    Coordinator Coord_Runs Projector Exec_System Risk_Engine Order_Engine Ingestion_Monitor Intrabar
    Position_Monitor Events Flow_Aggregator Snapshots Calendars Setup_Rules Setup_Lifecycle Setup_Engine
    Scoring Market_State Htf_Ema Feature_State Feature_Engine Thesis_Engine Context_Engine Pipeline
    Event_Bus Engine_Lifecycle Decimal_Text Volume_Profile Profile_Store Episodes Interaction_Engine
    Level_Observer Storage Catchup Live_Ingestion Texts Databento_Feed Replay_Common Instruments Backtest
begin

text \<open>
  Alpha Runtime v2, a verification library for the trading core of \<^verbatim>\<open>src/src/alpha\<close>.

  The program. Market data (bars, trades, quotes) enters over an event bus. A flow aggregator seals
  each minute bar with the trades, quotes and one-second bars of its window; the sealed bar
  passes the pipeline of feature, market-state, thesis, setup and scoring engines; confirmed and
  scored setups go to the shadow position monitor, which also looks at one-second bars, the
  intrabar flow and the feed's data quality. Triggered setups go to the risk engine, which sizes a
  trade plan, keeps each account's book and daily result and halts an account through a kill switch; the order
  engine hands plans to a broker adapter. Beside this runs the manual execution subsystem: a user's
  trade intent is gated by readiness and an idempotency key, evaluated by the V1 risk policy against
  the projected market state, held for confirmation when a soft flag is raised, and submitted as a bracket
  to the paper router, whose simulated fills and order updates come back as callbacks.

  Theories and the files they model (paths under \<^verbatim>\<open>src/src/alpha\<close>).
  \<^item> \<open>Prelude\<close>: names for basic types, results as sums, dictionaries, lists.
  \<^item> \<open>Numerics\<close>: the roundings of Python's numbers (\<open>round\<close>, \<open>quantize\<close>, \<open>int\<close>, binary64).
  \<^item> \<open>Enums\<close>: \<^verbatim>\<open>models/enums.py\<close>, one datatype per enumeration with the members' string values.
  \<^item> \<open>State_Machines\<close>: \<^verbatim>\<open>engines/execution/state_machines.py\<close>, the intent and order tables and
    their guards; the locale \<open>status_machine\<close> holds what any such table gives, and
    is interpreted on both.
  \<^item> \<open>Exec_Models\<close>: the records of \<^verbatim>\<open>engines/execution/models.py\<close> and \<^verbatim>\<open>models/order.py\<close>.
  \<^item> \<open>Exec_Guards\<close>: \<^verbatim>\<open>engines/execution/invariants.py\<close>, \<^verbatim>\<open>readiness.py\<close> and \<^verbatim>\<open>stores.py\<close>; the
    locales \<open>idempotency_store\<close> and \<open>intent_journal\<close> state the protocols of
    \<^verbatim>\<open>interfaces.py\<close> and are interpreted on the in-memory stores.
  \<^item> \<open>Registry\<close>: \<^verbatim>\<open>core/registry.py\<close> and \<^verbatim>\<open>models/symbol.py\<close>.
  \<^item> \<open>V1_Risk\<close>: \<^verbatim>\<open>engines/execution/v1_risk.py\<close>, the hard and soft checks, prices and plans.
  \<^item> \<open>Paper_Router\<close>: \<^verbatim>\<open>engines/execution/paper_router.py\<close>; the background coroutines are
    tasks, resumed one at a time between their suspension points.
  \<^item> \<open>Coordinator\<close>, \<open>Coord_Runs\<close>: \<^verbatim>\<open>engines/execution/coordinator.py\<close>, every entry point and
    callback, and what holds over sessions of them.
  \<^item> \<open>Projector\<close>: \<^verbatim>\<open>engines/execution/projector.py\<close>; the locale \<open>market_state_store\<close> is its contract.
  \<^item> \<open>Exec_System\<close>: the wiring of the execution subsystem in
    \<^verbatim>\<open>engines/bootstrap/wiring.py\<close>: coordinator, V1 evaluator and paper router as one
    transition system; the locale \<open>bounded_evaluator\<close> is what the exposure bound needs of an evaluator.
  \<^item> \<open>Risk_Engine\<close>: \<^verbatim>\<open>engines/risk/engine.py\<close> and \<^verbatim>\<open>models/risk.py\<close>.
  \<^item> \<open>Order_Engine\<close>: \<^verbatim>\<open>engines/order/engine.py\<close>, over an abstract broker adapter.
  \<^item> \<open>Ingestion_Monitor\<close>: \<^verbatim>\<open>engines/live/monitor.py\<close>, the data quality state machine.
  \<^item> \<open>Intrabar\<close>: \<^verbatim>\<open>engines/flow/intrabar.py\<close>, the running flow of the current minute.
  \<^item> \<open>Position_Monitor\<close>: \<^verbatim>\<open>engines/position/engine.py\<close>.
  \<^item> \<open>Scoring\<close>: \<^verbatim>\<open>engines/scoring/engine.py\<close>; grades are an instance of \<open>linorder\<close>.
  \<^item> \<open>Float_Math\<close>: monotonicity, bounds and signs of the roundings \<open>fl\<close> and \<open>dq\<close>.
  \<^item> \<open>Events\<close>, \<open>Snapshots\<close>: the market data events, bundles, flow contexts, bar snapshots, market states
    and setups of \<^verbatim>\<open>models/\<close>, and \<^verbatim>\<open>features/slope.py\<close>.
  \<^item> \<open>Calendars\<close>: \<^verbatim>\<open>calendar/\<close>, the NYSE and CME session calendars.
  \<^item> \<open>Flow_Aggregator\<close>: \<^verbatim>\<open>engines/flow/aggregator.py\<close>.
  \<^item> \<open>Htf_Ema\<close>, \<open>Feature_State\<close>, \<open>Feature_Engine\<close>: \<^verbatim>\<open>engines/feature/engine.py\<close>, split as the file is: the
    higher-timeframe averages and ribbon, the per-symbol session state, and the engine with its snapshot.
  \<^item> \<open>Market_State\<close>: \<^verbatim>\<open>engines/market_state/engine.py\<close>.
  \<^item> \<open>Context_Engine\<close>: \<^verbatim>\<open>engines/context/engine.py\<close>.
  \<^item> \<open>Thesis_Engine\<close>: \<^verbatim>\<open>engines/thesis/engine.py\<close> and \<^verbatim>\<open>models/thesis.py\<close>.
  \<^item> \<open>Setup_Rules\<close>, \<open>Setup_Lifecycle\<close>, \<open>Setup_Engine\<close>: \<^verbatim>\<open>engines/setup/engine.py\<close>: the detection rules, what
    one bar does to a setup of each type, and the tables, cooldowns, history and events of the engine.
  \<^item> \<open>Pipeline\<close>: \<^verbatim>\<open>engines/flow/pipeline.py\<close>, the five stages on the engines above and the output event.
  \<^item> \<open>Event_Bus\<close>: \<^verbatim>\<open>core/event_bus.py\<close>; publishers, handlers and cancellations interleave in any order.
  \<^item> \<open>Engine_Lifecycle\<close>: \<^verbatim>\<open>core/engine.py\<close> and \<^verbatim>\<open>core/clock.py\<close>, calls and hook ends as separate steps.
  \<^item> \<open>Decimal_Text\<close>, \<open>Volume_Profile\<close>, \<open>Profile_Store\<close>: \<^verbatim>\<open>features/volume_profile.py\<close>, the JSON store of
    \<^verbatim>\<open>features/volume_profile_loader.py\<close> and \<^verbatim>\<open>scripts/build_volume_profiles.py\<close> (beside \<^verbatim>\<open>src\<close>).
  \<^item> \<open>Episodes\<close>, \<open>Interaction_Engine\<close>: \<^verbatim>\<open>research/interaction/\<close>, the episode manager, its subscriber
    and the buffered writer.
  \<^item> \<open>Level_Observer\<close>: \<^verbatim>\<open>research/level_observer.py\<close>, \<^verbatim>\<open>research/models.py\<close> and
    \<^verbatim>\<open>research/parquet_writer.py\<close>; a write may fail at any part.
  \<^item> \<open>Storage\<close>: \<^verbatim>\<open>engines/storage/engine.py\<close> and \<^verbatim>\<open>engines/storage/parquet.py\<close>: queue, buffers, flushes as
    jobs that interleave, the rows of every event, the merge of a batch into its file.
  \<^item> \<open>Catchup\<close>: \<^verbatim>\<open>engines/bootstrap/catchup.py\<close> and \<^verbatim>\<open>engines/historical/engine.py\<close>.
  \<^item> \<open>Live_Ingestion\<close>: \<^verbatim>\<open>engines/live/engine.py\<close> and \<^verbatim>\<open>engines/live/ingress_observer.py\<close>.
  \<^item> \<open>Databento_Feed\<close>: \<^verbatim>\<open>engines/live/adapters/databento.py\<close> and its connection to the live engine; the record loop,
    the end of a session, the reconnect after the wait, calls of the engine and the consumer interleave in any order.
  \<^item> \<open>Instruments\<close>: \<^verbatim>\<open>instruments.py\<close>, the table of futures, their contract months and the resolution of tickers.
  \<^item> \<open>Replay_Common\<close>, \<open>Backtest\<close>: \<^verbatim>\<open>scripts/replay_common.py\<close> and \<^verbatim>\<open>scripts/backtest.py\<close> (beside \<^verbatim>\<open>src\<close>): loading
    and auditing bars, the guard of \<open>--persist\<close>, the simulated positions, the days of a run and its statistics.
  \<^item> \<open>Texts\<close>: searching, lowering and splitting of text, for these theories.
\<close>

text \<open>
  State and operations. A class becomes a record of its attributes and one function per method that
  takes the record and returns it updated, together with the value or exception (\<open>Inl\<close>) and the
  calls it makes to other parts (lists of notifications, order calls, published events). What a method
  reads from outside (clocks, fresh UUIDs, the session calendar, replies of a broker) is an
  argument. Dictionaries whose order matters are association lists, the others maps. Formatted
  messages are constructors with the values they show.

  What the lemmas show. Guards: when a check raises. Coordinator: which steps a status can
  take, that every submission spends one idempotency key, that pending intents wait for
  a confirmation, what a submission and a confirmation do on each branch. V1 risk: the verdict is its
  policy, the bracket's geometry, the exposure bound, which \<open>Exec_System\<close> lifts to every
  run of the wired system. Router: the lifecycle of a bracket and that fills are a
  sub-multiset of the submitted entries over every interleaving. Engines of the pipeline: each state is what
  the history of its bars says (folds over the bars of the session, of the day, of the last
  minute), every setup and thesis moves along its state machine only, tables stay well formed, risk is
  bounded at confirmation, and a bar is published once or lost to one named error. Risk engine: the profit identity
  of the book with the error that rounding leaves, limits of forwarded plans, exactness and persistence of the halt. Feed and position
  monitor: what blocks an entry, which setup an entry takes. Event bus: every queue is first in first out
  over every interleaving and within its bound. Lifecycle: every state an engine
  passes follows the one before it by an arrow of the state machine, when no two of its calls overlap. Volume profiles: conservation of volume, the extent of the value area, termination of both loops, and that a
  stored profile is read back. Episodes: each agrees with its bars, a gap invalidates, and the
  writer keeps every row. Observations: recorded once, in a bounded buffer. Storage: live trades are
  not overwritten, a stored bar is read back, no row is lost as long as flushes do not overlap, and how
  one is when they do. Catch-up: exactly the missing grid points are fetched, resampling conserves
  the bars. Live feed: quotes are published when they change, the forming candle is its trades. Vendor adapter: every
  record read is dispatched, queued or counted as dropped, a reconnect restores the subscriptions on record, and nothing tells
  the monitor of a drop. Contract months: the first quarter whose expiry is ahead. Backtest: a position ends
  at its first touch, signals of a day do not overlap, every bar is fed once, the statistics add up. Some
  theorems state behaviour the code's own comments exclude; the manifest lists them as findings.

  Abstractions and bounds. \<open>Decimal\<close> values are rationals; the market data engines and the risk engine round each operation to
  28 digits by \<open>dq\<close>. The manual execution theories (V1 risk, coordinator, router, projector), the position monitor and
  the flow leave them exact: sums and products of prices on a tick and of integer quantities have fewer digits, and a
  quotient is next rounded to a tick or a float, or only compared with a bound. A float is a rational rounded after
  each operation by \<open>fl\<close> (53 bits, ties to even), without overflow, infinities or subnormals. Times are
  integers, in microseconds. Coroutines of the coordinator run without interruption: the in-memory
  journal and the paper router never suspend before their effect is complete; the router's sleeps
  are suspension points of the model. One broker synchronisation of the risk engine is one
  step. A Parquet file is the list of its columns and rows; a cell of a
  decimal or a time stands for its text, which Python reads back as the same value, a UUID derived from a
  key for the key. No definition uses fuel: every recursion is structural over a finite list of commands,
  events or tasks, or goes down the length of a list that is cut into chunks, but for the search for a trading day and the two loops of the volume profile, which may not
  end and are \<open>partial_function\<close>s with a proof of when they do.

  Parameters. The broker adapters, the client of the feed's vendor, the historical sources, the exchange's list of sessions and the zone
  database of the calendars, the profiles the feature engine reads, which reads and writes of files fail, fresh
  identifiers and clocks, and the router of the coordinator where a lemma holds for any router.

  Not modelled: the HTTP and WebSocket interface, notifications, settings, the other vendor adapters of the feed, the adapters of the
  brokers and the historical sources, the start-up order of \<^verbatim>\<open>engines/bootstrap/engine.py\<close>, the PostgreSQL
  stub, the SQL of \<^verbatim>\<open>research/query.py\<close>, the other scripts and the web client: they move data
  between services, or format it. Health reports only read state.
\<close>

end
